(* ===== verification/Prelude.thy ===== *)
theory Prelude
  imports Main
begin

text \<open>
  Shared vocabulary of the development: the errors the packages return, the result of a
  fallible Go function, database transactions, and the locales that state the contracts
  several components share (a transactional operation, a latch, a monotone counter).

  A Go function \<open>f(args) (T, error)\<close> becomes a HOL function into \<open>go_err + 'a\<close>, \<open>Inl\<close> being
  a non-nil error. The value that Go returns beside a non-nil error is not modelled.
  Every JSON column of a SQLite table holds the Go value that was marshalled into it.
\<close>

section \<open>Errors\<close>

text \<open>
  One constructor for every error value the modelled packages compare or return. Packages
  that reuse a name are told apart by a prefix; the errors of the portal's mail, clients, billing
  and shop are a datatype of their own, wrapped in \<open>PortalErr\<close>. The last group stands for errors made
  outside the repository: \<open>Panic\<close> for a run-time panic, \<open>ErrDriver\<close> for whatever the SQLite driver reports, \<open>ErrContext\<close>
  for a cancelled or expired context, \<open>ErrOS\<close> for a failed system call, \<open>ErrProvider\<close> for an
  error returned by an external provider.
\<close>
datatype portal_err =
    ErrMail | ErrMailSend | ErrMailPayload | ErrMailDecrypt | ErrMailEnvelope
  | ErrClientInviteRate | ErrClientSignupApproval | ErrClientUnavailable | ErrClientLimit
  | ErrBillingCapacity | ErrBillingUnmatched | ErrWebhook | ErrProvider
  | ErrMerchantProductConflict | ErrMerchantProviderMode | ErrMerchantRateLimited | ErrMerchantUnavailable

datatype go_err =
    Router_ErrInvalid | Router_ErrConflict | ErrStale | ErrUnhealthy | ErrRetired | ErrServingOwned
  | ErrAssignment | Launch_ErrConflict | Launch_ErrCapacity | Launch_ErrNotFound | ErrRetirement
  | ErrRuntimeUsage | ErrServiceStatus
  | Inbox_ErrAssignment | Inbox_ErrConflict | Inbox_ErrCapacity
  | ErrDenied | Portal_ErrInvalid | ErrCredentials | ErrExists | Portal_ErrConflict
  | ErrLastOwner | ErrPublishing | ErrRetained | ErrProjectDeleting | ErrQuota | ErrArchive
  | ErrContainerUnavailable | ErrHostingCapacity | ErrHostingPayment | ErrHostingPlanLimit
  | ErrHostingEvidence | ErrBillingConflict
  | ErrBuildConflict | ErrBuildQuota | ErrBuildLease | ErrPlan
  | PortalErr portal_err
  | ErrArtifact | ErrNoRows | ErrClosed | Panic | ErrDriver | ErrContext | ErrOS

type_synonym 'a result = "go_err + 'a"

section \<open>Transactions\<close>

text \<open>
  The store operations have one shape: \<open>BeginTx\<close>, \<open>defer tx.Rollback()\<close>, statements,
  \<open>tx.Commit()\<close>. \<open>with_tx drv body\<close> is that shape. The argument \<open>drv\<close> says whether the
  driver reports an error somewhere in this transaction (at begin, at a statement or at
  commit): then the transaction is rolled back and the error is returned. An error
  return of the body rolls back too.
\<close>

type_synonym driver = "go_err option"

definition with_tx :: "driver \<Rightarrow> ('db \<Rightarrow> 'a result \<times> 'db) \<Rightarrow> 'db \<Rightarrow> 'a result \<times> 'db" where
  "with_tx drv body db =
     (case drv of
        Some e \<Rightarrow> (Inl e, db)
      | None \<Rightarrow> (case body db of
                   (Inl e, _) \<Rightarrow> (Inl e, db)
                 | (Inr a, db') \<Rightarrow> (Inr a, db')))"

named_theorems tx_simps "how a transaction commits and rolls back"
named_theorems guard_defs "definitions of the guards of the handlers"

lemma with_tx_driver [tx_simps]: "with_tx (Some e) body db = (Inl e, db)"
  by (simp add: with_tx_def)

lemma with_tx_rollback [tx_simps]: "body db = (Inl e, db') \<Longrightarrow> with_tx None body db = (Inl e, db)"
  by (simp add: with_tx_def)

lemma with_tx_commit [tx_simps]: "body db = (Inr a, db') \<Longrightarrow> with_tx None body db = (Inr a, db')"
  by (simp add: with_tx_def)

lemma with_tx_Inr_iff:
  "with_tx drv body db = (Inr a, db') \<longleftrightarrow> drv = None \<and> body db = (Inr a, db')"
  by (auto simp: with_tx_def split: option.splits prod.splits sum.splits)

lemma with_tx_error_frame: "fst (with_tx drv body db) = Inl e \<Longrightarrow> snd (with_tx drv body db) = db"
  by (auto simp: with_tx_def split: option.splits prod.splits sum.splits)

text \<open>
  The one rule every invariant proof of a transactional handler uses: only the committing
  branch of the body has to be looked at.
\<close>

lemma with_tx_invariant:
  assumes "P db" and "\<And>a db'. body db = (Inr a, db') \<Longrightarrow> P db'"
  shows "P (snd (with_tx drv body db))"
  using assms by (auto simp: with_tx_def split: option.splits prod.splits sum.splits)

lemma with_tx_cases: "snd (with_tx drv body db) = db \<or> (\<exists>a. body db = (Inr a, snd (with_tx drv body db)))"
  by (auto simp: with_tx_def split: option.splits prod.splits sum.splits)

section \<open>Runs\<close>

text \<open>A sequence of calls of one operation family, each from the state the last one left.\<close>

fun run_ops :: "('i \<Rightarrow> 's \<Rightarrow> 'r \<times> 's) \<Rightarrow> 'i list \<Rightarrow> 's \<Rightarrow> 's" where
  "run_ops op [] s = s"
| "run_ops op (i # is) s = run_ops op is (snd (op i s))"

lemma run_ops_append: "run_ops op (xs @ ys) s = run_ops op ys (run_ops op xs s)"
  by (induction xs arbitrary: s) auto

lemma run_ops_preserves:
  assumes "\<And>i s. P s \<Longrightarrow> P (snd (op i s))" and "P s"
  shows "P (run_ops op is s)"
  using assms(2) by (induction "is" arbitrary: s) (auto intro: assms(1))

lemma run_ops_preserves_set:
  assumes "\<And>i s. i \<in> set is \<Longrightarrow> P s \<Longrightarrow> P (snd (op i s))" and "P s"
  shows "P (run_ops op is s)"
  using assms by (induction "is" arbitrary: s) auto

section \<open>Contracts shared by the components\<close>

text \<open>
  A transactional store: every operation keeps the invariant, and an operation that
  returns an error has changed nothing.
\<close>

locale transactional =
  fixes op :: "'i \<Rightarrow> 's \<Rightarrow> 'a result \<times> 's"
    and inv :: "'s \<Rightarrow> bool"
  assumes op_inv: "inv s \<Longrightarrow> inv (snd (op i s))"
    and op_error: "fst (op i s) = Inl e \<Longrightarrow> snd (op i s) = s"
begin

lemma run_inv: "inv s \<Longrightarrow> inv (run_ops op is s)"
  by (rule run_ops_preserves [where P = inv]) (auto intro: op_inv)

lemma run_errors:
  assumes "\<And>i s. i \<in> set is \<Longrightarrow> \<exists>e. fst (op i s) = Inl e"
  shows "run_ops op is s = s"
  using assms
proof (induction "is" arbitrary: s)
  case Nil
  then show ?case by simp
next
  case (Cons i "is")
  then obtain e where "fst (op i s) = Inl e"
    by (meson list.set_intros(1))
  then have "snd (op i s) = s" by (rule op_error)
  with Cons show ?case by simp
qed

end

text \<open>
  A stable fact: a one-way bit that every operation of the family keeps once it is set.
\<close>

locale stable =
  fixes op :: "'i \<Rightarrow> 's \<Rightarrow> 'a result \<times> 's"
    and latched :: "'k \<Rightarrow> 's \<Rightarrow> bool"
  assumes latched_op: "latched k s \<Longrightarrow> latched k (snd (op i s))"
begin

lemma run_latched: "latched k s \<Longrightarrow> latched k (run_ops op is s)"
  by (rule run_ops_preserves [where P = "latched k"]) (auto intro: latched_op)

end

text \<open>
  A latch (a retirement tombstone, a terminal job state): a stable fact that makes every
  operation guarded by it fail.
\<close>

locale latch = stable op latched
  for op :: "'i \<Rightarrow> 's \<Rightarrow> 'a result \<times> 's"
    and latched :: "'k \<Rightarrow> 's \<Rightarrow> bool" +
  fixes guarded :: "'k \<Rightarrow> 'i \<Rightarrow> bool"
  assumes blocked: "latched k s \<Longrightarrow> guarded k i \<Longrightarrow> \<exists>e. fst (op i s) = Inl e"
begin

lemma run_blocked:
  assumes "latched k s" and "guarded k i"
  shows "\<exists>e. fst (op i (run_ops op is s)) = Inl e"
  using run_latched [OF assms(1)] assms(2) by (rule blocked)

end

text \<open>A counter that no operation of the family lowers (a revision, a generation).\<close>

locale monotone_counter =
  fixes op :: "'i \<Rightarrow> 's \<Rightarrow> 'a result \<times> 's"
    and counter :: "'s \<Rightarrow> 'n :: linorder"
  assumes counter_op: "counter s \<le> counter (snd (op i s))"
begin

lemma run_counter: "counter s \<le> counter (run_ops op is s)"
proof (induction "is" arbitrary: s)
  case Nil
  then show ?case by simp
next
  case (Cons i "is")
  have "counter s \<le> counter (snd (op i s))" by (rule counter_op)
  also have "\<dots> \<le> counter (run_ops op is (snd (op i s)))" by (rule Cons.IH)
  finally show ?case by simp
qed

end

section \<open>Tables\<close>

text \<open>
  A SQL table is the list of its rows in insertion order. \<open>get_row key k\<close> is
  \<open>SELECT ... WHERE key = k\<close>, \<open>upd_row key k f\<close> is \<open>UPDATE ... SET ... WHERE key = k\<close>.
\<close>

definition get_row :: "('r \<Rightarrow> 'k) \<Rightarrow> 'k \<Rightarrow> 'r list \<Rightarrow> 'r option" where
  "get_row key k rows = List.find (\<lambda>r. key r = k) rows"

definition upd_row :: "('r \<Rightarrow> 'k) \<Rightarrow> 'k \<Rightarrow> ('r \<Rightarrow> 'r) \<Rightarrow> 'r list \<Rightarrow> 'r list" where
  "upd_row key k f rows = map (\<lambda>r. if key r = k then f r else r) rows"

lemma get_row_simps [simp]:
  "get_row key k [] = None"
  "get_row key k (r # rows) = (if key r = k then Some r else get_row key k rows)"
  by (simp_all add: get_row_def)

lemma get_row_SomeD: "get_row key k rows = Some r \<Longrightarrow> r \<in> set rows \<and> key r = k"
  by (induction rows) (auto split: if_splits)

lemma get_row_None: "get_row key k rows = None \<longleftrightarrow> k \<notin> key ` set rows"
  by (induction rows) auto

lemma get_row_append:
  "get_row key k (xs @ ys) = (case get_row key k xs of Some r \<Rightarrow> Some r | None \<Rightarrow> get_row key k ys)"
  by (induction xs) auto

lemma get_row_unique:
  "distinct (map key rows) \<Longrightarrow> r \<in> set rows \<Longrightarrow> get_row key (key r) rows = Some r"
  by (induction rows) auto

lemma upd_row_simps [simp]:
  "upd_row key k f [] = []"
  "upd_row key k f (r # rows) = (if key r = k then f r else r) # upd_row key k f rows"
  by (simp_all add: upd_row_def)

lemma get_upd_row:
  assumes "\<And>r. key (f r) = key r"
  shows "get_row key k' (upd_row key k f rows)
       = (if k' = k then map_option f (get_row key k' rows) else get_row key k' rows)"
  using assms by (induction rows) auto

lemma get_row_map:
  assumes "\<And>r. key (f r) = key r"
  shows "get_row key k (map f rows) = map_option f (get_row key k rows)"
  using assms by (induction rows) auto

lemma set_upd_row: "set (upd_row key k f rows) = (\<lambda>r. if key r = k then f r else r) ` set rows"
  by (simp add: upd_row_def)

lemma map_upd_row:
  assumes "\<And>r. r \<in> set rows \<Longrightarrow> key r = k \<Longrightarrow> g (f r) = g r"
  shows "map g (upd_row key k f rows) = map g rows"
  using assms by (induction rows) auto

lemma upd_row_append: "upd_row key k f (xs @ ys) = upd_row key k f xs @ upd_row key k f ys"
  by (simp add: upd_row_def)

lemma upd_row_absent: "k \<notin> key ` set rows \<Longrightarrow> upd_row key k f rows = rows"
  by (induction rows) auto

text \<open>An update that revives no row keeps the unique index over the rows that satisfy \<open>P\<close>.\<close>

lemma distinct_upd_row_filter:
  assumes "distinct (map g (filter P rows))"
    and "\<And>r. r \<in> set rows \<Longrightarrow> key r = k \<Longrightarrow> g (f r) = g r \<and> (P (f r) \<longrightarrow> P r)"
  shows "distinct (map g (filter P (upd_row key k f rows)))
       \<and> g ` set (filter P (upd_row key k f rows)) \<subseteq> g ` set (filter P rows)"
  using assms
proof (induction rows)
  case Nil
  then show ?case by simp
next
  case (Cons r rows)
  have tl: "distinct (map g (filter P rows))" using Cons.prems(1) by (simp split: if_splits)
  have IH: "distinct (map g (filter P (upd_row key k f rows)))"
    "g ` set (filter P (upd_row key k f rows)) \<subseteq> g ` set (filter P rows)"
    using Cons.IH [OF tl] Cons.prems(2) by auto
  let ?r = "if key r = k then f r else r"
  have r: "g ?r = g r" "P ?r \<longrightarrow> P r" using Cons.prems(2) by auto
  show ?case
  proof (cases "P ?r")
    case True
    with r have "P r" by simp
    with Cons.prems(1) have "g r \<notin> g ` set (filter P rows)" by auto
    with IH r True \<open>P r\<close> show ?thesis by auto
  next
    case False
    with IH show ?thesis by auto
  qed
qed

text \<open>\<open>INSERT\<close> into a table with a unique key; a violation is an error of the driver.\<close>

definition insert_row :: "('r \<Rightarrow> 'k) \<Rightarrow> 'r \<Rightarrow> 'r list \<Rightarrow> 'r list result" where
  "insert_row key r rows = (if list_ex (\<lambda>q. key q = key r) rows then Inl ErrDriver else Inr (rows @ [r]))"

lemma insert_row_Inr: "insert_row key r rows = Inr rows' \<longleftrightarrow> key r \<notin> key ` set rows \<and> rows' = rows @ [r]"
  by (auto simp: insert_row_def list_ex_iff) (metis image_eqI)

section \<open>Sequencing\<close>

text \<open>
  Statements of a transaction one after the other: the first error ends it. \<open>in_tx\<close> runs a
  body that gives a value and the new database, or an error, as a transaction.
\<close>

definition andThen :: "'a result \<Rightarrow> ('a \<Rightarrow> 'b result) \<Rightarrow> 'b result" where
  "andThen m f = (case m of Inl e \<Rightarrow> Inl e | Inr a \<Rightarrow> f a)"

definition guard :: "go_err \<Rightarrow> bool \<Rightarrow> unit result" where
  "guard e ok = (if ok then Inr () else Inl e)"

definition some_or :: "go_err \<Rightarrow> 'a option \<Rightarrow> 'a result" where
  "some_or e x = (case x of None \<Rightarrow> Inl e | Some a \<Rightarrow> Inr a)"

definition in_tx :: "driver \<Rightarrow> ('db \<Rightarrow> ('a \<times> 'db) result) \<Rightarrow> 'db \<Rightarrow> 'a result \<times> 'db" where
  "in_tx drv body = with_tx drv (\<lambda>db. case body db of Inl e \<Rightarrow> (Inl e, db) | Inr (a, db') \<Rightarrow> (Inr a, db'))"

lemma andThen_Inr [simp]: "andThen m f = Inr b \<longleftrightarrow> (\<exists>a. m = Inr a \<and> f a = Inr b)"
  by (auto simp: andThen_def split: sum.splits)

lemma andThen_simps: "andThen (Inr a) f = f a" "andThen (Inl e) f = Inl e"
  by (simp_all add: andThen_def)

lemma guard_Inr [simp]: "guard e ok = Inr u \<longleftrightarrow> ok"
  by (auto simp: guard_def)

lemma guard_simps: "guard e True = Inr ()" "guard e False = Inl e"
  by (simp_all add: guard_def)

lemma some_or_Inr [simp]: "some_or e x = Inr a \<longleftrightarrow> x = Some a"
  by (auto simp: some_or_def split: option.splits)

lemma some_or_simps: "some_or e None = Inl e" "some_or e (Some a) = Inr a"
  by (simp_all add: some_or_def)

lemma in_tx_Inr_iff: "in_tx drv body db = (Inr a, db') \<longleftrightarrow> drv = None \<and> body db = Inr (a, db')"
  by (auto simp: in_tx_def with_tx_Inr_iff split: sum.splits prod.splits)

lemma in_tx_cases: "snd (in_tx drv body db) = db \<or> (\<exists>a. body db = Inr (a, snd (in_tx drv body db)))"
  by (auto simp: in_tx_def with_tx_def split: option.splits prod.splits sum.splits)

lemma in_tx_error: "fst (in_tx drv body db) = Inl e \<Longrightarrow> snd (in_tx drv body db) = db"
  unfolding in_tx_def by (rule with_tx_error_frame)

lemma in_tx_invariant:
  assumes "P db" and "\<And>a db'. body db = Inr (a, db') \<Longrightarrow> P db'"
  shows "P (snd (in_tx drv body db))"
  using in_tx_cases [of drv body db] assms by auto

lemmas seq_simps = andThen_simps guard_simps some_or_simps

section \<open>Small lemmas\<close>

lemma if_error_Inr: "(if A then Inl e else x) = Inr y \<longleftrightarrow> \<not> A \<and> x = Inr y"
  by simp

lemma find_SomeD: "List.find P xs = Some x \<Longrightarrow> x \<in> set xs \<and> P x"
  by (induction xs) (auto split: if_splits)

end
