(* ===== verification/Go_Lib.thy ===== *)
theory Go_Lib
  imports Prelude
begin

text \<open>
  The parts of the Go standard library the modelled code calls: \<open>encoding/hex\<close>,
  \<open>strings\<close> (\<open>HasPrefix\<close>, \<open>TrimPrefix\<close>, \<open>TrimSuffix\<close>, \<open>Split\<close>, \<open>Cut\<close>, \<open>Fields\<close>, \<open>TrimSpace\<close>,
  \<open>ContainsAny\<close>) and \<open>strconv\<close> (\<open>ParseUint\<close>, \<open>FormatUint\<close>). A Go string is a byte
  sequence: a HOL \<open>string\<close> whose characters are the bytes.
\<close>

section \<open>Bytes\<close>

definition byte_of :: "char \<Rightarrow> nat" where
  "byte_of c = of_char c"

lemma byte_of_less: "byte_of c < 256"
  by (simp add: byte_of_def)

section \<open>encoding/hex\<close>

definition from_hex_char :: "char \<Rightarrow> nat option" where
  "from_hex_char c =
     (let n = byte_of c in
      if 48 \<le> n \<and> n \<le> 57 then Some (n - 48)
      else if 97 \<le> n \<and> n \<le> 102 then Some (n - 87)
      else if 65 \<le> n \<and> n \<le> 70 then Some (n - 55)
      else None)"

definition to_hex_char :: "nat \<Rightarrow> char" where
  "to_hex_char n = (if n < 10 then char_of (48 + n) else char_of (87 + n))"

text \<open>\<open>hex.DecodeString\<close>: pairs of digits of either case; an odd length or a bad digit is an error.\<close>

fun hex_decode :: "string \<Rightarrow> nat list option" where
  "hex_decode [] = Some []"
| "hex_decode [c] = None"
| "hex_decode (c # d # cs) =
     (case (from_hex_char c, from_hex_char d, hex_decode cs) of
        (Some a, Some b, Some bs) \<Rightarrow> Some ((16 * a + b) # bs)
      | _ \<Rightarrow> None)"

fun hex_encode :: "nat list \<Rightarrow> string" where
  "hex_encode [] = []"
| "hex_encode (b # bs) = to_hex_char (b div 16) # to_hex_char (b mod 16) # hex_encode bs"

text \<open>
  The identifier check that \<open>noderouter.digestID\<close> and \<open>nodelaunch.id\<close> share: the string
  decodes to 32 bytes and is the canonical encoding of them.
\<close>

definition digestID :: "string \<Rightarrow> bool" where
  "digestID s =
     (case hex_decode s of
        None \<Rightarrow> False
      | Some v \<Rightarrow> length v = 32 \<and> hex_encode v = s)"

definition lower_hex :: "char \<Rightarrow> bool" where
  "lower_hex c \<longleftrightarrow> (48 \<le> byte_of c \<and> byte_of c \<le> 57) \<or> (97 \<le> byte_of c \<and> byte_of c \<le> 102)"

lemma byte_of_char_of [simp]: "n < 256 \<Longrightarrow> byte_of (char_of n) = n"
  by (simp add: byte_of_def)

lemma from_to_hex [simp]: "n < 16 \<Longrightarrow> from_hex_char (to_hex_char n) = Some n"
  by (simp add: from_hex_char_def to_hex_char_def)

lemma to_hex_lower: "n < 16 \<Longrightarrow> lower_hex (to_hex_char n)"
  by (simp add: lower_hex_def to_hex_char_def)

lemma to_from_hex:
  assumes "lower_hex c"
  obtains n where "from_hex_char c = Some n" "n < 16" "to_hex_char n = c"
proof -
  have c: "char_of (byte_of c) = c" by (simp add: byte_of_def)
  show ?thesis
  proof (cases "byte_of c \<le> 57")
    case True
    with assms have "from_hex_char c = Some (byte_of c - 48)" "byte_of c - 48 < 16"
      "to_hex_char (byte_of c - 48) = c"
      using c by (auto simp: from_hex_char_def to_hex_char_def lower_hex_def)
    then show ?thesis by (rule that)
  next
    case False
    with assms have "from_hex_char c = Some (byte_of c - 87)" "byte_of c - 87 < 16"
      "to_hex_char (byte_of c - 87) = c"
      using c by (auto simp: from_hex_char_def to_hex_char_def lower_hex_def)
    then show ?thesis by (rule that)
  qed
qed

lemma hex_decode_encode: "\<forall>b \<in> set bs. b < 256 \<Longrightarrow> hex_decode (hex_encode bs) = Some bs"
  by (induction bs) auto

lemma hex_encode_lower: "\<forall>b \<in> set bs. b < 256 \<Longrightarrow> \<forall>c \<in> set (hex_encode bs). lower_hex c"
  by (induction bs) (auto intro: to_hex_lower)

lemma length_hex_encode [simp]: "length (hex_encode bs) = 2 * length bs"
  by (induction bs) auto

lemma from_hex_less: "from_hex_char c = Some n \<Longrightarrow> n < 16"
  by (auto simp: from_hex_char_def Let_def split: if_splits)

lemma hex_decode_bytes: "hex_decode s = Some bs \<Longrightarrow> \<forall>b \<in> set bs. b < 256"
proof (induction s arbitrary: bs rule: hex_decode.induct)
  case (3 c d cs)
  then show ?case
    by (fastforce split: option.splits dest: from_hex_less)
qed auto

lemma hex_decode_lower:
  assumes "\<forall>c \<in> set s. lower_hex c" and "even (length s)"
  shows "\<exists>bs. hex_decode s = Some bs \<and> 2 * length bs = length s \<and> hex_encode bs = s"
  using assms
proof (induction s rule: hex_decode.induct)
  case (3 c d cs)
  then obtain bs where bs: "hex_decode cs = Some bs" "2 * length bs = length cs" "hex_encode bs = cs"
    by auto
  from 3 obtain a where a: "from_hex_char c = Some a" "a < 16" "to_hex_char a = c"
    by (metis list.set_intros(1) to_from_hex)
  from 3 obtain b where b: "from_hex_char d = Some b" "b < 16" "to_hex_char b = d"
    by (metis list.set_intros(1,2) to_from_hex)
  from a b have "(16 * a + b) div 16 = a" "(16 * a + b) mod 16 = b" by auto
  with a b bs show ?case by simp
qed auto

lemma digestID_iff: "digestID s \<longleftrightarrow> length s = 64 \<and> (\<forall>c \<in> set s. lower_hex c)"
proof
  assume "digestID s"
  then obtain v where v: "hex_decode s = Some v" "length v = 32" "hex_encode v = s"
    by (auto simp: digestID_def split: option.splits)
  from v(1) have "\<forall>b \<in> set v. b < 256" by (rule hex_decode_bytes)
  then have "\<forall>c \<in> set s. lower_hex c" using hex_encode_lower v(3) by blast
  moreover have "length s = 64" using v(2,3) length_hex_encode [of v] by simp
  ultimately show "length s = 64 \<and> (\<forall>c \<in> set s. lower_hex c)" by simp
next
  assume s: "length s = 64 \<and> (\<forall>c \<in> set s. lower_hex c)"
  then have "even (length s)" by simp
  with s obtain bs where bs: "hex_decode s = Some bs" "2 * length bs = length s" "hex_encode bs = s"
    using hex_decode_lower by blast
  with s show "digestID s" by (simp add: digestID_def)
qed

lemma digestID_replicate [simp]: "lower_hex c \<Longrightarrow> digestID (replicate 64 c)"
  by (simp add: digestID_iff)

section \<open>strings\<close>

definition hasPrefix :: "string \<Rightarrow> string \<Rightarrow> bool" where
  "hasPrefix s p \<longleftrightarrow> take (length p) s = p"

definition trimPrefix :: "string \<Rightarrow> string \<Rightarrow> string" where
  "trimPrefix s p = (if hasPrefix s p then drop (length p) s else s)"

definition hasSuffix :: "string \<Rightarrow> string \<Rightarrow> bool" where
  "hasSuffix s p \<longleftrightarrow> hasPrefix (rev s) (rev p)"

definition trimSuffix :: "string \<Rightarrow> string \<Rightarrow> string" where
  "trimSuffix s p = (if hasSuffix s p then take (length s - length p) s else s)"

lemma hasPrefix_iff: "hasPrefix s p \<longleftrightarrow> (\<exists>t. s = p @ t)"
  by (auto simp: hasPrefix_def) (metis append_take_drop_id)

lemma hasPrefix_append [simp]: "hasPrefix (p @ t) p"
  by (auto simp: hasPrefix_iff)

lemma trimPrefix_append [simp]: "trimPrefix (p @ t) p = t"
  by (simp add: trimPrefix_def)

text \<open>\<open>strings.Split\<close> with a one-byte separator: never empty.\<close>

fun splitByte :: "char \<Rightarrow> string \<Rightarrow> string list" where
  "splitByte sep [] = [[]]"
| "splitByte sep (c # cs) =
     (if c = sep then [] # splitByte sep cs
      else (case splitByte sep cs of
              [] \<Rightarrow> [[c]]
            | w # ws \<Rightarrow> (c # w) # ws))"

lemma splitByte_not_Nil [simp]: "splitByte sep s \<noteq> []"
  by (induction s) (auto split: list.splits)

fun joinByte :: "char \<Rightarrow> string list \<Rightarrow> string" where
  "joinByte sep [] = []"
| "joinByte sep [w] = w"
| "joinByte sep (w # v # ws) = w @ sep # joinByte sep (v # ws)"

lemma joinByte_Cons: "ws \<noteq> [] \<Longrightarrow> joinByte sep (w # ws) = w @ sep # joinByte sep ws"
  by (cases ws) auto

lemma join_splitByte: "joinByte sep (splitByte sep s) = s"
proof (induction s)
  case Nil
  then show ?case by simp
next
  case (Cons c cs)
  obtain w ws where ws: "splitByte sep cs = w # ws"
    by (cases "splitByte sep cs") auto
  show ?case
  proof (cases "c = sep")
    case True
    with Cons show ?thesis by (simp add: joinByte_Cons)
  next
    case False
    with Cons ws show ?thesis by (cases ws) auto
  qed
qed

lemma splitByte_append: "sep \<notin> set w \<Longrightarrow> splitByte sep (w @ sep # s) = w # splitByte sep s"
  by (induction w) auto

lemma splitByte_single: "sep \<notin> set w \<Longrightarrow> splitByte sep w = [w]"
  by (induction w) auto

lemma split_joinByte:
  "ws \<noteq> [] \<Longrightarrow> \<forall>w \<in> set ws. sep \<notin> set w \<Longrightarrow> splitByte sep (joinByte sep ws) = ws"
  by (induction sep ws rule: joinByte.induct) (auto simp: splitByte_single splitByte_append)

text \<open>\<open>strings.Cut\<close> at a one-byte separator: \<open>None\<close> when it does not occur.\<close>

fun cutByte :: "char \<Rightarrow> string \<Rightarrow> (string \<times> string) option" where
  "cutByte sep [] = None"
| "cutByte sep (c # cs) =
     (if c = sep then Some ([], cs)
      else map_option (\<lambda>(a, b). (c # a, b)) (cutByte sep cs))"

lemma cutByte_Some: "cutByte sep s = Some (a, b) \<longleftrightarrow> s = a @ sep # b \<and> sep \<notin> set a"
proof (induction s arbitrary: a b)
  case Nil
  then show ?case by simp
next
  case (Cons c cs)
  show ?case
  proof (cases "c = sep")
    case True
    then show ?thesis by (cases a) auto
  next
    case False
    then show ?thesis using Cons.IH by (cases a) auto
  qed
qed

lemma cutByte_None: "cutByte sep s = None \<longleftrightarrow> sep \<notin> set s"
  by (induction s) auto

text \<open>
  \<open>unicode.IsSpace\<close> on UTF-8: the number of bytes of the space at the head of the string,
  0 when it does not start with one. No lead byte of a multi-byte space is a continuation
  byte, so testing at every byte position finds the same spaces as decoding rune by rune.
\<close>

definition space_len :: "string \<Rightarrow> nat" where
  "space_len s =
     (case map byte_of (take 3 s) of
        [] \<Rightarrow> 0
      | b # bs \<Rightarrow>
          if b \<in> {9, 10, 11, 12, 13, 32} then 1
          else if b = 194 \<and> bs \<noteq> [] \<and> hd bs \<in> {133, 160} then 2
          else if (b # bs) = [225, 154, 128] \<or> (b # bs) = [226, 129, 159] \<or> (b # bs) = [227, 128, 128]
            then 3
          else if length bs = 2 \<and> b = 226 \<and> hd bs = 128
                  \<and> (128 \<le> bs ! 1 \<and> bs ! 1 \<le> 138 \<or> bs ! 1 \<in> {168, 169, 175}) then 3
          else 0)"

text \<open>\<open>strings.Fields\<close>: the maximal runs without spaces; the second argument is the field being read.\<close>

function fields_from :: "string \<Rightarrow> string \<Rightarrow> string list" where
  "fields_from acc s =
     (if s = [] then (if acc = [] then [] else [acc])
      else if space_len s > 0
        then (if acc = [] then [] else [acc]) @ fields_from [] (drop (space_len s) s)
      else fields_from (acc @ [hd s]) (tl s))"
  by pat_completeness auto
termination
  by (relation "measure (\<lambda>(acc, s). length s)") auto

declare fields_from.simps [simp del]

definition stringFields :: "string \<Rightarrow> string list" where
  "stringFields s = fields_from [] s"

lemma fields_from_not_empty: "[] \<notin> set (fields_from acc s)"
proof (induction acc s rule: fields_from.induct)
  case (1 acc s)
  then show ?case
    by (subst fields_from.simps) (simp split: if_splits)
qed

lemma fields_not_empty: "w \<in> set (stringFields s) \<Longrightarrow> w \<noteq> []"
  using fields_from_not_empty [of "[]" s] by (auto simp: stringFields_def)

text \<open>\<open>strings.TrimSpace\<close>: drop the spaces at both ends.\<close>

function trim_left :: "string \<Rightarrow> string" where
  "trim_left s = (if s \<noteq> [] \<and> space_len s > 0 then trim_left (drop (space_len s) s) else s)"
  by pat_completeness auto
termination
  by (relation "measure length") auto

declare trim_left.simps [simp del]

text \<open>From the right end, the last space of the string is the suffix that is one whole space.\<close>

definition last_space :: "string \<Rightarrow> nat" where
  "last_space s =
     (if s \<noteq> [] \<and> space_len (drop (length s - 1) s) = 1 then 1
      else if 2 \<le> length s \<and> space_len (drop (length s - 2) s) = 2 then 2
      else if 3 \<le> length s \<and> space_len (drop (length s - 3) s) = 3 then 3
      else 0)"

function trim_right :: "string \<Rightarrow> string" where
  "trim_right s = (if last_space s > 0 then trim_right (take (length s - last_space s) s) else s)"
  by pat_completeness auto
termination
  by (relation "measure length") (auto simp: last_space_def split: if_splits)

declare trim_right.simps [simp del]

definition trimSpace :: "string \<Rightarrow> string" where
  "trimSpace s = trim_right (trim_left s)"

definition containsAny :: "string \<Rightarrow> string \<Rightarrow> bool" where
  "containsAny s chars \<longleftrightarrow> list_ex (\<lambda>c. c \<in> set chars) s"

section \<open>strconv\<close>

text \<open>
  \<open>strconv.ParseUint(s, base, bits)\<close> for base 10 or 16: at least one digit, digits only,
  and the value must fit in \<open>bits\<close> bits.
\<close>

fun digits_value :: "nat \<Rightarrow> nat \<Rightarrow> string \<Rightarrow> nat option" where
  "digits_value base acc [] = Some acc"
| "digits_value base acc (c # cs) =
     (case from_hex_char c of
        None \<Rightarrow> None
      | Some d \<Rightarrow> if d < base then digits_value base (base * acc + d) cs else None)"

definition parseUint :: "nat \<Rightarrow> nat \<Rightarrow> string \<Rightarrow> nat option" where
  "parseUint base bits s =
     (if s = [] then None
      else (case digits_value base 0 s of
              None \<Rightarrow> None
            | Some n \<Rightarrow> if n < 2 ^ bits then Some n else None))"

text \<open>\<open>strconv.FormatUint(n, 10)\<close>, \<open>strconv.Itoa\<close> on non-negative values.\<close>

function formatUint :: "nat \<Rightarrow> string" where
  "formatUint n = (if n < 10 then [to_hex_char n] else formatUint (n div 10) @ [to_hex_char (n mod 10)])"
  by pat_completeness auto
termination
  by (relation "measure id") auto

declare formatUint.simps [simp del]

lemma formatUint_not_Nil [simp]: "formatUint n \<noteq> []"
  by (subst formatUint.simps) simp

lemma digits_value_append:
  "digits_value base acc (xs @ ys) = Option.bind (digits_value base acc xs) (\<lambda>a. digits_value base a ys)"
  by (induction xs arbitrary: acc) (auto split: option.splits)

lemma digits_value_format: "digits_value 10 0 (formatUint n) = Some n"
proof (induction n rule: formatUint.induct)
  case (1 n)
  show ?case
  proof (cases "n < 10")
    case True
    then show ?thesis by (simp add: formatUint.simps [of n])
  next
    case False
    then have "digits_value 10 0 (formatUint n) = Some (10 * (n div 10) + n mod 10)"
      using 1 by (simp add: formatUint.simps [of n] digits_value_append)
    then show ?thesis by simp
  qed
qed

lemma parse_formatUint: "n < 2 ^ bits \<Longrightarrow> parseUint 10 bits (formatUint n) = Some n"
  by (simp add: parseUint_def digits_value_format)

lemma parseUint_bound: "parseUint base bits s = Some n \<Longrightarrow> n < 2 ^ bits"
  by (auto simp: parseUint_def split: if_splits option.splits)

text \<open>\<open>strconv.Atoi\<close> on a 64-bit platform: an optional sign, digits, and the value in range.\<close>

definition atoi :: "string \<Rightarrow> int option" where
  "atoi s =
     (let neg = hasPrefix s ''-'';
          ds = (if neg \<or> hasPrefix s ''+'' then drop 1 s else s)
      in case parseUint 10 64 ds of
           None \<Rightarrow> None
         | Some n \<Rightarrow> let v = (if neg then - int n else int n)
                      in if - (2 ^ 63) \<le> v \<and> v < 2 ^ 63 then Some v else None)"

section \<open>Private files\<close>

text \<open>
  What the file system answers while a component opens its private database file:
  whether \<open>filepath.Abs\<close> and \<open>os.MkdirAll\<close> succeed, what \<open>os.Lstat\<close> says of the directory
  (directory?, permission bits), how the exclusive create ends, and what \<open>os.Lstat\<close> says of
  the file (regular?, permission bits).
\<close>

datatype create_result = Created bool | AlreadyExists | CreateFailed

record fs_view =
  fs_abs_ok :: bool
  fs_mkdir_ok :: bool
  fs_dir :: "(bool \<times> nat) option"
  fs_create :: create_result
  fs_file :: "(bool \<times> nat) option"

text \<open>\<open>Perm() & 0077 == 0\<close>: the six low permission bits are clear.\<close>

definition perm_private :: "nat \<Rightarrow> bool" where
  "perm_private perm \<longleftrightarrow> perm mod 64 = 0"

definition prepare_private_file :: "go_err \<Rightarrow> fs_view \<Rightarrow> unit result" where
  "prepare_private_file invalid fs =
     (if \<not> fs_abs_ok fs \<or> \<not> fs_mkdir_ok fs then Inl ErrOS
      else case fs_dir fs of
        None \<Rightarrow> Inl invalid
      | Some (is_dir, perm) \<Rightarrow>
          if \<not> is_dir \<or> \<not> perm_private perm then Inl invalid
          else if fs_create fs = CreateFailed \<or> fs_create fs = Created False then Inl ErrOS
          else case fs_file fs of
            None \<Rightarrow> Inl invalid
          | Some (regular, fperm) \<Rightarrow>
              if \<not> regular \<or> \<not> perm_private fperm then Inl invalid else Inr ())"

end
