(* ===== verification/Node_Router.thy ===== *)
theory Node_Router
  imports Go_Lib
begin

text \<open>
  \<open>internal/noderouter\<close>: the public route of a dedicated Node runtime. The routing database
  holds one row (the pinned configuration and the route: a revision fence, its status and
  the active candidate) and a table of permanently retired operations. \<open>Activate\<close> runs two
  transactions with a health probe between them; \<open>FenceRetirement\<close>, \<open>RejectActivation\<close> and
  \<open>WithDrainedBackend\<close> run against it concurrently.
\<close>

section \<open>Data\<close>

record route_config =
  rc_ProjectID :: string
  rc_RuntimeID :: string
  rc_ContentHost :: string
  rc_HealthPath :: string
  rc_Backends :: "(string \<times> string) list"

record candidate =
  c_ProjectID :: string
  c_RuntimeID :: string
  c_DeploymentID :: string
  c_OperationID :: string
  c_Revision :: int
  c_ArtifactSHA256 :: string
  c_Backend :: string

text \<open>The status strings; \<open>NoStatus\<close> is Go's empty string, the status of a fresh database.\<close>

datatype route_status = NoStatus | Pending | ActiveRoute | FailedRoute

record route_state =
  Fence :: candidate
  Status :: route_status
  Active :: "candidate option"

text \<open>
  The SQLite file: the schema version, the single row of \<open>node_route\<close>, and
  \<open>retired_operations\<close>, whose primary key is the operation. The Go map \<open>Backends\<close> is an
  association list in key order, as \<open>json.Marshal\<close> writes it into the row.
\<close>

record route_db =
  rd_version :: nat
  rd_row :: "(route_config \<times> route_state) option"
  rd_retired :: "string \<rightharpoonup> candidate"

definition zero_candidate :: candidate where
  "zero_candidate = \<lparr>c_ProjectID = [], c_RuntimeID = [], c_DeploymentID = [], c_OperationID = [],
     c_Revision = 0, c_ArtifactSHA256 = [], c_Backend = []\<rparr>"

definition zero_state :: route_state where
  "zero_state = \<lparr>Fence = zero_candidate, Status = NoStatus, Active = None\<rparr>"

definition empty_route_db :: route_db where
  "empty_route_db = \<lparr>rd_version = 0, rd_row = None, rd_retired = Map.empty\<rparr>"

section \<open>Open and initialize\<close>

text \<open>What \<open>net/url\<close> reports of a parsed URL, and its two parsers, as parameters.\<close>

record parsed_url =
  u_Scheme :: string
  u_Host :: string
  u_Hostname :: string
  u_Port :: string
  u_Path :: string
  u_RawQuery :: string
  u_Fragment :: string
  u_Opaque :: string
  u_User :: bool

record url_lib =
  url_Parse :: "string \<Rightarrow> parsed_url option"
  url_ParseRequestURI :: "string \<Rightarrow> parsed_url option"

definition valid_content_host :: "url_lib \<Rightarrow> string \<Rightarrow> bool" where
  "valid_content_host lib h =
     (case url_Parse lib (''https://'' @ h) of
        None \<Rightarrow> False
      | Some u \<Rightarrow> u_Host u = h \<and> u_Hostname u \<noteq> [] \<and> \<not> u_User u \<and> u_Path u = []
                  \<and> u_RawQuery u = [] \<and> u_Fragment u = [])"

definition valid_health_path :: "url_lib \<Rightarrow> string \<Rightarrow> bool" where
  "valid_health_path lib p =
     (case url_ParseRequestURI lib p of
        None \<Rightarrow> False
      | Some u \<Rightarrow> u_Path u = p \<and> u_RawQuery u = [] \<and> hasPrefix p ''/'' \<and> \<not> hasPrefix p ''//'')"

definition valid_backend_url :: "url_lib \<Rightarrow> string \<Rightarrow> bool" where
  "valid_backend_url lib target =
     (case url_Parse lib target of
        None \<Rightarrow> False
      | Some u \<Rightarrow>
          (case atoi (u_Port u) of
             None \<Rightarrow> False
           | Some port \<Rightarrow> 1 \<le> port \<and> port \<le> 65535 \<and> u_Scheme u = ''http''
               \<and> u_Host u = ''127.0.0.1:'' @ formatUint (nat port) \<and> \<not> u_User u \<and> u_Path u = []
               \<and> u_RawQuery u = [] \<and> u_Fragment u = [] \<and> u_Opaque u = []))"

text \<open>The loop over \<open>config.Backends\<close>; \<open>seen\<close> holds the targets met so far.\<close>

fun valid_backends :: "url_lib \<Rightarrow> string list \<Rightarrow> (string \<times> string) list \<Rightarrow> bool" where
  "valid_backends lib seen [] = True"
| "valid_backends lib seen ((name, target) # bs) =
     (name \<noteq> [] \<and> length name \<le> 64 \<and> valid_backend_url lib target \<and> target \<notin> set seen
      \<and> valid_backends lib (target # seen) bs)"

definition valid_route_config :: "url_lib \<Rightarrow> route_config \<Rightarrow> bool" where
  "valid_route_config lib cfg \<longleftrightarrow>
     digestID (rc_ProjectID cfg) \<and> digestID (rc_RuntimeID cfg)
     \<and> 1 \<le> length (rc_Backends cfg) \<and> length (rc_Backends cfg) \<le> 16
     \<and> valid_content_host lib (rc_ContentHost cfg)
     \<and> valid_health_path lib (rc_HealthPath cfg)
     \<and> valid_backends lib [] (rc_Backends cfg)"

text \<open>
  \<open>initialize\<close>: refuse a newer schema, create the tables an older one lacks, pin the
  configuration on first use and refuse any other one later.
\<close>

definition route_initialize :: "route_config \<Rightarrow> route_db \<Rightarrow> unit result \<times> route_db" where
  "route_initialize cfg db =
     (if rd_version db > 2 then (Inl Router_ErrInvalid, db)
      else
        let db1 = db\<lparr>rd_version := max (rd_version db) 2\<rparr>
        in case rd_row db1 of
             None \<Rightarrow> (Inr (), db1\<lparr>rd_row := Some (cfg, zero_state)\<rparr>)
           | Some (cfg', st) \<Rightarrow> if cfg' \<noteq> cfg then (Inl Router_ErrConflict, db) else (Inr (), db1))"

definition open_router ::
  "url_lib \<Rightarrow> fs_view \<Rightarrow> driver \<Rightarrow> route_config \<Rightarrow> route_db \<Rightarrow> unit result \<times> route_db" where
  "open_router lib fs drv cfg db =
     (if \<not> valid_route_config lib cfg then (Inl Router_ErrInvalid, db)
      else case prepare_private_file Router_ErrInvalid fs of
        Inl e \<Rightarrow> (Inl e, db)
      | Inr _ \<Rightarrow> with_tx drv (route_initialize cfg) db)"

section \<open>The transactions\<close>

definition validCandidate :: "route_config \<Rightarrow> candidate \<Rightarrow> bool" where
  "validCandidate cfg c \<longleftrightarrow>
     c_ProjectID c = rc_ProjectID cfg \<and> c_RuntimeID c = rc_RuntimeID cfg \<and> 0 < c_Revision c
     \<and> digestID (c_DeploymentID c) \<and> digestID (c_OperationID c) \<and> digestID (c_ArtifactSHA256 c)
     \<and> map_of (rc_Backends cfg) (c_Backend c) \<noteq> None"

definition readState :: "route_db \<Rightarrow> route_state result" where
  "readState db = (case rd_row db of None \<Rightarrow> Inl ErrNoRows | Some (_, st) \<Rightarrow> Inr st)"

definition writeState :: "route_state \<Rightarrow> route_db \<Rightarrow> route_db" where
  "writeState st db = db\<lparr>rd_row := map_option (\<lambda>(cfg, _). (cfg, st)) (rd_row db)\<rparr>"

definition rejectRetired :: "string \<Rightarrow> route_db \<Rightarrow> unit result" where
  "rejectRetired operation db = (if rd_retired db operation \<noteq> None then Inl ErrRetired else Inr ())"

text \<open>
  The first transaction of \<open>Activate\<close> fences the revision; it ends with the request already
  served, or with a probe to make.
\<close>

datatype fence_outcome = FenceDone | FenceProbe

definition active_reuses_backend :: "route_state \<Rightarrow> candidate \<Rightarrow> bool" where
  "active_reuses_backend st c =
     (case Active st of
        None \<Rightarrow> False
      | Some a \<Rightarrow> c_Backend a = c_Backend c \<and> c_ArtifactSHA256 a \<noteq> c_ArtifactSHA256 c)"

definition activate_fence :: "candidate \<Rightarrow> route_db \<Rightarrow> fence_outcome result \<times> route_db" where
  "activate_fence c db =
     (case rejectRetired (c_OperationID c) db of
        Inl e \<Rightarrow> (Inl e, db)
      | Inr _ \<Rightarrow>
          (case readState db of
             Inl e \<Rightarrow> (Inl e, db)
           | Inr st \<Rightarrow>
               if c_Revision c < c_Revision (Fence st) then (Inl ErrStale, db)
               else if c_Revision c = c_Revision (Fence st) then
                 (if c \<noteq> Fence st then (Inl Router_ErrConflict, db)
                  else if Status st = ActiveRoute then (Inr FenceDone, db)
                  else if Status st = FailedRoute then (Inl ErrUnhealthy, db)
                  else (Inr FenceProbe, db))
               else if active_reuses_backend st c then (Inl Router_ErrConflict, db)
               else (Inr FenceProbe, writeState (st\<lparr>Fence := c, Status := Pending\<rparr>) db)))"

text \<open>The second one settles the fence with the probe's verdict, unless it lost the fence meanwhile.\<close>

datatype settle_outcome = AlreadySettled | Settled bool

definition activate_settle :: "candidate \<Rightarrow> bool \<Rightarrow> route_db \<Rightarrow> settle_outcome result \<times> route_db" where
  "activate_settle c healthy db =
     (case rejectRetired (c_OperationID c) db of
        Inl e \<Rightarrow> (Inl e, db)
      | Inr _ \<Rightarrow>
          (case readState db of
             Inl e \<Rightarrow> (Inl e, db)
           | Inr st \<Rightarrow>
               if Fence st \<noteq> c then (Inl ErrStale, db)
               else if Status st = ActiveRoute then (Inr AlreadySettled, db)
               else if Status st = FailedRoute then (Inl ErrUnhealthy, db)
               else if healthy
                 then (Inr (Settled True), writeState (st\<lparr>Status := ActiveRoute, Active := Some c\<rparr>) db)
               else (Inr (Settled False), writeState (st\<lparr>Status := FailedRoute\<rparr>) db)))"

definition serves :: "route_state \<Rightarrow> candidate \<Rightarrow> bool" where
  "serves st c =
     (case Active st of
        None \<Rightarrow> False
      | Some a \<Rightarrow> c_OperationID a = c_OperationID c \<or> c_Backend a = c_Backend c)"

definition fence_retirement_tx :: "candidate \<Rightarrow> route_db \<Rightarrow> unit result \<times> route_db" where
  "fence_retirement_tx c db =
     (case rd_retired db (c_OperationID c) of
        Some old \<Rightarrow> if old \<noteq> c then (Inl Router_ErrConflict, db) else (Inr (), db)
      | None \<Rightarrow>
          (case readState db of
             Inl e \<Rightarrow> (Inl e, db)
           | Inr st \<Rightarrow>
               if serves st c then (Inl Router_ErrConflict, db)
               else if c_OperationID (Fence st) = c_OperationID c \<and> Fence st \<noteq> c
                 then (Inl Router_ErrConflict, db)
               else
                 let db1 = (if Fence st = c \<and> Status st = Pending
                            then writeState (st\<lparr>Status := FailedRoute\<rparr>) db else db)
                 in (Inr (), db1\<lparr>rd_retired := (rd_retired db1)(c_OperationID c \<mapsto> c)\<rparr>)))"

definition fenceRetirement :: "route_config \<Rightarrow> driver \<Rightarrow> candidate \<Rightarrow> route_db \<Rightarrow> unit result \<times> route_db" where
  "fenceRetirement cfg drv c db =
     (if \<not> validCandidate cfg c then (Inl Router_ErrInvalid, db)
      else with_tx drv (fence_retirement_tx c) db)"

definition reject_tx :: "candidate \<Rightarrow> route_db \<Rightarrow> unit result \<times> route_db" where
  "reject_tx c db =
     (case readState db of
        Inl e \<Rightarrow> (Inl e, db)
      | Inr st \<Rightarrow>
          if c_Revision (Fence st) > c_Revision c
             \<or> (c_Revision (Fence st) = c_Revision c \<and> Fence st \<noteq> c)
            then (Inl Router_ErrConflict, db)
          else if serves st c then (Inl Router_ErrConflict, db)
          else (Inr (), writeState (st\<lparr>Fence := c, Status := FailedRoute\<rparr>) db))"

text \<open>
  \<open>RejectActivation\<close> is two transactions: the retirement fence, then the failed revision.
  The driver may fail in either of them.
\<close>

definition rejectActivation ::
  "route_config \<Rightarrow> driver \<Rightarrow> driver \<Rightarrow> candidate \<Rightarrow> route_db \<Rightarrow> unit result \<times> route_db" where
  "rejectActivation cfg drv1 drv2 c db =
     (case fenceRetirement cfg drv1 c db of
        (Inl e, db1) \<Rightarrow> (Inl e, db1)
      | (Inr _, db1) \<Rightarrow> with_tx drv2 (reject_tx c) db1)"

text \<open>
  Every change of an opened routing database is one of these transactions, whichever
  process or goroutine runs it. A history of the database is a list of them.
\<close>

datatype route_tx =
    TxFence candidate
  | TxSettle candidate bool
  | TxRetire candidate
  | TxReject candidate

fun route_body :: "route_tx \<Rightarrow> route_db \<Rightarrow> unit result \<times> route_db" where
  "route_body (TxFence c) db = (case activate_fence c db of (Inl e, d) \<Rightarrow> (Inl e, d) | (Inr _, d) \<Rightarrow> (Inr (), d))"
| "route_body (TxSettle c healthy) db =
     (case activate_settle c healthy db of (Inl e, d) \<Rightarrow> (Inl e, d) | (Inr _, d) \<Rightarrow> (Inr (), d))"
| "route_body (TxRetire c) db = fence_retirement_tx c db"
| "route_body (TxReject c) db = reject_tx c db"

fun tx_candidate :: "route_tx \<Rightarrow> candidate" where
  "tx_candidate (TxFence c) = c"
| "tx_candidate (TxSettle c _) = c"
| "tx_candidate (TxRetire c) = c"
| "tx_candidate (TxReject c) = c"

definition route_exec :: "route_config \<Rightarrow> driver \<times> route_tx \<Rightarrow> route_db \<Rightarrow> unit result \<times> route_db" where
  "route_exec cfg i db =
     (if \<not> validCandidate cfg (tx_candidate (snd i)) then (Inl Router_ErrInvalid, db)
      else with_tx (fst i) (route_body (snd i)) db)"

section \<open>The router handle\<close>

text \<open>
  The fields of \<open>Router\<close> that its mutex protects. \<open>owner\<close> says whether the handle holds the
  advisory lock of the database; \<open>inFlight\<close> counts the health and proxy operations of each
  backend. The lock attempt of \<open>beginUpstream\<close> ends in one of the ways below.
\<close>

record handle =
  closed :: bool
  owner :: bool
  upstreams :: int
  inFlight :: "string \<Rightarrow> int"

datatype lock_outcome = LockOpenFails | LockStatFails | LockBadFile | LockBusy | LockFlockFails | LockTaken

definition new_handle :: handle where
  "new_handle = \<lparr>closed = False, owner = False, upstreams = 0, inFlight = (\<lambda>_. 0)\<rparr>"

definition beginUpstream :: "lock_outcome \<Rightarrow> handle \<Rightarrow> handle result" where
  "beginUpstream lk h =
     (if closed h then Inl ErrClosed
      else if owner h then Inr (h\<lparr>upstreams := upstreams h + 1\<rparr>)
      else case lk of
        LockOpenFails \<Rightarrow> Inl ErrOS
      | LockStatFails \<Rightarrow> Inl ErrOS
      | LockBadFile \<Rightarrow> Inl Router_ErrInvalid
      | LockBusy \<Rightarrow> Inl ErrServingOwned
      | LockFlockFails \<Rightarrow> Inl ErrOS
      | LockTaken \<Rightarrow> Inr (h\<lparr>owner := True, upstreams := upstreams h + 1\<rparr>))"

definition releaseOwnerLocked :: "handle \<Rightarrow> handle" where
  "releaseOwnerLocked h = (if closed h \<and> upstreams h = 0 \<and> owner h then h\<lparr>owner := False\<rparr> else h)"

definition endUpstream :: "handle \<Rightarrow> handle" where
  "endUpstream h = releaseOwnerLocked (h\<lparr>upstreams := upstreams h - 1\<rparr>)"

definition close_router :: "handle \<Rightarrow> handle" where
  "close_router h = releaseOwnerLocked (h\<lparr>closed := True\<rparr>)"

definition enterBackend :: "string \<Rightarrow> handle \<Rightarrow> handle" where
  "enterBackend b h = h\<lparr>inFlight := (inFlight h)(b := inFlight h b + 1)\<rparr>"

definition endBackend :: "string \<Rightarrow> handle \<Rightarrow> handle" where
  "endBackend b h = h\<lparr>inFlight := (inFlight h)(b := inFlight h b - 1)\<rparr>"

text \<open>The two deferred calls of \<open>Activate\<close>, \<open>WaitHealthy\<close> and \<open>ServeHTTP\<close>.\<close>

definition leave :: "string \<Rightarrow> handle \<Rightarrow> handle" where
  "leave b h = endUpstream (endBackend b h)"

section \<open>Activate, WaitHealthy, ServeHTTP, WithDrainedBackend\<close>

text \<open>
  What the environment does to one call of \<open>Activate\<close>: the lock attempt, the driver in each
  transaction, how the probe ends (the request cannot be built, or it is healthy or not),
  whether the context is over after the probe, and the transactions other callers commit
  between the two transactions of this call.
\<close>

datatype probe = ProbeRequestFails | Probed bool

record activate_env =
  ae_lock :: lock_outcome
  ae_drv1 :: driver
  ae_mid :: "(driver \<times> route_tx) list"
  ae_probe :: probe
  ae_ctx_over :: bool
  ae_drv2 :: driver

definition settle_result :: "settle_outcome result \<Rightarrow> unit result" where
  "settle_result r =
     (case r of
        Inl e \<Rightarrow> Inl e
      | Inr AlreadySettled \<Rightarrow> Inr ()
      | Inr (Settled healthy) \<Rightarrow> if healthy then Inr () else Inl ErrUnhealthy)"

definition activate_probe ::
  "route_config \<Rightarrow> activate_env \<Rightarrow> candidate \<Rightarrow> route_db \<Rightarrow> unit result \<times> route_db" where
  "activate_probe cfg env c db =
     (let db' = run_ops (route_exec cfg) (ae_mid env) db
      in case ae_probe env of
           ProbeRequestFails \<Rightarrow> (Inl ErrOS, db')
         | Probed healthy \<Rightarrow>
             if ae_ctx_over env then (Inl ErrContext, db')
             else case with_tx (ae_drv2 env) (activate_settle c healthy) db' of
               (r, db'') \<Rightarrow> (settle_result r, db''))"

definition activate_db ::
  "route_config \<Rightarrow> activate_env \<Rightarrow> candidate \<Rightarrow> route_db \<Rightarrow> unit result \<times> route_db" where
  "activate_db cfg env c db =
     (case with_tx (ae_drv1 env) (activate_fence c) db of
        (Inl e, db1) \<Rightarrow> (Inl e, db1)
      | (Inr FenceDone, db1) \<Rightarrow> (Inr (), db1)
      | (Inr FenceProbe, db1) \<Rightarrow> activate_probe cfg env c db1)"

definition activate ::
  "route_config \<Rightarrow> activate_env \<Rightarrow> candidate \<Rightarrow> handle \<times> route_db \<Rightarrow> unit result \<times> handle \<times> route_db" where
  "activate cfg env c hs =
     (if \<not> validCandidate cfg c then (Inl Router_ErrInvalid, hs)
      else case beginUpstream (ae_lock env) (fst hs) of
        Inl e \<Rightarrow> (Inl e, hs)
      | Inr h1 \<Rightarrow>
          (case activate_db cfg env c (snd hs) of
             (r, db') \<Rightarrow> (r, leave (c_Backend c) (enterBackend (c_Backend c) h1), db')))"

text \<open>
  One turn of the \<open>WaitHealthy\<close> loop: what the read connection answers and how the probe
  ends. The list of turns is finite because the context expires after ten seconds; at its
  end the call returns the context's error.
\<close>

record poll =
  p_drv :: driver
  p_db :: route_db
  p_request_ok :: bool
  p_healthy :: bool

fun wait_loop :: "string \<Rightarrow> poll list \<Rightarrow> unit result" where
  "wait_loop operation [] = Inl ErrContext"
| "wait_loop operation (p # ps) =
     (case p_drv p of
        Some e \<Rightarrow> Inl e
      | None \<Rightarrow>
          if rd_retired (p_db p) operation \<noteq> None then Inl ErrRetired
          else if \<not> p_request_ok p then Inl ErrOS
          else if p_healthy p then Inr ()
          else wait_loop operation ps)"

definition waitHealthy ::
  "route_config \<Rightarrow> lock_outcome \<Rightarrow> candidate \<Rightarrow> poll list \<Rightarrow> handle \<Rightarrow> unit result \<times> handle" where
  "waitHealthy cfg lk c polls h =
     (if \<not> validCandidate cfg c then (Inl Router_ErrInvalid, h)
      else case beginUpstream lk h of
        Inl e \<Rightarrow> (Inl e, h)
      | Inr h1 \<Rightarrow> (wait_loop (c_OperationID c) polls, leave (c_Backend c) (enterBackend (c_Backend c) h1)))"

text \<open>
  \<open>ServeHTTP\<close> up to the proxy call: an HTTP error, or the backend and the target that the
  request is proxied to; \<open>equal_fold\<close> is \<open>strings.EqualFold\<close>. When the proxied request ends,
  the handle is released with \<open>leave\<close>.
\<close>

datatype serve_outcome = HttpError nat | Proxy string string

definition serve_begin ::
  "(string \<Rightarrow> string \<Rightarrow> bool) \<Rightarrow> route_config \<Rightarrow> lock_outcome \<Rightarrow> driver \<Rightarrow> string \<Rightarrow> route_db \<Rightarrow> handle
    \<Rightarrow> serve_outcome \<times> handle" where
  "serve_begin equal_fold cfg lk drv host db h =
     (if \<not> equal_fold host (rc_ContentHost cfg) then (HttpError 421, h)
      else case beginUpstream lk h of
        Inl e \<Rightarrow> (HttpError 503, h)
      | Inr h1 \<Rightarrow>
          (case (drv, readState db) of
             (Some e, _) \<Rightarrow> (HttpError 503, endUpstream h1)
           | (None, Inl e) \<Rightarrow> (HttpError 503, endUpstream h1)
           | (None, Inr st) \<Rightarrow>
               (case Active st of
                  None \<Rightarrow> (HttpError 503, endUpstream h1)
                | Some a \<Rightarrow>
                    let h2 = enterBackend (c_Backend a) h1
                    in case map_of (rc_Backends cfg) (c_Backend a) of
                         None \<Rightarrow> (HttpError 503, leave (c_Backend a) h2)
                       | Some target \<Rightarrow> (Proxy (c_Backend a) target, h2))))"

definition backendPort :: "url_lib \<Rightarrow> route_config \<Rightarrow> candidate \<Rightarrow> int result" where
  "backendPort lib cfg c =
     (if \<not> validCandidate cfg c then Inl Router_ErrInvalid
      else case map_of (rc_Backends cfg) (c_Backend c) of
        None \<Rightarrow> Inl Router_ErrInvalid
      | Some target \<Rightarrow>
          (case url_Parse lib target of
             None \<Rightarrow> Inl Router_ErrInvalid
           | Some u \<Rightarrow> (case atoi (u_Port u) of None \<Rightarrow> Inl ErrOS | Some p \<Rightarrow> Inr p)))"

definition backendForPort :: "url_lib \<Rightarrow> route_config \<Rightarrow> nat \<Rightarrow> string result" where
  "backendForPort lib cfg port =
     (case List.find (\<lambda>(name, target). map_option u_Port (url_Parse lib target) = Some (formatUint port))
             (rc_Backends cfg) of
        None \<Rightarrow> Inl Router_ErrInvalid
      | Some (name, _) \<Rightarrow> Inr name)"

text \<open>
  One turn of the loop of \<open>WithDrainedBackend\<close> after the retirement fence: the context, the
  in-flight count read before the guard, the driver, the database the guard transaction
  sees, the in-flight count read again under the guard, the context again.
\<close>

record drain_view =
  dv_ctx_over :: bool
  dv_busy :: bool
  dv_ctx_over_waiting :: bool
  dv_drv :: driver
  dv_db :: route_db
  dv_busy_again :: bool
  dv_ctx_over_again :: bool

datatype drain_step = DrainStop go_err | DrainRetry | DrainRun

definition drain_conflict :: "route_state \<Rightarrow> candidate \<Rightarrow> bool" where
  "drain_conflict st c \<longleftrightarrow>
     (case Active st of None \<Rightarrow> False | Some a \<Rightarrow> c_Backend a = c_Backend c)
     \<or> (Status st = Pending \<and> c_Backend (Fence st) = c_Backend c)"

text \<open>What the guard transaction decides about the database, before the counts are read again.\<close>

definition drain_guard :: "candidate \<Rightarrow> route_db \<Rightarrow> unit result" where
  "drain_guard c db =
     (case rd_retired db (c_OperationID c) of
        None \<Rightarrow> Inl ErrNoRows
      | Some retired \<Rightarrow>
          if retired \<noteq> c then Inl Router_ErrConflict
          else (case readState db of
                  Inl e \<Rightarrow> Inl e
                | Inr st \<Rightarrow> if drain_conflict st c then Inl Router_ErrConflict else Inr ()))"

definition drain_turn :: "candidate \<Rightarrow> drain_view \<Rightarrow> drain_step" where
  "drain_turn c v =
     (if dv_ctx_over v then DrainStop ErrContext
      else if dv_busy v then (if dv_ctx_over_waiting v then DrainStop ErrContext else DrainRetry)
      else case dv_drv v of
        Some e \<Rightarrow> DrainStop e
      | None \<Rightarrow>
          (case drain_guard c (dv_db v) of
             Inl e \<Rightarrow> DrainStop e
           | Inr _ \<Rightarrow>
               if dv_busy_again v then DrainRetry
               else if dv_ctx_over_again v then DrainStop ErrContext
               else DrainRun))"

text \<open>
  The loop over the turns the environment offers: \<open>None\<close> while it has not returned. The
  second component says whether the action ran.
\<close>

fun drain_loop :: "candidate \<Rightarrow> unit result \<Rightarrow> drain_view list \<Rightarrow> (unit result \<times> bool) option" where
  "drain_loop c action [] = None"
| "drain_loop c action (v # vs) =
     (case drain_turn c v of
        DrainStop e \<Rightarrow> Some (Inl e, False)
      | DrainRetry \<Rightarrow> drain_loop c action vs
      | DrainRun \<Rightarrow> Some (action, True))"

definition withDrainedBackend ::
  "route_config \<Rightarrow> lock_outcome \<Rightarrow> driver \<Rightarrow> candidate \<Rightarrow> unit result option \<Rightarrow> drain_view list
    \<Rightarrow> handle \<times> route_db \<Rightarrow> (unit result \<times> bool) option \<times> handle \<times> route_db" where
  "withDrainedBackend cfg lk drv c action views hs =
     (case (if validCandidate cfg c then action else None) of
        None \<Rightarrow> (Some (Inl Router_ErrInvalid, False), hs)
      | Some act \<Rightarrow>
          (case beginUpstream lk (fst hs) of
             Inl e \<Rightarrow> (Some (Inl e, False), hs)
           | Inr h1 \<Rightarrow>
               (case fenceRetirement cfg drv c (snd hs) of
                  (Inl e, db1) \<Rightarrow> (Some (Inl e, False), endUpstream h1, db1)
                | (Inr _, db1) \<Rightarrow>
                    (case drain_loop c act views of
                       None \<Rightarrow> (None, h1, db1)
                     | Some r \<Rightarrow> (Some r, endUpstream h1, db1)))))"

section \<open>The invariant of the routing database\<close>

text \<open>
  The active candidate is at most as recent as the fence and is not retired; an active
  status means the fence itself is active; a tombstone is filed under its own operation.
\<close>

definition route_state_inv :: "(string \<rightharpoonup> candidate) \<Rightarrow> route_state \<Rightarrow> bool" where
  "route_state_inv retired st \<longleftrightarrow>
     (\<forall>a. Active st = Some a \<longrightarrow> c_Revision a \<le> c_Revision (Fence st) \<and> retired (c_OperationID a) = None)
     \<and> (Status st = ActiveRoute \<longrightarrow> Active st = Some (Fence st))
     \<and> (Status st = Pending \<longrightarrow> retired (c_OperationID (Fence st)) = None)"

definition route_inv :: "route_db \<Rightarrow> bool" where
  "route_inv db \<longleftrightarrow>
     (\<forall>cfg st. rd_row db = Some (cfg, st) \<longrightarrow> route_state_inv (rd_retired db) st)
     \<and> (\<forall>k c. rd_retired db k = Some c \<longrightarrow> c_OperationID c = k)"

definition fence_revision :: "route_db \<Rightarrow> int" where
  "fence_revision db = (case rd_row db of None \<Rightarrow> 0 | Some (_, st) \<Rightarrow> c_Revision (Fence st))"

definition active_route :: "route_db \<Rightarrow> candidate option" where
  "active_route db = (case rd_row db of None \<Rightarrow> None | Some (_, st) \<Rightarrow> Active st)"

definition op_retired :: "string \<Rightarrow> route_db \<Rightarrow> bool" where
  "op_retired k db \<longleftrightarrow> rd_retired db k \<noteq> None"

lemmas route_tx_defs [guard_defs] =
  activate_fence_def activate_settle_def fence_retirement_tx_def reject_tx_def
  rejectRetired_def readState_def writeState_def serves_def active_reuses_backend_def

lemma route_body_inv:
  "route_inv db \<Longrightarrow> route_body t db = (Inr a, db') \<Longrightarrow> route_inv db'"
  by (cases t)
    (auto simp: guard_defs route_inv_def route_state_inv_def Let_def
      split: option.splits if_splits prod.splits sum.splits)

lemma route_body_retired:
  "op_retired k db \<Longrightarrow> route_body t db = (Inr a, db') \<Longrightarrow> op_retired k db'"
  by (cases t)
    (auto simp: guard_defs op_retired_def Let_def
      split: option.splits if_splits prod.splits sum.splits)

lemma route_body_revision:
  "route_body t db = (Inr a, db') \<Longrightarrow> fence_revision db \<le> fence_revision db'"
  by (cases t)
    (auto simp: guard_defs fence_revision_def Let_def
      split: option.splits if_splits prod.splits sum.splits)

lemma route_exec_inv: "route_inv db \<Longrightarrow> route_inv (snd (route_exec cfg i db))"
  by (auto simp: route_exec_def intro: with_tx_invariant dest: route_body_inv)

lemma route_exec_error: "fst (route_exec cfg i db) = Inl e \<Longrightarrow> snd (route_exec cfg i db) = db"
  by (auto simp: route_exec_def dest: with_tx_error_frame split: if_splits)

interpretation rt: transactional "route_exec cfg" route_inv for cfg
  by unfold_locales (auto intro: route_exec_inv dest: route_exec_error)

text \<open>The transactions that could make an operation the active route.\<close>

fun activates :: "string \<Rightarrow> driver \<times> route_tx \<Rightarrow> bool" where
  "activates k (drv, TxFence c) = (c_OperationID c = k)"
| "activates k (drv, TxSettle c _) = (c_OperationID c = k)"
| "activates k (drv, _) = False"

lemma route_exec_retired: "op_retired k db \<Longrightarrow> op_retired k (snd (route_exec cfg i db))"
  by (auto simp: route_exec_def intro: with_tx_invariant dest: route_body_retired)

lemma activate_fence_retired: "op_retired (c_OperationID c) db \<Longrightarrow> activate_fence c db = (Inl ErrRetired, db)"
  by (simp add: activate_fence_def rejectRetired_def op_retired_def)

lemma activate_settle_retired:
  "op_retired (c_OperationID c) db \<Longrightarrow> activate_settle c healthy db = (Inl ErrRetired, db)"
  by (simp add: activate_settle_def rejectRetired_def op_retired_def)

lemma route_exec_blocked:
  assumes "op_retired k db" and "activates k i"
  shows "\<exists>e. fst (route_exec cfg i db) = Inl e"
proof (cases "(k, i)" rule: activates.cases)
  case (1 k drv c)
  with assms show ?thesis
    by (auto simp: route_exec_def with_tx_def activate_fence_retired split: option.splits)
next
  case (2 k drv c healthy)
  with assms show ?thesis
    by (auto simp: route_exec_def with_tx_def activate_settle_retired split: option.splits)
qed (use assms in auto)

interpretation retired: latch "route_exec cfg" op_retired activates for cfg
  by unfold_locales (auto intro: route_exec_retired route_exec_blocked)

lemma route_exec_revision: "fence_revision db \<le> fence_revision (snd (route_exec cfg i db))"
  by (auto simp: route_exec_def intro: with_tx_invariant dest: route_body_revision)

interpretation fence: monotone_counter "route_exec cfg" fence_revision for cfg
  by unfold_locales (rule route_exec_revision)

lemma route_inv_active_not_retired:
  "route_inv db \<Longrightarrow> active_route db = Some a \<Longrightarrow> \<not> op_retired (c_OperationID a) db"
  by (auto simp: route_inv_def route_state_inv_def active_route_def op_retired_def split: option.splits)

lemma fenceRetirement_retires:
  "fenceRetirement cfg drv c db = (Inr (), db') \<Longrightarrow> op_retired (c_OperationID c) db'"
  by (auto simp: fenceRetirement_def with_tx_Inr_iff fence_retirement_tx_def op_retired_def Let_def
      split: if_splits option.splits sum.splits)

lemma fence_retirement_tx_inv:
  "route_inv db \<Longrightarrow> fence_retirement_tx c db = (Inr a, db') \<Longrightarrow> route_inv db'"
  using route_body_inv [of db "TxRetire c"] by simp

lemma fenceRetirement_inv: "route_inv db \<Longrightarrow> route_inv (snd (fenceRetirement cfg drv c db))"
  by (auto simp: fenceRetirement_def intro: with_tx_invariant dest: fence_retirement_tx_inv)

lemma activate_fence_inv: "route_inv db \<Longrightarrow> activate_fence c db = (Inr a, db') \<Longrightarrow> route_inv db'"
  using route_body_inv [of db "TxFence c" "()" db'] by simp

lemma activate_settle_inv:
  "route_inv db \<Longrightarrow> activate_settle c healthy db = (Inr a, db') \<Longrightarrow> route_inv db'"
  using route_body_inv [of db "TxSettle c healthy" "()" db'] by simp

lemma route_exec_config: "map_option fst (rd_row (snd (route_exec cfg i db))) = map_option fst (rd_row db)"
proof -
  have body: "map_option fst (rd_row db') = map_option fst (rd_row db)"
    if "route_body t db = (Inr a, db')" for t a db'
    using that
    by (cases t)
      (auto simp: guard_defs Let_def split: option.splits if_splits prod.splits sum.splits)
  show ?thesis
    unfolding route_exec_def
    by (auto intro!: with_tx_invariant [where P = "\<lambda>d. map_option fst (rd_row d) = map_option fst (rd_row db)"]
        dest: body)
qed

lemma run_route_config:
  "map_option fst (rd_row (run_ops (route_exec cfg) is db)) = map_option fst (rd_row db)"
  by (induction "is" arbitrary: db) (auto simp: route_exec_config)

lemma open_router_pins:
  "open_router lib fs drv cfg db = (Inr (), db') \<Longrightarrow> map_option fst (rd_row db') = Some cfg"
  by (auto simp: open_router_def with_tx_Inr_iff route_initialize_def Let_def
      split: if_splits sum.splits option.splits prod.splits)

lemma open_router_other_config:
  assumes "map_option fst (rd_row db) = Some cfg" and "cfg' \<noteq> cfg"
  shows "\<exists>e. open_router lib fs drv cfg' db = (Inl e, db)"
  using assms
  by (auto simp: open_router_def with_tx_def route_initialize_def Let_def
      split: sum.splits option.splits)

lemma activate_fence_probe_active:
  "activate_fence c db = (Inr a, db') \<Longrightarrow> active_route db' = active_route db"
  by (auto simp: guard_defs active_route_def split: if_splits option.splits sum.splits)

lemma activate_settle_error_active:
  "with_tx drv (activate_settle c healthy) db = (r, db') \<Longrightarrow> settle_result r = Inl e
    \<Longrightarrow> active_route db' = active_route db"
  by (auto simp: with_tx_def settle_result_def guard_defs active_route_def
      split: if_splits option.splits sum.splits prod.splits settle_outcome.splits)

text \<open>A call of \<open>Activate\<close> that returns nil leaves its candidate as the active route.\<close>

definition serving :: "candidate \<Rightarrow> route_db \<Rightarrow> bool" where
  "serving c db \<longleftrightarrow>
     (\<exists>cfg st. rd_row db = Some (cfg, st) \<and> Fence st = c \<and> Status st = ActiveRoute \<and> Active st = Some c)"

lemma activate_fence_done_serving:
  "route_inv db \<Longrightarrow> activate_fence c db = (Inr FenceDone, db') \<Longrightarrow> serving c db' \<and> db' = db"
  by (auto simp: guard_defs serving_def route_inv_def route_state_inv_def
      split: if_splits option.splits sum.splits)

lemma activate_settle_serving:
  assumes "route_inv db" and "activate_settle c healthy db = (r, db')" and "settle_result r = Inr ()"
  shows "serving c db'"
  using assms
  by (auto simp: guard_defs serving_def settle_result_def route_inv_def route_state_inv_def
      split: if_splits option.splits sum.splits settle_outcome.splits)

lemma with_tx_settle_serving:
  "route_inv db \<Longrightarrow> with_tx drv (activate_settle c healthy) db = (r, db') \<Longrightarrow> settle_result r = Inr ()
    \<Longrightarrow> serving c db'"
  by (auto simp: with_tx_def settle_result_def split: option.splits prod.splits sum.splits settle_outcome.splits
      dest!: activate_settle_serving)

lemma activate_probe_serving:
  assumes "route_inv db" and "activate_probe cfg env c db = (Inr (), db')"
  shows "serving c db'"
proof -
  have inv: "route_inv (run_ops (route_exec cfg) (ae_mid env) db)"
    using assms(1) by (rule rt.run_inv)
  show ?thesis
    using assms(2) with_tx_settle_serving [OF inv]
    by (auto simp: activate_probe_def Let_def split: probe.splits if_splits prod.splits)
qed

lemma activate_db_serving:
  assumes "route_inv db" and "activate_db cfg env c db = (Inr (), db')"
  shows "serving c db'"
proof (cases "with_tx (ae_drv1 env) (activate_fence c) db")
  case (Pair r db1)
  show ?thesis
  proof (cases r)
    case (Inl e)
    with Pair assms(2) show ?thesis by (simp add: activate_db_def)
  next
    case (Inr out)
    with Pair have f: "activate_fence c db = (Inr out, db1)" by (simp add: with_tx_Inr_iff)
    show ?thesis
    proof (cases out)
      case FenceDone
      with f Pair Inr assms activate_fence_done_serving [of db c db1] show ?thesis
        by (auto simp: activate_db_def)
    next
      case FenceProbe
      with Pair Inr assms(2) have "activate_probe cfg env c db1 = (Inr (), db')"
        by (simp add: activate_db_def)
      with activate_fence_inv [OF assms(1) f] show ?thesis by (rule activate_probe_serving)
    qed
  qed
qed

lemma activate_probe_inv:
  assumes "route_inv db"
  shows "route_inv (snd (activate_probe cfg env c db))"
proof -
  have inv: "route_inv (run_ops (route_exec cfg) (ae_mid env) db)"
    using assms by (rule rt.run_inv)
  have "route_inv (snd (with_tx drv (activate_settle c healthy) (run_ops (route_exec cfg) (ae_mid env) db)))"
    for drv healthy
    using inv by (rule with_tx_invariant) (rule activate_settle_inv [OF inv])
  with inv show ?thesis
    by (simp add: activate_probe_def Let_def case_prod_unfold split: probe.splits)
qed

lemma activate_db_inv:
  assumes "route_inv db"
  shows "route_inv (snd (activate_db cfg env c db))"
proof (cases "with_tx (ae_drv1 env) (activate_fence c) db")
  case (Pair r db1)
  have "route_inv (snd (with_tx (ae_drv1 env) (activate_fence c) db))"
    using assms by (rule with_tx_invariant) (rule activate_fence_inv [OF assms])
  with Pair show ?thesis
    by (simp add: activate_db_def activate_probe_inv split: sum.splits fence_outcome.splits)
qed

lemma activate_db_error_active:
  assumes "activate_db cfg env c db = (Inl e, db')" and "ae_mid env = []"
  shows "active_route db' = active_route db"
proof (cases "with_tx (ae_drv1 env) (activate_fence c) db")
  case (Pair r db1)
  then have db1: "active_route db1 = active_route db"
    by (auto simp: with_tx_def split: option.splits prod.splits sum.splits
        dest: activate_fence_probe_active)
  show ?thesis
    using assms Pair db1 activate_settle_error_active [of "ae_drv2 env" c _ db1]
    by (auto simp: activate_db_def activate_probe_def
        split: sum.splits fence_outcome.splits probe.splits if_splits prod.splits)
qed

lemma activate_db_blocked:
  "op_retired (c_OperationID c) db \<Longrightarrow> \<exists>e. activate_db cfg env c db = (Inl e, db)"
  by (cases "ae_drv1 env") (auto simp: activate_db_def with_tx_def activate_fence_retired)

lemma activate_fence_stale:
  "c_Revision c < fence_revision db \<Longrightarrow> rd_row db \<noteq> None \<Longrightarrow>
    activate_fence c db = (Inl (if op_retired (c_OperationID c) db then ErrRetired else ErrStale), db)"
  by (auto simp: guard_defs fence_revision_def op_retired_def split: option.splits)

lemma serving_again: "\<not> op_retired (c_OperationID c) db \<Longrightarrow> serving c db \<Longrightarrow> activate_fence c db = (Inr FenceDone, db)"
  by (auto simp: serving_def guard_defs op_retired_def)

lemma handle_leave_balanced:
  assumes "beginUpstream lk h = Inr h1"
  shows "upstreams (leave b (enterBackend b h1)) = upstreams h
       \<and> inFlight (leave b (enterBackend b h1)) = inFlight h
       \<and> closed (leave b (enterBackend b h1)) = closed h"
  using assms
  by (auto simp: beginUpstream_def leave_def enterBackend_def endBackend_def endUpstream_def
      releaseOwnerLocked_def split: if_splits lock_outcome.splits)

section \<open>Properties\<close>

text \<open>
  C2: Retirement is permanent. Once \<open>FenceRetirement\<close> has succeeded for a candidate, then
  after any later history of transactions (of any process) the operation is not the active
  route, and every further call of \<open>Activate\<close> for it fails without touching the database.
\<close>

theorem retired_operation_never_serves:
  assumes "route_inv db" and "fenceRetirement cfg drv c db = (Inr (), db1)"
  shows "(\<forall>a. active_route (run_ops (route_exec cfg) history db1) = Some a
              \<longrightarrow> c_OperationID a \<noteq> c_OperationID c)
       \<and> (\<exists>e. activate_db cfg env c (run_ops (route_exec cfg) history db1)
              = (Inl e, run_ops (route_exec cfg) history db1))"
proof -
  have inv: "route_inv (run_ops (route_exec cfg) history db1)"
    using rt.run_inv fenceRetirement_inv [OF assms(1), of cfg drv c] assms(2) by simp
  have ret: "op_retired (c_OperationID c) (run_ops (route_exec cfg) history db1)"
    using assms(2) by (intro retired.run_latched fenceRetirement_retires)
  show ?thesis
    using route_inv_active_not_retired [OF inv] ret activate_db_blocked by metis
qed

text \<open>
  A call of \<open>Activate\<close> that returns nil has made its candidate the active route with an
  active status, whatever other transactions were committed while it was probing, and it
  has given back its upstream slot and in-flight count.
\<close>

theorem activate_success_serves:
  assumes "route_inv db" and "activate cfg env c (h, db) = (Inr (), h', db')"
  shows "serving c db' \<and> route_inv db' \<and> upstreams h' = upstreams h \<and> inFlight h' = inFlight h"
proof -
  from assms(2) obtain h1 where h1: "beginUpstream (ae_lock env) h = Inr h1"
    and act: "activate_db cfg env c db = (Inr (), db')"
    and h': "h' = leave (c_Backend c) (enterBackend (c_Backend c) h1)"
    by (auto simp: activate_def split: if_splits sum.splits prod.splits)
  have "route_inv db'"
    using activate_db_inv [OF assms(1), of cfg env c] act by simp
  then show ?thesis
    using activate_db_serving [OF assms(1) act] handle_leave_balanced [OF h1] h' by simp
qed

text \<open>
  C38: A failed activation never moves traffic. If \<open>Activate\<close> returns an error and no other
  transaction was committed while it was probing, the active route is the one from before.
\<close>

theorem activate_failure_keeps_route:
  assumes "activate cfg env c (h, db) = (Inl e, h', db')" and "ae_mid env = []"
  shows "active_route db' = active_route db"
proof -
  from assms(1) have "db' = db \<or> activate_db cfg env c db = (Inl e, db')"
    by (auto simp: activate_def split: if_splits sum.splits prod.splits)
  then show ?thesis using activate_db_error_active assms(2) by blast
qed

text \<open>
  Superseded revisions stay fenced. Once the fence of an opened database has reached a
  revision, no later history lowers it, and a call of \<open>Activate\<close> with a smaller revision
  fails and leaves the database as it is.
\<close>

theorem superseded_revision_is_stale:
  assumes "rd_row db \<noteq> None" and "c_Revision c < fence_revision db"
  shows "fence_revision db \<le> fence_revision (run_ops (route_exec cfg) history db)
       \<and> (\<exists>e. activate_db cfg env c (run_ops (route_exec cfg) history db)
              = (Inl e, run_ops (route_exec cfg) history db))"
proof -
  let ?db = "run_ops (route_exec cfg) history db"
  have mono: "fence_revision db \<le> fence_revision ?db" by (rule fence.run_counter)
  have "rd_row ?db \<noteq> None"
    using run_route_config [of cfg history db] assms(1) by auto
  with mono assms(2) have "\<exists>e. activate_fence c ?db = (Inl e, ?db)"
    using activate_fence_stale [of c ?db] by auto
  then have "\<exists>e. activate_db cfg env c ?db = (Inl e, ?db)"
    by (auto simp: activate_db_def with_tx_def split: option.splits)
  with mono show ?thesis by blast
qed

text \<open>
  Activation is idempotent. Repeating a successful activation before anything else
  happens returns nil again, probes nothing and leaves the database unchanged.
\<close>

theorem activate_idempotent:
  assumes "route_inv db" and "activate_db cfg env c db = (Inr (), db')"
    and "ae_drv1 env' = None"
  shows "activate_db cfg env' c db' = (Inr (), db')"
proof -
  have srv: "serving c db'" using assms(1,2) by (rule activate_db_serving)
  have inv: "route_inv db'" using activate_db_inv [OF assms(1), of cfg env c] assms(2) by simp
  have "active_route db' = Some c" using srv by (auto simp: serving_def active_route_def)
  then have "activate_fence c db' = (Inr FenceDone, db')"
    using serving_again [OF route_inv_active_not_retired [OF inv] srv] by blast
  with assms(3) show ?thesis by (simp add: activate_db_def with_tx_def)
qed

text \<open>
  Opening pins the configuration. After a successful open, whatever history of
  transactions runs, opening the same database with another configuration fails and
  changes nothing.
\<close>

theorem open_pins_configuration:
  assumes "open_router lib fs drv cfg db = (Inr (), db1)" and "cfg' \<noteq> cfg"
  shows "\<exists>e. open_router lib' fs' drv' cfg' (run_ops (route_exec cfg) history db1)
             = (Inl e, run_ops (route_exec cfg) history db1)"
proof -
  have "map_option fst (rd_row (run_ops (route_exec cfg) history db1)) = Some cfg"
    using run_route_config open_router_pins [OF assms(1)] by metis
  then show ?thesis using assms(2) by (rule open_router_other_config)
qed

section \<open>Concrete instances\<close>

definition ex_id :: "char \<Rightarrow> string" where
  "ex_id ch = replicate 64 ch"

definition ex_config :: route_config where
  "ex_config = \<lparr>rc_ProjectID = ex_id CHR ''a'', rc_RuntimeID = ex_id CHR ''b'', rc_ContentHost = ''site.example'',
     rc_HealthPath = ''/health'',
     rc_Backends = [(''blue'', ''http://127.0.0.1:3001''), (''green'', ''http://127.0.0.1:3002'')]\<rparr>"

definition ex_candidate :: "char \<Rightarrow> int \<Rightarrow> string \<Rightarrow> candidate" where
  "ex_candidate ch n backend = \<lparr>c_ProjectID = ex_id CHR ''a'', c_RuntimeID = ex_id CHR ''b'',
     c_DeploymentID = ex_id ch, c_OperationID = ex_id ch, c_Revision = n,
     c_ArtifactSHA256 = ex_id ch, c_Backend = backend\<rparr>"

definition ex_db :: route_db where
  "ex_db = \<lparr>rd_version = 2, rd_row = Some (ex_config, zero_state), rd_retired = Map.empty\<rparr>"

definition ex_env :: "bool \<Rightarrow> activate_env" where
  "ex_env healthy = \<lparr>ae_lock = LockTaken, ae_drv1 = None, ae_mid = [], ae_probe = Probed healthy,
     ae_ctx_over = False, ae_drv2 = None\<rparr>"

lemma ex_id_digest [simp]: "digestID (ex_id CHR ''a'')" "digestID (ex_id CHR ''b'')"
  "digestID (ex_id CHR ''c'')" "digestID (ex_id CHR ''d'')"
  by (simp_all add: ex_id_def lower_hex_def byte_of_def)

lemma ex_candidate_valid:
  "validCandidate ex_config (ex_candidate CHR ''c'' 1 ''blue'')"
  "validCandidate ex_config (ex_candidate CHR ''d'' 2 ''green'')"
  by (simp_all add: validCandidate_def ex_config_def ex_candidate_def)

lemma ex_candidate_operation: "c_OperationID (ex_candidate ch n backend) = ex_id ch"
  by (simp add: ex_candidate_def)

lemma ex_db_inv: "route_inv ex_db"
  by (simp add: route_inv_def route_state_inv_def ex_db_def zero_state_def)

definition ex_db_active :: route_db where
  "ex_db_active = ex_db\<lparr>rd_row := Some (ex_config,
     \<lparr>Fence = ex_candidate CHR ''c'' 1 ''blue'', Status = ActiveRoute,
      Active = Some (ex_candidate CHR ''c'' 1 ''blue'')\<rparr>)\<rparr>"

lemma ex_db_active_inv: "route_inv ex_db_active"
  by (simp add: route_inv_def route_state_inv_def ex_db_active_def ex_db_def)

lemmas ex_route_defs = ex_db_active_def ex_db_def ex_env_def zero_state_def zero_candidate_def

lemma ex_activate_db:
  "activate_db ex_config (ex_env True) (ex_candidate CHR ''c'' 1 ''blue'') ex_db = (Inr (), ex_db_active)"
  by (simp add: activate_db_def activate_probe_def with_tx_def guard_defs settle_result_def ex_route_defs
      ex_candidate_def)

lemma ex_activate:
  "activate ex_config (ex_env True) (ex_candidate CHR ''c'' 1 ''blue'') (new_handle, ex_db)
   = (Inr (), new_handle\<lparr>owner := True\<rparr>, ex_db_active)"
  using ex_activate_db ex_candidate_valid(1)
  by (simp add: activate_def beginUpstream_def new_handle_def ex_env_def leave_def enterBackend_def
      endBackend_def endUpstream_def releaseOwnerLocked_def fun_upd_idem)

lemma ex_fence_retirement:
  "fenceRetirement ex_config None (ex_candidate CHR ''d'' 2 ''green'') ex_db_active
   = (Inr (), ex_db_active\<lparr>rd_retired := [ex_id CHR ''d'' \<mapsto> ex_candidate CHR ''d'' 2 ''green'']\<rparr>)"
  using ex_candidate_valid(2)
  by (simp add: fenceRetirement_def with_tx_def guard_defs ex_route_defs ex_candidate_def ex_id_def)

theorem retired_operation_never_serves_witness:
  "map_option c_OperationID (active_route (run_ops (route_exec ex_config) [(None, TxFence (ex_candidate CHR ''d'' 2 ''green''))]
       (ex_db_active\<lparr>rd_retired := [ex_id CHR ''d'' \<mapsto> ex_candidate CHR ''d'' 2 ''green'']\<rparr>))) \<noteq> Some (ex_id CHR ''d'')
   \<and> (\<exists>e. fst (activate_db ex_config (ex_env True) (ex_candidate CHR ''d'' 2 ''green'')
        (ex_db_active\<lparr>rd_retired := [ex_id CHR ''d'' \<mapsto> ex_candidate CHR ''d'' 2 ''green'']\<rparr>)) = Inl e)"
proof
  note all = retired_operation_never_serves [OF ex_db_active_inv ex_fence_retirement]
  show "map_option c_OperationID (active_route (run_ops (route_exec ex_config) [(None, TxFence (ex_candidate CHR ''d'' 2 ''green''))]
       (ex_db_active\<lparr>rd_retired := [ex_id CHR ''d'' \<mapsto> ex_candidate CHR ''d'' 2 ''green'']\<rparr>))) \<noteq> Some (ex_id CHR ''d'')"
    using all [THEN conjunct1] unfolding ex_candidate_operation by fastforce
  show "\<exists>e. fst (activate_db ex_config (ex_env True) (ex_candidate CHR ''d'' 2 ''green'')
        (ex_db_active\<lparr>rd_retired := [ex_id CHR ''d'' \<mapsto> ex_candidate CHR ''d'' 2 ''green'']\<rparr>)) = Inl e"
    using all [THEN conjunct2, of "ex_env True" "[]"] by force
qed

theorem activate_success_serves_witness:
  "serving (ex_candidate CHR ''c'' 1 ''blue'') ex_db_active \<and> route_inv ex_db_active"
  using activate_success_serves [OF ex_db_inv ex_activate] by simp

lemma ex_activate_unhealthy:
  "activate ex_config (ex_env False) (ex_candidate CHR ''d'' 2 ''green'') (new_handle, ex_db_active)
   = (Inl ErrUnhealthy, new_handle\<lparr>owner := True\<rparr>,
      ex_db_active\<lparr>rd_row := Some (ex_config,
        \<lparr>Fence = ex_candidate CHR ''d'' 2 ''green'', Status = FailedRoute,
         Active = Some (ex_candidate CHR ''c'' 1 ''blue'')\<rparr>)\<rparr>)"
  using ex_candidate_valid(2)
  by (simp add: activate_def activate_db_def activate_probe_def with_tx_def guard_defs settle_result_def
      beginUpstream_def new_handle_def ex_route_defs leave_def enterBackend_def endBackend_def
      endUpstream_def releaseOwnerLocked_def ex_candidate_def fun_upd_idem)

theorem activate_failure_keeps_route_witness:
  "active_route (ex_db_active\<lparr>rd_row := Some (ex_config,
        \<lparr>Fence = ex_candidate CHR ''d'' 2 ''green'', Status = FailedRoute,
         Active = Some (ex_candidate CHR ''c'' 1 ''blue'')\<rparr>)\<rparr>) = active_route ex_db_active"
  by (rule activate_failure_keeps_route [OF ex_activate_unhealthy]) (simp add: ex_env_def)

theorem superseded_revision_is_stale_witness:
  "fence_revision ex_db_active \<le> fence_revision (run_ops (route_exec ex_config) [] ex_db_active)
   \<and> (\<exists>e. activate_db ex_config (ex_env True) (ex_candidate CHR ''d'' 0 ''green'') ex_db_active
          = (Inl e, ex_db_active))"
  using superseded_revision_is_stale
    [of ex_db_active "ex_candidate CHR ''d'' 0 ''green''" ex_config "[]" "ex_env True"]
  by (simp add: ex_db_active_def fence_revision_def ex_candidate_def)

theorem activate_idempotent_witness:
  "activate_db ex_config (ex_env False) (ex_candidate CHR ''c'' 1 ''blue'') ex_db_active
   = (Inr (), ex_db_active)"
  by (rule activate_idempotent [OF ex_db_inv ex_activate_db]) (simp add: ex_env_def)

text \<open>A parser that knows exactly the URLs of the example configuration.\<close>

definition ex_url :: "string \<Rightarrow> string \<Rightarrow> string \<Rightarrow> string \<Rightarrow> string \<Rightarrow> parsed_url" where
  "ex_url scheme host hostname port path = \<lparr>u_Scheme = scheme, u_Host = host, u_Hostname = hostname,
     u_Port = port, u_Path = path, u_RawQuery = [], u_Fragment = [], u_Opaque = [], u_User = False\<rparr>"

definition ex_lib :: url_lib where
  "ex_lib = \<lparr>url_Parse = [''https://site.example'' \<mapsto> ex_url ''https'' ''site.example'' ''site.example'' [] [],
       ''http://127.0.0.1:3001'' \<mapsto> ex_url ''http'' ''127.0.0.1:3001'' ''127.0.0.1'' ''3001'' [],
       ''http://127.0.0.1:3002'' \<mapsto> ex_url ''http'' ''127.0.0.1:3002'' ''127.0.0.1'' ''3002'' []],
     url_ParseRequestURI = [''/health'' \<mapsto> ex_url [] [] [] [] ''/health'']\<rparr>"

definition ex_fs :: fs_view where
  "ex_fs = \<lparr>fs_abs_ok = True, fs_mkdir_ok = True, fs_dir = Some (True, 448), fs_create = Created True,
     fs_file = Some (True, 384)\<rparr>"

lemma ex_atoi: "atoi ''3001'' = Some 3001" "atoi ''3002'' = Some 3002"
  "formatUint 3001 = ''3001''" "formatUint 3002 = ''3002''"
  by (simp_all add: atoi_def parseUint_def hasPrefix_def from_hex_char_def byte_of_def
      formatUint.simps to_hex_char_def char_of_def bit_0)

lemma ex_config_valid: "valid_route_config ex_lib ex_config"
  by (simp add: valid_route_config_def valid_content_host_def valid_health_path_def valid_backend_url_def
      ex_config_def ex_lib_def ex_url_def ex_atoi hasPrefix_def)

lemma ex_open: "open_router ex_lib ex_fs None ex_config empty_route_db = (Inr (), ex_db)"
  by (simp add: open_router_def ex_config_valid prepare_private_file_def perm_private_def ex_fs_def
      with_tx_def route_initialize_def empty_route_db_def ex_db_def Let_def)

theorem open_pins_configuration_witness:
  "\<exists>e. open_router ex_lib ex_fs None (ex_config\<lparr>rc_HealthPath := ''/ready''\<rparr>)
         (run_ops (route_exec ex_config) [(None, TxFence (ex_candidate CHR ''c'' 1 ''blue''))] ex_db)
       = (Inl e, run_ops (route_exec ex_config) [(None, TxFence (ex_candidate CHR ''c'' 1 ''blue''))] ex_db)"
  by (rule open_pins_configuration [OF ex_open]) (simp add: ex_config_def)

end
