(* ===== verification/Node_Router_Conc.thy ===== *)
theory Node_Router_Conc
  imports Node_Router "HOL-Library.Multiset"
begin

text \<open>
  \<open>internal/noderouter\<close> under concurrency: any number of goroutines of one router handle
  activate, probe, proxy, retire and drain at the same time. Each atomic section of the
  source (a critical section of the mutex, a SQLite transaction, the second busy check
  of \<open>WithDrainedBackend\<close> under its guard transaction) is one step. A second relation has
  any number of handles compete for the advisory lock of one database.
\<close>

section \<open>One handle, many goroutines\<close>

text \<open>
  Who is where: calls of \<open>Activate\<close> before and after their fence transaction, proxied
  requests and \<open>WaitHealthy\<close> calls by backend, calls of \<open>WithDrainedBackend\<close> past their
  retirement fence, and the holder of the guard transaction while its action runs. SQLite
  gives the guard the write reservation, so no other transaction commits meanwhile.
\<close>

record router_sys =
  rs_db :: route_db
  rs_handle :: handle
  rs_entered :: "candidate multiset"
  rs_probing :: "candidate multiset"
  rs_serving :: "string multiset"
  rs_waiting :: "string multiset"
  rs_draining :: "candidate multiset"
  rs_guard :: "candidate option"

definition start_sys :: "route_db \<Rightarrow> router_sys" where
  "start_sys db = \<lparr>rs_db = db, rs_handle = new_handle, rs_entered = {#}, rs_probing = {#}, rs_serving = {#},
     rs_waiting = {#}, rs_draining = {#}, rs_guard = None\<rparr>"

inductive router_step ::
  "(string \<Rightarrow> string \<Rightarrow> bool) \<Rightarrow> route_config \<Rightarrow> router_sys \<Rightarrow> router_sys \<Rightarrow> bool"
  for equal_fold cfg where
  step_enter: "validCandidate cfg c \<Longrightarrow> beginUpstream lk (rs_handle s) = Inr h \<Longrightarrow>
    router_step equal_fold cfg s (s\<lparr>rs_handle := enterBackend (c_Backend c) h,
      rs_entered := add_mset c (rs_entered s)\<rparr>)"
| step_fence: "rs_entered s = add_mset c E \<Longrightarrow> rs_guard s = None \<Longrightarrow>
    with_tx drv (activate_fence c) (rs_db s) = (Inr FenceProbe, db) \<Longrightarrow>
    router_step equal_fold cfg s (s\<lparr>rs_db := db, rs_entered := E, rs_probing := add_mset c (rs_probing s)\<rparr>)"
| step_fence_returns: "rs_entered s = add_mset c E \<Longrightarrow> rs_guard s = None \<Longrightarrow>
    with_tx drv (activate_fence c) (rs_db s) = (r, db) \<Longrightarrow> r \<noteq> Inr FenceProbe \<Longrightarrow>
    router_step equal_fold cfg s (s\<lparr>rs_db := db, rs_entered := E,
      rs_handle := leave (c_Backend c) (rs_handle s)\<rparr>)"
| step_fence_busy: "rs_entered s = add_mset c E \<Longrightarrow> rs_guard s \<noteq> None \<Longrightarrow>
    router_step equal_fold cfg s (s\<lparr>rs_entered := E, rs_handle := leave (c_Backend c) (rs_handle s)\<rparr>)"
| step_settle: "rs_probing s = add_mset c P \<Longrightarrow> rs_guard s = None \<Longrightarrow>
    with_tx drv (activate_settle c healthy) (rs_db s) = (r, db) \<Longrightarrow>
    router_step equal_fold cfg s (s\<lparr>rs_db := db, rs_probing := P,
      rs_handle := leave (c_Backend c) (rs_handle s)\<rparr>)"
| step_probe_aborts: "rs_probing s = add_mset c P \<Longrightarrow>
    router_step equal_fold cfg s (s\<lparr>rs_probing := P, rs_handle := leave (c_Backend c) (rs_handle s)\<rparr>)"
| step_serve: "serve_begin equal_fold cfg lk drv host (rs_db s) (rs_handle s) = (Proxy b target, h) \<Longrightarrow>
    router_step equal_fold cfg s (s\<lparr>rs_handle := h, rs_serving := add_mset b (rs_serving s)\<rparr>)"
| step_serve_refused: "serve_begin equal_fold cfg lk drv host (rs_db s) (rs_handle s) = (HttpError n, h) \<Longrightarrow>
    router_step equal_fold cfg s (s\<lparr>rs_handle := h\<rparr>)"
| step_served: "rs_serving s = add_mset b S \<Longrightarrow>
    router_step equal_fold cfg s (s\<lparr>rs_serving := S, rs_handle := leave b (rs_handle s)\<rparr>)"
| step_wait: "validCandidate cfg c \<Longrightarrow> beginUpstream lk (rs_handle s) = Inr h \<Longrightarrow>
    router_step equal_fold cfg s (s\<lparr>rs_handle := enterBackend (c_Backend c) h,
      rs_waiting := add_mset (c_Backend c) (rs_waiting s)\<rparr>)"
| step_waited: "rs_waiting s = add_mset b W \<Longrightarrow>
    router_step equal_fold cfg s (s\<lparr>rs_waiting := W, rs_handle := leave b (rs_handle s)\<rparr>)"
| step_retire: "rs_guard s = None \<Longrightarrow> fenceRetirement cfg drv c (rs_db s) = (r, db) \<Longrightarrow>
    router_step equal_fold cfg s (s\<lparr>rs_db := db\<rparr>)"
| step_reject: "rs_guard s = None \<Longrightarrow> rd_retired (rs_db s) (c_OperationID c) = Some c \<Longrightarrow>
    with_tx drv (reject_tx c) (rs_db s) = (r, db) \<Longrightarrow>
    router_step equal_fold cfg s (s\<lparr>rs_db := db\<rparr>)"
| step_drain: "beginUpstream lk (rs_handle s) = Inr h \<Longrightarrow> rs_guard s = None \<Longrightarrow>
    fenceRetirement cfg drv c (rs_db s) = (Inr (), db) \<Longrightarrow>
    router_step equal_fold cfg s (s\<lparr>rs_handle := h, rs_db := db, rs_draining := add_mset c (rs_draining s)\<rparr>)"
| step_drain_refused: "beginUpstream lk (rs_handle s) = Inr h \<Longrightarrow>
    router_step equal_fold cfg s (s\<lparr>rs_handle := endUpstream h\<rparr>)"
| step_guard: "c \<in># rs_draining s \<Longrightarrow> rs_guard s = None \<Longrightarrow> drain_guard c (rs_db s) = Inr () \<Longrightarrow>
    inFlight (rs_handle s) (c_Backend c) = 0 \<Longrightarrow>
    router_step equal_fold cfg s (s\<lparr>rs_guard := Some c\<rparr>)"
| step_action_done: "rs_guard s = Some c \<Longrightarrow> rs_draining s = add_mset c D \<Longrightarrow>
    router_step equal_fold cfg s (s\<lparr>rs_guard := None, rs_draining := D, rs_handle := endUpstream (rs_handle s)\<rparr>)"
| step_drain_stops: "rs_draining s = add_mset c D \<Longrightarrow> rs_guard s \<noteq> Some c \<Longrightarrow>
    router_step equal_fold cfg s (s\<lparr>rs_draining := D, rs_handle := endUpstream (rs_handle s)\<rparr>)"
| step_close: "router_step equal_fold cfg s (s\<lparr>rs_handle := close_router (rs_handle s)\<rparr>)"

inductive router_reach ::
  "(string \<Rightarrow> string \<Rightarrow> bool) \<Rightarrow> route_config \<Rightarrow> route_db \<Rightarrow> router_sys \<Rightarrow> bool"
  for equal_fold cfg db0 where
  reach_start: "router_reach equal_fold cfg db0 (start_sys db0)"
| reach_step: "router_reach equal_fold cfg db0 s \<Longrightarrow> router_step equal_fold cfg s t \<Longrightarrow>
    router_reach equal_fold cfg db0 t"

section \<open>The counters count\<close>

definition live_on :: "router_sys \<Rightarrow> string multiset" where
  "live_on s = image_mset c_Backend (rs_entered s + rs_probing s) + rs_serving s + rs_waiting s"

definition counts_ok :: "router_sys \<Rightarrow> bool" where
  "counts_ok s \<longleftrightarrow>
     inFlight (rs_handle s) = (\<lambda>b. int (count (live_on s) b))
     \<and> upstreams (rs_handle s) = int (size (live_on s) + size (rs_draining s))"

lemma inFlight_ops [simp]:
  "inFlight (enterBackend b h) = (inFlight h)(b := inFlight h b + 1)"
  "inFlight (leave b h) = (inFlight h)(b := inFlight h b - 1)"
  "inFlight (endUpstream h) = inFlight h"
  "inFlight (close_router h) = inFlight h"
  by (simp_all add: enterBackend_def leave_def endBackend_def endUpstream_def close_router_def releaseOwnerLocked_def)

lemma upstreams_ops [simp]:
  "upstreams (enterBackend b h) = upstreams h"
  "upstreams (leave b h) = upstreams h - 1"
  "upstreams (endUpstream h) = upstreams h - 1"
  "upstreams (close_router h) = upstreams h"
  by (simp_all add: enterBackend_def leave_def endBackend_def endUpstream_def close_router_def releaseOwnerLocked_def)

lemma beginUpstream_counts:
  "beginUpstream lk h = Inr h' \<Longrightarrow> inFlight h' = inFlight h \<and> upstreams h' = upstreams h + 1"
  by (auto simp: beginUpstream_def split: if_splits lock_outcome.splits)

lemma serve_begin_proxy:
  assumes "serve_begin equal_fold cfg lk drv host db h = (Proxy b target, h')"
  shows "inFlight h' = (inFlight h)(b := inFlight h b + 1) \<and> upstreams h' = upstreams h + 1
       \<and> (\<exists>a. active_route db = Some a \<and> c_Backend a = b)"
  using assms beginUpstream_counts [of lk h]
  by (auto simp: serve_begin_def readState_def active_route_def Let_def
      split: if_splits sum.splits option.splits)

lemma serve_begin_refused:
  assumes "serve_begin equal_fold cfg lk drv host db h = (HttpError n, h')"
  shows "inFlight h' = inFlight h \<and> upstreams h' = upstreams h"
  using assms beginUpstream_counts [of lk h]
  by (auto simp: serve_begin_def readState_def Let_def fun_upd_idem
      split: if_splits sum.splits option.splits)

lemma router_step_counts: "router_step equal_fold cfg s t \<Longrightarrow> counts_ok s \<Longrightarrow> counts_ok t"
proof (induction rule: router_step.induct)
  case (step_enter c lk s h)
  then show ?case using beginUpstream_counts [OF step_enter(2)]
    by (auto simp: counts_ok_def live_on_def fun_eq_iff)
next
  case (step_serve lk drv host s b target h)
  then show ?case using serve_begin_proxy [OF step_serve(1)]
    by (auto simp: counts_ok_def live_on_def fun_eq_iff)
next
  case (step_serve_refused lk drv host s n h)
  then show ?case using serve_begin_refused [OF step_serve_refused(1)]
    by (auto simp: counts_ok_def live_on_def)
next
  case (step_wait c lk s h)
  then show ?case using beginUpstream_counts [OF step_wait(2)]
    by (auto simp: counts_ok_def live_on_def fun_eq_iff)
next
  case (step_drain lk s h drv c db)
  then show ?case using beginUpstream_counts [OF step_drain(1)]
    by (auto simp: counts_ok_def live_on_def)
next
  case (step_drain_refused lk s h)
  then show ?case using beginUpstream_counts [OF step_drain_refused(1)]
    by (auto simp: counts_ok_def live_on_def)
qed (auto simp: counts_ok_def live_on_def fun_eq_iff)

section \<open>The guard excludes traffic\<close>

definition guard_ok :: "router_sys \<Rightarrow> bool" where
  "guard_ok s \<longleftrightarrow>
     (\<forall>c. rs_guard s = Some c \<longrightarrow>
        c \<in># rs_draining s \<and> op_retired (c_OperationID c) (rs_db s)
        \<and> (\<forall>a. active_route (rs_db s) = Some a \<longrightarrow> c_Backend a \<noteq> c_Backend c)
        \<and> c_Backend c \<notin># rs_serving s
        \<and> c_Backend c \<notin># image_mset c_Backend (rs_probing s))"

lemma drain_guard_ok:
  "drain_guard c db = Inr () \<Longrightarrow> op_retired (c_OperationID c) db
    \<and> (\<forall>a. active_route db = Some a \<longrightarrow> c_Backend a \<noteq> c_Backend c)"
  by (auto simp: drain_guard_def drain_conflict_def readState_def op_retired_def active_route_def
      split: option.splits if_splits sum.splits)

lemma counts_idle:
  assumes "counts_ok s" and "inFlight (rs_handle s) b = 0"
  shows "b \<notin># rs_serving s \<and> b \<notin># image_mset c_Backend (rs_probing s)"
proof -
  from assms have "count (live_on s) b = 0" by (simp add: counts_ok_def)
  then have "b \<notin># live_on s" by (simp add: not_in_iff)
  then show ?thesis by (auto simp: live_on_def)
qed

lemma router_step_guard:
  "router_step equal_fold cfg s t \<Longrightarrow> counts_ok s \<Longrightarrow> guard_ok s \<Longrightarrow> guard_ok t"
proof (induction rule: router_step.induct)
  case (step_serve lk drv host s b target h)
  then show ?case using serve_begin_proxy [OF step_serve(1)]
    by (auto simp: guard_ok_def)
next
  case (step_guard c s)
  then show ?case using drain_guard_ok [of c "rs_db s"] counts_idle [of s "c_Backend c"]
    by (simp add: guard_ok_def)
qed (auto simp: guard_ok_def split: if_splits)

lemma router_step_inv:
  "router_step equal_fold cfg s t \<Longrightarrow> route_inv (rs_db s) \<Longrightarrow> route_inv (rs_db t)"
proof (induction rule: router_step.induct)
  case (step_fence s c E drv db)
  then show ?case using with_tx_invariant [of route_inv "rs_db s" "activate_fence c" drv]
    by (auto dest: activate_fence_inv)
next
  case (step_fence_returns s c E drv r db)
  then show ?case using with_tx_invariant [of route_inv "rs_db s" "activate_fence c" drv]
    by (auto dest: activate_fence_inv)
next
  case (step_settle s c P drv healthy r db)
  then show ?case using with_tx_invariant [of route_inv "rs_db s" "activate_settle c healthy" drv]
    by (auto dest: activate_settle_inv)
next
  case (step_retire s drv c r db)
  then show ?case using fenceRetirement_inv [of "rs_db s" cfg drv c] by simp
next
  case (step_reject s c drv r db)
  then show ?case using with_tx_invariant [of route_inv "rs_db s" "reject_tx c" drv]
      route_body_inv [of "rs_db s" "TxReject c"] by auto
next
  case (step_drain lk s h drv c db)
  then show ?case using fenceRetirement_inv [of "rs_db s" cfg drv c] by simp
qed auto

lemma router_reach_inv:
  "router_reach equal_fold cfg db0 s \<Longrightarrow> route_inv db0 \<Longrightarrow> route_inv (rs_db s) \<and> counts_ok s \<and> guard_ok s"
proof (induction rule: router_reach.induct)
  case reach_start
  then show ?case
    by (simp add: start_sys_def counts_ok_def live_on_def guard_ok_def new_handle_def fun_eq_iff)
next
  case (reach_step s t)
  then show ?case using router_step_inv router_step_counts router_step_guard by blast
qed

section \<open>Many handles, one database\<close>

text \<open>
  Handles of one database, by number. The advisory lock is exclusive: a lock attempt
  succeeds only while no other handle holds it.
\<close>

inductive owner_step :: "(nat \<Rightarrow> handle) \<Rightarrow> (nat \<Rightarrow> handle) \<Rightarrow> bool" where
  own_begin: "beginUpstream lk (hs i) = Inr h \<Longrightarrow> (lk = LockTaken \<Longrightarrow> \<forall>j. j \<noteq> i \<longrightarrow> \<not> owner (hs j)) \<Longrightarrow>
    owner_step hs (hs(i := h))"
| own_end: "0 < upstreams (hs i) \<Longrightarrow> owner_step hs (hs(i := endUpstream (hs i)))"
| own_close: "owner_step hs (hs(i := close_router (hs i)))"

inductive owner_reach :: "(nat \<Rightarrow> handle) \<Rightarrow> bool" where
  own_start: "owner_reach (\<lambda>_. new_handle)"
| own_step: "owner_reach hs \<Longrightarrow> owner_step hs hs' \<Longrightarrow> owner_reach hs'"

definition owner_inv :: "(nat \<Rightarrow> handle) \<Rightarrow> bool" where
  "owner_inv hs \<longleftrightarrow>
     (\<forall>i j. owner (hs i) \<and> owner (hs j) \<longrightarrow> i = j)
     \<and> (\<forall>i. 0 \<le> upstreams (hs i) \<and> (0 < upstreams (hs i) \<longrightarrow> owner (hs i)))"

lemma beginUpstream_owner:
  "beginUpstream lk h = Inr h' \<Longrightarrow> owner h' \<and> upstreams h' = upstreams h + 1 \<and> (owner h \<or> lk = LockTaken)"
  by (auto simp: beginUpstream_def split: if_splits lock_outcome.splits)

lemma endUpstream_owner: "owner (endUpstream h) \<longleftrightarrow> owner h \<and> \<not> (closed h \<and> upstreams h = 1)"
  by (auto simp: endUpstream_def releaseOwnerLocked_def)

lemma close_router_owner: "owner (close_router h) \<longleftrightarrow> owner h \<and> upstreams h \<noteq> 0"
  by (auto simp: close_router_def releaseOwnerLocked_def)

lemma owner_step_inv: "owner_step hs hs' \<Longrightarrow> owner_inv hs \<Longrightarrow> owner_inv hs'"
proof (induction rule: owner_step.induct)
  case (own_begin lk hs i h)
  then show ?case using beginUpstream_owner [OF own_begin(1)]
    unfolding owner_inv_def by (auto simp: less_le)
next
  case (own_end hs i)
  then show ?case
    unfolding owner_inv_def by (auto simp: endUpstream_owner)
next
  case (own_close hs i)
  then show ?case
    unfolding owner_inv_def by (auto simp: close_router_owner)
qed

lemma owner_reach_inv: "owner_reach hs \<Longrightarrow> owner_inv hs"
proof (induction rule: owner_reach.induct)
  case own_start
  then show ?case by (simp add: owner_inv_def new_handle_def)
next
  case (own_step hs hs')
  then show ?case using owner_step_inv by blast
qed

section \<open>Properties\<close>

text \<open>
  C36: Draining is exclusive. In every reachable state of a router whose goroutines
  interleave freely, while the action of \<open>WithDrainedBackend\<close> runs for a candidate, its
  operation is retired, the active route is on another backend, no proxied request is on
  the candidate's backend and no activation is probing it.
\<close>

theorem drained_backend_is_quiet:
  assumes "router_reach equal_fold cfg db0 s" and "route_inv db0" and "rs_guard s = Some c"
  shows "op_retired (c_OperationID c) (rs_db s)
       \<and> (\<forall>a. active_route (rs_db s) = Some a \<longrightarrow> c_Backend a \<noteq> c_Backend c)
       \<and> c_Backend c \<notin># rs_serving s
       \<and> c_Backend c \<notin># image_mset c_Backend (rs_probing s)"
  using router_reach_inv [OF assms(1,2)] assms(3) by (simp add: guard_ok_def)

text \<open>
  The in-flight bookkeeping is exact. In every reachable state the in-flight count of
  a backend is the number of activations, proxied requests and health waits on it, and the
  upstream count is the number of all of them plus the drains.
\<close>

theorem in_flight_counts_are_exact:
  assumes "router_reach equal_fold cfg db0 s" and "route_inv db0"
  shows "inFlight (rs_handle s) b
           = int (count (image_mset c_Backend (rs_entered s) + image_mset c_Backend (rs_probing s)
                         + rs_serving s + rs_waiting s) b)
       \<and> upstreams (rs_handle s)
           = int (size (rs_entered s) + size (rs_probing s) + size (rs_serving s)
                  + size (rs_waiting s) + size (rs_draining s))"
  using router_reach_inv [OF assms] by (simp add: counts_ok_def live_on_def)

text \<open>
  C39: One upstream owner per database. However handles open, run and close upstream operations, at most one handle owns
  the lock; a handle with an operation in progress owns it, so no two handles contact upstreams at the same
  time; and no handle's count of operations is negative.
\<close>

theorem single_upstream_owner:
  assumes "owner_reach hs"
  shows "(owner (hs i) \<and> owner (hs j) \<longrightarrow> i = j)
       \<and> (0 < upstreams (hs i) \<longrightarrow> owner (hs i))
       \<and> (0 < upstreams (hs i) \<and> 0 < upstreams (hs j) \<longrightarrow> i = j)
       \<and> 0 \<le> upstreams (hs i)"
  using owner_reach_inv [OF assms] unfolding owner_inv_def by blast

section \<open>Concrete instances\<close>

definition ex_drained :: router_sys where
  "ex_drained = (start_sys ex_db_active)\<lparr>
     rs_handle := new_handle\<lparr>owner := True, upstreams := 1\<rparr>,
     rs_db := ex_db_active\<lparr>rd_retired := [ex_id CHR ''d'' \<mapsto> ex_candidate CHR ''d'' 2 ''green'']\<rparr>,
     rs_draining := {#ex_candidate CHR ''d'' 2 ''green''#},
     rs_guard := Some (ex_candidate CHR ''d'' 2 ''green'')\<rparr>"

lemma ex_drained_reach: "router_reach (=) ex_config ex_db_active ex_drained"
proof -
  let ?c = "ex_candidate CHR ''d'' 2 ''green''"
  let ?s = "start_sys ex_db_active"
  have "beginUpstream LockTaken (rs_handle ?s) = Inr (new_handle\<lparr>owner := True, upstreams := 1\<rparr>)"
    by (simp add: start_sys_def beginUpstream_def new_handle_def)
  moreover have "rs_guard ?s = None" "rs_db ?s = ex_db_active" "rs_draining ?s = {#}"
    by (simp_all add: start_sys_def)
  ultimately have "router_step (=) ex_config ?s (?s\<lparr>rs_handle := new_handle\<lparr>owner := True, upstreams := 1\<rparr>,
      rs_db := ex_db_active\<lparr>rd_retired := [ex_id CHR ''d'' \<mapsto> ?c]\<rparr>, rs_draining := {#?c#}\<rparr>)"
    using step_drain [where s = ?s] ex_fence_retirement by force
  then have 1: "router_reach (=) ex_config ex_db_active
      (?s\<lparr>rs_handle := new_handle\<lparr>owner := True, upstreams := 1\<rparr>,
        rs_db := ex_db_active\<lparr>rd_retired := [ex_id CHR ''d'' \<mapsto> ?c]\<rparr>, rs_draining := {#?c#}\<rparr>)"
    (is "router_reach _ _ _ ?t")
    by (rule reach_step [OF reach_start])
  have "drain_guard ?c (rs_db ?t) = Inr ()"
    by (simp add: drain_guard_def drain_conflict_def readState_def ex_db_active_def ex_db_def ex_candidate_def)
  then have "router_step (=) ex_config ?t (?t\<lparr>rs_guard := Some ?c\<rparr>)"
    by (intro step_guard) (simp_all add: start_sys_def new_handle_def)
  then show ?thesis using reach_step [OF 1] by (simp add: ex_drained_def)
qed

theorem drained_backend_is_quiet_witness:
  "op_retired (c_OperationID (ex_candidate CHR ''d'' 2 ''green'')) (rs_db ex_drained)
   \<and> ''green'' \<notin># rs_serving ex_drained"
  using drained_backend_is_quiet [OF ex_drained_reach ex_db_active_inv, of "ex_candidate CHR ''d'' 2 ''green''"]
  by (simp add: ex_drained_def ex_candidate_def)

theorem in_flight_counts_are_exact_witness:
  "inFlight (rs_handle ex_drained) ''green'' = 0 \<and> upstreams (rs_handle ex_drained) = 1"
  using in_flight_counts_are_exact [OF ex_drained_reach ex_db_active_inv, of "''green''"]
  by (simp add: ex_drained_def start_sys_def)

lemma ex_owner_reach: "owner_reach ((\<lambda>_. new_handle)(0 := new_handle\<lparr>owner := True, upstreams := 1\<rparr>))"
  by (rule own_step [OF own_start], rule own_begin [where lk = LockTaken])
    (simp_all add: beginUpstream_def new_handle_def)

theorem single_upstream_owner_witness:
  "let hs = (\<lambda>_. new_handle)(0 := new_handle\<lparr>owner := True, upstreams := 1\<rparr>) in
     0 < upstreams (hs (0::nat)) \<and> owner (hs 0) \<and> \<not> owner (hs 1) \<and> \<not> 0 < upstreams (hs 1)"
  using single_upstream_owner [OF ex_owner_reach, of 0 1] single_upstream_owner [OF ex_owner_reach, of 1 0]
  by (simp add: Let_def)

end
