(* ===== verification/Node_Pool.thy ===== *)
theory Node_Pool
  imports Go_Lib
begin

text \<open>
  \<open>internal/nodelaunch\<close>, the slot ledger: \<open>unit.go\<close> (the assignment of a Node service and
  its rendered systemd unit), \<open>reservations.go\<close> (UID/port slots: reserve, claim the start,
  retire) and \<open>installation.go\<close> (one installation attempt and its recovery). The ledger is a
  SQLite table with one row per operation.
\<close>

section \<open>Assignments and rendered units\<close>

record assignment =
  a_UID :: int
  a_OperationID :: string
  a_ProjectID :: string
  a_RuntimeID :: string
  a_ArtifactSHA256 :: string
  a_ToolchainSHA256 :: string
  a_Architecture :: string
  a_ReleaseDirectory :: string
  a_Port :: int

record service =
  s_Name :: string
  s_Unit :: string

definition valid_assignment :: "assignment \<Rightarrow> bool" where
  "valid_assignment a \<longleftrightarrow>
     60000 \<le> a_UID a \<and> a_UID a \<le> 60999 \<and> digestID (a_OperationID a) \<and> digestID (a_ProjectID a)
     \<and> digestID (a_RuntimeID a) \<and> digestID (a_ArtifactSHA256 a) \<and> digestID (a_ToolchainSHA256 a)
     \<and> (a_Architecture a = ''arm64'' \<or> a_Architecture a = ''amd64'')
     \<and> 1024 \<le> a_Port a \<and> a_Port a \<le> 65535
     \<and> hasPrefix (a_ReleaseDirectory a) ''release-''
     \<and> digestID (trimPrefix (a_ReleaseDirectory a) ''release-'')"

text \<open>The lines of the unit file; \<open>fmt.Sprintf\<close> ends every one of them with a newline.\<close>

definition unit_lines :: "assignment \<Rightarrow> string list" where
  "unit_lines a =
     (let root = ''/opt/deployer-node'';
          bin = root @ ''/toolchains/'' @ a_ToolchainSHA256 a;
          uid = formatUint (nat (a_UID a));
          port = formatUint (nat (a_Port a))
      in
       [''[Unit]'',
        ''Description=Node project '' @ a_ProjectID a @ '' operation '' @ a_OperationID a,
        ''StartLimitIntervalSec=60'',
        ''StartLimitBurst=3'',
        [],
        ''[Service]'',
        ''Type=exec'',
        ''User='' @ uid,
        ''Group='' @ uid,
        ''SupplementaryGroups='',
        ''PrivateTmp=no'',
        ''RemoveIPC=yes'',
        ''WorkingDirectory='' @ root @ ''/releases/'' @ a_ReleaseDirectory a,
        ''ExecStart=:/usr/bin/env -i PATH='' @ bin @ ''/bin:/usr/bin:/bin HOME=/work NODE_ENV=production HOST=127.0.0.1 PORT=''
          @ port @ '' npm_config_cache=/work/npm-cache npm_config_userconfig='' @ root
          @ ''/empty-user.npmrc npm_config_globalconfig='' @ root @ ''/empty-global.npmrc npm_config_offline=true ''
          @ bin @ ''/bin/node '' @ bin @ ''/lib/node_modules/npm/bin/npm-cli.js start --ignore-scripts'',
        ''Restart=always'',
        ''RestartSec=3'',
        ''TimeoutStartSec=15'',
        ''TimeoutStopSec=5'',
        ''KillMode=control-group'',
        ''SendSIGKILL=yes'',
        ''OOMPolicy=stop'',
        ''UMask=0077'',
        ''NoNewPrivileges=yes'',
        ''CapabilityBoundingSet='',
        ''AmbientCapabilities='',
        ''PrivateDevices=yes'',
        ''ProtectSystem=strict'',
        ''ProtectHome=yes'',
        ''ProtectControlGroups=yes'',
        ''ProtectKernelTunables=yes'',
        ''ProtectKernelModules=yes'',
        ''ProtectKernelLogs=yes'',
        ''ProtectProc=invisible'',
        ''RestrictSUIDSGID=yes'',
        ''RestrictNamespaces=yes'',
        ''RestrictAddressFamilies=AF_UNIX AF_INET AF_INET6'',
        ''LockPersonality=yes'',
        ''MemoryMax=256M'',
        ''MemorySwapMax=0'',
        ''TasksMax=64'',
        ''CPUQuota=100%'',
        ''LimitFSIZE=16M'',
        ''TemporaryFileSystem=/work:rw,size=64M,mode=1777 /tmp:rw,size=16M,mode=1777 /var/tmp:rw,size=16M,mode=1777'',
        ''IPAddressDeny=any'',
        ''IPAddressAllow=localhost'',
        ''StandardOutput=journal'',
        ''StandardError=journal'',
        ''LogRateLimitIntervalSec=30s'',
        ''LogRateLimitBurst=200''])"

definition newline :: char where
  "newline = CHR 0x0A"

definition render :: "assignment \<Rightarrow> service result" where
  "render a =
     (if \<not> valid_assignment a then Inl ErrAssignment
      else Inr \<lparr>s_Name = ''deployer-node-'' @ a_OperationID a @ ''.service'',
                s_Unit = concat (map (\<lambda>l. l @ [newline]) (unit_lines a))\<rparr>)"

section \<open>The ledger\<close>

record slot =
  slot_UID :: int
  slot_Port :: int

record pool_config =
  pc_ProjectID :: string
  pc_RuntimeID :: string
  pc_ToolchainSHA256 :: string
  pc_Architecture :: string
  pc_Slots :: "slot list"

record manifest =
  mf_SHA256 :: string
  mf_Files :: int
  mf_ExpandedBytes :: int

datatype res_state = Reserved | Starting | Retiring | RetiredSlot

record retirement_observation =
  ro_Assignment :: assignment
  ro_ObservedAt :: int
  ro_StartsFenced :: bool
  ro_ProcessesGone :: bool
  ro_ListenerGone :: bool
  ro_RoutingDetached :: bool

record installed_release =
  ir_Assignment :: assignment
  ir_Manifest :: manifest
  ir_InstalledAt :: int

text \<open>
  A row of \<open>reservations\<close>. Its key is the operation of the assignment; the columns \<open>uid\<close>
  and \<open>port\<close> repeat the assignment's values.
\<close>

record reservation =
  r_Assignment :: assignment
  r_State :: res_state
  r_Retirement :: "retirement_observation option"
  r_InstallationAttempted :: bool
  r_Installed :: "installed_release option"

record pool_db =
  pd_version :: nat
  pd_config :: "pool_config option"
  pd_rows :: "reservation list"

definition empty_pool_db :: pool_db where
  "empty_pool_db = \<lparr>pd_version = 0, pd_config = None, pd_rows = []\<rparr>"

abbreviation operation_of :: "reservation \<Rightarrow> string" where
  "operation_of r \<equiv> a_OperationID (r_Assignment r)"

section \<open>OpenPool and initialize\<close>

fun valid_slots :: "int list \<Rightarrow> int list \<Rightarrow> slot list \<Rightarrow> bool" where
  "valid_slots uids ports [] = True"
| "valid_slots uids ports (s # ss) =
     (60000 \<le> slot_UID s \<and> slot_UID s \<le> 60999 \<and> 1024 \<le> slot_Port s \<and> slot_Port s \<le> 65535
      \<and> slot_UID s \<notin> set uids \<and> slot_Port s \<notin> set ports
      \<and> valid_slots (slot_UID s # uids) (slot_Port s # ports) ss)"

definition valid_pool_config :: "pool_config \<Rightarrow> bool" where
  "valid_pool_config cfg \<longleftrightarrow>
     digestID (pc_ProjectID cfg) \<and> digestID (pc_RuntimeID cfg) \<and> digestID (pc_ToolchainSHA256 cfg)
     \<and> (pc_Architecture cfg = ''arm64'' \<or> pc_Architecture cfg = ''amd64'')
     \<and> 2 \<le> length (pc_Slots cfg) \<and> length (pc_Slots cfg) \<le> 16
     \<and> valid_slots [] [] (pc_Slots cfg)"

definition pool_initialize :: "pool_config \<Rightarrow> pool_db \<Rightarrow> unit result \<times> pool_db" where
  "pool_initialize cfg db =
     (if pd_version db > 2 then (Inl ErrAssignment, db)
      else
        let db1 = db\<lparr>pd_version := max (pd_version db) 2\<rparr>
        in case pd_config db1 of
             None \<Rightarrow> (Inr (), db1\<lparr>pd_config := Some cfg\<rparr>)
           | Some cfg' \<Rightarrow> if cfg' \<noteq> cfg then (Inl Launch_ErrConflict, db) else (Inr (), db1))"

definition openPool :: "fs_view \<Rightarrow> driver \<Rightarrow> pool_config \<Rightarrow> pool_db \<Rightarrow> unit result \<times> pool_db" where
  "openPool fs drv cfg db =
     (if \<not> valid_pool_config cfg then (Inl ErrAssignment, db)
      else case prepare_private_file ErrAssignment fs of
        Inl e \<Rightarrow> (Inl e, db)
      | Inr _ \<Rightarrow> with_tx drv (pool_initialize cfg) db)"

section \<open>Reservation transactions\<close>

definition find_reservation :: "string \<Rightarrow> pool_db \<Rightarrow> reservation option" where
  "find_reservation operation db = get_row (\<lambda>r. operation_of r) operation (pd_rows db)"

definition readReservation :: "string \<Rightarrow> pool_db \<Rightarrow> reservation result" where
  "readReservation operation db =
     (case find_reservation operation db of None \<Rightarrow> Inl Launch_ErrNotFound | Some r \<Rightarrow> Inr r)"

definition update_reservation :: "string \<Rightarrow> (reservation \<Rightarrow> reservation) \<Rightarrow> pool_db \<Rightarrow> pool_db" where
  "update_reservation operation f db =
     db\<lparr>pd_rows := upd_row (\<lambda>r. operation_of r) operation f (pd_rows db)\<rparr>"

definition pool_lookup :: "driver \<Rightarrow> string \<Rightarrow> pool_db \<Rightarrow> reservation result" where
  "pool_lookup drv operation db =
     (if \<not> digestID operation then Inl ErrAssignment
      else case drv of Some e \<Rightarrow> Inl e | None \<Rightarrow> readReservation operation db)"

definition occupied :: "slot \<Rightarrow> pool_db \<Rightarrow> bool" where
  "occupied s db \<longleftrightarrow>
     list_ex (\<lambda>r. r_State r \<noteq> RetiredSlot
                  \<and> (a_UID (r_Assignment r) = slot_UID s \<or> a_Port (r_Assignment r) = slot_Port s)) (pd_rows db)"

text \<open>
  The INSERT statement with the constraints of the schema: the primary key and the unique
  indexes \<open>live_uid\<close> and \<open>live_port\<close>; a violation is a driver error.
\<close>

definition insert_reservation :: "reservation \<Rightarrow> pool_db \<Rightarrow> reservation result \<times> pool_db" where
  "insert_reservation r db =
     (if list_ex (\<lambda>q. operation_of q = operation_of r) (pd_rows db)
         \<or> list_ex (\<lambda>q. r_State q \<noteq> RetiredSlot \<and> a_UID (r_Assignment q) = a_UID (r_Assignment r)) (pd_rows db)
         \<or> list_ex (\<lambda>q. r_State q \<noteq> RetiredSlot \<and> a_Port (r_Assignment q) = a_Port (r_Assignment r)) (pd_rows db)
      then (Inl ErrDriver, db)
      else (Inr r, db\<lparr>pd_rows := pd_rows db @ [r]\<rparr>))"

definition new_reservation :: "assignment \<Rightarrow> reservation" where
  "new_reservation a = \<lparr>r_Assignment = a, r_State = Reserved, r_Retirement = None,
     r_InstallationAttempted = False, r_Installed = None\<rparr>"

fun reserve_slots :: "assignment \<Rightarrow> slot list \<Rightarrow> pool_db \<Rightarrow> reservation result \<times> pool_db" where
  "reserve_slots a [] db = (Inl Launch_ErrCapacity, db)"
| "reserve_slots a (s # ss) db =
     (if occupied s db then reserve_slots a ss db
      else insert_reservation (new_reservation (a\<lparr>a_UID := slot_UID s, a_Port := slot_Port s\<rparr>)) db)"

definition reserve_tx :: "pool_config \<Rightarrow> assignment \<Rightarrow> pool_db \<Rightarrow> reservation result \<times> pool_db" where
  "reserve_tx cfg a db =
     (case find_reservation (a_OperationID a) db of
        Some old \<Rightarrow>
          if a\<lparr>a_UID := a_UID (r_Assignment old), a_Port := a_Port (r_Assignment old)\<rparr> \<noteq> r_Assignment old
          then (Inl Launch_ErrConflict, db) else (Inr old, db)
      | None \<Rightarrow>
          if list_ex (\<lambda>r. a_ReleaseDirectory (r_Assignment r) = a_ReleaseDirectory a) (pd_rows db)
          then (Inl Launch_ErrConflict, db)
          else reserve_slots a (pc_Slots cfg) db)"

definition reserve :: "pool_config \<Rightarrow> driver \<Rightarrow> assignment \<Rightarrow> pool_db \<Rightarrow> reservation result \<times> pool_db" where
  "reserve cfg drv a db =
     (if a_UID a \<noteq> 0 \<or> a_Port a \<noteq> 0 \<or> a_ProjectID a \<noteq> pc_ProjectID cfg \<or> a_RuntimeID a \<noteq> pc_RuntimeID cfg
         \<or> a_ToolchainSHA256 a \<noteq> pc_ToolchainSHA256 cfg \<or> a_Architecture a \<noteq> pc_Architecture cfg
      then (Inl ErrAssignment, db)
      else case pc_Slots cfg of
        [] \<Rightarrow> (Inl Panic, db)
      | s # _ \<Rightarrow>
          (case render (a\<lparr>a_UID := slot_UID s, a_Port := slot_Port s\<rparr>) of
             Inl e \<Rightarrow> (Inl e, db)
           | Inr _ \<Rightarrow> with_tx drv (reserve_tx cfg a) db))"

definition claim_start_tx :: "string \<Rightarrow> pool_db \<Rightarrow> reservation result \<times> pool_db" where
  "claim_start_tx operation db =
     (case readReservation operation db of
        Inl e \<Rightarrow> (Inl e, db)
      | Inr r \<Rightarrow>
          if r_State r \<noteq> Reserved \<or> \<not> r_InstallationAttempted r
             \<or> (case r_Installed r of None \<Rightarrow> True | Some ir \<Rightarrow> ir_Assignment ir \<noteq> r_Assignment r)
          then (Inl Launch_ErrConflict, db)
          else (Inr (r\<lparr>r_State := Starting\<rparr>),
                update_reservation operation (\<lambda>q. q\<lparr>r_State := Starting\<rparr>) db))"

definition claimStart :: "driver \<Rightarrow> string \<Rightarrow> pool_db \<Rightarrow> reservation result \<times> pool_db" where
  "claimStart drv operation db =
     (if \<not> digestID operation then (Inl ErrAssignment, db) else with_tx drv (claim_start_tx operation) db)"

definition begin_retirement_tx :: "string \<Rightarrow> pool_db \<Rightarrow> reservation result \<times> pool_db" where
  "begin_retirement_tx operation db =
     (case readReservation operation db of
        Inl e \<Rightarrow> (Inl e, db)
      | Inr r \<Rightarrow>
          if r_State r \<noteq> RetiredSlot
          then (Inr (r\<lparr>r_State := Retiring\<rparr>), update_reservation operation (\<lambda>q. q\<lparr>r_State := Retiring\<rparr>) db)
          else (Inr r, db))"

definition beginRetirement :: "driver \<Rightarrow> string \<Rightarrow> pool_db \<Rightarrow> reservation result \<times> pool_db" where
  "beginRetirement drv operation db =
     (if \<not> digestID operation then (Inl ErrAssignment, db) else with_tx drv (begin_retirement_tx operation) db)"

definition retirement_proven :: "retirement_observation \<Rightarrow> bool" where
  "retirement_proven ob \<longleftrightarrow>
     ro_StartsFenced ob \<and> ro_ProcessesGone ob \<and> ro_ListenerGone ob \<and> ro_RoutingDetached ob"

definition reconcile_retirement_tx ::
  "reservation \<Rightarrow> retirement_observation \<Rightarrow> pool_db \<Rightarrow> reservation result \<times> pool_db" where
  "reconcile_retirement_tx r ob db =
     (case readReservation (operation_of r) db of
        Inl e \<Rightarrow> (Inl e, db)
      | Inr cur \<Rightarrow>
          if r_Assignment cur \<noteq> r_Assignment r \<or> (r_State cur \<noteq> Retiring \<and> r_State cur \<noteq> RetiredSlot)
          then (Inl Launch_ErrConflict, db)
          else if r_State cur = RetiredSlot then (Inr cur, db)
          else (Inr (r\<lparr>r_State := RetiredSlot, r_Retirement := Some ob\<rparr>),
                update_reservation (operation_of r)
                  (\<lambda>q. q\<lparr>r_State := RetiredSlot, r_Retirement := Some ob\<rparr>) db))"

section \<open>Installation transactions\<close>

datatype prepare_outcome = AlreadyInstalled reservation | Dispatch

definition prepare_begin_tx :: "bool \<Rightarrow> reservation \<Rightarrow> manifest \<Rightarrow> pool_db \<Rightarrow> prepare_outcome result \<times> pool_db" where
  "prepare_begin_tx has_installer r m db =
     (case readReservation (operation_of r) db of
        Inl e \<Rightarrow> (Inl e, db)
      | Inr cur \<Rightarrow>
          if r_Assignment cur \<noteq> r_Assignment r \<or> r_State cur \<noteq> Reserved then (Inl Launch_ErrConflict, db)
          else (case r_Installed cur of
                  Some ir \<Rightarrow>
                    if ir_Assignment ir \<noteq> r_Assignment r \<or> ir_Manifest ir \<noteq> m then (Inl Launch_ErrConflict, db)
                    else (Inr (AlreadyInstalled cur), db)
                | None \<Rightarrow>
                    if r_InstallationAttempted cur \<or> \<not> has_installer then (Inl Launch_ErrConflict, db)
                    else (Inr Dispatch,
                          update_reservation (operation_of r) (\<lambda>q. q\<lparr>r_InstallationAttempted := True\<rparr>) db)))"

definition prepare_finish_tx :: "reservation \<Rightarrow> installed_release \<Rightarrow> pool_db \<Rightarrow> reservation result \<times> pool_db" where
  "prepare_finish_tx r receipt db =
     (case readReservation (operation_of r) db of
        Inl e \<Rightarrow> (Inl e, db)
      | Inr cur \<Rightarrow>
          if r_Assignment cur \<noteq> r_Assignment r \<or> r_State cur \<noteq> Reserved \<or> \<not> r_InstallationAttempted cur
             \<or> r_Installed cur \<noteq> None
          then (Inl Launch_ErrConflict, db)
          else (Inr (r\<lparr>r_Installed := Some receipt\<rparr>),
                update_reservation (operation_of r) (\<lambda>q. q\<lparr>r_Installed := Some receipt\<rparr>) db))"

definition reconcile_install_tx ::
  "reservation \<Rightarrow> installed_release \<Rightarrow> pool_db \<Rightarrow> reservation result \<times> pool_db" where
  "reconcile_install_tx r receipt db =
     (case readReservation (operation_of r) db of
        Inl e \<Rightarrow> (Inl e, db)
      | Inr cur \<Rightarrow>
          if r_Assignment cur \<noteq> r_Assignment r \<or> r_State cur \<noteq> Reserved \<or> \<not> r_InstallationAttempted cur
          then (Inl Launch_ErrConflict, db)
          else (case r_Installed cur of
                  Some ir \<Rightarrow>
                    if ir_Assignment ir \<noteq> r_Assignment r \<or> ir_Manifest ir \<noteq> ir_Manifest receipt
                    then (Inl Launch_ErrConflict, db) else (Inr cur, db)
                | None \<Rightarrow>
                    (Inr (r\<lparr>r_Installed := Some receipt\<rparr>),
                     update_reservation (operation_of r) (\<lambda>q. q\<lparr>r_Installed := Some receipt\<rparr>) db)))"

text \<open>
  Every change of an opened ledger is one of these transactions. The ones that record an
  observation or a receipt carry it, and \<open>pool_tx_ok\<close> is what their callers have checked
  about it before they open the transaction.
\<close>

datatype pool_tx =
    PReserve assignment
  | PClaimStart string
  | PBeginRetirement string
  | PReconcileRetirement reservation retirement_observation
  | PPrepareBegin bool reservation manifest
  | PPrepareFinish reservation installed_release
  | PReconcileInstall reservation installed_release

fun pool_tx_ok :: "pool_tx \<Rightarrow> bool" where
  "pool_tx_ok (PReconcileRetirement r ob) = (ro_Assignment ob = r_Assignment r \<and> retirement_proven ob)"
| "pool_tx_ok (PPrepareFinish r receipt) = (ir_Assignment receipt = r_Assignment r)"
| "pool_tx_ok (PReconcileInstall r receipt) = (ir_Assignment receipt = r_Assignment r)"
| "pool_tx_ok _ = True"

definition forget :: "'a result \<times> 'b \<Rightarrow> unit result \<times> 'b" where
  "forget p = (case fst p of Inl e \<Rightarrow> Inl e | Inr _ \<Rightarrow> Inr (), snd p)"

fun pool_body :: "pool_config \<Rightarrow> driver \<Rightarrow> pool_tx \<Rightarrow> pool_db \<Rightarrow> unit result \<times> pool_db" where
  "pool_body cfg drv (PReserve a) db = forget (reserve cfg drv a db)"
| "pool_body cfg drv (PClaimStart k) db = forget (claimStart drv k db)"
| "pool_body cfg drv (PBeginRetirement k) db = forget (beginRetirement drv k db)"
| "pool_body cfg drv (PReconcileRetirement r ob) db = forget (with_tx drv (reconcile_retirement_tx r ob) db)"
| "pool_body cfg drv (PPrepareBegin inst r m) db = forget (with_tx drv (prepare_begin_tx inst r m) db)"
| "pool_body cfg drv (PPrepareFinish r receipt) db = forget (with_tx drv (prepare_finish_tx r receipt) db)"
| "pool_body cfg drv (PReconcileInstall r receipt) db = forget (with_tx drv (reconcile_install_tx r receipt) db)"

definition pool_exec :: "pool_config \<Rightarrow> driver \<times> pool_tx \<Rightarrow> pool_db \<Rightarrow> unit result \<times> pool_db" where
  "pool_exec cfg i db =
     (if pool_tx_ok (snd i) then pool_body cfg (fst i) (snd i) db else (Inl Launch_ErrConflict, db))"

section \<open>The operations that call out of the ledger\<close>

text \<open>
  \<open>ReconcileRetirement\<close>: the reader is a trusted host adapter (\<open>None\<close> for a nil interface);
  the clock is read before and after it, and other transactions may commit meanwhile.
\<close>

record retire_env =
  re_drv_lookup :: driver
  re_reader :: "(assignment \<Rightarrow> retirement_observation result) option"
  re_started :: int
  re_now :: int
  re_ctx_over :: bool
  re_mid :: "(driver \<times> pool_tx) list"
  re_drv :: driver

definition reconcileRetirement ::
  "pool_config \<Rightarrow> retire_env \<Rightarrow> string \<Rightarrow> pool_db \<Rightarrow> reservation result \<times> pool_db" where
  "reconcileRetirement cfg env operation db =
     (case pool_lookup (re_drv_lookup env) operation db of
        Inl e \<Rightarrow> (Inl e, db)
      | Inr r \<Rightarrow>
          if r_State r = RetiredSlot then (Inr r, db)
          else (case (if r_State r = Retiring then re_reader env else None) of
                  None \<Rightarrow> (Inl ErrRetirement, db)
                | Some reader \<Rightarrow>
                    let db1 = run_ops (pool_exec cfg) (re_mid env) db
                    in (case reader (r_Assignment r) of
                          Inl e \<Rightarrow> (Inl e, db1)
                        | Inr ob \<Rightarrow>
                            if re_ctx_over env then (Inl ErrContext, db1)
                            else if ro_Assignment ob \<noteq> r_Assignment r \<or> ro_ObservedAt ob < re_started env
                                    \<or> ro_ObservedAt ob > re_now env \<or> \<not> retirement_proven ob
                            then (Inl ErrRetirement, db1)
                            else with_tx (re_drv env) (reconcile_retirement_tx r ob) db1)))"

text \<open>
  \<open>PrepareRelease\<close>: \<open>validate\<close> is \<open>nodeartifact.Validate\<close>; the installer is trusted host
  access and returns the directory and the manifest of what it installed.
\<close>

record install_env =
  ie_drv_lookup :: driver
  ie_validate :: "string \<Rightarrow> manifest result"
  ie_drv1 :: driver
  ie_installer :: "(assignment \<Rightarrow> (string \<times> manifest) result) option"
  ie_mid :: "(driver \<times> pool_tx) list"
  ie_ctx_over :: bool
  ie_now :: int
  ie_drv2 :: driver

definition prepare_install ::
  "pool_config \<Rightarrow> install_env \<Rightarrow> reservation \<Rightarrow> manifest \<Rightarrow> pool_db \<Rightarrow> reservation result \<times> pool_db" where
  "prepare_install cfg env r m db =
     (case ie_installer env of
        None \<Rightarrow> (Inl Launch_ErrConflict, db)
      | Some installer \<Rightarrow>
          let db1 = run_ops (pool_exec cfg) (ie_mid env) db;
              r' = r\<lparr>r_InstallationAttempted := True\<rparr>
          in (case installer (r_Assignment r) of
                Inl e \<Rightarrow> (Inl e, db1)
              | Inr (directory, installed) \<Rightarrow>
                  if ie_ctx_over env then (Inl ErrContext, db1)
                  else if directory \<noteq> a_ReleaseDirectory (r_Assignment r) \<or> installed \<noteq> m
                  then (Inl Launch_ErrConflict, db1)
                  else with_tx (ie_drv2 env)
                    (prepare_finish_tx r' \<lparr>ir_Assignment = r_Assignment r, ir_Manifest = m, ir_InstalledAt = ie_now env\<rparr>)
                    db1))"

definition prepareRelease ::
  "pool_config \<Rightarrow> install_env \<Rightarrow> string \<Rightarrow> pool_db \<Rightarrow> reservation result \<times> pool_db" where
  "prepareRelease cfg env operation db =
     (case pool_lookup (ie_drv_lookup env) operation db of
        Inl e \<Rightarrow> (Inl e, db)
      | Inr r \<Rightarrow>
          (case ie_validate env (a_ArtifactSHA256 (r_Assignment r)) of
             Inl e \<Rightarrow> (Inl e, db)
           | Inr m \<Rightarrow>
               (case with_tx (ie_drv1 env) (prepare_begin_tx (ie_installer env \<noteq> None) r m) db of
                  (Inl e, db1) \<Rightarrow> (Inl e, db1)
                | (Inr (AlreadyInstalled cur), db1) \<Rightarrow> (Inr cur, db1)
                | (Inr Dispatch, db1) \<Rightarrow> prepare_install cfg env r m db1)))"

record observe_env =
  oe_drv_lookup :: driver
  oe_validate :: "string \<Rightarrow> manifest result"
  oe_reader :: "(assignment \<Rightarrow> installed_release result) option"
  oe_started :: int
  oe_now :: int
  oe_ctx_over :: bool
  oe_mid :: "(driver \<times> pool_tx) list"
  oe_drv :: driver

text \<open>
  \<open>ReconcileInstallation\<close>; an \<open>InstallationObservation\<close> has the fields of a receipt, with
  \<open>ObservedAt\<close> in the place of \<open>InstalledAt\<close>.
\<close>

definition reconcileInstallation ::
  "pool_config \<Rightarrow> observe_env \<Rightarrow> string \<Rightarrow> pool_db \<Rightarrow> reservation result \<times> pool_db" where
  "reconcileInstallation cfg env operation db =
     (case pool_lookup (oe_drv_lookup env) operation db of
        Inl e \<Rightarrow> (Inl e, db)
      | Inr r \<Rightarrow>
          (case oe_validate env (a_ArtifactSHA256 (r_Assignment r)) of
             Inl e \<Rightarrow> (Inl e, db)
           | Inr m \<Rightarrow>
               if r_State r \<noteq> Reserved \<or> \<not> r_InstallationAttempted r then (Inl Launch_ErrConflict, db)
               else (case r_Installed r of
                       Some ir \<Rightarrow>
                         if ir_Assignment ir \<noteq> r_Assignment r \<or> ir_Manifest ir \<noteq> m
                         then (Inl Launch_ErrConflict, db) else (Inr r, db)
                     | None \<Rightarrow>
                         (case oe_reader env of
                            None \<Rightarrow> (Inl Launch_ErrConflict, db)
                          | Some reader \<Rightarrow>
                              let db1 = run_ops (pool_exec cfg) (oe_mid env) db
                              in (case reader (r_Assignment r) of
                                    Inl e \<Rightarrow> (Inl e, db1)
                                  | Inr ob \<Rightarrow>
                                      if oe_ctx_over env then (Inl ErrContext, db1)
                                      else if ir_Assignment ob \<noteq> r_Assignment r \<or> ir_Manifest ob \<noteq> m
                                              \<or> ir_InstalledAt ob < oe_started env \<or> ir_InstalledAt ob > oe_now env
                                      then (Inl Launch_ErrConflict, db1)
                                      else with_tx (oe_drv env) (reconcile_install_tx r ob) db1)))))"

text \<open>\<open>Outstanding\<close>: the occupied slots in the order of their UIDs.\<close>

definition outstanding :: "driver \<Rightarrow> pool_db \<Rightarrow> reservation list result" where
  "outstanding drv db =
     (case drv of
        Some e \<Rightarrow> Inl e
      | None \<Rightarrow> Inr (sort_key (\<lambda>r. a_UID (r_Assignment r)) (filter (\<lambda>r. r_State r \<noteq> RetiredSlot) (pd_rows db))))"

section \<open>The ledger invariant\<close>

text \<open>What holds of every row, given the pinned configuration.\<close>

definition row_ok :: "pool_config \<Rightarrow> reservation \<Rightarrow> bool" where
  "row_ok cfg r \<longleftrightarrow>
     (\<exists>s \<in> set (pc_Slots cfg). a_UID (r_Assignment r) = slot_UID s \<and> a_Port (r_Assignment r) = slot_Port s)
     \<and> (case r_Installed r of
          None \<Rightarrow> True
        | Some ir \<Rightarrow> r_InstallationAttempted r \<and> ir_Assignment ir = r_Assignment r)
     \<and> (r_State r = Starting \<longrightarrow> r_Installed r \<noteq> None)
     \<and> (r_State r = RetiredSlot \<longrightarrow>
          (case r_Retirement r of
             None \<Rightarrow> False
           | Some ob \<Rightarrow> ro_Assignment ob = r_Assignment r \<and> retirement_proven ob))"

definition live :: "reservation \<Rightarrow> bool" where
  "live r \<longleftrightarrow> r_State r \<noteq> RetiredSlot"

definition pool_inv :: "pool_config \<Rightarrow> pool_db \<Rightarrow> bool" where
  "pool_inv cfg db \<longleftrightarrow>
     distinct (map operation_of (pd_rows db))
     \<and> distinct (map (\<lambda>r. a_UID (r_Assignment r)) (filter live (pd_rows db)))
     \<and> distinct (map (\<lambda>r. a_Port (r_Assignment r)) (filter live (pd_rows db)))
     \<and> distinct (map (\<lambda>r. a_ReleaseDirectory (r_Assignment r)) (pd_rows db))
     \<and> (\<forall>r \<in> set (pd_rows db). row_ok cfg r)"

lemma find_update:
  assumes "\<And>r. operation_of (f r) = operation_of r"
  shows "find_reservation k' (update_reservation k f db)
       = (if k' = k then map_option f (find_reservation k' db) else find_reservation k' db)"
  by (simp add: find_reservation_def update_reservation_def get_upd_row [where key = "\<lambda>r. operation_of r", OF assms])

lemma readReservation_Inr: "readReservation k db = Inr r \<longleftrightarrow> find_reservation k db = Some r"
  by (simp add: readReservation_def split: option.splits)

lemma find_operation: "find_reservation k db = Some r \<Longrightarrow> operation_of r = k \<and> r \<in> set (pd_rows db)"
  using get_row_SomeD [of "\<lambda>r. operation_of r"] by (auto simp: find_reservation_def)

lemma find_row_ok: "pool_inv cfg db \<Longrightarrow> find_reservation k db = Some r \<Longrightarrow> row_ok cfg r"
  using find_operation by (fastforce simp: pool_inv_def)

lemma update_reservation_inv:
  assumes "pool_inv cfg db"
    and "\<And>r. r_Assignment (f r) = r_Assignment r"
    and row: "\<And>r. find_reservation k db = Some r \<Longrightarrow> row_ok cfg r \<Longrightarrow> row_ok cfg (f r) \<and> (live (f r) \<longrightarrow> live r)"
  shows "pool_inv cfg (update_reservation k f db)"
proof -
  let ?rows = "pd_rows db" and ?new = "upd_row (\<lambda>r. operation_of r) k f (pd_rows db)"
  have dist: "distinct (map (\<lambda>r. operation_of r) ?rows)"
    using assms(1) by (simp add: pool_inv_def)
  have found: "row_ok cfg (f q) \<and> (live (f q) \<longrightarrow> live q)" if "q \<in> set ?rows" "operation_of q = k" for q
    using that row get_row_unique [OF dist that(1)] assms(1)
    by (simp add: find_reservation_def pool_inv_def)
  have keys: "map operation_of ?new = map operation_of ?rows"
    "map (\<lambda>r. a_ReleaseDirectory (r_Assignment r)) ?new = map (\<lambda>r. a_ReleaseDirectory (r_Assignment r)) ?rows"
    by (rule map_upd_row, simp add: assms(2))+
  have uid: "distinct (map (\<lambda>r. a_UID (r_Assignment r)) (filter live ?new))"
    by (rule distinct_upd_row_filter [THEN conjunct1]) (use assms(1,2) found in \<open>auto simp: pool_inv_def\<close>)
  have port: "distinct (map (\<lambda>r. a_Port (r_Assignment r)) (filter live ?new))"
    by (rule distinct_upd_row_filter [THEN conjunct1]) (use assms(1,2) found in \<open>auto simp: pool_inv_def\<close>)
  have "\<forall>r \<in> set ?new. row_ok cfg r"
    using found assms(1) by (auto simp: set_upd_row pool_inv_def)
  with keys uid port assms(1) show ?thesis
    by (simp add: pool_inv_def update_reservation_def)
qed

lemma row_ok_starting:
  "row_ok cfg r \<Longrightarrow> r_Installed r \<noteq> None \<Longrightarrow> row_ok cfg (r\<lparr>r_State := Starting\<rparr>)"
  by (simp add: row_ok_def cong: option.case_cong)

lemma row_ok_retiring: "row_ok cfg r \<Longrightarrow> row_ok cfg (r\<lparr>r_State := Retiring\<rparr>)"
  by (simp add: row_ok_def cong: option.case_cong)

lemma row_ok_retired:
  "row_ok cfg r \<Longrightarrow> ro_Assignment ob = r_Assignment r \<Longrightarrow> retirement_proven ob \<Longrightarrow>
    row_ok cfg (r\<lparr>r_State := RetiredSlot, r_Retirement := Some ob\<rparr>)"
  by (simp add: row_ok_def cong: option.case_cong)

lemma row_ok_attempted: "row_ok cfg r \<Longrightarrow> row_ok cfg (r\<lparr>r_InstallationAttempted := True\<rparr>)"
  by (simp add: row_ok_def cong: option.case_cong split: option.splits)

lemma row_ok_installed:
  "row_ok cfg r \<Longrightarrow> r_InstallationAttempted r \<Longrightarrow> ir_Assignment ir = r_Assignment r \<Longrightarrow>
    row_ok cfg (r\<lparr>r_Installed := Some ir\<rparr>)"
  by (simp add: row_ok_def cong: option.case_cong)

lemmas row_ok_updates = row_ok_starting row_ok_retiring row_ok_retired row_ok_attempted row_ok_installed

text \<open>
  What a committing transaction did: nothing, or one update of the row it read, under the
  guards of the source.
\<close>

lemma claim_start_txD:
  "claim_start_tx k db = (Inr r, db') \<Longrightarrow>
    \<exists>q. find_reservation k db = Some q \<and> r_State q = Reserved \<and> r_InstallationAttempted q
      \<and> (\<exists>ir. r_Installed q = Some ir \<and> ir_Assignment ir = r_Assignment q)
      \<and> r = q\<lparr>r_State := Starting\<rparr> \<and> db' = update_reservation k (\<lambda>q. q\<lparr>r_State := Starting\<rparr>) db"
  by (auto simp: claim_start_tx_def readReservation_Inr split: sum.splits if_splits option.splits)

lemma begin_retirement_txD:
  "begin_retirement_tx k db = (Inr r, db') \<Longrightarrow>
    \<exists>q. find_reservation k db = Some q
      \<and> (if r_State q = RetiredSlot then r = q \<and> db' = db
         else r = q\<lparr>r_State := Retiring\<rparr> \<and> db' = update_reservation k (\<lambda>q. q\<lparr>r_State := Retiring\<rparr>) db)"
  by (auto simp: begin_retirement_tx_def readReservation_Inr split: sum.splits if_splits)

lemma reconcile_retirement_txD:
  "reconcile_retirement_tx r ob db = (Inr r', db') \<Longrightarrow>
    \<exists>q. find_reservation (operation_of r) db = Some q \<and> r_Assignment q = r_Assignment r
      \<and> (if r_State q = RetiredSlot then r' = q \<and> db' = db
         else r_State q = Retiring \<and> r' = r\<lparr>r_State := RetiredSlot, r_Retirement := Some ob\<rparr>
           \<and> db' = update_reservation (operation_of r) (\<lambda>q. q\<lparr>r_State := RetiredSlot, r_Retirement := Some ob\<rparr>) db)"
  by (auto simp: reconcile_retirement_tx_def readReservation_Inr split: sum.splits if_splits)

lemma prepare_begin_txD:
  "prepare_begin_tx inst r m db = (Inr out, db') \<Longrightarrow>
    \<exists>q. find_reservation (operation_of r) db = Some q \<and> r_Assignment q = r_Assignment r \<and> r_State q = Reserved
      \<and> (case out of
           AlreadyInstalled cur \<Rightarrow> cur = q \<and> db' = db
         | Dispatch \<Rightarrow> inst \<and> \<not> r_InstallationAttempted q \<and> r_Installed q = None
             \<and> db' = update_reservation (operation_of r) (\<lambda>q. q\<lparr>r_InstallationAttempted := True\<rparr>) db)"
  by (auto simp: prepare_begin_tx_def readReservation_Inr split: sum.splits if_splits option.splits)

lemma prepare_finish_txD:
  "prepare_finish_tx r receipt db = (Inr r', db') \<Longrightarrow>
    \<exists>q. find_reservation (operation_of r) db = Some q \<and> r_Assignment q = r_Assignment r \<and> r_State q = Reserved
      \<and> r_InstallationAttempted q \<and> r_Installed q = None \<and> r' = r\<lparr>r_Installed := Some receipt\<rparr>
      \<and> db' = update_reservation (operation_of r) (\<lambda>q. q\<lparr>r_Installed := Some receipt\<rparr>) db"
  by (auto simp: prepare_finish_tx_def readReservation_Inr split: sum.splits if_splits)

lemma reconcile_install_txD:
  "reconcile_install_tx r receipt db = (Inr r', db') \<Longrightarrow>
    \<exists>q. find_reservation (operation_of r) db = Some q \<and> r_Assignment q = r_Assignment r \<and> r_State q = Reserved
      \<and> r_InstallationAttempted q
      \<and> (case r_Installed q of
           Some ir \<Rightarrow> r' = q \<and> db' = db
         | None \<Rightarrow> r' = r\<lparr>r_Installed := Some receipt\<rparr>
             \<and> db' = update_reservation (operation_of r) (\<lambda>q. q\<lparr>r_Installed := Some receipt\<rparr>) db)"
  by (auto simp: reconcile_install_tx_def readReservation_Inr split: sum.splits if_splits option.splits)

lemma claim_start_inv:
  "pool_inv cfg db \<Longrightarrow> claim_start_tx k db = (Inr r, db') \<Longrightarrow> pool_inv cfg db'"
  by (drule claim_start_txD)
    (force intro!: update_reservation_inv simp: row_ok_updates live_def)

lemma begin_retirement_inv:
  "pool_inv cfg db \<Longrightarrow> begin_retirement_tx k db = (Inr r, db') \<Longrightarrow> pool_inv cfg db'"
  by (drule begin_retirement_txD)
    (auto intro!: update_reservation_inv simp: row_ok_updates live_def split: if_splits)

lemma reconcile_retirement_inv:
  "pool_inv cfg db \<Longrightarrow> ro_Assignment ob = r_Assignment r \<Longrightarrow> retirement_proven ob \<Longrightarrow>
    reconcile_retirement_tx r ob db = (Inr r', db') \<Longrightarrow> pool_inv cfg db'"
  by (drule reconcile_retirement_txD)
    (auto intro!: update_reservation_inv simp: row_ok_updates live_def split: if_splits)

lemma prepare_begin_inv:
  "pool_inv cfg db \<Longrightarrow> prepare_begin_tx inst r m db = (Inr out, db') \<Longrightarrow> pool_inv cfg db'"
  by (cases out)
    (auto dest!: prepare_begin_txD intro!: update_reservation_inv simp: row_ok_updates live_def)

lemma prepare_finish_inv:
  "pool_inv cfg db \<Longrightarrow> ir_Assignment receipt = r_Assignment r \<Longrightarrow>
    prepare_finish_tx r receipt db = (Inr r', db') \<Longrightarrow> pool_inv cfg db'"
  by (drule prepare_finish_txD)
    (auto intro!: update_reservation_inv simp: row_ok_updates live_def)

lemma reconcile_install_inv:
  "pool_inv cfg db \<Longrightarrow> ir_Assignment receipt = r_Assignment r \<Longrightarrow>
    reconcile_install_tx r receipt db = (Inr r', db') \<Longrightarrow> pool_inv cfg db'"
  by (drule reconcile_install_txD)
    (auto intro!: update_reservation_inv simp: row_ok_updates live_def split: option.splits)

lemma insert_reservationD:
  "insert_reservation q db = (Inr r, db') \<Longrightarrow>
    r = q \<and> db' = db\<lparr>pd_rows := pd_rows db @ [q]\<rparr>
    \<and> operation_of q \<notin> operation_of ` set (pd_rows db)
    \<and> a_UID (r_Assignment q) \<notin> (\<lambda>r. a_UID (r_Assignment r)) ` set (filter live (pd_rows db))
    \<and> a_Port (r_Assignment q) \<notin> (\<lambda>r. a_Port (r_Assignment r)) ` set (filter live (pd_rows db))"
  by (auto simp: insert_reservation_def list_ex_iff live_def split: if_splits)

lemma reserve_slotsD:
  "reserve_slots a slots db = (Inr r, db') \<Longrightarrow>
    \<exists>s \<in> set slots. \<not> occupied s db
      \<and> insert_reservation (new_reservation (a\<lparr>a_UID := slot_UID s, a_Port := slot_Port s\<rparr>)) db = (Inr r, db')"
  by (induction a slots db rule: reserve_slots.induct) (auto split: if_splits)

text \<open>A reserve that commits returned the recorded row, or appended a fresh one on a free slot.\<close>

lemma reserve_txD:
  assumes "reserve_tx cfg a db = (Inr r, db')"
  shows "find_reservation (a_OperationID a) db = Some r \<and> db' = db
     \<or> find_reservation (a_OperationID a) db = None
       \<and> a_ReleaseDirectory a \<notin> (\<lambda>r. a_ReleaseDirectory (r_Assignment r)) ` set (pd_rows db)
       \<and> (\<exists>s \<in> set (pc_Slots cfg). \<not> occupied s db
            \<and> insert_reservation (new_reservation (a\<lparr>a_UID := slot_UID s, a_Port := slot_Port s\<rparr>)) db = (Inr r, db'))"
proof (cases "find_reservation (a_OperationID a) db")
  case None
  with assms show ?thesis
    using reserve_slotsD [of a "pc_Slots cfg" db r db']
    by (auto simp: reserve_tx_def list_ex_iff split: if_splits)
next
  case (Some old)
  with assms show ?thesis by (auto simp: reserve_tx_def split: if_splits)
qed

lemma reserve_tx_inv:
  assumes "pool_inv cfg db" and "reserve_tx cfg a db = (Inr r, db')"
  shows "pool_inv cfg db'"
proof -
  consider "db' = db" | s where
    "a_ReleaseDirectory a \<notin> (\<lambda>r. a_ReleaseDirectory (r_Assignment r)) ` set (pd_rows db)"
    "s \<in> set (pc_Slots cfg)"
    "insert_reservation (new_reservation (a\<lparr>a_UID := slot_UID s, a_Port := slot_Port s\<rparr>)) db = (Inr r, db')"
    using reserve_txD [OF assms(2)] by blast
  then show ?thesis
  proof cases
    case 1
    with assms(1) show ?thesis by simp
  next
    case (2 s)
    have "row_ok cfg (new_reservation (a\<lparr>a_UID := slot_UID s, a_Port := slot_Port s\<rparr>))"
      using 2(2) by (auto simp: row_ok_def new_reservation_def)
    with assms(1) 2(1) insert_reservationD [OF 2(3)] show ?thesis
      by (auto simp: pool_inv_def new_reservation_def live_def)
  qed
qed

lemma forget_snd [simp]: "snd (forget p) = snd p"
  by (simp add: forget_def)

lemma forget_Inl: "fst (forget p) = Inl e \<longleftrightarrow> fst p = Inl e"
  by (auto simp: forget_def split: sum.splits)

lemma reserve_frame:
  assumes "P db" and "\<And>r db'. reserve_tx cfg a db = (Inr r, db') \<Longrightarrow> P db'"
  shows "P (snd (reserve cfg drv a db))"
  unfolding reserve_def using assms
  by (auto split: list.splits sum.splits intro: with_tx_invariant)

lemma claimStart_frame:
  assumes "P db" and "\<And>r db'. claim_start_tx k db = (Inr r, db') \<Longrightarrow> P db'"
  shows "P (snd (claimStart drv k db))"
  using assms by (auto simp: claimStart_def intro: with_tx_invariant)

lemma beginRetirement_frame:
  assumes "P db" and "\<And>r db'. begin_retirement_tx k db = (Inr r, db') \<Longrightarrow> P db'"
  shows "P (snd (beginRetirement drv k db))"
  using assms by (auto simp: beginRetirement_def intro: with_tx_invariant)

lemma pool_exec_inv: "pool_inv cfg db \<Longrightarrow> pool_inv cfg (snd (pool_exec cfg i db))"
proof (cases i)
  case (Pair drv t)
  assume inv: "pool_inv cfg db"
  show ?thesis
  proof (cases "pool_tx_ok t")
    case True
    then show ?thesis
      by (cases t)
        (auto simp: Pair pool_exec_def inv
          intro!: reserve_frame [where P = "pool_inv cfg"] claimStart_frame [where P = "pool_inv cfg"]
            beginRetirement_frame [where P = "pool_inv cfg"] with_tx_invariant [where P = "pool_inv cfg"]
          intro: reserve_tx_inv [OF inv] claim_start_inv [OF inv] begin_retirement_inv [OF inv]
            reconcile_retirement_inv [OF inv] prepare_begin_inv [OF inv] prepare_finish_inv [OF inv]
            reconcile_install_inv [OF inv])
  next
    case False
    with inv show ?thesis by (simp add: Pair pool_exec_def)
  qed
qed

lemma reserve_error: "fst (reserve cfg drv a db) = Inl e \<Longrightarrow> snd (reserve cfg drv a db) = db"
  by (auto simp: reserve_def dest: with_tx_error_frame split: if_splits list.splits sum.splits)

lemma claimStart_error: "fst (claimStart drv k db) = Inl e \<Longrightarrow> snd (claimStart drv k db) = db"
  by (auto simp: claimStart_def dest: with_tx_error_frame split: if_splits)

lemma beginRetirement_error: "fst (beginRetirement drv k db) = Inl e \<Longrightarrow> snd (beginRetirement drv k db) = db"
  by (auto simp: beginRetirement_def dest: with_tx_error_frame split: if_splits)

lemma pool_exec_error: "fst (pool_exec cfg i db) = Inl e \<Longrightarrow> snd (pool_exec cfg i db) = db"
  by (cases "snd i")
    (auto simp: pool_exec_def forget_Inl
      dest: with_tx_error_frame reserve_error claimStart_error beginRetirement_error split: if_splits)

interpretation pool: transactional "pool_exec cfg" "pool_inv cfg" for cfg
  by unfold_locales (auto intro: pool_exec_inv dest: pool_exec_error)

section \<open>What no transaction undoes\<close>

text \<open>
  Facts about the row of one operation: it has an installation attempt; it has left the
  state \<open>reserved\<close>; it is retired.
\<close>

definition attempted :: "string \<Rightarrow> pool_db \<Rightarrow> bool" where
  "attempted k db \<longleftrightarrow> (\<exists>r. find_reservation k db = Some r \<and> r_InstallationAttempted r)"

definition past_reserved :: "string \<Rightarrow> pool_db \<Rightarrow> bool" where
  "past_reserved k db \<longleftrightarrow> (\<exists>r. find_reservation k db = Some r \<and> r_State r \<noteq> Reserved)"

definition slot_retired :: "reservation \<Rightarrow> pool_db \<Rightarrow> bool" where
  "slot_retired r db \<longleftrightarrow> find_reservation (operation_of r) db = Some r \<and> r_State r = RetiredSlot"

lemma find_after_insert:
  "find_reservation k db = Some r \<Longrightarrow> insert_reservation q db = (Inr r', db') \<Longrightarrow> find_reservation k db' = Some r"
  by (auto dest!: insert_reservationD simp: find_reservation_def get_row_append)

lemma reserve_tx_find:
  "find_reservation k db = Some q \<Longrightarrow> reserve_tx cfg a db = (Inr r, db') \<Longrightarrow> find_reservation k db' = Some q"
  using reserve_txD find_after_insert by (metis (no_types, lifting))

text \<open>
  The life of a row, over one transaction of any kind: the assignment never changes, an
  attempt and a receipt are never withdrawn, the state only moves forward, and a retired
  row is a tombstone.
\<close>

fun next_states :: "res_state \<Rightarrow> res_state list" where
  "next_states Reserved = [Reserved, Starting, Retiring]"
| "next_states Starting = [Starting, Retiring]"
| "next_states Retiring = [Retiring, RetiredSlot]"
| "next_states RetiredSlot = [RetiredSlot]"

definition row_step :: "reservation \<Rightarrow> reservation \<Rightarrow> bool" where
  "row_step q q' \<longleftrightarrow>
     r_Assignment q' = r_Assignment q
     \<and> (r_InstallationAttempted q \<longrightarrow> r_InstallationAttempted q')
     \<and> (r_Installed q \<noteq> None \<longrightarrow> r_Installed q' = r_Installed q)
     \<and> r_State q' \<in> set (next_states (r_State q))
     \<and> (r_State q = RetiredSlot \<longrightarrow> q' = q)"

definition follows :: "string \<Rightarrow> reservation \<Rightarrow> pool_db \<Rightarrow> bool" where
  "follows k q db \<longleftrightarrow> (\<exists>q'. find_reservation k db = Some q' \<and> row_step q q')"

lemma row_step_refl [simp]: "row_step q q"
  by (cases "r_State q") (auto simp: row_step_def)

lemma follows_same: "find_reservation k db = Some q \<Longrightarrow> follows k q db"
  by (auto simp: follows_def)

lemma follows_update:
  assumes "find_reservation k db = Some q" and "\<And>r. operation_of (f r) = operation_of r"
    and "\<And>r. find_reservation k' db = Some r \<Longrightarrow> row_step r (f r)"
  shows "follows k q (update_reservation k' f db)"
  using assms find_update [of f k k' db] by (auto simp: follows_def)

lemma tx_follows:
  assumes q: "find_reservation k db = Some q"
  shows "claim_start_tx k' db = (Inr r, db') \<Longrightarrow> follows k q db'"
    and "begin_retirement_tx k' db = (Inr r, db') \<Longrightarrow> follows k q db'"
    and "reconcile_retirement_tx r0 ob db = (Inr r, db') \<Longrightarrow> follows k q db'"
    and "prepare_begin_tx inst r0 m db = (Inr out, db') \<Longrightarrow> follows k q db'"
    and "prepare_finish_tx r0 receipt db = (Inr r, db') \<Longrightarrow> follows k q db'"
    and "reconcile_install_tx r0 receipt db = (Inr r, db') \<Longrightarrow> follows k q db'"
proof -
  show "claim_start_tx k' db = (Inr r, db') \<Longrightarrow> follows k q db'"
    by (drule claim_start_txD) (auto intro!: follows_update [OF q] simp: row_step_def)
  show "begin_retirement_tx k' db = (Inr r, db') \<Longrightarrow> follows k q db'"
  proof (drule begin_retirement_txD, elim exE conjE)
    fix x
    assume x: "find_reservation k' db = Some x"
      "if r_State x = RetiredSlot then r = x \<and> db' = db
       else r = x\<lparr>r_State := Retiring\<rparr> \<and> db' = update_reservation k' (\<lambda>q. q\<lparr>r_State := Retiring\<rparr>) db"
    then show "follows k q db'"
      by (cases "r_State x") (auto intro!: follows_update [OF q] follows_same [OF q] simp: row_step_def)
  qed
  show "reconcile_retirement_tx r0 ob db = (Inr r, db') \<Longrightarrow> follows k q db'"
    by (drule reconcile_retirement_txD)
      (auto intro!: follows_update [OF q] follows_same [OF q] simp: row_step_def split: if_splits)
  show "prepare_begin_tx inst r0 m db = (Inr out, db') \<Longrightarrow> follows k q db'"
    by (cases out; drule prepare_begin_txD)
      (auto intro!: follows_update [OF q] follows_same [OF q] simp: row_step_def)
  show "prepare_finish_tx r0 receipt db = (Inr r, db') \<Longrightarrow> follows k q db'"
    by (drule prepare_finish_txD) (auto intro!: follows_update [OF q] simp: row_step_def)
  show "reconcile_install_tx r0 receipt db = (Inr r, db') \<Longrightarrow> follows k q db'"
    by (drule reconcile_install_txD)
      (auto intro!: follows_update [OF q] follows_same [OF q] simp: row_step_def split: option.splits)
qed

lemma pool_exec_follows:
  assumes q: "find_reservation k db = Some q"
  shows "follows k q (snd (pool_exec cfg i db))"
proof (cases i)
  case (Pair drv t)
  note frames = reserve_frame [where P = "follows k q"] claimStart_frame [where P = "follows k q"]
    beginRetirement_frame [where P = "follows k q"] with_tx_invariant [where P = "follows k q"]
  show ?thesis
    by (cases t)
      (auto simp: Pair pool_exec_def follows_same [OF q]
        intro!: frames intro: tx_follows [OF q] follows_same reserve_tx_find [OF q])
qed

lemma attempted_exec: "attempted k db \<Longrightarrow> attempted k (snd (pool_exec cfg i db))"
  using pool_exec_follows unfolding attempted_def follows_def row_step_def by blast

lemma past_reserved_exec: "past_reserved k db \<Longrightarrow> past_reserved k (snd (pool_exec cfg i db))"
proof -
  assume "past_reserved k db"
  then obtain q where q: "find_reservation k db = Some q" "r_State q \<noteq> Reserved"
    by (auto simp: past_reserved_def)
  from pool_exec_follows [OF q(1), of cfg i] obtain q' where
    "find_reservation k (snd (pool_exec cfg i db)) = Some q'" "row_step q q'"
    by (auto simp: follows_def)
  with q(2) show ?thesis
    by (cases "r_State q") (auto simp: past_reserved_def row_step_def)
qed

lemma slot_retired_exec: "slot_retired r db \<Longrightarrow> slot_retired r (snd (pool_exec cfg i db))"
  using pool_exec_follows unfolding slot_retired_def follows_def row_step_def by blast

interpretation attempt: stable "pool_exec cfg" attempted for cfg
  by unfold_locales (rule attempted_exec)

interpretation tombstone: stable "pool_exec cfg" slot_retired for cfg
  by unfold_locales (rule slot_retired_exec)

fun claims_start :: "string \<Rightarrow> driver \<times> pool_tx \<Rightarrow> bool" where
  "claims_start k (drv, PClaimStart k') = (k' = k)"
| "claims_start k (drv, _) = False"

lemma claimStart_blocked: "past_reserved k db \<Longrightarrow> \<exists>e. fst (claimStart drv k db) = Inl e"
  by (auto simp: claimStart_def with_tx_def claim_start_tx_def readReservation_def past_reserved_def
      split: option.splits)

interpretation started: latch "pool_exec cfg" past_reserved claims_start for cfg
proof
  show "past_reserved k db \<Longrightarrow> past_reserved k (snd (pool_exec cfg i db))" for k db i
    by (rule past_reserved_exec)
  show "\<exists>e. fst (pool_exec cfg i db) = Inl e" if "past_reserved k db" "claims_start k i" for k db i
    using that claimStart_blocked [OF that(1)]
    by (cases "(k, i)" rule: claims_start.cases) (auto simp: pool_exec_def forget_Inl)
qed

lemma claim_start_past_reserved: "claimStart drv k db = (Inr r, db') \<Longrightarrow> past_reserved k db'"
  by (auto simp: claimStart_def with_tx_Inr_iff past_reserved_def find_update
      dest!: claim_start_txD split: if_splits)

lemma prepare_dispatch_attempted:
  "prepare_begin_tx inst r m db = (Inr Dispatch, db') \<Longrightarrow> attempted (operation_of r) db'"
  by (auto simp: attempted_def find_update dest!: prepare_begin_txD)

lemma prepare_begin_no_dispatch:
  "attempted (operation_of r) db \<Longrightarrow> fst (prepare_begin_tx inst r m db) \<noteq> Inr Dispatch"
  by (auto simp: attempted_def prepare_begin_tx_def readReservation_def split: option.splits)

lemma live_slot_unique:
  assumes "distinct (map g (filter P rows))" and "r \<in> set rows" and "q \<in> set rows"
    and "P r" and "P q" and "g r = g q"
  shows "r = q"
  using assms by (simp add: distinct_map inj_on_def)

lemma reserve_slots_first_free:
  assumes "find_reservation (a_OperationID a) db = None"
  shows "reserve_slots a slots db =
     (case List.find (\<lambda>s. \<not> occupied s db) slots of
        None \<Rightarrow> (Inl Launch_ErrCapacity, db)
      | Some s \<Rightarrow>
          (let r = new_reservation (a\<lparr>a_UID := slot_UID s, a_Port := slot_Port s\<rparr>)
           in (Inr r, db\<lparr>pd_rows := pd_rows db @ [r]\<rparr>)))"
proof (induction slots)
  case Nil
  then show ?case by simp
next
  case (Cons s slots)
  have "\<not> list_ex (\<lambda>q. operation_of q = a_OperationID a) (pd_rows db)"
    using assms by (force simp: find_reservation_def get_row_None list_ex_iff image_iff)
  with Cons show ?case
    by (auto simp: occupied_def insert_reservation_def new_reservation_def Let_def list_ex_iff)
qed

lemma reconcile_retirement_proven:
  assumes "pool_inv cfg db" and "retirement_proven ob" and "ro_Assignment ob = r_Assignment r"
    and "reconcile_retirement_tx r ob db = (Inr r', db')"
  shows "r_State r' = RetiredSlot \<and> r_Assignment r' = r_Assignment r
       \<and> (\<exists>ob. r_Retirement r' = Some ob \<and> ro_Assignment ob = r_Assignment r \<and> retirement_proven ob)"
proof -
  from reconcile_retirement_txD [OF assms(4)] obtain q where
    q: "find_reservation (operation_of r) db = Some q" "r_Assignment q = r_Assignment r"
    and r': "if r_State q = RetiredSlot then r' = q \<and> db' = db
       else r_State q = Retiring \<and> r' = r\<lparr>r_State := RetiredSlot, r_Retirement := Some ob\<rparr>
         \<and> db' = update_reservation (operation_of r) (\<lambda>q. q\<lparr>r_State := RetiredSlot, r_Retirement := Some ob\<rparr>) db"
    by blast
  have "row_ok cfg q" using assms(1) q(1) by (rule find_row_ok)
  with q r' assms(2,3) show ?thesis
    by (auto simp: row_ok_def split: if_splits option.splits)
qed

lemma reconcileRetirement_proven:
  assumes "pool_inv cfg db" and "reconcileRetirement cfg env k db = (Inr r, db')"
  shows "r_State r = RetiredSlot
       \<and> (\<exists>ob. r_Retirement r = Some ob \<and> ro_Assignment ob = r_Assignment r \<and> retirement_proven ob)"
proof -
  from assms(2) obtain q where q: "pool_lookup (re_drv_lookup env) k db = Inr q"
    by (auto simp: reconcileRetirement_def split: sum.splits)
  then have find: "find_reservation k db = Some q"
    by (auto simp: pool_lookup_def readReservation_Inr split: if_splits option.splits)
  show ?thesis
  proof (cases "r_State q = RetiredSlot")
    case True
    with q assms(2) have "r = q" by (simp add: reconcileRetirement_def)
    with True find_row_ok [OF assms(1) find] show ?thesis
      by (auto simp: row_ok_def split: option.splits)
  next
    case False
    let ?db1 = "run_ops (pool_exec cfg) (re_mid env) db"
    from False q assms(2) obtain ob where ob: "retirement_proven ob" "ro_Assignment ob = r_Assignment q"
      "reconcile_retirement_tx q ob ?db1 = (Inr r, db')"
      by (auto simp: reconcileRetirement_def with_tx_Inr_iff Let_def split: if_splits option.splits sum.splits)
    from reconcile_retirement_proven [OF pool.run_inv [OF assms(1)] ob] show ?thesis by auto
  qed
qed

lemma digestID_no_newline: "digestID s \<Longrightarrow> newline \<notin> set s"
  by (force simp: digestID_iff lower_hex_def newline_def byte_of_def)

lemma formatUint_no_newline: "newline \<notin> set (formatUint n)"
proof (induction n rule: formatUint.induct)
  case (1 n)
  have d: "to_hex_char d \<noteq> newline" if "d < 10" for d
    using that to_hex_lower [of d] by (force simp: lower_hex_def newline_def byte_of_def)
  show ?case
    by (subst formatUint.simps) (use 1 d [of n] d [of "n mod 10"] in \<open>auto dest: sym\<close>)
qed

lemma release_directory_no_newline:
  assumes "valid_assignment a"
  shows "newline \<notin> set (a_ReleaseDirectory a)"
proof -
  from assms obtain t where t: "a_ReleaseDirectory a = ''release-'' @ t"
    by (auto simp: valid_assignment_def hasPrefix_iff)
  have "trimPrefix (a_ReleaseDirectory a) ''release-'' = t"
    unfolding t by (rule trimPrefix_append)
  with assms have "digestID t" by (simp add: valid_assignment_def)
  with t show ?thesis using digestID_no_newline by (simp add: newline_def)
qed

lemma unit_lines_no_newline:
  assumes "valid_assignment a" and "l \<in> set (unit_lines a)"
  shows "newline \<notin> set l"
proof -
  have ids: "newline \<notin> set (a_ProjectID a)" "newline \<notin> set (a_OperationID a)"
    "newline \<notin> set (a_ToolchainSHA256 a)"
    using assms(1) by (simp_all add: valid_assignment_def digestID_no_newline)
  have "\<forall>l \<in> set (unit_lines a). newline \<notin> set l"
    using ids release_directory_no_newline [OF assms(1)] formatUint_no_newline
    by (simp add: unit_lines_def Let_def newline_def)
  with assms(2) show ?thesis by blast
qed

lemma splitByte_concat_lines:
  "\<forall>l \<in> set ls. sep \<notin> set l \<Longrightarrow> splitByte sep (concat (map (\<lambda>l. l @ [sep]) ls)) = ls @ [[]]"
  by (induction ls) (auto simp: splitByte_append)

lemma unit_lines_length: "length (unit_lines a) = 49"
  by (simp add: unit_lines_def Let_def)

lemma prepare_begin_installed:
  assumes "prepare_begin_tx inst q m db = (Inr (AlreadyInstalled r), db')"
  shows "\<exists>ir. r_Installed r = Some ir \<and> ir_Assignment ir = r_Assignment r \<and> ir_Manifest ir = m
     \<and> r_Assignment r = r_Assignment q
     \<and> find_reservation (operation_of q) db' = Some r"
  using assms
  by (auto simp: prepare_begin_tx_def readReservation_Inr split: sum.splits if_splits option.splits)

lemma prepare_install_installed:
  assumes "prepare_install cfg env q m db = (Inr r, db')"
  shows "\<exists>ir. r_Installed r = Some ir \<and> ir_Assignment ir = r_Assignment r \<and> ir_Manifest ir = m
     \<and> r_Assignment r = r_Assignment q
     \<and> (\<exists>x. find_reservation (operation_of q) db' = Some x \<and> r_Installed x = Some ir)"
  using assms
  by (auto simp: prepare_install_def with_tx_Inr_iff Let_def find_update
      dest!: prepare_finish_txD split: option.splits sum.splits if_splits)

section \<open>Properties\<close>

text \<open>
  C35: Slots are exclusive. After any history of transactions on a ledger that satisfies its invariant, two live
  reservations never share a UID or a port; no two reservations at all share an operation or a release directory; and every
  reservation, live or retired, sits on a slot of the pinned configuration, has a receipt for its own assignment while it is
  started (state \<open>Starting\<close>), and complete evidence for its own assignment once it is retired.
\<close>

theorem slots_are_exclusive:
  assumes "pool_inv cfg db"
  shows "let rows = pd_rows (run_ops (pool_exec cfg) history db) in
      (\<forall>r \<in> set rows. \<forall>q \<in> set rows. live r \<and> live q \<and>
          (a_UID (r_Assignment r) = a_UID (r_Assignment q) \<or> a_Port (r_Assignment r) = a_Port (r_Assignment q)) \<longrightarrow> r = q)
    \<and> distinct (map operation_of rows) \<and> distinct (map (\<lambda>r. a_ReleaseDirectory (r_Assignment r)) rows)
    \<and> (\<forall>r \<in> set rows. row_ok cfg r)"
proof -
  let ?rows = "pd_rows (run_ops (pool_exec cfg) history db)"
  have inv: "pool_inv cfg (run_ops (pool_exec cfg) history db)" using assms by (rule pool.run_inv)
  then have "\<forall>r \<in> set ?rows. \<forall>q \<in> set ?rows. live r \<and> live q \<and>
      (a_UID (r_Assignment r) = a_UID (r_Assignment q) \<or> a_Port (r_Assignment r) = a_Port (r_Assignment q)) \<longrightarrow> r = q"
    using live_slot_unique [of "\<lambda>r. a_UID (r_Assignment r)" live ?rows] live_slot_unique [of "\<lambda>r. a_Port (r_Assignment r)" live ?rows]
    unfolding pool_inv_def by blast
  with inv show ?thesis by (simp add: pool_inv_def Let_def)
qed

text \<open>
  A start is claimed at most once. After \<open>ClaimStart\<close> has succeeded for an operation,
  every later \<open>ClaimStart\<close> of it fails, whatever transactions ran in between.
\<close>

theorem start_is_claimed_once:
  assumes "claimStart drv k db = (Inr r, db1)"
  shows "\<exists>e. fst (claimStart drv' k (run_ops (pool_exec cfg) history db1)) = Inl e"
  using claimStart_blocked started.run_latched claim_start_past_reserved [OF assms] by blast

text \<open>
  The installer is dispatched at most once. After a \<open>PrepareRelease\<close> has recorded its
  attempt and dispatched the installer, no later call dispatches it again for the
  operation, whatever happened to the first attempt.
\<close>

theorem installer_is_dispatched_once:
  assumes "prepare_begin_tx inst r m db = (Inr Dispatch, db1)" and "operation_of r' = operation_of r"
  shows "fst (prepare_begin_tx inst' r' m' (run_ops (pool_exec cfg) history db1)) \<noteq> Inr Dispatch"
  using prepare_begin_no_dispatch attempt.run_latched prepare_dispatch_attempted [OF assms(1)] assms(2)
  by metis

text \<open>
  A retired reservation is a permanent tombstone. Whatever transactions run, the row
  stays as it is; reserving the same operation again returns it unchanged, and it can
  never be started.
\<close>

theorem retired_reservation_is_tombstone:
  assumes "find_reservation k db = Some r" and "r_State r = RetiredSlot"
    and "reserve cfg None a (run_ops (pool_exec cfg) history db) = (Inr r', db')"
    and "a_OperationID a = k"
  shows "r' = r \<and> db' = run_ops (pool_exec cfg) history db \<and> find_reservation k db' = Some r
       \<and> (\<exists>e. fst (claimStart drv k db') = Inl e)"
proof -
  let ?db = "run_ops (pool_exec cfg) history db"
  have k: "operation_of r = k" using find_operation [OF assms(1)] by simp
  have "slot_retired r ?db"
    using assms(1,2) k by (intro tombstone.run_latched) (simp add: slot_retired_def)
  then have r: "find_reservation k ?db = Some r" using k by (simp add: slot_retired_def)
  from assms(3) have "reserve_tx cfg a ?db = (Inr r', db')"
    by (auto simp: reserve_def with_tx_Inr_iff split: if_splits list.splits sum.splits)
  with r assms(4) have "r' = r" "db' = ?db"
    by (auto simp: reserve_tx_def split: if_splits)
  moreover have "past_reserved k ?db" using r assms(2) by (auto simp: past_reserved_def)
  ultimately show ?thesis using r claimStart_blocked by auto
qed

text \<open>
  Reserving a new operation takes the first free slot of the configuration, and fails
  with the capacity error exactly when every slot is occupied; the unique indexes of the
  table never reject the insert.
\<close>

theorem reserve_takes_first_free_slot:
  assumes "find_reservation (a_OperationID a) db = None"
    and "a_ReleaseDirectory a \<notin> (\<lambda>r. a_ReleaseDirectory (r_Assignment r)) ` set (pd_rows db)"
  shows "reserve_tx cfg a db =
     (case List.find (\<lambda>s. \<not> occupied s db) (pc_Slots cfg) of
        None \<Rightarrow> (Inl Launch_ErrCapacity, db)
      | Some s \<Rightarrow>
          (let r = new_reservation (a\<lparr>a_UID := slot_UID s, a_Port := slot_Port s\<rparr>)
           in (Inr r, db\<lparr>pd_rows := pd_rows db @ [r]\<rparr>)))"
proof -
  have "\<not> list_ex (\<lambda>r. a_ReleaseDirectory (r_Assignment r) = a_ReleaseDirectory a) (pd_rows db)"
    using assms(2) by (force simp: list_ex_iff image_iff)
  with assms(1) show ?thesis by (simp add: reserve_tx_def reserve_slots_first_free)
qed

text \<open>
  Retirement is proven. When \<open>ReconcileRetirement\<close> returns a reservation, it is retired
  and carries an observation of its own assignment that starts are fenced, the processes
  and the listener are gone and routing is detached, whatever ran while the host was
  observed.
\<close>

theorem retirement_is_proven:
  assumes "pool_inv cfg db" and "reconcileRetirement cfg env k db = (Inr r, db')"
  shows "r_State r = RetiredSlot
       \<and> (\<exists>ob. r_Retirement r = Some ob \<and> ro_Assignment ob = r_Assignment r \<and> retirement_proven ob)"
  using reconcileRetirement_proven [OF assms] .

text \<open>
  A rendered unit has exactly the lines of the template. No value of an accepted
  assignment can add a line (and so a service property) to the unit file.
\<close>

theorem rendered_unit_has_template_lines:
  assumes "render a = Inr s"
  shows "splitByte newline (s_Unit s) = unit_lines a @ [[]] \<and> length (unit_lines a) = 49
       \<and> s_Name s = ''deployer-node-'' @ a_OperationID a @ ''.service''"
proof -
  have v: "valid_assignment a" and s: "s_Unit s = concat (map (\<lambda>l. l @ [newline]) (unit_lines a))"
    "s_Name s = ''deployer-node-'' @ a_OperationID a @ ''.service''"
    using assms by (auto simp: render_def split: if_splits)
  have "\<forall>l \<in> set (unit_lines a). newline \<notin> set l"
    using unit_lines_no_newline [OF v] by blast
  with s show ?thesis by (simp add: splitByte_concat_lines unit_lines_length)
qed

text \<open>
  A prepared release is the validated one. When \<open>PrepareRelease\<close> returns a reservation,
  its receipt names the reservation's own assignment and the manifest that validation of
  the archive gave, and the ledger holds that receipt.
\<close>

theorem prepared_release_is_validated:
  assumes "prepareRelease cfg env k db = (Inr r, db')"
  shows "\<exists>ir. r_Installed r = Some ir \<and> ir_Assignment ir = r_Assignment r
       \<and> ie_validate env (a_ArtifactSHA256 (r_Assignment r)) = Inr (ir_Manifest ir)
       \<and> (\<exists>x. find_reservation k db' = Some x \<and> r_Installed x = Some ir)"
proof -
  from assms obtain q where q: "pool_lookup (ie_drv_lookup env) k db = Inr q"
    by (auto simp: prepareRelease_def split: sum.splits)
  then have k: "operation_of q = k"
    using find_operation [of k db q]
    by (auto simp: pool_lookup_def readReservation_Inr split: if_splits option.splits)
  from q assms obtain m where m: "ie_validate env (a_ArtifactSHA256 (r_Assignment q)) = Inr m"
    by (auto simp: prepareRelease_def split: sum.splits)
  from q m assms consider
      "prepare_begin_tx (ie_installer env \<noteq> None) q m db = (Inr (AlreadyInstalled r), db')"
    | db1 where "prepare_install cfg env q m db1 = (Inr r, db')"
    by (auto simp: prepareRelease_def with_tx_Inr_iff split: prod.splits sum.splits prepare_outcome.splits)
  then show ?thesis
  proof cases
    case 1
    with prepare_begin_installed [OF 1] m k show ?thesis by auto
  next
    case 2
    with prepare_install_installed [OF 2] m k show ?thesis by auto
  qed
qed

section \<open>Concrete instances\<close>

definition px_id :: "char \<Rightarrow> string" where
  "px_id ch = replicate 64 ch"

definition px_config :: pool_config where
  "px_config = \<lparr>pc_ProjectID = px_id CHR ''a'', pc_RuntimeID = px_id CHR ''b'', pc_ToolchainSHA256 = px_id CHR ''1'',
     pc_Architecture = ''arm64'',
     pc_Slots = [\<lparr>slot_UID = 60001, slot_Port = 3001\<rparr>, \<lparr>slot_UID = 60002, slot_Port = 3002\<rparr>]\<rparr>"

definition px_assignment :: "int \<Rightarrow> int \<Rightarrow> assignment" where
  "px_assignment uid port = \<lparr>a_UID = uid, a_OperationID = px_id CHR ''c'', a_ProjectID = px_id CHR ''a'',
     a_RuntimeID = px_id CHR ''b'', a_ArtifactSHA256 = px_id CHR ''d'', a_ToolchainSHA256 = px_id CHR ''1'',
     a_Architecture = ''arm64'', a_ReleaseDirectory = ''release-'' @ px_id CHR ''c'', a_Port = port\<rparr>"

definition px_manifest :: manifest where
  "px_manifest = \<lparr>mf_SHA256 = px_id CHR ''d'', mf_Files = 3, mf_ExpandedBytes = 1000\<rparr>"

definition px_receipt :: installed_release where
  "px_receipt = \<lparr>ir_Assignment = px_assignment 60001 3001, ir_Manifest = px_manifest, ir_InstalledAt = 7\<rparr>"

definition px_observation :: retirement_observation where
  "px_observation = \<lparr>ro_Assignment = px_assignment 60001 3001, ro_ObservedAt = 12, ro_StartsFenced = True,
     ro_ProcessesGone = True, ro_ListenerGone = True, ro_RoutingDetached = True\<rparr>"

definition px_row :: reservation where
  "px_row = new_reservation (px_assignment 60001 3001)"

definition px_db :: "reservation list \<Rightarrow> pool_db" where
  "px_db rows = \<lparr>pd_version = 2, pd_config = Some px_config, pd_rows = rows\<rparr>"

lemma px_id_digest [simp]: "digestID (px_id CHR ''a'')" "digestID (px_id CHR ''b'')"
  "digestID (px_id CHR ''c'')" "digestID (px_id CHR ''d'')" "digestID (px_id CHR ''1'')"
  by (simp_all add: px_id_def lower_hex_def byte_of_def)

lemma px_valid: "valid_assignment (px_assignment 60001 3001)"
proof -
  have "trimPrefix (''release-'' @ px_id CHR ''c'') ''release-'' = px_id CHR ''c''"
    by (rule trimPrefix_append)
  moreover have "hasPrefix (''release-'' @ px_id CHR ''c'') ''release-''"
    by (rule hasPrefix_append)
  ultimately show ?thesis by (simp add: valid_assignment_def px_assignment_def)
qed

lemma px_render: "\<exists>s. render (px_assignment 60001 3001) = Inr s"
  by (simp add: render_def px_valid)

lemma px_inv: "pool_inv px_config (px_db [px_row])"
  by (simp add: pool_inv_def px_db_def px_row_def new_reservation_def row_ok_def px_config_def px_assignment_def)

lemma px_find [simp]: "operation_of r = px_id CHR ''c'' \<Longrightarrow> find_reservation (px_id CHR ''c'') (px_db [r]) = Some r"
  by (simp add: find_reservation_def px_db_def)

lemma px_row_simps [simp]:
  "operation_of px_row = px_id CHR ''c''" "r_State px_row = Reserved" "r_Installed px_row = None"
  "r_InstallationAttempted px_row = False" "r_Assignment px_row = px_assignment 60001 3001"
  "a_OperationID (px_assignment u p) = px_id CHR ''c''"
  by (simp_all add: px_row_def new_reservation_def px_assignment_def)

lemma px_update: "operation_of r = px_id CHR ''c'' \<Longrightarrow>
    update_reservation (px_id CHR ''c'') f (px_db [r]) = px_db [f r]"
  by (simp add: update_reservation_def px_db_def)

text \<open>A second operation of the project reserves the next slot.\<close>

definition px_second :: assignment where
  "px_second = (px_assignment 0 0)\<lparr>a_OperationID := px_id CHR ''d'', a_ReleaseDirectory := ''release-'' @ px_id CHR ''d''\<rparr>"

lemma px_reserve_second:
  "pd_rows (run_ops (pool_exec px_config) [(None, PReserve px_second)] (px_db [px_row]))
     = [px_row, new_reservation (px_second\<lparr>a_UID := 60002, a_Port := 3002\<rparr>)]"
proof -
  have neq: "px_id CHR ''d'' \<noteq> px_id CHR ''c''" by (simp add: px_id_def)
  have "trimPrefix (''release-'' @ px_id CHR ''d'') ''release-'' = px_id CHR ''d''" "hasPrefix (''release-'' @ px_id CHR ''d'') ''release-''"
    by (rule trimPrefix_append, rule hasPrefix_append)
  then have "valid_assignment (px_second\<lparr>a_UID := 60001, a_Port := 3001\<rparr>)"
    by (simp add: valid_assignment_def px_second_def px_assignment_def)
  then have "\<exists>s. render (px_second\<lparr>a_UID := 60001, a_Port := 3001\<rparr>) = Inr s" by (simp add: render_def)
  with neq show ?thesis
    by (auto simp: pool_exec_def forget_def reserve_def with_tx_def reserve_tx_def find_reservation_def px_db_def px_config_def
        occupied_def insert_reservation_def px_second_def px_assignment_def px_row_def new_reservation_def)
qed

theorem slots_are_exclusive_witness:
  "pool_inv px_config (px_db [px_row])
   \<and> pd_rows (run_ops (pool_exec px_config) [(None, PReserve px_second)] (px_db [px_row]))
      = [px_row, new_reservation (px_second\<lparr>a_UID := 60002, a_Port := 3002\<rparr>)]
   \<and> px_row \<noteq> new_reservation (px_second\<lparr>a_UID := 60002, a_Port := 3002\<rparr>)
   \<and> row_ok px_config px_row \<and> row_ok px_config (new_reservation (px_second\<lparr>a_UID := 60002, a_Port := 3002\<rparr>))"
proof -
  have "px_row \<noteq> new_reservation (px_second\<lparr>a_UID := 60002, a_Port := 3002\<rparr>)"
    by (simp add: px_row_def new_reservation_def px_second_def px_assignment_def)
  then show ?thesis
    using slots_are_exclusive [OF px_inv, of "[(None, PReserve px_second)]"] px_inv unfolding px_reserve_second by (simp add: Let_def)
qed

definition px_installed_row :: reservation where
  "px_installed_row = px_row\<lparr>r_InstallationAttempted := True, r_Installed := Some px_receipt\<rparr>"

lemma px_claim: "claimStart None (px_id CHR ''c'') (px_db [px_installed_row])
   = (Inr (px_installed_row\<lparr>r_State := Starting\<rparr>), px_db [px_installed_row\<lparr>r_State := Starting\<rparr>])"
  by (simp add: claimStart_def with_tx_def claim_start_tx_def readReservation_def px_installed_row_def
      px_update px_receipt_def)

theorem start_is_claimed_once_witness:
  "\<exists>e. fst (claimStart None (px_id CHR ''c'')
     (run_ops (pool_exec px_config) [(None, PBeginRetirement (px_id CHR ''c''))]
       (px_db [px_installed_row\<lparr>r_State := Starting\<rparr>]))) = Inl e"
  by (rule start_is_claimed_once [OF px_claim])

lemma px_dispatch: "prepare_begin_tx True px_row px_manifest (px_db [px_row])
   = (Inr Dispatch, px_db [px_row\<lparr>r_InstallationAttempted := True\<rparr>])"
  by (simp add: prepare_begin_tx_def readReservation_def px_update)

theorem installer_is_dispatched_once_witness:
  "fst (prepare_begin_tx True px_row px_manifest
     (run_ops (pool_exec px_config) [] (px_db [px_row\<lparr>r_InstallationAttempted := True\<rparr>]))) \<noteq> Inr Dispatch"
  by (rule installer_is_dispatched_once [OF px_dispatch]) simp

definition px_retired_row :: reservation where
  "px_retired_row = px_row\<lparr>r_State := RetiredSlot, r_Retirement := Some px_observation\<rparr>"

lemma px_retired_simps [simp]:
  "operation_of px_retired_row = px_id CHR ''c''" "r_State px_retired_row = RetiredSlot"
  "r_Assignment px_retired_row = px_assignment 60001 3001"
  by (simp_all add: px_retired_row_def)

lemma px_reserve_retired:
  "reserve px_config None (px_assignment 0 0) (px_db [px_retired_row]) = (Inr px_retired_row, px_db [px_retired_row])"
proof -
  have "(px_assignment 0 0)\<lparr>a_UID := 60001, a_Port := 3001\<rparr> = px_assignment 60001 3001"
    by (simp add: px_assignment_def)
  with px_render show ?thesis
    by (auto simp: reserve_def px_config_def with_tx_def reserve_tx_def px_assignment_def)
qed

theorem retired_reservation_is_tombstone_witness:
  "\<exists>e. fst (claimStart None (px_id CHR ''c'') (px_db [px_retired_row])) = Inl e"
  using retired_reservation_is_tombstone
    [of "px_id CHR ''c''" "px_db [px_retired_row]" px_retired_row px_config "px_assignment 0 0" "[]"
      px_retired_row "px_db [px_retired_row]" None]
    px_reserve_retired by simp

theorem reserve_takes_first_free_slot_witness:
  "reserve_tx px_config (px_assignment 0 0) (px_db []) = (Inr px_row, px_db [px_row])"
  using reserve_takes_first_free_slot [of "px_assignment 0 0" "px_db []" px_config]
  by (simp add: find_reservation_def px_db_def occupied_def px_config_def px_row_def px_assignment_def Let_def)

definition px_retire_env :: retire_env where
  "px_retire_env = \<lparr>re_drv_lookup = None, re_reader = Some (\<lambda>_. Inr px_observation), re_started = 10, re_now = 20,
     re_ctx_over = False, re_mid = [], re_drv = None\<rparr>"

lemma px_retiring_inv: "pool_inv px_config (px_db [px_row\<lparr>r_State := Retiring\<rparr>])"
  by (simp add: pool_inv_def px_db_def px_row_def new_reservation_def row_ok_def px_config_def px_assignment_def)

lemma px_reconcile:
  "reconcileRetirement px_config px_retire_env (px_id CHR ''c'') (px_db [px_row\<lparr>r_State := Retiring\<rparr>])
   = (Inr px_retired_row, px_db [px_retired_row])"
  by (simp add: reconcileRetirement_def pool_lookup_def readReservation_def px_retire_env_def with_tx_def
      reconcile_retirement_tx_def px_update px_retired_row_def px_observation_def retirement_proven_def)

theorem retirement_is_proven_witness:
  "r_State px_retired_row = RetiredSlot
   \<and> (\<exists>ob. r_Retirement px_retired_row = Some ob \<and> ro_Assignment ob = px_assignment 60001 3001 \<and> retirement_proven ob)"
  using retirement_is_proven [OF px_retiring_inv px_reconcile] by simp

theorem rendered_unit_has_template_lines_witness:
  "\<exists>s. render (px_assignment 60001 3001) = Inr s
     \<and> splitByte newline (s_Unit s) = unit_lines (px_assignment 60001 3001) @ [[]]"
  using px_render rendered_unit_has_template_lines by blast

definition px_install_env :: install_env where
  "px_install_env = \<lparr>ie_drv_lookup = None, ie_validate = (\<lambda>_. Inr px_manifest), ie_drv1 = None,
     ie_installer = Some (\<lambda>a. Inr (a_ReleaseDirectory a, px_manifest)), ie_mid = [], ie_ctx_over = False,
     ie_now = 7, ie_drv2 = None\<rparr>"

lemma px_prepare:
  "prepareRelease px_config px_install_env (px_id CHR ''c'') (px_db [px_row]) = (Inr px_installed_row, px_db [px_installed_row])"
  by (simp add: prepareRelease_def pool_lookup_def readReservation_def px_install_env_def with_tx_def px_dispatch
      prepare_install_def prepare_finish_tx_def px_update px_installed_row_def px_receipt_def Let_def)

theorem prepared_release_is_validated_witness:
  "\<exists>ir. r_Installed px_installed_row = Some ir \<and> ir_Manifest ir = px_manifest"
  using prepared_release_is_validated [OF px_prepare] by (auto simp: px_install_env_def)

end
