(* ===== verification/Node_Host.thy ===== *)
theory Node_Host
  imports Node_Pool
begin

text \<open>
  \<open>internal/nodelaunch\<close>, the host side: \<open>usage.go\<close> and \<open>usage_linux.go\<close> (what the kernel says
  about a slot), \<open>systemd_status.go\<close> and the systemd calls (what the service manager says),
  and \<open>control_linux.go\<close> (the durable gate that orders install, start and retire). Files,
  commands and clocks are inputs of the definitions.
\<close>

section \<open>usage.go: kernel tables\<close>

text \<open>The four values of a \<open>Uid:\<close> line; \<open>used\<close> is what the earlier lines gave.\<close>

fun uid_values :: "int \<Rightarrow> bool \<Rightarrow> string list \<Rightarrow> bool result" where
  "uid_values uid used [] = Inr used"
| "uid_values uid used (v # vs) =
     (case parseUint 10 32 v of
        None \<Rightarrow> Inl ErrRuntimeUsage
      | Some n \<Rightarrow> uid_values uid (used \<or> int n = uid) vs)"

fun uid_lines :: "int \<Rightarrow> bool \<Rightarrow> bool \<Rightarrow> string list \<Rightarrow> bool result" where
  "uid_lines uid found used [] = (if \<not> found then Inl ErrRuntimeUsage else Inr used)"
| "uid_lines uid found used (line # ls) =
     (if \<not> hasPrefix line ''Uid:'' then uid_lines uid found used ls
      else if found then Inl ErrRuntimeUsage
      else let values = stringFields (trimPrefix line ''Uid:'')
           in if length values \<noteq> 4 then Inl ErrRuntimeUsage
              else case uid_values uid used values of
                     Inl e \<Rightarrow> Inl e
                   | Inr used' \<Rightarrow> uid_lines uid True used' ls)"

definition statusUsesUID :: "string \<Rightarrow> int \<Rightarrow> bool result" where
  "statusUsesUID data uid = uid_lines uid False False (splitByte newline data)"

fun cgroup_lines :: "bool \<Rightarrow> bool \<Rightarrow> string list \<Rightarrow> bool result" where
  "cgroup_lines found populated [] = (if \<not> found then Inl ErrRuntimeUsage else Inr populated)"
| "cgroup_lines found populated (line # ls) =
     (case stringFields line of
        [key, v] \<Rightarrow>
          if key \<noteq> ''populated'' then cgroup_lines found populated ls
          else if found \<or> (v \<noteq> ''0'' \<and> v \<noteq> ''1'') then Inl ErrRuntimeUsage
          else cgroup_lines True (v = ''1'') ls
      | _ \<Rightarrow> Inl ErrRuntimeUsage)"

definition populatedCgroup :: "string \<Rightarrow> bool result" where
  "populatedCgroup data = cgroup_lines False False (splitByte newline (trimSpace data))"

text \<open>One line of \<open>/proc/net/tcp\<close>: whether it is a listener on the port.\<close>

definition tcp_entry :: "int \<Rightarrow> nat \<Rightarrow> string \<Rightarrow> bool result" where
  "tcp_entry port digits line =
     (let fs = stringFields line in
      if length fs < 4 then Inl ErrRuntimeUsage
      else case cutByte CHR '':'' (fs ! 1) of
        None \<Rightarrow> Inl ErrRuntimeUsage
      | Some (address, raw_port) \<Rightarrow>
          if length address \<noteq> digits \<or> length raw_port \<noteq> 4 \<or> length (fs ! 3) \<noteq> 2
             \<or> \<not> list_all (\<lambda>c. from_hex_char c \<noteq> None) address
          then Inl ErrRuntimeUsage
          else case (parseUint 16 16 raw_port, parseUint 16 8 (fs ! 3)) of
                 (Some local_port, Some state) \<Rightarrow> Inr (int local_port = port \<and> state = 10)
               | _ \<Rightarrow> Inl ErrRuntimeUsage)"

fun tcp_lines :: "int \<Rightarrow> nat \<Rightarrow> bool \<Rightarrow> string list \<Rightarrow> bool result" where
  "tcp_lines port digits present [] = Inr present"
| "tcp_lines port digits present (line # ls) =
     (case tcp_entry port digits line of
        Inl e \<Rightarrow> Inl e
      | Inr hit \<Rightarrow> tcp_lines port digits (present \<or> hit) ls)"

definition hasTCPListener :: "string \<Rightarrow> int \<Rightarrow> nat \<Rightarrow> bool result" where
  "hasTCPListener data port digits =
     (case splitByte newline (trimSpace data) of
        [] \<Rightarrow> Inl Panic
      | head # ls \<Rightarrow>
          let header = stringFields head in
          if length header < 4 \<or> header ! 0 \<noteq> ''sl'' \<or> header ! 1 \<noteq> ''local_address'' \<or> header ! 3 \<noteq> ''st''
          then Inl ErrRuntimeUsage
          else tcp_lines port digits False ls)"

section \<open>usage_linux.go: reading the kernel\<close>

text \<open>What reading one kernel file gives, before the size limit is applied.\<close>

datatype kfile = KData string | KNotExist | KNoProcess | KError go_err

text \<open>
  \<open>uidProcesses\<close>: the directory entries of \<open>/proc\<close> with the status file of each, and how
  reading the directory ends. Only numeric names are processes.
\<close>

fun uid_processes :: "int \<Rightarrow> go_err option \<Rightarrow> nat \<Rightarrow> (string \<times> kfile) list \<Rightarrow> bool result" where
  "uid_processes uid dir_end count [] = (case dir_end of None \<Rightarrow> Inr False | Some e \<Rightarrow> Inl e)"
| "uid_processes uid dir_end count ((name, status) # es) =
     (if parseUint 10 32 name = None then uid_processes uid dir_end count es
      else if count + 1 > 65536 then Inl ErrRuntimeUsage
      else case status of
             KNotExist \<Rightarrow> uid_processes uid dir_end (count + 1) es
           | KNoProcess \<Rightarrow> uid_processes uid dir_end (count + 1) es
           | KError e \<Rightarrow> Inl e
           | KData data \<Rightarrow>
               if length data > 65536 then Inl ErrRuntimeUsage
               else (case statusUsesUID data uid of
                       Inl e \<Rightarrow> Inl e
                     | Inr used \<Rightarrow> if used then Inr True else uid_processes uid dir_end (count + 1) es))"

record host_view =
  hv_euid_root :: bool
  hv_arch :: string
  hv_proc :: "go_err option"
  hv_cgroup :: "go_err option"
  hv_entries :: "(string \<times> kfile) list"
  hv_dir_end :: "go_err option"
  hv_events :: kfile
  hv_tcp :: kfile
  hv_tcp6 :: kfile
  hv_ctx_over :: bool
  hv_now :: int

record runtime_usage =
  us_UIDProcessesPresent :: bool
  us_CgroupPopulated :: bool
  us_TCPListenerPresent :: bool
  us_ObservedAt :: int

definition kernel_data :: "nat \<Rightarrow> kfile \<Rightarrow> string result" where
  "kernel_data limit f =
     (case f of
        KData data \<Rightarrow> if length data > limit then Inl ErrRuntimeUsage else Inr data
      | KNotExist \<Rightarrow> Inl ErrOS
      | KNoProcess \<Rightarrow> Inl ErrOS
      | KError e \<Rightarrow> Inl e)"

definition cgroup_usage :: "kfile \<Rightarrow> bool result" where
  "cgroup_usage f =
     (if f = KNotExist then Inr False
      else case kernel_data 4096 f of Inl e \<Rightarrow> Inl e | Inr data \<Rightarrow> populatedCgroup data)"

definition tcp_usage :: "kfile \<Rightarrow> int \<Rightarrow> nat \<Rightarrow> bool result" where
  "tcp_usage f port digits =
     (case kernel_data 4194304 f of Inl e \<Rightarrow> Inl e | Inr data \<Rightarrow> hasTCPListener data port digits)"

definition inspectRuntimeUsage :: "host_view \<Rightarrow> assignment \<Rightarrow> runtime_usage result" where
  "inspectRuntimeUsage hv a =
     (case render a of
        Inl e \<Rightarrow> Inl e
      | Inr unit \<Rightarrow>
          if \<not> hv_euid_root hv \<or> a_Architecture a \<noteq> hv_arch hv then Inl ErrAssignment
          else case hv_proc hv of
            Some e \<Rightarrow> Inl e
          | None \<Rightarrow>
              (case hv_cgroup hv of
                 Some e \<Rightarrow> Inl e
               | None \<Rightarrow>
                   (case uid_processes (a_UID a) (hv_dir_end hv) 0 (hv_entries hv) of
                      Inl e \<Rightarrow> Inl e
                    | Inr procs \<Rightarrow>
                        (case cgroup_usage (hv_events hv) of
                           Inl e \<Rightarrow> Inl e
                         | Inr populated \<Rightarrow>
                             (case tcp_usage (hv_tcp hv) (a_Port a) 8 of
                                Inl e \<Rightarrow> Inl e
                              | Inr tcp \<Rightarrow>
                                  (case tcp_usage (hv_tcp6 hv) (a_Port a) 32 of
                                     Inl e \<Rightarrow> Inl e
                                   | Inr tcp6 \<Rightarrow>
                                       if hv_ctx_over hv then Inl ErrContext
                                       else Inr \<lparr>us_UIDProcessesPresent = procs, us_CgroupPopulated = populated,
                                                 us_TCPListenerPresent = (tcp \<or> tcp6), us_ObservedAt = hv_now hv\<rparr>))))))"

section \<open>systemd_status.go\<close>

record systemd_state =
  sd_Unit :: string
  sd_LoadState :: string
  sd_ActiveState :: string
  sd_SubState :: string
  sd_MainPID :: nat
  sd_ControlPID :: nat
  sd_Job :: string
  sd_ControlGroup :: string
  sd_FragmentPath :: string
  sd_UnitFileState :: string
  sd_NeedDaemonReload :: bool

definition unitStopped :: "systemd_state \<Rightarrow> bool" where
  "unitStopped s \<longleftrightarrow>
     (sd_LoadState s = ''loaded'' \<or> sd_LoadState s = ''masked'' \<or> sd_LoadState s = ''not-found'')
     \<and> (sd_ActiveState s = ''inactive'' \<and> sd_SubState s = ''dead''
        \<or> sd_ActiveState s = ''failed'' \<and> sd_SubState s = ''failed'')
     \<and> sd_MainPID s = 0 \<and> sd_ControlPID s = 0 \<and> (sd_Job s = [] \<or> sd_Job s = ''0'')
     \<and> \<not> sd_NeedDaemonReload s"

text \<open>The loop that fills the map \<open>fields\<close>: no line without a key, no long or binary value, no duplicate.\<close>

fun status_fields :: "(string \<times> string) list \<Rightarrow> string list \<Rightarrow> (string \<times> string) list result" where
  "status_fields acc [] = Inr acc"
| "status_fields acc (line # ls) =
     (case cutByte CHR ''='' line of
        None \<Rightarrow> Inl ErrServiceStatus
      | Some (key, v) \<Rightarrow>
          if length v > 1024 \<or> containsAny v [CHR 0x0D, CHR 0x00] \<or> map_of acc key \<noteq> None
          then Inl ErrServiceStatus
          else status_fields ((key, v) # acc) ls)"

definition required_fields :: "string list" where
  "required_fields = [''Id'', ''LoadState'', ''ActiveState'', ''SubState'', ''MainPID'', ''ControlPID'', ''Job'',
     ''ControlGroup'', ''FragmentPath'', ''UnitFileState'', ''NeedDaemonReload'']"

definition load_states :: "string list" where
  "load_states = [''loaded'', ''masked'', ''not-found'', ''error'', ''bad-setting'']"

definition active_states :: "string list" where
  "active_states = [''active'', ''inactive'', ''failed'', ''activating'', ''deactivating'', ''reloading'',
     ''maintenance'', ''refreshing'']"

definition parse_pid :: "string \<Rightarrow> nat option" where
  "parse_pid v =
     (case parseUint 10 32 v of None \<Rightarrow> None | Some n \<Rightarrow> if formatUint n \<noteq> v then None else Some n)"

text \<open>The checks and the result, given the field lookup (total: all eleven keys are present).\<close>

definition status_of_fields :: "(string \<Rightarrow> string) \<Rightarrow> string \<Rightarrow> systemd_state result" where
  "status_of_fields f unit =
     (if f ''Id'' \<noteq> unit \<or> f ''LoadState'' \<notin> set load_states \<or> f ''ActiveState'' \<notin> set active_states
         \<or> f ''SubState'' = [] \<or> length (f ''SubState'') > 64
      then Inl ErrServiceStatus
      else case (parse_pid (f ''MainPID''), parse_pid (f ''ControlPID'')) of
        (Some main, Some control) \<Rightarrow>
          if (f ''ControlGroup'' \<noteq> [] \<and> f ''ControlGroup'' \<noteq> ''/system.slice/'' @ unit)
             \<or> f ''FragmentPath'' \<notin> {[], ''/dev/null'', ''/run/systemd/system/'' @ unit, ''/etc/systemd/system/'' @ unit}
             \<or> (f ''NeedDaemonReload'' \<noteq> ''yes'' \<and> f ''NeedDaemonReload'' \<noteq> ''no'')
          then Inl ErrServiceStatus
          else Inr \<lparr>sd_Unit = unit, sd_LoadState = f ''LoadState'', sd_ActiveState = f ''ActiveState'',
                    sd_SubState = f ''SubState'', sd_MainPID = main, sd_ControlPID = control, sd_Job = f ''Job'',
                    sd_ControlGroup = f ''ControlGroup'', sd_FragmentPath = f ''FragmentPath'',
                    sd_UnitFileState = f ''UnitFileState'', sd_NeedDaemonReload = (f ''NeedDaemonReload'' = ''yes'')\<rparr>
      | _ \<Rightarrow> Inl ErrServiceStatus)"

definition parseSystemdState :: "string \<Rightarrow> string \<Rightarrow> systemd_state result" where
  "parseSystemdState data unit =
     (if data = [] \<or> length data > 16384 then Inl ErrServiceStatus
      else case status_fields [] (splitByte newline (trimSuffix data [newline])) of
        Inl e \<Rightarrow> Inl e
      | Inr fs \<Rightarrow>
          if length fs \<noteq> length required_fields \<or> \<not> list_all (\<lambda>k. map_of fs k \<noteq> None) required_fields
          then Inl ErrServiceStatus
          else status_of_fields (\<lambda>k. case map_of fs k of None \<Rightarrow> [] | Some v \<Rightarrow> v) unit)"

text \<open>\<open>InspectSystemd\<close>: the output of the fixed command, cut off at 16384 bytes by its writer.\<close>

definition inspectSystemd :: "host_view \<Rightarrow> string result \<Rightarrow> bool \<Rightarrow> assignment \<Rightarrow> systemd_state result" where
  "inspectSystemd hv output ctx_over a =
     (case render a of
        Inl e \<Rightarrow> Inl e
      | Inr unit \<Rightarrow>
          if \<not> hv_euid_root hv \<or> a_Architecture a \<noteq> hv_arch hv then Inl ErrAssignment
          else case output of
            Inl e \<Rightarrow> Inl e
          | Inr data \<Rightarrow>
              if length data > 16384 then Inl ErrServiceStatus
              else if ctx_over then Inl ErrContext
              else parseSystemdState data (s_Name unit))"

section \<open>What the kernel readers decide\<close>

lemma uid_values_Inr:
  "uid_values uid used vs = Inr b \<longleftrightarrow>
     (\<exists>ns. map (parseUint 10 32) vs = map Some ns \<and> (b \<longleftrightarrow> used \<or> uid \<in> int ` set ns))"
proof (induction vs arbitrary: used)
  case Nil
  then show ?case by auto
next
  case (Cons v vs)
  show ?case
  proof (cases "parseUint 10 32 v")
    case None
    then show ?thesis by (auto simp: map_eq_Cons_conv)
  next
    case (Some n)
    have "(\<exists>ns. map (parseUint 10 32) (v # vs) = map Some ns \<and> (b \<longleftrightarrow> used \<or> uid \<in> int ` set ns))
      \<longleftrightarrow> (\<exists>ns. map (parseUint 10 32) vs = map Some ns \<and> (b \<longleftrightarrow> (used \<or> int n = uid) \<or> uid \<in> int ` set ns))"
      (is "?L \<longleftrightarrow> ?R")
    proof
      assume ?L
      then obtain ns where ns: "map (parseUint 10 32) (v # vs) = map Some ns" "b \<longleftrightarrow> used \<or> uid \<in> int ` set ns"
        by blast
      with Some show ?R by (cases ns) auto
    next
      assume ?R
      then obtain ns where "map (parseUint 10 32) vs = map Some ns"
        "b \<longleftrightarrow> (used \<or> int n = uid) \<or> uid \<in> int ` set ns" by blast
      with Some have "map (parseUint 10 32) (v # vs) = map Some (n # ns) \<and> (b \<longleftrightarrow> used \<or> uid \<in> int ` set (n # ns))"
        by auto
      then show ?L by blast
    qed
    with Some Cons.IH show ?thesis by simp
  qed
qed

text \<open>What a status file says: the decimal values of its only \<open>Uid:\<close> line.\<close>

definition status_uids :: "string \<Rightarrow> nat list \<Rightarrow> bool" where
  "status_uids data ns \<longleftrightarrow>
     (\<exists>line. filter (\<lambda>l. hasPrefix l ''Uid:'') (splitByte newline data) = [line]
        \<and> length ns = 4 \<and> map (parseUint 10 32) (stringFields (trimPrefix line ''Uid:'')) = map Some ns)"

lemma uid_lines_found:
  "uid_lines uid True used ls = Inr b \<longleftrightarrow> filter (\<lambda>l. hasPrefix l ''Uid:'') ls = [] \<and> b = used"
  by (induction ls) auto

lemma uid_lines_Inr:
  "uid_lines uid False False ls = Inr b \<longleftrightarrow>
     (\<exists>line ns. filter (\<lambda>l. hasPrefix l ''Uid:'') ls = [line] \<and> length ns = 4
        \<and> map (parseUint 10 32) (stringFields (trimPrefix line ''Uid:'')) = map Some ns
        \<and> (b \<longleftrightarrow> uid \<in> int ` set ns))"
proof (induction ls)
  case Nil
  then show ?case by simp
next
  case (Cons l ls)
  show ?case
  proof (cases "hasPrefix l ''Uid:''")
    case False
    with Cons show ?thesis by simp
  next
    case True
    let ?vs = "stringFields (trimPrefix l ''Uid:'')"
    have "uid_lines uid False False (l # ls) = Inr b \<longleftrightarrow>
      length ?vs = 4 \<and> (\<exists>u. uid_values uid False ?vs = Inr u \<and> uid_lines uid True u ls = Inr b)"
      using True by (auto simp: Let_def split: sum.splits)
    also have "\<dots> \<longleftrightarrow> length ?vs = 4 \<and> filter (\<lambda>l. hasPrefix l ''Uid:'') ls = []
      \<and> (\<exists>ns. map (parseUint 10 32) ?vs = map Some ns \<and> (b \<longleftrightarrow> uid \<in> int ` set ns))"
      by (auto simp: uid_lines_found uid_values_Inr)
    also have "\<dots> \<longleftrightarrow> (\<exists>ns. filter (\<lambda>l. hasPrefix l ''Uid:'') ls = [] \<and> length ns = 4
        \<and> map (parseUint 10 32) ?vs = map Some ns \<and> (b \<longleftrightarrow> uid \<in> int ` set ns))"
      by (metis length_map)
    finally show ?thesis using True by auto
  qed
qed

lemma statusUsesUID_Inr:
  "statusUsesUID data uid = Inr b \<longleftrightarrow> (\<exists>ns. status_uids data ns \<and> (b \<longleftrightarrow> uid \<in> int ` set ns))"
  by (auto simp: statusUsesUID_def uid_lines_Inr status_uids_def)

text \<open>A directory entry of \<open>/proc\<close> shows no process of the user: not a process, gone, or of other users.\<close>

fun entry_clear :: "int \<Rightarrow> string \<times> kfile \<Rightarrow> bool" where
  "entry_clear uid (name, KData data) =
     (parseUint 10 32 name = None \<or> (\<exists>ns. status_uids data ns \<and> uid \<notin> int ` set ns))"
| "entry_clear uid (name, KNotExist) = True"
| "entry_clear uid (name, KNoProcess) = True"
| "entry_clear uid (name, KError e) = (parseUint 10 32 name = None)"

lemma uid_processes_False:
  "uid_processes uid de n es = Inr False \<Longrightarrow> de = None \<and> list_all (entry_clear uid) es"
proof (induction es arbitrary: n)
  case Nil
  then show ?case by (simp split: option.splits)
next
  case (Cons e es)
  obtain name f where e: "e = (name, f)" by (cases e)
  have "uid_processes uid de m es = Inr False \<Longrightarrow> list_all (entry_clear uid) es \<and> de = None" for m
    using Cons.IH by blast
  with Cons.prems show ?case
    by (cases f) (auto simp: e statusUsesUID_Inr split: if_splits sum.splits)
qed

lemma tcp_lines_Inr:
  "tcp_lines port digits present ls = Inr b \<longleftrightarrow>
     (\<forall>l \<in> set ls. \<exists>hit. tcp_entry port digits l = Inr hit)
     \<and> (b \<longleftrightarrow> present \<or> (\<exists>l \<in> set ls. tcp_entry port digits l = Inr True))"
  by (induction ls arbitrary: present) (auto split: sum.splits)

definition tcp_rows :: "string \<Rightarrow> string list" where
  "tcp_rows data = tl (splitByte newline (trimSpace data))"

lemma hasTCPListener_Inr:
  assumes "hasTCPListener data port digits = Inr b"
  shows "(\<forall>l \<in> set (tcp_rows data). \<exists>hit. tcp_entry port digits l = Inr hit)
       \<and> (b \<longleftrightarrow> (\<exists>l \<in> set (tcp_rows data). tcp_entry port digits l = Inr True))"
  using assms
  by (cases "splitByte newline (trimSpace data)")
    (simp_all add: hasTCPListener_def tcp_rows_def tcp_lines_Inr Let_def split: if_splits)

section \<open>What the status parser accepts\<close>

definition status_value_ok :: "string \<Rightarrow> bool" where
  "status_value_ok v \<longleftrightarrow> length v \<le> 1024 \<and> \<not> containsAny v [CHR 0x0D, CHR 0x00] \<and> newline \<notin> set v"

definition status_line :: "string \<times> string \<Rightarrow> string" where
  "status_line kv = fst kv @ CHR ''='' # snd kv"

lemma status_fields_lines:
  assumes "distinct (map fst kvs @ map fst acc)"
    and "\<forall>kv \<in> set kvs. CHR ''='' \<notin> set (fst kv) \<and> status_value_ok (snd kv)"
  shows "status_fields acc (map status_line kvs) = Inr (rev kvs @ acc)"
  using assms
proof (induction kvs arbitrary: acc)
  case Nil
  then show ?case by simp
next
  case (Cons kv kvs)
  obtain k v where kv: "kv = (k, v)" by (cases kv)
  from Cons.prems have "k \<notin> fst ` set acc" by (simp add: kv)
  then have new: "\<forall>y. (k, y) \<notin> set acc" by force
  have cut: "cutByte CHR ''='' (status_line kv) = Some (k, v)"
    using Cons.prems by (simp add: kv status_line_def cutByte_Some)
  have "status_fields ((k, v) # acc) (map status_line kvs) = Inr (rev kvs @ (k, v) # acc)"
    using Cons.prems by (intro Cons.IH) (auto simp: kv)
  with Cons.prems cut new show ?case by (simp add: kv status_value_ok_def)
qed

text \<open>What \<open>systemctl show\<close> prints for the requested properties of a unit.\<close>

definition systemd_pairs :: "systemd_state \<Rightarrow> (string \<times> string) list" where
  "systemd_pairs st =
     [(''Id'', sd_Unit st), (''LoadState'', sd_LoadState st), (''ActiveState'', sd_ActiveState st),
      (''SubState'', sd_SubState st), (''MainPID'', formatUint (sd_MainPID st)),
      (''ControlPID'', formatUint (sd_ControlPID st)), (''Job'', sd_Job st),
      (''ControlGroup'', sd_ControlGroup st), (''FragmentPath'', sd_FragmentPath st),
      (''UnitFileState'', sd_UnitFileState st),
      (''NeedDaemonReload'', if sd_NeedDaemonReload st then ''yes'' else ''no'')]"

definition systemd_output :: "systemd_state \<Rightarrow> string" where
  "systemd_output st = joinByte newline (map status_line (systemd_pairs st)) @ [newline]"

definition systemd_state_ok :: "systemd_state \<Rightarrow> bool" where
  "systemd_state_ok st \<longleftrightarrow>
     sd_LoadState st \<in> set load_states \<and> sd_ActiveState st \<in> set active_states
     \<and> sd_SubState st \<noteq> [] \<and> length (sd_SubState st) \<le> 64
     \<and> sd_MainPID st < 2 ^ 32 \<and> sd_ControlPID st < 2 ^ 32
     \<and> (sd_ControlGroup st = [] \<or> sd_ControlGroup st = ''/system.slice/'' @ sd_Unit st)
     \<and> sd_FragmentPath st \<in> {[], ''/dev/null'', ''/run/systemd/system/'' @ sd_Unit st,
          ''/etc/systemd/system/'' @ sd_Unit st}"

definition printable_state :: "systemd_state \<Rightarrow> bool" where
  "printable_state st \<longleftrightarrow>
     (\<forall>kv \<in> set (systemd_pairs st). status_value_ok (snd kv)) \<and> length (systemd_output st) \<le> 16384"

lemma parse_pid_format: "n < 2 ^ 32 \<Longrightarrow> parse_pid (formatUint n) = Some n"
  by (simp add: parse_pid_def parse_formatUint)

lemma parse_pid_bound: "parse_pid v = Some n \<Longrightarrow> n < 2 ^ 32"
  using parseUint_bound [of 10 32 v n] by (auto simp: parse_pid_def split: option.splits if_splits)

lemma systemd_output_fields:
  assumes "printable_state st"
  shows "status_fields [] (splitByte newline (trimSuffix (systemd_output st) [newline])) = Inr (rev (systemd_pairs st))"
proof -
  let ?ls = "map status_line (systemd_pairs st)"
  have keys: "\<forall>kv \<in> set (systemd_pairs st). CHR ''='' \<notin> set (fst kv) \<and> newline \<notin> set (fst kv)"
    by (simp add: systemd_pairs_def newline_def)
  have vals: "\<forall>kv \<in> set (systemd_pairs st). status_value_ok (snd kv)"
    using assms by (simp add: printable_state_def)
  have nl: "\<forall>l \<in> set ?ls. newline \<notin> set l"
    using keys vals by (auto simp: status_line_def status_value_ok_def newline_def)
  have pairs: "?ls \<noteq> []" by (simp add: systemd_pairs_def)
  have "splitByte newline (trimSuffix (systemd_output st) [newline]) = ?ls"
    using split_joinByte [OF pairs nl] by (simp add: systemd_output_def trimSuffix_def hasSuffix_def hasPrefix_def)
  moreover have "distinct (map fst (systemd_pairs st))"
    by (simp add: systemd_pairs_def)
  ultimately show ?thesis
    using status_fields_lines [of "systemd_pairs st" "[]"] keys vals by simp
qed

lemma parse_systemd_output:
  assumes "systemd_state_ok st" and "printable_state st"
  shows "parseSystemdState (systemd_output st) (sd_Unit st) = Inr st"
proof -
  have len: "systemd_output st \<noteq> []" "length (systemd_output st) \<le> 16384"
    using assms(2) by (auto simp: systemd_output_def printable_state_def)
  let ?fs = "rev (systemd_pairs st)"
  have all: "length ?fs = length required_fields" "list_all (\<lambda>k. map_of ?fs k \<noteq> None) required_fields"
    by (simp_all add: systemd_pairs_def required_fields_def)
  let ?f = "\<lambda>k. case map_of ?fs k of None \<Rightarrow> [] | Some v \<Rightarrow> v"
  have keys: "?f ''Id'' = sd_Unit st" "?f ''LoadState'' = sd_LoadState st" "?f ''ActiveState'' = sd_ActiveState st"
    "?f ''SubState'' = sd_SubState st" "?f ''MainPID'' = formatUint (sd_MainPID st)"
    "?f ''ControlPID'' = formatUint (sd_ControlPID st)" "?f ''Job'' = sd_Job st"
    "?f ''ControlGroup'' = sd_ControlGroup st" "?f ''FragmentPath'' = sd_FragmentPath st"
    "?f ''UnitFileState'' = sd_UnitFileState st"
    "?f ''NeedDaemonReload'' = (if sd_NeedDaemonReload st then ''yes'' else ''no'')"
    by (simp_all add: systemd_pairs_def)
  have pids: "parse_pid (formatUint (sd_MainPID st)) = Some (sd_MainPID st)"
    "parse_pid (formatUint (sd_ControlPID st)) = Some (sd_ControlPID st)"
    using assms(1) by (simp_all add: systemd_state_ok_def parse_pid_format)
  have "status_of_fields ?f (sd_Unit st) = Inr st"
    unfolding status_of_fields_def keys pids using assms(1) by (simp add: systemd_state_ok_def)
  with len all systemd_output_fields [OF assms(2)] show ?thesis
    by (simp add: parseSystemdState_def)
qed

lemma status_of_fields_ok:
  assumes "status_of_fields f unit = Inr st"
  shows "sd_Unit st = unit \<and> systemd_state_ok st"
proof -
  obtain main control where pid: "parse_pid (f ''MainPID'') = Some main" "parse_pid (f ''ControlPID'') = Some control"
    using assms by (simp add: status_of_fields_def split: if_splits option.splits)
  note all = assms [unfolded status_of_fields_def pid prod.case option.case if_error_Inr]
  have st: "sd_Unit st = unit" "sd_LoadState st = f ''LoadState''" "sd_ActiveState st = f ''ActiveState''"
    "sd_SubState st = f ''SubState''" "sd_MainPID st = main" "sd_ControlPID st = control"
    "sd_ControlGroup st = f ''ControlGroup''" "sd_FragmentPath st = f ''FragmentPath''"
    using all [THEN conjunct2, THEN conjunct2] by auto
  have ok: "f ''LoadState'' \<in> set load_states" "f ''ActiveState'' \<in> set active_states"
    "f ''SubState'' \<noteq> []" "\<not> 64 < length (f ''SubState'')"
    "f ''ControlGroup'' = [] \<or> f ''ControlGroup'' = ''/system.slice/'' @ unit"
    "f ''FragmentPath'' \<in> {[], ''/dev/null'', ''/run/systemd/system/'' @ unit, ''/etc/systemd/system/'' @ unit}"
    using all by blast+
  show ?thesis
    unfolding systemd_state_ok_def st using ok parse_pid_bound [OF pid(1)] parse_pid_bound [OF pid(2)]
    by (simp only: not_less simp_thms)
qed

lemma parse_systemd_ok:
  "parseSystemdState data unit = Inr st \<Longrightarrow> sd_Unit st = unit \<and> systemd_state_ok st"
  by (simp add: parseSystemdState_def status_of_fields_ok split: if_splits sum.splits)

section \<open>Properties\<close>

text \<open>
  A report of no use is a report of no use. When \<open>InspectRuntimeUsage\<close> finds no process of
  the slot's user, \<open>/proc\<close> was read to its end and every process that had a status file has
  four user ids, none of them the slot's; when it finds no listener, both TCP tables were
  readable in full and no row is a listening socket on the slot's port.
\<close>

theorem absent_usage_is_absent:
  assumes "inspectRuntimeUsage hv a = Inr usage"
  shows "(\<not> us_UIDProcessesPresent usage \<longrightarrow> hv_dir_end hv = None \<and> list_all (entry_clear (a_UID a)) (hv_entries hv))
       \<and> (us_TCPListenerPresent usage \<longleftrightarrow>
            (\<exists>data l. hv_tcp hv = KData data \<and> l \<in> set (tcp_rows data) \<and> tcp_entry (a_Port a) 8 l = Inr True)
            \<or> (\<exists>data l. hv_tcp6 hv = KData data \<and> l \<in> set (tcp_rows data) \<and> tcp_entry (a_Port a) 32 l = Inr True))"
proof -
  from assms obtain procs t4 t6 where
    u: "uid_processes (a_UID a) (hv_dir_end hv) 0 (hv_entries hv) = Inr procs"
    "tcp_usage (hv_tcp hv) (a_Port a) 8 = Inr t4" "tcp_usage (hv_tcp6 hv) (a_Port a) 32 = Inr t6"
    "us_UIDProcessesPresent usage = procs" "us_TCPListenerPresent usage \<longleftrightarrow> t4 \<or> t6"
    by (auto simp: inspectRuntimeUsage_def split: sum.splits if_splits option.splits)
  have tcp: "b \<longleftrightarrow> (\<exists>data l. f = KData data \<and> l \<in> set (tcp_rows data) \<and> tcp_entry port digits l = Inr True)"
    if "tcp_usage f port digits = Inr b" for f port digits b
    using that by (auto simp: tcp_usage_def kernel_data_def dest: hasTCPListener_Inr
        split: kfile.splits if_splits sum.splits)
  show ?thesis using u uid_processes_False tcp [OF u(2)] tcp [OF u(3)] by auto
qed

text \<open>
  Reading a unit's status inverts what the service manager prints: the parser gives back
  every state whose values are printable, and whatever it accepts is a state of the named
  unit with known load and active states, 32-bit process ids and a control group and
  fragment path that belong to the unit.
\<close>

theorem systemd_status_roundtrip:
  assumes "systemd_state_ok st" and "printable_state st"
  shows "parseSystemdState (systemd_output st) (sd_Unit st) = Inr st
       \<and> (\<forall>data unit st'. parseSystemdState data unit = Inr st' \<longrightarrow> sd_Unit st' = unit \<and> systemd_state_ok st')"
  using parse_systemd_output [OF assms] parse_systemd_ok by blast

section \<open>Concrete instances\<close>

text \<open>A retired unit and a host on which nothing of the slot is left.\<close>

definition hx_unit :: string where
  "hx_unit = ''deployer-node-'' @ px_id CHR ''c'' @ ''.service''"

definition hx_state :: systemd_state where
  "hx_state = \<lparr>sd_Unit = hx_unit, sd_LoadState = ''masked'', sd_ActiveState = ''inactive'', sd_SubState = ''dead'',
     sd_MainPID = 0, sd_ControlPID = 0, sd_Job = [], sd_ControlGroup = [], sd_FragmentPath = ''/dev/null'',
     sd_UnitFileState = ''masked'', sd_NeedDaemonReload = False\<rparr>"

definition hx_status :: string where
  "hx_status = ''Name: init'' @ [newline] @ ''Uid: 0 0 0 0'' @ [newline]"

definition hx_tcp :: string where
  "hx_tcp = ''  sl local_address rem_address st'' @ [newline] @ ''0: 0100007F:1F90 00000000:0000 0A''"

definition hx_tcp6 :: string where
  "hx_tcp6 = ''  sl local_address rem_address st''"

definition hx_host :: host_view where
  "hx_host = \<lparr>hv_euid_root = True, hv_arch = ''arm64'', hv_proc = None, hv_cgroup = None,
     hv_entries = [(''1'', KData hx_status), (''self'', KError ErrOS)], hv_dir_end = None, hv_events = KNotExist,
     hv_tcp = KData hx_tcp, hv_tcp6 = KData hx_tcp6, hv_ctx_over = False, hv_now = 12\<rparr>"

definition hx_usage :: runtime_usage where
  "hx_usage = \<lparr>us_UIDProcessesPresent = False, us_CgroupPopulated = False, us_TCPListenerPresent = False,
     us_ObservedAt = 12\<rparr>"

lemmas hx_text = newline_def byte_of_def space_len_def fields_from.simps trim_left.simps trim_right.simps
  last_space_def stringFields_def trimSpace_def hasPrefix_def trimPrefix_def parseUint_def from_hex_char_def

lemma hx_statusUsesUID: "statusUsesUID hx_status 60001 = Inr False"
  by (simp add: statusUsesUID_def hx_status_def hx_text)

lemma hx_tcp_usage: "tcp_usage (KData hx_tcp) 3001 8 = Inr False" "tcp_usage (KData hx_tcp6) 3001 32 = Inr False"
  by (simp_all add: tcp_usage_def kernel_data_def hasTCPListener_def hx_tcp_def hx_tcp6_def hx_text tcp_entry_def)

lemma hx_inspect: "inspectRuntimeUsage hx_host (px_assignment 60001 3001) = Inr hx_usage"
proof -
  obtain s where "render (px_assignment 60001 3001) = Inr s" using px_render by blast
  moreover have "uid_processes 60001 None 0 (hv_entries hx_host) = Inr False"
    by (simp add: hx_host_def hx_statusUsesUID) (simp add: hx_text hx_status_def)
  ultimately show ?thesis
    by (simp add: inspectRuntimeUsage_def px_assignment_def hx_host_def hx_tcp_usage cgroup_usage_def hx_usage_def)
qed

lemma hx_state_ok: "systemd_state_ok hx_state"
  by (simp add: systemd_state_ok_def hx_state_def load_states_def active_states_def)

lemma hx_printable: "printable_state hx_state"
proof -
  have "formatUint 0 = ''0''" by (simp add: formatUint.simps to_hex_char_def char_of_def bit_0)
  then show ?thesis
    by (simp add: printable_state_def systemd_output_def systemd_pairs_def status_line_def hx_state_def hx_unit_def
        px_id_def status_value_ok_def containsAny_def newline_def eval_nat_numeral)
qed

lemma hx_inspectSystemd:
  "inspectSystemd hx_host (Inr (systemd_output hx_state)) False (px_assignment 60001 3001) = Inr hx_state"
proof -
  obtain s where s: "render (px_assignment 60001 3001) = Inr s" using px_render by blast
  then have "s_Name s = sd_Unit hx_state"
    by (auto simp: render_def hx_state_def hx_unit_def split: if_splits)
  with s parse_systemd_output [OF hx_state_ok hx_printable] hx_printable show ?thesis
    by (simp add: inspectSystemd_def hx_host_def px_assignment_def printable_state_def)
qed

theorem absent_usage_is_absent_witness: "list_all (entry_clear 60001) (hv_entries hx_host)"
  using absent_usage_is_absent [OF hx_inspect] by (simp add: hx_usage_def px_assignment_def)

theorem systemd_status_roundtrip_witness: "parseSystemdState (systemd_output hx_state) (sd_Unit hx_state) = Inr hx_state"
  using systemd_status_roundtrip [OF hx_state_ok hx_printable] by blast

end
