(* ===== verification/Node_Gate.thy ===== *)
theory Node_Gate
  imports Node_Host Node_Router
begin

text \<open>
  \<open>internal/nodelaunch\<close>, ordering host mutations: \<open>control_linux.go\<close> (the durable control gate
  per operation and the gated installer), \<open>systemd_start_linux.go\<close>, \<open>systemd_stop_linux.go\<close>
  and \<open>retire_linux.go\<close>, where draining the route, stopping the service and releasing the
  slot are joined.
\<close>

section \<open>The control gate\<close>

record control_state =
  cs_Version :: int
  cs_Assignment :: assignment
  cs_InstallationAttempted :: bool
  cs_StartAttempted :: bool
  cs_Retired :: bool

text \<open>The decoded record files of the gate directory, by operation.\<close>

type_synonym gate = "string \<rightharpoonup> control_state"

datatype gate_kind = GInstall | GStart | GRetire

text \<open>
  What the host does to one call: an error of \<open>lock\<close> after \<open>Render\<close> (context, open, file
  checks, flock), the context after the lock, an error of reading the record (open, file
  checks, decoding), how the write ends, the context after the write and after the action.
  A write can fail after its rename, when the directory cannot be synced.
\<close>

datatype read_end = ReadOk | ReadFails | ReadBadFile | ReadUndecodable

datatype write_end = Written | WriteFails go_err | WriteSyncFails go_err

record gate_env =
  ge_lock :: "go_err option"
  ge_ctx_locked :: bool
  ge_read :: read_end
  ge_write :: write_end
  ge_ctx_written :: bool
  ge_ctx_done :: bool

definition gate_lock :: "gate_env \<Rightarrow> assignment \<Rightarrow> unit result" where
  "gate_lock env a =
     (case render a of
        Inl e \<Rightarrow> Inl e
      | Inr _ \<Rightarrow> (case ge_lock env of Some e \<Rightarrow> Inl e | None \<Rightarrow> Inr ()))"

definition gate_read :: "gate_env \<Rightarrow> assignment \<Rightarrow> gate \<Rightarrow> control_state result" where
  "gate_read env a g =
     (case g (a_OperationID a) of
        None \<Rightarrow> Inl Launch_ErrNotFound
      | Some st \<Rightarrow>
          (case ge_read env of
             ReadFails \<Rightarrow> Inl ErrOS
           | ReadBadFile \<Rightarrow> Inl ErrAssignment
           | ReadUndecodable \<Rightarrow> Inl ErrOS
           | ReadOk \<Rightarrow>
               if cs_Version st \<noteq> 1 \<or> cs_Assignment st \<noteq> a \<or> (cs_StartAttempted st \<and> \<not> cs_InstallationAttempted st)
               then Inl Launch_ErrConflict else Inr st))"

definition gate_write :: "gate_env \<Rightarrow> control_state \<Rightarrow> gate \<Rightarrow> unit result \<times> gate" where
  "gate_write env st g =
     (let g' = g(a_OperationID (cs_Assignment st) \<mapsto> st)
      in case ge_write env of
           Written \<Rightarrow> (Inr (), g')
         | WriteFails e \<Rightarrow> (Inl e, g)
         | WriteSyncFails e \<Rightarrow> (Inl e, g'))"

definition gate_inspect :: "gate_env \<Rightarrow> assignment \<Rightarrow> gate \<Rightarrow> control_state result" where
  "gate_inspect env a g =
     (case gate_lock env a of
        Inl e \<Rightarrow> Inl e
      | Inr _ \<Rightarrow> if ge_ctx_locked env then Inl ErrContext else gate_read env a g)"

text \<open>The switch over the kind of call: which record the call persists.\<close>

fun gate_next :: "gate_kind \<Rightarrow> control_state \<Rightarrow> control_state result" where
  "gate_next GInstall st =
     (if cs_Retired st \<or> cs_InstallationAttempted st then Inl Launch_ErrConflict
      else Inr (st\<lparr>cs_InstallationAttempted := True\<rparr>))"
| "gate_next GStart st =
     (if cs_Retired st \<or> cs_StartAttempted st \<or> \<not> cs_InstallationAttempted st then Inl Launch_ErrConflict
      else Inr (st\<lparr>cs_StartAttempted := True\<rparr>))"
| "gate_next GRetire st = Inr (st\<lparr>cs_Retired := True\<rparr>)"

definition new_control_state :: "assignment \<Rightarrow> control_state" where
  "new_control_state a = \<lparr>cs_Version = 1, cs_Assignment = a, cs_InstallationAttempted = False,
     cs_StartAttempted = False, cs_Retired = False\<rparr>"

text \<open>The record the call starts from: the stored one, or a fresh one when there is none.\<close>

definition gate_load :: "gate_env \<Rightarrow> assignment \<Rightarrow> gate \<Rightarrow> control_state result" where
  "gate_load env a g =
     (case gate_read env a g of
        Inl e \<Rightarrow> if e = Launch_ErrNotFound then Inr (new_control_state a) else Inl e
      | Inr st \<Rightarrow> Inr st)"

text \<open>
  \<open>run\<close> up to the action: \<open>Inr ()\<close> means the intent is durable and the action is called.
\<close>

definition gate_begin :: "gate_env \<times> assignment \<times> gate_kind \<Rightarrow> gate \<Rightarrow> unit result \<times> gate" where
  "gate_begin i g =
     (case i of (env, a, kind) \<Rightarrow>
        (case gate_lock env a of
           Inl e \<Rightarrow> (Inl e, g)
         | Inr _ \<Rightarrow>
             if ge_ctx_locked env then (Inl ErrContext, g)
             else (case gate_load env a g of
                     Inl e \<Rightarrow> (Inl e, g)
                   | Inr st \<Rightarrow>
                       (case gate_next kind st of
                          Inl e \<Rightarrow> (Inl e, g)
                        | Inr st' \<Rightarrow>
                            (case gate_write env st' g of
                               (Inl e, g') \<Rightarrow> (Inl e, g')
                             | (Inr _, g') \<Rightarrow>
                                 if ge_ctx_written env then (Inl ErrContext, g') else (Inr (), g'))))))"

definition gate_run ::
  "gate_env \<Rightarrow> assignment \<Rightarrow> gate_kind \<Rightarrow> unit result option \<Rightarrow> gate \<Rightarrow> unit result \<times> gate" where
  "gate_run env a kind action g =
     (case action of
        None \<Rightarrow> (Inl ErrAssignment, g)
      | Some act \<Rightarrow>
          (case gate_begin (env, a, kind) g of
             (Inl e, g') \<Rightarrow> (Inl e, g')
           | (Inr _, g') \<Rightarrow>
               (case act of
                  Inl e \<Rightarrow> (Inl e, g')
                | Inr _ \<Rightarrow> if ge_ctx_done env then (Inl ErrContext, g') else (Inr (), g'))))"

text \<open>
  \<open>GatedInstaller\<close>: the installer runs as the action of the gate; an observation needs the
  lock and a record that is installed and not retired.
\<close>

definition gated_install ::
  "gate_env \<Rightarrow> assignment \<Rightarrow> (string \<times> manifest) result \<Rightarrow> gate \<Rightarrow> (string \<times> manifest) result \<times> gate" where
  "gated_install env a installer g =
     (case gate_run env a GInstall (Some (case installer of Inl e \<Rightarrow> Inl e | Inr _ \<Rightarrow> Inr ())) g of
        (Inl e, g') \<Rightarrow> (Inl e, g')
      | (Inr _, g') \<Rightarrow> (installer, g'))"

definition gated_observe ::
  "gate_env \<Rightarrow> assignment \<Rightarrow> installed_release result \<Rightarrow> gate \<Rightarrow> installed_release result" where
  "gated_observe env a observe g =
     (case gate_lock env a of
        Inl e \<Rightarrow> Inl e
      | Inr _ \<Rightarrow>
          (case gate_read env a g of
             Inl e \<Rightarrow> Inl e
           | Inr st \<Rightarrow>
               if cs_Retired st \<or> \<not> cs_InstallationAttempted st then Inl Launch_ErrConflict else observe))"

section \<open>Starting and stopping the service\<close>

text \<open>
  \<open>StartInstalledSystemd\<close>: the second look at the sealed bytes, the account and its groups,
  the unit file and the two systemctl calls are the action of the gate.
\<close>

record start_env =
  se_host :: host_view
  se_drv :: driver
  se_gate :: gate_env
  se_observed :: "installed_release result"
  se_account :: "(string \<times> string) option"
  se_groups :: "string list option"
  se_unit :: "unit result"
  se_reload :: "unit result"
  se_start :: "unit result"

definition start_action :: "start_env \<Rightarrow> installed_release \<Rightarrow> unit result" where
  "start_action env receipt =
     (case se_observed env of
        Inl e \<Rightarrow> Inl e
      | Inr ob \<Rightarrow>
          if ir_Manifest ob \<noteq> ir_Manifest receipt then Inl Launch_ErrConflict
          else (case se_account env of
                  None \<Rightarrow> Inl ErrAssignment
                | Some (uid, gid) \<Rightarrow>
                    (case se_groups env of
                       None \<Rightarrow> Inl ErrAssignment
                     | Some groups \<Rightarrow>
                         if gid \<noteq> uid \<or> \<not> list_all (\<lambda>grp. grp = gid) groups then Inl ErrAssignment
                         else (case se_unit env of
                                 Inl e \<Rightarrow> Inl e
                               | Inr _ \<Rightarrow>
                                   (case se_reload env of Inl e \<Rightarrow> Inl e | Inr _ \<Rightarrow> se_start env)))))"

definition startInstalledSystemd ::
  "start_env \<Rightarrow> assignment \<Rightarrow> pool_db \<Rightarrow> gate \<Rightarrow> unit result \<times> gate" where
  "startInstalledSystemd env a db g =
     (if \<not> hv_euid_root (se_host env) \<or> a_Architecture a \<noteq> hv_arch (se_host env) then (Inl ErrAssignment, g)
      else case render a of
        Inl e \<Rightarrow> (Inl e, g)
      | Inr _ \<Rightarrow>
          (case pool_lookup (se_drv env) (a_OperationID a) db of
             Inl e \<Rightarrow> (Inl e, g)
           | Inr r \<Rightarrow>
               (case (if r_Assignment r \<noteq> a \<or> r_State r \<noteq> Starting then None else r_Installed r) of
                  None \<Rightarrow> (Inl Launch_ErrConflict, g)
                | Some receipt \<Rightarrow>
                    if ir_Assignment receipt \<noteq> a then (Inl Launch_ErrConflict, g)
                    else gate_run (se_gate env) a GStart (Some (start_action env receipt)) g)))"

text \<open>
  \<open>RetireSystemd\<close>: mask, sync, stop, read the unit's state and the mask link, and accept only
  a masked and settled unit.
\<close>

record stop_env =
  st_host :: host_view
  st_gate :: gate_env
  st_mask :: "unit result"
  st_sync :: "unit result"
  st_stop :: "unit result"
  st_output :: "string result"
  st_output_ctx :: bool
  st_link :: "string result"

definition stop_action :: "stop_env \<Rightarrow> assignment \<Rightarrow> systemd_state result" where
  "stop_action env a =
     (case st_mask env of Inl e \<Rightarrow> Inl e | Inr _ \<Rightarrow>
      case st_sync env of Inl e \<Rightarrow> Inl e | Inr _ \<Rightarrow>
      case st_stop env of Inl e \<Rightarrow> Inl e | Inr _ \<Rightarrow>
      case inspectSystemd (st_host env) (st_output env) (st_output_ctx env) a of Inl e \<Rightarrow> Inl e | Inr state \<Rightarrow>
      case st_link env of Inl e \<Rightarrow> Inl e | Inr target \<Rightarrow>
      if target \<noteq> ''/dev/null'' \<or> sd_LoadState state \<noteq> ''masked'' \<or> sd_UnitFileState state \<noteq> ''masked''
         \<or> \<not> unitStopped state
      then Inl ErrServiceStatus else Inr state)"

definition retireSystemd :: "stop_env \<Rightarrow> assignment \<Rightarrow> gate \<Rightarrow> systemd_state result \<times> gate" where
  "retireSystemd env a g =
     (case render a of
        Inl e \<Rightarrow> (Inl e, g)
      | Inr _ \<Rightarrow>
          if \<not> hv_euid_root (st_host env) \<or> a_Architecture a \<noteq> hv_arch (st_host env) then (Inl ErrAssignment, g)
          else (case gate_run (st_gate env) a GRetire
                       (Some (case stop_action env a of Inl e \<Rightarrow> Inl e | Inr _ \<Rightarrow> Inr ())) g of
                  (Inl e, g') \<Rightarrow> (Inl e, g')
                | (Inr _, g') \<Rightarrow> (stop_action env a, g')))"

section \<open>retire\_linux.go\<close>

text \<open>The private reader that may assert routing detachment, because it runs inside the routing guard.\<close>

record observe_host =
  oh_gate :: gate_env
  oh_host :: host_view
  oh_output :: "string result"
  oh_output_ctx :: bool
  oh_now :: int

definition drainedHostReader :: "observe_host \<Rightarrow> gate \<Rightarrow> assignment \<Rightarrow> retirement_observation result" where
  "drainedHostReader env g a =
     (case gate_inspect (oh_gate env) a g of Inl e \<Rightarrow> Inl e | Inr control \<Rightarrow>
      if \<not> cs_Retired control then Inl ErrRetirement
      else case inspectSystemd (oh_host env) (oh_output env) (oh_output_ctx env) a of Inl e \<Rightarrow> Inl e | Inr state \<Rightarrow>
      if \<not> unitStopped state \<or> sd_LoadState state \<noteq> ''masked'' \<or> sd_UnitFileState state \<noteq> ''masked''
      then Inl ErrRetirement
      else case inspectRuntimeUsage (oh_host env) a of Inl e \<Rightarrow> Inl e | Inr usage \<Rightarrow>
      if us_UIDProcessesPresent usage \<or> us_CgroupPopulated usage \<or> us_TCPListenerPresent usage
      then Inl ErrRetirement
      else Inr \<lparr>ro_Assignment = a, ro_ObservedAt = oh_now env, ro_StartsFenced = True, ro_ProcessesGone = True,
                ro_ListenerGone = True, ro_RoutingDetached = True\<rparr>)"

text \<open>
  \<open>hostNamespaces\<close>: the links of the controller's namespaces and of process 1's, in the order
  they are read.
\<close>

fun same_namespaces :: "(string result \<times> string result) list \<Rightarrow> unit result" where
  "same_namespaces [] = Inr ()"
| "same_namespaces ((own, init) # ns) =
     (case own of Inl e \<Rightarrow> Inl e | Inr o' \<Rightarrow>
      case init of Inl e \<Rightarrow> Inl e | Inr i' \<Rightarrow>
      if o' \<noteq> i' then Inl ErrRuntimeUsage else same_namespaces ns)"

definition hostNamespaces :: "bool \<Rightarrow> (string result \<times> string result) list \<Rightarrow> unit result" where
  "hostNamespaces euid_root links = (if \<not> euid_root then Inl ErrAssignment else same_namespaces links)"

text \<open>The stores that \<open>RetireRoutedNode\<close> works on.\<close>

record node_world =
  w_pool :: pool_db
  w_gate :: gate
  w_route :: route_db
  w_handle :: handle

record retire_routed_env =
  rr_lib :: url_lib
  rr_drv_lookup :: driver
  rr_euid_root :: bool
  rr_namespaces :: "(string result \<times> string result) list"
  rr_drv_begin :: driver
  rr_lock :: lock_outcome
  rr_drv_fence :: driver
  rr_views :: "drain_view list"
  rr_stop :: stop_env
  rr_observe :: observe_host
  rr_retire :: retire_env

text \<open>The action that runs inside the routing guard: stop the service, then release the slot.\<close>

definition retire_action ::
  "pool_config \<Rightarrow> retire_routed_env \<Rightarrow> assignment \<Rightarrow> pool_db \<Rightarrow> gate \<Rightarrow> reservation result \<times> pool_db \<times> gate" where
  "retire_action cfg env a db g =
     (case retireSystemd (rr_stop env) a g of
        (Inl e, g') \<Rightarrow> (Inl e, db, g')
      | (Inr _, g') \<Rightarrow>
          (case reconcileRetirement cfg ((rr_retire env)\<lparr>re_reader := Some (drainedHostReader (rr_observe env) g')\<rparr>)
                  (a_OperationID a) db of
             (r, db') \<Rightarrow> (r, db', g')))"

text \<open>
  \<open>RetireRoutedNode\<close>. \<open>None\<close> is a drain that has not returned; the reservation returned is
  the one the action gave.
\<close>

definition retireRoutedNode ::
  "pool_config \<Rightarrow> route_config \<Rightarrow> retire_routed_env \<Rightarrow> candidate \<Rightarrow> node_world
    \<Rightarrow> reservation result option \<times> node_world" where
  "retireRoutedNode pcfg rcfg env c w =
     (case pool_lookup (rr_drv_lookup env) (c_OperationID c) (w_pool w) of
        Inl e \<Rightarrow> (Some (Inl e), w)
      | Inr current \<Rightarrow>
          (let a = r_Assignment current in
           case backendPort (rr_lib env) rcfg c of
             Inl e \<Rightarrow> (Some (Inl e), w)
           | Inr port \<Rightarrow>
               if c_ProjectID c \<noteq> a_ProjectID a \<or> c_RuntimeID c \<noteq> a_RuntimeID a
                  \<or> c_ArtifactSHA256 c \<noteq> a_ArtifactSHA256 a \<or> port \<noteq> a_Port a
               then (Some (Inl ErrAssignment), w)
               else if r_State current = RetiredSlot then (Some (Inr current), w)
               else (case hostNamespaces (rr_euid_root env) (rr_namespaces env) of
                       Inl e \<Rightarrow> (Some (Inl e), w)
                     | Inr _ \<Rightarrow>
                         (case beginRetirement (rr_drv_begin env) (c_OperationID c) (w_pool w) of
                            (Inl e, db) \<Rightarrow> (Some (Inl e), w\<lparr>w_pool := db\<rparr>)
                          | (Inr r, db) \<Rightarrow>
                              (case retire_action pcfg env a db (w_gate w) of
                                 (ra, db', g') \<Rightarrow>
                                   (case withDrainedBackend rcfg (rr_lock env) (rr_drv_fence env) c
                                           (Some (case ra of Inl e \<Rightarrow> Inl e | Inr _ \<Rightarrow> Inr ())) (rr_views env)
                                           (w_handle w, w_route w) of
                                      (None, h, rt) \<Rightarrow>
                                        (None, w\<lparr>w_pool := db, w_handle := h, w_route := rt\<rparr>)
                                    | (Some (res, False), h, rt) \<Rightarrow>
                                        (Some (case res of Inl e \<Rightarrow> Inl e | Inr _ \<Rightarrow> Inr r),
                                         w\<lparr>w_pool := db, w_handle := h, w_route := rt\<rparr>)
                                    | (Some (res, True), h, rt) \<Rightarrow>
                                        (Some ra, w\<lparr>w_pool := db', w_gate := g', w_handle := h, w_route := rt\<rparr>)))))))"

section \<open>What the gate never forgets\<close>

definition gate_retired :: "string \<Rightarrow> gate \<Rightarrow> bool" where
  "gate_retired k g \<longleftrightarrow> (\<exists>st. g k = Some st \<and> cs_Retired st)"

definition gate_started :: "string \<Rightarrow> gate \<Rightarrow> bool" where
  "gate_started k g \<longleftrightarrow> (\<exists>st. g k = Some st \<and> cs_StartAttempted st)"

definition gate_installed :: "string \<Rightarrow> gate \<Rightarrow> bool" where
  "gate_installed k g \<longleftrightarrow> (\<exists>st. g k = Some st \<and> cs_InstallationAttempted st)"

text \<open>Which calls the three facts block.\<close>

fun mutates :: "string \<Rightarrow> gate_env \<times> assignment \<times> gate_kind \<Rightarrow> bool" where
  "mutates k (env, a, kind) = (a_OperationID a = k \<and> kind \<noteq> GRetire)"

fun starts :: "string \<Rightarrow> gate_env \<times> assignment \<times> gate_kind \<Rightarrow> bool" where
  "starts k (env, a, kind) = (a_OperationID a = k \<and> kind = GStart)"

fun installs :: "string \<Rightarrow> gate_env \<times> assignment \<times> gate_kind \<Rightarrow> bool" where
  "installs k (env, a, kind) = (a_OperationID a = k \<and> kind = GInstall)"

text \<open>A record is filed under the operation of its own assignment.\<close>

definition gate_ok :: "gate \<Rightarrow> bool" where
  "gate_ok g \<longleftrightarrow> (\<forall>k st. g k = Some st \<longrightarrow> a_OperationID (cs_Assignment st) = k)"

text \<open>One call either leaves the gate alone or replaces the record of its own operation.\<close>

lemma gate_loadD:
  "gate_load env a g = Inr st \<Longrightarrow>
    g (a_OperationID a) = Some st \<and> cs_Assignment st = a
    \<or> g (a_OperationID a) = None \<and> st = new_control_state a"
  by (auto simp: gate_load_def gate_read_def split: option.splits sum.splits if_splits read_end.splits)

lemma gate_beginD:
  assumes "gate_begin (env, a, kind) g = (r, g')"
  shows "(g' = g \<and> (\<exists>e. r = Inl e))
    \<or> (\<exists>st st'. (g (a_OperationID a) = Some st \<and> cs_Assignment st = a
                 \<or> g (a_OperationID a) = None \<and> st = new_control_state a)
        \<and> gate_next kind st = Inr st' \<and> g' = g(a_OperationID (cs_Assignment st') \<mapsto> st'))"
proof (cases "gate_lock env a")
  case (Inl e)
  with assms have "r = Inl e \<and> g' = g" by (simp add: gate_begin_def)
  then show ?thesis by blast
next
  case (Inr u)
  with assms show ?thesis
    by (auto simp: gate_begin_def gate_write_def Let_def dest!: gate_loadD
        split: sum.splits if_splits option.splits write_end.splits)
qed

lemma gate_next_frame:
  "gate_next kind st = Inr st' \<Longrightarrow>
    cs_Assignment st' = cs_Assignment st \<and> (cs_Retired st \<longrightarrow> cs_Retired st')
    \<and> (cs_StartAttempted st \<longrightarrow> cs_StartAttempted st')
    \<and> (cs_InstallationAttempted st \<longrightarrow> cs_InstallationAttempted st')"
  by (cases kind) (auto split: if_splits)

lemma gate_begin_keeps:
  assumes "gate_begin (env, a, kind) g = (r, g')"
  shows "gate_retired k g \<Longrightarrow> gate_retired k g'"
    and "gate_started k g \<Longrightarrow> gate_started k g'"
    and "gate_installed k g \<Longrightarrow> gate_installed k g'"
  using gate_beginD [OF assms]
  by (auto simp: gate_retired_def gate_started_def gate_installed_def new_control_state_def
      dest!: gate_next_frame)

lemma gate_begin_blocked:
  assumes "\<And>st. gate_load env a g = Inr st \<Longrightarrow> \<exists>e. gate_next kind st = Inl e"
  shows "\<exists>e. fst (gate_begin (env, a, kind) g) = Inl e"
proof (cases "gate_lock env a")
  case (Inl e)
  then show ?thesis by (simp add: gate_begin_def)
next
  case (Inr u)
  show ?thesis
  proof (cases "gate_load env a g")
    case (Inl e)
    with Inr show ?thesis by (simp add: gate_begin_def)
  next
    case (Inr st)
    with assms obtain e where "gate_next kind st = Inl e" by blast
    with Inr \<open>gate_lock env a = Inr u\<close> show ?thesis by (simp add: gate_begin_def)
  qed
qed

lemma gate_load_stored: "g (a_OperationID a) = Some st \<Longrightarrow> gate_load env a g = Inr st' \<Longrightarrow> st' = st"
  using gate_loadD by fastforce

interpretation fenced: latch gate_begin gate_retired mutates
proof
  show "gate_retired k (snd (gate_begin i g))" if "gate_retired k g" for k i g
    using that gate_begin_keeps(1) by (cases i) (metis prod.exhaust_sel)
  show "\<exists>e. fst (gate_begin i g) = Inl e" if "gate_retired k g" "mutates k i" for k i g
  proof (cases i)
    case (fields env a kind)
    with that show ?thesis
      by (cases kind) (auto simp: gate_retired_def dest: gate_load_stored intro!: gate_begin_blocked)
  qed
qed

interpretation start: latch gate_begin gate_started starts
proof
  show "gate_started k (snd (gate_begin i g))" if "gate_started k g" for k i g
    using that gate_begin_keeps(2) by (cases i) (metis prod.exhaust_sel)
  show "\<exists>e. fst (gate_begin i g) = Inl e" if "gate_started k g" "starts k i" for k i g
  proof (cases i)
    case (fields env a kind)
    with that show ?thesis
      by (auto simp: gate_started_def dest: gate_load_stored intro!: gate_begin_blocked)
  qed
qed

interpretation install: latch gate_begin gate_installed installs
proof
  show "gate_installed k (snd (gate_begin i g))" if "gate_installed k g" for k i g
    using that gate_begin_keeps(3) by (cases i) (metis prod.exhaust_sel)
  show "\<exists>e. fst (gate_begin i g) = Inl e" if "gate_installed k g" "installs k i" for k i g
  proof (cases i)
    case (fields env a kind)
    with that show ?thesis
      by (auto simp: gate_installed_def dest: gate_load_stored intro!: gate_begin_blocked)
  qed
qed

lemma gate_begin_records:
  assumes "gate_begin (env, a, kind) g = (Inr (), g')"
  shows "kind = GRetire \<Longrightarrow> gate_retired (a_OperationID a) g'"
    and "kind = GStart \<Longrightarrow> gate_started (a_OperationID a) g' \<and> gate_installed (a_OperationID a) g"
    and "kind = GInstall \<Longrightarrow> gate_installed (a_OperationID a) g'"
  using gate_beginD [OF assms]
  by (auto simp: gate_retired_def gate_started_def gate_installed_def new_control_state_def split: if_splits)

lemma gate_runD:
  "gate_run env a kind action g = (Inr (), g') \<Longrightarrow> gate_begin (env, a, kind) g = (Inr (), g') \<and> action = Some (Inr ())"
  by (auto simp: gate_run_def split: option.splits prod.splits sum.splits if_splits)

lemma retireSystemdD:
  "retireSystemd env a g = (Inr st, g') \<Longrightarrow>
    gate_retired (a_OperationID a) g' \<and> stop_action env a = Inr st"
  by (auto simp: retireSystemd_def dest!: gate_runD gate_begin_records(1)
      split: sum.splits if_splits prod.splits)

lemma drain_loop_false: "drain_loop c act views = Some (res, False) \<Longrightarrow> \<exists>e. res = Inl e"
  by (induction c act views rule: drain_loop.induct) (auto split: drain_step.splits)

lemma drain_loop_true: "drain_loop c act views = Some (res, True) \<Longrightarrow> res = act"
  by (induction c act views rule: drain_loop.induct) (auto split: drain_step.splits)

lemma withDrainedBackend_not_run:
  "withDrainedBackend cfg lk drv c act views hs = (Some (res, False), h, rt) \<Longrightarrow> \<exists>e. res = Inl e"
  by (auto simp: withDrainedBackend_def dest: drain_loop_false split: option.splits sum.splits prod.splits if_splits)

lemma withDrainedBackend_run:
  "withDrainedBackend cfg lk drv c act views (h0, rt0) = (Some (res, True), h, rt) \<Longrightarrow>
    fenceRetirement cfg drv c rt0 = (Inr (), rt) \<and> act = Some res"
  by (auto simp: withDrainedBackend_def dest: drain_loop_true split: option.splits sum.splits prod.splits if_splits)

lemma retire_actionD:
  assumes "retire_action cfg env a db g = (Inr r, db', g')" and "pool_inv cfg db"
  shows "gate_retired (a_OperationID a) g' \<and> r_State r = RetiredSlot
       \<and> (\<exists>ob. r_Retirement r = Some ob \<and> ro_Assignment ob = r_Assignment r \<and> retirement_proven ob)"
proof -
  obtain st where st: "retireSystemd (rr_stop env) a g = (Inr st, g')"
    and rc: "reconcileRetirement cfg ((rr_retire env)\<lparr>re_reader := Some (drainedHostReader (rr_observe env) g')\<rparr>)
        (a_OperationID a) db = (Inr r, db')"
    using assms(1) by (auto simp: retire_action_def split: sum.splits prod.splits)
  from retireSystemdD [OF st] reconcileRetirement_proven [OF assms(2) rc] show ?thesis by blast
qed

lemma beginRetirement_inv: "pool_inv cfg db \<Longrightarrow> pool_inv cfg (snd (beginRetirement drv k db))"
  by (auto simp: beginRetirement_def intro: with_tx_invariant dest: begin_retirement_inv)

lemma pool_lookup_Inr: "pool_lookup drv k db = Inr r \<Longrightarrow> find_reservation k db = Some r"
  by (auto simp: pool_lookup_def readReservation_Inr split: if_splits option.splits)

text \<open>
  \<open>RetireRoutedNode\<close> returns a reservation in two ways: the reservation was retired already,
  or its action ran behind the retirement fence of the router.
\<close>

lemma retireRoutedNodeD:
  assumes "retireRoutedNode pcfg rcfg env c w = (Some (Inr r), w')"
  shows "(find_reservation (c_OperationID c) (w_pool w) = Some r \<and> r_State r = RetiredSlot \<and> w' = w)
    \<or> (\<exists>current db. find_reservation (c_OperationID c) (w_pool w) = Some current
        \<and> db = snd (beginRetirement (rr_drv_begin env) (c_OperationID c) (w_pool w))
        \<and> retire_action pcfg env (r_Assignment current) db (w_gate w) = (Inr r, w_pool w', w_gate w')
        \<and> fenceRetirement rcfg (rr_drv_fence env) c (w_route w) = (Inr (), w_route w'))"
proof -
  obtain current where cur: "pool_lookup (rr_drv_lookup env) (c_OperationID c) (w_pool w) = Inr current"
    using assms by (auto simp: retireRoutedNode_def split: sum.splits)
  show ?thesis
  proof (cases "r_State current = RetiredSlot")
    case True
    with assms cur show ?thesis
      by (auto simp: retireRoutedNode_def Let_def dest: pool_lookup_Inr split: sum.splits if_splits)
  next
    case False
    obtain q db where b: "beginRetirement (rr_drv_begin env) (c_OperationID c) (w_pool w) = (Inr q, db)"
      using assms cur False
      by (auto simp: retireRoutedNode_def Let_def split: sum.splits if_splits prod.splits)
    obtain ra db' g' where act: "retire_action pcfg env (r_Assignment current) db (w_gate w) = (ra, db', g')"
      by (metis prod.exhaust)
    let ?res = "case ra of Inl e \<Rightarrow> Inl e | Inr _ \<Rightarrow> Inr ()"
    obtain out h rt where wd: "withDrainedBackend rcfg (rr_lock env) (rr_drv_fence env) c (Some ?res) (rr_views env)
        (w_handle w, w_route w) = (out, h, rt)"
      by (metis prod.exhaust)
    have step: "(case out of None \<Rightarrow> (None, w\<lparr>w_pool := db, w_handle := h, w_route := rt\<rparr>)
       | Some (res, False) \<Rightarrow> (Some (case res of Inl e \<Rightarrow> Inl e | Inr _ \<Rightarrow> Inr q),
            w\<lparr>w_pool := db, w_handle := h, w_route := rt\<rparr>)
       | Some (res, True) \<Rightarrow> (Some ra, w\<lparr>w_pool := db', w_gate := g', w_handle := h, w_route := rt\<rparr>))
      = (Some (Inr r), w')"
      using assms cur False b act wd
      by (auto simp: retireRoutedNode_def Let_def split: sum.splits if_splits)
    obtain res ran where res: "out = Some (res, ran)"
      using step by (auto split: option.splits)
    have ran
    proof (rule ccontr)
      assume "\<not> ran"
      moreover from this wd res obtain e where "res = Inl e"
        using withDrainedBackend_not_run by (metis (full_types))
      ultimately show False using step res by simp
    qed
    with res have out: "out = Some (res, True)" by simp
    from step out have "ra = Inr r" "w' = w\<lparr>w_pool := db', w_gate := g', w_handle := h, w_route := rt\<rparr>"
      by simp_all
    moreover have "fenceRetirement rcfg (rr_drv_fence env) c (w_route w) = (Inr (), rt)"
      using withDrainedBackend_run wd out by blast
    ultimately show ?thesis
      using b act pool_lookup_Inr [OF cur] by (intro disjI2) auto
  qed
qed

section \<open>Properties\<close>

text \<open>
  A retired operation is fenced on the host. Once the gate has recorded the retirement of
  an operation, whatever calls follow and whatever fails in them, no installer and no start
  of that operation is ever dispatched again.
\<close>

theorem retired_gate_dispatches_nothing:
  assumes "gate_begin (env, a, GRetire) g = (Inr (), g')" and "kind \<noteq> GRetire"
    and "a_OperationID b = a_OperationID a"
  shows "\<exists>e. fst (gate_begin (env', b, kind) (run_ops gate_begin is g')) = Inl e"
  using assms(2,3) gate_begin_records(1) [OF assms(1) refl]
  by (intro fenced.run_blocked [where k = "a_OperationID a"]) simp_all

text \<open>
  The service start of an operation is dispatched at most once, and only after its
  installation was attempted. A second start is refused after every later history of gate
  calls, also when the first action failed.
\<close>

theorem start_dispatched_at_most_once:
  assumes "gate_begin (env, a, GStart) g = (Inr (), g')" and "a_OperationID b = a_OperationID a"
  shows "gate_installed (a_OperationID a) g
       \<and> (\<exists>e. fst (gate_begin (env', b, GStart) (run_ops gate_begin is g')) = Inl e)"
proof -
  have "gate_started (a_OperationID a) g'" "gate_installed (a_OperationID a) g"
    using gate_begin_records(2) [OF assms(1) refl] by simp_all
  then show ?thesis using assms(2) start.run_blocked by fastforce
qed

text \<open>
  The installer of an operation is dispatched at most once, whatever the first dispatch
  returned and whatever calls of the gate follow it.
\<close>

theorem install_dispatched_at_most_once:
  assumes "gate_begin (env, a, GInstall) g = (Inr (), g')" and "a_OperationID b = a_OperationID a"
  shows "\<exists>e. fst (gate_begin (env', b, GInstall) (run_ops gate_begin is g')) = Inl e"
  using assms(2) gate_begin_records(3) [OF assms(1) refl]
  by (intro install.run_blocked [where k = "a_OperationID a"]) simp_all

text \<open>
  \<open>StartInstalledSystemd\<close> starts only what was installed for the slot. When it returns nil
  the ledger holds a reservation in state starting for exactly this assignment, whose receipt
  has the manifest found on disk a moment before, the slot's account has no foreign group,
  and the gate has recorded the start.
\<close>

theorem started_service_is_installed_release:
  assumes "startInstalledSystemd env a db g = (Inr (), g')"
  shows "\<exists>r receipt ob uid groups. find_reservation (a_OperationID a) db = Some r \<and> r_Assignment r = a
       \<and> r_State r = Starting \<and> r_Installed r = Some receipt \<and> ir_Assignment receipt = a
       \<and> se_observed env = Inr ob \<and> ir_Manifest ob = ir_Manifest receipt
       \<and> se_account env = Some (uid, uid) \<and> se_groups env = Some groups \<and> set groups \<subseteq> {uid}
       \<and> gate_started (a_OperationID a) g'"
proof -
  obtain r receipt where r: "pool_lookup (se_drv env) (a_OperationID a) db = Inr r"
    "r_Assignment r = a" "r_State r = Starting" "r_Installed r = Some receipt" "ir_Assignment receipt = a"
    and run: "gate_run (se_gate env) a GStart (Some (start_action env receipt)) g = (Inr (), g')"
    using assms by (auto simp: startInstalledSystemd_def split: if_splits sum.splits option.splits)
  from gate_runD [OF run] have "start_action env receipt = Inr ()" and "gate_started (a_OperationID a) g'"
    using gate_begin_records(2) by auto
  with r pool_lookup_Inr [OF r(1)] show ?thesis
    by (auto simp: start_action_def list_all_iff split: sum.splits if_splits option.splits)
qed

text \<open>
  The reader that asserts a retirement has looked at everything it asserts: its
  observation is complete evidence for the asked assignment, the gate refuses starts, the
  unit is masked and stopped, and the kernel shows no process, cgroup member or listener.
\<close>

theorem drained_observation_is_grounded:
  assumes "drainedHostReader env g a = Inr ob"
  shows "retirement_proven ob \<and> ro_Assignment ob = a \<and> ro_ObservedAt ob = oh_now env
       \<and> gate_retired (a_OperationID a) g
       \<and> (\<exists>state. inspectSystemd (oh_host env) (oh_output env) (oh_output_ctx env) a = Inr state
            \<and> unitStopped state \<and> sd_LoadState state = ''masked'' \<and> sd_UnitFileState state = ''masked'')
       \<and> (\<exists>usage. inspectRuntimeUsage (oh_host env) a = Inr usage \<and> \<not> us_UIDProcessesPresent usage
            \<and> \<not> us_CgroupPopulated usage \<and> \<not> us_TCPListenerPresent usage)"
  using assms
  by (auto simp: drainedHostReader_def gate_inspect_def gate_read_def gate_retired_def retirement_proven_def
      split: sum.splits if_splits option.splits read_end.splits)

text \<open>
  C1: A routed retirement is complete. When \<open>RetireRoutedNode\<close> returns a reservation, that
  reservation is retired on complete evidence, and unless it was retired before the call the
  router has a tombstone for the operation, so that it can never be routed again, and the
  host gate refuses every further install and start.
\<close>

theorem routed_retirement_is_complete:
  assumes "pool_inv pcfg (w_pool w)" and "retireRoutedNode pcfg rcfg env c w = (Some (Inr r), w')"
  shows "r_State r = RetiredSlot
       \<and> (\<exists>ob. r_Retirement r = Some ob \<and> ro_Assignment ob = r_Assignment r \<and> retirement_proven ob)
       \<and> (w' = w \<and> find_reservation (c_OperationID c) (w_pool w) = Some r
          \<or> op_retired (c_OperationID c) (w_route w') \<and> gate_retired (c_OperationID c) (w_gate w'))"
  using retireRoutedNodeD [OF assms(2)]
proof (elim disjE exE conjE)
  assume "find_reservation (c_OperationID c) (w_pool w) = Some r" "r_State r = RetiredSlot" "w' = w"
  with find_row_ok [OF assms(1), of "c_OperationID c" r] show ?thesis
    by (auto simp: row_ok_def split: option.splits)
next
  fix current db
  assume cur: "find_reservation (c_OperationID c) (w_pool w) = Some current"
    and db: "db = snd (beginRetirement (rr_drv_begin env) (c_OperationID c) (w_pool w))"
    and act: "retire_action pcfg env (r_Assignment current) db (w_gate w) = (Inr r, w_pool w', w_gate w')"
    and fence: "fenceRetirement rcfg (rr_drv_fence env) c (w_route w) = (Inr (), w_route w')"
  have "pool_inv pcfg db" using assms(1) db beginRetirement_inv by blast
  from retire_actionD [OF act this] fenceRetirement_retires [OF fence] find_operation [OF cur] show ?thesis
    by auto
qed

section \<open>Concrete instances\<close>

definition gx_env :: gate_env where
  "gx_env = \<lparr>ge_lock = None, ge_ctx_locked = False, ge_read = ReadOk, ge_write = Written,
     ge_ctx_written = False, ge_ctx_done = False\<rparr>"

abbreviation gx_a :: assignment where
  "gx_a \<equiv> px_assignment 60001 3001"

definition gx_gate :: "control_state \<Rightarrow> gate" where
  "gx_gate st = [px_id CHR ''c'' \<mapsto> st]"

definition gx_installed :: control_state where
  "gx_installed = (new_control_state gx_a)\<lparr>cs_InstallationAttempted := True\<rparr>"

lemma gx_lock [simp]: "gate_lock gx_env gx_a = Inr ()"
  using px_render by (auto simp: gate_lock_def gx_env_def)

lemma gx_load:
  "gate_load gx_env gx_a Map.empty = Inr (new_control_state gx_a)"
  "gate_load gx_env gx_a (gx_gate gx_installed) = Inr gx_installed"
  by (simp_all add: gate_load_def gate_read_def gx_env_def gx_gate_def gx_installed_def new_control_state_def)

lemma gx_begin:
  "gate_begin (gx_env, gx_a, GInstall) Map.empty = (Inr (), gx_gate gx_installed)"
  "gate_begin (gx_env, gx_a, GStart) (gx_gate gx_installed) = (Inr (), gx_gate (gx_installed\<lparr>cs_StartAttempted := True\<rparr>))"
  "gate_begin (gx_env, gx_a, GRetire) (gx_gate gx_installed) = (Inr (), gx_gate (gx_installed\<lparr>cs_Retired := True\<rparr>))"
  by (simp_all add: gate_begin_def gx_load gate_write_def)
    (simp_all add: gx_env_def gx_gate_def gx_installed_def new_control_state_def)

theorem retired_gate_dispatches_nothing_witness:
  "\<exists>e. fst (gate_begin (gx_env, gx_a, GStart)
     (run_ops gate_begin [(gx_env, gx_a, GRetire)] (gx_gate (gx_installed\<lparr>cs_Retired := True\<rparr>)))) = Inl e"
  using retired_gate_dispatches_nothing [OF gx_begin(3)] by blast

theorem start_dispatched_at_most_once_witness:
  "gate_installed (px_id CHR ''c'') (gx_gate gx_installed)
   \<and> (\<exists>e. fst (gate_begin (gx_env, gx_a, GStart)
        (run_ops gate_begin [] (gx_gate (gx_installed\<lparr>cs_StartAttempted := True\<rparr>)))) = Inl e)"
  using start_dispatched_at_most_once [OF gx_begin(2) refl, of gx_env "[]"] by simp

theorem install_dispatched_at_most_once_witness:
  "\<exists>e. fst (gate_begin (gx_env, gx_a, GInstall)
     (run_ops gate_begin [(gx_env, gx_a, GStart)] (gx_gate gx_installed))) = Inl e"
  using install_dispatched_at_most_once [OF gx_begin(1) refl] by blast

definition gx_start :: start_env where
  "gx_start = \<lparr>se_host = hx_host, se_drv = None, se_gate = gx_env, se_observed = Inr px_receipt,
     se_account = Some (''60001'', ''60001''), se_groups = Some [''60001''], se_unit = Inr (), se_reload = Inr (),
     se_start = Inr ()\<rparr>"

lemma gx_a_simps [simp]:
  "a_Architecture (px_assignment u p) = ''arm64''" "a_UID (px_assignment u p) = u" "a_Port (px_assignment u p) = p"
  "a_ProjectID (px_assignment u p) = px_id CHR ''a''" "a_RuntimeID (px_assignment u p) = px_id CHR ''b''"
  "a_ArtifactSHA256 (px_assignment u p) = px_id CHR ''d''"
  by (simp_all add: px_assignment_def)

lemma gx_done [simp]: "ge_ctx_done gx_env = False" "ge_ctx_locked gx_env = False" "ge_read gx_env = ReadOk"
  by (simp_all add: gx_env_def)

lemma gx_started:
  "startInstalledSystemd gx_start gx_a (px_db [px_installed_row\<lparr>r_State := Starting\<rparr>]) (gx_gate gx_installed)
   = (Inr (), gx_gate (gx_installed\<lparr>cs_StartAttempted := True\<rparr>))"
proof -
  obtain s where "render gx_a = Inr s" using px_render by blast
  then show ?thesis
    by (simp add: startInstalledSystemd_def gx_start_def hx_host_def pool_lookup_def
        readReservation_def px_installed_row_def px_receipt_def gate_run_def start_action_def gx_begin)
qed

theorem started_service_is_installed_release_witness:
  "gate_started (px_id CHR ''c'') (gx_gate (gx_installed\<lparr>cs_StartAttempted := True\<rparr>))"
  using started_service_is_installed_release [OF gx_started] by auto

definition gx_retired :: gate where
  "gx_retired = gx_gate (gx_installed\<lparr>cs_Retired := True\<rparr>)"

definition gx_observe :: observe_host where
  "gx_observe = \<lparr>oh_gate = gx_env, oh_host = hx_host, oh_output = Inr (systemd_output hx_state),
     oh_output_ctx = False, oh_now = 12\<rparr>"

lemma gx_reader: "drainedHostReader gx_observe gx_retired gx_a = Inr px_observation"
  by (simp add: drainedHostReader_def gate_inspect_def gate_read_def gx_observe_def gx_retired_def gx_gate_def
      hx_inspectSystemd hx_inspect)
    (simp add: gx_installed_def new_control_state_def hx_state_def hx_usage_def unitStopped_def px_observation_def)

theorem drained_observation_is_grounded_witness: "retirement_proven px_observation \<and> gate_retired (px_id CHR ''c'') gx_retired"
  using drained_observation_is_grounded [OF gx_reader] by simp

definition gx_candidate :: candidate where
  "gx_candidate = \<lparr>c_ProjectID = px_id CHR ''a'', c_RuntimeID = px_id CHR ''b'', c_DeploymentID = px_id CHR ''c'',
     c_OperationID = px_id CHR ''c'', c_Revision = 1, c_ArtifactSHA256 = px_id CHR ''d'', c_Backend = ''blue''\<rparr>"

definition gx_route :: route_db where
  "gx_route = ex_db\<lparr>rd_retired := [px_id CHR ''c'' \<mapsto> gx_candidate]\<rparr>"

definition gx_stop :: stop_env where
  "gx_stop = \<lparr>st_host = hx_host, st_gate = gx_env, st_mask = Inr (), st_sync = Inr (), st_stop = Inr (),
     st_output = Inr (systemd_output hx_state), st_output_ctx = False, st_link = Inr ''/dev/null''\<rparr>"

definition gx_routed :: retire_routed_env where
  "gx_routed = \<lparr>rr_lib = ex_lib, rr_drv_lookup = None, rr_euid_root = True, rr_namespaces = [(Inr ''n'', Inr ''n'')],
     rr_drv_begin = None, rr_lock = LockTaken, rr_drv_fence = None,
     rr_views = [\<lparr>dv_ctx_over = False, dv_busy = False, dv_ctx_over_waiting = False, dv_drv = None,
        dv_db = gx_route, dv_busy_again = False, dv_ctx_over_again = False\<rparr>],
     rr_stop = gx_stop, rr_observe = gx_observe, rr_retire = px_retire_env\<rparr>"

definition gx_world :: node_world where
  "gx_world = \<lparr>w_pool = px_db [px_row], w_gate = gx_gate gx_installed, w_route = ex_db, w_handle = new_handle\<rparr>"

definition gx_world' :: node_world where
  "gx_world' = \<lparr>w_pool = px_db [px_retired_row], w_gate = gx_retired, w_route = gx_route, w_handle = new_handle\<lparr>owner := True\<rparr>\<rparr>"

lemma gx_retire_action:
  "retire_action px_config gx_routed gx_a (px_db [px_row\<lparr>r_State := Retiring\<rparr>]) (gx_gate gx_installed)
   = (Inr px_retired_row, px_db [px_retired_row], gx_retired)"
proof -
  obtain s where s: "render gx_a = Inr s" using px_render by blast
  have "stop_action gx_stop gx_a = Inr hx_state"
    by (simp add: stop_action_def gx_stop_def hx_inspectSystemd) (simp add: hx_state_def unitStopped_def)
  with s have "retireSystemd gx_stop gx_a (gx_gate gx_installed) = (Inr hx_state, gx_retired)"
    by (simp add: retireSystemd_def gate_run_def gx_begin gx_retired_def)
      (simp add: gx_stop_def hx_host_def gx_begin)
  then show ?thesis
    by (simp add: retire_action_def gx_routed_def reconcileRetirement_def pool_lookup_def readReservation_def
        px_retire_env_def gx_reader with_tx_def reconcile_retirement_tx_def px_update px_retired_row_def)
      (simp add: px_observation_def retirement_proven_def with_tx_def reconcile_retirement_tx_def readReservation_def px_update)
qed

lemma px_id_not_Nil [simp]: "[] \<noteq> px_id ch" "px_id ch \<noteq> []"
  by (simp_all add: px_id_def)

lemma gx_fence:
  "fenceRetirement ex_config None gx_candidate ex_db = (Inr (), gx_route)"
  "validCandidate ex_config gx_candidate"
  by (simp_all add: fenceRetirement_def validCandidate_def gx_candidate_def ex_config_def ex_id_def px_id_def [symmetric]
      fence_retirement_tx_def with_tx_def gx_route_def guard_defs ex_route_defs Let_def)

lemma gx_retire:
  "retireRoutedNode px_config ex_config gx_routed gx_candidate gx_world = (Some (Inr px_retired_row), gx_world')"
proof -
  have c: "c_OperationID gx_candidate = px_id CHR ''c''" "c_ProjectID gx_candidate = px_id CHR ''a''"
    "c_RuntimeID gx_candidate = px_id CHR ''b''" "c_ArtifactSHA256 gx_candidate = px_id CHR ''d''"
    "c_Backend gx_candidate = ''blue''"
    by (simp_all add: gx_candidate_def)
  have port: "backendPort ex_lib ex_config gx_candidate = Inr 3001"
    using gx_fence(2) by (simp add: backendPort_def c ex_config_def ex_lib_def ex_url_def ex_atoi)
  have look: "pool_lookup None (px_id CHR ''c'') (px_db [px_row]) = Inr px_row"
    by (simp add: pool_lookup_def readReservation_def)
  have begin_: "beginRetirement None (px_id CHR ''c'') (px_db [px_row])
      = (Inr (px_row\<lparr>r_State := Retiring\<rparr>), px_db [px_row\<lparr>r_State := Retiring\<rparr>])"
    by (simp add: beginRetirement_def with_tx_def begin_retirement_tx_def readReservation_def px_update)
  have drain: "drain_loop gx_candidate act (rr_views gx_routed) = Some (act, True)" for act
    by (simp add: gx_routed_def drain_turn_def drain_guard_def gx_route_def c guard_defs ex_route_defs drain_conflict_def)
  have up: "beginUpstream LockTaken new_handle = Inr (new_handle\<lparr>owner := True, upstreams := 1\<rparr>)"
    "endUpstream (new_handle\<lparr>owner := True, upstreams := 1\<rparr>) = new_handle\<lparr>owner := True\<rparr>"
    by (simp_all add: beginUpstream_def new_handle_def endUpstream_def releaseOwnerLocked_def)
  have wd: "withDrainedBackend ex_config LockTaken None gx_candidate (Some act) (rr_views gx_routed) (new_handle, ex_db)
      = (Some (act, True), new_handle\<lparr>owner := True\<rparr>, gx_route)" for act
    by (simp add: withDrainedBackend_def gx_fence up drain)
  show ?thesis
    using gx_retire_action
    by (simp add: retireRoutedNode_def gx_world_def gx_world'_def c port look begin_ wd hostNamespaces_def
        gx_routed_def [THEN arg_cong, of rr_lib] gx_routed_def [THEN arg_cong, of rr_drv_lookup]
        gx_routed_def [THEN arg_cong, of rr_euid_root] gx_routed_def [THEN arg_cong, of rr_namespaces]
        gx_routed_def [THEN arg_cong, of rr_drv_begin] gx_routed_def [THEN arg_cong, of rr_lock]
        gx_routed_def [THEN arg_cong, of rr_drv_fence] Let_def)
qed

theorem routed_retirement_is_complete_witness:
  "op_retired (px_id CHR ''c'') gx_route \<and> gate_retired (px_id CHR ''c'') gx_retired \<and> retirement_proven px_observation"
  using routed_retirement_is_complete [OF _ gx_retire] px_inv
  by (simp add: gx_world_def gx_world'_def gx_candidate_def px_retired_row_def)
    (auto simp: px_db_def px_row_def new_reservation_def)

end
