(* ===== verification/Node_Inbox.thy ===== *)
theory Node_Inbox
  imports Node_Pool
begin

text \<open>
  \<open>internal/noderuntime/inbox.go\<close>: the durable inbox of one runtime. The portal submits
  deployment requests, the runtime claims them one at a time in the order of their revisions
  and settles them. The request column holds the request without its archive; the columns
  \<open>operation\<close>, \<open>deployment\<close> and \<open>revision\<close> repeat the request's fields.
\<close>

section \<open>State\<close>

record rt_assignment =
  ra_ProjectID :: string
  ra_RuntimeID :: string
  ra_ToolchainSHA256 :: string
  ra_Architecture :: string

record runtime_request =
  rq_OperationID :: string
  rq_DeploymentID :: string
  rq_ProjectID :: string
  rq_RuntimeID :: string
  rq_ReleaseID :: string
  rq_ArtifactSHA256 :: string
  rq_ToolchainSHA256 :: string
  rq_Architecture :: string
  rq_Revision :: int
  rq_ActivateBefore :: int

datatype work_state = WorkQueued | WorkProcessing | WorkSettled

record work =
  wk_Request :: runtime_request
  wk_Archive :: string
  wk_State :: work_state

record inbox_db =
  ib_version :: nat
  ib_config :: "rt_assignment option"
  ib_rows :: "work list"

definition empty_inbox_db :: inbox_db where
  "empty_inbox_db = \<lparr>ib_version = 0, ib_config = None, ib_rows = []\<rparr>"

abbreviation work_op :: "work \<Rightarrow> string" where
  "work_op w \<equiv> rq_OperationID (wk_Request w)"

abbreviation work_rev :: "work \<Rightarrow> int" where
  "work_rev w \<equiv> rq_Revision (wk_Request w)"

abbreviation work_dep :: "work \<Rightarrow> string" where
  "work_dep w \<equiv> rq_DeploymentID (wk_Request w)"

section \<open>Open\<close>

definition valid_rt_assignment :: "rt_assignment \<Rightarrow> bool" where
  "valid_rt_assignment a \<longleftrightarrow>
     digestID (ra_ProjectID a) \<and> digestID (ra_RuntimeID a) \<and> digestID (ra_ToolchainSHA256 a)
     \<and> (ra_Architecture a = ''arm64'' \<or> ra_Architecture a = ''amd64'')"

definition inbox_initialize :: "rt_assignment \<Rightarrow> inbox_db \<Rightarrow> unit result \<times> inbox_db" where
  "inbox_initialize a db =
     (if ib_version db > 1 then (Inl Inbox_ErrAssignment, db)
      else
        let db1 = (if ib_version db = 0 then db\<lparr>ib_version := 1\<rparr> else db)
        in case ib_config db1 of
             None \<Rightarrow> (Inr (), db1\<lparr>ib_config := Some a\<rparr>)
           | Some previous \<Rightarrow> if a \<noteq> previous then (Inl Inbox_ErrAssignment, db) else (Inr (), db1))"

definition openInbox :: "fs_view \<Rightarrow> driver \<Rightarrow> rt_assignment \<Rightarrow> inbox_db \<Rightarrow> unit result \<times> inbox_db" where
  "openInbox fs drv a db =
     (if \<not> valid_rt_assignment a then (Inl Inbox_ErrAssignment, db)
      else case prepare_private_file Inbox_ErrAssignment fs of
        Inl e \<Rightarrow> (Inl e, db)
      | Inr _ \<Rightarrow> with_tx drv (inbox_initialize a) db)"

section \<open>SubmitNodeRuntime\<close>

definition request_ok :: "rt_assignment \<Rightarrow> runtime_request \<Rightarrow> bool" where
  "request_ok a r \<longleftrightarrow>
     rq_ProjectID r = ra_ProjectID a \<and> rq_RuntimeID r = ra_RuntimeID a
     \<and> rq_ToolchainSHA256 r = ra_ToolchainSHA256 a \<and> rq_Architecture r = ra_Architecture a
     \<and> digestID (rq_OperationID r) \<and> digestID (rq_DeploymentID r) \<and> digestID (rq_ReleaseID r)
     \<and> digestID (rq_ArtifactSHA256 r) \<and> 1 \<le> rq_Revision r"

definition max_revision :: "work list \<Rightarrow> int" where
  "max_revision rows = fold (\<lambda>w m. max (work_rev w) m) rows 0"

definition archive_bytes :: "work list \<Rightarrow> int" where
  "archive_bytes rows = sum_list (map (\<lambda>w. int (length (wk_Archive w))) rows)"

text \<open>
  The transaction of a submission; the clock is read twice. The \<open>INSERT\<close> respects the primary
  key and the two unique columns.
\<close>

definition submit_tx ::
  "int \<Rightarrow> int \<Rightarrow> runtime_request \<Rightarrow> string \<Rightarrow> inbox_db \<Rightarrow> unit result \<times> inbox_db" where
  "submit_tx now1 now2 r archive db =
     (case get_row work_op (rq_OperationID r) (ib_rows db) of
        Some w \<Rightarrow> if r \<noteq> wk_Request w then (Inl Inbox_ErrConflict, db) else (Inr (), db)
      | None \<Rightarrow>
          if rq_ActivateBefore r \<le> now1 \<or> rq_ActivateBefore r > now2 + 90 then (Inl Inbox_ErrAssignment, db)
          else if rq_Revision r \<le> max_revision (ib_rows db) then (Inl Inbox_ErrConflict, db)
          else if length (ib_rows db) \<ge> 1000
                  \<or> archive_bytes (ib_rows db) + int (length archive) > 209715200
          then (Inl Inbox_ErrCapacity, db)
          else if list_ex (\<lambda>w. work_dep w = rq_DeploymentID r) (ib_rows db) then (Inl Inbox_ErrConflict, db)
          else if list_ex (\<lambda>w. work_rev w = rq_Revision r) (ib_rows db) then (Inl ErrDriver, db)
          else (Inr (), db\<lparr>ib_rows := ib_rows db @ [\<lparr>wk_Request = r, wk_Archive = archive, wk_State = WorkQueued\<rparr>]\<rparr>))"

text \<open>\<open>validate\<close> is \<open>nodeartifact.Validate\<close> on the archive and the expected digest.\<close>

type_synonym validator = "string \<Rightarrow> string \<Rightarrow> manifest result"

definition submitNodeRuntime ::
  "validator \<Rightarrow> rt_assignment \<Rightarrow> driver \<Rightarrow> int \<Rightarrow> int \<Rightarrow> runtime_request \<Rightarrow> string \<Rightarrow> inbox_db
    \<Rightarrow> unit result \<times> inbox_db" where
  "submitNodeRuntime validate a drv now1 now2 r archive db =
     (if \<not> request_ok a r then (Inl Inbox_ErrAssignment, db)
      else case validate archive (rq_ArtifactSHA256 r) of
        Inl e \<Rightarrow> (Inl e, db)
      | Inr _ \<Rightarrow> with_tx drv (submit_tx now1 now2 r archive) db)"

section \<open>Lookup, Claim, Settle, Processing\<close>

definition inbox_lookup :: "driver \<Rightarrow> string \<Rightarrow> inbox_db \<Rightarrow> work result" where
  "inbox_lookup drv operation db =
     (if \<not> digestID operation then Inl Inbox_ErrAssignment
      else case drv of
        Some e \<Rightarrow> Inl e
      | None \<Rightarrow> (case get_row work_op operation (ib_rows db) of None \<Rightarrow> Inl ErrNoRows | Some w \<Rightarrow> Inr w))"

text \<open>\<open>ORDER BY revision LIMIT 1\<close> over the queued rows.\<close>

fun min_revision :: "work list \<Rightarrow> work option" where
  "min_revision [] = None"
| "min_revision (w # ws) =
     (case min_revision ws of
        None \<Rightarrow> Some w
      | Some v \<Rightarrow> if work_rev w \<le> work_rev v then Some w else Some v)"

definition set_state :: "work_state \<Rightarrow> work \<Rightarrow> work" where
  "set_state st w = w\<lparr>wk_State := st\<rparr>"

definition claim_tx :: "validator \<Rightarrow> inbox_db \<Rightarrow> work option result \<times> inbox_db" where
  "claim_tx validate db =
     (if list_ex (\<lambda>w. wk_State w = WorkProcessing) (ib_rows db) then (Inr None, db)
      else case min_revision (filter (\<lambda>w. wk_State w = WorkQueued) (ib_rows db)) of
        None \<Rightarrow> (Inr None, db)
      | Some w \<Rightarrow>
          (case validate (wk_Archive w) (rq_ArtifactSHA256 (wk_Request w)) of
             Inl e \<Rightarrow> (Inl e, db)
           | Inr _ \<Rightarrow>
               (Inr (Some (set_state WorkProcessing w)),
                db\<lparr>ib_rows := upd_row work_op (work_op w) (set_state WorkProcessing) (ib_rows db)\<rparr>)))"

definition claim :: "validator \<Rightarrow> driver \<Rightarrow> inbox_db \<Rightarrow> work option result \<times> inbox_db" where
  "claim validate drv db = with_tx drv (claim_tx validate) db"

text \<open>
  \<open>Settle\<close> is one statement; the operation is the primary key, so it changes one row or none.
\<close>

definition settle_tx :: "string \<Rightarrow> inbox_db \<Rightarrow> unit result \<times> inbox_db" where
  "settle_tx operation db =
     (if length (filter (\<lambda>w. work_op w = operation \<and> wk_State w \<noteq> WorkQueued) (ib_rows db)) \<noteq> 1
      then (Inl Inbox_ErrConflict, db)
      else (Inr (), db\<lparr>ib_rows := map (\<lambda>w. if work_op w = operation \<and> wk_State w \<noteq> WorkQueued
                                         then set_state WorkSettled w else w) (ib_rows db)\<rparr>))"

definition settle :: "driver \<Rightarrow> string \<Rightarrow> inbox_db \<Rightarrow> unit result \<times> inbox_db" where
  "settle drv operation db =
     (if \<not> digestID operation then (Inl Inbox_ErrAssignment, db) else with_tx drv (settle_tx operation) db)"

definition processing :: "driver \<Rightarrow> inbox_db \<Rightarrow> work option result" where
  "processing drv db =
     (case drv of
        Some e \<Rightarrow> Inl e
      | None \<Rightarrow> Inr (List.find (\<lambda>w. wk_State w = WorkProcessing) (ib_rows db)))"

section \<open>Histories\<close>

datatype inbox_op =
    ISubmit int int runtime_request string
  | IClaim
  | ISettle string

fun inbox_exec ::
  "validator \<Rightarrow> rt_assignment \<Rightarrow> driver \<times> inbox_op \<Rightarrow> inbox_db \<Rightarrow> work option result \<times> inbox_db" where
  "inbox_exec validate a (drv, ISubmit n1 n2 r archive) db =
     (case submitNodeRuntime validate a drv n1 n2 r archive db of (res, db') \<Rightarrow>
        (case res of Inl e \<Rightarrow> Inl e | Inr _ \<Rightarrow> Inr None, db'))"
| "inbox_exec validate a (drv, IClaim) db = claim validate drv db"
| "inbox_exec validate a (drv, ISettle k) db =
     (case settle drv k db of (res, db') \<Rightarrow> (case res of Inl e \<Rightarrow> Inl e | Inr _ \<Rightarrow> Inr None, db'))"

section \<open>The invariant\<close>

text \<open>
  The rows are in the order of their revisions; the settled ones come first, then at most one
  that is being processed, then the queued ones. Operations and deployments are unique, every
  row was accepted for the inbox's assignment with a valid archive, and the two bounds hold.
\<close>

definition layout :: "work list \<Rightarrow> bool" where
  "layout rows \<longleftrightarrow>
     (\<exists>S P Q. rows = S @ P @ Q \<and> (\<forall>w \<in> set S. wk_State w = WorkSettled)
        \<and> (\<forall>w \<in> set P. wk_State w = WorkProcessing) \<and> length P \<le> 1 \<and> (\<forall>w \<in> set Q. wk_State w = WorkQueued))"

definition inbox_keys_ok :: "work list \<Rightarrow> bool" where
  "inbox_keys_ok rows \<longleftrightarrow>
     sorted_wrt (<) (map work_rev rows) \<and> distinct (map work_op rows) \<and> distinct (map work_dep rows)
     \<and> length rows \<le> 1000 \<and> archive_bytes rows \<le> 209715200"

definition accepted :: "validator \<Rightarrow> rt_assignment \<Rightarrow> work \<Rightarrow> bool" where
  "accepted validate a w \<longleftrightarrow>
     request_ok a (wk_Request w) \<and> (\<exists>m. validate (wk_Archive w) (rq_ArtifactSHA256 (wk_Request w)) = Inr m)"

definition inbox_inv :: "validator \<Rightarrow> rt_assignment \<Rightarrow> inbox_db \<Rightarrow> bool" where
  "inbox_inv validate a db \<longleftrightarrow>
     layout (ib_rows db) \<and> inbox_keys_ok (ib_rows db) \<and> list_all (accepted validate a) (ib_rows db)"

lemma max_revision_bound: "w \<in> set rows \<Longrightarrow> work_rev w \<le> max_revision rows"
proof -
  have mono: "m \<le> fold (\<lambda>w m. max (work_rev w) m) rows m" for m rows
    by (induction rows arbitrary: m) (auto intro: order_trans [OF max.cobounded2])
  have "w \<in> set rows \<Longrightarrow> work_rev w \<le> fold (\<lambda>w m. max (work_rev w) m) rows m" for m
    by (induction rows arbitrary: m) (auto intro: order_trans [OF _ mono])
  then show "w \<in> set rows \<Longrightarrow> work_rev w \<le> max_revision rows"
    by (simp add: max_revision_def)
qed

text \<open>Changing only the state of rows changes none of the keys.\<close>

lemma set_state_simps [simp]:
  "wk_Request (set_state st w) = wk_Request w" "wk_Archive (set_state st w) = wk_Archive w"
  "wk_State (set_state st w) = st"
  by (simp_all add: set_state_def)

lemma map_state_keys:
  assumes "\<And>w. w \<in> set rows \<Longrightarrow> wk_Request (f w) = wk_Request w \<and> wk_Archive (f w) = wk_Archive w"
  shows "inbox_keys_ok (map f rows) = inbox_keys_ok rows"
    and "list_all (accepted validate a) (map f rows) = list_all (accepted validate a) rows"
proof -
  have "map work_rev (map f rows) = map work_rev rows" "map work_op (map f rows) = map work_op rows"
    "map work_dep (map f rows) = map work_dep rows" "archive_bytes (map f rows) = archive_bytes rows"
    using assms by (auto simp: archive_bytes_def intro!: arg_cong [where f = sum_list])
  then show "inbox_keys_ok (map f rows) = inbox_keys_ok rows" by (simp only: inbox_keys_ok_def length_map)
  show "list_all (accepted validate a) (map f rows) = list_all (accepted validate a) rows"
    using assms by (auto simp: list_all_iff accepted_def)
qed

lemma layout_append: "layout rows \<Longrightarrow> wk_State w = WorkQueued \<Longrightarrow> layout (rows @ [w])"
proof -
  assume "layout rows" and w: "wk_State w = WorkQueued"
  then obtain S P Q where l: "rows = S @ P @ Q" "\<forall>w \<in> set S. wk_State w = WorkSettled"
    "\<forall>w \<in> set P. wk_State w = WorkProcessing" "length P \<le> 1" "\<forall>w \<in> set Q. wk_State w = WorkQueued"
    by (auto simp: layout_def)
  show ?thesis
    unfolding layout_def using l w by (intro exI [of _ S] exI [of _ P] exI [of _ "Q @ [w]"]) simp
qed

lemma submit_txD:
  "submit_tx n1 n2 r archive db = (Inr u, db') \<Longrightarrow>
    (\<exists>w. get_row work_op (rq_OperationID r) (ib_rows db) = Some w \<and> wk_Request w = r \<and> db' = db)
    \<or> (get_row work_op (rq_OperationID r) (ib_rows db) = None \<and> max_revision (ib_rows db) < rq_Revision r
       \<and> length (ib_rows db) < 1000 \<and> archive_bytes (ib_rows db) + int (length archive) \<le> 209715200
       \<and> rq_DeploymentID r \<notin> work_dep ` set (ib_rows db)
       \<and> db' = db\<lparr>ib_rows := ib_rows db @ [\<lparr>wk_Request = r, wk_Archive = archive, wk_State = WorkQueued\<rparr>]\<rparr>)"
  by (auto simp: submit_tx_def list_ex_iff split: option.splits if_splits)

lemma submit_inv:
  assumes "inbox_inv validate a db" and "request_ok a r" and "validate archive (rq_ArtifactSHA256 r) = Inr m"
    and "submit_tx n1 n2 r archive db = (Inr u, db')"
  shows "inbox_inv validate a db'"
  using submit_txD [OF assms(4)]
proof (elim disjE exE conjE)
  assume "db' = db"
  with assms(1) show ?thesis by simp
next
  let ?w = "\<lparr>wk_Request = r, wk_Archive = archive, wk_State = WorkQueued\<rparr>"
  assume "get_row work_op (rq_OperationID r) (ib_rows db) = None" "max_revision (ib_rows db) < rq_Revision r"
    "length (ib_rows db) < 1000" "archive_bytes (ib_rows db) + int (length archive) \<le> 209715200"
    "rq_DeploymentID r \<notin> work_dep ` set (ib_rows db)" and db': "db' = db\<lparr>ib_rows := ib_rows db @ [?w]\<rparr>"
  then have "inbox_keys_ok (ib_rows db @ [?w])"
    using assms(1) max_revision_bound
    by (fastforce simp: inbox_inv_def inbox_keys_ok_def sorted_wrt_append get_row_None archive_bytes_def)
  moreover have "layout (ib_rows db @ [?w])"
    using assms(1) by (intro layout_append) (simp_all add: inbox_inv_def)
  ultimately show ?thesis
    using assms(1-3) db' by (simp add: inbox_inv_def accepted_def)
qed

lemma min_revision_sorted:
  "sorted_wrt (<) (map work_rev ws) \<Longrightarrow> min_revision ws = (case ws of [] \<Rightarrow> None | w # _ \<Rightarrow> Some w)"
proof (induction ws)
  case Nil
  then show ?case by simp
next
  case (Cons w ws)
  then show ?case by (cases ws) (auto split: option.splits)
qed

lemma filter_layout:
  assumes "\<forall>w \<in> set S. wk_State w = WorkSettled" "\<forall>w \<in> set P. wk_State w = WorkProcessing"
    "\<forall>w \<in> set Q. wk_State w = WorkQueued"
  shows "filter (\<lambda>w. wk_State w = WorkQueued) (S @ P @ Q) = Q"
    and "list_ex (\<lambda>w. wk_State w = WorkProcessing) (S @ P @ Q) \<longleftrightarrow> P \<noteq> []"
  using assms by (auto simp: filter_empty_conv list_ex_iff filter_id_conv) (cases P; simp)

text \<open>A successful claim takes the first queued row, when no row is being processed.\<close>

lemma claim_txD:
  assumes "inbox_inv validate a db" and "claim_tx validate db = (Inr (Some w), db')"
  shows "\<exists>S q Q. ib_rows db = S @ q # Q \<and> w = set_state WorkProcessing q
       \<and> (\<forall>v \<in> set S. wk_State v = WorkSettled) \<and> (\<forall>v \<in> set (q # Q). wk_State v = WorkQueued)
       \<and> ib_rows db' = S @ set_state WorkProcessing q # Q"
proof -
  from assms(1) obtain S P Q where rows: "ib_rows db = S @ P @ Q"
    and st: "\<forall>w \<in> set S. wk_State w = WorkSettled" "\<forall>w \<in> set P. wk_State w = WorkProcessing"
      "\<forall>w \<in> set Q. wk_State w = WorkQueued"
    by (auto simp: inbox_inv_def layout_def)
  have P: "P = []" using assms(2) filter_layout(2) [OF st] rows by (auto simp: claim_tx_def split: if_splits)
  have "sorted_wrt (<) (map work_rev Q)" "distinct (map work_op (S @ Q))"
    using assms(1) rows P by (auto simp: inbox_inv_def inbox_keys_ok_def sorted_wrt_append)
  then have min: "min_revision (filter (\<lambda>w. wk_State w = WorkQueued) (ib_rows db))
      = (case Q of [] \<Rightarrow> None | w # _ \<Rightarrow> Some w)"
    using filter_layout(1) [OF st] rows by (simp add: min_revision_sorted)
  have none: "\<not> list_ex (\<lambda>w. wk_State w = WorkProcessing) (ib_rows db)"
    using filter_layout(2) [OF st] rows P by simp
  obtain q Q' where Q: "Q = q # Q'" and w: "w = set_state WorkProcessing q"
    and db': "ib_rows db' = upd_row work_op (work_op q) (set_state WorkProcessing) (ib_rows db)"
    using assms(2) min none by (auto simp: claim_tx_def split: list.splits sum.splits)
  have "ib_rows db' = S @ set_state WorkProcessing q # Q'"
    using db' rows P Q \<open>distinct (map work_op (S @ Q))\<close>
    by (simp add: upd_row_append upd_row_absent)
  with rows P Q w st show ?thesis by auto
qed

lemma claim_tx_None: "claim_tx validate db = (Inr None, db') \<Longrightarrow> db' = db"
  by (auto simp: claim_tx_def split: if_splits option.splits sum.splits)

lemma claim_inv:
  assumes "inbox_inv validate a db" and "claim_tx validate db = (Inr res, db')"
  shows "inbox_inv validate a db'"
proof (cases res)
  case None
  with assms claim_tx_None show ?thesis by blast
next
  case (Some w)
  with assms(2) obtain S q Q where r: "ib_rows db = S @ q # Q" "ib_rows db' = S @ set_state WorkProcessing q # Q"
    "\<forall>v \<in> set S. wk_State v = WorkSettled" "\<forall>v \<in> set (q # Q). wk_State v = WorkQueued"
    using claim_txD [OF assms(1)] by blast
  have "layout (ib_rows db')"
    unfolding layout_def r(2)
    by (rule exI [of _ S], rule exI [of _ "[set_state WorkProcessing q]"], rule exI [of _ Q]) (use r(3,4) in simp)
  with assms(1) r(1,2) show ?thesis
    by (simp add: inbox_inv_def inbox_keys_ok_def accepted_def sorted_wrt_append archive_bytes_def)
qed

lemma settle_txD:
  "settle_tx k db = (Inr u, db') \<Longrightarrow>
    db' = db\<lparr>ib_rows := map (\<lambda>w. if work_op w = k \<and> wk_State w \<noteq> WorkQueued then set_state WorkSettled w else w) (ib_rows db)\<rparr>
    \<and> (\<exists>w \<in> set (ib_rows db). work_op w = k \<and> wk_State w \<noteq> WorkQueued)"
  by (auto simp: settle_tx_def length_Suc_conv filter_eq_Cons_iff split: if_splits)

lemma layout_settle:
  assumes "layout rows"
  shows "layout (map (\<lambda>w. if work_op w = k \<and> wk_State w \<noteq> WorkQueued then set_state WorkSettled w else w) rows)"
    (is "layout (map ?f rows)")
proof -
  obtain S P Q where l: "rows = S @ P @ Q" "\<forall>w \<in> set S. wk_State w = WorkSettled"
    "\<forall>w \<in> set P. wk_State w = WorkProcessing" "length P \<le> 1" "\<forall>w \<in> set Q. wk_State w = WorkQueued"
    using assms by (auto simp: layout_def)
  have Q: "map ?f Q = Q" using l(5) by (intro map_idI) auto
  show ?thesis
  proof (cases "\<exists>p. P = [p] \<and> work_op p = k")
    case True
    with l Q show ?thesis
      unfolding layout_def by (intro exI [of _ "map ?f (S @ P)"] exI [of _ "[]"] exI [of _ Q]) auto
  next
    case False
    then have "map ?f P = P" using l(4) by (cases P) auto
    with l Q show ?thesis
      unfolding layout_def by (intro exI [of _ "map ?f S"] exI [of _ P] exI [of _ Q]) auto
  qed
qed

lemma settle_inv:
  assumes "inbox_inv validate a db" and "settle_tx k db = (Inr u, db')"
  shows "inbox_inv validate a db'"
proof -
  let ?f = "\<lambda>w. if work_op w = k \<and> wk_State w \<noteq> WorkQueued then set_state WorkSettled w else w"
  have db': "ib_rows db' = map ?f (ib_rows db)" using settle_txD [OF assms(2)] by simp
  have same: "wk_Request (?f w) = wk_Request w \<and> wk_Archive (?f w) = wk_Archive w" for w by simp
  show ?thesis
    using assms(1) layout_settle
    unfolding inbox_inv_def db' map_state_keys [where f = ?f, OF same] by blast
qed

lemma submitNodeRuntime_inv:
  "inbox_inv validate a db \<Longrightarrow> inbox_inv validate a (snd (submitNodeRuntime validate a drv n1 n2 r archive db))"
  by (cases "validate archive (rq_ArtifactSHA256 r)")
    (auto simp: submitNodeRuntime_def intro: with_tx_invariant submit_inv)

lemma inbox_exec_snd [simp]:
  "snd (inbox_exec validate a (drv, ISubmit n1 n2 r archive) db) = snd (submitNodeRuntime validate a drv n1 n2 r archive db)"
  "snd (inbox_exec validate a (drv, ISettle k) db) = snd (settle drv k db)"
  by (simp_all split: prod.splits)

lemma inbox_exec_inv: "inbox_inv validate a db \<Longrightarrow> inbox_inv validate a (snd (inbox_exec validate a i db))"
proof (induction validate a i db rule: inbox_exec.induct)
  case (1 validate a drv n1 n2 r archive db)
  then show ?case by (simp add: submitNodeRuntime_inv del: inbox_exec.simps)
next
  case (2 validate a drv db)
  then show ?case by (auto simp: claim_def intro: with_tx_invariant claim_inv)
next
  case (3 validate a drv k db)
  then have "inbox_inv validate a (snd (settle drv k db))"
    by (auto simp: settle_def intro: with_tx_invariant settle_inv)
  then show ?case by (simp del: inbox_exec.simps)
qed

lemma inbox_exec_error:
  "fst (inbox_exec validate a i db) = Inl e \<Longrightarrow> snd (inbox_exec validate a i db) = db"
  by (induction validate a i db rule: inbox_exec.induct)
    (auto simp: submitNodeRuntime_def claim_def settle_def with_tx_def split: prod.splits sum.splits option.splits)

interpretation inbox: transactional "inbox_exec validate a" "inbox_inv validate a" for validate a
  by unfold_locales (auto intro: inbox_exec_inv inbox_exec_error)

section \<open>What a history keeps\<close>

text \<open>The request is stored under its operation; the work has left the queue.\<close>

definition held :: "runtime_request \<Rightarrow> inbox_db \<Rightarrow> bool" where
  "held r db \<longleftrightarrow> map_option wk_Request (get_row work_op (rq_OperationID r) (ib_rows db)) = Some r"

definition begun :: "runtime_request \<Rightarrow> inbox_db \<Rightarrow> bool" where
  "begun r db \<longleftrightarrow> (\<exists>v \<in> set (ib_rows db). wk_Request v = r \<and> wk_State v \<noteq> WorkQueued)"

text \<open>A change of states that puts nothing back into the queue keeps both.\<close>

lemma state_change_keeps:
  assumes "\<And>w. wk_Request (f w) = wk_Request w" and "\<And>w. wk_State w \<noteq> WorkQueued \<Longrightarrow> wk_State (f w) \<noteq> WorkQueued"
  shows "held q db \<Longrightarrow> held q (db\<lparr>ib_rows := map f (ib_rows db)\<rparr>)"
    and "begun q db \<Longrightarrow> begun q (db\<lparr>ib_rows := map f (ib_rows db)\<rparr>)"
proof -
  have "get_row work_op k (map f (ib_rows db)) = map_option f (get_row work_op k (ib_rows db))" for k
    by (rule get_row_map) (simp add: assms(1))
  then show "held q db \<Longrightarrow> held q (db\<lparr>ib_rows := map f (ib_rows db)\<rparr>)"
    by (auto simp: held_def assms(1))
  show "begun q db \<Longrightarrow> begun q (db\<lparr>ib_rows := map f (ib_rows db)\<rparr>)"
    unfolding begun_def by (force simp: assms)
qed

lemma submit_keeps:
  assumes "submit_tx n1 n2 r archive db = (Inr u, db')"
  shows "held q db \<Longrightarrow> held q db'" and "begun q db \<Longrightarrow> begun q db'" and "held r db'"
  using submit_txD [OF assms] by (auto simp: held_def begun_def get_row_append split: option.splits)

lemma claim_keeps:
  assumes "claim_tx validate db = (Inr res, db')"
  shows "held q db \<Longrightarrow> held q db'" and "begun q db \<Longrightarrow> begun q db'"
proof -
  let ?f = "\<lambda>k w. if work_op w = k then set_state WorkProcessing w else w"
  have f: "wk_Request (?f k w) = wk_Request w" "wk_State w \<noteq> WorkQueued \<Longrightarrow> wk_State (?f k w) \<noteq> WorkQueued" for k w
    by simp_all
  have "db' = db \<or> (\<exists>k. db' = db\<lparr>ib_rows := map (?f k) (ib_rows db)\<rparr>)"
    using assms by (auto simp: claim_tx_def upd_row_def split: if_splits option.splits sum.splits)
  then show "held q db \<Longrightarrow> held q db'" "begun q db \<Longrightarrow> begun q db'"
    using state_change_keeps [of "?f k" for k, OF f] by blast+
qed

lemma settle_keeps:
  assumes "settle_tx k db = (Inr u, db')"
  shows "held q db \<Longrightarrow> held q db'" and "begun q db \<Longrightarrow> begun q db'"
proof -
  let ?f = "\<lambda>w. if work_op w = k \<and> wk_State w \<noteq> WorkQueued then set_state WorkSettled w else w"
  have f: "wk_Request (?f w) = wk_Request w" "wk_State w \<noteq> WorkQueued \<Longrightarrow> wk_State (?f w) \<noteq> WorkQueued" for w
    by simp_all
  have "db' = db\<lparr>ib_rows := map ?f (ib_rows db)\<rparr>" using settle_txD [OF assms] by blast
  then show "held q db \<Longrightarrow> held q db'" "begun q db \<Longrightarrow> begun q db'"
    using state_change_keeps [of ?f, OF f] by blast+
qed

lemma inbox_exec_step:
  "snd (inbox_exec validate a i db) = db
   \<or> (\<exists>n1 n2 r archive u. submit_tx n1 n2 r archive db = (Inr u, snd (inbox_exec validate a i db)))
   \<or> (\<exists>res. claim_tx validate db = (Inr res, snd (inbox_exec validate a i db)))
   \<or> (\<exists>k u. settle_tx k db = (Inr u, snd (inbox_exec validate a i db)))"
proof (induction validate a i db rule: inbox_exec.induct)
  case (1 validate a drv n1 n2 r archive db)
  show ?case
    unfolding inbox_exec_snd using with_tx_cases [of drv "submit_tx n1 n2 r archive" db]
    by (cases "validate archive (rq_ArtifactSHA256 r)") (auto simp: submitNodeRuntime_def)
next
  case (2 validate a drv db)
  show ?case using with_tx_cases [of drv "claim_tx validate" db] by (auto simp: claim_def)
next
  case (3 validate a drv k db)
  show ?case
    unfolding inbox_exec_snd using with_tx_cases [of drv "settle_tx k" db] by (auto simp: settle_def)
qed

interpretation held: stable "inbox_exec validate a" held for validate a
proof
  fix q db i
  show "held q db \<Longrightarrow> held q (snd (inbox_exec validate a i db))"
    using inbox_exec_step [of validate a i db]
    by (elim disjE exE) (auto intro: submit_keeps(1) claim_keeps(1) settle_keeps(1) simp del: inbox_exec_snd)
qed

interpretation begun: stable "inbox_exec validate a" begun for validate a
proof
  fix q db i
  show "begun q db \<Longrightarrow> begun q (snd (inbox_exec validate a i db))"
    using inbox_exec_step [of validate a i db]
    by (elim disjE exE) (auto intro: submit_keeps(2) claim_keeps(2) settle_keeps(2) simp del: inbox_exec_snd)
qed

section \<open>Properties\<close>

text \<open>
  After every history of submissions, claims and settlements of a new inbox, whatever the
  driver reported, its rows are ordered by revision with the settled work first, then at most
  one item in processing, then the queued work; no operation, deployment or revision occurs
  twice, and neither the item limit nor the byte limit is exceeded.
\<close>

theorem inbox_stays_ordered:
  "let rows = ib_rows (run_ops (inbox_exec validate a) is empty_inbox_db) in
     layout rows \<and> sorted_wrt (<) (map work_rev rows) \<and> distinct (map work_op rows)
     \<and> distinct (map work_dep rows) \<and> length rows \<le> 1000 \<and> archive_bytes rows \<le> 209715200"
proof -
  have "inbox_inv validate a empty_inbox_db"
    by (simp add: inbox_inv_def layout_def inbox_keys_ok_def archive_bytes_def empty_inbox_db_def)
  from inbox.run_inv [OF this] show ?thesis
    unfolding inbox_inv_def inbox_keys_ok_def Let_def by blast
qed

text \<open>
  C40: Work is claimed once and in order. Whatever happens between two claims that hand out
  work, the later one hands out work of a strictly higher revision and another operation.
\<close>

theorem claims_are_once_and_in_order:
  assumes "inbox_inv validate a db" and "claim validate drv db = (Inr (Some w), db')"
    and "claim validate drv' (run_ops (inbox_exec validate a) is db') = (Inr (Some w'), db'')"
  shows "work_rev w < work_rev w' \<and> work_op w \<noteq> work_op w'"
proof -
  let ?db = "run_ops (inbox_exec validate a) is db'"
  have tx: "claim_tx validate db = (Inr (Some w), db')" "claim_tx validate ?db = (Inr (Some w'), db'')"
    using assms(2,3) by (simp_all add: claim_def with_tx_Inr_iff)
  have inv: "inbox_inv validate a ?db" using claim_inv [OF assms(1) tx(1)] by (rule inbox.run_inv)
  have "begun (wk_Request w) db'" using claim_txD [OF assms(1) tx(1)] by (auto simp: begun_def)
  then have begun: "begun (wk_Request w) ?db" by (rule begun.run_latched)
  from claim_txD [OF inv tx(2)] obtain S q Q where r: "ib_rows ?db = S @ q # Q" "w' = set_state WorkProcessing q"
    "\<forall>v \<in> set (q # Q). wk_State v = WorkQueued" by blast
  with begun obtain v where v: "v \<in> set S" "wk_Request v = wk_Request w" by (auto simp: begun_def)
  from inv r(1) have "sorted_wrt (<) (map work_rev (S @ q # Q))" "distinct (map work_op (S @ q # Q))"
    by (simp_all only: inbox_inv_def inbox_keys_ok_def)
  then have "\<forall>x \<in> set S. work_rev x < work_rev q" "work_op q \<notin> work_op ` set S"
    by (simp_all add: sorted_wrt_append)
  with v(1) have "work_rev v < work_rev q" "work_op v \<noteq> work_op q" by (blast, metis image_eqI)
  with v(2) r(2) show ?thesis by simp
qed

text \<open>
  Queued work is never stuck. While nothing is in processing, a claim that meets no driver
  error hands out work, and its revision is at most that of any queued item: the archives were
  valid when they were accepted, so the second validation cannot refuse them.
\<close>

theorem queued_work_is_claimable:
  assumes "inbox_inv validate a db" and "q \<in> set (ib_rows db)" and "wk_State q = WorkQueued"
    and "processing None db = Inr None"
  shows "\<exists>w db'. claim validate None db = (Inr (Some w), db') \<and> work_rev w \<le> work_rev q
       \<and> wk_State w = WorkProcessing"
proof -
  obtain S P Q where rows: "ib_rows db = S @ P @ Q"
    and st: "\<forall>w \<in> set S. wk_State w = WorkSettled" "\<forall>w \<in> set P. wk_State w = WorkProcessing"
      "\<forall>w \<in> set Q. wk_State w = WorkQueued"
    using assms(1) by (auto simp: inbox_inv_def layout_def)
  have none: "\<not> list_ex (\<lambda>w. wk_State w = WorkProcessing) (ib_rows db)"
    using assms(4) by (auto simp: processing_def find_None_iff list_ex_iff)
  have Q: "q \<in> set Q" using rows st assms(2,3) by auto
  then obtain v Q' where Qv: "Q = v # Q'" by (cases Q) auto
  have sorted: "sorted_wrt (<) (map work_rev Q)"
    using assms(1) rows by (auto simp: inbox_inv_def inbox_keys_ok_def sorted_wrt_append)
  have v: "accepted validate a v" using assms(1) rows Qv by (simp add: inbox_inv_def)
  have "min_revision (filter (\<lambda>w. wk_State w = WorkQueued) (ib_rows db)) = Some v"
    using filter_layout(1) [OF st] rows min_revision_sorted [OF sorted] Qv by simp
  with v none have "\<exists>db'. claim validate None db = (Inr (Some (set_state WorkProcessing v)), db')"
    by (auto simp: claim_def with_tx_def claim_tx_def accepted_def)
  moreover have "work_rev v \<le> work_rev q" using sorted Q Qv by auto
  ultimately show ?thesis by fastforce
qed

text \<open>
  Submitting is idempotent and binding. Once a request was accepted, submitting it again
  after any history is accepted and changes nothing, and a different request for the same
  operation is refused.
\<close>

theorem submission_is_idempotent:
  assumes "submitNodeRuntime validate a drv n1 n2 r archive db = (Inr (), db')"
    and "db2 = run_ops (inbox_exec validate a) is db'"
  shows "submitNodeRuntime validate a None m1 m2 r archive db2 = (Inr (), db2)
       \<and> (r' \<noteq> r \<and> rq_OperationID r' = rq_OperationID r \<longrightarrow>
            (\<exists>e. fst (submitNodeRuntime validate a drv' m1 m2 r' archive' db2) = Inl e))"
proof -
  obtain m where ok: "request_ok a r" "validate archive (rq_ArtifactSHA256 r) = Inr m"
    and tx: "submit_tx n1 n2 r archive db = (Inr (), db')"
    using assms(1) by (auto simp: submitNodeRuntime_def with_tx_Inr_iff split: if_splits sum.splits)
  have "held r db2" unfolding assms(2) using submit_keeps(3) [OF tx] by (rule held.run_latched)
  then obtain w where w: "get_row work_op (rq_OperationID r) (ib_rows db2) = Some w" "wk_Request w = r"
    by (auto simp: held_def)
  have "submitNodeRuntime validate a None m1 m2 r archive db2 = (Inr (), db2)"
    using ok w by (simp add: submitNodeRuntime_def with_tx_def submit_tx_def)
  moreover have "\<exists>e. fst (submitNodeRuntime validate a drv' m1 m2 r' archive' db2) = Inl e"
    if "r' \<noteq> r" "rq_OperationID r' = rq_OperationID r"
    using that w by (cases "validate archive' (rq_ArtifactSHA256 r')"; cases drv')
      (auto simp: submitNodeRuntime_def with_tx_def submit_tx_def)
  ultimately show ?thesis by blast
qed

section \<open>Concrete instances\<close>

definition bx_assignment :: rt_assignment where
  "bx_assignment = \<lparr>ra_ProjectID = px_id CHR ''a'', ra_RuntimeID = px_id CHR ''b'',
     ra_ToolchainSHA256 = px_id CHR ''1'', ra_Architecture = ''arm64''\<rparr>"

definition bx_request :: "char \<Rightarrow> int \<Rightarrow> runtime_request" where
  "bx_request ch n = \<lparr>rq_OperationID = px_id ch, rq_DeploymentID = px_id ch, rq_ProjectID = px_id CHR ''a'',
     rq_RuntimeID = px_id CHR ''b'', rq_ReleaseID = px_id ch, rq_ArtifactSHA256 = px_id CHR ''d'',
     rq_ToolchainSHA256 = px_id CHR ''1'', rq_Architecture = ''arm64'', rq_Revision = n, rq_ActivateBefore = 100\<rparr>"

definition bx_work :: "char \<Rightarrow> int \<Rightarrow> work_state \<Rightarrow> work" where
  "bx_work ch n st = \<lparr>wk_Request = bx_request ch n, wk_Archive = ''zip'', wk_State = st\<rparr>"

definition bx_db :: "work list \<Rightarrow> inbox_db" where
  "bx_db rows = \<lparr>ib_version = 1, ib_config = Some bx_assignment, ib_rows = rows\<rparr>"

abbreviation bx_validate :: validator where
  "bx_validate \<equiv> (\<lambda>_ _. Inr px_manifest)"

lemma bx_ids: "px_id CHR ''c'' \<noteq> px_id CHR ''d''" "px_id CHR ''d'' \<noteq> px_id CHR ''c''"
  by (simp_all add: px_id_def)

lemma bx_submit:
  "submitNodeRuntime bx_validate bx_assignment None 50 50 (bx_request CHR ''c'' 1) ''zip'' (bx_db [])
   = (Inr (), bx_db [bx_work CHR ''c'' 1 WorkQueued])"
  by (simp add: submitNodeRuntime_def request_ok_def bx_assignment_def bx_request_def with_tx_def submit_tx_def
      bx_db_def max_revision_def archive_bytes_def bx_work_def)

lemma bx_inv: "inbox_inv bx_validate bx_assignment (bx_db [bx_work CHR ''c'' 1 WorkQueued, bx_work CHR ''d'' 2 WorkQueued])"
proof -
  have "layout [bx_work CHR ''c'' 1 WorkQueued, bx_work CHR ''d'' 2 WorkQueued]"
    unfolding layout_def by (rule exI [of _ "[]"], rule exI [of _ "[]"]) (simp add: bx_work_def)
  then show ?thesis
    by (simp add: inbox_inv_def bx_db_def inbox_keys_ok_def bx_work_def bx_request_def archive_bytes_def accepted_def
        request_ok_def bx_assignment_def bx_ids)
qed

lemma bx_claim:
  "claim bx_validate None (bx_db [bx_work CHR ''c'' 1 WorkQueued, bx_work CHR ''d'' 2 WorkQueued])
   = (Inr (Some (bx_work CHR ''c'' 1 WorkProcessing)),
      bx_db [bx_work CHR ''c'' 1 WorkProcessing, bx_work CHR ''d'' 2 WorkQueued])"
  "claim bx_validate None
     (run_ops (inbox_exec bx_validate bx_assignment) [(None, ISettle (px_id CHR ''c''))]
       (bx_db [bx_work CHR ''c'' 1 WorkProcessing, bx_work CHR ''d'' 2 WorkQueued]))
   = (Inr (Some (bx_work CHR ''d'' 2 WorkProcessing)),
      bx_db [bx_work CHR ''c'' 1 WorkSettled, bx_work CHR ''d'' 2 WorkProcessing])"
  by (simp_all add: claim_def with_tx_def claim_tx_def bx_db_def bx_work_def set_state_def settle_def settle_tx_def
      bx_request_def bx_ids)

theorem claims_are_once_and_in_order_witness: "(1::int) < 2 \<and> px_id CHR ''c'' \<noteq> px_id CHR ''d''"
  using claims_are_once_and_in_order [OF bx_inv bx_claim] by (simp add: bx_work_def bx_request_def)

theorem queued_work_is_claimable_witness:
  "\<exists>w db'. claim bx_validate None (bx_db [bx_work CHR ''c'' 1 WorkQueued, bx_work CHR ''d'' 2 WorkQueued])
     = (Inr (Some w), db') \<and> work_rev w \<le> 2"
  using queued_work_is_claimable [OF bx_inv, of "bx_work CHR ''d'' 2 WorkQueued"]
  by (auto simp: bx_db_def bx_work_def processing_def bx_request_def)

theorem submission_is_idempotent_witness:
  "submitNodeRuntime bx_validate bx_assignment None 500 500 (bx_request CHR ''c'' 1) ''zip''
     (bx_db [bx_work CHR ''c'' 1 WorkQueued]) = (Inr (), bx_db [bx_work CHR ''c'' 1 WorkQueued])"
  using submission_is_idempotent [OF bx_submit, of _ "[]"] by simp

end
