(* ===== verification/Portal_Accounts.thy ===== *)
theory Portal_Accounts
  imports Go_Lib "HOL-Library.List_Lexorder" "HOL-Library.Char_ord"
begin

text \<open>
  \<open>internal/portal\<close>, identities: \<open>store.go\<close> (accounts, sessions, password reset,
  authorization), \<open>members.go\<close> and \<open>invitations.go\<close> (who belongs to a workspace), and the part of
  \<open>mail.go\<close> that queues a message in the same transaction. Rows are records, a table is the
  list of its rows. Other components of the portal extend the record of tables.
\<close>

section \<open>Tables\<close>

record user =
  u_id :: string
  u_email :: string
  u_salt :: string
  u_hash :: string
  u_verified :: bool
  u_disabled :: bool
  u_created :: int

record workspace =
  ws_id :: string
  ws_name :: string

record membership =
  mb_user :: string
  mb_workspace :: string
  mb_role :: string

record session_row =
  ss_hash :: string
  ss_user :: string
  ss_expires :: int

record account_token =
  tk_hash :: string
  tk_user :: string
  tk_purpose :: string
  tk_expires :: int

datatype invite_state = InvitePending | InviteAccepted | InviteRevoked

record invitation =
  iv_id :: string
  iv_hash :: string
  iv_workspace :: string
  iv_email :: string
  iv_role :: string
  iv_inviter :: string
  iv_expires :: int
  iv_state :: invite_state
  iv_created :: int

record audit_event =
  au_id :: string
  au_actor :: string
  au_workspace :: string
  au_action :: string
  au_at :: int

datatype mail_state = MailPending | MailSent | MailDiscarded | MailFailed

record mail_row =
  ml_id :: string
  ml_user :: string
  ml_hash :: string
  ml_purpose :: string
  ml_payload :: string
  ml_state :: mail_state
  ml_attempts :: nat
  ml_next :: int
  ml_lease :: string
  ml_until :: int
  ml_created :: int

record accounts_db =
  users :: "user list"
  workspaces :: "workspace list"
  memberships :: "membership list"
  sessions :: "session_row list"
  account_tokens :: "account_token list"
  invitations :: "invitation list"
  mail_outbox :: "mail_row list"
  audit_events :: "audit_event list"
  hosting_policies :: "(string \<times> bool) list"

definition empty_accounts_db :: accounts_db where
  "empty_accounts_db = \<lparr>users = [], workspaces = [], memberships = [], sessions = [], account_tokens = [],
     invitations = [], mail_outbox = [], audit_events = [], hosting_policies = []\<rparr>"

section \<open>What a call gets from outside\<close>

text \<open>
  The functions the code imports: SHA-256 in hexadecimal, \<open>strings.ToLower\<close>, the address that
  \<open>mail.ParseAddress\<close> finds, Argon2, \<open>url.QueryEscape\<close>, and the sealed form of a message
  (nonce, message, id).
\<close>

record mail =
  mail_ID :: string
  mail_To :: string
  mail_Subject :: string
  mail_Text :: string

record portal_lib =
  lib_digest :: "string \<Rightarrow> string"
  lib_lower :: "string \<Rightarrow> string"
  lib_address :: "string \<Rightarrow> string option"
  lib_argon :: "string \<Rightarrow> string \<Rightarrow> string"
  lib_escape :: "string \<Rightarrow> string"
  lib_seal :: "string \<Rightarrow> mail \<Rightarrow> string \<Rightarrow> string"

text \<open>
  One call: whether the driver fails, the readings of the clock and the random tokens in the
  order in which the call asks for them, the random bytes of a salt (0) and of a nonce (1), and whether the
  context ends while the call waits to hash.
\<close>

record call =
  cl_drv :: driver
  cl_now :: "nat \<Rightarrow> int"
  cl_token :: "nat \<Rightarrow> string"
  cl_bytes :: "nat \<Rightarrow> string"
  cl_hash_ctx :: bool

section \<open>Helpers of store.go and mail.go\<close>

definition normalizeEmail :: "portal_lib \<Rightarrow> string \<Rightarrow> string result" where
  "normalizeEmail lib raw =
     (let v = lib_lower lib (trimSpace raw) in
      case lib_address lib v of
        None \<Rightarrow> Inl Portal_ErrInvalid
      | Some a \<Rightarrow> if a \<noteq> v \<or> length v > 254 \<or> CHR ''@'' \<notin> set v then Inl Portal_ErrInvalid else Inr v)"

definition validPassword :: "string \<Rightarrow> bool" where
  "validPassword v \<longleftrightarrow> 12 \<le> length v \<and> length v \<le> 1024"

definition hash_password :: "portal_lib \<Rightarrow> call \<Rightarrow> string \<Rightarrow> string \<Rightarrow> string result" where
  "hash_password lib c password salt =
     (if cl_hash_ctx c then Inl ErrContext else Inr (lib_argon lib password salt))"

definition audit ::
  "string \<Rightarrow> string \<Rightarrow> string \<Rightarrow> string \<Rightarrow> int \<Rightarrow> 'x accounts_db_scheme \<Rightarrow> ('x accounts_db_scheme) result" where
  "audit ident actor workspace action now db =
     andThen (insert_row au_id \<lparr>au_id = ident, au_actor = actor, au_workspace = workspace, au_action = action,
                                au_at = now\<rparr> (audit_events db))
       (\<lambda>rows. Inr (db\<lparr>audit_events := rows\<rparr>))"

text \<open>
  \<open>AccountMail.enqueue\<close> for the purposes verify, reset and invite; \<open>origin\<close> is the portal's
  origin. \<open>n\<close> and \<open>k\<close> are the indices of the call's next random token and next clock reading.
\<close>

definition mail_message :: "portal_lib \<Rightarrow> string \<Rightarrow> string \<Rightarrow> string \<Rightarrow> string \<Rightarrow> string \<Rightarrow> mail" where
  "mail_message lib origin ident email token purpose =
     (let subject = (if purpose = ''invite'' then ''Join a Deployer workspace''
                     else if purpose = ''reset'' then ''Reset your Deployer password''
                     else ''Verify your Deployer account'');
          action = (if purpose = ''invite'' then ''invite'' else if purpose = ''reset'' then ''reset'' else ''verify'');
          link = origin @ ''/#'' @ action @ ''='' @ lib_escape lib token;
          nl = [CHR 0x0A]
      in \<lparr>mail_ID = ident, mail_To = email, mail_Subject = subject,
          mail_Text = subject @ nl @ nl @ ''Open this link to continue:'' @ nl @ link @ nl @ nl
            @ ''If you did not request this, ignore this email.'' @ nl\<rparr>)"

definition enqueue ::
  "portal_lib \<Rightarrow> string \<Rightarrow> call \<Rightarrow> nat \<Rightarrow> string \<Rightarrow> string \<Rightarrow> string \<Rightarrow> string \<Rightarrow> nat \<Rightarrow> 'x accounts_db_scheme
    \<Rightarrow> ('x accounts_db_scheme) result" where
  "enqueue lib origin c n user email token purpose k db =
     (let ident = cl_token c n;
          row = \<lparr>ml_id = ident, ml_user = user, ml_hash = lib_digest lib token, ml_purpose = purpose,
                 ml_payload = lib_seal lib (cl_bytes c 1) (mail_message lib origin ident email token purpose) ident,
                 ml_state = MailPending, ml_attempts = 0, ml_next = cl_now c k, ml_lease = [], ml_until = 0,
                 ml_created = cl_now c (k + 1)\<rparr>
      in andThen (insert_row ml_id row (mail_outbox db)) (\<lambda>rows. Inr (db\<lparr>mail_outbox := rows\<rparr>)))"

section \<open>Registration and verification\<close>

record account =
  ac_ID :: string
  ac_Email :: string
  ac_WorkspaceID :: string

definition register_tx ::
  "portal_lib \<Rightarrow> bool \<Rightarrow> string option \<Rightarrow> call \<Rightarrow> string \<Rightarrow> string \<Rightarrow> string \<Rightarrow> string \<Rightarrow> 'x accounts_db_scheme
    \<Rightarrow> ((account \<times> string) \<times> 'x accounts_db_scheme) result" where
  "register_tx lib live queue c email salt hash workspace db =
     (let a = \<lparr>ac_ID = cl_token c 0, ac_Email = email, ac_WorkspaceID = cl_token c 1\<rparr>;
          now = cl_now c 0;
          token = cl_token c 2;
          u = \<lparr>u_id = ac_ID a, u_email = email, u_salt = salt, u_hash = hash, u_verified = False,
               u_disabled = False, u_created = now\<rparr>
      in andThen (guard ErrExists (\<not> list_ex (\<lambda>v. u_email v = email) (users db))) (\<lambda>_.
         andThen (insert_row u_id u (users db)) (\<lambda>us.
         andThen (insert_row ws_id \<lparr>ws_id = ac_WorkspaceID a, ws_name = trimSpace workspace\<rparr> (workspaces db)) (\<lambda>ws.
         andThen (insert_row (\<lambda>m. (mb_user m, mb_workspace m))
                    \<lparr>mb_user = ac_ID a, mb_workspace = ac_WorkspaceID a, mb_role = ''owner''\<rparr> (memberships db)) (\<lambda>ms.
         andThen (insert_row tk_hash \<lparr>tk_hash = lib_digest lib token, tk_user = ac_ID a, tk_purpose = ''verify'',
                                      tk_expires = now + 86400\<rparr> (account_tokens db)) (\<lambda>ts.
         andThen (if live then insert_row fst (ac_WorkspaceID a, True) (hosting_policies db)
                  else Inr (hosting_policies db)) (\<lambda>ps.
         let db1 = db\<lparr>users := us, workspaces := ws, memberships := ms, account_tokens := ts, hosting_policies := ps\<rparr>
         in andThen (case queue of
                       None \<Rightarrow> Inr db1
                     | Some origin \<Rightarrow> enqueue lib origin c 3 (ac_ID a) email token ''verify'' 1 db1) (\<lambda>db2.
            andThen (audit (cl_token c 4) (ac_ID a) (ac_WorkspaceID a) ''account.registered'' now db2) (\<lambda>db3.
            Inr ((a, token), db3))))))))))"

definition register ::
  "portal_lib \<Rightarrow> bool \<Rightarrow> string option \<Rightarrow> call \<Rightarrow> string \<Rightarrow> string \<Rightarrow> string \<Rightarrow> 'x accounts_db_scheme
    \<Rightarrow> (account \<times> string) result \<times> 'x accounts_db_scheme" where
  "register lib live queue c email password workspace db =
     (case normalizeEmail lib email of
        Inl _ \<Rightarrow> (Inl Portal_ErrInvalid, db)
      | Inr email' \<Rightarrow>
          if \<not> validPassword password \<or> trimSpace workspace = [] \<or> length workspace > 100
          then (Inl Portal_ErrInvalid, db)
          else case hash_password lib c password (cl_bytes c 0) of
            Inl e \<Rightarrow> (Inl e, db)
          | Inr hash \<Rightarrow> in_tx (cl_drv c) (register_tx lib live queue c email' (cl_bytes c 0) hash workspace) db)"

definition live_token :: "portal_lib \<Rightarrow> string \<Rightarrow> string \<Rightarrow> int \<Rightarrow> account_token \<Rightarrow> bool" where
  "live_token lib purpose token now t \<longleftrightarrow>
     tk_hash t = lib_digest lib token \<and> tk_purpose t = purpose \<and> tk_expires t > now"

definition verify_tx ::
  "portal_lib \<Rightarrow> call \<Rightarrow> string \<Rightarrow> 'x accounts_db_scheme \<Rightarrow> (unit \<times> 'x accounts_db_scheme) result" where
  "verify_tx lib c token db =
     andThen (some_or ErrDenied (List.find (live_token lib ''verify'' token (cl_now c 0)) (account_tokens db))) (\<lambda>t.
     let ident = tk_user t;
         db1 = db\<lparr>users := map (\<lambda>u. if u_id u = ident \<and> \<not> u_disabled u then u\<lparr>u_verified := True\<rparr> else u) (users db),
                  account_tokens := filter (\<lambda>t. \<not> (tk_user t = ident \<and> tk_purpose t = ''verify'')) (account_tokens db)\<rparr>
     in andThen (audit (cl_token c 0) ident [] ''account.verified'' (cl_now c 1) db1) (\<lambda>db2. Inr ((), db2)))"

section \<open>Sessions\<close>

record session =
  sn_Token :: string
  sn_Account :: string
  sn_ExpiresAt :: int

definition active_user :: "user \<Rightarrow> bool" where
  "active_user u \<longleftrightarrow> u_verified u \<and> \<not> u_disabled u"

text \<open>
  \<open>Login\<close> up to the transaction: the account row that the password was compared with.
\<close>

definition login_check ::
  "portal_lib \<Rightarrow> call \<Rightarrow> string \<Rightarrow> string \<Rightarrow> 'x accounts_db_scheme \<Rightarrow> user result" where
  "login_check lib c email password db =
     (case normalizeEmail lib email of
        Inl _ \<Rightarrow> Inl ErrCredentials
      | Inr email' \<Rightarrow>
          if length password > 1024 then Inl ErrCredentials
          else case cl_drv c of
            Some e \<Rightarrow> Inl e
          | None \<Rightarrow>
              if cl_hash_ctx c then Inl ErrContext
              else (case get_row u_email email' (users db) of
                      None \<Rightarrow> Inl ErrCredentials
                    | Some u \<Rightarrow>
                        if lib_argon lib password (u_salt u) \<noteq> u_hash u \<or> \<not> u_verified u \<or> u_disabled u
                        then Inl ErrCredentials else Inr u))"

definition session_tx ::
  "portal_lib \<Rightarrow> call \<Rightarrow> string \<Rightarrow> string \<Rightarrow> 'x accounts_db_scheme \<Rightarrow> (session \<times> 'x accounts_db_scheme) result" where
  "session_tx lib c ident expected db =
     andThen (some_or ErrCredentials (List.find (\<lambda>u. u_id u = ident \<and> active_user u) (users db))) (\<lambda>u.
     andThen (guard ErrCredentials (u_hash u = expected)) (\<lambda>_.
     let s = \<lparr>sn_Token = cl_token c 0, sn_Account = ident, sn_ExpiresAt = cl_now c 0 + 86400\<rparr>
     in andThen (insert_row ss_hash \<lparr>ss_hash = lib_digest lib (sn_Token s), ss_user = ident, ss_expires = sn_ExpiresAt s\<rparr>
                   (sessions db)) (\<lambda>rows.
        andThen (audit (cl_token c 1) ident [] ''session.created'' (cl_now c 1) (db\<lparr>sessions := rows\<rparr>)) (\<lambda>db2.
        Inr (s, db2)))))"

text \<open>The account of a session token, as every query joins it.\<close>

definition session_user :: "portal_lib \<Rightarrow> int \<Rightarrow> string \<Rightarrow> 'x accounts_db_scheme \<Rightarrow> user option" where
  "session_user lib now token db =
     (case List.find (\<lambda>s. ss_hash s = lib_digest lib token \<and> ss_expires s > now) (sessions db) of
        None \<Rightarrow> None
      | Some s \<Rightarrow> List.find (\<lambda>u. u_id u = ss_user s \<and> active_user u) (users db))"

definition authenticate :: "portal_lib \<Rightarrow> call \<Rightarrow> string \<Rightarrow> 'x accounts_db_scheme \<Rightarrow> (string \<times> string) result" where
  "authenticate lib c token db =
     (case cl_drv c of
        Some e \<Rightarrow> Inl e
      | None \<Rightarrow> andThen (some_or ErrDenied (session_user lib (cl_now c 0) token db)) (\<lambda>u. Inr (u_id u, u_email u)))"

definition logout_tx :: "portal_lib \<Rightarrow> string \<Rightarrow> 'x accounts_db_scheme \<Rightarrow> (unit \<times> 'x accounts_db_scheme) result" where
  "logout_tx lib token db =
     Inr ((), db\<lparr>sessions := filter (\<lambda>s. ss_hash s \<noteq> lib_digest lib token) (sessions db)\<rparr>)"

section \<open>Password reset\<close>

text \<open>\<open>requestReset\<close> returns no token for an unknown, unverified or disabled account.\<close>

definition request_reset_tx ::
  "portal_lib \<Rightarrow> string option \<Rightarrow> call \<Rightarrow> string \<Rightarrow> 'x accounts_db_scheme \<Rightarrow> (string \<times> 'x accounts_db_scheme) result" where
  "request_reset_tx lib queue c email db =
     (case List.find (\<lambda>u. u_email u = email \<and> active_user u) (users db) of
        None \<Rightarrow> Inr ([], db)
      | Some u \<Rightarrow>
          let token = cl_token c 0;
              kept = filter (\<lambda>t. \<not> (tk_user t = u_id u \<and> tk_purpose t = ''reset'')) (account_tokens db)
          in andThen (insert_row tk_hash \<lparr>tk_hash = lib_digest lib token, tk_user = u_id u, tk_purpose = ''reset'',
                                          tk_expires = cl_now c 0 + 1800\<rparr> kept) (\<lambda>ts.
             let db1 = db\<lparr>account_tokens := ts\<rparr>
             in andThen (case queue of
                           None \<Rightarrow> Inr db1
                         | Some origin \<Rightarrow> enqueue lib origin c 1 (u_id u) email token ''reset'' 1 db1) (\<lambda>db2.
                Inr (token, db2))))"

definition requestReset ::
  "portal_lib \<Rightarrow> string option \<Rightarrow> call \<Rightarrow> string \<Rightarrow> 'x accounts_db_scheme \<Rightarrow> string result \<times> 'x accounts_db_scheme" where
  "requestReset lib queue c email db =
     (case normalizeEmail lib email of
        Inl _ \<Rightarrow> (Inr [], db)
      | Inr email' \<Rightarrow> in_tx (cl_drv c) (request_reset_tx lib queue c email') db)"

definition reset_tx ::
  "portal_lib \<Rightarrow> call \<Rightarrow> string \<Rightarrow> string \<Rightarrow> string \<Rightarrow> string \<Rightarrow> 'x accounts_db_scheme
    \<Rightarrow> (unit \<times> 'x accounts_db_scheme) result" where
  "reset_tx lib c token user salt hash db =
     andThen (guard ErrDenied (length (filter (live_token lib ''reset'' token (cl_now c 1)) (account_tokens db)) = 1)) (\<lambda>_.
     let db1 = db\<lparr>account_tokens := filter (\<lambda>t. \<not> live_token lib ''reset'' token (cl_now c 1) t) (account_tokens db),
                  users := upd_row u_id user (\<lambda>u. u\<lparr>u_salt := salt, u_hash := hash\<rparr>) (users db),
                  sessions := filter (\<lambda>s. ss_user s \<noteq> user) (sessions db)\<rparr>
     in andThen (audit (cl_token c 0) user [] ''password.reset'' (cl_now c 2) db1) (\<lambda>db2. Inr ((), db2)))"

section \<open>Authorization and members\<close>

definition get_member :: "string \<Rightarrow> string \<Rightarrow> 'x accounts_db_scheme \<Rightarrow> membership option" where
  "get_member user workspace db =
     List.find (\<lambda>m. mb_user m = user \<and> mb_workspace m = workspace) (memberships db)"

definition authorize ::
  "portal_lib \<Rightarrow> int \<Rightarrow> string \<Rightarrow> string \<Rightarrow> bool \<Rightarrow> 'x accounts_db_scheme \<Rightarrow> string result" where
  "authorize lib now token workspace write db =
     andThen (some_or ErrDenied (session_user lib now token db)) (\<lambda>u.
     andThen (some_or ErrDenied (get_member (u_id u) workspace db)) (\<lambda>m.
     andThen (guard ErrDenied (\<not> (write \<and> mb_role m \<noteq> ''owner'' \<and> mb_role m \<noteq> ''developer''))) (\<lambda>_.
     Inr (u_id u))))"

definition authorizeOwner ::
  "portal_lib \<Rightarrow> int \<Rightarrow> string \<Rightarrow> string \<Rightarrow> 'x accounts_db_scheme \<Rightarrow> string result" where
  "authorizeOwner lib now token workspace db =
     andThen (authorize lib now token workspace True db) (\<lambda>ident.
     andThen (some_or ErrNoRows (get_member ident workspace db)) (\<lambda>m.
     andThen (guard ErrDenied (mb_role m = ''owner'')) (\<lambda>_. Inr ident)))"

definition valid_role :: "string \<Rightarrow> bool" where
  "valid_role role \<longleftrightarrow> role = ''owner'' \<or> role = ''developer'' \<or> role = ''viewer''"

text \<open>The active owners of a workspace other than one user.\<close>

definition other_owners :: "string \<Rightarrow> string \<Rightarrow> 'x accounts_db_scheme \<Rightarrow> membership list" where
  "other_owners workspace target db =
     filter (\<lambda>m. mb_workspace m = workspace \<and> mb_user m \<noteq> target \<and> mb_role m = ''owner''
                 \<and> list_ex (\<lambda>u. u_id u = mb_user m \<and> active_user u) (users db)) (memberships db)"

definition set_role :: "string \<Rightarrow> string \<Rightarrow> string \<Rightarrow> membership list \<Rightarrow> membership list" where
  "set_role workspace target role ms =
     (if role = [] then filter (\<lambda>m. \<not> (mb_workspace m = workspace \<and> mb_user m = target)) ms
      else map (\<lambda>m. if mb_workspace m = workspace \<and> mb_user m = target then m\<lparr>mb_role := role\<rparr> else m) ms)"

text \<open>\<open>UPDATE invitations SET state='revoked' WHERE ... AND state='pending'\<close>.\<close>

definition revoke_where :: "(invitation \<Rightarrow> bool) \<Rightarrow> invitation list \<Rightarrow> invitation list" where
  "revoke_where P is = map (\<lambda>i. if P i \<and> iv_state i = InvitePending then i\<lparr>iv_state := InviteRevoked\<rparr> else i) is"

text \<open>\<open>ChangeMember\<close>; the empty role removes the membership.\<close>

definition change_member_tx ::
  "portal_lib \<Rightarrow> call \<Rightarrow> string \<Rightarrow> string \<Rightarrow> string \<Rightarrow> string \<Rightarrow> 'x accounts_db_scheme
    \<Rightarrow> (unit \<times> 'x accounts_db_scheme) result" where
  "change_member_tx lib c token workspace target role db =
     andThen (authorizeOwner lib (cl_now c 0) token workspace db) (\<lambda>actor.
     andThen (some_or ErrDenied (get_member target workspace db)) (\<lambda>m.
     let old = mb_role m in
     if old = role then Inr ((), db)
     else
       andThen (guard ErrLastOwner (\<not> (old = ''owner'' \<and> role \<noteq> ''owner'' \<and> other_owners workspace target db = []))) (\<lambda>_.
       let is = (if old = ''owner'' \<and> role \<noteq> ''owner''
                 then revoke_where (\<lambda>i. iv_workspace i = workspace \<and> iv_inviter i = target) (invitations db)
                 else invitations db);
           db1 = db\<lparr>memberships := set_role workspace target role (memberships db), invitations := is,
                    sessions := filter (\<lambda>s. ss_user s \<noteq> target) (sessions db)\<rparr>;
           action = (if role = [] then ''member.removed'' else ''member.role.'' @ role)
       in andThen (audit (cl_token c 0) actor workspace (action @ '':'' @ target) (cl_now c 1) db1) (\<lambda>db2.
          Inr ((), db2)))))"

definition changeMember ::
  "portal_lib \<Rightarrow> call \<Rightarrow> string \<Rightarrow> string \<Rightarrow> string \<Rightarrow> string \<Rightarrow> 'x accounts_db_scheme
    \<Rightarrow> unit result \<times> 'x accounts_db_scheme" where
  "changeMember lib c token workspace target role db =
     (if role \<noteq> [] \<and> \<not> valid_role role then (Inl Portal_ErrInvalid, db)
      else in_tx (cl_drv c) (change_member_tx lib c token workspace target role) db)"

section \<open>Invitations\<close>

definition invite_tx ::
  "portal_lib \<Rightarrow> string \<Rightarrow> call \<Rightarrow> string \<Rightarrow> string \<Rightarrow> string \<Rightarrow> string \<Rightarrow> 'x accounts_db_scheme
    \<Rightarrow> (invitation \<times> 'x accounts_db_scheme) result" where
  "invite_tx lib origin c token workspace email role db =
     andThen (authorizeOwner lib (cl_now c 0) token workspace db) (\<lambda>actor.
     andThen (guard ErrExists (\<not> list_ex (\<lambda>m. mb_workspace m = workspace
                 \<and> list_ex (\<lambda>u. u_id u = mb_user m \<and> u_email u = email) (users db)) (memberships db))) (\<lambda>_.
     let revoked = revoke_where (\<lambda>i. iv_workspace i = workspace \<and> iv_email i = email) (invitations db);
         secret = cl_token c 1;
         i = \<lparr>iv_id = cl_token c 0, iv_hash = lib_digest lib secret, iv_workspace = workspace, iv_email = email,
              iv_role = role, iv_inviter = actor, iv_expires = cl_now c 1 + 604800, iv_state = InvitePending,
              iv_created = cl_now c 2\<rparr>
     in andThen (insert_row iv_id i revoked) (\<lambda>_.
        andThen (insert_row iv_hash i revoked) (\<lambda>is.
        andThen (enqueue lib origin c 2 actor email secret ''invite'' 3 (db\<lparr>invitations := is\<rparr>)) (\<lambda>db2.
        andThen (audit (cl_token c 3) actor workspace (''invitation.created:'' @ iv_id i) (cl_now c 5) db2) (\<lambda>db3.
        Inr (i, db3)))))))"

definition invite ::
  "portal_lib \<Rightarrow> string \<Rightarrow> call \<Rightarrow> string \<Rightarrow> string \<Rightarrow> string \<Rightarrow> string \<Rightarrow> 'x accounts_db_scheme
    \<Rightarrow> invitation result \<times> 'x accounts_db_scheme" where
  "invite lib origin c token workspace email role db =
     (case normalizeEmail lib email of
        Inl _ \<Rightarrow> (Inl Portal_ErrInvalid, db)
      | Inr email' \<Rightarrow>
          if \<not> valid_role role then (Inl Portal_ErrInvalid, db)
          else in_tx (cl_drv c) (invite_tx lib origin c token workspace email' role) db)"

definition revoke_tx ::
  "portal_lib \<Rightarrow> call \<Rightarrow> string \<Rightarrow> string \<Rightarrow> string \<Rightarrow> 'x accounts_db_scheme \<Rightarrow> (unit \<times> 'x accounts_db_scheme) result" where
  "revoke_tx lib c token workspace ident db =
     (let hit = (\<lambda>i. iv_id i = ident \<and> iv_workspace i = workspace) in
      andThen (authorizeOwner lib (cl_now c 0) token workspace db) (\<lambda>actor.
      andThen (guard ErrDenied (length (filter (\<lambda>i. hit i \<and> iv_state i = InvitePending) (invitations db)) = 1)) (\<lambda>_.
      andThen (audit (cl_token c 0) actor workspace (''invitation.revoked:'' @ ident) (cl_now c 1)
                 (db\<lparr>invitations := revoke_where hit (invitations db)\<rparr>)) (\<lambda>db2.
      Inr ((), db2)))))"

definition open_invitation ::
  "portal_lib \<Rightarrow> string \<Rightarrow> string \<Rightarrow> int \<Rightarrow> 'x accounts_db_scheme \<Rightarrow> invitation \<Rightarrow> bool" where
  "open_invitation lib secret email now db i \<longleftrightarrow>
     iv_hash i = lib_digest lib secret \<and> iv_email i = email \<and> iv_state i = InvitePending \<and> iv_expires i > now
     \<and> list_ex (\<lambda>u. u_id u = iv_inviter i \<and> active_user u) (users db)
     \<and> list_ex (\<lambda>m. mb_user m = iv_inviter i \<and> mb_workspace m = iv_workspace i \<and> mb_role m = ''owner'') (memberships db)"

definition accept_tx ::
  "portal_lib \<Rightarrow> call \<Rightarrow> string \<Rightarrow> string \<Rightarrow> 'x accounts_db_scheme \<Rightarrow> (string \<times> 'x accounts_db_scheme) result" where
  "accept_tx lib c token secret db =
     andThen (some_or ErrDenied (session_user lib (cl_now c 0) token db)) (\<lambda>u.
     andThen (some_or ErrDenied (List.find (open_invitation lib secret (u_email u) (cl_now c 1) db) (invitations db))) (\<lambda>i.
     andThen (guard ErrExists (get_member (u_id u) (iv_workspace i) db = None)) (\<lambda>_.
     andThen (insert_row (\<lambda>m. (mb_user m, mb_workspace m))
                \<lparr>mb_user = u_id u, mb_workspace = iv_workspace i, mb_role = iv_role i\<rparr> (memberships db)) (\<lambda>ms.
     let db1 = db\<lparr>memberships := ms,
                  invitations := upd_row iv_id (iv_id i) (\<lambda>i. i\<lparr>iv_state := InviteAccepted\<rparr>) (invitations db)\<rparr>
     in andThen (audit (cl_token c 0) (u_id u) (iv_workspace i) (''invitation.accepted:'' @ iv_id i) (cl_now c 2) db1) (\<lambda>db2.
        Inr (iv_workspace i, db2))))))"

section \<open>Listings\<close>

text \<open>The order of text columns is the byte order of the strings.\<close>

definition members :: "portal_lib \<Rightarrow> call \<Rightarrow> string \<Rightarrow> string \<Rightarrow> 'x accounts_db_scheme \<Rightarrow> (string \<times> string \<times> string) list result" where
  "members lib c token workspace db =
     (case cl_drv c of
        Some e \<Rightarrow> Inl e
      | None \<Rightarrow>
          andThen (authorizeOwner lib (cl_now c 0) token workspace db) (\<lambda>_.
          Inr (sort_key (\<lambda>(_, email, _). email)
                 (concat (map (\<lambda>m. map (\<lambda>u. (u_id u, u_email u, mb_role m))
                                       (filter (\<lambda>u. u_id u = mb_user m) (users db)))
                    (filter (\<lambda>m. mb_workspace m = workspace) (memberships db)))))))"

definition pending_invitations ::
  "portal_lib \<Rightarrow> call \<Rightarrow> string \<Rightarrow> string \<Rightarrow> 'x accounts_db_scheme \<Rightarrow> invitation list result" where
  "pending_invitations lib c token workspace db =
     (case cl_drv c of
        Some e \<Rightarrow> Inl e
      | None \<Rightarrow>
          andThen (authorizeOwner lib (cl_now c 0) token workspace db) (\<lambda>_.
          Inr (sort_key iv_created (sort_key iv_id
                 (filter (\<lambda>i. iv_workspace i = workspace \<and> iv_state i = InvitePending \<and> iv_expires i > cl_now c 1)
                    (invitations db))))))"

definition workspace_list ::
  "portal_lib \<Rightarrow> call \<Rightarrow> string \<Rightarrow> 'x accounts_db_scheme \<Rightarrow> (string \<times> string \<times> string) list result" where
  "workspace_list lib c token db =
     (case cl_drv c of
        Some e \<Rightarrow> Inl e
      | None \<Rightarrow>
          andThen (some_or ErrDenied (session_user lib (cl_now c 0) token db)) (\<lambda>u.
          Inr (sort_key (\<lambda>(_, name, _). name) (sort_key (\<lambda>(ident, _, _). ident)
                 (concat (map (\<lambda>w. map (\<lambda>m. (ws_id w, ws_name w, mb_role m))
                                       (filter (\<lambda>m. mb_workspace m = ws_id w \<and> mb_user m = u_id u) (memberships db)))
                    (workspaces db)))))))"

section \<open>Transactions and the calls that compose them\<close>

datatype acct_tx =
    TRegister bool "string option" string string string string
  | TVerify string
  | TSession string string
  | TLogout string
  | TRequestReset "string option" string
  | TReset string string string string
  | TChangeMember string string string string
  | TInvite string string string string string
  | TRevoke string string string
  | TAccept string string

definition drop_value :: "('a \<times> 'db) result \<Rightarrow> (unit \<times> 'db) result" where
  "drop_value r = andThen r (\<lambda>(_, db). Inr ((), db))"

fun acct_body ::
  "portal_lib \<Rightarrow> call \<Rightarrow> acct_tx \<Rightarrow> 'x accounts_db_scheme \<Rightarrow> (unit \<times> 'x accounts_db_scheme) result" where
  "acct_body lib c (TRegister live queue email salt hash workspace) db =
     drop_value (register_tx lib live queue c email salt hash workspace db)"
| "acct_body lib c (TVerify token) db = verify_tx lib c token db"
| "acct_body lib c (TSession ident expected) db = drop_value (session_tx lib c ident expected db)"
| "acct_body lib c (TLogout token) db = logout_tx lib token db"
| "acct_body lib c (TRequestReset queue email) db = drop_value (request_reset_tx lib queue c email db)"
| "acct_body lib c (TReset token user salt hash) db = reset_tx lib c token user salt hash db"
| "acct_body lib c (TChangeMember token workspace target role) db =
     andThen (guard Portal_ErrInvalid (role = [] \<or> valid_role role)) (\<lambda>_.
       change_member_tx lib c token workspace target role db)"
| "acct_body lib c (TInvite origin token workspace email role) db =
     drop_value (invite_tx lib origin c token workspace email role db)"
| "acct_body lib c (TRevoke token workspace ident) db = revoke_tx lib c token workspace ident db"
| "acct_body lib c (TAccept token secret) db = drop_value (accept_tx lib c token secret db)"

definition acct_exec ::
  "portal_lib \<Rightarrow> call \<times> acct_tx \<Rightarrow> 'x accounts_db_scheme \<Rightarrow> unit result \<times> 'x accounts_db_scheme" where
  "acct_exec lib i db = in_tx (cl_drv (fst i)) (acct_body lib (fst i) (snd i)) db"

text \<open>
  \<open>Login\<close> and \<open>ResetPassword\<close> read, hash and then open the transaction; \<open>mid\<close> are the
  transactions other calls commit meanwhile.
\<close>

definition login ::
  "portal_lib \<Rightarrow> call \<Rightarrow> call \<Rightarrow> (call \<times> acct_tx) list \<Rightarrow> string \<Rightarrow> string \<Rightarrow> 'x accounts_db_scheme
    \<Rightarrow> session result \<times> 'x accounts_db_scheme" where
  "login lib c1 c2 mid email password db =
     (case login_check lib c1 email password db of
        Inl e \<Rightarrow> (Inl e, db)
      | Inr u \<Rightarrow> in_tx (cl_drv c2) (session_tx lib c2 (u_id u) (u_hash u)) (run_ops (acct_exec lib) mid db))"

definition resetPassword ::
  "portal_lib \<Rightarrow> call \<Rightarrow> call \<Rightarrow> (call \<times> acct_tx) list \<Rightarrow> string \<Rightarrow> string \<Rightarrow> 'x accounts_db_scheme
    \<Rightarrow> unit result \<times> 'x accounts_db_scheme" where
  "resetPassword lib c1 c2 mid token password db =
     (if \<not> validPassword password then (Inl Portal_ErrInvalid, db)
      else case cl_drv c1 of
        Some e \<Rightarrow> (Inl e, db)
      | None \<Rightarrow>
          (case List.find (live_token lib ''reset'' token (cl_now c1 0)) (account_tokens db) of
             None \<Rightarrow> (Inl ErrDenied, db)
           | Some t \<Rightarrow>
               (case hash_password lib c1 password (cl_bytes c1 0) of
                  Inl e \<Rightarrow> (Inl e, db)
                | Inr hash \<Rightarrow>
                    in_tx (cl_drv c2) (reset_tx lib c2 token (tk_user t) (cl_bytes c1 0) hash)
                      (run_ops (acct_exec lib) mid db))))"

section \<open>What a committing transaction did\<close>

lemma auditD: "audit ident actor ws action now db = Inr db' \<Longrightarrow> \<exists>rows. db' = db\<lparr>audit_events := rows\<rparr>"
  by (auto simp: audit_def)

lemma enqueueD: "enqueue lib origin c n user email token purpose k db = Inr db' \<Longrightarrow> \<exists>rows. db' = db\<lparr>mail_outbox := rows\<rparr>"
  by (auto simp: enqueue_def Let_def)

lemma drop_value_Inr [simp]: "drop_value r = Inr (u, db) \<longleftrightarrow> (\<exists>a. r = Inr (a, db))"
  by (auto simp: drop_value_def)

abbreviation mb_key :: "membership \<Rightarrow> string \<times> string" where
  "mb_key m \<equiv> (mb_user m, mb_workspace m)"

lemma register_txD:
  assumes "register_tx lib live queue c email salt hash workspace db = Inr (r, db')"
  shows "\<exists>u m t. users db' = users db @ [u] \<and> \<not> u_verified u \<and> u_email u = email
      \<and> u_id u \<notin> u_id ` set (users db) \<and> email \<notin> u_email ` set (users db)
      \<and> memberships db' = memberships db @ [m] \<and> mb_user m = u_id u \<and> mb_role m = ''owner''
      \<and> mb_key m \<notin> mb_key ` set (memberships db)
      \<and> account_tokens db' = account_tokens db @ [t] \<and> tk_purpose t = ''verify'' \<and> tk_hash t = lib_digest lib (cl_token c 2)
      \<and> tk_hash t \<notin> tk_hash ` set (account_tokens db)
      \<and> sessions db' = sessions db \<and> invitations db' = invitations db"
proof (cases queue)
  case None
  with assms show ?thesis
    by (auto simp: register_tx_def Let_def insert_row_Inr list_ex_iff dest!: auditD)
next
  case (Some origin)
  with assms show ?thesis
    by (auto simp: register_tx_def Let_def insert_row_Inr list_ex_iff dest!: auditD enqueueD)
qed

lemma verify_txD:
  "verify_tx lib c token db = Inr (r, db') \<Longrightarrow> \<exists>t. List.find (live_token lib ''verify'' token (cl_now c 0)) (account_tokens db) = Some t
    \<and> users db' = map (\<lambda>u. if u_id u = tk_user t \<and> \<not> u_disabled u then u\<lparr>u_verified := True\<rparr> else u) (users db)
    \<and> account_tokens db' = filter (\<lambda>q. \<not> (tk_user q = tk_user t \<and> tk_purpose q = ''verify'')) (account_tokens db)
    \<and> memberships db' = memberships db \<and> sessions db' = sessions db \<and> invitations db' = invitations db"
  by (auto simp: verify_tx_def Let_def dest!: auditD)

lemma session_txD:
  "session_tx lib c ident expected db = Inr (s, db') \<Longrightarrow> \<exists>u. List.find (\<lambda>u. u_id u = ident \<and> active_user u) (users db) = Some u
    \<and> u_hash u = expected \<and> s = \<lparr>sn_Token = cl_token c 0, sn_Account = ident, sn_ExpiresAt = cl_now c 0 + 86400\<rparr>
    \<and> lib_digest lib (cl_token c 0) \<notin> ss_hash ` set (sessions db)
    \<and> sessions db' = sessions db @ [\<lparr>ss_hash = lib_digest lib (cl_token c 0), ss_user = ident, ss_expires = cl_now c 0 + 86400\<rparr>]
    \<and> users db' = users db \<and> account_tokens db' = account_tokens db \<and> memberships db' = memberships db
    \<and> invitations db' = invitations db"
  by (auto simp: session_tx_def Let_def insert_row_Inr dest!: auditD)

lemma logout_txD:
  "logout_tx lib token db = Inr (r, db') \<Longrightarrow> db' = db\<lparr>sessions := filter (\<lambda>s. ss_hash s \<noteq> lib_digest lib token) (sessions db)\<rparr>"
  by (simp add: logout_tx_def)

lemma request_reset_txD:
  assumes "request_reset_tx lib queue c email db = Inr (r, db')"
  shows "users db' = users db \<and> memberships db' = memberships db \<and> sessions db' = sessions db
    \<and> invitations db' = invitations db
    \<and> (account_tokens db' = account_tokens db
       \<or> (\<exists>ident t. account_tokens db' = filter (\<lambda>t. \<not> (tk_user t = ident \<and> tk_purpose t = ''reset'')) (account_tokens db) @ [t]
            \<and> tk_hash t = lib_digest lib (cl_token c 0) \<and> tk_purpose t = ''reset'' \<and> tk_user t = ident))"
proof (cases queue)
  case None
  with assms show ?thesis
    by (auto simp: request_reset_tx_def Let_def insert_row_Inr split: option.splits)
next
  case (Some origin)
  with assms show ?thesis
    by (auto simp: request_reset_tx_def Let_def insert_row_Inr dest!: enqueueD split: option.splits)
qed

lemma reset_txD:
  "reset_tx lib c token user salt hash db = Inr (r, db') \<Longrightarrow>
    users db' = upd_row u_id user (\<lambda>u. u\<lparr>u_salt := salt, u_hash := hash\<rparr>) (users db)
    \<and> account_tokens db' = filter (\<lambda>t. \<not> live_token lib ''reset'' token (cl_now c 1) t) (account_tokens db)
    \<and> (\<exists>t. filter (live_token lib ''reset'' token (cl_now c 1)) (account_tokens db) = [t])
    \<and> sessions db' = filter (\<lambda>s. ss_user s \<noteq> user) (sessions db)
    \<and> memberships db' = memberships db \<and> invitations db' = invitations db"
  by (auto simp: reset_tx_def Let_def length_Suc_conv dest!: auditD)

lemma revoke_where_keys [simp]:
  "map iv_id (revoke_where P is) = map iv_id is" "map iv_hash (revoke_where P is) = map iv_hash is"
  by (simp_all add: revoke_where_def)

lemma revoke_where_key_sets [simp]:
  "iv_id ` set (revoke_where P is) = iv_id ` set is" "iv_hash ` set (revoke_where P is) = iv_hash ` set is"
  by (simp_all flip: set_map)

lemma change_member_txD:
  assumes "change_member_tx lib c token workspace target role db = Inr (r, db')"
  shows "\<exists>actor m. authorizeOwner lib (cl_now c 0) token workspace db = Inr actor
    \<and> get_member target workspace db = Some m
    \<and> (mb_role m = role \<and> db' = db
       \<or> mb_role m \<noteq> role \<and> (mb_role m = ''owner'' \<longrightarrow> other_owners workspace target db \<noteq> [])
         \<and> memberships db' = set_role workspace target role (memberships db)
         \<and> sessions db' = filter (\<lambda>s. ss_user s \<noteq> target) (sessions db)
         \<and> (\<exists>P. invitations db' = revoke_where P (invitations db))
         \<and> users db' = users db \<and> account_tokens db' = account_tokens db)"
proof -
  obtain actor m where a: "authorizeOwner lib (cl_now c 0) token workspace db = Inr actor"
    "get_member target workspace db = Some m"
    using assms by (auto simp: change_member_tx_def)
  show ?thesis
  proof (cases "mb_role m = role")
    case True
    with assms a show ?thesis by (auto simp: change_member_tx_def Let_def andThen_simps some_or_simps)
  next
    case False
    have inv: "\<exists>P. invitations db = revoke_where P (invitations db)"
      by (rule exI [of _ "\<lambda>_. False"]) (simp add: revoke_where_def)
    from assms a False have "mb_role m = ''owner'' \<longrightarrow> other_owners workspace target db \<noteq> []"
      by (auto simp: change_member_tx_def Let_def andThen_simps some_or_simps)
    moreover from assms a False have "memberships db' = set_role workspace target role (memberships db)
         \<and> sessions db' = filter (\<lambda>s. ss_user s \<noteq> target) (sessions db)
         \<and> users db' = users db \<and> account_tokens db' = account_tokens db"
      by (auto simp: change_member_tx_def Let_def andThen_simps some_or_simps dest!: auditD)
    moreover from assms a False have "\<exists>P. invitations db' = revoke_where P (invitations db)"
      using inv
      by (auto simp: change_member_tx_def Let_def andThen_simps some_or_simps dest!: auditD split: if_splits)
    ultimately show ?thesis using a False by blast
  qed
qed

lemma invite_txD:
  "invite_tx lib origin c token workspace email role db = Inr (i, db') \<Longrightarrow>
    \<exists>actor. authorizeOwner lib (cl_now c 0) token workspace db = Inr actor
    \<and> i = \<lparr>iv_id = cl_token c 0, iv_hash = lib_digest lib (cl_token c 1), iv_workspace = workspace, iv_email = email,
            iv_role = role, iv_inviter = actor, iv_expires = cl_now c 1 + 604800, iv_state = InvitePending,
            iv_created = cl_now c 2\<rparr>
    \<and> invitations db' = revoke_where (\<lambda>i. iv_workspace i = workspace \<and> iv_email i = email) (invitations db) @ [i]
    \<and> iv_id i \<notin> iv_id ` set (invitations db) \<and> iv_hash i \<notin> iv_hash ` set (invitations db)
    \<and> users db' = users db \<and> memberships db' = memberships db \<and> sessions db' = sessions db
    \<and> account_tokens db' = account_tokens db"
  by (auto simp: invite_tx_def Let_def insert_row_Inr dest!: auditD enqueueD)

lemma revoke_txD:
  "revoke_tx lib c token workspace ident db = Inr (r, db') \<Longrightarrow>
    invitations db' = revoke_where (\<lambda>i. iv_id i = ident \<and> iv_workspace i = workspace) (invitations db)
    \<and> users db' = users db \<and> memberships db' = memberships db \<and> sessions db' = sessions db
    \<and> account_tokens db' = account_tokens db"
  by (auto simp: revoke_tx_def Let_def dest!: auditD)

lemma accept_txD:
  "accept_tx lib c token secret db = Inr (r, db') \<Longrightarrow>
    \<exists>u i. session_user lib (cl_now c 0) token db = Some u
    \<and> List.find (open_invitation lib secret (u_email u) (cl_now c 1) db) (invitations db) = Some i
    \<and> r = iv_workspace i \<and> get_member (u_id u) (iv_workspace i) db = None
    \<and> memberships db' = memberships db @ [\<lparr>mb_user = u_id u, mb_workspace = iv_workspace i, mb_role = iv_role i\<rparr>]
    \<and> (u_id u, iv_workspace i) \<notin> mb_key ` set (memberships db)
    \<and> invitations db' = upd_row iv_id (iv_id i) (\<lambda>i. i\<lparr>iv_state := InviteAccepted\<rparr>) (invitations db)
    \<and> users db' = users db \<and> sessions db' = sessions db \<and> account_tokens db' = account_tokens db"
  by (auto simp: accept_tx_def Let_def insert_row_Inr dest!: auditD)

text \<open>Account transactions do not touch the tables of the components that extend them.\<close>

lemma audit_more: "audit ident actor ws action now db = Inr db' \<Longrightarrow> accounts_db.more db' = accounts_db.more db"
  by (auto dest: auditD)

lemma enqueue_more: "enqueue lib origin c n user email token purpose k db = Inr db' \<Longrightarrow> accounts_db.more db' = accounts_db.more db"
  by (auto dest: enqueueD)

lemma register_more: "register_tx lib live queue c email salt hash ws db = Inr (r, db') \<Longrightarrow> accounts_db.more db' = accounts_db.more db"
  by (cases queue) (auto simp: register_tx_def Let_def dest!: audit_more enqueue_more)

lemma request_reset_more: "request_reset_tx lib queue c email db = Inr (r, db') \<Longrightarrow> accounts_db.more db' = accounts_db.more db"
  by (cases queue) (auto simp: request_reset_tx_def Let_def dest!: enqueue_more split: option.splits)

lemma change_member_more:
  "change_member_tx lib c token ws target role db = Inr (r, db') \<Longrightarrow> accounts_db.more db' = accounts_db.more db"
  by (auto simp: change_member_tx_def Let_def dest!: audit_more split: if_splits)

lemma acct_body_more:
  assumes "acct_body lib c t db = Inr (r, db')"
  shows "accounts_db.more db' = accounts_db.more db"
proof (cases t)
  case (TInvite origin token ws email role)
  with assms show ?thesis by (auto simp: invite_tx_def Let_def dest!: audit_more enqueue_more)
next
  case (TAccept token secret)
  with assms show ?thesis by (auto simp: accept_tx_def Let_def dest!: audit_more)
next
  case (TVerify token)
  with assms show ?thesis by (auto simp: verify_tx_def Let_def dest!: audit_more)
next
  case (TReset token user salt hash)
  with assms show ?thesis by (auto simp: reset_tx_def Let_def dest!: audit_more)
next
  case (TRevoke token ws ident)
  with assms show ?thesis by (auto simp: revoke_tx_def Let_def dest!: audit_more)
next
  case (TSession ident expected)
  with assms show ?thesis by (auto simp: session_tx_def Let_def dest!: audit_more)
qed (use assms in \<open>auto simp: logout_tx_def dest!: register_more request_reset_more change_member_more\<close>)

lemma find_is_some: "x \<in> set xs \<Longrightarrow> P x \<Longrightarrow> \<exists>y. List.find P xs = Some y"
  by (metis find_None_iff option.exhaust)

section \<open>Owners\<close>

definition members_ok :: "'x accounts_db_scheme \<Rightarrow> bool" where
  "members_ok db \<longleftrightarrow> distinct (map mb_key (memberships db))"

definition has_owner :: "string \<Rightarrow> 'x accounts_db_scheme \<Rightarrow> bool" where
  "has_owner workspace db \<longleftrightarrow>
     (\<exists>m \<in> set (memberships db). \<exists>u \<in> set (users db).
        mb_workspace m = workspace \<and> mb_role m = ''owner'' \<and> u_id u = mb_user m \<and> active_user u)"

lemma acct_body_active:
  assumes "acct_body lib c t db = Inr (r, db')" and "u \<in> set (users db)" and "active_user u"
  shows "\<exists>v \<in> set (users db'). u_id v = u_id u \<and> active_user v"
proof (cases t)
  case (TVerify token)
  with assms(1) have "verify_tx lib c token db = Inr (r, db')" by simp
  from verify_txD [OF this] obtain t :: account_token where
    "users db' = map (\<lambda>u. if u_id u = tk_user t \<and> \<not> u_disabled u then u\<lparr>u_verified := True\<rparr> else u) (users db)"
    by blast
  with assms(2,3) show ?thesis
    by (intro bexI [of _ "if u_id u = tk_user t \<and> \<not> u_disabled u then u\<lparr>u_verified := True\<rparr> else u"])
      (auto simp: active_user_def)
next
  case (TReset token user salt hash)
  with assms(1) have "reset_tx lib c token user salt hash db = Inr (r, db')" by simp
  from reset_txD [OF this] have "users db' = upd_row u_id user (\<lambda>u. u\<lparr>u_salt := salt, u_hash := hash\<rparr>) (users db)"
    by blast
  with assms(2,3) show ?thesis
    by (intro bexI [of _ "if u_id u = user then u\<lparr>u_salt := salt, u_hash := hash\<rparr> else u"])
      (auto simp: active_user_def set_upd_row)
next
  case (TChangeMember token workspace target role)
  with assms show ?thesis by (auto dest!: change_member_txD)
qed (use assms in \<open>auto dest!: register_txD session_txD logout_txD request_reset_txD invite_txD revoke_txD accept_txD\<close>)

lemma set_role_distinct:
  assumes "distinct (map mb_key ms)"
  shows "distinct (map mb_key (set_role ws target role ms))"
proof (cases "role = []")
  case True
  with assms show ?thesis by (simp add: set_role_def distinct_map_filter)
next
  case False
  then have "map mb_key (set_role ws target role ms) = map mb_key ms" by (simp add: set_role_def)
  with assms show ?thesis by (simp only:)
qed

lemma acct_body_members_ok:
  assumes "acct_body lib c t db = Inr (r, db')" and "members_ok db"
  shows "members_ok db'"
  using assms
  by (cases t) (auto simp: members_ok_def set_role_distinct dest!: register_txD verify_txD session_txD logout_txD
      request_reset_txD reset_txD change_member_txD invite_txD revoke_txD accept_txD)

lemma get_member_SomeD: "get_member user ws db = Some m \<Longrightarrow> m \<in> set (memberships db) \<and> mb_user m = user \<and> mb_workspace m = ws"
  by (auto simp: get_member_def dest: find_SomeD)

lemma member_unique:
  "members_ok db \<Longrightarrow> m \<in> set (memberships db) \<Longrightarrow> n \<in> set (memberships db) \<Longrightarrow> mb_key m = mb_key n \<Longrightarrow> m = n"
  by (auto simp: members_ok_def distinct_map inj_on_def)

lemma set_role_other:
  "m \<in> set ms \<Longrightarrow> \<not> (mb_workspace m = ws \<and> mb_user m = target) \<Longrightarrow> m \<in> set (set_role ws target role ms)"
  by (force simp: set_role_def)

text \<open>An owner membership survives, unless \<open>ChangeMember\<close> found another active owner.\<close>

lemma change_member_owner:
  assumes "change_member_tx lib c token workspace target role db = Inr (r, db')"
    and "members_ok db" and "has_owner k db"
  shows "has_owner k db'"
proof -
  from change_member_txD [OF assms(1)] obtain m where m: "get_member target workspace db = Some m"
    and eff: "mb_role m = role \<and> db' = db \<or> mb_role m \<noteq> role
      \<and> (mb_role m = ''owner'' \<longrightarrow> other_owners workspace target db \<noteq> [])
      \<and> memberships db' = set_role workspace target role (memberships db) \<and> users db' = users db" by blast
  obtain o1 u where o1: "o1 \<in> set (memberships db)" "u \<in> set (users db)" "mb_workspace o1 = k" "mb_role o1 = ''owner''"
    "u_id u = mb_user o1" "active_user u" using assms(3) by (auto simp: has_owner_def)
  show ?thesis
  proof (cases "mb_role m = role")
    case True
    with eff assms(3) show ?thesis by auto
  next
    case False
    with eff have ms: "memberships db' = set_role workspace target role (memberships db)" "users db' = users db"
      and other: "mb_role m = ''owner'' \<longrightarrow> other_owners workspace target db \<noteq> []" by auto
    show ?thesis
    proof (cases "mb_workspace o1 = workspace \<and> mb_user o1 = target")
      case False
      then have "o1 \<in> set (memberships db')" unfolding ms using o1(1) set_role_other by blast
      with o1 ms(2) show ?thesis unfolding has_owner_def by auto
    next
      case True
      with m o1(1) assms(2) have "m = o1" using get_member_SomeD [OF m] by (intro member_unique) auto
      with other o1(4) obtain o2 where "o2 \<in> set (other_owners workspace target db)"
        by (meson list.set_sel(1))
      then have o2: "o2 \<in> set (memberships db)" "mb_workspace o2 = workspace" "mb_user o2 \<noteq> target" "mb_role o2 = ''owner''"
        "\<exists>u \<in> set (users db). u_id u = mb_user o2 \<and> active_user u"
        by (auto simp: other_owners_def list_ex_iff)
      then have "o2 \<in> set (memberships db')" unfolding ms using set_role_other by blast
      with o2 True o1(3) ms(2) show ?thesis unfolding has_owner_def by auto
    qed
  qed
qed

lemma acct_body_memberships:
  assumes "acct_body lib c t db = Inr (r, db')" and "\<And>token ws target role. t \<noteq> TChangeMember token ws target role"
  shows "set (memberships db) \<subseteq> set (memberships db')"
  using assms
  by (cases t) (auto dest!: register_txD verify_txD session_txD logout_txD
      request_reset_txD reset_txD invite_txD revoke_txD accept_txD)

lemma acct_body_owner:
  assumes "acct_body lib c t db = Inr (r, db')" and "members_ok db" and "has_owner k db"
  shows "has_owner k db'"
proof (cases "\<exists>token ws target role. t = TChangeMember token ws target role")
  case True
  with assms change_member_owner show ?thesis by auto
next
  case False
  obtain m u where "m \<in> set (memberships db)" "u \<in> set (users db)" "mb_workspace m = k" "mb_role m = ''owner''"
    "u_id u = mb_user m" "active_user u" using assms(3) by (auto simp: has_owner_def)
  moreover have "set (memberships db) \<subseteq> set (memberships db')"
    using False by (intro acct_body_memberships [OF assms(1)]) auto
  ultimately show ?thesis
    using acct_body_active [OF assms(1), of u] unfolding has_owner_def by force
qed

interpretation owned: stable "acct_exec lib" "\<lambda>k db. members_ok db \<and> has_owner k db" for lib
proof
  fix k i and db :: "'x accounts_db_scheme"
  assume "members_ok db \<and> has_owner k db"
  then show "members_ok (snd (acct_exec lib i db)) \<and> has_owner k (snd (acct_exec lib i db))"
    unfolding acct_exec_def using acct_body_members_ok acct_body_owner
    by (intro in_tx_invariant [where P = "\<lambda>db. members_ok db \<and> has_owner k db"]) auto
qed

section \<open>The invariant of the account tables\<close>

abbreviation is_pending :: "invitation \<Rightarrow> bool" where
  "is_pending i \<equiv> iv_state i = InvitePending"

abbreviation iv_target :: "invitation \<Rightarrow> string \<times> string" where
  "iv_target i \<equiv> (iv_workspace i, iv_email i)"

definition invitations_ok :: "invitation list \<Rightarrow> bool" where
  "invitations_ok is \<longleftrightarrow>
     distinct (map iv_id is) \<and> distinct (map iv_hash is) \<and> distinct (map iv_target (filter is_pending is))"

definition users_ok :: "user list \<Rightarrow> bool" where
  "users_ok us \<longleftrightarrow> distinct (map u_id us) \<and> distinct (map u_email us)"

definition acct_inv :: "'x accounts_db_scheme \<Rightarrow> bool" where
  "acct_inv db \<longleftrightarrow>
     users_ok (users db) \<and> members_ok db \<and> distinct (map ss_hash (sessions db)) \<and> invitations_ok (invitations db)"

lemma pending_revoke_where: "filter is_pending (revoke_where P is) = filter (\<lambda>i. is_pending i \<and> \<not> P i) is"
  by (induction "is") (auto simp: revoke_where_def)

lemma invitations_ok_revoke: "invitations_ok is \<Longrightarrow> invitations_ok (revoke_where P is)"
  by (simp add: invitations_ok_def pending_revoke_where distinct_map_filter flip: filter_filter)

lemma invitations_ok_invite:
  assumes "invitations_ok is" and "iv_id i \<notin> iv_id ` set is" and "iv_hash i \<notin> iv_hash ` set is"
  shows "invitations_ok (revoke_where (\<lambda>j. iv_workspace j = iv_workspace i \<and> iv_email j = iv_email i) is @ [i])"
proof -
  let ?r = "revoke_where (\<lambda>j. iv_workspace j = iv_workspace i \<and> iv_email j = iv_email i) is"
  have "iv_target i \<notin> iv_target ` set (filter is_pending ?r)" by (auto simp: pending_revoke_where)
  with assms invitations_ok_revoke [OF assms(1)] show ?thesis by (simp add: invitations_ok_def)
qed

lemma invitations_ok_accept:
  assumes "invitations_ok is"
  shows "invitations_ok (upd_row iv_id k (\<lambda>i. i\<lparr>iv_state := InviteAccepted\<rparr>) is)"
proof -
  have "map iv_id (upd_row iv_id k (\<lambda>i. i\<lparr>iv_state := InviteAccepted\<rparr>) is) = map iv_id is"
    "map iv_hash (upd_row iv_id k (\<lambda>i. i\<lparr>iv_state := InviteAccepted\<rparr>) is) = map iv_hash is"
    by (simp_all add: map_upd_row)
  moreover have "distinct (map iv_target (filter is_pending (upd_row iv_id k (\<lambda>i. i\<lparr>iv_state := InviteAccepted\<rparr>) is)))"
    using assms by (intro distinct_upd_row_filter [THEN conjunct1]) (simp_all add: invitations_ok_def)
  ultimately show ?thesis using assms by (simp only: invitations_ok_def)
qed

lemma users_ok_update:
  assumes "users_ok us" and "\<And>u. u_id (f u) = u_id u \<and> u_email (f u) = u_email u"
  shows "users_ok (map f us)"
proof -
  have "map u_id (map f us) = map u_id us" "map u_email (map f us) = map u_email us" using assms(2) by simp_all
  with assms(1) show ?thesis by (simp only: users_ok_def)
qed

lemma acct_body_users_ok:
  assumes "acct_body lib c t db = Inr (r, db')" and "users_ok (users db)"
  shows "users_ok (users db')"
proof (cases t)
  case (TVerify token)
  with assms(1) have "verify_tx lib c token db = Inr (r, db')" by simp
  from verify_txD [OF this] show ?thesis using users_ok_update [OF assms(2)] by auto
next
  case (TReset token user salt hash)
  with assms(1) have "reset_tx lib c token user salt hash db = Inr (r, db')" by simp
  from reset_txD [OF this] show ?thesis using users_ok_update [OF assms(2)] by (auto simp: upd_row_def)
next
  case (TRegister live queue email salt hash workspace)
  with assms show ?thesis by (auto simp: users_ok_def dest!: register_txD)
next
  case (TChangeMember token workspace target role)
  with assms show ?thesis by (auto dest!: change_member_txD)
qed (use assms in \<open>auto dest!: session_txD logout_txD request_reset_txD invite_txD revoke_txD accept_txD\<close>)

lemma acct_body_sessions_ok:
  assumes "acct_body lib c t db = Inr (r, db')" and "distinct (map ss_hash (sessions db))"
  shows "distinct (map ss_hash (sessions db'))"
  using assms
  by (cases t) (auto simp: distinct_map_filter dest!: register_txD verify_txD session_txD logout_txD
      request_reset_txD reset_txD change_member_txD invite_txD revoke_txD accept_txD)

lemma acct_body_invitations_ok:
  assumes "acct_body lib c t db = Inr (r, db')" and "invitations_ok (invitations db)"
  shows "invitations_ok (invitations db')"
proof (cases t)
  case (TInvite origin token workspace email role)
  with assms(1) obtain i where "invite_tx lib origin c token workspace email role db = Inr (i, db')" by auto
  from invite_txD [OF this] show ?thesis using invitations_ok_invite [OF assms(2), of i] by auto
next
  case (TChangeMember token workspace target role)
  with assms show ?thesis by (auto dest!: change_member_txD simp: invitations_ok_revoke)
qed (use assms in \<open>auto simp: invitations_ok_revoke invitations_ok_accept dest!: register_txD verify_txD session_txD
      logout_txD request_reset_txD reset_txD revoke_txD accept_txD\<close>)

interpretation acct: transactional "acct_exec lib" "acct_inv" for lib
proof
  fix i e and db :: "'x accounts_db_scheme"
  show "acct_inv db \<Longrightarrow> acct_inv (snd (acct_exec lib i db))"
    unfolding acct_exec_def acct_inv_def
    using acct_body_users_ok acct_body_members_ok acct_body_sessions_ok acct_body_invitations_ok
    by (intro in_tx_invariant [where P = "\<lambda>db. users_ok (users db) \<and> members_ok db
          \<and> distinct (map ss_hash (sessions db)) \<and> invitations_ok (invitations db)"]) auto
  show "fst (acct_exec lib i db) = Inl e \<Longrightarrow> snd (acct_exec lib i db) = db"
    unfolding acct_exec_def by (rule in_tx_error)
qed

section \<open>Sessions and secrets\<close>

definition no_session :: "string \<Rightarrow> 'x accounts_db_scheme \<Rightarrow> bool" where
  "no_session user db \<longleftrightarrow> list_all (\<lambda>s. ss_user s \<noteq> user) (sessions db)"

text \<open>Only a completed login of the user opens a session for the user.\<close>

lemma acct_body_no_session:
  assumes "acct_body lib c t db = Inr (r, db')" and "no_session user db" and "\<forall>expected. t \<noteq> TSession user expected"
  shows "no_session user db'"
proof (cases t)
  case (TSession ident expected)
  with assms(3) have "ident \<noteq> user" by simp
  with assms(1,2) TSession show ?thesis by (auto simp: no_session_def list_all_iff dest!: session_txD)
qed (use assms(1,2) in \<open>auto simp: no_session_def list_all_iff dest!: register_txD verify_txD logout_txD
      request_reset_txD reset_txD change_member_txD invite_txD revoke_txD accept_txD\<close>)

lemma no_session_run:
  assumes "no_session user db" and "\<forall>(c, t) \<in> set is. \<forall>expected. t \<noteq> TSession user expected"
  shows "no_session user (run_ops (acct_exec lib) is db)"
proof (rule run_ops_preserves_set [where P = "no_session user", OF _ assms(1)])
  fix i and db :: "'a accounts_db_scheme"
  assume "i \<in> set is" "no_session user db"
  then show "no_session user (snd (acct_exec lib i db))"
    unfolding acct_exec_def using assms(2) acct_body_no_session
    by (intro in_tx_invariant [where P = "no_session user"]) fastforce+
qed

lemma no_session_user: "no_session user db \<Longrightarrow> session_user lib now token db = Some u \<Longrightarrow> u_id u \<noteq> user"
  by (auto simp: no_session_def session_user_def list_all_iff dest!: find_SomeD split: option.splits)

text \<open>An invitation that was accepted or revoked stays so, and no other can have its hash.\<close>

definition spent :: "string \<Rightarrow> 'x accounts_db_scheme \<Rightarrow> bool" where
  "spent h db \<longleftrightarrow> invitations_ok (invitations db) \<and> (\<exists>i \<in> set (invitations db). iv_hash i = h \<and> \<not> is_pending i)"

fun accepts :: "portal_lib \<Rightarrow> string \<Rightarrow> call \<times> acct_tx \<Rightarrow> bool" where
  "accepts lib h (c, TAccept token secret) = (lib_digest lib secret = h)"
| "accepts lib h _ = False"

lemma spent_revoke: "i \<in> set is \<Longrightarrow> iv_hash i = h \<Longrightarrow> \<not> is_pending i \<Longrightarrow> \<exists>i \<in> set (revoke_where P is). iv_hash i = h \<and> \<not> is_pending i"
  by (intro bexI [of _ i]) (auto simp: revoke_where_def image_iff intro!: bexI [of _ i])

lemma spent_accept:
  "i \<in> set is \<Longrightarrow> iv_hash i = h \<Longrightarrow> \<not> is_pending i \<Longrightarrow>
    \<exists>i \<in> set (upd_row iv_id k (\<lambda>i. i\<lparr>iv_state := InviteAccepted\<rparr>) is). iv_hash i = h \<and> \<not> is_pending i"
  by (intro bexI [of _ "if iv_id i = k then i\<lparr>iv_state := InviteAccepted\<rparr> else i"]) (auto simp: set_upd_row)

lemma acct_body_spent:
  assumes "acct_body lib c t db = Inr (r, db')" and "spent h db"
  shows "spent h db'"
proof -
  obtain i where i: "i \<in> set (invitations db)" "iv_hash i = h" "\<not> is_pending i" and ok: "invitations_ok (invitations db)"
    using assms(2) by (auto simp: spent_def)
  have "\<exists>i \<in> set (invitations db'). iv_hash i = h \<and> \<not> is_pending i"
  proof (cases t)
    case (TInvite origin token workspace email role)
    with assms(1) obtain j where "invite_tx lib origin c token workspace email role db = Inr (j, db')" by auto
    from invite_txD [OF this] show ?thesis using spent_revoke [OF i] by auto
  next
    case (TChangeMember token workspace target role)
    with assms(1) i show ?thesis using spent_revoke [OF i] by (auto dest!: change_member_txD)
  next
    case (TRevoke token workspace ident)
    with assms(1) show ?thesis using spent_revoke [OF i] by (auto dest!: revoke_txD)
  next
    case (TAccept token secret)
    with assms(1) show ?thesis using spent_accept [OF i] by (auto dest!: accept_txD)
  qed (use assms(1) i in \<open>auto dest!: register_txD verify_txD session_txD logout_txD request_reset_txD reset_txD\<close>)
  with acct_body_invitations_ok [OF assms(1) ok] show ?thesis by (simp add: spent_def)
qed

lemma open_invitation_pending:
  assumes "spent (lib_digest lib secret) db"
  shows "List.find (open_invitation lib secret email now db) (invitations db) = None"
proof -
  obtain i where i: "i \<in> set (invitations db)" "iv_hash i = lib_digest lib secret" "\<not> is_pending i"
    and "distinct (map iv_hash (invitations db))"
    using assms by (auto simp: spent_def invitations_ok_def)
  then have "j \<in> set (invitations db) \<Longrightarrow> iv_hash j = lib_digest lib secret \<Longrightarrow> j = i" for j
    by (auto simp: distinct_map inj_on_def)
  with i(3) show ?thesis by (auto simp: find_None_iff open_invitation_def)
qed

interpretation spent: latch "acct_exec lib" spent "accepts lib" for lib
proof
  fix h i and db :: "'x accounts_db_scheme"
  show "spent h db \<Longrightarrow> spent h (snd (acct_exec lib i db))"
    unfolding acct_exec_def using acct_body_spent by (intro in_tx_invariant [where P = "spent h"]) auto
  assume "spent h db" "accepts lib h i"
  then obtain c token secret where i: "i = (c, TAccept token secret)" "lib_digest lib secret = h"
    by (elim accepts.elims) auto
  with \<open>spent h db\<close> have "List.find (open_invitation lib secret email now db) (invitations db) = None" for email now
    using open_invitation_pending by blast
  then have "\<nexists>db'. acct_body lib c (TAccept token secret) db = Inr db'"
    by (auto simp: drop_value_def accept_tx_def)
  then show "\<exists>e. fst (acct_exec lib i db) = Inl e"
    unfolding acct_exec_def i in_tx_def with_tx_def
    by (cases "acct_body lib c (TAccept token secret) db") (auto split: option.splits)
qed

lemma find_append_fresh:
  "ss_hash r \<notin> ss_hash ` set rows \<Longrightarrow> ss_expires r > now \<Longrightarrow>
    List.find (\<lambda>q. ss_hash q = ss_hash r \<and> ss_expires q > now) (rows @ [r]) = Some r"
  by (induction rows) auto

section \<open>Properties\<close>

text \<open>
  The account tables stay consistent: after every history of the portal's account
  transactions, from the empty database, no two users share an id or an email address, no one
  has two roles in a workspace, and no two pending invitations address the same person for the
  same workspace.
\<close>

theorem accounts_stay_consistent:
  "acct_inv (run_ops (acct_exec lib) is empty_accounts_db)"
  by (rule acct.run_inv) (simp add: acct_inv_def empty_accounts_db_def users_ok_def members_ok_def invitations_ok_def)

text \<open>
  C34: A workspace that has an active owner keeps one. No history of account transactions leaves
  it without an owner whose account is verified and enabled.
\<close>

theorem active_owner_is_retained:
  assumes "acct_inv db" and "has_owner workspace db"
  shows "has_owner workspace (run_ops (acct_exec lib) is db)"
  using owned.run_latched [of db workspace] assms by (simp add: acct_inv_def)

text \<open>
  Changing or removing a member cuts off that member at once. After \<open>ChangeMember\<close> changed
  a role, no token authenticates as the member until the member logs in again, whatever else
  happens.
\<close>

theorem changed_member_loses_sessions:
  assumes "changeMember lib c token workspace target role db = (Inr (), db')"
    and "get_member target workspace db = Some m" and "mb_role m \<noteq> role"
    and "\<forall>(c, t) \<in> set is. \<forall>expected. t \<noteq> TSession target expected"
    and "session_user lib now token' (run_ops (acct_exec lib) is db') = Some u"
  shows "u_id u \<noteq> target"
proof -
  have "change_member_tx lib c token workspace target role db = Inr ((), db')"
    using assms(1) by (auto simp: changeMember_def in_tx_Inr_iff split: if_splits)
  from change_member_txD [OF this] assms(2,3) have "no_session target db'"
    by (auto simp: no_session_def list_all_iff)
  from no_session_run [OF this assms(4)] assms(5) show ?thesis by (rule no_session_user)
qed

text \<open>
  A successful login belongs to the password that is stored. The row that was compared
  holds the hash of the given password, the account is still active with that very hash when
  the session is opened, and the token authenticates as this account until it expires.
\<close>

theorem login_opens_current_session:
  assumes "login lib c1 c2 mid email password db = (Inr s, db')" and "now < sn_ExpiresAt s"
  shows "\<exists>u v. u \<in> set (users db) \<and> lib_argon lib password (u_salt u) = u_hash u
       \<and> v \<in> set (users db') \<and> active_user v \<and> u_id v = u_id u \<and> u_hash v = u_hash u
       \<and> session_user lib now (sn_Token s) db' = Some v"
proof -
  obtain u where u: "login_check lib c1 email password db = Inr u"
    and tx: "session_tx lib c2 (u_id u) (u_hash u) (run_ops (acct_exec lib) mid db) = Inr (s, db')"
    using assms(1) by (auto simp: login_def in_tx_Inr_iff split: sum.splits)
  have row: "u \<in> set (users db) \<and> lib_argon lib password (u_salt u) = u_hash u"
    using u by (auto simp: login_check_def dest: get_row_SomeD split: sum.splits if_splits option.splits)
  from session_txD [OF tx] obtain v where v: "List.find (\<lambda>v. u_id v = u_id u \<and> active_user v) (users db') = Some v"
    "u_hash v = u_hash u" and s: "s = \<lparr>sn_Token = cl_token c2 0, sn_Account = u_id u, sn_ExpiresAt = cl_now c2 0 + 86400\<rparr>"
    and fresh: "lib_digest lib (cl_token c2 0) \<notin> ss_hash ` set (sessions (run_ops (acct_exec lib) mid db))"
    and ss: "sessions db' = sessions (run_ops (acct_exec lib) mid db)
      @ [\<lparr>ss_hash = lib_digest lib (cl_token c2 0), ss_user = u_id u, ss_expires = cl_now c2 0 + 86400\<rparr>]"
    by auto
  have "List.find (\<lambda>r. ss_hash r = lib_digest lib (cl_token c2 0) \<and> ss_expires r > now) (sessions db')
      = Some \<lparr>ss_hash = lib_digest lib (cl_token c2 0), ss_user = u_id u, ss_expires = cl_now c2 0 + 86400\<rparr>"
    using find_append_fresh [of "\<lparr>ss_hash = lib_digest lib (cl_token c2 0), ss_user = u_id u,
          ss_expires = cl_now c2 0 + 86400\<rparr>"] fresh assms(2) by (simp add: ss s)
  with v(1) have "session_user lib now (sn_Token s) db' = Some v" by (simp add: session_user_def s)
  with row v find_SomeD [OF v(1)] show ?thesis by blast
qed

text \<open>
  C37: Resetting a password revokes what the old one gave. The account has the hash of the new
  password and no session left, the reset token cannot be used again, and a login whose
  password was checked against another hash before the reset cannot complete.
\<close>

theorem password_reset_revokes_access:
  assumes "resetPassword lib c1 c2 mid token password db = (Inr (), db')"
  shows "\<exists>t \<in> set (account_tokens db). live_token lib ''reset'' token (cl_now c1 0) t
       \<and> (\<forall>u \<in> set (users db'). u_id u = tk_user t \<longrightarrow> u_hash u = lib_argon lib password (u_salt u))
       \<and> no_session (tk_user t) db'
       \<and> (\<forall>now \<ge> cl_now c2 1. List.find (live_token lib ''reset'' token now) (account_tokens db') = None)
       \<and> (\<forall>c h. h \<noteq> lib_argon lib password (cl_bytes c1 0) \<longrightarrow> (\<exists>e. session_tx lib c (tk_user t) h db' = Inl e))"
proof -
  let ?db = "run_ops (acct_exec lib) mid db" and ?h = "lib_argon lib password (cl_bytes c1 0)"
  obtain t where t: "List.find (live_token lib ''reset'' token (cl_now c1 0)) (account_tokens db) = Some t"
    and tx: "reset_tx lib c2 token (tk_user t) (cl_bytes c1 0) ?h ?db = Inr ((), db')"
    using assms(1) by (auto simp: resetPassword_def hash_password_def in_tx_Inr_iff split: if_splits option.splits sum.splits)
  from reset_txD [OF tx] have us: "users db' = upd_row u_id (tk_user t) (\<lambda>u. u\<lparr>u_salt := cl_bytes c1 0, u_hash := ?h\<rparr>) (users ?db)"
    and ts: "account_tokens db' = filter (\<lambda>t. \<not> live_token lib ''reset'' token (cl_now c2 1) t) (account_tokens ?db)"
    and ss: "sessions db' = filter (\<lambda>s. ss_user s \<noteq> tk_user t) (sessions ?db)" by blast+
  have new: "u_hash u = ?h \<and> u_salt u = cl_bytes c1 0" if "u \<in> set (users db')" "u_id u = tk_user t" for u
    using that by (auto simp: us set_upd_row)
  have "List.find (live_token lib ''reset'' token now) (account_tokens db') = None" if "now \<ge> cl_now c2 1" for now
    using that by (auto simp: ts find_None_iff live_token_def)
  moreover have "\<exists>e. session_tx lib c (tk_user t) h db' = Inl e" if "h \<noteq> ?h" for c h
  proof (cases "List.find (\<lambda>v. u_id v = tk_user t \<and> active_user v) (users db')")
    case None
    then show ?thesis by (simp add: session_tx_def seq_simps)
  next
    case (Some v)
    with new [of v] find_SomeD [OF Some] that show ?thesis by (auto simp: session_tx_def seq_simps guard_def)
  qed
  moreover have "no_session (tk_user t) db'" by (simp add: no_session_def ss list_all_iff)
  ultimately show ?thesis using find_SomeD [OF t] new by (intro bexI [of _ t]) auto
qed

text \<open>
  An invitation admits the addressed person once. \<open>AcceptInvitation\<close> gives exactly the
  invited role to the signed-in recipient, on the word of someone who is an active owner now;
  afterwards the same link is refused after every history.
\<close>

theorem invitation_admits_once:
  assumes "acct_inv db" and "accept_tx lib c token secret db = Inr (workspace, db')"
  shows "\<exists>u i. session_user lib (cl_now c 0) token db = Some u \<and> i \<in> set (invitations db)
       \<and> iv_hash i = lib_digest lib secret \<and> iv_email i = u_email u \<and> iv_workspace i = workspace
       \<and> memberships db' = memberships db @ [\<lparr>mb_user = u_id u, mb_workspace = workspace, mb_role = iv_role i\<rparr>]
       \<and> has_owner workspace db
       \<and> (\<exists>e. fst (acct_exec lib (c', TAccept token' secret) (run_ops (acct_exec lib) is db')) = Inl e)"
proof -
  from accept_txD [OF assms(2)] obtain u i where u: "session_user lib (cl_now c 0) token db = Some u"
    and i: "List.find (open_invitation lib secret (u_email u) (cl_now c 1) db) (invitations db) = Some i"
    and eff: "workspace = iv_workspace i"
      "memberships db' = memberships db @ [\<lparr>mb_user = u_id u, mb_workspace = iv_workspace i, mb_role = iv_role i\<rparr>]"
      "invitations db' = upd_row iv_id (iv_id i) (\<lambda>i. i\<lparr>iv_state := InviteAccepted\<rparr>) (invitations db)"
    by blast
  from find_SomeD [OF i] have open_i: "i \<in> set (invitations db)" "open_invitation lib secret (u_email u) (cl_now c 1) db i"
    by blast+
  have "invitations_ok (invitations db')"
    using assms(1) eff(3) by (simp add: acct_inv_def invitations_ok_accept)
  moreover have "i\<lparr>iv_state := InviteAccepted\<rparr> \<in> set (invitations db')"
    using open_i(1) by (force simp: eff(3) set_upd_row)
  ultimately have "spent (lib_digest lib secret) db'"
    using open_i(2) unfolding spent_def open_invitation_def
    by (intro conjI bexI [of _ "i\<lparr>iv_state := InviteAccepted\<rparr>"]) simp_all
  then have "\<exists>e. fst (acct_exec lib (c', TAccept token' secret) (run_ops (acct_exec lib) is db')) = Inl e"
    by (rule spent.run_blocked) simp
  moreover have "has_owner workspace db"
    using open_i(2) eff(1) by (fastforce simp: open_invitation_def has_owner_def list_ex_iff)
  ultimately show ?thesis using u open_i eff by (auto simp: open_invitation_def)
qed

section \<open>Concrete instances\<close>

definition ax_lib :: portal_lib where
  "ax_lib = \<lparr>lib_digest = (\<lambda>s. ''#'' @ s), lib_lower = (\<lambda>s. s), lib_address = Some,
     lib_argon = (\<lambda>password salt. password @ salt), lib_escape = (\<lambda>s. s), lib_seal = (\<lambda>_ m _. mail_Text m)\<rparr>"

definition ax_call :: "char \<Rightarrow> call" where
  "ax_call ch = \<lparr>cl_drv = None, cl_now = (\<lambda>_. 100), cl_token = (\<lambda>n. ch # replicate n CHR ''+''),
     cl_bytes = (\<lambda>_. ''s''), cl_hash_ctx = False\<rparr>"

definition ax_user :: "string \<Rightarrow> user" where
  "ax_user name = \<lparr>u_id = name, u_email = name @ ''@x.eu'', u_salt = ''s'', u_hash = ''correct horse battery'' @ ''s'',
     u_verified = True, u_disabled = False, u_created = 1\<rparr>"

definition ax_member :: "string \<Rightarrow> string \<Rightarrow> membership" where
  "ax_member name role = \<lparr>mb_user = name, mb_workspace = ''w'', mb_role = role\<rparr>"

definition ax_invitation :: "invite_state \<Rightarrow> invitation" where
  "ax_invitation st = \<lparr>iv_id = ''i1'', iv_hash = ''#secret'', iv_workspace = ''w'', iv_email = ''carol@x.eu'',
     iv_role = ''developer'', iv_inviter = ''alice'', iv_expires = 1000, iv_state = st, iv_created = 1\<rparr>"

definition ax_db :: accounts_db where
  "ax_db = \<lparr>users = [ax_user ''alice'', ax_user ''bob'', ax_user ''carol''], workspaces = [\<lparr>ws_id = ''w'', ws_name = ''W''\<rparr>],
     memberships = [ax_member ''alice'' ''owner'', ax_member ''bob'' ''developer''],
     sessions = [\<lparr>ss_hash = ''#A'', ss_user = ''alice'', ss_expires = 500\<rparr>, \<lparr>ss_hash = ''#B'', ss_user = ''bob'', ss_expires = 500\<rparr>,
                 \<lparr>ss_hash = ''#C'', ss_user = ''carol'', ss_expires = 500\<rparr>],
     account_tokens = [\<lparr>tk_hash = ''#R'', tk_user = ''bob'', tk_purpose = ''reset'', tk_expires = 500\<rparr>],
     invitations = [ax_invitation InvitePending], mail_outbox = [], audit_events = [], hosting_policies = []\<rparr>"

lemmas ax_defs = ax_lib_def ax_call_def ax_user_def ax_member_def ax_invitation_def ax_db_def

lemma ax_inv: "acct_inv ax_db"
  by (simp add: acct_inv_def users_ok_def members_ok_def invitations_ok_def ax_defs)

lemma ax_owner: "has_owner ''w'' ax_db"
  by (simp add: has_owner_def active_user_def ax_defs)

theorem active_owner_is_retained_witness:
  "has_owner ''w'' (run_ops (acct_exec ax_lib) [(ax_call CHR ''x'', TChangeMember ''A'' ''w'' ''alice'' [])] ax_db)"
  using ax_inv ax_owner by (rule active_owner_is_retained)

lemma ax_change:
  "fst (changeMember ax_lib (ax_call CHR ''x'') ''A'' ''w'' ''bob'' [] ax_db) = Inr ()"
  by (simp add: changeMember_def in_tx_def with_tx_def change_member_tx_def authorizeOwner_def authorize_def
      session_user_def get_member_def audit_def insert_row_def set_role_def active_user_def seq_simps ax_defs)

theorem changed_member_loses_sessions_witness:
  "map_option u_id (session_user ax_lib 0 ''B'' (snd (changeMember ax_lib (ax_call CHR ''x'') ''A'' ''w'' ''bob'' [] ax_db)))
   \<noteq> Some ''bob''"
proof
  let ?db = "snd (changeMember ax_lib (ax_call CHR ''x'') ''A'' ''w'' ''bob'' [] ax_db)"
  assume "map_option u_id (session_user ax_lib 0 ''B'' ?db) = Some ''bob''"
  then obtain u where u: "session_user ax_lib 0 ''B'' ?db = Some u" "u_id u = ''bob''" by auto
  have m: "get_member ''bob'' ''w'' ax_db = Some (ax_member ''bob'' ''developer'')" by (simp add: get_member_def ax_defs)
  have "changeMember ax_lib (ax_call CHR ''x'') ''A'' ''w'' ''bob'' [] ax_db = (Inr (), ?db)"
    using ax_change by (simp add: prod_eq_iff)
  from changed_member_loses_sessions [OF this m, of "[]"] u show False by (simp add: ax_member_def)
qed

lemma ax_login:
  "fst (login ax_lib (ax_call CHR ''x'') (ax_call CHR ''y'') [] ''bob@x.eu'' ''correct horse battery'' ax_db)
   = Inr \<lparr>sn_Token = ''y'', sn_Account = ''bob'', sn_ExpiresAt = 86500\<rparr>"
proof -
  have "normalizeEmail ax_lib ''bob@x.eu'' = Inr ''bob@x.eu''"
    by (simp add: normalizeEmail_def trimSpace_def trim_left.simps trim_right.simps last_space_def space_len_def
        byte_of_def ax_lib_def)
  then show ?thesis
    by (simp add: login_def login_check_def in_tx_def with_tx_def session_tx_def audit_def insert_row_def
        active_user_def seq_simps ax_defs)
qed

theorem login_opens_current_session_witness:
  "\<exists>v. session_user ax_lib 200 ''y''
     (snd (login ax_lib (ax_call CHR ''x'') (ax_call CHR ''y'') [] ''bob@x.eu'' ''correct horse battery'' ax_db)) = Some v"
  using login_opens_current_session [of ax_lib "ax_call CHR ''x''" "ax_call CHR ''y''" "[]" "''bob@x.eu''"
      "''correct horse battery''" ax_db "\<lparr>sn_Token = ''y'', sn_Account = ''bob'', sn_ExpiresAt = 86500\<rparr>" _ 200] ax_login
  by (simp add: prod_eq_iff) blast

lemma ax_reset:
  "fst (resetPassword ax_lib (ax_call CHR ''x'') (ax_call CHR ''y'') [] ''R'' ''new long password'' ax_db) = Inr ()"
  by (simp add: resetPassword_def validPassword_def live_token_def hash_password_def in_tx_def with_tx_def reset_tx_def
      audit_def insert_row_def seq_simps ax_defs)

theorem password_reset_revokes_access_witness:
  "no_session ''bob'' (snd (resetPassword ax_lib (ax_call CHR ''x'') (ax_call CHR ''y'') [] ''R'' ''new long password'' ax_db))"
proof -
  have "\<exists>t \<in> set (account_tokens ax_db).
      no_session (tk_user t) (snd (resetPassword ax_lib (ax_call CHR ''x'') (ax_call CHR ''y'') [] ''R'' ''new long password'' ax_db))"
    using password_reset_revokes_access [of ax_lib "ax_call CHR ''x''" "ax_call CHR ''y''" "[]" "''R''" "''new long password''"
        ax_db] ax_reset by (simp add: prod_eq_iff) blast
  then show ?thesis by (simp add: ax_db_def)
qed

lemma ax_accept: "\<exists>db'. accept_tx ax_lib (ax_call CHR ''x'') ''C'' ''secret'' ax_db = Inr (''w'', db')"
  by (simp add: accept_tx_def session_user_def open_invitation_def get_member_def audit_def insert_row_def active_user_def
      seq_simps ax_defs)

theorem invitation_admits_once_witness:
  "\<exists>db'. accept_tx ax_lib (ax_call CHR ''x'') ''C'' ''secret'' ax_db = Inr (''w'', db')
     \<and> (\<exists>e. fst (acct_exec ax_lib (ax_call CHR ''z'', TAccept ''C'' ''secret'') db') = Inl e)"
proof -
  obtain db' where a: "accept_tx ax_lib (ax_call CHR ''x'') ''C'' ''secret'' ax_db = Inr (''w'', db')"
    using ax_accept by blast
  from invitation_admits_once [OF ax_inv a, of "ax_call CHR ''z''" "''C''" "[]"]
  have "\<exists>e. fst (acct_exec ax_lib (ax_call CHR ''z'', TAccept ''C'' ''secret'') db') = Inl e" by auto
  with a show ?thesis by blast
qed

end
