(* ===== verification/Portal_Hosting.thy ===== *)
theory Portal_Hosting
  imports Portal_Accounts
begin

text \<open>
  \<open>internal/portal\<close>, what a workspace may host: \<open>hosting_access.go\<close> (is hosting paid for now),
  \<open>hosting_limits.go\<close> (what the paid plan allows), \<open>project_capacity.go\<close>, the project
  operations of \<open>store.go\<close> and \<open>uploads.go\<close>. The record of tables extends the account tables.
\<close>

section \<open>Tables\<close>

text \<open>A nullable column with JSON: absent, empty, the decoded value, or bytes that do not decode.\<close>

datatype 'a column = Null | EmptyBlob | Json 'a | BadJson

text \<open>A NULL and an empty blob both scan into a nil byte slice.\<close>

definition scans_nil :: "'a column \<Rightarrow> bool" where
  "scans_nil d \<longleftrightarrow> (case d of Null \<Rightarrow> True | EmptyBlob \<Rightarrow> True | Json _ \<Rightarrow> False | BadJson \<Rightarrow> False)"

record subscription_snapshot =
  sp_ID :: string
  sp_CustomerID :: string
  sp_PriceID :: string
  sp_Status :: string
  sp_PeriodStart :: int
  sp_PeriodEnd :: int
  sp_CancelAtPeriodEnd :: bool
  sp_CollectionPaused :: bool
  sp_InvoiceID :: string
  sp_InvoiceStatus :: string
  sp_InvoiceRemaining :: int
  sp_ObservedAt :: int

record charge_observation =
  co_Disputes :: "(string \<times> string) list"
  co_DisputesChecked :: bool
  co_ChargeID :: string
  co_CustomerID :: string
  co_PaymentIntentID :: string
  co_InvoiceID :: string
  co_SubscriptionID :: string
  co_Currency :: string
  co_AmountCaptured :: int
  co_AmountRefunded :: int
  co_Disputed :: bool
  co_ObservedAt :: int

record plan_limits =
  hl_Projects :: int
  hl_Uploads :: int
  hl_UploadBytes :: int
  hl_Node :: bool

record billing_subscription =
  bs_mode :: string
  bs_id :: string
  bs_checkout :: string
  bs_workspace :: string
  bs_customer :: string
  bs_plan :: string
  bs_price :: string
  bs_state :: string
  bs_first_event :: string
  bs_generation :: int
  bs_snapshot :: "subscription_snapshot column"

record billing_checkout =
  bc_mode :: string
  bc_id :: string
  bc_workspace :: string
  bc_actor :: string
  bc_customer :: string
  bc_plan :: string
  bc_price :: string
  bc_session :: "string option"
  bc_url :: string
  bc_state :: string
  bc_created :: int
  bc_limits :: "plan_limits column"

record billing_customer =
  cu_mode :: string
  cu_workspace :: string
  cu_request :: string
  cu_actor :: string
  cu_email :: string
  cu_customer :: "string option"
  cu_created :: int

record billing_charge =
  ch_mode :: string
  ch_id :: string
  ch_generation :: int
  ch_subscription :: "string option"
  ch_customer :: "string option"
  ch_invoice :: string
  ch_payment :: string
  ch_snapshot :: "charge_observation column"
  ch_next_refresh :: int

record project =
  p_id :: string
  p_workspace :: string
  p_name :: string
  p_kind :: string
  p_deletion_requested_at :: int
  p_deletion_error :: string

record upload =
  up_id :: string
  up_project :: string
  up_sha256 :: string
  up_files :: int
  up_expanded :: int
  up_archive :: string
  up_created :: int

record hosting_db = accounts_db +
  billing_subscriptions :: "billing_subscription list"
  billing_checkouts :: "billing_checkout list"
  billing_customers :: "billing_customer list"
  billing_charges :: "billing_charge list"
  projects :: "project list"
  uploads :: "upload list"

text \<open>The configuration of the store.\<close>

record store_config =
  sc_billingMode :: string
  sc_containerProjects :: bool
  sc_projectCapacity :: int
  sc_nodeCapacity :: int

definition billingModeValue :: "store_config \<Rightarrow> string" where
  "billingModeValue cfg = (if sc_billingMode cfg = ''live'' then ''live'' else ''test'')"

section \<open>hosting_access.go\<close>

record entitlement =
  en_Plan :: string
  en_Limits :: "plan_limits option"

definition freshObservation :: "int \<Rightarrow> int \<Rightarrow> bool" where
  "freshObservation observed now \<longleftrightarrow> 0 < observed \<and> observed \<le> now \<and> now - observed < 900"

definition zero_limits :: plan_limits where
  "zero_limits = \<lparr>hl_Projects = 0, hl_Uploads = 0, hl_UploadBytes = 0, hl_Node = False\<rparr>"

definition limits_in_range :: "plan_limits \<Rightarrow> bool" where
  "limits_in_range l \<longleftrightarrow>
     1 \<le> hl_Projects l \<and> hl_Projects l \<le> 100 \<and> 1 \<le> hl_Uploads l \<and> hl_Uploads l \<le> 20
     \<and> 1 \<le> hl_UploadBytes l \<and> hl_UploadBytes l \<le> 104857600"

text \<open>
  \<open>decodeHostingLimits\<close>; the query turns an empty blob into the JSON text null, which decodes
  to the zero value.
\<close>

definition decodeHostingLimits :: "plan_limits column \<Rightarrow> plan_limits option result" where
  "decodeHostingLimits d =
     (case d of
        Null \<Rightarrow> Inr None
      | BadJson \<Rightarrow> Inl ErrBillingConflict
      | EmptyBlob \<Rightarrow> if limits_in_range zero_limits then Inr (Some zero_limits) else Inl ErrBillingConflict
      | Json l \<Rightarrow> if limits_in_range l then Inr (Some l) else Inl ErrBillingConflict)"

definition paid_now :: "int \<Rightarrow> subscription_snapshot \<Rightarrow> bool" where
  "paid_now now sp \<longleftrightarrow>
     \<not> (sp_Status sp \<noteq> ''active'' \<or> sp_CollectionPaused sp \<or> sp_PeriodStart sp \<le> 0 \<or> sp_PeriodEnd sp \<le> sp_PeriodStart sp
        \<or> now < sp_PeriodStart sp \<or> now \<ge> sp_PeriodEnd sp \<or> sp_InvoiceID sp = [] \<or> sp_InvoiceStatus sp \<noteq> ''paid''
        \<or> sp_InvoiceRemaining sp \<noteq> 0 \<or> \<not> freshObservation (sp_ObservedAt sp) now)"

definition dispute_settled :: "string \<times> string \<Rightarrow> bool" where
  "dispute_settled d \<longleftrightarrow> \<not> (fst d = [] \<or> (snd d \<noteq> ''won'' \<and> snd d \<noteq> ''warning_closed''))"

definition invoice_charges :: "string \<Rightarrow> billing_subscription \<Rightarrow> string \<Rightarrow> 'x hosting_db_scheme \<Rightarrow> billing_charge list" where
  "invoice_charges mode s invoice db =
     filter (\<lambda>ch. ch_mode ch = mode \<and> ch_subscription ch = Some (bs_id s) \<and> ch_customer ch = Some (bs_customer s)
               \<and> ch_invoice ch = invoice)
       (billing_charges db)"

text \<open>
  The charge of the invoice: \<open>Inr True\<close> when it is good evidence, \<open>Inr False\<close> when the loop
  goes on with the next subscription.
\<close>

definition charge_evidence ::
  "billing_subscription \<Rightarrow> subscription_snapshot \<Rightarrow> int \<Rightarrow> billing_charge \<Rightarrow> bool result" where
  "charge_evidence s sp now ch =
     (if scans_nil (ch_snapshot ch) \<or> ch_subscription ch \<noteq> Some (bs_id s) \<or> ch_customer ch \<noteq> Some (bs_customer s)
         \<or> ch_invoice ch \<noteq> sp_InvoiceID sp \<or> ch_payment ch = [] then Inr False
      else case ch_snapshot ch of
        Json ob \<Rightarrow>
          if co_ChargeID ob \<noteq> ch_id ch \<or> co_SubscriptionID ob \<noteq> bs_id s \<or> co_CustomerID ob \<noteq> bs_customer s
             \<or> co_InvoiceID ob \<noteq> sp_InvoiceID sp \<or> co_PaymentIntentID ob \<noteq> ch_payment ch \<or> co_AmountCaptured ob \<le> 0
             \<or> co_AmountRefunded ob < 0 \<or> co_AmountRefunded ob > co_AmountCaptured ob
          then Inl ErrHostingEvidence
          else if \<not> freshObservation (co_ObservedAt ob) now \<or> co_Disputed ob \<or> \<not> co_DisputesChecked ob
                  \<or> co_AmountRefunded ob \<noteq> 0
          then Inr False
          else Inr (list_all dispute_settled (co_Disputes ob))
      | _ \<Rightarrow> Inl ErrHostingEvidence)"

text \<open>One turn of the loop over subscriptions: \<open>Inr None\<close> is \<open>continue\<close>.\<close>

definition subscription_turn ::
  "string \<Rightarrow> int \<Rightarrow> 'x hosting_db_scheme \<Rightarrow> billing_subscription \<times> billing_checkout \<Rightarrow> entitlement option result" where
  "subscription_turn mode now db sc =
     (case sc of (s, c) \<Rightarrow>
        if scans_nil (bs_snapshot s) \<or> bc_customer c = [] \<or> bc_customer c \<noteq> bs_customer s \<or> bc_price c = [] then Inr None
        else case bs_snapshot s of
          Json sp \<Rightarrow>
            if sp_ID sp \<noteq> bs_id s \<or> sp_CustomerID sp \<noteq> bs_customer s \<or> sp_PriceID sp \<noteq> bs_price s \<or> sp_PriceID sp \<noteq> bc_price c
            then Inl ErrHostingEvidence
            else if \<not> paid_now now sp then Inr None
            else (case invoice_charges mode s (sp_InvoiceID sp) db of
                    [] \<Rightarrow> Inr None
                  | [ch] \<Rightarrow>
                      andThen (charge_evidence s sp now ch) (\<lambda>good.
                      if \<not> good then Inr None
                      else andThen (decodeHostingLimits (bc_limits c)) (\<lambda>limits.
                           Inr (Some \<lparr>en_Plan = bs_plan s, en_Limits = limits\<rparr>)))
                  | _ \<Rightarrow> Inl ErrHostingEvidence)
        | _ \<Rightarrow> Inl ErrHostingEvidence)"

fun subscription_loop ::
  "string \<Rightarrow> int \<Rightarrow> 'x hosting_db_scheme \<Rightarrow> (billing_subscription \<times> billing_checkout) list \<Rightarrow> entitlement result" where
  "subscription_loop mode now db [] = Inl ErrHostingPayment"
| "subscription_loop mode now db (sc # rest) =
     andThen (subscription_turn mode now db sc) (\<lambda>e.
       case e of Some en \<Rightarrow> Inr en | None \<Rightarrow> subscription_loop mode now db rest)"

text \<open>The joined rows of the query, in the order of the subscription ids.\<close>

definition subscription_rows :: "string \<Rightarrow> string \<Rightarrow> 'x hosting_db_scheme \<Rightarrow> (billing_subscription \<times> billing_checkout) list" where
  "subscription_rows mode workspace db =
     sort_key (\<lambda>(s, c). bs_id s)
       (concat (map (\<lambda>s. concat (map (\<lambda>c. map (\<lambda>_. (s, c))
            (filter (\<lambda>cu. cu_mode cu = bs_mode s \<and> cu_workspace cu = bs_workspace s \<and> cu_customer cu = Some (bs_customer s))
               (billing_customers db)))
          (filter (\<lambda>c. bc_mode c = bs_mode s \<and> bc_id c = bs_checkout s \<and> bc_workspace c = bs_workspace s
                       \<and> bc_customer c = bs_customer s \<and> bc_plan c = bs_plan s \<and> bc_price c = bs_price s
                       \<and> bc_state c = ''completed'') (billing_checkouts db))))
        (filter (\<lambda>s. bs_mode s = mode \<and> bs_workspace s = workspace) (billing_subscriptions db))))"

definition qualifyingHostingEntitlement ::
  "store_config \<Rightarrow> int \<Rightarrow> string \<Rightarrow> 'x hosting_db_scheme \<Rightarrow> entitlement option result" where
  "qualifyingHostingEntitlement cfg now workspace db =
     (case get_row fst workspace (hosting_policies db) of
        None \<Rightarrow> Inr None
      | Some (_, required) \<Rightarrow>
          if \<not> required then Inr None
          else andThen (subscription_loop (billingModeValue cfg) now db
                          (subscription_rows (billingModeValue cfg) workspace db)) (\<lambda>e. Inr (Some e)))"

definition configure_policy_tx ::
  "call \<Rightarrow> string \<Rightarrow> bool \<Rightarrow> 'x hosting_db_scheme \<Rightarrow> (unit \<times> 'x hosting_db_scheme) result" where
  "configure_policy_tx c workspace required db =
     andThen (guard Portal_ErrInvalid (workspace \<noteq> [])) (\<lambda>_.
     andThen (guard ErrDenied (list_ex (\<lambda>w. ws_id w = workspace) (workspaces db))) (\<lambda>_.
     let ps = (if list_ex (\<lambda>p. fst p = workspace) (hosting_policies db)
               then upd_row fst workspace (\<lambda>_. (workspace, required)) (hosting_policies db)
               else hosting_policies db @ [(workspace, required)])
     in andThen (audit (cl_token c 0) ''operator'' workspace ''hosting.policy.configured'' (cl_now c 0)
                   (db\<lparr>hosting_policies := ps\<rparr>)) (\<lambda>db1. Inr ((), db1))))"

section \<open>hosting_limits.go\<close>

definition workspaceHostingLimits ::
  "store_config \<Rightarrow> int \<Rightarrow> string \<Rightarrow> 'x hosting_db_scheme \<Rightarrow> plan_limits option result" where
  "workspaceHostingLimits cfg now workspace db =
     andThen (qualifyingHostingEntitlement cfg now workspace db) (\<lambda>e.
       Inr (case e of None \<Rightarrow> None | Some en \<Rightarrow> en_Limits en))"

definition runs_code :: "string \<Rightarrow> bool" where
  "runs_code kind \<longleftrightarrow> kind = ''node'' \<or> kind = ''container''"

definition requireHostingKind :: "store_config \<Rightarrow> int \<Rightarrow> string \<Rightarrow> string \<Rightarrow> 'x hosting_db_scheme \<Rightarrow> unit result" where
  "requireHostingKind cfg now workspace kind db =
     andThen (workspaceHostingLimits cfg now workspace db) (\<lambda>limits.
       case limits of
         None \<Rightarrow> Inr ()
       | Some l \<Rightarrow> guard ErrHostingPlanLimit (\<not> (runs_code kind \<and> \<not> hl_Node l)))"

definition workspace_projects :: "string \<Rightarrow> 'x hosting_db_scheme \<Rightarrow> project list" where
  "workspace_projects workspace db = filter (\<lambda>p. p_workspace p = workspace) (projects db)"

definition requireHostingProject :: "store_config \<Rightarrow> int \<Rightarrow> string \<Rightarrow> string \<Rightarrow> 'x hosting_db_scheme \<Rightarrow> unit result" where
  "requireHostingProject cfg now workspace kind db =
     andThen (workspaceHostingLimits cfg now workspace db) (\<lambda>limits.
       case limits of
         None \<Rightarrow> Inr ()
       | Some l \<Rightarrow>
           andThen (guard ErrHostingPlanLimit (\<not> (runs_code kind \<and> \<not> hl_Node l))) (\<lambda>_.
             guard ErrHostingPlanLimit (\<not> int (length (workspace_projects workspace db)) \<ge> hl_Projects l)))"

definition requireHostingUpload ::
  "store_config \<Rightarrow> int \<Rightarrow> string \<Rightarrow> int \<Rightarrow> int \<Rightarrow> int \<Rightarrow> 'x hosting_db_scheme \<Rightarrow> unit result" where
  "requireHostingUpload cfg now workspace count stored incoming db =
     andThen (workspaceHostingLimits cfg now workspace db) (\<lambda>limits.
       case limits of
         None \<Rightarrow> Inr ()
       | Some l \<Rightarrow>
           guard ErrHostingPlanLimit
             (\<not> (count \<ge> hl_Uploads l \<or> incoming < 0 \<or> stored > hl_UploadBytes l \<or> incoming > hl_UploadBytes l - stored)))"

definition requireProjectHostingAccess :: "store_config \<Rightarrow> int \<Rightarrow> string \<Rightarrow> 'x hosting_db_scheme \<Rightarrow> unit result" where
  "requireProjectHostingAccess cfg now ident db =
     andThen (some_or ErrDenied (get_row p_id ident (projects db))) (\<lambda>p.
       requireHostingKind cfg now (p_workspace p) (p_kind p) db)"

text \<open>The uploads of a workspace: the join of uploads with its projects.\<close>

definition workspace_uploads :: "string \<Rightarrow> 'x hosting_db_scheme \<Rightarrow> upload list" where
  "workspace_uploads workspace db =
     filter (\<lambda>u. list_ex (\<lambda>p. p_id p = up_project u \<and> p_workspace p = workspace) (projects db)) (uploads db)"

definition upload_bytes :: "upload list \<Rightarrow> int" where
  "upload_bytes us = sum_list (map (\<lambda>u. int (length (up_archive u))) us)"

record hosting_usage =
  hu_Projects :: int
  hu_Uploads :: int
  hu_UploadBytes :: int

definition hostingUsage :: "string \<Rightarrow> 'x hosting_db_scheme \<Rightarrow> hosting_usage" where
  "hostingUsage workspace db =
     \<lparr>hu_Projects = int (length (workspace_projects workspace db)),
      hu_Uploads = int (length (workspace_uploads workspace db)),
      hu_UploadBytes = upload_bytes (workspace_uploads workspace db)\<rparr>"

record hosting_access =
  ha_Mode :: string
  ha_Allowed :: bool
  ha_Plan :: string
  ha_Limits :: "plan_limits option"
  ha_Usage :: hosting_usage

definition workspaceHostingAccess ::
  "portal_lib \<Rightarrow> store_config \<Rightarrow> call \<Rightarrow> string \<Rightarrow> string \<Rightarrow> 'x hosting_db_scheme \<Rightarrow> hosting_access result" where
  "workspaceHostingAccess lib cfg c token workspace db =
     (case cl_drv c of
        Some e \<Rightarrow> Inl e
      | None \<Rightarrow>
          andThen (authorize lib (cl_now c 0) token workspace False db) (\<lambda>_.
          let usage = hostingUsage workspace db;
              required = (case get_row fst workspace (hosting_policies db) of None \<Rightarrow> False | Some (_, r) \<Rightarrow> r)
          in if \<not> required
             then Inr \<lparr>ha_Mode = ''legacy'', ha_Allowed = True, ha_Plan = [], ha_Limits = None, ha_Usage = usage\<rparr>
             else
               let mode = billingModeValue cfg @ ''_subscription'' in
               (case qualifyingHostingEntitlement cfg (cl_now c 1) workspace db of
                  Inl e \<Rightarrow> if e = ErrHostingPayment
                    then Inr \<lparr>ha_Mode = mode, ha_Allowed = False, ha_Plan = [], ha_Limits = None, ha_Usage = usage\<rparr>
                    else Inl e
                | Inr None \<Rightarrow> Inr \<lparr>ha_Mode = mode, ha_Allowed = True, ha_Plan = [], ha_Limits = None, ha_Usage = usage\<rparr>
                | Inr (Some en) \<Rightarrow>
                    Inr \<lparr>ha_Mode = mode, ha_Allowed = True, ha_Plan = en_Plan en, ha_Limits = en_Limits en,
                         ha_Usage = usage\<rparr>)))"

section \<open>Projects\<close>

definition capacityAvailable :: "store_config \<Rightarrow> 'x hosting_db_scheme \<Rightarrow> bool \<times> bool" where
  "capacityAvailable cfg db =
     (if sc_projectCapacity cfg = 0 then (True, True)
      else let room = int (length (projects db)) < sc_projectCapacity cfg;
               node = int (length (filter (\<lambda>p. runs_code (p_kind p)) (projects db)))
           in (room, room \<and> node < sc_nodeCapacity cfg))"

definition configureProjectCapacity :: "int \<Rightarrow> int \<Rightarrow> store_config \<Rightarrow> store_config result" where
  "configureProjectCapacity capacity node cfg =
     (if capacity < 0 \<or> node < 0 \<or> capacity > 50 \<or> node > capacity then Inl Portal_ErrInvalid
      else Inr (cfg\<lparr>sc_projectCapacity := capacity, sc_nodeCapacity := node\<rparr>))"

record availability =
  av_Used :: int
  av_Limit :: "int option"
  av_Static :: bool
  av_Node :: bool
  av_Container :: bool
  av_CapacityConfigured :: bool
  av_Message :: string

definition availability_message :: "bool \<Rightarrow> bool \<Rightarrow> bool \<Rightarrow> string" where
  "availability_message full static node =
     (if full then ''Your workspace website allowance is full. Remove an unused website or contact support.''
      else if \<not> static \<and> \<not> node then ''Hosting capacity is currently full. Contact support before adding another website.''
      else if \<not> node then ''Static websites are available. Node.js websites are unavailable under the current plan or hosting capacity.''
      else ''Space is checked again when you create a website. Websites being removed count until cleanup finishes.'')"

definition projectAvailability ::
  "portal_lib \<Rightarrow> store_config \<Rightarrow> call \<Rightarrow> string \<Rightarrow> string \<Rightarrow> 'x hosting_db_scheme \<Rightarrow> availability result" where
  "projectAvailability lib cfg c token workspace db =
     (case cl_drv c of
        Some e \<Rightarrow> Inl e
      | None \<Rightarrow>
          andThen (authorize lib (cl_now c 0) token workspace False db) (\<lambda>_.
          andThen (workspaceHostingLimits cfg (cl_now c 1) workspace db) (\<lambda>limits.
          let used = int (length (workspace_projects workspace db));
              (static0, node0) = capacityAvailable cfg db;
              full = (case limits of None \<Rightarrow> False | Some l \<Rightarrow> used \<ge> hl_Projects l);
              node1 = (node0 \<and> (case limits of None \<Rightarrow> True | Some l \<Rightarrow> hl_Node l));
              static = (static0 \<and> \<not> full);
              node = (node1 \<and> \<not> full)
          in Inr \<lparr>av_Used = used, av_Limit = map_option hl_Projects limits, av_Static = static, av_Node = node,
                  av_Container = (sc_containerProjects cfg \<and> node),
                  av_CapacityConfigured = (sc_projectCapacity cfg > 0),
                  av_Message = availability_message full static node\<rparr>)))"

definition create_project_tx ::
  "portal_lib \<Rightarrow> store_config \<Rightarrow> call \<Rightarrow> string \<Rightarrow> string \<Rightarrow> string \<Rightarrow> string \<Rightarrow> 'x hosting_db_scheme
    \<Rightarrow> (project \<times> 'x hosting_db_scheme) result" where
  "create_project_tx lib cfg c token workspace name kind db =
     andThen (authorize lib (cl_now c 0) token workspace True db) (\<lambda>actor.
     andThen (requireHostingProject cfg (cl_now c 1) workspace kind db) (\<lambda>_.
     andThen (guard ErrExists (\<not> list_ex (\<lambda>p. p_workspace p = workspace \<and> p_name p = name) (projects db))) (\<lambda>_.
     case capacityAvailable cfg db of (staticRoom, nodeRoom) \<Rightarrow>
     andThen (guard ErrHostingCapacity (\<not> (kind = ''static'' \<and> \<not> staticRoom \<or> runs_code kind \<and> \<not> nodeRoom))) (\<lambda>_.
     let p = \<lparr>p_id = cl_token c 0, p_workspace = workspace, p_name = name, p_kind = kind,
              p_deletion_requested_at = 0, p_deletion_error = []\<rparr>
     in andThen (insert_row p_id p (projects db)) (\<lambda>ps.
        andThen (audit (cl_token c 1) actor workspace ''project.created'' (cl_now c 2) (db\<lparr>projects := ps\<rparr>)) (\<lambda>db1.
        Inr (p, db1)))))))"

definition createProject ::
  "portal_lib \<Rightarrow> store_config \<Rightarrow> call \<Rightarrow> string \<Rightarrow> string \<Rightarrow> string \<Rightarrow> string \<Rightarrow> 'x hosting_db_scheme
    \<Rightarrow> project result \<times> 'x hosting_db_scheme" where
  "createProject lib cfg c token workspace name kind db =
     (if kind = ''container'' \<and> \<not> sc_containerProjects cfg then (Inl ErrContainerUnavailable, db)
      else let name' = trimSpace name in
        if name' = [] \<or> length name' > 100 \<or> (kind \<noteq> ''static'' \<and> kind \<noteq> ''node'' \<and> kind \<noteq> ''container'')
        then (Inl Portal_ErrInvalid, db)
        else in_tx (cl_drv c) (create_project_tx lib cfg c token workspace name' kind) db)"

definition getProject :: "portal_lib \<Rightarrow> call \<Rightarrow> string \<Rightarrow> string \<Rightarrow> 'x hosting_db_scheme \<Rightarrow> project result" where
  "getProject lib c token ident db =
     (case cl_drv c of
        Some e \<Rightarrow> Inl e
      | None \<Rightarrow>
          andThen (some_or ErrDenied (get_row p_id ident (projects db))) (\<lambda>p.
          andThen (authorize lib (cl_now c 0) token (p_workspace p) False db) (\<lambda>_. Inr p)))"

definition project_list :: "portal_lib \<Rightarrow> call \<Rightarrow> string \<Rightarrow> string \<Rightarrow> 'x hosting_db_scheme \<Rightarrow> project list result" where
  "project_list lib c token workspace db =
     (case cl_drv c of
        Some e \<Rightarrow> Inl e
      | None \<Rightarrow>
          andThen (authorize lib (cl_now c 0) token workspace False db) (\<lambda>_.
          Inr (sort_key p_name (sort_key p_id (workspace_projects workspace db)))))"

section \<open>uploads.go\<close>

definition uploadProject ::
  "portal_lib \<Rightarrow> int \<Rightarrow> string \<Rightarrow> string \<Rightarrow> bool \<Rightarrow> 'x hosting_db_scheme \<Rightarrow> (project \<times> string) result" where
  "uploadProject lib now token ident write db =
     andThen (some_or ErrDenied (get_row p_id ident (projects db))) (\<lambda>p.
     andThen (guard ErrProjectDeleting (\<not> (write \<and> p_deletion_requested_at p \<noteq> 0))) (\<lambda>_.
     andThen (authorize lib now token (p_workspace p) write db) (\<lambda>actor. Inr (p, actor))))"

definition uploadAccess ::
  "portal_lib \<Rightarrow> store_config \<Rightarrow> call \<Rightarrow> string \<Rightarrow> string \<Rightarrow> 'x hosting_db_scheme \<Rightarrow> project result" where
  "uploadAccess lib cfg c token ident db =
     (case cl_drv c of
        Some e \<Rightarrow> Inl e
      | None \<Rightarrow>
          andThen (uploadProject lib (cl_now c 0) token ident True db) (\<lambda>(p, _).
          andThen (guard Portal_ErrInvalid (p_kind p \<noteq> ''container'')) (\<lambda>_.
          andThen (requireHostingKind cfg (cl_now c 1) (p_workspace p) (p_kind p) db) (\<lambda>_. Inr p))))"

record archive_manifest =
  am_SHA256 :: string
  am_Files :: int
  am_Bytes :: int

definition save_upload_tx ::
  "portal_lib \<Rightarrow> store_config \<Rightarrow> call \<Rightarrow> string \<Rightarrow> string \<Rightarrow> string \<Rightarrow> archive_manifest \<Rightarrow> 'x hosting_db_scheme
    \<Rightarrow> (upload \<times> 'x hosting_db_scheme) result" where
  "save_upload_tx lib cfg c token ident data m db =
     andThen (uploadProject lib (cl_now c 0) token ident True db) (\<lambda>(p, actor).
     andThen (requireHostingKind cfg (cl_now c 1) (p_workspace p) (p_kind p) db) (\<lambda>_.
     let us = workspace_uploads (p_workspace p) db;
         count = int (length us);
         stored = upload_bytes us;
         size = int (length data)
     in andThen (guard ErrQuota (\<not> (count \<ge> 20 \<or> stored + size > 104857600))) (\<lambda>_.
        andThen (requireHostingUpload cfg (cl_now c 2) (p_workspace p) count stored size db) (\<lambda>_.
        let u = \<lparr>up_id = cl_token c 0, up_project = ident, up_sha256 = am_SHA256 m, up_files = am_Files m,
                 up_expanded = am_Bytes m, up_archive = data, up_created = cl_now c 3\<rparr>
        in andThen (insert_row up_id u (uploads db)) (\<lambda>rows.
           andThen (audit (cl_token c 1) actor (p_workspace p) (''project.uploaded:'' @ up_id u) (up_created u)
                      (db\<lparr>uploads := rows\<rparr>)) (\<lambda>db1.
           Inr (u, db1)))))))"

section \<open>What an entitlement rests on\<close>

lemma decode_limits_in_range: "decodeHostingLimits d = Inr (Some l) \<Longrightarrow> limits_in_range l"
  by (auto simp: decodeHostingLimits_def split: column.splits if_splits)

lemma charge_evidence_True:
  "charge_evidence s sp now ch = Inr True \<Longrightarrow>
    \<exists>ob. ch_snapshot ch = Json ob \<and> co_ChargeID ob = ch_id ch \<and> co_InvoiceID ob = sp_InvoiceID sp
      \<and> 0 < co_AmountCaptured ob \<and> co_AmountRefunded ob = 0 \<and> \<not> co_Disputed ob \<and> co_DisputesChecked ob
      \<and> list_all dispute_settled (co_Disputes ob) \<and> freshObservation (co_ObservedAt ob) now"
  by (auto simp: charge_evidence_def split: column.splits if_splits)

text \<open>The evidence: a paid subscription of the workspace and the one good charge of its invoice.\<close>

definition paid_evidence ::
  "string \<Rightarrow> int \<Rightarrow> string \<Rightarrow> 'x hosting_db_scheme \<Rightarrow> billing_subscription \<Rightarrow> subscription_snapshot \<Rightarrow> charge_observation \<Rightarrow> bool" where
  "paid_evidence mode now workspace db s sp ob \<longleftrightarrow>
     s \<in> set (billing_subscriptions db) \<and> bs_mode s = mode \<and> bs_workspace s = workspace \<and> bs_snapshot s = Json sp
     \<and> sp_ID sp = bs_id s \<and> paid_now now sp
     \<and> (\<exists>ch. invoice_charges mode s (sp_InvoiceID sp) db = [ch] \<and> ch_snapshot ch = Json ob)
     \<and> 0 < co_AmountCaptured ob \<and> co_AmountRefunded ob = 0 \<and> \<not> co_Disputed ob
     \<and> list_all dispute_settled (co_Disputes ob) \<and> freshObservation (co_ObservedAt ob) now"

lemma subscription_turn_Some:
  assumes "subscription_turn mode now db (s, c) = Inr (Some en)"
    and "s \<in> set (billing_subscriptions db)" and "bs_mode s = mode" and "bs_workspace s = workspace"
  shows "\<exists>sp ob. paid_evidence mode now workspace db s sp ob \<and> en_Plan en = bs_plan s
       \<and> (case en_Limits en of None \<Rightarrow> True | Some l \<Rightarrow> limits_in_range l)"
proof -
  obtain sp where sp: "bs_snapshot s = Json sp" "sp_ID sp = bs_id s" "paid_now now sp"
    using assms(1) by (auto simp: subscription_turn_def scans_nil_def split: column.splits if_splits)
  obtain ch where ch: "invoice_charges mode s (sp_InvoiceID sp) db = [ch]" "charge_evidence s sp now ch = Inr True"
    and en: "en_Plan en = bs_plan s" "decodeHostingLimits (bc_limits c) = Inr (en_Limits en)"
    using assms(1) sp
    by (auto simp: subscription_turn_def split: column.splits if_splits list.splits)
  from charge_evidence_True [OF ch(2)] sp ch(1) assms(2-4) obtain ob where "paid_evidence mode now workspace db s sp ob"
    unfolding paid_evidence_def by blast
  with en decode_limits_in_range show ?thesis by (cases "en_Limits en") auto
qed

lemma subscription_loop_Inr:
  "subscription_loop mode now db rows = Inr en \<Longrightarrow> \<exists>sc \<in> set rows. subscription_turn mode now db sc = Inr (Some en)"
  by (induction rows) (auto split: option.splits)

lemma subscription_rows_set:
  "(s, c) \<in> set (subscription_rows mode workspace db) \<Longrightarrow>
    s \<in> set (billing_subscriptions db) \<and> bs_mode s = mode \<and> bs_workspace s = workspace"
  by (auto simp: subscription_rows_def)

lemma entitlementD:
  assumes "qualifyingHostingEntitlement cfg now workspace db = Inr (Some en)"
  shows "\<exists>s sp ob. paid_evidence (billingModeValue cfg) now workspace db s sp ob \<and> en_Plan en = bs_plan s
       \<and> (case en_Limits en of None \<Rightarrow> True | Some l \<Rightarrow> limits_in_range l)"
proof -
  from assms have "subscription_loop (billingModeValue cfg) now db (subscription_rows (billingModeValue cfg) workspace db) = Inr en"
    by (auto simp: qualifyingHostingEntitlement_def split: option.splits prod.splits if_splits)
  then obtain s c where "(s, c) \<in> set (subscription_rows (billingModeValue cfg) workspace db)"
    "subscription_turn (billingModeValue cfg) now db (s, c) = Inr (Some en)"
    using subscription_loop_Inr by (metis surj_pair)
  with subscription_rows_set subscription_turn_Some show ?thesis by metis
qed

section \<open>Properties\<close>

text \<open>
  Hosting of an enrolled workspace rests on current payment. Where the policy of a
  workspace requires a subscription, every operation that passes the hosting check does so on
  a subscription of this workspace, in the store's own payment mode, that is active and paid
  for the current period by exactly one captured charge, which is not refunded and not under
  an open dispute, both observed within the last fifteen minutes; and the limits it grants
  are within the platform's bounds.
\<close>

theorem hosting_rests_on_current_payment:
  assumes "requireHostingKind cfg now workspace kind db = Inr ()"
    and "get_row fst workspace (hosting_policies db) = Some (workspace, True)"
  shows "\<exists>s sp ob en. qualifyingHostingEntitlement cfg now workspace db = Inr (Some en)
       \<and> paid_evidence (billingModeValue cfg) now workspace db s sp ob
       \<and> (case en_Limits en of None \<Rightarrow> True | Some l \<Rightarrow> limits_in_range l \<and> (runs_code kind \<longrightarrow> hl_Node l))"
proof -
  obtain e where e: "qualifyingHostingEntitlement cfg now workspace db = Inr e"
    and ok: "case (case e of None \<Rightarrow> None | Some en \<Rightarrow> en_Limits en) of None \<Rightarrow> True | Some l \<Rightarrow> runs_code kind \<longrightarrow> hl_Node l"
    using assms(1) by (auto simp: requireHostingKind_def workspaceHostingLimits_def split: option.splits)
  then obtain en where en: "e = Some en" using assms(2) by (auto simp: qualifyingHostingEntitlement_def)
  from entitlementD e en obtain s sp ob where "paid_evidence (billingModeValue cfg) now workspace db s sp ob"
    "case en_Limits en of None \<Rightarrow> True | Some l \<Rightarrow> limits_in_range l" by blast
  with e en ok show ?thesis by (auto split: option.splits)
qed

section \<open>Concrete instances\<close>

definition kx_config :: store_config where
  "kx_config = \<lparr>sc_billingMode = ''live'', sc_containerProjects = False, sc_projectCapacity = 10, sc_nodeCapacity = 5\<rparr>"

definition kx_snapshot :: subscription_snapshot where
  "kx_snapshot = \<lparr>sp_ID = ''sub_1'', sp_CustomerID = ''cus_1'', sp_PriceID = ''price_1'', sp_Status = ''active'',
     sp_PeriodStart = 50, sp_PeriodEnd = 5000, sp_CancelAtPeriodEnd = False, sp_CollectionPaused = False,
     sp_InvoiceID = ''in_1'', sp_InvoiceStatus = ''paid'', sp_InvoiceRemaining = 0, sp_ObservedAt = 90\<rparr>"

definition kx_observation :: charge_observation where
  "kx_observation = \<lparr>co_Disputes = [(''dp_1'', ''won'')], co_DisputesChecked = True, co_ChargeID = ''ch_1'', co_CustomerID = ''cus_1'',
     co_PaymentIntentID = ''pi_1'', co_InvoiceID = ''in_1'', co_SubscriptionID = ''sub_1'', co_Currency = ''eur'',
     co_AmountCaptured = 900, co_AmountRefunded = 0, co_Disputed = False, co_ObservedAt = 95\<rparr>"

definition kx_limits :: plan_limits where
  "kx_limits = \<lparr>hl_Projects = 3, hl_Uploads = 10, hl_UploadBytes = 1000, hl_Node = True\<rparr>"

definition kx_db :: hosting_db where
  "kx_db = accounts_db.extend (ax_db\<lparr>hosting_policies := [(''w'', True)]\<rparr>)
     (hosting_db.fields
       [\<lparr>bs_mode = ''live'', bs_id = ''sub_1'', bs_checkout = ''co_1'', bs_workspace = ''w'', bs_customer = ''cus_1'',
         bs_plan = ''pro'', bs_price = ''price_1'', bs_state = ''awaiting_reconciliation'',
         bs_first_event = ''evt_1'', bs_generation = 1, bs_snapshot = Json kx_snapshot\<rparr>]
       [\<lparr>bc_mode = ''live'', bc_id = ''co_1'', bc_workspace = ''w'', bc_actor = ''u'', bc_customer = ''cus_1'', bc_plan = ''pro'',
         bc_price = ''price_1'', bc_session = Some ''cs_live_1'', bc_url = ''https://checkout.stripe.com/c'',
         bc_state = ''completed'', bc_created = 40, bc_limits = Json kx_limits\<rparr>]
       [\<lparr>cu_mode = ''live'', cu_workspace = ''w'', cu_request = ''r'', cu_actor = ''u'', cu_email = ''u@x'',
         cu_customer = Some ''cus_1'', cu_created = 30\<rparr>]
       [\<lparr>ch_mode = ''live'', ch_id = ''ch_1'', ch_generation = 1, ch_subscription = Some ''sub_1'',
         ch_customer = Some ''cus_1'', ch_invoice = ''in_1'',
         ch_payment = ''pi_1'', ch_snapshot = Json kx_observation, ch_next_refresh = 395\<rparr>]
       [\<lparr>p_id = ''p1'', p_workspace = ''w'', p_name = ''Site'', p_kind = ''static'', p_deletion_requested_at = 0,
         p_deletion_error = []\<rparr>]
       [])"

lemmas kx_defs = kx_config_def kx_snapshot_def kx_observation_def kx_limits_def kx_db_def accounts_db.defs hosting_db.defs

lemma kx_kind: "requireHostingKind kx_config 100 ''w'' ''node'' kx_db = Inr ()"
  by (simp add: requireHostingKind_def workspaceHostingLimits_def qualifyingHostingEntitlement_def billingModeValue_def
      subscription_rows_def subscription_turn_def scans_nil_def paid_now_def freshObservation_def invoice_charges_def
      charge_evidence_def dispute_settled_def decodeHostingLimits_def limits_in_range_def runs_code_def seq_simps
      kx_defs ax_db_def)

theorem hosting_rests_on_current_payment_witness:
  "\<exists>s sp ob. paid_evidence ''live'' 100 ''w'' kx_db s sp ob"
proof -
  have "get_row fst ''w'' (hosting_policies kx_db) = Some (''w'', True)" by (simp add: kx_defs)
  from hosting_rests_on_current_payment [OF kx_kind this] show ?thesis
    by (auto simp: billingModeValue_def kx_config_def)
qed

end
