(* ===== verification/Portal_Publish.thy ===== *)
theory Portal_Publish
  imports Portal_Hosting
begin

text \<open>
  \<open>internal/portal/publications.go\<close>: the queue of static-site publications (request, claim
  under a lease, finish, resume), with the parts of \<open>uploads.go\<close> that depend on it (retention)
  and the authorization of jobs that a repository push created (\<open>github_pipeline.go\<close>).
\<close>

section \<open>Tables\<close>

datatype job_state = JobQueued | JobRunning | JobSucceeded | JobFailed

record publication_job =
  pj_id :: string
  pj_project :: string
  pj_upload :: string
  pj_actor :: string
  pj_key :: string
  pj_revision :: int
  pj_state :: job_state
  pj_lease :: string
  pj_until :: int
  pj_attempts :: int
  pj_created :: int

text \<open>
  The rows of \<open>node_builds\<close>. The plan, the dependency bundle, the dispatch intent and the
  evidence of the result are JSON columns; the archive of a request is never part of the intent.
\<close>

record build_plan =
  pl_Version :: int
  pl_SourceSHA256 :: string
  pl_OS :: string
  pl_Architecture :: string
  pl_NodeMajor :: int
  pl_Steps :: "(string \<times> string list) list"
  pl_Start :: "string \<times> string list"
  pl_Port :: int

record npm_bundle =
  bd_Directory :: string
  bd_ManifestSHA256 :: string

record execution_request =
  xr_ExecutionID :: string
  xr_BuildID :: string
  xr_ProjectID :: string
  xr_Plan :: build_plan
  xr_ToolchainSHA256 :: string
  xr_Bundle :: npm_bundle
  xr_NotAfter :: int

record execution_observation =
  eo_FailureLog :: string
  eo_ProjectID :: string
  eo_ExecutionID :: string
  eo_SourceSHA256 :: string
  eo_ToolchainSHA256 :: string
  eo_Architecture :: string
  eo_Outcome :: string
  eo_Retired :: bool
  eo_ObservedAt :: int

record artifact_observation = execution_observation +
  eo_ArtifactSHA256 :: string
  eo_DependencyManifestSHA256 :: string

datatype build_state = BuildQueued | BuildRunning | BuildSucceeded | BuildFailed | BuildCancelled

datatype build_result = ExecutionEvidence execution_observation | ArtifactEvidence artifact_observation | PreparationExpired

record node_build =
  nb_id :: string
  nb_project :: string
  nb_upload :: string
  nb_actor :: string
  nb_key :: string
  nb_plan :: build_plan
  nb_toolchain :: string
  nb_state :: build_state
  nb_created :: int
  nb_execution :: string
  nb_lease :: string
  nb_until :: int
  nb_result :: "build_result option"
  nb_bundle :: "npm_bundle option"
  nb_intent :: "execution_request option"

definition build_pending :: "node_build \<Rightarrow> bool" where
  "build_pending b \<longleftrightarrow> nb_state b = BuildQueued \<or> nb_state b = BuildRunning"

record github_pipeline =
  gp_event :: string
  gp_project :: string
  gp_publication :: string
  gp_build :: string
  gp_deployment :: string

record github_event =
  ge_id :: string
  ge_connection_revision :: int
  ge_actor :: string
  ge_repository_id :: int
  ge_installation_id :: int
  ge_repository :: string
  ge_ref :: string

record github_connection =
  gc_project :: string
  gc_revision :: int
  gc_actor :: string
  gc_connected :: bool
  gc_deploy_on_push :: bool
  gc_repository_id :: int
  gc_installation_id :: int
  gc_repository :: string
  gc_branch :: string

record publish_db = hosting_db +
  publication_jobs :: "publication_job list"
  publications :: "(string \<times> string) list"
  github_pipelines :: "github_pipeline list"
  github_events :: "github_event list"
  github_connections :: "github_connection list"
  node_builds :: "node_build list"

definition job_pending :: "publication_job \<Rightarrow> bool" where
  "job_pending j \<longleftrightarrow> pj_state j = JobQueued \<or> pj_state j = JobRunning"

section \<open>Who may act\<close>

text \<open>
  \<open>githubPipelineJobAuthorized\<close>: \<open>column\<close> is the column of the pipeline that the kind of job
  selects, \<open>row\<close> the request key of the job's row and whether its state is running. The list
  holds the rows of the six-way join.
\<close>

definition pipeline_rows :: "(github_pipeline \<Rightarrow> string) \<Rightarrow> string \<Rightarrow> 'x publish_db_scheme \<Rightarrow> github_pipeline list" where
  "pipeline_rows column job db =
     concat (map (\<lambda>gp. concat (map (\<lambda>ge. concat (map (\<lambda>gc. concat (map (\<lambda>pr. concat (map (\<lambda>u. map (\<lambda>_. gp)
        (filter (\<lambda>m. mb_user m = u_id u \<and> mb_workspace m = p_workspace pr \<and> mb_role m = ''owner'') (memberships db)))
        (filter (\<lambda>u. u_id u = gc_actor gc \<and> active_user u) (users db))))
        (filter (\<lambda>pr. p_id pr = gp_project gp \<and> p_deletion_requested_at pr = 0) (projects db))))
        (filter (\<lambda>gc. gc_project gc = gp_project gp \<and> gc_revision gc = ge_connection_revision ge \<and> gc_connected gc
           \<and> gc_deploy_on_push gc \<and> gc_actor gc = ge_actor ge \<and> gc_repository_id gc = ge_repository_id ge
           \<and> gc_installation_id gc = ge_installation_id ge \<and> gc_repository gc = ge_repository ge
           \<and> ''refs/heads/'' @ gc_branch gc = ge_ref ge) (github_connections db))))
        (filter (\<lambda>ge. ge_id ge = gp_event gp) (github_events db))))
       (filter (\<lambda>gp. column gp = job) (github_pipelines db)))"

definition githubPipelineJobAuthorized ::
  "(github_pipeline \<Rightarrow> string) \<Rightarrow> (string \<times> bool) option \<Rightarrow> string \<Rightarrow> 'x publish_db_scheme \<Rightarrow> bool result" where
  "githubPipelineJobAuthorized column row job db =
     andThen (some_or ErrNoRows row) (\<lambda>(key, running).
       if \<not> hasPrefix key ''github-auto:'' then Inr True
       else if running then Inr True
       else Inr (length (pipeline_rows column job db) = 1))"

definition publication_key :: "string \<Rightarrow> 'x publish_db_scheme \<Rightarrow> (string \<times> bool) option" where
  "publication_key job db = map_option (\<lambda>j. (pj_key j, pj_state j = JobRunning)) (get_row pj_id job (publication_jobs db))"

definition actor_rows :: "string \<Rightarrow> 'x publish_db_scheme \<Rightarrow> membership list" where
  "actor_rows job db =
     concat (map (\<lambda>j. concat (map (\<lambda>p. concat (map (\<lambda>u.
        filter (\<lambda>m. mb_user m = u_id u \<and> mb_workspace m = p_workspace p
                    \<and> (mb_role m = ''owner'' \<or> mb_role m = ''developer'')) (memberships db))
        (filter (\<lambda>u. u_id u = pj_actor j \<and> active_user u) (users db))))
        (filter (\<lambda>p. p_id p = pj_project j) (projects db))))
       (filter (\<lambda>j. pj_id j = job) (publication_jobs db)))"

definition publicationActor :: "string \<Rightarrow> 'x publish_db_scheme \<Rightarrow> bool result" where
  "publicationActor job db =
     (if length (actor_rows job db) \<noteq> 1 then Inr False
      else githubPipelineJobAuthorized gp_publication (publication_key job db) job db)"

section \<open>RequestPublication\<close>

definition max_job_revision :: "string \<Rightarrow> publication_job list \<Rightarrow> int" where
  "max_job_revision project js = fold (\<lambda>j m. if pj_project j = project then max (pj_revision j) m else m) js 0"

text \<open>The constraints of the table: three unique keys and the partial index over pending jobs.\<close>

definition insert_job :: "publication_job \<Rightarrow> publication_job list \<Rightarrow> publication_job list result" where
  "insert_job j js =
     andThen (insert_row pj_id j js) (\<lambda>_.
     andThen (insert_row (\<lambda>j. (pj_project j, pj_key j)) j js) (\<lambda>_.
     andThen (insert_row (\<lambda>j. (pj_project j, pj_revision j)) j js) (\<lambda>_.
     andThen (guard ErrDriver (\<not> (job_pending j \<and> list_ex (\<lambda>q. pj_project q = pj_project j \<and> job_pending q) js))) (\<lambda>_.
     Inr (js @ [j])))))"

definition requestPublicationTx ::
  "store_config \<Rightarrow> call \<Rightarrow> project \<Rightarrow> string \<Rightarrow> string \<Rightarrow> string \<Rightarrow> 'x publish_db_scheme
    \<Rightarrow> (publication_job \<times> 'x publish_db_scheme) result" where
  "requestPublicationTx cfg c p actor upload key db =
     andThen (guard Portal_ErrInvalid (\<not> (length key < 16 \<or> length key > 128))) (\<lambda>_.
     andThen (guard Portal_ErrInvalid (p_kind p = ''static'')) (\<lambda>_.
     case get_row (\<lambda>j. (pj_project j, pj_key j)) (p_id p, key) (publication_jobs db) of
       Some existing \<Rightarrow> if pj_upload existing \<noteq> upload then Inl Portal_ErrConflict else Inr (existing, db)
     | None \<Rightarrow>
         andThen (requireHostingKind cfg (cl_now c 1) (p_workspace p) (p_kind p) db) (\<lambda>_.
         andThen (guard ErrDenied (length (filter (\<lambda>u. up_id u = upload \<and> up_project u = p_id p) (uploads db)) = 1)) (\<lambda>_.
         andThen (guard ErrPublishing (\<not> list_ex (\<lambda>j. pj_project j = p_id p \<and> job_pending j) (publication_jobs db))) (\<lambda>_.
         let j = \<lparr>pj_id = cl_token c 0, pj_project = p_id p, pj_upload = upload, pj_actor = actor, pj_key = key,
                  pj_revision = max_job_revision (p_id p) (publication_jobs db) + 1, pj_state = JobQueued,
                  pj_lease = [], pj_until = 0, pj_attempts = 0, pj_created = cl_now c 2\<rparr>
         in andThen (insert_job j (publication_jobs db)) (\<lambda>js.
            andThen (audit (cl_token c 1) actor (p_workspace p) (''publication.requested:'' @ pj_id j) (pj_created j)
                       (db\<lparr>publication_jobs := js\<rparr>)) (\<lambda>db1.
            Inr (j, db1))))))))"

definition request_publication_tx ::
  "portal_lib \<Rightarrow> store_config \<Rightarrow> call \<Rightarrow> string \<Rightarrow> string \<Rightarrow> string \<Rightarrow> string \<Rightarrow> 'x publish_db_scheme
    \<Rightarrow> (publication_job \<times> 'x publish_db_scheme) result" where
  "request_publication_tx lib cfg c token project upload key db =
     andThen (guard Portal_ErrInvalid (\<not> (length key < 16 \<or> length key > 128))) (\<lambda>_.
     andThen (uploadProject lib (cl_now c 0) token project True db) (\<lambda>(p, actor).
       requestPublicationTx cfg c p actor upload key db))"

section \<open>ClaimPublication, FinishPublication, ResumePublication\<close>

record publication_claim =
  pc_Job :: publication_job
  pc_Lease :: string
  pc_SHA256 :: string
  pc_Archive :: string

definition claimable :: "string \<Rightarrow> int \<Rightarrow> publication_job \<Rightarrow> bool" where
  "claimable project now j \<longleftrightarrow>
     pj_project j = project \<and> (pj_state j = JobQueued \<or> (pj_state j = JobRunning \<and> pj_until j \<le> now))"

definition set_job :: "string \<Rightarrow> (publication_job \<Rightarrow> publication_job) \<Rightarrow> 'x publish_db_scheme \<Rightarrow> 'x publish_db_scheme" where
  "set_job ident f db = db\<lparr>publication_jobs := upd_row pj_id ident f (publication_jobs db)\<rparr>"

definition claim_publication_tx ::
  "portal_lib \<Rightarrow> store_config \<Rightarrow> call \<Rightarrow> string \<Rightarrow> 'x publish_db_scheme
    \<Rightarrow> (publication_claim option \<times> 'x publish_db_scheme) result" where
  "claim_publication_tx lib cfg c project db =
     (case List.find (claimable project (cl_now c 0)) (publication_jobs db) of
        None \<Rightarrow> Inr (None, db)
      | Some j \<Rightarrow>
          andThen (publicationActor (pj_id j) db) (\<lambda>valid.
          if \<not> valid then
            (if pj_state j = JobRunning then Inl ErrDenied
             else Inr (None, set_job (pj_id j) (\<lambda>q. q\<lparr>pj_state := JobFailed, pj_lease := [], pj_until := 0\<rparr>) db))
          else
            andThen (requireProjectHostingAccess cfg (cl_now c 1) project db) (\<lambda>_.
            andThen (some_or ErrNoRows (List.find (\<lambda>u. up_id u = pj_upload j \<and> up_project u = project) (uploads db))) (\<lambda>u.
            let lease = cl_token c 0 in
            Inr (Some \<lparr>pc_Job = j\<lparr>pj_state := JobRunning, pj_attempts := pj_attempts j + 1\<rparr>, pc_Lease = lease,
                       pc_SHA256 = up_sha256 u, pc_Archive = up_archive u\<rparr>,
                 set_job (pj_id j) (\<lambda>q. q\<lparr>pj_state := JobRunning, pj_lease := lib_digest lib lease,
                                         pj_until := cl_now c 2 + 60, pj_attempts := pj_attempts q + 1\<rparr>) db)))))"

text \<open>\<open>INSERT INTO publications ... ON CONFLICT(project_id) DO UPDATE\<close>.\<close>

definition publish :: "string \<Rightarrow> string \<Rightarrow> (string \<times> string) list \<Rightarrow> (string \<times> string) list" where
  "publish project job ps =
     (if list_ex (\<lambda>p. fst p = project) ps then upd_row fst project (\<lambda>_. (project, job)) ps
      else ps @ [(project, job)])"

definition finish_publication_tx ::
  "portal_lib \<Rightarrow> call \<Rightarrow> string \<Rightarrow> string \<Rightarrow> string \<Rightarrow> bool \<Rightarrow> 'x publish_db_scheme
    \<Rightarrow> (unit \<times> 'x publish_db_scheme) result" where
  "finish_publication_tx lib c job lease observed success db =
     andThen (some_or Portal_ErrConflict
        (List.find (\<lambda>j. pj_id j = job \<and> pj_state j = JobRunning \<and> pj_lease j = lib_digest lib lease
                        \<and> pj_until j > cl_now c 0) (publication_jobs db))) (\<lambda>j.
     andThen (some_or Portal_ErrConflict (get_row up_id (pj_upload j) (uploads db))) (\<lambda>u.
     andThen (some_or Portal_ErrConflict (get_row p_id (pj_project j) (projects db))) (\<lambda>p.
     andThen (publicationActor job db) (\<lambda>valid.
     andThen (guard ErrDenied valid) (\<lambda>_.
     andThen (guard Portal_ErrConflict (\<not> (success \<and> observed \<noteq> up_sha256 u))) (\<lambda>_.
     let db1 = set_job job (\<lambda>q. q\<lparr>pj_state := (if success then JobSucceeded else JobFailed), pj_lease := [], pj_until := 0\<rparr>) db;
         db2 = (if success then db1\<lparr>publications := publish (pj_project j) job (publications db1)\<rparr> else db1)
     in andThen (audit (cl_token c 0) (pj_actor j) (p_workspace p)
                   ((if success then ''publication.succeeded:'' else ''publication.failed:'') @ job) (cl_now c 1) db2) (\<lambda>db3.
        Inr ((), db3))))))))"

definition resume_publication_tx ::
  "portal_lib \<Rightarrow> call \<Rightarrow> string \<Rightarrow> string \<Rightarrow> string \<Rightarrow> string \<Rightarrow> 'x publish_db_scheme
    \<Rightarrow> (publication_job \<times> 'x publish_db_scheme) result" where
  "resume_publication_tx lib c token project job upload db =
     andThen (uploadProject lib (cl_now c 0) token project True db) (\<lambda>(p, _).
     andThen (authorizeOwner lib (cl_now c 1) token (p_workspace p) db) (\<lambda>owner.
     andThen (some_or ErrDenied (List.find (\<lambda>j. pj_id j = job \<and> pj_project j = project) (publication_jobs db))) (\<lambda>j.
     andThen (guard Portal_ErrConflict (pj_upload j = upload)) (\<lambda>_.
     if pj_state j = JobQueued \<and> pj_actor j = owner then Inr (j, db)
     else
       andThen (guard ErrPublishing (\<not> (pj_state j \<noteq> JobRunning \<or> pj_until j > cl_now c 2))) (\<lambda>_.
       andThen (audit (cl_token c 0) owner (p_workspace p)
                  (''publication.resumed:'' @ job @ '':previous_actor:'' @ pj_actor j) (cl_now c 3)
                  (set_job job (\<lambda>q. q\<lparr>pj_actor := owner, pj_state := JobQueued, pj_lease := [], pj_until := 0\<rparr>) db)) (\<lambda>db1.
       Inr (j\<lparr>pj_state := JobQueued\<rparr>, db1)))))))"

section \<open>PublicationJobs\<close>

definition publicationJobs ::
  "portal_lib \<Rightarrow> call \<Rightarrow> string \<Rightarrow> string \<Rightarrow> 'x publish_db_scheme \<Rightarrow> (publication_job list \<times> string) result" where
  "publicationJobs lib c token project db =
     (case cl_drv c of
        Some e \<Rightarrow> Inl e
      | None \<Rightarrow>
          andThen (uploadProject lib (cl_now c 0) token project False db) (\<lambda>_.
          let jobs = take 100 (rev (sort_key pj_revision (filter (\<lambda>j. pj_project j = project) (publication_jobs db))));
              active = (case get_row fst project (publications db) of None \<Rightarrow> [] | Some (_, j) \<Rightarrow> j)
          in if active = [] \<or> list_ex (\<lambda>j. pj_id j = active) jobs then Inr (jobs, active)
             else andThen (some_or ErrNoRows
                    (List.find (\<lambda>j. pj_id j = active \<and> pj_project j = project) (publication_jobs db))) (\<lambda>j.
                  Inr (jobs @ [j], active))))"

section \<open>Uploads that publications retain\<close>

definition delete_upload_tx ::
  "portal_lib \<Rightarrow> call \<Rightarrow> string \<Rightarrow> string \<Rightarrow> string \<Rightarrow> 'x publish_db_scheme \<Rightarrow> (unit \<times> 'x publish_db_scheme) result" where
  "delete_upload_tx lib c token project ident db =
     andThen (uploadProject lib (cl_now c 0) token project True db) (\<lambda>(p, actor).
     andThen (guard ErrRetained
        (\<not> (length (filter (\<lambda>j. pj_upload j = ident \<and> pj_project j = project) (publication_jobs db))
            + length (filter (\<lambda>b. nb_upload b = ident \<and> nb_project b = project) (node_builds db)) > 0))) (\<lambda>_.
     let hit = (\<lambda>u. up_id u = ident \<and> up_project u = project)
     in andThen (guard ErrDenied (length (filter hit (uploads db)) = 1)) (\<lambda>_.
        andThen (audit (cl_token c 0) actor (p_workspace p) (''project.upload_deleted:'' @ ident) (cl_now c 1)
                   (db\<lparr>uploads := filter (\<lambda>u. \<not> hit u) (uploads db)\<rparr>)) (\<lambda>db1.
        Inr ((), db1)))))"

text \<open>
  \<open>Uploads\<close>: the versions of a project, newest first, each with the reason why it is retained.
\<close>

definition retention_reason :: "string \<Rightarrow> 'x publish_db_scheme \<Rightarrow> string" where
  "retention_reason ident db =
     (let js = filter (\<lambda>j. pj_upload j = ident) (publication_jobs db);
          bs = filter (\<lambda>b. nb_upload b = ident) (node_builds db)
      in if list_ex (\<lambda>p. list_ex (\<lambda>j. pj_id j = snd p) js) (publications db)
         then ''This upload is used by your live website and cannot be deleted.''
         else if list_ex job_pending js then ''This upload is being published. Wait for the operation to finish.''
         else if js \<noteq> []
         then ''Kept for publication history and restoring previous versions. Deleting historical uploads is not supported yet.''
         else if list_ex build_pending bs then ''This upload is being built. Wait for the build to finish.''
         else if bs \<noteq> [] then ''Kept for build history. Deleting uploads referenced by builds is not supported yet.''
         else [])"

definition upload_list ::
  "portal_lib \<Rightarrow> call \<Rightarrow> string \<Rightarrow> string \<Rightarrow> 'x publish_db_scheme \<Rightarrow> (upload \<times> string) list result" where
  "upload_list lib c token project db =
     (case cl_drv c of
        Some e \<Rightarrow> Inl e
      | None \<Rightarrow>
          andThen (uploadProject lib (cl_now c 0) token project False db) (\<lambda>_.
          Inr (map (\<lambda>u. (u, retention_reason (up_id u) db))
                (sort_key (\<lambda>u. - up_created u) (sort_key up_id (filter (\<lambda>u. up_project u = project) (uploads db)))))))"

section \<open>RenameProject\<close>

definition rename_project_tx ::
  "portal_lib \<Rightarrow> call \<Rightarrow> string \<Rightarrow> string \<Rightarrow> string \<Rightarrow> 'x publish_db_scheme \<Rightarrow> (project \<times> 'x publish_db_scheme) result" where
  "rename_project_tx lib c token project name db =
     andThen (uploadProject lib (cl_now c 0) token project True db) (\<lambda>(p, actor).
     if p_name p = name then Inr (p, db)
     else
       andThen (guard ErrExists
          (\<not> list_ex (\<lambda>q. p_workspace q = p_workspace p \<and> p_name q = name \<and> p_id q \<noteq> project) (projects db))) (\<lambda>_.
       andThen (audit (cl_token c 0) actor (p_workspace p) (''project.renamed:'' @ project) (cl_now c 1)
                  (db\<lparr>projects := upd_row p_id project (\<lambda>q. q\<lparr>p_name := name\<rparr>) (projects db)\<rparr>)) (\<lambda>db1.
       Inr (p\<lparr>p_name := name\<rparr>, db1))))"

definition renameProject ::
  "portal_lib \<Rightarrow> call \<Rightarrow> string \<Rightarrow> string \<Rightarrow> string \<Rightarrow> 'x publish_db_scheme \<Rightarrow> project result \<times> 'x publish_db_scheme" where
  "renameProject lib c token project name db =
     (let name' = trimSpace name in
      if name' = [] \<or> length name' > 100 then (Inl Portal_ErrInvalid, db)
      else in_tx (cl_drv c) (rename_project_tx lib c token project name') db)"

section \<open>Histories of the portal\<close>

datatype portal_tx =
    PAccount acct_tx
  | PPolicy string bool
  | PCreateProject string string string string
  | PSaveUpload string string string archive_manifest
  | PDeleteUpload string string string
  | PRequest string string string string
  | PClaim string
  | PFinish string string string bool
  | PResume string string string string
  | PRename string string string

fun portal_body ::
  "portal_lib \<Rightarrow> store_config \<Rightarrow> call \<Rightarrow> portal_tx \<Rightarrow> 'x publish_db_scheme \<Rightarrow> (unit \<times> 'x publish_db_scheme) result" where
  "portal_body lib cfg c (PAccount t) db = acct_body lib c t db"
| "portal_body lib cfg c (PPolicy workspace required) db = configure_policy_tx c workspace required db"
| "portal_body lib cfg c (PCreateProject token workspace name kind) db =
     andThen (guard Portal_ErrInvalid (kind = ''static'' \<or> kind = ''node'' \<or> kind = ''container'')) (\<lambda>_.
       drop_value (create_project_tx lib cfg c token workspace name kind db))"
| "portal_body lib cfg c (PSaveUpload token project data m) db = drop_value (save_upload_tx lib cfg c token project data m db)"
| "portal_body lib cfg c (PDeleteUpload token project ident) db = delete_upload_tx lib c token project ident db"
| "portal_body lib cfg c (PRequest token project upload key) db =
     drop_value (request_publication_tx lib cfg c token project upload key db)"
| "portal_body lib cfg c (PClaim project) db = drop_value (claim_publication_tx lib cfg c project db)"
| "portal_body lib cfg c (PFinish job lease observed success) db = finish_publication_tx lib c job lease observed success db"
| "portal_body lib cfg c (PResume token project job upload) db = drop_value (resume_publication_tx lib c token project job upload db)"
| "portal_body lib cfg c (PRename token project name) db = drop_value (rename_project_tx lib c token project name db)"

definition portal_exec ::
  "portal_lib \<Rightarrow> store_config \<Rightarrow> call \<times> portal_tx \<Rightarrow> 'x publish_db_scheme \<Rightarrow> unit result \<times> 'x publish_db_scheme" where
  "portal_exec lib cfg i db = in_tx (cl_drv (fst i)) (portal_body lib cfg (fst i) (snd i)) db"

text \<open>
  \<open>SaveUpload\<close>: the access check, the validation of the archive (\<open>projectarchive.Validate\<close>,
  given by its result on the data and the project's kind), then the transaction.
\<close>

definition saveUpload ::
  "portal_lib \<Rightarrow> store_config \<Rightarrow> (string \<Rightarrow> string \<Rightarrow> archive_manifest option) \<Rightarrow> call \<Rightarrow> call \<Rightarrow> (call \<times> portal_tx) list
    \<Rightarrow> string \<Rightarrow> string \<Rightarrow> string \<Rightarrow> 'x publish_db_scheme \<Rightarrow> upload result \<times> 'x publish_db_scheme" where
  "saveUpload lib cfg validate c1 c2 mid token project data db =
     (case uploadAccess lib cfg c1 token project db of
        Inl e \<Rightarrow> (Inl e, db)
      | Inr p \<Rightarrow>
          (case validate data (p_kind p) of
             None \<Rightarrow> (Inl ErrArchive, db)
           | Some m \<Rightarrow> in_tx (cl_drv c2) (save_upload_tx lib cfg c2 token project data m)
                          (run_ops (portal_exec lib cfg) mid db)))"

section \<open>What a committing transaction did\<close>

lemma insert_job_Inr:
  "insert_job j js = Inr js' \<longleftrightarrow>
     pj_id j \<notin> pj_id ` set js \<and> (pj_project j, pj_key j) \<notin> (\<lambda>j. (pj_project j, pj_key j)) ` set js
     \<and> (pj_project j, pj_revision j) \<notin> (\<lambda>j. (pj_project j, pj_revision j)) ` set js
     \<and> \<not> (job_pending j \<and> (\<exists>q \<in> set js. pj_project q = pj_project j \<and> job_pending q)) \<and> js' = js @ [j]"
  by (auto simp: insert_job_def insert_row_Inr list_ex_iff)

lemma requestPublicationTxD:
  assumes "requestPublicationTx cfg c p actor upload key db = Inr (j, db')"
  shows "(j \<in> set (publication_jobs db) \<and> pj_project j = p_id p \<and> pj_key j = key \<and> pj_upload j = upload \<and> db' = db)
    \<or> (publication_jobs db' = publication_jobs db @ [j] \<and> pj_project j = p_id p \<and> pj_upload j = upload \<and> pj_key j = key
       \<and> pj_state j = JobQueued \<and> pj_actor j = actor \<and> pj_revision j = max_job_revision (p_id p) (publication_jobs db) + 1
       \<and> pj_id j \<notin> pj_id ` set (publication_jobs db)
       \<and> (p_id p, key) \<notin> (\<lambda>j. (pj_project j, pj_key j)) ` set (publication_jobs db)
       \<and> (\<forall>q \<in> set (publication_jobs db). pj_project q = p_id p \<longrightarrow> \<not> job_pending q)
       \<and> (\<exists>u \<in> set (uploads db). up_id u = upload \<and> up_project u = p_id p)
       \<and> uploads db' = uploads db \<and> projects db' = projects db \<and> publications db' = publications db
       \<and> node_builds db' = node_builds db)"
proof (cases "get_row (\<lambda>j. (pj_project j, pj_key j)) (p_id p, key) (publication_jobs db)")
  case (Some e)
  with assms get_row_SomeD [OF Some] show ?thesis
    by (auto simp: requestPublicationTx_def andThen_simps split: if_splits)
next
  case None
  from assms None have u: "length (filter (\<lambda>u. up_id u = upload \<and> up_project u = p_id p) (uploads db)) = 1"
    by (auto simp: requestPublicationTx_def Let_def)
  then obtain u where "u \<in> set (filter (\<lambda>u. up_id u = upload \<and> up_project u = p_id p) (uploads db))"
    by (metis One_nat_def length_Suc_conv list.set_intros(1))
  then have "\<exists>u \<in> set (uploads db). up_id u = upload \<and> up_project u = p_id p" by auto
  with assms None show ?thesis
    by (auto simp: requestPublicationTx_def Let_def insert_job_Inr list_ex_iff dest!: auditD)
qed

lemma uploadProjectD:
  "uploadProject lib now token ident write db = Inr (p, actor) \<Longrightarrow>
    p \<in> set (projects db) \<and> p_id p = ident \<and> authorize lib now token (p_workspace p) write db = Inr actor"
  by (auto simp: uploadProject_def dest: get_row_SomeD)

lemma request_publication_txD:
  assumes "request_publication_tx lib cfg c token project upload key db = Inr (j, db')"
  shows "\<exists>p actor. uploadProject lib (cl_now c 0) token project True db = Inr (p, actor) \<and> p_id p = project
    \<and> requestPublicationTx cfg c p actor upload key db = Inr (j, db')"
  using assms by (fastforce simp: request_publication_tx_def split: prod.splits dest: uploadProjectD)

text \<open>The two updates of a claim, the update of a settlement and that of a resumption.\<close>

abbreviation fail_job :: "publication_job \<Rightarrow> publication_job" where
  "fail_job q \<equiv> q\<lparr>pj_state := JobFailed, pj_lease := [], pj_until := 0\<rparr>"

abbreviation lease_job :: "string \<Rightarrow> int \<Rightarrow> publication_job \<Rightarrow> publication_job" where
  "lease_job hash until q \<equiv> q\<lparr>pj_state := JobRunning, pj_lease := hash, pj_until := until, pj_attempts := pj_attempts q + 1\<rparr>"

abbreviation settle_job :: "bool \<Rightarrow> publication_job \<Rightarrow> publication_job" where
  "settle_job success q \<equiv> q\<lparr>pj_state := (if success then JobSucceeded else JobFailed), pj_lease := [], pj_until := 0\<rparr>"

abbreviation adopt_job :: "string \<Rightarrow> publication_job \<Rightarrow> publication_job" where
  "adopt_job owner q \<equiv> q\<lparr>pj_actor := owner, pj_state := JobQueued, pj_lease := [], pj_until := 0\<rparr>"

lemma claim_publication_txD:
  assumes "claim_publication_tx lib cfg c project db = Inr (r, db')"
  shows "(r = None \<and> db' = db)
    \<or> (\<exists>j. j \<in> set (publication_jobs db) \<and> claimable project (cl_now c 0) j \<and> r = None \<and> pj_state j = JobQueued
         \<and> publicationActor (pj_id j) db = Inr False \<and> db' = set_job (pj_id j) fail_job db)
    \<or> (\<exists>j u. j \<in> set (publication_jobs db) \<and> claimable project (cl_now c 0) j \<and> publicationActor (pj_id j) db = Inr True
         \<and> requireProjectHostingAccess cfg (cl_now c 1) project db = Inr ()
         \<and> u \<in> set (uploads db) \<and> up_id u = pj_upload j \<and> up_project u = project
         \<and> r = Some \<lparr>pc_Job = j\<lparr>pj_state := JobRunning, pj_attempts := pj_attempts j + 1\<rparr>, pc_Lease = cl_token c 0,
                     pc_SHA256 = up_sha256 u, pc_Archive = up_archive u\<rparr>
         \<and> db' = set_job (pj_id j) (lease_job (lib_digest lib (cl_token c 0)) (cl_now c 2 + 60)) db)"
proof (cases "List.find (claimable project (cl_now c 0)) (publication_jobs db)")
  case None
  with assms show ?thesis by (simp add: claim_publication_tx_def)
next
  case (Some j)
  from find_SomeD [OF Some] have j: "j \<in> set (publication_jobs db)" "claimable project (cl_now c 0) j" by auto
  from assms Some obtain valid where v: "publicationActor (pj_id j) db = Inr valid"
    by (auto simp: claim_publication_tx_def)
  show ?thesis
  proof (cases valid)
    case False
    with assms Some v j show ?thesis
      by (auto simp: claim_publication_tx_def andThen_simps claimable_def split: if_splits)
  next
    case True
    with assms Some v obtain u where "requireProjectHostingAccess cfg (cl_now c 1) project db = Inr ()"
      "List.find (\<lambda>u. up_id u = pj_upload j \<and> up_project u = project) (uploads db) = Some u"
      by (auto simp: claim_publication_tx_def andThen_simps)
    with assms Some v j True find_SomeD [OF this(2)] show ?thesis
      by (auto simp: claim_publication_tx_def andThen_simps some_or_simps Let_def)
  qed
qed

lemma finish_publication_txD:
  assumes "finish_publication_tx lib c job lease observed success db = Inr (r, db')"
  shows "\<exists>j u. j \<in> set (publication_jobs db) \<and> pj_id j = job \<and> pj_state j = JobRunning \<and> pj_lease j = lib_digest lib lease
      \<and> cl_now c 0 < pj_until j \<and> u \<in> set (uploads db) \<and> up_id u = pj_upload j \<and> (success \<longrightarrow> up_sha256 u = observed)
      \<and> publicationActor job db = Inr True
      \<and> publication_jobs db' = upd_row pj_id job (settle_job success) (publication_jobs db)
      \<and> publications db' = (if success then publish (pj_project j) job (publications db) else publications db)
      \<and> uploads db' = uploads db \<and> projects db' = projects db \<and> node_builds db' = node_builds db"
proof -
  let ?held = "\<lambda>j. pj_id j = job \<and> pj_state j = JobRunning \<and> pj_lease j = lib_digest lib lease \<and> cl_now c 0 < pj_until j"
  obtain j u where j: "List.find ?held (publication_jobs db) = Some j" and u: "get_row up_id (pj_upload j) (uploads db) = Some u"
    and ok: "publicationActor job db = Inr True" "success \<longrightarrow> up_sha256 u = observed"
    using assms by (auto simp: finish_publication_tx_def)
  have "publication_jobs db' = upd_row pj_id job (settle_job success) (publication_jobs db)"
    "publications db' = (if success then publish (pj_project j) job (publications db) else publications db)"
    "uploads db' = uploads db \<and> projects db' = projects db \<and> node_builds db' = node_builds db"
    using assms j u ok by (auto simp: finish_publication_tx_def andThen_simps some_or_simps set_job_def Let_def dest!: auditD)
  with find_SomeD [OF j] get_row_SomeD [OF u] ok show ?thesis by blast
qed

lemma resume_publication_txD:
  assumes "resume_publication_tx lib c token project job upload db = Inr (r, db')"
  shows "db' = db
    \<or> (\<exists>j owner. j \<in> set (publication_jobs db) \<and> pj_id j = job \<and> pj_project j = project \<and> pj_state j = JobRunning
        \<and> pj_until j \<le> cl_now c 2 \<and> publication_jobs db' = upd_row pj_id job (adopt_job owner) (publication_jobs db)
        \<and> publications db' = publications db \<and> uploads db' = uploads db \<and> projects db' = projects db
        \<and> node_builds db' = node_builds db)"
proof -
  obtain p a owner j where j: "uploadProject lib (cl_now c 0) token project True db = Inr (p, a)"
      "authorizeOwner lib (cl_now c 1) token (p_workspace p) db = Inr owner"
      "List.find (\<lambda>j. pj_id j = job \<and> pj_project j = project) (publication_jobs db) = Some j" "pj_upload j = upload"
    using assms by (auto simp: resume_publication_tx_def split: prod.splits)
  show ?thesis
  proof (cases "pj_state j = JobQueued \<and> pj_actor j = owner")
    case True
    with assms j show ?thesis by (auto simp: resume_publication_tx_def andThen_simps some_or_simps)
  next
    case False
    with assms j have "pj_state j = JobRunning \<and> pj_until j \<le> cl_now c 2"
      by (auto simp: resume_publication_tx_def andThen_simps some_or_simps)
    moreover from assms j False have "publication_jobs db' = upd_row pj_id job (adopt_job owner) (publication_jobs db)
        \<and> publications db' = publications db \<and> uploads db' = uploads db \<and> projects db' = projects db
        \<and> node_builds db' = node_builds db"
      by (auto simp: resume_publication_tx_def andThen_simps some_or_simps set_job_def dest!: auditD)
    ultimately show ?thesis using find_SomeD [OF j(3)] by blast
  qed
qed

lemma delete_upload_txD:
  "delete_upload_tx lib c token project ident db = Inr (r, db') \<Longrightarrow>
    (\<forall>j \<in> set (publication_jobs db). \<not> (pj_upload j = ident \<and> pj_project j = project))
    \<and> uploads db' = filter (\<lambda>u. \<not> (up_id u = ident \<and> up_project u = project)) (uploads db)
    \<and> publication_jobs db' = publication_jobs db \<and> publications db' = publications db \<and> projects db' = projects db
    \<and> node_builds db' = node_builds db"
  by (auto simp: delete_upload_tx_def Let_def filter_empty_conv dest!: auditD split: prod.splits)

lemma save_upload_txD:
  assumes "save_upload_tx lib cfg c token project data m db = Inr (u, db')"
  shows "\<exists>p \<in> set (projects db). p_id p = up_project u
    \<and> length (workspace_uploads (p_workspace p) db) < 20
    \<and> upload_bytes (workspace_uploads (p_workspace p) db) + int (length (up_archive u)) \<le> 104857600
    \<and> uploads db' = uploads db @ [u] \<and> up_id u \<notin> up_id ` set (uploads db) \<and> projects db' = projects db"
proof -
  obtain p actor where p: "uploadProject lib (cl_now c 0) token project True db = Inr (p, actor)"
    using assms by (auto simp: save_upload_tx_def split: prod.splits)
  with assms uploadProjectD [OF p] show ?thesis
    by (auto simp: save_upload_tx_def andThen_simps Let_def insert_row_Inr dest!: auditD intro!: bexI [of _ p])
qed

lemma save_upload_frame:
  "save_upload_tx lib cfg c token project data m db = Inr (u, db') \<Longrightarrow>
    publication_jobs db' = publication_jobs db \<and> publications db' = publications db \<and> node_builds db' = node_builds db"
  by (auto simp: save_upload_tx_def Let_def insert_row_Inr dest!: auditD split: prod.splits)

lemma create_project_txD:
  assumes "create_project_tx lib cfg c token workspace name kind db = Inr (p, db')"
  shows "projects db' = projects db @ [p] \<and> p_id p \<notin> p_id ` set (projects db) \<and> p_kind p = kind \<and> p_workspace p = workspace
    \<and> p_name p = name \<and> name \<notin> p_name ` set (workspace_projects workspace db)
    \<and> (sc_projectCapacity cfg = 0 \<or> kind \<noteq> ''static'' \<and> \<not> runs_code kind
       \<or> int (length (projects db)) < sc_projectCapacity cfg
          \<and> (runs_code kind \<longrightarrow> int (length (filter (\<lambda>p. runs_code (p_kind p)) (projects db))) < sc_nodeCapacity cfg))
    \<and> uploads db' = uploads db"
  using assms
  by (auto simp: create_project_tx_def capacityAvailable_def workspace_projects_def Let_def insert_row_Inr list_ex_iff
      dest!: auditD split: if_splits)

lemma create_project_frame:
  "create_project_tx lib cfg c token workspace name kind db = Inr (p, db') \<Longrightarrow>
    publication_jobs db' = publication_jobs db \<and> publications db' = publications db \<and> node_builds db' = node_builds db"
  by (auto simp: create_project_tx_def capacityAvailable_def Let_def insert_row_Inr dest!: auditD split: if_splits)

lemma rename_project_txD:
  assumes "rename_project_tx lib c token project name db = Inr (p, db')"
  shows "(projects db' = projects db \<or> projects db' = upd_row p_id project (\<lambda>q. q\<lparr>p_name := name\<rparr>) (projects db))
    \<and> publication_jobs db' = publication_jobs db \<and> publications db' = publications db \<and> node_builds db' = node_builds db
    \<and> uploads db' = uploads db"
proof -
  obtain q actor where q: "uploadProject lib (cl_now c 0) token project True db = Inr (q, actor)"
    using assms by (auto simp: rename_project_tx_def split: prod.splits)
  show ?thesis
  proof (cases "p_name q = name")
    case True
    with assms q show ?thesis by (auto simp: rename_project_tx_def andThen_simps)
  next
    case False
    with assms q show ?thesis by (auto simp: rename_project_tx_def andThen_simps dest!: auditD)
  qed
qed

lemma configure_policy_txD:
  "configure_policy_tx c workspace required db = Inr (r, db') \<Longrightarrow>
    publication_jobs db' = publication_jobs db \<and> publications db' = publications db \<and> node_builds db' = node_builds db
    \<and> uploads db' = uploads db \<and> projects db' = projects db"
  by (auto simp: configure_policy_tx_def Let_def dest!: auditD)

text \<open>Account transactions do not touch the tables of projects and publications.\<close>

lemma more_tables:
  assumes "accounts_db.more db' = accounts_db.more (db :: 'x publish_db_scheme)"
  shows "projects db' = projects db \<and> uploads db' = uploads db \<and> node_builds db' = node_builds db
    \<and> publication_jobs db' = publication_jobs db \<and> publications db' = publications db"
  using assms by (cases db; cases db') simp

lemmas acct_body_tables = acct_body_more [THEN more_tables]

end
