(* ===== verification/Job_Queue.thy ===== *)
theory Job_Queue
  imports Prelude
begin

text \<open>
  The contract that the job tables of the portal share. Publications, builds and deployments
  are tables of jobs with an identity, a project and a request key, of which at most one per
  project is pending; publications and deployments also carry a revision per project. The
  locales state what the unique keys and the partial index of such a table give, once for all
  of them: appending a request and updating a pending row keep the table in order, and settled
  rows never change.
\<close>

locale job_queue =
  fixes ident :: "'j \<Rightarrow> string"
    and project :: "'j \<Rightarrow> string"
    and key :: "'j \<Rightarrow> string"
    and pending :: "'j \<Rightarrow> bool"
begin

definition table_ok :: "'j list \<Rightarrow> bool" where
  "table_ok js \<longleftrightarrow> distinct (map ident js) \<and> distinct (map (\<lambda>j. (project j, key j)) js)
     \<and> distinct (map project (filter pending js))"

definition keeps :: "('j \<Rightarrow> 'j) \<Rightarrow> bool" where
  "keeps f \<longleftrightarrow> (\<forall>j. ident (f j) = ident j \<and> project (f j) = project j \<and> key (f j) = key j)"

definition settled :: "string \<Rightarrow> 'j list \<Rightarrow> bool" where
  "settled k js \<longleftrightarrow> (\<exists>j \<in> set js. ident j = k \<and> \<not> pending j)"

lemma empty_ok: "table_ok []"
  by (simp add: table_ok_def)

lemma table_unique: "table_ok js \<Longrightarrow> i \<in> set js \<Longrightarrow> j \<in> set js \<Longrightarrow> ident i = ident j \<Longrightarrow> i = j"
  by (auto simp: table_ok_def distinct_map inj_on_def)

lemma one_pending:
  assumes "table_ok js" and "i \<in> set js" and "pending i" and "j \<in> set js" and "pending j" and "project i = project j"
  shows "i = j"
proof -
  have "inj_on project (set (filter pending js))" using assms(1) by (simp add: table_ok_def distinct_map)
  with assms(2-6) show ?thesis by (auto simp: inj_on_def)
qed

lemma table_snoc:
  assumes "table_ok js" and "ident j \<notin> ident ` set js" and "(project j, key j) \<notin> (\<lambda>j. (project j, key j)) ` set js"
    and "\<And>q. q \<in> set js \<Longrightarrow> project q = project j \<Longrightarrow> \<not> pending q"
  shows "table_ok (js @ [j])"
proof -
  have "distinct (map project (filter pending (js @ [j])))" using assms(1,4) by (auto simp: table_ok_def)
  with assms(1-3) show ?thesis by (simp add: table_ok_def)
qed

lemma table_update:
  assumes "table_ok js" and "keeps f" and "j \<in> set js" and "pending j"
  shows "table_ok (upd_row ident (ident j) f js)"
proof -
  have "map ident (upd_row ident (ident j) f js) = map ident js"
    "map (\<lambda>j. (project j, key j)) (upd_row ident (ident j) f js) = map (\<lambda>j. (project j, key j)) js"
    using assms(2) by (simp_all add: map_upd_row keeps_def)
  moreover have "distinct (map project (filter pending (upd_row ident (ident j) f js)))"
    using assms table_unique [OF assms(1) _ assms(3)]
    by (intro distinct_upd_row_filter [THEN conjunct1]) (auto simp: table_ok_def keeps_def)
  ultimately show ?thesis using assms(1) by (simp only: table_ok_def)
qed

text \<open>A row that is not the pending one under update keeps its place.\<close>

lemma settled_row:
  assumes "table_ok js" and "j \<in> set js" and "pending j" and "q \<in> set js" and "\<not> pending q"
  shows "q \<in> set (upd_row ident (ident j) f js)"
proof -
  have "ident q \<noteq> ident j" using table_unique [OF assms(1,4,2)] assms(3,5) by auto
  with assms(4) show ?thesis by (force simp: set_upd_row)
qed

lemma settled_update:
  assumes "table_ok js" and "j \<in> set js" and "pending j" and "settled k js"
  shows "settled k (upd_row ident (ident j) f js)"
  using assms(4) settled_row [OF assms(1-3)] by (auto simp: settled_def)

lemma settled_snoc: "settled k js \<Longrightarrow> settled k (js @ [j])"
  by (auto simp: settled_def)

lemma settled_not_pending: "table_ok js \<Longrightarrow> settled k js \<Longrightarrow> j \<in> set js \<Longrightarrow> ident j = k \<Longrightarrow> \<not> pending j"
  using table_unique by (auto simp: settled_def)

lemma updated_row: "j \<in> set js \<Longrightarrow> f j \<in> set (upd_row ident (ident j) f js)"
  by (force simp: set_upd_row)

end

text \<open>Tables whose jobs carry a revision per project.\<close>

locale revision_queue = job_queue ident project key pending
  for ident :: "'j \<Rightarrow> string" and project key and pending +
  fixes revision :: "'j \<Rightarrow> int"
begin

definition last_revision :: "string \<Rightarrow> 'j list \<Rightarrow> int" where
  "last_revision p js = fold (\<lambda>j m. if project j = p then max (revision j) m else m) js 0"

definition ordered_ok :: "'j list \<Rightarrow> bool" where
  "ordered_ok js \<longleftrightarrow> table_ok js \<and> sorted_wrt (\<lambda>i j. project i = project j \<longrightarrow> revision i < revision j) js"

definition keeps_revision :: "('j \<Rightarrow> 'j) \<Rightarrow> bool" where
  "keeps_revision f \<longleftrightarrow> keeps f \<and> (\<forall>j. revision (f j) = revision j)"

lemma last_revision_fold:
  "a \<le> fold (\<lambda>j m. if project j = p then max (revision j) m else m) js a
   \<and> (\<forall>j \<in> set js. project j = p \<longrightarrow> revision j \<le> fold (\<lambda>j m. if project j = p then max (revision j) m else m) js a)"
proof (induction js arbitrary: a)
  case Nil
  then show ?case by simp
next
  case (Cons j js)
  let ?a = "if project j = p then max (revision j) a else a"
  from Cons.IH [of ?a] show ?case by auto
qed

lemma last_revision_ge: "j \<in> set js \<Longrightarrow> project j = p \<Longrightarrow> revision j \<le> last_revision p js"
  using last_revision_fold [of 0 p js] by (simp add: last_revision_def)

lemma last_revision_nonneg: "0 \<le> last_revision p js"
  using last_revision_fold [of 0 p js] by (simp add: last_revision_def)

lemma ordered_snoc:
  assumes "ordered_ok js" and "ident j \<notin> ident ` set js" and "(project j, key j) \<notin> (\<lambda>j. (project j, key j)) ` set js"
    and "revision j = last_revision (project j) js + 1"
    and "\<And>q. q \<in> set js \<Longrightarrow> project q = project j \<Longrightarrow> \<not> pending q"
  shows "ordered_ok (js @ [j])"
proof -
  have "sorted_wrt (\<lambda>i j. project i = project j \<longrightarrow> revision i < revision j) (js @ [j])"
    using assms(1,4) last_revision_ge [of _ js "project j"] by (force simp: ordered_ok_def sorted_wrt_append)
  with table_snoc [OF _ assms(2,3,5)] assms(1) show ?thesis by (simp add: ordered_ok_def)
qed

lemma ordered_update:
  assumes "ordered_ok js" and "keeps_revision f" and "j \<in> set js" and "pending j"
  shows "ordered_ok (upd_row ident (ident j) f js)"
proof -
  let ?f = "\<lambda>r. if ident r = ident j then f r else r"
  have same: "project (?f r) = project r" "revision (?f r) = revision r" for r
    using assms(2) by (simp_all add: keeps_revision_def keeps_def)
  have "sorted_wrt (\<lambda>i j. project i = project j \<longrightarrow> revision i < revision j) (upd_row ident (ident j) f js)"
    using assms(1) unfolding upd_row_def sorted_wrt_map same by (simp add: ordered_ok_def)
  moreover have "table_ok (upd_row ident (ident j) f js)"
    using assms by (intro table_update) (simp_all add: ordered_ok_def keeps_revision_def)
  ultimately show ?thesis by (simp add: ordered_ok_def)
qed

text \<open>
  Once a job is pending, the other jobs of its project that ever become pending are newer.
\<close>

definition newer_only :: "string \<times> string \<times> int \<Rightarrow> 'j list \<Rightarrow> bool" where
  "newer_only k js \<longleftrightarrow>
     (case k of (p, i, n) \<Rightarrow>
        (\<exists>j \<in> set js. ident j = i \<and> project j = p \<and> revision j = n)
        \<and> (\<forall>q \<in> set js. project q = p \<longrightarrow> pending q \<longrightarrow> ident q = i \<or> n < revision q))"

lemma newer_update:
  assumes "ordered_ok js" and "keeps_revision f" and "j \<in> set js" and "pending j" and "newer_only k js"
  shows "newer_only k (upd_row ident (ident j) f js)"
proof -
  define g where "g = (\<lambda>r. if ident r = ident j then f r else r)"
  have same: "ident (g r) = ident r" "project (g r) = project r" "revision (g r) = revision r" for r
    using assms(2) by (simp_all add: g_def keeps_revision_def keeps_def)
  have pend: "pending r" if "r \<in> set js" "pending (g r)" for r
    using that table_unique [of js r j] assms(1,3,4) by (auto simp: g_def ordered_ok_def split: if_splits)
  have "newer_only k (map g js)" using assms(5) same pend by (auto simp: newer_only_def)
  then show ?thesis by (simp add: upd_row_def g_def)
qed

lemma newer_snoc:
  assumes "newer_only k js" and "revision j = last_revision (project j) js + 1"
  shows "newer_only k (js @ [j])"
  using assms last_revision_ge [of _ js "project j"] by (fastforce simp: newer_only_def split: prod.splits)

lemma pending_newer:
  assumes "ordered_ok js" and "j \<in> set js" and "pending j"
  shows "newer_only (project j, ident j, revision j) js"
proof -
  have "table_ok js" using assms(1) by (simp add: ordered_ok_def)
  from one_pending [OF this _ _ assms(2,3)] assms(2) show ?thesis by (auto simp: newer_only_def)
qed

end

end
