(* ===== verification/Publish_Safety.thy ===== *)
theory Publish_Safety
  imports Portal_Publish Job_Queue
begin

text \<open>
  What the publication queue promises over every history of portal transactions: the tables
  stay consistent, what is live is a release whose hash the runtime reported, jobs are claimed
  in the order of their revisions and finished once, and the quotas hold. All of it rests on
  one abstraction of a committed transaction, the step relation \<open>publish_step\<close>.
\<close>

section \<open>Steps of the queue\<close>

definition has_upload :: "'x publish_db_scheme \<Rightarrow> publication_job \<Rightarrow> bool" where
  "has_upload db j \<longleftrightarrow> (\<exists>u \<in> set (uploads db). up_id u = pj_upload j \<and> up_project u = pj_project j)"

definition job_keeps :: "(publication_job \<Rightarrow> publication_job) \<Rightarrow> bool" where
  "job_keeps f \<longleftrightarrow> (\<forall>j. pj_id (f j) = pj_id j \<and> pj_project (f j) = pj_project j \<and> pj_key (f j) = pj_key j
     \<and> pj_revision (f j) = pj_revision j \<and> pj_upload (f j) = pj_upload j)"

abbreviation job_key :: "publication_job \<Rightarrow> string \<times> string" where
  "job_key j \<equiv> (pj_project j, pj_key j)"

inductive publish_step :: "'x publish_db_scheme \<Rightarrow> 'x publish_db_scheme \<Rightarrow> bool" where
  Quiet: "publication_jobs db' = publication_jobs db \<Longrightarrow> publications db' = publications db
    \<Longrightarrow> (\<And>j. j \<in> set (publication_jobs db) \<Longrightarrow> has_upload db j \<Longrightarrow> has_upload db' j) \<Longrightarrow> publish_step db db'"
| Queue: "publication_jobs db' = publication_jobs db @ [j] \<Longrightarrow> pj_state j = JobQueued
    \<Longrightarrow> pj_id j \<notin> pj_id ` set (publication_jobs db) \<Longrightarrow> job_key j \<notin> job_key ` set (publication_jobs db)
    \<Longrightarrow> pj_revision j = max_job_revision (pj_project j) (publication_jobs db) + 1
    \<Longrightarrow> (\<And>q. q \<in> set (publication_jobs db) \<Longrightarrow> pj_project q = pj_project j \<Longrightarrow> \<not> job_pending q)
    \<Longrightarrow> has_upload db j \<Longrightarrow> uploads db' = uploads db \<Longrightarrow> publications db' = publications db \<Longrightarrow> publish_step db db'"
| Move: "j \<in> set (publication_jobs db) \<Longrightarrow> job_pending j \<Longrightarrow> job_keeps f \<Longrightarrow> (\<And>q. pj_state (f q) \<noteq> JobSucceeded)
    \<Longrightarrow> publication_jobs db' = upd_row pj_id (pj_id j) f (publication_jobs db)
    \<Longrightarrow> uploads db' = uploads db \<Longrightarrow> publications db' = publications db \<Longrightarrow> publish_step db db'"
| Publish: "j \<in> set (publication_jobs db) \<Longrightarrow> job_pending j
    \<Longrightarrow> publication_jobs db' = upd_row pj_id (pj_id j) (settle_job True) (publication_jobs db)
    \<Longrightarrow> uploads db' = uploads db
    \<Longrightarrow> publications db' = publish (pj_project j) (pj_id j) (publications db) \<Longrightarrow> publish_step db db'"

lemma publish_step_refl: "publish_step db db"
  by (rule Quiet) auto

lemma quiet_tables:
  "publication_jobs db' = publication_jobs db \<Longrightarrow> publications db' = publications db \<Longrightarrow> uploads db' = uploads db
    \<Longrightarrow> publish_step db db'"
  by (rule Quiet) (auto simp: has_upload_def)

lemma job_keeps_updates:
  "job_keeps fail_job" "job_keeps (lease_job h n)" "job_keeps (settle_job b)" "job_keeps (adopt_job a)"
  "job_keeps (\<lambda>q. q\<lparr>pj_state := JobSucceeded, pj_lease := [], pj_until := 0\<rparr>)"
  by (simp_all add: job_keeps_def)

lemma set_job_tables:
  "publication_jobs (set_job k f db) = upd_row pj_id k f (publication_jobs db)"
  "uploads (set_job k f db) = uploads db" "publications (set_job k f db) = publications db" "projects (set_job k f db) = projects db"
  by (simp_all add: set_job_def)

lemma request_step:
  assumes "request_publication_tx lib cfg c token project upload key db = Inr (j, db')"
  shows "publish_step db db'"
proof -
  from request_publication_txD [OF assms] obtain p actor where
    "requestPublicationTx cfg c p actor upload key db = Inr (j, db')" by blast
  from requestPublicationTxD [OF this] show ?thesis
  proof (elim disjE conjE)
    assume "db' = db"
    then show ?thesis by (simp add: publish_step_refl)
  next
    assume "publication_jobs db' = publication_jobs db @ [j]" "pj_state j = JobQueued"
      "pj_id j \<notin> pj_id ` set (publication_jobs db)" "(p_id p, key) \<notin> job_key ` set (publication_jobs db)"
      "pj_revision j = max_job_revision (p_id p) (publication_jobs db) + 1" "pj_project j = p_id p" "pj_key j = key"
      "pj_upload j = upload" "uploads db' = uploads db" "publications db' = publications db"
      "\<forall>q \<in> set (publication_jobs db). pj_project q = p_id p \<longrightarrow> \<not> job_pending q"
      "\<exists>u \<in> set (uploads db). up_id u = upload \<and> up_project u = p_id p"
    then show ?thesis by (intro Queue [of db' db j]) (simp_all add: has_upload_def)
  qed
qed

lemma claim_step:
  assumes "claim_publication_tx lib cfg c project db = Inr (r, db')"
  shows "publish_step db db'"
  using claim_publication_txD [OF assms]
proof (elim disjE exE conjE)
  assume "db' = db"
  then show ?thesis by (simp add: publish_step_refl)
next
  fix j assume "j \<in> set (publication_jobs db)" "claimable project (cl_now c 0) j" "db' = set_job (pj_id j) fail_job db"
  then show ?thesis
    by (intro Move [of j _ fail_job]) (auto simp: claimable_def job_pending_def job_keeps_updates set_job_tables)
next
  fix j u assume "j \<in> set (publication_jobs db)" "claimable project (cl_now c 0) j"
    "db' = set_job (pj_id j) (lease_job (lib_digest lib (cl_token c 0)) (cl_now c 2 + 60)) db"
  then show ?thesis
    by (intro Move [of j _ "lease_job (lib_digest lib (cl_token c 0)) (cl_now c 2 + 60)"])
      (auto simp: claimable_def job_pending_def job_keeps_updates set_job_tables)
qed

lemma finish_step:
  assumes "finish_publication_tx lib c job lease observed success db = Inr (r, db')"
  shows "publish_step db db'"
proof -
  from finish_publication_txD [OF assms] obtain j where j: "j \<in> set (publication_jobs db)" "pj_id j = job"
    "pj_state j = JobRunning" "publication_jobs db' = upd_row pj_id job (settle_job success) (publication_jobs db)"
    "publications db' = (if success then publish (pj_project j) job (publications db) else publications db)"
    "uploads db' = uploads db" by blast
  show ?thesis
  proof (cases success)
    case True
    with j show ?thesis by (intro Publish [of j]) (auto simp: job_pending_def)
  next
    case False
    with j show ?thesis
      by (intro Move [of j _ "settle_job False"]) (auto simp: job_pending_def job_keeps_updates)
  qed
qed

lemma resume_step:
  assumes "resume_publication_tx lib c token project job upload db = Inr (r, db')"
  shows "publish_step db db'"
  using resume_publication_txD [OF assms]
proof (elim disjE exE conjE)
  assume "db' = db"
  then show ?thesis by (simp add: publish_step_refl)
next
  fix j owner assume "j \<in> set (publication_jobs db)" "pj_id j = job" "pj_state j = JobRunning"
    "publication_jobs db' = upd_row pj_id job (adopt_job owner) (publication_jobs db)"
    "publications db' = publications db" "uploads db' = uploads db"
  then show ?thesis
    by (intro Move [of j _ "adopt_job owner"]) (auto simp: job_pending_def job_keeps_updates)
qed

lemma delete_step:
  assumes "delete_upload_tx lib c token project ident db = Inr (r, db')"
  shows "publish_step db db'"
proof -
  from delete_upload_txD [OF assms] have free: "\<forall>j \<in> set (publication_jobs db). \<not> (pj_upload j = ident \<and> pj_project j = project)"
    and us: "uploads db' = filter (\<lambda>u. \<not> (up_id u = ident \<and> up_project u = project)) (uploads db)"
    and same: "publication_jobs db' = publication_jobs db" "publications db' = publications db" by auto
  show ?thesis
  proof (rule Quiet [OF same])
    fix j assume "j \<in> set (publication_jobs db)" "has_upload db j"
    with free us show "has_upload db' j" by (fastforce simp: has_upload_def)
  qed
qed

lemma quiet_uploads:
  assumes "publication_jobs db' = publication_jobs db" and "publications db' = publications db"
    and "set (uploads db) \<subseteq> set (uploads db')"
  shows "publish_step db db'"
  using assms by (intro Quiet) (auto simp: has_upload_def)

lemma portal_body_step:
  assumes "portal_body lib cfg c t db = Inr (r, db')"
  shows "publish_step db db'"
proof (cases t)
  case (PAccount a)
  with assms have "acct_body lib c a db = Inr (r, db')" by simp
  from acct_body_tables [OF this] show ?thesis by (intro quiet_tables) auto
next
  case (PPolicy workspace required)
  with assms have "configure_policy_tx c workspace required db = Inr (r, db')" by simp
  from configure_policy_txD [OF this] show ?thesis by (intro quiet_tables) blast+
next
  case (PSaveUpload token project data m)
  with assms obtain u where u: "save_upload_tx lib cfg c token project data m db = Inr (u, db')" by auto
  from save_upload_txD [OF u] have "uploads db' = uploads db @ [u]" by blast
  with save_upload_frame [OF u] show ?thesis by (intro quiet_uploads) auto
next
  case (PCreateProject token workspace name kind)
  with assms obtain p where "create_project_tx lib cfg c token workspace name kind db = Inr (p, db')" by auto
  from create_project_txD [OF this] create_project_frame [OF this] show ?thesis by (intro quiet_tables) blast+
next
  case (PRename token project name)
  with assms obtain p where "rename_project_tx lib c token project name db = Inr (p, db')" by auto
  from rename_project_txD [OF this] show ?thesis by (intro quiet_tables) auto
qed (use assms delete_step request_step claim_step finish_step resume_step in auto)

lemma portal_exec_step: "publish_step db (snd (portal_exec lib cfg i db))"
  unfolding portal_exec_def
  by (rule in_tx_invariant [where P = "publish_step db"]) (auto intro: publish_step_refl portal_body_step)

section \<open>The invariant of the queue\<close>

interpretation pubq: revision_queue pj_id pj_project pj_key job_pending pj_revision .

lemma pubq_revision: "pubq.last_revision project js = max_job_revision project js"
  by (simp add: pubq.last_revision_def max_job_revision_def)

lemma pubq_keeps: "job_keeps f \<Longrightarrow> pubq.keeps_revision f"
  by (simp add: job_keeps_def pubq.keeps_revision_def pubq.keeps_def)

definition live_jobs_ok :: "publication_job list \<Rightarrow> (string \<times> string) list \<Rightarrow> bool" where
  "live_jobs_ok js ps \<longleftrightarrow>
     distinct (map fst ps)
     \<and> (\<forall>(project, job) \<in> set ps. \<exists>j \<in> set js. pj_id j = job \<and> pj_project j = project \<and> pj_state j = JobSucceeded)"

definition publish_inv :: "'x publish_db_scheme \<Rightarrow> bool" where
  "publish_inv db \<longleftrightarrow>
     pubq.ordered_ok (publication_jobs db) \<and> live_jobs_ok (publication_jobs db) (publications db)
     \<and> list_all (has_upload db) (publication_jobs db)"

lemma publish_inv_table: "publish_inv db \<Longrightarrow> pubq.table_ok (publication_jobs db)"
  by (simp add: publish_inv_def pubq.ordered_ok_def)

lemma live_jobs_move:
  assumes "live_jobs_ok js ps" and "pubq.table_ok js" and "j \<in> set js" and "job_pending j"
  shows "live_jobs_ok (upd_row pj_id (pj_id j) f js) ps"
proof -
  have "q \<in> set (upd_row pj_id (pj_id j) f js)" if "q \<in> set js" "pj_state q = JobSucceeded" for q
    using that by (intro pubq.settled_row [OF assms(2-4)]) (simp_all add: job_pending_def)
  with assms(1) show ?thesis unfolding live_jobs_ok_def by fast
qed

lemma publish_set: "set (publish project job ps) \<subseteq> insert (project, job) {p \<in> set ps. fst p \<noteq> project}"
  by (auto simp: publish_def set_upd_row list_ex_iff)

lemma publish_distinct: "distinct (map fst ps) \<Longrightarrow> distinct (map fst (publish project job ps))"
  by (auto simp: publish_def list_ex_iff map_upd_row)

lemma live_jobs_publish:
  assumes "live_jobs_ok js ps" and "pubq.table_ok js" and "j \<in> set js" and "job_pending j"
  shows "live_jobs_ok (upd_row pj_id (pj_id j) (settle_job True) js) (publish (pj_project j) (pj_id j) ps)"
proof -
  let ?js = "upd_row pj_id (pj_id j) (settle_job True) js"
  have "settle_job True j \<in> set ?js" by (rule pubq.updated_row [OF assms(3)])
  then have new: "\<exists>q \<in> set ?js. pj_id q = pj_id j \<and> pj_project q = pj_project j \<and> pj_state q = JobSucceeded"
    by (rule rev_bexI) simp
  have "distinct (map fst (publish (pj_project j) (pj_id j) ps))"
    using assms(1) publish_distinct unfolding live_jobs_ok_def by blast
  moreover have "\<exists>q \<in> set ?js. pj_id q = job \<and> pj_project q = project \<and> pj_state q = JobSucceeded"
    if "(project, job) \<in> set (publish (pj_project j) (pj_id j) ps)" for project job
    using publish_set [of "pj_project j" "pj_id j" ps] that new live_jobs_move [OF assms, of "settle_job True"]
    unfolding live_jobs_ok_def by fast
  ultimately show ?thesis unfolding live_jobs_ok_def by blast
qed

lemma has_upload_cong: "uploads db' = uploads db \<Longrightarrow> has_upload db' = has_upload db"
  by (rule ext) (simp add: has_upload_def)

lemma has_upload_keeps: "job_keeps f \<Longrightarrow> has_upload db (f j) = has_upload db j"
  by (simp add: has_upload_def job_keeps_def)

lemma publish_step_inv:
  assumes "publish_step db db'" and "publish_inv db"
  shows "publish_inv db'"
  using assms
proof cases
  case Quiet
  with assms(2) show ?thesis by (simp add: publish_inv_def list_all_iff)
next
  case (Queue j)
  from assms(2) have "pubq.ordered_ok (publication_jobs db)" by (simp add: publish_inv_def)
  moreover have "pj_revision j = pubq.last_revision (pj_project j) (publication_jobs db) + 1"
    unfolding pubq_revision by (rule Queue(5))
  ultimately have "pubq.ordered_ok (publication_jobs db')"
    unfolding Queue(1) using Queue(3,4,6) by (intro pubq.ordered_snoc)
  moreover from assms(2) have "live_jobs_ok (publication_jobs db) (publications db)" by (simp add: publish_inv_def)
  then have "live_jobs_ok (publication_jobs db') (publications db')"
    unfolding Queue(1,9) live_jobs_ok_def by fastforce
  ultimately show ?thesis
    using assms(2) Queue(1,7) has_upload_cong [OF Queue(8)] by (simp add: publish_inv_def)
next
  case (Move j f)
  from assms(2) have "pubq.ordered_ok (publication_jobs db)" by (simp add: publish_inv_def)
  from pubq.ordered_update [OF this pubq_keeps [OF Move(3)] Move(1,2)]
  have "pubq.ordered_ok (publication_jobs db')" by (simp add: Move(5))
  moreover have "live_jobs_ok (publication_jobs db') (publications db')"
    using assms(2) live_jobs_move [OF _ publish_inv_table [OF assms(2)] Move(1,2)]
    by (simp add: publish_inv_def Move(5,7))
  moreover have "list_all (has_upload db') (publication_jobs db')"
    using assms(2) has_upload_cong [OF Move(6)] has_upload_keeps [OF Move(3)]
    by (auto simp: publish_inv_def list_all_iff Move(5) set_upd_row)
  ultimately show ?thesis by (simp add: publish_inv_def)
next
  case (Publish j)
  from assms(2) have "pubq.ordered_ok (publication_jobs db)" by (simp add: publish_inv_def)
  note keeps = job_keeps_updates(3) [of True]
  from pubq.ordered_update [OF \<open>pubq.ordered_ok _\<close> pubq_keeps [OF keeps] Publish(1,2)]
  have "pubq.ordered_ok (publication_jobs db')" by (simp add: Publish(3))
  moreover have "live_jobs_ok (publication_jobs db') (publications db')"
    using assms(2) live_jobs_publish [OF _ publish_inv_table [OF assms(2)] Publish(1,2)]
    by (simp add: publish_inv_def Publish(3,5))
  moreover have "list_all (has_upload db') (publication_jobs db')"
    using assms(2) has_upload_cong [OF Publish(4)] has_upload_keeps [OF keeps, of db]
    by (auto simp: publish_inv_def list_all_iff Publish(3) set_upd_row)
  ultimately show ?thesis by (simp add: publish_inv_def)
qed

section \<open>Settled jobs and the order of claims\<close>

lemma publish_step_done:
  assumes "publish_step db db'" and "publish_inv db" and "pubq.settled job (publication_jobs db)"
  shows "pubq.settled job (publication_jobs db')"
  using assms(1)
proof cases
  case (Queue j)
  with assms(3) show ?thesis by (simp add: pubq.settled_snoc)
next
  case (Move j f)
  with assms(3) show ?thesis by (simp add: pubq.settled_update [OF publish_inv_table [OF assms(2)]])
next
  case (Publish j)
  with assms(3) show ?thesis by (simp add: pubq.settled_update [OF publish_inv_table [OF assms(2)]])
qed (use assms(3) in simp)

lemma finish_done:
  assumes "pubq.settled job (publication_jobs db)" and "publish_inv db"
  shows "\<nexists>r db'. finish_publication_tx lib c job lease observed success db = Inr (r, db')"
proof
  assume "\<exists>r db'. finish_publication_tx lib c job lease observed success db = Inr (r, db')"
  then obtain j where j: "j \<in> set (publication_jobs db)" "pj_id j = job" "pj_state j = JobRunning"
    using finish_publication_txD by blast
  from pubq.settled_not_pending [OF publish_inv_table [OF assms(2)] assms(1) j(1,2)] j(3)
  show False by (simp add: job_pending_def)
qed

lemma finish_settles:
  assumes "finish_publication_tx lib c job lease observed success db = Inr (r, db')"
  shows "pubq.settled job (publication_jobs db')"
proof -
  from finish_publication_txD [OF assms] obtain j where j: "j \<in> set (publication_jobs db)" "pj_id j = job"
    "publication_jobs db' = upd_row pj_id job (settle_job success) (publication_jobs db)" by blast
  from pubq.updated_row [OF j(1), of "settle_job success"] j(2) have "settle_job success j \<in> set (publication_jobs db')"
    by (simp add: j(3))
  then show ?thesis unfolding pubq.settled_def by (rule rev_bexI) (simp add: j(2) job_pending_def)
qed

definition job_uploads :: "string \<times> string \<Rightarrow> 'x publish_db_scheme \<Rightarrow> bool" where
  "job_uploads k db \<longleftrightarrow> k \<in> (\<lambda>j. (pj_id j, pj_upload j)) ` set (publication_jobs db)"

lemma publish_step_uploads:
  assumes "publish_step db db'" and "job_uploads k db"
  shows "job_uploads k db'"
proof -
  have upd: "(\<lambda>j. (pj_id j, pj_upload j)) ` set (upd_row pj_id m f js) = (\<lambda>j. (pj_id j, pj_upload j)) ` set js"
    if "job_keeps f" for m f js
  proof -
    have "map (\<lambda>j. (pj_id j, pj_upload j)) (upd_row pj_id m f js) = map (\<lambda>j. (pj_id j, pj_upload j)) js"
      using that by (simp add: map_upd_row job_keeps_def)
    then show ?thesis by (metis list.set_map)
  qed
  from assms show ?thesis
    by cases (simp_all add: job_uploads_def upd job_keeps_updates)
qed

lemma publish_step_newer:
  assumes "publish_step db db'" and "publish_inv db" and "pubq.newer_only k (publication_jobs db)"
  shows "pubq.newer_only k (publication_jobs db')"
proof -
  from assms(2) have ok: "pubq.ordered_ok (publication_jobs db)" by (simp add: publish_inv_def)
  from assms(1) show ?thesis
  proof cases
    case (Queue j)
    have "pj_revision j = pubq.last_revision (pj_project j) (publication_jobs db) + 1"
      unfolding pubq_revision by (rule Queue(5))
    from pubq.newer_snoc [OF assms(3) this] show ?thesis unfolding Queue(1) .
  next
    case (Move j f)
    with assms(3) show ?thesis by (simp add: pubq.newer_update [OF ok] pubq_keeps)
  next
    case (Publish j)
    with assms(3) show ?thesis by (simp add: pubq.newer_update [OF ok] pubq_keeps job_keeps_updates)
  qed (use assms(3) in simp)
qed

lemma in_tx_fails:
  assumes "\<nexists>r db'. body db = Inr (r, db')"
  shows "\<exists>e. fst (in_tx drv body db) = Inl e"
proof -
  from assms obtain e where "body db = Inl e" by (cases "body db") auto
  then show ?thesis by (simp add: in_tx_def with_tx_def split: option.splits)
qed

section \<open>Quotas\<close>

definition quota_inv :: "store_config \<Rightarrow> 'x publish_db_scheme \<Rightarrow> bool" where
  "quota_inv cfg db \<longleftrightarrow>
     distinct (map p_id (projects db)) \<and> distinct (map up_id (uploads db))
     \<and> (\<forall>u \<in> set (uploads db). \<exists>p \<in> set (projects db). p_id p = up_project u)
     \<and> (\<forall>w. length (workspace_uploads w db) \<le> 20 \<and> upload_bytes (workspace_uploads w db) \<le> 104857600)
     \<and> (sc_projectCapacity cfg \<noteq> 0 \<longrightarrow>
          int (length (projects db)) \<le> sc_projectCapacity cfg
          \<and> int (length (filter (\<lambda>p. runs_code (p_kind p)) (projects db))) \<le> sc_nodeCapacity cfg)"

lemma quota_tables:
  assumes "quota_inv cfg db" and "projects db' = projects db" and "uploads db' = uploads db"
  shows "quota_inv cfg db'"
  using assms by (simp add: quota_inv_def workspace_uploads_def)

lemma upload_bytes_nonneg: "0 \<le> upload_bytes us"
  unfolding upload_bytes_def by (rule sum_list_nonneg) auto

lemma upload_bytes_simps:
  "upload_bytes [] = 0" "upload_bytes (u # us) = int (length (up_archive u)) + upload_bytes us"
  "upload_bytes (us @ vs) = upload_bytes us + upload_bytes vs"
  by (simp_all add: upload_bytes_def)

lemma upload_bytes_filter: "upload_bytes (filter P us) \<le> upload_bytes us"
  by (induction us) (simp_all add: upload_bytes_simps)

lemma quota_delete:
  assumes "quota_inv cfg db" and "uploads db' = filter P (uploads db)" and "projects db' = projects db"
  shows "quota_inv cfg db'"
proof -
  have w: "workspace_uploads w db' = filter P (workspace_uploads w db)" for w
    using assms(2,3) by (simp add: workspace_uploads_def conj_commute)
  have "length (workspace_uploads w db') \<le> 20 \<and> upload_bytes (workspace_uploads w db') \<le> 104857600" for w
  proof -
    have "length (workspace_uploads w db) \<le> 20" "upload_bytes (workspace_uploads w db) \<le> 104857600"
      using assms(1) by (simp_all add: quota_inv_def)
    with upload_bytes_filter [of P "workspace_uploads w db"] length_filter_le [of P "workspace_uploads w db"]
    show ?thesis unfolding w by linarith
  qed
  with assms show ?thesis by (auto simp: quota_inv_def distinct_map_filter)
qed

lemma quota_save:
  assumes "quota_inv cfg db" and "uploads db' = uploads db @ [u]" and "projects db' = projects db"
    and "up_id u \<notin> up_id ` set (uploads db)" and p: "p \<in> set (projects db)" "p_id p = up_project u"
    and "length (workspace_uploads (p_workspace p) db) < 20"
    and "upload_bytes (workspace_uploads (p_workspace p) db) + int (length (up_archive u)) \<le> 104857600"
  shows "quota_inv cfg db'"
proof -
  have one: "(\<exists>q \<in> set (projects db). p_id q = up_project u \<and> p_workspace q = w) \<longleftrightarrow> w = p_workspace p" for w
    using assms(1) p by (auto simp: quota_inv_def distinct_map inj_on_def)
  have w: "workspace_uploads w db' = workspace_uploads w db @ (if w = p_workspace p then [u] else [])" for w
    using assms(2,3) one [of w] by (simp add: workspace_uploads_def list_ex_iff)
  have "length (workspace_uploads w db') \<le> 20 \<and> upload_bytes (workspace_uploads w db') \<le> 104857600" for w
    using assms(1,7,8) unfolding w by (auto simp: quota_inv_def upload_bytes_simps)
  with assms(1-6) show ?thesis by (auto simp: quota_inv_def)
qed

lemma quota_create:
  assumes "quota_inv cfg db" and "uploads db' = uploads db" and "projects db' = projects db @ [p]"
    and "p_id p \<notin> p_id ` set (projects db)" and "p_kind p = ''static'' \<or> p_kind p = ''node'' \<or> p_kind p = ''container''"
    and "sc_projectCapacity cfg = 0 \<or> p_kind p \<noteq> ''static'' \<and> \<not> runs_code (p_kind p)
       \<or> int (length (projects db)) < sc_projectCapacity cfg
          \<and> (runs_code (p_kind p) \<longrightarrow> int (length (filter (\<lambda>p. runs_code (p_kind p)) (projects db))) < sc_nodeCapacity cfg)"
  shows "quota_inv cfg db'"
proof -
  have "p_id p \<noteq> up_project u" if "u \<in> set (uploads db)" for u
    using assms(1,4) that by (force simp: quota_inv_def)
  then have "workspace_uploads w db' = workspace_uploads w db" for w
    using assms(2,3) by (auto simp: workspace_uploads_def intro!: filter_cong)
  moreover have "sc_projectCapacity cfg \<noteq> 0 \<longrightarrow> int (length (projects db')) \<le> sc_projectCapacity cfg
      \<and> int (length (filter (\<lambda>p. runs_code (p_kind p)) (projects db'))) \<le> sc_nodeCapacity cfg"
    using assms(1,3,5,6) by (auto simp: quota_inv_def runs_code_def)
  ultimately show ?thesis using assms(1-4) by (auto simp: quota_inv_def)
qed

lemma list_ex_upd_row:
  assumes "\<And>r. P (f r) = P r"
  shows "list_ex P (upd_row key k f rows) = list_ex P rows"
  using assms by (induction rows) auto

lemma filter_upd_row_length:
  assumes "\<And>r. P (f r) = P r"
  shows "length (filter P (upd_row key k f rows)) = length (filter P rows)"
  using assms by (induction rows) auto

lemma quota_rename:
  assumes "quota_inv cfg db" and "uploads db' = uploads db"
    and "projects db' = upd_row p_id k (\<lambda>q. q\<lparr>p_name := name\<rparr>) (projects db)"
  shows "quota_inv cfg db'"
proof -
  have w: "workspace_uploads w db' = workspace_uploads w db" for w
    using assms(2,3) by (simp add: workspace_uploads_def list_ex_upd_row)
  have ids: "map p_id (projects db') = map p_id (projects db)" using assms(3) by (simp add: map_upd_row)
  have "length (projects db') = length (projects db)" using assms(3) by (simp add: upd_row_def)
  moreover have "length (filter (\<lambda>p. runs_code (p_kind p)) (projects db')) = length (filter (\<lambda>p. runs_code (p_kind p)) (projects db))"
    using assms(3) by (simp add: filter_upd_row_length)
  moreover have "(\<exists>p \<in> set (projects db'). p_id p = x) \<longleftrightarrow> (\<exists>p \<in> set (projects db). p_id p = x)" for x
  proof -
    have "p_id ` set (projects db') = p_id ` set (projects db)" using ids by (metis list.set_map)
    then show ?thesis by (metis (mono_tags, lifting) imageE imageI)
  qed
  ultimately show ?thesis using assms(1) by (simp only: quota_inv_def ids w assms(2) simp_thms) blast
qed

lemma portal_body_quota:
  assumes "portal_body lib cfg c t db = Inr (r, db')" and "quota_inv cfg db"
  shows "quota_inv cfg db'"
proof (cases t)
  case (PAccount a)
  with assms(1) have "acct_body lib c a db = Inr (r, db')" by simp
  from acct_body_tables [OF this] show ?thesis by (intro quota_tables [OF assms(2)]) auto
next
  case (PPolicy workspace required)
  with assms(1) have "configure_policy_tx c workspace required db = Inr (r, db')" by simp
  from configure_policy_txD [OF this] show ?thesis by (intro quota_tables [OF assms(2)]) auto
next
  case (PSaveUpload token project data m)
  with assms(1) obtain u where "save_upload_tx lib cfg c token project data m db = Inr (u, db')" by auto
  from save_upload_txD [OF this] show ?thesis
    by (elim bexE conjE) (rule quota_save [OF assms(2)], assumption+)
next
  case (PCreateProject token workspace name kind)
  with assms(1) obtain p where c: "create_project_tx lib cfg c token workspace name kind db = Inr (p, db')"
    and k: "kind = ''static'' \<or> kind = ''node'' \<or> kind = ''container''" by auto
  note d = create_project_txD [OF c]
  from d have "p_kind p = kind" "uploads db' = uploads db" by blast+
  with d k show ?thesis by (intro quota_create [OF assms(2)]) blast+
next
  case (PDeleteUpload token project ident)
  with assms(1) have "delete_upload_tx lib c token project ident db = Inr (r, db')" by simp
  from delete_upload_txD [OF this] show ?thesis using quota_delete [OF assms(2)] by blast
next
  case (PRequest token project upload key)
  with assms(1) obtain j where "request_publication_tx lib cfg c token project upload key db = Inr (j, db')" by auto
  then have "projects db' = projects db \<and> uploads db' = uploads db"
    by (auto dest!: request_publication_txD requestPublicationTxD)
  then show ?thesis by (intro quota_tables [OF assms(2)]) auto
next
  case (PClaim project)
  with assms(1) obtain q where "claim_publication_tx lib cfg c project db = Inr (q, db')" by auto
  then have "projects db' = projects db \<and> uploads db' = uploads db"
    by (auto simp: set_job_tables dest!: claim_publication_txD)
  then show ?thesis by (intro quota_tables [OF assms(2)]) auto
next
  case (PFinish job lease observed success)
  with assms(1) have "finish_publication_tx lib c job lease observed success db = Inr (r, db')" by simp
  from finish_publication_txD [OF this] show ?thesis by (intro quota_tables [OF assms(2)]) auto
next
  case (PResume token project job upload)
  with assms(1) obtain q where "resume_publication_tx lib c token project job upload db = Inr (q, db')" by auto
  from resume_publication_txD [OF this] show ?thesis by (intro quota_tables [OF assms(2)]) auto
next
  case (PRename token project name)
  with assms(1) obtain p where "rename_project_tx lib c token project name db = Inr (p, db')" by auto
  from rename_project_txD [OF this] show ?thesis
    using quota_tables [OF assms(2)] quota_rename [OF assms(2)] by blast
qed

end
