(* ===== verification/Portal_Builds.thy ===== *)
theory Portal_Builds
  imports Publish_Safety Node_Inbox Node_Router
begin

text \<open>
  The node builds of the portal: \<open>nodebuild/plan.go\<close>, \<open>portal/node_builds.go\<close>,
  \<open>node_build_claims.go\<close>, \<open>node_build_dependencies.go\<close>, \<open>node_build_dispatch.go\<close>,
  \<open>node_build_worker.go\<close>, \<open>node_build_pending.go\<close>, \<open>node_build_recovery.go\<close> and \<open>node_releases.go\<close>.
  The tables of deployments stand here too, since a deployment keeps its release.
\<close>

section \<open>Tables\<close>

record node_release =
  rl_BuildID :: string
  rl_ProjectID :: string
  rl_ExecutionID :: string
  rl_SourceSHA256 :: string
  rl_ToolchainSHA256 :: string
  rl_Architecture :: string
  rl_ArtifactSHA256 :: string
  rl_Files :: int
  rl_ExpandedBytes :: int
  rl_CompressedBytes :: int
  rl_CreatedAt :: int

text \<open>The column \<open>compressed_bytes\<close> is the length of the archive, by a check of the table.\<close>

record release_row =
  rr_build :: string
  rr_metadata :: node_release
  rr_archive :: string

record runtime_observation =
  ob_Routing :: route_state
  ob_ToolchainSHA256 :: string
  ob_Architecture :: string
  ob_Settled :: bool
  ob_CandidateStopped :: bool
  ob_Healthy :: bool
  ob_ObservedAt :: int

datatype deployment_state = DepQueued | DepRunning | DepSucceeded | DepFailed | DepCancelled

record node_deployment =
  nd_id :: string
  nd_project :: string
  nd_release :: string
  nd_artifact :: string
  nd_runtime :: string
  nd_actor :: string
  nd_key :: string
  nd_revision :: int
  nd_state :: deployment_state
  nd_operation :: string
  nd_lease :: string
  nd_until :: int
  nd_created :: int
  nd_result :: "runtime_observation option"
  nd_intent :: "runtime_request option"

text \<open>\<open>deployment_refs\<close> are the rows (deployment, release) of \<open>node_deployment_releases\<close>.\<close>

record active_row =
  ac_project :: string
  ac_deployment :: string
  ac_release :: string

record node_db = publish_db +
  node_releases :: "release_row list"
  node_deployments :: "node_deployment list"
  deployment_refs :: "(string \<times> string) list"
  active_deployments :: "active_row list"

section \<open>The build plan\<close>

text \<open>
  What \<open>Prepare\<close> reads of \<open>package.json\<close>: the build script and the package manager. \<open>None\<close>
  is a file that cannot be read or decoded; a source without the file has neither.
\<close>

record build_settings =
  bs_Architecture :: string
  bs_SkipBuild :: bool

record package_json =
  pk_build :: string
  pk_manager :: string

definition npm_ci :: "string \<times> string list" where
  "npm_ci = (''npm'', [''ci'', ''--include=dev'', ''--engine-strict'', ''--no-audit'', ''--no-fund''])"

definition npm_build :: "string \<times> string list" where
  "npm_build = (''npm'', [''run'', ''build''])"

definition npm_prune :: "string \<times> string list" where
  "npm_prune = (''npm'', [''prune'', ''--omit=dev'', ''--ignore-scripts'', ''--offline'', ''--no-audit'', ''--no-fund''])"

definition prepare ::
  "(string \<Rightarrow> archive_manifest option) \<Rightarrow> (string \<Rightarrow> package_json option) \<Rightarrow> string \<Rightarrow> string \<Rightarrow> build_settings
    \<Rightarrow> build_plan result" where
  "prepare validate package source expected settings =
     andThen (guard ErrPlan (bs_Architecture settings = ''amd64'' \<or> bs_Architecture settings = ''arm64'')) (\<lambda>_.
     andThen (some_or ErrArchive (validate source)) (\<lambda>m.
     andThen (guard ErrPlan (am_SHA256 m = expected)) (\<lambda>_.
     andThen (some_or ErrPlan (package source)) (\<lambda>pk.
     andThen (guard ErrPlan (pk_manager pk = [] \<or> hasPrefix (pk_manager pk) ''npm@'')) (\<lambda>_.
     Inr \<lparr>pl_Version = 1, pl_SourceSHA256 = am_SHA256 m, pl_OS = ''linux'', pl_Architecture = bs_Architecture settings,
          pl_NodeMajor = 24,
          pl_Steps = [npm_ci] @ (if \<not> bs_SkipBuild settings \<and> trimSpace (pk_build pk) \<noteq> [] then [npm_build] else []) @ [npm_prune],
          pl_Start = (''npm'', [''start'', ''--ignore-scripts'']), pl_Port = 3000\<rparr>)))))"

text \<open>
  Code of other packages that the builds call, given by its results: the validation of a
  source archive and of an artifact, the package file of a source, SHA-256 of bytes, the
  tarballs that a source's lock file and a verified bundle name, and the log sanitizer.
\<close>

record build_lib =
  bl_source :: "string \<Rightarrow> archive_manifest option"
  bl_package :: "string \<Rightarrow> package_json option"
  bl_artifact :: validator
  bl_sha256 :: "string \<Rightarrow> string"
  bl_tarballs :: "string \<Rightarrow> string \<Rightarrow> (string \<times> string) list result"
  bl_verify :: "npm_bundle \<Rightarrow> string \<Rightarrow> (string \<times> string) list result"
  bl_sanitize :: "string \<Rightarrow> string"

section \<open>Requesting and cancelling\<close>

definition insert_build :: "node_build \<Rightarrow> node_build list \<Rightarrow> node_build list result" where
  "insert_build b bs =
     andThen (insert_row nb_id b bs) (\<lambda>_.
     andThen (insert_row (\<lambda>b. (nb_project b, nb_key b)) b bs) (\<lambda>_.
     andThen (guard ErrDriver (\<not> (build_pending b \<and> list_ex (\<lambda>q. nb_project q = nb_project b \<and> build_pending q) bs))) (\<lambda>_.
     Inr (bs @ [b]))))"

definition project_builds :: "string \<Rightarrow> 'x publish_db_scheme \<Rightarrow> node_build list" where
  "project_builds project db = filter (\<lambda>b. nb_project b = project) (node_builds db)"

definition build_request_ok :: "string \<Rightarrow> string \<Rightarrow> bool" where
  "build_request_ok toolchain key \<longleftrightarrow> \<not> (\<not> digestID toolchain \<or> length key < 16 \<or> length key > 128)"

definition requestNodeBuildTx ::
  "build_lib \<Rightarrow> store_config \<Rightarrow> call \<Rightarrow> project \<Rightarrow> string \<Rightarrow> string \<Rightarrow> string \<Rightarrow> build_settings \<Rightarrow> string \<Rightarrow> 'x publish_db_scheme
    \<Rightarrow> (node_build \<times> 'x publish_db_scheme) result" where
  "requestNodeBuildTx bl cfg c p actor upload key settings toolchain db =
     andThen (guard Portal_ErrInvalid (build_request_ok toolchain key)) (\<lambda>_.
     andThen (guard Portal_ErrInvalid (p_kind p = ''node'')) (\<lambda>_.
     andThen (some_or ErrDenied (List.find (\<lambda>u. up_id u = upload \<and> up_project u = p_id p) (uploads db))) (\<lambda>u.
     andThen (prepare (bl_source bl) (bl_package bl) (up_archive u) (up_sha256 u) settings) (\<lambda>plan.
     case get_row (\<lambda>b. (nb_project b, nb_key b)) (p_id p, key) (node_builds db) of
       Some existing \<Rightarrow>
         if nb_upload existing \<noteq> upload \<or> nb_toolchain existing \<noteq> toolchain \<or> nb_plan existing \<noteq> plan
         then Inl ErrBuildConflict else Inr (existing, db)
     | None \<Rightarrow>
         andThen (requireHostingKind cfg (cl_now c 1) (p_workspace p) (p_kind p) db) (\<lambda>_.
         andThen (guard ErrBuildConflict (\<not> list_ex build_pending (project_builds (p_id p) db))) (\<lambda>_.
         andThen (guard ErrBuildQuota (\<not> length (project_builds (p_id p) db) \<ge> 100)) (\<lambda>_.
         let b = \<lparr>nb_id = cl_token c 0, nb_project = p_id p, nb_upload = upload, nb_actor = actor, nb_key = key,
                  nb_plan = plan, nb_toolchain = toolchain, nb_state = BuildQueued, nb_created = cl_now c 2,
                  nb_execution = [], nb_lease = [], nb_until = 0, nb_result = None, nb_bundle = None, nb_intent = None\<rparr>
         in andThen (insert_build b (node_builds db)) (\<lambda>bs.
            andThen (audit (cl_token c 1) actor (p_workspace p) (''node_build.requested:'' @ nb_id b) (nb_created b)
                       (db\<lparr>node_builds := bs\<rparr>)) (\<lambda>db1.
            Inr (b, db1))))))))))"

definition request_build_tx ::
  "portal_lib \<Rightarrow> build_lib \<Rightarrow> store_config \<Rightarrow> call \<Rightarrow> string \<Rightarrow> string \<Rightarrow> string \<Rightarrow> string \<Rightarrow> build_settings \<Rightarrow> string
    \<Rightarrow> 'x publish_db_scheme \<Rightarrow> (node_build \<times> 'x publish_db_scheme) result" where
  "request_build_tx lib bl cfg c token project upload key settings toolchain db =
     andThen (guard Portal_ErrInvalid (build_request_ok toolchain key)) (\<lambda>_.
     andThen (uploadProject lib (cl_now c 0) token project True db) (\<lambda>(p, actor).
       requestNodeBuildTx bl cfg c p actor upload key settings toolchain db))"

definition set_build :: "string \<Rightarrow> (node_build \<Rightarrow> node_build) \<Rightarrow> 'x publish_db_scheme \<Rightarrow> 'x publish_db_scheme" where
  "set_build ident f db = db\<lparr>node_builds := upd_row nb_id ident f (node_builds db)\<rparr>"

definition cancel_build_tx ::
  "portal_lib \<Rightarrow> call \<Rightarrow> string \<Rightarrow> string \<Rightarrow> string \<Rightarrow> 'x publish_db_scheme \<Rightarrow> (unit \<times> 'x publish_db_scheme) result" where
  "cancel_build_tx lib c token project ident db =
     andThen (uploadProject lib (cl_now c 0) token project True db) (\<lambda>(p, actor).
     andThen (some_or ErrDenied (List.find (\<lambda>b. nb_id b = ident \<and> nb_project b = project) (node_builds db))) (\<lambda>b.
     if nb_state b = BuildCancelled then Inr ((), db)
     else
       andThen (guard ErrBuildConflict (nb_state b = BuildQueued)) (\<lambda>_.
       andThen (audit (cl_token c 0) actor (p_workspace p) (''node_build.cancelled:'' @ ident) (cl_now c 1)
                  (set_build ident (\<lambda>q. q\<lparr>nb_state := BuildCancelled\<rparr>) db)) (\<lambda>db1. Inr ((), db1)))))"

section \<open>What a build shows to its owner\<close>

fun nodeBuildProgress :: "build_state \<Rightarrow> bool \<Rightarrow> build_result option \<Rightarrow> string \<times> string" where
  "nodeBuildProgress BuildQueued dispatched r =
     (''queued'', ''Waiting for a build worker. Your live website is unchanged.'')"
| "nodeBuildProgress BuildRunning dispatched r =
     (if dispatched
      then (''submitted'', ''Build prepared. Waiting for builder execution or its result. Your live website is unchanged.'')
      else (''preparing'', ''Preparing and checking project dependencies before the build. Your live website is unchanged.''))"
| "nodeBuildProgress BuildSucceeded dispatched r =
     (''succeeded'', ''Build completed successfully. Deploy a saved release to update your website.'')"
| "nodeBuildProgress BuildCancelled dispatched r = (''cancelled'', ''Build cancelled. Your live website is unchanged.'')"
| "nodeBuildProgress BuildFailed dispatched r =
     (''failed'',
      if r = Some PreparationExpired
      then ''Dependency preparation did not finish before the worker timeout. The project was not submitted to the builder. Try Build again or contact support.''
      else ''The build did not produce a saved release. Check your project and dependencies, then try Build again or contact support.'')"

definition nodeBuilds ::
  "portal_lib \<Rightarrow> call \<Rightarrow> string \<Rightarrow> string \<Rightarrow> 'x publish_db_scheme \<Rightarrow> (node_build \<times> string \<times> string) list result" where
  "nodeBuilds lib c token project db =
     (case cl_drv c of
        Some e \<Rightarrow> Inl e
      | None \<Rightarrow>
          andThen (uploadProject lib (cl_now c 0) token project True db) (\<lambda>_.
          Inr (map (\<lambda>b. (b, nodeBuildProgress (nb_state b) (nb_intent b \<noteq> None) (nb_result b)))
                (sort_key (\<lambda>b. - nb_created b) (sort_key nb_id (project_builds project db))))))"

section \<open>Claims and leases\<close>

record build_claim =
  bc_Job :: node_build
  bc_ExecutionID :: string
  bc_Lease :: string
  bc_LeaseUntil :: int
  bc_Archive :: string

definition build_actor_rows :: "string \<Rightarrow> 'x publish_db_scheme \<Rightarrow> membership list" where
  "build_actor_rows ident db =
     concat (map (\<lambda>b. concat (map (\<lambda>p. concat (map (\<lambda>u.
        filter (\<lambda>m. mb_user m = u_id u \<and> mb_workspace m = p_workspace p
                    \<and> (mb_role m = ''owner'' \<or> mb_role m = ''developer'')) (memberships db))
        (filter (\<lambda>u. u_id u = nb_actor b \<and> active_user u) (users db))))
        (filter (\<lambda>p. p_id p = nb_project b \<and> p_kind p = ''node'') (projects db))))
       (filter (\<lambda>b. nb_id b = ident) (node_builds db)))"

definition build_key :: "string \<Rightarrow> 'x publish_db_scheme \<Rightarrow> (string \<times> bool) option" where
  "build_key ident db = map_option (\<lambda>b. (nb_key b, nb_state b = BuildRunning)) (get_row nb_id ident (node_builds db))"

definition nodeBuildActor :: "string \<Rightarrow> 'x publish_db_scheme \<Rightarrow> bool result" where
  "nodeBuildActor ident db =
     (if length (build_actor_rows ident db) \<noteq> 1 then Inr False
      else githubPipelineJobAuthorized gp_build (build_key ident db) ident db)"

text \<open>The update also passes the unique index over execution identities.\<close>

definition claim_build_tx ::
  "portal_lib \<Rightarrow> build_lib \<Rightarrow> store_config \<Rightarrow> call \<Rightarrow> string \<Rightarrow> string \<Rightarrow> string \<Rightarrow> 'x publish_db_scheme
    \<Rightarrow> (build_claim option \<times> 'x publish_db_scheme) result" where
  "claim_build_tx lib bl cfg c project toolchain architecture db =
     (case List.find (\<lambda>b. nb_project b = project \<and> nb_state b = BuildQueued) (node_builds db) of
        None \<Rightarrow> Inr (None, db)
      | Some b \<Rightarrow>
          andThen (guard ErrBuildConflict
             (\<not> (nb_toolchain b \<noteq> toolchain \<or> pl_Architecture (nb_plan b) \<noteq> architecture \<or> pl_OS (nb_plan b) \<noteq> ''linux''
                 \<or> pl_NodeMajor (nb_plan b) \<noteq> 24 \<or> pl_Version (nb_plan b) \<noteq> 1))) (\<lambda>_.
          andThen (nodeBuildActor (nb_id b) db) (\<lambda>allowed.
          andThen (guard ErrDenied allowed) (\<lambda>_.
          andThen (requireProjectHostingAccess cfg (cl_now c 0) project db) (\<lambda>_.
          andThen (some_or ErrNoRows (List.find (\<lambda>u. up_id u = nb_upload b \<and> up_project u = project) (uploads db))) (\<lambda>u.
          andThen (guard ErrBuildConflict
             (\<not> (up_sha256 u \<noteq> pl_SourceSHA256 (nb_plan b) \<or> bl_sha256 bl (up_archive u) \<noteq> up_sha256 u))) (\<lambda>_.
          let execution = cl_token c 0; lease = cl_token c 1; until = cl_now c 1 + 60 in
          andThen (guard ErrDriver (\<not> (execution \<noteq> [] \<and> list_ex (\<lambda>q. nb_execution q = execution) (node_builds db)))) (\<lambda>_.
          Inr (Some \<lparr>bc_Job = b\<lparr>nb_state := BuildRunning\<rparr>, bc_ExecutionID = execution, bc_Lease = lease,
                     bc_LeaseUntil = until, bc_Archive = up_archive u\<rparr>,
               set_build (nb_id b) (\<lambda>q. q\<lparr>nb_state := BuildRunning, nb_execution := execution,
                                         nb_lease := lib_digest lib lease, nb_until := until\<rparr>) db)))))))))"

definition build_lease_held :: "portal_lib \<Rightarrow> string \<Rightarrow> string \<Rightarrow> string \<Rightarrow> int \<Rightarrow> node_build \<Rightarrow> bool" where
  "build_lease_held lib ident execution lease now b \<longleftrightarrow>
     nb_id b = ident \<and> nb_state b = BuildRunning \<and> nb_execution b = execution \<and> nb_lease b = lib_digest lib lease \<and> nb_until b > now"

text \<open>\<open>leasedNodeBuild\<close>: the job of a current lease, whose submitter may still act.\<close>

definition leasedNodeBuild ::
  "portal_lib \<Rightarrow> int \<Rightarrow> string \<Rightarrow> string \<Rightarrow> string \<Rightarrow> 'x publish_db_scheme \<Rightarrow> node_build result" where
  "leasedNodeBuild lib now ident execution lease db =
     andThen (guard ErrBuildLease (\<not> (length lease \<noteq> 64 \<or> execution = []))) (\<lambda>_.
     andThen (some_or ErrBuildLease (List.find (build_lease_held lib ident execution lease now) (node_builds db))) (\<lambda>b.
     andThen (nodeBuildActor ident db) (\<lambda>allowed.
     andThen (guard ErrDenied allowed) (\<lambda>_. Inr b))))"

definition renew_build_tx ::
  "portal_lib \<Rightarrow> call \<Rightarrow> string \<Rightarrow> string \<Rightarrow> string \<Rightarrow> 'x publish_db_scheme \<Rightarrow> (int \<times> 'x publish_db_scheme) result" where
  "renew_build_tx lib c ident execution lease db =
     andThen (guard ErrBuildLease (\<not> (length lease \<noteq> 64 \<or> execution = []))) (\<lambda>_.
     andThen (guard ErrBuildLease
        (length (filter (build_lease_held lib ident execution lease (cl_now c 0)) (node_builds db)) = 1)) (\<lambda>_.
     andThen (nodeBuildActor ident db) (\<lambda>allowed.
     andThen (guard ErrDenied allowed) (\<lambda>_.
     let until = cl_now c 1 + 60 in Inr (until, set_build ident (\<lambda>q. q\<lparr>nb_until := until\<rparr>) db)))))"

section \<open>Dependencies\<close>

definition same_tarballs :: "(string \<times> string) list \<Rightarrow> (string \<times> string) list \<Rightarrow> bool" where
  "same_tarballs expected found \<longleftrightarrow>
     length expected = length found
     \<and> list_all (\<lambda>(url, integrity). (case map_of (rev expected) url of None \<Rightarrow> [] | Some i \<Rightarrow> i) = integrity) found"

definition bind_source_tx ::
  "portal_lib \<Rightarrow> call \<Rightarrow> string \<Rightarrow> string \<Rightarrow> string \<Rightarrow> 'x publish_db_scheme \<Rightarrow> (node_build \<times> string) result" where
  "bind_source_tx lib c ident execution lease db =
     andThen (leasedNodeBuild lib (cl_now c 0) ident execution lease db) (\<lambda>b.
     andThen (some_or ErrNoRows (List.find (\<lambda>u. up_id u = nb_upload b \<and> up_project u = nb_project b) (uploads db))) (\<lambda>u.
     Inr (b, up_archive u)))"

definition check_bundle :: "build_lib \<Rightarrow> node_build \<Rightarrow> string \<Rightarrow> npm_bundle \<Rightarrow> unit result" where
  "check_bundle bl b source bundle =
     andThen (bl_tarballs bl source (pl_SourceSHA256 (nb_plan b))) (\<lambda>expected.
     andThen (bl_verify bl bundle (pl_SourceSHA256 (nb_plan b))) (\<lambda>found.
     guard ErrBuildConflict (same_tarballs expected found)))"

definition bind_bundle_tx ::
  "portal_lib \<Rightarrow> call \<Rightarrow> string \<Rightarrow> string \<Rightarrow> string \<Rightarrow> npm_bundle \<Rightarrow> 'x publish_db_scheme \<Rightarrow> (unit \<times> 'x publish_db_scheme) result" where
  "bind_bundle_tx lib c ident execution lease bundle db =
     andThen (leasedNodeBuild lib (cl_now c 0) ident execution lease db) (\<lambda>b.
     case nb_bundle b of
       Some old \<Rightarrow> andThen (guard ErrBuildConflict (old = bundle)) (\<lambda>_. Inr ((), db))
     | None \<Rightarrow> Inr ((), set_build ident (\<lambda>q. q\<lparr>nb_bundle := Some bundle\<rparr>) db))"

definition nodeBuildDependencies ::
  "portal_lib \<Rightarrow> call \<Rightarrow> string \<Rightarrow> string \<Rightarrow> string \<Rightarrow> 'x publish_db_scheme \<Rightarrow> npm_bundle option result" where
  "nodeBuildDependencies lib c ident execution lease db =
     (case cl_drv c of
        Some e \<Rightarrow> Inl e
      | None \<Rightarrow> andThen (leasedNodeBuild lib (cl_now c 0) ident execution lease db) (\<lambda>b. Inr (nb_bundle b)))"

section \<open>Dispatch\<close>

definition dispatch_build_tx ::
  "portal_lib \<Rightarrow> store_config \<Rightarrow> call \<Rightarrow> string \<Rightarrow> string \<Rightarrow> string \<Rightarrow> npm_bundle \<Rightarrow> 'x publish_db_scheme
    \<Rightarrow> ((execution_request \<times> string) \<times> 'x publish_db_scheme) result" where
  "dispatch_build_tx lib cfg c ident execution lease bundle db =
     andThen (leasedNodeBuild lib (cl_now c 0) ident execution lease db) (\<lambda>b.
     andThen (requireProjectHostingAccess cfg (cl_now c 1) (nb_project b) db) (\<lambda>_.
     andThen (guard ErrBuildConflict (nb_intent b = None)) (\<lambda>_.
     let request = \<lparr>xr_ExecutionID = execution, xr_BuildID = ident, xr_ProjectID = nb_project b, xr_Plan = nb_plan b,
                    xr_ToolchainSHA256 = nb_toolchain b, xr_Bundle = bundle, xr_NotAfter = cl_now c 2 + 60\<rparr>
     in andThen (some_or ErrNoRows (List.find (\<lambda>u. up_id u = nb_upload b \<and> up_project u = nb_project b) (uploads db))) (\<lambda>u.
        Inr ((request, up_archive u),
             set_build ident (\<lambda>q. q\<lparr>nb_intent := Some request, nb_until := xr_NotAfter request\<rparr>) db)))))"

section \<open>Recovery\<close>

text \<open>\<open>failUnsubmittedNodeBuild\<close>: the value says whether a row was updated.\<close>

definition unsubmitted :: "string \<Rightarrow> string \<Rightarrow> string \<Rightarrow> int \<Rightarrow> node_build \<Rightarrow> bool" where
  "unsubmitted project ident execution now b \<longleftrightarrow>
     nb_id b = ident \<and> nb_project b = project \<and> nb_execution b = execution \<and> nb_state b = BuildRunning \<and> nb_until b \<le> now
     \<and> nb_intent b = None"

definition build_workspace :: "node_build \<Rightarrow> 'x publish_db_scheme \<Rightarrow> string result" where
  "build_workspace b db = andThen (some_or ErrNoRows (get_row p_id (nb_project b) (projects db))) (\<lambda>p. Inr (p_workspace p))"

definition fail_unsubmitted_tx ::
  "call \<Rightarrow> string \<Rightarrow> string \<Rightarrow> string \<Rightarrow> 'x publish_db_scheme \<Rightarrow> (bool \<times> 'x publish_db_scheme) result" where
  "fail_unsubmitted_tx c project ident execution db =
     (case List.find (unsubmitted project ident execution (cl_now c 0)) (node_builds db) of
        None \<Rightarrow> Inr (False, db)
      | Some b \<Rightarrow>
          andThen (build_workspace b db) (\<lambda>workspace.
          andThen (audit (cl_token c 0) (nb_actor b) workspace (''node_build.preparation_failed:'' @ ident) (cl_now c 1)
                     (set_build ident (\<lambda>q. q\<lparr>nb_state := BuildFailed, nb_lease := [], nb_until := 0,
                                           nb_result := Some PreparationExpired\<rparr>) db)) (\<lambda>db1.
          Inr (True, db1))))"

definition outcome_state :: "string \<Rightarrow> build_state option" where
  "outcome_state outcome =
     (if outcome = ''failed'' then Some BuildFailed else if outcome = ''cancelled'' then Some BuildCancelled else None)"

text \<open>The second transaction of \<open>ReconcileNodeBuildFailure\<close>, after the executor was observed.\<close>

definition reconcile_failure_tx ::
  "call \<Rightarrow> string \<Rightarrow> string \<Rightarrow> string \<Rightarrow> execution_observation \<Rightarrow> 'x publish_db_scheme \<Rightarrow> (bool \<times> 'x publish_db_scheme) result" where
  "reconcile_failure_tx c project ident execution ob db =
     andThen (some_or ErrBuildConflict (outcome_state (eo_Outcome ob))) (\<lambda>final.
     andThen (some_or ErrNoRows (List.find (\<lambda>b. nb_id b = ident \<and> nb_project b = project) (node_builds db))) (\<lambda>b.
     andThen (guard ErrBuildConflict
        (\<not> (nb_state b \<noteq> BuildRunning \<or> nb_execution b \<noteq> execution \<or> nb_until b > cl_now c 0))) (\<lambda>_.
     andThen (build_workspace b db) (\<lambda>workspace.
     andThen (audit (cl_token c 0) (nb_actor b) workspace (''node_build.reconciled_'' @ eo_Outcome ob @ '':'' @ ident) (cl_now c 1)
                (set_build ident (\<lambda>q. q\<lparr>nb_state := final, nb_result := Some (ExecutionEvidence ob), nb_lease := [],
                                      nb_until := 0\<rparr>) db)) (\<lambda>db1.
     Inr (True, db1))))))"

section \<open>Retaining a release\<close>

definition savedNodeRelease :: "string \<Rightarrow> string \<Rightarrow> 'x node_db_scheme \<Rightarrow> node_release option" where
  "savedNodeRelease ident project db =
     (if list_ex (\<lambda>b. nb_id b = ident \<and> nb_project b = project) (node_builds db)
      then map_option rr_metadata (get_row rr_build ident (node_releases db)) else None)"

definition project_releases :: "string \<Rightarrow> 'x node_db_scheme \<Rightarrow> release_row list" where
  "project_releases project db =
     filter (\<lambda>r. list_ex (\<lambda>b. nb_id b = rr_build r \<and> nb_project b = project) (node_builds db)) (node_releases db)"

definition workspace_releases :: "string \<Rightarrow> 'x node_db_scheme \<Rightarrow> release_row list" where
  "workspace_releases workspace db =
     filter (\<lambda>r. list_ex (\<lambda>b. nb_id b = rr_build r
                  \<and> list_ex (\<lambda>p. p_id p = nb_project b \<and> p_workspace p = workspace) (projects db)) (node_builds db)) (node_releases db)"

definition release_bytes :: "release_row list \<Rightarrow> int" where
  "release_bytes rs = sum_list (map (\<lambda>r. int (length (rr_archive r))) rs)"

text \<open>
  \<open>RetainNodeRelease\<close>: the first transaction gives the saved release, the outcome of a
  cancelled build, or the job and its intent to be checked against the executor.
\<close>

datatype retain_check = RetainDone "node_release option" | RetainRead node_build execution_request

definition retain_check_tx :: "string \<Rightarrow> string \<Rightarrow> 'x node_db_scheme \<Rightarrow> retain_check result" where
  "retain_check_tx project ident db =
     (case savedNodeRelease ident project db of
        Some r \<Rightarrow> Inr (RetainDone (Some r))
      | None \<Rightarrow>
          andThen (some_or ErrDenied (List.find (\<lambda>b. nb_id b = ident \<and> nb_project b = project) (node_builds db))) (\<lambda>b.
          if nb_state b = BuildCancelled \<and> nb_result b \<noteq> None then Inr (RetainDone None)
          else
            case nb_intent b of
              None \<Rightarrow> Inl ErrBuildConflict
            | Some request \<Rightarrow>
                andThen (guard ErrBuildConflict (\<not> (nb_state b \<noteq> BuildRunning \<or> nb_execution b = []))) (\<lambda>_.
                andThen (guard ErrBuildConflict
                   (\<not> (xr_ExecutionID request \<noteq> nb_execution b \<or> xr_BuildID request \<noteq> ident \<or> xr_ProjectID request \<noteq> project
                       \<or> bd_ManifestSHA256 (xr_Bundle request) = []
                       \<or> pl_SourceSHA256 (xr_Plan request) \<noteq> pl_SourceSHA256 (nb_plan b)
                       \<or> pl_Architecture (xr_Plan request) \<noteq> pl_Architecture (nb_plan b)
                       \<or> xr_ToolchainSHA256 request \<noteq> nb_toolchain b))) (\<lambda>_.
                Inr (RetainRead b request)))))"

definition artifact_matches ::
  "node_build \<Rightarrow> execution_request \<Rightarrow> int \<Rightarrow> int \<Rightarrow> artifact_observation \<Rightarrow> bool" where
  "artifact_matches b request started now ob \<longleftrightarrow>
     \<not> (eo_ExecutionID ob \<noteq> nb_execution b \<or> eo_SourceSHA256 ob \<noteq> pl_SourceSHA256 (nb_plan b)
        \<or> eo_ToolchainSHA256 ob \<noteq> nb_toolchain b \<or> eo_Architecture ob \<noteq> pl_Architecture (nb_plan b)
        \<or> eo_DependencyManifestSHA256 ob \<noteq> bd_ManifestSHA256 (xr_Bundle request) \<or> eo_Outcome ob \<noteq> ''succeeded''
        \<or> \<not> eo_Retired ob \<or> eo_ObservedAt ob < started \<or> eo_ObservedAt ob > now)"

definition new_release :: "int \<Rightarrow> string \<Rightarrow> string \<Rightarrow> node_build \<Rightarrow> string \<Rightarrow> manifest \<Rightarrow> node_release" where
  "new_release now project ident job archive m =
     \<lparr>rl_BuildID = ident, rl_ProjectID = project, rl_ExecutionID = nb_execution job,
      rl_SourceSHA256 = pl_SourceSHA256 (nb_plan job), rl_ToolchainSHA256 = nb_toolchain job,
      rl_Architecture = pl_Architecture (nb_plan job), rl_ArtifactSHA256 = mf_SHA256 m,
      rl_Files = mf_Files m, rl_ExpandedBytes = mf_ExpandedBytes m,
      rl_CompressedBytes = int (length archive), rl_CreatedAt = now\<rparr>"

definition retain_tx ::
  "call \<Rightarrow> string \<Rightarrow> string \<Rightarrow> node_build \<Rightarrow> artifact_observation \<Rightarrow> string \<Rightarrow> manifest \<Rightarrow> 'x node_db_scheme
    \<Rightarrow> (node_release option \<times> 'x node_db_scheme) result" where
  "retain_tx c project ident job ob archive m db =
     (case savedNodeRelease ident project db of
        Some r \<Rightarrow> Inr (Some r, db)
      | None \<Rightarrow>
          andThen (some_or ErrNoRows (List.find (\<lambda>b. nb_id b = ident \<and> nb_project b = project) (node_builds db))) (\<lambda>b.
          andThen (guard ErrBuildConflict (\<not> (nb_state b \<noteq> BuildRunning \<or> nb_execution b \<noteq> nb_execution job))) (\<lambda>_.
          andThen (nodeBuildActor ident db) (\<lambda>allowed.
          andThen (build_workspace b db) (\<lambda>workspace.
          if \<not> allowed then
            andThen (audit (cl_token c 0) (nb_actor b) workspace (''node_build.artifact_cancelled:'' @ ident) (cl_now c 0)
                       (set_build ident (\<lambda>q. q\<lparr>nb_state := BuildCancelled, nb_result := Some (ArtifactEvidence ob),
                                             nb_lease := [], nb_until := 0\<rparr>) db)) (\<lambda>db1. Inr (None, db1))
          else
            andThen (guard ErrBuildQuota
               (\<not> (length (project_releases project db) \<ge> 10
                   \<or> release_bytes (workspace_releases workspace db) + int (length archive) > 524288000))) (\<lambda>_.
            let release = new_release (cl_now c 0) project ident job archive m
            in andThen (insert_row rr_build \<lparr>rr_build = ident, rr_metadata = release, rr_archive = archive\<rparr> (node_releases db)) (\<lambda>rs.
               andThen (audit (cl_token c 0) (nb_actor b) workspace (''node_build.artifact_succeeded:'' @ ident) (cl_now c 1)
                          ((set_build ident (\<lambda>q. q\<lparr>nb_state := BuildSucceeded, nb_result := Some (ArtifactEvidence ob),
                                                 nb_lease := [], nb_until := 0\<rparr>) db)\<lparr>node_releases := rs\<rparr>)) (\<lambda>db1.
               Inr (Some release, db1)))))))))"

section \<open>Releases\<close>

definition nodeReleases ::
  "portal_lib \<Rightarrow> call \<Rightarrow> string \<Rightarrow> string \<Rightarrow> 'x node_db_scheme \<Rightarrow> node_release list result" where
  "nodeReleases lib c token project db =
     (case cl_drv c of
        Some e \<Rightarrow> Inl e
      | None \<Rightarrow>
          andThen (uploadProject lib (cl_now c 0) token project True db) (\<lambda>_.
          Inr (concat (map (\<lambda>b. map rr_metadata (filter (\<lambda>r. rr_build r = nb_id b) (node_releases db)))
                 (sort_key (\<lambda>b. - nb_created b) (sort_key nb_id (project_builds project db)))))))"

definition nodeReleaseArchive ::
  "portal_lib \<Rightarrow> build_lib \<Rightarrow> call \<Rightarrow> string \<Rightarrow> string \<Rightarrow> string \<Rightarrow> 'x node_db_scheme \<Rightarrow> string result" where
  "nodeReleaseArchive lib bl c token project ident db =
     (case cl_drv c of
        Some e \<Rightarrow> Inl e
      | None \<Rightarrow>
          andThen (uploadProject lib (cl_now c 0) token project True db) (\<lambda>_.
          andThen (some_or ErrDenied (savedNodeRelease ident project db)) (\<lambda>saved.
          andThen (some_or ErrNoRows (get_row rr_build ident (node_releases db))) (\<lambda>row.
          andThen (bl_artifact bl (rr_archive row) (rl_ArtifactSHA256 saved)) (\<lambda>_. Inr (rr_archive row))))))"

definition delete_release_tx ::
  "portal_lib \<Rightarrow> call \<Rightarrow> string \<Rightarrow> string \<Rightarrow> string \<Rightarrow> 'x node_db_scheme \<Rightarrow> (unit \<times> 'x node_db_scheme) result" where
  "delete_release_tx lib c token project ident db =
     andThen (uploadProject lib (cl_now c 0) token project True db) (\<lambda>(p, actor).
     case savedNodeRelease ident project db of
       None \<Rightarrow> Inr ((), db)
     | Some _ \<Rightarrow>
         andThen (guard ErrRetained
            (\<not> (length (filter (\<lambda>r. snd r = ident) (deployment_refs db))
                + length (filter (\<lambda>a. ac_release a = ident) (active_deployments db)) > 0))) (\<lambda>_.
         andThen (audit (cl_token c 0) actor (p_workspace p) (''node_release.deleted:'' @ ident) (cl_now c 1)
                    (db\<lparr>node_releases := filter (\<lambda>r. rr_build r \<noteq> ident) (node_releases db)\<rparr>)) (\<lambda>db1.
         Inr ((), db1))))"

end
