(* ===== verification/Portal_Deployments.thy ===== *)
theory Portal_Deployments
  imports Portal_Builds
begin

text \<open>
  The node deployments of the portal: \<open>portal/node_deployments.go\<close>, \<open>deployment_progress.go\<close>,
  \<open>node_deployment_dispatch.go\<close>, \<open>node_deployment_recovery.go\<close> and \<open>node_runtime_prior.go\<close>. A
  deployment selects a retained release, is claimed and dispatched once to the runtime, and is
  settled by an observation of the runtime's route.
\<close>

section \<open>Requesting and cancelling\<close>

definition dep_pending :: "node_deployment \<Rightarrow> bool" where
  "dep_pending j \<longleftrightarrow> nd_state j = DepQueued \<or> nd_state j = DepRunning"

definition max_dep_revision :: "string \<Rightarrow> node_deployment list \<Rightarrow> int" where
  "max_dep_revision project js = fold (\<lambda>j m. if nd_project j = project then max (nd_revision j) m else m) js 0"

definition insert_deployment :: "node_deployment \<Rightarrow> node_deployment list \<Rightarrow> node_deployment list result" where
  "insert_deployment j js =
     andThen (insert_row nd_id j js) (\<lambda>_.
     andThen (insert_row (\<lambda>j. (nd_project j, nd_key j)) j js) (\<lambda>_.
     andThen (insert_row (\<lambda>j. (nd_project j, nd_revision j)) j js) (\<lambda>_.
     andThen (guard ErrDriver (\<not> (dep_pending j \<and> list_ex (\<lambda>q. nd_project q = nd_project j \<and> dep_pending q) js))) (\<lambda>_.
     Inr (js @ [j])))))"

definition project_deployments :: "string \<Rightarrow> 'x node_db_scheme \<Rightarrow> node_deployment list" where
  "project_deployments project db = filter (\<lambda>j. nd_project j = project) (node_deployments db)"

definition active_runtime :: "string \<Rightarrow> 'x node_db_scheme \<Rightarrow> string" where
  "active_runtime project db =
     (case get_row ac_project project (active_deployments db) of
        None \<Rightarrow> []
      | Some a \<Rightarrow> (case get_row nd_id (ac_deployment a) (node_deployments db) of None \<Rightarrow> [] | Some j \<Rightarrow> nd_runtime j))"

definition requestNodeDeploymentTx ::
  "store_config \<Rightarrow> call \<Rightarrow> project \<Rightarrow> string \<Rightarrow> string \<Rightarrow> string \<Rightarrow> string \<Rightarrow> 'x node_db_scheme
    \<Rightarrow> (node_deployment \<times> 'x node_db_scheme) result" where
  "requestNodeDeploymentTx cfg c p actor release key runtime db =
     andThen (guard Portal_ErrInvalid (build_request_ok runtime key)) (\<lambda>_.
     andThen (guard Portal_ErrInvalid (p_kind p = ''node'')) (\<lambda>_.
     case get_row (\<lambda>j. (nd_project j, nd_key j)) (p_id p, key) (node_deployments db) of
       Some existing \<Rightarrow>
         if nd_release existing \<noteq> release \<or> nd_runtime existing \<noteq> runtime then Inl Portal_ErrConflict else Inr (existing, db)
     | None \<Rightarrow>
         andThen (requireHostingKind cfg (cl_now c 1) (p_workspace p) (p_kind p) db) (\<lambda>_.
         andThen (guard Portal_ErrConflict (\<not> (active_runtime (p_id p) db \<noteq> [] \<and> active_runtime (p_id p) db \<noteq> runtime))) (\<lambda>_.
         andThen (some_or ErrDenied (savedNodeRelease release (p_id p) db)) (\<lambda>saved.
         andThen (guard ErrPublishing (\<not> list_ex dep_pending (project_deployments (p_id p) db))) (\<lambda>_.
         andThen (guard ErrBuildQuota (\<not> length (project_deployments (p_id p) db) \<ge> 1000)) (\<lambda>_.
         let j = \<lparr>nd_id = cl_token c 0, nd_project = p_id p, nd_release = release, nd_artifact = rl_ArtifactSHA256 saved,
                  nd_runtime = runtime, nd_actor = actor, nd_key = key,
                  nd_revision = max_dep_revision (p_id p) (node_deployments db) + 1, nd_state = DepQueued, nd_operation = [],
                  nd_lease = [], nd_until = 0, nd_created = cl_now c 2, nd_result = None, nd_intent = None\<rparr>
         in andThen (insert_deployment j (node_deployments db)) (\<lambda>js.
            andThen (insert_row fst (nd_id j, release) (deployment_refs db)) (\<lambda>refs.
            andThen (audit (cl_token c 1) actor (p_workspace p) (''node_deployment.requested:'' @ nd_id j) (nd_created j)
                       (db\<lparr>node_deployments := js, deployment_refs := refs\<rparr>)) (\<lambda>db1.
            Inr (j, db1)))))))))))"

definition request_deployment_tx ::
  "portal_lib \<Rightarrow> store_config \<Rightarrow> call \<Rightarrow> string \<Rightarrow> string \<Rightarrow> string \<Rightarrow> string \<Rightarrow> string \<Rightarrow> 'x node_db_scheme
    \<Rightarrow> (node_deployment \<times> 'x node_db_scheme) result" where
  "request_deployment_tx lib cfg c token project release key runtime db =
     andThen (guard Portal_ErrInvalid (build_request_ok runtime key)) (\<lambda>_.
     andThen (uploadProject lib (cl_now c 0) token project True db) (\<lambda>(p, actor).
       requestNodeDeploymentTx cfg c p actor release key runtime db))"

definition set_deployment :: "string \<Rightarrow> (node_deployment \<Rightarrow> node_deployment) \<Rightarrow> 'x node_db_scheme \<Rightarrow> 'x node_db_scheme" where
  "set_deployment ident f db = db\<lparr>node_deployments := upd_row nd_id ident f (node_deployments db)\<rparr>"

definition drop_ref :: "string \<Rightarrow> 'x node_db_scheme \<Rightarrow> 'x node_db_scheme" where
  "drop_ref ident db = db\<lparr>deployment_refs := filter (\<lambda>r. fst r \<noteq> ident) (deployment_refs db)\<rparr>"

definition cancel_deployment_tx ::
  "portal_lib \<Rightarrow> call \<Rightarrow> string \<Rightarrow> string \<Rightarrow> string \<Rightarrow> 'x node_db_scheme \<Rightarrow> (unit \<times> 'x node_db_scheme) result" where
  "cancel_deployment_tx lib c token project ident db =
     andThen (uploadProject lib (cl_now c 0) token project True db) (\<lambda>(p, actor).
     andThen (some_or ErrDenied (List.find (\<lambda>j. nd_id j = ident \<and> nd_project j = project) (node_deployments db))) (\<lambda>j.
     if nd_state j = DepCancelled then Inr ((), db)
     else
       andThen (guard ErrPublishing (nd_state j = DepQueued)) (\<lambda>_.
       andThen (audit (cl_token c 0) actor (p_workspace p) (''node_deployment.cancelled:'' @ ident) (cl_now c 1)
                  (drop_ref ident (set_deployment ident (\<lambda>q. q\<lparr>nd_state := DepCancelled\<rparr>) db))) (\<lambda>db1.
       Inr ((), db1)))))"

fun deploymentProgress :: "deployment_state \<Rightarrow> bool \<Rightarrow> string \<times> string" where
  "deploymentProgress DepQueued dispatched =
     (''queued'', ''Waiting for a deployment worker to pick up this release.'')"
| "deploymentProgress DepRunning dispatched =
     (if dispatched
      then (''verifying'', ''Deployment submitted. Waiting for the runtime to confirm the result and website health.'')
      else (''preparing'', ''A worker is preparing this deployment. Runtime submission is not recorded yet.''))"
| "deploymentProgress DepSucceeded dispatched = (''succeeded'', ''This release was published successfully.'')"
| "deploymentProgress DepFailed dispatched =
     (''failed'', ''This deployment did not complete successfully. Retry the saved release, or restore a previously published release from history. Contact support if it fails again.'')"
| "deploymentProgress DepCancelled dispatched = (''cancelled'', ''This deployment was cancelled before publication.'')"

definition nodeDeployments ::
  "portal_lib \<Rightarrow> call \<Rightarrow> string \<Rightarrow> string \<Rightarrow> 'x node_db_scheme \<Rightarrow> (node_deployment \<times> string \<times> string) list result" where
  "nodeDeployments lib c token project db =
     (case cl_drv c of
        Some e \<Rightarrow> Inl e
      | None \<Rightarrow>
          andThen (uploadProject lib (cl_now c 0) token project True db) (\<lambda>_.
          Inr (map (\<lambda>j. (j, deploymentProgress (nd_state j) (nd_intent j \<noteq> None)))
                (take 100 (rev (sort_key nd_revision (project_deployments project db)))))))"

section \<open>Claims and leases\<close>

record deployment_claim =
  dc_Job :: node_deployment
  dc_Release :: node_release
  dc_OperationID :: string
  dc_Lease :: string
  dc_LeaseUntil :: int
  dc_Archive :: string

definition deployment_actor_rows :: "string \<Rightarrow> 'x node_db_scheme \<Rightarrow> membership list" where
  "deployment_actor_rows ident db =
     concat (map (\<lambda>j. concat (map (\<lambda>p. concat (map (\<lambda>u.
        filter (\<lambda>m. mb_user m = u_id u \<and> mb_workspace m = p_workspace p
                    \<and> (mb_role m = ''owner'' \<or> mb_role m = ''developer'')) (memberships db))
        (filter (\<lambda>u. u_id u = nd_actor j \<and> active_user u) (users db))))
        (filter (\<lambda>p. p_id p = nd_project j \<and> p_kind p = ''node'') (projects db))))
       (filter (\<lambda>j. nd_id j = ident) (node_deployments db)))"

definition deployment_key :: "string \<Rightarrow> 'x node_db_scheme \<Rightarrow> (string \<times> bool) option" where
  "deployment_key ident db = map_option (\<lambda>j. (nd_key j, nd_state j = DepRunning)) (get_row nd_id ident (node_deployments db))"

definition nodeDeploymentActor :: "string \<Rightarrow> 'x node_db_scheme \<Rightarrow> bool result" where
  "nodeDeploymentActor ident db =
     (if length (deployment_actor_rows ident db) \<noteq> 1 then Inr False
      else githubPipelineJobAuthorized gp_deployment (deployment_key ident db) ident db)"

text \<open>The archive of the release that a deployment's reference keeps.\<close>

definition referenced_archive :: "string \<Rightarrow> 'x node_db_scheme \<Rightarrow> release_row option" where
  "referenced_archive ident db =
     (case get_row fst ident (deployment_refs db) of
        None \<Rightarrow> None
      | Some (_, release) \<Rightarrow> get_row rr_build release (node_releases db))"

definition claim_deployment_tx ::
  "portal_lib \<Rightarrow> build_lib \<Rightarrow> store_config \<Rightarrow> call \<Rightarrow> string \<Rightarrow> string \<Rightarrow> string \<Rightarrow> string \<Rightarrow> 'x node_db_scheme
    \<Rightarrow> (deployment_claim option \<times> 'x node_db_scheme) result" where
  "claim_deployment_tx lib bl cfg c project runtime toolchain architecture db =
     (case List.find (\<lambda>j. nd_project j = project \<and> nd_state j = DepQueued) (node_deployments db) of
        None \<Rightarrow> Inr (None, db)
      | Some j \<Rightarrow>
          andThen (guard Portal_ErrConflict (nd_runtime j = runtime)) (\<lambda>_.
          andThen (nodeDeploymentActor (nd_id j) db) (\<lambda>allowed.
          andThen (guard ErrDenied allowed) (\<lambda>_.
          andThen (some_or Portal_ErrConflict (savedNodeRelease (nd_release j) project db)) (\<lambda>release.
          andThen (guard Portal_ErrConflict
             (\<not> (rl_ArtifactSHA256 release \<noteq> nd_artifact j \<or> rl_ToolchainSHA256 release \<noteq> toolchain
                 \<or> rl_Architecture release \<noteq> architecture))) (\<lambda>_.
          andThen (requireProjectHostingAccess cfg (cl_now c 0) project db) (\<lambda>_.
          andThen (some_or ErrNoRows (referenced_archive (nd_id j) db)) (\<lambda>row.
          andThen (bl_artifact bl (rr_archive row) (nd_artifact j)) (\<lambda>_.
          let operation = cl_token c 0; lease = cl_token c 1; until = cl_now c 1 + 60 in
          andThen (guard ErrDriver (\<not> (operation \<noteq> [] \<and> list_ex (\<lambda>q. nd_operation q = operation) (node_deployments db)))) (\<lambda>_.
          Inr (Some \<lparr>dc_Job = j\<lparr>nd_state := DepRunning\<rparr>, dc_Release = release, dc_OperationID = operation, dc_Lease = lease,
                     dc_LeaseUntil = until, dc_Archive = rr_archive row\<rparr>,
               set_deployment (nd_id j) (\<lambda>q. q\<lparr>nd_state := DepRunning, nd_operation := operation,
                                              nd_lease := lib_digest lib lease, nd_until := until\<rparr>) db)))))))))))"

definition dep_lease_held :: "portal_lib \<Rightarrow> string \<Rightarrow> string \<Rightarrow> string \<Rightarrow> int \<Rightarrow> node_deployment \<Rightarrow> bool" where
  "dep_lease_held lib ident operation lease now j \<longleftrightarrow>
     nd_id j = ident \<and> nd_state j = DepRunning \<and> nd_operation j = operation \<and> nd_lease j = lib_digest lib lease \<and> nd_until j > now"

definition renew_deployment_tx ::
  "portal_lib \<Rightarrow> call \<Rightarrow> string \<Rightarrow> string \<Rightarrow> string \<Rightarrow> 'x node_db_scheme \<Rightarrow> (int \<times> 'x node_db_scheme) result" where
  "renew_deployment_tx lib c ident operation lease db =
     andThen (guard ErrBuildLease (\<not> (length lease \<noteq> 64 \<or> operation = []))) (\<lambda>_.
     andThen (guard ErrBuildLease
        (length (filter (dep_lease_held lib ident operation lease (cl_now c 0)) (node_deployments db)) = 1)) (\<lambda>_.
     andThen (nodeDeploymentActor ident db) (\<lambda>allowed.
     andThen (guard ErrDenied allowed) (\<lambda>_.
     let until = cl_now c 1 + 60 in Inr (until, set_deployment ident (\<lambda>q. q\<lparr>nd_until := until\<rparr>) db)))))"

section \<open>Dispatch\<close>

definition runtime_request_of :: "node_deployment \<Rightarrow> node_release \<Rightarrow> string \<Rightarrow> int \<Rightarrow> runtime_request" where
  "runtime_request_of j release operation before =
     \<lparr>rq_OperationID = operation, rq_DeploymentID = nd_id j, rq_ProjectID = nd_project j, rq_RuntimeID = nd_runtime j,
      rq_ReleaseID = nd_release j, rq_ArtifactSHA256 = nd_artifact j, rq_ToolchainSHA256 = rl_ToolchainSHA256 release,
      rq_Architecture = rl_Architecture release, rq_Revision = nd_revision j, rq_ActivateBefore = before\<rparr>"

definition dispatch_deployment_tx ::
  "portal_lib \<Rightarrow> build_lib \<Rightarrow> store_config \<Rightarrow> call \<Rightarrow> string \<Rightarrow> string \<Rightarrow> string \<Rightarrow> 'x node_db_scheme
    \<Rightarrow> ((runtime_request \<times> string) \<times> 'x node_db_scheme) result" where
  "dispatch_deployment_tx lib bl cfg c ident operation lease db =
     andThen (guard ErrBuildLease
        (length (filter (dep_lease_held lib ident operation lease (cl_now c 0)) (node_deployments db)) = 1)) (\<lambda>_.
     andThen (nodeDeploymentActor ident db) (\<lambda>allowed.
     andThen (guard ErrDenied allowed) (\<lambda>_.
     andThen (some_or ErrNoRows (get_row nd_id ident (node_deployments db))) (\<lambda>j.
     andThen (guard Portal_ErrConflict (nd_intent j = None)) (\<lambda>_.
     andThen (requireProjectHostingAccess cfg (cl_now c 1) (nd_project j) db) (\<lambda>_.
     andThen (some_or Portal_ErrConflict (savedNodeRelease (nd_release j) (nd_project j) db)) (\<lambda>release.
     andThen (guard Portal_ErrConflict (rl_ArtifactSHA256 release = nd_artifact j)) (\<lambda>_.
     let request = runtime_request_of j release operation (cl_now c 2 + 60) in
     andThen (some_or ErrNoRows (referenced_archive ident db)) (\<lambda>row.
     andThen (guard ErrNoRows (rr_build row = nd_release j)) (\<lambda>_.
     andThen (bl_artifact bl (rr_archive row) (nd_artifact j)) (\<lambda>_.
     Inr ((request, rr_archive row),
          set_deployment ident (\<lambda>q. q\<lparr>nd_intent := Some request, nd_until := rq_ActivateBefore request\<rparr>) db))))))))))))"

section \<open>Reconciliation\<close>

definition matchesDeployment :: "candidate \<Rightarrow> node_deployment \<Rightarrow> string \<Rightarrow> bool" where
  "matchesDeployment c j operation \<longleftrightarrow>
     c_ProjectID c = nd_project j \<and> c_RuntimeID c = nd_runtime j \<and> c_DeploymentID c = nd_id j \<and> c_OperationID c = operation
     \<and> c_Revision c = nd_revision j \<and> c_ArtifactSHA256 c = nd_artifact j \<and> c_Backend c \<noteq> []"

definition activeNodeDeploymentID :: "string \<Rightarrow> 'x node_db_scheme \<Rightarrow> string" where
  "activeNodeDeploymentID project db =
     (case get_row ac_project project (active_deployments db) of None \<Rightarrow> [] | Some a \<Rightarrow> ac_deployment a)"

text \<open>The first transaction: the job and its release, or \<open>None\<close> for a settled job.\<close>

definition reconcile_check_tx ::
  "string \<Rightarrow> string \<Rightarrow> 'x node_db_scheme \<Rightarrow> (node_deployment \<times> node_release) option result" where
  "reconcile_check_tx project ident db =
     andThen (some_or ErrDenied (List.find (\<lambda>j. nd_id j = ident \<and> nd_project j = project) (node_deployments db))) (\<lambda>j.
     if (nd_state j = DepSucceeded \<or> nd_state j = DepFailed) \<and> nd_result j \<noteq> None then Inr None
     else
       andThen (guard Portal_ErrConflict (\<not> (nd_state j \<noteq> DepRunning \<or> nd_operation j = []))) (\<lambda>_.
       andThen (some_or Portal_ErrConflict (savedNodeRelease (nd_release j) project db)) (\<lambda>release.
       Inr (Some (j, release)))))"

text \<open>Whether the observation settles the job, and if so whether it succeeded.\<close>

definition observation_verdict ::
  "node_deployment \<Rightarrow> node_release \<Rightarrow> int \<Rightarrow> int \<Rightarrow> runtime_observation \<Rightarrow> bool result" where
  "observation_verdict j release started now ob =
     (if \<not> ob_Settled ob \<or> \<not> matchesDeployment (Fence (ob_Routing ob)) j (nd_operation j)
         \<or> ob_ToolchainSHA256 ob \<noteq> rl_ToolchainSHA256 release \<or> ob_Architecture ob \<noteq> rl_Architecture release
         \<or> ob_ObservedAt ob < started \<or> ob_ObservedAt ob > now
      then Inl Portal_ErrConflict
      else if Status (ob_Routing ob) = ActiveRoute
      then (if \<not> ob_Healthy ob \<or> Active (ob_Routing ob) \<noteq> Some (Fence (ob_Routing ob)) then Inl Portal_ErrConflict else Inr True)
      else if Status (ob_Routing ob) \<noteq> FailedRoute \<or> \<not> ob_CandidateStopped ob then Inl Portal_ErrConflict
      else Inr False)"

definition set_active :: "active_row \<Rightarrow> active_row list \<Rightarrow> active_row list result" where
  "set_active a as =
     (if list_ex (\<lambda>q. ac_project q \<noteq> ac_project a \<and> ac_deployment q = ac_deployment a) as then Inl ErrDriver
      else if list_ex (\<lambda>q. ac_project q = ac_project a) as then Inr (upd_row ac_project (ac_project a) (\<lambda>_. a) as)
      else Inr (as @ [a]))"

text \<open>A failure must find the route that the active deployment recorded, or none if there is none.\<close>

definition route_preserved :: "string \<Rightarrow> runtime_observation \<Rightarrow> 'x node_db_scheme \<Rightarrow> unit result" where
  "route_preserved active ob db =
     (if active = [] then guard Portal_ErrConflict (Active (ob_Routing ob) = None)
      else andThen (some_or ErrNoRows (get_row nd_id active (node_deployments db))) (\<lambda>prior.
           andThen (some_or ErrDriver (nd_result prior)) (\<lambda>recorded.
           guard Portal_ErrConflict
             (Active (ob_Routing recorded) \<noteq> None \<and> Active (ob_Routing ob) = Active (ob_Routing recorded)))))"

definition reconcile_deployment_tx ::
  "call \<Rightarrow> string \<Rightarrow> string \<Rightarrow> node_deployment \<Rightarrow> bool \<Rightarrow> runtime_observation \<Rightarrow> 'x node_db_scheme
    \<Rightarrow> (bool \<times> 'x node_db_scheme) result" where
  "reconcile_deployment_tx c project ident job success ob db =
     andThen (some_or ErrNoRows (List.find (\<lambda>j. nd_id j = ident \<and> nd_project j = project) (node_deployments db))) (\<lambda>j.
     if nd_state j = DepSucceeded \<or> nd_state j = DepFailed then Inr (False, db)
     else
       andThen (guard Portal_ErrConflict (\<not> (nd_state j \<noteq> DepRunning \<or> nd_operation j \<noteq> nd_operation job))) (\<lambda>_.
       let active = activeNodeDeploymentID project db in
       andThen (if success then Inr () else route_preserved active ob db) (\<lambda>_.
       andThen (nodeDeploymentActor ident db) (\<lambda>allowed.
       andThen (if success
                then andThen (set_active \<lparr>ac_project = project, ac_deployment = ident, ac_release = nd_release job\<rparr>
                                (active_deployments db)) (\<lambda>as.
                     Inr (let db1 = db\<lparr>active_deployments := as\<rparr>
                          in if active \<noteq> [] \<and> active \<noteq> ident then drop_ref active db1 else db1))
                else Inr (drop_ref ident db)) (\<lambda>db1.
       let final = (if success then DepSucceeded else DepFailed);
           db2 = set_deployment ident (\<lambda>q. q\<lparr>nd_state := final, nd_result := Some ob, nd_lease := [], nd_until := 0\<rparr>) db1
       in andThen (some_or ErrNoRows (get_row p_id project (projects db))) (\<lambda>p.
          andThen (audit (cl_token c 0) (nd_actor j) (p_workspace p)
                     (''node_deployment.reconciled_'' @ (if success then ''succeeded'' else ''failed'') @ '':'' @ ident
                      @ (if allowed then [] else '';submitter_revoked'')) (cl_now c 0) db2) (\<lambda>db3.
          Inr (True, db3))))))))"

section \<open>What is active\<close>

definition activeNodeDeployment ::
  "portal_lib \<Rightarrow> call \<Rightarrow> string \<Rightarrow> string \<Rightarrow> 'x node_db_scheme \<Rightarrow> node_deployment option result" where
  "activeNodeDeployment lib c token project db =
     (case cl_drv c of
        Some e \<Rightarrow> Inl e
      | None \<Rightarrow>
          andThen (uploadProject lib (cl_now c 0) token project True db) (\<lambda>_.
          let active = activeNodeDeploymentID project db in
          if active = [] then Inr None
          else andThen (some_or ErrNoRows
                 (List.find (\<lambda>j. nd_id j = active \<and> nd_project j = project) (node_deployments db))) (\<lambda>j. Inr (Some j))))"

definition nodeRuntimePrior :: "driver \<Rightarrow> string \<Rightarrow> string \<Rightarrow> 'x node_db_scheme \<Rightarrow> runtime_observation option result" where
  "nodeRuntimePrior drv project runtime db =
     (case drv of
        Some e \<Rightarrow> Inl e
      | None \<Rightarrow>
          (case get_row ac_project project (active_deployments db) of
             None \<Rightarrow> Inr None
           | Some a \<Rightarrow>
               (case get_row nd_id (ac_deployment a) (node_deployments db) of
                  None \<Rightarrow> Inr None
                | Some j \<Rightarrow>
                    (case nd_result j of
                       None \<Rightarrow> Inl Portal_ErrConflict
                     | Some ob \<Rightarrow>
                         (case Active (ob_Routing ob) of
                            None \<Rightarrow> Inl Portal_ErrConflict
                          | Some rt \<Rightarrow>
                              if nd_runtime j \<noteq> runtime \<or> Fence (ob_Routing ob) \<noteq> rt \<or> Status (ob_Routing ob) \<noteq> ActiveRoute
                                 \<or> c_ProjectID rt \<noteq> project \<or> c_RuntimeID rt \<noteq> runtime \<or> c_DeploymentID rt \<noteq> nd_id j
                                 \<or> c_ArtifactSHA256 rt \<noteq> nd_artifact j \<or> c_OperationID rt = [] \<or> c_Revision rt \<le> 0
                                 \<or> \<not> ob_Settled ob \<or> \<not> ob_Healthy ob
                              then Inl Portal_ErrConflict else Inr (Some ob))))))"

end
