(* ===== verification/Node_Safety.thy ===== *)
theory Node_Safety
  imports Portal_Deployments
begin

text \<open>
  What builds, releases and deployments promise. As for publications, a committed transaction
  is abstracted to a step of the queue of builds and to a step of the queue of deployments;
  the invariants and latches are proved about the steps.
\<close>

section \<open>Steps of the build queue\<close>

interpretation bldq: job_queue nb_id nb_project nb_key build_pending .

interpretation depq: revision_queue nd_id nd_project nd_key dep_pending nd_revision .

definition has_source :: "'x publish_db_scheme \<Rightarrow> node_build \<Rightarrow> bool" where
  "has_source db b \<longleftrightarrow> (\<exists>u \<in> set (uploads db). up_id u = nb_upload b \<and> up_project u = nb_project b)"

text \<open>What every update of a build keeps.\<close>

definition build_keeps :: "(node_build \<Rightarrow> node_build) \<Rightarrow> bool" where
  "build_keeps f \<longleftrightarrow> (\<forall>b. nb_id (f b) = nb_id b \<and> nb_project (f b) = nb_project b \<and> nb_key (f b) = nb_key b
     \<and> nb_upload (f b) = nb_upload b \<and> nb_plan (f b) = nb_plan b \<and> nb_toolchain (f b) = nb_toolchain b)"

text \<open>The release that a build may have: of its own execution, source and toolchain.\<close>

definition release_of :: "node_build \<Rightarrow> release_row \<Rightarrow> bool" where
  "release_of b r \<longleftrightarrow> rr_build r = nb_id b \<and> rl_BuildID (rr_metadata r) = nb_id b \<and> rl_ProjectID (rr_metadata r) = nb_project b
     \<and> rl_ExecutionID (rr_metadata r) = nb_execution b"

inductive build_step :: "'x node_db_scheme \<Rightarrow> 'x node_db_scheme \<Rightarrow> bool" where
  BQuiet: "node_builds db' = node_builds db \<Longrightarrow> node_releases db' = node_releases db
    \<Longrightarrow> (\<And>b. b \<in> set (node_builds db) \<Longrightarrow> has_source db b \<Longrightarrow> has_source db' b) \<Longrightarrow> build_step db db'"
| BQueue: "node_builds db' = node_builds db @ [b] \<Longrightarrow> nb_state b = BuildQueued \<Longrightarrow> nb_execution b = [] \<Longrightarrow> nb_intent b = None
    \<Longrightarrow> nb_id b \<notin> nb_id ` set (node_builds db)
    \<Longrightarrow> (nb_project b, nb_key b) \<notin> (\<lambda>b. (nb_project b, nb_key b)) ` set (node_builds db)
    \<Longrightarrow> (\<And>q. q \<in> set (node_builds db) \<Longrightarrow> nb_project q = nb_project b \<Longrightarrow> \<not> build_pending q)
    \<Longrightarrow> length (project_builds (nb_project b) db) < 100 \<Longrightarrow> has_source db b
    \<Longrightarrow> uploads db' = uploads db \<Longrightarrow> node_releases db' = node_releases db \<Longrightarrow> build_step db db'"
| BMove: "b \<in> set (node_builds db) \<Longrightarrow> build_pending b \<Longrightarrow> build_keeps f \<Longrightarrow> nb_state (f b) \<noteq> BuildSucceeded
    \<Longrightarrow> nb_intent b = None \<or> nb_intent (f b) = nb_intent b
    \<Longrightarrow> node_builds db' = upd_row nb_id (nb_id b) f (node_builds db)
    \<Longrightarrow> uploads db' = uploads db \<Longrightarrow> node_releases db' = node_releases db \<Longrightarrow> build_step db db'"
| BRetain: "b \<in> set (node_builds db) \<Longrightarrow> nb_state b = BuildRunning \<Longrightarrow> build_keeps f
    \<Longrightarrow> nb_state (f b) = BuildSucceeded \<Longrightarrow> nb_execution (f b) = nb_execution b \<Longrightarrow> nb_intent (f b) = nb_intent b
    \<Longrightarrow> node_builds db' = upd_row nb_id (nb_id b) f (node_builds db)
    \<Longrightarrow> release_of b r \<Longrightarrow> rr_build r \<notin> rr_build ` set (node_releases db)
    \<Longrightarrow> length (project_releases (nb_project b) db) < 10
    \<Longrightarrow> node_releases db' = node_releases db @ [r] \<Longrightarrow> uploads db' = uploads db \<Longrightarrow> build_step db db'"
| BDrop: "node_builds db' = node_builds db \<Longrightarrow> uploads db' = uploads db
    \<Longrightarrow> node_releases db' = filter (\<lambda>r. rr_build r \<noteq> k) (node_releases db) \<Longrightarrow> build_step db db'"

definition build_inv :: "'x node_db_scheme \<Rightarrow> bool" where
  "build_inv db \<longleftrightarrow>
     bldq.table_ok (node_builds db) \<and> list_all (has_source db) (node_builds db)
     \<and> (\<forall>project. length (project_builds project db) \<le> 100)
     \<and> distinct (map rr_build (node_releases db))
     \<and> (\<forall>r \<in> set (node_releases db). \<exists>b \<in> set (node_builds db). release_of b r \<and> nb_state b = BuildSucceeded)
     \<and> (\<forall>project. length (project_releases project db) \<le> 10)"

lemma bldq_keeps: "build_keeps f \<Longrightarrow> bldq.keeps f"
  by (simp add: build_keeps_def bldq.keeps_def)

lemma has_source_cong: "uploads db' = uploads db \<Longrightarrow> has_source db' = has_source db"
  by (rule ext) (simp add: has_source_def)

lemma has_source_keeps: "build_keeps f \<Longrightarrow> has_source db (f b) = has_source db b"
  by (simp add: has_source_def build_keeps_def)

lemma build_ids_update:
  assumes "build_keeps f"
  shows "map (\<lambda>b. (nb_id b, nb_project b)) (upd_row nb_id k f bs) = map (\<lambda>b. (nb_id b, nb_project b)) bs"
  using assms by (simp add: map_upd_row build_keeps_def)

text \<open>Counting builds and releases of a project depends only on identities and projects.\<close>

lemma project_builds_count:
  "length (project_builds project db) = length (filter (\<lambda>p. p = project) (map nb_project (node_builds db)))"
  by (simp add: project_builds_def filter_map comp_def)

lemma project_releases_ids:
  "project_releases project db =
     filter (\<lambda>r. (rr_build r, project) \<in> set (map (\<lambda>b. (nb_id b, nb_project b)) (node_builds db))) (node_releases db)"
  unfolding project_releases_def by (rule filter_cong) (auto simp: list_ex_iff image_iff, metis)

lemma build_projects_update:
  assumes "build_keeps f"
  shows "map nb_project (upd_row nb_id k f bs) = map nb_project bs"
  using assms by (simp add: map_upd_row build_keeps_def)

lemma release_kept:
  assumes "bldq.table_ok bs" and "b \<in> set bs" and "build_pending b"
    and "\<exists>q \<in> set bs. release_of q r \<and> nb_state q = BuildSucceeded"
  shows "\<exists>q \<in> set (upd_row nb_id (nb_id b) f bs). release_of q r \<and> nb_state q = BuildSucceeded"
proof -
  from assms(4) obtain q where q: "q \<in> set bs" "release_of q r" "nb_state q = BuildSucceeded" by blast
  then have "q \<in> set (upd_row nb_id (nb_id b) f bs)"
    by (intro bldq.settled_row [OF assms(1-3)]) (simp_all add: build_pending_def)
  with q show ?thesis by blast
qed

lemma build_inv_table: "build_inv db \<Longrightarrow> bldq.table_ok (node_builds db)"
  by (simp add: build_inv_def)

text \<open>An update of one pending build, with releases that grow by at most one of its project.\<close>

lemma build_update_inv:
  assumes inv: "build_inv db" and b: "b \<in> set (node_builds db)" "build_pending b" and f: "build_keeps f"
    and bs: "node_builds db' = upd_row nb_id (nb_id b) f (node_builds db)" and us: "uploads db' = uploads db"
    and rs: "node_releases db' = node_releases db @ new"
    and new: "new = [] \<or> (\<exists>r. new = [r] \<and> release_of (f b) r \<and> nb_state (f b) = BuildSucceeded
        \<and> rr_build r \<notin> rr_build ` set (node_releases db) \<and> length (project_releases (nb_project b) db) < 10)"
  shows "build_inv db'"
proof -
  note table = build_inv_table [OF inv]
  have "bldq.table_ok (node_builds db')" unfolding bs by (rule bldq.table_update [OF table bldq_keeps [OF f] b])
  moreover have "list_all (has_source db') (node_builds db')"
    using inv has_source_cong [OF us] has_source_keeps [OF f, of db]
    by (auto simp: build_inv_def list_all_iff bs set_upd_row)
  moreover have "length (project_builds project db') \<le> 100" for project
    using inv unfolding project_builds_count bs build_projects_update [OF f] by (simp add: build_inv_def project_builds_count)
  moreover have "distinct (map rr_build (node_releases db'))"
  proof -
    have "distinct (map rr_build (node_releases db))" using inv by (simp add: build_inv_def)
    moreover have "new = [] \<or> (\<exists>r. new = [r] \<and> rr_build r \<notin> rr_build ` set (node_releases db))" using new by blast
    ultimately show ?thesis by (elim disjE exE conjE) (simp_all add: rs)
  qed
  moreover have "\<exists>q \<in> set (node_builds db'). release_of q r \<and> nb_state q = BuildSucceeded"
    if "r \<in> set (node_releases db')" for r
  proof (cases "r \<in> set (node_releases db)")
    case True
    with inv show ?thesis unfolding bs by (intro release_kept [OF table b]) (simp add: build_inv_def)
  next
    case False
    with that new rs have "release_of (f b) r \<and> nb_state (f b) = BuildSucceeded" by auto
    with bldq.updated_row [OF b(1), of f] show ?thesis unfolding bs by blast
  qed
  moreover have "length (project_releases project db') \<le> 10" for project
  proof -
    have old: "length (project_releases project db) \<le> 10" using inv by (simp add: build_inv_def)
    have "project_releases project db' = project_releases project db
        @ filter (\<lambda>r. (rr_build r, project) \<in> set (map (\<lambda>b. (nb_id b, nb_project b)) (node_builds db))) new"
      unfolding project_releases_ids bs build_ids_update [OF f] rs by simp
    moreover have "length (filter (\<lambda>r. (rr_build r, project) \<in> set (map (\<lambda>b. (nb_id b, nb_project b)) (node_builds db))) new)
        + length (project_releases project db) \<le> 10"
      using new
    proof (elim disjE exE conjE)
      fix r assume r: "new = [r]" "release_of (f b) r" "length (project_releases (nb_project b) db) < 10"
      show ?thesis
      proof (cases "(rr_build r, project) \<in> set (map (\<lambda>b. (nb_id b, nb_project b)) (node_builds db))")
        case True
        then obtain q where q: "q \<in> set (node_builds db)" "nb_id q = rr_build r" "nb_project q = project" by auto
        have "rr_build r = nb_id b" using r(2) f by (simp add: release_of_def build_keeps_def)
        with q(2) have "q = b" by (intro bldq.table_unique [OF table q(1) b(1)]) simp
        with q(3) r(1,3) True show ?thesis by simp
      qed (use r(1) old in simp)
    qed (use old in simp)
    ultimately show ?thesis by simp
  qed
  ultimately show ?thesis by (simp add: build_inv_def)
qed

lemma build_step_inv:
  assumes "build_step db db'" and "build_inv db"
  shows "build_inv db'"
  using assms
proof cases
  case BQuiet
  then have "project_builds p db' = project_builds p db" "project_releases p db' = project_releases p db" for p
    by (simp_all add: project_builds_def project_releases_def)
  with BQuiet assms(2) show ?thesis by (simp add: build_inv_def list_all_iff)
next
  case (BQueue b)
  have "bldq.table_ok (node_builds db')"
    unfolding BQueue(1) using build_inv_table [OF assms(2)] BQueue(5,6,7) by (rule bldq.table_snoc)
  moreover have "list_all (has_source db') (node_builds db')"
    using assms(2) BQueue(1,9) has_source_cong [OF BQueue(10)] by (simp add: build_inv_def)
  moreover have "length (project_builds p db') \<le> 100" for p
    using assms(2) BQueue(1,8) by (auto simp: build_inv_def project_builds_def)
  moreover have "project_releases p db' = project_releases p db" for p
  proof -
    have "nb_id b \<noteq> rr_build r" if "r \<in> set (node_releases db)" for r
      using assms(2) BQueue(5) that by (auto simp: build_inv_def release_of_def)
    then show ?thesis unfolding project_releases_def BQueue(1,11) by (auto intro!: filter_cong)
  qed
  ultimately show ?thesis using assms(2) BQueue(1,11) by (auto simp: build_inv_def)
next
  case (BMove b f)
  then show ?thesis by (intro build_update_inv [OF assms(2), where b = b and f = f and new = "[]"]) auto
next
  case (BRetain b f r)
  have "release_of (f b) r" using BRetain(3,5,8) by (simp add: release_of_def build_keeps_def)
  with BRetain show ?thesis
    by (intro build_update_inv [OF assms(2), where b = b and f = f and new = "[r]"]) (auto simp: build_pending_def)
next
  case (BDrop k)
  have "project_releases p db' = filter (\<lambda>r. rr_build r \<noteq> k) (project_releases p db)" for p
    unfolding project_releases_def BDrop(1,3) by (simp add: conj_commute)
  moreover have "project_builds p db' = project_builds p db" for p by (simp add: project_builds_def BDrop(1))
  moreover have "length (filter (\<lambda>r. rr_build r \<noteq> k) (project_releases p db)) \<le> 10" for p
    by (rule order_trans [OF length_filter_le]) (use assms(2) in \<open>simp add: build_inv_def\<close>)
  ultimately show ?thesis
    using assms(2) BDrop(1,3) has_source_cong [OF BDrop(2)]
    by (simp add: build_inv_def distinct_map_filter)
qed

text \<open>Intents are written once and stay.\<close>

definition build_dispatched :: "string \<Rightarrow> 'x publish_db_scheme \<Rightarrow> bool" where
  "build_dispatched k db \<longleftrightarrow> (\<exists>b \<in> set (node_builds db). nb_id b = k \<and> nb_intent b \<noteq> None)"

lemma dispatched_update:
  assumes "build_dispatched k db" and "bldq.table_ok (node_builds db)" and "build_keeps f"
    and "b \<in> set (node_builds db)" and "nb_intent b = None \<or> nb_intent (f b) = nb_intent b"
    and "node_builds db' = upd_row nb_id (nb_id b) f (node_builds db)"
  shows "build_dispatched k db'"
proof -
  from assms(1) obtain q where q: "q \<in> set (node_builds db)" "nb_id q = k" "nb_intent q \<noteq> None"
    by (auto simp: build_dispatched_def)
  let ?q = "if nb_id q = nb_id b then f q else q"
  have "?q \<in> set (node_builds db')" using q(1) unfolding assms(6) set_upd_row by (rule imageI)
  moreover have "nb_id ?q = k" using q assms(3) by (simp add: build_keeps_def)
  moreover have "nb_intent ?q \<noteq> None"
    using q assms(5) bldq.table_unique [OF assms(2) q(1) assms(4)] by auto
  ultimately show ?thesis unfolding build_dispatched_def by blast
qed

lemma build_step_dispatched:
  assumes "build_step db db'" and "build_inv db" and "build_dispatched k db"
  shows "build_dispatched k db'"
  using assms(1)
proof cases
  case (BMove b f)
  with dispatched_update [OF assms(3) build_inv_table [OF assms(2)]] show ?thesis by blast
next
  case (BRetain b f r)
  with dispatched_update [OF assms(3) build_inv_table [OF assms(2)]] show ?thesis by blast
qed (use assms(3) in \<open>auto simp: build_dispatched_def\<close>)

section \<open>Transactions as steps of the build queue\<close>

text \<open>The shape of most transactions on builds: one pending row is updated, and an event logged.\<close>

definition build_move :: "'x publish_db_scheme \<Rightarrow> 'x publish_db_scheme \<Rightarrow> bool" where
  "build_move db db' \<longleftrightarrow>
     (\<exists>b f rows. b \<in> set (node_builds db) \<and> build_pending b \<and> build_keeps f \<and> nb_state (f b) \<noteq> BuildSucceeded
        \<and> (nb_intent b = None \<or> nb_intent (f b) = nb_intent b) \<and> db' = (set_build (nb_id b) f db)\<lparr>audit_events := rows\<rparr>)"

lemma build_moveI:
  assumes "b \<in> set (node_builds db)" and "build_pending b" and "build_keeps f" and "nb_state (f b) \<noteq> BuildSucceeded"
    and "nb_intent b = None \<or> nb_intent (f b) = nb_intent b" and "db' = (set_build (nb_id b) f db)\<lparr>audit_events := rows\<rparr>"
  shows "build_move db db'"
  using assms unfolding build_move_def by blast

lemma audit_events_id: "db\<lparr>audit_events := audit_events db\<rparr> = (db :: 'x accounts_db_scheme)"
  by (cases db) simp

lemma build_moveI0:
  assumes "b \<in> set (node_builds db)" and "build_pending b" and "build_keeps f" and "nb_state (f b) \<noteq> BuildSucceeded"
    and "nb_intent b = None \<or> nb_intent (f b) = nb_intent b" and "db' = set_build (nb_id b) f db"
  shows "build_move db db'"
  by (rule build_moveI [OF assms(1-5), where rows = "audit_events db'"]) (simp add: audit_events_id flip: assms(6))

lemma cancel_build_move:
  assumes "cancel_build_tx lib c token project ident db = Inr (r, db')"
  shows "db' = db \<or> build_move db db'"
proof -
  obtain b where b: "List.find (\<lambda>b. nb_id b = ident \<and> nb_project b = project) (node_builds db) = Some b"
    using assms by (auto simp: cancel_build_tx_def split: prod.splits)
  have "db' = db \<or> nb_state b = BuildQueued
      \<and> (\<exists>rows. db' = (set_build ident (\<lambda>q. q\<lparr>nb_state := BuildCancelled\<rparr>) db)\<lparr>audit_events := rows\<rparr>)"
    using assms b by (auto simp: cancel_build_tx_def some_or_simps andThen_simps split: prod.splits if_splits dest!: auditD)
  with find_SomeD [OF b] show ?thesis
    by (auto intro: build_moveI [of b db "\<lambda>q. q\<lparr>nb_state := BuildCancelled\<rparr>"] simp: build_pending_def build_keeps_def)
qed

lemma claim_build_move:
  assumes "claim_build_tx lib bl cfg c project toolchain architecture db = Inr (r, db')"
  shows "db' = db \<or> build_move db db'"
proof (cases "List.find (\<lambda>b. nb_project b = project \<and> nb_state b = BuildQueued) (node_builds db)")
  case None
  with assms show ?thesis by (simp add: claim_build_tx_def)
next
  case (Some b)
  let ?f = "\<lambda>q. q\<lparr>nb_state := BuildRunning, nb_execution := cl_token c 0, nb_lease := lib_digest lib (cl_token c 1),
               nb_until := cl_now c 1 + 60\<rparr>"
  from assms Some have "db' = set_build (nb_id b) ?f db" by (auto simp: claim_build_tx_def Let_def)
  with find_SomeD [OF Some] show ?thesis
    by (intro disjI2 build_moveI0 [of b db ?f]) (auto simp: build_pending_def build_keeps_def)
qed

lemma leasedNodeBuildD:
  "leasedNodeBuild lib now ident execution lease db = Inr b \<Longrightarrow>
    b \<in> set (node_builds db) \<and> nb_id b = ident \<and> nb_state b = BuildRunning \<and> nb_execution b = execution
    \<and> nb_lease b = lib_digest lib lease \<and> now < nb_until b \<and> nodeBuildActor ident db = Inr True"
  by (auto simp: leasedNodeBuild_def build_lease_held_def dest!: find_SomeD)

lemma renew_build_move:
  assumes "renew_build_tx lib c ident execution lease db = Inr (r, db')"
  shows "build_move db db'"
proof -
  from assms have "length (filter (build_lease_held lib ident execution lease (cl_now c 0)) (node_builds db)) = 1"
    by (auto simp: renew_build_tx_def)
  then obtain b where "b \<in> set (filter (build_lease_held lib ident execution lease (cl_now c 0)) (node_builds db))"
    by (metis One_nat_def length_Suc_conv list.set_intros(1))
  moreover from assms have "db' = set_build ident (\<lambda>q. q\<lparr>nb_until := cl_now c 1 + 60\<rparr>) db"
    by (auto simp: renew_build_tx_def Let_def)
  ultimately show ?thesis
    by (intro build_moveI0 [of b db "\<lambda>q. q\<lparr>nb_until := cl_now c 1 + 60\<rparr>"])
      (auto simp: build_lease_held_def build_pending_def build_keeps_def)
qed

lemma bind_bundle_move:
  assumes "bind_bundle_tx lib c ident execution lease bundle db = Inr (r, db')"
  shows "db' = db \<or> build_move db db'"
proof -
  obtain b where b: "leasedNodeBuild lib (cl_now c 0) ident execution lease db = Inr b"
    using assms by (auto simp: bind_bundle_tx_def)
  from assms b have "db' = db \<or> db' = set_build ident (\<lambda>q. q\<lparr>nb_bundle := Some bundle\<rparr>) db"
    by (auto simp: bind_bundle_tx_def andThen_simps split: option.splits)
  with leasedNodeBuildD [OF b] show ?thesis
    by (auto intro!: build_moveI0 [of b db "\<lambda>q. q\<lparr>nb_bundle := Some bundle\<rparr>"] simp: build_pending_def build_keeps_def)
qed

lemma dispatch_build_txD:
  assumes "dispatch_build_tx lib cfg c ident execution lease bundle db = Inr ((request, archive), db')"
  shows "\<exists>b u. leasedNodeBuild lib (cl_now c 0) ident execution lease db = Inr b \<and> nb_intent b = None
    \<and> requireProjectHostingAccess cfg (cl_now c 1) (nb_project b) db = Inr ()
    \<and> request = \<lparr>xr_ExecutionID = execution, xr_BuildID = ident, xr_ProjectID = nb_project b, xr_Plan = nb_plan b,
                 xr_ToolchainSHA256 = nb_toolchain b, xr_Bundle = bundle, xr_NotAfter = cl_now c 2 + 60\<rparr>
    \<and> List.find (\<lambda>u. up_id u = nb_upload b \<and> up_project u = nb_project b) (uploads db) = Some u \<and> archive = up_archive u
    \<and> db' = set_build ident (\<lambda>q. q\<lparr>nb_intent := Some request, nb_until := cl_now c 2 + 60\<rparr>) db"
  using assms by (auto simp: dispatch_build_tx_def Let_def)

lemma dispatch_build_move:
  assumes "dispatch_build_tx lib cfg c ident execution lease bundle db = Inr (r, db')"
  shows "build_move db db'"
proof -
  obtain request archive where "r = (request, archive)" by (cases r)
  with dispatch_build_txD assms obtain b where b: "leasedNodeBuild lib (cl_now c 0) ident execution lease db = Inr b"
    "nb_intent b = None" "db' = set_build ident (\<lambda>q. q\<lparr>nb_intent := Some request, nb_until := cl_now c 2 + 60\<rparr>) db"
    by blast
  with leasedNodeBuildD [OF b(1)] show ?thesis
    by (intro build_moveI0 [of b db "\<lambda>q. q\<lparr>nb_intent := Some request, nb_until := cl_now c 2 + 60\<rparr>"])
      (auto simp: build_pending_def build_keeps_def)
qed

lemma fail_unsubmitted_move:
  assumes "fail_unsubmitted_tx c project ident execution db = Inr (r, db')"
  shows "db' = db \<or> build_move db db'"
proof (cases "List.find (unsubmitted project ident execution (cl_now c 0)) (node_builds db)")
  case None
  with assms show ?thesis by (simp add: fail_unsubmitted_tx_def)
next
  case (Some b)
  let ?f = "\<lambda>q. q\<lparr>nb_state := BuildFailed, nb_lease := [], nb_until := 0, nb_result := Some PreparationExpired\<rparr>"
  from assms Some obtain rows where "db' = (set_build ident ?f db)\<lparr>audit_events := rows\<rparr>"
    by (auto simp: fail_unsubmitted_tx_def dest!: auditD)
  with find_SomeD [OF Some] show ?thesis
    by (intro disjI2 build_moveI [of b db ?f]) (auto simp: unsubmitted_def build_pending_def build_keeps_def)
qed

lemma outcome_not_success: "outcome_state s = Some st \<Longrightarrow> st \<noteq> BuildSucceeded"
  by (auto simp: outcome_state_def split: if_splits)

lemma reconcile_failure_move:
  assumes "reconcile_failure_tx c project ident execution ob db = Inr (r, db')"
  shows "build_move db db'"
proof -
  obtain b st where b: "List.find (\<lambda>b. nb_id b = ident \<and> nb_project b = project) (node_builds db) = Some b"
    and st: "outcome_state (eo_Outcome ob) = Some st"
    using assms by (auto simp: reconcile_failure_tx_def)
  let ?f = "\<lambda>q. q\<lparr>nb_state := st, nb_result := Some (ExecutionEvidence ob), nb_lease := [], nb_until := 0\<rparr>"
  from assms b st obtain rows where "db' = (set_build ident ?f db)\<lparr>audit_events := rows\<rparr>" "nb_state b = BuildRunning"
    by (auto simp: reconcile_failure_tx_def some_or_simps andThen_simps dest!: auditD)
  with find_SomeD [OF b] outcome_not_success [OF st] show ?thesis
    by (intro build_moveI [of b db ?f]) (auto simp: build_pending_def build_keeps_def)
qed

lemma request_build_txD:
  assumes "request_build_tx lib bl cfg c token project upload key settings toolchain db = Inr (b, db')"
  shows "(b \<in> set (node_builds db) \<and> nb_project b = project \<and> nb_key b = key \<and> nb_upload b = upload \<and> db' = db)
    \<or> (nb_project b = project \<and> nb_key b = key \<and> nb_upload b = upload \<and> nb_state b = BuildQueued \<and> nb_execution b = []
       \<and> nb_intent b = None \<and> nb_id b \<notin> nb_id ` set (node_builds db)
       \<and> (project, key) \<notin> (\<lambda>b. (nb_project b, nb_key b)) ` set (node_builds db)
       \<and> (\<forall>q \<in> set (node_builds db). nb_project q = project \<longrightarrow> \<not> build_pending q)
       \<and> length (project_builds project db) < 100
       \<and> has_source db b
       \<and> (\<exists>rows. db' = db\<lparr>node_builds := node_builds db @ [b], audit_events := rows\<rparr>))"
proof -
  obtain p actor where p: "uploadProject lib (cl_now c 0) token project True db = Inr (p, actor)" "p_id p = project"
    and r: "requestNodeBuildTx bl cfg c p actor upload key settings toolchain db = Inr (b, db')"
    using assms by (auto simp: request_build_tx_def split: prod.splits dest: uploadProjectD)
  then obtain u where u: "u \<in> set (uploads db)" "up_id u = upload" "up_project u = project"
    by (auto simp: requestNodeBuildTx_def dest!: find_SomeD)
  show ?thesis
  proof (cases "get_row (\<lambda>b. (nb_project b, nb_key b)) (project, key) (node_builds db)")
    case (Some e)
    with r p(2) get_row_SomeD [OF Some] show ?thesis
      by (auto simp: requestNodeBuildTx_def split: if_splits)
  next
    case None
    with r p(2) u show ?thesis
      by (auto simp: requestNodeBuildTx_def Let_def insert_build_def insert_row_Inr list_ex_iff get_row_None
          project_builds_def has_source_def dest!: auditD)
  qed
qed

lemma retain_txD:
  assumes "retain_tx c project ident job ob archive m db = Inr (r, db')"
  shows "db' = db \<or> build_move db db'
    \<or> (\<exists>b f row rows. b \<in> set (node_builds db) \<and> nb_state b = BuildRunning \<and> nb_id b = ident \<and> nb_project b = project \<and> build_keeps f
        \<and> nb_execution b = nb_execution job \<and> nodeBuildActor ident db = Inr True
        \<and> nb_state (f b) = BuildSucceeded \<and> nb_execution (f b) = nb_execution b \<and> nb_intent (f b) = nb_intent b
        \<and> nb_result (f b) = Some (ArtifactEvidence ob)
        \<and> row = \<lparr>rr_build = ident, rr_metadata = new_release (cl_now c 0) project ident job archive m, rr_archive = archive\<rparr>
        \<and> r = Some (rr_metadata row) \<and> release_of b row \<and> ident \<notin> rr_build ` set (node_releases db)
        \<and> length (project_releases project db) < 10
        \<and> db' = (set_build ident f db)\<lparr>node_releases := node_releases db @ [row], audit_events := rows\<rparr>)"
proof (cases "savedNodeRelease ident project db")
  case (Some saved)
  with assms show ?thesis by (simp add: retain_tx_def)
next
  case None
  then obtain b allowed where b: "List.find (\<lambda>b. nb_id b = ident \<and> nb_project b = project) (node_builds db) = Some b"
    "nb_state b = BuildRunning" "nb_execution b = nb_execution job" "nodeBuildActor ident db = Inr allowed"
    using assms by (auto simp: retain_tx_def)
  note found = find_SomeD [OF b(1)]
  show ?thesis
  proof (cases allowed)
    case False
    let ?f = "\<lambda>q. q\<lparr>nb_state := BuildCancelled, nb_result := Some (ArtifactEvidence ob), nb_lease := [], nb_until := 0\<rparr>"
    from assms None b False obtain rows where "db' = (set_build ident ?f db)\<lparr>audit_events := rows\<rparr>"
      by (auto simp: retain_tx_def some_or_simps andThen_simps guard_simps dest!: auditD)
    with found b(2) show ?thesis
      by (intro disjI2 disjI1 build_moveI [of b db ?f]) (auto simp: build_pending_def build_keeps_def)
  next
    case True
    let ?f = "\<lambda>q. q\<lparr>nb_state := BuildSucceeded, nb_result := Some (ArtifactEvidence ob), nb_lease := [], nb_until := 0\<rparr>"
    let ?row = "\<lparr>rr_build = ident, rr_metadata = new_release (cl_now c 0) project ident job archive m, rr_archive = archive\<rparr>"
    from assms None b True have row: "r = Some (rr_metadata ?row)"
      "ident \<notin> rr_build ` set (node_releases db)" "length (project_releases project db) < 10"
      by (auto simp: retain_tx_def insert_row_Inr Let_def)
    from assms None b True obtain workspace where "audit (cl_token c 0) (nb_actor b) workspace (''node_build.artifact_succeeded:'' @ ident)
        (cl_now c 1) ((set_build ident ?f db)\<lparr>node_releases := node_releases db @ [?row]\<rparr>) = Inr db'"
      by (auto simp: retain_tx_def insert_row_Inr Let_def)
    from auditD [OF this] obtain rows where
      "db' = (set_build ident ?f db)\<lparr>node_releases := node_releases db @ [?row], audit_events := rows\<rparr>" by blast
    note row = row this
    have "release_of b ?row" using found b(3) by (simp add: release_of_def new_release_def)
    moreover have "build_keeps ?f" by (simp add: build_keeps_def)
    ultimately show ?thesis
      using found b(2,3) b(4) [unfolded eqTrueI [OF True]] row
      by (intro disjI2 exI [of _ b] exI [of _ ?f] exI [of _ ?row] exI [of _ rows] conjI) (assumption | simp (no_asm) | blast)+
  qed
qed

lemma delete_release_txD:
  assumes "delete_release_tx lib c token project ident db = Inr (r, db')"
  shows "db' = db
    \<or> (ident \<notin> snd ` set (deployment_refs db) \<and> ident \<notin> ac_release ` set (active_deployments db)
       \<and> (\<exists>rows. db' = db\<lparr>node_releases := filter (\<lambda>r. rr_build r \<noteq> ident) (node_releases db), audit_events := rows\<rparr>))"
proof (cases "savedNodeRelease ident project db")
  case None
  with assms show ?thesis by (auto simp: delete_release_tx_def split: prod.splits)
next
  case (Some saved)
  with assms show ?thesis
    by (auto simp: delete_release_tx_def filter_empty_conv split: prod.splits dest!: auditD)
qed

end
