(* ===== verification/Deploy_Safety.thy ===== *)
theory Deploy_Safety
  imports Node_Safety
begin

text \<open>
  What the queue of deployments promises: revisions are unique and increasing, a pending or
  active deployment keeps its release, and the active deployment of a project is one whose
  route was observed to be live. Proved about \<open>dep_step\<close>, the abstraction of a committed
  transaction.
\<close>

section \<open>Steps of the deployment queue\<close>

definition dep_keeps :: "(node_deployment \<Rightarrow> node_deployment) \<Rightarrow> bool" where
  "dep_keeps f \<longleftrightarrow> (\<forall>j. nd_id (f j) = nd_id j \<and> nd_project (f j) = nd_project j \<and> nd_key (f j) = nd_key j
     \<and> nd_revision (f j) = nd_revision j \<and> nd_release (f j) = nd_release j \<and> nd_artifact (f j) = nd_artifact j
     \<and> nd_runtime (f j) = nd_runtime j)"

text \<open>The evidence that a succeeded deployment carries: its own route, active and healthy.\<close>

definition live_result :: "node_deployment \<Rightarrow> bool" where
  "live_result j \<longleftrightarrow>
     (case nd_result j of
        None \<Rightarrow> False
      | Some ob \<Rightarrow> Active (ob_Routing ob) = Some (Fence (ob_Routing ob)) \<and> Status (ob_Routing ob) = ActiveRoute
          \<and> matchesDeployment (Fence (ob_Routing ob)) j (nd_operation j) \<and> nd_operation j \<noteq> [] \<and> ob_Settled ob \<and> ob_Healthy ob)"

inductive dep_step :: "'x node_db_scheme \<Rightarrow> 'x node_db_scheme \<Rightarrow> bool" where
  DQuiet: "node_deployments db' = node_deployments db \<Longrightarrow> deployment_refs db' = deployment_refs db
    \<Longrightarrow> active_deployments db' = active_deployments db
    \<Longrightarrow> (\<And>r. r \<in> set (node_releases db) \<Longrightarrow> rr_build r \<in> snd ` set (deployment_refs db) \<Longrightarrow> r \<in> set (node_releases db'))
    \<Longrightarrow> dep_step db db'"
| DQueue: "node_deployments db' = node_deployments db @ [j] \<Longrightarrow> deployment_refs db' = deployment_refs db @ [(nd_id j, nd_release j)]
    \<Longrightarrow> active_deployments db' = active_deployments db \<Longrightarrow> node_releases db' = node_releases db
    \<Longrightarrow> nd_state j = DepQueued \<Longrightarrow> nd_intent j = None \<Longrightarrow> nd_id j \<notin> nd_id ` set (node_deployments db)
    \<Longrightarrow> (nd_project j, nd_key j) \<notin> (\<lambda>j. (nd_project j, nd_key j)) ` set (node_deployments db)
    \<Longrightarrow> nd_revision j = depq.last_revision (nd_project j) (node_deployments db) + 1
    \<Longrightarrow> (\<And>q. q \<in> set (node_deployments db) \<Longrightarrow> nd_project q = nd_project j \<Longrightarrow> \<not> dep_pending q)
    \<Longrightarrow> nd_id j \<notin> fst ` set (deployment_refs db)
    \<Longrightarrow> \<exists>r \<in> set (node_releases db). rr_build r = nd_release j \<and> rl_ArtifactSHA256 (rr_metadata r) = nd_artifact j
    \<Longrightarrow> dep_step db db'"
| DMove: "j \<in> set (node_deployments db) \<Longrightarrow> dep_pending j \<Longrightarrow> dep_keeps f \<Longrightarrow> nd_state (f j) = DepRunning
    \<Longrightarrow> nd_intent j = None \<or> nd_intent (f j) = nd_intent j
    \<Longrightarrow> node_deployments db' = upd_row nd_id (nd_id j) f (node_deployments db)
    \<Longrightarrow> deployment_refs db' = deployment_refs db \<Longrightarrow> active_deployments db' = active_deployments db
    \<Longrightarrow> node_releases db' = node_releases db \<Longrightarrow> dep_step db db'"
| DDrop: "j \<in> set (node_deployments db) \<Longrightarrow> dep_pending j \<Longrightarrow> dep_keeps f \<Longrightarrow> nd_state (f j) = DepFailed \<or> nd_state (f j) = DepCancelled
    \<Longrightarrow> nd_intent (f j) = nd_intent j
    \<Longrightarrow> node_deployments db' = upd_row nd_id (nd_id j) f (node_deployments db)
    \<Longrightarrow> deployment_refs db' = filter (\<lambda>r. fst r \<noteq> nd_id j) (deployment_refs db)
    \<Longrightarrow> active_deployments db' = active_deployments db \<Longrightarrow> node_releases db' = node_releases db \<Longrightarrow> dep_step db db'"
| DActivate: "j \<in> set (node_deployments db) \<Longrightarrow> dep_pending j \<Longrightarrow> dep_keeps f \<Longrightarrow> nd_state (f j) = DepSucceeded \<Longrightarrow> live_result (f j)
    \<Longrightarrow> nd_intent (f j) = nd_intent j
    \<Longrightarrow> node_deployments db' = upd_row nd_id (nd_id j) f (node_deployments db)
    \<Longrightarrow> set_active \<lparr>ac_project = nd_project j, ac_deployment = nd_id j, ac_release = nd_release j\<rparr> (active_deployments db)
          = Inr (active_deployments db')
    \<Longrightarrow> deployment_refs db' =
          (let old = activeNodeDeploymentID (nd_project j) db
           in if old \<noteq> [] \<and> old \<noteq> nd_id j then filter (\<lambda>r. fst r \<noteq> old) (deployment_refs db) else deployment_refs db)
    \<Longrightarrow> node_releases db' = node_releases db \<Longrightarrow> dep_step db db'"

definition refs_ok :: "node_deployment list \<Rightarrow> (string \<times> string) list \<Rightarrow> release_row list \<Rightarrow> bool" where
  "refs_ok js refs rs \<longleftrightarrow>
     distinct (map fst refs)
     \<and> (\<forall>j \<in> set js. dep_pending j \<longrightarrow> (nd_id j, nd_release j) \<in> set refs)
     \<and> (\<forall>(d, k) \<in> set refs. \<exists>j \<in> set js. \<exists>r \<in> set rs. nd_id j = d \<and> nd_release j = k \<and> rr_build r = k
          \<and> rl_ArtifactSHA256 (rr_metadata r) = nd_artifact j)"

definition actives_ok :: "node_deployment list \<Rightarrow> (string \<times> string) list \<Rightarrow> active_row list \<Rightarrow> bool" where
  "actives_ok js refs as \<longleftrightarrow>
     distinct (map ac_project as)
     \<and> (\<forall>a \<in> set as. (ac_deployment a, ac_release a) \<in> set refs
          \<and> (\<exists>j \<in> set js. nd_id j = ac_deployment a \<and> nd_project j = ac_project a \<and> nd_release j = ac_release a
               \<and> nd_state j = DepSucceeded \<and> live_result j))"

definition dep_inv :: "'x node_db_scheme \<Rightarrow> bool" where
  "dep_inv db \<longleftrightarrow>
     depq.ordered_ok (node_deployments db) \<and> list_all (\<lambda>j. 0 < nd_revision j) (node_deployments db)
     \<and> refs_ok (node_deployments db) (deployment_refs db) (node_releases db)
     \<and> actives_ok (node_deployments db) (deployment_refs db) (active_deployments db)"

lemma depq_keeps: "dep_keeps f \<Longrightarrow> depq.keeps_revision f"
  by (simp add: dep_keeps_def depq.keeps_revision_def depq.keeps_def)

lemma dep_inv_table: "dep_inv db \<Longrightarrow> depq.table_ok (node_deployments db)"
  by (simp add: dep_inv_def depq.ordered_ok_def)

section \<open>The invariant is kept\<close>

lemma refs_ok_filter:
  assumes "refs_ok js refs rs" and "\<And>j. j \<in> set js \<Longrightarrow> dep_pending j \<Longrightarrow> nd_id j \<noteq> k"
  shows "refs_ok js (filter (\<lambda>r. fst r \<noteq> k) refs) rs"
  using assms by (auto simp: refs_ok_def distinct_map_filter)

text \<open>An update of one row that does not bring back a pending job.\<close>

lemma refs_ok_update:
  assumes "refs_ok js refs rs" and "dep_keeps f" and "\<And>q. q \<in> set js \<Longrightarrow> nd_id q = m \<Longrightarrow> dep_pending (f q) \<Longrightarrow> dep_pending q"
  shows "refs_ok (upd_row nd_id m f js) refs rs"
proof -
  define g where "g = (\<lambda>j. if nd_id j = m then f j else j)"
  have same: "nd_id (g j) = nd_id j" "nd_release (g j) = nd_release j" "nd_artifact (g j) = nd_artifact j" for j
    using assms(2) by (simp_all add: g_def dep_keeps_def)
  have pend: "dep_pending q" if "q \<in> set js" "dep_pending (g q)" for q
    using that assms(3) by (auto simp: g_def split: if_splits)
  have "refs_ok (map g js) refs rs" unfolding refs_ok_def
  proof (intro conjI)
    show "distinct (map fst refs)" using assms(1) by (simp add: refs_ok_def)
    show "\<forall>j \<in> set (map g js). dep_pending j \<longrightarrow> (nd_id j, nd_release j) \<in> set refs"
      using assms(1) same pend by (auto simp: refs_ok_def)
    show "\<forall>(d, k) \<in> set refs. \<exists>j \<in> set (map g js). \<exists>r \<in> set rs. nd_id j = d \<and> nd_release j = k \<and> rr_build r = k
            \<and> rl_ArtifactSHA256 (rr_metadata r) = nd_artifact j"
      using assms(1) same by (fastforce simp: refs_ok_def)
  qed
  then show ?thesis by (simp add: upd_row_def g_def)
qed

lemma actives_ok_update:
  assumes "actives_ok js refs as" and "depq.table_ok js" and "j \<in> set js" and "dep_pending j"
    and "\<And>a. a \<in> set as \<Longrightarrow> (ac_deployment a, ac_release a) \<in> set refs \<Longrightarrow> (ac_deployment a, ac_release a) \<in> set refs'"
  shows "actives_ok (upd_row nd_id (nd_id j) f js) refs' as"
proof -
  have "q \<in> set (upd_row nd_id (nd_id j) f js)" if "q \<in> set js" "nd_state q = DepSucceeded" for q
    using that by (intro depq.settled_row [OF assms(2-4)]) (simp_all add: dep_pending_def)
  with assms(1,5) show ?thesis unfolding actives_ok_def by fast
qed

lemma active_not_pending:
  assumes "actives_ok js refs as" and "depq.table_ok js" and "a \<in> set as" and "j \<in> set js" and "dep_pending j"
  shows "ac_deployment a \<noteq> nd_id j"
proof
  assume eq: "ac_deployment a = nd_id j"
  obtain q where q: "q \<in> set js" "nd_id q = ac_deployment a" "nd_state q = DepSucceeded"
    using assms(1,3) by (auto simp: actives_ok_def)
  have "q = j" using q(2) eq by (intro depq.table_unique [OF assms(2) q(1) assms(4)]) simp
  with q(3) assms(5) show False by (simp add: dep_pending_def)
qed

lemma set_active_rows:
  assumes "set_active a as = Inr as'"
  shows "set as' = insert a {q \<in> set as. ac_project q \<noteq> ac_project a}" and "distinct (map ac_project as) \<Longrightarrow> distinct (map ac_project as')"
proof -
  have rows: "(\<exists>q \<in> set as. ac_project q = ac_project a) \<and> as' = upd_row ac_project (ac_project a) (\<lambda>_. a) as
      \<or> (\<forall>q \<in> set as. ac_project q \<noteq> ac_project a) \<and> as' = as @ [a]"
    using assms by (auto simp: set_active_def list_ex_iff split: if_splits)
  then show "set as' = insert a {q \<in> set as. ac_project q \<noteq> ac_project a}"
    by (auto simp: set_upd_row)
  show "distinct (map ac_project as')" if "distinct (map ac_project as)"
    using rows
  proof (elim disjE conjE)
    assume "as' = upd_row ac_project (ac_project a) (\<lambda>_. a) as"
    then show ?thesis using that by (simp add: map_upd_row)
  next
    assume "\<forall>q \<in> set as. ac_project q \<noteq> ac_project a" and "as' = as @ [a]"
    then show ?thesis using that by auto
  qed
qed

text \<open>Making a deployment active: the references of all other active rows stay.\<close>

lemma actives_ok_activate:
  assumes as: "actives_ok js refs as" and table: "depq.table_ok js" and j: "j \<in> set js" "dep_pending j" and f: "dep_keeps f"
    and live: "nd_state (f j) = DepSucceeded" "live_result (f j)"
    and act: "set_active \<lparr>ac_project = nd_project j, ac_deployment = nd_id j, ac_release = nd_release j\<rparr> as = Inr as'"
    and ref: "(nd_id j, nd_release j) \<in> set refs'"
    and keep: "\<And>a. a \<in> set as \<Longrightarrow> ac_project a \<noteq> nd_project j \<Longrightarrow> (ac_deployment a, ac_release a) \<in> set refs'"
  shows "actives_ok (upd_row nd_id (nd_id j) f js) refs' as'"
proof -
  let ?js = "upd_row nd_id (nd_id j) f js"
  have "f j \<in> set ?js" by (rule depq.updated_row [OF j(1)])
  moreover have "nd_id (f j) = nd_id j" "nd_project (f j) = nd_project j" "nd_release (f j) = nd_release j"
    using f by (simp_all add: dep_keeps_def)
  ultimately have new: "\<exists>q \<in> set ?js. nd_id q = nd_id j \<and> nd_project q = nd_project j \<and> nd_release q = nd_release j
      \<and> nd_state q = DepSucceeded \<and> live_result q" using live by blast
  have old: "\<exists>q \<in> set ?js. nd_id q = ac_deployment a \<and> nd_project q = ac_project a \<and> nd_release q = ac_release a
      \<and> nd_state q = DepSucceeded \<and> live_result q" if "a \<in> set as" for a
    using actives_ok_update [OF as table j, of refs f] that unfolding actives_ok_def by blast
  show ?thesis unfolding actives_ok_def
  proof (intro conjI ballI)
    show "distinct (map ac_project as')" using set_active_rows(2) [OF act] as by (simp add: actives_ok_def)
    fix a assume "a \<in> set as'"
    then consider "a = \<lparr>ac_project = nd_project j, ac_deployment = nd_id j, ac_release = nd_release j\<rparr>"
      | "a \<in> set as" "ac_project a \<noteq> nd_project j" using set_active_rows(1) [OF act] by auto
    then show "(ac_deployment a, ac_release a) \<in> set refs'"
      and "\<exists>q \<in> set ?js. nd_id q = ac_deployment a \<and> nd_project q = ac_project a \<and> nd_release q = ac_release a
        \<and> nd_state q = DepSucceeded \<and> live_result q"
      by (cases; use ref keep new old in auto)+
  qed
qed

lemma dep_update_inv:
  assumes inv: "dep_inv db" and j: "j \<in> set (node_deployments db)" "dep_pending j" and f: "dep_keeps f"
    and js: "node_deployments db' = upd_row nd_id (nd_id j) f (node_deployments db)"
    and refs: "refs_ok (node_deployments db') (deployment_refs db') (node_releases db')"
    and actives: "actives_ok (node_deployments db') (deployment_refs db') (active_deployments db')"
  shows "dep_inv db'"
proof -
  have "depq.ordered_ok (node_deployments db)" using inv by (simp add: dep_inv_def)
  then have "depq.ordered_ok (node_deployments db')"
    unfolding js by (rule depq.ordered_update [OF _ depq_keeps [OF f] j])
  moreover have "list_all (\<lambda>j. 0 < nd_revision j) (node_deployments db')"
    using inv f by (auto simp: dep_inv_def list_all_iff js set_upd_row dep_keeps_def)
  ultimately show ?thesis using refs actives by (simp add: dep_inv_def)
qed

lemma dep_move_inv:
  assumes inv: "dep_inv db" and j: "j \<in> set (node_deployments db)" "dep_pending j" and f: "dep_keeps f"
    and js: "node_deployments db' = upd_row nd_id (nd_id j) f (node_deployments db)"
    and same: "deployment_refs db' = deployment_refs db" "active_deployments db' = active_deployments db"
      "node_releases db' = node_releases db"
  shows "dep_inv db'"
proof (rule dep_update_inv [OF inv j f js])
  note table = dep_inv_table [OF inv]
  show "refs_ok (node_deployments db') (deployment_refs db') (node_releases db')"
    unfolding js same using inv depq.table_unique [OF table _ j(1)] j(2)
    by (intro refs_ok_update [OF _ f]) (auto simp: dep_inv_def)
  show "actives_ok (node_deployments db') (deployment_refs db') (active_deployments db')"
    unfolding js same using inv by (intro actives_ok_update [OF _ table j]) (simp_all add: dep_inv_def)
qed

lemma dep_drop_inv:
  assumes inv: "dep_inv db" and j: "j \<in> set (node_deployments db)" "dep_pending j" and f: "dep_keeps f"
    and final: "\<not> dep_pending (f j)"
    and js: "node_deployments db' = upd_row nd_id (nd_id j) f (node_deployments db)"
    and refs: "deployment_refs db' = filter (\<lambda>r. fst r \<noteq> nd_id j) (deployment_refs db)"
    and same: "active_deployments db' = active_deployments db" "node_releases db' = node_releases db"
  shows "dep_inv db'"
proof (rule dep_update_inv [OF inv j f js])
  note table = dep_inv_table [OF inv]
  have ok: "refs_ok (node_deployments db) (deployment_refs db) (node_releases db)"
    "actives_ok (node_deployments db) (deployment_refs db) (active_deployments db)" using inv by (simp_all add: dep_inv_def)
  have "refs_ok (node_deployments db') (deployment_refs db) (node_releases db)"
    unfolding js using depq.table_unique [OF table _ j(1)] j(2) by (intro refs_ok_update [OF ok(1) f]) auto
  moreover have "nd_id q \<noteq> nd_id j" if "q \<in> set (node_deployments db')" "dep_pending q" for q
    using that final f depq.table_unique [OF table _ j(1)] by (auto simp: js set_upd_row dep_keeps_def)
  ultimately show "refs_ok (node_deployments db') (deployment_refs db') (node_releases db')"
    unfolding refs same by (intro refs_ok_filter)
  show "actives_ok (node_deployments db') (deployment_refs db') (active_deployments db')"
    unfolding js refs same using active_not_pending [OF ok(2) table _ j]
    by (intro actives_ok_update [OF ok(2) table j]) auto
qed

lemma dep_activate_inv:
  assumes inv: "dep_inv db" and j: "j \<in> set (node_deployments db)" "dep_pending j" and f: "dep_keeps f"
    and live: "nd_state (f j) = DepSucceeded" "live_result (f j)"
    and js: "node_deployments db' = upd_row nd_id (nd_id j) f (node_deployments db)"
    and act: "set_active \<lparr>ac_project = nd_project j, ac_deployment = nd_id j, ac_release = nd_release j\<rparr> (active_deployments db)
        = Inr (active_deployments db')"
    and refs: "deployment_refs db' =
          (let old = activeNodeDeploymentID (nd_project j) db
           in if old \<noteq> [] \<and> old \<noteq> nd_id j then filter (\<lambda>r. fst r \<noteq> old) (deployment_refs db) else deployment_refs db)"
    and rs: "node_releases db' = node_releases db"
  shows "dep_inv db'"
proof (rule dep_update_inv [OF inv j f js])
  note table = dep_inv_table [OF inv]
  have ok: "refs_ok (node_deployments db) (deployment_refs db) (node_releases db)"
    "actives_ok (node_deployments db) (deployment_refs db) (active_deployments db)" using inv by (simp_all add: dep_inv_def)
  define old where "old = activeNodeDeploymentID (nd_project j) db"
  define dropped where "dropped \<longleftrightarrow> old \<noteq> [] \<and> old \<noteq> nd_id j"
  have refs': "deployment_refs db' = (if dropped then filter (\<lambda>r. fst r \<noteq> old) (deployment_refs db) else deployment_refs db)"
    using refs by (simp add: Let_def old_def dropped_def)
  have prior: "\<exists>a \<in> set (active_deployments db). ac_project a = nd_project j \<and> ac_deployment a = old" if dropped
    using that unfolding dropped_def old_def activeNodeDeploymentID_def
    by (auto split: option.splits dest!: get_row_SomeD)
  have upd: "refs_ok (node_deployments db') (deployment_refs db) (node_releases db)"
    unfolding js using depq.table_unique [OF table _ j(1)] j(2) by (intro refs_ok_update [OF ok(1) f]) auto
  have pend: "nd_id q \<noteq> old" if "dropped" "q \<in> set (node_deployments db)" "dep_pending q" for q
  proof -
    from prior [OF that(1)] obtain a where a: "a \<in> set (active_deployments db)" "ac_deployment a = old" by blast
    from active_not_pending [OF ok(2) table a(1) that(2,3)] a(2) show ?thesis by simp
  qed
  have "nd_id q \<noteq> old" if drop: "dropped" and q: "q \<in> set (node_deployments db')" "dep_pending q" for q
  proof -
    obtain x where x: "x \<in> set (node_deployments db)" "q = (if nd_id x = nd_id j then f x else x)"
      using q(1) unfolding js set_upd_row by blast
    show ?thesis
    proof (cases "nd_id x = nd_id j")
      case True
      with x(2) live(1) q(2) depq.table_unique [OF table x(1) j(1)] show ?thesis by (simp add: dep_pending_def)
    qed (use x q(2) pend [OF drop] in auto)
  qed
  with upd refs_ok_filter [OF upd] show "refs_ok (node_deployments db') (deployment_refs db') (node_releases db')"
    unfolding refs' rs by (cases dropped) auto
  have "(nd_id j, nd_release j) \<in> set (deployment_refs db)" using ok(1) j by (simp add: refs_ok_def)
  then have mine: "(nd_id j, nd_release j) \<in> set (deployment_refs db')" by (auto simp: refs' dropped_def)
  have "(ac_deployment a, ac_release a) \<in> set (deployment_refs db')"
    if a: "a \<in> set (active_deployments db)" "ac_project a \<noteq> nd_project j" for a
  proof -
    have "ac_deployment a \<noteq> old" if dropped
    proof
      assume eq: "ac_deployment a = old"
      from prior [OF that] obtain b where b: "b \<in> set (active_deployments db)" "ac_project b = nd_project j" "ac_deployment b = old"
        by blast
      obtain p q where "p \<in> set (node_deployments db)" "nd_id p = ac_deployment a" "nd_project p = ac_project a"
        "q \<in> set (node_deployments db)" "nd_id q = ac_deployment b" "nd_project q = ac_project b"
        using ok(2) a(1) b(1) unfolding actives_ok_def by blast
      with depq.table_unique [OF table, of p q] eq a(2) b show False by auto
    qed
    with ok(2) a(1) show ?thesis by (auto simp: actives_ok_def refs')
  qed
  with mine show "actives_ok (node_deployments db') (deployment_refs db') (active_deployments db')"
    unfolding js by (intro actives_ok_activate [OF ok(2) table j f live act])
qed

lemma dep_step_inv:
  assumes "dep_step db db'" and "dep_inv db"
  shows "dep_inv db'"
  using assms(1)
proof cases
  case DQuiet
  have "refs_ok (node_deployments db) (deployment_refs db) (node_releases db)" using assms(2) by (simp add: dep_inv_def)
  then have "refs_ok (node_deployments db') (deployment_refs db') (node_releases db')"
    unfolding refs_ok_def DQuiet(1,2) using DQuiet(4) by (force simp: image_iff)
  with assms(2) show ?thesis unfolding dep_inv_def DQuiet(1,2,3) by simp
next
  case (DQueue j)
  have ok: "refs_ok (node_deployments db) (deployment_refs db) (node_releases db)"
    "actives_ok (node_deployments db) (deployment_refs db) (active_deployments db)"
    "depq.ordered_ok (node_deployments db)" using assms(2) by (simp_all add: dep_inv_def)
  have "refs_ok (node_deployments db') (deployment_refs db') (node_releases db')"
    using ok(1) DQueue(11,12) unfolding refs_ok_def DQueue(1,2,4) by fastforce
  moreover have "actives_ok (node_deployments db') (deployment_refs db') (active_deployments db')"
    using ok(2) unfolding actives_ok_def DQueue(1,2,3) by fastforce
  moreover have "depq.ordered_ok (node_deployments db')"
    unfolding DQueue(1) using ok(3) DQueue(7,8,9,10) by (rule depq.ordered_snoc)
  moreover have "0 < nd_revision j" using depq.last_revision_nonneg [of "nd_project j"] DQueue(9) by (simp add: add_nonneg_pos)
  ultimately show ?thesis using assms(2) by (simp add: dep_inv_def DQueue(1))
next
  case (DMove j f)
  with dep_move_inv [OF assms(2)] show ?thesis by blast
next
  case (DDrop j f)
  then have "\<not> dep_pending (f j)" by (auto simp: dep_pending_def)
  with DDrop dep_drop_inv [OF assms(2)] show ?thesis by blast
next
  case (DActivate j f)
  with dep_activate_inv [OF assms(2)] show ?thesis by blast
qed

text \<open>What a step keeps: settled rows, written intents and the order of the revisions.\<close>

definition dep_dispatched :: "string \<Rightarrow> 'x node_db_scheme \<Rightarrow> bool" where
  "dep_dispatched k db \<longleftrightarrow> (\<exists>j \<in> set (node_deployments db). nd_id j = k \<and> nd_intent j \<noteq> None)"

lemma dep_dispatched_update:
  assumes "dep_dispatched k db" and "depq.table_ok (node_deployments db)" and "dep_keeps f"
    and "j \<in> set (node_deployments db)" and "nd_intent j = None \<or> nd_intent (f j) = nd_intent j"
    and "node_deployments db' = upd_row nd_id (nd_id j) f (node_deployments db)"
  shows "dep_dispatched k db'"
proof -
  from assms(1) obtain q where q: "q \<in> set (node_deployments db)" "nd_id q = k" "nd_intent q \<noteq> None"
    by (auto simp: dep_dispatched_def)
  let ?q = "if nd_id q = nd_id j then f q else q"
  have "?q \<in> set (node_deployments db')" using q(1) unfolding assms(6) set_upd_row by (rule imageI)
  moreover have "nd_id ?q = k" using q assms(3) by (simp add: dep_keeps_def)
  moreover have "nd_intent ?q \<noteq> None"
    using q assms(5) depq.table_unique [OF assms(2) q(1) assms(4)] by auto
  ultimately show ?thesis unfolding dep_dispatched_def by blast
qed

lemma dep_step_dispatched:
  assumes "dep_step db db'" and "dep_inv db" and "dep_dispatched k db"
  shows "dep_dispatched k db'"
  using assms(1)
proof cases
  case (DMove j f)
  with dep_dispatched_update [OF assms(3) dep_inv_table [OF assms(2)]] show ?thesis by blast
next
  case (DDrop j f)
  with dep_dispatched_update [OF assms(3) dep_inv_table [OF assms(2)]] show ?thesis by blast
next
  case (DActivate j f)
  with dep_dispatched_update [OF assms(3) dep_inv_table [OF assms(2)]] show ?thesis by blast
qed (use assms(3) in \<open>auto simp: dep_dispatched_def\<close>)

lemma dep_step_settled:
  assumes "dep_step db db'" and "dep_inv db" and "depq.settled k (node_deployments db)"
  shows "depq.settled k (node_deployments db')"
  using assms(1) by cases
    (use assms(3) depq.settled_update [OF dep_inv_table [OF assms(2)]] in \<open>auto simp: depq.settled_snoc\<close>)

lemma dep_step_newer:
  assumes "dep_step db db'" and "dep_inv db" and "depq.newer_only k (node_deployments db)"
  shows "depq.newer_only k (node_deployments db')"
proof -
  have "depq.ordered_ok (node_deployments db)" using assms(2) by (simp add: dep_inv_def)
  note upd = depq.newer_update [OF this depq_keeps _ _ assms(3)]
  from assms(1) show ?thesis by cases (use assms(3) upd in \<open>auto simp: depq.newer_snoc\<close>)
qed

text \<open>The active row of a project changes only when one of its deployments is observed live.\<close>

lemma dep_step_active:
  assumes "dep_step db db'"
  shows "active_deployments db' = active_deployments db
    \<or> (\<exists>j \<in> set (node_deployments db'). nd_state j = DepSucceeded \<and> live_result j
         \<and> (\<forall>a. ac_project a \<noteq> nd_project j \<longrightarrow> (a \<in> set (active_deployments db') \<longleftrightarrow> a \<in> set (active_deployments db)))
         \<and> (\<exists>a \<in> set (active_deployments db'). ac_project a = nd_project j \<and> ac_deployment a = nd_id j \<and> ac_release a = nd_release j))"
  using assms
proof cases
  case (DActivate j f)
  have keep: "nd_id (f j) = nd_id j" "nd_project (f j) = nd_project j" "nd_release (f j) = nd_release j"
    using DActivate(3) by (simp_all add: dep_keeps_def)
  have "f j \<in> set (node_deployments db')" unfolding DActivate(7) by (rule depq.updated_row [OF DActivate(1)])
  moreover have "set (active_deployments db')
      = insert \<lparr>ac_project = nd_project j, ac_deployment = nd_id j, ac_release = nd_release j\<rparr>
          {q \<in> set (active_deployments db). ac_project q \<noteq> nd_project j}"
    using set_active_rows(1) [OF DActivate(8)] by simp
  ultimately show ?thesis using DActivate(4,5) keep by (intro disjI2 bexI [of _ "f j"]) auto
qed auto

section \<open>Transactions as steps of the deployment queue\<close>

text \<open>The frame of a transaction on deployments: it leaves publications, builds and releases alone.\<close>

definition dep_frame :: "'x node_db_scheme \<Rightarrow> 'x node_db_scheme \<Rightarrow> bool" where
  "dep_frame db db' \<longleftrightarrow>
     (\<exists>js refs as rows. db' = db\<lparr>node_deployments := js, deployment_refs := refs, active_deployments := as, audit_events := rows\<rparr>)"

lemma dep_frameI:
  "db' = db\<lparr>node_deployments := js, deployment_refs := refs, active_deployments := as, audit_events := rows\<rparr> \<Longrightarrow> dep_frame db db'"
  by (auto simp: dep_frame_def)

lemma dep_frame_refl: "dep_frame db db"
  by (rule dep_frameI [where js = "node_deployments db" and refs = "deployment_refs db" and as = "active_deployments db"
      and rows = "audit_events db"]) (cases db; simp)

lemma dep_quiet_refl: "dep_step db db"
  by (rule DQuiet) simp_all

definition dep_move :: "'x node_db_scheme \<Rightarrow> 'x node_db_scheme \<Rightarrow> bool" where
  "dep_move db db' \<longleftrightarrow>
     (\<exists>j f. j \<in> set (node_deployments db) \<and> nd_state (f j) = DepRunning \<and> dep_pending j \<and> dep_keeps f
        \<and> (nd_intent j = None \<or> nd_intent (f j) = nd_intent j) \<and> db' = set_deployment (nd_id j) f db)"

lemma dep_move_frame:
  assumes "dep_move db db'" shows "dep_frame db db'"
proof -
  obtain k f where "db' = set_deployment k f db" using assms by (auto simp: dep_move_def)
  then show ?thesis
    by (intro dep_frameI [where js = "upd_row nd_id k f (node_deployments db)" and refs = "deployment_refs db"
          and as = "active_deployments db" and rows = "audit_events db"]) (cases db; simp add: set_deployment_def)
qed

lemma dep_move_step:
  assumes "dep_move db db'" shows "dep_step db db'"
proof -
  obtain j f where "j \<in> set (node_deployments db)" "dep_pending j" "dep_keeps f" "nd_state (f j) = DepRunning"
    "nd_intent j = None \<or> nd_intent (f j) = nd_intent j" "db' = set_deployment (nd_id j) f db"
    using assms unfolding dep_move_def by blast
  then show ?thesis by (intro DMove [of j db f]) (simp_all add: set_deployment_def)
qed

lemma dep_lease_row:
  assumes "length (filter (dep_lease_held lib ident operation lease now) js) = 1"
  obtains j where "j \<in> set js" and "nd_id j = ident" and "nd_state j = DepRunning" and "nd_operation j = operation"
proof -
  from assms obtain j where "j \<in> set (filter (dep_lease_held lib ident operation lease now) js)"
    by (metis One_nat_def length_Suc_conv list.set_intros(1))
  then show ?thesis using that by (auto simp: dep_lease_held_def)
qed

lemma claim_deployment_move:
  assumes "claim_deployment_tx lib bl cfg c project runtime toolchain architecture db = Inr (r, db')"
  shows "db' = db \<or> dep_move db db'"
proof (cases "List.find (\<lambda>j. nd_project j = project \<and> nd_state j = DepQueued) (node_deployments db)")
  case None
  with assms show ?thesis by (simp add: claim_deployment_tx_def)
next
  case (Some j)
  let ?f = "\<lambda>q. q\<lparr>nd_state := DepRunning, nd_operation := cl_token c 0, nd_lease := lib_digest lib (cl_token c 1),
               nd_until := cl_now c 1 + 60\<rparr>"
  from assms Some have "db' = set_deployment (nd_id j) ?f db" by (auto simp: claim_deployment_tx_def Let_def)
  with find_SomeD [OF Some] show ?thesis
    unfolding dep_move_def by (intro disjI2 exI [of _ j] exI [of _ ?f]) (auto simp: dep_pending_def dep_keeps_def)
qed

lemma renew_deployment_move:
  assumes "renew_deployment_tx lib c ident operation lease db = Inr (r, db')"
  shows "dep_move db db'"
proof -
  let ?f = "\<lambda>q. q\<lparr>nd_until := cl_now c 1 + 60\<rparr>"
  from assms have "length (filter (dep_lease_held lib ident operation lease (cl_now c 0)) (node_deployments db)) = 1"
    by (auto simp: renew_deployment_tx_def)
  then obtain j where "j \<in> set (node_deployments db)" "nd_id j = ident" "nd_state j = DepRunning" by (rule dep_lease_row)
  moreover from assms have "db' = set_deployment ident ?f db" by (auto simp: renew_deployment_tx_def Let_def)
  ultimately show ?thesis
    unfolding dep_move_def by (intro exI [of _ j] exI [of _ ?f]) (auto simp: dep_pending_def dep_keeps_def)
qed

lemma dispatch_deployment_txD:
  assumes "dispatch_deployment_tx lib bl cfg c ident operation lease db = Inr ((request, archive), db')" and "dep_inv db"
  shows "\<exists>j release row. j \<in> set (node_deployments db) \<and> nd_id j = ident \<and> nd_state j = DepRunning \<and> nd_operation j = operation
    \<and> nd_intent j = None \<and> nodeDeploymentActor ident db = Inr True \<and> requireProjectHostingAccess cfg (cl_now c 1) (nd_project j) db = Inr ()
    \<and> savedNodeRelease (nd_release j) (nd_project j) db = Some release \<and> rl_ArtifactSHA256 release = nd_artifact j
    \<and> request = runtime_request_of j release operation (cl_now c 2 + 60)
    \<and> row \<in> set (node_releases db) \<and> rr_build row = nd_release j \<and> archive = rr_archive row \<and> (\<exists>m. bl_artifact bl archive (nd_artifact j) = Inr m)
    \<and> db' = set_deployment ident (\<lambda>q. q\<lparr>nd_intent := Some request, nd_until := rq_ActivateBefore request\<rparr>) db"
proof -
  from assms(1) have "length (filter (dep_lease_held lib ident operation lease (cl_now c 0)) (node_deployments db)) = 1"
    by (auto simp: dispatch_deployment_tx_def)
  then obtain q where q: "q \<in> set (node_deployments db)" "nd_id q = ident" "nd_state q = DepRunning" "nd_operation q = operation"
    by (rule dep_lease_row)
  obtain j where j: "get_row nd_id ident (node_deployments db) = Some j"
    using assms(1) by (auto simp: dispatch_deployment_tx_def)
  from q(2) get_row_SomeD [OF j] have "q = j" by (intro depq.table_unique [OF dep_inv_table [OF assms(2)] q(1)]) simp_all
  obtain row where row: "referenced_archive ident db = Some row" using assms(1) by (auto simp: dispatch_deployment_tx_def Let_def)
  then have mem: "row \<in> set (node_releases db)"
    by (auto simp: referenced_archive_def split: option.splits dest: get_row_SomeD)
  have r: "nd_intent q = None" "nodeDeploymentActor ident db = Inr True"
    "requireProjectHostingAccess cfg (cl_now c 1) (nd_project q) db = Inr ()"
    "rr_build row = nd_release q" "archive = rr_archive row" "\<exists>m. bl_artifact bl archive (nd_artifact q) = Inr m"
    "db' = set_deployment ident (\<lambda>q. q\<lparr>nd_intent := Some request, nd_until := rq_ActivateBefore request\<rparr>) db"
    "\<exists>release. savedNodeRelease (nd_release q) (nd_project q) db = Some release \<and> rl_ArtifactSHA256 release = nd_artifact q
      \<and> request = runtime_request_of q release operation (cl_now c 2 + 60)"
    using assms(1) j row \<open>q = j\<close> by (auto simp: dispatch_deployment_tx_def Let_def)
  from r(8) obtain release where "savedNodeRelease (nd_release q) (nd_project q) db = Some release"
    "rl_ArtifactSHA256 release = nd_artifact q" "request = runtime_request_of q release operation (cl_now c 2 + 60)" by blast
  with q mem r(1-7) show ?thesis by blast
qed

lemma dispatch_deployment_move:
  assumes "dispatch_deployment_tx lib bl cfg c ident operation lease db = Inr (r, db')" and "dep_inv db"
  shows "dep_move db db'"
proof -
  obtain request archive where r: "r = (request, archive)" by (cases r)
  let ?f = "\<lambda>q. q\<lparr>nd_intent := Some request, nd_until := rq_ActivateBefore request\<rparr>"
  from dispatch_deployment_txD [OF assms(1) [unfolded r] assms(2)] obtain j where
    "j \<in> set (node_deployments db)" "nd_id j = ident" "nd_state j = DepRunning" "nd_intent j = None" "db' = set_deployment ident ?f db"
    by blast
  then show ?thesis
    unfolding dep_move_def by (intro exI [of _ j] exI [of _ ?f]) (auto simp: dep_pending_def dep_keeps_def)
qed

lemma max_dep_revision_last: "max_dep_revision = depq.last_revision"
  by (intro ext) (simp add: max_dep_revision_def depq.last_revision_def)

lemma savedNodeRelease_row:
  "savedNodeRelease ident project db = Some m \<Longrightarrow> \<exists>r \<in> set (node_releases db). rr_build r = ident \<and> rr_metadata r = m"
  by (auto simp: savedNodeRelease_def split: if_splits dest!: get_row_SomeD)

lemma request_deployment_txD:
  assumes "request_deployment_tx lib cfg c token project release key runtime db = Inr (j, db')"
  shows "(j \<in> set (node_deployments db) \<and> nd_project j = project \<and> nd_key j = key \<and> nd_release j = release \<and> db' = db)
    \<or> (nd_project j = project \<and> nd_key j = key \<and> nd_release j = release \<and> nd_runtime j = runtime
       \<and> nd_state j = DepQueued \<and> nd_intent j = None \<and> nd_id j \<notin> nd_id ` set (node_deployments db)
       \<and> (project, key) \<notin> (\<lambda>j. (nd_project j, nd_key j)) ` set (node_deployments db)
       \<and> nd_revision j = depq.last_revision project (node_deployments db) + 1
       \<and> (\<forall>q \<in> set (node_deployments db). nd_project q = project \<longrightarrow> \<not> dep_pending q)
       \<and> nd_id j \<notin> fst ` set (deployment_refs db)
       \<and> (\<exists>r \<in> set (node_releases db). rr_build r = release \<and> rl_ArtifactSHA256 (rr_metadata r) = nd_artifact j)
       \<and> (active_runtime project db \<noteq> [] \<longrightarrow> active_runtime project db = runtime)
       \<and> (\<exists>rows. db' = db\<lparr>node_deployments := node_deployments db @ [j],
                           deployment_refs := deployment_refs db @ [(nd_id j, release)], audit_events := rows\<rparr>))"
proof -
  obtain p actor where p: "p_id p = project" and r: "requestNodeDeploymentTx cfg c p actor release key runtime db = Inr (j, db')"
    using assms by (auto simp: request_deployment_tx_def split: prod.splits dest: uploadProjectD)
  show ?thesis
  proof (cases "get_row (\<lambda>j. (nd_project j, nd_key j)) (project, key) (node_deployments db)")
    case (Some e)
    with r p get_row_SomeD [OF Some] show ?thesis by (auto simp: requestNodeDeploymentTx_def split: if_splits)
  next
    case None
    with r p obtain saved where saved: "savedNodeRelease release project db = Some saved" by (auto simp: requestNodeDeploymentTx_def)
    from savedNodeRelease_row [OF this] have "\<exists>r \<in> set (node_releases db). rr_build r = release
        \<and> rl_ArtifactSHA256 (rr_metadata r) = rl_ArtifactSHA256 saved" by blast
    moreover from r p None saved have "audit (cl_token c 1) actor (p_workspace p) (''node_deployment.requested:'' @ nd_id j) (nd_created j)
        (db\<lparr>node_deployments := node_deployments db @ [j], deployment_refs := deployment_refs db @ [(nd_id j, release)]\<rparr>) = Inr db'"
      by (auto simp: requestNodeDeploymentTx_def Let_def insert_deployment_def insert_row_Inr)
    then have "\<exists>rows. db' = db\<lparr>node_deployments := node_deployments db @ [j],
        deployment_refs := deployment_refs db @ [(nd_id j, release)], audit_events := rows\<rparr>" by (auto dest: auditD)
    moreover from r p None saved have "nd_project j = project" "nd_key j = key" "nd_release j = release" "nd_runtime j = runtime"
      "nd_state j = DepQueued" "nd_intent j = None" "nd_artifact j = rl_ArtifactSHA256 saved"
      "nd_revision j = depq.last_revision project (node_deployments db) + 1"
      by (auto simp: requestNodeDeploymentTx_def Let_def max_dep_revision_last)
    moreover from r p None saved have "\<exists>js. insert_row nd_id j (node_deployments db) = Inr js"
      "\<exists>refs. insert_row fst (nd_id j, release) (deployment_refs db) = Inr refs"
      by (auto simp: requestNodeDeploymentTx_def Let_def insert_deployment_def)
    then have "nd_id j \<notin> nd_id ` set (node_deployments db)" "nd_id j \<notin> fst ` set (deployment_refs db)"
      unfolding insert_row_Inr by simp_all
    moreover from None have "(project, key) \<notin> (\<lambda>j. (nd_project j, nd_key j)) ` set (node_deployments db)"
      by (simp add: get_row_None)
    moreover from r p None have "\<forall>q \<in> set (node_deployments db). nd_project q = project \<longrightarrow> \<not> dep_pending q"
      "active_runtime project db \<noteq> [] \<longrightarrow> active_runtime project db = runtime"
      by (auto simp: requestNodeDeploymentTx_def Let_def list_ex_iff project_deployments_def)
    ultimately show ?thesis by simp
  qed
qed

lemma request_deployment_step:
  assumes "request_deployment_tx lib cfg c token project release key runtime db = Inr (j, db')"
  shows "dep_step db db'" and "dep_frame db db'"
proof -
  have "dep_step db db' \<and> dep_frame db db'"
    using request_deployment_txD [OF assms]
  proof (elim disjE conjE exE)
    fix rows
    let ?js = "node_deployments db @ [j]" and ?refs = "deployment_refs db @ [(nd_id j, release)]"
    assume new: "db' = db\<lparr>node_deployments := ?js, deployment_refs := ?refs, audit_events := rows\<rparr>"
      and j: "nd_project j = project" "nd_key j = key" "nd_release j = release" "nd_state j = DepQueued" "nd_intent j = None"
        "nd_id j \<notin> nd_id ` set (node_deployments db)"
        "(project, key) \<notin> (\<lambda>j. (nd_project j, nd_key j)) ` set (node_deployments db)"
        "nd_revision j = depq.last_revision project (node_deployments db) + 1"
        "\<forall>q \<in> set (node_deployments db). nd_project q = project \<longrightarrow> \<not> dep_pending q"
        "nd_id j \<notin> fst ` set (deployment_refs db)"
        "\<exists>r \<in> set (node_releases db). rr_build r = release \<and> rl_ArtifactSHA256 (rr_metadata r) = nd_artifact j"
    have "dep_step db db'" by (rule DQueue [of _ _ j]) (use j in \<open>simp_all add: new\<close>)
    moreover have "dep_frame db db'"
      by (rule dep_frameI [where js = ?js and refs = ?refs and as = "active_deployments db" and rows = rows])
        (cases db; simp add: new)
    ultimately show ?thesis by blast
  qed (simp_all add: dep_quiet_refl dep_frame_refl)
  then show "dep_step db db'" and "dep_frame db db'" by simp_all
qed

lemma cancel_deployment_step:
  assumes "cancel_deployment_tx lib c token project ident db = Inr (r, db')"
  shows "dep_step db db'" and "dep_frame db db'"
proof -
  let ?f = "\<lambda>q. q\<lparr>nd_state := DepCancelled\<rparr>"
  obtain j where j: "List.find (\<lambda>j. nd_id j = ident \<and> nd_project j = project) (node_deployments db) = Some j"
    using assms by (auto simp: cancel_deployment_tx_def split: prod.splits)
  have "db' = db \<or> nd_state j = DepQueued \<and> (\<exists>rows. db' = (drop_ref ident (set_deployment ident ?f db))\<lparr>audit_events := rows\<rparr>)"
    using assms j by (auto simp: cancel_deployment_tx_def some_or_simps andThen_simps split: prod.splits if_splits dest!: auditD)
  then have "dep_step db db' \<and> dep_frame db db'"
  proof (elim disjE conjE exE)
    fix rows
    assume queued: "nd_state j = DepQueued" and new: "db' = (drop_ref ident (set_deployment ident ?f db))\<lparr>audit_events := rows\<rparr>"
    have "dep_step db db'"
      by (rule DDrop [of j db ?f])
        (use find_SomeD [OF j] queued in \<open>simp_all add: new drop_ref_def set_deployment_def dep_pending_def dep_keeps_def\<close>)
    moreover have "dep_frame db db'"
      by (rule dep_frameI [where js = "node_deployments db'" and refs = "deployment_refs db'" and as = "active_deployments db" and rows = rows])
        (cases db; simp add: new drop_ref_def set_deployment_def)
    ultimately show ?thesis by blast
  qed (simp_all add: dep_quiet_refl dep_frame_refl)
  then show "dep_step db db'" and "dep_frame db db'" by simp_all
qed

text \<open>
  The second half of \<open>ReconcileNodeDeployment\<close>: the verdict on an observation, then the
  transaction. The job is the row that the first half read; \<open>same_deployment\<close> is what no
  transaction changes of it in between (\<open>dep_step_same\<close> below).
\<close>

definition same_deployment :: "node_deployment \<Rightarrow> node_deployment \<Rightarrow> bool" where
  "same_deployment i j \<longleftrightarrow> nd_id i = nd_id j \<and> nd_project i = nd_project j \<and> nd_key i = nd_key j \<and> nd_revision i = nd_revision j
     \<and> nd_release i = nd_release j \<and> nd_artifact i = nd_artifact j \<and> nd_runtime i = nd_runtime j"

definition known_deployment :: "node_deployment \<Rightarrow> 'x node_db_scheme \<Rightarrow> bool" where
  "known_deployment i db \<longleftrightarrow> list_ex (same_deployment i) (node_deployments db)"

definition settle_deployment_tx ::
  "call \<Rightarrow> string \<Rightarrow> string \<Rightarrow> node_deployment \<Rightarrow> node_release \<Rightarrow> int \<Rightarrow> int \<Rightarrow> runtime_observation \<Rightarrow> 'x node_db_scheme
    \<Rightarrow> (bool \<times> 'x node_db_scheme) result" where
  "settle_deployment_tx c project ident job release started now ob db =
     andThen (observation_verdict job release started now ob) (\<lambda>success.
       reconcile_deployment_tx c project ident job success ob db)"

lemma observation_verdict_True:
  "observation_verdict j release started now ob = Inr True \<longleftrightarrow>
    ob_Settled ob \<and> matchesDeployment (Fence (ob_Routing ob)) j (nd_operation j) \<and> ob_ToolchainSHA256 ob = rl_ToolchainSHA256 release
    \<and> ob_Architecture ob = rl_Architecture release \<and> started \<le> ob_ObservedAt ob \<and> ob_ObservedAt ob \<le> now
    \<and> Status (ob_Routing ob) = ActiveRoute \<and> ob_Healthy ob \<and> Active (ob_Routing ob) = Some (Fence (ob_Routing ob))"
  by (auto simp: observation_verdict_def)

lemma observation_verdict_False:
  "observation_verdict j release started now ob = Inr False \<longleftrightarrow>
    ob_Settled ob \<and> matchesDeployment (Fence (ob_Routing ob)) j (nd_operation j) \<and> ob_ToolchainSHA256 ob = rl_ToolchainSHA256 release
    \<and> ob_Architecture ob = rl_Architecture release \<and> started \<le> ob_ObservedAt ob \<and> ob_ObservedAt ob \<le> now
    \<and> Status (ob_Routing ob) = FailedRoute \<and> ob_CandidateStopped ob"
  by (auto simp: observation_verdict_def)

text \<open>The update that settles a deployment.\<close>

definition settle_row :: "bool \<Rightarrow> runtime_observation \<Rightarrow> node_deployment \<Rightarrow> node_deployment" where
  "settle_row success ob q =
     q\<lparr>nd_state := (if success then DepSucceeded else DepFailed), nd_result := Some ob, nd_lease := [], nd_until := 0\<rparr>"

lemma settle_row_keeps: "dep_keeps (settle_row success ob)"
  by (simp add: dep_keeps_def settle_row_def)

lemma reconcile_deployment_txD:
  assumes "reconcile_deployment_tx c project ident job success ob db = Inr (r, db')"
  obtains (settled) "db' = db" and "\<not> r"
  | (failed) j rows where "j \<in> set (node_deployments db)" and "nd_id j = ident" and "nd_project j = project" and "nd_state j = DepRunning"
      and "nd_operation j = nd_operation job" and "\<not> success" and "r" and "route_preserved (activeNodeDeploymentID project db) ob db = Inr ()"
      and "db' = (set_deployment ident (settle_row False ob) (drop_ref ident db))\<lparr>audit_events := rows\<rparr>"
  | (live) j as rows where "j \<in> set (node_deployments db)" and "nd_id j = ident" and "nd_project j = project" and "nd_state j = DepRunning"
      and "nd_operation j = nd_operation job" and "success" and "r"
      and "set_active \<lparr>ac_project = project, ac_deployment = ident, ac_release = nd_release job\<rparr> (active_deployments db) = Inr as"
      and "db' = (set_deployment ident (settle_row True ob)
             (let db1 = db\<lparr>active_deployments := as\<rparr>; active = activeNodeDeploymentID project db
              in if active \<noteq> [] \<and> active \<noteq> ident then drop_ref active db1 else db1))\<lparr>audit_events := rows\<rparr>"
proof -
  obtain j where j: "List.find (\<lambda>j. nd_id j = ident \<and> nd_project j = project) (node_deployments db) = Some j"
    using assms by (auto simp: reconcile_deployment_tx_def)
  then have found: "j \<in> set (node_deployments db)" "nd_id j = ident" "nd_project j = project" by (auto dest: find_SomeD)
  show thesis
  proof (cases "nd_state j = DepSucceeded \<or> nd_state j = DepFailed")
    case True
    with assms j show ?thesis by (intro settled) (auto simp: reconcile_deployment_tx_def some_or_simps andThen_simps)
  next
    case False
    with assms j have run: "nd_state j = DepRunning" "nd_operation j = nd_operation job" "r"
      by (auto simp: reconcile_deployment_tx_def some_or_simps andThen_simps Let_def)
    show ?thesis
    proof (cases success)
      case True
      have row: "(\<lambda>q. q\<lparr>nd_state := DepSucceeded, nd_result := Some ob, nd_lease := [], nd_until := 0\<rparr>) = settle_row True ob"
        by (rule ext) (simp add: settle_row_def)
      let ?db1 = "\<lambda>as. let db1 = db\<lparr>active_deployments := as\<rparr>; active = activeNodeDeploymentID project db
          in if active \<noteq> [] \<and> active \<noteq> ident then drop_ref active db1 else db1"
      from assms j False True obtain as id' actor ws action now where
        as: "set_active \<lparr>ac_project = project, ac_deployment = ident, ac_release = nd_release job\<rparr> (active_deployments db) = Inr as"
        and aud: "audit id' actor ws action now (set_deployment ident (settle_row True ob) (?db1 as)) = Inr db'"
        by (auto simp: reconcile_deployment_tx_def some_or_simps andThen_simps row Let_def)
      from auditD [OF aud] obtain rows where
        "db' = (set_deployment ident (settle_row True ob) (?db1 as))\<lparr>audit_events := rows\<rparr>" by blast
      then show ?thesis by (rule live [OF found run(1,2) True run(3) as])
    next
      case no: False
      have row: "(\<lambda>q. q\<lparr>nd_state := DepFailed, nd_result := Some ob, nd_lease := [], nd_until := 0\<rparr>) = settle_row False ob"
        by (rule ext) (simp add: settle_row_def)
      from assms j False no obtain id' actor ws action now where
        pres: "route_preserved (activeNodeDeploymentID project db) ob db = Inr ()"
        and aud: "audit id' actor ws action now (set_deployment ident (settle_row False ob) (drop_ref ident db)) = Inr db'"
        by (auto simp: reconcile_deployment_tx_def some_or_simps andThen_simps row Let_def)
      from auditD [OF aud] obtain rows where
        "db' = (set_deployment ident (settle_row False ob) (drop_ref ident db))\<lparr>audit_events := rows\<rparr>" by blast
      then show ?thesis by (rule failed [OF found run(1,2) no run(3) pres])
    qed
  qed
qed

lemma drop_ref_simps [simp]:
  "node_deployments (drop_ref k db) = node_deployments db" "active_deployments (drop_ref k db) = active_deployments db"
  "node_releases (drop_ref k db) = node_releases db"
  "deployment_refs (drop_ref k db) = filter (\<lambda>r. fst r \<noteq> k) (deployment_refs db)"
  by (simp_all add: drop_ref_def)

lemma set_deployment_simps [simp]:
  "node_deployments (set_deployment k f db) = upd_row nd_id k f (node_deployments db)"
  "active_deployments (set_deployment k f db) = active_deployments db"
  "node_releases (set_deployment k f db) = node_releases db" "deployment_refs (set_deployment k f db) = deployment_refs db"
  by (simp_all add: set_deployment_def)

lemma reconcile_deployment_frame:
  assumes "reconcile_deployment_tx c project ident job success ob db = Inr (r, db')"
  shows "dep_frame db db'"
  using assms
proof (cases rule: reconcile_deployment_txD)
  case (failed j rows)
  show ?thesis
    by (rule dep_frameI [where js = "node_deployments db'" and refs = "deployment_refs db'" and as = "active_deployments db" and rows = rows])
      (cases db; simp add: failed(9) set_deployment_def drop_ref_def)
next
  case (live j as rows)
  show ?thesis
    by (rule dep_frameI [where js = "node_deployments db'" and refs = "deployment_refs db'" and as = as and rows = rows])
      (cases db; simp add: live(9) set_deployment_def drop_ref_def Let_def)
qed (simp add: dep_frame_refl)

text \<open>The row that now has the id of a known deployment is that deployment.\<close>

lemma known_same:
  assumes inv: "dep_inv db" and known: "known_deployment job db" "nd_id job = ident"
    and j: "j \<in> set (node_deployments db)" "nd_id j = ident"
  shows "same_deployment job j"
proof -
  obtain q where q: "q \<in> set (node_deployments db)" "same_deployment job q"
    using known(1) by (auto simp: known_deployment_def list_ex_iff)
  with known(2) j(2) have "q = j"
    by (intro depq.table_unique [OF dep_inv_table [OF inv] q(1) j(1)]) (simp add: same_deployment_def)
  with q(2) show ?thesis by simp
qed

lemma settle_deployment_step:
  assumes "settle_deployment_tx c project ident job release started now ob db = Inr (r, db')"
    and inv: "dep_inv db" and known: "known_deployment job db" "nd_id job = ident" "nd_operation job \<noteq> []"
  shows "dep_step db db'"
proof -
  obtain success where verdict: "observation_verdict job release started now ob = Inr success"
    and tx: "reconcile_deployment_tx c project ident job success ob db = Inr (r, db')"
    using assms(1) by (auto simp: settle_deployment_tx_def)
  note same = known_same [OF inv known(1,2)]
  from tx show ?thesis
  proof (cases rule: reconcile_deployment_txD)
    case settled
    then show ?thesis by (simp add: dep_quiet_refl)
  next
    case (failed j rows)
    show ?thesis by (rule DDrop [of j db "settle_row False ob"])
      (use failed(1-8) settle_row_keeps in \<open>simp_all add: failed(9) settle_row_def dep_pending_def\<close>)
  next
    case (live j as rows)
    from same [OF live(1,2)] have id: "nd_release job = nd_release j" "nd_project j = project" "same_deployment job j"
      using live(3) by (simp_all add: same_deployment_def)
    have "live_result (settle_row True ob j)"
      using verdict [unfolded eqTrueI [OF live(6)] observation_verdict_True] id(3) live(5) known(3)
      by (simp add: live_result_def settle_row_def matchesDeployment_def same_deployment_def)
    then show ?thesis
      by (intro DActivate [of j db "settle_row True ob"])
        (use live(1-8) settle_row_keeps id in \<open>simp_all add: live(9) settle_row_def dep_pending_def Let_def\<close>)
  qed
qed

lemma settle_deployment_frame:
  "settle_deployment_tx c project ident job release started now ob db = Inr (r, db') \<Longrightarrow> dep_frame db db'"
  by (auto simp: settle_deployment_tx_def dest: reconcile_deployment_frame)

lemma same_update: "dep_keeps f \<Longrightarrow> list_ex (same_deployment i) js \<Longrightarrow> list_ex (same_deployment i) (upd_row nd_id k f js)"
  by (induction js) (auto simp: same_deployment_def dep_keeps_def)

lemma dep_step_same:
  assumes "dep_step db db'" and "known_deployment i db"
  shows "known_deployment i db'"
  using assms by cases (auto simp: known_deployment_def same_update)

end
