(* ===== verification/Portal_System.thy ===== *)
theory Portal_System
  imports Deploy_Safety
begin

text \<open>
  The store as a whole: one family of the modelled transactions for accounts, hosting, uploads, publications, builds,
  releases and deployments, and every history of them. Left out are the deletion of projects and the imports and jobs of the
  source hosting integration.
\<close>

section \<open>Frames of the publication transactions\<close>

lemma audit_frame:
  "audit ident actor ws action now db = Inr db' \<Longrightarrow> publish_db.more db' = publish_db.more db \<and> node_builds db' = node_builds db"
  by (auto dest: auditD)

lemma request_publication_frame:
  assumes "request_publication_tx lib cfg c token project upload key db = Inr (j, db')"
  shows "publish_db.more db' = publish_db.more db \<and> node_builds db' = node_builds db"
proof -
  from request_publication_txD [OF assms] obtain p actor where
    p: "requestPublicationTx cfg c p actor upload key db = Inr (j, db')" by blast
  show ?thesis
  proof (cases "get_row (\<lambda>j. (pj_project j, pj_key j)) (p_id p, key) (publication_jobs db)")
    case (Some e)
    with p show ?thesis by (auto simp: requestPublicationTx_def andThen_simps split: if_splits)
  next
    case None
    with p show ?thesis by (auto simp: requestPublicationTx_def Let_def insert_job_Inr dest!: audit_frame)
  qed
qed

lemma portal_body_frame:
  assumes "portal_body lib cfg c t db = Inr (r, db')"
  shows "publish_db.more db' = publish_db.more db \<and> node_builds db' = node_builds db"
proof (cases t)
  case (PAccount a)
  with assms have "accounts_db.more db' = accounts_db.more db" by (auto dest: acct_body_more)
  then show ?thesis by (cases db; cases db') simp
next
  case (PPolicy workspace required)
  with assms show ?thesis by (auto simp: configure_policy_tx_def Let_def dest!: audit_frame)
next
  case (PSaveUpload token project data m)
  with assms show ?thesis by (auto simp: save_upload_tx_def Let_def insert_row_Inr dest!: audit_frame split: prod.splits)
next
  case (PCreateProject token workspace name kind)
  with assms show ?thesis
    by (auto simp: create_project_tx_def capacityAvailable_def Let_def insert_row_Inr dest!: audit_frame split: if_splits)
next
  case (PRename token project name)
  with assms show ?thesis by (auto simp: rename_project_tx_def dest!: audit_frame split: prod.splits if_splits)
next
  case (PDeleteUpload token project ident)
  with assms show ?thesis by (auto simp: delete_upload_tx_def Let_def dest!: audit_frame split: prod.splits)
next
  case (PRequest token project upload key)
  with assms show ?thesis by (auto dest: request_publication_frame)
next
  case (PClaim project)
  with assms obtain v where "claim_publication_tx lib cfg c project db = Inr (v, db')" by auto
  from claim_publication_txD [OF this] show ?thesis by (auto simp: set_job_def)
next
  case (PFinish job lease observed success)
  with assms show ?thesis by (auto simp: finish_publication_tx_def set_job_def Let_def dest!: audit_frame)
next
  case (PResume token project job upload)
  with assms show ?thesis
    by (auto simp: resume_publication_tx_def set_job_def dest!: audit_frame split: prod.splits if_splits)
qed

lemma portal_sources:
  assumes "portal_body lib cfg c t db = Inr (r, db')" and "b \<in> set (node_builds db)" and "has_source db b"
  shows "has_source db' b"
proof (cases t)
  case (PDeleteUpload token project ident)
  then have d: "delete_upload_tx lib c token project ident db = Inr (r, db')" using assms(1) by simp
  then have free: "\<not> (nb_upload b = ident \<and> nb_project b = project)"
    using assms(2) by (auto simp: delete_upload_tx_def filter_empty_conv split: prod.splits)
  from delete_upload_txD [OF d] have
    "uploads db' = filter (\<lambda>u. \<not> (up_id u = ident \<and> up_project u = project)) (uploads db)" by blast
  with free assms(3) show ?thesis by (auto simp: has_source_def)
next
  case (PSaveUpload token project data m)
  with assms(1) obtain u where "save_upload_tx lib cfg c token project data m db = Inr (u, db')" by auto
  from save_upload_txD [OF this] have "uploads db' = uploads db @ [u]" by blast
  with assms(3) show ?thesis by (auto simp: has_source_def)
next
  case (PAccount a)
  with assms(1) have "acct_body lib c a db = Inr (r, db')" by simp
  from acct_body_tables [OF this] have "uploads db' = uploads db" by blast
  with assms(3) show ?thesis by (simp add: has_source_def)
next
  case (PPolicy workspace required)
  with assms(1) have "configure_policy_tx c workspace required db = Inr (r, db')" by simp
  from configure_policy_txD [OF this] have "uploads db' = uploads db" by blast
  with assms(3) show ?thesis by (simp add: has_source_def)
next
  case (PCreateProject token workspace name kind)
  with assms(1) obtain p where "create_project_tx lib cfg c token workspace name kind db = Inr (p, db')" by auto
  from create_project_txD [OF this] have "uploads db' = uploads db" by blast
  with assms(3) show ?thesis by (simp add: has_source_def)
next
  case (PRename token project name)
  with assms(1) obtain p where "rename_project_tx lib c token project name db = Inr (p, db')" by auto
  from rename_project_txD [OF this] have "uploads db' = uploads db" by blast
  with assms(3) show ?thesis by (simp add: has_source_def)
next
  case (PRequest token project upload key)
  with assms(1) obtain j where "request_publication_tx lib cfg c token project upload key db = Inr (j, db')" by auto
  with request_publication_txD [OF this] obtain p actor where
    "requestPublicationTx cfg c p actor upload key db = Inr (j, db')" by blast
  from requestPublicationTxD [OF this] have "uploads db' = uploads db" by auto
  with assms(3) show ?thesis by (simp add: has_source_def)
next
  case (PClaim project)
  with assms(1) obtain v where "claim_publication_tx lib cfg c project db = Inr (v, db')" by auto
  from claim_publication_txD [OF this] have "uploads db' = uploads db" by (auto simp: set_job_tables)
  with assms(3) show ?thesis by (simp add: has_source_def)
next
  case (PFinish job lease observed success)
  with assms(1) have "finish_publication_tx lib c job lease observed success db = Inr (r, db')" by simp
  from finish_publication_txD [OF this] have "uploads db' = uploads db" by blast
  with assms(3) show ?thesis by (simp add: has_source_def)
next
  case (PResume token project job upload)
  with assms(1) obtain v where "resume_publication_tx lib c token project job upload db = Inr (v, db')" by auto
  from resume_publication_txD [OF this] have "uploads db' = uploads db" by auto
  with assms(3) show ?thesis by (simp add: has_source_def)
qed

lemma node_more:
  assumes "publish_db.more db' = publish_db.more (db :: 'x node_db_scheme)"
  shows "node_releases db' = node_releases db" "node_deployments db' = node_deployments db"
    "deployment_refs db' = deployment_refs db" "active_deployments db' = active_deployments db"
  using assms by (cases db; cases db'; simp)+

lemma portal_node_steps:
  assumes "portal_body lib cfg c t db = Inr (r, db')"
  shows "build_step db db'" and "dep_step db db'"
proof -
  note frame = portal_body_frame [OF assms]
  note same = node_more [OF conjunct1 [OF frame]]
  show "build_step db db'"
    by (rule BQuiet) (use frame same portal_sources [OF assms] in auto)
  show "dep_step db db'"
    by (rule DQuiet) (use same in auto)
qed

section \<open>The family of transactions\<close>

text \<open>
  The second half of \<open>RetainNodeRelease\<close>: the observation and the archive are checked, then the
  transaction runs.
\<close>

definition retain_artifact_tx ::
  "build_lib \<Rightarrow> call \<Rightarrow> string \<Rightarrow> string \<Rightarrow> node_build \<Rightarrow> execution_request \<Rightarrow> int \<Rightarrow> int \<Rightarrow> artifact_observation \<Rightarrow> string
    \<Rightarrow> 'x node_db_scheme \<Rightarrow> (node_release option \<times> 'x node_db_scheme) result" where
  "retain_artifact_tx bl c project ident job request started now ob archive db =
     andThen (guard ErrBuildConflict (artifact_matches job request started now ob)) (\<lambda>_.
     andThen (bl_artifact bl archive (eo_ArtifactSHA256 ob)) (\<lambda>m.
       retain_tx c project ident job ob archive m db))"

definition same_build :: "node_build \<Rightarrow> node_build \<Rightarrow> bool" where
  "same_build i b \<longleftrightarrow> nb_id i = nb_id b \<and> nb_project i = nb_project b \<and> nb_plan i = nb_plan b \<and> nb_toolchain i = nb_toolchain b"

definition known_build :: "node_build \<Rightarrow> 'x publish_db_scheme \<Rightarrow> bool" where
  "known_build i db \<longleftrightarrow> list_ex (same_build i) (node_builds db)"

text \<open>
  \<open>SBuildRetain\<close> and \<open>SDeploySettle\<close> carry the job that an earlier transaction of the same
  call read; the guard is what that read gives (\<open>retainNodeRelease\<close> and
  \<open>reconcileNodeDeployment\<close> below never fail it).
\<close>

datatype sys_tx =
    SPortal portal_tx
  | SBuildRequest string string string string build_settings string
  | SBuildCancel string string string
  | SBuildClaim string string string
  | SBuildRenew string string string
  | SBuildBind string string string npm_bundle
  | SBuildDispatch string string string npm_bundle
  | SBuildExpire string string string
  | SBuildFail string string string execution_observation
  | SBuildRetain string string node_build execution_request int int artifact_observation string
  | SReleaseDelete string string string
  | SDeployRequest string string string string string
  | SDeployCancel string string string
  | SDeployClaim string string string string
  | SDeployRenew string string string
  | SDeployDispatch string string string
  | SDeploySettle string string node_deployment node_release int int runtime_observation

fun sys_body ::
  "portal_lib \<Rightarrow> build_lib \<Rightarrow> store_config \<Rightarrow> call \<Rightarrow> sys_tx \<Rightarrow> 'x node_db_scheme \<Rightarrow> (unit \<times> 'x node_db_scheme) result" where
  "sys_body lib bl cfg c (SPortal t) db = portal_body lib cfg c t db"
| "sys_body lib bl cfg c (SBuildRequest token project upload key settings toolchain) db =
     drop_value (request_build_tx lib bl cfg c token project upload key settings toolchain db)"
| "sys_body lib bl cfg c (SBuildCancel token project ident) db = cancel_build_tx lib c token project ident db"
| "sys_body lib bl cfg c (SBuildClaim project toolchain architecture) db =
     drop_value (claim_build_tx lib bl cfg c project toolchain architecture db)"
| "sys_body lib bl cfg c (SBuildRenew ident execution lease) db = drop_value (renew_build_tx lib c ident execution lease db)"
| "sys_body lib bl cfg c (SBuildBind ident execution lease bundle) db = bind_bundle_tx lib c ident execution lease bundle db"
| "sys_body lib bl cfg c (SBuildDispatch ident execution lease bundle) db =
     drop_value (dispatch_build_tx lib cfg c ident execution lease bundle db)"
| "sys_body lib bl cfg c (SBuildExpire project ident execution) db = drop_value (fail_unsubmitted_tx c project ident execution db)"
| "sys_body lib bl cfg c (SBuildFail project ident execution ob) db =
     drop_value (reconcile_failure_tx c project ident execution ob db)"
| "sys_body lib bl cfg c (SBuildRetain project ident job request started now ob archive) db =
     andThen (guard ErrBuildConflict (known_build job db \<and> nb_id job = ident)) (\<lambda>_.
       drop_value (retain_artifact_tx bl c project ident job request started now ob archive db))"
| "sys_body lib bl cfg c (SReleaseDelete token project ident) db = delete_release_tx lib c token project ident db"
| "sys_body lib bl cfg c (SDeployRequest token project release key runtime) db =
     drop_value (request_deployment_tx lib cfg c token project release key runtime db)"
| "sys_body lib bl cfg c (SDeployCancel token project ident) db = cancel_deployment_tx lib c token project ident db"
| "sys_body lib bl cfg c (SDeployClaim project runtime toolchain architecture) db =
     drop_value (claim_deployment_tx lib bl cfg c project runtime toolchain architecture db)"
| "sys_body lib bl cfg c (SDeployRenew ident operation lease) db = drop_value (renew_deployment_tx lib c ident operation lease db)"
| "sys_body lib bl cfg c (SDeployDispatch ident operation lease) db =
     drop_value (dispatch_deployment_tx lib bl cfg c ident operation lease db)"
| "sys_body lib bl cfg c (SDeploySettle project ident job release started now ob) db =
     andThen (guard Portal_ErrConflict (known_deployment job db \<and> nd_id job = ident \<and> nd_operation job \<noteq> [])) (\<lambda>_.
       drop_value (settle_deployment_tx c project ident job release started now ob db))"

definition sys_exec ::
  "portal_lib \<Rightarrow> build_lib \<Rightarrow> store_config \<Rightarrow> call \<times> sys_tx \<Rightarrow> 'x node_db_scheme \<Rightarrow> unit result \<times> 'x node_db_scheme" where
  "sys_exec lib bl cfg i db = in_tx (cl_drv (fst i)) (sys_body lib bl cfg (fst i) (snd i)) db"

text \<open>What a committed transaction is to each of the three queues and to the quotas.\<close>

definition sys_step :: "store_config \<Rightarrow> 'x node_db_scheme \<Rightarrow> 'x node_db_scheme \<Rightarrow> bool" where
  "sys_step cfg db db' \<longleftrightarrow>
     publish_step db db' \<and> build_step db db' \<and> dep_step db db' \<and> (quota_inv cfg db \<longrightarrow> quota_inv cfg db')"

lemma sys_step_refl: "sys_step cfg db db"
  by (simp add: sys_step_def publish_step_refl dep_quiet_refl BQuiet)

lemma build_move_sys:
  assumes "build_move db db'"
  shows "sys_step cfg db db'"
proof -
  obtain b f rows where b: "b \<in> set (node_builds db)" "build_pending b" "build_keeps f" "nb_state (f b) \<noteq> BuildSucceeded"
    "nb_intent b = None \<or> nb_intent (f b) = nb_intent b" and new: "db' = (set_build (nb_id b) f db)\<lparr>audit_events := rows\<rparr>"
    using assms unfolding build_move_def by blast
  have "build_step db db'" by (rule BMove [of b db f]) (use b in \<open>simp_all add: new set_build_def\<close>)
  moreover have "publish_step db db'" by (rule quiet_tables) (simp_all add: new set_build_def)
  moreover have "dep_step db db'" by (rule DQuiet) (simp_all add: new set_build_def)
  moreover have "quota_inv cfg db \<Longrightarrow> quota_inv cfg db'" by (erule quota_tables) (simp_all add: new set_build_def)
  ultimately show ?thesis by (simp add: sys_step_def)
qed

lemma dep_frame_sys:
  assumes "dep_frame db db'" and "dep_step db db'"
  shows "sys_step cfg db db'"
proof -
  obtain js refs as rows where
    new: "db' = db\<lparr>node_deployments := js, deployment_refs := refs, active_deployments := as, audit_events := rows\<rparr>"
    using assms(1) unfolding dep_frame_def by blast
  have "build_step db db'" by (rule BQuiet) (simp_all add: new has_source_def)
  moreover have "publish_step db db'" by (rule quiet_tables) (simp_all add: new)
  moreover have "quota_inv cfg db \<Longrightarrow> quota_inv cfg db'" by (erule quota_tables) (simp_all add: new)
  ultimately show ?thesis using assms(2) by (simp add: sys_step_def)
qed

lemma request_build_sys:
  assumes "request_build_tx lib bl cfg c token project upload key settings toolchain db = Inr (b, db')"
  shows "sys_step cfg db (db' :: 'x node_db_scheme)"
  using request_build_txD [OF assms]
proof (elim disjE conjE exE)
  assume "db' = db"
  then show ?thesis by (simp add: sys_step_refl)
next
  fix rows
  assume new: "db' = db\<lparr>node_builds := node_builds db @ [b], audit_events := rows\<rparr>"
    and b: "nb_project b = project" "nb_key b = key" "nb_state b = BuildQueued" "nb_execution b = []" "nb_intent b = None"
      "nb_id b \<notin> nb_id ` set (node_builds db)" "(project, key) \<notin> (\<lambda>b. (nb_project b, nb_key b)) ` set (node_builds db)"
      "\<forall>q \<in> set (node_builds db). nb_project q = project \<longrightarrow> \<not> build_pending q"
      "length (project_builds project db) < 100" "has_source db b"
  have "build_step db db'" by (rule BQueue [of _ _ b]) (use b in \<open>simp_all add: new\<close>)
  moreover have "publish_step db db'" by (rule quiet_tables) (simp_all add: new)
  moreover have "dep_step db db'" by (rule DQuiet) (simp_all add: new)
  moreover have "quota_inv cfg db \<Longrightarrow> quota_inv cfg db'" by (erule quota_tables) (simp_all add: new)
  ultimately show ?thesis by (simp add: sys_step_def)
qed

lemma retain_sys:
  assumes "retain_tx c project ident job ob archive m db = Inr (r, db')"
  shows "sys_step cfg db db'"
  using retain_txD [OF assms]
proof (elim disjE conjE exE)
  assume "db' = db"
  then show ?thesis by (simp add: sys_step_refl)
next
  assume "build_move db db'"
  then show ?thesis by (rule build_move_sys)
next
  fix b f row rows
  assume new: "db' = (set_build ident f db)\<lparr>node_releases := node_releases db @ [row], audit_events := rows\<rparr>"
    and b: "b \<in> set (node_builds db)" "nb_state b = BuildRunning" "nb_id b = ident" "nb_project b = project" "build_keeps f"
      "nb_state (f b) = BuildSucceeded" "nb_execution (f b) = nb_execution b" "nb_intent (f b) = nb_intent b"
      "release_of b row" "ident \<notin> rr_build ` set (node_releases db)" "length (project_releases project db) < 10"
  have "build_step db db'"
    by (rule BRetain [of b db f _ row]) (use b in \<open>simp_all add: new set_build_def release_of_def\<close>)
  moreover have "publish_step db db'" by (rule quiet_tables) (simp_all add: new set_build_def)
  moreover have "dep_step db db'" by (rule DQuiet) (simp_all add: new set_build_def)
  moreover have "quota_inv cfg db \<Longrightarrow> quota_inv cfg db'" by (erule quota_tables) (simp_all add: new set_build_def)
  ultimately show ?thesis by (simp add: sys_step_def)
qed

lemma delete_release_sys:
  assumes "delete_release_tx lib c token project ident db = Inr (r, db')"
  shows "sys_step cfg db db'"
  using delete_release_txD [OF assms]
proof (elim disjE conjE exE)
  assume "db' = db"
  then show ?thesis by (simp add: sys_step_refl)
next
  fix rows
  assume new: "db' = db\<lparr>node_releases := filter (\<lambda>r. rr_build r \<noteq> ident) (node_releases db), audit_events := rows\<rparr>"
    and free: "ident \<notin> snd ` set (deployment_refs db)"
  have "build_step db db'" by (rule BDrop [where k = ident]) (simp_all add: new)
  moreover have "publish_step db db'" by (rule quiet_tables) (simp_all add: new)
  moreover have "dep_step db db'" by (rule DQuiet) (use free in \<open>auto simp: new\<close>)
  moreover have "quota_inv cfg db \<Longrightarrow> quota_inv cfg db'" by (erule quota_tables) (simp_all add: new)
  ultimately show ?thesis by (simp add: sys_step_def)
qed

lemma portal_sys:
  assumes "portal_body lib cfg c t db = Inr (r, db')"
  shows "sys_step cfg db db'"
  using portal_body_step [OF assms] portal_node_steps [OF assms] portal_body_quota [OF assms] by (simp add: sys_step_def)

lemma dep_move_sys: "dep_move db db' \<Longrightarrow> sys_step cfg db db'"
  by (intro dep_frame_sys dep_move_frame dep_move_step)

lemma sys_body_step:
  assumes "sys_body lib bl cfg c t db = Inr (r, db')" and inv: "dep_inv db"
  shows "sys_step cfg db db'"
proof (cases t)
  case (SPortal p)
  with assms(1) show ?thesis by (auto dest: portal_sys)
next
  case (SBuildRequest token project upload key settings toolchain)
  with assms(1) show ?thesis by (auto dest: request_build_sys)
next
  case (SBuildCancel token project ident)
  with assms(1) show ?thesis by (auto dest!: cancel_build_move intro: sys_step_refl build_move_sys)
next
  case (SBuildClaim project toolchain architecture)
  with assms(1) show ?thesis by (auto dest!: claim_build_move intro: sys_step_refl build_move_sys)
next
  case (SBuildRenew ident execution lease)
  with assms(1) show ?thesis by (auto dest!: renew_build_move intro: build_move_sys)
next
  case (SBuildBind ident execution lease b)
  with assms(1) show ?thesis by (auto dest!: bind_bundle_move intro: sys_step_refl build_move_sys)
next
  case (SBuildDispatch ident execution lease b)
  with assms(1) obtain v where "dispatch_build_tx lib cfg c ident execution lease b db = Inr (v, db')" by auto
  then show ?thesis by (intro build_move_sys dispatch_build_move)
next
  case (SBuildExpire project ident execution)
  with assms(1) show ?thesis by (auto dest!: fail_unsubmitted_move intro: sys_step_refl build_move_sys)
next
  case (SBuildFail project ident execution ob)
  with assms(1) show ?thesis by (auto dest!: reconcile_failure_move intro: build_move_sys)
next
  case (SBuildRetain project ident job request started now ob archive)
  with assms(1) show ?thesis by (auto simp: retain_artifact_tx_def intro: retain_sys)
next
  case (SReleaseDelete token project ident)
  with assms(1) show ?thesis by (auto dest: delete_release_sys)
next
  case (SDeployRequest token project release key runtime)
  with assms(1) show ?thesis by (auto intro: dep_frame_sys request_deployment_step)
next
  case (SDeployCancel token project ident)
  with assms(1) show ?thesis by (auto intro: dep_frame_sys cancel_deployment_step)
next
  case (SDeployClaim project runtime toolchain architecture)
  with assms(1) show ?thesis by (auto dest!: claim_deployment_move intro: sys_step_refl dep_move_sys)
next
  case (SDeployRenew ident operation lease)
  with assms(1) show ?thesis by (auto dest!: renew_deployment_move intro: dep_move_sys)
next
  case (SDeployDispatch ident operation lease)
  with assms(1) obtain v where "dispatch_deployment_tx lib bl cfg c ident operation lease db = Inr (v, db')" by auto
  then show ?thesis by (intro dep_move_sys dispatch_deployment_move [OF _ inv])
next
  case (SDeploySettle project ident job release started now ob)
  with assms(1) show ?thesis by (auto intro: dep_frame_sys settle_deployment_frame settle_deployment_step [OF _ inv])
qed

section \<open>Every history of the store\<close>

definition sys_inv :: "'x node_db_scheme \<Rightarrow> bool" where
  "sys_inv db \<longleftrightarrow> publish_inv db \<and> build_inv db \<and> dep_inv db"

lemma sys_step_inv: "sys_step cfg db db' \<Longrightarrow> sys_inv db \<Longrightarrow> sys_inv db'"
  by (auto simp: sys_step_def sys_inv_def intro: publish_step_inv build_step_inv dep_step_inv)

lemma sys_exec_step: "sys_inv db \<Longrightarrow> sys_step cfg db (snd (sys_exec lib bl cfg i db))"
  unfolding sys_exec_def
  by (rule in_tx_invariant [where P = "sys_step cfg db"]) (auto simp: sys_inv_def intro: sys_step_refl sys_body_step)

interpretation store: transactional "sys_exec lib bl cfg" "\<lambda>db. sys_inv db \<and> quota_inv cfg db" for lib bl cfg
proof
  fix i e and db :: "'x node_db_scheme"
  assume "sys_inv db \<and> quota_inv cfg db"
  with sys_exec_step [of db cfg lib bl i] sys_step_inv show
    "sys_inv (snd (sys_exec lib bl cfg i db)) \<and> quota_inv cfg (snd (sys_exec lib bl cfg i db))" by (auto simp: sys_step_def)
next
  fix i e and db :: "'x node_db_scheme"
  show "fst (sys_exec lib bl cfg i db) = Inl e \<Longrightarrow> snd (sys_exec lib bl cfg i db) = db"
    unfolding sys_exec_def by (rule in_tx_error)
qed

lemma sys_keeps:
  assumes "\<And>db db'. sys_step cfg db db' \<Longrightarrow> sys_inv db \<Longrightarrow> P db \<Longrightarrow> P db'" and "sys_inv db \<and> P db"
  shows "sys_inv (snd (sys_exec lib bl cfg i db)) \<and> P (snd (sys_exec lib bl cfg i db))"
proof -
  have "sys_step cfg db (snd (sys_exec lib bl cfg i db))" using assms(2) by (intro sys_exec_step) simp
  with assms sys_step_inv show ?thesis by blast
qed

text \<open>A history from the empty store.\<close>

definition empty_node :: node_db where
  "empty_node =
     \<lparr>users = [], workspaces = [], memberships = [], sessions = [], account_tokens = [], invitations = [], mail_outbox = [],
      audit_events = [], hosting_policies = [], billing_subscriptions = [], billing_checkouts = [], billing_customers = [],
      billing_charges = [], projects = [], uploads = [], publication_jobs = [], publications = [], github_pipelines = [],
      github_events = [], github_connections = [], node_builds = [], node_releases = [], node_deployments = [],
      deployment_refs = [], active_deployments = []\<rparr>"

lemma empty_sys_inv: "sys_inv empty_node"
  by (simp add: sys_inv_def empty_node_def publish_inv_def build_inv_def dep_inv_def pubq.ordered_ok_def depq.ordered_ok_def
      pubq.empty_ok bldq.empty_ok depq.empty_ok live_jobs_ok_def refs_ok_def actives_ok_def project_builds_def project_releases_def)

lemma run_sys_inv: "sys_inv db \<Longrightarrow> sys_inv (run_ops (sys_exec lib bl cfg) is db)"
  by (rule run_ops_preserves [where P = sys_inv]) (auto intro: sys_step_inv sys_exec_step)

lemmas history_inv = run_sys_inv [OF empty_sys_inv]

section \<open>Latches\<close>

fun finishes :: "string \<Rightarrow> call \<times> sys_tx \<Rightarrow> bool" where
  "finishes k (c, SPortal (PFinish job lease observed success)) = (job = k)"
| "finishes k i = False"

fun dispatches_build :: "string \<Rightarrow> call \<times> sys_tx \<Rightarrow> bool" where
  "dispatches_build k (c, SBuildDispatch ident execution lease b) = (ident = k)"
| "dispatches_build k i = False"

fun dispatches_deployment :: "string \<Rightarrow> call \<times> sys_tx \<Rightarrow> bool" where
  "dispatches_deployment k (c, SDeployDispatch ident operation lease) = (ident = k)"
| "dispatches_deployment k i = False"

lemma sys_exec_fails: "\<nexists>r db'. sys_body lib bl cfg c t db = Inr (r, db') \<Longrightarrow> \<exists>e. fst (sys_exec lib bl cfg (c, t) db) = Inl e"
  unfolding sys_exec_def by (rule in_tx_fails) simp

interpretation finished: latch "sys_exec lib bl cfg" "\<lambda>k db. sys_inv db \<and> pubq.settled k (publication_jobs db)" finishes for lib bl cfg
proof
  fix k i and db :: "'x node_db_scheme"
  assume l: "sys_inv db \<and> pubq.settled k (publication_jobs db)"
  then show "sys_inv (snd (sys_exec lib bl cfg i db)) \<and> pubq.settled k (publication_jobs (snd (sys_exec lib bl cfg i db)))"
    by (rule sys_keeps [rotated]) (auto simp: sys_step_def sys_inv_def intro: publish_step_done)
  assume "finishes k i"
  then obtain c lease observed success where i: "i = (c, SPortal (PFinish k lease observed success))"
    by (elim finishes.elims) auto
  from l have "\<nexists>r db'. sys_body lib bl cfg c (SPortal (PFinish k lease observed success)) db = Inr (r, db')"
    using finish_done [of k db] by (simp add: sys_inv_def)
  then show "\<exists>e. fst (sys_exec lib bl cfg i db) = Inl e" unfolding i by (rule sys_exec_fails)
qed

lemma dispatched_build_blocked:
  assumes "build_inv db" and "build_dispatched k db"
  shows "\<nexists>r db'. dispatch_build_tx lib cfg c k execution lease b db = Inr (r, db')"
proof
  assume "\<exists>r db'. dispatch_build_tx lib cfg c k execution lease b db = Inr (r, db')"
  then obtain request archive db' where "dispatch_build_tx lib cfg c k execution lease b db = Inr ((request, archive), db')" by auto
  from dispatch_build_txD [OF this] obtain q where
    q: "leasedNodeBuild lib (cl_now c 0) k execution lease db = Inr q" "nb_intent q = None" by blast
  obtain p where p: "p \<in> set (node_builds db)" "nb_id p = k" "nb_intent p \<noteq> None" using assms(2) by (auto simp: build_dispatched_def)
  from leasedNodeBuildD [OF q(1)] have "q \<in> set (node_builds db)" "nb_id q = k" by auto
  with p q(2) bldq.table_unique [OF build_inv_table [OF assms(1)] p(1), of q] show False by simp
qed

lemma dispatched_deployment_blocked:
  assumes "dep_inv db" and "dep_dispatched k db"
  shows "\<nexists>r db'. dispatch_deployment_tx lib bl cfg c k operation lease db = Inr (r, db')"
proof
  assume "\<exists>r db'. dispatch_deployment_tx lib bl cfg c k operation lease db = Inr (r, db')"
  then obtain request archive db' where "dispatch_deployment_tx lib bl cfg c k operation lease db = Inr ((request, archive), db')" by auto
  from dispatch_deployment_txD [OF this assms(1)] obtain q where
    q: "q \<in> set (node_deployments db)" "nd_id q = k" "nd_intent q = None" by blast
  obtain p where p: "p \<in> set (node_deployments db)" "nd_id p = k" "nd_intent p \<noteq> None" using assms(2) by (auto simp: dep_dispatched_def)
  with q p depq.table_unique [OF dep_inv_table [OF assms(1)] p(1) q(1)] show False by simp
qed

interpretation built: latch "sys_exec lib bl cfg" "\<lambda>k db. sys_inv db \<and> build_dispatched k db" dispatches_build for lib bl cfg
proof
  fix k i and db :: "'x node_db_scheme"
  assume l: "sys_inv db \<and> build_dispatched k db"
  then show "sys_inv (snd (sys_exec lib bl cfg i db)) \<and> build_dispatched k (snd (sys_exec lib bl cfg i db))"
    by (rule sys_keeps [rotated]) (auto simp: sys_step_def sys_inv_def intro: build_step_dispatched)
  assume "dispatches_build k i"
  then obtain c execution lease b where i: "i = (c, SBuildDispatch k execution lease b)" by (elim dispatches_build.elims) auto
  from l have "\<nexists>r db'. sys_body lib bl cfg c (SBuildDispatch k execution lease b) db = Inr (r, db')"
    using dispatched_build_blocked [of db k] by (auto simp: sys_inv_def)
  then show "\<exists>e. fst (sys_exec lib bl cfg i db) = Inl e" unfolding i by (rule sys_exec_fails)
qed

interpretation deployed: latch "sys_exec lib bl cfg" "\<lambda>k db. sys_inv db \<and> dep_dispatched k db" dispatches_deployment for lib bl cfg
proof
  fix k i and db :: "'x node_db_scheme"
  assume l: "sys_inv db \<and> dep_dispatched k db"
  then show "sys_inv (snd (sys_exec lib bl cfg i db)) \<and> dep_dispatched k (snd (sys_exec lib bl cfg i db))"
    by (rule sys_keeps [rotated]) (auto simp: sys_step_def sys_inv_def intro: dep_step_dispatched)
  assume "dispatches_deployment k i"
  then obtain c operation lease where i: "i = (c, SDeployDispatch k operation lease)" by (elim dispatches_deployment.elims) auto
  from l have "\<nexists>r db'. sys_body lib bl cfg c (SDeployDispatch k operation lease) db = Inr (r, db')"
    using dispatched_deployment_blocked [of db k] by (auto simp: sys_inv_def)
  then show "\<exists>e. fst (sys_exec lib bl cfg i db) = Inl e" unfolding i by (rule sys_exec_fails)
qed

text \<open>Facts that stay: the identity of a job once queued, and the order of the revisions.\<close>

lemma same_build_update: "build_keeps f \<Longrightarrow> list_ex (same_build i) bs \<Longrightarrow> list_ex (same_build i) (upd_row nb_id k f bs)"
  by (induction bs) (auto simp: same_build_def build_keeps_def)

lemma build_step_same:
  assumes "build_step db db'" and "known_build i db"
  shows "known_build i db'"
  using assms by cases (auto simp: known_build_def same_build_update)

interpretation known_deployment: stable "sys_exec lib bl cfg" "\<lambda>k db. sys_inv db \<and> known_deployment k db" for lib bl cfg
  by unfold_locales (rule sys_keeps, auto simp: sys_step_def intro: dep_step_same)

interpretation known_build: stable "sys_exec lib bl cfg" "\<lambda>k db. sys_inv db \<and> known_build k db" for lib bl cfg
  by unfold_locales (rule sys_keeps, auto simp: sys_step_def intro: build_step_same)

interpretation settled_deployment: stable "sys_exec lib bl cfg" "\<lambda>j db. sys_inv db \<and> j \<in> set (node_deployments db) \<and> \<not> dep_pending j"
  for lib bl cfg
proof (unfold_locales, rule sys_keeps)
  fix j and db db' :: "'x node_db_scheme"
  assume "sys_step cfg db db'" and inv: "sys_inv db" and j: "j \<in> set (node_deployments db) \<and> \<not> dep_pending j"
  then have "dep_step db db'" "dep_inv db" by (simp_all add: sys_step_def sys_inv_def)
  from this(1) show "j \<in> set (node_deployments db') \<and> \<not> dep_pending j"
    by cases (use j depq.settled_row [OF dep_inv_table [OF \<open>dep_inv db\<close>]] in auto)
qed auto

interpretation ordered_claims: stable "sys_exec lib bl cfg"
    "\<lambda>k db. sys_inv db \<and> pubq.newer_only (fst k) (publication_jobs db) \<and> job_uploads (snd k) db" for lib bl cfg
  by unfold_locales (rule sys_keeps, auto simp: sys_step_def sys_inv_def intro: publish_step_newer publish_step_uploads)

end
