(* ===== verification/Portal_Calls.thy ===== *)
theory Portal_Calls
  imports Portal_System
begin

text \<open>
  The calls of the store that take more than one transaction: the workers of builds and
  deployments (\<open>portal/node_build_worker.go\<close>, \<open>node_deployment_worker.go\<close>), the dispatches
  and the reconciliations. Between two transactions of a call any history of other
  transactions may commit (the argument \<open>mid\<close>).
\<close>

type_synonym sys_ops = "(call \<times> sys_tx) list"

section \<open>Deployments\<close>

definition dispatchNodeDeployment ::
  "portal_lib \<Rightarrow> build_lib \<Rightarrow> store_config \<Rightarrow> call \<Rightarrow> (runtime_request \<times> string \<Rightarrow> go_err option) \<Rightarrow> string \<Rightarrow> string \<Rightarrow> string
    \<Rightarrow> 'x node_db_scheme \<Rightarrow> go_err option \<times> 'x node_db_scheme" where
  "dispatchNodeDeployment lib bl cfg c submit ident operation lease db =
     (if length lease \<noteq> 64 \<or> operation = [] then (Some Portal_ErrInvalid, db)
      else
        case in_tx (cl_drv c) (dispatch_deployment_tx lib bl cfg c ident operation lease) db of
          (Inl e, db1) \<Rightarrow> (Some e, db1)
        | (Inr request, db1) \<Rightarrow> (submit request, db1))"

definition reconcileNodeDeployment ::
  "portal_lib \<Rightarrow> build_lib \<Rightarrow> store_config \<Rightarrow> call \<Rightarrow> call \<Rightarrow> (string \<Rightarrow> string \<Rightarrow> string \<Rightarrow> runtime_observation result) \<Rightarrow> sys_ops
    \<Rightarrow> string \<Rightarrow> string \<Rightarrow> 'x node_db_scheme \<Rightarrow> bool result \<times> 'x node_db_scheme" where
  "reconcileNodeDeployment lib bl cfg c1 c2 reader mid project ident db =
     (case cl_drv c1 of
        Some e \<Rightarrow> (Inl e, db)
      | None \<Rightarrow>
          (case reconcile_check_tx project ident db of
             Inl e \<Rightarrow> (Inl e, db)
           | Inr None \<Rightarrow> (Inr False, db)
           | Inr (Some (j, release)) \<Rightarrow>
               (let db1 = run_ops (sys_exec lib bl cfg) mid db in
                case reader (nd_runtime j) project (nd_operation j) of
                  Inl e \<Rightarrow> (Inl e, db1)
                | Inr ob \<Rightarrow>
                    in_tx (cl_drv c2) (settle_deployment_tx c2 project ident j release (cl_now c1 0) (cl_now c1 1) ob) db1)))"

definition workNodeDeployment ::
  "portal_lib \<Rightarrow> build_lib \<Rightarrow> store_config \<Rightarrow> (nat \<Rightarrow> call) \<Rightarrow> (runtime_request \<times> string \<Rightarrow> go_err option)
    \<Rightarrow> (string \<Rightarrow> string \<Rightarrow> string \<Rightarrow> runtime_observation result) \<Rightarrow> (nat \<Rightarrow> sys_ops) \<Rightarrow> string \<Rightarrow> string \<Rightarrow> string \<Rightarrow> string
    \<Rightarrow> 'x node_db_scheme \<Rightarrow> (bool \<times> go_err option) \<times> 'x node_db_scheme" where
  "workNodeDeployment lib bl cfg c submit reader mid project runtime toolchain architecture db =
     (let run = \<lambda>n. run_ops (sys_exec lib bl cfg) (mid n);
          reconcile = (\<lambda>ident db. case reconcileNodeDeployment lib bl cfg (c 3) (c 4) reader (mid 2) project ident db of
                         (Inl e, db1) \<Rightarrow> ((False, Some e), db1) | (Inr done, db1) \<Rightarrow> ((done, None), db1))
      in
        case cl_drv (c 0) of
          Some e \<Rightarrow> ((False, Some e), db)
        | None \<Rightarrow>
            (case List.find (\<lambda>j. nd_project j = project \<and> nd_runtime j = runtime \<and> nd_state j = DepRunning) (node_deployments db) of
               Some job \<Rightarrow> reconcile (nd_id job) (run 0 db)
             | None \<Rightarrow>
                 (case in_tx (cl_drv (c 1)) (claim_deployment_tx lib bl cfg (c 1) project runtime toolchain architecture) (run 0 db) of
                    (Inl e, db1) \<Rightarrow> ((False, Some e), db1)
                  | (Inr None, db1) \<Rightarrow> ((False, None), db1)
                  | (Inr (Some cm), db1) \<Rightarrow>
                      (case dispatchNodeDeployment lib bl cfg (c 2) submit (nd_id (dc_Job cm)) (dc_OperationID cm) (dc_Lease cm)
                              (run 1 db1) of
                         (Some e, db2) \<Rightarrow> ((True, Some e), db2)
                       | (None, db2) \<Rightarrow> (case reconcile (nd_id (dc_Job cm)) db2 of ((_, e), db3) \<Rightarrow> ((True, e), db3))))))"

section \<open>Builds\<close>

definition bindNodeBuildDependencies ::
  "portal_lib \<Rightarrow> build_lib \<Rightarrow> store_config \<Rightarrow> call \<Rightarrow> call \<Rightarrow> sys_ops \<Rightarrow> string \<Rightarrow> string \<Rightarrow> string \<Rightarrow> npm_bundle \<Rightarrow> 'x node_db_scheme
    \<Rightarrow> unit result \<times> 'x node_db_scheme" where
  "bindNodeBuildDependencies lib bl cfg c1 c2 mid ident execution lease bundle db =
     (case cl_drv c1 of
        Some e \<Rightarrow> (Inl e, db)
      | None \<Rightarrow>
          (case bind_source_tx lib c1 ident execution lease db of
             Inl e \<Rightarrow> (Inl e, db)
           | Inr (b, source) \<Rightarrow>
               (let db1 = run_ops (sys_exec lib bl cfg) mid db in
                case check_bundle bl b source bundle of
                  Inl e \<Rightarrow> (Inl e, db1)
                | Inr _ \<Rightarrow> in_tx (cl_drv c2) (bind_bundle_tx lib c2 ident execution lease bundle) db1)))"

definition dispatchNodeBuild ::
  "portal_lib \<Rightarrow> build_lib \<Rightarrow> store_config \<Rightarrow> (nat \<Rightarrow> call) \<Rightarrow> (execution_request \<times> string \<Rightarrow> go_err option) \<Rightarrow> (nat \<Rightarrow> sys_ops)
    \<Rightarrow> string \<Rightarrow> string \<Rightarrow> string \<Rightarrow> 'x node_db_scheme \<Rightarrow> go_err option \<times> 'x node_db_scheme" where
  "dispatchNodeBuild lib bl cfg c submit mid ident execution lease db =
     (let run = \<lambda>n. run_ops (sys_exec lib bl cfg) (mid n) in
      case nodeBuildDependencies lib (c 0) ident execution lease db of
        Inl e \<Rightarrow> (Some e, db)
      | Inr None \<Rightarrow> (Some ErrBuildConflict, db)
      | Inr (Some bundle) \<Rightarrow>
          (case bindNodeBuildDependencies lib bl cfg (c 1) (c 2) (mid 1) ident execution lease bundle (run 0 db) of
             (Inl e, db1) \<Rightarrow> (Some e, db1)
           | (Inr _, db1) \<Rightarrow>
               (case in_tx (cl_drv (c 3)) (dispatch_build_tx lib cfg (c 3) ident execution lease bundle) (run 2 db1) of
                  (Inl e, db2) \<Rightarrow> (Some e, db2)
                | (Inr request, db2) \<Rightarrow> (submit request, db2))))"

definition retainNodeRelease ::
  "portal_lib \<Rightarrow> build_lib \<Rightarrow> store_config \<Rightarrow> call \<Rightarrow> call \<Rightarrow> (string \<Rightarrow> (artifact_observation \<times> string) result) \<Rightarrow> sys_ops
    \<Rightarrow> string \<Rightarrow> string \<Rightarrow> 'x node_db_scheme \<Rightarrow> node_release option result \<times> 'x node_db_scheme" where
  "retainNodeRelease lib bl cfg c1 c2 reader mid project ident db =
     (case cl_drv c1 of
        Some e \<Rightarrow> (Inl e, db)
      | None \<Rightarrow>
          (case retain_check_tx project ident db of
             Inl e \<Rightarrow> (Inl e, db)
           | Inr (RetainDone r) \<Rightarrow> (Inr r, db)
           | Inr (RetainRead b request) \<Rightarrow>
               (let db1 = run_ops (sys_exec lib bl cfg) mid db in
                case reader (nb_execution b) of
                  Inl e \<Rightarrow> (Inl e, db1)
                | Inr (ob, archive) \<Rightarrow>
                    in_tx (cl_drv c2) (retain_artifact_tx bl c2 project ident b request (cl_now c1 0) (cl_now c1 1) ob archive) db1)))"

text \<open>The checks of an observation of an execution, before and after the outcome is known.\<close>

definition execution_matches :: "node_build \<Rightarrow> string \<Rightarrow> int \<Rightarrow> int \<Rightarrow> execution_observation \<Rightarrow> bool" where
  "execution_matches job execution started now ob \<longleftrightarrow>
     \<not> (eo_ExecutionID ob \<noteq> execution \<or> eo_SourceSHA256 ob \<noteq> pl_SourceSHA256 (nb_plan job) \<or> eo_ToolchainSHA256 ob \<noteq> nb_toolchain job
        \<or> eo_Architecture ob \<noteq> pl_Architecture (nb_plan job) \<or> eo_ObservedAt ob < started \<or> eo_ObservedAt ob > now)"

definition reconcileNodeBuildFailure ::
  "portal_lib \<Rightarrow> build_lib \<Rightarrow> store_config \<Rightarrow> call \<Rightarrow> call \<Rightarrow> (string \<Rightarrow> execution_observation result) \<Rightarrow> sys_ops
    \<Rightarrow> string \<Rightarrow> string \<Rightarrow> 'x node_db_scheme \<Rightarrow> bool result \<times> 'x node_db_scheme" where
  "reconcileNodeBuildFailure lib bl cfg c1 c2 inspect mid project ident db =
     (case cl_drv c1 of
        Some e \<Rightarrow> (Inl e, db)
      | None \<Rightarrow>
          (case List.find (\<lambda>b. nb_id b = ident \<and> nb_project b = project) (node_builds db) of
             None \<Rightarrow> (Inl ErrDenied, db)
           | Some b \<Rightarrow>
               if (nb_state b = BuildFailed \<or> nb_state b = BuildCancelled) \<and> nb_result b \<noteq> None then (Inr False, db)
               else if nb_state b \<noteq> BuildRunning \<or> nb_execution b = [] then (Inl ErrBuildConflict, db)
               else if nb_until b > cl_now c1 0 then (Inl ErrBuildLease, db)
               else
                 (let db1 = run_ops (sys_exec lib bl cfg) mid db in
                  case inspect (nb_execution b) of
                    Inl e \<Rightarrow> (Inl e, db1)
                  | Inr ob \<Rightarrow>
                      if \<not> execution_matches b (nb_execution b) (cl_now c1 1) (cl_now c1 2) ob \<or> \<not> eo_Retired ob
                         \<or> (eo_Outcome ob \<noteq> ''failed'' \<and> eo_Outcome ob \<noteq> ''cancelled'')
                      then (Inl ErrBuildConflict, db1)
                      else in_tx (cl_drv c2)
                             (reconcile_failure_tx c2 project ident (nb_execution b)
                                (ob\<lparr>eo_FailureLog := bl_sanitize bl (eo_FailureLog ob)\<rparr>)) db1)))"

definition observeNodeBuild ::
  "portal_lib \<Rightarrow> build_lib \<Rightarrow> store_config \<Rightarrow> (nat \<Rightarrow> call) \<Rightarrow> (string \<Rightarrow> execution_observation result)
    \<Rightarrow> (string \<Rightarrow> (artifact_observation \<times> string) result) \<Rightarrow> (nat \<Rightarrow> sys_ops) \<Rightarrow> node_build \<Rightarrow> 'x node_db_scheme
    \<Rightarrow> bool result \<times> 'x node_db_scheme" where
  "observeNodeBuild lib bl cfg c inspect artifact mid job db =
     (case cl_drv (c 0) of
        Some e \<Rightarrow> (Inl e, db)
      | None \<Rightarrow>
          (case get_row nb_id (nb_id job) (node_builds db) of
             None \<Rightarrow> (Inl ErrNoRows, db)
           | Some row \<Rightarrow>
               (let db1 = run_ops (sys_exec lib bl cfg) (mid 0) db in
                if nb_intent row = None then
                  (if nb_until row > cl_now (c 0) 0 then (Inr False, db)
                   else in_tx (cl_drv (c 1)) (fail_unsubmitted_tx (c 1) (nb_project job) (nb_id job) (nb_execution row)) db1)
                else
                  (case inspect (nb_execution row) of
                     Inl e \<Rightarrow> (Inl e, db1)
                   | Inr ob \<Rightarrow>
                       if \<not> execution_matches job (nb_execution row) (cl_now (c 0) 0) (cl_now (c 0) 1) ob then (Inl ErrBuildConflict, db1)
                       else if \<not> eo_Retired ob then (Inr False, db1)
                       else if eo_Outcome ob = ''succeeded'' then
                         (case retainNodeRelease lib bl cfg (c 1) (c 2) artifact (mid 1) (nb_project job) (nb_id job) db1 of
                            (Inl e, db2) \<Rightarrow> (Inl e, db2) | (Inr _, db2) \<Rightarrow> (Inr True, db2))
                       else if eo_Outcome ob = ''failed'' \<or> eo_Outcome ob = ''cancelled'' then
                         (if nb_until row > cl_now (c 0) 2 then (Inr False, db1)
                          else reconcileNodeBuildFailure lib bl cfg (c 1) (c 2) inspect (mid 1) (nb_project job) (nb_id job) db1)
                       else (Inl ErrBuildConflict, db1)))))"

section \<open>A call is a history\<close>

text \<open>
  What a call leaves is what some history of single transactions leaves, so everything that is
  proved of histories holds of the calls.
\<close>

definition reachable_from ::
  "portal_lib \<Rightarrow> build_lib \<Rightarrow> store_config \<Rightarrow> 'x node_db_scheme \<Rightarrow> 'x node_db_scheme \<Rightarrow> bool" where
  "reachable_from lib bl cfg db db' \<longleftrightarrow> (\<exists>ops. db' = run_ops (sys_exec lib bl cfg) ops db)"

lemma reachable_refl [simp]: "reachable_from lib bl cfg db db"
  unfolding reachable_from_def by (rule exI [of _ "[]"]) simp

lemma reachable_run [simp]: "reachable_from lib bl cfg db (run_ops (sys_exec lib bl cfg) ops db)"
  unfolding reachable_from_def by blast

lemma reachable_trans:
  assumes "reachable_from lib bl cfg a b" and "reachable_from lib bl cfg b d"
  shows "reachable_from lib bl cfg a d"
  using assms unfolding reachable_from_def by (metis run_ops_append)

lemma reachable_exec: "reachable_from lib bl cfg db (snd (sys_exec lib bl cfg i db))"
  unfolding reachable_from_def by (rule exI [of _ "[i]"]) simp

lemma in_tx_drop: "snd (in_tx drv (\<lambda>db. drop_value (body db)) db) = snd (in_tx drv body db)"
  by (auto simp: in_tx_def with_tx_def drop_value_def andThen_def split: option.splits sum.splits prod.splits)

lemma reachable_tx:
  assumes "\<And>db. sys_body lib bl cfg c t db = drop_value (body db)"
  shows "reachable_from lib bl cfg db (snd (in_tx (cl_drv c) body db))"
proof -
  have "sys_body lib bl cfg c t = (\<lambda>db. drop_value (body db))" using assms by (rule ext)
  then have "snd (sys_exec lib bl cfg (c, t) db) = snd (in_tx (cl_drv c) body db)" by (simp add: sys_exec_def in_tx_drop)
  with reachable_exec [of lib bl cfg db "(c, t)"] show ?thesis by simp
qed

lemma reachable_tx0:
  assumes "sys_body lib bl cfg c t = body"
  shows "reachable_from lib bl cfg db (snd (in_tx (cl_drv c) body db))"
  using reachable_exec [of lib bl cfg db "(c, t)"] assms by (simp add: sys_exec_def)

text \<open>A transaction whose job is known: the guard of the family passes.\<close>

lemma guarded_tx:
  assumes "\<And>db. sys_body lib bl cfg c t db = andThen (guard e (ok db)) (\<lambda>_. drop_value (body db))" and "ok db"
  shows "reachable_from lib bl cfg db (snd (in_tx (cl_drv c) body db))"
proof -
  have "snd (sys_exec lib bl cfg (c, t) db) = snd (in_tx (cl_drv c) body db)"
    using assms
    by (auto simp: sys_exec_def in_tx_def with_tx_def drop_value_def andThen_def guard_def split: option.splits sum.splits prod.splits)
  with reachable_exec [of lib bl cfg db "(c, t)"] show ?thesis by simp
qed

lemma reconcile_check_known:
  assumes "reconcile_check_tx project ident db = Inr (Some (j, release))"
  shows "known_deployment j db" and "nd_id j = ident" and "nd_operation j \<noteq> []"
    and "j \<in> set (node_deployments db)" and "nd_project j = project" and "nd_state j = DepRunning"
proof -
  have found: "List.find (\<lambda>j. nd_id j = ident \<and> nd_project j = project) (node_deployments db) = Some j"
    and "nd_operation j \<noteq> []" and run: "nd_state j = DepRunning"
    using assms by (auto simp: reconcile_check_tx_def split: if_splits)
  then show "nd_operation j \<noteq> []" "nd_state j = DepRunning" by simp_all
  from find_SomeD [OF found] show "nd_id j = ident" "j \<in> set (node_deployments db)" "nd_project j = project" by simp_all
  then show "known_deployment j db" by (auto simp: known_deployment_def list_ex_iff same_deployment_def)
qed

lemma reconcile_reachable:
  assumes "sys_inv db"
  shows "reachable_from lib bl cfg db (snd (reconcileNodeDeployment lib bl cfg c1 c2 reader mid project ident db))"
proof -
  have settle: "reachable_from lib bl cfg db (snd (in_tx (cl_drv c2) (settle_deployment_tx c2 project ident j release s n ob)
      (run_ops (sys_exec lib bl cfg) mid db)))" if chk: "reconcile_check_tx project ident db = Inr (Some (j, release))" for j release s n ob
  proof (rule reachable_trans [OF reachable_run])
    have "known_deployment j (run_ops (sys_exec lib bl cfg) mid db)"
      using known_deployment.run_latched [of db j] assms reconcile_check_known(1) [OF chk] by blast
    with reconcile_check_known(2,3) [OF chk] show "reachable_from lib bl cfg (run_ops (sys_exec lib bl cfg) mid db)
        (snd (in_tx (cl_drv c2) (settle_deployment_tx c2 project ident j release s n ob) (run_ops (sys_exec lib bl cfg) mid db)))"
      by (intro guarded_tx [where t = "SDeploySettle project ident j release s n ob" and e = Portal_ErrConflict
          and ok = "\<lambda>db. known_deployment j db \<and> nd_id j = ident \<and> nd_operation j \<noteq> []"]) simp_all
  qed
  show ?thesis unfolding reconcileNodeDeployment_def Let_def
    by (auto split: option.splits sum.splits intro: settle)
qed

lemma dispatch_deployment_reachable:
  "reachable_from lib bl cfg db (snd (dispatchNodeDeployment lib bl cfg c submit ident operation lease db))"
proof -
  have "reachable_from lib bl cfg db (snd (in_tx (cl_drv c) (dispatch_deployment_tx lib bl cfg c ident operation lease) db))"
    by (rule reachable_tx [where t = "SDeployDispatch ident operation lease"]) simp
  then show ?thesis unfolding dispatchNodeDeployment_def by (auto split: prod.splits sum.splits)
qed

lemma retain_check_known:
  assumes "retain_check_tx project ident db = Inr (RetainRead b request)"
  shows "known_build b db" and "nb_id b = ident"
proof -
  have found: "List.find (\<lambda>b. nb_id b = ident \<and> nb_project b = project) (node_builds db) = Some b"
    using assms by (auto simp: retain_check_tx_def split: option.splits if_splits)
  from find_SomeD [OF found] show "known_build b db" "nb_id b = ident"
    by (auto simp: known_build_def list_ex_iff same_build_def)
qed

lemma retain_reachable:
  assumes "sys_inv db"
  shows "reachable_from lib bl cfg db (snd (retainNodeRelease lib bl cfg c1 c2 reader mid project ident db))"
proof -
  have retain: "reachable_from lib bl cfg db (snd (in_tx (cl_drv c2) (retain_artifact_tx bl c2 project ident b request s n ob archive)
      (run_ops (sys_exec lib bl cfg) mid db)))" if chk: "retain_check_tx project ident db = Inr (RetainRead b request)" for b request s n ob archive
  proof (rule reachable_trans [OF reachable_run])
    have "known_build b (run_ops (sys_exec lib bl cfg) mid db)"
      using known_build.run_latched [of db b] assms retain_check_known(1) [OF chk] by blast
    with retain_check_known(2) [OF chk] show "reachable_from lib bl cfg (run_ops (sys_exec lib bl cfg) mid db)
        (snd (in_tx (cl_drv c2) (retain_artifact_tx bl c2 project ident b request s n ob archive) (run_ops (sys_exec lib bl cfg) mid db)))"
      by (intro guarded_tx [where t = "SBuildRetain project ident b request s n ob archive" and e = ErrBuildConflict
          and ok = "\<lambda>db. known_build b db \<and> nb_id b = ident"]) simp_all
  qed
  show ?thesis unfolding retainNodeRelease_def Let_def
    by (auto split: option.splits sum.splits retain_check.splits intro: retain)
qed

lemma reconcile_failure_reachable:
  "reachable_from lib bl cfg db (snd (reconcileNodeBuildFailure lib bl cfg c1 c2 inspect mid project ident db))"
proof -
  have "reachable_from lib bl cfg db (snd (in_tx (cl_drv c2) (reconcile_failure_tx c2 project ident execution ob)
      (run_ops (sys_exec lib bl cfg) mid db)))" for execution ob
    by (rule reachable_trans [OF reachable_run reachable_tx [where t = "SBuildFail project ident execution ob"]]) simp
  then show ?thesis unfolding reconcileNodeBuildFailure_def Let_def by (auto split: option.splits sum.splits)
qed

lemma reachable_inv: "reachable_from lib bl cfg db db' \<Longrightarrow> sys_inv db \<Longrightarrow> sys_inv db'"
  by (auto simp: reachable_from_def run_sys_inv)

lemma bind_reachable:
  "reachable_from lib bl cfg db (snd (bindNodeBuildDependencies lib bl cfg c1 c2 mid ident execution lease b db))"
proof -
  have "reachable_from lib bl cfg db (snd (in_tx (cl_drv c2) (bind_bundle_tx lib c2 ident execution lease b)
      (run_ops (sys_exec lib bl cfg) mid db)))"
    by (rule reachable_trans [OF reachable_run reachable_tx0 [where t = "SBuildBind ident execution lease b"]]) (rule ext, simp)
  then show ?thesis unfolding bindNodeBuildDependencies_def Let_def by (auto split: option.splits sum.splits prod.splits)
qed

lemma dispatch_build_reachable:
  "reachable_from lib bl cfg db (snd (dispatchNodeBuild lib bl cfg c submit mid ident execution lease db))"
proof (cases "nodeBuildDependencies lib (c 0) ident execution lease db")
  case (Inl e)
  then show ?thesis by (simp add: dispatchNodeBuild_def)
next
  case (Inr found)
  show ?thesis
  proof (cases found)
    case None
    with Inr show ?thesis by (simp add: dispatchNodeBuild_def)
  next
    case (Some b)
    let ?run = "\<lambda>n. run_ops (sys_exec lib bl cfg) (mid n)"
    obtain r db1 where bind: "bindNodeBuildDependencies lib bl cfg (c 1) (c 2) (mid 1) ident execution lease b (?run 0 db) = (r, db1)"
      by (cases "bindNodeBuildDependencies lib bl cfg (c 1) (c 2) (mid 1) ident execution lease b (?run 0 db)")
    have one: "reachable_from lib bl cfg db db1"
      using reachable_trans [OF reachable_run bind_reachable [of lib bl cfg _ "c 1" "c 2" "mid 1" ident execution lease b]] bind
      by (metis snd_conv)
    have "reachable_from lib bl cfg (?run 2 db1)
        (snd (in_tx (cl_drv (c 3)) (dispatch_build_tx lib cfg (c 3) ident execution lease b) (?run 2 db1)))"
      by (rule reachable_tx [where t = "SBuildDispatch ident execution lease b"]) simp
    from reachable_trans [OF reachable_trans [OF one reachable_run] this] one Inr Some bind show ?thesis
      by (auto simp: dispatchNodeBuild_def Let_def split: sum.splits prod.splits)
  qed
qed

lemma observe_reachable:
  assumes "sys_inv db"
  shows "reachable_from lib bl cfg db (snd (observeNodeBuild lib bl cfg c inspect artifact mid job db))"
proof -
  let ?db1 = "run_ops (sys_exec lib bl cfg) (mid 0) db"
  have expire: "reachable_from lib bl cfg db (snd (in_tx (cl_drv (c 1)) (fail_unsubmitted_tx (c 1) project ident execution) ?db1))"
    for project ident execution
    by (rule reachable_trans [OF reachable_run reachable_tx [where t = "SBuildExpire project ident execution"]]) simp
  have retain: "reachable_from lib bl cfg db (snd (retainNodeRelease lib bl cfg (c 1) (c 2) artifact (mid 1) project ident ?db1))"
    for project ident by (rule reachable_trans [OF reachable_run retain_reachable [OF run_sys_inv [OF assms]]])
  have fail: "reachable_from lib bl cfg db (snd (reconcileNodeBuildFailure lib bl cfg (c 1) (c 2) inspect (mid 1) project ident ?db1))"
    for project ident by (rule reachable_trans [OF reachable_run reconcile_failure_reachable])
  have "snd (case retainNodeRelease lib bl cfg (c 1) (c 2) artifact (mid 1) project ident ?db1 of
        (Inl e, db2) \<Rightarrow> (Inl e, db2) | (Inr _, db2) \<Rightarrow> (Inr True, db2))
      = snd (retainNodeRelease lib bl cfg (c 1) (c 2) artifact (mid 1) project ident ?db1)" for project ident
    by (simp split: prod.splits sum.splits)
  with retain expire fail show ?thesis unfolding observeNodeBuild_def Let_def
    by (simp split: option.splits sum.splits)
qed

lemma work_deployment_reachable:
  assumes "sys_inv db"
  shows "reachable_from lib bl cfg db
    (snd (workNodeDeployment lib bl cfg c submit reader mid project runtime toolchain architecture db))"
proof -
  let ?run = "\<lambda>n. run_ops (sys_exec lib bl cfg) (mid n)"
  let ?rec = "\<lambda>ident db. case reconcileNodeDeployment lib bl cfg (c 3) (c 4) reader (mid 2) project ident db of
      (Inl e, db1) \<Rightarrow> ((False, Some e), db1) | (Inr done, db1) \<Rightarrow> ((done, None), db1)"
  have snd_rec: "snd (?rec ident db) = snd (reconcileNodeDeployment lib bl cfg (c 3) (c 4) reader (mid 2) project ident db)" for ident db
    by (simp split: prod.splits sum.splits)
  have rec: "reachable_from lib bl cfg db (snd (?rec ident db1))" if "reachable_from lib bl cfg db db1" for ident db1
    unfolding snd_rec by (rule reachable_trans [OF that reconcile_reachable [OF reachable_inv [OF that assms]]])
  have rec': "reachable_from lib bl cfg db (snd (case ?rec ident db1 of ((_, e), db3) \<Rightarrow> ((True, e), db3)))"
    if "reachable_from lib bl cfg db db1" for ident db1
    using rec [OF that, of ident] by (auto split: prod.splits sum.splits)
  let ?claim = "in_tx (cl_drv (c 1)) (claim_deployment_tx lib bl cfg (c 1) project runtime toolchain architecture) (?run 0 db)"
  have claim: "reachable_from lib bl cfg db (snd ?claim)"
    by (rule reachable_trans [OF reachable_run reachable_tx [where t = "SDeployClaim project runtime toolchain architecture"]]) simp
  have send: "reachable_from lib bl cfg db (snd (dispatchNodeDeployment lib bl cfg (c 2) submit ident operation lease (?run 1 (snd ?claim))))"
    for ident operation lease
    by (rule reachable_trans [OF reachable_trans [OF claim reachable_run] dispatch_deployment_reachable])
  have after: "reachable_from lib bl cfg db (snd (case dispatchNodeDeployment lib bl cfg (c 2) submit ident operation lease (?run 1 (snd ?claim)) of
      (Some e, db2) \<Rightarrow> ((True, Some e), db2)
    | (None, db2) \<Rightarrow> (case ?rec ident' db2 of ((_, e), db3) \<Rightarrow> ((True, e), db3))))" for ident operation lease ident'
  proof -
    obtain r db2 where d: "dispatchNodeDeployment lib bl cfg (c 2) submit ident operation lease (?run 1 (snd ?claim)) = (r, db2)"
      by (cases "dispatchNodeDeployment lib bl cfg (c 2) submit ident operation lease (?run 1 (snd ?claim))")
    with send [of ident operation lease] have "reachable_from lib bl cfg db db2" by simp
    with rec' [OF this, of ident'] show ?thesis unfolding d by (cases r) simp_all
  qed
  show ?thesis
    using claim after rec [OF reachable_run] unfolding workNodeDeployment_def Let_def
    by (cases ?claim) (auto split: option.splits sum.splits)
qed

end
