(* ===== verification/Release_Evidence.thy ===== *)
theory Release_Evidence
  imports Portal_Calls
begin

text \<open>
  Releases and the evidence they rest on: every retained archive passed the artifact validator
  for the digest that the executor reported for the build, with the source, toolchain and
  architecture of the build's plan.
\<close>

definition release_evidence :: "build_lib \<Rightarrow> node_build \<Rightarrow> release_row \<Rightarrow> bool" where
  "release_evidence bl b r \<longleftrightarrow>
     (let m = rr_metadata r in
      rr_build r = nb_id b \<and> rl_BuildID m = nb_id b \<and> rl_ProjectID m = nb_project b \<and> nb_state b = BuildSucceeded
      \<and> rl_SourceSHA256 m = pl_SourceSHA256 (nb_plan b) \<and> rl_ToolchainSHA256 m = nb_toolchain b
      \<and> rl_Architecture m = pl_Architecture (nb_plan b) \<and> rl_CompressedBytes m = int (length (rr_archive r))
      \<and> (\<exists>ob found. nb_result b = Some (ArtifactEvidence ob) \<and> eo_Outcome ob = ''succeeded'' \<and> eo_Retired ob
           \<and> eo_ExecutionID ob = rl_ExecutionID m \<and> eo_SourceSHA256 ob = rl_SourceSHA256 m
           \<and> eo_ToolchainSHA256 ob = rl_ToolchainSHA256 m \<and> eo_Architecture ob = rl_Architecture m
           \<and> bl_artifact bl (rr_archive r) (eo_ArtifactSHA256 ob) = Inr found \<and> rl_ArtifactSHA256 m = mf_SHA256 found))"

definition evidence_inv :: "build_lib \<Rightarrow> 'x node_db_scheme \<Rightarrow> bool" where
  "evidence_inv bl db \<longleftrightarrow> (\<forall>r \<in> set (node_releases db). \<exists>b \<in> set (node_builds db). release_evidence bl b r)"

text \<open>A succeeded build is settled, so its row stays in every step of the queue.\<close>

lemma build_step_succeeded:
  assumes "build_step db db'" and "build_inv db" and "b \<in> set (node_builds db)" and "nb_state b = BuildSucceeded"
  shows "b \<in> set (node_builds db')"
proof -
  have b: "\<not> build_pending b" using assms(4) by (simp add: build_pending_def)
  note row = bldq.settled_row [OF build_inv_table [OF assms(2)] _ _ assms(3) b]
  from assms(1) show ?thesis
    by cases (use assms(3) row in \<open>auto simp: build_pending_def\<close>)
qed

lemma evidence_step:
  assumes "build_step db db'" and "build_inv db" and "evidence_inv bl db"
    and "\<And>r. r \<in> set (node_releases db') \<Longrightarrow> r \<notin> set (node_releases db) \<Longrightarrow> \<exists>b \<in> set (node_builds db'). release_evidence bl b r"
  shows "evidence_inv bl db'"
  unfolding evidence_inv_def
proof
  fix r assume r: "r \<in> set (node_releases db')"
  show "\<exists>b \<in> set (node_builds db'). release_evidence bl b r"
  proof (cases "r \<in> set (node_releases db)")
    case True
    with assms(3) obtain b where b: "b \<in> set (node_builds db)" "release_evidence bl b r" by (auto simp: evidence_inv_def)
    then have "b \<in> set (node_builds db')"
      by (intro build_step_succeeded [OF assms(1,2)]) (simp_all add: release_evidence_def Let_def)
    with b(2) show ?thesis by blast
  qed (use r assms(4) in blast)
qed

lemma build_move_releases: "build_move db db' \<Longrightarrow> node_releases db' = node_releases db"
  by (auto simp: build_move_def set_build_def)

lemma dep_frame_releases: "dep_frame db db' \<Longrightarrow> node_releases db' = node_releases db"
  by (auto simp: dep_frame_def)

fun retains :: "sys_tx \<Rightarrow> bool" where
  "retains (SBuildRetain project ident job request started now ob archive) = True"
| "retains t = False"

lemma sys_body_releases:
  assumes "sys_body lib bl cfg c t db = Inr (r, db')" and inv: "dep_inv db" and "\<not> retains t"
  shows "set (node_releases db') \<subseteq> set (node_releases db)"
proof (cases t)
  case (SPortal p)
  with assms(1) portal_body_frame [of lib cfg c p db r db'] show ?thesis by (auto dest: node_more(1))
next
  case (SBuildRequest token project upload key settings toolchain)
  with assms(1) show ?thesis by (auto dest!: request_build_txD)
next
  case (SBuildCancel token project ident)
  with assms(1) show ?thesis by (auto dest!: cancel_build_move build_move_releases)
next
  case (SBuildClaim project toolchain architecture)
  with assms(1) show ?thesis by (auto dest!: claim_build_move build_move_releases)
next
  case (SBuildRenew ident execution lease)
  with assms(1) show ?thesis by (auto dest!: renew_build_move build_move_releases)
next
  case (SBuildBind ident execution lease b)
  with assms(1) show ?thesis by (auto dest!: bind_bundle_move build_move_releases)
next
  case (SBuildDispatch ident execution lease b)
  with assms(1) obtain v where "dispatch_build_tx lib cfg c ident execution lease b db = Inr (v, db')" by auto
  from build_move_releases [OF dispatch_build_move [OF this]] show ?thesis by simp
next
  case (SBuildExpire project ident execution)
  with assms(1) show ?thesis by (auto dest!: fail_unsubmitted_move build_move_releases)
next
  case (SBuildFail project ident execution ob)
  with assms(1) show ?thesis by (auto dest!: reconcile_failure_move build_move_releases)
next
  case (SReleaseDelete token project ident)
  with assms(1) show ?thesis by (auto dest!: delete_release_txD)
next
  case (SDeployRequest token project release key runtime)
  with assms(1) show ?thesis by (auto dest!: request_deployment_step(2) dep_frame_releases)
next
  case (SDeployCancel token project ident)
  with assms(1) show ?thesis by (auto dest!: cancel_deployment_step(2) dep_frame_releases)
next
  case (SDeployClaim project runtime toolchain architecture)
  with assms(1) show ?thesis by (auto dest!: claim_deployment_move dep_move_frame dep_frame_releases)
next
  case (SDeployRenew ident operation lease)
  with assms(1) show ?thesis by (auto dest!: renew_deployment_move dep_move_frame dep_frame_releases)
next
  case (SDeployDispatch ident operation lease)
  with assms(1) obtain v where "dispatch_deployment_tx lib bl cfg c ident operation lease db = Inr (v, db')" by auto
  from dep_frame_releases [OF dep_move_frame [OF dispatch_deployment_move [OF this inv]]] show ?thesis by simp
next
  case (SDeploySettle project ident job release started now ob)
  with assms(1) show ?thesis by (auto dest!: settle_deployment_frame dep_frame_releases)
qed (use assms(3) in simp)

lemma retain_evidence:
  assumes "retain_artifact_tx bl c project ident job request started now ob archive db = Inr (v, db')"
    and known: "known_build job db" "nb_id job = ident" and inv: "build_inv db"
    and r: "r \<in> set (node_releases db')" "r \<notin> set (node_releases db)"
  shows "\<exists>b \<in> set (node_builds db'). release_evidence bl b r"
proof -
  obtain m where m: "artifact_matches job request started now ob" "bl_artifact bl archive (eo_ArtifactSHA256 ob) = Inr m"
    and tx: "retain_tx c project ident job ob archive m db = Inr (v, db')"
    using assms(1) by (auto simp: retain_artifact_tx_def)
  from retain_txD [OF tx] r obtain b f row rows where b: "b \<in> set (node_builds db)" "nb_id b = ident" "nb_project b = project"
      "build_keeps f" "nb_execution b = nb_execution job" "nb_state (f b) = BuildSucceeded" "nb_execution (f b) = nb_execution b"
      "nb_result (f b) = Some (ArtifactEvidence ob)"
    and row: "row = \<lparr>rr_build = ident, rr_metadata = new_release (cl_now c 0) project ident job archive m, rr_archive = archive\<rparr>"
    and new: "db' = (set_build ident f db)\<lparr>node_releases := node_releases db @ [row], audit_events := rows\<rparr>"
    by (auto dest: build_move_releases)
  have "r = row" using r by (simp add: new set_build_def)
  obtain q where "q \<in> set (node_builds db)" "same_build job q" using known(1) by (auto simp: known_build_def list_ex_iff)
  with b(1,2) known(2) have same: "same_build job b"
    using bldq.table_unique [OF build_inv_table [OF inv], of q b] by (simp add: same_build_def)
  have "f b \<in> set (node_builds db')"
    using bldq.updated_row [OF b(1), of f] by (simp add: new set_build_def b(2))
  moreover have "release_evidence bl (f b) r"
    using b m same unfolding \<open>r = row\<close> row
    by (auto simp: release_evidence_def new_release_def artifact_matches_def same_build_def build_keeps_def)
  ultimately show ?thesis by blast
qed

lemma sys_body_evidence:
  assumes "sys_body lib bl cfg c t db = Inr (r, db')" and "sys_inv db" and "evidence_inv bl db"
  shows "evidence_inv bl db'"
proof (rule evidence_step [OF _ _ assms(3)])
  have inv: "dep_inv db" "build_inv db" using assms(2) by (simp_all add: sys_inv_def)
  from sys_body_step [OF assms(1) inv(1)] show "build_step db db'" by (simp add: sys_step_def)
  show "build_inv db" by (rule inv)
  fix q assume q: "q \<in> set (node_releases db')" "q \<notin> set (node_releases db)"
  with sys_body_releases [OF assms(1) inv(1)] have "retains t" by blast
  then obtain project ident job request started now ob archive where
    t: "t = SBuildRetain project ident job request started now ob archive" by (elim retains.elims) auto
  with assms(1) obtain v where "known_build job db" "nb_id job = ident"
    "retain_artifact_tx bl c project ident job request started now ob archive db = Inr (v, db')" by auto
  with retain_evidence inv(2) q show "\<exists>b \<in> set (node_builds db'). release_evidence bl b q" by blast
qed

interpretation evident: stable "sys_exec lib bl cfg" "\<lambda>_ db. sys_inv db \<and> evidence_inv bl db" for lib bl cfg
proof
  fix k :: "unit" and i and db :: "'x node_db_scheme"
  assume inv: "sys_inv db \<and> evidence_inv bl db"
  then have "sys_inv (snd (sys_exec lib bl cfg i db))" using sys_step_inv sys_exec_step by blast
  moreover have "evidence_inv bl (snd (sys_exec lib bl cfg i db))" unfolding sys_exec_def
    by (rule in_tx_invariant [where P = "evidence_inv bl"]) (use inv sys_body_evidence in blast)+
  ultimately show "sys_inv (snd (sys_exec lib bl cfg i db)) \<and> evidence_inv bl (snd (sys_exec lib bl cfg i db))" by blast
qed

lemma history_evidence: "evidence_inv bl (run_ops (sys_exec lib bl cfg) ops empty_node)"
  using evident.run_latched [of empty_node bl] empty_sys_inv by (simp add: evidence_inv_def empty_node_def)

end
