(* ===== verification/Portal_Guarantees.thy ===== *)
theory Portal_Guarantees
  imports Release_Evidence
begin

text \<open>
  What the store promises over every history of its transactions, from any state that
  satisfies the invariant \<open>sys_inv\<close> (and so from the empty store).
\<close>

section \<open>Which transaction publishes\<close>

fun publishes :: "sys_tx \<Rightarrow> bool" where
  "publishes (SPortal (PFinish job lease observed success)) = success"
| "publishes t = False"

lemma build_move_publications: "build_move db db' \<Longrightarrow> publications db' = publications db"
  by (auto simp: build_move_def set_build_def)

lemma dep_frame_publications: "dep_frame db db' \<Longrightarrow> publications db' = publications db"
  by (auto simp: dep_frame_def)

lemma portal_publications:
  assumes "portal_body lib cfg c p db = Inr (r, db')" and "\<not> publishes (SPortal p)"
  shows "publications db' = publications db"
proof (cases p)
  case (PAccount a)
  with assms(1) show ?thesis by (auto dest: acct_body_tables)
next
  case (PPolicy workspace required)
  with assms(1) show ?thesis by (auto dest: configure_policy_txD)
next
  case (PCreateProject token workspace name kind)
  with assms(1) show ?thesis by (auto dest: create_project_frame)
next
  case (PSaveUpload token project data m)
  with assms(1) show ?thesis by (auto dest: save_upload_frame)
next
  case (PDeleteUpload token project ident)
  with assms(1) show ?thesis by (auto dest: delete_upload_txD)
next
  case (PRequest token project upload key)
  with assms(1) obtain j where j: "request_publication_tx lib cfg c token project upload key db = Inr (j, db')" by auto
  from request_publication_txD [OF j] obtain q actor where
    "requestPublicationTx cfg c q actor upload key db = Inr (j, db')" by blast
  from requestPublicationTxD [OF this] show ?thesis by auto
next
  case (PClaim project)
  with assms(1) obtain v where "claim_publication_tx lib cfg c project db = Inr (v, db')" by auto
  from claim_publication_txD [OF this] show ?thesis by (auto simp: set_job_tables)
next
  case (PFinish job lease observed success)
  with assms have "finish_publication_tx lib c job lease observed False db = Inr (r, db')" by simp
  from finish_publication_txD [OF this] show ?thesis by auto
next
  case (PResume token project job upload)
  with assms(1) obtain v where "resume_publication_tx lib c token project job upload db = Inr (v, db')" by auto
  from resume_publication_txD [OF this] show ?thesis by auto
next
  case (PRename token project name)
  with assms(1) show ?thesis by (auto dest: rename_project_txD)
qed

lemma sys_body_publications:
  assumes "sys_body lib bl cfg c t db = Inr (r, db')" and inv: "dep_inv db" and "\<not> publishes t"
  shows "publications db' = publications db"
proof (cases t)
  case (SPortal p)
  with assms(1,3) show ?thesis by (auto dest: portal_publications)
next
  case (SBuildRequest token project upload key settings toolchain)
  with assms(1) show ?thesis by (auto dest!: request_build_txD)
next
  case (SBuildCancel token project ident)
  with assms(1) show ?thesis by (auto dest!: cancel_build_move build_move_publications)
next
  case (SBuildClaim project toolchain architecture)
  with assms(1) show ?thesis by (auto dest!: claim_build_move build_move_publications)
next
  case (SBuildRenew ident execution lease)
  with assms(1) show ?thesis by (auto dest!: renew_build_move build_move_publications)
next
  case (SBuildBind ident execution lease b)
  with assms(1) show ?thesis by (auto dest!: bind_bundle_move build_move_publications)
next
  case (SBuildDispatch ident execution lease b)
  with assms(1) obtain v where "dispatch_build_tx lib cfg c ident execution lease b db = Inr (v, db')" by auto
  from build_move_publications [OF dispatch_build_move [OF this]] show ?thesis .
next
  case (SBuildExpire project ident execution)
  with assms(1) show ?thesis by (auto dest!: fail_unsubmitted_move build_move_publications)
next
  case (SBuildFail project ident execution ob)
  with assms(1) show ?thesis by (auto dest!: reconcile_failure_move build_move_publications)
next
  case (SBuildRetain project ident job request started now ob archive)
  with assms(1) obtain m v where "retain_tx c project ident job ob archive m db = Inr (v, db')"
    by (auto simp: retain_artifact_tx_def)
  from retain_txD [OF this] show ?thesis by (auto simp: set_build_def dest: build_move_publications)
next
  case (SReleaseDelete token project ident)
  with assms(1) show ?thesis by (auto dest!: delete_release_txD)
next
  case (SDeployRequest token project release key runtime)
  with assms(1) show ?thesis by (auto dest!: request_deployment_step(2) dep_frame_publications)
next
  case (SDeployCancel token project ident)
  with assms(1) show ?thesis by (auto dest!: cancel_deployment_step(2) dep_frame_publications)
next
  case (SDeployClaim project runtime toolchain architecture)
  with assms(1) show ?thesis by (auto dest!: claim_deployment_move dep_move_frame dep_frame_publications)
next
  case (SDeployRenew ident operation lease)
  with assms(1) show ?thesis by (auto dest!: renew_deployment_move dep_move_frame dep_frame_publications)
next
  case (SDeployDispatch ident operation lease)
  with assms(1) obtain v where "dispatch_deployment_tx lib bl cfg c ident operation lease db = Inr (v, db')" by auto
  from dep_frame_publications [OF dep_move_frame [OF dispatch_deployment_move [OF this inv]]] show ?thesis .
next
  case (SDeploySettle project ident job release started now ob)
  with assms(1) show ?thesis by (auto dest!: settle_deployment_frame dep_frame_publications)
qed

lemma refs_okD:
  assumes "refs_ok js refs rs" and "(d, k) \<in> set refs"
  shows "\<exists>j \<in> set js. \<exists>r \<in> set rs. nd_id j = d \<and> nd_release j = k \<and> rr_build r = k \<and> rl_ArtifactSHA256 (rr_metadata r) = nd_artifact j"
  using assms by (auto simp: refs_ok_def dest!: bspec)

section \<open>Properties of every history\<close>

text \<open>
  C8: After any history of store transactions the publication tables are consistent: job
  identities and request keys are unique, at most one job of a project is pending, revisions
  rise in the order of requests, every job still has its upload, and what is live is one
  succeeded job of the project.
\<close>

theorem publication_tables_consistent:
  "publish_inv (run_ops (sys_exec lib bl cfg) ops empty_node)"
  using history_inv [of lib bl cfg ops] by (simp add: sys_inv_def)

text \<open>
  C6: After any history of store transactions every retained release belongs to a succeeded
  build of its project, and rests on evidence: its archive passed the artifact validator for
  the digest that the retired executor reported, with the source, toolchain and architecture of
  the build. Builds keep their uploads, at most one of a project is pending, a project has at
  most 100 builds and 10 releases.
\<close>

theorem releases_rest_on_evidence:
  "build_inv (run_ops (sys_exec lib bl cfg) ops empty_node) \<and> evidence_inv bl (run_ops (sys_exec lib bl cfg) ops empty_node)"
  using history_inv [of lib bl cfg ops] history_evidence by (simp add: sys_inv_def)

text \<open>
  C3: After any history of store transactions the deployment tables are consistent: revisions
  of a project are positive and rise, at most one deployment is pending, every pending or active
  deployment references a retained release with its own artifact digest, and the active
  deployment of a project is a succeeded one whose recorded evidence shows its own route active,
  settled and healthy.
\<close>

theorem deployment_tables_consistent:
  "dep_inv (run_ops (sys_exec lib bl cfg) ops empty_node)"
  using history_inv [of lib bl cfg ops] by (simp add: sys_inv_def)

text \<open>
  C9: With a capacity that the operator could configure, no history of store transactions
  exceeds it or the quotas: at most the configured number of projects and of projects that run
  code, and in every workspace at most 20 uploads of together 100 MiB.
\<close>

theorem quotas_are_kept:
  assumes "configureProjectCapacity capacity node base = Inr cfg"
  shows "quota_inv cfg (run_ops (sys_exec lib bl cfg) ops empty_node)"
proof -
  have "0 \<le> sc_projectCapacity cfg" "0 \<le> sc_nodeCapacity cfg"
    using assms by (auto simp: configureProjectCapacity_def split: if_splits)
  then have "quota_inv cfg empty_node"
    by (simp add: quota_inv_def empty_node_def workspace_uploads_def upload_bytes_def)
  with store.run_inv [of empty_node cfg lib bl ops] empty_sys_inv show ?thesis by simp
qed

text \<open>
  C4: The live release of a project changes only when its running job is finished as a
  success by the holder of a current lease, whose submitter may still publish, with the hash
  of the very upload that the job selected; no other transaction of the store changes it.
\<close>

theorem live_release_is_acknowledged:
  assumes "sys_inv db" and "publications (snd (sys_exec lib bl cfg i db)) \<noteq> publications db"
  shows "\<exists>c job lease observed j u. i = (c, SPortal (PFinish job lease observed True))
    \<and> j \<in> set (publication_jobs db) \<and> pj_id j = job \<and> pj_state j = JobRunning
    \<and> pj_lease j = lib_digest lib lease \<and> cl_now c 0 < pj_until j \<and> publicationActor job db = Inr True
    \<and> u \<in> set (uploads db) \<and> up_id u = pj_upload j \<and> up_sha256 u = observed
    \<and> publications (snd (sys_exec lib bl cfg i db)) = publish (pj_project j) job (publications db)"
proof -
  obtain c t where i: "i = (c, t)" by (cases i)
  have inv: "dep_inv db" using assms(1) by (simp add: sys_inv_def)
  obtain r where tx: "sys_body lib bl cfg c t db = Inr (r, snd (sys_exec lib bl cfg i db))"
    using in_tx_cases [of "cl_drv c" "sys_body lib bl cfg c t" db] assms(2) by (auto simp: sys_exec_def i)
  with sys_body_publications [OF tx inv] assms(2) have "publishes t" by blast
  then obtain job lease observed where t: "t = SPortal (PFinish job lease observed True)"
    by (elim publishes.elims) auto
  with tx have "finish_publication_tx lib c job lease observed True db = Inr (r, snd (sys_exec lib bl cfg i db))" by simp
  from finish_publication_txD [OF this] t i show ?thesis by auto
qed

text \<open>
  A publication is finished at most once: after a finish that succeeded, no history of
  transactions makes another finish of the same job succeed, whatever its lease and outcome.
\<close>

theorem publication_is_finished_once:
  assumes "sys_inv db" and "fst (sys_exec lib bl cfg (c, SPortal (PFinish job lease observed success)) db) = Inr ()"
  shows "\<exists>e. fst (sys_exec lib bl cfg (c', SPortal (PFinish job lease' observed' success'))
      (run_ops (sys_exec lib bl cfg) ops (snd (sys_exec lib bl cfg (c, SPortal (PFinish job lease observed success)) db)))) = Inl e"
proof -
  let ?db' = "snd (sys_exec lib bl cfg (c, SPortal (PFinish job lease observed success)) db)"
  have "sys_exec lib bl cfg (c, SPortal (PFinish job lease observed success)) db = (Inr (), ?db')"
    using assms(2) by (simp add: prod_eq_iff)
  then have "finish_publication_tx lib c job lease observed success db = Inr ((), ?db')"
    by (simp add: sys_exec_def in_tx_Inr_iff)
  then have "pubq.settled job (publication_jobs ?db')" by (rule finish_settles)
  moreover have "sys_inv ?db'" using assms(1) sys_step_inv sys_exec_step by blast
  ultimately show ?thesis by (intro finished.run_blocked [where k = job]) simp_all
qed

text \<open>
  Publications of a project are claimed in the order of their revisions: whatever commits
  between two claims, the later one hands out the same job with the same upload or a job with a
  higher revision.
\<close>

theorem publication_claims_are_ordered:
  assumes "sys_inv db" and "claim_publication_tx lib cfg c project db = Inr (Some a, db1)"
    and "claim_publication_tx lib cfg c' project (run_ops (sys_exec lib bl cfg) ops db1) = Inr (Some b, db2)"
  shows "pj_id (pc_Job b) = pj_id (pc_Job a) \<and> pj_upload (pc_Job b) = pj_upload (pc_Job a)
    \<or> pj_revision (pc_Job a) < pj_revision (pc_Job b)"
proof -
  from claim_publication_txD [OF assms(2)] obtain j where j: "j \<in> set (publication_jobs db)" "claimable project (cl_now c 0) j"
    "pj_id (pc_Job a) = pj_id j" "pj_upload (pc_Job a) = pj_upload j" "pj_revision (pc_Job a) = pj_revision j" by auto
  then have jp: "pj_project j = project" "job_pending j" by (auto simp: claimable_def job_pending_def)
  have ok: "pubq.ordered_ok (publication_jobs db)" using assms(1) by (simp add: sys_inv_def publish_inv_def)
  have "pubq.newer_only (project, pj_id j, pj_revision j) (publication_jobs db)"
    using pubq.pending_newer [OF ok j(1) jp(2)] jp(1) by simp
  moreover have "job_uploads (pj_id j, pj_upload j) db" using j(1) by (auto simp: job_uploads_def)
  moreover have step: "publish_step db db1" by (rule claim_step [OF assms(2)])
  moreover have inv: "publish_inv db" using assms(1) by (simp add: sys_inv_def)
  ultimately have at1: "pubq.newer_only (project, pj_id j, pj_revision j) (publication_jobs db1)" "job_uploads (pj_id j, pj_upload j) db1"
    using publish_step_newer publish_step_uploads by blast+
  have "sys_body lib bl cfg c (SPortal (PClaim project)) db = Inr ((), db1)" using assms(2) by (simp add: drop_value_def andThen_def)
  from sys_body_step [OF this] have "sys_inv db1" using assms(1) sys_step_inv by (auto simp: sys_inv_def)
  with at1 ordered_claims.run_latched [of db1 "((project, pj_id j, pj_revision j), (pj_id j, pj_upload j))" lib bl cfg ops]
  have later: "pubq.newer_only (project, pj_id j, pj_revision j) (publication_jobs (run_ops (sys_exec lib bl cfg) ops db1))"
    "job_uploads (pj_id j, pj_upload j) (run_ops (sys_exec lib bl cfg) ops db1)"
    "sys_inv (run_ops (sys_exec lib bl cfg) ops db1)" by simp_all
  from claim_publication_txD [OF assms(3)] obtain q where q: "q \<in> set (publication_jobs (run_ops (sys_exec lib bl cfg) ops db1))"
    "claimable project (cl_now c' 0) q"
    "pj_id (pc_Job b) = pj_id q" "pj_upload (pc_Job b) = pj_upload q" "pj_revision (pc_Job b) = pj_revision q" by auto
  then have "pj_project q = project" "job_pending q" by (auto simp: claimable_def job_pending_def)
  with later(1) q(1) have "pj_id q = pj_id j \<or> pj_revision j < pj_revision q" by (auto simp: pubq.newer_only_def)
  moreover have "pj_upload q = pj_upload j" if "pj_id q = pj_id j"
  proof -
    obtain p where p: "p \<in> set (publication_jobs (run_ops (sys_exec lib bl cfg) ops db1))" "pj_id p = pj_id j" "pj_upload p = pj_upload j"
      using later(2) by (auto simp: job_uploads_def)
    have "publish_inv (run_ops (sys_exec lib bl cfg) ops db1)" using later(3) by (simp add: sys_inv_def)
    from pubq.table_unique [OF publish_inv_table [OF this] q(1) p(1)] that p show ?thesis by simp
  qed
  ultimately show ?thesis using j q by auto
qed

text \<open>
  A build is dispatched to the executor at most once: after a dispatch that committed its
  intent, no history of transactions makes another dispatch of the same build succeed.
\<close>

theorem build_is_dispatched_once:
  assumes "sys_inv db" and "fst (sys_exec lib bl cfg (c, SBuildDispatch ident execution lease b) db) = Inr ()"
  shows "\<exists>e. fst (sys_exec lib bl cfg (c', SBuildDispatch ident execution' lease' b')
      (run_ops (sys_exec lib bl cfg) ops (snd (sys_exec lib bl cfg (c, SBuildDispatch ident execution lease b) db)))) = Inl e"
proof -
  let ?db' = "snd (sys_exec lib bl cfg (c, SBuildDispatch ident execution lease b) db)"
  have "sys_exec lib bl cfg (c, SBuildDispatch ident execution lease b) db = (Inr (), ?db')"
    using assms(2) by (simp add: prod_eq_iff)
  then obtain request archive where tx: "dispatch_build_tx lib cfg c ident execution lease b db = Inr ((request, archive), ?db')"
    by (auto simp: sys_exec_def in_tx_Inr_iff)
  from dispatch_build_txD [OF tx] obtain q where q: "leasedNodeBuild lib (cl_now c 0) ident execution lease db = Inr q"
    "?db' = set_build ident (\<lambda>q. q\<lparr>nb_intent := Some request, nb_until := cl_now c 2 + 60\<rparr>) db" by blast
  let ?f = "\<lambda>q. q\<lparr>nb_intent := Some request, nb_until := cl_now c 2 + 60\<rparr>"
  from leasedNodeBuildD [OF q(1)] have q': "q \<in> set (node_builds db)" "nb_id q = ident" by simp_all
  then have "?f q \<in> set (node_builds ?db')" unfolding q(2) set_build_def using bldq.updated_row [of q "node_builds db" ?f] by simp
  then have "build_dispatched ident ?db'" unfolding build_dispatched_def by (rule rev_bexI) (simp add: q'(2))
  moreover have "sys_inv ?db'" using assms(1) sys_step_inv sys_exec_step by blast
  ultimately show ?thesis by (intro built.run_blocked [where k = ident]) simp_all
qed

text \<open>
  C7: A deployment is dispatched to the runtime at most once: after a dispatch that committed
  its intent, no history of transactions makes another dispatch of the same deployment succeed.
\<close>

theorem deployment_is_dispatched_once:
  assumes "sys_inv db" and "fst (sys_exec lib bl cfg (c, SDeployDispatch ident operation lease) db) = Inr ()"
  shows "\<exists>e. fst (sys_exec lib bl cfg (c', SDeployDispatch ident operation' lease')
      (run_ops (sys_exec lib bl cfg) ops (snd (sys_exec lib bl cfg (c, SDeployDispatch ident operation lease) db)))) = Inl e"
proof -
  let ?db' = "snd (sys_exec lib bl cfg (c, SDeployDispatch ident operation lease) db)"
  have inv: "dep_inv db" using assms(1) by (simp add: sys_inv_def)
  have "sys_exec lib bl cfg (c, SDeployDispatch ident operation lease) db = (Inr (), ?db')"
    using assms(2) by (simp add: prod_eq_iff)
  then obtain request archive where tx: "dispatch_deployment_tx lib bl cfg c ident operation lease db = Inr ((request, archive), ?db')"
    by (auto simp: sys_exec_def in_tx_Inr_iff)
  from dispatch_deployment_txD [OF tx inv] obtain j where j: "j \<in> set (node_deployments db)" "nd_id j = ident"
    "?db' = set_deployment ident (\<lambda>q. q\<lparr>nd_intent := Some request, nd_until := rq_ActivateBefore request\<rparr>) db" by blast
  let ?f = "\<lambda>q. q\<lparr>nd_intent := Some request, nd_until := rq_ActivateBefore request\<rparr>"
  from j have "?f j \<in> set (node_deployments ?db')" using depq.updated_row [of j "node_deployments db" ?f] by simp
  then have "dep_dispatched ident ?db'" unfolding dep_dispatched_def by (rule rev_bexI) (simp add: j(2))
  moreover have "sys_inv ?db'" using assms(1) sys_step_inv sys_exec_step by blast
  ultimately show ?thesis by (intro deployed.run_blocked [where k = ident]) simp_all
qed

text \<open>
  The release of an active deployment cannot be deleted: a request to delete it, by
  whomever and under whatever project, changes nothing, and the archive is still retained with
  the digest that the deployment recorded.
\<close>

theorem active_release_is_retained:
  assumes "sys_inv db" and "a \<in> set (active_deployments db)"
  shows "snd (sys_exec lib bl cfg (c, SReleaseDelete token project (ac_release a)) db) = db
    \<and> (\<exists>r \<in> set (node_releases db). \<exists>j \<in> set (node_deployments db). nd_id j = ac_deployment a \<and> rr_build r = ac_release a
         \<and> rl_ArtifactSHA256 (rr_metadata r) = nd_artifact j)"
proof
  have ok: "actives_ok (node_deployments db) (deployment_refs db) (active_deployments db)"
    "refs_ok (node_deployments db) (deployment_refs db) (node_releases db)" using assms(1) by (simp_all add: sys_inv_def dep_inv_def)
  with assms(2) have ref: "(ac_deployment a, ac_release a) \<in> set (deployment_refs db)" by (auto simp: actives_ok_def)
  then have "ac_release a \<in> snd ` set (deployment_refs db)" by force
  then have "db' = db" if "sys_body lib bl cfg c (SReleaseDelete token project (ac_release a)) db = Inr (r, db')" for r db'
    using that delete_release_txD [of lib c token project "ac_release a" db r db'] by auto
  then show "snd (sys_exec lib bl cfg (c, SReleaseDelete token project (ac_release a)) db) = db"
    unfolding sys_exec_def by (intro in_tx_invariant [where P = "\<lambda>d. d = db"]) auto
  from refs_okD [OF ok(2) ref] show "\<exists>r \<in> set (node_releases db). \<exists>j \<in> set (node_deployments db). nd_id j = ac_deployment a
      \<and> rr_build r = ac_release a \<and> rl_ArtifactSHA256 (rr_metadata r) = nd_artifact j" by blast
qed

lemma active_rowD:
  assumes "dep_inv db" and "get_row ac_project project (active_deployments db) = Some a"
  shows "\<exists>j \<in> set (node_deployments db). get_row nd_id (ac_deployment a) (node_deployments db) = Some j \<and> nd_id j = ac_deployment a
    \<and> nd_project j = project \<and> nd_state j = DepSucceeded \<and> live_result j \<and> 0 < nd_revision j"
proof -
  from get_row_SomeD [OF assms(2)] have a: "a \<in> set (active_deployments db)" "ac_project a = project" by simp_all
  with assms(1) obtain j where j: "j \<in> set (node_deployments db)" "nd_id j = ac_deployment a" "nd_project j = project"
    "nd_state j = DepSucceeded" "live_result j" by (auto simp: dep_inv_def actives_ok_def)
  have "distinct (map nd_id (node_deployments db))" using dep_inv_table [OF assms(1)] by (simp add: depq.table_ok_def)
  from get_row_unique [OF this j(1)] j(2) have "get_row nd_id (ac_deployment a) (node_deployments db) = Some j" by simp
  moreover have "0 < nd_revision j" using assms(1) j(1) by (auto simp: dep_inv_def list_all_iff)
  ultimately show ?thesis using j by blast
qed

text \<open>
  What the runtime is told of the prior deployment is never a conflict for the runtime that
  serves it: in a consistent store the reader finds no active deployment, or the recorded
  observation of the active one, which passes all of its checks.
\<close>

theorem runtime_prior_is_the_recorded_route:
  assumes "sys_inv db" and "active_runtime project db = runtime" and "runtime \<noteq> []"
  shows "\<exists>j \<in> set (node_deployments db). nd_id j = activeNodeDeploymentID project db \<and> nd_runtime j = runtime \<and> nd_result j \<noteq> None
    \<and> nodeRuntimePrior None project runtime db = Inr (nd_result j)"
proof -
  have inv: "dep_inv db" using assms(1) by (simp add: sys_inv_def)
  obtain a where a: "get_row ac_project project (active_deployments db) = Some a"
    using assms(2,3) by (auto simp: active_runtime_def split: option.splits)
  from active_rowD [OF inv a] obtain j where j: "j \<in> set (node_deployments db)"
    "get_row nd_id (ac_deployment a) (node_deployments db) = Some j" "nd_id j = ac_deployment a" "nd_project j = project"
    "live_result j" "0 < nd_revision j" by blast
  from j(5) obtain ob where ob: "nd_result j = Some ob" "Active (ob_Routing ob) = Some (Fence (ob_Routing ob))"
    "Status (ob_Routing ob) = ActiveRoute" "matchesDeployment (Fence (ob_Routing ob)) j (nd_operation j)" "nd_operation j \<noteq> []"
    "ob_Settled ob" "ob_Healthy ob" by (auto simp: live_result_def split: option.splits)
  have "nd_runtime j = runtime" using assms(2) a j(2) by (simp add: active_runtime_def)
  moreover from this a j ob have "nodeRuntimePrior None project runtime db = Inr (Some ob)"
    by (auto simp: nodeRuntimePrior_def matchesDeployment_def)
  moreover have "activeNodeDeploymentID project db = nd_id j" using a j(3) by (simp add: activeNodeDeploymentID_def)
  ultimately show ?thesis using j(1) ob(1) by auto
qed

lemma set_active_names:
  assumes "dep_inv db" and "set_active a (active_deployments db) = Inr as"
  shows "get_row ac_project (ac_project a) as = Some a"
proof -
  have "distinct (map ac_project (active_deployments db))" using assms(1) by (simp add: dep_inv_def actives_ok_def)
  from set_active_rows(2) [OF assms(2) this] set_active_rows(1) [OF assms(2)]
  show ?thesis by (intro get_row_unique) auto
qed

text \<open>
  C5: Reconciliation records what the runtime observed, whatever commits while it waits: when it
  reports that it settled a deployment, the deployment's row holds the observation; it is
  succeeded and the active one of its project exactly when the route was observed active, and
  failed otherwise, in which case the active deployments are left as they were.
\<close>

theorem reconciliation_records_the_route:
  assumes inv: "sys_inv db"
    and call: "reconcileNodeDeployment lib bl cfg c1 c2 reader mid project ident db = (Inr True, db')"
  shows "\<exists>j ob operation. j \<in> set (node_deployments db') \<and> nd_id j = ident \<and> nd_project j = project
    \<and> reader (nd_runtime j) project operation = Inr ob \<and> nd_operation j = operation \<and> nd_result j = Some ob \<and> ob_Settled ob
    \<and> matchesDeployment (Fence (ob_Routing ob)) j operation
    \<and> (if Status (ob_Routing ob) = ActiveRoute
       then nd_state j = DepSucceeded \<and> activeNodeDeploymentID project db' = ident
       else nd_state j = DepFailed
         \<and> active_deployments db' = active_deployments (run_ops (sys_exec lib bl cfg) mid db))"
proof -
  let ?db1 = "run_ops (sys_exec lib bl cfg) mid db"
  obtain job release ob where chk: "reconcile_check_tx project ident db = Inr (Some (job, release))"
    and ob: "reader (nd_runtime job) project (nd_operation job) = Inr ob"
    and tx: "settle_deployment_tx c2 project ident job release (cl_now c1 0) (cl_now c1 1) ob ?db1 = Inr (True, db')"
    using call by (auto simp: reconcileNodeDeployment_def Let_def in_tx_Inr_iff split: option.splits sum.splits)
  note job = reconcile_check_known [OF chk]
  have inv1: "dep_inv ?db1" using run_sys_inv [OF inv] by (simp add: sys_inv_def)
  have known: "known_deployment job ?db1" using known_deployment.run_latched [of db job] inv job(1) by blast
  obtain success where verdict: "observation_verdict job release (cl_now c1 0) (cl_now c1 1) ob = Inr success"
    and rtx: "reconcile_deployment_tx c2 project ident job success ob ?db1 = Inr (True, db')"
    using tx by (auto simp: settle_deployment_tx_def)
  note same = known_same [OF inv1 known job(2)]
  from rtx show ?thesis
  proof (cases rule: reconcile_deployment_txD)
    case (failed j rows)
    let ?j = "settle_row False ob j"
    have row: "?j \<in> set (node_deployments db')"
      using depq.updated_row [OF failed(1), of "settle_row False ob"] by (simp add: failed(2,9))
    from verdict failed(6) have "Status (ob_Routing ob) = FailedRoute" "ob_Settled ob"
      "matchesDeployment (Fence (ob_Routing ob)) job (nd_operation job)" using observation_verdict_False by auto
    moreover have "active_deployments db' = active_deployments ?db1" by (simp add: failed(9))
    ultimately show ?thesis using failed(2,3,5) same [OF failed(1,2)] ob row
      by (intro exI [of _ ?j] exI [of _ ob]) (auto simp: settle_row_def same_deployment_def matchesDeployment_def)
  next
    case (live j as rows)
    let ?j = "settle_row True ob j"
    have row: "?j \<in> set (node_deployments db')"
      using depq.updated_row [OF live(1), of "settle_row True ob"] by (simp add: live(2,9) Let_def)
    from verdict live(6) have "Status (ob_Routing ob) = ActiveRoute" "ob_Settled ob"
      "matchesDeployment (Fence (ob_Routing ob)) job (nd_operation job)" using observation_verdict_True by auto
    moreover have "activeNodeDeploymentID project db' = ident"
      using set_active_names [OF inv1 live(8)] by (simp add: live(9) Let_def activeNodeDeploymentID_def)

    ultimately show ?thesis using live(2,3,5) same [OF live(1,2)] ob row
      by (intro exI [of _ ?j] exI [of _ ob]) (auto simp: settle_row_def same_deployment_def matchesDeployment_def)
  qed simp
qed

text \<open>
  Every retained release can be downloaded intact: whoever may write to the project gets
  the archive of a saved release, the very bytes that the validator accepted when the release
  was retained. Assumed of the validator: an archive it accepts has the digest it was asked for.
\<close>

theorem retained_release_is_downloadable:
  assumes "\<And>archive digest m. bl_artifact bl archive digest = Inr m \<Longrightarrow> mf_SHA256 m = digest"
    and "evidence_inv bl db" and "cl_drv c = None" and "uploadProject lib (cl_now c 0) token project True db = Inr p"
    and "savedNodeRelease ident project db = Some saved"
  shows "\<exists>r \<in> set (node_releases db). rr_build r = ident \<and> rr_metadata r = saved
    \<and> nodeReleaseArchive lib bl c token project ident db = Inr (rr_archive r)"
proof -
  obtain r where r: "get_row rr_build ident (node_releases db) = Some r" "rr_metadata r = saved"
    using assms(5) by (auto simp: savedNodeRelease_def split: if_splits)
  note mem = get_row_SomeD [OF r(1)]
  with assms(2) obtain b where "release_evidence bl b r" by (auto simp: evidence_inv_def)
  then obtain ob :: artifact_observation and found where "bl_artifact bl (rr_archive r) (eo_ArtifactSHA256 ob) = Inr found"
    "rl_ArtifactSHA256 saved = mf_SHA256 found" using r(2) by (auto simp: release_evidence_def)
  with assms(1) have "bl_artifact bl (rr_archive r) (rl_ArtifactSHA256 saved) = Inr found" by metis
  with assms(3-5) r mem show ?thesis
    by (intro bexI [of _ r]) (auto simp: nodeReleaseArchive_def seq_simps)
qed

section \<open>Concrete instances\<close>

definition nx_blib :: build_lib where
  "nx_blib =
     \<lparr>bl_source = (\<lambda>_. None), bl_package = (\<lambda>_. None),
      bl_artifact = (\<lambda>archive digest. if digest = ''h'' @ archive
        then Inr \<lparr>mf_SHA256 = digest, mf_Files = 1, mf_ExpandedBytes = 1\<rparr> else Inl ErrArchive),
      bl_sha256 = (\<lambda>s. s), bl_tarballs = (\<lambda>_ _. Inr []), bl_verify = (\<lambda>_ _. Inr []), bl_sanitize = (\<lambda>s. s)\<rparr>"

definition nx_key :: "char \<Rightarrow> string" where
  "nx_key ch = replicate 16 ch"

definition nx_lease :: string where
  "nx_lease = replicate 64 CHR ''l''"

definition nx_job :: "job_state \<Rightarrow> publication_job" where
  "nx_job st = \<lparr>pj_id = ''j1'', pj_project = ''p1'', pj_upload = ''u1'', pj_actor = ''bob'', pj_key = nx_key CHR ''k'', pj_revision = 1,
     pj_state = st, pj_lease = ''#L'', pj_until = 900, pj_attempts = 1, pj_created = 1\<rparr>"

definition nx_plan :: build_plan where
  "nx_plan = \<lparr>pl_Version = 1, pl_SourceSHA256 = ''s2'', pl_OS = ''linux'', pl_Architecture = ''amd64'', pl_NodeMajor = 24,
     pl_Steps = [], pl_Start = (''npm'', []), pl_Port = 3000\<rparr>"

definition nx_evidence :: artifact_observation where
  "nx_evidence = \<lparr>eo_FailureLog = [], eo_ProjectID = ''n1'', eo_ExecutionID = ''e1'', eo_SourceSHA256 = ''s2'', eo_ToolchainSHA256 = ''t'',
     eo_Architecture = ''amd64'', eo_Outcome = ''succeeded'', eo_Retired = True, eo_ObservedAt = 50, eo_ArtifactSHA256 = ''hZIP'',
     eo_DependencyManifestSHA256 = ''d''\<rparr>"

definition nx_build :: "string \<Rightarrow> build_state \<Rightarrow> build_result option \<Rightarrow> node_build" where
  "nx_build ident st res = \<lparr>nb_id = ident, nb_project = ''n1'', nb_upload = ''u2'', nb_actor = ''bob'', nb_key = nx_key CHR ''b'' @ ident,
     nb_plan = nx_plan, nb_toolchain = ''t'', nb_state = st, nb_created = 1, nb_execution = ''e1'', nb_lease = ''#'' @ nx_lease,
     nb_until = 900, nb_result = res, nb_bundle = None, nb_intent = None\<rparr>"

definition nx_release :: release_row where
  "nx_release = \<lparr>rr_build = ''b1'', rr_metadata = \<lparr>rl_BuildID = ''b1'', rl_ProjectID = ''n1'', rl_ExecutionID = ''e1'', rl_SourceSHA256 = ''s2'',
     rl_ToolchainSHA256 = ''t'', rl_Architecture = ''amd64'', rl_ArtifactSHA256 = ''hZIP'', rl_Files = 1, rl_ExpandedBytes = 1,
     rl_CompressedBytes = 3, rl_CreatedAt = 1\<rparr>, rr_archive = ''ZIP''\<rparr>"

definition nx_route :: "string \<Rightarrow> string \<Rightarrow> int \<Rightarrow> candidate" where
  "nx_route dep op n = \<lparr>c_ProjectID = ''n1'', c_RuntimeID = ''rt'', c_DeploymentID = dep, c_OperationID = op, c_Revision = n,
     c_ArtifactSHA256 = ''hZIP'', c_Backend = ''http://127.0.0.1:20000''\<rparr>"

definition nx_seen :: "candidate \<Rightarrow> runtime_observation" where
  "nx_seen rt = \<lparr>ob_Routing = \<lparr>Fence = rt, Status = ActiveRoute, Active = Some rt\<rparr>, ob_ToolchainSHA256 = ''t'', ob_Architecture = ''amd64'',
     ob_Settled = True, ob_CandidateStopped = False, ob_Healthy = True, ob_ObservedAt = 100\<rparr>"

definition nx_dep :: "string \<Rightarrow> int \<Rightarrow> deployment_state \<Rightarrow> runtime_observation option \<Rightarrow> node_deployment" where
  "nx_dep ident n st res = \<lparr>nd_id = ident, nd_project = ''n1'', nd_release = ''b1'', nd_artifact = ''hZIP'', nd_runtime = ''rt'',
     nd_actor = ''bob'', nd_key = nx_key CHR ''d'' @ ident, nd_revision = n, nd_state = st, nd_operation = ''op'' @ ident,
     nd_lease = ''#'' @ nx_lease, nd_until = 900, nd_created = 1, nd_result = res, nd_intent = None\<rparr>"

definition nx_project :: "string \<Rightarrow> string \<Rightarrow> project" where
  "nx_project ident kind = \<lparr>p_id = ident, p_workspace = ''w'', p_name = ident, p_kind = kind, p_deletion_requested_at = 0,
     p_deletion_error = []\<rparr>"

definition nx_upload :: "string \<Rightarrow> string \<Rightarrow> string \<Rightarrow> upload" where
  "nx_upload ident project sha = \<lparr>up_id = ident, up_project = project, up_sha256 = sha, up_files = 1, up_expanded = 1,
     up_archive = ''SRC'', up_created = 1\<rparr>"

definition nx_db :: "publication_job list \<Rightarrow> node_build list \<Rightarrow> node_deployment list \<Rightarrow> (string \<times> string) list \<Rightarrow> active_row list \<Rightarrow> node_db" where
  "nx_db jobs builds deps refs actives =
     \<lparr>users = users ax_db, workspaces = workspaces ax_db, memberships = memberships ax_db, sessions = sessions ax_db,
      account_tokens = [], invitations = [], mail_outbox = [], audit_events = [], hosting_policies = [], billing_subscriptions = [],
      billing_checkouts = [], billing_customers = [], billing_charges = [],
      projects = [nx_project ''p1'' ''static'', nx_project ''n1'' ''node''], uploads = [nx_upload ''u1'' ''p1'' ''s1'', nx_upload ''u2'' ''n1'' ''s2''],
      publication_jobs = jobs, publications = [], github_pipelines = [], github_events = [], github_connections = [],
      node_builds = nx_build ''b1'' BuildSucceeded (Some (ArtifactEvidence nx_evidence)) # builds, node_releases = [nx_release],
      node_deployments = deps, deployment_refs = refs, active_deployments = actives\<rparr>"

lemmas nx_defs = nx_blib_def nx_key_def nx_job_def nx_plan_def nx_evidence_def nx_build_def nx_release_def nx_route_def nx_seen_def
  nx_dep_def nx_project_def nx_upload_def nx_db_def ax_defs kx_config_def

lemmas nx_inv_simps = sys_inv_def publish_inv_def build_inv_def dep_inv_def pubq.ordered_ok_def depq.ordered_ok_def pubq.table_ok_def
  bldq.table_ok_def depq.table_ok_def live_jobs_ok_def refs_ok_def actives_ok_def project_builds_def project_releases_def
  has_upload_def has_source_def release_of_def job_pending_def build_pending_def dep_pending_def live_result_def matchesDeployment_def

text \<open>A running publication; a leased build; an active and a leased deployment.\<close>

definition nx_publishing :: node_db where
  "nx_publishing = nx_db [nx_job JobRunning] [] [] [] []"

definition nx_building :: node_db where
  "nx_building = nx_db [] [nx_build ''b2'' BuildRunning None] [] [] []"

definition nx_deploying :: node_db where
  "nx_deploying = nx_db [] [] [nx_dep ''d1'' 1 DepSucceeded (Some (nx_seen (nx_route ''d1'' ''opd1'' 1))), nx_dep ''d2'' 2 DepRunning None]
     [(''d1'', ''b1''), (''d2'', ''b1'')] [\<lparr>ac_project = ''n1'', ac_deployment = ''d1'', ac_release = ''b1''\<rparr>]"

lemma nx_publishing_inv: "sys_inv nx_publishing"
  by (simp add: nx_publishing_def nx_inv_simps nx_defs)

lemma nx_building_inv: "sys_inv nx_building"
  by (simp add: nx_building_def nx_inv_simps nx_defs)

lemma nx_deploying_inv: "sys_inv nx_deploying"
  by (simp add: nx_deploying_def nx_inv_simps nx_defs)

theorem quotas_are_kept_witness:
  "\<exists>cfg. configureProjectCapacity 10 5 kx_config = Inr cfg
     \<and> quota_inv cfg (run_ops (sys_exec ax_lib nx_blib cfg)
          [(ax_call CHR ''x'', SPortal (PCreateProject ''A'' ''w'' ''Site'' ''static''))] empty_node)"
proof -
  obtain cfg where cfg: "configureProjectCapacity 10 5 kx_config = Inr cfg" by (simp add: configureProjectCapacity_def)
  from quotas_are_kept [OF cfg] cfg show ?thesis by blast
qed

lemmas nx_eval = sys_exec_def in_tx_def with_tx_def drop_value_def seq_simps Let_def requireProjectHostingAccess_def
  requireHostingKind_def workspaceHostingLimits_def qualifyingHostingEntitlement_def githubPipelineJobAuthorized_def hasPrefix_def audit_def insert_row_def
  active_user_def set_job_def set_build_def set_deployment_def

lemma nx_finish:
  "sys_exec ax_lib nx_blib kx_config (ax_call CHR ''x'', SPortal (PFinish ''j1'' ''L'' ''s1'' True)) nx_publishing
   = (Inr (), snd (sys_exec ax_lib nx_blib kx_config (ax_call CHR ''x'', SPortal (PFinish ''j1'' ''L'' ''s1'' True)) nx_publishing))
   \<and> publications (snd (sys_exec ax_lib nx_blib kx_config (ax_call CHR ''x'', SPortal (PFinish ''j1'' ''L'' ''s1'' True)) nx_publishing))
     = [(''p1'', ''j1'')]"
  by (simp add: nx_eval finish_publication_tx_def publicationActor_def actor_rows_def publication_key_def publish_def
      nx_publishing_def nx_defs)

theorem live_release_is_acknowledged_witness:
  "\<exists>j u. j \<in> set (publication_jobs nx_publishing) \<and> pj_id j = ''j1'' \<and> u \<in> set (uploads nx_publishing) \<and> up_id u = pj_upload j
     \<and> up_sha256 u = ''s1'' \<and> publicationActor ''j1'' nx_publishing = Inr True"
proof -
  let ?i = "(ax_call CHR ''x'', SPortal (PFinish ''j1'' ''L'' ''s1'' True))"
  have "publications (snd (sys_exec ax_lib nx_blib kx_config ?i nx_publishing)) \<noteq> publications nx_publishing"
    using nx_finish by (simp add: nx_publishing_def nx_db_def)
  from live_release_is_acknowledged [OF nx_publishing_inv this] show ?thesis by auto
qed

theorem publication_is_finished_once_witness:
  "\<exists>e. fst (sys_exec ax_lib nx_blib kx_config (ax_call CHR ''y'', SPortal (PFinish ''j1'' ''L'' ''s1'' True))
     (run_ops (sys_exec ax_lib nx_blib kx_config) [(ax_call CHR ''z'', SPortal (PClaim ''p1''))]
       (snd (sys_exec ax_lib nx_blib kx_config (ax_call CHR ''x'', SPortal (PFinish ''j1'' ''L'' ''s1'' True)) nx_publishing)))) = Inl e"
  by (rule publication_is_finished_once [OF nx_publishing_inv]) (use nx_finish in \<open>metis fst_conv\<close>)

definition nx_queued :: node_db where
  "nx_queued = nx_db [nx_job JobQueued] [] [] [] []"

lemma nx_queued_inv: "sys_inv nx_queued"
  by (simp add: nx_queued_def nx_inv_simps nx_defs)

definition nx_late :: call where
  "nx_late = \<lparr>cl_drv = None, cl_now = (\<lambda>_. 2000), cl_token = (\<lambda>n. ''late''), cl_bytes = (\<lambda>_. []), cl_hash_ctx = False\<rparr>"

lemma nx_claims:
  "\<exists>a db1 b db2. claim_publication_tx ax_lib kx_config (ax_call CHR ''x'') ''p1'' nx_queued = Inr (Some a, db1)
     \<and> claim_publication_tx ax_lib kx_config nx_late ''p1'' db1 = Inr (Some b, db2) \<and> pc_Lease a = ''x'' \<and> pc_Lease b = ''late''"
  by (simp add: nx_eval claim_publication_tx_def claimable_def publicationActor_def actor_rows_def publication_key_def
      nx_queued_def nx_late_def nx_defs)

theorem publication_claims_are_ordered_witness:
  "\<exists>a db1 b db2. claim_publication_tx ax_lib kx_config (ax_call CHR ''x'') ''p1'' nx_queued = Inr (Some a, db1)
     \<and> claim_publication_tx ax_lib kx_config nx_late ''p1'' db1 = Inr (Some b, db2)
     \<and> (pj_id (pc_Job b) = pj_id (pc_Job a) \<and> pj_upload (pc_Job b) = pj_upload (pc_Job a)
        \<or> pj_revision (pc_Job a) < pj_revision (pc_Job b))"
proof -
  from nx_claims obtain a db1 b db2 where
    cl: "claim_publication_tx ax_lib kx_config (ax_call CHR ''x'') ''p1'' nx_queued = Inr (Some a, db1)"
    "claim_publication_tx ax_lib kx_config nx_late ''p1'' db1 = Inr (Some b, db2)" by blast
  then have "claim_publication_tx ax_lib kx_config nx_late ''p1'' (run_ops (sys_exec ax_lib nx_blib kx_config) [] db1) = Inr (Some b, db2)"
    by simp
  from publication_claims_are_ordered [OF nx_queued_inv cl(1) this] cl show ?thesis by blast
qed

lemma nx_dispatch_build:
  "fst (sys_exec ax_lib nx_blib kx_config (ax_call CHR ''x'', SBuildDispatch ''b2'' ''e1'' nx_lease \<lparr>bd_Directory = ''d'', bd_ManifestSHA256 = ''m''\<rparr>)
     nx_building) = Inr ()"
  by (simp add: nx_eval dispatch_build_tx_def leasedNodeBuild_def build_lease_held_def nodeBuildActor_def build_actor_rows_def
      build_key_def nx_building_def nx_lease_def nx_defs)

theorem build_is_dispatched_once_witness:
  "\<exists>e. fst (sys_exec ax_lib nx_blib kx_config
       (ax_call CHR ''y'', SBuildDispatch ''b2'' ''e1'' nx_lease \<lparr>bd_Directory = ''d'', bd_ManifestSHA256 = ''m''\<rparr>)
     (run_ops (sys_exec ax_lib nx_blib kx_config) []
       (snd (sys_exec ax_lib nx_blib kx_config
         (ax_call CHR ''x'', SBuildDispatch ''b2'' ''e1'' nx_lease \<lparr>bd_Directory = ''d'', bd_ManifestSHA256 = ''m''\<rparr>) nx_building)))) = Inl e"
  by (rule build_is_dispatched_once [OF nx_building_inv nx_dispatch_build])

lemma nx_dispatch_deployment:
  "fst (sys_exec ax_lib nx_blib kx_config (ax_call CHR ''x'', SDeployDispatch ''d2'' ''opd2'' nx_lease) nx_deploying) = Inr ()"
  by (simp add: nx_eval dispatch_deployment_tx_def dep_lease_held_def nodeDeploymentActor_def deployment_actor_rows_def deployment_key_def
      savedNodeRelease_def referenced_archive_def nx_deploying_def nx_lease_def nx_defs)

theorem deployment_is_dispatched_once_witness:
  "\<exists>e. fst (sys_exec ax_lib nx_blib kx_config (ax_call CHR ''y'', SDeployDispatch ''d2'' ''opd2'' nx_lease)
     (run_ops (sys_exec ax_lib nx_blib kx_config) []
       (snd (sys_exec ax_lib nx_blib kx_config (ax_call CHR ''x'', SDeployDispatch ''d2'' ''opd2'' nx_lease) nx_deploying)))) = Inl e"
  by (rule deployment_is_dispatched_once [OF nx_deploying_inv nx_dispatch_deployment])

theorem active_release_is_retained_witness:
  "snd (sys_exec ax_lib nx_blib kx_config (ax_call CHR ''x'', SReleaseDelete ''A'' ''n1'' ''b1'') nx_deploying) = nx_deploying"
proof -
  have "\<lparr>ac_project = ''n1'', ac_deployment = ''d1'', ac_release = ''b1''\<rparr> \<in> set (active_deployments nx_deploying)"
    by (simp add: nx_deploying_def nx_db_def)
  from active_release_is_retained [OF nx_deploying_inv this, of ax_lib nx_blib kx_config "ax_call CHR ''x''" "''A''" "''n1''"]
  show ?thesis by simp
qed

theorem runtime_prior_is_the_recorded_route_witness:
  "\<exists>j \<in> set (node_deployments nx_deploying). nd_id j = ''d1'' \<and> nodeRuntimePrior None ''n1'' ''rt'' nx_deploying = Inr (nd_result j)"
proof -
  have "active_runtime ''n1'' nx_deploying = ''rt''" "activeNodeDeploymentID ''n1'' nx_deploying = ''d1''"
    by (simp_all add: active_runtime_def activeNodeDeploymentID_def nx_deploying_def nx_db_def nx_dep_def)
  with runtime_prior_is_the_recorded_route [OF nx_deploying_inv, of "''n1''" "''rt''"] show ?thesis by auto
qed

definition nx_reader :: "string \<Rightarrow> string \<Rightarrow> string \<Rightarrow> runtime_observation result" where
  "nx_reader runtime project operation = Inr (nx_seen (nx_route ''d2'' operation 2))"

lemma nx_reconcile:
  "fst (reconcileNodeDeployment ax_lib nx_blib kx_config (ax_call CHR ''x'') (ax_call CHR ''y'') nx_reader [] ''n1'' ''d2'' nx_deploying) = Inr True"
  by (simp add: nx_eval reconcileNodeDeployment_def reconcile_check_tx_def savedNodeRelease_def settle_deployment_tx_def observation_verdict_def
      matchesDeployment_def reconcile_deployment_tx_def activeNodeDeploymentID_def nodeDeploymentActor_def deployment_actor_rows_def
      deployment_key_def set_active_def drop_ref_def nx_reader_def nx_deploying_def nx_defs)

theorem reconciliation_records_the_route_witness:
  "activeNodeDeploymentID ''n1''
     (snd (reconcileNodeDeployment ax_lib nx_blib kx_config (ax_call CHR ''x'') (ax_call CHR ''y'') nx_reader [] ''n1'' ''d2'' nx_deploying)) = ''d2''"
proof -
  let ?r = "reconcileNodeDeployment ax_lib nx_blib kx_config (ax_call CHR ''x'') (ax_call CHR ''y'') nx_reader [] ''n1'' ''d2'' nx_deploying"
  have "?r = (Inr True, snd ?r)" using nx_reconcile by (simp add: prod_eq_iff)
  from reconciliation_records_the_route [OF nx_deploying_inv this] show ?thesis
    by (auto simp: nx_reader_def nx_seen_def split: if_splits)
qed

lemma nx_evidence: "evidence_inv nx_blib nx_deploying"
  by (simp add: evidence_inv_def release_evidence_def nx_deploying_def nx_defs)

theorem retained_release_is_downloadable_witness:
  "\<exists>r \<in> set (node_releases nx_deploying). nodeReleaseArchive ax_lib nx_blib (ax_call CHR ''x'') ''A'' ''n1'' ''b1'' nx_deploying = Inr (rr_archive r)"
proof -
  have law: "mf_SHA256 m = digest" if "bl_artifact nx_blib archive digest = Inr m" for archive digest m
    using that by (auto simp: nx_blib_def split: if_splits)
  have p: "uploadProject ax_lib (cl_now (ax_call CHR ''x'') 0) ''A'' ''n1'' True nx_deploying = Inr (nx_project ''n1'' ''node'', ''alice'')"
    by (simp add: uploadProject_def authorize_def session_user_def get_member_def active_user_def seq_simps nx_deploying_def nx_defs)
  have saved: "savedNodeRelease ''b1'' ''n1'' nx_deploying = Some (rr_metadata nx_release)"
    by (simp add: savedNodeRelease_def nx_deploying_def nx_defs)
  have drv: "cl_drv (ax_call CHR ''x'') = None" by (simp add: ax_call_def)
  have "\<exists>r \<in> set (node_releases nx_deploying). rr_build r = ''b1'' \<and> rr_metadata r = rr_metadata nx_release
      \<and> nodeReleaseArchive ax_lib nx_blib (ax_call CHR ''x'') ''A'' ''n1'' ''b1'' nx_deploying = Inr (rr_archive r)"
    by (rule retained_release_is_downloadable [OF _ nx_evidence drv p saved]) (rule law)
  then show ?thesis by blast
qed

end
