(* ===== verification/Go_Path.thy ===== *)
theory Go_Path
  imports Go_Lib
begin

text \<open>
  Further parts of the Go standard library, used by the archive validators: \<open>unicode/utf8\<close>
  and \<open>unicode\<close> (valid strings, control characters, \<open>strings.ToLower\<close>) and \<open>path\<close> (\<open>Clean\<close>,
  \<open>Dir\<close>, \<open>Join\<close>), with the loop over the parent directories of a name that the sources write
  as \<open>for parent := path.Dir(name); parent != "."; parent = path.Dir(parent)\<close>.
\<close>

section \<open>UTF-8\<close>

definition continuation :: "nat \<Rightarrow> nat list \<Rightarrow> bool" where
  "continuation n bs \<longleftrightarrow> n \<le> length bs \<and> list_all (\<lambda>b. 128 \<le> b \<and> b < 192) (take n bs)"

text \<open>The number of bytes of the well-formed rune at the head of a string, 0 when there is none.\<close>

definition utf8_len :: "string \<Rightarrow> nat" where
  "utf8_len s =
     (case map byte_of (take 4 s) of
        [] \<Rightarrow> 0
      | b # bs \<Rightarrow>
          if b < 128 then 1
          else if 194 \<le> b \<and> b \<le> 223 \<and> continuation 1 bs then 2
          else if 224 \<le> b \<and> b \<le> 239 \<and> continuation 2 bs
                  \<and> (b = 224 \<longrightarrow> 160 \<le> hd bs) \<and> (b = 237 \<longrightarrow> hd bs \<le> 159) then 3
          else if 240 \<le> b \<and> b \<le> 244 \<and> continuation 3 bs
                  \<and> (b = 240 \<longrightarrow> 144 \<le> hd bs) \<and> (b = 244 \<longrightarrow> hd bs \<le> 143) then 4
          else 0)"

text \<open>The runes of a string, each as its own bytes; \<open>None\<close> when the string is not valid UTF-8.\<close>

function runes :: "string \<Rightarrow> string list option" where
  "runes s =
     (if s = [] then Some []
      else if utf8_len s = 0 then None
      else map_option ((#) (take (utf8_len s) s)) (runes (drop (utf8_len s) s)))"
  by pat_completeness auto
termination
  by (relation "measure length") auto

declare runes.simps [simp del]

definition validString :: "string \<Rightarrow> bool" where
  "validString s \<longleftrightarrow> runes s \<noteq> None"

text \<open>\<open>unicode.IsControl\<close> on the bytes of one rune: U+0000 to U+001F and U+007F to U+009F.\<close>

definition isControl :: "string \<Rightarrow> bool" where
  "isControl c =
     (case map byte_of c of
        [b] \<Rightarrow> b < 32 \<or> b = 127
      | [b, d] \<Rightarrow> b = 194 \<and> d < 160
      | _ \<Rightarrow> False)"

definition containsControl :: "string \<Rightarrow> bool" where
  "containsControl s = (case runes s of None \<Rightarrow> False | Some rs \<Rightarrow> list_ex isControl rs)"

text \<open>
  \<open>strings.ToLower\<close> on valid UTF-8: rune by rune, ASCII letters as usual. The Unicode table for
  the other runes is the argument \<open>table\<close>, from the bytes of a rune to the bytes of its lower
  case. Of the table it matters only that no rune outside ASCII is the upper case of \<open>/\<close> or \<open>.\<close>.
\<close>

definition rune_lower :: "(string \<Rightarrow> string) \<Rightarrow> string \<Rightarrow> string" where
  "rune_lower table c =
     (case c of
        [d] \<Rightarrow> if byte_of d < 128
                then [if 65 \<le> byte_of d \<and> byte_of d \<le> 90 then char_of (byte_of d + 32) else d]
                else table c
      | _ \<Rightarrow> table c)"

definition toLower :: "(string \<Rightarrow> string) \<Rightarrow> string \<Rightarrow> string" where
  "toLower table s = (case runes s of None \<Rightarrow> s | Some rs \<Rightarrow> concat (map (rune_lower table) rs))"

definition lower_table :: "(string \<Rightarrow> string) \<Rightarrow> bool" where
  "lower_table table \<longleftrightarrow> (\<forall>c. table c \<noteq> [] \<and> CHR ''/'' \<notin> set (table c) \<and> CHR ''.'' \<notin> set (table c))"

lemma utf8_len_one: "utf8_len s = Suc 0 \<longleftrightarrow> s \<noteq> [] \<and> byte_of (hd s) < 128"
  by (cases s) (auto simp: utf8_len_def)

lemma utf8_len_bytes:
  assumes "1 < utf8_len s" and "c \<in> set (take (utf8_len s) s)"
  shows "128 \<le> byte_of c"
proof -
  obtain d ds where s: "s = d # ds" using assms(2) by (cases s) auto
  have d: "194 \<le> byte_of d" using assms(1) by (auto simp: s utf8_len_def split: if_splits)
  have bs: "continuation (utf8_len s - 1) (map byte_of (take 3 ds))" "utf8_len s - 1 \<le> 3"
    using assms(1) by (simp_all add: s utf8_len_def split: if_splits) blast+
  let ?n = "utf8_len s - 1"
  have "take (utf8_len s) s = d # take ?n ds" using assms(1) by (cases "utf8_len s") (auto simp: s)
  with assms(2) consider "c = d" | "c \<in> set (take ?n ds)" by auto
  then show ?thesis
  proof cases
    case 2
    with bs have "byte_of c \<in> set (take ?n (map byte_of (take 3 ds)))"
      by (simp add: take_map min_absorb1)
    with bs show ?thesis by (auto simp: continuation_def list_all_iff)
  qed (use d in simp)
qed

text \<open>A rune is one ASCII byte or has no ASCII byte in it.\<close>

definition wide :: "string \<Rightarrow> bool" where
  "wide c \<longleftrightarrow> c \<noteq> [] \<and> list_all (\<lambda>d. 128 \<le> byte_of d) c"

definition encoded_rune :: "string \<Rightarrow> bool" where
  "encoded_rune c \<longleftrightarrow> (\<exists>d. c = [d] \<and> byte_of d < 128) \<or> wide c"

lemma runes_SomeD:
  assumes "runes s = Some rs"
  shows "concat rs = s \<and> list_all encoded_rune rs"
  using assms
proof (induction s arbitrary: rs rule: runes.induct)
  case (1 s)
  show ?case
  proof (cases "s = []")
    case True
    with 1 show ?thesis by (simp add: runes.simps)
  next
    case False
    let ?n = "utf8_len s"
    from 1(2) False obtain rs' where n: "?n \<noteq> 0" and rs': "runes (drop ?n s) = Some rs'" "rs = take ?n s # rs'"
      by (subst (asm) runes.simps) (auto split: if_splits)
    have "encoded_rune (take ?n s)"
    proof (cases "?n = 1")
      case True
      then have "take ?n s = [hd s]" "byte_of (hd s) < 128" using False utf8_len_one [of s] by (cases s; simp)+
      then show ?thesis unfolding encoded_rune_def by blast
    next
      case many: False
      with n have "1 < ?n" by simp
      then have "list_all (\<lambda>d. 128 \<le> byte_of d) (take ?n s)" "take ?n s \<noteq> []"
        using utf8_len_bytes [of s] False n by (simp_all add: list_all_iff)
      then show ?thesis by (simp add: encoded_rune_def wide_def)
    qed
    with 1(1) [OF False n rs'(1)] rs' show ?thesis by simp
  qed
qed

lemma runes_ascii: "list_all (\<lambda>c. byte_of c < 128) s \<Longrightarrow> runes s = Some (map (\<lambda>c. [c]) s)"
proof (induction s)
  case (Cons c s)
  then have "utf8_len (c # s) = 1" using utf8_len_one [of "c # s"] by simp
  with Cons show ?case by (simp add: runes.simps [of "c # s"])
qed (simp add: runes.simps)

text \<open>Lower casing neither makes nor removes a slash or a dot.\<close>

lemma ascii_lower_punct:
  assumes "e \<in> {CHR ''/'', CHR ''.''}" and "byte_of d < 128"
  shows "set (rune_lower table [d]) = {e} \<longleftrightarrow> d = e"
proof (cases "65 \<le> byte_of d \<and> byte_of d \<le> 90")
  case True
  then have "byte_of (char_of (byte_of d + 32)) = byte_of d + 32" by simp
  then have "byte_of (char_of (byte_of d + 32)) \<noteq> byte_of e" "byte_of d \<noteq> byte_of e"
    using True assms(1) by (auto simp: byte_of_def)
  then have "char_of (byte_of d + 32) \<noteq> e" "d \<noteq> e" by metis+
  with True assms show ?thesis by (simp add: rune_lower_def)
next
  case False
  with assms(2) show ?thesis by (auto simp: rune_lower_def)
qed

lemma rune_lower_punct:
  assumes "lower_table table" and "encoded_rune c" and "e \<in> {CHR ''/'', CHR ''.''}"
  shows "e \<in> set (rune_lower table c) \<longleftrightarrow> c = [e]" and "rune_lower table c \<noteq> []"
proof -
  consider (ascii) d where "c = [d]" "byte_of d < 128" | (wide) "wide c" using assms(2) by (auto simp: encoded_rune_def)
  then have "(e \<in> set (rune_lower table c) \<longleftrightarrow> c = [e]) \<and> rune_lower table c \<noteq> []"
  proof cases
    case ascii
    then have "\<exists>d'. rune_lower table c = [d']" by (simp add: rune_lower_def)
    with ascii_lower_punct [OF assms(3) ascii(2), of table] ascii show ?thesis by auto
  next
    case wide
    then have c: "rune_lower table c = table c" by (auto simp: rune_lower_def wide_def split: list.splits)
    moreover have "c \<noteq> [e]" using wide assms(3) by (auto simp: wide_def byte_of_def)
    ultimately show ?thesis using assms(1,3) by (auto simp: lower_table_def)
  qed
  then show "e \<in> set (rune_lower table c) \<longleftrightarrow> c = [e]" and "rune_lower table c \<noteq> []" by auto
qed

text \<open>
  Splitting at slashes commutes with lower casing, and a component that is empty, \<open>.\<close> or \<open>..\<close>
  after lower casing was so before.
\<close>

lemma splitByte_concat:
  assumes "\<And>c. c \<in> set rs \<Longrightarrow> sep \<in> set c \<longleftrightarrow> c = [sep]"
    and "\<And>c. c \<in> set rs \<Longrightarrow> sep \<in> set (f c) \<longleftrightarrow> c = [sep]" and "f [sep] = [sep]"
  shows "list_all2 (\<lambda>a b. \<exists>cs. a = concat cs \<and> b = concat (map f cs) \<and> set cs \<subseteq> set rs)
           (splitByte sep (concat rs)) (splitByte sep (concat (map f rs)))"
  using assms(1,2)
proof (induction rs)
  case Nil
  then show ?case by (auto intro: exI [of _ "[]"])
next
  case (Cons c rs)
  have pre: "splitByte sep (x @ y) = (x @ hd (splitByte sep y)) # tl (splitByte sep y)" if "sep \<notin> set x" for x y
    using that by (induction x) (auto split: list.splits simp: hd_Cons_tl)
  from Cons have IH: "list_all2 (\<lambda>a b. \<exists>cs. a = concat cs \<and> b = concat (map f cs) \<and> set cs \<subseteq> set rs)
           (splitByte sep (concat rs)) (splitByte sep (concat (map f rs)))" by simp
  have mono: "list_all2 (\<lambda>a b. \<exists>cs. a = concat cs \<and> b = concat (map f cs) \<and> set cs \<subseteq> set (c # rs)) xs ys"
    if "list_all2 (\<lambda>a b. \<exists>cs. a = concat cs \<and> b = concat (map f cs) \<and> set cs \<subseteq> set rs) xs ys" for xs ys
    using that by (rule list_all2_mono) (metis (no_types, lifting) set_subset_Cons subset_trans)
  show ?case
  proof (cases "c = [sep]")
    case True
    with mono [OF IH] assms(3) show ?thesis by (auto intro: exI [of _ "[]"])
  next
    case False
    with Cons.prems have c: "sep \<notin> set c" "sep \<notin> set (f c)" by auto
    obtain a as b bs where ab: "splitByte sep (concat rs) = a # as" "splitByte sep (concat (map f rs)) = b # bs"
      by (meson list.exhaust splitByte_not_Nil)
    from IH ab obtain cs where cs: "a = concat cs" "b = concat (map f cs)" "set cs \<subseteq> set rs" by auto
    have "\<exists>cs'. c @ a = concat cs' \<and> f c @ b = concat (map f cs') \<and> set cs' \<subseteq> set (c # rs)"
      by (rule exI [of _ "c # cs"]) (use cs in auto)
    with IH ab pre [OF c(1)] pre [OF c(2)] show ?thesis by (simp add: mono [simplified])
  qed
qed

lemma lower_dots:
  assumes "lower_table table" and "list_all encoded_rune cs" and "set (concat (map (rune_lower table) cs)) \<subseteq> {CHR ''.''}"
  shows "concat cs = concat (map (rune_lower table) cs)"
  using assms(2,3)
proof (induction cs)
  case (Cons c cs)
  have punct: "CHR ''.'' \<in> set (rune_lower table c) \<longleftrightarrow> c = ''.''" "rune_lower table c \<noteq> []"
    using rune_lower_punct [OF assms(1), of c "CHR ''.''"] Cons.prems by simp_all
  with Cons.prems(2) have "c = ''.''" by (cases "rune_lower table c") auto
  moreover from this have "rune_lower table c = ''.''" by (simp add: rune_lower_def byte_of_def)
  ultimately show ?case using Cons by simp
qed simp

section \<open>Paths\<close>

text \<open>
  \<open>path.Clean\<close>: the components are read from left to right onto a stack (its top first); empty
  and \<open>.\<close> components are dropped, \<open>..\<close> removes the component before it, a leading \<open>..\<close> stays in
  a relative path and disappears at the root.
\<close>

definition clean_step :: "bool \<Rightarrow> string list \<Rightarrow> string \<Rightarrow> string list" where
  "clean_step rooted st w =
     (if w = [] \<or> w = ''.'' then st
      else if w = ''..'' then
        (case st of
           [] \<Rightarrow> if rooted then [] else [w]
         | t # ts \<Rightarrow> if t = ''..'' then w # st else ts)
      else w # st)"

definition path_clean :: "string \<Rightarrow> string" where
  "path_clean s =
     (let rooted = hasPrefix s ''/'';
          out = joinByte CHR ''/'' (rev (foldl (clean_step rooted) [] (splitByte CHR ''/'' s)))
      in if rooted then CHR ''/'' # out else if out = [] then ''.'' else out)"

text \<open>\<open>path.Dir\<close> cleans what \<open>path.Split\<close> leaves of the path up to its last slash.\<close>

definition path_dir :: "string \<Rightarrow> string" where
  "path_dir s = path_clean (rev (dropWhile (\<lambda>c. c \<noteq> CHR ''/'') (rev s)))"

definition path_join :: "string list \<Rightarrow> string" where
  "path_join es =
     (let ne = filter (\<lambda>e. e \<noteq> []) es
      in if ne = [] then [] else path_clean (joinByte CHR ''/'' ne))"

text \<open>A component that names something below its directory, and a path of such components.\<close>

definition plain :: "string \<Rightarrow> bool" where
  "plain w \<longleftrightarrow> w \<noteq> [] \<and> w \<noteq> ''.'' \<and> w \<noteq> ''..''"

lemma plain_simps [simp]: "\<not> plain []" "\<not> plain ''.''" "\<not> plain ''..''"
  by (simp_all add: plain_def)

definition rel_parts :: "string list \<Rightarrow> bool" where
  "rel_parts ws \<longleftrightarrow> ws \<noteq> [] \<and> (\<forall>w \<in> set ws. plain w \<and> CHR ''/'' \<notin> set w)"

abbreviation slashed :: "string list \<Rightarrow> string" where
  "slashed \<equiv> joinByte CHR ''/''"

abbreviation parts :: "string \<Rightarrow> string list" where
  "parts \<equiv> splitByte CHR ''/''"

lemma parts_no_slash: "w \<in> set (splitByte sep s) \<Longrightarrow> sep \<notin> set w"
  by (induction s arbitrary: w) (auto split: list.splits if_splits)

lemma rel_parts_split: "rel_parts (parts s) \<longleftrightarrow> (\<forall>w \<in> set (parts s). plain w)"
  by (auto simp: rel_parts_def dest: parts_no_slash)

lemma parts_slashed: "rel_parts ws \<Longrightarrow> parts (slashed ws) = ws"
  by (intro split_joinByte) (auto simp: rel_parts_def)

lemma slashed_inj: "rel_parts us \<Longrightarrow> rel_parts ws \<Longrightarrow> slashed us = slashed ws \<longleftrightarrow> us = ws"
  by (metis parts_slashed)

lemma hasPrefix_slash: "hasPrefix s ''/'' \<Longrightarrow> [] \<in> set (parts s)"
  by (cases s) (simp_all add: hasPrefix_def)

lemma slashed_relative:
  assumes "rel_parts ws"
  shows "\<not> hasPrefix (slashed ws) ''/''" and "slashed ws \<noteq> []" and "slashed ws \<noteq> ''.''"
proof -
  have p: "parts (slashed ws) = ws" using assms by (rule parts_slashed)
  have w: "w \<in> set ws \<Longrightarrow> plain w" for w using assms by (simp add: rel_parts_def)
  have "ws \<noteq> [[]]" "ws \<noteq> [''.'']" "[] \<notin> set ws"
    using w [of "[]"] w [of "''.''"] by (metis list.set_intros(1) plain_def)+
  moreover have "parts [] = [[]]" "parts ''.'' = [''.'']" by simp_all
  ultimately show "slashed ws \<noteq> []" "slashed ws \<noteq> ''.''" "\<not> hasPrefix (slashed ws) ''/''"
    using p hasPrefix_slash [of "slashed ws"] by metis+
qed

lemma foldl_clean_plain: "\<forall>w \<in> set ws. plain w \<Longrightarrow> foldl (clean_step rooted) st ws = rev ws @ st"
  by (induction ws arbitrary: st) (auto simp: clean_step_def plain_def)

lemma clean_slashed: "rel_parts ws \<Longrightarrow> path_clean (slashed ws) = slashed ws"
  using slashed_relative [of ws] parts_slashed [of ws]
  by (simp add: path_clean_def Let_def foldl_clean_plain rel_parts_def)

lemma foldl_clean_undotted:
  "''.'' \<notin> set ws \<Longrightarrow> ''..'' \<notin> set ws \<Longrightarrow> foldl (clean_step rooted) st ws = rev (filter (\<lambda>w. w \<noteq> []) ws) @ st"
  by (induction ws arbitrary: st) (auto simp: clean_step_def)

text \<open>What the two validators ask of a name amounts to plain components only.\<close>

lemma clean_relative:
  assumes "path_clean s = s" and "\<not> hasPrefix s ''/''" and "''.'' \<notin> set (parts s)" and "''..'' \<notin> set (parts s)"
  shows "rel_parts (parts s)"
proof -
  let ?ws = "filter (\<lambda>w. w \<noteq> []) (parts s)"
  have ws: "?ws = [] \<or> rel_parts ?ws"
    using assms(3,4) by (auto simp: rel_parts_def plain_def dest: parts_no_slash)
  have c: "path_clean s = (if slashed ?ws = [] then ''.'' else slashed ?ws)"
    using assms(2-4) by (simp add: path_clean_def foldl_clean_undotted Let_def)
  have "slashed ?ws \<noteq> []"
  proof
    assume "slashed ?ws = []"
    with c assms(1) have "parts s = [''.'']" by simp
    with assms(3) show False by simp
  qed
  with c assms(1) ws have "rel_parts ?ws" "s = slashed ?ws" by auto
  then show ?thesis using parts_slashed [of ?ws] by metis
qed

lemma rel_parts_iff:
  "rel_parts (parts s) \<longleftrightarrow>
     path_clean s = s \<and> \<not> hasPrefix s ''/'' \<and> ''.'' \<notin> set (parts s) \<and> ''..'' \<notin> set (parts s)"
proof
  assume r: "rel_parts (parts s)"
  have "slashed (parts s) = s" by (rule join_splitByte)
  with clean_slashed [OF r] slashed_relative [OF r] r
  show "path_clean s = s \<and> \<not> hasPrefix s ''/'' \<and> ''.'' \<notin> set (parts s) \<and> ''..'' \<notin> set (parts s)"
    by (auto simp: rel_parts_def plain_def)
qed (use clean_relative in blast)

lemma toLower_relative:
  assumes "lower_table table" and "rel_parts (parts s)"
  shows "rel_parts (parts (toLower table s))"
proof (cases "runes s")
  case None
  with assms(2) show ?thesis by (simp add: toLower_def)
next
  case (Some rs)
  let ?f = "rune_lower table"
  note rs = runes_SomeD [OF Some]
  have slash: "CHR ''/'' \<in> set c \<longleftrightarrow> c = ''/''" if "encoded_rune c" for c
    using that by (auto simp: encoded_rune_def wide_def list_all_iff byte_of_def)
  have low: "?f ''/'' = ''/''" by (simp add: rune_lower_def byte_of_def)
  have all2: "list_all2 (\<lambda>a b. \<exists>cs. a = concat cs \<and> b = concat (map ?f cs) \<and> set cs \<subseteq> set rs)
      (parts s) (parts (toLower table s))"
    using splitByte_concat [of rs "CHR ''/''" ?f, OF _ _ low] rs slash rune_lower_punct(1) [OF assms(1)]
    by (simp add: toLower_def Some list_all_iff)
  have "plain b" if "b \<in> set (parts (toLower table s))" for b
  proof -
    from that all2 obtain a cs where a: "a \<in> set (parts s)" "a = concat cs" "b = concat (map ?f cs)" "set cs \<subseteq> set rs"
      by (auto simp: list_all2_conv_all_nth in_set_conv_nth) metis
    have "list_all encoded_rune cs" using a(4) rs by (auto simp: list_all_iff)
    from lower_dots [OF assms(1) this] have "set b \<subseteq> {CHR ''.''} \<Longrightarrow> a = b" unfolding a(2,3) .
    moreover have "plain a" using assms(2) a(1) by (simp add: rel_parts_def)
    ultimately show ?thesis by (auto simp: plain_def)
  qed
  then show ?thesis by (simp add: rel_parts_split)
qed

section \<open>Parent directories\<close>

lemma splitByte_snoc: "splitByte sep (s @ [sep]) = splitByte sep s @ [[]]"
  by (induction s) (auto split: list.splits)

lemma joinByte_snoc: "ws \<noteq> [] \<Longrightarrow> joinByte sep (ws @ [w]) = joinByte sep ws @ sep # w"
  by (induction sep ws rule: joinByte.induct) auto

lemma rel_parts_snoc: "rel_parts (ws @ [w]) \<longleftrightarrow> plain w \<and> CHR ''/'' \<notin> set w \<and> (ws = [] \<or> rel_parts ws)"
  by (auto simp: rel_parts_def)

lemma dropWhile_slash: "CHR ''/'' \<notin> set w \<Longrightarrow> dropWhile (\<lambda>c. c \<noteq> CHR ''/'') (rev w @ r) = dropWhile (\<lambda>c. c \<noteq> CHR ''/'') r"
  by (induction w arbitrary: r) auto

lemma path_dir_single: "CHR ''/'' \<notin> set w \<Longrightarrow> path_dir w = ''.''"
proof -
  assume "CHR ''/'' \<notin> set w"
  then have "dropWhile (\<lambda>c. c \<noteq> CHR ''/'') (rev w) = []" by auto
  then have "path_dir w = path_clean []" unfolding path_dir_def by (metis rev.simps(1))
  then show ?thesis by (simp add: path_clean_def hasPrefix_def clean_step_def)
qed

lemma path_dir_slashed:
  assumes "rel_parts (ws @ [w])"
  shows "path_dir (slashed (ws @ [w])) = (if ws = [] then ''.'' else slashed ws)"
proof (cases "ws = []")
  case True
  with assms show ?thesis by (simp add: path_dir_single rel_parts_def)
next
  case False
  with assms have ws: "rel_parts ws" "CHR ''/'' \<notin> set w" by (simp_all add: rel_parts_snoc)
  have "path_clean (slashed ws @ ''/'') = slashed ws"
    using slashed_relative [OF ws(1)] ws(1) parts_slashed [OF ws(1)]
    by (simp add: path_clean_def Let_def splitByte_snoc foldl_clean_plain rel_parts_def clean_step_def hasPrefix_def
        split: list.splits) (cases "slashed ws"; simp)
  with False ws(2) show ?thesis by (simp add: path_dir_def joinByte_snoc dropWhile_slash)
qed

text \<open>
  The loop. Its body may return early with a value of the enclosing function; \<open>None\<close> is a loop
  that never ends, as it would for a path whose parents never become \<open>.\<close> (an absolute one).
\<close>

partial_function (option) for_parents :: "(string \<Rightarrow> 's \<Rightarrow> 'r + 's) \<Rightarrow> string \<Rightarrow> 's \<Rightarrow> ('r + 's) option" where
  "for_parents body parent s =
     (if parent = ''.'' then Some (Inr s)
      else case body parent s of
             Inl r \<Rightarrow> Some (Inl r)
           | Inr s' \<Rightarrow> for_parents body (path_dir parent) s')"

declare for_parents.simps [code]

fun each :: "('x \<Rightarrow> 's \<Rightarrow> 'r + 's) \<Rightarrow> 'x list \<Rightarrow> 's \<Rightarrow> 'r + 's" where
  "each body [] s = Inr s"
| "each body (x # xs) s = (case body x s of Inl r \<Rightarrow> Inl r | Inr s' \<Rightarrow> each body xs s')"

lemma each_append:
  "each body (xs @ ys) s = (case each body xs s of Inl r \<Rightarrow> Inl r | Inr s' \<Rightarrow> each body ys s')"
  by (induction xs arbitrary: s) (auto split: sum.splits)

text \<open>The directories above a path, nearest first.\<close>

definition ancestors :: "string list \<Rightarrow> string list list" where
  "ancestors ws = map (\<lambda>n. take n ws) (rev [1..<length ws])"

definition parents_of :: "string \<Rightarrow> string list" where
  "parents_of s = map slashed (ancestors (parts s))"

lemma ancestors_snoc: "ancestors (ws @ [w]) = (if ws = [] then [] else ws # ancestors ws)"
proof (cases "ws = []")
  case False
  then have "[1..<length (ws @ [w])] = [1..<length ws] @ [length ws]" by (simp add: Suc_leI)
  moreover have "map (\<lambda>n. take n (ws @ [w])) (rev [1..<length ws]) = map (\<lambda>n. take n ws) (rev [1..<length ws])"
    by (rule map_cong) auto
  ultimately show ?thesis using False by (simp add: ancestors_def)
qed (simp add: ancestors_def)

lemma ancestors_rel: "rel_parts ws \<Longrightarrow> us \<in> set (ancestors ws) \<Longrightarrow> rel_parts us"
  by (auto simp: ancestors_def rel_parts_def dest: in_set_takeD)

lemma ancestors_iff: "us \<in> set (ancestors ws) \<longleftrightarrow> us \<noteq> [] \<and> (\<exists>vs. vs \<noteq> [] \<and> ws = us @ vs)"
proof
  assume "us \<in> set (ancestors ws)"
  then obtain n where n: "us = take n ws" "1 \<le> n" "n < length ws" by (auto simp: ancestors_def)
  then have "us \<noteq> []" "drop n ws \<noteq> []" "ws = us @ drop n ws" by auto
  then show "us \<noteq> [] \<and> (\<exists>vs. vs \<noteq> [] \<and> ws = us @ vs)" by blast
next
  assume "us \<noteq> [] \<and> (\<exists>vs. vs \<noteq> [] \<and> ws = us @ vs)"
  then obtain vs where vs: "us \<noteq> []" "vs \<noteq> []" "ws = us @ vs" by blast
  then have "us = take (length us) ws" "length us \<in> set (rev [1..<length ws])" by (auto simp: Suc_le_eq)
  then show "us \<in> set (ancestors ws)" unfolding ancestors_def by (metis image_eqI set_map)
qed

text \<open>The loop ends on every path of plain components, after visiting exactly its ancestors.\<close>

lemma for_parents_slashed:
  "rel_parts ws \<Longrightarrow> for_parents body (path_dir (slashed ws)) s = Some (each body (map slashed (ancestors ws)) s)"
proof (induction ws arbitrary: s rule: rev_induct)
  case Nil
  then show ?case by (simp add: rel_parts_def)
next
  case (snoc w ws)
  show ?case
  proof (cases "ws = []")
    case True
    with snoc.prems show ?thesis
      by (simp add: path_dir_single rel_parts_def ancestors_def for_parents.simps)
  next
    case False
    with snoc.prems have ws: "rel_parts ws" by (simp add: rel_parts_snoc)
    have "for_parents body (slashed ws) s =
        (case body (slashed ws) s of Inl r \<Rightarrow> Some (Inl r) | Inr s' \<Rightarrow> for_parents body (path_dir (slashed ws)) s')"
      using slashed_relative(3) [OF ws] by (simp add: for_parents.simps)
    with snoc False ws show ?thesis by (simp add: path_dir_slashed ancestors_snoc split: sum.splits)
  qed
qed

lemma for_parents_ends:
  "rel_parts (parts s) \<Longrightarrow> for_parents body (path_dir s) x = Some (each body (parents_of s) x)"
  using for_parents_slashed [of "parts s" body x] by (simp add: parents_of_def join_splitByte)

text \<open>Joined to a rooted directory, a path of plain components stays below it.\<close>

lemma joinByte_append:
  "us \<noteq> [] \<Longrightarrow> ws \<noteq> [] \<Longrightarrow> joinByte sep (us @ ws) = joinByte sep us @ sep # joinByte sep ws"
  by (induction sep us rule: joinByte.induct) (auto simp: joinByte_Cons)

lemma rel_parts_append: "rel_parts us \<Longrightarrow> rel_parts ws \<Longrightarrow> rel_parts (us @ ws)"
  by (auto simp: rel_parts_def)

lemma path_join_below:
  assumes "rel_parts us" and "rel_parts ws"
  shows "path_join [CHR ''/'' # slashed us, slashed ws] = CHR ''/'' # slashed (us @ ws)"
proof -
  have rel: "rel_parts (us @ ws)" using assms by (rule rel_parts_append)
  have join: "slashed (us @ ws) = slashed us @ CHR ''/'' # slashed ws"
    using assms by (intro joinByte_append) (simp_all add: rel_parts_def)
  have fold: "foldl (clean_step True) [] (us @ ws) = rev (us @ ws)"
    using foldl_clean_plain [of "us @ ws" True "[]"] rel by (simp add: rel_parts_def)
  have "path_clean (CHR ''/'' # slashed (us @ ws)) = CHR ''/'' # slashed (us @ ws)"
    using parts_slashed [OF rel] fold by (simp add: path_clean_def hasPrefix_def clean_step_def)
  with slashed_relative(2) [OF assms(2)] show ?thesis by (simp add: path_join_def join)
qed

section \<open>archive/zip\<close>

text \<open>
  What \<open>zip.NewReader\<close> gives for an entry: its name, whether the flag of encryption is set, the
  type bits of its mode and whether a permission bit of execution is set, the declared size, and
  what opening and reading it gives (\<open>None\<close>: \<open>Open\<close> fails). A stream delivers its bytes and then
  ends, or fails in the read after them (a bad checksum).
\<close>

datatype file_kind = RegularFile | Directory | Symlink | SpecialFile

record zip_stream =
  zs_Data :: string
  zs_Fails :: bool
  zs_CloseFails :: bool

record zip_file =
  zf_Name :: string
  zf_Encrypted :: bool
  zf_Kind :: file_kind
  zf_Exec :: bool
  zf_Size :: nat
  zf_Stream :: "zip_stream option"

text \<open>Reading all of \<open>io.LimitReader(r, n)\<close>: at most \<open>n\<close> bytes; a failure after them is not seen.\<close>

definition read_limited :: "nat \<Rightarrow> zip_stream \<Rightarrow> string \<times> bool" where
  "read_limited n z = (take n (zs_Data z), zs_Fails z \<and> length (zs_Data z) < n)"

text \<open>\<open>range\<close> over the keys of a map: in some order, all of them.\<close>

definition range_order :: "(string list \<Rightarrow> string list) \<Rightarrow> bool" where
  "range_order rg \<longleftrightarrow> (\<forall>xs. set (rg xs) = set xs)"

text \<open>A loop whose body may end the function early or never return.\<close>

fun each_opt :: "('x \<Rightarrow> ('r + 'u) option) \<Rightarrow> 'x list \<Rightarrow> ('r + unit) option" where
  "each_opt body [] = Some (Inr ())"
| "each_opt body (x # xs) =
     (case body x of
        None \<Rightarrow> None
      | Some (Inl r) \<Rightarrow> Some (Inl r)
      | Some (Inr _) \<Rightarrow> each_opt body xs)"

lemma each_opt_returns: "(\<And>x. x \<in> set xs \<Longrightarrow> body x \<noteq> None) \<Longrightarrow> each_opt body xs \<noteq> None"
proof (induction xs)
  case (Cons x xs)
  then obtain y where "body x = Some y" by fastforce
  with Cons show ?case by (cases y) auto
qed simp

lemma each_opt_passes: "each_opt body xs = Some (Inr u) \<longleftrightarrow> (\<forall>x \<in> set xs. \<exists>v. body x = Some (Inr v))"
  by (induction xs) (auto split: option.splits sum.splits)

fun loop_opt :: "('x \<Rightarrow> 's \<Rightarrow> ('r + 's) option) \<Rightarrow> 'x list \<Rightarrow> 's \<Rightarrow> ('r + 's) option" where
  "loop_opt body [] s = Some (Inr s)"
| "loop_opt body (x # xs) s =
     (case body x s of
        None \<Rightarrow> None
      | Some (Inl r) \<Rightarrow> Some (Inl r)
      | Some (Inr s') \<Rightarrow> loop_opt body xs s')"

lemma loop_opt_total:
  "(\<And>x s. x \<in> set xs \<Longrightarrow> body x s = Some (f x s)) \<Longrightarrow> loop_opt body xs s = Some (each f xs s)"
  by (induction xs arbitrary: s) (auto split: sum.splits)

lemma each_check: "each (\<lambda>x s. if bad x then Inl e else Inr s) xs s = Inr s' \<longleftrightarrow> s' = s \<and> (\<forall>x \<in> set xs. \<not> bad x)"
  by (induction xs) auto

lemma each_check_Inl: "each (\<lambda>x s. if bad x then Inl e else Inr s) xs s = Inl r \<Longrightarrow> r = e"
  by (induction xs) (auto split: if_splits)

text \<open>A loop whose invariant speaks about the elements it has passed.\<close>

lemma each_passed:
  assumes "I (set pre) s" and "each body xs s = Inr s'"
    and "\<And>us x vs s s'. xs = us @ x # vs \<Longrightarrow> I (set (pre @ us)) s \<Longrightarrow> body x s = Inr s' \<Longrightarrow> I (set (pre @ us @ [x])) s'"
  shows "I (set (pre @ xs)) s'"
  using assms
proof (induction xs arbitrary: pre s)
  case (Cons x xs)
  then obtain s1 where s1: "body x s = Inr s1" "each body xs s1 = Inr s'" by (auto split: sum.splits)
  have "I (set (pre @ [x])) s1" using Cons.prems(3) [of "[]" x xs s s1] Cons.prems(1) s1(1) by simp
  moreover have "I (set ((pre @ [x]) @ us @ [y])) r'"
    if "xs = us @ y # vs" "I (set ((pre @ [x]) @ us)) r" "body y r = Inr r'" for us y vs r r'
    using Cons.prems(3) [of "x # us" y vs r r'] that by simp
  ultimately show ?case using Cons.IH [of "pre @ [x]" s1] s1(2) by simp
qed simp

lemma each_progress:
  assumes "I (set pre) s"
    and "\<And>us x vs s s'. xs = us @ x # vs \<Longrightarrow> I (set (pre @ us)) s \<Longrightarrow> \<exists>s'. body x s = Inr s' \<and> I (set (pre @ us @ [x])) s'"
  shows "\<exists>s'. each body xs s = Inr s'"
  using assms
proof (induction xs arbitrary: pre s)
  case (Cons x xs)
  from Cons.prems(2) [of "[]" x xs s] Cons.prems(1) obtain s1 where s1: "body x s = Inr s1" "I (set (pre @ [x])) s1" by auto
  moreover have "\<exists>r'. body y r = Inr r' \<and> I (set ((pre @ [x]) @ us @ [y])) r'"
    if "xs = us @ y # vs" "I (set ((pre @ [x]) @ us)) r" for us y vs r
    using Cons.prems(2) [of "x # us" y vs r] that by simp
  ultimately show ?case using Cons.IH [of "pre @ [x]" s1] by simp
qed simp

end
