(* ===== verification/Project_Archive.thy ===== *)
theory Project_Archive
  imports Go_Path
begin

text \<open>
  \<open>internal/projectarchive/validate.go\<close>: the validation of uploaded ZIP archives. The calls of
  the standard library whose work is decoding (\<open>zip.NewReader\<close>, \<open>json.Unmarshal\<close>, SHA-256) are
  given by their results, as fields of \<open>archive_lib\<close>; so is the table of \<open>strings.ToLower\<close> and
  the order in which \<open>range\<close> visits a map. \<open>ctx i\<close> tells whether the context is still live at
  the \<open>i\<close>-th entry.
\<close>

section \<open>The validator\<close>

datatype zip_error =
    UnsupportedKind | BadArchiveSize | InvalidZip | BadEntryCount | ContextDone
  | UnsafePath | ControlCharacter | TooDeep | UnsafeComponent | ForbiddenComponent
  | DuplicatePath | EncryptedEntry | SpecialEntry | DeclaredTooLarge | CannotOpen | CorruptEntry
  | FileTooLarge | ProjectTooLarge | FileDirectoryCollision | FileAsParent | DirectoryUnderFile
  | NoFiles | NoIndex | NoStartScript | NoLockfile

abbreviation MaxCompressed :: nat where "MaxCompressed \<equiv> 10 * 2 ^ 20"
abbreviation MaxExpanded :: nat where "MaxExpanded \<equiv> 32 * 2 ^ 20"
abbreviation MaxFile :: nat where "MaxFile \<equiv> 8 * 2 ^ 20"
abbreviation MaxEntries :: nat where "MaxEntries \<equiv> 1000"

record project_manifest =
  pm_SHA256 :: string
  pm_Files :: nat
  pm_Bytes :: nat
  pm_Kind :: string

record archive_lib =
  al_open :: "string \<Rightarrow> zip_file list option"
  al_start :: "string \<Rightarrow> string option"
  al_lockfile :: "string \<Rightarrow> int option"
  al_sha256 :: "string \<Rightarrow> string"
  al_lower :: "string \<Rightarrow> string"
  al_range :: "string list \<Rightarrow> string list"

definition forbidden_component :: "string \<Rightarrow> bool" where
  "forbidden_component lower \<longleftrightarrow>
     lower = ''.git'' \<or> lower = ''node_modules'' \<or> lower = ''.npmrc'' \<or> hasPrefix lower ''.env''
     \<or> lower = ''id_rsa'' \<or> lower = ''id_ed25519'' \<or> hasSuffix lower ''.pem'' \<or> hasSuffix lower ''.key''
     \<or> hasSuffix lower ''.p12'' \<or> hasSuffix lower ''.pfx''"

definition check_component :: "(string \<Rightarrow> string) \<Rightarrow> string \<Rightarrow> unit \<Rightarrow> zip_error + unit" where
  "check_component table part _ =
     (if part = ''.'' \<or> part = ''..'' \<or> length part > 255 \<or> hasSuffix part ''.'' \<or> hasSuffix part '' ''
        then Inl UnsafeComponent
      else if forbidden_component (toLower table part) then Inl ForbiddenComponent
      else Inr ())"

definition validPath :: "(string \<Rightarrow> string) \<Rightarrow> string \<Rightarrow> zip_error + unit" where
  "validPath table name =
     (if name = [] \<or> length name > 1024 \<or> \<not> validString name \<or> path_clean name \<noteq> name
         \<or> hasPrefix name ''/'' \<or> containsAny name [CHR 0x5C, CHR '':'']
        then Inl UnsafePath
      else if containsControl name then Inl ControlCharacter
      else if length (parts name) > 16 then Inl TooDeep
      else each (check_component table) (parts name) ())"

text \<open>The variables of \<open>Validate\<close>: the three maps by their keys, the two payloads, the counters.\<close>

record archive_scan =
  sc_seen :: "string list"
  sc_files :: "string list"
  sc_directories :: "string list"
  sc_pkg :: string
  sc_lock :: string
  sc_Files :: nat
  sc_Bytes :: nat

definition scan_empty :: archive_scan where
  "scan_empty = \<lparr>sc_seen = [], sc_files = [], sc_directories = [], sc_pkg = [], sc_lock = [],
                 sc_Files = 0, sc_Bytes = 0\<rparr>"

text \<open>The entry's content: opened, read through the limit, closed, counted.\<close>

definition read_entry :: "string \<Rightarrow> zip_file \<Rightarrow> archive_scan \<Rightarrow> zip_error + archive_scan" where
  "read_entry name f st =
     (if zf_Size f > MaxFile then Inl DeclaredTooLarge
      else case zf_Stream f of
        None \<Rightarrow> Inl CannotOpen
      | Some z \<Rightarrow>
          (let (payload, failed) = read_limited (MaxFile + 1) z;
               count = length payload;
               st1 = (if name = ''package.json'' then st\<lparr>sc_pkg := payload\<rparr>
                      else if name = ''package-lock.json'' then st\<lparr>sc_lock := payload\<rparr> else st)
           in if failed \<or> zs_CloseFails z then Inl CorruptEntry
              else if count > MaxFile then Inl FileTooLarge
              else let st2 = st1\<lparr>sc_Files := sc_Files st1 + 1, sc_Bytes := sc_Bytes st1 + count\<rparr>
                   in if sc_Bytes st2 > MaxExpanded then Inl ProjectTooLarge else Inr st2))"

definition scan_file :: "archive_lib \<Rightarrow> zip_file \<Rightarrow> archive_scan \<Rightarrow> zip_error + archive_scan" where
  "scan_file lib f st =
     (let name = trimSuffix (zf_Name f) ''/''
      in case validPath (al_lower lib) name of
           Inl e \<Rightarrow> Inl e
         | Inr _ \<Rightarrow>
             (let normalized = toLower (al_lower lib) name
              in if normalized \<in> set (sc_seen st) then Inl DuplicatePath
                 else let st1 = st\<lparr>sc_seen := normalized # sc_seen st\<rparr>
                   in if zf_Encrypted f then Inl EncryptedEntry
                      else if zf_Kind f = Directory
                        then Inr (st1\<lparr>sc_directories := normalized # sc_directories st1\<rparr>)
                      else if zf_Kind f \<noteq> RegularFile then Inl SpecialEntry
                      else read_entry name f (st1\<lparr>sc_files := normalized # sc_files st1\<rparr>)))"

fun scan_files :: "archive_lib \<Rightarrow> (nat \<Rightarrow> bool) \<Rightarrow> nat \<Rightarrow> zip_file list \<Rightarrow> archive_scan \<Rightarrow> zip_error + archive_scan" where
  "scan_files lib ctx i [] st = Inr st"
| "scan_files lib ctx i (f # fs) st =
     (if \<not> ctx i then Inl ContextDone
      else case scan_file lib f st of Inl e \<Rightarrow> Inl e | Inr st' \<Rightarrow> scan_files lib ctx (i + 1) fs st')"

definition check_file_path :: "archive_scan \<Rightarrow> string \<Rightarrow> (zip_error + unit) option" where
  "check_file_path st name =
     (if name \<in> set (sc_directories st) then Some (Inl FileDirectoryCollision)
      else for_parents (\<lambda>parent s. if parent \<in> set (sc_files st) then Inl FileAsParent else Inr s) (path_dir name) ())"

definition check_directory_path :: "archive_scan \<Rightarrow> string \<Rightarrow> (zip_error + unit) option" where
  "check_directory_path st name =
     for_parents (\<lambda>parent s. if parent \<in> set (sc_files st) then Inl DirectoryUnderFile else Inr s) (path_dir name) ()"

definition exactFile :: "zip_file list \<Rightarrow> string \<Rightarrow> bool" where
  "exactFile archive name \<longleftrightarrow> list_ex (\<lambda>f. zf_Name f = name \<and> zf_Kind f \<noteq> Directory) archive"

definition check_kind :: "archive_lib \<Rightarrow> string \<Rightarrow> zip_file list \<Rightarrow> archive_scan \<Rightarrow> zip_error + unit" where
  "check_kind lib kind archive st =
     (if kind = ''static'' \<and> (''index.html'' \<notin> set (sc_files st) \<or> \<not> exactFile archive ''index.html'') then Inl NoIndex
      else if kind = ''node''
              \<and> (sc_pkg st = [] \<or> (case al_start lib (sc_pkg st) of None \<Rightarrow> True | Some script \<Rightarrow> trimSpace script = []))
        then Inl NoStartScript
      else if kind = ''node''
              \<and> (sc_lock st = [] \<or> (case al_lockfile lib (sc_lock st) of None \<Rightarrow> True | Some v \<Rightarrow> v < 1 \<or> v > 3))
        then Inl NoLockfile
      else Inr ())"

definition Validate :: "archive_lib \<Rightarrow> (nat \<Rightarrow> bool) \<Rightarrow> string \<Rightarrow> string \<Rightarrow> (zip_error + project_manifest) option" where
  "Validate lib ctx data kind =
     (if kind \<noteq> ''static'' \<and> kind \<noteq> ''node'' then Some (Inl UnsupportedKind)
      else if data = [] \<or> length data > MaxCompressed then Some (Inl BadArchiveSize)
      else case al_open lib data of
        None \<Rightarrow> Some (Inl InvalidZip)
      | Some archive \<Rightarrow>
          if archive = [] \<or> length archive > MaxEntries then Some (Inl BadEntryCount)
          else case scan_files lib ctx 0 archive scan_empty of
            Inl e \<Rightarrow> Some (Inl e)
          | Inr st \<Rightarrow>
              (case each_opt (check_file_path st) (al_range lib (sc_files st)) of
                 None \<Rightarrow> None
               | Some (Inl e) \<Rightarrow> Some (Inl e)
               | Some (Inr _) \<Rightarrow>
                   (case each_opt (check_directory_path st) (al_range lib (sc_directories st)) of
                      None \<Rightarrow> None
                    | Some (Inl e) \<Rightarrow> Some (Inl e)
                    | Some (Inr _) \<Rightarrow>
                        if sc_Files st = 0 then Some (Inl NoFiles)
                        else case check_kind lib kind archive st of
                          Inl e \<Rightarrow> Some (Inl e)
                        | Inr _ \<Rightarrow> Some (Inr \<lparr>pm_SHA256 = al_sha256 lib data, pm_Files = sc_Files st,
                                              pm_Bytes = sc_Bytes st, pm_Kind = kind\<rparr>))))"

section \<open>What an acceptable project is\<close>

definition safe_component :: "(string \<Rightarrow> string) \<Rightarrow> string \<Rightarrow> bool" where
  "safe_component table w \<longleftrightarrow>
     plain w \<and> length w \<le> 255 \<and> \<not> hasSuffix w ''.'' \<and> \<not> hasSuffix w '' '' \<and> \<not> forbidden_component (toLower table w)"

definition safe_path :: "(string \<Rightarrow> string) \<Rightarrow> string \<Rightarrow> bool" where
  "safe_path table name \<longleftrightarrow>
     length name \<le> 1024 \<and> validString name \<and> \<not> containsControl name
     \<and> CHR 0x5C \<notin> set name \<and> CHR '':'' \<notin> set name
     \<and> length (parts name) \<le> 16 \<and> list_all (safe_component table) (parts name)"

abbreviation entry_name :: "zip_file \<Rightarrow> string" where
  "entry_name f \<equiv> trimSuffix (zf_Name f) ''/''"

definition entry_key :: "archive_lib \<Rightarrow> zip_file \<Rightarrow> string" where
  "entry_key lib f = toLower (al_lower lib) (entry_name f)"

definition content :: "zip_file \<Rightarrow> string" where
  "content f = (case zf_Stream f of None \<Rightarrow> [] | Some z \<Rightarrow> zs_Data z)"

definition readable :: "nat \<Rightarrow> zip_file \<Rightarrow> bool" where
  "readable limit f \<longleftrightarrow> (case zf_Stream f of None \<Rightarrow> False
     | Some z \<Rightarrow> \<not> zs_Fails z \<and> \<not> zs_CloseFails z \<and> length (zs_Data z) \<le> limit)"

definition entry_ok :: "archive_lib \<Rightarrow> zip_file \<Rightarrow> bool" where
  "entry_ok lib f \<longleftrightarrow> safe_path (al_lower lib) (entry_name f) \<and> \<not> zf_Encrypted f
     \<and> (zf_Kind f = Directory \<or> zf_Kind f = RegularFile \<and> zf_Size f \<le> MaxFile \<and> readable MaxFile f)"

definition regulars :: "zip_file list \<Rightarrow> zip_file list" where
  "regulars fs = filter (\<lambda>f. zf_Kind f = RegularFile) fs"

definition content_bytes :: "zip_file list \<Rightarrow> nat" where
  "content_bytes fs = sum_list (map (\<lambda>f. length (content f)) fs)"

text \<open>A regular file at the root of the archive whose content satisfies a predicate.\<close>

definition root_file :: "zip_file list \<Rightarrow> string \<Rightarrow> (string \<Rightarrow> bool) \<Rightarrow> bool" where
  "root_file archive name P \<longleftrightarrow> list_ex (\<lambda>f. entry_name f = name \<and> content f \<noteq> [] \<and> P (content f)) (regulars archive)"

definition kind_ok :: "archive_lib \<Rightarrow> string \<Rightarrow> zip_file list \<Rightarrow> bool" where
  "kind_ok lib kind archive \<longleftrightarrow>
     (kind = ''static'' \<longrightarrow> list_ex (\<lambda>f. zf_Name f = ''index.html'') (regulars archive))
     \<and> (kind = ''node'' \<longrightarrow>
         root_file archive ''package.json'' (\<lambda>d. \<exists>script. al_start lib d = Some script \<and> trimSpace script \<noteq> [])
         \<and> root_file archive ''package-lock.json'' (\<lambda>d. \<exists>v. al_lockfile lib d = Some v \<and> 1 \<le> v \<and> v \<le> 3))"

definition archive_ok :: "archive_lib \<Rightarrow> (nat \<Rightarrow> bool) \<Rightarrow> string \<Rightarrow> zip_file list \<Rightarrow> bool" where
  "archive_ok lib ctx kind archive \<longleftrightarrow>
     length archive \<le> MaxEntries \<and> list_all ctx [0..<length archive] \<and> list_all (entry_ok lib) archive
     \<and> distinct (map (entry_key lib) archive)
     \<and> regulars archive \<noteq> [] \<and> content_bytes (regulars archive) \<le> MaxExpanded
     \<and> (\<forall>f \<in> set archive. \<forall>g \<in> set (regulars archive). entry_key lib g \<notin> set (parents_of (entry_key lib f)))
     \<and> kind_ok lib kind archive"

definition project_ok :: "archive_lib \<Rightarrow> (nat \<Rightarrow> bool) \<Rightarrow> string \<Rightarrow> string \<Rightarrow> bool" where
  "project_ok lib ctx data kind \<longleftrightarrow>
     (kind = ''static'' \<or> kind = ''node'') \<and> data \<noteq> [] \<and> length data \<le> MaxCompressed
     \<and> (case al_open lib data of None \<Rightarrow> False | Some archive \<Rightarrow> archive_ok lib ctx kind archive)"

definition manifest_of :: "archive_lib \<Rightarrow> string \<Rightarrow> string \<Rightarrow> project_manifest" where
  "manifest_of lib data kind =
     (let rs = (case al_open lib data of None \<Rightarrow> [] | Some archive \<Rightarrow> regulars archive)
      in \<lparr>pm_SHA256 = al_sha256 lib data, pm_Files = length rs, pm_Bytes = content_bytes rs, pm_Kind = kind\<rparr>)"

section \<open>Names\<close>

lemma each_components:
  "each (check_component table) ws () = Inr u \<longleftrightarrow>
     (\<forall>w \<in> set ws. w \<noteq> ''.'' \<and> w \<noteq> ''..'' \<and> length w \<le> 255 \<and> \<not> hasSuffix w ''.'' \<and> \<not> hasSuffix w '' ''
        \<and> \<not> forbidden_component (toLower table w))"
  by (induction ws) (auto simp: check_component_def split: if_splits)

lemma validPath_iff: "validPath table name = Inr u \<longleftrightarrow> safe_path table name"
proof -
  have rel: "rel_parts (parts name) \<longleftrightarrow> (\<forall>w \<in> set (parts name). plain w)" by (rule rel_parts_split)
  have ne: "name = [] \<Longrightarrow> \<not> rel_parts (parts name)" by (simp add: rel_parts_def)
  have dots: "each (check_component table) (parts name) () = Inr u \<Longrightarrow> ''.'' \<notin> set (parts name) \<and> ''..'' \<notin> set (parts name)"
    by (auto simp: each_components)
  have "validPath table name = Inr u \<longleftrightarrow>
      length name \<le> 1024 \<and> validString name \<and> \<not> containsControl name \<and> \<not> containsAny name [CHR 0x5C, CHR '':'']
      \<and> length (parts name) \<le> 16 \<and> rel_parts (parts name) \<and> each (check_component table) (parts name) () = Inr u"
    unfolding validPath_def if_error_Inr rel_parts_iff not_less de_Morgan_disj not_not
    using ne [unfolded rel_parts_iff] dots by blast
  also have "\<dots> \<longleftrightarrow> safe_path table name"
  proof -
    have "(\<forall>w \<in> set (parts name). plain w) \<and> each (check_component table) (parts name) () = Inr u
        \<longleftrightarrow> list_all (safe_component table) (parts name)"
      unfolding each_components list_all_iff safe_component_def plain_def by blast
    moreover have "containsAny name [CHR 0x5C, CHR '':''] \<longleftrightarrow> CHR 0x5C \<in> set name \<or> CHR '':'' \<in> set name"
      by (auto simp: containsAny_def list_ex_iff)
    ultimately show ?thesis unfolding rel safe_path_def by blast
  qed
  finally show ?thesis .
qed

lemma safe_path_parts: "safe_path table name \<Longrightarrow> rel_parts (parts name)"
  by (auto simp: safe_path_def safe_component_def list_all_iff rel_parts_split)

lemma entry_key_parts:
  "lower_table (al_lower lib) \<Longrightarrow> entry_ok lib f \<Longrightarrow> rel_parts (parts (entry_key lib f))"
  unfolding entry_key_def by (intro toLower_relative) (auto simp: entry_ok_def intro: safe_path_parts)

section \<open>The scan\<close>

text \<open>What the loop adds to its variables for one entry, when it accepts it.\<close>

definition absorb :: "archive_lib \<Rightarrow> archive_scan \<Rightarrow> zip_file \<Rightarrow> archive_scan" where
  "absorb lib st f =
     (let st1 = st\<lparr>sc_seen := entry_key lib f # sc_seen st\<rparr>
      in if zf_Kind f = Directory then st1\<lparr>sc_directories := entry_key lib f # sc_directories st1\<rparr>
         else st1\<lparr>sc_files := entry_key lib f # sc_files st1,
                  sc_pkg := (if entry_name f = ''package.json'' then content f else sc_pkg st1),
                  sc_lock := (if entry_name f = ''package-lock.json'' then content f else sc_lock st1),
                  sc_Files := sc_Files st1 + 1, sc_Bytes := sc_Bytes st1 + length (content f)\<rparr>)"

lemma read_entry_iff:
  "read_entry name f st = Inr st' \<longleftrightarrow>
     zf_Size f \<le> MaxFile \<and> readable MaxFile f \<and> sc_Bytes st + length (content f) \<le> MaxExpanded
     \<and> st' = st\<lparr>sc_pkg := (if name = ''package.json'' then content f else sc_pkg st),
               sc_lock := (if name = ''package-lock.json'' then content f else sc_lock st),
               sc_Files := sc_Files st + 1, sc_Bytes := sc_Bytes st + length (content f)\<rparr>"
proof (cases "zf_Stream f")
  case None
  then show ?thesis by (simp add: read_entry_def readable_def)
next
  case (Some z)
  have len: "length (take (MaxFile + 1) (zs_Data z)) > MaxFile \<longleftrightarrow> length (zs_Data z) > MaxFile"
    "length (zs_Data z) \<le> MaxFile \<Longrightarrow> take (MaxFile + 1) (zs_Data z) = zs_Data z" by auto
  show ?thesis
  proof (cases "length (zs_Data z) \<le> MaxFile")
    case True
    with len show ?thesis
      by (auto simp: read_entry_def readable_def content_def read_limited_def Some Let_def)
  next
    case False
    with len show ?thesis
      by (auto simp: read_entry_def readable_def content_def read_limited_def Some Let_def)
  qed
qed

lemma scan_file_iff:
  "scan_file lib f st = Inr st' \<longleftrightarrow>
     entry_ok lib f \<and> entry_key lib f \<notin> set (sc_seen st)
     \<and> (zf_Kind f = Directory \<or> sc_Bytes st + length (content f) \<le> MaxExpanded) \<and> st' = absorb lib st f"
proof (cases "validPath (al_lower lib) (entry_name f)")
  case (Inl e)
  then have "\<not> safe_path (al_lower lib) (entry_name f)" by (metis validPath_iff sum.distinct(1))
  with Inl show ?thesis by (simp add: scan_file_def entry_ok_def)
next
  case (Inr u)
  then have "safe_path (al_lower lib) (entry_name f)" by (simp add: validPath_iff)
  with Inr show ?thesis
    by (auto simp: scan_file_def entry_ok_def absorb_def entry_key_def read_entry_iff Let_def)
qed

lemma regulars_simps [simp]:
  "regulars [] = []"
  "regulars (f # fs) = (if zf_Kind f = RegularFile then f # regulars fs else regulars fs)"
  by (simp_all add: regulars_def)

lemma in_regulars: "f \<in> set (regulars fs) \<longleftrightarrow> f \<in> set fs \<and> zf_Kind f = RegularFile"
  by (auto simp: regulars_def)

lemma content_bytes_simps [simp]:
  "content_bytes [] = 0" "content_bytes (f # fs) = length (content f) + content_bytes fs"
  by (simp_all add: content_bytes_def)

lemma absorb_fields [simp]:
  "sc_seen (absorb lib st f) = entry_key lib f # sc_seen st"
  "sc_Bytes (absorb lib st f) = sc_Bytes st + (if zf_Kind f = Directory then 0 else length (content f))"
  "sc_Files (absorb lib st f) = sc_Files st + (if zf_Kind f = Directory then 0 else 1)"
  "sc_files (absorb lib st f) = (if zf_Kind f = Directory then sc_files st else entry_key lib f # sc_files st)"
  "sc_directories (absorb lib st f)
     = (if zf_Kind f = Directory then entry_key lib f # sc_directories st else sc_directories st)"
  "sc_pkg (absorb lib st f)
     = (if zf_Kind f \<noteq> Directory \<and> entry_name f = ''package.json'' then content f else sc_pkg st)"
  "sc_lock (absorb lib st f)
     = (if zf_Kind f \<noteq> Directory \<and> entry_name f = ''package-lock.json'' then content f else sc_lock st)"
  by (simp_all add: absorb_def Let_def)

lemma scan_files_iff:
  assumes "sc_Bytes st \<le> MaxExpanded"
  shows "scan_files lib ctx i fs st = Inr st' \<longleftrightarrow>
     list_all ctx [i..<i + length fs] \<and> list_all (entry_ok lib) fs \<and> distinct (map (entry_key lib) fs)
     \<and> set (map (entry_key lib) fs) \<inter> set (sc_seen st) = {}
     \<and> sc_Bytes st + content_bytes (regulars fs) \<le> MaxExpanded \<and> st' = foldl (absorb lib) st fs"
  using assms
proof (induction fs arbitrary: i st)
  case Nil
  then show ?case by auto
next
  case (Cons f fs)
  have ctx: "list_all ctx [i..<i + length (f # fs)] \<longleftrightarrow> ctx i \<and> list_all ctx [i + 1..<i + 1 + length fs]"
    by (simp add: upt_conv_Cons del: upt_Suc)
  show ?case
  proof (cases "ctx i \<and> entry_ok lib f \<and> entry_key lib f \<notin> set (sc_seen st)
      \<and> (zf_Kind f = Directory \<or> sc_Bytes st + length (content f) \<le> MaxExpanded)")
    case True
    then have step: "scan_file lib f st = Inr (absorb lib st f)" by (simp add: scan_file_iff)
    have kind: "zf_Kind f = Directory \<or> zf_Kind f = RegularFile" using True by (auto simp: entry_ok_def)
    have le: "sc_Bytes (absorb lib st f) \<le> MaxExpanded" using True Cons.prems by auto
    have bytes: "sc_Bytes (absorb lib st f) + content_bytes (regulars fs) = sc_Bytes st + content_bytes (regulars (f # fs))"
      using kind by auto
    show ?thesis using True Cons.IH [OF le, of "i + 1"] unfolding ctx bytes
      by (auto simp: step)
  next
    case False
    have "scan_files lib ctx i (f # fs) st \<noteq> Inr st'"
    proof
      assume "scan_files lib ctx i (f # fs) st = Inr st'"
      then obtain s1 where "ctx i" "scan_file lib f st = Inr s1" by (auto split: if_splits sum.splits)
      with False show False by (simp add: scan_file_iff)
    qed
    moreover have "\<not> (ctx i \<and> entry_ok lib f \<and> entry_key lib f \<notin> set (sc_seen st)
        \<and> sc_Bytes st + content_bytes (regulars (f # fs)) \<le> MaxExpanded)"
      using False by (auto simp: entry_ok_def)
    ultimately show ?thesis unfolding ctx by auto
  qed
qed

lemma entry_ok_kind: "entry_ok lib f \<Longrightarrow> zf_Kind f \<noteq> Directory \<longleftrightarrow> zf_Kind f = RegularFile"
  by (auto simp: entry_ok_def)

lemma scanned_fields:
  assumes "list_all (entry_ok lib) fs"
  shows "sc_files (foldl (absorb lib) st fs) = rev (map (entry_key lib) (regulars fs)) @ sc_files st"
    and "set (sc_directories (foldl (absorb lib) st fs))
       = entry_key lib ` {f \<in> set fs. zf_Kind f = Directory} \<union> set (sc_directories st)"
    and "sc_Files (foldl (absorb lib) st fs) = sc_Files st + length (regulars fs)"
    and "sc_Bytes (foldl (absorb lib) st fs) = sc_Bytes st + content_bytes (regulars fs)"
  using assms by (induction fs arbitrary: st) (auto dest: entry_ok_kind)

text \<open>Of the entries with distinct names at most one is the root file that the loop keeps.\<close>

fun last_content :: "string \<Rightarrow> zip_file list \<Rightarrow> string \<Rightarrow> string" where
  "last_content name [] d = d"
| "last_content name (f # fs) d =
     last_content name fs (if zf_Kind f = RegularFile \<and> entry_name f = name then content f else d)"

lemma scanned_payloads:
  assumes "list_all (entry_ok lib) fs"
  shows "sc_pkg (foldl (absorb lib) st fs) = last_content ''package.json'' fs (sc_pkg st)"
    and "sc_lock (foldl (absorb lib) st fs) = last_content ''package-lock.json'' fs (sc_lock st)"
  using assms by (induction fs arbitrary: st) (simp_all, blast dest: entry_ok_kind, blast dest: entry_ok_kind)

lemma last_content_absent: "name \<notin> entry_name ` set (regulars fs) \<Longrightarrow> last_content name fs d = d"
  by (induction fs) (auto split: if_splits)

lemma last_content_found:
  assumes "distinct (map (entry_key lib) fs)" and "f \<in> set (regulars fs)" and "entry_name f = name"
  shows "last_content name fs d = content f"
  using assms
proof (induction fs arbitrary: d)
  case (Cons g fs)
  show ?case
  proof (cases "f = g")
    case True
    have "name \<notin> entry_name ` set (regulars fs)"
    proof
      assume "name \<in> entry_name ` set (regulars fs)"
      then obtain h where "h \<in> set fs" "entry_key lib h = entry_key lib g"
        using True Cons.prems(3) by (auto simp: regulars_def entry_key_def)
      with Cons.prems(1) show False by (metis distinct.simps(2) image_eqI list.set_map list.simps(9))
    qed
    moreover have "zf_Kind g = RegularFile" using Cons.prems(2) True in_regulars by blast
    ultimately show ?thesis using True Cons.prems by (simp add: last_content_absent)
  next
    case False
    with Cons show ?thesis by (auto split: if_splits)
  qed
qed simp

lemma root_file_iff:
  assumes "distinct (map (entry_key lib) fs)"
  shows "root_file fs name P \<longleftrightarrow> last_content name fs [] \<noteq> [] \<and> P (last_content name fs [])"
proof (cases "name \<in> entry_name ` set (regulars fs)")
  case True
  then obtain f where f: "f \<in> set (regulars fs)" "entry_name f = name" by auto
  have "content g = content f" if "g \<in> set (regulars fs)" "entry_name g = name" for g
    using last_content_found [OF assms] f that by metis
  with f show ?thesis unfolding last_content_found [OF assms f] root_file_def list_ex_iff by metis
next
  case False
  then have "\<not> root_file fs name P" by (auto simp: root_file_def list_ex_iff)
  with False show ?thesis by (simp add: last_content_absent)
qed

section \<open>The validator decides the specification\<close>

lemma check_paths:
  assumes "rel_parts (parts name)"
  shows "check_directory_path st name \<noteq> None" and "check_file_path st name \<noteq> None"
    and "check_directory_path st name = Some (Inr u) \<longleftrightarrow> set (parents_of name) \<inter> set (sc_files st) = {}"
    and "check_file_path st name = Some (Inr u) \<longleftrightarrow>
           name \<notin> set (sc_directories st) \<and> set (parents_of name) \<inter> set (sc_files st) = {}"
  by (auto simp: check_directory_path_def check_file_path_def for_parents_ends [OF assms] each_check)

lemma check_kind_iff:
  assumes "list_all (entry_ok lib) fs" and "distinct (map (entry_key lib) fs)"
  shows "check_kind lib kind fs (foldl (absorb lib) scan_empty fs) = Inr u \<longleftrightarrow> kind_ok lib kind fs"
proof -
  let ?st = "foldl (absorb lib) scan_empty fs"
  have pay: "sc_pkg ?st = last_content ''package.json'' fs []" "sc_lock ?st = last_content ''package-lock.json'' fs []"
    using scanned_payloads [OF assms(1), of scan_empty] by (simp_all add: scan_empty_def)
  have reg: "f \<in> set fs \<Longrightarrow> zf_Kind f \<noteq> Directory \<longleftrightarrow> zf_Kind f = RegularFile" for f
    using assms(1) entry_ok_kind by (auto simp: list_all_iff)
  have low: "entry_key lib f = ''index.html''" if "zf_Name f = ''index.html''" for f
    using that by (simp add: entry_key_def trimSuffix_def hasSuffix_def hasPrefix_def toLower_def runes_ascii
        rune_lower_def byte_of_def)
  have index: "exactFile fs ''index.html'' \<longleftrightarrow> list_ex (\<lambda>f. zf_Name f = ''index.html'') (regulars fs)"
    using reg by (auto simp: exactFile_def list_ex_iff regulars_def)
  have in_files: "''index.html'' \<in> set (sc_files ?st)" if "exactFile fs ''index.html''"
    using that [unfolded index] low scanned_fields(1) [OF assms(1), of scan_empty]
    by (force simp: list_ex_iff scan_empty_def)
  have static: "\<not> (''index.html'' \<notin> set (sc_files ?st) \<or> \<not> exactFile fs ''index.html'')
      \<longleftrightarrow> list_ex (\<lambda>f. zf_Name f = ''index.html'') (regulars fs)" using in_files index by blast
  show ?thesis
    unfolding kind_ok_def root_file_iff [OF assms(2)] pay [symmetric] static [symmetric]
    by (auto simp: check_kind_def split: option.splits)
qed

text \<open>The two loops over the maps, after an accepting scan.\<close>

lemma nesting_checks:
  assumes table: "lower_table (al_lower lib)" and rg: "range_order (al_range lib)"
    and ok: "list_all (entry_ok lib) fs" and st: "st = foldl (absorb lib) scan_empty fs"
  shows "each_opt (check_file_path st) (al_range lib (sc_files st)) \<noteq> None"
    and "each_opt (check_directory_path st) (al_range lib (sc_directories st)) \<noteq> None"
    and "distinct (map (entry_key lib) fs) \<Longrightarrow>
      each_opt (check_file_path st) (al_range lib (sc_files st)) = Some (Inr ())
      \<and> each_opt (check_directory_path st) (al_range lib (sc_directories st)) = Some (Inr ())
      \<longleftrightarrow> (\<forall>f \<in> set fs. \<forall>g \<in> set (regulars fs). entry_key lib g \<notin> set (parents_of (entry_key lib f)))"
proof -
  have files: "set (sc_files st) = entry_key lib ` set (regulars fs)"
    and dirs: "set (sc_directories st) = entry_key lib ` {f \<in> set fs. zf_Kind f = Directory}"
    using scanned_fields(1,2) [OF ok, of scan_empty] by (simp_all add: st scan_empty_def)
  have rng: "set (al_range lib xs) = set xs" for xs using rg by (simp add: range_order_def)
  have rel: "f \<in> set fs \<Longrightarrow> rel_parts (parts (entry_key lib f))" for f
    using entry_key_parts [OF table] ok by (simp add: list_all_iff)
  show "each_opt (check_file_path st) (al_range lib (sc_files st)) \<noteq> None"
  proof (rule each_opt_returns)
    fix x assume "x \<in> set (al_range lib (sc_files st))"
    then obtain f where f: "x = entry_key lib f" "f \<in> set fs" by (auto simp: rng files in_regulars)
    show "check_file_path st x \<noteq> None" unfolding f(1) by (rule check_paths(2) [OF rel [OF f(2)]])
  qed
  show "each_opt (check_directory_path st) (al_range lib (sc_directories st)) \<noteq> None"
  proof (rule each_opt_returns)
    fix x assume "x \<in> set (al_range lib (sc_directories st))"
    then obtain f where f: "x = entry_key lib f" "f \<in> set fs" by (auto simp: rng dirs)
    show "check_directory_path st x \<noteq> None" unfolding f(1) by (rule check_paths(1) [OF rel [OF f(2)]])
  qed
  assume dist: "distinct (map (entry_key lib) fs)"
  have split: "f \<in> set fs \<longleftrightarrow> f \<in> set (regulars fs) \<or> f \<in> {f \<in> set fs. zf_Kind f = Directory}" for f
    using ok entry_ok_kind [of lib f] by (auto simp: in_regulars list_all_iff)
  have apart: "entry_key lib f \<notin> set (sc_directories st)" if "f \<in> set (regulars fs)" for f
    using that dist by (auto simp: dirs in_regulars distinct_map inj_on_def)
  have "each_opt (check_file_path st) (al_range lib (sc_files st)) = Some (Inr ())
      \<longleftrightarrow> (\<forall>f \<in> set (regulars fs). set (parents_of (entry_key lib f)) \<inter> set (sc_files st) = {})"
    using apart by (simp add: each_opt_passes rng files check_paths(4) rel in_regulars)
  moreover have "each_opt (check_directory_path st) (al_range lib (sc_directories st)) = Some (Inr ())
      \<longleftrightarrow> (\<forall>f \<in> {f \<in> set fs. zf_Kind f = Directory}. set (parents_of (entry_key lib f)) \<inter> set (sc_files st) = {})"
    by (simp add: each_opt_passes rng dirs check_paths(3) rel)
  ultimately show "each_opt (check_file_path st) (al_range lib (sc_files st)) = Some (Inr ())
      \<and> each_opt (check_directory_path st) (al_range lib (sc_directories st)) = Some (Inr ())
      \<longleftrightarrow> (\<forall>f \<in> set fs. \<forall>g \<in> set (regulars fs). entry_key lib g \<notin> set (parents_of (entry_key lib f)))"
    unfolding files using split by blast
qed

lemma scan_archive_iff:
  "scan_files lib ctx 0 fs scan_empty = Inr st \<longleftrightarrow>
     list_all ctx [0..<length fs] \<and> list_all (entry_ok lib) fs \<and> distinct (map (entry_key lib) fs)
     \<and> content_bytes (regulars fs) \<le> MaxExpanded \<and> st = foldl (absorb lib) scan_empty fs"
  using scan_files_iff [of scan_empty lib ctx 0 fs st] by (simp add: scan_empty_def)

lemma Validate_archive_iff:
  assumes "lower_table (al_lower lib)" and "range_order (al_range lib)"
    and "kind = ''static'' \<or> kind = ''node''" and "data \<noteq> []" and "length data \<le> MaxCompressed" and "al_open lib data = Some fs"
  shows "Validate lib ctx data kind = Some (Inr m) \<longleftrightarrow> archive_ok lib ctx kind fs \<and> m = manifest_of lib data kind"
proof (cases "\<exists>st. scan_files lib ctx 0 fs scan_empty = Inr st")
  case False
  then obtain e where "scan_files lib ctx 0 fs scan_empty = Inl e" by (metis sum.exhaust)
  moreover have "\<not> archive_ok lib ctx kind fs" using False by (auto simp: scan_archive_iff archive_ok_def)
  ultimately show ?thesis using assms(3-6) by (auto simp: Validate_def)
next
  case True
  then obtain st where st: "scan_files lib ctx 0 fs scan_empty = Inr st" by blast
  note sc = st [unfolded scan_archive_iff]
  note nest = nesting_checks [OF assms(1,2), of fs st]
  have fields: "sc_Files st = length (regulars fs)" "sc_Bytes st = content_bytes (regulars fs)"
    using sc scanned_fields(3,4) [of lib fs scan_empty] by (simp_all add: scan_empty_def)
  have kind: "check_kind lib kind fs st = Inr () \<longleftrightarrow> kind_ok lib kind fs" using sc check_kind_iff [of lib fs] by simp
  have "Validate lib ctx data kind = Some (Inr m) \<longleftrightarrow>
      fs \<noteq> [] \<and> length fs \<le> MaxEntries
      \<and> (each_opt (check_file_path st) (al_range lib (sc_files st)) = Some (Inr ())
         \<and> each_opt (check_directory_path st) (al_range lib (sc_directories st)) = Some (Inr ()))
      \<and> regulars fs \<noteq> [] \<and> check_kind lib kind fs st = Inr () \<and> m = manifest_of lib data kind"
    using assms(3-6) st fields by (auto simp: Validate_def manifest_of_def Let_def split: option.splits sum.splits)
  also have "\<dots> \<longleftrightarrow> archive_ok lib ctx kind fs \<and> m = manifest_of lib data kind"
    using nest(3) sc kind by (auto simp: archive_ok_def)
  finally show ?thesis .
qed

lemma Validate_decides:
  assumes "lower_table (al_lower lib)" and "range_order (al_range lib)"
  shows "Validate lib ctx data kind = Some (Inr m) \<longleftrightarrow> project_ok lib ctx data kind \<and> m = manifest_of lib data kind"
proof (cases "(kind = ''static'' \<or> kind = ''node'') \<and> data \<noteq> [] \<and> length data \<le> MaxCompressed")
  case True
  then show ?thesis
    using Validate_archive_iff [OF assms, of kind data _ ctx m]
    by (cases "al_open lib data") (auto simp: project_ok_def Validate_def)
next
  case False
  then show ?thesis by (auto simp: Validate_def project_ok_def)
qed

text \<open>
  C32: \<open>projectarchive.Validate\<close> accepts exactly the archives of the specification, with the
  manifest that describes them: a known kind, a size within the limit, and entries all of whose
  names are safe, distinct up to letter case and properly nested, that are readable directories or
  regular files within the limits, with what the kind needs at the root. The specification does
  not depend on the order in which the maps are visited. Assumed: no character outside ASCII
  lower cases to a slash or a dot, and \<open>range\<close> visits the keys of a map.
\<close>

theorem Validate_decides_specification:
  assumes "lower_table (al_lower lib)" and "range_order (al_range lib)"
  shows "Validate lib ctx data kind = Some (Inr m) \<longleftrightarrow> project_ok lib ctx data kind \<and> m = manifest_of lib data kind"
  using assms by (rule Validate_decides)

text \<open>
  C33: Validation always returns, whatever the archive holds: every loop over parent directories
  starts from a name that was accepted before, so it reaches \<open>.\<close>.
\<close>

theorem Validate_returns:
  assumes "lower_table (al_lower lib)" and "range_order (al_range lib)"
  shows "\<exists>r. Validate lib ctx data kind = Some r"
proof -
  have "\<exists>r1 r2. each_opt (check_file_path st) (al_range lib (sc_files st)) = Some r1
      \<and> each_opt (check_directory_path st) (al_range lib (sc_directories st)) = Some r2"
    if "scan_files lib ctx 0 fs scan_empty = Inr st" for fs st
    using that nesting_checks(1,2) [OF assms, of fs st] by (auto simp: scan_archive_iff)
  then show ?thesis by (fastforce simp: Validate_def split: option.splits sum.splits)
qed

text \<open>
  An accepted archive cannot reach outside the directory it is unpacked into or exhaust the
  host: joined to any rooted directory, the name of every entry stays the path of its own
  components below that directory, and the archive holds at most 1000 files of together at
  most 32 MiB.
\<close>

theorem accepted_entries_stay_inside:
  assumes "lower_table (al_lower lib)" and "range_order (al_range lib)" and "Validate lib ctx data kind = Some (Inr m)"
    and "al_open lib data = Some archive" and "f \<in> set archive" and "rel_parts root"
  shows "path_join [CHR ''/'' # slashed root, entry_name f] = CHR ''/'' # slashed (root @ parts (entry_name f))
    \<and> length (parts (entry_name f)) \<le> 16 \<and> 0 < pm_Files m \<and> pm_Files m \<le> 1000 \<and> pm_Bytes m \<le> 32 * 2 ^ 20"
proof -
  have "archive_ok lib ctx kind archive" "m = manifest_of lib data kind"
    using assms(3,4) by (auto simp: Validate_decides [OF assms(1,2)] project_ok_def)
  then have ok: "archive_ok lib ctx kind archive"
    and m: "pm_Files m = length (regulars archive)" "pm_Bytes m = content_bytes (regulars archive)"
    using assms(4) by (simp_all add: manifest_of_def Let_def)
  have f: "safe_path (al_lower lib) (entry_name f)" using ok assms(5) by (auto simp: archive_ok_def list_all_iff entry_ok_def)
  have "path_join [CHR ''/'' # slashed root, slashed (parts (entry_name f))]
      = CHR ''/'' # slashed (root @ parts (entry_name f))"
    using assms(6) safe_path_parts [OF f] by (rule path_join_below)
  moreover have "length (regulars archive) \<le> length archive" unfolding regulars_def by (rule length_filter_le)
  ultimately show ?thesis using ok f m by (simp add: join_splitByte archive_ok_def safe_path_def)
qed

section \<open>Examples\<close>

definition zx_file :: "string \<Rightarrow> file_kind \<Rightarrow> string \<Rightarrow> zip_file" where
  "zx_file name kind d =
     \<lparr>zf_Name = name, zf_Encrypted = False, zf_Kind = kind, zf_Exec = False, zf_Size = length d,
      zf_Stream = Some \<lparr>zs_Data = d, zs_Fails = False, zs_CloseFails = False\<rparr>\<rparr>"

definition zx_archive :: "zip_file list" where
  "zx_archive = [zx_file ''index.html'' RegularFile ''<p>'', zx_file ''js/'' Directory [], zx_file ''js/App.js'' RegularFile ''go()'']"

definition zx_lib :: archive_lib where
  "zx_lib = \<lparr>al_open = (\<lambda>_. Some zx_archive), al_start = (\<lambda>_. None), al_lockfile = (\<lambda>_. None),
             al_sha256 = (\<lambda>d. d), al_lower = (\<lambda>_. ''u''), al_range = rev\<rparr>"

lemma zx_laws: "lower_table (al_lower zx_lib)" "range_order (al_range zx_lib)"
  by (simp_all add: zx_lib_def lower_table_def range_order_def)

lemmas zx_eval = zx_lib_def zx_archive_def zx_file_def hasSuffix_def hasPrefix_def trimSuffix_def
  runes_ascii byte_of_def toLower_def rune_lower_def validString_def containsControl_def isControl_def
  containsAny_def forbidden_component_def plain_def

lemma zx_names:
  "trimSuffix ''index.html'' ''/'' = ''index.html''" "trimSuffix ''js/'' ''/'' = ''js''" "trimSuffix ''js/App.js'' ''/'' = ''js/App.js''"
  by (simp_all add: trimSuffix_def hasSuffix_def hasPrefix_def)

lemma zx_safe: "list_all (\<lambda>n. safe_path (al_lower zx_lib) n) [''index.html'', ''js'', ''js/App.js'']"
  by (simp add: safe_path_def safe_component_def zx_eval)

lemma zx_keys: "map (entry_key zx_lib) zx_archive = [''index.html'', ''js'', ''js/app.js'']"
  by (simp add: entry_key_def zx_eval char_of_def bit_Suc_0_iff)

lemma zx_ok: "project_ok zx_lib (\<lambda>_. True) ''z'' ''static''"
proof -
  have entries: "list_all (entry_ok zx_lib) zx_archive"
    using zx_safe by (simp add: entry_ok_def zx_archive_def zx_file_def zx_names readable_def)
  have regs: "regulars zx_archive = [zx_file ''index.html'' RegularFile ''<p>'', zx_file ''js/App.js'' RegularFile ''go()'']"
    by (simp add: zx_archive_def zx_file_def)
  have keys: "entry_key zx_lib ` set (regulars zx_archive) = {''index.html'', ''js/app.js''}"
    "entry_key zx_lib ` set zx_archive = {''index.html'', ''js'', ''js/app.js''}"
    using zx_keys by (simp_all add: regs) (simp_all add: zx_archive_def)
  have above: "\<forall>k \<in> {''index.html'', ''js'', ''js/app.js''}. \<forall>g \<in> {''index.html'', ''js/app.js''}. g \<notin> set (parents_of k)"
    by (simp add: parents_of_def ancestors_def numeral_eq_Suc)
  have "\<forall>f \<in> set zx_archive. \<forall>g \<in> set (regulars zx_archive). entry_key zx_lib g \<notin> set (parents_of (entry_key zx_lib f))"
    using above unfolding keys [symmetric] by blast
  moreover have "content_bytes (regulars zx_archive) \<le> MaxExpanded" "kind_ok zx_lib ''static'' zx_archive"
    by (simp_all add: regs kind_ok_def) (simp_all add: zx_file_def content_def)
  moreover have "distinct (map (entry_key zx_lib) zx_archive)" unfolding zx_keys by simp
  moreover have "length zx_archive \<le> MaxEntries" "regulars zx_archive \<noteq> []" "al_open zx_lib ''z'' = Some zx_archive"
    by (simp_all add: zx_archive_def zx_lib_def zx_file_def)
  ultimately show ?thesis using entries by (simp add: project_ok_def archive_ok_def list_all_iff)
qed

theorem Validate_decides_specification_witness:
  "Validate zx_lib (\<lambda>_. True) ''z'' ''static'' = Some (Inr (manifest_of zx_lib ''z'' ''static''))"
  using Validate_decides_specification [OF zx_laws] zx_ok by blast

theorem Validate_returns_witness: "\<exists>r. Validate zx_lib (\<lambda>i. i < 2) ''z'' ''static'' = Some r"
  by (rule Validate_returns [OF zx_laws])

theorem accepted_entries_stay_inside_witness:
  "path_join [''/srv/site'', ''js/App.js''] = ''/srv/site/js/App.js''"
proof -
  let ?f = "zx_file ''js/App.js'' RegularFile ''go()''"
  have "Validate zx_lib (\<lambda>_. True) ''z'' ''static'' = Some (Inr (manifest_of zx_lib ''z'' ''static''))"
    using zx_ok by (simp add: Validate_decides [OF zx_laws])
  moreover have "al_open zx_lib ''z'' = Some zx_archive" "?f \<in> set zx_archive" "rel_parts [''srv'', ''site'']"
    by (simp_all add: zx_lib_def zx_archive_def rel_parts_def plain_def)
  ultimately have "path_join [CHR ''/'' # slashed [''srv'', ''site''], entry_name ?f]
      = CHR ''/'' # slashed ([''srv'', ''site''] @ parts (entry_name ?f))"
    using accepted_entries_stay_inside [OF zx_laws] by blast
  then show ?thesis by (simp add: zx_file_def zx_names)
qed

end
