(* ===== verification/Node_Artifact.thy ===== *)
theory Node_Artifact
  imports Go_Path Node_Pool
begin

text \<open>
  \<open>internal/nodeartifact/artifact.go\<close>: the inspection of built Node release archives, with the
  links inside them. The fields of \<open>artifact_lib\<close> are the results of the standard library's
  decoders, the table of \<open>strings.ToLower\<close>, and the orders in which the two \<open>range\<close> loops visit
  the map of entries: \<open>ar_visit\<close> for the loop that adds directories while it runs (it may or may
  not reach the added keys), \<open>ar_range\<close> for the loop over the links. A context that ends while an
  entry is read makes the read fail.
\<close>

section \<open>Inspection\<close>

abbreviation artifact_MaxCompressed :: nat where "artifact_MaxCompressed \<equiv> 100 * 2 ^ 20"
abbreviation artifact_MaxExpanded :: int where "artifact_MaxExpanded \<equiv> 256 * 2 ^ 20"
abbreviation artifact_MaxFile :: nat where "artifact_MaxFile \<equiv> 32 * 2 ^ 20"
abbreviation artifact_MaxEntries :: nat where "artifact_MaxEntries \<equiv> 20000"

record artifact_entry =
  ae_file :: "zip_file option"
  ae_kind :: file_kind
  ae_target :: string

type_synonym artifact_entries = "(string \<times> artifact_entry) list"

record artifact_lib =
  ar_open :: "string \<Rightarrow> zip_file list option"
  ar_start :: "string \<Rightarrow> string option"
  ar_sha256 :: "string \<Rightarrow> string"
  ar_lower :: "string \<Rightarrow> string"
  ar_visit :: "string list \<Rightarrow> string list"
  ar_range :: "string list \<Rightarrow> string list"

definition safeName :: "(string \<Rightarrow> string) \<Rightarrow> string \<Rightarrow> bool" where
  "safeName table name \<longleftrightarrow>
     \<not> (name = [] \<or> length name > 4096 \<or> \<not> validString name \<or> containsAny name [CHR 0x5C, CHR '':'']
        \<or> hasPrefix name ''/'' \<or> path_clean name \<noteq> name \<or> containsControl name)
     \<and> \<not> length (parts name) > 64
     \<and> list_all (\<lambda>part. let lower = toLower table part
                       in \<not> (part = ''.'' \<or> part = ''..'' \<or> lower = ''.git'' \<or> lower = ''.npmrc'' \<or> lower = ''.env''
                             \<or> hasPrefix lower ''.env.'')) (parts name)"

fun target_parts :: "bool \<Rightarrow> string list \<Rightarrow> bool" where
  "target_parts descending [] = descending"
| "target_parts descending (part # ps) =
     (if part = [] \<or> part = ''.'' then False
      else if part = ''..'' then (if descending then False else target_parts descending ps)
      else target_parts True ps)"

definition safeTarget :: "string \<Rightarrow> bool" where
  "safeTarget target \<longleftrightarrow>
     \<not> (target = [] \<or> length target > 4096 \<or> \<not> validString target \<or> hasPrefix target ''/''
        \<or> containsAny target [CHR 0x5C, CHR '':''] \<or> containsControl target)
     \<and> target_parts False (parts target)"

definition zero_entry :: artifact_entry where
  "zero_entry = \<lparr>ae_file = None, ae_kind = RegularFile, ae_target = []\<rparr>"

definition implicit_dir :: artifact_entry where
  "implicit_dir = \<lparr>ae_file = None, ae_kind = Directory, ae_target = []\<rparr>"

definition is_directory :: "artifact_entries \<Rightarrow> string \<Rightarrow> bool" where
  "is_directory es p \<longleftrightarrow> (case map_of es p of None \<Rightarrow> False | Some d \<Rightarrow> ae_kind d = Directory)"

function regularTarget :: "(string \<Rightarrow> string) \<Rightarrow> artifact_entries \<Rightarrow> string \<Rightarrow> string list \<Rightarrow> bool option" where
  "regularTarget table es name seen =
     (if name \<in> set seen \<or> length seen \<ge> 32 then Some False
      else let item = (case map_of es name of None \<Rightarrow> zero_entry | Some e \<Rightarrow> e);
               target = path_join [path_dir name, ae_target item]
           in if \<not> safeName table target then Some False
              else case for_parents (\<lambda>parent s. if is_directory es parent then Inr s else Inl False) (path_dir target) () of
                None \<Rightarrow> None
              | Some (Inl r) \<Rightarrow> Some r
              | Some (Inr _) \<Rightarrow>
                  (case map_of es target of
                     None \<Rightarrow> Some False
                   | Some next \<Rightarrow>
                       if ae_kind next = RegularFile then Some True
                       else if ae_kind next \<noteq> Symlink then Some False
                       else regularTarget table es target (name # seen)))"
  by pat_completeness auto
termination
  by (relation "measure (\<lambda>(table, es, name, seen). 32 - length seen)") auto

declare regularTarget.simps [simp del]

text \<open>One turn of the first loop: the manifest counts and the map of entries.\<close>

definition entry_limit :: "string \<Rightarrow> file_kind \<Rightarrow> nat" where
  "entry_limit name kind =
     (if name = ''package.json'' then 2 ^ 20 else if kind = Symlink then 4096 else artifact_MaxFile)"

definition inspect_entry ::
  "artifact_lib \<Rightarrow> zip_file \<Rightarrow> manifest \<times> artifact_entries \<Rightarrow> go_err + (manifest \<times> artifact_entries)" where
  "inspect_entry lib f = (\<lambda>(m, es).
     let name = trimSuffix (zf_Name f) ''/''; kind = zf_Kind f
     in if \<not> safeName (ar_lower lib) name then Inl ErrArtifact
        else if map_of es name \<noteq> None then Inl ErrArtifact
        else if kind = SpecialFile then Inl ErrArtifact
        else if hasSuffix (zf_Name f) ''/'' \<noteq> (kind = Directory) then Inl ErrArtifact
        else if zf_Size f > artifact_MaxFile \<or> kind = Directory \<and> zf_Size f \<noteq> 0 then Inl ErrArtifact
        else if mf_ExpandedBytes m + int (zf_Size f) > artifact_MaxExpanded then Inl ErrArtifact
        else case zf_Stream f of
          None \<Rightarrow> Inl ErrArtifact
        | Some z \<Rightarrow>
            (let limit = entry_limit name kind;
                 (body, failed) = read_limited (limit + 1) z;
                 count = length body
             in if failed \<or> zs_CloseFails z \<or> count > limit \<or> count \<noteq> zf_Size f then Inl ErrArtifact
                else let target = (if kind = Symlink then body else [])
                  in if kind = Symlink \<and> \<not> safeTarget target then Inl ErrArtifact
                     else if name = ''package.json''
                             \<and> (kind \<noteq> RegularFile
                                \<or> (case ar_start lib body of None \<Rightarrow> True | Some script \<Rightarrow> trimSpace script = []))
                       then Inl ErrArtifact
                     else Inr (m\<lparr>mf_Files := mf_Files m + 1, mf_ExpandedBytes := mf_ExpandedBytes m + int count\<rparr>,
                               es @ [(name, \<lparr>ae_file = Some f, ae_kind = kind, ae_target = target\<rparr>)])))"

fun inspect_entries ::
  "artifact_lib \<Rightarrow> (nat \<Rightarrow> bool) \<Rightarrow> nat \<Rightarrow> zip_file list \<Rightarrow> manifest \<times> artifact_entries
    \<Rightarrow> go_err + (manifest \<times> artifact_entries)" where
  "inspect_entries lib ctx i [] s = Inr s"
| "inspect_entries lib ctx i (f # fs) s =
     (if \<not> ctx i then Inl ErrContext
      else case inspect_entry lib f s of Inl e \<Rightarrow> Inl e | Inr s' \<Rightarrow> inspect_entries lib ctx (i + 1) fs s')"

definition materialize_parent :: "string \<Rightarrow> artifact_entries \<Rightarrow> go_err + artifact_entries" where
  "materialize_parent parent es =
     (case map_of es parent of
        Some item \<Rightarrow> if ae_kind item \<noteq> Directory then Inl ErrArtifact else Inr es
      | None \<Rightarrow> Inr (es @ [(parent, implicit_dir)]))"

definition check_link :: "artifact_lib \<Rightarrow> artifact_entries \<Rightarrow> string \<Rightarrow> (go_err + unit) option" where
  "check_link lib es name =
     (case map_of es name of
        Some item \<Rightarrow>
          if ae_kind item = Symlink
          then map_option (\<lambda>regular. if regular then Inr () else Inl ErrArtifact) (regularTarget (ar_lower lib) es name [])
          else Some (Inr ())
      | None \<Rightarrow> Some (Inr ()))"

definition empty_manifest :: manifest where
  "empty_manifest = \<lparr>mf_SHA256 = [], mf_Files = 0, mf_ExpandedBytes = 0\<rparr>"

definition inspect ::
  "artifact_lib \<Rightarrow> (nat \<Rightarrow> bool) \<Rightarrow> string \<Rightarrow> string \<Rightarrow> (go_err + (manifest \<times> artifact_entries)) option" where
  "inspect lib ctx data expected =
     (if length data > artifact_MaxCompressed \<or> length expected \<noteq> 64 then Some (Inl ErrArtifact)
      else if ar_sha256 lib data \<noteq> expected then Some (Inl ErrArtifact)
      else case ar_open lib data of
        None \<Rightarrow> Some (Inl ErrArtifact)
      | Some archive \<Rightarrow>
          if archive = [] \<or> length archive > artifact_MaxEntries then Some (Inl ErrArtifact)
          else case inspect_entries lib ctx 0 archive (empty_manifest, []) of
            Inl e \<Rightarrow> Some (Inl e)
          | Inr (m, es) \<Rightarrow>
              if (case map_of es ''package.json'' of None \<Rightarrow> True | Some pkg \<Rightarrow> ae_kind pkg \<noteq> RegularFile)
                then Some (Inl ErrArtifact)
              else case loop_opt (\<lambda>name. for_parents materialize_parent (path_dir name)) (ar_visit lib (map fst es)) es of
                None \<Rightarrow> None
              | Some (Inl e) \<Rightarrow> Some (Inl e)
              | Some (Inr es') \<Rightarrow>
                  if length es' > artifact_MaxEntries then Some (Inl ErrArtifact)
                  else case each_opt (check_link lib es') (ar_range lib (map fst es')) of
                    None \<Rightarrow> None
                  | Some (Inl e) \<Rightarrow> Some (Inl e)
                  | Some (Inr _) \<Rightarrow>
                      if \<not> ctx (length archive) then Some (Inl ErrContext)
                      else Some (Inr (m\<lparr>mf_SHA256 := expected\<rparr>, es')))"

definition artifact_Validate ::
  "artifact_lib \<Rightarrow> (nat \<Rightarrow> bool) \<Rightarrow> string \<Rightarrow> string \<Rightarrow> (go_err + manifest) option" where
  "artifact_Validate lib ctx data expected = map_option (map_sum (\<lambda>e. e) fst) (inspect lib ctx data expected)"

section \<open>Names and targets\<close>

lemma safeName_parts: "safeName table name \<Longrightarrow> rel_parts (parts name)"
  unfolding rel_parts_iff safeName_def list_all_iff Let_def by blast

lemma target_descending: "target_parts True ps \<Longrightarrow> \<forall>w \<in> set ps. plain w"
proof (induction ps)
  case (Cons p ps)
  then have "target_parts True ps" "p \<noteq> []" "p \<noteq> ''.''" "p \<noteq> ''..''" by (auto split: if_splits)
  with Cons.IH show ?case unfolding plain_def by simp
qed simp

lemma target_partsD:
  "target_parts False ps \<Longrightarrow> \<exists>k vs. ps = replicate k ''..'' @ vs \<and> vs \<noteq> [] \<and> (\<forall>w \<in> set vs. plain w)"
proof (induction ps)
  case (Cons p ps)
  show ?case
  proof (cases "p = ''..''")
    case True
    with Cons obtain k vs where "ps = replicate k ''..'' @ vs" "vs \<noteq> []" "\<forall>w \<in> set vs. plain w"
      by (auto split: if_splits)
    with True have "p # ps = replicate (Suc k) ''..'' @ vs \<and> vs \<noteq> [] \<and> (\<forall>w \<in> set vs. plain w)" by simp
    then show ?thesis by blast
  next
    case False
    with Cons.prems have "plain p" "target_parts True ps" by (auto simp: plain_def split: if_splits)
    with target_descending have "p # ps = replicate 0 ''..'' @ (p # ps) \<and> p # ps \<noteq> [] \<and> (\<forall>w \<in> set (p # ps). plain w)" by auto
    then show ?thesis by blast
  qed
qed simp

lemma safeTarget_parts:
  assumes "safeTarget t"
  obtains k vs where "parts t = replicate k ''..'' @ vs" and "rel_parts vs"
proof -
  from assms obtain k vs where kv: "parts t = replicate k ''..'' @ vs" "vs \<noteq> []" "\<forall>w \<in> set vs. plain w"
    using target_partsD [of "parts t"] by (auto simp: safeTarget_def)
  have "CHR ''/'' \<notin> set w" if "w \<in> set vs" for w
    using parts_no_slash [of w "CHR ''/''" t] kv(1) that by simp
  with kv have "rel_parts vs" by (simp add: rel_parts_def)
  with kv(1) show ?thesis by (rule that)
qed

text \<open>Cleaning steps up: leading \<open>..\<close> components take away the last directories.\<close>

lemma foldl_clean_up:
  "\<forall>w \<in> set st. plain w \<Longrightarrow> k \<le> length st \<Longrightarrow> foldl (clean_step False) st (replicate k ''..'') = drop k st"
proof (induction k arbitrary: st)
  case (Suc k)
  then obtain t ts where st: "st = t # ts" by (cases st) auto
  with Suc.prems(1) have "clean_step False st ''..'' = ts" by (auto simp: clean_step_def plain_def)
  with Suc st show ?case by simp
qed simp

lemma foldl_clean_dots: "foldl (clean_step False) (replicate n ''..'') (replicate k ''..'') = replicate (n + k) ''..''"
proof (induction k arbitrary: n)
  case (Suc k)
  have "clean_step False (replicate n ''..'') ''..'' = replicate (Suc n) ''..''"
    by (cases n) (auto simp: clean_step_def)
  with Suc [of "Suc n"] show ?case by simp
qed simp

lemma foldl_clean_over:
  assumes "\<forall>w \<in> set st. plain w" and "length st < k"
  shows "foldl (clean_step False) st (replicate k ''..'') = replicate (k - length st) ''..''"
proof -
  have "replicate k ''..'' = replicate (length st) ''..'' @ replicate (k - length st) ''..''"
    using assms(2) by (simp add: replicate_add [symmetric])
  with foldl_clean_up [OF assms(1), of "length st"] foldl_clean_dots [of 0 "k - length st"]
  show ?thesis by simp
qed

text \<open>The directory of a name in front of a target, with the components read as one path.\<close>

lemma clean_components:
  assumes "w \<noteq> []" and "\<forall>u \<in> set (w # ws). CHR ''/'' \<notin> set u"
  shows "path_clean (slashed (w # ws)) =
     (let out = slashed (rev (foldl (clean_step False) [] (w # ws))) in if out = [] then ''.'' else out)"
proof -
  have "parts (slashed (w # ws)) = w # ws" using assms by (intro split_joinByte) auto
  moreover have "\<not> hasPrefix (slashed (w # ws)) ''/''"
    using assms by (cases w; cases ws) (auto simp: hasPrefix_def)
  ultimately show ?thesis by (simp add: path_clean_def)
qed

lemma slashed_not_Nil: "rel_parts vs \<Longrightarrow> slashed (us @ vs) \<noteq> []"
proof (cases vs rule: rev_cases)
  case (snoc xs v)
  assume "rel_parts vs"
  with snoc have "plain v" by (simp add: rel_parts_def)
  then have "v \<noteq> []" by auto
  then show ?thesis using joinByte_snoc [of "us @ xs" "CHR ''/''" v] snoc by (cases "us @ xs = []") auto
qed (simp add: rel_parts_def)

lemma link_path:
  assumes name: "rel_parts (ds @ [w])" and t: "parts t = replicate k ''..'' @ vs" "rel_parts vs"
  shows "path_join [path_dir (slashed (ds @ [w])), t]
       = slashed (rev (foldl (clean_step False) (rev ds) (replicate k ''..'' @ vs)))"
proof -
  let ?ts = "replicate k ''..'' @ vs" and ?d = "if ds = [] then [''.''] else ds"
  have ts: "t = slashed ?ts" using join_splitByte [of "CHR ''/''" t] t(1) by simp
  have tn: "t \<noteq> []" unfolding ts by (rule slashed_not_Nil [OF t(2)])
  have dir: "path_dir (slashed (ds @ [w])) = slashed ?d" using path_dir_slashed [OF name] by simp
  have ds: "ds = [] \<or> rel_parts ds" using name by (auto simp: rel_parts_def)
  then have dn: "slashed ?d \<noteq> []" using slashed_relative(2) [of ds] by auto
  obtain d0 d1 where d: "?d = d0 # d1" "d0 \<noteq> []" "\<forall>u \<in> set (d0 # d1). CHR ''/'' \<notin> set u"
  proof (cases ds)
    case Nil
    then show ?thesis by (intro that [of "''.''" "[]"]) simp_all
  next
    case (Cons u us)
    with ds have "plain u" "\<forall>u \<in> set ds. CHR ''/'' \<notin> set u" by (simp_all add: rel_parts_def)
    with Cons show ?thesis by (intro that [of u us]) auto
  qed
  have "path_join [path_dir (slashed (ds @ [w])), t] = path_clean (slashed (?d @ ?ts))"
    using tn dn t(2) joinByte_append [of ?d ?ts "CHR ''/''"] by (simp add: path_join_def dir ts rel_parts_def)
  also have "\<dots> = (let out = slashed (rev (foldl (clean_step False) [] (?d @ ?ts))) in if out = [] then ''.'' else out)"
  proof -
    have "\<forall>u \<in> set (d0 # d1 @ ?ts). CHR ''/'' \<notin> set u" using d(3) t(2) by (auto simp: rel_parts_def)
    from clean_components [OF d(2) this] show ?thesis by (simp add: d(1))
  qed
  also have "foldl (clean_step False) [] (?d @ ?ts) = foldl (clean_step False) (rev ds) ?ts"
    using ds foldl_clean_plain [of ds False "[]"] by (auto simp: rel_parts_def clean_step_def)
  finally show ?thesis
    using t(2) foldl_clean_plain [of vs False] slashed_not_Nil [OF t(2)] by (simp add: rel_parts_def Let_def)
qed

lemma link_path_cases:
  assumes name: "rel_parts (ds @ [w])" and t: "parts t = replicate k ''..'' @ vs" "rel_parts vs"
    and safe: "safeName table (path_join [path_dir (slashed (ds @ [w])), t])"
  shows "k \<le> length ds" and "path_join [path_dir (slashed (ds @ [w])), t] = slashed (take (length ds - k) ds @ vs)"
proof -
  have st: "\<forall>u \<in> set (rev ds). plain u" using name by (simp add: rel_parts_def)
  have vs: "foldl (clean_step False) st vs = rev vs @ st" for st
    using t(2) by (intro foldl_clean_plain) (simp add: rel_parts_def)
  show k: "k \<le> length ds"
  proof (rule ccontr)
    assume "\<not> k \<le> length ds"
    then have "path_join [path_dir (slashed (ds @ [w])), t] = slashed (replicate (k - length ds) ''..'' @ vs)"
      using link_path [OF name t] foldl_clean_over [OF st] by (simp add: vs)
    moreover have "parts (slashed (replicate (k - length ds) ''..'' @ vs)) = replicate (k - length ds) ''..'' @ vs"
      using t(2) by (intro split_joinByte) (auto simp: rel_parts_def)
    ultimately have "rel_parts (replicate (k - length ds) ''..'' @ vs)" using safeName_parts [OF safe] by simp
    then show False using \<open>\<not> k \<le> length ds\<close> by (cases "k - length ds") (auto simp: rel_parts_def)
  qed
  show "path_join [path_dir (slashed (ds @ [w])), t] = slashed (take (length ds - k) ds @ vs)"
    using link_path [OF name t] foldl_clean_up [OF st, of k] k by (simp add: vs rev_drop)
qed

section \<open>Links as the file system follows them\<close>

text \<open>
  Path resolution in the tree of the entries, the way a POSIX kernel walks it: \<open>resolve n es dir
  rest\<close> reads the components \<open>rest\<close> in the directory \<open>dir\<close>, follows at most \<open>n\<close> links wherever they
  stand, and fails on a missing name, on a file used as a directory, and on a step above the root.
\<close>

function resolve :: "nat \<Rightarrow> artifact_entries \<Rightarrow> string list \<Rightarrow> string list \<Rightarrow> string list option" where
  "resolve n es dir [] = Some dir"
| "resolve n es dir (w # ws) =
     (if w = [] \<or> w = ''.'' then resolve n es dir ws
      else if w = ''..'' then (if dir = [] then None else resolve n es (butlast dir) ws)
      else case map_of es (slashed (dir @ [w])) of
        None \<Rightarrow> None
      | Some e \<Rightarrow>
          (case ae_kind e of
             Directory \<Rightarrow> resolve n es (dir @ [w]) ws
           | RegularFile \<Rightarrow> if ws = [] then Some (dir @ [w]) else None
           | Symlink \<Rightarrow> if n = 0 then None else resolve (n - 1) es dir (parts (ae_target e) @ ws)
           | SpecialFile \<Rightarrow> None))"
  by pat_completeness auto
termination
  by (relation "measures [\<lambda>(n, es, dir, ws). n, \<lambda>(n, es, dir, ws). length ws]") auto

lemma resolve_down:
  assumes "\<forall>w \<in> set us. plain w" and "\<And>xs ys. xs \<noteq> [] \<Longrightarrow> us = xs @ ys \<Longrightarrow> is_directory es (slashed (dir @ xs))"
  shows "resolve n es dir (us @ rest) = resolve n es (dir @ us) rest"
  using assms
proof (induction us arbitrary: dir)
  case (Cons u us)
  have "is_directory es (slashed (dir @ [u]))" using Cons.prems(2) [of "[u]" us] by simp
  then obtain e where e: "map_of es (slashed (dir @ [u])) = Some e" "ae_kind e = Directory"
    by (auto simp: is_directory_def split: option.splits)
  have u: "u \<noteq> []" "u \<noteq> ''.''" "u \<noteq> ''..''" using Cons.prems(1) by auto
  have "is_directory es (slashed ((dir @ [u]) @ xs))" if "xs \<noteq> []" "us = xs @ ys" for xs ys
    using Cons.prems(2) [of "u # xs" ys] that by simp
  with Cons.IH [of "dir @ [u]"] Cons.prems(1) have "resolve n es (dir @ [u]) (us @ rest) = resolve n es ((dir @ [u]) @ us) rest"
    by simp
  with e u show ?case by simp
qed simp

lemma resolve_up:
  "k \<le> length dir \<Longrightarrow> resolve n es dir (replicate k ''..'' @ rest) = resolve n es (take (length dir - k) dir) rest"
proof (induction k arbitrary: dir)
  case (Suc k)
  then have "dir \<noteq> []" by auto
  have "take (length (butlast dir) - k) (butlast dir) = take (length dir - Suc k) dir"
    using Suc.prems by (simp add: take_butlast)
  with Suc \<open>dir \<noteq> []\<close> show ?case by simp
qed simp

lemma resolve_last:
  assumes "plain v"
  shows "resolve n es dir [v] = (case map_of es (slashed (dir @ [v])) of
        None \<Rightarrow> None
      | Some e \<Rightarrow> (case ae_kind e of
             Directory \<Rightarrow> Some (dir @ [v]) | RegularFile \<Rightarrow> Some (dir @ [v])
           | Symlink \<Rightarrow> if n = 0 then None else resolve (n - 1) es dir (parts (ae_target e))
           | SpecialFile \<Rightarrow> None))"
proof -
  have "v \<noteq> []" "v \<noteq> ''.''" "v \<noteq> ''..''" using assms by auto
  then show ?thesis by (simp split: option.splits file_kind.splits)
qed

declare resolve.simps [simp del]

text \<open>
  What the checks leave in the map: names of plain components, directories above every entry,
  links with targets that only climb at their start.
\<close>

definition sound_entries :: "artifact_entries \<Rightarrow> bool" where
  "sound_entries es \<longleftrightarrow> (\<forall>name e. map_of es name = Some e \<longrightarrow>
     rel_parts (parts name) \<and> (\<forall>p \<in> set (parents_of name). is_directory es p)
     \<and> (ae_kind e = Symlink \<longrightarrow> safeTarget (ae_target e)))"

lemma parents_slashed: "rel_parts ws \<Longrightarrow> set (parents_of (slashed ws)) = slashed ` set (ancestors ws)"
  by (simp add: parents_of_def parts_slashed)

lemma regularTarget_parents:
  assumes "rel_parts (parts target)"
  shows "for_parents (\<lambda>parent s. if is_directory es parent then Inr s else Inl False) (path_dir target) ()
     = Some (each (\<lambda>parent s. if \<not> is_directory es parent then Inl False else Inr s) (parents_of target) ())"
proof -
  have "(\<lambda>parent s. if is_directory es parent then Inr s else Inl False)
      = (\<lambda>parent (s :: unit). if \<not> is_directory es parent then Inl False else Inr s)" by (intro ext) simp
  then show ?thesis using for_parents_ends [OF assms] by simp
qed

lemma regularTarget_returns: "\<exists>r. regularTarget table es name seen = Some r"
proof (induction table es name seen rule: regularTarget.induct)
  case (1 table es name seen)
  let ?item = "case map_of es name of None \<Rightarrow> zero_entry | Some e \<Rightarrow> e"
  let ?t = "path_join [path_dir name, ae_target ?item]"
  show ?case
  proof (cases "(name \<in> set seen \<or> length seen \<ge> 32) \<or> \<not> safeName table ?t")
    case True
    then show ?thesis by (auto simp: regularTarget.simps [of table es name seen] Let_def)
  next
    case False
    then have "rel_parts (parts ?t)" using safeName_parts by blast
    note loop = regularTarget_parents [OF this, of es]
    show ?thesis
    proof (cases "each (\<lambda>parent s. if \<not> is_directory es parent then Inl False else Inr s) (parents_of ?t) ()")
      case (Inl r)
      with False loop show ?thesis by (simp add: regularTarget.simps [of table es name seen] Let_def)
    next
      case (Inr u)
      with False loop 1 [OF _ refl refl] show ?thesis
        by (auto simp: regularTarget.simps [of table es name seen] Let_def split: option.splits)
    qed
  qed
qed

lemma regularTarget_True:
  assumes "regularTarget table es name seen = Some True" and "map_of es name = Some e"
    and t: "t = path_join [path_dir name, ae_target e]"
  shows "length seen < 32" and "safeName table t" and "\<forall>p \<in> set (parents_of t). is_directory es p"
    and "\<exists>q. map_of es t = Some q
      \<and> (ae_kind q = RegularFile \<or> ae_kind q = Symlink \<and> regularTarget table es t (name # seen) = Some True)"
proof -
  have run: "\<not> (name \<in> set seen \<or> length seen \<ge> 32)" "safeName table t"
    using assms(1,2) by (auto simp: regularTarget.simps [of table es name seen] t Let_def split: if_splits)
  then show "length seen < 32" "safeName table t" by auto
  note loop = regularTarget_parents [OF safeName_parts [OF run(2)], of es]
  have par: "each (\<lambda>parent s. if \<not> is_directory es parent then Inl False else Inr s) (parents_of t) () = Inr ()"
    using assms(1,2) run loop
    by (auto simp: regularTarget.simps [of table es name seen] t Let_def dest: each_check_Inl split: sum.splits)
  then show "\<forall>p \<in> set (parents_of t). is_directory es p" by (simp add: each_check)
  show "\<exists>q. map_of es t = Some q
      \<and> (ae_kind q = RegularFile \<or> ae_kind q = Symlink \<and> regularTarget table es t (name # seen) = Some True)"
    using assms(1,2) run loop par
    by (auto simp: regularTarget.simps [of table es name seen] t [symmetric] Let_def split: option.splits if_splits)
qed

lemma resolve_target:
  assumes name: "rel_parts (ds @ [w])" and up: "k \<le> length ds" and vs: "rel_parts (vs @ [v])"
    and dirs: "\<forall>p \<in> set (parents_of (slashed (take (length ds - k) ds @ vs @ [v]))). is_directory es p"
  shows "resolve n es ds (replicate k ''..'' @ vs @ [v]) = resolve n es (take (length ds - k) ds @ vs) [v]"
proof -
  let ?u = "take (length ds - k) ds"
  have rel: "rel_parts (?u @ vs @ [v])" using name vs by (auto simp: rel_parts_def dest: in_set_takeD)
  have "is_directory es (slashed (?u @ xs))" if "xs \<noteq> []" "vs = xs @ ys" for xs ys
  proof -
    have "?u @ xs \<in> set (ancestors (?u @ vs @ [v]))" using that by (auto simp: ancestors_iff)
    then show ?thesis using dirs by (simp add: parents_slashed [OF rel])
  qed
  moreover have "\<forall>w \<in> set vs. plain w" using vs by (simp add: rel_parts_def)
  ultimately have "resolve n es ?u (vs @ [v]) = resolve n es (?u @ vs) [v]" by (intro resolve_down)
  with resolve_up [OF up, of n es "vs @ [v]"] show ?thesis by simp
qed

lemma link_hop:
  assumes "sound_entries es" and "regularTarget table es name seen = Some True" and e: "map_of es name = Some e"
    and "ae_kind e = Symlink" and ds: "parts name = ds @ [w]"
  obtains dir v q where "rel_parts (dir @ [v])"
    and "\<And>n. resolve n es ds (parts (ae_target e)) = resolve n es dir [v]"
    and "map_of es (slashed (dir @ [v])) = Some q"
    and "ae_kind q = RegularFile
      \<or> ae_kind q = Symlink \<and> regularTarget table es (slashed (dir @ [v])) (name # seen) = Some True"
proof -
  let ?t = "path_join [path_dir name, ae_target e]"
  have sound: "rel_parts (ds @ [w])" "safeTarget (ae_target e)"
    using assms(1,4) e unfolding sound_entries_def ds [symmetric] by blast+
  have name: "name = slashed (ds @ [w])" using join_splitByte [of "CHR ''/''" name] ds by simp
  obtain k us where us: "parts (ae_target e) = replicate k ''..'' @ us" "rel_parts us"
    using safeTarget_parts [OF sound(2)] .
  obtain vs v where v: "us = vs @ [v]" using us(2) by (cases us rule: rev_cases) (auto simp: rel_parts_def)
  note hop = regularTarget_True [OF assms(2) e refl]
  note path = link_path_cases [OF sound(1) us hop(2) [unfolded name]]
  let ?dir = "take (length ds - k) ds @ vs"
  have t: "?t = slashed (?dir @ [v])" using path(2) name v by simp
  have rel: "rel_parts (?dir @ [v])" using sound(1) us(2) v by (auto simp: rel_parts_def dest: in_set_takeD)
  have dirs: "\<forall>p \<in> set (parents_of (slashed (take (length ds - k) ds @ vs @ [v]))). is_directory es p"
    using hop(3) unfolding t by simp
  have "resolve n es ds (parts (ae_target e)) = resolve n es ?dir [v]" for n
    unfolding us(1) v using resolve_target [OF sound(1) path(1) us(2) [unfolded v] dirs] .
  with rel hop(4) show ?thesis unfolding t by (blast intro: that)
qed

lemma regularTarget_resolves:
  assumes "sound_entries es" and "regularTarget table es name seen = Some True" and "map_of es name = Some e"
    and "ae_kind e = Symlink" and "parts name = ds @ [w]" and "31 \<le> n + length seen"
  shows "\<exists>ws f. resolve n es ds (parts (ae_target e)) = Some ws \<and> map_of es (slashed ws) = Some f \<and> ae_kind f = RegularFile"
  using assms(2-)
proof (induction n arbitrary: name seen e ds w rule: less_induct)
  case (less n)
  obtain dir v q where hop: "rel_parts (dir @ [v])" "\<And>n. resolve n es ds (parts (ae_target e)) = resolve n es dir [v]"
    "map_of es (slashed (dir @ [v])) = Some q"
    and q: "ae_kind q = RegularFile \<or> ae_kind q = Symlink \<and> regularTarget table es (slashed (dir @ [v])) (name # seen) = Some True"
    using link_hop [OF assms(1) less.prems(1-4)] by metis
  have v: "plain v" using hop(1) by (simp add: rel_parts_def)
  from q show ?case
  proof
    assume "ae_kind q = RegularFile"
    with hop v show ?thesis by (simp add: resolve_last)
  next
    assume q: "ae_kind q = Symlink \<and> regularTarget table es (slashed (dir @ [v])) (name # seen) = Some True"
    then have "length (name # seen) < 32" using regularTarget_True(1) hop(3) by blast
    with less.prems(5) have n: "0 < n" by simp
    have "\<exists>ws f. resolve (n - 1) es dir (parts (ae_target q)) = Some ws \<and> map_of es (slashed ws) = Some f \<and> ae_kind f = RegularFile"
      using q hop(3) n less.prems(5) parts_slashed [OF hop(1)] by (intro less.IH [of "n - 1"]) auto
    with q hop(2,3) v n show ?thesis by (simp add: resolve_last)
  qed
qed

lemma resolve_to_entry:
  assumes "sound_entries es" and "map_of es name = Some e" and ds: "parts name = ds @ [w]"
  shows "resolve n es [] (parts name) = resolve n es ds [w]" and "plain w" and "slashed (ds @ [w]) = name"
proof -
  have rel: "rel_parts (parts name)" and dirs: "\<forall>p \<in> set (parents_of name). is_directory es p"
    using assms(1,2) by (auto simp: sound_entries_def)
  show w: "plain w" using rel ds by (simp add: rel_parts_def)
  show "slashed (ds @ [w]) = name" using join_splitByte [of "CHR ''/''" name] ds by simp
  have "is_directory es (slashed xs)" if "xs \<noteq> []" "ds = xs @ ys" for xs ys
  proof -
    have "xs \<in> set (ancestors (parts name))" using that ds by (auto simp: ancestors_iff)
    then show ?thesis using dirs by (simp add: parents_of_def)
  qed
  then show "resolve n es [] (parts name) = resolve n es ds [w]"
    using resolve_down [of ds es "[]" n "[w]"] rel ds by (simp add: rel_parts_def)
qed

lemma link_resolves:
  assumes "sound_entries es" and "regularTarget table es name [] = Some True" and "map_of es name = Some e"
    and "ae_kind e = Symlink"
  shows "\<exists>ws f. resolve 32 es [] (parts name) = Some ws \<and> map_of es (slashed ws) = Some f \<and> ae_kind f = RegularFile"
proof -
  obtain ds w where ds: "parts name = ds @ [w]" by (cases "parts name" rule: rev_cases) auto
  note to = resolve_to_entry [OF assms(1,3) ds]
  have "resolve 32 es [] (parts name) = resolve 31 es ds (parts (ae_target e))"
    using to assms(3,4) by (simp add: resolve_last)
  with regularTarget_resolves [OF assms ds, of 31] show ?thesis by simp
qed

lemma entry_resolves:
  assumes "sound_entries es" and "map_of es name = Some e" and "ae_kind e = Directory \<or> ae_kind e = RegularFile"
  shows "resolve n es [] (parts name) = Some (parts name)"
proof -
  obtain ds w where ds: "parts name = ds @ [w]" by (cases "parts name" rule: rev_cases) auto
  from resolve_to_entry [OF assms(1,2) ds] assms(2,3) ds show ?thesis by (auto simp: resolve_last)
qed

section \<open>The accepted entries\<close>

text \<open>An entry that was read from the archive: whole, of the declared size, with its type.\<close>

definition read_entry_ok :: "string \<Rightarrow> artifact_entry \<Rightarrow> zip_file \<Rightarrow> bool" where
  "read_entry_ok name e f \<longleftrightarrow> name = trimSuffix (zf_Name f) ''/'' \<and> ae_kind e = zf_Kind f \<and> zf_Kind f \<noteq> SpecialFile
     \<and> (case zf_Stream f of None \<Rightarrow> False
        | Some z \<Rightarrow> \<not> zs_Fails z \<and> \<not> zs_CloseFails z \<and> length (zs_Data z) = zf_Size f \<and> zf_Size f \<le> artifact_MaxFile
                    \<and> (ae_kind e = Symlink \<longrightarrow> ae_target e = zs_Data z))"

definition starts :: "artifact_lib \<Rightarrow> zip_file \<Rightarrow> bool" where
  "starts lib f \<longleftrightarrow> (case zf_Stream f of None \<Rightarrow> False
     | Some z \<Rightarrow> (case ar_start lib (zs_Data z) of None \<Rightarrow> False | Some script \<Rightarrow> trimSpace script \<noteq> []))"

definition entry_sound :: "artifact_lib \<Rightarrow> string \<times> artifact_entry \<Rightarrow> bool" where
  "entry_sound lib = (\<lambda>(name, e). safeName (ar_lower lib) name \<and> (ae_kind e = Symlink \<longrightarrow> safeTarget (ae_target e))
     \<and> (case ae_file e of None \<Rightarrow> False
        | Some f \<Rightarrow> read_entry_ok name e f \<and> (name = ''package.json'' \<longrightarrow> starts lib f)))"

definition entry_bytes :: "artifact_entries \<Rightarrow> int" where
  "entry_bytes es = sum_list (map (\<lambda>(_, e). case ae_file e of None \<Rightarrow> 0 | Some f \<Rightarrow> int (zf_Size f)) es)"

definition scan_inv :: "artifact_lib \<Rightarrow> manifest \<times> artifact_entries \<Rightarrow> bool" where
  "scan_inv lib = (\<lambda>(m, es). list_all (entry_sound lib) es \<and> distinct (map fst es)
     \<and> mf_Files m = int (length es) \<and> mf_ExpandedBytes m = entry_bytes es \<and> mf_ExpandedBytes m \<le> artifact_MaxExpanded)"

lemma inspect_entryD:
  assumes "inspect_entry lib f (m, es) = Inr (m', es')"
  obtains name e where "es' = es @ [(name, e)]" and "entry_sound lib (name, e)" and "map_of es name = None"
    and "ae_file e = Some f"
    and "m' = m\<lparr>mf_Files := mf_Files m + 1, mf_ExpandedBytes := mf_ExpandedBytes m + int (zf_Size f)\<rparr>"
    and "mf_ExpandedBytes m + int (zf_Size f) \<le> artifact_MaxExpanded"
proof -
  let ?name = "trimSuffix (zf_Name f) ''/''"
  obtain z where z: "zf_Stream f = Some z" using assms by (auto simp: inspect_entry_def Let_def split: if_splits option.splits)
  let ?limit = "entry_limit ?name (zf_Kind f)"
  let ?body = "take (?limit + 1) (zs_Data z)"
  let ?e = "\<lparr>ae_file = Some f, ae_kind = zf_Kind f, ae_target = if zf_Kind f = Symlink then ?body else []\<rparr>"
  have g: "safeName (ar_lower lib) ?name" "map_of es ?name = None" "zf_Kind f \<noteq> SpecialFile" "zf_Size f \<le> artifact_MaxFile"
    "mf_ExpandedBytes m + int (zf_Size f) \<le> artifact_MaxExpanded"
    "\<not> (zs_Fails z \<and> length (zs_Data z) < ?limit + 1)" "\<not> zs_CloseFails z" "length ?body \<le> ?limit" "length ?body = zf_Size f"
    "zf_Kind f = Symlink \<longrightarrow> safeTarget ?body"
    "es' = es @ [(?name, ?e)]"
    "m' = m\<lparr>mf_Files := mf_Files m + 1, mf_ExpandedBytes := mf_ExpandedBytes m + int (zf_Size f)\<rparr>"
    using assms by (simp_all add: inspect_entry_def Let_def z read_limited_def not_less split: if_splits)
  have whole: "length (zs_Data z) \<le> ?limit" "?body = zs_Data z" using g(8) by auto
  have pkg: "?name = ''package.json'' \<longrightarrow> starts lib f"
    using assms whole(2) by (simp add: inspect_entry_def Let_def z read_limited_def starts_def split: if_splits option.splits)
  have "entry_sound lib (?name, ?e)"
    using g whole pkg by (auto simp: entry_sound_def read_entry_ok_def z)
  with g show ?thesis by (intro that [of ?name ?e]) simp_all
qed

lemma inspect_entries_inv:
  "scan_inv lib s \<Longrightarrow> inspect_entries lib ctx i fs s = Inr s' \<Longrightarrow> scan_inv lib s'"
proof (induction fs arbitrary: i s)
  case (Cons f fs)
  obtain m es where s: "s = (m, es)" by (cases s)
  from Cons.prems(2) obtain m1 es1 where step: "inspect_entry lib f (m, es) = Inr (m1, es1)"
    and rest: "inspect_entries lib ctx (i + 1) fs (m1, es1) = Inr s'"
    by (auto simp: s split: if_splits sum.splits)
  have "scan_inv lib (m1, es1)"
    using Cons.prems(1) by (cases rule: inspect_entryD [OF step]) (auto simp: s scan_inv_def entry_bytes_def map_of_eq_None_iff)
  from Cons.IH [OF this rest] show ?case .
qed simp

text \<open>What the loop over the parents adds: directories above entries, nothing else.\<close>

definition extends :: "string set \<Rightarrow> artifact_entries \<Rightarrow> artifact_entries \<Rightarrow> bool" where
  "extends P es es' \<longleftrightarrow> (\<exists>ds. es' = es @ ds \<and> (\<forall>(k, e) \<in> set ds. k \<in> P \<and> e = implicit_dir))"

lemma extends_refl: "extends P es es"
  by (simp add: extends_def)

lemma extends_trans: "extends P es es1 \<Longrightarrow> extends Q es1 es2 \<Longrightarrow> extends (P \<union> Q) es es2"
  by (force simp: extends_def)

lemma extends_mono: "extends P es es' \<Longrightarrow> P \<subseteq> Q \<Longrightarrow> extends Q es es'"
  by (force simp: extends_def)

lemma extends_lookup:
  assumes "extends P es es'"
  shows "map_of es k = Some e \<Longrightarrow> map_of es' k = Some e"
    and "map_of es' k = Some e \<Longrightarrow> map_of es k = Some e \<or> k \<in> P \<and> e = implicit_dir"
proof -
  obtain ds where ds: "es' = es @ ds" "\<forall>(k, e) \<in> set ds. k \<in> P \<and> e = implicit_dir"
    using assms by (auto simp: extends_def)
  show "map_of es k = Some e \<Longrightarrow> map_of es' k = Some e" by (simp add: ds(1))
  show "map_of es' k = Some e \<Longrightarrow> map_of es k = Some e \<or> k \<in> P \<and> e = implicit_dir"
    using ds by (auto simp: map_add_Some_iff dest: map_of_SomeD)
qed

lemma extends_directory: "extends P es es' \<Longrightarrow> is_directory es p \<Longrightarrow> is_directory es' p"
  using extends_lookup(1) by (fastforce simp: is_directory_def split: option.splits)

lemma extends_bytes: "extends P es es' \<Longrightarrow> entry_bytes es' = entry_bytes es"
proof -
  have "sum_list (map (\<lambda>(_, e). case ae_file e of None \<Rightarrow> 0 | Some f \<Rightarrow> int (zf_Size f)) ds) = 0"
    if "\<forall>(k, e) \<in> set ds. k \<in> P \<and> e = implicit_dir" for ds
    using that by (induction ds) (auto simp: implicit_dir_def)
  then show "extends P es es' \<Longrightarrow> ?thesis" by (auto simp: extends_def entry_bytes_def)
qed

lemma materialize_parentD:
  assumes "materialize_parent p es = Inr es'"
  shows "extends {p} es es'" and "is_directory es' p"
proof -
  from assms consider "es' = es" "is_directory es p" | "es' = es @ [(p, implicit_dir)]" "map_of es p = None"
    by (auto simp: materialize_parent_def is_directory_def split: option.splits if_splits)
  then have "extends {p} es es' \<and> is_directory es' p"
    by cases (auto simp: extends_def is_directory_def implicit_dir_def map_add_def)
  then show "extends {p} es es'" and "is_directory es' p" by auto
qed

lemma materialize_parents:
  "each materialize_parent ps es = Inr es' \<Longrightarrow> extends (set ps) es es' \<and> (\<forall>p \<in> set ps. is_directory es' p)"
proof (induction ps arbitrary: es)
  case (Cons p ps)
  then obtain es1 where es1: "materialize_parent p es = Inr es1" "each materialize_parent ps es1 = Inr es'"
    by (auto split: sum.splits)
  note step = materialize_parentD [OF es1(1)] and rest = Cons.IH [OF es1(2)]
  have "extends (set (p # ps)) es es'" using extends_trans [OF step(1)] rest by fastforce
  moreover have "is_directory es' p" using step(2) rest extends_directory by blast
  ultimately show ?case using rest by simp
qed (simp add: extends_refl)

lemma materialize_all:
  "each (\<lambda>name. each materialize_parent (parents_of name)) names es = Inr es' \<Longrightarrow>
     extends (\<Union>name \<in> set names. set (parents_of name)) es es'
     \<and> (\<forall>name \<in> set names. \<forall>p \<in> set (parents_of name). is_directory es' p)"
proof (induction names arbitrary: es)
  case (Cons n ns)
  then obtain es1 where es1: "each materialize_parent (parents_of n) es = Inr es1"
    "each (\<lambda>name. each materialize_parent (parents_of name)) ns es1 = Inr es'"
    by (auto split: sum.splits)
  note step = materialize_parents [OF es1(1)] and rest = Cons.IH [OF es1(2)]
  have "extends (\<Union>name \<in> set (n # ns). set (parents_of name)) es es'"
    using extends_trans [of "set (parents_of n)" es es1] step rest by fastforce
  moreover have "\<forall>p \<in> set (parents_of n). is_directory es' p" using step rest extends_directory by blast
  ultimately show ?case using rest by simp
qed (simp add: extends_refl)

lemma each_keeps:
  assumes "\<And>x s s'. P s \<Longrightarrow> body x s = Inr s' \<Longrightarrow> P s'" and "P s" and "each body xs s = Inr s'"
  shows "P s'"
  using assms(2,3)
proof (induction xs arbitrary: s)
  case (Cons x xs)
  then obtain s1 where "body x s = Inr s1" "each body xs s1 = Inr s'" by (auto split: sum.splits)
  with Cons assms(1) show ?case by blast
qed simp

lemma materialize_distinct:
  assumes "distinct (map fst es)" and "each (\<lambda>name. each materialize_parent (parents_of name)) names es = Inr es'"
  shows "distinct (map fst es')"
proof (rule each_keeps [where P = "\<lambda>es. distinct (map fst es)", OF _ assms])
  fix name and es es' :: artifact_entries
  assume "distinct (map fst es)" and "each materialize_parent (parents_of name) es = Inr es'"
  then show "distinct (map fst es')"
    by (rule each_keeps [where P = "\<lambda>es. distinct (map fst es)", rotated]) (auto simp: materialize_parent_def map_of_eq_None_iff split: option.splits if_splits)
qed

section \<open>What an accepted artifact is\<close>

text \<open>The first \<open>range\<close> loop visits every key of the map, and may visit keys that it adds.\<close>

definition visit_order :: "(string list \<Rightarrow> string list) \<Rightarrow> bool" where
  "visit_order rg \<longleftrightarrow> (\<forall>xs. set xs \<subseteq> set (rg xs) \<and> set (rg xs) \<subseteq> set xs \<union> (\<Union>x \<in> set xs. set (parents_of x)))"

lemma parents_rel: "rel_parts (parts x) \<Longrightarrow> p \<in> set (parents_of x) \<Longrightarrow> rel_parts (parts p)"
  using ancestors_rel parts_slashed by (fastforce simp: parents_of_def)

lemma parents_trans:
  assumes "rel_parts (parts x)" and "p \<in> set (parents_of x)" and "q \<in> set (parents_of p)"
  shows "q \<in> set (parents_of x)"
proof -
  obtain us where us: "us \<in> set (ancestors (parts x))" "p = slashed us" using assms(2) by (auto simp: parents_of_def)
  have p: "parts p = us" using us ancestors_rel [OF assms(1)] parts_slashed by simp
  obtain vs where vs: "vs \<in> set (ancestors us)" "q = slashed vs" using assms(3) p by (auto simp: parents_of_def)
  have "vs \<in> set (ancestors (parts x))" using us(1) vs(1) unfolding ancestors_iff by force
  with vs(2) show ?thesis by (simp add: parents_of_def)
qed

lemma visited_rel:
  assumes "scan_inv lib (m, es)" and "visit_order rg" and "x \<in> set (rg (map fst es))"
  shows "rel_parts (parts x)"
proof -
  have rel: "rel_parts (parts y)" if "y \<in> fst ` set es" for y
    using assms(1) that safeName_parts by (fastforce simp: scan_inv_def list_all_iff entry_sound_def)
  have "x \<in> fst ` set es \<or> (\<exists>y \<in> fst ` set es. x \<in> set (parents_of y))"
    using assms(2,3) unfolding visit_order_def by (metis (no_types, lifting) UN_E Un_iff list.set_map subsetD)
  with rel parents_rel show ?thesis by blast
qed

lemma materialize_loop:
  assumes "scan_inv lib (m, es)" and "visit_order rg"
  shows "loop_opt (\<lambda>name. for_parents materialize_parent (path_dir name)) (rg (map fst es)) s
     = Some (each (\<lambda>name. each materialize_parent (parents_of name)) (rg (map fst es)) s)"
  by (rule loop_opt_total) (simp add: for_parents_ends visited_rel [OF assms])

lemma materialized_sound:
  assumes inv: "scan_inv lib (m, es)" and rg: "visit_order rg"
    and mat: "each (\<lambda>name. each materialize_parent (parents_of name)) (rg (map fst es)) es = Inr es'"
  shows "sound_entries es'" and "extends (\<Union>x \<in> fst ` set es. set (parents_of x)) es es'"
proof -
  let ?P = "\<Union>x \<in> fst ` set es. set (parents_of x)"
  have rel: "rel_parts (parts x)" if "x \<in> fst ` set es" for x
    using inv that safeName_parts by (fastforce simp: scan_inv_def list_all_iff entry_sound_def)
  have visit: "fst ` set es \<subseteq> set (rg (map fst es))" "set (rg (map fst es)) \<subseteq> fst ` set es \<union> ?P"
    using rg unfolding visit_order_def by (metis list.set_map)+
  note mat = materialize_all [OF mat]
  have "(\<Union>x \<in> set (rg (map fst es)). set (parents_of x)) \<subseteq> ?P"
  proof
    fix q assume "q \<in> (\<Union>x \<in> set (rg (map fst es)). set (parents_of x))"
    then obtain x where x: "x \<in> set (rg (map fst es))" "q \<in> set (parents_of x)" by (rule UN_E)
    from subsetD [OF visit(2) x(1)] show "q \<in> ?P"
    proof (elim UnE UN_E)
      fix y assume y: "y \<in> fst ` set es" "x \<in> set (parents_of y)"
      from parents_trans [OF rel [OF y(1)] y(2) x(2)] y(1) show ?thesis by blast
    qed (use x(2) in blast)
  qed
  with conjunct1 [OF mat] show ext: "extends ?P es es'" by (rule extends_mono)
  have "rel_parts (parts k) \<and> (\<forall>p \<in> set (parents_of k). is_directory es' p) \<and> (ae_kind e = Symlink \<longrightarrow> safeTarget (ae_target e))"
    if "map_of es' k = Some e" for k e
    using extends_lookup(2) [OF ext that]
  proof
    assume "map_of es k = Some e"
    then have k: "(k, e) \<in> set es" by (rule map_of_SomeD)
    then have "k \<in> fst ` set es" "ae_kind e = Symlink \<longrightarrow> safeTarget (ae_target e)"
      using inv by (force simp: scan_inv_def list_all_iff entry_sound_def)+
    with rel mat visit(1) show ?thesis by blast
  next
    assume k: "k \<in> ?P \<and> e = implicit_dir"
    then obtain x where x: "x \<in> fst ` set es" "k \<in> set (parents_of x)" by blast
    with rel parents_rel have "rel_parts (parts k)" by blast
    moreover have "is_directory es' p" if "p \<in> set (parents_of k)" for p
      using parents_trans [OF rel [OF x(1)] x(2) that] x(1) mat visit(1) by blast
    ultimately show ?thesis using k by (simp add: implicit_dir_def)
  qed
  then show "sound_entries es'" by (simp add: sound_entries_def)
qed

lemma inspect_accepted:
  assumes "visit_order (ar_visit lib)" and "range_order (ar_range lib)" and "inspect lib ctx data expected = Some (Inr (m, es))"
  obtains m0 es0 where "scan_inv lib (m0, es0)" and "m = m0\<lparr>mf_SHA256 := expected\<rparr>" and "ar_sha256 lib data = expected"
    and "extends (\<Union>x \<in> fst ` set es0. set (parents_of x)) es0 es" and "sound_entries es" and "length es \<le> artifact_MaxEntries"
    and "\<exists>pkg. map_of es0 ''package.json'' = Some pkg \<and> ae_kind pkg = RegularFile"
    and "\<And>name e. map_of es name = Some e \<Longrightarrow> ae_kind e = Symlink \<Longrightarrow> regularTarget (ar_lower lib) es name [] = Some True"
    and "distinct (map fst es)"
proof -
  obtain archive m0 es0 where run: "inspect_entries lib ctx 0 archive (empty_manifest, []) = Inr (m0, es0)"
    and pkg: "\<exists>pkg. map_of es0 ''package.json'' = Some pkg \<and> ae_kind pkg = RegularFile"
    and mat: "loop_opt (\<lambda>name. for_parents materialize_parent (path_dir name)) (ar_visit lib (map fst es0)) es0 = Some (Inr es)"
    and rest: "length es \<le> artifact_MaxEntries" "each_opt (check_link lib es) (ar_range lib (map fst es)) = Some (Inr ())"
      "m = m0\<lparr>mf_SHA256 := expected\<rparr>" "ar_sha256 lib data = expected"
    using assms(3) by (auto simp: inspect_def not_less split: if_splits option.splits sum.splits)
  have inv: "scan_inv lib (m0, es0)"
    using inspect_entries_inv [OF _ run] by (simp add: scan_inv_def empty_manifest_def entry_bytes_def)
  note loop = materialize_loop [OF inv assms(1), of es0]
  have each: "each (\<lambda>name. each materialize_parent (parents_of name)) (ar_visit lib (map fst es0)) es0 = Inr es"
    using mat unfolding loop by simp
  note sound = materialized_sound [OF inv assms(1) each]
  have "distinct (map fst es)" using materialize_distinct [OF _ each] inv by (simp add: scan_inv_def)
  moreover have "regularTarget (ar_lower lib) es name [] = Some True" if "map_of es name = Some e" "ae_kind e = Symlink" for name e
  proof -
    have "name \<in> set (ar_range lib (map fst es))"
      using that(1) assms(2) by (force simp: range_order_def dest: map_of_SomeD)
    with rest(2) obtain v where "check_link lib es name = Some (Inr v)" unfolding each_opt_passes by blast
    with that show ?thesis by (auto simp: check_link_def split: if_splits)
  qed
  ultimately show ?thesis using inv rest pkg sound by (intro that [of m0 es0]) auto
qed

lemma accepted_kind:
  assumes "scan_inv lib (m0, es0)" and "extends P es0 es" and "map_of es name = Some e"
  shows "ae_kind e \<noteq> SpecialFile"
  using extends_lookup(2) [OF assms(2,3)]
proof
  assume "map_of es0 name = Some e"
  then have "entry_sound lib (name, e)" using assms(1) by (auto simp: scan_inv_def list_all_iff dest: map_of_SomeD)
  then show ?thesis by (auto simp: entry_sound_def read_entry_ok_def split: option.splits)
qed (simp add: implicit_dir_def)

text \<open>
  C28: In an accepted release artifact every path stays inside the release and leads somewhere:
  walking it as a kernel does, following at most 32 links, ends at an entry of the artifact; for
  a link that entry is a regular file, for anything else it is the entry itself. The check that
  the code makes is textual (\<open>path.Join\<close> of the directory and the target); the theorem is about
  the file system walk. Assumed: \<open>range\<close> visits the keys of a map.
\<close>

theorem artifact_paths_resolve_inside:
  assumes "visit_order (ar_visit lib)" and "range_order (ar_range lib)"
    and "inspect lib ctx data expected = Some (Inr (m, es))" and "map_of es name = Some e"
  shows "\<exists>ws f. resolve 32 es [] (parts name) = Some ws \<and> map_of es (slashed ws) = Some f
    \<and> (if ae_kind e = Symlink then ae_kind f = RegularFile else ws = parts name \<and> f = e)"
proof (cases rule: inspect_accepted [OF assms(1-3)])
  case (1 m0 es0)
  show ?thesis
  proof (cases "ae_kind e = Symlink")
    case True
    with 1(5) 1(8) assms(4) show ?thesis using link_resolves by fastforce
  next
    case False
    with accepted_kind [OF 1(1,4) assms(4)] have "ae_kind e = Directory \<or> ae_kind e = RegularFile"
      by (cases "ae_kind e") auto
    from entry_resolves [OF 1(5) assms(4) this] False assms(4) show ?thesis by (simp add: join_splitByte)
  qed
qed

text \<open>
  Inspection of a release artifact always returns: the loops over parent directories end, and
  so does following links, even when the links of the archive form a cycle.
\<close>

theorem inspect_returns:
  assumes "visit_order (ar_visit lib)"
  shows "\<exists>r. inspect lib ctx data expected = Some r"
proof -
  have link: "each_opt (check_link lib es) names \<noteq> None" for es names
  proof (rule each_opt_returns)
    fix name
    obtain r where "regularTarget (ar_lower lib) es name [] = Some r" using regularTarget_returns by blast
    then show "check_link lib es name \<noteq> None" by (auto simp: check_link_def split: option.splits)
  qed
  have parents: "\<exists>r. loop_opt (\<lambda>name. for_parents materialize_parent (path_dir name)) (ar_visit lib (map fst es)) es = Some r"
    if "inspect_entries lib ctx 0 archive (empty_manifest, []) = Inr (m, es)" for archive m es
  proof -
    have "scan_inv lib (m, es)"
      using inspect_entries_inv [OF _ that] by (simp add: scan_inv_def empty_manifest_def entry_bytes_def)
    from materialize_loop [OF this assms] show ?thesis by blast
  qed
  have "inspect lib ctx data expected \<noteq> None"
  proof (cases "ar_open lib data")
    case (Some archive)
    show ?thesis
    proof (cases "inspect_entries lib ctx 0 archive (empty_manifest, [])")
      case (Inr s)
      obtain m es where s: "s = (m, es)" by (cases s)
      from parents [of archive m es] Inr s obtain r
        where r: "loop_opt (\<lambda>name. for_parents materialize_parent (path_dir name)) (ar_visit lib (map fst es)) es = Some r" by auto
      then show ?thesis using Some Inr s
        by (cases r) (auto simp: inspect_def split: option.splits sum.splits, (metis link)+)
    qed (simp add: inspect_def Some)
  qed (simp add: inspect_def)
  then show ?thesis by blast
qed

text \<open>
  An accepted artifact is the one that was asked for, and is bounded: its bytes have the
  expected digest, at most 20000 entries and 256 MiB are declared and were read, no entry
  is over 32 MiB, and \<open>package.json\<close> is a regular file with a start script.
\<close>

theorem accepted_artifact_is_bounded:
  assumes "visit_order (ar_visit lib)" and "range_order (ar_range lib)"
    and "inspect lib ctx data expected = Some (Inr (m, es))"
  shows "mf_SHA256 m = ar_sha256 lib data \<and> ar_sha256 lib data = expected \<and> length es \<le> 20000
    \<and> mf_ExpandedBytes m = entry_bytes es \<and> entry_bytes es \<le> 256 * 2 ^ 20
    \<and> (\<forall>name e f. map_of es name = Some e \<and> ae_file e = Some f \<longrightarrow> read_entry_ok name e f)
    \<and> (\<exists>e f. map_of es ''package.json'' = Some e \<and> ae_kind e = RegularFile \<and> ae_file e = Some f \<and> starts lib f)"
proof (cases rule: inspect_accepted [OF assms])
  case (1 m0 es0)
  have sound: "entry_sound lib (name, e)" if "map_of es0 name = Some e" for name e
    using 1(1) that by (auto simp: scan_inv_def list_all_iff dest: map_of_SomeD)
  have "read_entry_ok name e f" if "map_of es name = Some e" "ae_file e = Some f" for name e f
    using extends_lookup(2) [OF 1(4) that(1)] sound [of name e] that(2) by (auto simp: entry_sound_def implicit_dir_def)
  moreover obtain pkg where pkg: "map_of es0 ''package.json'' = Some pkg" "ae_kind pkg = RegularFile" using 1(7) by blast
  moreover from sound [OF pkg(1)] obtain f where "ae_file pkg = Some f" "starts lib f"
    by (auto simp: entry_sound_def split: option.splits)
  moreover have "map_of es ''package.json'' = Some pkg" using extends_lookup(1) [OF 1(4) pkg(1)] .
  moreover have "mf_ExpandedBytes m = entry_bytes es" "entry_bytes es \<le> 256 * 2 ^ 20"
    using 1(1,2) extends_bytes [OF 1(4)] by (auto simp: scan_inv_def)
  ultimately show ?thesis using 1(2,3,6) by auto
qed

section \<open>Examples\<close>

definition wx_file :: "string \<Rightarrow> file_kind \<Rightarrow> string \<Rightarrow> zip_file" where
  "wx_file name kind d =
     \<lparr>zf_Name = name, zf_Encrypted = False, zf_Kind = kind, zf_Exec = False, zf_Size = length d,
      zf_Stream = Some \<lparr>zs_Data = d, zs_Fails = False, zs_CloseFails = False\<rparr>\<rparr>"

definition wx_lib :: artifact_lib where
  "wx_lib = \<lparr>ar_open = (\<lambda>_. Some [wx_file ''package.json'' RegularFile ''{}'', wx_file ''app.js'' RegularFile ''1'',
                                 wx_file ''bin/run'' Symlink ''../app.js'']),
             ar_start = (\<lambda>_. Some ''node''), ar_sha256 = (\<lambda>_. replicate 64 CHR ''a''), ar_lower = (\<lambda>c. c),
             ar_visit = (\<lambda>xs. xs), ar_range = (\<lambda>xs. xs)\<rparr>"

lemma wx_laws: "visit_order (ar_visit wx_lib)" "range_order (ar_range wx_lib)"
  by (simp_all add: wx_lib_def visit_order_def range_order_def)

definition wx_entries :: artifact_entries where
  "wx_entries = [(''package.json'', \<lparr>ae_file = Some (wx_file ''package.json'' RegularFile ''{}''), ae_kind = RegularFile, ae_target = []\<rparr>),
     (''app.js'', \<lparr>ae_file = Some (wx_file ''app.js'' RegularFile ''1''), ae_kind = RegularFile, ae_target = []\<rparr>),
     (''bin/run'', \<lparr>ae_file = Some (wx_file ''bin/run'' Symlink ''../app.js''), ae_kind = Symlink, ae_target = ''../app.js''\<rparr>),
     (''bin'', implicit_dir)]"

lemmas wx_eval = hasSuffix_def hasPrefix_def trimSuffix_def runes_ascii byte_of_def toLower_def rune_lower_def
  validString_def containsControl_def isControl_def containsAny_def path_clean_def clean_step_def

lemma wx_names: "safeName (\<lambda>c. c) ''package.json''" "safeName (\<lambda>c. c) ''app.js''" "safeName (\<lambda>c. c) ''bin/run''"
  by (simp_all add: safeName_def wx_eval)

lemma wx_target: "safeTarget ''../app.js''"
  by (simp add: safeTarget_def wx_eval)

lemma wx_trim: "trimSuffix ''package.json'' ''/'' = ''package.json''" "trimSuffix ''app.js'' ''/'' = ''app.js''"
  "trimSuffix ''bin/run'' ''/'' = ''bin/run''" "trimSpace ''node'' = ''node''"
  by (simp_all add: trimSuffix_def hasSuffix_def hasPrefix_def trimSpace_def trim_left.simps trim_right.simps
      space_len_def last_space_def byte_of_def)

lemma wx_scan:
  "inspect_entries wx_lib (\<lambda>_. True) 0 [wx_file ''package.json'' RegularFile ''{}'', wx_file ''app.js'' RegularFile ''1'',
      wx_file ''bin/run'' Symlink ''../app.js''] (empty_manifest, [])
   = Inr (\<lparr>mf_SHA256 = [], mf_Files = 3, mf_ExpandedBytes = 12\<rparr>, butlast wx_entries)"
  by (simp add: inspect_entry_def wx_file_def wx_lib_def wx_names wx_target wx_trim entry_limit_def read_limited_def
      empty_manifest_def wx_entries_def hasSuffix_def hasPrefix_def Let_def)

lemma wx_dirs: "path_dir ''package.json'' = ''.''" "path_dir ''app.js'' = ''.''" "path_dir ''bin'' = ''.''" "path_dir ''bin/run'' = ''bin''"
  "path_join [''bin'', ''../app.js''] = ''app.js''"
  by (simp_all add: path_dir_def path_join_def wx_eval)

lemma wx_inspect:
  "inspect wx_lib (\<lambda>_. True) ''z'' (replicate 64 CHR ''a'')
     = Some (Inr (\<lparr>mf_SHA256 = replicate 64 CHR ''a'', mf_Files = 3, mf_ExpandedBytes = 12\<rparr>, wx_entries))"
proof -
  have link: "regularTarget (\<lambda>c. c) wx_entries ''bin/run'' [] = Some True"
    by (simp add: regularTarget.simps wx_dirs wx_names for_parents.simps wx_entries_def)
  have "loop_opt (\<lambda>name. for_parents materialize_parent (path_dir name)) (map fst (butlast wx_entries)) (butlast wx_entries)
      = Some (Inr wx_entries)"
    by (simp add: wx_entries_def wx_dirs for_parents.simps materialize_parent_def)
  moreover have "each_opt (check_link wx_lib wx_entries) (map fst wx_entries) = Some (Inr ())"
    using link by (simp add: check_link_def wx_lib_def wx_entries_def implicit_dir_def)
  ultimately show ?thesis using wx_scan
    by (simp add: inspect_def wx_lib_def) (simp add: wx_entries_def)
qed

theorem artifact_paths_resolve_inside_witness:
  "\<exists>ws f. resolve 32 wx_entries [] [''bin'', ''run''] = Some ws \<and> map_of wx_entries (slashed ws) = Some f \<and> ae_kind f = RegularFile"
proof -
  let ?e = "\<lparr>ae_file = Some (wx_file ''bin/run'' Symlink ''../app.js''), ae_kind = Symlink, ae_target = ''../app.js''\<rparr>"
  have "map_of wx_entries ''bin/run'' = Some ?e" by (simp add: wx_entries_def)
  from artifact_paths_resolve_inside [OF wx_laws wx_inspect this] show ?thesis by simp
qed

theorem inspect_returns_witness: "\<exists>r. inspect wx_lib (\<lambda>i. i < 1) ''z'' (replicate 64 CHR ''a'') = Some r"
  by (rule inspect_returns [OF wx_laws(1)])

theorem accepted_artifact_is_bounded_witness: "entry_bytes wx_entries = 12 \<and> length wx_entries \<le> 20000"
  using accepted_artifact_is_bounded [OF wx_laws wx_inspect] by simp

end
