(* ===== verification/Node_Extract.thy ===== *)
theory Node_Extract
  imports Node_Artifact "HOL-Library.Char_ord" "HOL-Library.List_Lexorder"
begin

text \<open>
  \<open>internal/nodeartifact/extract.go\<close>: staging an inspected artifact as a new directory of the
  operator's release root. The release root is the list of its directories, each a tree of
  nodes by path. What the kernel answers is the predicate \<open>xe_ok\<close> on the calls that \<open>Extract\<close>
  makes; a call that is allowed still fails where its precondition does not hold (\<open>O_EXCL\<close> on an
  existing file, a missing parent, a file in the place of a directory). \<open>xe_live phase i\<close> is the
  context at the \<open>i\<close>-th turn of the loop \<open>phase\<close>.
\<close>

section \<open>A directory tree\<close>

datatype tree_node = DirNode | FileNode bool string | LinkNode string

type_synonym tree = "(string \<times> tree_node) list"

definition mkdir_one :: "string \<Rightarrow> tree \<Rightarrow> go_err + tree" where
  "mkdir_one p t =
     (case map_of t p of
        None \<Rightarrow> Inr (t @ [(p, DirNode)])
      | Some DirNode \<Rightarrow> Inr t
      | Some _ \<Rightarrow> Inl ErrOS)"

text \<open>\<open>MkdirAll\<close> makes the missing directories from the top down; \<open>.\<close> is there already.\<close>

definition mkdir_all :: "string \<Rightarrow> tree \<Rightarrow> go_err + tree" where
  "mkdir_all p t = (if p = ''.'' then Inr t else each mkdir_one (rev (parents_of p) @ [p]) t)"

definition parent_exists :: "tree \<Rightarrow> string \<Rightarrow> bool" where
  "parent_exists t p \<longleftrightarrow> path_dir p = ''.'' \<or> map_of t (path_dir p) = Some DirNode"

definition create_node :: "string \<Rightarrow> tree_node \<Rightarrow> tree \<Rightarrow> go_err + tree" where
  "create_node p nd t = (if map_of t p \<noteq> None \<or> \<not> parent_exists t p then Inl ErrOS else Inr (t @ [(p, nd)]))"

section \<open>Extraction\<close>

datatype fs_call =
    MkdirRelease | OpenReleaseRoot | MkdirAllCall string | CreateCall string | CopyCall string
  | SymlinkCall string | SyncCall string | SyncReleases | RemoveAllCall

record extract_env =
  xe_root :: "(bool \<times> nat) option"
  xe_entropy :: "string option"
  xe_ok :: "fs_call \<Rightarrow> bool"
  xe_live :: "nat \<Rightarrow> nat \<Rightarrow> bool"

record release_dir =
  rd_Directory :: string
  rd_Manifest :: manifest

definition extract_file :: "extract_env \<Rightarrow> string \<Rightarrow> artifact_entry \<Rightarrow> tree \<Rightarrow> go_err + tree" where
  "extract_file env n item t =
     (if \<not> xe_ok env (MkdirAllCall (path_dir n)) then Inl ErrOS
      else case mkdir_all (path_dir n) t of
        Inl e \<Rightarrow> Inl e
      | Inr t1 \<Rightarrow>
          (case ae_file item of
             None \<Rightarrow> Inl Panic
           | Some f \<Rightarrow>
               if \<not> xe_ok env (CreateCall n) then Inl ErrOS
               else case zf_Stream f of
                 None \<Rightarrow> Inl ErrOS
               | Some z \<Rightarrow>
                   (let (body, failed) = read_limited (artifact_MaxFile + 1) z
                    in case create_node n (FileNode (zf_Exec f) body) t1 of
                         Inl e \<Rightarrow> Inl e
                       | Inr t2 \<Rightarrow>
                           if failed \<or> zs_CloseFails z \<or> \<not> xe_ok env (CopyCall n) then Inl ErrOS
                           else if length body \<noteq> zf_Size f then Inl ErrArtifact
                           else Inr t2)))"

definition item_of :: "artifact_entries \<Rightarrow> string \<Rightarrow> artifact_entry" where
  "item_of es n = (case map_of es n of None \<Rightarrow> zero_entry | Some e \<Rightarrow> e)"

definition extract_turn :: "extract_env \<Rightarrow> artifact_entries \<Rightarrow> nat \<times> string \<Rightarrow> tree \<Rightarrow> go_err + tree" where
  "extract_turn env es = (\<lambda>(i, n) t.
     let item = item_of es n
     in if \<not> xe_live env 0 i then Inl ErrContext
        else if ae_kind item = Symlink then Inr t
        else if ae_kind item = Directory
          then (if \<not> xe_ok env (MkdirAllCall n) then Inl ErrOS else mkdir_all n t)
        else extract_file env n item t)"

definition link_turn :: "extract_env \<Rightarrow> artifact_entries \<Rightarrow> nat \<times> string \<Rightarrow> tree \<Rightarrow> go_err + tree" where
  "link_turn env es = (\<lambda>(i, n) t.
     let item = item_of es n
     in if \<not> xe_live env 1 i then Inl ErrContext
        else if ae_kind item \<noteq> Symlink then Inr t
        else if \<not> xe_ok env (SymlinkCall n) then Inl ErrOS
        else create_node n (LinkNode (ae_target item)) t)"

text \<open>The last loop runs from the end; the trace of directories it synchronizes is the state.\<close>

definition sync_turn :: "extract_env \<Rightarrow> artifact_entries \<Rightarrow> nat \<times> string \<Rightarrow> string list \<Rightarrow> go_err + string list" where
  "sync_turn env es = (\<lambda>(i, n) synced.
     if \<not> xe_live env 2 i then Inl ErrContext
     else if ae_kind (item_of es n) = Directory
       then (if \<not> xe_ok env (SyncCall n) then Inl ErrOS else Inr (synced @ [n]))
     else Inr synced)"

definition stage :: "extract_env \<Rightarrow> artifact_entries \<Rightarrow> go_err + (tree \<times> string list)" where
  "stage env es =
     (let names = sort (map fst es)
      in case each (extract_turn env es) (enumerate 0 names) [] of
           Inl e \<Rightarrow> Inl e
         | Inr t1 \<Rightarrow>
             (case each (link_turn env es) (enumerate 0 names) t1 of
                Inl e \<Rightarrow> Inl e
              | Inr t2 \<Rightarrow>
                  (case each (sync_turn env es) (rev (enumerate 0 names)) [] of
                     Inl e \<Rightarrow> Inl e
                   | Inr synced \<Rightarrow>
                       if \<not> xe_ok env (SyncCall ''.'') \<or> \<not> xe_ok env SyncReleases then Inl ErrOS
                       else if \<not> xe_live env 3 0 then Inl ErrContext
                       else Inr (t2, synced))))"

type_synonym releases = "(string \<times> tree) list"

text \<open>
  \<open>Extract\<close>. A failure after the directory was made removes it again; when that fails too, what
  was written so far stays behind under its name (here: an empty tree stands for it).
\<close>

definition extract_release :: "extract_env \<Rightarrow> manifest \<Rightarrow> artifact_entries \<Rightarrow> releases \<Rightarrow> release_dir result \<times> releases" where
  "extract_release env m es rel =
     (case xe_entropy env of
        None \<Rightarrow> (Inl ErrOS, rel)
      | Some entropy \<Rightarrow>
          (let name = ''release-'' @ entropy
           in if \<not> xe_ok env MkdirRelease \<or> map_of rel name \<noteq> None then (Inl ErrOS, rel)
              else let undo = (if xe_ok env RemoveAllCall then rel else rel @ [(name, [])])
                in if \<not> xe_ok env OpenReleaseRoot then (Inl ErrOS, undo)
                   else case stage env es of
                     Inl e \<Rightarrow> (Inl e, undo)
                   | Inr (t, _) \<Rightarrow> (Inr \<lparr>rd_Directory = name, rd_Manifest = m\<rparr>, rel @ [(name, t)])))"

definition Extract ::
  "artifact_lib \<Rightarrow> (nat \<Rightarrow> bool) \<Rightarrow> extract_env \<Rightarrow> string \<Rightarrow> string \<Rightarrow> releases \<Rightarrow> (release_dir result \<times> releases) option" where
  "Extract lib ctx env data expected rel =
     (case xe_root env of
        None \<Rightarrow> Some (Inl ErrArtifact, rel)
      | Some (is_dir, perm) \<Rightarrow>
          if \<not> is_dir \<or> \<not> perm_private perm then Some (Inl ErrArtifact, rel)
          else case inspect lib ctx data expected of
            None \<Rightarrow> None
          | Some (Inl e) \<Rightarrow> Some (Inl e, rel)
          | Some (Inr (m, es)) \<Rightarrow> Some (extract_release env m es rel))"

section \<open>The staged tree\<close>

definition node_of :: "artifact_entry \<Rightarrow> tree_node" where
  "node_of e =
     (case ae_kind e of
        Directory \<Rightarrow> DirNode
      | Symlink \<Rightarrow> LinkNode (ae_target e)
      | _ \<Rightarrow> (case ae_file e of
                None \<Rightarrow> FileNode False []
              | Some f \<Rightarrow> FileNode (zf_Exec f) (case zf_Stream f of None \<Rightarrow> [] | Some z \<Rightarrow> zs_Data z)))"

text \<open>
  The tree while entries are written: it holds nodes of entries only, files and links only of the
  entries in \<open>done\<close>, and everything of \<open>done\<close> whose kind is written in the current loop.
\<close>

definition staged :: "artifact_entries \<Rightarrow> string set \<Rightarrow> tree \<Rightarrow> bool" where
  "staged es done t \<longleftrightarrow>
     (\<forall>p nd. map_of t p = Some nd \<longrightarrow>
        (\<exists>e. map_of es p = Some e \<and> nd = node_of e \<and> (ae_kind e = Directory \<or> p \<in> done)))
     \<and> (\<forall>p \<in> done. \<forall>e. map_of es p = Some e \<longrightarrow> map_of t p = Some (node_of e))"

lemma stagedD: "staged es done t \<Longrightarrow> map_of t p = Some nd \<Longrightarrow>
    \<exists>e. map_of es p = Some e \<and> nd = node_of e \<and> (ae_kind e = Directory \<or> p \<in> done)"
  and staged_done: "staged es done t \<Longrightarrow> p \<in> done \<Longrightarrow> map_of es p = Some e \<Longrightarrow> map_of t p = Some (node_of e)"
  by (auto simp: staged_def)

lemma staged_add:
  assumes "staged es done t" and "map_of t p = None" and "map_of es p = Some e"
  shows "staged es (insert p done) (t @ [(p, node_of e)])"
  using assms by (auto simp: staged_def map_add_Some_iff)

lemma staged_absent: "staged es done t \<Longrightarrow> map_of es p = None \<Longrightarrow> map_of t p = None"
  using stagedD by (cases "map_of t p") fastforce+

lemma staged_dir: "staged es done t \<Longrightarrow> is_directory es p \<Longrightarrow> map_of t p = None \<or> map_of t p = Some DirNode"
  using stagedD [of es "done" t p] by (cases "map_of t p") (auto simp: is_directory_def node_of_def split: option.splits)

lemma mkdir_one_staged:
  assumes "staged es done t" and "is_directory es p"
  shows "\<exists>t'. mkdir_one p t = Inr t' \<and> staged es done t' \<and> map_of t' p = Some DirNode
    \<and> (\<forall>q nd. map_of t q = Some nd \<longrightarrow> map_of t' q = Some nd)"
proof -
  obtain e where e: "map_of es p = Some e" "ae_kind e = Directory" "node_of e = DirNode"
    using assms(2) by (auto simp: is_directory_def node_of_def split: option.splits)
  from staged_dir [OF assms] show ?thesis
  proof
    assume none: "map_of t p = None"
    have "staged es done (t @ [(p, DirNode)])"
      using assms(1) none e by (fastforce simp: staged_def map_add_Some_iff)
    with none show ?thesis by (simp add: mkdir_one_def map_add_def)
  qed (use assms in \<open>simp add: mkdir_one_def\<close>)
qed

lemma mkdir_each_staged:
  assumes "staged es done t" and "\<forall>p \<in> set ps. is_directory es p"
  shows "\<exists>t'. each mkdir_one ps t = Inr t' \<and> staged es done t' \<and> (\<forall>p \<in> set ps. map_of t' p = Some DirNode)
    \<and> (\<forall>q nd. map_of t q = Some nd \<longrightarrow> map_of t' q = Some nd)"
  using assms
proof (induction ps arbitrary: t)
  case (Cons p ps)
  from mkdir_one_staged [OF Cons.prems(1), of p] Cons.prems(2) obtain t1 where t1: "mkdir_one p t = Inr t1" "staged es done t1"
    "map_of t1 p = Some DirNode" "\<forall>q nd. map_of t q = Some nd \<longrightarrow> map_of t1 q = Some nd" by auto
  from Cons.IH [OF t1(2)] Cons.prems(2) obtain t2 where "each mkdir_one ps t1 = Inr t2" "staged es done t2"
    "\<forall>p \<in> set ps. map_of t2 p = Some DirNode" "\<forall>q nd. map_of t1 q = Some nd \<longrightarrow> map_of t2 q = Some nd" by auto
  with t1 show ?case by simp
qed simp

lemma path_dir_entry:
  assumes "sound_entries es" and "map_of es n = Some e"
  shows "path_dir n = ''.'' \<or> path_dir n \<in> set (parents_of n) \<and> is_directory es (path_dir n)
    \<and> set (parents_of (path_dir n)) \<subseteq> set (parents_of n)"
proof -
  have rel: "rel_parts (parts n)" and dirs: "\<forall>p \<in> set (parents_of n). is_directory es p"
    using assms by (auto simp: sound_entries_def)
  obtain ds w where ds: "parts n = ds @ [w]" by (cases "parts n" rule: rev_cases) auto
  have n: "n = slashed (ds @ [w])" using join_splitByte [of "CHR ''/''" n] ds by simp
  have d: "path_dir n = (if ds = [] then ''.'' else slashed ds)" using path_dir_slashed [of ds w] rel ds n by simp
  have "slashed ds \<in> set (parents_of n)" if "ds \<noteq> []"
    using that by (simp add: parents_of_def ds ancestors_snoc)
  with d dirs parents_trans [OF rel] show ?thesis by auto
qed

lemma mkdir_all_staged:
  assumes "sound_entries es" and "staged es done t" and "p = ''.'' \<or> is_directory es p"
  shows "\<exists>t'. mkdir_all p t = Inr t' \<and> staged es done t' \<and> (p = ''.'' \<or> map_of t' p = Some DirNode)
    \<and> (\<forall>q nd. map_of t q = Some nd \<longrightarrow> map_of t' q = Some nd)"
proof (cases "p = ''.''")
  case False
  with assms(3) have p: "is_directory es p" by simp
  then obtain e where "map_of es p = Some e" by (auto simp: is_directory_def split: option.splits)
  with assms(1) p have "\<forall>q \<in> set (rev (parents_of p) @ [p]). is_directory es q" by (auto simp: sound_entries_def)
  from mkdir_each_staged [OF assms(2) this] False show ?thesis by (auto simp: mkdir_all_def)
qed (use assms in \<open>simp add: mkdir_all_def\<close>)

definition whole_entries :: "artifact_entries \<Rightarrow> bool" where
  "whole_entries es \<longleftrightarrow> (\<forall>n e. map_of es n = Some e \<longrightarrow> ae_kind e \<noteq> SpecialFile
     \<and> (ae_kind e = RegularFile \<longrightarrow> (\<exists>f. ae_file e = Some f \<and> read_entry_ok n e f)))"

definition all_ok :: "extract_env \<Rightarrow> bool" where
  "all_ok env \<longleftrightarrow> (\<forall>c. xe_ok env c) \<and> (\<forall>p i. xe_live env p i)"

lemma create_staged:
  assumes "sound_entries es" and "staged es done t" and e: "map_of es n = Some e" "ae_kind e \<noteq> Directory" and n: "n \<notin> done"
    and dir: "path_dir n = ''.'' \<or> map_of t (path_dir n) = Some DirNode"
  shows "create_node n (node_of e) t = Inr (t @ [(n, node_of e)]) \<and> staged es (insert n done) (t @ [(n, node_of e)])"
proof -
  have "map_of t n = None" using stagedD [OF assms(2), of n] e n by (cases "map_of t n") auto
  with staged_add [OF assms(2) this e(1)] dir show ?thesis by (simp add: create_node_def parent_exists_def)
qed

lemma extract_file_staged:
  assumes "sound_entries es" and "whole_entries es" and "staged es done t"
    and e: "map_of es n = Some e" "ae_kind e = RegularFile" and n: "n \<notin> done"
  shows "extract_file env n e t = Inr t' \<Longrightarrow> staged es (insert n done) t'"
    and "all_ok env \<Longrightarrow> \<exists>t'. extract_file env n e t = Inr t'"
proof -
  obtain f z where f: "ae_file e = Some f" "zf_Stream f = Some z" "\<not> zs_Fails z" "\<not> zs_CloseFails z"
    "length (zs_Data z) = zf_Size f" "zf_Size f \<le> artifact_MaxFile"
    using assms(2) e unfolding whole_entries_def read_entry_ok_def by (fastforce split: option.splits)
  have "read_limited (artifact_MaxFile + 1) z = (zs_Data z, False)" using f by (simp add: read_limited_def)
  note body = this [simplified]
  have node: "FileNode (zf_Exec f) (zs_Data z) = node_of e" using e f by (simp add: node_of_def)
  have "path_dir n = ''.'' \<or> is_directory es (path_dir n)" using path_dir_entry [OF assms(1) e(1)] by blast
  from mkdir_all_staged [OF assms(1,3) this] obtain t1 where t1: "mkdir_all (path_dir n) t = Inr t1" "staged es done t1"
    "path_dir n = ''.'' \<or> map_of t1 (path_dir n) = Some DirNode" by blast
  note made = create_staged [OF assms(1) t1(2) e(1) _ n t1(3)]
  show "extract_file env n e t = Inr t' \<Longrightarrow> staged es (insert n done) t'"
    using made e(2) f by (auto simp: extract_file_def t1(1) body node Let_def split: if_splits)
  show "all_ok env \<Longrightarrow> \<exists>t'. extract_file env n e t = Inr t'"
    using made e(2) f by (simp add: extract_file_def t1(1) body node all_ok_def)
qed

text \<open>The entries that the first loop writes, and the turns of the two loops.\<close>

definition written :: "artifact_entries \<Rightarrow> string set \<Rightarrow> string set" where
  "written es N = {n \<in> N. ae_kind (item_of es n) \<noteq> Symlink}"

lemma extract_turn_staged:
  assumes "sound_entries es" and "whole_entries es" and "staged es (written es N) t"
    and e: "map_of es n = Some e" and n: "n \<notin> N"
  shows "extract_turn env es (i, n) t = Inr t' \<Longrightarrow> staged es (written es (insert n N)) t'"
    and "all_ok env \<Longrightarrow> \<exists>t'. extract_turn env es (i, n) t = Inr t'"
proof -
  have item: "item_of es n = e" using e by (simp add: item_of_def)
  have new: "n \<notin> written es N" using n by (simp add: written_def)
  consider (link) "ae_kind e = Symlink" | (dir) "ae_kind e = Directory" | (regular) "ae_kind e = RegularFile"
    using assms(2) e by (cases "ae_kind e") (auto simp: whole_entries_def)
  then have "(extract_turn env es (i, n) t = Inr t' \<longrightarrow> staged es (written es (insert n N)) t')
      \<and> (all_ok env \<longrightarrow> (\<exists>t'. extract_turn env es (i, n) t = Inr t'))"
  proof cases
    case link
    then have "written es (insert n N) = written es N" using item by (auto simp: written_def)
    with link item assms(3) show ?thesis by (auto simp: extract_turn_def all_ok_def)
  next
    case dir
    then have w: "written es (insert n N) = insert n (written es N)" using item by (auto simp: written_def)
    have "is_directory es n" using e dir by (simp add: is_directory_def)
    with mkdir_all_staged [OF assms(1,3)] obtain t1 where t1: "mkdir_all n t = Inr t1" "staged es (written es N) t1"
      "n = ''.'' \<or> map_of t1 n = Some DirNode" by blast
    have "rel_parts (parts n)" using assms(1) e by (auto simp: sound_entries_def)
    then have "n \<noteq> ''.''" by (auto simp: rel_parts_def)
    with t1 e dir have "staged es (insert n (written es N)) t1" by (auto simp: staged_def node_of_def)
    with dir item t1(1) w show ?thesis by (auto simp: extract_turn_def all_ok_def)
  next
    case regular
    then have "written es (insert n N) = insert n (written es N)" using item by (auto simp: written_def)
    with regular item extract_file_staged [OF assms(1-3) e regular new, of env] show ?thesis
      by (auto simp: extract_turn_def all_ok_def split: if_splits)
  qed
  then show "extract_turn env es (i, n) t = Inr t' \<Longrightarrow> staged es (written es (insert n N)) t'"
    and "all_ok env \<Longrightarrow> \<exists>t'. extract_turn env es (i, n) t = Inr t'" by blast+
qed

lemma link_turn_staged:
  assumes "sound_entries es" and st: "staged es (written es (dom (map_of es)) \<union> N) t"
    and e: "map_of es n = Some e" and n: "n \<notin> N"
  shows "link_turn env es (i, n) t = Inr t' \<Longrightarrow> staged es (written es (dom (map_of es)) \<union> insert n N) t'"
    and "all_ok env \<Longrightarrow> \<exists>t'. link_turn env es (i, n) t = Inr t'"
proof -
  let ?W = "written es (dom (map_of es))"
  have item: "item_of es n = e" using e by (simp add: item_of_def)
  have "(link_turn env es (i, n) t = Inr t' \<longrightarrow> staged es (?W \<union> insert n N) t')
      \<and> (all_ok env \<longrightarrow> (\<exists>t'. link_turn env es (i, n) t = Inr t'))"
  proof (cases "ae_kind e = Symlink")
    case True
    then have new: "n \<notin> ?W \<union> N" using n item by (simp add: written_def)
    have node: "LinkNode (ae_target e) = node_of e" using True by (simp add: node_of_def)
    have "path_dir n = ''.'' \<or> map_of t (path_dir n) = Some DirNode"
    proof -
      from path_dir_entry [OF assms(1) e] consider "path_dir n = ''.''" | "is_directory es (path_dir n)" by blast
      then show ?thesis
      proof cases
        case 2
        then obtain d where d: "map_of es (path_dir n) = Some d" "ae_kind d = Directory" by (auto simp: is_directory_def split: option.splits)
        then have "path_dir n \<in> ?W" by (auto simp: written_def item_of_def)
        with staged_done [OF st _ d(1)] d show ?thesis by (simp add: node_of_def)
      qed simp
    qed
    from create_staged [OF assms(1) st e _ new this] True item show ?thesis
      by (auto simp: link_turn_def node all_ok_def split: if_splits)
  next
    case False
    then have "n \<in> ?W" using e item by (auto simp: written_def)
    then have "?W \<union> insert n N = ?W \<union> N" by auto
    with False item st show ?thesis by (auto simp: link_turn_def all_ok_def)
  qed
  then show "link_turn env es (i, n) t = Inr t' \<Longrightarrow> staged es (?W \<union> insert n N) t'"
    and "all_ok env \<Longrightarrow> \<exists>t'. link_turn env es (i, n) t = Inr t'" by blast+
qed

text \<open>The names in the order of the loops: every key once, with its position.\<close>

lemma numbered:
  assumes "distinct (map fst es)" and "enumerate 0 (sort (map fst es)) = us @ (i, n) # vs"
  shows "\<exists>e. map_of es n = Some e" and "n \<notin> snd ` set us"
proof -
  have names: "map snd (enumerate 0 (sort (map fst es))) = sort (map fst es)" by simp
  then have "n \<in> set (sort (map fst es))" unfolding assms(2) by (metis in_set_conv_decomp list.simps(9) map_append snd_conv)
  then show "\<exists>e. map_of es n = Some e" by (metis domD dom_map_of_conv_image_fst list.set_map set_sort)
  have "map snd (us @ (i, n) # vs) = sort (map fst es)" using names assms(2) by simp
  moreover have "distinct (sort (map fst es))" using assms(1) by simp
  ultimately have "distinct (map snd (us @ (i, n) # vs))" by simp
  then show "n \<notin> snd ` set us" by auto
qed

lemma set_enumerate_snd: "snd ` set (enumerate 0 (sort (map fst es))) = dom (map_of es)"
  by (metis dom_map_of_conv_image_fst list.set_map map_snd_enumerate set_sort)

lemma names_loop:
  assumes dist: "distinct (map fst es)" and init: "J {} t"
    and step: "\<And>N t n e i t'. J N t \<Longrightarrow> map_of es n = Some e \<Longrightarrow> n \<notin> N \<Longrightarrow> turn (i, n) t = Inr t' \<Longrightarrow> J (insert n N) t'"
  shows "each turn (enumerate 0 (sort (map fst es))) t = Inr t' \<Longrightarrow> J (dom (map_of es)) t'"
    and "(\<And>N t n e i. J N t \<Longrightarrow> map_of es n = Some e \<Longrightarrow> n \<notin> N \<Longrightarrow> \<exists>t'. turn (i, n) t = Inr t') \<Longrightarrow>
      \<exists>t'. each turn (enumerate 0 (sort (map fst es))) t = Inr t'"
proof -
  let ?xs = "enumerate 0 (sort (map fst es))" and ?I = "\<lambda>X. J (snd ` X)"
  have init: "?I (set []) t" using init by simp
  have turn: "?I (set ([] @ us @ [x])) t'" if x: "?xs = us @ x # vs" "?I (set ([] @ us)) t" "turn x t = Inr t'" for us x vs t t'
  proof -
    obtain i n where [simp]: "x = (i, n)" by (cases x)
    obtain e where e: "map_of es n = Some e" "n \<notin> snd ` set us" using numbered [OF dist] x(1) by fastforce
    from step [OF _ e, of t i t'] x show ?thesis by simp
  qed
  show "each turn ?xs t = Inr t' \<Longrightarrow> J (dom (map_of es)) t'"
    using each_passed [of ?I "[]" t turn ?xs t', OF init _ turn] by (simp add: set_enumerate_snd)
  assume ok: "\<And>N t n e i. J N t \<Longrightarrow> map_of es n = Some e \<Longrightarrow> n \<notin> N \<Longrightarrow> \<exists>t'. turn (i, n) t = Inr t'"
  have progress: "\<exists>t'. turn x t = Inr t' \<and> ?I (set ([] @ us @ [x])) t'"
    if x: "?xs = us @ x # vs" "?I (set ([] @ us)) t" for us x vs t
  proof -
    obtain i n where [simp]: "x = (i, n)" by (cases x)
    obtain e where e: "map_of es n = Some e" "n \<notin> snd ` set us" using numbered [OF dist] x(1) by fastforce
    from ok [OF _ e, of t i] x(2) obtain t' where "turn x t = Inr t'" by auto
    with turn [OF x this] show ?thesis by blast
  qed
  show "\<exists>t'. each turn ?xs t = Inr t'"
    by (rule each_progress [of ?I "[]" t ?xs turn, OF init progress])
qed

lemma extract_loop:
  assumes es: "sound_entries es" "whole_entries es" "distinct (map fst es)"
  shows "each (extract_turn env es) (enumerate 0 (sort (map fst es))) [] = Inr t \<Longrightarrow> staged es (written es (dom (map_of es))) t"
    and "all_ok env \<Longrightarrow> \<exists>t. each (extract_turn env es) (enumerate 0 (sort (map fst es))) [] = Inr t"
proof -
  have init: "staged es (written es {}) []" by (simp add: staged_def written_def)
  show "each (extract_turn env es) (enumerate 0 (sort (map fst es))) [] = Inr t \<Longrightarrow> staged es (written es (dom (map_of es))) t"
    by (rule names_loop(1) [OF es(3), where J = "\<lambda>N. staged es (written es N)", OF init extract_turn_staged(1) [OF es(1,2)]])
  show "\<exists>t. each (extract_turn env es) (enumerate 0 (sort (map fst es))) [] = Inr t" if "all_ok env"
    by (rule names_loop(2) [OF es(3), where J = "\<lambda>N. staged es (written es N)", OF init])
      (use extract_turn_staged [OF es(1,2)] that in \<open>blast+\<close>)
qed

lemma link_loop:
  assumes es: "sound_entries es" "distinct (map fst es)" and st: "staged es (written es (dom (map_of es))) t"
  shows "each (link_turn env es) (enumerate 0 (sort (map fst es))) t = Inr t' \<Longrightarrow> staged es (dom (map_of es)) t'"
    and "all_ok env \<Longrightarrow> \<exists>t'. each (link_turn env es) (enumerate 0 (sort (map fst es))) t = Inr t'"
proof -
  let ?J = "\<lambda>N. staged es (written es (dom (map_of es)) \<union> N)"
  have init: "?J {} t" using st by simp
  have all: "written es (dom (map_of es)) \<union> dom (map_of es) = dom (map_of es)" by (auto simp: written_def)
  show "each (link_turn env es) (enumerate 0 (sort (map fst es))) t = Inr t' \<Longrightarrow> staged es (dom (map_of es)) t'"
    using names_loop(1) [OF es(2), where J = ?J, OF init link_turn_staged(1) [OF es(1)]] unfolding all .
  show "\<exists>t'. each (link_turn env es) (enumerate 0 (sort (map fst es))) t = Inr t'" if "all_ok env"
    by (rule names_loop(2) [OF es(2), where J = ?J, OF init])
      (use link_turn_staged [OF es(1)] that in \<open>blast+\<close>)
qed

text \<open>The last loop synchronizes every directory, each before the directories above it.\<close>

lemma prefix_less: "a \<noteq> [] \<Longrightarrow> (s :: string) < s @ a"
proof (induction s)
  case Nil
  then show ?case by (cases a) simp_all
qed simp

lemma parent_less:
  assumes "p \<in> set (parents_of n)"
  shows "p < n"
proof -
  from assms obtain us where us: "us \<in> set (ancestors (parts n))" "p = slashed us" by (auto simp: parents_of_def)
  then obtain vs where vs: "us \<noteq> []" "vs \<noteq> []" "parts n = us @ vs" by (auto simp: ancestors_iff)
  have "n = slashed (us @ vs)" using join_splitByte [of "CHR ''/''" n] vs(3) by simp
  also have "\<dots> = p @ CHR ''/'' # slashed vs" using joinByte_append [OF vs(1,2)] us(2) by simp
  finally show ?thesis using prefix_less by simp
qed

lemma sync_each:
  "each (sync_turn env es) xs synced = Inr synced' \<Longrightarrow>
     synced' = synced @ filter (\<lambda>n. ae_kind (item_of es n) = Directory) (map snd xs)"
proof (induction xs arbitrary: synced)
  case (Cons x xs)
  obtain i n where x: "x = (i, n)" by (cases x)
  from Cons.prems obtain s1 where s1: "sync_turn env es x synced = Inr s1" "each (sync_turn env es) xs s1 = Inr synced'"
    by (auto split: sum.splits)
  have "s1 = synced @ (if ae_kind (item_of es n) = Directory then [n] else [])"
    using s1(1) by (auto simp: sync_turn_def x split: if_splits)
  with Cons.IH [OF s1(2)] show ?case by (simp add: x)
qed simp

lemma sync_progress: "all_ok env \<Longrightarrow> \<exists>synced'. each (sync_turn env es) xs synced = Inr synced'"
  by (induction xs arbitrary: synced) (auto simp: sync_turn_def all_ok_def)

lemma synced_order:
  "sorted_wrt (\<lambda>a b. a \<notin> set (parents_of b)) (filter P (rev (sort names)))"
proof -
  have "sorted_wrt (\<lambda>a b. b \<le> a) (rev (sort names))" by (simp add: sorted_wrt_rev)
  then have "sorted_wrt (\<lambda>a b. a \<notin> set (parents_of b)) (rev (sort names))"
    by (rule sorted_wrt_mono_rel [rotated]) (auto dest!: parent_less)
  then show ?thesis by (rule sorted_wrt_filter)
qed

section \<open>What Extract guarantees\<close>

lemma accepted_ready_all:
  assumes "visit_order (ar_visit lib)" and "range_order (ar_range lib)" and "inspect lib ctx data expected = Some (Inr (m, es))"
  shows "sound_entries es \<and> whole_entries es \<and> distinct (map fst es)"
proof (cases rule: inspect_accepted [OF assms])
  case (1 m0 es0)
  have "ae_kind e \<noteq> SpecialFile \<and> (ae_kind e = RegularFile \<longrightarrow> (\<exists>f. ae_file e = Some f \<and> read_entry_ok n e f))"
    if "map_of es n = Some e" for n e
    using extends_lookup(2) [OF 1(4) that]
  proof
    assume "map_of es0 n = Some e"
    then have "entry_sound lib (n, e)" using 1(1) by (auto simp: scan_inv_def list_all_iff dest: map_of_SomeD)
    with accepted_kind [OF 1(1,4) that] show ?thesis by (auto simp: entry_sound_def split: option.splits)
  qed (simp add: implicit_dir_def)
  with 1(5,9) show ?thesis by (simp add: whole_entries_def)
qed

lemmas accepted_ready = accepted_ready_all [THEN conjunct1] accepted_ready_all [THEN conjunct2, THEN conjunct1]
  accepted_ready_all [THEN conjunct2, THEN conjunct2]

lemma extract_release_cases:
  "(\<exists>r t synced. stage env es = Inr (t, synced) \<and> extract_release env m es rel = (Inr r, rel @ [(rd_Directory r, t)])
      \<and> rd_Manifest r = m \<and> map_of rel (rd_Directory r) = None)
   \<or> (\<exists>e. fst (extract_release env m es rel) = Inl e) \<and> (xe_ok env RemoveAllCall \<longrightarrow> snd (extract_release env m es rel) = rel)"
  by (cases "stage env es") (auto simp: extract_release_def Let_def split: option.splits)

lemma stage_exact:
  assumes es: "sound_entries es" "whole_entries es" "distinct (map fst es)"
  shows "stage env es = Inr (t, synced) \<Longrightarrow> map_of t p = map_option node_of (map_of es p)"
    and "stage env es = Inr (t, synced) \<Longrightarrow> synced = filter (\<lambda>n. ae_kind (item_of es n) = Directory) (rev (sort (map fst es)))"
    and "all_ok env \<Longrightarrow> \<exists>t synced. stage env es = Inr (t, synced)"
proof -
  assume "stage env es = Inr (t, synced)"
  then obtain t1 where t1: "each (extract_turn env es) (enumerate 0 (sort (map fst es))) [] = Inr t1"
    and t: "each (link_turn env es) (enumerate 0 (sort (map fst es))) t1 = Inr t"
    and sync: "each (sync_turn env es) (rev (enumerate 0 (sort (map fst es)))) [] = Inr synced"
    by (auto simp: stage_def Let_def split: sum.splits if_splits)
  have st: "staged es (dom (map_of es)) t" using link_loop(1) [OF es(1,3) extract_loop(1) [OF es t1] t] .
  show "map_of t p = map_option node_of (map_of es p)"
    using staged_absent [OF st, of p] staged_done [OF st, of p] by (cases "map_of es p") auto
  show "synced = filter (\<lambda>n. ae_kind (item_of es n) = Directory) (rev (sort (map fst es)))"
    using sync_each [OF sync] by (simp add: rev_map [symmetric])
next
  assume ok: "all_ok env"
  obtain t1 where t1: "each (extract_turn env es) (enumerate 0 (sort (map fst es))) [] = Inr t1"
    using extract_loop(2) [OF es ok] by blast
  obtain t2 where t2: "each (link_turn env es) (enumerate 0 (sort (map fst es))) t1 = Inr t2"
    using link_loop(2) [OF es(1,3) extract_loop(1) [OF es t1] ok] by blast
  obtain synced where "each (sync_turn env es) (rev (enumerate 0 (sort (map fst es)))) [] = Inr synced"
    using sync_progress [OF ok] by blast
  with t1 t2 ok show "\<exists>t synced. stage env es = Inr (t, synced)" by (simp add: stage_def Let_def all_ok_def)
qed

text \<open>
  C29: Extraction is faithful: when \<open>Extract\<close> succeeds, the release root has one new directory, and
  its tree is exactly the inspected artifact: a directory for every directory entry and every
  directory above an entry, a file with the bytes and the executable bit of every regular entry,
  a link with its target for every link, and nothing else. Its manifest is that of the artifact.
\<close>

theorem extraction_is_exact:
  assumes "visit_order (ar_visit lib)" and "range_order (ar_range lib)"
    and "Extract lib ctx env data expected rel = Some (Inr r, rel')"
  shows "\<exists>m es t. inspect lib ctx data expected = Some (Inr (m, es)) \<and> rd_Manifest r = m
    \<and> map_of rel (rd_Directory r) = None \<and> rel' = rel @ [(rd_Directory r, t)]
    \<and> (\<forall>p. map_of t p = map_option node_of (map_of es p))"
proof -
  from assms(3) obtain m es where ins: "inspect lib ctx data expected = Some (Inr (m, es))"
    and run: "extract_release env m es rel = (Inr r, rel')"
    by (auto simp: Extract_def split: option.splits if_splits sum.splits)
  from extract_release_cases [of env es m rel] run obtain t synced where st: "stage env es = Inr (t, synced)"
    and r: "rd_Manifest r = m" "map_of rel (rd_Directory r) = None" "rel' = rel @ [(rd_Directory r, t)]" by auto
  from stage_exact(1) [OF accepted_ready [OF assms(1,2) ins] st] ins r show ?thesis by blast
qed

lemma Extract_runs:
  assumes "visit_order (ar_visit lib)" and "range_order (ar_range lib)"
    and "inspect lib ctx data expected = Some (Inr (m, es))" and "xe_root env = Some (True, perm)" and "perm_private perm"
    and "xe_entropy env = Some entropy" and "map_of rel (''release-'' @ entropy) = None" and "all_ok env"
  shows "\<exists>t synced. stage env es = Inr (t, synced) \<and> sorted_wrt (\<lambda>a b. a \<notin> set (parents_of b)) synced
    \<and> Extract lib ctx env data expected rel
      = Some (Inr \<lparr>rd_Directory = ''release-'' @ entropy, rd_Manifest = m\<rparr>, rel @ [(''release-'' @ entropy, t)])"
proof -
  note es = accepted_ready [OF assms(1-3)]
  obtain t synced where st: "stage env es = Inr (t, synced)" using stage_exact(3) [OF es assms(8)] by blast
  have "sorted_wrt (\<lambda>a b. a \<notin> set (parents_of b)) synced" unfolding stage_exact(2) [OF es st] by (rule synced_order)
  with st assms(3-8) show ?thesis by (simp add: extract_release_def Extract_def all_ok_def Let_def)
qed

text \<open>
  Extraction does not fail by itself: every artifact that passes inspection is staged when the
  release root is a private directory, the fresh name is unused and the kernel grants the calls,
  in whatever order the sorted entries come. Directories are synchronized after everything below
  them.
\<close>

theorem extraction_succeeds:
  assumes "visit_order (ar_visit lib)" and "range_order (ar_range lib)"
    and "inspect lib ctx data expected = Some (Inr (m, es))" and "xe_root env = Some (True, perm)" and "perm_private perm"
    and "xe_entropy env = Some entropy" and "map_of rel (''release-'' @ entropy) = None" and "all_ok env"
  shows "\<exists>t synced. stage env es = Inr (t, synced) \<and> sorted_wrt (\<lambda>a b. a \<notin> set (parents_of b)) synced
    \<and> Extract lib ctx env data expected rel
      = Some (Inr \<lparr>rd_Directory = ''release-'' @ entropy, rd_Manifest = m\<rparr>, rel @ [(''release-'' @ entropy, t)])"
  using assms by (rule Extract_runs)

text \<open>
  A failed extraction leaves the release root as it was: whatever step fails, the partial
  directory is removed again, provided the kernel grants that removal.
\<close>

theorem failed_extraction_leaves_nothing:
  assumes "Extract lib ctx env data expected rel = Some (Inl e, rel')" and "xe_ok env RemoveAllCall"
  shows "rel' = rel"
  using assms extract_release_cases [of env _ _ rel]
  by (auto simp: Extract_def split: option.splits if_splits sum.splits) (metis fst_conv snd_conv sum.distinct(1))

section \<open>Example\<close>

definition wx_env :: extract_env where
  "wx_env = \<lparr>xe_root = Some (True, 448), xe_entropy = Some ''00'', xe_ok = (\<lambda>_. True), xe_live = (\<lambda>_ _. True)\<rparr>"

lemma wx_extract:
  "\<exists>t. Extract wx_lib (\<lambda>_. True) wx_env ''z'' (replicate 64 CHR ''a'') [] =
     Some (Inr \<lparr>rd_Directory = ''release-00'',
       rd_Manifest = \<lparr>mf_SHA256 = replicate 64 CHR ''a'', mf_Files = 3, mf_ExpandedBytes = 12\<rparr>\<rparr>, [(''release-00'', t)])"
  using stage_exact(3) [OF accepted_ready [OF wx_laws wx_inspect], of wx_env] wx_inspect
  by (auto simp: extract_release_def Extract_def wx_env_def all_ok_def perm_private_def Let_def)

theorem extraction_is_exact_witness:
  "\<exists>t. map_of t ''bin/run'' = Some (LinkNode ''../app.js'') \<and> map_of t ''bin'' = Some DirNode \<and> map_of t ''lib'' = None"
proof -
  obtain t where "Extract wx_lib (\<lambda>_. True) wx_env ''z'' (replicate 64 CHR ''a'') [] =
     Some (Inr \<lparr>rd_Directory = ''release-00'',
       rd_Manifest = \<lparr>mf_SHA256 = replicate 64 CHR ''a'', mf_Files = 3, mf_ExpandedBytes = 12\<rparr>\<rparr>, [(''release-00'', t)])"
    using wx_extract by blast
  from extraction_is_exact [OF wx_laws this] obtain t where t: "\<And>p. map_of t p = map_option node_of (map_of wx_entries p)"
    by (auto simp: wx_inspect)
  show ?thesis by (rule exI [of _ t]) (simp add: t wx_entries_def node_of_def implicit_dir_def)
qed

theorem extraction_succeeds_witness:
  "\<exists>t. snd (the (Extract wx_lib (\<lambda>_. True) wx_env ''z'' (replicate 64 CHR ''a'') [])) = [(''release-00'', t)]"
proof -
  have "all_ok wx_env" "xe_root wx_env = Some (True, 448)" "xe_entropy wx_env = Some ''00''" "perm_private 448"
    by (simp_all add: wx_env_def all_ok_def perm_private_def)
  with extraction_succeeds [OF wx_laws wx_inspect, of wx_env 448 "''00''" "[]"] show ?thesis by fastforce
qed

theorem failed_extraction_leaves_nothing_witness:
  "Extract wx_lib (\<lambda>_. True) (wx_env\<lparr>xe_ok := (\<lambda>c. c \<noteq> OpenReleaseRoot)\<rparr>) ''z'' (replicate 64 CHR ''a'') [] = Some (Inl ErrOS, [])"
proof -
  let ?env = "wx_env\<lparr>xe_ok := (\<lambda>c. c \<noteq> OpenReleaseRoot)\<rparr>"
  obtain rel' where run: "Extract wx_lib (\<lambda>_. True) ?env ''z'' (replicate 64 CHR ''a'') [] = Some (Inl ErrOS, rel')"
    by (simp add: extract_release_def Extract_def wx_env_def perm_private_def wx_inspect Let_def)
  with failed_extraction_leaves_nothing [OF run] show ?thesis by simp
qed

end
