(* ===== verification/Archive_Guarantees.thy ===== *)
theory Archive_Guarantees
  imports Portal_Guarantees Project_Archive Node_Extract
begin

text \<open>
  The archive validators in the places where the store calls them: \<open>SaveUpload\<close> with
  \<open>projectarchive.Validate\<close>, and the retention and download of releases with
  \<open>nodeartifact.Validate\<close>, up to the extraction of a release on a node.
\<close>

section \<open>Uploads\<close>

text \<open>What \<open>SaveUpload\<close> uses of the manifest; every error of the validator is the same to it.\<close>

definition project_check :: "archive_lib \<Rightarrow> (nat \<Rightarrow> bool) \<Rightarrow> string \<Rightarrow> string \<Rightarrow> archive_manifest option" where
  "project_check alib ctx data kind =
     (case Validate alib ctx data kind of
        Some (Inr m) \<Rightarrow> Some \<lparr>am_SHA256 = pm_SHA256 m, am_Files = int (pm_Files m), am_Bytes = int (pm_Bytes m)\<rparr>
      | _ \<Rightarrow> None)"

lemma project_checkD:
  assumes "lower_table (al_lower alib)" and "range_order (al_range alib)" and "project_check alib ctx data kind = Some am"
  shows "project_ok alib ctx data kind" and "am_SHA256 am = al_sha256 alib data"
    and "am_Files am = int (pm_Files (manifest_of alib data kind))" and "am_Bytes am = int (pm_Bytes (manifest_of alib data kind))"
proof -
  obtain m where m: "Validate alib ctx data kind = Some (Inr m)"
    and am: "am = \<lparr>am_SHA256 = pm_SHA256 m, am_Files = int (pm_Files m), am_Bytes = int (pm_Bytes m)\<rparr>"
    using assms(3) by (auto simp: project_check_def split: option.splits sum.splits)
  note ok = m [unfolded Validate_decides [OF assms(1,2)]]
  then show "project_ok alib ctx data kind" by simp
  show "am_SHA256 am = al_sha256 alib data" using ok by (simp add: am manifest_of_def Let_def)
  show "am_Files am = int (pm_Files (manifest_of alib data kind))" "am_Bytes am = int (pm_Bytes (manifest_of alib data kind))"
    using ok by (simp_all add: am)
qed

lemma save_upload_row:
  assumes "save_upload_tx lib cfg c token project data m db = Inr (u, db')"
  shows "up_archive u = data" and "up_sha256 u = am_SHA256 m" and "up_files u = am_Files m" and "up_expanded u = am_Bytes m"
    and "up_project u = project" and "u \<in> set (uploads db')"
  using assms by (auto simp: save_upload_tx_def Let_def insert_row_Inr dest!: auditD split: prod.splits)

text \<open>
  C31: Only safe archives are stored: an upload that \<open>SaveUpload\<close> returns is in the store with
  the very bytes that were sent, these bytes are an acceptable archive for the kind of the project
  the caller was admitted to, and the recorded digest, file count and size describe them,
  whatever other transactions commit between the access check and the insertion.
\<close>

theorem stored_upload_is_safe:
  assumes "lower_table (al_lower alib)" and "range_order (al_range alib)"
    and "saveUpload lib cfg (project_check alib ctx) c1 c2 mid token project data db = (Inr u, db')"
  shows "\<exists>p. uploadAccess lib cfg c1 token project db = Inr p \<and> project_ok alib ctx data (p_kind p)
    \<and> u \<in> set (uploads db') \<and> up_project u = project \<and> up_archive u = data \<and> up_sha256 u = al_sha256 alib data
    \<and> up_files u = int (pm_Files (manifest_of alib data (p_kind p)))
    \<and> up_expanded u = int (pm_Bytes (manifest_of alib data (p_kind p)))"
proof -
  obtain p am where p: "uploadAccess lib cfg c1 token project db = Inr p" and am: "project_check alib ctx data (p_kind p) = Some am"
    and tx: "save_upload_tx lib cfg c2 token project data am (run_ops (portal_exec lib cfg) mid db) = Inr (u, db')"
    using assms(3) by (auto simp: saveUpload_def in_tx_Inr_iff split: sum.splits option.splits)
  with project_checkD [OF assms(1,2) am] save_upload_row [OF tx] show ?thesis by auto
qed

section \<open>Releases\<close>

definition artifact_check :: "artifact_lib \<Rightarrow> (nat \<Rightarrow> bool) \<Rightarrow> validator" where
  "artifact_check alib ctx archive digest =
     (case artifact_Validate alib ctx archive digest of None \<Rightarrow> Inl Panic | Some r \<Rightarrow> r)"

lemma artifact_checkD:
  assumes "artifact_check alib ctx archive digest = Inr m"
  shows "\<exists>es. inspect alib ctx archive digest = Some (Inr (m, es))" and "mf_SHA256 m = digest"
proof -
  show ins: "\<exists>es. inspect alib ctx archive digest = Some (Inr (m, es))"
    using assms by (auto simp: artifact_check_def artifact_Validate_def map_sum_def split: option.splits sum.splits)
  then show "mf_SHA256 m = digest"
    by (auto simp: inspect_def split: if_splits option.splits sum.splits)
qed

lemma saved_release_evidence:
  assumes "evidence_inv bl db" and "savedNodeRelease ident project db = Some saved"
  obtains r found digest where "get_row rr_build ident (node_releases db) = Some r" and "rr_metadata r = saved"
    and "bl_artifact bl (rr_archive r) digest = Inr found" and "rl_ArtifactSHA256 saved = mf_SHA256 found"
proof -
  obtain r where r: "get_row rr_build ident (node_releases db) = Some r" "rr_metadata r = saved"
    using assms(2) by (auto simp: savedNodeRelease_def split: if_splits)
  with assms(1) get_row_SomeD [OF r(1)] obtain b where "release_evidence bl b r" by (auto simp: evidence_inv_def)
  then obtain ob :: artifact_observation and found where "bl_artifact bl (rr_archive r) (eo_ArtifactSHA256 ob) = Inr found"
    "rl_ArtifactSHA256 saved = mf_SHA256 found" using r(2) by (auto simp: release_evidence_def)
  with r show ?thesis by (rule that)
qed

text \<open>
  C30: What the portal retains a node can install: with the artifact validator of the code as the
  validator of the store, whoever may write to the project gets, for every saved release, the
  archive with the digest in the release's record; it passes inspection again, and extracting it
  into a private release root on which the kernel grants the calls succeeds.
\<close>

theorem retained_release_is_installable:
  assumes "visit_order (ar_visit alib)" and "range_order (ar_range alib)" and "bl_artifact bl = artifact_check alib ctx"
    and "evidence_inv bl db" and "cl_drv c = None" and "uploadProject lib (cl_now c 0) token project True db = Inr p"
    and "savedNodeRelease ident project db = Some saved"
    and "xe_root env = Some (True, perm)" and "perm_private perm" and "xe_entropy env = Some entropy"
    and "map_of rel (''release-'' @ entropy) = None" and "all_ok env"
  shows "\<exists>archive m t. nodeReleaseArchive lib bl c token project ident db = Inr archive
    \<and> ar_sha256 alib archive = rl_ArtifactSHA256 saved
    \<and> Extract alib ctx env archive (rl_ArtifactSHA256 saved) rel
      = Some (Inr \<lparr>rd_Directory = ''release-'' @ entropy, rd_Manifest = m\<rparr>, rel @ [(''release-'' @ entropy, t)])"
proof -
  obtain r found digest where r: "get_row rr_build ident (node_releases db) = Some r" "rr_metadata r = saved"
    and found: "bl_artifact bl (rr_archive r) digest = Inr found" "rl_ArtifactSHA256 saved = mf_SHA256 found"
    using saved_release_evidence [OF assms(4,7)] .
  from found artifact_checkD(2) [of alib ctx "rr_archive r" digest found] assms(3)
  have chk: "bl_artifact bl (rr_archive r) (rl_ArtifactSHA256 saved) = Inr found" by simp
  then obtain es where ins: "inspect alib ctx (rr_archive r) (rl_ArtifactSHA256 saved) = Some (Inr (found, es))"
    using artifact_checkD(1) assms(3) by metis
  then have "ar_sha256 alib (rr_archive r) = rl_ArtifactSHA256 saved"
    by (auto simp: inspect_def split: if_splits)
  moreover have "nodeReleaseArchive lib bl c token project ident db = Inr (rr_archive r)"
    using assms(5-7) r chk by (auto simp: nodeReleaseArchive_def seq_simps)
  ultimately show ?thesis using Extract_runs [OF assms(1,2) ins assms(8-12)] by blast
qed

section \<open>Concrete instances\<close>

definition yx_blib :: build_lib where
  "yx_blib = nx_blib\<lparr>bl_artifact := artifact_check wx_lib (\<lambda>_. True)\<rparr>"

definition yx_digest :: string where
  "yx_digest = replicate 64 CHR ''a''"

definition yx_metadata :: node_release where
  "yx_metadata = (rr_metadata nx_release)\<lparr>rl_ArtifactSHA256 := yx_digest, rl_Files := 3, rl_ExpandedBytes := 12, rl_CompressedBytes := 1\<rparr>"

definition yx_db :: node_db where
  "yx_db = nx_deploying\<lparr>node_releases := [nx_release\<lparr>rr_archive := ''z'', rr_metadata := yx_metadata\<rparr>],
     node_builds := [nx_build ''b1'' BuildSucceeded (Some (ArtifactEvidence (nx_evidence\<lparr>eo_ArtifactSHA256 := yx_digest\<rparr>)))]\<rparr>"

lemma yx_check: "artifact_check wx_lib (\<lambda>_. True) ''z'' yx_digest = Inr \<lparr>mf_SHA256 = yx_digest, mf_Files = 3, mf_ExpandedBytes = 12\<rparr>"
  using wx_inspect by (simp add: artifact_check_def artifact_Validate_def yx_digest_def)

lemma yx_evidence: "evidence_inv yx_blib yx_db"
  using yx_check
  by (simp add: evidence_inv_def release_evidence_def yx_db_def yx_metadata_def yx_blib_def nx_deploying_def nx_defs)

theorem stored_upload_is_safe_witness:
  "\<exists>u db'. saveUpload ax_lib kx_config (project_check zx_lib (\<lambda>_. True)) (ax_call CHR ''x'') (ax_call CHR ''y'') [] ''A'' ''p1'' ''z'' nx_publishing
      = (Inr u, db') \<and> u \<in> set (uploads db') \<and> up_archive u = ''z''"
proof -
  let ?am = "\<lparr>am_SHA256 = al_sha256 zx_lib ''z'', am_Files = int (pm_Files (manifest_of zx_lib ''z'' ''static'')),
     am_Bytes = int (pm_Bytes (manifest_of zx_lib ''z'' ''static''))\<rparr>"
  let ?r = "saveUpload ax_lib kx_config (project_check zx_lib (\<lambda>_. True)) (ax_call CHR ''x'') (ax_call CHR ''y'') [] ''A'' ''p1'' ''z'' nx_publishing"
  have "Validate zx_lib (\<lambda>_. True) ''z'' ''static'' = Some (Inr (manifest_of zx_lib ''z'' ''static''))"
    using zx_ok by (simp add: Validate_decides [OF zx_laws])
  then have chk: "project_check zx_lib (\<lambda>_. True) ''z'' ''static'' = Some ?am"
    by (simp add: project_check_def manifest_of_def Let_def)
  have access: "uploadAccess ax_lib kx_config (ax_call CHR ''x'') ''A'' ''p1'' nx_publishing = Inr (nx_project ''p1'' ''static'')"
    by (simp add: uploadAccess_def uploadProject_def authorize_def session_user_def get_member_def nx_eval nx_publishing_def nx_defs)
  have "\<exists>u db'. save_upload_tx ax_lib kx_config (ax_call CHR ''y'') ''A'' ''p1'' ''z'' ?am nx_publishing = Inr (u, db')"
    by (simp add: save_upload_tx_def uploadProject_def authorize_def session_user_def get_member_def requireHostingUpload_def
        nx_eval nx_publishing_def nx_defs workspace_uploads_def upload_bytes_def)
  then obtain u db' where tx: "save_upload_tx ax_lib kx_config (ax_call CHR ''y'') ''A'' ''p1'' ''z'' ?am nx_publishing = Inr (u, db')" by blast
  have drv: "cl_drv (ax_call CHR ''y'') = None" by (simp add: ax_call_def)
  have "p_kind (nx_project ''p1'' ''static'') = ''static''" by (simp add: nx_project_def)
  with access chk tx drv have run: "?r = (Inr u, db')" by (simp add: saveUpload_def in_tx_Inr_iff)
  from stored_upload_is_safe [OF zx_laws run] run show ?thesis by blast
qed

theorem retained_release_is_installable_witness:
  "\<exists>archive m t. nodeReleaseArchive ax_lib yx_blib (ax_call CHR ''x'') ''A'' ''n1'' ''b1'' yx_db = Inr archive
    \<and> Extract wx_lib (\<lambda>_. True) wx_env archive yx_digest [] = Some (Inr \<lparr>rd_Directory = ''release-00'', rd_Manifest = m\<rparr>, [(''release-00'', t)])"
proof -
  have p: "uploadProject ax_lib (cl_now (ax_call CHR ''x'') 0) ''A'' ''n1'' True yx_db = Inr (nx_project ''n1'' ''node'', ''alice'')"
    by (simp add: uploadProject_def authorize_def session_user_def get_member_def active_user_def seq_simps yx_db_def nx_deploying_def nx_defs)
  have saved: "savedNodeRelease ''b1'' ''n1'' yx_db = Some yx_metadata" "rl_ArtifactSHA256 yx_metadata = yx_digest"
    by (simp_all add: savedNodeRelease_def yx_db_def yx_metadata_def nx_deploying_def nx_defs)
  have env: "xe_root wx_env = Some (True, 448)" "perm_private 448" "xe_entropy wx_env = Some ''00''" "map_of [] (''release-'' @ ''00'') = None"
    "all_ok wx_env" by (simp_all add: wx_env_def all_ok_def perm_private_def)
  have "bl_artifact yx_blib = artifact_check wx_lib (\<lambda>_. True)" "cl_drv (ax_call CHR ''x'') = None"
    by (simp_all add: yx_blib_def ax_call_def)
  from retained_release_is_installable [OF wx_laws this(1) yx_evidence this(2) p saved(1) env] saved(2) show ?thesis by auto
qed

end
