(* ===== verification/Billing_Provider.thy ===== *)
theory Billing_Provider
  imports Complex_Main Portal_Hosting
begin

text \<open>
  \<open>internal/hostingbilling\<close>: the client of the payment provider. What the SDK returns is an argument
  (\<open>stripe_api\<close>); its structs are records of the fields the code reads, a pointer is an option.
  The functions here decide which answers become snapshots. Every \<open>errors.New\<close> of the package
  is \<open>PortalErr ErrProvider\<close>, except the webhook error the portal compares.
\<close>

section \<open>Identifiers\<close>

definition ident_char :: "char \<Rightarrow> bool" where
  "ident_char c \<longleftrightarrow>
     (let n = byte_of c in 97 \<le> n \<and> n \<le> 122 \<or> 65 \<le> n \<and> n \<le> 90 \<or> 48 \<le> n \<and> n \<le> 57 \<or> c = CHR ''_'')"

definition providerID :: "string \<Rightarrow> string \<Rightarrow> bool" where
  "providerID ident prefix \<longleftrightarrow>
     \<not> (\<not> hasPrefix ident prefix \<or> length ident \<le> length prefix \<or> length ident > 255) \<and> list_all ident_char ident"

abbreviation provider_error :: "'a result" where
  "provider_error \<equiv> Inl (PortalErr ErrProvider)"

section \<open>What the SDK returns\<close>

record stripe_invoice =
  in_ID :: string
  in_Object :: string
  in_Livemode :: bool
  in_Customer :: "string option"
  in_CustomerAccount :: string
  in_Currency :: string
  in_Status :: string
  in_AmountRemaining :: int
  in_Parent :: "(string \<times> string option option) option"

text \<open>
  The type of the parent and its subscription details. \<open>invoice_subscription\<close> is the chain of nil
  checks down to \<open>Parent.SubscriptionDetails.Subscription.ID\<close>.
\<close>

definition invoice_subscription :: "stripe_invoice \<Rightarrow> string option" where
  "invoice_subscription i =
     (case in_Parent i of
        Some (kind, Some (Some ident)) \<Rightarrow> if kind = ''subscription_details'' then Some ident else None
      | _ \<Rightarrow> None)"

record stripe_item =
  it_Price :: "(string \<times> bool) option"
  it_Quantity :: int
  it_PeriodStart :: int
  it_PeriodEnd :: int

record stripe_subscription =
  sb_ID :: string
  sb_Livemode :: bool
  sb_Customer :: "string option"
  sb_CustomerAccount :: string
  sb_Items :: "(bool \<times> stripe_item option list) option"
  sb_Status :: string
  sb_CancelAtPeriodEnd :: bool
  sb_PauseCollection :: bool
  sb_LatestInvoice :: "stripe_invoice option"

record stripe_charge =
  cg_ID :: string
  cg_Object :: string
  cg_Livemode :: bool
  cg_Customer :: "string option"
  cg_PaymentIntent :: "string option"
  cg_Connected :: bool
  cg_Paid :: bool
  cg_Captured :: bool
  cg_Status :: string
  cg_Amount :: int
  cg_AmountCaptured :: int
  cg_AmountRefunded :: int
  cg_Currency :: string
  cg_Disputed :: bool

record stripe_intent =
  pi_ID :: string
  pi_Object :: string
  pi_Livemode :: bool
  pi_Customer :: "string option"
  pi_CustomerAccount :: string
  pi_Status :: string
  pi_LatestCharge :: "string option"
  pi_AmountReceived :: int
  pi_Currency :: string

record invoice_payment =
  ip_Object :: string
  ip_Livemode :: bool
  ip_Status :: string
  ip_AmountPaid :: int
  ip_Currency :: string
  ip_Payment :: "(string \<times> stripe_intent option) option"
  ip_Invoice :: "stripe_invoice option"

record stripe_dispute =
  di_ID :: string
  di_Object :: string
  di_Livemode :: bool
  di_Charge :: "string option"
  di_PaymentIntent :: "string option"
  di_Currency :: string
  di_Amount :: int
  di_Status :: string

record currency_option =
  cy_Custom :: bool
  cy_Tiers :: nat
  cy_UnitAmount :: int
  cy_UnitAmountDecimal :: rat
  cy_TaxBehavior :: string

record stripe_price =
  pz_ID :: string
  pz_Object :: string
  pz_Deleted :: bool
  pz_Livemode :: bool
  pz_Active :: bool
  pz_Type :: string
  pz_BillingScheme :: string
  pz_CustomUnitAmount :: bool
  pz_TransformQuantity :: bool
  pz_Tiers :: nat
  pz_TiersMode :: string
  pz_Recurring :: "(string \<times> string \<times> string \<times> int) option"
  pz_UnitAmount :: int
  pz_UnitAmountDecimal :: rat
  pz_CurrencyOptions :: "(string \<times> currency_option option) list"
  pz_Currency :: string
  pz_TaxBehavior :: string

text \<open>
  \<open>cg_Connected\<close> says that one of the Connect fields (application, fee, on behalf of, source
  transfer, transfer data) is set. The recurring part of a price is its usage type, meter,
  interval and interval count. A list answer carries \<open>HasMore\<close> and its data.
\<close>

record stripe_api =
  api_subscription :: "string \<Rightarrow> stripe_subscription option result"
  api_charge :: "string \<Rightarrow> stripe_charge option result"
  api_intent_payments :: "string \<Rightarrow> (bool \<times> invoice_payment option list) result"
  api_invoice_payments :: "string \<Rightarrow> (bool \<times> invoice_payment option list) result"
  api_disputes :: "string \<Rightarrow> (bool \<times> stripe_dispute option list) result"
  api_price :: "string \<Rightarrow> stripe_price option result"
  api_create_customer :: "string \<Rightarrow> string \<Rightarrow> (bool \<times> string) option result"
  api_create_session :: "string \<Rightarrow> string \<Rightarrow> string \<Rightarrow> (bool \<times> string \<times> string) option result"

text \<open>What \<open>url.Parse\<close> finds: scheme, host, and whether there is user information.\<close>

record parsed_url =
  ur_Scheme :: string
  ur_Host :: string
  ur_User :: bool

record stripe_client =
  kc_live :: bool
  kc_plans :: "string \<Rightarrow> string option"
  kc_api :: stripe_api
  kc_url :: "string \<Rightarrow> parsed_url option"

definition BillingMode :: "stripe_client \<Rightarrow> string" where
  "BillingMode c = (if kc_live c then ''live'' else ''test'')"

definition https_link :: "(string \<Rightarrow> parsed_url option) \<Rightarrow> string \<Rightarrow> string \<Rightarrow> bool" where
  "https_link parse host raw =
     (case parse raw of
        None \<Rightarrow> False
      | Some u \<Rightarrow> ur_Scheme u = ''https'' \<and> ur_Host u = host \<and> \<not> ur_User u)"

section \<open>subscription.go\<close>

definition subscription_statuses :: "string list" where
  "subscription_statuses = [''active'', ''trialing'', ''past_due'', ''unpaid'', ''canceled'', ''incomplete'',
     ''incomplete_expired'', ''paused'']"

definition invoice_statuses :: "string list" where
  "invoice_statuses = [''draft'', ''open'', ''paid'', ''uncollectible'', ''void'']"

definition item_matches :: "bool \<Rightarrow> string \<Rightarrow> stripe_item \<Rightarrow> bool" where
  "item_matches live price it \<longleftrightarrow>
     (case it_Price it of
        None \<Rightarrow> False
      | Some (ident, mode) \<Rightarrow>
          \<not> (ident \<noteq> price \<or> mode \<noteq> live \<or> it_Quantity it \<noteq> 1 \<or> it_PeriodStart it \<le> 0 \<or> it_PeriodEnd it \<le> it_PeriodStart it))"

definition invoice_matches :: "bool \<Rightarrow> string \<Rightarrow> string \<Rightarrow> stripe_invoice \<Rightarrow> bool" where
  "invoice_matches live customer ident i \<longleftrightarrow>
     \<not> (\<not> providerID (in_ID i) ''in_'' \<or> in_Livemode i \<noteq> live \<or> in_Customer i \<noteq> Some customer
        \<or> invoice_subscription i \<noteq> Some ident)
     \<and> in_Status i \<in> set invoice_statuses"

definition normalizeSubscriptionForMode ::
  "stripe_subscription option \<Rightarrow> string \<Rightarrow> string \<Rightarrow> string \<Rightarrow> int \<Rightarrow> bool \<Rightarrow> subscription_snapshot result" where
  "normalizeSubscriptionForMode x ident customer price observed live =
     (case x of
        None \<Rightarrow> provider_error
      | Some s \<Rightarrow>
          if sb_Livemode s \<noteq> live \<or> sb_ID s \<noteq> ident \<or> sb_Customer s \<noteq> Some customer \<or> sb_CustomerAccount s \<noteq> [] then provider_error
          else (case sb_Items s of
                  Some (False, [Some it]) \<Rightarrow>
                    if \<not> item_matches live price it \<or> sb_Status s \<notin> set subscription_statuses then provider_error
                    else let r = \<lparr>sp_ID = ident, sp_CustomerID = customer, sp_PriceID = price, sp_Status = sb_Status s,
                                  sp_PeriodStart = it_PeriodStart it, sp_PeriodEnd = it_PeriodEnd it,
                                  sp_CancelAtPeriodEnd = sb_CancelAtPeriodEnd s, sp_CollectionPaused = sb_PauseCollection s,
                                  sp_InvoiceID = [], sp_InvoiceStatus = [], sp_InvoiceRemaining = 0, sp_ObservedAt = observed\<rparr>
                         in (case sb_LatestInvoice s of
                               None \<Rightarrow> Inr r
                             | Some i \<Rightarrow>
                                 if \<not> invoice_matches live customer ident i then provider_error
                                 else Inr (r\<lparr>sp_InvoiceID := in_ID i, sp_InvoiceStatus := in_Status i,
                                             sp_InvoiceRemaining := in_AmountRemaining i\<rparr>))
                | _ \<Rightarrow> provider_error))"

definition retrieveSubscription ::
  "stripe_client \<Rightarrow> int \<Rightarrow> string \<Rightarrow> string \<Rightarrow> string \<Rightarrow> subscription_snapshot result" where
  "retrieveSubscription c observed ident customer price =
     (if \<not> providerID ident ''sub_'' \<or> \<not> providerID customer ''cus_'' \<or> \<not> providerID price ''price_'' then provider_error
      else case api_subscription (kc_api c) ident of
        Inl _ \<Rightarrow> provider_error
      | Inr s \<Rightarrow> normalizeSubscriptionForMode s ident customer price observed (kc_live c))"

section \<open>invoice_charge.go\<close>

definition intent_matches :: "bool \<Rightarrow> string \<Rightarrow> invoice_payment \<Rightarrow> stripe_invoice \<Rightarrow> stripe_intent \<Rightarrow> string option" where
  "intent_matches live customer p bill it =
     (if \<not> providerID (pi_ID it) ''pi_'' \<or> pi_Object it \<noteq> ''payment_intent'' \<or> pi_Livemode it \<noteq> live
         \<or> pi_Customer it \<noteq> Some customer \<or> pi_CustomerAccount it \<noteq> [] \<or> pi_Status it \<noteq> ''succeeded'' then None
      else case pi_LatestCharge it of
        None \<Rightarrow> None
      | Some ch \<Rightarrow>
          if \<not> providerID ch ''ch_'' \<or> ip_AmountPaid p \<le> 0 \<or> ip_AmountPaid p \<noteq> pi_AmountReceived it
             \<or> ip_Currency p \<noteq> pi_Currency it \<or> ip_Currency p \<noteq> in_Currency bill then None
          else Some ch)"

definition discoverInvoiceCharge :: "stripe_client \<Rightarrow> string \<Rightarrow> string \<Rightarrow> string \<Rightarrow> string result" where
  "discoverInvoiceCharge c invoice customer subscription =
     (if \<not> providerID invoice ''in_'' \<or> \<not> providerID customer ''cus_'' \<or> \<not> providerID subscription ''sub_'' then provider_error
      else case api_invoice_payments (kc_api c) invoice of
        Inl _ \<Rightarrow> provider_error
      | Inr (hasmore, rows) \<Rightarrow>
          if hasmore \<or> length rows > 1 then provider_error
          else (case rows of
                  [] \<Rightarrow> Inr []
                | None # _ \<Rightarrow> provider_error
                | Some p # _ \<Rightarrow>
                    if ip_Livemode p \<noteq> kc_live c \<or> ip_Object p \<noteq> ''invoice_payment'' \<or> ip_Status p \<noteq> ''paid'' then provider_error
                    else (case (ip_Invoice p, ip_Payment p) of
                            (Some bill, Some (kind, Some it)) \<Rightarrow>
                              if kind \<noteq> ''payment_intent'' \<or> in_ID bill \<noteq> invoice \<or> in_Object bill \<noteq> ''invoice''
                                 \<or> in_Livemode bill \<noteq> kc_live c \<or> in_Customer bill \<noteq> Some customer \<or> in_CustomerAccount bill \<noteq> []
                                 \<or> invoice_subscription bill \<noteq> Some subscription then provider_error
                              else (case intent_matches (kc_live c) customer p bill it of
                                      None \<Rightarrow> provider_error
                                    | Some ch \<Rightarrow> Inr ch)
                          | _ \<Rightarrow> provider_error)))"

section \<open>charge.go\<close>

definition dispute_statuses :: "string list" where
  "dispute_statuses = [''warning_needs_response'', ''warning_under_review'', ''warning_closed'', ''needs_response'',
     ''under_review'', ''won'', ''lost'', ''prevented'']"

definition dispute_ok :: "bool \<Rightarrow> stripe_charge \<Rightarrow> string list \<Rightarrow> stripe_dispute \<Rightarrow> bool" where
  "dispute_ok live charge seen d \<longleftrightarrow>
     \<not> (\<not> providerID (di_ID d) ''dp_'' \<or> di_ID d \<in> set seen \<or> di_Object d \<noteq> ''dispute'' \<or> di_Livemode d \<noteq> live
        \<or> di_Charge d \<noteq> Some (cg_ID charge) \<or> di_PaymentIntent d = None \<or> di_PaymentIntent d \<noteq> cg_PaymentIntent charge
        \<or> di_Currency d \<noteq> cg_Currency charge \<or> di_Amount d \<le> 0)
     \<and> di_Status d \<in> set dispute_statuses"

fun dispute_loop ::
  "bool \<Rightarrow> stripe_charge \<Rightarrow> stripe_dispute option list \<Rightarrow> string list \<Rightarrow> (string \<times> string) list \<Rightarrow> (string \<times> string) list result" where
  "dispute_loop live charge [] seen acc = Inr acc"
| "dispute_loop live charge (None # ds) seen acc = provider_error"
| "dispute_loop live charge (Some d # ds) seen acc =
     (if \<not> dispute_ok live charge seen d then provider_error
      else dispute_loop live charge ds (di_ID d # seen) (acc @ [(di_ID d, di_Status d)]))"

definition retrieveChargeDisputes :: "stripe_client \<Rightarrow> stripe_charge \<Rightarrow> (string \<times> string) list result" where
  "retrieveChargeDisputes c charge =
     (case api_disputes (kc_api c) (cg_ID charge) of
        Inl _ \<Rightarrow> provider_error
      | Inr (hasmore, ds) \<Rightarrow>
          if hasmore \<or> (cg_Disputed charge \<and> ds = []) then provider_error
          else dispute_loop (kc_live c) charge ds [] [])"

definition charge_ok :: "bool \<Rightarrow> string \<Rightarrow> stripe_charge \<Rightarrow> string \<Rightarrow> string \<Rightarrow> bool" where
  "charge_ok live ident ch customer intent \<longleftrightarrow>
     \<not> (cg_ID ch \<noteq> ident \<or> cg_Object ch \<noteq> ''charge'' \<or> cg_Livemode ch \<noteq> live \<or> \<not> providerID customer ''cus_''
        \<or> \<not> providerID intent ''pi_'' \<or> cg_Connected ch \<or> \<not> cg_Paid ch \<or> \<not> cg_Captured ch \<or> cg_Status ch \<noteq> ''succeeded''
        \<or> cg_AmountCaptured ch \<le> 0 \<or> cg_AmountCaptured ch > cg_Amount ch \<or> cg_AmountRefunded ch < 0
        \<or> cg_AmountRefunded ch > cg_AmountCaptured ch)"

definition payment_ok :: "bool \<Rightarrow> stripe_charge \<Rightarrow> string \<Rightarrow> invoice_payment \<Rightarrow> bool" where
  "payment_ok live ch intent p \<longleftrightarrow>
     \<not> (ip_Livemode p \<noteq> live \<or> ip_Object p \<noteq> ''invoice_payment'' \<or> ip_Status p \<noteq> ''paid'' \<or> ip_AmountPaid p \<noteq> cg_AmountCaptured ch
        \<or> ip_Currency p \<noteq> cg_Currency ch)
     \<and> (case ip_Payment p of Some (kind, Some it) \<Rightarrow> kind = ''payment_intent'' \<and> pi_ID it = intent | _ \<Rightarrow> False)"

definition charge_invoice_ok :: "bool \<Rightarrow> stripe_charge \<Rightarrow> string \<Rightarrow> stripe_invoice \<Rightarrow> bool" where
  "charge_invoice_ok live ch customer bill \<longleftrightarrow>
     \<not> (\<not> providerID (in_ID bill) ''in_'' \<or> in_Object bill \<noteq> ''invoice'' \<or> in_Livemode bill \<noteq> live \<or> in_Customer bill \<noteq> Some customer
        \<or> in_CustomerAccount bill \<noteq> [] \<or> in_Currency bill \<noteq> cg_Currency ch)"

text \<open>
  \<open>RetrieveChargeObservation\<close>: the charge, the one invoice payment of its payment intent, the
  invoice and subscription behind it, and the disputes.
\<close>

definition observe_payment ::
  "stripe_client \<Rightarrow> int \<Rightarrow> stripe_charge \<Rightarrow> string \<Rightarrow> string \<Rightarrow> invoice_payment \<Rightarrow> charge_observation result" where
  "observe_payment c observed ch customer intent p =
     (if \<not> payment_ok (kc_live c) ch intent p then provider_error
      else case ip_Invoice p of
        None \<Rightarrow> provider_error
      | Some bill \<Rightarrow>
          (case invoice_subscription bill of
             None \<Rightarrow> provider_error
           | Some sub \<Rightarrow>
               if \<not> charge_invoice_ok (kc_live c) ch customer bill \<or> \<not> providerID sub ''sub_'' then provider_error
               else andThen (retrieveChargeDisputes c ch) (\<lambda>disputes.
                 Inr \<lparr>co_Disputes = disputes, co_DisputesChecked = True, co_ChargeID = cg_ID ch, co_CustomerID = customer,
                      co_PaymentIntentID = intent, co_InvoiceID = in_ID bill, co_SubscriptionID = sub,
                      co_Currency = cg_Currency ch, co_AmountCaptured = cg_AmountCaptured ch,
                      co_AmountRefunded = cg_AmountRefunded ch, co_Disputed = cg_Disputed ch, co_ObservedAt = observed\<rparr>)))"

definition retrieveChargeObservation :: "stripe_client \<Rightarrow> int \<Rightarrow> string \<Rightarrow> charge_observation result" where
  "retrieveChargeObservation c observed ident =
     (if \<not> providerID ident ''ch_'' then provider_error
      else case api_charge (kc_api c) ident of
        Inl _ \<Rightarrow> provider_error
      | Inr None \<Rightarrow> provider_error
      | Inr (Some ch) \<Rightarrow>
          (case (cg_Customer ch, cg_PaymentIntent ch) of
             (Some customer, Some intent) \<Rightarrow>
               if \<not> charge_ok (kc_live c) ident ch customer intent then provider_error
               else (case api_intent_payments (kc_api c) intent of
                       Inl _ \<Rightarrow> provider_error
                     | Inr (False, [Some p]) \<Rightarrow> observe_payment c observed ch customer intent p
                     | Inr _ \<Rightarrow> provider_error)
           | _ \<Rightarrow> provider_error))"

section \<open>price.go\<close>

record plan_price =
  pp_Plan :: string
  pp_PriceID :: string
  pp_AmountMinor :: int
  pp_Currency :: string
  pp_Interval :: string
  pp_IntervalCount :: int
  pp_TaxBehavior :: string
  pp_ObservedAt :: int

definition currency_option_ok :: "stripe_price \<Rightarrow> string \<times> currency_option option \<Rightarrow> bool" where
  "currency_option_ok p x =
     (case x of
        (_, None) \<Rightarrow> False
      | (currency, Some o') \<Rightarrow>
          \<not> (currency \<noteq> pz_Currency p \<or> cy_Custom o' \<or> cy_Tiers o' \<noteq> 0 \<or> cy_UnitAmount o' \<noteq> pz_UnitAmount p
             \<or> cy_UnitAmountDecimal o' \<noteq> pz_UnitAmountDecimal p \<or> cy_TaxBehavior o' \<noteq> pz_TaxBehavior p))"

definition fixed_price :: "bool \<Rightarrow> string \<Rightarrow> stripe_price \<Rightarrow> bool" where
  "fixed_price live price p \<longleftrightarrow>
     \<not> (pz_ID p \<noteq> price \<or> pz_Object p \<noteq> ''price'' \<or> pz_Deleted p \<or> pz_Livemode p \<noteq> live \<or> \<not> pz_Active p \<or> pz_Type p \<noteq> ''recurring''
        \<or> pz_BillingScheme p \<noteq> ''per_unit'' \<or> pz_CustomUnitAmount p \<or> pz_TransformQuantity p \<or> pz_Tiers p \<noteq> 0 \<or> pz_TiersMode p \<noteq> []
        \<or> pz_UnitAmount p < 0 \<or> pz_UnitAmount p > 99999999 \<or> pz_UnitAmountDecimal p \<noteq> of_int (pz_UnitAmount p))"

definition normalizePlanPriceForMode ::
  "stripe_price option \<Rightarrow> string \<Rightarrow> string \<Rightarrow> int \<Rightarrow> bool \<Rightarrow> plan_price result" where
  "normalizePlanPriceForMode x plan price observed live =
     (case x of
        None \<Rightarrow> provider_error
      | Some p \<Rightarrow>
          (case pz_Recurring p of
             None \<Rightarrow> provider_error
           | Some (usage, meter, interval, count) \<Rightarrow>
               if \<not> fixed_price live price p \<or> usage \<noteq> ''licensed'' \<or> meter \<noteq> []
                  \<or> \<not> list_all (currency_option_ok p) (pz_CurrencyOptions p)
                  \<or> length (pz_Currency p) \<noteq> 3 \<or> \<not> list_all (\<lambda>r. 97 \<le> byte_of r \<and> byte_of r \<le> 122) (pz_Currency p)
                  \<or> interval \<notin> set [''day'', ''week'', ''month'', ''year''] \<or> count < 1
                  \<or> pz_TaxBehavior p \<notin> set [''inclusive'', ''exclusive'', ''unspecified''] then provider_error
               else Inr \<lparr>pp_Plan = plan, pp_PriceID = price, pp_AmountMinor = pz_UnitAmount p, pp_Currency = pz_Currency p,
                         pp_Interval = interval, pp_IntervalCount = count, pp_TaxBehavior = pz_TaxBehavior p,
                         pp_ObservedAt = observed\<rparr>))"

definition retrievePlanPrice :: "stripe_client \<Rightarrow> int \<Rightarrow> string \<Rightarrow> string \<Rightarrow> plan_price result" where
  "retrievePlanPrice c observed plan expected =
     (case kc_plans c plan of
        None \<Rightarrow> provider_error
      | Some price \<Rightarrow>
          if price \<noteq> expected \<or> \<not> providerID price ''price_'' then provider_error
          else (case api_price (kc_api c) price of
                  Inl _ \<Rightarrow> provider_error
                | Inr p \<Rightarrow> normalizePlanPriceForMode p plan price observed (kc_live c)))"

section \<open>checkout.go\<close>

definition unsafe_ref :: "string \<Rightarrow> bool" where
  "unsafe_ref s \<longleftrightarrow> containsAny s ('' /'' @ [CHR 0x5C, CHR 0x0D, CHR 0x0A])"

definition createCheckout :: "stripe_client \<Rightarrow> string \<Rightarrow> string \<Rightarrow> string \<Rightarrow> (string \<times> string) result" where
  "createCheckout c customer plan request =
     (case kc_plans c plan of
        None \<Rightarrow> provider_error
      | Some price \<Rightarrow>
          if \<not> hasPrefix customer ''cus_'' \<or> unsafe_ref customer \<or> length request < 16 \<or> length request > 128
             \<or> containsAny request ('' '' @ [CHR 0x0D, CHR 0x0A]) then provider_error
          else (case api_create_session (kc_api c) customer price request of
                  Inr (Some (live, ident, link)) \<Rightarrow>
                    if live \<noteq> kc_live c \<or> \<not> hasPrefix ident (if kc_live c then ''cs_live_'' else ''cs_test_'')
                       \<or> \<not> https_link (kc_url c) ''checkout.stripe.com'' link then provider_error
                    else Inr (ident, link)
                | _ \<Rightarrow> provider_error))"

definition createPinnedCheckout :: "stripe_client \<Rightarrow> string \<Rightarrow> string \<Rightarrow> string \<Rightarrow> string \<Rightarrow> (string \<times> string) result" where
  "createPinnedCheckout c customer plan price request =
     (if (case kc_plans c plan of None \<Rightarrow> [] | Some p \<Rightarrow> p) \<noteq> price \<or> price = [] then provider_error
      else createCheckout c customer plan request)"

definition createCustomer :: "stripe_client \<Rightarrow> string \<Rightarrow> string \<Rightarrow> string result" where
  "createCustomer c email request =
     (if length email > 254 \<or> CHR ''@'' \<notin> set email \<or> containsAny email [CHR 0x0D, CHR 0x0A] \<or> length request < 16
         \<or> length request > 128 then provider_error
      else case api_create_customer (kc_api c) email request of
        Inr (Some (live, ident)) \<Rightarrow> if live \<noteq> kc_live c \<or> \<not> hasPrefix ident ''cus_'' then provider_error else Inr ident
      | _ \<Rightarrow> provider_error)"

section \<open>webhook.go\<close>

record stripe_event =
  ev_Live :: bool
  ev_ID :: string
  ev_Type :: string
  ev_Created :: int
  ev_SHA256 :: string
  ev_Object :: string

text \<open>
  \<open>webhook.ConstructEvent\<close> of the SDK (id, type, creation time, raw data when there is data), the
  envelope fields of the JSON body (livemode when present, account, ctx), SHA-256 in hexadecimal.
\<close>

record webhook_lib =
  wl_construct :: "string \<Rightarrow> string \<Rightarrow> string \<Rightarrow> (string \<times> string \<times> int \<times> string option) option"
  wl_envelope :: "string \<Rightarrow> (bool option \<times> string \<times> string) option"
  wl_sha256 :: "string \<Rightarrow> string"

fun signature_times :: "string list \<Rightarrow> nat \<Rightarrow> int \<Rightarrow> (nat \<times> int) option" where
  "signature_times [] n t = Some (n, t)"
| "signature_times (part # rest) n t =
     (case cutByte (CHR ''='') (trimSpace part) of
        Some (k, v) \<Rightarrow>
          if k = ''t'' then (case atoi v of None \<Rightarrow> None | Some x \<Rightarrow> signature_times rest (n + 1) x)
          else signature_times rest n t
      | None \<Rightarrow> signature_times rest n t)"

definition signature_time :: "string \<Rightarrow> int option" where
  "signature_time signature =
     (case signature_times (splitByte (CHR '','') signature) 0 0 of
        Some (n, t) \<Rightarrow> if n = 1 then Some t else None
      | None \<Rightarrow> None)"

definition maxWebhookBytes :: nat where
  "maxWebhookBytes = 1048576"

definition verifyEvent :: "webhook_lib \<Rightarrow> int \<Rightarrow> string \<Rightarrow> string \<Rightarrow> string \<Rightarrow> bool \<Rightarrow> stripe_event result" where
  "verifyEvent wl now body signature secret live =
     (if body = [] \<or> length body > maxWebhookBytes \<or> length signature > 8192 \<or> \<not> hasPrefix secret ''whsec_'' \<or> length secret < 16
      then Inl (PortalErr ErrWebhook)
      else case signature_time signature of
        None \<Rightarrow> Inl (PortalErr ErrWebhook)
      | Some t \<Rightarrow>
          if t > now + 300 then Inl (PortalErr ErrWebhook)
          else (case (wl_construct wl body signature secret, wl_envelope wl body) of
                  (Some (ident, kind, created, Some raw), Some (Some mode, account, ctx)) \<Rightarrow>
                    if mode \<noteq> live \<or> account \<noteq> [] \<or> ctx \<noteq> [] \<or> ident = [] \<or> kind = [] \<or> created \<le> 0 \<or> raw = []
                       \<or> \<not> hasPrefix (trimSpace raw) ''{'' then Inl (PortalErr ErrWebhook)
                    else Inr \<lparr>ev_Live = live, ev_ID = ident, ev_Type = kind, ev_Created = created,
                              ev_SHA256 = wl_sha256 wl body, ev_Object = raw\<rparr>
                | _ \<Rightarrow> Inl (PortalErr ErrWebhook)))"

end
