(* ===== verification/Portal_Billing.thy ===== *)
theory Portal_Billing
  imports Billing_Provider
begin

text \<open>
  \<open>internal/portal\<close>, the billing store: \<open>billing_customers.go\<close>, \<open>billing_checkouts.go\<close>,
  \<open>billing_plans.go\<close>, \<open>billing_prices.go\<close>, \<open>billing_events.go\<close>, \<open>billing_checkout_events.go\<close>,
  \<open>billing_subscription_events.go\<close>, \<open>billing_charge_events.go\<close>, \<open>billing_subscriptions.go\<close>,
  \<open>billing_charges.go\<close>, and the plan configuration of \<open>hosting_limits.go\<close>. The tables are those that
  \<open>Portal_Hosting\<close> reads, plus plans, plan limits, the inbox of provider events and the work queue.
  Every row carries the mode (live or test); the keys are those of \<open>billing_modes.go\<close>.
\<close>

section \<open>Tables\<close>

record billing_plan =
  bp_mode :: string
  bp_id :: string
  bp_price :: string
  bp_enabled :: bool
  bp_snapshot :: "plan_price column"
  bp_observed :: int
  bp_next_refresh :: int
  bp_generation :: int

record plan_limit_row =
  pl_mode :: string
  pl_plan :: string
  pl_limits :: plan_limits

record billing_event =
  be_mode :: string
  be_id :: string
  be_type :: string
  be_created :: int
  be_fingerprint :: string
  be_payload :: string
  be_state :: string
  be_received :: int

record billing_job =
  bw_mode :: string
  bw_kind :: string
  bw_reference :: string
  bw_next :: int
  bw_attempts :: nat
  bw_lease :: string
  bw_until :: int
  bw_done :: bool

record billing_db = hosting_db +
  billing_plans :: "billing_plan list"
  hosting_plan_limits :: "plan_limit_row list"
  billing_events :: "billing_event list"
  billing_work :: "billing_job list"

definition sub_key :: "billing_subscription \<Rightarrow> string \<times> string" where
  "sub_key s = (bs_mode s, bs_id s)"

definition co_key :: "billing_checkout \<Rightarrow> string \<times> string" where
  "co_key c = (bc_mode c, bc_id c)"

definition cu_key :: "billing_customer \<Rightarrow> string \<times> string" where
  "cu_key c = (cu_mode c, cu_workspace c)"

definition req_key :: "billing_customer \<Rightarrow> string \<times> string" where
  "req_key c = (cu_mode c, cu_request c)"

definition ch_key :: "billing_charge \<Rightarrow> string \<times> string" where
  "ch_key c = (ch_mode c, ch_id c)"

definition bp_key :: "billing_plan \<Rightarrow> string \<times> string" where
  "bp_key p = (bp_mode p, bp_id p)"

definition pl_key :: "plan_limit_row \<Rightarrow> string \<times> string" where
  "pl_key p = (pl_mode p, pl_plan p)"

definition be_key :: "billing_event \<Rightarrow> string \<times> string" where
  "be_key e = (be_mode e, be_id e)"

definition bw_key :: "billing_job \<Rightarrow> string \<times> string \<times> string" where
  "bw_key w = (bw_mode w, bw_kind w, bw_reference w)"

lemmas billing_keys = sub_key_def co_key_def cu_key_def req_key_def ch_key_def bp_key_def pl_key_def be_key_def bw_key_def

section \<open>What the calls get from outside\<close>

text \<open>
  The provider behind a call: the mode it declares, if it declares one, and its answers. A reader
  of subscriptions may also find the charge of an invoice; a worker's provider may also read
  charges. \<open>Billing_Provider\<close> gives the real ones.
\<close>

record provider =
  pv_mode :: "string option"
  pv_subscription :: "string \<Rightarrow> string \<Rightarrow> string \<Rightarrow> subscription_snapshot result"
  pv_invoice_charge :: "(string \<Rightarrow> string \<Rightarrow> string \<Rightarrow> string result) option"
  pv_charge :: "(string \<Rightarrow> charge_observation result) option"
  pv_price :: "string \<Rightarrow> string \<Rightarrow> plan_price result"
  pv_customer :: "string \<Rightarrow> string \<Rightarrow> string result"
  pv_checkout :: "string \<Rightarrow> string \<Rightarrow> string \<Rightarrow> string \<Rightarrow> (string \<times> string) result"

text \<open>
  Decoding: the canonical form of an event's object, the fingerprint (SHA-256 of type, time and
  canonical object), the livemode and object fields of a payload, and the SDK's structs in it.
\<close>

record checkout_session =
  cs_ID :: string
  cs_Mode :: string
  cs_Customer :: "string option"
  cs_ClientReferenceID :: string
  cs_Status :: string
  cs_Subscription :: "string option"

record event_lib =
  el_webhook :: webhook_lib
  el_canonical :: "string \<Rightarrow> string option"
  el_fingerprint :: "string \<Rightarrow> int \<Rightarrow> string \<Rightarrow> string"
  el_scope :: "string \<Rightarrow> (bool option \<times> string) option"
  el_session :: "string \<Rightarrow> checkout_session option"
  el_subscription :: "string \<Rightarrow> stripe_subscription option"
  el_invoice :: "string \<Rightarrow> stripe_invoice option"
  el_charge :: "string \<Rightarrow> string option"
  el_dispute :: "string \<Rightarrow> string option option"
  el_url :: "string \<Rightarrow> parsed_url option"

definition validateBillingProviderMode :: "store_config \<Rightarrow> provider option \<Rightarrow> unit result" where
  "validateBillingProviderMode cfg p =
     (case p of
        None \<Rightarrow> Inl Portal_ErrInvalid
      | Some pv \<Rightarrow>
          (case pv_mode pv of
             None \<Rightarrow> if billingModeValue cfg = ''test'' then Inr () else Inl ErrBillingConflict
           | Some m \<Rightarrow> if m \<noteq> billingModeValue cfg then Inl ErrBillingConflict else Inr ()))"

text \<open>The shape the store demands of a provider's identifier.\<close>

definition provider_ref :: "string \<Rightarrow> string \<Rightarrow> bool" where
  "provider_ref prefix s \<longleftrightarrow> \<not> (\<not> hasPrefix s prefix \<or> length s > 255 \<or> length s \<le> length prefix \<or> unsafe_ref s)"

section \<open>Plans\<close>

text \<open>\<open>ConfigureBillingPlan\<close>: the upsert resets the price evidence when the row changes.\<close>

definition configure_plan_tx ::
  "store_config \<Rightarrow> string \<Rightarrow> string \<Rightarrow> bool \<Rightarrow> 'x billing_db_scheme \<Rightarrow> (unit \<times> 'x billing_db_scheme) result" where
  "configure_plan_tx cfg plan price enabled db =
     (let mode = billingModeValue cfg in
      andThen (guard Portal_ErrInvalid (\<not> (plan = [] \<or> length plan > 100) \<and> provider_ref ''price_'' price)) (\<lambda>_.
      Inr ((), case get_row bp_key (mode, plan) (billing_plans db) of
         None \<Rightarrow> db\<lparr>billing_plans := billing_plans db @
                     [\<lparr>bp_mode = mode, bp_id = plan, bp_price = price, bp_enabled = enabled, bp_snapshot = Null,
                       bp_observed = 0, bp_next_refresh = 0, bp_generation = 0\<rparr>]\<rparr>
       | Some p \<Rightarrow>
           if bp_price p \<noteq> price \<or> bp_enabled p \<noteq> enabled
           then db\<lparr>billing_plans := upd_row bp_key (mode, plan)
                     (\<lambda>p. p\<lparr>bp_price := price, bp_enabled := enabled, bp_snapshot := Null, bp_observed := 0,
                            bp_next_refresh := 0, bp_generation := bp_generation p + 1\<rparr>) (billing_plans db)\<rparr>
           else db)))"

definition configure_limits_tx ::
  "store_config \<Rightarrow> call \<Rightarrow> string \<Rightarrow> plan_limits \<Rightarrow> 'x billing_db_scheme \<Rightarrow> (unit \<times> 'x billing_db_scheme) result" where
  "configure_limits_tx cfg c plan l db =
     (let mode = billingModeValue cfg in
      andThen (guard Portal_ErrInvalid (plan \<noteq> [] \<and> limits_in_range l)) (\<lambda>_.
      andThen (some_or ErrDenied (get_row bp_key (mode, plan) (billing_plans db))) (\<lambda>_.
      let rows = (case get_row pl_key (mode, plan) (hosting_plan_limits db) of
                    None \<Rightarrow> hosting_plan_limits db @ [\<lparr>pl_mode = mode, pl_plan = plan, pl_limits = l\<rparr>]
                  | Some _ \<Rightarrow> upd_row pl_key (mode, plan) (\<lambda>r. r\<lparr>pl_limits := l\<rparr>) (hosting_plan_limits db))
      in andThen (audit (cl_token c 0) ''operator'' [] (''hosting.plan-limits.configured:'' @ plan) (cl_now c 0)
                    (db\<lparr>hosting_plan_limits := rows\<rparr>)) (\<lambda>db1. Inr ((), db1)))))"

definition savedHostingLimits :: "store_config \<Rightarrow> string \<Rightarrow> 'x billing_db_scheme \<Rightarrow> plan_limits option" where
  "savedHostingLimits cfg plan db =
     map_option pl_limits (get_row pl_key (billingModeValue cfg, plan) (hosting_plan_limits db))"

definition enabled_plans :: "store_config \<Rightarrow> 'x billing_db_scheme \<Rightarrow> billing_plan list" where
  "enabled_plans cfg db =
     sort_key bp_id (filter (\<lambda>p. bp_mode p = billingModeValue cfg \<and> bp_enabled p) (billing_plans db))"

definition availableBillingPlans ::
  "portal_lib \<Rightarrow> store_config \<Rightarrow> call \<Rightarrow> string \<Rightarrow> string \<Rightarrow> 'x billing_db_scheme \<Rightarrow> string list result" where
  "availableBillingPlans lib cfg c token workspace db =
     (case cl_drv c of
        Some e \<Rightarrow> Inl e
      | None \<Rightarrow> andThen (authorizeOwner lib (cl_now c 0) token workspace db) (\<lambda>_. Inr (map bp_id (enabled_plans cfg db))))"

section \<open>Customers\<close>

definition request_customer_tx ::
  "portal_lib \<Rightarrow> store_config \<Rightarrow> call \<Rightarrow> string \<Rightarrow> string \<Rightarrow> 'x billing_db_scheme
    \<Rightarrow> (billing_customer \<times> 'x billing_db_scheme) result" where
  "request_customer_tx lib cfg c token workspace db =
     (let mode = billingModeValue cfg in
      andThen (authorizeOwner lib (cl_now c 0) token workspace db) (\<lambda>actor.
      case get_row cu_key (mode, workspace) (billing_customers db) of
        Some cu \<Rightarrow> Inr (cu, db)
      | None \<Rightarrow>
          andThen (some_or ErrNoRows (get_row u_id actor (users db))) (\<lambda>u.
          let cu = \<lparr>cu_mode = mode, cu_workspace = workspace, cu_request = cl_token c 0, cu_actor = actor,
                    cu_email = u_email u, cu_customer = None, cu_created = cl_now c 1\<rparr>
          in andThen (insert_row cu_key cu (billing_customers db)) (\<lambda>_.
             andThen (insert_row req_key cu (billing_customers db)) (\<lambda>rows.
             andThen (audit (cl_token c 1) actor workspace (''billing.customer_requested:'' @ cu_request cu) (cu_created cu)
                        (db\<lparr>billing_customers := rows\<rparr>)) (\<lambda>db1.
             Inr (cu, db1)))))))"

definition billingCustomer ::
  "portal_lib \<Rightarrow> store_config \<Rightarrow> call \<Rightarrow> string \<Rightarrow> string \<Rightarrow> 'x billing_db_scheme \<Rightarrow> billing_customer result" where
  "billingCustomer lib cfg c token workspace db =
     (case cl_drv c of
        Some e \<Rightarrow> Inl e
      | None \<Rightarrow>
          andThen (authorizeOwner lib (cl_now c 0) token workspace db) (\<lambda>_.
          some_or ErrDenied (get_row cu_key (billingModeValue cfg, workspace) (billing_customers db))))"

text \<open>
  An unbound customer is worked on while its actor is an active owner and the request is younger
  than the provider keeps idempotency keys. The two queries run outside a transaction:
  \<open>db2\<close> is the database at the second.
\<close>

definition owner_rows :: "string \<Rightarrow> string \<Rightarrow> 'x accounts_db_scheme \<Rightarrow> membership list" where
  "owner_rows actor workspace db =
     filter (\<lambda>m. mb_user m = actor \<and> mb_workspace m = workspace \<and> mb_role m = ''owner''
                 \<and> list_ex (\<lambda>u. u_id u = actor \<and> active_user u) (users db)) (memberships db)"

definition billingCustomerWork ::
  "store_config \<Rightarrow> call \<Rightarrow> string \<Rightarrow> 'x billing_db_scheme \<Rightarrow> 'x billing_db_scheme \<Rightarrow> billing_customer result" where
  "billingCustomerWork cfg c request db db2 =
     (case cl_drv c of
        Some e \<Rightarrow> Inl e
      | None \<Rightarrow>
          andThen (some_or ErrDenied (get_row req_key (billingModeValue cfg, request) (billing_customers db))) (\<lambda>cu.
          if cu_customer cu \<noteq> None then Inr cu
          else andThen (guard ErrDenied (length (owner_rows (cu_actor cu) (cu_workspace cu) db2) = 1)) (\<lambda>_.
               andThen (guard ErrBillingConflict (\<not> cl_now c 0 - cu_created cu \<ge> 82800)) (\<lambda>_. Inr cu))))"

definition bind_customer_tx ::
  "store_config \<Rightarrow> call \<Rightarrow> string \<Rightarrow> string \<Rightarrow> 'x billing_db_scheme \<Rightarrow> (unit \<times> 'x billing_db_scheme) result" where
  "bind_customer_tx cfg c request customer db =
     (let mode = billingModeValue cfg in
      andThen (some_or ErrDenied (get_row req_key (mode, request) (billing_customers db))) (\<lambda>cu.
      case cu_customer cu of
        Some bound \<Rightarrow> andThen (guard ErrBillingConflict (bound = customer)) (\<lambda>_. Inr ((), db))
      | None \<Rightarrow>
          andThen (guard ErrBillingConflict
                     (filter (\<lambda>q. cu_mode q = mode \<and> cu_customer q = Some customer) (billing_customers db) = [])) (\<lambda>_.
          andThen (audit (cl_token c 0) (cu_actor cu) (cu_workspace cu) (''billing.customer_bound:'' @ request) (cl_now c 0)
                     (db\<lparr>billing_customers := upd_row req_key (mode, request) (\<lambda>q. q\<lparr>cu_customer := Some customer\<rparr>)
                           (billing_customers db)\<rparr>)) (\<lambda>db1.
          Inr ((), db1)))))"

definition bindBillingCustomer ::
  "store_config \<Rightarrow> call \<Rightarrow> string \<Rightarrow> string \<Rightarrow> 'x billing_db_scheme \<Rightarrow> unit result \<times> 'x billing_db_scheme" where
  "bindBillingCustomer cfg c request customer db =
     (if \<not> provider_ref ''cus_'' customer then (Inl Portal_ErrInvalid, db)
      else in_tx (cl_drv c) (bind_customer_tx cfg c request customer) db)"

section \<open>Checkouts\<close>

text \<open>\<open>scanCheckout\<close> fails when the saved limits do not decode.\<close>

definition scanCheckout :: "billing_checkout \<Rightarrow> billing_checkout result" where
  "scanCheckout co = andThen (decodeHostingLimits (bc_limits co)) (\<lambda>_. Inr co)"

definition live_state :: "string \<Rightarrow> bool" where
  "live_state s \<longleftrightarrow> s = ''pending'' \<or> s = ''open'' \<or> s = ''completed''"

definition live_checkout :: "string \<Rightarrow> string \<Rightarrow> 'x billing_db_scheme \<Rightarrow> billing_checkout option" where
  "live_checkout mode workspace db =
     List.find (\<lambda>co. bc_mode co = mode \<and> bc_workspace co = workspace \<and> live_state (bc_state co)) (billing_checkouts db)"

definition new_checkout ::
  "store_config \<Rightarrow> call \<Rightarrow> string \<Rightarrow> string \<Rightarrow> string \<Rightarrow> 'x billing_db_scheme \<Rightarrow> billing_checkout result" where
  "new_checkout cfg c actor workspace plan db =
     (let mode = billingModeValue cfg in
      andThen (some_or Portal_ErrInvalid
                 (List.find (\<lambda>p. bp_mode p = mode \<and> bp_id p = plan \<and> bp_enabled p) (billing_plans db))) (\<lambda>p.
      andThen (some_or ErrBillingConflict
                 (List.find (\<lambda>cu. cu_mode cu = mode \<and> cu_workspace cu = workspace \<and> cu_customer cu \<noteq> None)
                    (billing_customers db))) (\<lambda>cu.
      Inr \<lparr>bc_mode = mode, bc_id = cl_token c 0, bc_workspace = workspace, bc_actor = actor,
           bc_customer = (case cu_customer cu of Some x \<Rightarrow> x | None \<Rightarrow> []), bc_plan = plan, bc_price = bp_price p,
           bc_session = None, bc_url = [], bc_state = ''pending'', bc_created = cl_now c 1,
           bc_limits = (case savedHostingLimits cfg plan db of None \<Rightarrow> Null | Some l \<Rightarrow> Json l)\<rparr>)))"

definition request_checkout_tx ::
  "portal_lib \<Rightarrow> store_config \<Rightarrow> call \<Rightarrow> string \<Rightarrow> string \<Rightarrow> string \<Rightarrow> 'x billing_db_scheme
    \<Rightarrow> (billing_checkout \<times> 'x billing_db_scheme) result" where
  "request_checkout_tx lib cfg c token workspace plan db =
     andThen (authorizeOwner lib (cl_now c 0) token workspace db) (\<lambda>actor.
     case live_checkout (billingModeValue cfg) workspace db of
       Some existing \<Rightarrow>
         andThen (scanCheckout existing) (\<lambda>co.
         andThen (guard ErrBillingConflict (bc_plan co = plan)) (\<lambda>_. Inr (co, db)))
     | None \<Rightarrow>
         andThen (new_checkout cfg c actor workspace plan db) (\<lambda>co.
         andThen (insert_row co_key co (billing_checkouts db)) (\<lambda>rows.
         andThen (audit (cl_token c 1) actor workspace (''billing.checkout_requested:'' @ bc_id co) (bc_created co)
                    (db\<lparr>billing_checkouts := rows\<rparr>)) (\<lambda>db1.
         Inr (co, db1)))))"

definition billingCheckout ::
  "portal_lib \<Rightarrow> store_config \<Rightarrow> call \<Rightarrow> string \<Rightarrow> string \<Rightarrow> string \<Rightarrow> 'x billing_db_scheme \<Rightarrow> billing_checkout result" where
  "billingCheckout lib cfg c token workspace ident db =
     (case cl_drv c of
        Some e \<Rightarrow> Inl e
      | None \<Rightarrow>
          andThen (authorizeOwner lib (cl_now c 0) token workspace db) (\<lambda>_.
          andThen (some_or ErrDenied (List.find (\<lambda>co. bc_mode co = billingModeValue cfg \<and> bc_workspace co = workspace
                                                      \<and> bc_id co = ident) (billing_checkouts db))) scanCheckout))"

definition billingCheckoutWork ::
  "store_config \<Rightarrow> call \<Rightarrow> string \<Rightarrow> 'x billing_db_scheme \<Rightarrow> billing_checkout result" where
  "billingCheckoutWork cfg c ident db =
     (let mode = billingModeValue cfg in
      case cl_drv c of
        Some e \<Rightarrow> Inl e
      | None \<Rightarrow>
          andThen (some_or ErrDenied (get_row co_key (mode, ident) (billing_checkouts db))) (\<lambda>row.
          andThen (scanCheckout row) (\<lambda>co.
          if bc_state co \<noteq> ''pending'' then Inr co
          else andThen (guard ErrDenied
                 (length (owner_rows (bc_actor co) (bc_workspace co) db) = 1
                  \<and> list_ex (\<lambda>p. bp_key p = (mode, bc_plan co) \<and> bp_enabled p \<and> bp_price p = bc_price co) (billing_plans db))) (\<lambda>_.
               andThen (guard ErrBillingConflict (\<not> cl_now c 0 - bc_created co \<ge> 82800)) (\<lambda>_. Inr co)))))"

definition bind_checkout_tx ::
  "store_config \<Rightarrow> call \<Rightarrow> string \<Rightarrow> string \<Rightarrow> string \<Rightarrow> 'x billing_db_scheme \<Rightarrow> (unit \<times> 'x billing_db_scheme) result" where
  "bind_checkout_tx cfg c ident session link db =
     (let mode = billingModeValue cfg in
      andThen (some_or ErrDenied (get_row co_key (mode, ident) (billing_checkouts db))) (\<lambda>row.
      andThen (scanCheckout row) (\<lambda>co.
      case bc_session co of
        Some s \<Rightarrow> andThen (guard ErrBillingConflict (s = session \<and> bc_url co = link)) (\<lambda>_. Inr ((), db))
      | None \<Rightarrow>
          andThen (guard ErrBillingConflict (bc_state co = ''pending'')) (\<lambda>_.
          andThen (guard ErrBillingConflict
                     (filter (\<lambda>q. bc_mode q = mode \<and> bc_session q = Some session) (billing_checkouts db) = [])) (\<lambda>_.
          andThen (audit (cl_token c 0) (bc_actor co) (bc_workspace co) (''billing.checkout_opened:'' @ ident) (cl_now c 0)
                     (db\<lparr>billing_checkouts := upd_row co_key (mode, ident)
                           (\<lambda>q. q\<lparr>bc_session := Some session, bc_url := link, bc_state := ''open''\<rparr>) (billing_checkouts db)\<rparr>)) (\<lambda>db1.
          Inr ((), db1)))))))"

definition bindBillingCheckout ::
  "event_lib \<Rightarrow> store_config \<Rightarrow> call \<Rightarrow> string \<Rightarrow> string \<Rightarrow> string \<Rightarrow> 'x billing_db_scheme
    \<Rightarrow> unit result \<times> 'x billing_db_scheme" where
  "bindBillingCheckout el cfg c ident session link db =
     (if \<not> https_link (el_url el) ''checkout.stripe.com'' link \<or> length link > 8192
         \<or> \<not> hasPrefix session (''cs_'' @ billingModeValue cfg @ ''_'') \<or> length session > 255 \<or> length session \<le> 8
      then (Inl Portal_ErrInvalid, db)
      else in_tx (cl_drv c) (bind_checkout_tx cfg c ident session link) db)"

section \<open>The inbox of provider events\<close>

definition billingInboxBytes :: int where
  "billingInboxBytes = 104857600"

definition billingInboxEvents :: int where
  "billingInboxEvents = 10000"

definition inbox_bytes :: "string \<Rightarrow> billing_event list \<Rightarrow> int" where
  "inbox_bytes mode es = sum_list (map (\<lambda>e. int (length (be_payload e))) (filter (\<lambda>e. be_mode e = mode) es))"

definition inbox_count :: "string \<Rightarrow> billing_event list \<Rightarrow> int" where
  "inbox_count mode es = int (length (filter (\<lambda>e. be_mode e = mode) es))"

text \<open>The transaction of \<open>AcceptBillingWebhook\<close>; the result says whether the event is a duplicate.\<close>

definition accept_event_tx ::
  "event_lib \<Rightarrow> store_config \<Rightarrow> call \<Rightarrow> stripe_event \<Rightarrow> string \<Rightarrow> 'x billing_db_scheme
    \<Rightarrow> ((string \<times> bool) \<times> 'x billing_db_scheme) result" where
  "accept_event_tx el cfg c ev payload db =
     (let mode = billingModeValue cfg;
          fingerprint = el_fingerprint el (ev_Type ev) (ev_Created ev) payload
      in case get_row be_key (mode, ev_ID ev) (billing_events db) of
           Some e \<Rightarrow> andThen (guard ErrBillingConflict (be_fingerprint e = fingerprint)) (\<lambda>_. Inr ((ev_ID ev, True), db))
         | None \<Rightarrow>
             andThen (guard (PortalErr ErrBillingCapacity)
                        (\<not> (inbox_count mode (billing_events db) \<ge> billingInboxEvents
                            \<or> inbox_bytes mode (billing_events db) + int (length payload) > billingInboxBytes))) (\<lambda>_.
             andThen (insert_row be_key
                        \<lparr>be_mode = mode, be_id = ev_ID ev, be_type = ev_Type ev, be_created = ev_Created ev,
                         be_fingerprint = fingerprint, be_payload = payload, be_state = ''pending'', be_received = cl_now c 0\<rparr>
                        (billing_events db)) (\<lambda>rows.
             Inr ((ev_ID ev, False), db\<lparr>billing_events := rows\<rparr>))))"

definition acceptBillingWebhook ::
  "event_lib \<Rightarrow> store_config \<Rightarrow> call \<Rightarrow> int \<Rightarrow> string \<Rightarrow> string \<Rightarrow> string \<Rightarrow> 'x billing_db_scheme
    \<Rightarrow> (string \<times> bool) result \<times> 'x billing_db_scheme" where
  "acceptBillingWebhook el cfg c now body signature secret db =
     (case verifyEvent (el_webhook el) now body signature secret (billingModeValue cfg = ''live'') of
        Inl e \<Rightarrow> (Inl e, db)
      | Inr ev \<Rightarrow>
          if length (ev_ID ev) > 255 \<or> length (ev_Type ev) > 255 then (Inl (PortalErr ErrWebhook), db)
          else (case el_canonical el (ev_Object ev) of
                  None \<Rightarrow> (Inl (PortalErr ErrWebhook), db)
                | Some payload \<Rightarrow> in_tx (cl_drv c) (accept_event_tx el cfg c ev payload) db))"

definition set_event_state :: "string \<Rightarrow> string \<Rightarrow> string \<Rightarrow> billing_event list \<Rightarrow> billing_event list" where
  "set_event_state mode ident state = upd_row be_key (mode, ident) (\<lambda>e. e\<lparr>be_state := state\<rparr>)"

text \<open>Whether the payload declares the selected mode and the expected object.\<close>

definition in_scope :: "event_lib \<Rightarrow> string \<Rightarrow> string \<Rightarrow> string \<Rightarrow> bool" where
  "in_scope el mode object payload =
     (case el_scope el payload of
        Some (Some live, kind) \<Rightarrow> live = (mode = ''live'') \<and> kind = object
      | _ \<Rightarrow> False)"

section \<open>Checkout events\<close>

definition decode_session :: "event_lib \<Rightarrow> string \<Rightarrow> string \<Rightarrow> checkout_session result" where
  "decode_session el mode payload =
     (case el_session el payload of
        None \<Rightarrow> Inl ErrBillingConflict
      | Some cs \<Rightarrow>
          if \<not> in_scope el mode ''checkout.session'' payload \<or> cs_Mode cs \<noteq> ''subscription'' \<or> cs_Customer cs = None
             \<or> \<not> provider_ref (if mode = ''live'' then ''cs_live_'' else ''cs_test_'') (cs_ID cs)
          then Inl ErrBillingConflict else Inr cs)"

text \<open>Binding the subscription of a completed session to its checkout.\<close>

definition bind_subscription ::
  "string \<Rightarrow> string \<Rightarrow> billing_checkout \<Rightarrow> string \<Rightarrow> 'x billing_db_scheme \<Rightarrow> 'x billing_db_scheme result" where
  "bind_subscription mode event co sub db =
     (case List.find (\<lambda>s. bs_mode s = mode \<and> (bs_id s = sub \<or> bs_checkout s = bc_id co)) (billing_subscriptions db) of
        Some s \<Rightarrow> andThen (guard ErrBillingConflict (bs_id s = sub \<and> bs_checkout s = bc_id co)) (\<lambda>_. Inr db)
      | None \<Rightarrow>
          andThen (insert_row sub_key
                     \<lparr>bs_mode = mode, bs_id = sub, bs_checkout = bc_id co, bs_workspace = bc_workspace co,
                      bs_customer = bc_customer co, bs_plan = bc_plan co, bs_price = bc_price co,
                      bs_state = ''awaiting_reconciliation'', bs_first_event = event, bs_generation = 0, bs_snapshot = Null\<rparr>
                     (billing_subscriptions db)) (\<lambda>rows.
          Inr (db\<lparr>billing_subscriptions := rows\<rparr>)))"

definition complete_checkout ::
  "string \<Rightarrow> string \<Rightarrow> checkout_session \<Rightarrow> billing_checkout \<Rightarrow> 'x billing_db_scheme \<Rightarrow> 'x billing_db_scheme result" where
  "complete_checkout mode event cs co db =
     (case cs_Subscription cs of
        None \<Rightarrow> Inl ErrBillingConflict
      | Some sub \<Rightarrow>
          andThen (guard ErrBillingConflict (cs_Status cs = ''complete'' \<and> provider_ref ''sub_'' sub)) (\<lambda>_.
          andThen (guard ErrBillingConflict (bc_state co = ''open'' \<or> bc_state co = ''completed'')) (\<lambda>_.
          bind_subscription mode event co sub db)))"

definition settle_checkout ::
  "store_config \<Rightarrow> call \<Rightarrow> string \<Rightarrow> billing_checkout \<Rightarrow> string \<Rightarrow> 'x billing_db_scheme \<Rightarrow> (bool \<times> 'x billing_db_scheme) result" where
  "settle_checkout cfg c event co target db =
     (let mode = billingModeValue cfg in
      andThen (audit (cl_token c 0) (''stripe-'' @ mode) (bc_workspace co)
                 (''billing.checkout_'' @ target @ '':'' @ bc_id co @ '':event:'' @ event) (cl_now c 0)
                 (db\<lparr>billing_checkouts := upd_row co_key (mode, bc_id co) (\<lambda>q. q\<lparr>bc_state := target\<rparr>) (billing_checkouts db),
                     billing_events := set_event_state mode event ''processed'' (billing_events db)\<rparr>)) (\<lambda>db1.
      Inr (True, db1)))"

definition apply_session ::
  "store_config \<Rightarrow> call \<Rightarrow> string \<Rightarrow> string \<Rightarrow> checkout_session \<Rightarrow> billing_checkout \<Rightarrow> 'x billing_db_scheme
    \<Rightarrow> (bool \<times> 'x billing_db_scheme) result" where
  "apply_session cfg c event kind cs co db =
     (let mode = billingModeValue cfg in
      if kind = ''checkout.session.expired'' then
        andThen (guard ErrBillingConflict (cs_Status cs = ''expired'')) (\<lambda>_.
        if bc_state co = ''completed'' then
          Inr (True, db\<lparr>billing_events := set_event_state mode event ''ignored'' (billing_events db)\<rparr>)
        else
          andThen (guard ErrBillingConflict (bc_state co = ''open'' \<or> bc_state co = ''expired'')) (\<lambda>_.
          settle_checkout cfg c event co ''expired'' db))
      else
        andThen (complete_checkout mode event cs co db) (\<lambda>db1.
        settle_checkout cfg c event co ''completed'' db1))"

definition checkout_event_tx ::
  "event_lib \<Rightarrow> store_config \<Rightarrow> call \<Rightarrow> string \<Rightarrow> 'x billing_db_scheme \<Rightarrow> (bool \<times> 'x billing_db_scheme) result" where
  "checkout_event_tx el cfg c event db =
     (let mode = billingModeValue cfg in
      andThen (some_or ErrDenied (get_row be_key (mode, event) (billing_events db))) (\<lambda>e.
      if be_state e \<noteq> ''pending'' then Inr (True, db)
      else if be_type e \<noteq> ''checkout.session.completed'' \<and> be_type e \<noteq> ''checkout.session.expired'' then Inr (False, db)
      else
        andThen (decode_session el mode (be_payload e)) (\<lambda>cs.
        andThen (some_or (PortalErr ErrBillingUnmatched)
                   (List.find (\<lambda>co. bc_mode co = mode \<and> bc_session co = Some (cs_ID cs)) (billing_checkouts db))) (\<lambda>row.
        andThen (scanCheckout row) (\<lambda>co.
        andThen (guard ErrBillingConflict (cs_Customer cs = Some (bc_customer co) \<and> cs_ClientReferenceID cs = bc_id co)) (\<lambda>_.
        apply_session cfg c event (be_type e) cs co db))))))"

section \<open>Subscription and charge events\<close>

definition subscription_kinds :: "string list" where
  "subscription_kinds = [''customer.subscription.created'', ''customer.subscription.updated'', ''customer.subscription.deleted'']"

definition invoice_kinds :: "string list" where
  "invoice_kinds = [''invoice.paid'', ''invoice.payment_failed'', ''invoice.payment_action_required'', ''invoice.voided'',
     ''invoice.marked_uncollectible'', ''invoice.finalized'']"

definition charge_kinds :: "string list" where
  "charge_kinds = [''charge.succeeded'', ''charge.refunded'']"

definition dispute_kinds :: "string list" where
  "dispute_kinds = [''charge.dispute.created'', ''charge.dispute.updated'', ''charge.dispute.closed'',
     ''charge.dispute.funds_withdrawn'', ''charge.dispute.funds_reinstated'']"

text \<open>The subscription and customer a refresh signal is about; \<open>Inr None\<close> for other kinds of event.\<close>

definition billingRefreshIdentity :: "event_lib \<Rightarrow> string \<Rightarrow> string \<Rightarrow> string \<Rightarrow> (string \<times> string) option result" where
  "billingRefreshIdentity el kind payload mode =
     (if kind \<in> set subscription_kinds then
        (case el_subscription el payload of
           None \<Rightarrow> Inl ErrBillingConflict
         | Some s \<Rightarrow>
             (case sb_Customer s of
                None \<Rightarrow> Inl ErrBillingConflict
              | Some customer \<Rightarrow>
                  if \<not> in_scope el mode ''subscription'' payload \<or> sb_CustomerAccount s \<noteq> [] then Inl ErrBillingConflict
                  else Inr (Some (sb_ID s, customer))))
      else if kind \<in> set invoice_kinds then
        (case el_invoice el payload of
           None \<Rightarrow> Inl ErrBillingConflict
         | Some i \<Rightarrow>
             (case (in_Customer i, invoice_subscription i) of
                (Some customer, Some sub) \<Rightarrow>
                  if \<not> in_scope el mode ''invoice'' payload \<or> in_CustomerAccount i \<noteq> [] then Inl ErrBillingConflict
                  else Inr (Some (sub, customer))
              | _ \<Rightarrow> Inl ErrBillingConflict))
      else Inr None)"

text \<open>
  The effect of a refresh signal: the observation is dropped, reads in flight are fenced off by the
  generation, and the work item of the subscription is due at once.
\<close>

definition fence_subscription :: "string \<Rightarrow> string \<Rightarrow> billing_subscription list \<Rightarrow> billing_subscription list" where
  "fence_subscription mode sub =
     upd_row sub_key (mode, sub) (\<lambda>s. s\<lparr>bs_generation := bs_generation s + 1, bs_snapshot := Null\<rparr>)"

definition new_work :: "string \<Rightarrow> string \<Rightarrow> string \<Rightarrow> billing_job" where
  "new_work mode kind reference =
     \<lparr>bw_mode = mode, bw_kind = kind, bw_reference = reference, bw_next = 0, bw_attempts = 0, bw_lease = [], bw_until = 0,
      bw_done = False\<rparr>"

definition wake_work :: "string \<Rightarrow> string \<Rightarrow> billing_job list \<Rightarrow> billing_job list" where
  "wake_work mode sub ws =
     (case get_row bw_key (mode, ''subscription'', sub) ws of
        None \<Rightarrow> ws @ [new_work mode ''subscription'' sub]
      | Some _ \<Rightarrow> upd_row bw_key (mode, ''subscription'', sub)
                    (\<lambda>w. w\<lparr>bw_next := 0, bw_attempts := 0, bw_done := False, bw_lease := [], bw_until := 0\<rparr>) ws)"

definition refresh_signal :: "string \<Rightarrow> string \<Rightarrow> string \<Rightarrow> 'x billing_db_scheme \<Rightarrow> 'x billing_db_scheme" where
  "refresh_signal mode sub event db =
     db\<lparr>billing_subscriptions := fence_subscription mode sub (billing_subscriptions db),
        billing_work := wake_work mode sub (billing_work db),
        billing_events := set_event_state mode event ''processed'' (billing_events db)\<rparr>"

definition subscription_event_tx ::
  "event_lib \<Rightarrow> store_config \<Rightarrow> call \<Rightarrow> string \<Rightarrow> 'x billing_db_scheme \<Rightarrow> (bool \<times> 'x billing_db_scheme) result" where
  "subscription_event_tx el cfg c event db =
     (let mode = billingModeValue cfg in
      andThen (some_or ErrDenied (get_row be_key (mode, event) (billing_events db))) (\<lambda>e.
      if be_state e \<noteq> ''pending'' then Inr (True, db)
      else
        andThen (billingRefreshIdentity el (be_type e) (be_payload e) mode) (\<lambda>r.
        case r of
          None \<Rightarrow> Inr (False, db)
        | Some (sub, customer) \<Rightarrow>
            andThen (some_or (PortalErr ErrBillingUnmatched) (get_row sub_key (mode, sub) (billing_subscriptions db))) (\<lambda>s.
            andThen (guard ErrBillingConflict (bs_customer s = customer)) (\<lambda>_.
            andThen (audit (cl_token c 0) (''stripe-'' @ mode) (bs_workspace s)
                       (''billing.subscription_refresh:'' @ sub @ '':event:'' @ event) (cl_now c 0)
                       (refresh_signal mode sub event db)) (\<lambda>db1.
            Inr (True, db1)))))))"

text \<open>The charge of an event, if it is one about charges.\<close>

definition event_charge :: "event_lib \<Rightarrow> string \<Rightarrow> billing_event \<Rightarrow> string option result" where
  "event_charge el mode e =
     (if be_type e \<in> set charge_kinds then
        (case el_charge el (be_payload e) of
           None \<Rightarrow> Inl ErrBillingConflict
         | Some ch \<Rightarrow> if \<not> in_scope el mode ''charge'' (be_payload e) then Inl ErrBillingConflict else Inr (Some ch))
      else if be_type e \<in> set dispute_kinds then
        (case el_dispute el (be_payload e) of
           Some (Some ch) \<Rightarrow> if \<not> in_scope el mode ''dispute'' (be_payload e) then Inl ErrBillingConflict else Inr (Some ch)
         | _ \<Rightarrow> Inl ErrBillingConflict)
      else Inr None)"

definition charge_event_check ::
  "event_lib \<Rightarrow> store_config \<Rightarrow> call \<Rightarrow> string \<Rightarrow> 'x billing_db_scheme \<Rightarrow> (bool + string) result" where
  "charge_event_check el cfg c event db =
     (case cl_drv c of
        Some e \<Rightarrow> Inl e
      | None \<Rightarrow>
          andThen (some_or ErrDenied (get_row be_key (billingModeValue cfg, event) (billing_events db))) (\<lambda>e.
          if be_state e \<noteq> ''pending'' then Inr (Inl True)
          else andThen (event_charge el (billingModeValue cfg) e) (\<lambda>r.
               Inr (case r of None \<Rightarrow> Inl False | Some ch \<Rightarrow> Inr ch))))"

definition charge_event_tx ::
  "store_config \<Rightarrow> call \<Rightarrow> string \<Rightarrow> string \<Rightarrow> 'x billing_db_scheme \<Rightarrow> (bool \<times> 'x billing_db_scheme) result" where
  "charge_event_tx cfg c event charge db =
     (let mode = billingModeValue cfg in
      andThen (some_or ErrNoRows (get_row be_key (mode, event) (billing_events db))) (\<lambda>e.
      if be_state e \<noteq> ''pending'' then Inr (True, db)
      else
        andThen (some_or ErrNoRows (get_row ch_key (mode, charge) (billing_charges db))) (\<lambda>ch.
        andThen (some_or ErrNoRows (ch_subscription ch)) (\<lambda>sub.
        andThen (some_or ErrNoRows (get_row sub_key (mode, sub) (billing_subscriptions db))) (\<lambda>s.
        andThen (audit (cl_token c 0) (''stripe-'' @ mode) (bs_workspace s)
                   (''billing.charge_refreshed:'' @ charge @ '':event:'' @ event) (cl_now c 0)
                   (refresh_signal mode sub event db)) (\<lambda>db1.
        Inr (True, db1)))))))"

section \<open>Reconciling a subscription\<close>

definition start_subscription_tx ::
  "store_config \<Rightarrow> string \<Rightarrow> 'x billing_db_scheme \<Rightarrow> (billing_subscription \<times> 'x billing_db_scheme) result" where
  "start_subscription_tx cfg ident db =
     (let mode = billingModeValue cfg;
          rows = upd_row sub_key (mode, ident) (\<lambda>s. s\<lparr>bs_generation := bs_generation s + 1\<rparr>) (billing_subscriptions db)
      in andThen (some_or ErrDenied (get_row sub_key (mode, ident) rows)) (\<lambda>s.
         Inr (s, db\<lparr>billing_subscriptions := rows\<rparr>)))"

definition snapshot_accepted :: "billing_subscription \<Rightarrow> int \<Rightarrow> int \<Rightarrow> subscription_snapshot \<Rightarrow> bool" where
  "snapshot_accepted s started now sp \<longleftrightarrow>
     \<not> (sp_ID sp \<noteq> bs_id s \<or> sp_CustomerID sp \<noteq> bs_customer s \<or> sp_PriceID sp \<noteq> bs_price s
        \<or> sp_ObservedAt sp < started \<or> sp_ObservedAt sp > now)"

definition blank_charge :: "string \<Rightarrow> string \<Rightarrow> int \<Rightarrow> billing_charge" where
  "blank_charge mode ident generation =
     \<lparr>ch_mode = mode, ch_id = ident, ch_generation = generation, ch_subscription = None, ch_customer = None, ch_invoice = [],
      ch_payment = [], ch_snapshot = Null, ch_next_refresh = 0\<rparr>"

definition ensure_charge :: "string \<Rightarrow> string \<Rightarrow> billing_charge list \<Rightarrow> billing_charge list" where
  "ensure_charge mode ident rows =
     (case get_row ch_key (mode, ident) rows of None \<Rightarrow> rows @ [blank_charge mode ident 0] | Some _ \<Rightarrow> rows)"

definition finish_subscription_tx ::
  "store_config \<Rightarrow> string \<Rightarrow> int \<Rightarrow> subscription_snapshot \<Rightarrow> string \<Rightarrow> 'x billing_db_scheme
    \<Rightarrow> (unit \<times> 'x billing_db_scheme) result" where
  "finish_subscription_tx cfg ident generation sp charge db =
     (let mode = billingModeValue cfg in
      andThen (guard ErrBillingConflict
                 (length (filter (\<lambda>s. sub_key s = (mode, ident) \<and> bs_generation s = generation) (billing_subscriptions db)) = 1)) (\<lambda>_.
      andThen (guard ErrBillingConflict (charge = [] \<or> provider_ref ''ch_'' charge)) (\<lambda>_.
      Inr ((), db\<lparr>billing_subscriptions := upd_row sub_key (mode, ident)
                     (\<lambda>s. if bs_generation s = generation then s\<lparr>bs_snapshot := Json sp\<rparr> else s) (billing_subscriptions db),
                  billing_charges := (if charge = [] then billing_charges db
                                      else ensure_charge mode charge (billing_charges db))\<rparr>))))"

section \<open>Reconciling a charge\<close>

definition start_charge_tx ::
  "store_config \<Rightarrow> string \<Rightarrow> 'x billing_db_scheme \<Rightarrow> (int \<times> 'x billing_db_scheme) result" where
  "start_charge_tx cfg ident db =
     (let mode = billingModeValue cfg in
      case get_row ch_key (mode, ident) (billing_charges db) of
        None \<Rightarrow> Inr (1, db\<lparr>billing_charges := billing_charges db @ [blank_charge mode ident 1]\<rparr>)
      | Some ch \<Rightarrow> Inr (ch_generation ch + 1, db\<lparr>billing_charges := upd_row ch_key (mode, ident)
                      (\<lambda>q. q\<lparr>ch_generation := ch_generation q + 1\<rparr>) (billing_charges db)\<rparr>))"

definition observation_accepted :: "string \<Rightarrow> int \<Rightarrow> int \<Rightarrow> charge_observation \<Rightarrow> bool" where
  "observation_accepted ident started now ob \<longleftrightarrow>
     \<not> (co_ChargeID ob \<noteq> ident \<or> co_ObservedAt ob < started \<or> co_ObservedAt ob > now \<or> co_AmountCaptured ob \<le> 0
        \<or> co_AmountRefunded ob < 0 \<or> co_AmountRefunded ob > co_AmountCaptured ob)"

definition finish_charge_tx ::
  "store_config \<Rightarrow> call \<Rightarrow> string \<Rightarrow> int \<Rightarrow> charge_observation \<Rightarrow> 'x billing_db_scheme \<Rightarrow> (unit \<times> 'x billing_db_scheme) result" where
  "finish_charge_tx cfg c ident generation ob db =
     (let mode = billingModeValue cfg in
      andThen (some_or (PortalErr ErrBillingUnmatched) (get_row sub_key (mode, co_SubscriptionID ob) (billing_subscriptions db))) (\<lambda>s.
      andThen (guard ErrBillingConflict (bs_customer s = co_CustomerID ob)) (\<lambda>_.
      andThen (some_or ErrNoRows (get_row ch_key (mode, ident) (billing_charges db))) (\<lambda>ch.
      andThen (guard ErrBillingConflict (ch_generation ch = generation)) (\<lambda>_.
      andThen (guard ErrBillingConflict
                 (case ch_subscription ch of
                    None \<Rightarrow> True
                  | Some sub \<Rightarrow> sub = co_SubscriptionID ob \<and> ch_customer ch = Some (bs_customer s) \<and> ch_invoice ch = co_InvoiceID ob
                                \<and> ch_payment ch = co_PaymentIntentID ob)) (\<lambda>_.
      Inr ((), db\<lparr>billing_charges := upd_row ch_key (mode, ident)
                     (\<lambda>q. q\<lparr>ch_subscription := Some (co_SubscriptionID ob), ch_customer := Some (bs_customer s),
                            ch_invoice := co_InvoiceID ob, ch_payment := co_PaymentIntentID ob, ch_snapshot := Json ob,
                            ch_next_refresh := cl_now c 0 + 300\<rparr>) (billing_charges db)\<rparr>)))))))"

text \<open>\<open>RefreshBillingChargeOnce\<close> reserves the charge that is due longest.\<close>

definition due_charges :: "string \<Rightarrow> int \<Rightarrow> billing_charge list \<Rightarrow> billing_charge list" where
  "due_charges mode now rows =
     sort_key ch_next_refresh (sort_key ch_id (filter (\<lambda>q. ch_mode q = mode \<and> ch_next_refresh q \<le> now) rows))"

definition claim_charge_tx ::
  "store_config \<Rightarrow> call \<Rightarrow> 'x billing_db_scheme \<Rightarrow> (string option \<times> 'x billing_db_scheme) result" where
  "claim_charge_tx cfg c db =
     (let mode = billingModeValue cfg in
      case due_charges mode (cl_now c 0) (billing_charges db) of
        [] \<Rightarrow> Inr (None, db)
      | ch # _ \<Rightarrow> Inr (Some (ch_id ch), db\<lparr>billing_charges := upd_row ch_key (mode, ch_id ch)
                     (\<lambda>q. q\<lparr>ch_next_refresh := cl_now c 0 + 60\<rparr>) (billing_charges db)\<rparr>))"

section \<open>Prices\<close>

definition due_plans :: "string \<Rightarrow> int \<Rightarrow> billing_plan list \<Rightarrow> billing_plan list" where
  "due_plans mode now rows =
     sort_key bp_next_refresh (sort_key bp_id (filter (\<lambda>p. bp_mode p = mode \<and> bp_enabled p \<and> bp_next_refresh p \<le> now) rows))"

definition claim_price_tx ::
  "store_config \<Rightarrow> call \<Rightarrow> 'x billing_db_scheme \<Rightarrow> ((string \<times> string \<times> int) option \<times> 'x billing_db_scheme) result" where
  "claim_price_tx cfg c db =
     (let mode = billingModeValue cfg in
      case due_plans mode (cl_now c 0) (billing_plans db) of
        [] \<Rightarrow> Inr (None, db)
      | p # _ \<Rightarrow> Inr (Some (bp_id p, bp_price p, bp_generation p + 1), db\<lparr>billing_plans := upd_row bp_key (mode, bp_id p)
                    (\<lambda>q. q\<lparr>bp_next_refresh := cl_now c 0 + 60, bp_generation := bp_generation q + 1\<rparr>) (billing_plans db)\<rparr>))"

text \<open>The price id is not part of the JSON, so the stored snapshot has it empty.\<close>

definition price_hit :: "string \<Rightarrow> string \<Rightarrow> string \<Rightarrow> int \<Rightarrow> billing_plan \<Rightarrow> bool" where
  "price_hit mode plan price generation p \<longleftrightarrow>
     bp_key p = (mode, plan) \<and> bp_price p = price \<and> bp_enabled p \<and> bp_generation p = generation"

definition finish_price_tx ::
  "store_config \<Rightarrow> call \<Rightarrow> string \<Rightarrow> string \<Rightarrow> int \<Rightarrow> plan_price \<Rightarrow> 'x billing_db_scheme
    \<Rightarrow> (unit \<times> 'x billing_db_scheme) result" where
  "finish_price_tx cfg c plan price generation pp db =
     (let hit = price_hit (billingModeValue cfg) plan price generation in
      if length (filter hit (billing_plans db)) \<noteq> 1 then Inl ErrBillingConflict
      else Inr ((), db\<lparr>billing_plans := map (\<lambda>p. if hit p then p\<lparr>bp_snapshot := Json (pp\<lparr>pp_PriceID := []\<rparr>),
                          bp_observed := pp_ObservedAt pp, bp_next_refresh := cl_now c 0 + 300\<rparr> else p) (billing_plans db)\<rparr>))"

text \<open>\<open>BillingPlanOffers\<close>: a price is shown for fifteen minutes after it was observed.\<close>

record plan_offer =
  po_Plan :: string
  po_Price :: "plan_price option"
  po_Limits :: "plan_limits option"

definition plan_offer_of :: "store_config \<Rightarrow> int \<Rightarrow> 'x billing_db_scheme \<Rightarrow> billing_plan \<Rightarrow> plan_offer result" where
  "plan_offer_of cfg now db p =
     andThen (if bp_observed p \<le> now \<and> bp_observed p > now - 900
              then (case bp_snapshot p of Json pp \<Rightarrow> Inr (Some pp) | BadJson \<Rightarrow> Inl ErrDriver | _ \<Rightarrow> Inr None)
              else Inr None) (\<lambda>price.
     Inr \<lparr>po_Plan = bp_id p, po_Price = price, po_Limits = savedHostingLimits cfg (bp_id p) db\<rparr>)"

fun plan_offers :: "store_config \<Rightarrow> int \<Rightarrow> 'x billing_db_scheme \<Rightarrow> billing_plan list \<Rightarrow> plan_offer list result" where
  "plan_offers cfg now db [] = Inr []"
| "plan_offers cfg now db (p # ps) =
     andThen (plan_offer_of cfg now db p) (\<lambda>o'. andThen (plan_offers cfg now db ps) (\<lambda>os. Inr (o' # os)))"

definition billingPlanOffers ::
  "portal_lib \<Rightarrow> store_config \<Rightarrow> call \<Rightarrow> string \<Rightarrow> string \<Rightarrow> 'x billing_db_scheme \<Rightarrow> plan_offer list result" where
  "billingPlanOffers lib cfg c token workspace db =
     (case cl_drv c of
        Some e \<Rightarrow> Inl e
      | None \<Rightarrow>
          andThen (authorizeOwner lib (cl_now c 0) token workspace db) (\<lambda>_.
          plan_offers cfg (cl_now c 1) db (enabled_plans cfg db)))"

section \<open>The work queue\<close>

definition work_event_kinds :: "string list" where
  "work_event_kinds = [''checkout.session.completed'', ''checkout.session.expired''] @ subscription_kinds @ invoice_kinds
     @ charge_kinds @ dispute_kinds"

text \<open>\<open>INSERT OR IGNORE ... SELECT\<close>: work for every saved request that needs some.\<close>

definition add_work :: "billing_job \<Rightarrow> billing_job list \<Rightarrow> billing_job list" where
  "add_work w ws = (if list_ex (\<lambda>q. bw_key q = bw_key w) ws then ws else ws @ [w])"

definition discovered :: "string \<Rightarrow> 'x billing_db_scheme \<Rightarrow> billing_job list" where
  "discovered mode db =
     map (\<lambda>cu. new_work mode ''customer'' (cu_request cu))
       (filter (\<lambda>cu. cu_mode cu = mode \<and> cu_customer cu = None) (billing_customers db))
     @ map (\<lambda>co. new_work mode ''checkout'' (bc_id co))
       (filter (\<lambda>co. bc_mode co = mode \<and> bc_state co = ''pending'') (billing_checkouts db))
     @ map (\<lambda>e. new_work mode ''event'' (be_id e))
       (filter (\<lambda>e. be_mode e = mode \<and> be_state e = ''pending'' \<and> be_type e \<in> set work_event_kinds) (billing_events db))
     @ map (\<lambda>s. new_work mode ''subscription'' (bs_id s))
       (filter (\<lambda>s. bs_mode s = mode) (billing_subscriptions db))"

definition due_work :: "string \<Rightarrow> int \<Rightarrow> billing_job list \<Rightarrow> billing_job list" where
  "due_work mode now ws =
     sort_key bw_next (sort_key bw_kind (sort_key bw_reference
       (filter (\<lambda>w. bw_mode w = mode \<and> \<not> bw_done w \<and> bw_next w \<le> now \<and> bw_until w \<le> now) ws)))"

text \<open>The first transaction of \<open>BillingWorkOnce\<close>: discover work and lease one item for a minute.\<close>

definition claim_work_tx ::
  "portal_lib \<Rightarrow> store_config \<Rightarrow> call \<Rightarrow> 'x billing_db_scheme \<Rightarrow> (billing_job option \<times> 'x billing_db_scheme) result" where
  "claim_work_tx lib cfg c db =
     (let mode = billingModeValue cfg;
          ws = fold add_work (discovered mode db) (billing_work db);
          now = cl_now c 0
      in case due_work mode now ws of
           [] \<Rightarrow> Inr (None, db\<lparr>billing_work := ws\<rparr>)
         | w # _ \<Rightarrow> Inr (Some w, db\<lparr>billing_work := upd_row bw_key (bw_key w)
                       (\<lambda>q. q\<lparr>bw_lease := lib_digest lib (cl_token c 0), bw_until := now + 60,
                              bw_attempts := bw_attempts q + 1\<rparr>) ws\<rparr>))"

text \<open>The delay after a failure: it doubles from half a minute with every earlier attempt, up to an hour.\<close>

fun backoff_loop :: "nat \<Rightarrow> int \<Rightarrow> int" where
  "backoff_loop 0 delay = delay"
| "backoff_loop (Suc n) delay = (if delay < 3600 then backoff_loop n (delay * 2) else delay)"

definition work_delay :: "nat \<Rightarrow> bool \<Rightarrow> int" where
  "work_delay attempts ok =
     (if ok then 300 else let d = backoff_loop attempts 30 in if d > 3600 then 3600 else d)"

definition work_leased :: "portal_lib \<Rightarrow> string \<Rightarrow> string \<times> string \<times> string \<Rightarrow> int \<Rightarrow> billing_job \<Rightarrow> bool" where
  "work_leased lib lease k now w \<longleftrightarrow> bw_key w = k \<and> bw_lease w = lib_digest lib lease \<and> bw_until w > now"

definition finish_work_tx ::
  "portal_lib \<Rightarrow> store_config \<Rightarrow> call \<Rightarrow> billing_job \<Rightarrow> string \<Rightarrow> bool \<Rightarrow> 'x billing_db_scheme
    \<Rightarrow> (unit \<times> 'x billing_db_scheme) result" where
  "finish_work_tx lib cfg c w lease ok db =
     (let hit = work_leased lib lease (billingModeValue cfg, bw_kind w, bw_reference w) (cl_now c 1);
          upd = (\<lambda>q. q\<lparr>bw_done := (ok \<and> bw_kind w \<noteq> ''subscription''), bw_next := cl_now c 0 + work_delay (bw_attempts w) ok,
                       bw_lease := [], bw_until := 0, bw_attempts := (if ok then 0 else bw_attempts q)\<rparr>)
      in if length (filter hit (billing_work db)) \<noteq> 1 then Inl ErrBillingConflict
         else Inr ((), db\<lparr>billing_work := map (\<lambda>q. if hit q then upd q else q) (billing_work db)\<rparr>))"

section \<open>The family of transactions\<close>

text \<open>
  Every transaction of the billing store, next to those on accounts. \<open>BFinishSubscription\<close> and
  \<open>BFinishCharge\<close> are the second halves of the reconciliations: what the first half read (the row, the
  time the provider was asked) is part of the item, with the check of the answer that stands before the
  transaction.
\<close>

datatype billing_tx =
    BAccount acct_tx
  | BPolicy string bool
  | BPlan string string bool
  | BLimits string plan_limits
  | BRequestCustomer string string
  | BBindCustomer string string
  | BRequestCheckout string string string
  | BBindCheckout string string string
  | BAccept stripe_event string
  | BCheckoutEvent string
  | BSubscriptionEvent string
  | BChargeEvent string string
  | BStartSubscription string
  | BFinishSubscription billing_subscription int int subscription_snapshot string
  | BStartCharge string
  | BFinishCharge string int int int charge_observation
  | BClaimCharge
  | BClaimPrice
  | BFinishPrice string string int plan_price
  | BClaimWork
  | BFinishWork billing_job string bool

text \<open>The row a reconciliation started from is still there, up to its generation and snapshot.\<close>

definition same_subscription :: "billing_subscription \<Rightarrow> billing_subscription \<Rightarrow> bool" where
  "same_subscription s t \<longleftrightarrow> s\<lparr>bs_generation := bs_generation t, bs_snapshot := bs_snapshot t\<rparr> = t"

definition known_subscription :: "billing_subscription \<Rightarrow> 'x hosting_db_scheme \<Rightarrow> bool" where
  "known_subscription s db \<longleftrightarrow> list_ex (same_subscription s) (billing_subscriptions db)"

fun billing_body ::
  "portal_lib \<Rightarrow> event_lib \<Rightarrow> store_config \<Rightarrow> call \<Rightarrow> billing_tx \<Rightarrow> 'x billing_db_scheme \<Rightarrow> (unit \<times> 'x billing_db_scheme) result" where
  "billing_body lib el cfg c (BAccount t) db = acct_body lib c t db"
| "billing_body lib el cfg c (BPolicy workspace required) db = configure_policy_tx c workspace required db"
| "billing_body lib el cfg c (BPlan plan price enabled) db = configure_plan_tx cfg plan price enabled db"
| "billing_body lib el cfg c (BLimits plan l) db = configure_limits_tx cfg c plan l db"
| "billing_body lib el cfg c (BRequestCustomer token workspace) db = drop_value (request_customer_tx lib cfg c token workspace db)"
| "billing_body lib el cfg c (BBindCustomer request customer) db =
     andThen (guard Portal_ErrInvalid (provider_ref ''cus_'' customer)) (\<lambda>_. bind_customer_tx cfg c request customer db)"
| "billing_body lib el cfg c (BRequestCheckout token workspace plan) db =
     drop_value (request_checkout_tx lib cfg c token workspace plan db)"
| "billing_body lib el cfg c (BBindCheckout ident session link) db = bind_checkout_tx cfg c ident session link db"
| "billing_body lib el cfg c (BAccept ev payload) db = drop_value (accept_event_tx el cfg c ev payload db)"
| "billing_body lib el cfg c (BCheckoutEvent event) db = drop_value (checkout_event_tx el cfg c event db)"
| "billing_body lib el cfg c (BSubscriptionEvent event) db = drop_value (subscription_event_tx el cfg c event db)"
| "billing_body lib el cfg c (BChargeEvent event charge) db = drop_value (charge_event_tx cfg c event charge db)"
| "billing_body lib el cfg c (BStartSubscription ident) db = drop_value (start_subscription_tx cfg ident db)"
| "billing_body lib el cfg c (BFinishSubscription s started now sp charge) db =
     andThen (guard ErrBillingConflict (known_subscription s db \<and> bs_mode s = billingModeValue cfg
                                        \<and> snapshot_accepted s started now sp)) (\<lambda>_.
     finish_subscription_tx cfg (bs_id s) (bs_generation s) sp charge db)"
| "billing_body lib el cfg c (BStartCharge ident) db = drop_value (start_charge_tx cfg ident db)"
| "billing_body lib el cfg c (BFinishCharge ident generation started now ob) db =
     andThen (guard ErrBillingConflict (observation_accepted ident started now ob)) (\<lambda>_.
     finish_charge_tx cfg c ident generation ob db)"
| "billing_body lib el cfg c BClaimCharge db = drop_value (claim_charge_tx cfg c db)"
| "billing_body lib el cfg c BClaimPrice db = drop_value (claim_price_tx cfg c db)"
| "billing_body lib el cfg c (BFinishPrice plan price generation pp) db = finish_price_tx cfg c plan price generation pp db"
| "billing_body lib el cfg c BClaimWork db = drop_value (claim_work_tx lib cfg c db)"
| "billing_body lib el cfg c (BFinishWork w lease ok) db = finish_work_tx lib cfg c w lease ok db"

definition billing_exec ::
  "portal_lib \<Rightarrow> event_lib \<Rightarrow> store_config \<Rightarrow> call \<times> billing_tx \<Rightarrow> 'x billing_db_scheme
    \<Rightarrow> unit result \<times> 'x billing_db_scheme" where
  "billing_exec lib el cfg i db = in_tx (cl_drv (fst i)) (billing_body lib el cfg (fst i) (snd i)) db"

end
