(* ===== verification/Billing_Ledger.thy ===== *)
theory Billing_Ledger
  imports Portal_Billing
begin

text \<open>
  What the billing store promises, as a state machine: a ledger of customers, checkouts,
  subscriptions, charges and provider events, and the steps that may change it. The
  invariant of the ledger is proved by rule induction; \<open>Billing_Safety\<close> shows that every transaction of
  the store is such a step.
\<close>

section \<open>The ledger\<close>

record ledger =
  lg_limits :: "plan_limit_row list"
  lg_customers :: "billing_customer list"
  lg_checkouts :: "billing_checkout list"
  lg_subs :: "billing_subscription list"
  lg_charges :: "billing_charge list"
  lg_events :: "billing_event list"

definition bound_to :: "string \<Rightarrow> string \<Rightarrow> string \<Rightarrow> billing_customer list \<Rightarrow> bool" where
  "bound_to mode workspace customer cus \<longleftrightarrow>
     (\<exists>cu \<in> set cus. cu_key cu = (mode, workspace) \<and> cu_customer cu = Some customer)"

definition opening_row :: "string \<Rightarrow> billing_checkout \<Rightarrow> string \<Rightarrow> billing_subscription" where
  "opening_row event co sub =
     \<lparr>bs_mode = bc_mode co, bs_id = sub, bs_checkout = bc_id co, bs_workspace = bc_workspace co,
      bs_customer = bc_customer co, bs_plan = bc_plan co, bs_price = bc_price co,
      bs_state = ''awaiting_reconciliation'', bs_first_event = event, bs_generation = 0, bs_snapshot = Null\<rparr>"

text \<open>The subscription of a checkout is opened once; a repeated completion finds the same one.\<close>

definition subscription_for ::
  "string \<Rightarrow> billing_checkout \<Rightarrow> string \<Rightarrow> billing_subscription list \<Rightarrow> billing_subscription list \<Rightarrow> bool" where
  "subscription_for event co sub old new \<longleftrightarrow>
     (\<exists>s \<in> set old. sub_key s = (bc_mode co, sub) \<and> bs_checkout s = bc_id co) \<and> new = old
     \<or> (\<forall>s \<in> set old. bs_mode s = bc_mode co \<longrightarrow> bs_id s \<noteq> sub \<and> bs_checkout s \<noteq> bc_id co)
       \<and> new = old @ [opening_row event co sub]"

definition saved_limits_ok :: "plan_limits column \<Rightarrow> bool" where
  "saved_limits_ok d \<longleftrightarrow> (case d of Null \<Rightarrow> True | Json l \<Rightarrow> limits_in_range l | _ \<Rightarrow> False)"

definition processed :: "billing_event \<Rightarrow> billing_event" where
  "processed e = e\<lparr>be_state := ''processed''\<rparr>"

definition snapshot_of :: "billing_subscription \<Rightarrow> subscription_snapshot \<Rightarrow> bool" where
  "snapshot_of s sp \<longleftrightarrow> sp_ID sp = bs_id s \<and> sp_CustomerID sp = bs_customer s \<and> sp_PriceID sp = bs_price s"

definition amounts_ok :: "charge_observation \<Rightarrow> bool" where
  "amounts_ok ob \<longleftrightarrow> 0 < co_AmountCaptured ob \<and> 0 \<le> co_AmountRefunded ob \<and> co_AmountRefunded ob \<le> co_AmountCaptured ob"

definition charge_bound :: "charge_observation \<Rightarrow> int \<Rightarrow> billing_charge \<Rightarrow> billing_charge" where
  "charge_bound ob refresh q =
     q\<lparr>ch_subscription := Some (co_SubscriptionID ob), ch_customer := Some (co_CustomerID ob), ch_invoice := co_InvoiceID ob,
       ch_payment := co_PaymentIntentID ob, ch_snapshot := Json ob, ch_next_refresh := refresh\<rparr>"

inductive ledger_step :: "ledger \<Rightarrow> ledger \<Rightarrow> bool" where
  stay: "ledger_step g g"
| limits_set:
    "\<forall>r \<in> set rows. r \<in> set (lg_limits g) \<or> limits_in_range (pl_limits r) \<Longrightarrow> ledger_step g (g\<lparr>lg_limits := rows\<rparr>)"
| customer_requested:
    "cu_key cu \<notin> cu_key ` set (lg_customers g) \<Longrightarrow> req_key cu \<notin> req_key ` set (lg_customers g) \<Longrightarrow> cu_customer cu = None
     \<Longrightarrow> ledger_step g (g\<lparr>lg_customers := lg_customers g @ [cu]\<rparr>)"
| customer_bound:
    "cu \<in> set (lg_customers g) \<Longrightarrow> cu_customer cu = None
     \<Longrightarrow> \<forall>q \<in> set (lg_customers g). cu_mode q = cu_mode cu \<longrightarrow> cu_customer q \<noteq> Some customer
     \<Longrightarrow> ledger_step g (g\<lparr>lg_customers := upd_row req_key (req_key cu) (\<lambda>q. q\<lparr>cu_customer := Some customer\<rparr>) (lg_customers g)\<rparr>)"
| checkout_requested:
    "co_key co \<notin> co_key ` set (lg_checkouts g) \<Longrightarrow> bc_state co = ''pending'' \<Longrightarrow> bc_session co = None
     \<Longrightarrow> bound_to (bc_mode co) (bc_workspace co) (bc_customer co) (lg_customers g) \<Longrightarrow> saved_limits_ok (bc_limits co)
     \<Longrightarrow> \<forall>q \<in> set (lg_checkouts g). bc_mode q = bc_mode co \<and> bc_workspace q = bc_workspace co \<longrightarrow> \<not> live_state (bc_state q)
     \<Longrightarrow> ledger_step g (g\<lparr>lg_checkouts := lg_checkouts g @ [co]\<rparr>)"
| checkout_opened:
    "co \<in> set (lg_checkouts g) \<Longrightarrow> bc_session co = None \<Longrightarrow> bc_state co = ''pending''
     \<Longrightarrow> \<forall>q \<in> set (lg_checkouts g). bc_mode q = bc_mode co \<longrightarrow> bc_session q \<noteq> Some session
     \<Longrightarrow> ledger_step g (g\<lparr>lg_checkouts := upd_row co_key (co_key co)
           (\<lambda>q. q\<lparr>bc_session := Some session, bc_url := link, bc_state := ''open''\<rparr>) (lg_checkouts g)\<rparr>)"
| checkout_completed:
    "co \<in> set (lg_checkouts g) \<Longrightarrow> bc_state co = ''open'' \<or> bc_state co = ''completed''
     \<Longrightarrow> e \<in> set (lg_events g) \<Longrightarrow> be_state e = ''pending'' \<Longrightarrow> be_mode e = bc_mode co
     \<Longrightarrow> subscription_for (be_id e) co sub (lg_subs g) subs
     \<Longrightarrow> ledger_step g (g\<lparr>lg_subs := subs,
           lg_checkouts := upd_row co_key (co_key co) (\<lambda>q. q\<lparr>bc_state := ''completed''\<rparr>) (lg_checkouts g),
           lg_events := upd_row be_key (be_key e) processed (lg_events g)\<rparr>)"
| checkout_expired:
    "co \<in> set (lg_checkouts g) \<Longrightarrow> bc_state co = ''open'' \<or> bc_state co = ''expired''
     \<Longrightarrow> e \<in> set (lg_events g) \<Longrightarrow> be_state e = ''pending''
     \<Longrightarrow> ledger_step g (g\<lparr>lg_checkouts := upd_row co_key (co_key co) (\<lambda>q. q\<lparr>bc_state := ''expired''\<rparr>) (lg_checkouts g),
           lg_events := upd_row be_key (be_key e) processed (lg_events g)\<rparr>)"
| event_accepted:
    "be_key e \<notin> be_key ` set (lg_events g) \<Longrightarrow> be_state e = ''pending''
     \<Longrightarrow> inbox_count (be_mode e) (lg_events g) < billingInboxEvents
     \<Longrightarrow> inbox_bytes (be_mode e) (lg_events g) + int (length (be_payload e)) \<le> billingInboxBytes
     \<Longrightarrow> ledger_step g (g\<lparr>lg_events := lg_events g @ [e]\<rparr>)"
| event_ignored:
    "e \<in> set (lg_events g) \<Longrightarrow> be_state e = ''pending''
     \<Longrightarrow> ledger_step g (g\<lparr>lg_events := upd_row be_key (be_key e) (\<lambda>e. e\<lparr>be_state := ''ignored''\<rparr>) (lg_events g)\<rparr>)"
| refresh_signalled:
    "s \<in> set (lg_subs g) \<Longrightarrow> e \<in> set (lg_events g) \<Longrightarrow> be_state e = ''pending''
     \<Longrightarrow> ledger_step g (g\<lparr>lg_subs := fence_subscription (bs_mode s) (bs_id s) (lg_subs g),
           lg_events := upd_row be_key (be_key e) processed (lg_events g)\<rparr>)"
| read_started:
    "ledger_step g (g\<lparr>lg_subs := upd_row sub_key k (\<lambda>s. s\<lparr>bs_generation := bs_generation s + 1\<rparr>) (lg_subs g)\<rparr>)"
| snapshot_stored:
    "s \<in> set (lg_subs g) \<Longrightarrow> snapshot_of s sp
     \<Longrightarrow> ledger_step g (g\<lparr>lg_subs := upd_row sub_key (sub_key s)
           (\<lambda>q. if bs_generation q = bs_generation s then q\<lparr>bs_snapshot := Json sp\<rparr> else q) (lg_subs g),
         lg_charges := (if charge = [] then lg_charges g else ensure_charge (bs_mode s) charge (lg_charges g))\<rparr>)"
| charge_seen:
    "(mode, ident) \<notin> ch_key ` set (lg_charges g)
     \<Longrightarrow> ledger_step g (g\<lparr>lg_charges := lg_charges g @ [blank_charge mode ident n]\<rparr>)"
| charge_scheduled:
    "ledger_step g (g\<lparr>lg_charges := upd_row ch_key k (\<lambda>q. q\<lparr>ch_generation := f (ch_generation q), ch_next_refresh := h (ch_next_refresh q)\<rparr>)
                                   (lg_charges g)\<rparr>)"
| charge_observed:
    "ch \<in> set (lg_charges g) \<Longrightarrow> co_ChargeID ob = ch_id ch \<Longrightarrow> amounts_ok ob
     \<Longrightarrow> s \<in> set (lg_subs g) \<Longrightarrow> sub_key s = (ch_mode ch, co_SubscriptionID ob) \<Longrightarrow> bs_customer s = co_CustomerID ob
     \<Longrightarrow> ch_subscription ch \<noteq> None \<longrightarrow> ch_subscription ch = Some (co_SubscriptionID ob) \<and> ch_customer ch = Some (co_CustomerID ob)
           \<and> ch_invoice ch = co_InvoiceID ob \<and> ch_payment ch = co_PaymentIntentID ob
     \<Longrightarrow> ledger_step g (g\<lparr>lg_charges := upd_row ch_key (ch_key ch) (charge_bound ob refresh) (lg_charges g)\<rparr>)"

section \<open>The invariant\<close>

text \<open>No two rows of a mode share the provider's identifier in column \<open>ref\<close>.\<close>

definition unique_ref :: "('r \<Rightarrow> string) \<Rightarrow> ('r \<Rightarrow> string option) \<Rightarrow> 'r list \<Rightarrow> bool" where
  "unique_ref mode ref rows \<longleftrightarrow>
     (\<forall>a \<in> set rows. \<forall>b \<in> set rows. mode a = mode b \<longrightarrow> ref a = ref b \<longrightarrow> ref a \<noteq> None \<longrightarrow> a = b)"

definition customers_ok :: "ledger \<Rightarrow> bool" where
  "customers_ok g \<longleftrightarrow>
     distinct (map cu_key (lg_customers g)) \<and> distinct (map req_key (lg_customers g))
     \<and> unique_ref cu_mode cu_customer (lg_customers g)"

definition checkout_states :: "string list" where
  "checkout_states = [''pending'', ''open'', ''completed'', ''expired'']"

definition checkout_ok :: "ledger \<Rightarrow> billing_checkout \<Rightarrow> bool" where
  "checkout_ok g co \<longleftrightarrow>
     bound_to (bc_mode co) (bc_workspace co) (bc_customer co) (lg_customers g)
     \<and> bc_state co \<in> set checkout_states \<and> (bc_session co = None \<longleftrightarrow> bc_state co = ''pending'') \<and> saved_limits_ok (bc_limits co)"

definition workspace_key :: "billing_checkout \<Rightarrow> string \<times> string" where
  "workspace_key co = (bc_mode co, bc_workspace co)"

definition checkouts_ok :: "ledger \<Rightarrow> bool" where
  "checkouts_ok g \<longleftrightarrow>
     distinct (map co_key (lg_checkouts g)) \<and> (\<forall>co \<in> set (lg_checkouts g). checkout_ok g co)
     \<and> distinct (map workspace_key (filter (\<lambda>co. live_state (bc_state co)) (lg_checkouts g)))
     \<and> unique_ref bc_mode bc_session (lg_checkouts g)"

definition backs :: "billing_checkout \<Rightarrow> billing_subscription \<Rightarrow> bool" where
  "backs co s \<longleftrightarrow>
     bc_mode co = bs_mode s \<and> bc_id co = bs_checkout s \<and> bc_workspace co = bs_workspace s \<and> bc_customer co = bs_customer s
     \<and> bc_plan co = bs_plan s \<and> bc_price co = bs_price s \<and> bc_state co = ''completed''"

definition sub_ok :: "ledger \<Rightarrow> billing_subscription \<Rightarrow> bool" where
  "sub_ok g s \<longleftrightarrow>
     (\<exists>co \<in> set (lg_checkouts g). backs co s)
     \<and> (\<exists>e \<in> set (lg_events g). be_key e = (bs_mode s, bs_first_event s) \<and> be_state e = ''processed'')
     \<and> (case bs_snapshot s of Null \<Rightarrow> True | Json sp \<Rightarrow> snapshot_of s sp | _ \<Rightarrow> False)"

definition subs_ok :: "ledger \<Rightarrow> bool" where
  "subs_ok g \<longleftrightarrow>
     distinct (map sub_key (lg_subs g)) \<and> distinct (map (\<lambda>s. (bs_mode s, bs_checkout s)) (lg_subs g))
     \<and> (\<forall>s \<in> set (lg_subs g). sub_ok g s)"

definition charge_row_ok :: "ledger \<Rightarrow> billing_charge \<Rightarrow> bool" where
  "charge_row_ok g ch \<longleftrightarrow>
     (case ch_snapshot ch of
        Null \<Rightarrow> ch_subscription ch = None \<and> ch_customer ch = None
      | Json ob \<Rightarrow>
          co_ChargeID ob = ch_id ch \<and> amounts_ok ob \<and> ch_subscription ch = Some (co_SubscriptionID ob)
          \<and> ch_customer ch = Some (co_CustomerID ob) \<and> ch_invoice ch = co_InvoiceID ob \<and> ch_payment ch = co_PaymentIntentID ob
          \<and> (\<exists>s \<in> set (lg_subs g). sub_key s = (ch_mode ch, co_SubscriptionID ob) \<and> bs_customer s = co_CustomerID ob)
      | _ \<Rightarrow> False)"

definition charges_ok :: "ledger \<Rightarrow> bool" where
  "charges_ok g \<longleftrightarrow> distinct (map ch_key (lg_charges g)) \<and> (\<forall>ch \<in> set (lg_charges g). charge_row_ok g ch)"

definition events_ok :: "ledger \<Rightarrow> bool" where
  "events_ok g \<longleftrightarrow>
     distinct (map be_key (lg_events g))
     \<and> (\<forall>mode. inbox_count mode (lg_events g) \<le> billingInboxEvents \<and> inbox_bytes mode (lg_events g) \<le> billingInboxBytes)"

definition limits_ok :: "ledger \<Rightarrow> bool" where
  "limits_ok g \<longleftrightarrow> (\<forall>r \<in> set (lg_limits g). limits_in_range (pl_limits r))"

definition ledger_ok :: "ledger \<Rightarrow> bool" where
  "ledger_ok g \<longleftrightarrow> limits_ok g \<and> customers_ok g \<and> checkouts_ok g \<and> subs_ok g \<and> charges_ok g \<and> events_ok g"

section \<open>Updating one row\<close>

lemma key_eq_row: "distinct (map key rows) \<Longrightarrow> q \<in> set rows \<Longrightarrow> r \<in> set rows \<Longrightarrow> key q = key r \<Longrightarrow> q = r"
  by (auto simp: distinct_map dest: inj_onD)

lemma set_upd_one:
  assumes "distinct (map key rows)" and "r \<in> set rows"
  shows "set (upd_row key (key r) f rows) = insert (f r) (set rows - {r})"
proof -
  have "set (upd_row key (key r) f rows) = (\<lambda>q. if q = r then f r else q) ` set rows"
    unfolding set_upd_row using key_eq_row [OF assms(1) _ assms(2)] by (intro image_cong) auto
  with assms(2) show ?thesis by auto
qed

lemma keys_upd_row [simp]: "(\<And>r. g (f r) = g r) \<Longrightarrow> map g (upd_row key k f rows) = map g rows"
  by (induction rows) auto

lemma key_updates [simp]:
  "cu_key (cu\<lparr>cu_customer := x\<rparr>) = cu_key cu" "req_key (cu\<lparr>cu_customer := x\<rparr>) = req_key cu"
  "co_key (co\<lparr>bc_session := y\<rparr>) = co_key co" "co_key (co\<lparr>bc_url := u\<rparr>) = co_key co" "co_key (co\<lparr>bc_state := t\<rparr>) = co_key co"
  "workspace_key (co\<lparr>bc_session := y\<rparr>) = workspace_key co" "workspace_key (co\<lparr>bc_url := u\<rparr>) = workspace_key co"
  "workspace_key (co\<lparr>bc_state := t\<rparr>) = workspace_key co"
  "be_key (e\<lparr>be_state := t\<rparr>) = be_key e" "be_key (processed e) = be_key e"
  "sub_key (s\<lparr>bs_generation := n\<rparr>) = sub_key s"
  "sub_key (s\<lparr>bs_snapshot := d\<rparr>) = sub_key s"
  "ch_key (q\<lparr>ch_generation := n\<rparr>) = ch_key q" "ch_key (q\<lparr>ch_next_refresh := z\<rparr>) = ch_key q" "ch_key (charge_bound ob z q) = ch_key q"
  by (simp_all add: billing_keys workspace_key_def processed_def charge_bound_def)

lemma unique_ref_append:
  "unique_ref mode ref rows \<Longrightarrow> ref r = None \<Longrightarrow> unique_ref mode ref (rows @ [r])"
  by (auto simp: unique_ref_def)

lemma unique_ref_update:
  assumes "unique_ref mode ref rows" and "distinct (map key rows)" and "r \<in> set rows" and "mode (f r) = mode r"
    and new: "\<And>q. q \<in> set rows \<Longrightarrow> mode q = mode r \<Longrightarrow> ref q = ref (f r) \<Longrightarrow> ref q \<noteq> None \<Longrightarrow> q = r"
  shows "unique_ref mode ref (upd_row key (key r) f rows)"
proof -
  have "a = b" if "a \<in> insert (f r) (set rows - {r})" "b \<in> insert (f r) (set rows - {r})" "mode a = mode b" "ref a = ref b"
    "ref a \<noteq> None" for a b
  proof -
    from that(1,2) consider "a = f r" "b = f r" | "a = f r" "b \<in> set rows" "b \<noteq> r" | "b = f r" "a \<in> set rows" "a \<noteq> r"
      | "a \<in> set rows" "b \<in> set rows" by blast
    then show ?thesis
    proof cases
      case 2
      with new [of b] that(3-5) assms(4) show ?thesis by simp
    next
      case 3
      with new [of a] that(3-5) assms(4) show ?thesis by simp
    next
      case 4
      with assms(1) that(3-5) show ?thesis unfolding unique_ref_def by blast
    qed simp
  qed
  then show ?thesis unfolding unique_ref_def set_upd_one [OF assms(2,3)] by blast
qed

section \<open>The parts of the invariant\<close>

inductive_cases ledger_stepE: "ledger_step g h"

lemma limits_step: "ledger_step g h \<Longrightarrow> limits_ok g \<Longrightarrow> limits_ok h"
  by (induction rule: ledger_step.induct) (auto simp: limits_ok_def)

lemma customers_step: "ledger_step g h \<Longrightarrow> customers_ok g \<Longrightarrow> customers_ok h"
proof (induction rule: ledger_step.induct)
  case (customer_requested cu g)
  then show ?case by (auto simp: customers_ok_def intro: unique_ref_append)
next
  case (customer_bound cu g customer)
  then have d: "distinct (map req_key (lg_customers g))" and u: "unique_ref cu_mode cu_customer (lg_customers g)"
    by (simp_all add: customers_ok_def)
  have "unique_ref cu_mode cu_customer (upd_row req_key (req_key cu) (\<lambda>q. q\<lparr>cu_customer := Some customer\<rparr>) (lg_customers g))"
    by (rule unique_ref_update [OF u d customer_bound.hyps(1)]) (use customer_bound.hyps(3) in auto)
  with customer_bound.prems show ?case by (simp add: customers_ok_def)
qed (simp_all add: customers_ok_def)

lemma bound_step:
  "ledger_step g h \<Longrightarrow> customers_ok g \<Longrightarrow> bound_to mode workspace customer (lg_customers g)
    \<Longrightarrow> bound_to mode workspace customer (lg_customers h)"
proof (induction rule: ledger_step.induct)
  case (customer_requested cu g)
  then show ?case by (auto simp: bound_to_def)
next
  case (customer_bound cu g customer')
  have d: "distinct (map req_key (lg_customers g))" using customer_bound by (simp add: customers_ok_def)
  from customer_bound.prems(2) obtain q where "q \<in> set (lg_customers g)" "cu_key q = (mode, workspace)" "cu_customer q = Some customer"
    by (auto simp: bound_to_def)
  with customer_bound.hyps(2) show ?case
    by (auto simp: bound_to_def set_upd_one [OF d customer_bound.hyps(1)] intro!: bexI [of _ q])
qed simp_all

text \<open>An update of one checkout that keeps everything but its session, link and state.\<close>

lemma checkouts_update:
  assumes ok: "checkouts_ok g" and co: "co \<in> set (lg_checkouts g)"
    and f: "\<And>q. co_key (f q) = co_key q" "\<And>q. workspace_key (f q) = workspace_key q" "live_state (bc_state (f co)) \<longrightarrow> live_state (bc_state co)"
    and row: "checkout_ok g (f co)"
    and session: "\<And>q. q \<in> set (lg_checkouts g) \<Longrightarrow> bc_mode q = bc_mode co \<Longrightarrow> bc_session q = bc_session (f co)
                    \<Longrightarrow> bc_session q \<noteq> None \<Longrightarrow> q = co"
  shows "checkouts_ok (g\<lparr>lg_checkouts := upd_row co_key (co_key co) f (lg_checkouts g)\<rparr>)"
proof -
  have d: "distinct (map co_key (lg_checkouts g))" using ok by (simp add: checkouts_ok_def)
  note s = set_upd_one [OF d co]
  have mode: "bc_mode (f co) = bc_mode co" using f(1) [of co] by (simp add: co_key_def)
  have "\<forall>q \<in> set (upd_row co_key (co_key co) f (lg_checkouts g)). checkout_ok g q"
    using ok row by (auto simp: s checkouts_ok_def)
  moreover have "distinct (map workspace_key (filter (\<lambda>co. live_state (bc_state co)) (upd_row co_key (co_key co) f (lg_checkouts g))))"
    using distinct_upd_row_filter [of workspace_key "\<lambda>co. live_state (bc_state co)" "lg_checkouts g" co_key "co_key co" f]
      ok f(2,3) key_eq_row [OF d _ co] by (auto simp: checkouts_ok_def)
  moreover have "unique_ref bc_mode bc_session (upd_row co_key (co_key co) f (lg_checkouts g))"
    by (rule unique_ref_update [OF _ d co]) (use ok session mode in \<open>auto simp: checkouts_ok_def\<close>)
  ultimately show ?thesis using d f(1) by (simp add: checkouts_ok_def checkout_ok_def)
qed

lemma checkouts_other: "lg_customers h = lg_customers g \<Longrightarrow> lg_checkouts h = lg_checkouts g \<Longrightarrow> checkouts_ok h = checkouts_ok g"
  by (simp add: checkouts_ok_def checkout_ok_def)

lemma checkouts_bound:
  assumes "checkouts_ok g" and "lg_checkouts h = lg_checkouts g"
    and "\<And>m w c. bound_to m w c (lg_customers g) \<Longrightarrow> bound_to m w c (lg_customers h)"
  shows "checkouts_ok h"
proof -
  have "checkout_ok h co" if "checkout_ok g co" for co
    using that assms(3) [of "bc_mode co" "bc_workspace co" "bc_customer co"] by (simp add: checkout_ok_def)
  with assms(1,2) show ?thesis by (simp add: checkouts_ok_def)
qed

lemma checkouts_retarget:
  assumes ok: "checkouts_ok g" and co: "co \<in> set (lg_checkouts g)" and prior: "bc_state co = ''open'' \<or> bc_state co = target"
    and target: "target = ''completed'' \<or> target = ''expired''"
  shows "checkouts_ok (g\<lparr>lg_checkouts := upd_row co_key (co_key co) (\<lambda>q. q\<lparr>bc_state := target\<rparr>) (lg_checkouts g)\<rparr>)"
proof (rule checkouts_update [OF ok co])
  show "checkout_ok g (co\<lparr>bc_state := target\<rparr>)"
    using ok co prior target by (auto simp: checkouts_ok_def checkout_ok_def checkout_states_def)
  show "live_state (bc_state (co\<lparr>bc_state := target\<rparr>)) \<longrightarrow> live_state (bc_state co)"
    using prior by (auto simp: live_state_def)
  show "q = co" if "q \<in> set (lg_checkouts g)" "bc_mode q = bc_mode co" "bc_session q = bc_session (co\<lparr>bc_state := target\<rparr>)"
    "bc_session q \<noteq> None" for q
    using ok co that unfolding checkouts_ok_def unique_ref_def by auto
qed simp_all

lemma checkouts_step: "ledger_step g h \<Longrightarrow> customers_ok g \<Longrightarrow> checkouts_ok g \<Longrightarrow> checkouts_ok h"
proof (induction rule: ledger_step.induct)
  case (customer_requested cu g)
  then show ?case by (intro checkouts_bound [OF customer_requested.prems(2)]) (auto simp: bound_to_def)
next
  case (customer_bound cu g customer)
  from bound_step [OF ledger_step.customer_bound [OF customer_bound.hyps] customer_bound.prems(1)]
  show ?case by (intro checkouts_bound [OF customer_bound.prems(2)]) simp_all
next
  case (checkout_requested co g)
  have "workspace_key co \<notin> workspace_key ` set (filter (\<lambda>co. live_state (bc_state co)) (lg_checkouts g))"
    using checkout_requested.hyps(6) by (auto simp: workspace_key_def)
  moreover have "checkout_ok g co"
    using checkout_requested.hyps by (simp add: checkout_ok_def checkout_states_def)
  ultimately show ?case using checkout_requested.prems(2) checkout_requested.hyps(1-3)
    by (auto simp: checkouts_ok_def checkout_ok_def intro: unique_ref_append)
next
  case (checkout_opened co g session link)
  show ?case
  proof (rule checkouts_update [OF checkout_opened.prems(2) checkout_opened.hyps(1)])
    show "checkout_ok g (co\<lparr>bc_session := Some session, bc_url := link, bc_state := ''open''\<rparr>)"
      using checkout_opened.prems(2) checkout_opened.hyps(1) by (auto simp: checkouts_ok_def checkout_ok_def checkout_states_def)
    show "live_state (bc_state (co\<lparr>bc_session := Some session, bc_url := link, bc_state := ''open''\<rparr>)) \<longrightarrow> live_state (bc_state co)"
      using checkout_opened.hyps(3) by (simp add: live_state_def)
  qed (use checkout_opened.hyps(4) in auto)
next
  case (checkout_completed co g e sub subs)
  from checkouts_retarget [OF checkout_completed.prems(2) checkout_completed.hyps(1), of "''completed''"] checkout_completed.hyps(2)
  show ?case by (auto simp: checkouts_ok_def checkout_ok_def)
next
  case (checkout_expired co g e)
  from checkouts_retarget [OF checkout_expired.prems(2) checkout_expired.hyps(1), of "''expired''"] checkout_expired.hyps(2)
  show ?case by (auto simp: checkouts_ok_def checkout_ok_def)
qed (simp_all add: checkouts_ok_def checkout_ok_def)

section \<open>Subscriptions\<close>

text \<open>Completed checkouts and processed events are for ever, and a subscription keeps its identity.\<close>

lemma backs_state: "backs co s \<Longrightarrow> bc_state co = ''completed''"
  by (simp add: backs_def)

lemma backs_step:
  assumes "ledger_step g h" and "checkouts_ok g" and "\<exists>co \<in> set (lg_checkouts g). backs co s"
  shows "\<exists>co \<in> set (lg_checkouts h). backs co s"
  using assms
proof (induction rule: ledger_step.induct)
  case (checkout_opened co g session link)
  then have d: "distinct (map co_key (lg_checkouts g))" by (simp add: checkouts_ok_def)
  from checkout_opened.prems(2) obtain q where "q \<in> set (lg_checkouts g)" "backs q s" by blast
  with checkout_opened.hyps(3) show ?case
    by (auto simp: set_upd_one [OF d checkout_opened.hyps(1)] dest: backs_state intro!: bexI [of _ q])
next
  case (checkout_completed co g e sub subs)
  then have d: "distinct (map co_key (lg_checkouts g))" by (simp add: checkouts_ok_def)
  from checkout_completed.prems(2) obtain q where q: "q \<in> set (lg_checkouts g)" "backs q s" by blast
  then have "q\<lparr>bc_state := ''completed''\<rparr> = q" by (simp add: backs_def)
  with q show ?case
    by (auto simp: set_upd_one [OF d checkout_completed.hyps(1)] intro!: bexI [of _ q])
next
  case (checkout_expired co g e)
  then have d: "distinct (map co_key (lg_checkouts g))" by (simp add: checkouts_ok_def)
  from checkout_expired.prems(2) obtain q where "q \<in> set (lg_checkouts g)" "backs q s" by blast
  with checkout_expired.hyps(2) show ?case
    by (auto simp: set_upd_one [OF d checkout_expired.hyps(1)] dest: backs_state intro!: bexI [of _ q])
qed auto

definition event_processed :: "string \<times> string \<Rightarrow> ledger \<Rightarrow> bool" where
  "event_processed k g \<longleftrightarrow> (\<exists>e \<in> set (lg_events g). be_key e = k \<and> be_state e = ''processed'')"

lemma processed_update:
  assumes "distinct (map be_key (lg_events g))" and "event_processed k g" and "e \<in> set (lg_events g)" and "be_state e = ''pending''"
  shows "event_processed k (h\<lparr>lg_events := upd_row be_key (be_key e) f (lg_events g)\<rparr>)"
  using assms(2-4) by (auto simp: event_processed_def set_upd_one [OF assms(1,3)])

lemma processed_step: "ledger_step g h \<Longrightarrow> events_ok g \<Longrightarrow> event_processed k g \<Longrightarrow> event_processed k h"
proof (induction rule: ledger_step.induct)
  case (checkout_completed co g e sub subs)
  then show ?case by (intro processed_update) (simp_all add: events_ok_def)
next
  case (checkout_expired co g e)
  then show ?case by (intro processed_update) (simp_all add: events_ok_def)
next
  case (event_ignored e g)
  then show ?case by (intro processed_update) (simp_all add: events_ok_def)
next
  case (refresh_signalled s g e)
  then show ?case by (intro processed_update) (simp_all add: events_ok_def)
qed (auto simp: event_processed_def)

lemma sub_ok_alt:
  "sub_ok g s \<longleftrightarrow> (\<exists>co \<in> set (lg_checkouts g). backs co s) \<and> event_processed (bs_mode s, bs_first_event s) g
     \<and> (case bs_snapshot s of Null \<Rightarrow> True | Json sp \<Rightarrow> snapshot_of s sp | _ \<Rightarrow> False)"
  by (auto simp: sub_ok_def event_processed_def)

lemma sub_ok_step: "ledger_step g h \<Longrightarrow> checkouts_ok g \<Longrightarrow> events_ok g \<Longrightarrow> sub_ok g s \<Longrightarrow> sub_ok h s"
  using backs_step processed_step unfolding sub_ok_alt by blast

text \<open>The identity of a subscription: everything but generation and snapshot.\<close>

definition sub_id :: "billing_subscription \<Rightarrow> billing_subscription" where
  "sub_id s = s\<lparr>bs_generation := 0, bs_snapshot := Null\<rparr>"

lemma sub_id_fields:
  assumes "sub_id t = sub_id s"
  shows "sub_key t = sub_key s" "bs_checkout t = bs_checkout s" "bs_mode t = bs_mode s" "bs_customer t = bs_customer s"
    "bs_first_event t = bs_first_event s" "backs co t = backs co s" "snapshot_of t sp = snapshot_of s sp" "bs_id t = bs_id s"
    "bs_price t = bs_price s" "bs_workspace t = bs_workspace s" "bs_plan t = bs_plan s"
  using assms by (cases s; cases t; simp add: sub_id_def sub_key_def backs_def snapshot_of_def)+

lemma sub_id_updates [simp]:
  "sub_id (s\<lparr>bs_generation := n\<rparr>) = sub_id s" "sub_id (s\<lparr>bs_snapshot := d\<rparr>) = sub_id s" "sub_id (sub_id s) = sub_id s"
  by (simp_all add: sub_id_def)

lemma subs_map:
  assumes ok: "subs_ok g" and f: "\<And>s. s \<in> set (lg_subs g) \<Longrightarrow> sub_id (f s) = sub_id s \<and> sub_ok h (f s)"
    and h: "lg_subs h = map f (lg_subs g)"
  shows "subs_ok h"
proof -
  have "map sub_key (lg_subs h) = map sub_key (lg_subs g)"
    "map (\<lambda>s. (bs_mode s, bs_checkout s)) (lg_subs h) = map (\<lambda>s. (bs_mode s, bs_checkout s)) (lg_subs g)"
    using f by (auto simp: h dest: sub_id_fields)
  moreover have "\<forall>s \<in> set (lg_subs h). sub_ok h s" using f by (auto simp: h)
  ultimately show ?thesis using ok unfolding subs_ok_def by simp
qed

lemma sub_ok_refresh:
  assumes "sub_ok g s" and "sub_id t = sub_id s" and "bs_snapshot t = bs_snapshot s \<or> bs_snapshot t = Null \<or> (\<exists>sp. bs_snapshot t = Json sp \<and> snapshot_of s sp)"
  shows "sub_ok g t"
  using assms by (auto simp: sub_ok_alt sub_id_fields [OF assms(2)] split: column.splits)

lemma sub_ok_same:
  assumes "ledger_step g h" and "checkouts_ok g" "events_ok g" "subs_ok g" and "lg_subs h = lg_subs g"
  shows "subs_ok h"
  using subs_map [of g id h] assms sub_ok_step [OF assms(1-3)] by (simp add: subs_ok_def)

lemma subs_update:
  assumes "ledger_step g h" and "checkouts_ok g" "events_ok g" "subs_ok g" and h: "lg_subs h = upd_row sub_key k f (lg_subs g)"
    and f: "\<And>s. s \<in> set (lg_subs g) \<Longrightarrow> sub_key s = k \<Longrightarrow> sub_id (f s) = sub_id s
      \<and> (bs_snapshot (f s) = bs_snapshot s \<or> bs_snapshot (f s) = Null \<or> (\<exists>sp. bs_snapshot (f s) = Json sp \<and> snapshot_of s sp))"
  shows "subs_ok h"
proof (rule subs_map [OF assms(4)])
  show "lg_subs h = map (\<lambda>s. if sub_key s = k then f s else s) (lg_subs g)" using h by (simp add: upd_row_def)
  fix s assume s: "s \<in> set (lg_subs g)"
  with assms(4) have "sub_ok h s" by (intro sub_ok_step [OF assms(1-3)]) (simp add: subs_ok_def)
  with f [OF s] sub_ok_refresh [of h s "f s"]
  show "sub_id (if sub_key s = k then f s else s) = sub_id s \<and> sub_ok h (if sub_key s = k then f s else s)" by auto
qed

lemma subs_completed:
  assumes step: "ledger_step g h" and ok: "checkouts_ok g" "events_ok g" "subs_ok g"
    and h: "h = g\<lparr>lg_subs := subs, lg_checkouts := upd_row co_key (co_key co) (\<lambda>q. q\<lparr>bc_state := ''completed''\<rparr>) (lg_checkouts g),
           lg_events := upd_row be_key (be_key e) processed (lg_events g)\<rparr>"
    and co: "co \<in> set (lg_checkouts g)" and e: "e \<in> set (lg_events g)" "be_mode e = bc_mode co"
    and sub: "subscription_for (be_id e) co sub (lg_subs g) subs"
  shows "subs_ok h"
proof (cases "subs = lg_subs g")
  case True
  with sub_ok_same [OF step ok] h show ?thesis by simp
next
  case False
  let ?r = "opening_row (be_id e) co sub"
  from False sub have new: "\<forall>s \<in> set (lg_subs g). bs_mode s = bc_mode co \<longrightarrow> bs_id s \<noteq> sub \<and> bs_checkout s \<noteq> bc_id co"
    "subs = lg_subs g @ [?r]" by (auto simp: subscription_for_def)
  have d: "distinct (map co_key (lg_checkouts g))" "distinct (map be_key (lg_events g))"
    using ok by (simp_all add: checkouts_ok_def events_ok_def)
  have "event_processed (be_key e) h" "\<exists>q \<in> set (lg_checkouts h). backs q ?r"
    unfolding event_processed_def h
    by (simp_all add: set_upd_one [OF d(1) co] set_upd_one [OF d(2) e(1)] opening_row_def backs_def processed_def)
  then have "sub_ok h ?r" using e(2) by (simp add: sub_ok_alt opening_row_def be_key_def)
  moreover have "\<forall>s \<in> set (lg_subs g). sub_ok h s" using ok(3) sub_ok_step [OF step ok(1,2)] by (simp add: subs_ok_def)
  moreover have "sub_key ?r \<notin> sub_key ` set (lg_subs g)" "(bs_mode ?r, bs_checkout ?r) \<notin> (\<lambda>s. (bs_mode s, bs_checkout s)) ` set (lg_subs g)"
    using new(1) by (auto simp: opening_row_def sub_key_def)
  ultimately show ?thesis using ok(3) h new(2) by (simp add: subs_ok_def)
qed

lemma subs_step:
  assumes "ledger_step g h" and "checkouts_ok g" "events_ok g" "subs_ok g"
  shows "subs_ok h"
  using assms(1)
proof cases
  case (checkout_completed co e sub subs)
  with subs_completed [OF assms] show ?thesis by blast
next
  case (refresh_signalled s e)
  show ?thesis
    by (rule subs_update [OF assms, of "(bs_mode s, bs_id s)" "\<lambda>s. s\<lparr>bs_generation := bs_generation s + 1, bs_snapshot := Null\<rparr>"]) (simp_all add: refresh_signalled(1) fence_subscription_def)
next
  case (read_started k)
  show ?thesis
    by (rule subs_update [OF assms, of k "\<lambda>s. s\<lparr>bs_generation := bs_generation s + 1\<rparr>"]) (simp_all add: read_started)
next
  case (snapshot_stored s sp charge)
  have d: "distinct (map sub_key (lg_subs g))" using assms(4) by (simp add: subs_ok_def)
  let ?f = "\<lambda>q. if bs_generation q = bs_generation s then q\<lparr>bs_snapshot := Json sp\<rparr> else q"
  show ?thesis
  proof (rule subs_update [OF assms])
    show "lg_subs h = upd_row sub_key (sub_key s) ?f (lg_subs g)" by (simp add: snapshot_stored(1))
    fix q assume "q \<in> set (lg_subs g)" "sub_key q = sub_key s"
    with key_eq_row [OF d] snapshot_stored(2) have "q = s" by blast
    with snapshot_stored(3) show "sub_id (?f q) = sub_id q \<and> (bs_snapshot (?f q) = bs_snapshot q \<or> bs_snapshot (?f q) = Null
        \<or> (\<exists>sp. bs_snapshot (?f q) = Json sp \<and> snapshot_of q sp))" by simp
  qed
qed (rule sub_ok_same [OF assms], simp)+

section \<open>Charges and events\<close>

lemma sub_kept:
  assumes "ledger_step g h" and "s \<in> set (lg_subs g)"
  shows "\<exists>t \<in> set (lg_subs h). sub_id t = sub_id s"
proof -
  have upd: "\<exists>t \<in> set (upd_row sub_key k f (lg_subs g)). sub_id t = sub_id s" if "\<And>q. sub_id (f q) = sub_id q" for k f
    using assms(2) that by (auto simp: set_upd_row)
  from assms(1) show ?thesis
  proof cases
    case (checkout_completed co e sub subs)
    with assms(2) show ?thesis by (auto simp: subscription_for_def)
  next
    case (refresh_signalled t e)
    with upd show ?thesis by (simp add: fence_subscription_def)
  next
    case (read_started k)
    with upd show ?thesis by simp
  next
    case (snapshot_stored t sp charge)
    with upd [of "\<lambda>q. if bs_generation q = bs_generation t then q\<lparr>bs_snapshot := Json sp\<rparr> else q"] show ?thesis by simp
  qed (use assms(2) in auto)
qed

lemma charge_row_step: "ledger_step g h \<Longrightarrow> charge_row_ok g ch \<Longrightarrow> charge_row_ok h ch"
  by (auto simp: charge_row_ok_def split: column.splits) (metis sub_kept sub_id_fields(1,4))

lemma charges_update:
  assumes step: "ledger_step g h" and ok: "charges_ok g" and h: "lg_charges h = upd_row ch_key k f (lg_charges g)"
    and f: "\<And>q. ch_key (f q) = ch_key q"
    and row: "\<And>q. q \<in> set (lg_charges g) \<Longrightarrow> ch_key q = k \<Longrightarrow> charge_row_ok h q \<Longrightarrow> charge_row_ok h (f q)"
  shows "charges_ok h"
proof -
  have "\<forall>q \<in> set (lg_charges g). charge_row_ok h q" using ok charge_row_step [OF step] by (simp add: charges_ok_def)
  then have "\<forall>q \<in> set (lg_charges h). charge_row_ok h q" using row by (auto simp: h set_upd_row)
  with ok f show ?thesis by (simp add: charges_ok_def h)
qed

lemma charges_new:
  assumes "ledger_step g h" and "charges_ok g" and "lg_charges h = lg_charges g \<or> (\<exists>mode ident n. (mode, ident) \<notin> ch_key ` set (lg_charges g)
      \<and> lg_charges h = lg_charges g @ [blank_charge mode ident n])"
  shows "charges_ok h"
proof -
  have "\<forall>q \<in> set (lg_charges g). charge_row_ok h q" using assms(2) charge_row_step [OF assms(1)] by (simp add: charges_ok_def)
  moreover have "charge_row_ok h (blank_charge mode ident n)" "ch_key (blank_charge mode ident n) = (mode, ident)" for mode ident n
    by (simp_all add: charge_row_ok_def blank_charge_def ch_key_def)
  ultimately show ?thesis using assms(2,3) by (auto simp: charges_ok_def)
qed

lemma ensure_charge_cases:
  "ensure_charge mode ident rows = rows \<or> (mode, ident) \<notin> ch_key ` set rows \<and> ensure_charge mode ident rows = rows @ [blank_charge mode ident 0]"
  by (auto simp: ensure_charge_def get_row_None split: option.splits)

lemma charges_step:
  assumes "ledger_step g h" and "charges_ok g"
  shows "charges_ok h"
  using assms(1)
proof cases
  case (snapshot_stored s sp charge)
  with ensure_charge_cases [of "bs_mode s" charge "lg_charges g"] show ?thesis
    by (intro charges_new [OF assms]) auto
next
  case (charge_seen mode ident n)
  then show ?thesis by (intro charges_new [OF assms]) auto
next
  case (charge_scheduled k z f)
  show ?thesis
    by (rule charges_update [OF assms, of k "\<lambda>q. q\<lparr>ch_generation := f (ch_generation q), ch_next_refresh := z (ch_next_refresh q)\<rparr>"])
      (auto simp: charge_scheduled charge_row_ok_def ch_key_def split: column.splits)
next
  case (charge_observed ch ob s refresh)
  have d: "distinct (map ch_key (lg_charges g))" using assms(2) by (simp add: charges_ok_def)
  show ?thesis
  proof (rule charges_update [OF assms])
    show "lg_charges h = upd_row ch_key (ch_key ch) (charge_bound ob refresh) (lg_charges g)" by (simp add: charge_observed(1))
    fix q assume "q \<in> set (lg_charges g)" "ch_key q = ch_key ch"
    with key_eq_row [OF d] charge_observed(2) have "q = ch" by blast
    with charge_observed show "charge_row_ok h (charge_bound ob refresh q)"
      by (auto simp: charge_row_ok_def charge_bound_def)
  qed simp
qed (rule charges_new [OF assms], simp)+

lemma inbox_update:
  assumes "\<And>e. be_mode (f e) = be_mode e" "\<And>e. be_payload (f e) = be_payload e"
  shows "inbox_count mode (upd_row be_key k f es) = inbox_count mode es" "inbox_bytes mode (upd_row be_key k f es) = inbox_bytes mode es"
  using assms by (induction es) (auto simp: inbox_count_def inbox_bytes_def)

lemma processed_fields [simp]: "be_mode (processed e) = be_mode e" "be_payload (processed e) = be_payload e"
  by (simp_all add: processed_def)

lemma events_step: "ledger_step g h \<Longrightarrow> events_ok g \<Longrightarrow> events_ok h"
proof (induction rule: ledger_step.induct)
  case (event_accepted e g)
  then show ?case by (auto simp: events_ok_def inbox_count_def inbox_bytes_def)
qed (simp_all add: events_ok_def inbox_update)

lemma ledger_ok_step: "ledger_step g h \<Longrightarrow> ledger_ok g \<Longrightarrow> ledger_ok h"
  by (simp add: ledger_ok_def limits_step customers_step checkouts_step subs_step charges_step events_step)

end
