(* ===== verification/Billing_Safety.thy ===== *)
theory Billing_Safety
  imports Billing_Ledger
begin

text \<open>
  The billing store implements the ledger: every committing transaction is a step of
  \<open>Billing_Ledger\<close> on the tables. From the ledger's invariant follow the guarantees that the
  hosting decision of \<open>Portal_Hosting\<close> rests on.
\<close>

section \<open>The tables as a ledger\<close>

definition ledger_of :: "'x billing_db_scheme \<Rightarrow> ledger" where
  "ledger_of db =
     \<lparr>lg_limits = hosting_plan_limits db, lg_customers = billing_customers db, lg_checkouts = billing_checkouts db,
      lg_subs = billing_subscriptions db, lg_charges = billing_charges db, lg_events = billing_events db\<rparr>"

lemma ledger_of_simps [simp]:
  "lg_limits (ledger_of db) = hosting_plan_limits db" "lg_customers (ledger_of db) = billing_customers db"
  "lg_checkouts (ledger_of db) = billing_checkouts db" "lg_subs (ledger_of db) = billing_subscriptions db"
  "lg_charges (ledger_of db) = billing_charges db" "lg_events (ledger_of db) = billing_events db"
  by (simp_all add: ledger_of_def)

lemma ledger_of_more: "accounts_db.more db' = accounts_db.more db \<Longrightarrow> ledger_of db' = ledger_of db"
  by (cases db; cases db') (simp add: ledger_of_def)

lemma ledger_audit: "audit ident actor ws action now db = Inr db' \<Longrightarrow> ledger_of db' = ledger_of db"
  by (intro ledger_of_more audit_more)

lemma ledger_of_updates [simp]:
  "ledger_of (db\<lparr>hosting_plan_limits := ls\<rparr>) = (ledger_of db)\<lparr>lg_limits := ls\<rparr>"
  "ledger_of (db\<lparr>billing_customers := cs\<rparr>) = (ledger_of db)\<lparr>lg_customers := cs\<rparr>"
  "ledger_of (db\<lparr>billing_checkouts := os\<rparr>) = (ledger_of db)\<lparr>lg_checkouts := os\<rparr>"
  "ledger_of (db\<lparr>billing_subscriptions := ss\<rparr>) = (ledger_of db)\<lparr>lg_subs := ss\<rparr>"
  "ledger_of (db\<lparr>billing_charges := hs\<rparr>) = (ledger_of db)\<lparr>lg_charges := hs\<rparr>"
  "ledger_of (db\<lparr>billing_events := es\<rparr>) = (ledger_of db)\<lparr>lg_events := es\<rparr>"
  "ledger_of (db\<lparr>billing_plans := ps\<rparr>) = ledger_of db" "ledger_of (db\<lparr>billing_work := ws\<rparr>) = ledger_of db"
  by (simp_all add: ledger_of_def)

section \<open>Every transaction is a step\<close>

lemma limits_sim:
  assumes "configure_limits_tx cfg c plan l db = Inr (r, db')"
  shows "ledger_step (ledger_of db) (ledger_of db')"
proof -
  from assms obtain rows where a: "audit (cl_token c 0) ''operator'' [] (''hosting.plan-limits.configured:'' @ plan) (cl_now c 0)
      (db\<lparr>hosting_plan_limits := rows\<rparr>) = Inr db'"
    and l: "limits_in_range l"
    and rows: "rows = hosting_plan_limits db @ [\<lparr>pl_mode = billingModeValue cfg, pl_plan = plan, pl_limits = l\<rparr>]
      \<or> rows = upd_row pl_key (billingModeValue cfg, plan) (\<lambda>r. r\<lparr>pl_limits := l\<rparr>) (hosting_plan_limits db)"
    by (auto simp: configure_limits_tx_def Let_def split: option.splits)
  have "\<forall>r \<in> set rows. r \<in> set (hosting_plan_limits db) \<or> limits_in_range (pl_limits r)"
    using l rows by (auto simp: set_upd_row)
  with ledger_step.limits_set [of rows "ledger_of db"] ledger_audit [OF a] show ?thesis by simp
qed

lemma request_customer_sim:
  assumes "request_customer_tx lib cfg c token workspace db = Inr (cu, db')"
  shows "ledger_step (ledger_of db) (ledger_of db')"
proof (cases "get_row cu_key (billingModeValue cfg, workspace) (billing_customers db)")
  case None
  with assms obtain actor where "cu_customer cu = None" "cu_key cu \<notin> cu_key ` set (billing_customers db)"
    "req_key cu \<notin> req_key ` set (billing_customers db)"
    and a: "audit (cl_token c 1) actor workspace (''billing.customer_requested:'' @ cu_request cu) (cu_created cu)
       (db\<lparr>billing_customers := billing_customers db @ [cu]\<rparr>) = Inr db'"
    by (auto simp: request_customer_tx_def Let_def insert_row_Inr)
  with ledger_step.customer_requested [of cu "ledger_of db"] ledger_audit [OF a] show ?thesis by simp
next
  case (Some q)
  with assms have "db' = db" by (auto simp: request_customer_tx_def Let_def)
  then show ?thesis by (simp add: ledger_step.stay)
qed

lemma bind_customer_sim:
  assumes "bind_customer_tx cfg c request customer db = Inr (r, db')"
  shows "ledger_step (ledger_of db) (ledger_of db')"
proof -
  obtain cu where cu: "get_row req_key (billingModeValue cfg, request) (billing_customers db) = Some cu"
    using assms by (auto simp: bind_customer_tx_def Let_def)
  have mem: "cu \<in> set (billing_customers db)" "req_key cu = (billingModeValue cfg, request)"
    using get_row_SomeD [OF cu] by simp_all
  show ?thesis
  proof (cases "cu_customer cu")
    case None
    with assms cu have a: "audit (cl_token c 0) (cu_actor cu) (cu_workspace cu) (''billing.customer_bound:'' @ request) (cl_now c 0)
        (db\<lparr>billing_customers := upd_row req_key (req_key cu) (\<lambda>q. q\<lparr>cu_customer := Some customer\<rparr>) (billing_customers db)\<rparr>) = Inr db'"
      and used: "filter (\<lambda>q. cu_mode q = billingModeValue cfg \<and> cu_customer q = Some customer) (billing_customers db) = []"
      by (auto simp: bind_customer_tx_def Let_def seq_simps mem(2))
    from used mem(2) have "\<forall>q \<in> set (billing_customers db). cu_mode q = cu_mode cu \<longrightarrow> cu_customer q \<noteq> Some customer"
      by (auto simp: filter_empty_conv req_key_def)
    with ledger_step.customer_bound [of cu "ledger_of db" customer] mem(1) None ledger_audit [OF a] show ?thesis by simp
  next
    case (Some x)
    with assms cu have "db' = db" by (auto simp: bind_customer_tx_def Let_def seq_simps)
    then show ?thesis by (simp add: ledger_step.stay)
  qed
qed

lemma new_checkoutD:
  assumes "new_checkout cfg c actor workspace plan db = Inr co" and "limits_ok (ledger_of db)"
  shows "bc_state co = ''pending'' \<and> bc_session co = None \<and> bc_mode co = billingModeValue cfg \<and> bc_workspace co = workspace
    \<and> bc_plan co = plan \<and> bc_actor co = actor \<and> saved_limits_ok (bc_limits co)
    \<and> bound_to (billingModeValue cfg) workspace (bc_customer co) (billing_customers db)
    \<and> (\<exists>p \<in> set (billing_plans db). bp_key p = (billingModeValue cfg, plan) \<and> bp_enabled p \<and> bp_price p = bc_price co)"
proof -
  obtain p cu where p: "List.find (\<lambda>p. bp_mode p = billingModeValue cfg \<and> bp_id p = plan \<and> bp_enabled p) (billing_plans db) = Some p"
    and cu: "List.find (\<lambda>cu. cu_mode cu = billingModeValue cfg \<and> cu_workspace cu = workspace \<and> cu_customer cu \<noteq> None)
      (billing_customers db) = Some cu"
    and co: "bc_state co = ''pending''" "bc_session co = None" "bc_mode co = billingModeValue cfg" "bc_workspace co = workspace"
      "bc_plan co = plan" "bc_actor co = actor" "bc_customer co = (case cu_customer cu of Some x \<Rightarrow> x | None \<Rightarrow> [])"
      "bc_price co = bp_price p" "bc_limits co = (case savedHostingLimits cfg plan db of None \<Rightarrow> Null | Some l \<Rightarrow> Json l)"
    using assms(1) by (auto simp: new_checkout_def Let_def)
  have "saved_limits_ok (bc_limits co)"
    using assms(2) co(9) get_row_SomeD [of pl_key _ "hosting_plan_limits db"]
    by (auto simp: savedHostingLimits_def saved_limits_ok_def limits_ok_def split: option.splits)
  moreover from find_SomeD [OF cu] co(7) have "bound_to (billingModeValue cfg) workspace (bc_customer co) (billing_customers db)"
    by (auto simp: bound_to_def cu_key_def)
  ultimately show ?thesis using find_SomeD [OF p] co by (auto simp: bp_key_def)
qed

lemma request_checkout_sim:
  assumes "request_checkout_tx lib cfg c token workspace plan db = Inr (co, db')" and "limits_ok (ledger_of db)"
  shows "ledger_step (ledger_of db) (ledger_of db')"
proof (cases "live_checkout (billingModeValue cfg) workspace db")
  case None
  with assms(1) obtain actor where co: "new_checkout cfg c actor workspace plan db = Inr co"
    "co_key co \<notin> co_key ` set (billing_checkouts db)"
    and a: "audit (cl_token c 1) actor workspace (''billing.checkout_requested:'' @ bc_id co) (bc_created co)
        (db\<lparr>billing_checkouts := billing_checkouts db @ [co]\<rparr>) = Inr db'"
    by (auto simp: request_checkout_tx_def insert_row_Inr)
  have "\<forall>q \<in> set (billing_checkouts db). bc_mode q = bc_mode co \<and> bc_workspace q = bc_workspace co \<longrightarrow> \<not> live_state (bc_state q)"
    using None new_checkoutD [OF co(1) assms(2)] by (auto simp: live_checkout_def find_None_iff)
  with ledger_step.checkout_requested [of co "ledger_of db"] new_checkoutD [OF co(1) assms(2)] co(2) ledger_audit [OF a]
  show ?thesis by simp
next
  case (Some q)
  with assms(1) have "db' = db" by (auto simp: request_checkout_tx_def)
  then show ?thesis by (simp add: ledger_step.stay)
qed

lemma scanCheckout_Inr [simp]: "scanCheckout row = Inr co \<longleftrightarrow> co = row \<and> (\<exists>l. decodeHostingLimits (bc_limits row) = Inr l)"
  by (auto simp: scanCheckout_def)

lemma bind_checkout_sim:
  assumes "bind_checkout_tx cfg c ident session link db = Inr (r, db')"
  shows "ledger_step (ledger_of db) (ledger_of db')"
proof -
  obtain co where co: "get_row co_key (billingModeValue cfg, ident) (billing_checkouts db) = Some co" "scanCheckout co = Inr co"
    using assms by (auto simp: bind_checkout_tx_def Let_def)
  have mem: "co \<in> set (billing_checkouts db)" "co_key co = (billingModeValue cfg, ident)"
    using get_row_SomeD [OF co(1)] by simp_all
  show ?thesis
  proof (cases "bc_session co")
    case None
    with assms co have a: "audit (cl_token c 0) (bc_actor co) (bc_workspace co) (''billing.checkout_opened:'' @ ident) (cl_now c 0)
        (db\<lparr>billing_checkouts := upd_row co_key (co_key co)
              (\<lambda>q. q\<lparr>bc_session := Some session, bc_url := link, bc_state := ''open''\<rparr>) (billing_checkouts db)\<rparr>) = Inr db'"
      and st: "bc_state co = ''pending''"
      and used: "filter (\<lambda>q. bc_mode q = billingModeValue cfg \<and> bc_session q = Some session) (billing_checkouts db) = []"
      by (auto simp: bind_checkout_tx_def Let_def seq_simps mem(2))
    from used mem(2) have "\<forall>q \<in> set (billing_checkouts db). bc_mode q = bc_mode co \<longrightarrow> bc_session q \<noteq> Some session"
      by (auto simp: filter_empty_conv co_key_def)
    with ledger_step.checkout_opened [of co "ledger_of db" session link] mem(1) None st ledger_audit [OF a] show ?thesis by simp
  next
    case (Some x)
    with assms co have "db' = db" by (auto simp: bind_checkout_tx_def Let_def seq_simps)
    then show ?thesis by (simp add: ledger_step.stay)
  qed
qed

lemma accept_event_sim:
  assumes "accept_event_tx el cfg c ev payload db = Inr (r, db')"
  shows "ledger_step (ledger_of db) (ledger_of db')"
proof (cases "get_row be_key (billingModeValue cfg, ev_ID ev) (billing_events db)")
  case None
  let ?e = "\<lparr>be_mode = billingModeValue cfg, be_id = ev_ID ev, be_type = ev_Type ev, be_created = ev_Created ev,
     be_fingerprint = el_fingerprint el (ev_Type ev) (ev_Created ev) payload, be_payload = payload, be_state = ''pending'',
     be_received = cl_now c 0\<rparr>"
  from None assms have "be_key ?e \<notin> be_key ` set (billing_events db)" "db' = db\<lparr>billing_events := billing_events db @ [?e]\<rparr>"
    "inbox_count (billingModeValue cfg) (billing_events db) < billingInboxEvents"
    "inbox_bytes (billingModeValue cfg) (billing_events db) + int (length payload) \<le> billingInboxBytes"
    by (auto simp: accept_event_tx_def Let_def insert_row_Inr)
  with ledger_step.event_accepted [of ?e "ledger_of db"] show ?thesis by simp
next
  case (Some e)
  with assms have "db' = db" by (auto simp: accept_event_tx_def Let_def)
  then show ?thesis by (simp add: ledger_step.stay)
qed

lemma set_event_processed: "set_event_state mode event ''processed'' = upd_row be_key (mode, event) processed"
  by (simp add: set_event_state_def processed_def [abs_def])

lemma bind_subscription_Inr:
  assumes "bind_subscription mode event co sub db = Inr db'" and "bc_mode co = mode" and "subs_ok (ledger_of db)"
  shows "\<exists>subs. db' = db\<lparr>billing_subscriptions := subs\<rparr> \<and> subscription_for event co sub (billing_subscriptions db) subs"
proof (cases "List.find (\<lambda>s. bs_mode s = mode \<and> (bs_id s = sub \<or> bs_checkout s = bc_id co)) (billing_subscriptions db)")
  case None
  with assms(1,2) have "db' = db\<lparr>billing_subscriptions := billing_subscriptions db @ [opening_row event co sub]\<rparr>"
    by (auto simp: bind_subscription_def insert_row_Inr opening_row_def)
  moreover have "subscription_for event co sub (billing_subscriptions db) (billing_subscriptions db @ [opening_row event co sub])"
    using None assms(2) by (auto simp: subscription_for_def find_None_iff)
  ultimately show ?thesis by blast
next
  case (Some s)
  with assms(1) have "bs_id s = sub" "bs_checkout s = bc_id co" "db' = db" by (auto simp: bind_subscription_def)
  with find_SomeD [OF Some] assms(2) show ?thesis
    by (intro exI [of _ "billing_subscriptions db"]) (auto simp: subscription_for_def sub_key_def)
qed

text \<open>What a checkout event that changes something found and did.\<close>

lemma checkout_event_cases:
  assumes "checkout_event_tx el cfg c event db = Inr (r, db')"
  shows "db' = db \<or> (\<exists>e cs co. get_row be_key (billingModeValue cfg, event) (billing_events db) = Some e \<and> be_state e = ''pending''
      \<and> decode_session el (billingModeValue cfg) (be_payload e) = Inr cs
      \<and> co \<in> set (billing_checkouts db) \<and> bc_mode co = billingModeValue cfg \<and> bc_session co = Some (cs_ID cs)
      \<and> apply_session cfg c event (be_type e) cs co db = Inr (r, db'))"
proof -
  obtain e where e: "get_row be_key (billingModeValue cfg, event) (billing_events db) = Some e"
    using assms by (auto simp: checkout_event_tx_def Let_def)
  show ?thesis
  proof (cases "be_state e \<noteq> ''pending'' \<or> be_type e \<noteq> ''checkout.session.completed'' \<and> be_type e \<noteq> ''checkout.session.expired''")
    case True
    with assms e show ?thesis by (auto simp: checkout_event_tx_def Let_def seq_simps split: if_splits)
  next
    case False
    with assms e obtain cs co where f: "decode_session el (billingModeValue cfg) (be_payload e) = Inr cs"
      "List.find (\<lambda>co. bc_mode co = billingModeValue cfg \<and> bc_session co = Some (cs_ID cs)) (billing_checkouts db) = Some co"
      "apply_session cfg c event (be_type e) cs co db = Inr (r, db')"
      by (auto simp: checkout_event_tx_def Let_def seq_simps)
    from find_SomeD [OF f(2)] f e False show ?thesis by blast
  qed
qed

lemma settle_checkout_ledger:
  "settle_checkout cfg c event co target db = Inr (r, db') \<Longrightarrow> bc_mode co = billingModeValue cfg \<Longrightarrow>
    ledger_of db' = (ledger_of db)\<lparr>lg_checkouts := upd_row co_key (co_key co) (\<lambda>q. q\<lparr>bc_state := target\<rparr>) (billing_checkouts db),
      lg_events := upd_row be_key (bc_mode co, event) processed (billing_events db)\<rparr>"
  by (auto simp: settle_checkout_def Let_def set_event_processed co_key_def dest!: ledger_audit)

lemma apply_session_sim:
  assumes "apply_session cfg c event kind cs co db = Inr (r, db')" and co: "co \<in> set (billing_checkouts db)" "bc_mode co = billingModeValue cfg"
    and e: "get_row be_key (billingModeValue cfg, event) (billing_events db) = Some e" "be_state e = ''pending''"
    and ok: "subs_ok (ledger_of db)"
  shows "ledger_step (ledger_of db) (ledger_of db')"
proof -
  have ev: "e \<in> set (billing_events db)" "be_key e = (bc_mode co, event)" using get_row_SomeD [OF e(1)] co(2) by auto
  then have evid: "be_mode e = bc_mode co" "be_id e = event" by (simp_all add: be_key_def)
  consider (ignored) "kind = ''checkout.session.expired''" "bc_state co = ''completed''"
    | (expired) "kind = ''checkout.session.expired''" "bc_state co \<noteq> ''completed''" | (completed) "kind \<noteq> ''checkout.session.expired''" by blast
  then show ?thesis
  proof cases
    case ignored
    with assms(1) have "db' = db\<lparr>billing_events := upd_row be_key (be_key e) (\<lambda>e. e\<lparr>be_state := ''ignored''\<rparr>) (billing_events db)\<rparr>"
      by (auto simp: apply_session_def Let_def set_event_state_def ev(2) co(2))
    with ledger_step.event_ignored [of e "ledger_of db"] ev e(2) show ?thesis by simp
  next
    case expired
    with assms(1) have st: "bc_state co = ''open'' \<or> bc_state co = ''expired''" and s: "settle_checkout cfg c event co ''expired'' db = Inr (r, db')"
      by (auto simp: apply_session_def Let_def)
    from ledger_step.checkout_expired [of co "ledger_of db" e] st co(1) ev e(2) settle_checkout_ledger [OF s co(2)]
    show ?thesis by simp
  next
    case completed
    with assms(1) obtain sub db1 where st: "bc_state co = ''open'' \<or> bc_state co = ''completed''"
      and b: "bind_subscription (billingModeValue cfg) event co sub db = Inr db1"
      and s: "settle_checkout cfg c event co ''completed'' db1 = Inr (r, db')"
      by (auto simp: apply_session_def Let_def complete_checkout_def split: option.splits)
    obtain subs where subs: "db1 = db\<lparr>billing_subscriptions := subs\<rparr>" "subscription_for event co sub (billing_subscriptions db) subs"
      using bind_subscription_Inr [OF b co(2) ok] by blast
    from ledger_step.checkout_completed [of co "ledger_of db" e sub subs] st co(1) ev e(2) evid subs(2)
      settle_checkout_ledger [OF s co(2)] subs(1)
    show ?thesis by simp
  qed
qed

lemma checkout_event_sim:
  assumes "checkout_event_tx el cfg c event db = Inr (r, db')" and "subs_ok (ledger_of db)"
  shows "ledger_step (ledger_of db) (ledger_of db')"
  using checkout_event_cases [OF assms(1)] apply_session_sim [OF _ _ _ _ _ assms(2)] ledger_step.stay by metis

lemma refresh_signal_sim:
  assumes "ledger_of db' = ledger_of (refresh_signal mode sub event db)"
    and "get_row be_key (mode, event) (billing_events db) = Some e" "be_state e = ''pending''"
    and "get_row sub_key (mode, sub) (billing_subscriptions db) = Some s"
  shows "ledger_step (ledger_of db) (ledger_of db')"
proof -
  have "e \<in> set (billing_events db)" "be_key e = (mode, event)" "s \<in> set (billing_subscriptions db)" "bs_mode s = mode" "bs_id s = sub"
    using get_row_SomeD [OF assms(2)] get_row_SomeD [OF assms(4)] by (auto simp: sub_key_def)
  with ledger_step.refresh_signalled [of s "ledger_of db" e] assms(1,3) show ?thesis
    by (simp add: refresh_signal_def set_event_processed)
qed

lemma subscription_event_cases:
  assumes "subscription_event_tx el cfg c event db = Inr (r, db')"
  shows "db' = db \<or> (\<exists>e sub s. get_row be_key (billingModeValue cfg, event) (billing_events db) = Some e \<and> be_state e = ''pending''
      \<and> billingRefreshIdentity el (be_type e) (be_payload e) (billingModeValue cfg) = Inr (Some (sub, bs_customer s))
      \<and> get_row sub_key (billingModeValue cfg, sub) (billing_subscriptions db) = Some s
      \<and> (\<exists>action. audit (cl_token c 0) (''stripe-'' @ billingModeValue cfg) (bs_workspace s) action (cl_now c 0)
           (refresh_signal (billingModeValue cfg) sub event db) = Inr db'))"
  using assms by (auto simp: subscription_event_tx_def Let_def split: if_splits option.splits)

lemma charge_event_cases:
  assumes "charge_event_tx cfg c event charge db = Inr (r, db')"
  shows "db' = db \<or> (\<exists>e ch sub s. get_row be_key (billingModeValue cfg, event) (billing_events db) = Some e \<and> be_state e = ''pending''
      \<and> get_row ch_key (billingModeValue cfg, charge) (billing_charges db) = Some ch \<and> ch_subscription ch = Some sub
      \<and> get_row sub_key (billingModeValue cfg, sub) (billing_subscriptions db) = Some s
      \<and> (\<exists>action. audit (cl_token c 0) (''stripe-'' @ billingModeValue cfg) (bs_workspace s) action (cl_now c 0)
           (refresh_signal (billingModeValue cfg) sub event db) = Inr db'))"
  using assms by (auto simp: charge_event_tx_def Let_def split: if_splits)

lemma signal_event_sim:
  "subscription_event_tx el cfg c event db = Inr (r, db') \<Longrightarrow> ledger_step (ledger_of db) (ledger_of db')"
  "charge_event_tx cfg c event charge db = Inr (r, db') \<Longrightarrow> ledger_step (ledger_of db) (ledger_of db')"
  using refresh_signal_sim ledger_audit ledger_step.stay
  by (blast dest!: subscription_event_cases, blast dest!: charge_event_cases)

lemma start_subscription_sim:
  "start_subscription_tx cfg ident db = Inr (s, db') \<Longrightarrow> ledger_step (ledger_of db) (ledger_of db')"
  using ledger_step.read_started [of "ledger_of db"] by (auto simp: start_subscription_tx_def Let_def)

lemma same_subscription_id: "same_subscription s t \<longleftrightarrow> sub_id s = sub_id t"
  by (cases s; cases t) (auto simp: same_subscription_def sub_id_def)

lemma count_one: "length (filter P xs) = Suc 0 \<Longrightarrow> \<exists>x \<in> set xs. P x"
  by (metis filter_False length_0_conv nat.distinct(1))

lemma finish_subscription_sim:
  assumes "finish_subscription_tx cfg (bs_id s) (bs_generation s) sp charge db = Inr (r, db')"
    and "known_subscription s db" "bs_mode s = billingModeValue cfg" "snapshot_accepted s started now sp" and "subs_ok (ledger_of db)"
  shows "ledger_step (ledger_of db) (ledger_of db')"
proof -
  have d: "distinct (map sub_key (billing_subscriptions db))" using assms(5) by (simp add: subs_ok_def)
  from assms(2) obtain t where t: "t \<in> set (billing_subscriptions db)" "sub_id s = sub_id t"
    by (auto simp: known_subscription_def list_ex_iff same_subscription_id)
  have "sub_key t = (billingModeValue cfg, bs_id s)" using sub_id_fields(1) [OF t(2)] assms(3) by (simp add: sub_key_def)
  moreover from assms(1) have "length (filter (\<lambda>q. sub_key q = (billingModeValue cfg, bs_id s) \<and> bs_generation q = bs_generation s)
      (billing_subscriptions db)) = 1" by (auto simp: finish_subscription_tx_def Let_def)
  then obtain q where q: "q \<in> set (billing_subscriptions db)" "sub_key q = (billingModeValue cfg, bs_id s)" "bs_generation q = bs_generation s"
    by (auto dest: count_one)
  ultimately have "q = t" using key_eq_row [OF d q(1) t(1)] by simp
  with q have gen: "bs_generation t = bs_generation s" "sub_key t = (billingModeValue cfg, bs_id s)" by simp_all
  moreover have "snapshot_of t sp" using assms(4) sub_id_fields(4,8,9) [OF t(2)] by (simp add: snapshot_accepted_def snapshot_of_def)
  moreover have "bs_mode t = billingModeValue cfg" using gen(2) by (simp add: sub_key_def)
  moreover from assms(1) have "ledger_of db' = (ledger_of db)\<lparr>lg_subs := upd_row sub_key (billingModeValue cfg, bs_id s)
        (\<lambda>q. if bs_generation q = bs_generation s then q\<lparr>bs_snapshot := Json sp\<rparr> else q) (billing_subscriptions db),
      lg_charges := (if charge = [] then billing_charges db else ensure_charge (billingModeValue cfg) charge (billing_charges db))\<rparr>"
    by (auto simp: finish_subscription_tx_def Let_def)
  ultimately show ?thesis
    using ledger_step.snapshot_stored [of t "ledger_of db" sp charge] t(1) by (cases "charge = []") simp_all
qed

lemma start_charge_sim:
  assumes "start_charge_tx cfg ident db = Inr (n, db')"
  shows "ledger_step (ledger_of db) (ledger_of db')"
proof (cases "get_row ch_key (billingModeValue cfg, ident) (billing_charges db)")
  case None
  with assms ledger_step.charge_seen [of "billingModeValue cfg" ident "ledger_of db" 1] show ?thesis
    by (auto simp: start_charge_tx_def Let_def get_row_None)
next
  case (Some ch)
  with assms ledger_step.charge_scheduled [of "ledger_of db" "(billingModeValue cfg, ident)" "\<lambda>n. n" "\<lambda>n. n + 1"] show ?thesis
    by (auto simp: start_charge_tx_def Let_def)
qed

lemma finish_charge_sim:
  assumes "finish_charge_tx cfg c ident generation ob db = Inr (r, db')" and "observation_accepted ident started now ob"
  shows "ledger_step (ledger_of db) (ledger_of db')"
proof -
  obtain s ch where s: "get_row sub_key (billingModeValue cfg, co_SubscriptionID ob) (billing_subscriptions db) = Some s" "bs_customer s = co_CustomerID ob"
    and ch: "get_row ch_key (billingModeValue cfg, ident) (billing_charges db) = Some ch"
    and bound: "case ch_subscription ch of None \<Rightarrow> True | Some sub \<Rightarrow> sub = co_SubscriptionID ob \<and> ch_customer ch = Some (bs_customer s)
       \<and> ch_invoice ch = co_InvoiceID ob \<and> ch_payment ch = co_PaymentIntentID ob"
    and db': "db' = db\<lparr>billing_charges := upd_row ch_key (billingModeValue cfg, ident) (charge_bound ob (cl_now c 0 + 300)) (billing_charges db)\<rparr>"
    using assms(1) by (auto simp: finish_charge_tx_def Let_def charge_bound_def [abs_def])
  have "ch \<in> set (billing_charges db)" "ch_key ch = (billingModeValue cfg, ident)" "s \<in> set (billing_subscriptions db)"
    "sub_key s = (billingModeValue cfg, co_SubscriptionID ob)"
    using get_row_SomeD [OF ch] get_row_SomeD [OF s(1)] by simp_all
  moreover from this(2) have "ch_mode ch = billingModeValue cfg" "ch_id ch = ident" by (simp_all add: ch_key_def)
  moreover have "co_ChargeID ob = ident" "amounts_ok ob" using assms(2) by (auto simp: observation_accepted_def amounts_ok_def)
  ultimately show ?thesis
    using ledger_step.charge_observed [of ch "ledger_of db" ob s "cl_now c 0 + 300"] s(2) bound db' by (auto split: option.splits)
qed

lemma claim_charge_sim:
  assumes "claim_charge_tx cfg c db = Inr (r, db')"
  shows "ledger_step (ledger_of db) (ledger_of db')"
proof (cases "due_charges (billingModeValue cfg) (cl_now c 0) (billing_charges db)")
  case Nil
  with assms show ?thesis by (auto simp: claim_charge_tx_def Let_def ledger_step.stay)
next
  case (Cons ch rest)
  with assms ledger_step.charge_scheduled [of "ledger_of db" "(billingModeValue cfg, ch_id ch)" "\<lambda>_. cl_now c 0 + 60" "\<lambda>n. n"]
  show ?thesis by (auto simp: claim_charge_tx_def Let_def)
qed

lemma policy_ledger: "configure_policy_tx c workspace required db = Inr (r, db') \<Longrightarrow> ledger_of db' = ledger_of db"
  by (auto simp: configure_policy_tx_def Let_def ledger_of_def dest!: ledger_audit)

lemma plan_ledger: "configure_plan_tx cfg plan price enabled db = Inr (r, db') \<Longrightarrow> ledger_of db' = ledger_of db"
  by (auto simp: configure_plan_tx_def Let_def split: option.splits if_splits)

lemma price_ledger:
  "claim_price_tx cfg c db = Inr (p, db') \<Longrightarrow> ledger_of db' = ledger_of db"
  "finish_price_tx cfg c plan price generation pp db = Inr (r, db') \<Longrightarrow> ledger_of db' = ledger_of db"
  by (auto simp: claim_price_tx_def finish_price_tx_def Let_def split: list.splits if_splits)

lemma work_ledger:
  "claim_work_tx lib cfg c db = Inr (w, db') \<Longrightarrow> ledger_of db' = ledger_of db"
  "finish_work_tx lib cfg c job lease ok db = Inr (r, db') \<Longrightarrow> ledger_of db' = ledger_of db"
  by (auto simp: claim_work_tx_def finish_work_tx_def Let_def split: list.splits if_splits)

lemmas quiet_ledger = policy_ledger plan_ledger price_ledger work_ledger

lemma billing_sim:
  assumes "billing_body lib el cfg c t db = Inr (r, db')" and ok: "ledger_ok (ledger_of db)"
  shows "ledger_step (ledger_of db) (ledger_of db')"
proof -
  have l: "limits_ok (ledger_of db)" and s: "subs_ok (ledger_of db)" using ok by (simp_all add: ledger_ok_def)
  have quiet: "ledger_step (ledger_of db) (ledger_of db')" if "ledger_of db' = ledger_of db" using that ledger_step.stay by simp
  show ?thesis
  proof (cases t)
    case (BAccount a)
    with assms(1) show ?thesis by (auto intro!: quiet ledger_of_more acct_body_more)
  next
    case (BFinishSubscription q started now sp charge)
    with assms(1) finish_subscription_sim [OF _ _ _ _ s] show ?thesis by auto
  next
    case (BFinishCharge ident generation started now ob)
    with assms(1) finish_charge_sim show ?thesis by auto
  qed (use assms(1) l s in \<open>auto intro: quiet quiet_ledger limits_sim request_customer_sim bind_customer_sim request_checkout_sim
        bind_checkout_sim accept_event_sim checkout_event_sim signal_event_sim start_subscription_sim start_charge_sim claim_charge_sim\<close>)
qed

section \<open>Histories\<close>

lemma billing_exec_sim:
  assumes "ledger_ok (ledger_of db)"
  shows "ledger_step (ledger_of db) (ledger_of (snd (billing_exec lib el cfg i db)))"
  unfolding billing_exec_def
  by (rule in_tx_invariant [where P = "\<lambda>db'. ledger_step (ledger_of db) (ledger_of db')"])
    (auto intro: ledger_step.stay billing_sim [OF _ assms])

interpretation bl: transactional "billing_exec lib el cfg" "\<lambda>db. ledger_ok (ledger_of db)" for lib el cfg
proof
  show "ledger_ok (ledger_of (snd (billing_exec lib el cfg i db)))" if "ledger_ok (ledger_of db)"
    for i and db :: "'x billing_db_scheme"
    using ledger_ok_step [OF billing_exec_sim [OF that] that] .
  show "snd (billing_exec lib el cfg i db) = db" if "fst (billing_exec lib el cfg i db) = Inl e" for i e and db :: "'x billing_db_scheme"
    using that by (simp add: billing_exec_def in_tx_error)
qed

section \<open>Generations\<close>

definition generation :: "string \<times> string \<Rightarrow> 'x hosting_db_scheme \<Rightarrow> int" where
  "generation k db = (case get_row sub_key k (billing_subscriptions db) of None \<Rightarrow> 0 | Some s \<Rightarrow> bs_generation s)"

lemma generation_upd:
  assumes "billing_subscriptions db' = upd_row sub_key k' f (billing_subscriptions db)" and "\<And>s. sub_key (f s) = sub_key s"
    and "\<And>s. bs_generation s \<le> bs_generation (f s)"
  shows "generation k db \<le> generation k db'"
  using assms by (auto simp: generation_def get_upd_row split: option.splits)

lemma generation_same: "billing_subscriptions db' = billing_subscriptions db \<Longrightarrow> generation k db' = generation k db"
  by (simp add: generation_def)

lemma audit_subscriptions [dest]: "audit ident actor ws action now db = Inr db' \<Longrightarrow> billing_subscriptions db' = billing_subscriptions db"
  by (auto dest: auditD)

lemma ledger_subscriptions: "ledger_of db' = ledger_of db \<Longrightarrow> billing_subscriptions db' = billing_subscriptions db"
  by (metis ledger_of_simps(4))

lemma fence_generation:
  "billing_subscriptions db' = fence_subscription mode sub (billing_subscriptions db) \<Longrightarrow> generation k db \<le> generation k db'"
  by (rule generation_upd [of db' "(mode, sub)" "\<lambda>s. s\<lparr>bs_generation := bs_generation s + 1, bs_snapshot := Null\<rparr>" db])
    (auto simp: fence_subscription_def)

lemma refresh_signal_subs [simp]:
  "billing_subscriptions (refresh_signal mode sub event db) = fence_subscription mode sub (billing_subscriptions db)"
  by (simp add: refresh_signal_def)

lemma bind_subscription_generation:
  assumes "bind_subscription mode event co sub db = Inr db'"
  shows "generation k db' = generation k db"
proof (cases "List.find (\<lambda>s. bs_mode s = mode \<and> (bs_id s = sub \<or> bs_checkout s = bc_id co)) (billing_subscriptions db)")
  case None
  with assms show ?thesis
    by (auto simp: bind_subscription_def insert_row_Inr generation_def get_row_append split: option.splits if_splits)
next
  case (Some s)
  with assms show ?thesis by (auto simp: bind_subscription_def)
qed

lemma settle_checkout_subs: "settle_checkout cfg c event co target db = Inr (r, db') \<Longrightarrow> billing_subscriptions db' = billing_subscriptions db"
  by (auto simp: settle_checkout_def Let_def dest!: audit_subscriptions)

lemma apply_session_generation:
  assumes "apply_session cfg c event kind cs co db = Inr (r, db')"
  shows "generation k db' = generation k db"
proof (cases "kind = ''checkout.session.expired''")
  case True
  with assms have "billing_subscriptions db' = billing_subscriptions db"
    by (auto simp: apply_session_def Let_def dest!: settle_checkout_subs split: if_splits)
  then show ?thesis by (rule generation_same)
next
  case False
  with assms obtain db1 sub where "bind_subscription (billingModeValue cfg) event co sub db = Inr db1"
    "settle_checkout cfg c event co ''completed'' db1 = Inr (r, db')"
    by (auto simp: apply_session_def Let_def complete_checkout_def split: option.splits)
  with bind_subscription_generation generation_same [OF settle_checkout_subs] show ?thesis by metis
qed

lemma finish_subscription_generation:
  assumes "finish_subscription_tx cfg ident n sp charge db = Inr (r, db')"
  shows "generation k db \<le> generation k db'"
  by (rule generation_upd [where f = "\<lambda>s. if bs_generation s = n then s\<lparr>bs_snapshot := Json sp\<rparr> else s" and k' = "(billingModeValue cfg, ident)"])
    (use assms in \<open>auto simp: finish_subscription_tx_def Let_def\<close>)

lemma start_subscription_generation:
  assumes "start_subscription_tx cfg ident db = Inr (s, db')"
  shows "generation k db \<le> generation k db'" "generation (billingModeValue cfg, ident) db' = generation (billingModeValue cfg, ident) db + 1"
    "bs_generation s = generation (billingModeValue cfg, ident) db'"
proof -
  let ?f = "\<lambda>s. s\<lparr>bs_generation := bs_generation s + 1\<rparr>"
  have db': "billing_subscriptions db' = upd_row sub_key (billingModeValue cfg, ident) ?f (billing_subscriptions db)"
    and s: "get_row sub_key (billingModeValue cfg, ident) (billing_subscriptions db') = Some s"
    using assms by (auto simp: start_subscription_tx_def Let_def)
  show "generation k db \<le> generation k db'" by (rule generation_upd [OF db']) simp_all
  from s have "map_option ?f (get_row sub_key (billingModeValue cfg, ident) (billing_subscriptions db)) = Some s"
    by (simp add: db' get_upd_row)
  then show "generation (billingModeValue cfg, ident) db' = generation (billingModeValue cfg, ident) db + 1"
    "bs_generation s = generation (billingModeValue cfg, ident) db'"
    using s by (auto simp: generation_def)
qed

lemma quiet_subscriptions:
  "configure_limits_tx cfg c plan l db = Inr (r, db') \<Longrightarrow> billing_subscriptions db' = billing_subscriptions db"
  "request_customer_tx lib cfg c token workspace db = Inr (cu, db') \<Longrightarrow> billing_subscriptions db' = billing_subscriptions db"
  "bind_customer_tx cfg c request customer db = Inr (r, db') \<Longrightarrow> billing_subscriptions db' = billing_subscriptions db"
  "request_checkout_tx lib cfg c token workspace plan db = Inr (co, db') \<Longrightarrow> billing_subscriptions db' = billing_subscriptions db"
  "bind_checkout_tx cfg c ident session link db = Inr (r, db') \<Longrightarrow> billing_subscriptions db' = billing_subscriptions db"
  "accept_event_tx el cfg c ev payload db = Inr (x, db') \<Longrightarrow> billing_subscriptions db' = billing_subscriptions db"
  "start_charge_tx cfg ident db = Inr (n, db') \<Longrightarrow> billing_subscriptions db' = billing_subscriptions db"
  "finish_charge_tx cfg c ident n ob db = Inr (r, db') \<Longrightarrow> billing_subscriptions db' = billing_subscriptions db"
  "claim_charge_tx cfg c db = Inr (y, db') \<Longrightarrow> billing_subscriptions db' = billing_subscriptions db"
  subgoal by (auto simp: configure_limits_tx_def Let_def dest!: audit_subscriptions)
  subgoal by (auto simp: request_customer_tx_def Let_def dest!: audit_subscriptions split: option.splits)
  subgoal by (auto simp: bind_customer_tx_def Let_def dest!: audit_subscriptions split: option.splits)
  subgoal by (auto simp: request_checkout_tx_def dest!: audit_subscriptions split: option.splits)
  subgoal by (auto simp: bind_checkout_tx_def Let_def dest!: audit_subscriptions split: option.splits)
  subgoal by (auto simp: accept_event_tx_def Let_def split: option.splits)
  subgoal by (auto simp: start_charge_tx_def Let_def split: option.splits)
  subgoal by (auto simp: finish_charge_tx_def Let_def)
  subgoal by (auto simp: claim_charge_tx_def Let_def split: list.splits)
  done

lemma body_generation:
  assumes "billing_body lib el cfg c t db = Inr (r, db')"
  shows "generation k db \<le> generation k db'"
proof -
  have quiet: "generation k db \<le> generation k db'" if "billing_subscriptions db' = billing_subscriptions db"
    using generation_same [OF that, of k] by simp
  have same: "generation k db \<le> generation k db'" if "ledger_of db' = ledger_of db"
    by (rule quiet) (rule ledger_subscriptions [OF that])
  show ?thesis
  proof (cases t)
    case (BAccount a)
    with assms show ?thesis by (auto intro!: same ledger_of_more acct_body_more)
  next
    case (BCheckoutEvent event)
    with assms obtain b where "checkout_event_tx el cfg c event db = Inr (b, db')" by auto
    from checkout_event_cases [OF this] apply_session_generation show ?thesis by (metis order_refl)
  next
    case (BSubscriptionEvent event)
    with assms obtain b where "subscription_event_tx el cfg c event db = Inr (b, db')" by auto
    from subscription_event_cases [OF this] fence_generation refresh_signal_subs audit_subscriptions show ?thesis by (metis order_refl)
  next
    case (BChargeEvent event charge)
    with assms obtain b where "charge_event_tx cfg c event charge db = Inr (b, db')" by auto
    from charge_event_cases [OF this] fence_generation refresh_signal_subs audit_subscriptions show ?thesis by (metis order_refl)
  next
    case (BStartSubscription ident)
    with assms show ?thesis by (auto dest: start_subscription_generation(1))
  next
    case (BFinishSubscription q started now sp charge)
    with assms show ?thesis by (auto dest: finish_subscription_generation)
  qed (use assms in \<open>auto intro: same quiet_ledger dest: quiet_subscriptions [THEN quiet]\<close>)
qed

interpretation gen: monotone_counter "billing_exec lib el cfg" "generation k" for lib el cfg k
proof
  show "generation k db \<le> generation k (snd (billing_exec lib el cfg i db))" for i and db :: "'x billing_db_scheme"
    unfolding billing_exec_def
    by (rule in_tx_invariant [where P = "\<lambda>db'. generation k db \<le> generation k db'"]) (auto intro: body_generation)
qed

end
