(* ===== verification/Billing_Evidence.thy ===== *)
theory Billing_Evidence
  imports Billing_Safety
begin

text \<open>
  What the hosting decision of \<open>hosting_access.go\<close> means on the tables the billing store
  keeps: the loop over subscriptions finds a proof of payment whenever there is one, and never
  trips over inconsistent rows.
\<close>

section \<open>Proofs of payment\<close>

definition payment_proof ::
  "string \<Rightarrow> int \<Rightarrow> string \<Rightarrow> 'x hosting_db_scheme \<Rightarrow> billing_subscription \<Rightarrow> bool" where
  "payment_proof mode now workspace db s \<longleftrightarrow>
     s \<in> set (billing_subscriptions db) \<and> bs_mode s = mode \<and> bs_workspace s = workspace \<and> bs_customer s \<noteq> [] \<and> bs_price s \<noteq> []
     \<and> (\<exists>sp ch ob. bs_snapshot s = Json sp \<and> paid_now now sp \<and> invoice_charges mode s (sp_InvoiceID sp) db = [ch]
          \<and> ch_snapshot ch = Json ob \<and> ch_payment ch \<noteq> [] \<and> freshObservation (co_ObservedAt ob) now \<and> \<not> co_Disputed ob
          \<and> co_DisputesChecked ob \<and> co_AmountRefunded ob = 0 \<and> list_all dispute_settled (co_Disputes ob))"

text \<open>Two charges recorded for one invoice of the workspace: the code refuses to choose.\<close>

definition ambiguous :: "string \<Rightarrow> string \<Rightarrow> 'x hosting_db_scheme \<Rightarrow> bool" where
  "ambiguous mode workspace db \<longleftrightarrow>
     (\<exists>s sp. s \<in> set (billing_subscriptions db) \<and> bs_mode s = mode \<and> bs_workspace s = workspace \<and> bs_snapshot s = Json sp
        \<and> length (invoice_charges mode s (sp_InvoiceID sp) db) > 1)"

section \<open>One turn of the loop\<close>

lemma invoice_charge_ok:
  assumes "charges_ok (ledger_of db)" and "ch \<in> set (invoice_charges mode s invoice db)"
  shows "\<exists>ob. ch_snapshot ch = Json ob \<and> co_ChargeID ob = ch_id ch \<and> co_SubscriptionID ob = bs_id s \<and> co_CustomerID ob = bs_customer s
    \<and> co_InvoiceID ob = invoice \<and> co_PaymentIntentID ob = ch_payment ch \<and> amounts_ok ob
    \<and> ch_subscription ch = Some (bs_id s) \<and> ch_customer ch = Some (bs_customer s) \<and> ch_invoice ch = invoice"
proof -
  have "charge_row_ok (ledger_of db) ch" "ch_subscription ch = Some (bs_id s)" "ch_customer ch = Some (bs_customer s)" "ch_invoice ch = invoice"
    using assms by (auto simp: charges_ok_def invoice_charges_def)
  then show ?thesis by (auto simp: charge_row_ok_def split: column.splits)
qed

lemma charge_evidence_sound:
  assumes "charges_ok (ledger_of db)" and "ch \<in> set (invoice_charges mode s (sp_InvoiceID sp) db)"
  shows "\<exists>ob. ch_snapshot ch = Json ob \<and> charge_evidence s sp now ch =
    Inr (ch_payment ch \<noteq> [] \<and> freshObservation (co_ObservedAt ob) now \<and> \<not> co_Disputed ob \<and> co_DisputesChecked ob
         \<and> co_AmountRefunded ob = 0 \<and> list_all dispute_settled (co_Disputes ob))"
proof -
  from invoice_charge_ok [OF assms] obtain ob where "ch_snapshot ch = Json ob" "co_ChargeID ob = ch_id ch" "co_SubscriptionID ob = bs_id s"
    "co_CustomerID ob = bs_customer s" "co_InvoiceID ob = sp_InvoiceID sp" "co_PaymentIntentID ob = ch_payment ch" "amounts_ok ob"
    "ch_subscription ch = Some (bs_id s)" "ch_customer ch = Some (bs_customer s)" "ch_invoice ch = sp_InvoiceID sp" by blast
  then show ?thesis
    by (intro exI [of _ ob]) (auto simp: charge_evidence_def scans_nil_def amounts_ok_def)
qed

lemma saved_limits_decode: "saved_limits_ok d \<Longrightarrow> \<exists>l. decodeHostingLimits d = Inr l"
  by (auto simp: saved_limits_ok_def decodeHostingLimits_def split: column.splits)

text \<open>On consistent rows a turn either finds the proof, or goes on, or meets an ambiguous invoice.\<close>

lemma subscription_turn_decides:
  assumes ok: "ledger_ok (ledger_of db)" and s: "s \<in> set (billing_subscriptions db)" "bs_mode s = mode" "bs_workspace s = workspace"
    and co: "co \<in> set (billing_checkouts db)" "backs co s" and un: "\<not> ambiguous mode workspace db"
  shows "if payment_proof mode now workspace db s
         then \<exists>l. subscription_turn mode now db (s, co) = Inr (Some \<lparr>en_Plan = bs_plan s, en_Limits = l\<rparr>)
         else subscription_turn mode now db (s, co) = Inr None"
proof -
  have sub: "sub_ok (ledger_of db) s" and charges: "charges_ok (ledger_of db)" and limits: "saved_limits_ok (bc_limits co)"
    using ok s co by (auto simp: ledger_ok_def subs_ok_def checkouts_ok_def checkout_ok_def)
  from saved_limits_decode [OF limits] obtain l where l: "decodeHostingLimits (bc_limits co) = Inr l" by blast
  have ids: "bc_customer co = bs_customer s" "bc_price co = bs_price s" using co(2) by (simp_all add: backs_def)
  show ?thesis
  proof (cases "bs_snapshot s")
    case (Json sp)
    then have sp: "sp_ID sp = bs_id s" "sp_CustomerID sp = bs_customer s" "sp_PriceID sp = bs_price s"
      using sub by (simp_all add: sub_ok_def snapshot_of_def)
    have short: "length (invoice_charges mode s (sp_InvoiceID sp) db) \<le> 1"
      using un s Json by (auto simp: ambiguous_def not_less)
    show ?thesis
    proof (cases "invoice_charges mode s (sp_InvoiceID sp) db")
      case Nil
      with Json sp ids s show ?thesis by (simp add: payment_proof_def subscription_turn_def scans_nil_def)
    next
      case (Cons ch rest)
      with short have one: "invoice_charges mode s (sp_InvoiceID sp) db = [ch]" by simp
      then have "ch \<in> set (invoice_charges mode s (sp_InvoiceID sp) db)" by simp
      from charge_evidence_sound [OF charges this] obtain ob where ob: "ch_snapshot ch = Json ob" "charge_evidence s sp now ch =
          Inr (ch_payment ch \<noteq> [] \<and> freshObservation (co_ObservedAt ob) now \<and> \<not> co_Disputed ob \<and> co_DisputesChecked ob
               \<and> co_AmountRefunded ob = 0 \<and> list_all dispute_settled (co_Disputes ob))" by blast
      from Json sp ids s one ob l show ?thesis
        by (simp add: payment_proof_def subscription_turn_def scans_nil_def andThen_simps)
    qed
  qed (use sub s in \<open>auto simp: sub_ok_def payment_proof_def subscription_turn_def scans_nil_def\<close>)
qed

section \<open>The rows the query joins\<close>

lemma subscription_rows_backs:
  "(s, co) \<in> set (subscription_rows mode workspace db) \<Longrightarrow>
    s \<in> set (billing_subscriptions db) \<and> bs_mode s = mode \<and> bs_workspace s = workspace \<and> co \<in> set (billing_checkouts db) \<and> backs co s"
  by (auto simp: subscription_rows_def backs_def)

lemma subscription_rows_complete:
  assumes ok: "ledger_ok (ledger_of db)" and s: "s \<in> set (billing_subscriptions db)" "bs_mode s = mode" "bs_workspace s = workspace"
  shows "\<exists>co. (s, co) \<in> set (subscription_rows mode workspace db)"
proof -
  from ok s obtain co where co: "co \<in> set (billing_checkouts db)" "backs co s"
    by (auto simp: ledger_ok_def subs_ok_def sub_ok_def)
  with ok have "bound_to (bc_mode co) (bc_workspace co) (bc_customer co) (billing_customers db)"
    by (auto simp: ledger_ok_def checkouts_ok_def checkout_ok_def)
  then obtain cu where "cu \<in> set (billing_customers db)" "cu_mode cu = bc_mode co" "cu_workspace cu = bc_workspace co"
    "cu_customer cu = Some (bc_customer co)" by (auto simp: bound_to_def cu_key_def)
  with s co show ?thesis
    by (intro exI [of _ co]) (force simp: subscription_rows_def backs_def)
qed

lemma subscription_loop_decides:
  assumes "\<And>sc. sc \<in> set rows \<Longrightarrow> if P sc then \<exists>en. subscription_turn mode now db sc = Inr (Some en) \<and> Q sc en
                                 else subscription_turn mode now db sc = Inr None"
  shows "if \<exists>sc \<in> set rows. P sc then \<exists>sc \<in> set rows. \<exists>en. P sc \<and> Q sc en \<and> subscription_loop mode now db rows = Inr en
         else subscription_loop mode now db rows = Inl ErrHostingPayment"
  using assms
proof (induction rows)
  case Nil
  then show ?case by simp
next
  case (Cons sc rows)
  have turn: "if P sc then \<exists>en. subscription_turn mode now db sc = Inr (Some en) \<and> Q sc en else subscription_turn mode now db sc = Inr None"
    using Cons.prems by simp
  have IH: "if \<exists>sc \<in> set rows. P sc then \<exists>sc \<in> set rows. \<exists>en. P sc \<and> Q sc en \<and> subscription_loop mode now db rows = Inr en
         else subscription_loop mode now db rows = Inl ErrHostingPayment"
    by (rule Cons.IH) (use Cons.prems in auto)
  show ?case
  proof (cases "P sc")
    case True
    with turn show ?thesis by (auto simp: andThen_simps)
  next
    case False
    with turn have "subscription_loop mode now db (sc # rows) = subscription_loop mode now db rows" by (simp add: andThen_simps)
    with IH False show ?thesis by (auto split: if_splits)
  qed
qed

lemma entitlement_decides:
  assumes ok: "ledger_ok (ledger_of db)" and un: "\<not> ambiguous (billingModeValue cfg) workspace db"
    and pol: "get_row fst workspace (hosting_policies db) = Some (workspace, True)"
  shows "if \<exists>s. payment_proof (billingModeValue cfg) now workspace db s
         then \<exists>s l. payment_proof (billingModeValue cfg) now workspace db s
           \<and> qualifyingHostingEntitlement cfg now workspace db = Inr (Some \<lparr>en_Plan = bs_plan s, en_Limits = l\<rparr>)
         else qualifyingHostingEntitlement cfg now workspace db = Inl ErrHostingPayment"
proof -
  let ?m = "billingModeValue cfg" and ?rows = "subscription_rows (billingModeValue cfg) workspace db"
  let ?P = "\<lambda>sc. payment_proof ?m now workspace db (fst sc)" and ?Q = "\<lambda>sc en. \<exists>l. en = \<lparr>en_Plan = bs_plan (fst sc), en_Limits = l\<rparr>"
  have "if ?P sc then \<exists>en. subscription_turn ?m now db sc = Inr (Some en) \<and> ?Q sc en else subscription_turn ?m now db sc = Inr None"
    if "sc \<in> set ?rows" for sc
  proof -
    obtain s co where sc: "sc = (s, co)" by (cases sc)
    with that subscription_rows_backs [of s co ?m workspace db] have "s \<in> set (billing_subscriptions db)" "bs_mode s = ?m" "bs_workspace s = workspace"
      "co \<in> set (billing_checkouts db)" "backs co s" by auto
    from subscription_turn_decides [OF ok this un, of now] sc show ?thesis by (auto split: if_splits)
  qed
  from subscription_loop_decides [of ?rows ?P ?m now db ?Q, OF this]
  have loop: "if \<exists>sc \<in> set ?rows. ?P sc then \<exists>sc \<in> set ?rows. \<exists>en. ?P sc \<and> ?Q sc en \<and> subscription_loop ?m now db ?rows = Inr en
         else subscription_loop ?m now db ?rows = Inl ErrHostingPayment" .
  have ex: "\<exists>sc \<in> set ?rows. ?P sc" if p: "payment_proof ?m now workspace db s" for s
  proof -
    from p have "s \<in> set (billing_subscriptions db)" "bs_mode s = ?m" "bs_workspace s = workspace" by (simp_all add: payment_proof_def)
    from subscription_rows_complete [OF ok this] obtain co where "(s, co) \<in> set ?rows" by blast
    with p show ?thesis by (intro bexI [of _ "(s, co)"]) simp_all
  qed
  show ?thesis
  proof (cases "\<exists>s. payment_proof ?m now workspace db s")
    case True
    with ex have some: "\<exists>sc \<in> set ?rows. ?P sc" by blast
    from loop [unfolded if_P [OF some]] obtain s l where "payment_proof ?m now workspace db s"
      "subscription_loop ?m now db ?rows = Inr \<lparr>en_Plan = bs_plan s, en_Limits = l\<rparr>" by auto
    with True pol show ?thesis by (auto simp: qualifyingHostingEntitlement_def andThen_simps)
  next
    case False
    with loop have "subscription_loop ?m now db ?rows = Inl ErrHostingPayment" by simp
    with False pol show ?thesis by (simp add: qualifyingHostingEntitlement_def andThen_simps)
  qed
qed

section \<open>Signals\<close>

text \<open>A signal drops the snapshot and raises the generation of its subscription.\<close>

lemma fenced_row:
  assumes "billing_subscriptions db' = fence_subscription mode sub (billing_subscriptions db)"
    and "get_row sub_key (mode, sub) (billing_subscriptions db) = Some s"
  shows "generation (mode, sub) db' = generation (mode, sub) db + 1"
    and "t \<in> set (billing_subscriptions db') \<Longrightarrow> sub_key t = (mode, sub) \<Longrightarrow> bs_snapshot t = Null"
proof -
  show "generation (mode, sub) db' = generation (mode, sub) db + 1"
    using assms by (simp add: generation_def fence_subscription_def get_upd_row)
  show "bs_snapshot t = Null" if "t \<in> set (billing_subscriptions db')" "sub_key t = (mode, sub)"
    using that assms(1) by (auto simp: fence_subscription_def set_upd_row split: if_splits)
qed

text \<open>A read from an older generation cannot be stored.\<close>

lemma old_generation_refused:
  assumes "n < generation (mode, sub) db" and "distinct (map sub_key (billing_subscriptions db))" and "mode = billingModeValue cfg"
  shows "finish_subscription_tx cfg sub n sp charge db = Inl ErrBillingConflict"
proof (cases "finish_subscription_tx cfg sub n sp charge db")
  case (Inl e)
  then show ?thesis by (auto simp: finish_subscription_tx_def Let_def andThen_def guard_def split: sum.splits if_splits)
next
  case (Inr x)
  then have "length (filter (\<lambda>s. sub_key s = (mode, sub) \<and> bs_generation s = n) (billing_subscriptions db)) = Suc 0"
    using assms(3) by (auto simp: finish_subscription_tx_def Let_def)
  then obtain s where "s \<in> set (billing_subscriptions db)" "sub_key s = (mode, sub)" "bs_generation s = n" using count_one by blast
  with get_row_unique [OF assms(2), of s] assms(1) show ?thesis by (simp add: generation_def)
qed

section \<open>Properties\<close>

text \<open>
  C10: The billing store implements the ledger. Whatever a transaction of the billing store does (create and bind
  a customer, request, open, complete or expire a checkout, accept a provider event, react to a refund or a changed
  subscription, store a snapshot or a charge), and also when it fails and rolls back, the tables change by
  a step of the abstract ledger: a customer is bound once, a workspace has one live checkout, a completed checkout
  never expires, a subscription is opened by a processed event of its own checkout.
\<close>
theorem billing_implements_ledger:
  assumes "ledger_ok (ledger_of db)"
  shows "ledger_step (ledger_of db) (ledger_of (snd (billing_exec lib el cfg i db)))"
  by (rule billing_exec_sim [OF assms])

text \<open>
  C13: The billing tables stay consistent over every history of transactions: customer bindings, sessions and keys
  are unique, a workspace has at most one live checkout per mode, every checkout belongs to the bound customer of its
  workspace and carries valid limits, every subscription rests on a completed checkout with the same workspace,
  customer, plan and price and on a processed event, a stored snapshot matches its subscription, a stored charge
  matches its subscription and customer with sound amounts, and the event inbox stays within its limits.
\<close>
theorem billing_tables_consistent:
  assumes "ledger_ok (ledger_of db)"
  shows "ledger_ok (ledger_of (run_ops (billing_exec lib el cfg) is db))"
  by (rule bl.run_inv [OF assms])

text \<open>
  C11: The hosting decision is exactly the existence of a proof of payment. After any history of
  billing transactions, for a workspace that must pay and has no invoice with two recorded charges, hosting is granted if and
  only if some subscription of the workspace has a current paid snapshot and the one charge of its invoice is fresh,
  unrefunded and free of open disputes; otherwise the answer is that payment is required. In particular
  the decision never fails on inconsistent evidence.
\<close>
theorem hosting_granted_exactly_when_paid:
  assumes "ledger_ok (ledger_of db0)" and "db = run_ops (billing_exec lib el cfg) is db0"
    and "get_row fst workspace (hosting_policies db) = Some (workspace, True)"
    and "\<not> ambiguous (billingModeValue cfg) workspace db"
  shows "((\<exists>en. qualifyingHostingEntitlement cfg now workspace db = Inr (Some en))
            \<longleftrightarrow> (\<exists>s. payment_proof (billingModeValue cfg) now workspace db s))
       \<and> ((\<nexists>s. payment_proof (billingModeValue cfg) now workspace db s)
            \<longrightarrow> qualifyingHostingEntitlement cfg now workspace db = Inl ErrHostingPayment)"
proof -
  have ok: "ledger_ok (ledger_of db)" unfolding assms(2) by (rule bl.run_inv [OF assms(1)])
  from entitlement_decides [OF ok assms(4,3), of now] show ?thesis by (auto split: if_splits)
qed

text \<open>
  C12: A refund or dispute withdraws the payment evidence at once, and for good as far as older reads are concerned. When the
  event of a charge is processed, its subscription no longer proves payment, and after any further history a
  provider read that was started before the event cannot be stored.
\<close>
theorem dispute_withdraws_evidence:
  assumes "ledger_ok (ledger_of db)" and "charge_event_tx cfg c event charge db = Inr (True, db')"
    and "get_row be_key (billingModeValue cfg, event) (billing_events db) = Some e" and "be_state e = ''pending''"
    and "get_row ch_key (billingModeValue cfg, charge) (billing_charges db) = Some ch" and "ch_subscription ch = Some sub"
    and "n \<le> generation (billingModeValue cfg, sub) db"
  shows "(\<forall>s now workspace. payment_proof (billingModeValue cfg) now workspace db' s \<longrightarrow> bs_id s \<noteq> sub)
       \<and> finish_subscription_tx cfg sub n sp found (run_ops (billing_exec lib el cfg) is db') = Inl ErrBillingConflict"
proof -
  let ?m = "billingModeValue cfg"
  have ok: "ledger_ok (ledger_of db')"
    using ledger_ok_step [OF signal_event_sim(2) [OF assms(2)] assms(1)] .
  from assms(2-6) obtain q action where q: "get_row sub_key (?m, sub) (billing_subscriptions db) = Some q"
    and a: "audit (cl_token c 0) (''stripe-'' @ ?m) (bs_workspace q) action (cl_now c 0) (refresh_signal ?m sub event db) = Inr db'"
    by (auto simp: charge_event_tx_def Let_def seq_simps)
  then have subs: "billing_subscriptions db' = fence_subscription ?m sub (billing_subscriptions db)" by (auto dest: audit_subscriptions)
  have "bs_id s \<noteq> sub" if "payment_proof ?m now workspace db' s" for s now workspace
    using fenced_row(2) [OF subs q, of s] that by (auto simp: payment_proof_def sub_key_def)
  moreover have "n < generation (?m, sub) db'" using fenced_row(1) [OF subs q] assms(7) by simp
  then have "n < generation (?m, sub) (run_ops (billing_exec lib el cfg) is db')"
    using gen.run_counter [of "(?m, sub)" db' lib el cfg "is"] by simp
  then have "finish_subscription_tx cfg sub n sp found (run_ops (billing_exec lib el cfg) is db') = Inl ErrBillingConflict"
    using bl.run_inv [OF ok, of lib el cfg "is"] by (intro old_generation_refused) (simp_all add: ledger_ok_def subs_ok_def)
  ultimately show ?thesis by blast
qed

section \<open>A concrete store\<close>

text \<open>
  The live workspace of \<open>Portal_Hosting\<close>'s example with its processed checkout event and a pending
  dispute event for its charge.
\<close>

definition vx_event :: "string \<Rightarrow> string \<Rightarrow> string \<Rightarrow> billing_event" where
  "vx_event ident kind state = \<lparr>be_mode = ''live'', be_id = ident, be_type = kind, be_created = 40, be_fingerprint = ''f'',
     be_payload = ''{}'', be_state = state, be_received = 41\<rparr>"

definition vx_plan :: billing_plan where
  "vx_plan = \<lparr>bp_mode = ''live'', bp_id = ''pro'', bp_price = ''price_1'', bp_enabled = True, bp_snapshot = Null, bp_observed = 0,
     bp_next_refresh = 0, bp_generation = 0\<rparr>"

definition vx_db :: billing_db where
  "vx_db = hosting_db.extend kx_db
     (billing_db.fields [vx_plan] [\<lparr>pl_mode = ''live'', pl_plan = ''pro'', pl_limits = kx_limits\<rparr>]
       [vx_event ''evt_1'' ''checkout.session.completed'' ''processed'', vx_event ''evt_2'' ''charge.dispute.created'' ''pending''] [])"

definition vx_lib :: event_lib where
  "vx_lib = \<lparr>el_webhook = \<lparr>wl_construct = (\<lambda>_ _ _. None), wl_envelope = (\<lambda>_. None), wl_sha256 = (\<lambda>s. s)\<rparr>,
     el_canonical = Some, el_fingerprint = (\<lambda>kind _ payload. kind @ payload), el_scope = (\<lambda>_. Some (Some True, ''dispute'')),
     el_session = (\<lambda>_. None), el_subscription = (\<lambda>_. None), el_invoice = (\<lambda>_. None), el_charge = (\<lambda>_. None),
     el_dispute = (\<lambda>_. Some (Some ''ch_1'')), el_url = (\<lambda>_. None)\<rparr>"

lemmas vx_defs = vx_db_def vx_plan_def vx_event_def hosting_db.defs billing_db.defs kx_defs

lemma vx_tables:
  "hosting_plan_limits vx_db = [\<lparr>pl_mode = ''live'', pl_plan = ''pro'', pl_limits = kx_limits\<rparr>]"
  "billing_customers vx_db = billing_customers kx_db" "billing_checkouts vx_db = billing_checkouts kx_db"
  "billing_subscriptions vx_db = billing_subscriptions kx_db" "billing_charges vx_db = billing_charges kx_db"
  "billing_events vx_db = [vx_event ''evt_1'' ''checkout.session.completed'' ''processed'', vx_event ''evt_2'' ''charge.dispute.created'' ''pending'']"
  "hosting_policies vx_db = [(''w'', True)]"
  by (simp_all add: vx_db_def hosting_db.defs billing_db.defs kx_db_def accounts_db.defs)

lemma vx_customers: "customers_ok (ledger_of vx_db)"
  by (simp add: customers_ok_def unique_ref_def vx_tables kx_db_def hosting_db.defs accounts_db.defs)

lemma vx_limits: "limits_ok (ledger_of vx_db)" "limits_in_range kx_limits"
  by (simp_all add: limits_ok_def vx_tables kx_limits_def limits_in_range_def)

lemma vx_checkouts: "checkouts_ok (ledger_of vx_db)"
  using vx_limits(2)
  by (simp add: checkouts_ok_def checkout_ok_def unique_ref_def bound_to_def saved_limits_ok_def checkout_states_def live_state_def
      vx_tables kx_db_def hosting_db.defs accounts_db.defs billing_keys)

lemma vx_subs: "subs_ok (ledger_of vx_db)"
  by (simp add: subs_ok_def sub_ok_def backs_def snapshot_of_def vx_tables vx_event_def billing_keys kx_defs)

lemma vx_charges: "charges_ok (ledger_of vx_db)"
  by (simp add: charges_ok_def charge_row_ok_def amounts_ok_def vx_tables billing_keys kx_defs)

lemma vx_inbox: "inbox_count mode (billing_events vx_db) \<le> 2" "inbox_bytes mode (billing_events vx_db) \<le> 4"
  by (simp_all add: inbox_count_def inbox_bytes_def vx_tables vx_event_def)

lemma vx_events: "events_ok (ledger_of vx_db)"
  using vx_inbox [THEN order_trans, of billingInboxEvents] vx_inbox [THEN order_trans, of billingInboxBytes]
  by (simp add: events_ok_def billingInboxEvents_def billingInboxBytes_def) (simp add: vx_tables vx_event_def be_key_def)

lemma vx_ok: "ledger_ok (ledger_of vx_db)"
  by (simp add: ledger_ok_def vx_customers vx_limits vx_checkouts vx_subs vx_charges vx_events)

theorem billing_implements_ledger_witness:
  "ledger_step (ledger_of vx_db) (ledger_of (snd (billing_exec ax_lib vx_lib kx_config (ax_call CHR ''x'', BStartSubscription ''sub_1'') vx_db)))"
  by (rule billing_implements_ledger [OF vx_ok])

theorem billing_tables_consistent_witness:
  "ledger_ok (ledger_of (run_ops (billing_exec ax_lib vx_lib kx_config)
     [(ax_call CHR ''x'', BStartSubscription ''sub_1''), (ax_call CHR ''y'', BClaimCharge)] vx_db))"
  by (rule billing_tables_consistent [OF vx_ok])

lemma vx_proof: "payment_proof ''live'' 100 ''w'' vx_db (hd (billing_subscriptions vx_db))"
  by (simp add: payment_proof_def invoice_charges_def paid_now_def freshObservation_def dispute_settled_def vx_tables kx_defs)

lemma vx_unambiguous: "\<not> ambiguous ''live'' ''w'' vx_db"
  by (auto simp: ambiguous_def invoice_charges_def vx_tables kx_defs)

theorem hosting_granted_exactly_when_paid_witness:
  "\<exists>en. qualifyingHostingEntitlement kx_config 100 ''w'' vx_db = Inr (Some en)"
proof -
  have m: "billingModeValue kx_config = ''live''" by (simp add: billingModeValue_def kx_config_def)
  have "vx_db = run_ops (billing_exec ax_lib vx_lib kx_config) [] vx_db" by simp
  from hosting_granted_exactly_when_paid [OF vx_ok this, of "''w''" 100] vx_proof vx_unambiguous m
  show ?thesis by (auto simp: vx_tables)
qed

lemma vx_dispute: "\<exists>db'. charge_event_tx kx_config (ax_call CHR ''x'') ''evt_2'' ''ch_1'' vx_db = Inr (True, db')"
  by (simp add: charge_event_tx_def billingModeValue_def Let_def seq_simps audit_def refresh_signal_def insert_row_def billing_keys vx_tables
      vx_defs ax_call_def ax_db_def)

theorem dispute_withdraws_evidence_witness:
  "\<exists>db'. charge_event_tx kx_config (ax_call CHR ''x'') ''evt_2'' ''ch_1'' vx_db = Inr (True, db')
     \<and> finish_subscription_tx kx_config ''sub_1'' 1 kx_snapshot [] (run_ops (billing_exec ax_lib vx_lib kx_config)
         [(ax_call CHR ''y'', BClaimCharge)] db') = Inl ErrBillingConflict"
proof -
  obtain db' where t: "charge_event_tx kx_config (ax_call CHR ''x'') ''evt_2'' ''ch_1'' vx_db = Inr (True, db')"
    using vx_dispute by blast
  have m: "billingModeValue kx_config = ''live''" by (simp add: billingModeValue_def kx_config_def)
  have "get_row be_key (billingModeValue kx_config, ''evt_2'') (billing_events vx_db) = Some (vx_event ''evt_2'' ''charge.dispute.created'' ''pending'')"
    "be_state (vx_event ''evt_2'' ''charge.dispute.created'' ''pending'') = ''pending''"
    "get_row ch_key (billingModeValue kx_config, ''ch_1'') (billing_charges vx_db) = Some (hd (billing_charges kx_db))"
    "ch_subscription (hd (billing_charges kx_db)) = Some ''sub_1''" "1 \<le> generation (billingModeValue kx_config, ''sub_1'') vx_db"
    unfolding m by (simp_all add: vx_tables vx_event_def billing_keys generation_def kx_db_def hosting_db.defs accounts_db.defs)
  from dispute_withdraws_evidence [OF vx_ok t this] t show ?thesis by blast
qed

end
