(* ===== verification/Billing_Calls.thy ===== *)
theory Billing_Calls
  imports Billing_Evidence
begin

text \<open>
  The calls of the billing store that take several transactions: the reconciliations of
  \<open>billing_subscriptions.go\<close> and \<open>billing_charges.go\<close>, the price refresh, charge events, and the worker
  (\<open>billing_worker.go\<close>). Between the transactions of a call others may commit (\<open>mid\<close>). Each
  call is shown to be a history of transactions, so the guarantees of \<open>Billing_Evidence\<close> cover it.
\<close>

section \<open>Reconciliations\<close>

abbreviation billing_run ::
  "portal_lib \<Rightarrow> event_lib \<Rightarrow> store_config \<Rightarrow> (call \<times> billing_tx) list \<Rightarrow> 'x billing_db_scheme \<Rightarrow> 'x billing_db_scheme" where
  "billing_run lib el cfg mid db \<equiv> run_ops (billing_exec lib el cfg) mid db"

text \<open>The provider's answer for a subscription, checked, and the charge of its invoice if the reader finds charges.\<close>

definition read_subscription ::
  "provider \<Rightarrow> billing_subscription \<Rightarrow> int \<Rightarrow> int \<Rightarrow> (subscription_snapshot \<times> string) result" where
  "read_subscription pv s started now =
     andThen (pv_subscription pv (bs_id s) (bs_customer s) (bs_price s)) (\<lambda>sp.
     andThen (guard ErrBillingConflict (snapshot_accepted s started now sp)) (\<lambda>_.
     andThen (case pv_invoice_charge pv of
                None \<Rightarrow> Inr []
              | Some look \<Rightarrow> if sp_InvoiceID sp \<noteq> [] then look (sp_InvoiceID sp) (bs_customer s) (bs_id s) else Inr []) (\<lambda>charge.
     Inr (sp, charge))))"

definition reconcileBillingSubscription ::
  "portal_lib \<Rightarrow> event_lib \<Rightarrow> store_config \<Rightarrow> (nat \<Rightarrow> call) \<Rightarrow> provider option \<Rightarrow> (call \<times> billing_tx) list \<Rightarrow> string
    \<Rightarrow> 'x billing_db_scheme \<Rightarrow> unit result \<times> 'x billing_db_scheme" where
  "reconcileBillingSubscription lib el cfg c p mid ident db =
     (case p of
        None \<Rightarrow> (Inl ErrBillingConflict, db)
      | Some pv \<Rightarrow>
          (case validateBillingProviderMode cfg p of
             Inl e \<Rightarrow> (Inl e, db)
           | Inr _ \<Rightarrow>
               (case in_tx (cl_drv (c 0)) (start_subscription_tx cfg ident) db of
                  (Inl e, db1) \<Rightarrow> (Inl e, db1)
                | (Inr s, db1) \<Rightarrow>
                    (let db2 = billing_run lib el cfg mid db1 in
                     case read_subscription pv s (cl_now (c 0) 0) (cl_now (c 1) 0) of
                       Inl e \<Rightarrow> (Inl e, db2)
                     | Inr (sp, charge) \<Rightarrow> in_tx (cl_drv (c 1)) (finish_subscription_tx cfg ident (bs_generation s) sp charge) db2))))"

definition charge_reader :: "provider option \<Rightarrow> (string \<Rightarrow> charge_observation result) option" where
  "charge_reader p = (case p of None \<Rightarrow> None | Some pv \<Rightarrow> pv_charge pv)"

definition reconcileBillingCharge ::
  "portal_lib \<Rightarrow> event_lib \<Rightarrow> store_config \<Rightarrow> (nat \<Rightarrow> call) \<Rightarrow> provider option \<Rightarrow> (call \<times> billing_tx) list \<Rightarrow> string
    \<Rightarrow> 'x billing_db_scheme \<Rightarrow> unit result \<times> 'x billing_db_scheme" where
  "reconcileBillingCharge lib el cfg c p mid ident db =
     (case charge_reader p of
        None \<Rightarrow> (Inl Portal_ErrInvalid, db)
      | Some read \<Rightarrow>
          if \<not> provider_ref ''ch_'' ident then (Inl Portal_ErrInvalid, db)
          else (case validateBillingProviderMode cfg p of
             Inl e \<Rightarrow> (Inl e, db)
           | Inr _ \<Rightarrow>
               (case in_tx (cl_drv (c 0)) (start_charge_tx cfg ident) db of
                  (Inl e, db1) \<Rightarrow> (Inl e, db1)
                | (Inr fence, db1) \<Rightarrow>
                    (let db2 = billing_run lib el cfg mid db1 in
                     case read ident of
                       Inl e \<Rightarrow> (Inl e, db2)
                     | Inr ob \<Rightarrow>
                         if \<not> observation_accepted ident (cl_now (c 0) 0) (cl_now (c 1) 0) ob then (Inl ErrBillingConflict, db2)
                         else in_tx (cl_drv (c 2)) (finish_charge_tx cfg (c 2) ident fence ob) db2))))"

definition refreshBillingChargeOnce ::
  "portal_lib \<Rightarrow> event_lib \<Rightarrow> store_config \<Rightarrow> (nat \<Rightarrow> call) \<Rightarrow> provider option \<Rightarrow> (nat \<Rightarrow> (call \<times> billing_tx) list)
    \<Rightarrow> 'x billing_db_scheme \<Rightarrow> bool result \<times> 'x billing_db_scheme" where
  "refreshBillingChargeOnce lib el cfg c p mid db =
     (if charge_reader p = None then (Inl Portal_ErrInvalid, db)
      else case validateBillingProviderMode cfg p of
        Inl e \<Rightarrow> (Inl e, db)
      | Inr _ \<Rightarrow>
          (case in_tx (cl_drv (c 0)) (claim_charge_tx cfg (c 0)) db of
             (Inl e, db1) \<Rightarrow> (Inl e, db1)
           | (Inr None, db1) \<Rightarrow> (Inr False, db1)
           | (Inr (Some ident), db1) \<Rightarrow>
               (case reconcileBillingCharge lib el cfg (\<lambda>n. c (n + 1)) p (mid 1) ident (billing_run lib el cfg (mid 0) db1) of
                  (Inl e, db2) \<Rightarrow> (Inl e, db2)
                | (Inr _, db2) \<Rightarrow> (Inr True, db2))))"

definition price_accepted :: "string \<Rightarrow> string \<Rightarrow> int \<Rightarrow> int \<Rightarrow> plan_price \<Rightarrow> bool" where
  "price_accepted plan price started now pp \<longleftrightarrow>
     \<not> (pp_Plan pp \<noteq> plan \<or> pp_PriceID pp \<noteq> price \<or> pp_ObservedAt pp < started \<or> pp_ObservedAt pp > now)"

definition refreshBillingPriceOnce ::
  "portal_lib \<Rightarrow> event_lib \<Rightarrow> store_config \<Rightarrow> (nat \<Rightarrow> call) \<Rightarrow> provider option \<Rightarrow> (call \<times> billing_tx) list
    \<Rightarrow> 'x billing_db_scheme \<Rightarrow> bool result \<times> 'x billing_db_scheme" where
  "refreshBillingPriceOnce lib el cfg c p mid db =
     (case p of
        None \<Rightarrow> (Inl Portal_ErrInvalid, db)
      | Some pv \<Rightarrow>
          (case validateBillingProviderMode cfg p of
             Inl e \<Rightarrow> (Inl e, db)
           | Inr _ \<Rightarrow>
               (case in_tx (cl_drv (c 0)) (claim_price_tx cfg (c 0)) db of
                  (Inl e, db1) \<Rightarrow> (Inl e, db1)
                | (Inr None, db1) \<Rightarrow> (Inr False, db1)
                | (Inr (Some (plan, price, fence)), db1) \<Rightarrow>
                    (let db2 = billing_run lib el cfg mid db1 in
                     case pv_price pv plan price of
                       Inl e \<Rightarrow> (Inl e, db2)
                     | Inr pp \<Rightarrow>
                         if \<not> price_accepted plan price (cl_now (c 0) 0) (cl_now (c 1) 0) pp then (Inl ErrBillingConflict, db2)
                         else (case in_tx (cl_drv (c 2)) (finish_price_tx cfg (c 2) plan price fence pp) db2 of
                                 (Inl e, db3) \<Rightarrow> (Inl e, db3)
                               | (Inr _, db3) \<Rightarrow> (Inr True, db3))))))"

section \<open>Events\<close>

definition processBillingChargeEvent ::
  "portal_lib \<Rightarrow> event_lib \<Rightarrow> store_config \<Rightarrow> (nat \<Rightarrow> call) \<Rightarrow> provider option \<Rightarrow> (nat \<Rightarrow> (call \<times> billing_tx) list) \<Rightarrow> string
    \<Rightarrow> 'x billing_db_scheme \<Rightarrow> bool result \<times> 'x billing_db_scheme" where
  "processBillingChargeEvent lib el cfg c p mid event db =
     (case charge_event_check el cfg (c 0) event db of
        Inl e \<Rightarrow> (Inl e, db)
      | Inr (Inl finished) \<Rightarrow> (Inr finished, db)
      | Inr (Inr charge) \<Rightarrow>
          (case reconcileBillingCharge lib el cfg (\<lambda>n. c (n + 1)) p (mid 1) charge (billing_run lib el cfg (mid 0) db) of
             (Inl e, db1) \<Rightarrow> (Inl e, db1)
           | (Inr _, db1) \<Rightarrow>
               in_tx (cl_drv (c 4)) (charge_event_tx cfg (c 4) event charge) (billing_run lib el cfg (mid 2) db1)))"

text \<open>
  The event branch of \<open>performBillingWork\<close>: the first of the three processors that takes the
  event settles it; an event none of them takes is a conflict.
\<close>

definition processBillingEvent ::
  "portal_lib \<Rightarrow> event_lib \<Rightarrow> store_config \<Rightarrow> (nat \<Rightarrow> call) \<Rightarrow> provider option \<Rightarrow> (nat \<Rightarrow> (call \<times> billing_tx) list) \<Rightarrow> string
    \<Rightarrow> 'x billing_db_scheme \<Rightarrow> unit result \<times> 'x billing_db_scheme" where
  "processBillingEvent lib el cfg c p mid event db =
     (case in_tx (cl_drv (c 0)) (checkout_event_tx el cfg (c 0) event) db of
        (Inl e, db1) \<Rightarrow> (Inl e, db1)
      | (Inr True, db1) \<Rightarrow> (Inr (), db1)
      | (Inr False, db1) \<Rightarrow>
          (case in_tx (cl_drv (c 1)) (subscription_event_tx el cfg (c 1) event) (billing_run lib el cfg (mid 0) db1) of
             (Inl e, db2) \<Rightarrow> (Inl e, db2)
           | (Inr True, db2) \<Rightarrow> (Inr (), db2)
           | (Inr False, db2) \<Rightarrow>
               if charge_reader p = None then (Inl Portal_ErrInvalid, db2)
               else (case processBillingChargeEvent lib el cfg (\<lambda>n. c (n + 2)) p (\<lambda>n. mid (n + 2)) event
                            (billing_run lib el cfg (mid 1) db2) of
                       (Inl e, db3) \<Rightarrow> (Inl e, db3)
                     | (Inr True, db3) \<Rightarrow> (Inr (), db3)
                     | (Inr False, db3) \<Rightarrow> (Inl ErrBillingConflict, db3))))"

section \<open>The worker\<close>

definition perform_customer ::
  "portal_lib \<Rightarrow> event_lib \<Rightarrow> store_config \<Rightarrow> (nat \<Rightarrow> call) \<Rightarrow> provider \<Rightarrow> (nat \<Rightarrow> (call \<times> billing_tx) list) \<Rightarrow> string
    \<Rightarrow> 'x billing_db_scheme \<Rightarrow> unit result \<times> 'x billing_db_scheme" where
  "perform_customer lib el cfg c pv mid reference db =
     (let db1 = billing_run lib el cfg (mid 0) db in
      case billingCustomerWork cfg (c 0) reference db db1 of
        Inl e \<Rightarrow> (Inl e, db1)
      | Inr cu \<Rightarrow>
          if cu_customer cu \<noteq> None then (Inr (), db1)
          else (case pv_customer pv (cu_email cu) (cu_request cu) of
                  Inl e \<Rightarrow> (Inl e, db1)
                | Inr ident \<Rightarrow> bindBillingCustomer cfg (c 1) (cu_request cu) ident (billing_run lib el cfg (mid 1) db1)))"

definition perform_checkout ::
  "portal_lib \<Rightarrow> event_lib \<Rightarrow> store_config \<Rightarrow> (nat \<Rightarrow> call) \<Rightarrow> provider \<Rightarrow> (nat \<Rightarrow> (call \<times> billing_tx) list) \<Rightarrow> string
    \<Rightarrow> 'x billing_db_scheme \<Rightarrow> unit result \<times> 'x billing_db_scheme" where
  "perform_checkout lib el cfg c pv mid reference db =
     (case billingCheckoutWork cfg (c 0) reference db of
        Inl e \<Rightarrow> (Inl e, db)
      | Inr co \<Rightarrow>
          if bc_state co \<noteq> ''pending'' then (Inr (), db)
          else (case pv_checkout pv (bc_customer co) (bc_plan co) (bc_price co) (bc_id co) of
                  Inl e \<Rightarrow> (Inl e, db)
                | Inr (session, link) \<Rightarrow>
                    bindBillingCheckout el cfg (c 1) (bc_id co) session link (billing_run lib el cfg (mid 0) db)))"

definition performBillingWork ::
  "portal_lib \<Rightarrow> event_lib \<Rightarrow> store_config \<Rightarrow> (nat \<Rightarrow> call) \<Rightarrow> provider \<Rightarrow> (nat \<Rightarrow> (call \<times> billing_tx) list) \<Rightarrow> string \<Rightarrow> string
    \<Rightarrow> 'x billing_db_scheme \<Rightarrow> unit result \<times> 'x billing_db_scheme" where
  "performBillingWork lib el cfg c pv mid kind reference db =
     (if kind = ''customer'' then perform_customer lib el cfg c pv mid reference db
      else if kind = ''checkout'' then perform_checkout lib el cfg c pv mid reference db
      else if kind = ''event'' then processBillingEvent lib el cfg c (Some pv) mid reference db
      else if kind = ''subscription'' then reconcileBillingSubscription lib el cfg c (Some pv) (mid 0) reference db
      else (Inl Portal_ErrInvalid, db))"

definition billingWorkOnce ::
  "portal_lib \<Rightarrow> event_lib \<Rightarrow> store_config \<Rightarrow> (nat \<Rightarrow> call) \<Rightarrow> provider option \<Rightarrow> (nat \<Rightarrow> (call \<times> billing_tx) list)
    \<Rightarrow> 'x billing_db_scheme \<Rightarrow> bool result \<times> 'x billing_db_scheme" where
  "billingWorkOnce lib el cfg c p mid db =
     (case p of
        None \<Rightarrow> (Inl Portal_ErrInvalid, db)
      | Some pv \<Rightarrow>
          (case validateBillingProviderMode cfg p of
             Inl e \<Rightarrow> (Inl e, db)
           | Inr _ \<Rightarrow>
               (case in_tx (cl_drv (c 0)) (claim_work_tx lib cfg (c 0)) db of
                  (Inl e, db1) \<Rightarrow> (Inl e, db1)
                | (Inr None, db1) \<Rightarrow> (Inr False, db1)
                | (Inr (Some w), db1) \<Rightarrow>
                    (case performBillingWork lib el cfg (\<lambda>n. c (n + 2)) pv (\<lambda>n. mid (n + 2)) (bw_kind w) (bw_reference w)
                            (billing_run lib el cfg (mid 0) db1) of
                       (r, db2) \<Rightarrow>
                         (case in_tx (cl_drv (c 1)) (finish_work_tx lib cfg (c 1) w (cl_token (c 0) 0) (r = Inr ()))
                                 (billing_run lib el cfg (mid 1) db2) of
                            (Inl e, db3) \<Rightarrow> (Inl e, db3)
                          | (Inr _, db3) \<Rightarrow> (case r of Inl e \<Rightarrow> (Inl e, db3) | Inr _ \<Rightarrow> (Inr True, db3)))))))"

text \<open>
  \<open>RunBillingWorker\<close>: what one turn of its loop gets from outside, and the loop until the
  context ends (the list of turns). The flag says whether the turn sleeps at its end.
\<close>

record worker_env =
  we_price_calls :: "nat \<Rightarrow> call"
  we_charge_calls :: "nat \<Rightarrow> call"
  we_work_calls :: "nat \<Rightarrow> call"
  we_provider :: provider
  we_mid :: "nat \<Rightarrow> nat \<Rightarrow> (call \<times> billing_tx) list"

definition worker_turn ::
  "portal_lib \<Rightarrow> event_lib \<Rightarrow> store_config \<Rightarrow> worker_env \<Rightarrow> 'x billing_db_scheme \<Rightarrow> bool \<times> 'x billing_db_scheme" where
  "worker_turn lib el cfg env db =
     (case refreshBillingPriceOnce lib el cfg (we_price_calls env) (Some (we_provider env)) (we_mid env 0 0) db of
        (r1, db1) \<Rightarrow>
          (case refreshBillingChargeOnce lib el cfg (we_charge_calls env) (Some (we_provider env)) (we_mid env 1)
                  (billing_run lib el cfg (we_mid env 0 1) db1) of
             (r2, db2) \<Rightarrow>
               (case billingWorkOnce lib el cfg (we_work_calls env) (Some (we_provider env)) (we_mid env 2)
                       (billing_run lib el cfg (we_mid env 0 2) db2) of
                  (r3, db3) \<Rightarrow> (\<not> (r3 = Inr True \<or> r1 = Inr True \<or> r2 = Inr True), db3))))"

fun runBillingWorker ::
  "portal_lib \<Rightarrow> event_lib \<Rightarrow> store_config \<Rightarrow> worker_env list \<Rightarrow> 'x billing_db_scheme \<Rightarrow> 'x billing_db_scheme" where
  "runBillingWorker lib el cfg [] db = db"
| "runBillingWorker lib el cfg (env # envs) db = runBillingWorker lib el cfg envs (snd (worker_turn lib el cfg env db))"


section \<open>Every call is a history\<close>

text \<open>
  \<open>billing_path db db'\<close>: from consistent tables, the transactions of the store lead from \<open>db\<close> to \<open>db'\<close>.
\<close>

definition billing_path ::
  "portal_lib \<Rightarrow> event_lib \<Rightarrow> store_config \<Rightarrow> 'x billing_db_scheme \<Rightarrow> 'x billing_db_scheme \<Rightarrow> bool" where
  "billing_path lib el cfg db db' \<longleftrightarrow> (ledger_ok (ledger_of db) \<longrightarrow> (\<exists>is. db' = billing_run lib el cfg is db))"

lemma path_refl [simp, intro]: "billing_path lib el cfg db db"
  unfolding billing_path_def by (metis run_ops.simps(1))

lemma path_run [simp, intro]: "billing_path lib el cfg db (billing_run lib el cfg mid db)"
  unfolding billing_path_def by blast

lemma path_trans [trans]:
  assumes "billing_path lib el cfg db db1" and "billing_path lib el cfg db1 db2"
  shows "billing_path lib el cfg db db2"
  unfolding billing_path_def
proof
  assume ok: "ledger_ok (ledger_of db)"
  with assms(1) obtain is1 where db1: "db1 = billing_run lib el cfg is1 db" unfolding billing_path_def by blast
  have "ledger_ok (ledger_of db1)" unfolding db1 by (rule bl.run_inv [OF ok])
  with assms(2) obtain is2 where "db2 = billing_run lib el cfg is2 db1" unfolding billing_path_def by blast
  then have "db2 = billing_run lib el cfg (is1 @ is2) db" by (simp add: db1 run_ops_append)
  then show "\<exists>is. db2 = billing_run lib el cfg is db" by blast
qed

lemma path_mid: "billing_path lib el cfg db db1 \<Longrightarrow> billing_path lib el cfg db (billing_run lib el cfg mid db1)"
  by (rule path_trans) auto

text \<open>A transaction whose body is an item of the family is a step of a history.\<close>

lemma path_tx:
  assumes "\<And>a db'. ledger_ok (ledger_of db) \<Longrightarrow> body db = Inr (a, db') \<Longrightarrow> billing_body lib el cfg c t db = Inr ((), db')"
  shows "billing_path lib el cfg db (snd (in_tx (cl_drv c) body db))"
proof (cases "fst (in_tx (cl_drv c) body db)")
  case (Inl e)
  then show ?thesis by (simp add: in_tx_error)
next
  case (Inr a)
  then have "in_tx (cl_drv c) body db = (Inr a, snd (in_tx (cl_drv c) body db))" by (simp add: prod_eq_iff)
  then have tx: "cl_drv c = None" "body db = Inr (a, snd (in_tx (cl_drv c) body db))" by (simp_all add: in_tx_Inr_iff)
  have "\<exists>is. snd (in_tx (cl_drv c) body db) = billing_run lib el cfg is db" if "ledger_ok (ledger_of db)"
  proof
    from assms [OF that tx(2)] tx(1)
    have "billing_exec lib el cfg (c, t) db = (Inr (), snd (in_tx (cl_drv c) body db))"
      by (simp add: billing_exec_def in_tx_Inr_iff)
    then show "snd (in_tx (cl_drv c) body db) = billing_run lib el cfg [(c, t)] db" by simp
  qed
  then show ?thesis unfolding billing_path_def by blast
qed

lemma drop_value_of: "r = Inr (a, db) \<Longrightarrow> drop_value r = Inr ((), db)"
  by (simp add: drop_value_def seq_simps)

text \<open>The subscription a read started from is still known after any history.\<close>

lemma known_iff: "known_subscription s db \<longleftrightarrow> (\<exists>t \<in> set (billing_subscriptions db). sub_id t = sub_id s)"
  unfolding known_subscription_def list_ex_iff same_subscription_id by metis

lemma subscription_kept:
  assumes "ledger_ok (ledger_of db)" and "s \<in> set (billing_subscriptions db)"
  shows "known_subscription s (billing_run lib el cfg is db)"
proof -
  have "ledger_ok (ledger_of (billing_run lib el cfg is db)) \<and> known_subscription s (billing_run lib el cfg is db)"
  proof (rule run_ops_preserves [where P = "\<lambda>d. ledger_ok (ledger_of d) \<and> known_subscription s d"])
    from assms show "ledger_ok (ledger_of db) \<and> known_subscription s db" by (auto simp: known_iff)
    fix i and d :: "'a billing_db_scheme"
    assume d: "ledger_ok (ledger_of d) \<and> known_subscription s d"
    then obtain t where t: "t \<in> set (lg_subs (ledger_of d))" "sub_id t = sub_id s" by (auto simp: known_iff)
    note step = billing_exec_sim [OF conjunct1 [OF d], of lib el cfg i]
    from sub_kept [OF step t(1)] t(2) have "known_subscription s (snd (billing_exec lib el cfg i d))"
      by (simp add: known_iff)
    with ledger_ok_step [OF step conjunct1 [OF d]]
    show "ledger_ok (ledger_of (snd (billing_exec lib el cfg i d))) \<and> known_subscription s (snd (billing_exec lib el cfg i d))" by blast
  qed
  then show ?thesis by blast
qed

lemma path_ok: "(ledger_ok (ledger_of db) \<Longrightarrow> billing_path lib el cfg db db') \<Longrightarrow> billing_path lib el cfg db db'"
  by (auto simp: billing_path_def)

lemma path_start_subscription: "billing_path lib el cfg db (snd (in_tx (cl_drv (c :: call)) (start_subscription_tx cfg ident) db))"
  by (rule path_tx [where t = "BStartSubscription ident"]) (simp add: drop_value_of)

lemma path_start_charge: "billing_path lib el cfg db (snd (in_tx (cl_drv (c :: call)) (start_charge_tx cfg ident) db))"
  by (rule path_tx [where t = "BStartCharge ident"]) (simp add: drop_value_of)

lemma path_finish_charge:
  "observation_accepted ident started now ob \<Longrightarrow>
   billing_path lib el cfg db (snd (in_tx (cl_drv c) (finish_charge_tx cfg c ident n ob) db))"
  by (rule path_tx [where t = "BFinishCharge ident n started now ob"]) simp

lemma path_claim_charge: "billing_path lib el cfg db (snd (in_tx (cl_drv c) (claim_charge_tx cfg c) db))"
  by (rule path_tx [where t = BClaimCharge]) (simp add: drop_value_of)

lemma path_claim_price: "billing_path lib el cfg db (snd (in_tx (cl_drv c) (claim_price_tx cfg c) db))"
  by (rule path_tx [where t = BClaimPrice]) (simp add: drop_value_of)

lemma path_finish_price: "billing_path lib el cfg db (snd (in_tx (cl_drv c) (finish_price_tx cfg c plan price n pp) db))"
  by (rule path_tx [where t = "BFinishPrice plan price n pp"]) simp

lemma path_checkout_event: "billing_path lib el cfg db (snd (in_tx (cl_drv c) (checkout_event_tx el cfg c event) db))"
  by (rule path_tx [where t = "BCheckoutEvent event"]) (simp add: drop_value_of)

lemma path_subscription_event: "billing_path lib el cfg db (snd (in_tx (cl_drv c) (subscription_event_tx el cfg c event) db))"
  by (rule path_tx [where t = "BSubscriptionEvent event"]) (simp add: drop_value_of)

lemma path_charge_event: "billing_path lib el cfg db (snd (in_tx (cl_drv c) (charge_event_tx cfg c event charge) db))"
  by (rule path_tx [where t = "BChargeEvent event charge"]) (simp add: drop_value_of)

lemma path_claim_work: "billing_path lib el cfg db (snd (in_tx (cl_drv c) (claim_work_tx lib cfg c) db))"
  by (rule path_tx [where t = BClaimWork]) (simp add: drop_value_of)

lemma path_finish_work: "billing_path lib el cfg db (snd (in_tx (cl_drv c) (finish_work_tx lib cfg c w lease ok) db))"
  by (rule path_tx [where t = "BFinishWork w lease ok"]) simp

lemma path_bind_customer: "billing_path lib el cfg db (snd (bindBillingCustomer cfg c request customer db))"
proof (cases "provider_ref ''cus_'' customer")
  case True
  then have "billing_path lib el cfg db (snd (in_tx (cl_drv c) (bind_customer_tx cfg c request customer) db))"
    by (intro path_tx [where t = "BBindCustomer request customer"]) simp
  with True show ?thesis by (simp add: bindBillingCustomer_def)
qed (simp add: bindBillingCustomer_def)

lemma path_bind_checkout: "billing_path lib el cfg db (snd (bindBillingCheckout el cfg c ident session link db))"
proof -
  have "billing_path lib el cfg db (snd (in_tx (cl_drv c) (bind_checkout_tx cfg c ident session link) db))"
    by (rule path_tx [where t = "BBindCheckout ident session link"]) simp
  then show ?thesis by (simp add: bindBillingCheckout_def)
qed

lemma read_subscription_accepted:
  "read_subscription pv s started now = Inr (sp, charge) \<Longrightarrow> snapshot_accepted s started now sp"
  by (auto simp: read_subscription_def)

lemma start_subscription_known:
  assumes "start_subscription_tx cfg ident db = Inr (s, db')"
  shows "s \<in> set (billing_subscriptions db')" "sub_key s = (billingModeValue cfg, ident)"
  using assms by (auto simp: start_subscription_tx_def Let_def dest: get_row_SomeD)

lemma path_reconcile_subscription:
  "billing_path lib el cfg db (snd (reconcileBillingSubscription lib el cfg c p mid ident db))"
proof (rule path_ok)
  assume ok: "ledger_ok (ledger_of db)"
  obtain r db1 where tx: "in_tx (cl_drv (c 0)) (start_subscription_tx cfg ident) db = (r, db1)" by fastforce
  with path_start_subscription [of lib el cfg db "c 0" ident] have p1: "billing_path lib el cfg db db1" by simp
  let ?db2 = "billing_run lib el cfg mid db1"
  have fin: "billing_path lib el cfg ?db2 (snd (in_tx (cl_drv (c (Suc 0))) (finish_subscription_tx cfg ident (bs_generation s) sp charge) ?db2))"
    if s: "r = Inr s" and "snapshot_accepted s started now sp" for s started now sp charge
  proof (rule path_tx [where t = "BFinishSubscription s started now sp charge"])
    from tx s have st: "start_subscription_tx cfg ident db = Inr (s, db1)" by (simp add: in_tx_Inr_iff)
    from ok start_subscription_sim [OF st] have "ledger_ok (ledger_of db1)" using ledger_ok_step by blast
    from subscription_kept [OF this start_subscription_known(1) [OF st]] have k: "known_subscription s ?db2" .
    from start_subscription_known(2) [OF st] have "bs_mode s = billingModeValue cfg" "bs_id s = ident" by (simp_all add: sub_key_def)
    with k that show "billing_body lib el cfg (c (Suc 0)) (BFinishSubscription s started now sp charge) ?db2 = Inr ((), db')"
      if "finish_subscription_tx cfg ident (bs_generation s) sp charge ?db2 = Inr (a, db')" for a db'
      using that by (simp add: seq_simps guard_def)
  qed
  show "billing_path lib el cfg db (snd (reconcileBillingSubscription lib el cfg c p mid ident db))"
    by (auto simp: reconcileBillingSubscription_def tx Let_def p1 path_mid [OF p1]
        intro: path_trans [OF path_mid [OF p1] fin] dest!: read_subscription_accepted split: option.splits sum.splits)
qed


lemma path_reconcile_charge:
  "billing_path lib el cfg db (snd (reconcileBillingCharge lib el cfg c p mid ident db))"
proof -
  obtain r db1 where tx: "in_tx (cl_drv (c 0)) (start_charge_tx cfg ident) db = (r, db1)" by fastforce
  with path_start_charge [of lib el cfg db "c 0" ident] have p1: "billing_path lib el cfg db db1" by simp
  show ?thesis
    by (auto simp: reconcileBillingCharge_def tx Let_def p1 path_mid [OF p1]
        intro!: path_trans [OF path_mid [OF p1] path_finish_charge] split: option.splits sum.splits)
qed

lemma path_call:
  assumes "billing_path lib el cfg db db1" and "billing_path lib el cfg (billing_run lib el cfg mid db1) db2"
  shows "billing_path lib el cfg db db2"
  by (rule path_trans [OF path_mid [OF assms(1)] assms(2)])

lemma path_refresh_charge:
  "billing_path lib el cfg db (snd (refreshBillingChargeOnce lib el cfg c p mid db))"
proof -
  obtain r db1 where tx: "in_tx (cl_drv (c 0)) (claim_charge_tx cfg (c 0)) db = (r, db1)" by fastforce
  with path_claim_charge [of lib el cfg db "c 0"] have p1: "billing_path lib el cfg db db1" by simp
  have "billing_path lib el cfg db db2"
    if "reconcileBillingCharge lib el cfg c' p m ident (billing_run lib el cfg m' db1) = (r', db2)" for c' m m' ident r' db2
    using path_reconcile_charge [of lib el cfg "billing_run lib el cfg m' db1" c' p m ident] that
    by (intro path_call [OF p1]) simp
  then show ?thesis
    by (auto simp: refreshBillingChargeOnce_def tx p1 split: option.splits sum.splits prod.splits)
qed

lemma path_refresh_price:
  "billing_path lib el cfg db (snd (refreshBillingPriceOnce lib el cfg c p mid db))"
proof -
  obtain r db1 where tx: "in_tx (cl_drv (c 0)) (claim_price_tx cfg (c 0)) db = (r, db1)" by fastforce
  with path_claim_price [of lib el cfg db "c 0"] have p1: "billing_path lib el cfg db db1" by simp
  have "billing_path lib el cfg db db3"
    if "in_tx (cl_drv (c 2)) (finish_price_tx cfg (c 2) plan price n pp) (billing_run lib el cfg mid db1) = (r', db3)" for plan price n pp r' db3
    using path_finish_price [of lib el cfg "billing_run lib el cfg mid db1" "c 2" plan price n pp] that
    by (intro path_call [OF p1]) simp
  then show ?thesis
    by (auto simp: refreshBillingPriceOnce_def tx Let_def p1 path_mid [OF p1] split: option.splits sum.splits prod.splits)
qed

lemma path_process_charge_event:
  "billing_path lib el cfg db (snd (processBillingChargeEvent lib el cfg c p mid event db))"
proof -
  have "billing_path lib el cfg db db1"
    if "reconcileBillingCharge lib el cfg c' p m ident (billing_run lib el cfg m' db) = (r', db1)" for c' m m' ident r' db1
    using path_reconcile_charge [of lib el cfg "billing_run lib el cfg m' db" c' p m ident] that
    by - (rule path_call [OF path_refl], simp)
  then have "billing_path lib el cfg db db1 \<and> billing_path lib el cfg db (snd (in_tx (cl_drv (c 4)) (charge_event_tx cfg (c 4) event ident) (billing_run lib el cfg m db1)))"
    if "reconcileBillingCharge lib el cfg c' p m'' ident (billing_run lib el cfg m' db) = (r', db1)" for c' m m' m'' ident r' db1
    using path_call [OF _ path_charge_event] that by blast
  then show ?thesis
    by (simp add: processBillingChargeEvent_def split: sum.split prod.split)
qed

lemma path_process_event:
  "billing_path lib el cfg db (snd (processBillingEvent lib el cfg c p mid event db))"
proof -
  obtain r db1 where tx: "in_tx (cl_drv (c 0)) (checkout_event_tx el cfg (c 0) event) db = (r, db1)" by fastforce
  with path_checkout_event [of lib el cfg db "c 0" event] have p1: "billing_path lib el cfg db db1" by simp
  let ?d1 = "billing_run lib el cfg (mid 0) db1"
  obtain r2 db2 where tx2: "in_tx (cl_drv (c (Suc 0))) (subscription_event_tx el cfg (c (Suc 0)) event) ?d1 = (r2, db2)" by fastforce
  with path_subscription_event [of lib el cfg ?d1 "c (Suc 0)" event] have p2: "billing_path lib el cfg db db2"
    by (intro path_call [OF p1]) simp
  have "billing_path lib el cfg db db3"
    if "processBillingChargeEvent lib el cfg c' p m event (billing_run lib el cfg (mid (Suc 0)) db2) = (r', db3)" for c' m r' db3
    using path_process_charge_event [of lib el cfg "billing_run lib el cfg (mid (Suc 0)) db2" c' p m event] that
    by (intro path_call [OF p2]) simp
  then show ?thesis
    by (auto simp: processBillingEvent_def tx tx2 p1 p2 split: option.splits sum.splits prod.splits bool.splits)
qed

lemma path_perform_customer: "billing_path lib el cfg db (snd (perform_customer lib el cfg c pv mid reference db))"
proof -
  have "billing_path lib el cfg db (snd (bindBillingCustomer cfg c' request customer
          (billing_run lib el cfg (mid (Suc 0)) (billing_run lib el cfg (mid 0) db))))" for c' request customer
    by (rule path_call [OF path_run path_bind_customer])
  then show ?thesis by (simp add: perform_customer_def Let_def split: sum.split)
qed

lemma path_perform_checkout: "billing_path lib el cfg db (snd (perform_checkout lib el cfg c pv mid reference db))"
proof -
  have "billing_path lib el cfg db (snd (bindBillingCheckout el cfg c' ident session link (billing_run lib el cfg (mid 0) db)))"
    for c' ident session link
    by (rule path_call [OF path_refl path_bind_checkout])
  then show ?thesis by (simp add: perform_checkout_def split: sum.split prod.split)
qed

lemma path_perform_work: "billing_path lib el cfg db (snd (performBillingWork lib el cfg c pv mid kind reference db))"
  by (simp add: performBillingWork_def path_perform_customer path_perform_checkout path_process_event path_reconcile_subscription)

lemma path_work_once: "billing_path lib el cfg db (snd (billingWorkOnce lib el cfg c p mid db))"
proof -
  obtain r db1 where tx: "in_tx (cl_drv (c 0)) (claim_work_tx lib cfg (c 0)) db = (r, db1)" by fastforce
  with path_claim_work [of lib el cfg db "c 0"] have p1: "billing_path lib el cfg db db1" by simp
  have "billing_path lib el cfg db db3"
    if "performBillingWork lib el cfg c' pv m kind reference (billing_run lib el cfg (mid 0) db1) = (r', db2)"
      and "in_tx (cl_drv (c (Suc 0))) (finish_work_tx lib cfg (c (Suc 0)) w lease ok) (billing_run lib el cfg (mid (Suc 0)) db2) = (q, db3)"
    for c' pv m kind reference r' db2 w lease ok q db3
  proof (rule path_call)
    show "billing_path lib el cfg db db2"
      using path_perform_work [of lib el cfg "billing_run lib el cfg (mid 0) db1" c' pv m kind reference] that(1)
      by (intro path_call [OF p1]) simp
    show "billing_path lib el cfg (billing_run lib el cfg (mid (Suc 0)) db2) db3"
      using path_finish_work [of lib el cfg "billing_run lib el cfg (mid (Suc 0)) db2" "c (Suc 0)" w lease ok] that(2) by simp
  qed
  then show ?thesis
    by (auto simp: billingWorkOnce_def tx p1 split: option.splits sum.splits prod.splits)
qed

lemma path_turn: "billing_path lib el cfg db (snd (worker_turn lib el cfg env db))"
proof -
  obtain r1 db1 where e1: "refreshBillingPriceOnce lib el cfg (we_price_calls env) (Some (we_provider env)) (we_mid env 0 0) db = (r1, db1)" by fastforce
  let ?d1 = "billing_run lib el cfg (we_mid env 0 (Suc 0)) db1"
  obtain r2 db2 where e2: "refreshBillingChargeOnce lib el cfg (we_charge_calls env) (Some (we_provider env)) (we_mid env (Suc 0)) ?d1 = (r2, db2)" by fastforce
  let ?d2 = "billing_run lib el cfg (we_mid env 0 2) db2"
  obtain r3 db3 where e3: "billingWorkOnce lib el cfg (we_work_calls env) (Some (we_provider env)) (we_mid env 2) ?d2 = (r3, db3)" by fastforce
  have "billing_path lib el cfg db db1" using path_refresh_price [of lib el cfg db] e1 by (metis snd_conv)
  from path_call [OF this, of "we_mid env 0 (Suc 0)" db2] path_refresh_charge [of lib el cfg ?d1] e2
  have "billing_path lib el cfg db db2" by (metis snd_conv)
  from path_call [OF this, of "we_mid env 0 2" db3] path_work_once [of lib el cfg ?d2] e3
  have "billing_path lib el cfg db db3" by (metis snd_conv)
  with e1 e2 e3 show ?thesis by (simp add: worker_turn_def)
qed

lemma path_worker: "billing_path lib el cfg db (runBillingWorker lib el cfg envs db)"
proof (induction envs arbitrary: db)
  case (Cons env envs)
  from path_trans [OF path_turn Cons.IH] show ?case by simp
qed simp

end
