(* ===== verification/Billing_Worker.thy ===== *)
theory Billing_Worker
  imports Billing_Calls
begin

text \<open>
  What the calls of \<open>Billing_Calls\<close> guarantee: reconciliations are fenced by the generation, the
  worker's queue hands a work item to one worker at a time, a failing item is retried with bounded delays, and the
  whole worker is a history of transactions.
\<close>

section \<open>Who changes the queue\<close>

lemma audit_work: "audit ident actor ws action now db = Inr db' \<Longrightarrow> billing_work db' = billing_work db"
  by (auto dest: auditD)

lemma more_work: "accounts_db.more db' = accounts_db.more db \<Longrightarrow> billing_work db' = billing_work db"
  by (cases db, cases db') simp

lemma bind_subscription_work: "bind_subscription mode event co sub db = Inr db' \<Longrightarrow> billing_work db' = billing_work db"
  by (auto simp: bind_subscription_def split: option.splits)

lemma settle_checkout_work: "settle_checkout cfg c event co target db = Inr (r, db') \<Longrightarrow> billing_work db' = billing_work db"
  by (auto simp: settle_checkout_def Let_def dest!: audit_work)

lemma apply_session_work:
  assumes "apply_session cfg c event kind cs co db = Inr (r, db')"
  shows "billing_work db' = billing_work db"
proof (cases "kind = ''checkout.session.expired''")
  case True
  with assms show ?thesis by (auto simp: apply_session_def Let_def dest!: settle_checkout_work split: if_splits)
next
  case False
  with assms obtain db1 sub where "bind_subscription (billingModeValue cfg) event co sub db = Inr db1"
    "settle_checkout cfg c event co ''completed'' db1 = Inr (r, db')"
    by (auto simp: apply_session_def Let_def complete_checkout_def split: option.splits)
  with bind_subscription_work settle_checkout_work show ?thesis by metis
qed

lemma quiet_work:
  "configure_policy_tx c workspace required db = Inr (r, db') \<Longrightarrow> billing_work db' = billing_work db"
  "configure_plan_tx cfg plan price enabled db = Inr (r, db') \<Longrightarrow> billing_work db' = billing_work db"
  "configure_limits_tx cfg c plan l db = Inr (r, db') \<Longrightarrow> billing_work db' = billing_work db"
  "request_customer_tx lib cfg c token workspace db = Inr (cu, db') \<Longrightarrow> billing_work db' = billing_work db"
  "bind_customer_tx cfg c request customer db = Inr (r, db') \<Longrightarrow> billing_work db' = billing_work db"
  "request_checkout_tx lib cfg c token workspace plan db = Inr (co, db') \<Longrightarrow> billing_work db' = billing_work db"
  "bind_checkout_tx cfg c ident session link db = Inr (r, db') \<Longrightarrow> billing_work db' = billing_work db"
  "accept_event_tx el cfg c ev payload db = Inr (x, db') \<Longrightarrow> billing_work db' = billing_work db"
  "start_subscription_tx cfg ident db = Inr (s, db') \<Longrightarrow> billing_work db' = billing_work db"
  "finish_subscription_tx cfg ident k sp charge db = Inr (r, db') \<Longrightarrow> billing_work db' = billing_work db"
  "start_charge_tx cfg ident db = Inr (n, db') \<Longrightarrow> billing_work db' = billing_work db"
  "finish_charge_tx cfg c ident n ob db = Inr (r, db') \<Longrightarrow> billing_work db' = billing_work db"
  "claim_charge_tx cfg c db = Inr (y, db') \<Longrightarrow> billing_work db' = billing_work db"
  "claim_price_tx cfg c db = Inr (z, db') \<Longrightarrow> billing_work db' = billing_work db"
  "finish_price_tx cfg c plan price n pp db = Inr (r, db') \<Longrightarrow> billing_work db' = billing_work db"
  subgoal by (auto simp: configure_policy_tx_def Let_def dest!: audit_work split: option.splits)
  subgoal by (auto simp: configure_plan_tx_def Let_def split: option.splits)
  subgoal by (auto simp: configure_limits_tx_def Let_def dest!: audit_work)
  subgoal by (auto simp: request_customer_tx_def Let_def dest!: audit_work split: option.splits)
  subgoal by (auto simp: bind_customer_tx_def Let_def dest!: audit_work split: option.splits)
  subgoal by (auto simp: request_checkout_tx_def dest!: audit_work split: option.splits)
  subgoal by (auto simp: bind_checkout_tx_def Let_def dest!: audit_work split: option.splits)
  subgoal by (auto simp: accept_event_tx_def Let_def split: option.splits)
  subgoal by (auto simp: start_subscription_tx_def Let_def)
  subgoal by (auto simp: finish_subscription_tx_def Let_def)
  subgoal by (auto simp: start_charge_tx_def Let_def split: option.splits)
  subgoal by (auto simp: finish_charge_tx_def Let_def)
  subgoal by (auto simp: claim_charge_tx_def Let_def split: list.splits)
  subgoal by (auto simp: claim_price_tx_def Let_def split: list.splits)
  subgoal by (auto simp: finish_price_tx_def Let_def split: if_splits)
  done

section \<open>Lost leases\<close>

text \<open>No row of the work item carries the lease any more.\<close>

definition lease_lost :: "string \<times> string \<times> string \<Rightarrow> string \<Rightarrow> 'x billing_db_scheme \<Rightarrow> bool" where
  "lease_lost k h db \<longleftrightarrow> (\<forall>w \<in> set (billing_work db). bw_key w = k \<longrightarrow> bw_lease w \<noteq> h)"

lemma lost_same: "billing_work db' = billing_work db \<Longrightarrow> lease_lost k h db \<Longrightarrow> lease_lost k h db'"
  by (simp add: lease_lost_def)

lemma lost_signal:
  assumes "billing_work db' = wake_work mode sub (billing_work db)" and "lease_lost k h db" and "h \<noteq> []"
  shows "lease_lost k h db'"
  using assms by (auto simp: lease_lost_def wake_work_def set_upd_row new_work_def split: option.splits if_splits)

lemma set_add_work: "set (fold add_work vs ws) \<subseteq> set vs \<union> set ws"
proof (induction vs arbitrary: ws)
  case (Cons v vs)
  have "set (add_work v ws) \<subseteq> insert v (set ws)" by (auto simp: add_work_def)
  with Cons.IH [of "add_work v ws"] show ?case by auto
qed simp

lemma discovered_unleased: "w \<in> set (discovered mode db) \<Longrightarrow> bw_lease w = []"
  by (auto simp: discovered_def new_work_def)

lemma lost_claim:
  assumes "claim_work_tx lib cfg c db = Inr (r, db')" and "lease_lost k h db" and "h \<noteq> []"
    and "h \<noteq> lib_digest lib (cl_token c 0)"
  shows "lease_lost k h db'"
proof -
  let ?ws = "fold add_work (discovered (billingModeValue cfg) db) (billing_work db)"
  have ws: "\<forall>w \<in> set ?ws. bw_key w = k \<longrightarrow> bw_lease w \<noteq> h"
  proof (intro ballI impI)
    fix w assume that: "w \<in> set ?ws" "bw_key w = k"
    from that(1) set_add_work have "w \<in> set (discovered (billingModeValue cfg) db) \<or> w \<in> set (billing_work db)" by blast
    with discovered_unleased that(2) assms(2,3) show "bw_lease w \<noteq> h" by (metis lease_lost_def)
  qed
  show ?thesis
  proof (cases "due_work (billingModeValue cfg) (cl_now c 0) ?ws")
    case Nil
    with assms(1) ws show ?thesis by (auto simp: claim_work_tx_def Let_def lease_lost_def)
  next
    case (Cons w rest)
    with assms(1) have "billing_work db' = upd_row bw_key (bw_key w)
        (\<lambda>q. q\<lparr>bw_lease := lib_digest lib (cl_token c 0), bw_until := cl_now c 0 + 60, bw_attempts := bw_attempts q + 1\<rparr>) ?ws"
      by (auto simp: claim_work_tx_def Let_def)
    with ws assms(4) show ?thesis by (auto simp: lease_lost_def set_upd_row bw_key_def split: if_splits)
  qed
qed

lemma lost_finish:
  "finish_work_tx lib cfg c w lease ok db = Inr (r, db') \<Longrightarrow> lease_lost k h db \<Longrightarrow> h \<noteq> [] \<Longrightarrow> lease_lost k h db'"
  by (auto simp: finish_work_tx_def Let_def lease_lost_def split: if_splits)

lemma body_lost:
  assumes "billing_body lib el cfg c t db = Inr (r, db')" and lost: "lease_lost k h db" and h: "h \<noteq> []"
    and t: "t = BClaimWork \<Longrightarrow> h \<noteq> lib_digest lib (cl_token c 0)"
  shows "lease_lost k h db'"
proof -
  note same = lost_same [OF _ lost]
  have signal: "lease_lost k h db'"
    if "audit i a w x n (refresh_signal mode sub event db) = Inr db'" for i a w x n mode sub event
    using audit_work [OF that] by (intro lost_signal [OF _ lost h]) (simp add: refresh_signal_def)
  show ?thesis
  proof (cases t)
    case (BAccount a)
    with assms(1) show ?thesis by (auto intro!: same more_work acct_body_more)
  next
    case (BCheckoutEvent event)
    with assms(1) obtain b where "checkout_event_tx el cfg c event db = Inr (b, db')" by auto
    from checkout_event_cases [OF this] apply_session_work same lost show ?thesis by blast
  next
    case (BSubscriptionEvent event)
    with assms(1) obtain b where "subscription_event_tx el cfg c event db = Inr (b, db')" by auto
    from subscription_event_cases [OF this] signal lost show ?thesis by blast
  next
    case (BChargeEvent event charge)
    with assms(1) obtain b where "charge_event_tx cfg c event charge db = Inr (b, db')" by auto
    from charge_event_cases [OF this] signal lost show ?thesis by blast
  next
    case BClaimWork
    with assms(1) obtain b where "claim_work_tx lib cfg c db = Inr (b, db')" by auto
    from lost_claim [OF this lost h t [OF BClaimWork]] show ?thesis .
  next
    case (BFinishWork w lease ok)
    with assms(1) have "finish_work_tx lib cfg c w lease ok db = Inr (r, db')" by simp
    from lost_finish [OF this lost h] show ?thesis .
  qed (use assms(1) in \<open>auto intro: same quiet_work\<close>)
qed

lemma lost_run:
  assumes "lease_lost k h db" and "h \<noteq> []" and "\<And>c. (c, BClaimWork) \<in> set is \<Longrightarrow> h \<noteq> lib_digest lib (cl_token c 0)"
  shows "lease_lost k h (billing_run lib el cfg is db)"
proof (rule run_ops_preserves_set)
  fix i and d :: "'a billing_db_scheme"
  assume i: "i \<in> set is" "lease_lost k h d"
  show "lease_lost k h (snd (billing_exec lib el cfg i d))"
    unfolding billing_exec_def
  proof (rule in_tx_invariant [where P = "lease_lost k h"])
    show "lease_lost k h db'" if "billing_body lib el cfg (fst i) (snd i) d = Inr (a, db')" for a db'
      by (rule body_lost [OF that i(2) assms(2)]) (use i(1) assms(3) in \<open>metis prod.collapse\<close>)
  qed (rule i(2))
qed (rule assms(1))

lemma lost_refused:
  assumes "lease_lost (billingModeValue cfg, bw_kind w, bw_reference w) (lib_digest lib lease) db"
  shows "finish_work_tx lib cfg c w lease ok db = Inl ErrBillingConflict"
proof -
  have "filter (work_leased lib lease (billingModeValue cfg, bw_kind w, bw_reference w) (cl_now c 1)) (billing_work db) = []"
    using assms by (auto simp: filter_empty_conv work_leased_def lease_lost_def)
  then show ?thesis by (simp add: finish_work_tx_def Let_def)
qed

text \<open>A claim takes the item away from whoever held it.\<close>

lemma claim_takes:
  assumes "claim_work_tx lib cfg c db = Inr (Some w, db')" and "h \<noteq> lib_digest lib (cl_token c 0)"
  shows "lease_lost (bw_key w) h db'" "bw_mode w = billingModeValue cfg"
proof -
  let ?ws = "fold add_work (discovered (billingModeValue cfg) db) (billing_work db)"
  obtain rest where due: "due_work (billingModeValue cfg) (cl_now c 0) ?ws = w # rest"
    using assms(1) by (auto simp: claim_work_tx_def Let_def split: list.splits)
  then have "w \<in> set (due_work (billingModeValue cfg) (cl_now c 0) ?ws)" by simp
  then show "bw_mode w = billingModeValue cfg" by (simp add: due_work_def)
  from assms due show "lease_lost (bw_key w) h db'"
    by (auto simp: claim_work_tx_def Let_def lease_lost_def set_upd_row bw_key_def split: if_splits)
qed

section \<open>Delays\<close>

lemma backoff_closed: "0 < d \<Longrightarrow> min 3600 (backoff_loop n d) = min 3600 (d * 2 ^ n)"
proof (induction n arbitrary: d)
  case (Suc n)
  show ?case
  proof (cases "d < 3600")
    case True
    with Suc.IH [of "d * 2"] Suc.prems show ?thesis by (simp add: algebra_simps)
  next
    case False
    moreover have "(1 :: int) \<le> 2 ^ Suc n" by (rule one_le_power) simp
    then have "d * 1 \<le> d * 2 ^ Suc n" using Suc.prems by (intro mult_left_mono) simp_all
    then have "3600 \<le> d * 2 ^ Suc n" using False by linarith
    ultimately show ?thesis by (simp add: min_def)
  qed
qed simp

lemma work_delay_closed: "work_delay n False = min 3600 (30 * 2 ^ n)"
  using backoff_closed [of 30 n] by (simp add: work_delay_def Let_def min_def split: if_splits)

section \<open>Fences\<close>

text \<open>What a second half that stores a snapshot found and left.\<close>

lemma finish_subscriptionD:
  assumes "finish_subscription_tx cfg ident n sp charge db = Inr (r, db')" and "distinct (map sub_key (billing_subscriptions db))"
  shows "generation (billingModeValue cfg, ident) db = n"
    and "\<exists>t. get_row sub_key (billingModeValue cfg, ident) (billing_subscriptions db') = Some t \<and> bs_snapshot t = Json sp"
proof -
  let ?k = "(billingModeValue cfg, ident)"
  from assms(1) have one: "length (filter (\<lambda>s. sub_key s = ?k \<and> bs_generation s = n) (billing_subscriptions db)) = Suc 0"
    and db': "billing_subscriptions db' = upd_row sub_key ?k (\<lambda>s. if bs_generation s = n then s\<lparr>bs_snapshot := Json sp\<rparr> else s)
      (billing_subscriptions db)"
    by (auto simp: finish_subscription_tx_def Let_def)
  from count_one [OF one] obtain s where s: "s \<in> set (billing_subscriptions db)" "sub_key s = ?k" "bs_generation s = n" by blast
  with get_row_unique [OF assms(2) s(1)] have row: "get_row sub_key ?k (billing_subscriptions db) = Some s" by simp
  with s(3) show "generation ?k db = n" by (simp add: generation_def)
  have "sub_key (if bs_generation q = n then q\<lparr>bs_snapshot := Json sp\<rparr> else q) = sub_key q" for q by (simp add: sub_key_def)
  from get_upd_row [of sub_key, OF this] row s(3)
  show "\<exists>t. get_row sub_key ?k (billing_subscriptions db') = Some t \<and> bs_snapshot t = Json sp" by (simp add: db')
qed

section \<open>Properties\<close>

text \<open>
  C14: The billing worker is a history of transactions. However many turns the worker runs, whatever the provider
  answers in each, wherever its calls fail, and whatever others commit between its transactions, the
  database it leaves is one that the transactions of the billing store reach, and the billing tables are consistent.
\<close>
theorem billing_worker_runs_transactions:
  assumes "ledger_ok (ledger_of db)"
  shows "(\<exists>is. runBillingWorker lib el cfg envs db = run_ops (billing_exec lib el cfg) is db)
       \<and> ledger_ok (ledger_of (runBillingWorker lib el cfg envs db))"
proof -
  from path_worker [of lib el cfg db envs] assms
  obtain "is" where w: "runBillingWorker lib el cfg envs db = run_ops (billing_exec lib el cfg) is db"
    unfolding billing_path_def by blast
  moreover have "ledger_ok (ledger_of (runBillingWorker lib el cfg envs db))" unfolding w by (rule bl.run_inv [OF assms])
  ultimately show ?thesis by blast
qed

text \<open>
  C15: A reconciliation is fenced. When \<open>ReconcileBillingSubscription\<close> succeeds, it stored what the provider answered
  for this subscription with its bound customer and price, observed between the start of the read and the check, and
  between its two transactions no other read of the subscription was started and no refresh signal for
  it was processed: the generation it started with still stands.
\<close>
theorem reconciliation_is_fenced:
  assumes "ledger_ok (ledger_of db)"
    and "reconcileBillingSubscription lib el cfg c (Some pv) mid ident db = (Inr (), db')"
  shows "\<exists>s sp db1. start_subscription_tx cfg ident db = Inr (s, db1)
       \<and> pv_subscription pv ident (bs_customer s) (bs_price s) = Inr sp
       \<and> sp_ID sp = ident \<and> sp_CustomerID sp = bs_customer s \<and> sp_PriceID sp = bs_price s
       \<and> cl_now (c 0) 0 \<le> sp_ObservedAt sp \<and> sp_ObservedAt sp \<le> cl_now (c 1) 0
       \<and> generation (billingModeValue cfg, ident) (run_ops (billing_exec lib el cfg) mid db1) = generation (billingModeValue cfg, ident) db1
       \<and> (\<exists>t. get_row sub_key (billingModeValue cfg, ident) (billing_subscriptions db') = Some t \<and> bs_snapshot t = Json sp)"
proof -
  obtain r db1 where tx: "in_tx (cl_drv (c 0)) (start_subscription_tx cfg ident) db = (r, db1)" by fastforce
  with assms(2) obtain s sp charge where s: "r = Inr s"
    and read: "read_subscription pv s (cl_now (c 0) 0) (cl_now (c 1) 0) = Inr (sp, charge)"
    and fin: "finish_subscription_tx cfg ident (bs_generation s) sp charge (billing_run lib el cfg mid db1) = Inr ((), db')"
    by (auto simp: reconcileBillingSubscription_def Let_def in_tx_Inr_iff split: sum.splits)
  from tx s have start: "start_subscription_tx cfg ident db = Inr (s, db1)" by (simp add: in_tx_Inr_iff)
  have ok: "ledger_ok (ledger_of (billing_run lib el cfg mid db1))"
    by (rule bl.run_inv [OF ledger_ok_step [OF start_subscription_sim [OF start] assms(1)]])
  then have keys: "distinct (map sub_key (billing_subscriptions (billing_run lib el cfg mid db1)))"
    by (simp add: ledger_ok_def subs_ok_def)
  have "bs_id s = ident" using start_subscription_known(2) [OF start] by (simp add: sub_key_def)
  with read have "pv_subscription pv ident (bs_customer s) (bs_price s) = Inr sp" and acc: "snapshot_accepted s (cl_now (c 0) 0) (cl_now (c 1) 0) sp"
    by (auto simp: read_subscription_def)
  moreover have "generation (billingModeValue cfg, ident) (billing_run lib el cfg mid db1) = generation (billingModeValue cfg, ident) db1"
    using finish_subscriptionD(1) [OF fin keys] start_subscription_generation(3) [OF start] by simp
  ultimately show ?thesis
    using start finish_subscriptionD(2) [OF fin keys] \<open>bs_id s = ident\<close> by (auto simp: snapshot_accepted_def)
qed

text \<open>
  C16: A worker that lost its lease cannot acknowledge. Once another worker has claimed the work item,
  then after any further history of transactions in which nobody claims with the first worker's token, the
  first worker's acknowledgement is refused as a conflict and changes nothing.
\<close>
theorem stale_worker_cannot_acknowledge:
  assumes "claim_work_tx lib cfg c db = Inr (Some w, db1)"
    and "lib_digest lib lease \<noteq> lib_digest lib (cl_token c 0)" and "lib_digest lib lease \<noteq> []"
    and "\<forall>(c', t) \<in> set is. t = BClaimWork \<longrightarrow> lib_digest lib lease \<noteq> lib_digest lib (cl_token c' 0)"
    and "bw_kind old = bw_kind w" and "bw_reference old = bw_reference w"
  shows "finish_work_tx lib cfg c2 old lease ok (run_ops (billing_exec lib el cfg) is db1) = Inl ErrBillingConflict"
proof -
  have "bw_key w = (billingModeValue cfg, bw_kind old, bw_reference old)"
    using claim_takes(2) [OF assms(1,2)] assms(5,6) by (simp add: bw_key_def)
  with claim_takes(1) [OF assms(1,2)]
  have "lease_lost (billingModeValue cfg, bw_kind old, bw_reference old) (lib_digest lib lease) db1" by simp
  then have "lease_lost (billingModeValue cfg, bw_kind old, bw_reference old) (lib_digest lib lease) (billing_run lib el cfg is db1)"
    by (rule lost_run) (use assms(3,4) in auto)
  then show ?thesis by (rule lost_refused)
qed

text \<open>
  The delay before failed billing work is tried again doubles with every earlier attempt, from thirty seconds
  up to an hour and never beyond, however many attempts there were; the loop that computes it agrees with the closed form.
\<close>
theorem failed_work_is_retried_within_an_hour:
  "work_delay n False = min 3600 (30 * 2 ^ n) \<and> 30 \<le> work_delay n False \<and> work_delay n False \<le> 3600 \<and> work_delay n True = 300"
proof -
  have "(1 :: int) \<le> 2 ^ n" by (rule one_le_power) simp
  then show ?thesis by (simp add: work_delay_closed) (simp add: work_delay_def)
qed

section \<open>A concrete worker\<close>

definition vx_provider :: provider where
  "vx_provider = \<lparr>pv_mode = Some ''live'', pv_subscription = (\<lambda>_ _ _. Inr (kx_snapshot\<lparr>sp_ObservedAt := 100\<rparr>)), pv_invoice_charge = None,
     pv_charge = None, pv_price = (\<lambda>_ _. Inl ErrDriver), pv_customer = (\<lambda>_ _. Inl ErrDriver), pv_checkout = (\<lambda>_ _ _ _. Inl ErrDriver)\<rparr>"

definition vx_worker :: worker_env where
  "vx_worker = \<lparr>we_price_calls = (\<lambda>_. ax_call CHR ''p''), we_charge_calls = (\<lambda>_. ax_call CHR ''q''), we_work_calls = (\<lambda>_. ax_call CHR ''w''),
     we_provider = vx_provider, we_mid = (\<lambda>_ _. [])\<rparr>"

theorem billing_worker_runs_transactions_witness:
  "ledger_ok (ledger_of (runBillingWorker ax_lib vx_lib kx_config [vx_worker, vx_worker] vx_db))"
  using billing_worker_runs_transactions [OF vx_ok, of ax_lib vx_lib kx_config "[vx_worker, vx_worker]"] by blast

lemma vx_reconcile:
  "\<exists>db'. reconcileBillingSubscription ax_lib vx_lib kx_config (\<lambda>_. ax_call CHR ''x'') (Some vx_provider) [] ''sub_1'' vx_db = (Inr (), db')"
  by (simp add: reconcileBillingSubscription_def validateBillingProviderMode_def vx_provider_def billingModeValue_def Let_def
      start_subscription_tx_def finish_subscription_tx_def read_subscription_def snapshot_accepted_def seq_simps in_tx_def with_tx_def
      billing_keys vx_tables kx_defs ax_call_def)

theorem reconciliation_is_fenced_witness:
  "\<exists>db' t. reconcileBillingSubscription ax_lib vx_lib kx_config (\<lambda>_. ax_call CHR ''x'') (Some vx_provider) [] ''sub_1'' vx_db = (Inr (), db')
     \<and> get_row sub_key (billingModeValue kx_config, ''sub_1'') (billing_subscriptions db') = Some t
     \<and> bs_snapshot t = Json (kx_snapshot\<lparr>sp_ObservedAt := 100\<rparr>)"
proof -
  from vx_reconcile obtain db' where r: "reconcileBillingSubscription ax_lib vx_lib kx_config (\<lambda>_. ax_call CHR ''x'') (Some vx_provider) []
    ''sub_1'' vx_db = (Inr (), db')" by blast
  from reconciliation_is_fenced [OF vx_ok r] r show ?thesis by (auto simp: vx_provider_def)
qed

lemma vx_claim:
  "\<exists>w db'. claim_work_tx ax_lib kx_config (ax_call CHR ''x'') vx_db = Inr (Some w, db') \<and> bw_kind w = ''event'' \<and> bw_reference w = ''evt_2''"
  by (simp add: claim_work_tx_def billingModeValue_def Let_def discovered_def work_event_kinds_def dispute_kinds_def due_work_def new_work_def
      add_work_def billing_keys vx_defs ax_call_def ax_db_def)

theorem stale_worker_cannot_acknowledge_witness:
  "\<exists>w db'. claim_work_tx ax_lib kx_config (ax_call CHR ''x'') vx_db = Inr (Some w, db')
     \<and> finish_work_tx ax_lib kx_config (ax_call CHR ''z'') w ''old'' True
         (run_ops (billing_exec ax_lib vx_lib kx_config) [(ax_call CHR ''y'', BClaimWork)] db') = Inl ErrBillingConflict"
proof -
  obtain w db' where c: "claim_work_tx ax_lib kx_config (ax_call CHR ''x'') vx_db = Inr (Some w, db')" using vx_claim by blast
  have "lib_digest ax_lib ''old'' \<noteq> lib_digest ax_lib (cl_token (ax_call CHR ''x'') 0)" "lib_digest ax_lib ''old'' \<noteq> []"
    "\<forall>(c', t) \<in> set [(ax_call CHR ''y'', BClaimWork)]. t = BClaimWork \<longrightarrow> lib_digest ax_lib ''old'' \<noteq> lib_digest ax_lib (cl_token c' 0)"
    by (simp_all add: ax_lib_def ax_call_def)
  from stale_worker_cannot_acknowledge [OF c this refl refl] c show ?thesis by blast
qed

end
