(* ===== verification/Billing_Views.thy ===== *)
theory Billing_Views
  imports Billing_Evidence
begin

text \<open>
  What an owner sees of the billing store: \<open>BillingSubscriptionSnapshot\<close> (\<open>billing_subscriptions.go\<close>),
  \<open>BillingChargeObservation\<close> (\<open>billing_charges.go\<close>), \<open>billing_status.go\<close>, \<open>billing_history.go\<close> and
  \<open>billing_management.go\<close>. Every call reads in one transaction and changes nothing. The lemmas show that following the
  cursors of the payment history yields every payment of the workspace exactly once.
\<close>

section \<open>Evidence\<close>

definition decode_column :: "'a column \<Rightarrow> 'a result" where
  "decode_column d = (case d of Json a \<Rightarrow> Inr a | _ \<Rightarrow> Inl ErrDriver)"

definition billingSubscriptionSnapshot ::
  "portal_lib \<Rightarrow> store_config \<Rightarrow> call \<Rightarrow> string \<Rightarrow> string \<Rightarrow> string \<Rightarrow> 'x billing_db_scheme \<Rightarrow> subscription_snapshot option result" where
  "billingSubscriptionSnapshot lib cfg c token workspace ident db =
     (case cl_drv c of
        Some e \<Rightarrow> Inl e
      | None \<Rightarrow>
          andThen (authorizeOwner lib (cl_now c 0) token workspace db) (\<lambda>_.
          andThen (some_or ErrDenied (List.find (\<lambda>s. sub_key s = (billingModeValue cfg, ident) \<and> bs_workspace s = workspace)
                                        (billing_subscriptions db))) (\<lambda>s.
          if scans_nil (bs_snapshot s) then Inr None
          else andThen (decode_column (bs_snapshot s)) (\<lambda>sp. Inr (Some sp)))))"

text \<open>The rows of charges joined with their subscriptions.\<close>

definition backed_charge :: "string \<Rightarrow> string \<Rightarrow> billing_charge \<Rightarrow> billing_subscription \<Rightarrow> bool" where
  "backed_charge mode workspace ch s \<longleftrightarrow>
     ch_mode ch = mode \<and> bs_mode s = ch_mode ch \<and> ch_subscription ch = Some (bs_id s) \<and> bs_workspace s = workspace"

definition charge_rows ::
  "string \<Rightarrow> string \<Rightarrow> 'x billing_db_scheme \<Rightarrow> (billing_charge \<times> billing_subscription) list" where
  "charge_rows mode workspace db =
     concat (map (\<lambda>ch. map (Pair ch) (filter (backed_charge mode workspace ch) (billing_subscriptions db))) (billing_charges db))"

definition billingChargeObservation ::
  "portal_lib \<Rightarrow> store_config \<Rightarrow> call \<Rightarrow> string \<Rightarrow> string \<Rightarrow> string \<Rightarrow> 'x billing_db_scheme \<Rightarrow> charge_observation result" where
  "billingChargeObservation lib cfg c token workspace ident db =
     (case cl_drv c of
        Some e \<Rightarrow> Inl e
      | None \<Rightarrow>
          andThen (authorizeOwner lib (cl_now c 0) token workspace db) (\<lambda>_.
          andThen (some_or ErrDenied (List.find (\<lambda>r. ch_id (fst r) = ident) (charge_rows (billingModeValue cfg) workspace db))) (\<lambda>r.
          decode_column (ch_snapshot (fst r)))))"

section \<open>Status\<close>

record subscription_view =
  sv_ID :: string
  sv_CheckoutID :: string
  sv_Plan :: string
  sv_State :: string
  sv_PeriodEnd :: int
  sv_CancelAtPeriodEnd :: bool
  sv_CollectionPaused :: bool
  sv_InvoiceStatus :: string
  sv_ObservedAt :: int
  sv_Stale :: bool

record billing_status =
  st_CustomerState :: string
  st_Checkout :: "billing_checkout option"
  st_Subscriptions :: "subscription_view list"

definition stale :: "int \<Rightarrow> int \<Rightarrow> bool" where
  "stale observed now \<longleftrightarrow> observed \<le> 0 \<or> observed > now \<or> now - observed \<ge> 300"

definition view_subscription :: "int \<Rightarrow> billing_subscription \<Rightarrow> subscription_view result" where
  "view_subscription now s =
     (if scans_nil (bs_snapshot s) then
        Inr \<lparr>sv_ID = bs_id s, sv_CheckoutID = bs_checkout s, sv_Plan = bs_plan s, sv_State = ''pending'', sv_PeriodEnd = 0,
             sv_CancelAtPeriodEnd = False, sv_CollectionPaused = False, sv_InvoiceStatus = [], sv_ObservedAt = 0, sv_Stale = True\<rparr>
      else
        andThen (decode_column (bs_snapshot s)) (\<lambda>sp.
        andThen (guard ErrBillingConflict (\<not> (sp_ID sp \<noteq> bs_id s \<or> sp_CustomerID sp \<noteq> bs_customer s \<or> sp_PriceID sp \<noteq> bs_price s))) (\<lambda>_.
        Inr \<lparr>sv_ID = bs_id s, sv_CheckoutID = bs_checkout s, sv_Plan = bs_plan s, sv_State = sp_Status sp,
             sv_PeriodEnd = sp_PeriodEnd sp, sv_CancelAtPeriodEnd = sp_CancelAtPeriodEnd sp,
             sv_CollectionPaused = sp_CollectionPaused sp, sv_InvoiceStatus = sp_InvoiceStatus sp,
             sv_ObservedAt = sp_ObservedAt sp, sv_Stale = stale (sp_ObservedAt sp) now\<rparr>)))"

fun each_result :: "('a \<Rightarrow> 'b result) \<Rightarrow> 'a list \<Rightarrow> 'b list result" where
  "each_result f [] = Inr []"
| "each_result f (x # xs) = andThen (f x) (\<lambda>y. andThen (each_result f xs) (\<lambda>ys. Inr (y # ys)))"

definition customer_state :: "billing_customer option \<Rightarrow> string" where
  "customer_state r = (case r of None \<Rightarrow> ''not_started'' | Some cu \<Rightarrow> if cu_customer cu = None then ''pending'' else ''ready'')"

definition workspaceBillingStatus ::
  "portal_lib \<Rightarrow> store_config \<Rightarrow> call \<Rightarrow> string \<Rightarrow> string \<Rightarrow> 'x billing_db_scheme \<Rightarrow> billing_status result" where
  "workspaceBillingStatus lib cfg c token workspace db =
     (let mode = billingModeValue cfg in
      case cl_drv c of
        Some e \<Rightarrow> Inl e
      | None \<Rightarrow>
          andThen (authorizeOwner lib (cl_now c 0) token workspace db) (\<lambda>_.
          andThen (case live_checkout mode workspace db of
                     None \<Rightarrow> Inr None
                   | Some row \<Rightarrow> andThen (scanCheckout row) (\<lambda>co. Inr (Some co))) (\<lambda>checkout.
          andThen (each_result (view_subscription (cl_now c 1))
                     (sort_key bs_id (filter (\<lambda>s. bs_mode s = mode \<and> bs_workspace s = workspace) (billing_subscriptions db)))) (\<lambda>views.
          Inr \<lparr>st_CustomerState = customer_state (get_row cu_key (mode, workspace) (billing_customers db)),
               st_Checkout = checkout, st_Subscriptions = views\<rparr>))))"

section \<open>Payment history\<close>

record payment_view =
  pw_ID :: string
  pw_Plan :: string
  pw_Currency :: string
  pw_AmountCaptured :: int
  pw_AmountRefunded :: int
  pw_Disputed :: bool
  pw_DisputesChecked :: bool
  pw_DisputeStatuses :: "string list"
  pw_ObservedAt :: int
  pw_Stale :: bool
  pw_Pending :: bool

definition cursor_char :: "char \<Rightarrow> bool" where
  "cursor_char ch \<longleftrightarrow> CHR ''a'' \<le> ch \<and> ch \<le> CHR ''z'' \<or> CHR ''A'' \<le> ch \<and> ch \<le> CHR ''Z'' \<or> CHR ''0'' \<le> ch \<and> ch \<le> CHR ''9''
     \<or> ch = CHR ''_''"

definition valid_cursor :: "string \<Rightarrow> bool" where
  "valid_cursor before \<longleftrightarrow>
     \<not> (before \<noteq> [] \<and> (\<not> hasPrefix before ''ch_'' \<or> length before < 4 \<or> length before > 255 \<or> list_ex (\<lambda>ch. \<not> cursor_char ch) before))"

text \<open>The joined rows of the workspace, newest identifier first, from the cursor on.\<close>

definition payment_rows ::
  "string \<Rightarrow> string \<Rightarrow> string \<Rightarrow> 'x billing_db_scheme \<Rightarrow> (billing_charge \<times> billing_subscription) list" where
  "payment_rows mode workspace before db =
     rev (sort_key (\<lambda>r. ch_id (fst r))
       (filter (\<lambda>r. ch_customer (fst r) = Some (bs_customer (snd r)) \<and> (before = [] \<or> ch_id (fst r) < before))
          (charge_rows mode workspace db)))"

definition view_payment :: "int \<Rightarrow> billing_charge \<times> billing_subscription \<Rightarrow> payment_view result" where
  "view_payment now r =
     (case r of (ch, s) \<Rightarrow>
        if scans_nil (ch_snapshot ch) then
          Inr \<lparr>pw_ID = ch_id ch, pw_Plan = bs_plan s, pw_Currency = [], pw_AmountCaptured = 0, pw_AmountRefunded = 0, pw_Disputed = False,
               pw_DisputesChecked = False, pw_DisputeStatuses = [], pw_ObservedAt = 0, pw_Stale = True, pw_Pending = True\<rparr>
        else
          andThen (decode_column (ch_snapshot ch)) (\<lambda>ob.
          andThen (guard ErrBillingConflict
                     (\<not> (co_ChargeID ob \<noteq> ch_id ch \<or> ch_customer ch \<noteq> Some (co_CustomerID ob)
                         \<or> ch_subscription ch \<noteq> Some (co_SubscriptionID ob) \<or> co_InvoiceID ob \<noteq> ch_invoice ch
                         \<or> co_PaymentIntentID ob \<noteq> ch_payment ch))) (\<lambda>_.
          Inr \<lparr>pw_ID = ch_id ch, pw_Plan = bs_plan s, pw_Currency = co_Currency ob, pw_AmountCaptured = co_AmountCaptured ob,
               pw_AmountRefunded = co_AmountRefunded ob, pw_Disputed = co_Disputed ob, pw_DisputesChecked = co_DisputesChecked ob,
               pw_DisputeStatuses = map snd (co_Disputes ob), pw_ObservedAt = co_ObservedAt ob,
               pw_Stale = stale (co_ObservedAt ob) now, pw_Pending = False\<rparr>)))"

text \<open>The loop over at most twenty-one rows: the twenty-first only says that there is another page.\<close>

fun payment_loop ::
  "int \<Rightarrow> payment_view list \<Rightarrow> (billing_charge \<times> billing_subscription) list \<Rightarrow> (payment_view list \<times> string) result" where
  "payment_loop now acc [] = Inr (acc, [])"
| "payment_loop now acc (r # rs) =
     (if length acc = 20 then Inr (acc, pw_ID (acc ! 19))
      else andThen (view_payment now r) (\<lambda>v. payment_loop now (acc @ [v]) rs))"

definition workspaceBillingPayments ::
  "portal_lib \<Rightarrow> store_config \<Rightarrow> call \<Rightarrow> string \<Rightarrow> string \<Rightarrow> string \<Rightarrow> 'x billing_db_scheme
    \<Rightarrow> (payment_view list \<times> string) result" where
  "workspaceBillingPayments lib cfg c token workspace before db =
     (if \<not> valid_cursor before then Inl Portal_ErrInvalid
      else case cl_drv c of
        Some e \<Rightarrow> Inl e
      | None \<Rightarrow>
          andThen (authorizeOwner lib (cl_now c 0) token workspace db) (\<lambda>_.
          payment_loop (cl_now c 1) [] (take 21 (payment_rows (billingModeValue cfg) workspace before db))))"

section \<open>The management link\<close>

text \<open>
  The provider makes the link between two reads of the customer: \<open>db2\<close> is the database at the second.
\<close>

definition billingManagementURL ::
  "portal_lib \<Rightarrow> event_lib \<Rightarrow> store_config \<Rightarrow> (nat \<Rightarrow> call) \<Rightarrow> (provider \<times> (string \<Rightarrow> string result)) option \<Rightarrow> string \<Rightarrow> string
    \<Rightarrow> 'x billing_db_scheme \<Rightarrow> 'x billing_db_scheme \<Rightarrow> string result" where
  "billingManagementURL lib el cfg c p token workspace db db2 =
     (case p of
        None \<Rightarrow> Inl ErrDenied
      | Some (pv, manage) \<Rightarrow>
          andThen (validateBillingProviderMode cfg (Some pv)) (\<lambda>_.
          andThen (billingCustomer lib cfg (c 0) token workspace db) (\<lambda>customer.
          andThen (some_or ErrBillingConflict (cu_customer customer)) (\<lambda>ident.
          andThen (manage ident) (\<lambda>link.
          andThen (billingCustomer lib cfg (c 1) token workspace db2) (\<lambda>current.
          andThen (guard ErrBillingConflict (cu_customer current = Some ident)) (\<lambda>_.
          andThen (guard ErrBillingConflict (https_link (el_url el) ''billing.stripe.com'' link \<and> length link \<le> 8192)) (\<lambda>_.
          Inr link))))))))"

section \<open>Following the cursors\<close>

text \<open>
  A client that asks for page after page at one state of the store: request \<open>n\<close> starts from a cursor, and the relation gives the
  payments of this page and all later ones and the number of requests made when there is no further cursor.
\<close>

inductive payment_history ::
  "portal_lib \<Rightarrow> store_config \<Rightarrow> (nat \<Rightarrow> call) \<Rightarrow> string \<Rightarrow> string \<Rightarrow> 'x billing_db_scheme \<Rightarrow> nat \<Rightarrow> string \<Rightarrow> payment_view list \<Rightarrow> nat \<Rightarrow> bool"
  for lib cfg cs token workspace db where
  last_page:
    "workspaceBillingPayments lib cfg (cs n) token workspace before db = Inr (vs, [])
     \<Longrightarrow> payment_history lib cfg cs token workspace db n before vs (Suc n)"
| next_page:
    "workspaceBillingPayments lib cfg (cs n) token workspace before db = Inr (vs, cursor) \<Longrightarrow> cursor \<noteq> []
     \<Longrightarrow> payment_history lib cfg cs token workspace db (Suc n) cursor ws m
     \<Longrightarrow> payment_history lib cfg cs token workspace db n before (vs @ ws) m"

text \<open>There is no choice in it.\<close>

lemma payment_history_unique:
  assumes "payment_history lib cfg cs token workspace db n before vs m" and "payment_history lib cfg cs token workspace db n before ws k"
  shows "vs = ws \<and> m = k"
  using assms
proof (induction arbitrary: ws k rule: payment_history.induct)
  case (last_page n before vs)
  from last_page(2,1) show ?case by cases auto
next
  case (next_page n before vs cursor ws' m)
  from next_page.prems next_page(1,2) next_page.IH show ?case by cases auto
qed

subsection \<open>Identifiers of charges\<close>

text \<open>
  Only a charge that was observed belongs to a subscription, and the provider's client looks up no identifier that is not of the
  provider's form (\<open>retrieveChargeObservation\<close>); so the identifiers that a workspace sees can be used as cursors.
\<close>

definition listed :: "'x billing_db_scheme \<Rightarrow> bool" where
  "listed db \<longleftrightarrow> (\<forall>ch \<in> set (billing_charges db). ch_subscription ch \<noteq> None \<longrightarrow> providerID (ch_id ch) ''ch_'')"

definition from_provider :: "billing_tx \<Rightarrow> bool" where
  "from_provider t \<longleftrightarrow>
     (case t of BFinishCharge ident _ _ _ ob \<Rightarrow> \<exists>client observed. retrieveChargeObservation client observed ident = Inr ob | _ \<Rightarrow> True)"

lemma provider_cursor: "providerID ident ''ch_'' \<Longrightarrow> valid_cursor ident \<and> ident \<noteq> []"
proof -
  assume p: "providerID ident ''ch_''"
  have "cursor_char c" if "ident_char c" for c
    using that by (auto simp: cursor_char_def ident_char_def byte_of_def less_eq_char_def Let_def)
  with p show ?thesis by (auto simp: providerID_def valid_cursor_def list_all_iff list_ex_iff hasPrefix_def)
qed

lemma audit_charges: "audit ident actor ws action now db = Inr db' \<Longrightarrow> billing_charges db' = billing_charges db"
  by (auto dest: auditD)

lemma settle_charges: "settle_checkout cfg c event co target db = Inr (r, db') \<Longrightarrow> billing_charges db' = billing_charges db"
  by (auto simp: settle_checkout_def Let_def dest!: audit_charges)

lemma bind_subscription_charges: "bind_subscription mode event co sub db = Inr db' \<Longrightarrow> billing_charges db' = billing_charges db"
  by (auto simp: bind_subscription_def split: option.splits)

lemma apply_session_charges: "apply_session cfg c event kind cs co db = Inr (r, db') \<Longrightarrow> billing_charges db' = billing_charges db"
  by (auto simp: apply_session_def complete_checkout_def Let_def dest!: settle_charges bind_subscription_charges split: if_splits option.splits)

lemma ledger_charges: "ledger_of db' = ledger_of db \<Longrightarrow> billing_charges db' = billing_charges db"
  by (metis ledger_of_simps(5))

lemma quiet_charges:
  "configure_limits_tx cfg c plan l db = Inr (r, db') \<Longrightarrow> billing_charges db' = billing_charges db"
  "request_customer_tx lib cfg c token workspace db = Inr (cu, db') \<Longrightarrow> billing_charges db' = billing_charges db"
  "bind_customer_tx cfg c request customer db = Inr (r, db') \<Longrightarrow> billing_charges db' = billing_charges db"
  "request_checkout_tx lib cfg c token workspace plan db = Inr (co, db') \<Longrightarrow> billing_charges db' = billing_charges db"
  "bind_checkout_tx cfg c ident session link db = Inr (r, db') \<Longrightarrow> billing_charges db' = billing_charges db"
  "accept_event_tx el cfg c ev payload db = Inr (x, db') \<Longrightarrow> billing_charges db' = billing_charges db"
  "checkout_event_tx el cfg c event db = Inr (y, db') \<Longrightarrow> billing_charges db' = billing_charges db"
  "subscription_event_tx el cfg c event db = Inr (y, db') \<Longrightarrow> billing_charges db' = billing_charges db"
  "charge_event_tx cfg c event charge db = Inr (y, db') \<Longrightarrow> billing_charges db' = billing_charges db"
  "start_subscription_tx cfg ident db = Inr (s, db') \<Longrightarrow> billing_charges db' = billing_charges db"
  subgoal by (auto simp: configure_limits_tx_def Let_def dest!: audit_charges)
  subgoal by (auto simp: request_customer_tx_def Let_def dest!: audit_charges split: option.splits)
  subgoal by (auto simp: bind_customer_tx_def Let_def dest!: audit_charges split: option.splits)
  subgoal by (auto simp: request_checkout_tx_def dest!: audit_charges split: option.splits)
  subgoal by (auto simp: bind_checkout_tx_def Let_def dest!: audit_charges split: option.splits)
  subgoal by (auto simp: accept_event_tx_def Let_def split: option.splits)
  subgoal by (auto dest!: checkout_event_cases apply_session_charges)
  subgoal by (auto simp: refresh_signal_def dest!: subscription_event_cases audit_charges)
  subgoal by (auto simp: refresh_signal_def dest!: charge_event_cases audit_charges)
  subgoal by (auto simp: start_subscription_tx_def Let_def)
  done

lemma listed_upd:
  assumes "listed db" and "billing_charges db' = upd_row ch_key k f (billing_charges db)"
    and "\<And>q. ch_key q = k \<Longrightarrow> ch_subscription (f q) \<noteq> None \<Longrightarrow> ch_subscription q \<noteq> None \<or> providerID (ch_id q) ''ch_''"
    and "\<And>q. ch_id (f q) = ch_id q"
  shows "listed db'"
  unfolding listed_def
proof (intro ballI impI)
  fix ch assume "ch \<in> set (billing_charges db')" "ch_subscription ch \<noteq> None"
  with assms(2) obtain q where q: "q \<in> set (billing_charges db)" "ch = q \<or> ch_key q = k \<and> ch = f q" and sub: "ch_subscription ch \<noteq> None"
    by (auto simp: set_upd_row split: if_splits)
  from q(2) sub assms(3) have "ch_subscription q \<noteq> None \<or> providerID (ch_id q) ''ch_''" by metis
  with assms(1) q(1) have "providerID (ch_id q) ''ch_''" by (auto simp: listed_def)
  with q(2) assms(4) show "providerID (ch_id ch) ''ch_''" by auto
qed

lemma listed_new: "listed db \<Longrightarrow> billing_charges db' = billing_charges db @ [blank_charge mode ident n] \<Longrightarrow> listed db'"
  by (auto simp: listed_def blank_charge_def)

lemma charge_txs_listed:
  assumes "listed db"
  shows "start_charge_tx cfg ident db = Inr (n, db') \<Longrightarrow> listed db'"
    and "claim_charge_tx cfg c db = Inr (y, db') \<Longrightarrow> listed db'"
    and "finish_subscription_tx cfg sub g sp charge db = Inr (r, db') \<Longrightarrow> listed db'"
    and "providerID ident ''ch_'' \<Longrightarrow> finish_charge_tx cfg c ident g ob db = Inr (r, db') \<Longrightarrow> listed db'"
proof -
  show "listed db'" if "start_charge_tx cfg ident db = Inr (n, db')"
    using that listed_new [OF assms, of db'] listed_upd [OF assms, of db' _ "\<lambda>q. q\<lparr>ch_generation := ch_generation q + 1\<rparr>"]
    by (auto simp: start_charge_tx_def Let_def split: option.splits)
  show "listed db'" if "claim_charge_tx cfg c db = Inr (y, db')"
    using that assms listed_upd [OF assms, of db' _ "\<lambda>q. q\<lparr>ch_next_refresh := cl_now c 0 + 60\<rparr>"]
    by (auto simp: claim_charge_tx_def Let_def split: list.splits)
  show "listed db'" if tx: "finish_subscription_tx cfg sub g sp charge db = Inr (r, db')"
  proof -
    from tx ensure_charge_cases [of "billingModeValue cfg" charge "billing_charges db"]
    have "billing_charges db' = billing_charges db \<or> billing_charges db' = billing_charges db @ [blank_charge (billingModeValue cfg) charge 0]"
      by (cases "charge = []") (auto simp: finish_subscription_tx_def Let_def)
    then show ?thesis
    proof
      assume "billing_charges db' = billing_charges db"
      with assms show ?thesis by (simp add: listed_def)
    qed (rule listed_new [OF assms])
  qed
  show "listed db'" if p: "providerID ident ''ch_''" and tx: "finish_charge_tx cfg c ident g ob db = Inr (r, db')"
  proof -
    from tx obtain f where "billing_charges db' = upd_row ch_key (billingModeValue cfg, ident) f (billing_charges db)" "\<forall>q. ch_id (f q) = ch_id q"
      by (auto simp: finish_charge_tx_def Let_def)
    with listed_upd [OF assms] p show ?thesis by (auto simp: ch_key_def)
  qed
qed

lemma body_listed:
  assumes "billing_body lib el cfg c t db = Inr (r, db')" and l: "listed db" and p: "from_provider t"
  shows "listed db'"
proof -
  have same: "listed db'" if "billing_charges db' = billing_charges db" using l that by (simp add: listed_def)
  have quiet: "listed db'" if "ledger_of db' = ledger_of db" by (rule same) (rule ledger_charges [OF that])
  show ?thesis
  proof (cases t)
    case (BAccount a)
    with assms(1) show ?thesis by (auto intro!: quiet ledger_of_more acct_body_more)
  next
    case (BFinishCharge ident generation started now ob)
    with p have "providerID ident ''ch_''" by (auto simp: from_provider_def retrieveChargeObservation_def split: if_splits)
    with BFinishCharge assms(1) charge_txs_listed(4) [OF l] show ?thesis by auto
  qed (use assms(1) in \<open>auto intro: quiet quiet_ledger dest: quiet_charges [THEN same] charge_txs_listed(1-3) [OF l]\<close>)
qed

lemma run_listed:
  assumes "listed db" and "\<forall>i \<in> set is. from_provider (snd i)"
  shows "listed (run_ops (billing_exec lib el cfg) is db)"
  using assms
proof (induction "is" arbitrary: db)
  case (Cons i "is")
  have "listed (snd (billing_exec lib el cfg i db))"
    unfolding billing_exec_def
    by (rule in_tx_invariant [where P = listed]) (use Cons.prems in \<open>auto intro: body_listed\<close>)
  with Cons show ?case by simp
qed simp

subsection \<open>Pages\<close>

abbreviation row_id :: "billing_charge \<times> billing_subscription \<Rightarrow> string" where
  "row_id r \<equiv> ch_id (fst r)"

lemma payment_rows_before:
  "payment_rows mode workspace before db = filter (\<lambda>r. before = [] \<or> row_id r < before) (payment_rows mode workspace [] db)"
  by (simp add: payment_rows_def rev_filter [symmetric] filter_sort del: filter_filter) (simp add: conj_commute)

lemma same_key_once:
  assumes "distinct (map key xs)" and "\<forall>x. P x \<longrightarrow> key x = k"
  shows "length (filter P xs) \<le> 1"
  using assms
proof (induction xs)
  case (Cons x xs)
  show ?case
  proof (cases "P x")
    case True
    with Cons.prems have "key y \<noteq> key x" if "y \<in> set xs" for y using that by auto
    with True Cons.prems(2) have "filter P xs = []" by (metis filter_False)
    with True show ?thesis by simp
  qed (use Cons in simp)
qed simp

lemma distinct_rows:
  assumes "distinct (map ch_key chs)" and "\<And>ch. length (f ch) \<le> 1" and "\<And>ch. ch_mode ch \<noteq> mode \<Longrightarrow> f ch = []"
  shows "distinct (map row_id (concat (map (\<lambda>ch. map (Pair ch) (f ch)) chs)))"
  using assms(1)
proof (induction chs)
  case (Cons ch chs)
  have here: "distinct (map row_id (map (Pair ch) (f ch)))" using assms(2) [of ch] by (cases "f ch") auto
  have apart: "row_id p \<noteq> row_id r" if "p \<in> set (map (Pair ch) (f ch))" "r \<in> set (concat (map (\<lambda>ch. map (Pair ch) (f ch)) chs))" for p r
  proof -
    from that(2) obtain q where q: "q \<in> set chs" "r \<in> set (map (Pair q) (f q))" by auto
    with that(1) have q: "q \<in> set chs" "f q \<noteq> []" "row_id r = ch_id q" "f ch \<noteq> []" "row_id p = ch_id ch" by auto
    with assms(3) have "ch_mode q = mode" "ch_mode ch = mode" by blast+
    with q Cons.prems show ?thesis by (auto simp: ch_key_def)
  qed
  from apart have "set (map row_id (map (Pair ch) (f ch))) \<inter> set (map row_id (concat (map (\<lambda>ch. map (Pair ch) (f ch)) chs))) = {}"
    by (simp only: set_map) blast
  moreover from Cons have "distinct (map row_id (concat (map (\<lambda>ch. map (Pair ch) (f ch)) chs)))" by simp
  ultimately show ?case using here by (simp only: list.map concat.simps map_append distinct_append)
qed simp

text \<open>A charge belongs to at most one subscription, so it has at most one row.\<close>

lemma backed_once:
  assumes "ledger_ok (ledger_of db)"
  shows "length (filter (backed_charge mode workspace ch) (billing_subscriptions db)) \<le> 1"
proof (rule same_key_once)
  show "distinct (map sub_key (billing_subscriptions db))" using assms by (simp add: ledger_ok_def subs_ok_def)
  show "\<forall>s. backed_charge mode workspace ch s \<longrightarrow> sub_key s = (mode, the (ch_subscription ch))"
    by (auto simp: backed_charge_def sub_key_def)
qed

lemma concat_length: "(\<And>x. length (f x) \<le> 1) \<Longrightarrow> length (concat (map f xs)) \<le> length xs"
proof (induction xs)
  case (Cons x xs)
  then have "length (concat (map f xs)) \<le> length xs" by blast
  with Cons.prems [of x] show ?case by simp
qed simp

lemma payment_rows_length:
  assumes "ledger_ok (ledger_of db)"
  shows "length (payment_rows mode workspace before db) \<le> length (billing_charges db)"
proof -
  have "length (charge_rows mode workspace db) \<le> length (billing_charges db)"
    unfolding charge_rows_def using backed_once [OF assms] by (intro concat_length) simp
  moreover have "length (payment_rows mode workspace before db) \<le> length (charge_rows mode workspace db)"
    by (simp add: payment_rows_def)
  ultimately show ?thesis by (rule order_trans [rotated])
qed

lemma payment_rows_descending:
  assumes "ledger_ok (ledger_of db)"
  shows "sorted_wrt (\<lambda>a b. row_id b < row_id a) (payment_rows mode workspace [] db)"
proof -
  have keys: "distinct (map ch_key (billing_charges db))" using assms by (simp add: ledger_ok_def charges_ok_def)
  have "distinct (map row_id (charge_rows mode workspace db))"
    unfolding charge_rows_def
    by (rule distinct_rows [where mode = mode, OF keys backed_once [OF assms]]) (simp add: filter_empty_conv backed_charge_def)
  then have "distinct (map row_id (filter (\<lambda>r. ch_customer (fst r) = Some (bs_customer (snd r))) (charge_rows mode workspace db)))"
    by (rule distinct_map_filter)
  then have d: "distinct (map row_id (rev (payment_rows mode workspace [] db)))"
    by (simp add: payment_rows_def distinct_map)
  have s: "sorted (map row_id (rev (payment_rows mode workspace [] db)))" by (simp add: payment_rows_def)
  from s d have "sorted_wrt (<) (map row_id (rev (payment_rows mode workspace [] db)))"
    by (simp only: strict_sorted_iff)
  then show ?thesis by (simp add: sorted_wrt_map sorted_wrt_rev)
qed

text \<open>The rows before the \<open>k\<close>-th are those after it in the list.\<close>

lemma rows_from:
  assumes "sorted_wrt (\<lambda>a b. f b < f a) (xs :: 'a list)" and "k < length xs"
  shows "filter (\<lambda>r. f r < (f (xs ! k) :: 'b :: linorder)) xs = drop (Suc k) xs"
  using assms
proof (induction xs arbitrary: k)
  case (Cons x xs)
  show ?case
  proof (cases k)
    case 0
    with Cons.prems show ?thesis by (auto simp: filter_id_conv)
  next
    case (Suc j)
    with Cons.prems have "j < length xs" by simp
    with Cons.prems Suc have "f (xs ! j) < f x" by simp
    with Cons Suc \<open>j < length xs\<close> show ?thesis by (simp add: not_less order.strict_implies_order)
  qed
qed simp

lemma payment_loop_views:
  assumes "\<forall>r \<in> set rs. view_payment now r = Inr (v r)" and "length acc \<le> 20"
  shows "payment_loop now acc rs =
    (if length acc + length rs \<le> 20 then Inr (acc @ map v rs, [])
     else Inr (acc @ map v (take (20 - length acc) rs), pw_ID ((acc @ map v rs) ! 19)))"
  using assms
proof (induction rs arbitrary: acc)
  case (Cons r rs)
  show ?case
  proof (cases "length acc = 20")
    case False
    with Cons.prems have "payment_loop now acc (r # rs) = payment_loop now (acc @ [v r]) rs" by (simp add: seq_simps)
    moreover have "20 - length acc = Suc (20 - Suc (length acc))" using False Cons.prems(2) by simp
    ultimately show ?thesis using Cons.IH [of "acc @ [v r]"] Cons.prems False by simp
  qed (simp add: nth_append)
qed simp

lemma payment_page:
  assumes "valid_cursor before" and "cl_drv c = None" and "authorizeOwner lib (cl_now c 0) token workspace db = Inr actor"
    and "\<forall>r \<in> set (payment_rows (billingModeValue cfg) workspace before db). view_payment (cl_now c 1) r = Inr (v r)"
  shows "workspaceBillingPayments lib cfg c token workspace before db =
    (let rs = payment_rows (billingModeValue cfg) workspace before db in
     if length rs \<le> 20 then Inr (map v rs, []) else Inr (map v (take 20 rs), pw_ID (v (rs ! 19))))"
proof -
  let ?rs = "payment_rows (billingModeValue cfg) workspace before db"
  have "\<forall>r \<in> set (take 21 ?rs). view_payment (cl_now c 1) r = Inr (v r)" using assms(4) by (meson in_set_takeD)
  from payment_loop_views [OF this, of "[]"] assms(1-3) show ?thesis
    by (auto simp: workspaceBillingPayments_def seq_simps Let_def min_def)
qed

definition cursor_at :: "(billing_charge \<times> billing_subscription) list \<Rightarrow> nat \<Rightarrow> string" where
  "cursor_at rows k = (if k = 0 then [] else row_id (rows ! (k - 1)))"

lemma pages_from:
  assumes rows_def: "rows = payment_rows (billingModeValue cfg) workspace [] db"
    and "ledger_ok (ledger_of db)"
    and calls: "\<And>n. cl_drv (cs n) = None" "\<And>n. authorizeOwner lib (cl_now (cs n) 0) token workspace db = Inr (actor n)"
    and ids: "\<forall>r \<in> set rows. valid_cursor (row_id r) \<and> row_id r \<noteq> []"
    and v: "\<And>n. \<forall>r \<in> set rows. view_payment (cl_now (cs n) 1) r = Inr (v n r) \<and> pw_ID (v n r) = row_id r"
    and "k \<le> length rows"
  shows "\<exists>vs. payment_history lib cfg cs token workspace db n (cursor_at rows k) vs (Suc (n + (length rows - k - 1) div 20))
      \<and> map pw_ID vs = map row_id (drop k rows)"
  using assms(7)
proof (induction "length rows - k" arbitrary: k n rule: less_induct)
  case less
  have from_k: "payment_rows (billingModeValue cfg) workspace (cursor_at rows k) db = drop k rows"
  proof (cases k)
    case 0
    then show ?thesis by (simp add: cursor_at_def rows_def)
  next
    case (Suc j)
    with less.prems have j: "j < length rows" by simp
    with ids have "row_id (rows ! j) \<noteq> []" using nth_mem by blast
    with rows_from [OF payment_rows_descending [OF assms(2)], of j "billingModeValue cfg" workspace] j Suc show ?thesis
      unfolding payment_rows_before [of _ _ "cursor_at rows k"] by (simp add: cursor_at_def rows_def [symmetric])
  qed
  have cur: "valid_cursor (cursor_at rows k)"
  proof (cases k)
    case (Suc j)
    with less.prems ids show ?thesis by (simp add: cursor_at_def)
  qed (simp add: cursor_at_def valid_cursor_def)
  have vk: "\<forall>r \<in> set (payment_rows (billingModeValue cfg) workspace (cursor_at rows k) db). view_payment (cl_now (cs n) 1) r = Inr (v n r)"
    unfolding from_k using v by (meson in_set_dropD)
  note page = payment_page [OF cur calls vk, unfolded from_k Let_def]
  have ids_of: "map pw_ID (map (v n) rs) = map row_id rs" if "set rs \<subseteq> set rows" for rs using that v by auto
  show ?case
  proof (cases "length (drop k rows) \<le> 20")
    case True
    with page have "payment_history lib cfg cs token workspace db n (cursor_at rows k) (map (v n) (drop k rows)) (Suc n)"
      by (intro last_page) simp
    moreover have "map pw_ID (map (v n) (drop k rows)) = map row_id (drop k rows)" by (rule ids_of) (rule set_drop_subset)
    moreover have "(length rows - k - 1) div 20 = 0" using True by simp
    ultimately show ?thesis by (metis add_0_right)
  next
    case False
    then have k19: "k + 19 < length rows" by simp
    with v have next_cursor: "pw_ID (v n (drop k rows ! 19)) = cursor_at rows (k + 20)" by (simp add: cursor_at_def add.commute)
    have ne: "cursor_at rows (k + 20) \<noteq> []" using ids k19 nth_mem [OF k19] by (simp add: cursor_at_def)
    have "\<exists>ws. payment_history lib cfg cs token workspace db (Suc n) (cursor_at rows (k + 20)) ws
          (Suc (Suc n + (length rows - (k + 20) - 1) div 20)) \<and> map pw_ID ws = map row_id (drop (k + 20) rows)"
      by (rule less.hyps) (use False in auto)
    then obtain ws where ws: "payment_history lib cfg cs token workspace db (Suc n) (cursor_at rows (k + 20)) ws
          (Suc (Suc n + (length rows - (k + 20) - 1) div 20))" "map pw_ID ws = map row_id (drop (k + 20) rows)" by blast
    let ?vs = "map (v n) (take 20 (drop k rows))"
    obtain x where x: "x = length rows - (k + 20) - 1" by blast
    with False have "length rows - k - 1 = x + 20" by simp
    then have m: "Suc (Suc n + (length rows - (k + 20) - 1) div 20) = Suc (n + (length rows - k - 1) div 20)"
      unfolding x [symmetric] by simp
    from page False next_cursor have "workspaceBillingPayments lib cfg (cs n) token workspace (cursor_at rows k) db = Inr (?vs, cursor_at rows (k + 20))"
      by simp
    from next_page [OF this ne ws(1)] have h: "payment_history lib cfg cs token workspace db n (cursor_at rows k) (?vs @ ws)
        (Suc (n + (length rows - k - 1) div 20))" unfolding m .
    have "map pw_ID ?vs = map row_id (take 20 (drop k rows))"
      by (rule ids_of) (meson in_set_dropD in_set_takeD subsetI)
    then have "map pw_ID (?vs @ ws) = map row_id (take 20 (drop k rows) @ drop 20 (drop k rows))"
      using ws(2) by (simp only: map_append drop_drop add.commute)
    with h show ?thesis unfolding append_take_drop_id by blast
  qed
qed

text \<open>Evidence that the store has accepted is shown without an error.\<close>

lemma backed_view:
  assumes "ledger_ok (ledger_of db)" and "r \<in> set (payment_rows mode workspace before db)"
  shows "\<exists>v. view_payment now r = Inr v \<and> pw_ID v = row_id r"
proof -
  obtain ch s where r: "r = (ch, s)" by (cases r)
  with assms(2) have ch: "ch \<in> set (billing_charges db)" "ch_subscription ch = Some (bs_id s)"
    by (auto simp: payment_rows_def charge_rows_def backed_charge_def)
  with assms(1) have "charge_row_ok (ledger_of db) ch" by (simp add: ledger_ok_def charges_ok_def)
  with r ch(2) show ?thesis
    by (auto simp: charge_row_ok_def view_payment_def decode_column_def scans_nil_def seq_simps split: column.splits)
qed

section \<open>Properties\<close>

text \<open>
  C17: Following the cursors lists every payment once. Take a store reached by any history of transactions in which every
  observation bound to a charge came from the payment provider's client, from a store that satisfies the ledger's invariant and
  whose charges with a subscription have identifiers of the provider's form (as the empty one does). When an owner asks this
  store for the payment history page after page, authorized and without a driver failure at every request, whatever its clock,
  the result is, after one request per begun twenty payments (and one when there are none), exactly the charges recorded for
  a subscription of the workspace and its customer, each once, greatest identifier first; and no other result is possible.
\<close>
theorem payment_history_is_complete:
  assumes "ledger_ok (ledger_of db0)" and "listed db0" and "\<forall>i \<in> set is. from_provider (snd i)"
    and "db = run_ops (billing_exec lib el cfg) is db0"
    and "\<And>n. cl_drv (cs n) = None" and "\<And>n. authorizeOwner lib (cl_now (cs n) 0) token workspace db = Inr (actor n)"
  shows "\<exists>vs. (\<forall>ws m. payment_history lib cfg cs token workspace db 0 [] ws m \<longleftrightarrow> ws = vs \<and> m = 1 + (length vs - 1) div 20)
     \<and> set (map pw_ID vs) = {ch_id ch | ch s. ch \<in> set (billing_charges db) \<and> s \<in> set (billing_subscriptions db)
                                 \<and> backed_charge (billingModeValue cfg) workspace ch s \<and> ch_customer ch = Some (bs_customer s)}
     \<and> sorted_wrt (>) (map pw_ID vs)"
proof -
  let ?rows = "payment_rows (billingModeValue cfg) workspace [] db"
  have ok: "ledger_ok (ledger_of db)" unfolding assms(4) by (rule bl.run_inv [OF assms(1)])
  have listed: "listed db" unfolding assms(4) by (rule run_listed [OF assms(2,3)])
  have set_rows: "set ?rows = {(ch, s). ch \<in> set (billing_charges db) \<and> s \<in> set (billing_subscriptions db)
      \<and> backed_charge (billingModeValue cfg) workspace ch s \<and> ch_customer ch = Some (bs_customer s)}"
    by (auto simp: payment_rows_def charge_rows_def)
  have ids: "\<forall>r \<in> set ?rows. valid_cursor (row_id r) \<and> row_id r \<noteq> []"
    using listed provider_cursor unfolding set_rows by (fastforce simp: listed_def backed_charge_def)
  have "\<forall>n. \<forall>r \<in> set ?rows. \<exists>v. view_payment (cl_now (cs n) 1) r = Inr v \<and> pw_ID v = row_id r"
    using backed_view [OF ok] by blast
  then obtain v where v: "\<And>n. \<forall>r \<in> set ?rows. view_payment (cl_now (cs n) 1) r = Inr (v n r) \<and> pw_ID (v n r) = row_id r"
    by metis
  from pages_from [where cs = cs and k = 0 and n = 0, OF refl ok assms(5,6) ids v] obtain vs where
    h: "payment_history lib cfg cs token workspace db 0 [] vs (Suc ((length ?rows - 1) div 20))" and names: "map pw_ID vs = map row_id ?rows"
    by (auto simp: cursor_at_def)
  from names have len: "length ?rows = length vs" by (metis length_map)
  have "payment_history lib cfg cs token workspace db 0 [] ws m \<longleftrightarrow> ws = vs \<and> m = 1 + (length vs - 1) div 20" for ws m
    using h payment_history_unique [OF h, of ws m] by (auto simp: len)
  moreover have "sorted_wrt (>) (map row_id ?rows)"
    using payment_rows_descending [OF ok] by (simp add: sorted_wrt_map)
  moreover have "set (map row_id ?rows) = {ch_id ch | ch s. ch \<in> set (billing_charges db) \<and> s \<in> set (billing_subscriptions db)
      \<and> backed_charge (billingModeValue cfg) workspace ch s \<and> ch_customer ch = Some (bs_customer s)}"
    using set_rows by (auto simp: image_iff) (metis fst_conv)+
  ultimately show ?thesis unfolding names [symmetric] by blast
qed

section \<open>A concrete history\<close>

text \<open>A charge that nobody has observed yet is recorded; the owner still sees the one that was.\<close>

lemma vx_owner: "authorizeOwner ax_lib 100 ''A'' ''w'' vx_db = Inr ''alice''"
  by (simp add: authorizeOwner_def authorize_def session_user_def get_member_def active_user_def vx_defs ax_defs seq_simps)

definition vx_charges :: billing_db where
  "vx_charges = run_ops (billing_exec ax_lib vx_lib kx_config) [(ax_call CHR ''x'', BStartCharge ''ch 2'')] vx_db"

lemma vx_charges_tables:
  "billing_charges vx_charges = billing_charges vx_db @ [blank_charge ''live'' ''ch 2'' 1]"
  "billing_subscriptions vx_charges = billing_subscriptions vx_db"
  "authorizeOwner ax_lib 100 ''A'' ''w'' vx_charges = Inr ''alice''"
proof -
  have m: "billingModeValue kx_config = ''live''" by (simp add: billingModeValue_def kx_config_def)
  have "get_row ch_key (''live'', ''ch 2'') (billing_charges vx_db) = None" by (simp add: get_row_None billing_keys vx_tables kx_defs)
  then have "start_charge_tx kx_config ''ch 2'' vx_db
      = Inr (1, vx_db\<lparr>billing_charges := billing_charges vx_db @ [blank_charge ''live'' ''ch 2'' 1]\<rparr>)"
    by (simp add: start_charge_tx_def m)
  then have vx: "vx_charges = vx_db\<lparr>billing_charges := billing_charges vx_db @ [blank_charge ''live'' ''ch 2'' 1]\<rparr>"
    by (simp add: vx_charges_def billing_exec_def in_tx_def with_tx_def drop_value_def ax_call_def seq_simps)
  show "billing_charges vx_charges = billing_charges vx_db @ [blank_charge ''live'' ''ch 2'' 1]"
    "billing_subscriptions vx_charges = billing_subscriptions vx_db" by (simp_all add: vx)
  show "authorizeOwner ax_lib 100 ''A'' ''w'' vx_charges = Inr ''alice''"
    using vx_owner unfolding vx by (simp add: authorizeOwner_def authorize_def session_user_def get_member_def active_user_def cong: option.case_cong)
qed

theorem payment_history_is_complete_witness:
  "\<exists>vs. payment_history ax_lib kx_config (\<lambda>_. ax_call CHR ''x'') ''A'' ''w'' vx_charges 0 [] vs (1 + (length vs - 1) div 20)
     \<and> set (map pw_ID vs) = {''ch_1''}"
proof -
  have l: "listed vx_db" "\<forall>i \<in> set [(ax_call CHR ''x'', BStartCharge ''ch 2'')]. from_provider (snd i)"
    by (simp_all add: listed_def from_provider_def vx_tables kx_defs providerID_def hasPrefix_def ident_char_def byte_of_def)
  have c: "cl_drv (ax_call CHR ''x'') = None" "authorizeOwner ax_lib (cl_now (ax_call CHR ''x'') 0) ''A'' ''w'' vx_charges = Inr ''alice''"
    using vx_charges_tables(3) by (simp_all add: ax_call_def)
  from payment_history_is_complete [OF vx_ok l vx_charges_def c] obtain vs where
    h: "\<forall>ws m. payment_history ax_lib kx_config (\<lambda>_. ax_call CHR ''x'') ''A'' ''w'' vx_charges 0 [] ws m \<longleftrightarrow> ws = vs \<and> m = 1 + (length vs - 1) div 20"
    and s: "set (map pw_ID vs) = {ch_id ch | ch s. ch \<in> set (billing_charges vx_charges) \<and> s \<in> set (billing_subscriptions vx_charges)
       \<and> backed_charge (billingModeValue kx_config) ''w'' ch s \<and> ch_customer ch = Some (bs_customer s)}" by blast
  have "x \<in> {ch_id ch | ch s. ch \<in> set (billing_charges vx_charges) \<and> s \<in> set (billing_subscriptions vx_charges)
       \<and> backed_charge (billingModeValue kx_config) ''w'' ch s \<and> ch_customer ch = Some (bs_customer s)} \<longleftrightarrow> x = ''ch_1''" for x
    by (simp add: vx_charges_tables vx_tables kx_defs backed_charge_def billingModeValue_def blank_charge_def conj_disj_distribR ex_disj_distrib
        cong: conj_cong)
  then have "set (map pw_ID vs) = {''ch_1''}" unfolding s by (intro equalityI subsetI) simp_all
  with h show ?thesis by blast
qed

end
