(* ===== verification/Portal_Clients.thy ===== *)
theory Portal_Clients
  imports Portal_Hosting
begin

text \<open>
  \<open>internal/portal\<close>, clients of a website: \<open>client_invitations.go\<close>, \<open>project_clients.go\<close>, the message
  of a client invitation and its delivery (\<open>mail.go\<close>). A client is a verified account
  that may see the status of one project without being a member of its workspace.
\<close>

section \<open>Tables\<close>

record client_invitation =
  ci_id :: string
  ci_hash :: string
  ci_project :: string
  ci_email :: string
  ci_inviter :: string
  ci_expires :: int
  ci_state :: invite_state
  ci_created :: int

record project_client =
  pc_project :: string
  pc_user :: string
  pc_created :: int

record client_db = hosting_db +
  client_invitations :: "client_invitation list"
  project_clients :: "project_client list"

definition pc_key :: "project_client \<Rightarrow> string \<times> string" where
  "pc_key c = (pc_project c, pc_user c)"

definition ci_pending :: "client_invitation \<Rightarrow> bool" where
  "ci_pending i \<longleftrightarrow> ci_state i = InvitePending"

definition ci_target :: "client_invitation \<Rightarrow> string \<times> string" where
  "ci_target i = (ci_project i, ci_email i)"

text \<open>\<open>liveClientInvitation\<close>: the join of the invitation with its project, its inviter and the inviter's membership.\<close>

definition live_client :: "string \<Rightarrow> int \<Rightarrow> 'x hosting_db_scheme \<Rightarrow> client_invitation \<Rightarrow> bool" where
  "live_client h now db i \<longleftrightarrow>
     ci_hash i = h \<and> ci_state i = InvitePending \<and> ci_expires i > now
     \<and> (case get_row p_id (ci_project i) (projects db) of
          None \<Rightarrow> False
        | Some p \<Rightarrow>
            p_deletion_requested_at p = 0
            \<and> list_ex (\<lambda>u. u_id u = ci_inviter i \<and> active_user u) (users db)
            \<and> list_ex (\<lambda>m. mb_user m = ci_inviter i \<and> mb_workspace m = p_workspace p \<and> mb_role m = ''owner'') (memberships db))"

definition projectClientOwner ::
  "portal_lib \<Rightarrow> call \<Rightarrow> string \<Rightarrow> string \<Rightarrow> 'x hosting_db_scheme \<Rightarrow> (project \<times> string) result" where
  "projectClientOwner lib c token project db =
     andThen (uploadProject lib (cl_now c 0) token project True db) (\<lambda>(p, _).
     andThen (authorizeOwner lib (cl_now c 1) token (p_workspace p) db) (\<lambda>actor. Inr (p, actor)))"

definition clients_of :: "string \<Rightarrow> project_client list \<Rightarrow> project_client list" where
  "clients_of project cs = filter (\<lambda>q. pc_project q = project) cs"

definition revoke_clients :: "(client_invitation \<Rightarrow> bool) \<Rightarrow> client_invitation list \<Rightarrow> client_invitation list" where
  "revoke_clients P = map (\<lambda>i. if P i \<and> ci_state i = InvitePending then i\<lparr>ci_state := InviteRevoked\<rparr> else i)"

section \<open>Invitations\<close>

text \<open>The message of the purpose client-invite; the apostrophe is U+2019 in UTF-8.\<close>

definition client_message :: "portal_lib \<Rightarrow> string \<Rightarrow> string \<Rightarrow> string \<Rightarrow> string \<Rightarrow> string \<Rightarrow> mail" where
  "client_message lib origin ident email token name =
     (let link = origin @ ''/#client-invite='' @ lib_escape lib token;
          nl = [CHR 0x0A]
      in \<lparr>mail_ID = ident, mail_To = email, mail_Subject = ''Review your website on Launchstead'',
          mail_Text = ''You are invited to review '' @ name @ '' on Launchstead.'' @ nl @ nl
            @ ''This gives read-only access to this website'' @ [CHR 0xE2, CHR 0x80, CHR 0x99]
            @ ''s publication status and connected address. It does not grant access to other websites, files, logs, billing, or editing.''
            @ nl @ nl @ ''Sign in with '' @ email @ '' and accept using this link:'' @ nl @ link @ nl @ nl
            @ ''New users: register with this email and verify it first, then reopen this original invitation. Registration requires ''
            @ ''operator approval during the private launch. This link expires in 7 days and can be accepted once.'' @ nl @ nl
            @ ''If you were not expecting this invitation, ignore this email.'' @ nl\<rparr>)"

text \<open>\<open>enqueue\<close> for the purpose client-invite: the name of the project comes from the invitation just inserted.\<close>

definition enqueue_client ::
  "portal_lib \<Rightarrow> string \<Rightarrow> call \<Rightarrow> nat \<Rightarrow> string \<Rightarrow> string \<Rightarrow> string \<Rightarrow> nat \<Rightarrow> 'x client_db_scheme \<Rightarrow> ('x client_db_scheme) result" where
  "enqueue_client lib origin c n user email token k db =
     (let ident = cl_token c n in
      andThen (some_or ErrNoRows (get_row ci_hash (lib_digest lib token) (client_invitations db))) (\<lambda>i.
      andThen (some_or ErrNoRows (get_row p_id (ci_project i) (projects db))) (\<lambda>p.
      andThen (insert_row ml_id
                 \<lparr>ml_id = ident, ml_user = user, ml_hash = lib_digest lib token, ml_purpose = ''client-invite'',
                  ml_payload = lib_seal lib (cl_bytes c 1) (client_message lib origin ident email token (p_name p)) ident,
                  ml_state = MailPending, ml_attempts = 0, ml_next = cl_now c k, ml_lease = [], ml_until = 0,
                  ml_created = cl_now c (k + 1)\<rparr> (mail_outbox db)) (\<lambda>rows.
      Inr (db\<lparr>mail_outbox := rows\<rparr>)))))"

text \<open>The limits of \<open>InviteClient\<close>: one invitation a minute per address, fifty a day and twenty pending per project.\<close>

definition invite_rate_ok :: "string \<Rightarrow> string \<Rightarrow> int \<Rightarrow> client_invitation list \<Rightarrow> bool" where
  "invite_rate_ok project email now is =
     (let mine = filter (\<lambda>i. ci_project i = project) is;
          recent = length (filter (\<lambda>i. ci_email i = email \<and> ci_created i > now - 60) mine);
          daily = length (filter (\<lambda>i. ci_created i > now - 86400) mine);
          pending = length (filter (\<lambda>i. ci_email i \<noteq> email \<and> ci_state i = InvitePending \<and> ci_expires i > now) mine)
      in \<not> (recent > 0 \<or> daily \<ge> 50 \<or> pending \<ge> 20))"

definition has_access :: "string \<Rightarrow> string \<Rightarrow> string \<Rightarrow> 'x client_db_scheme \<Rightarrow> bool" where
  "has_access email workspace project db \<longleftrightarrow>
     list_ex (\<lambda>u. u_email u = email
       \<and> (list_ex (\<lambda>m. mb_user m = u_id u \<and> mb_workspace m = workspace) (memberships db)
          \<or> list_ex (\<lambda>q. pc_user q = u_id u \<and> pc_project q = project) (project_clients db))) (users db)"

definition invite_client_tx ::
  "portal_lib \<Rightarrow> string \<Rightarrow> call \<Rightarrow> (string \<Rightarrow> bool) option \<Rightarrow> string \<Rightarrow> string \<Rightarrow> string \<Rightarrow> 'x client_db_scheme
    \<Rightarrow> (client_invitation \<times> 'x client_db_scheme) result" where
  "invite_client_tx lib origin c signup token project email db =
     andThen (projectClientOwner lib c token project db) (\<lambda>(p, actor).
     andThen (guard ErrExists (\<not> has_access email (p_workspace p) project db)) (\<lambda>_.
     andThen (guard (PortalErr ErrClientSignupApproval)
                (list_ex (\<lambda>u. u_email u = email \<and> active_user u) (users db)
                 \<or> (case signup of None \<Rightarrow> False | Some allowed \<Rightarrow> allowed email))) (\<lambda>_.
     andThen (guard (PortalErr ErrClientLimit) (length (clients_of project (project_clients db)) < 20)) (\<lambda>_.
     andThen (guard (PortalErr ErrClientInviteRate) (invite_rate_ok project email (cl_now c 2) (client_invitations db))) (\<lambda>_.
     let revoked = revoke_clients (\<lambda>i. ci_project i = project \<and> ci_email i = email) (client_invitations db);
         secret = cl_token c 1;
         i = \<lparr>ci_id = cl_token c 0, ci_hash = lib_digest lib secret, ci_project = project, ci_email = email,
              ci_inviter = actor, ci_expires = cl_now c 3 + 604800, ci_state = InvitePending, ci_created = cl_now c 2\<rparr>
     in andThen (insert_row ci_id i revoked) (\<lambda>_.
        andThen (insert_row ci_hash i revoked) (\<lambda>is.
        andThen (enqueue_client lib origin c 2 actor email secret 4 (db\<lparr>client_invitations := is\<rparr>)) (\<lambda>db1.
        andThen (audit (cl_token c 3) actor (p_workspace p) (''project.client-invited:'' @ project @ '':'' @ ci_id i) (cl_now c 2) db1) (\<lambda>db2.
        Inr (i, db2))))))))))"

definition inviteClient ::
  "portal_lib \<Rightarrow> string \<Rightarrow> call \<Rightarrow> (string \<Rightarrow> bool) option \<Rightarrow> string \<Rightarrow> string \<Rightarrow> string \<Rightarrow> 'x client_db_scheme
    \<Rightarrow> client_invitation result \<times> 'x client_db_scheme" where
  "inviteClient lib origin c signup token project email db =
     (case normalizeEmail lib email of
        Inl _ \<Rightarrow> (Inl Portal_ErrInvalid, db)
      | Inr email' \<Rightarrow> in_tx (cl_drv c) (invite_client_tx lib origin c signup token project email') db)"

definition clientInvitations ::
  "portal_lib \<Rightarrow> call \<Rightarrow> string \<Rightarrow> string \<Rightarrow> 'x client_db_scheme \<Rightarrow> (string \<times> string \<times> int) list result" where
  "clientInvitations lib c token project db =
     (case cl_drv c of
        Some e \<Rightarrow> Inl e
      | None \<Rightarrow>
          andThen (projectClientOwner lib c token project db) (\<lambda>_.
          Inr (map (\<lambda>i. (ci_id i, ci_email i, ci_expires i))
                 (sort_key ci_created (sort_key ci_id
                    (filter (\<lambda>i. ci_project i = project \<and> ci_state i = InvitePending \<and> ci_expires i > cl_now c 2)
                       (client_invitations db)))))))"

definition revoke_client_tx ::
  "portal_lib \<Rightarrow> call \<Rightarrow> string \<Rightarrow> string \<Rightarrow> string \<Rightarrow> 'x client_db_scheme \<Rightarrow> (unit \<times> 'x client_db_scheme) result" where
  "revoke_client_tx lib c token project ident db =
     (let hit = (\<lambda>i. ci_id i = ident \<and> ci_project i = project) in
      andThen (projectClientOwner lib c token project db) (\<lambda>(p, actor).
      andThen (guard ErrDenied (length (filter (\<lambda>i. hit i \<and> ci_state i = InvitePending) (client_invitations db)) = 1)) (\<lambda>_.
      andThen (audit (cl_token c 0) actor (p_workspace p) (''project.client-invite-revoked:'' @ project @ '':'' @ ident) (cl_now c 2)
                 (db\<lparr>client_invitations := revoke_clients hit (client_invitations db)\<rparr>)) (\<lambda>db1.
      Inr ((), db1)))))"

text \<open>\<open>INSERT ... ON CONFLICT DO NOTHING\<close>.\<close>

definition add_client :: "string \<Rightarrow> string \<Rightarrow> int \<Rightarrow> project_client list \<Rightarrow> project_client list" where
  "add_client project user now cs =
     (if list_ex (\<lambda>q. pc_key q = (project, user)) cs then cs
      else cs @ [\<lparr>pc_project = project, pc_user = user, pc_created = now\<rparr>])"

definition accept_client_tx ::
  "portal_lib \<Rightarrow> call \<Rightarrow> string \<Rightarrow> string \<Rightarrow> 'x client_db_scheme \<Rightarrow> (string \<times> 'x client_db_scheme) result" where
  "accept_client_tx lib c token secret db =
     andThen (some_or ErrDenied (session_user lib (cl_now c 0) token db)) (\<lambda>u.
     andThen (some_or ErrDenied (List.find (\<lambda>i. live_client (lib_digest lib secret) (cl_now c 1) db i \<and> ci_email i = u_email u)
                                   (client_invitations db))) (\<lambda>i.
     andThen (some_or ErrDenied (get_row p_id (ci_project i) (projects db))) (\<lambda>p.
     andThen (guard ErrExists (get_member (u_id u) (p_workspace p) db = None)) (\<lambda>_.
     andThen (guard (PortalErr ErrClientLimit) (length (clients_of (ci_project i) (project_clients db)) < 20)) (\<lambda>_.
     andThen (audit (cl_token c 0) (u_id u) (p_workspace p) (''project.client-invite-accepted:'' @ ci_project i @ '':'' @ ci_id i)
                (cl_now c 3)
                (db\<lparr>project_clients := add_client (ci_project i) (u_id u) (cl_now c 2) (project_clients db),
                    client_invitations := upd_row ci_id (ci_id i) (\<lambda>i. i\<lparr>ci_state := InviteAccepted\<rparr>) (client_invitations db)\<rparr>)) (\<lambda>db1.
     Inr (ci_project i, db1)))))))"

section \<open>Grants\<close>

definition projectClients ::
  "portal_lib \<Rightarrow> call \<Rightarrow> string \<Rightarrow> string \<Rightarrow> 'x client_db_scheme \<Rightarrow> (string \<times> int) list result" where
  "projectClients lib c token project db =
     (case cl_drv c of
        Some e \<Rightarrow> Inl e
      | None \<Rightarrow>
          andThen (projectClientOwner lib c token project db) (\<lambda>_.
          Inr (sort_key fst (concat (map (\<lambda>q. map (\<lambda>u. (u_email u, pc_created q)) (filter (\<lambda>u. u_id u = pc_user q) (users db)))
                 (clients_of project (project_clients db)))))))"

definition change_client_tx ::
  "portal_lib \<Rightarrow> call \<Rightarrow> string \<Rightarrow> string \<Rightarrow> string \<Rightarrow> bool \<Rightarrow> 'x client_db_scheme \<Rightarrow> (unit \<times> 'x client_db_scheme) result" where
  "change_client_tx lib c token project email grant db =
     andThen (projectClientOwner lib c token project db) (\<lambda>(p, actor).
     andThen (some_or (PortalErr ErrClientUnavailable)
                (List.find (\<lambda>u. u_email u = email \<and> (grant \<longrightarrow> active_user u)) (users db))) (\<lambda>u.
     let db1 = db\<lparr>client_invitations := revoke_clients (\<lambda>i. ci_project i = project \<and> ci_email i = email) (client_invitations db)\<rparr>
     in if grant then
          andThen (guard (PortalErr ErrClientUnavailable) (get_member (u_id u) (p_workspace p) db1 = None)) (\<lambda>_.
          if list_ex (\<lambda>q. pc_key q = (project, u_id u)) (project_clients db1) then Inr ((), db1)
          else
            andThen (guard (PortalErr ErrClientLimit) (length (clients_of project (project_clients db1)) < 20)) (\<lambda>_.
            andThen (audit (cl_token c 0) actor (p_workspace p) (''project.client-granted:'' @ project @ '':'' @ u_id u) (cl_now c 3)
                       (db1\<lparr>project_clients := add_client project (u_id u) (cl_now c 2) (project_clients db1)\<rparr>)) (\<lambda>db2.
            Inr ((), db2))))
        else
          andThen (audit (cl_token c 0) actor (p_workspace p) (''project.client-revoked:'' @ project @ '':'' @ u_id u) (cl_now c 2)
                     (db1\<lparr>project_clients := filter (\<lambda>q. \<not> (pc_key q = (project, u_id u))) (project_clients db1)\<rparr>)) (\<lambda>db2.
          Inr ((), db2))))"

definition changeProjectClient ::
  "portal_lib \<Rightarrow> call \<Rightarrow> string \<Rightarrow> string \<Rightarrow> string \<Rightarrow> bool \<Rightarrow> 'x client_db_scheme \<Rightarrow> unit result \<times> 'x client_db_scheme" where
  "changeProjectClient lib c token project email grant db =
     (case normalizeEmail lib email of
        Inl _ \<Rightarrow> (Inl Portal_ErrInvalid, db)
      | Inr email' \<Rightarrow> in_tx (cl_drv c) (change_client_tx lib c token project email' grant) db)"

text \<open>
  \<open>SharedWebsites\<close>: whether a project is published and its domain come from tables of other
  components and are given (\<open>published\<close>, \<open>domain\<close>).
\<close>

record shared_website =
  sw_ID :: string
  sw_Name :: string
  sw_Kind :: string
  sw_Published :: bool
  sw_Domain :: string

definition sharedWebsites ::
  "portal_lib \<Rightarrow> call \<Rightarrow> (string \<Rightarrow> bool) \<Rightarrow> (string \<Rightarrow> string) \<Rightarrow> string \<Rightarrow> 'x client_db_scheme \<Rightarrow> shared_website list result" where
  "sharedWebsites lib c published domain token db =
     (case cl_drv c of
        Some e \<Rightarrow> Inl e
      | None \<Rightarrow>
          andThen (some_or ErrDenied (session_user lib (cl_now c 0) token db)) (\<lambda>u.
          Inr (map (\<lambda>p. \<lparr>sw_ID = p_id p, sw_Name = p_name p, sw_Kind = p_kind p, sw_Published = published (p_id p),
                         sw_Domain = domain (p_id p)\<rparr>)
                 (sort_key p_name (sort_key p_id
                    (concat (map (\<lambda>q. filter (\<lambda>p. p_id p = pc_project q \<and> p_deletion_requested_at p = 0) (projects db))
                       (filter (\<lambda>q. pc_user q = u_id u) (project_clients db)))))))))"

section \<open>History\<close>

text \<open>
  \<open>ClientAccessHistory\<close>: the audit events of the fixed kinds, newest first (the list of events is
  in the order of the row ids), with the address of the actor and of the client.
\<close>

record access_event =
  ae_ID :: string
  ae_Action :: string
  ae_Actor :: string
  ae_Client :: string
  ae_CreatedAt :: int

definition access_kinds :: "string \<Rightarrow> (string \<times> string \<times> bool) list" where
  "access_kinds project =
     [(''project.client-granted:'' @ project @ '':'', ''granted'', True),
      (''project.client-revoked:'' @ project @ '':'', ''revoked'', True),
      (''project.client-invited:'' @ project @ '':'', ''invited'', False),
      (''project.client-invite-revoked:'' @ project @ '':'', ''invitation_revoked'', False),
      (''project.client-invite-accepted:'' @ project @ '':'', ''invitation_accepted'', False)]"

definition address_of :: "string \<Rightarrow> 'x accounts_db_scheme \<Rightarrow> string" where
  "address_of ident db = (case get_row u_id ident (users db) of None \<Rightarrow> [] | Some u \<Rightarrow> u_email u)"

definition access_event_of ::
  "string \<Rightarrow> 'x client_db_scheme \<Rightarrow> audit_event \<Rightarrow> string \<times> string \<times> bool \<Rightarrow> access_event" where
  "access_event_of project db a k =
     (case k of (prefix, action, user_target) \<Rightarrow>
        let target = drop (length prefix) (au_action a) in
        \<lparr>ae_ID = au_id a, ae_Action = action, ae_Actor = address_of (au_actor a) db,
         ae_Client = (if user_target then address_of target db
                      else case List.find (\<lambda>i. ci_id i = target \<and> ci_project i = project) (client_invitations db) of
                             None \<Rightarrow> [] | Some i \<Rightarrow> ci_email i),
         ae_CreatedAt = au_at a\<rparr>)"

definition clientAccessHistory ::
  "portal_lib \<Rightarrow> call \<Rightarrow> string \<Rightarrow> string \<Rightarrow> 'x client_db_scheme \<Rightarrow> access_event list result" where
  "clientAccessHistory lib c token project db =
     (case cl_drv c of
        Some e \<Rightarrow> Inl e
      | None \<Rightarrow>
          andThen (projectClientOwner lib c token project db) (\<lambda>(p, _).
          Inr (take 50 (concat (map (\<lambda>a. map (access_event_of project db a)
                                          (filter (\<lambda>k. hasPrefix (au_action a) (fst k)) (access_kinds project)))
                 (sort_key (\<lambda>a. - au_at a) (rev (filter (\<lambda>a. au_workspace a = p_workspace p) (audit_events db)))))))))"

end
