(* ===== verification/Mail_Delivery.thy ===== *)
theory Mail_Delivery
  imports Portal_Clients
begin

text \<open>
  \<open>AccountMail.DeliverOne\<close> (\<open>mail.go\<close>): a due message is leased in one transaction, checked and
  sent outside it, and settled by a statement that demands the lease.
\<close>

section \<open>What a delivery gets from outside\<close>

text \<open>
  Whether a payload is shorter than a nonce, the decryption of a payload under an id, the decoding of
  the envelope, the outcome of the sender, and whether the driver fails at the check of
  the token, at the settlement, and at the acknowledgement after a delivery.
\<close>

record delivery =
  de_short :: "string \<Rightarrow> bool"
  de_open :: "string \<Rightarrow> string \<Rightarrow> string option"
  de_decode :: "string \<Rightarrow> mail option"
  de_send :: "mail \<Rightarrow> unit result"
  de_check :: driver
  de_finish :: driver

section \<open>The lease\<close>

definition due_mail :: "int \<Rightarrow> mail_row list \<Rightarrow> mail_row list" where
  "due_mail now rows =
     sort_key ml_created (sort_key ml_id (filter (\<lambda>r. ml_state r = MailPending \<and> ml_next r \<le> now \<and> ml_until r \<le> now) rows))"

text \<open>The row as it was read, before the lease.\<close>

definition lease_mail_tx :: "call \<Rightarrow> 'x accounts_db_scheme \<Rightarrow> (mail_row option \<times> 'x accounts_db_scheme) result" where
  "lease_mail_tx c db =
     (case due_mail (cl_now c 0) (mail_outbox db) of
        [] \<Rightarrow> Inr (None, db)
      | r # _ \<Rightarrow> Inr (Some r, db\<lparr>mail_outbox := upd_row ml_id (ml_id r)
                    (\<lambda>q. q\<lparr>ml_lease := cl_token c 0, ml_until := cl_now c 0 + 60, ml_attempts := ml_attempts q + 1\<rparr>)
                    (mail_outbox db)\<rparr>))"

definition settle_mail :: "string \<Rightarrow> string \<Rightarrow> (mail_row \<Rightarrow> mail_row) \<Rightarrow> mail_row list \<Rightarrow> mail_row list" where
  "settle_mail ident lease f = map (\<lambda>q. if ml_id q = ident \<and> ml_lease q = lease then f q else q)"

text \<open>The closure \<open>finish\<close>: only a message that stays pending keeps its payload.\<close>

definition finish_mail_tx ::
  "mail_row \<Rightarrow> string \<Rightarrow> mail_state \<Rightarrow> int \<Rightarrow> 'x accounts_db_scheme \<Rightarrow> (unit \<times> 'x accounts_db_scheme) result" where
  "finish_mail_tx r lease state next db =
     Inr ((), db\<lparr>mail_outbox := settle_mail (ml_id r) lease
                   (\<lambda>q. q\<lparr>ml_state := state, ml_payload := (if state \<noteq> MailPending then [] else ml_payload r),
                          ml_next := next, ml_until := 0, ml_lease := []\<rparr>) (mail_outbox db)\<rparr>)"

definition sent_mail_tx ::
  "mail_row \<Rightarrow> string \<Rightarrow> 'x accounts_db_scheme \<Rightarrow> (unit \<times> 'x accounts_db_scheme) result" where
  "sent_mail_tx r lease db =
     Inr ((), db\<lparr>mail_outbox := settle_mail (ml_id r) lease
                   (\<lambda>q. q\<lparr>ml_state := MailSent, ml_payload := [], ml_lease := [], ml_until := 0\<rparr>) (mail_outbox db)\<rparr>)"

section \<open>The family of transactions\<close>

text \<open>
  The transactions on accounts, the creation of projects, those on clients, and the three of a delivery.
\<close>

datatype client_tx =
    CAccount acct_tx
  | CProject string string string string
  | CInvite string "(string \<Rightarrow> bool) option" string string string
  | CRevoke string string string
  | CAccept string string
  | CChange string string string bool
  | MLease
  | MFinish mail_row string mail_state int
  | MSent mail_row string

fun client_body ::
  "portal_lib \<Rightarrow> store_config \<Rightarrow> call \<Rightarrow> client_tx \<Rightarrow> 'x client_db_scheme \<Rightarrow> (unit \<times> 'x client_db_scheme) result" where
  "client_body lib cfg c (CAccount t) db = acct_body lib c t db"
| "client_body lib cfg c (CProject token workspace name kind) db = drop_value (create_project_tx lib cfg c token workspace name kind db)"
| "client_body lib cfg c (CInvite origin signup token project email) db =
     drop_value (invite_client_tx lib origin c signup token project email db)"
| "client_body lib cfg c (CRevoke token project ident) db = revoke_client_tx lib c token project ident db"
| "client_body lib cfg c (CAccept token secret) db = drop_value (accept_client_tx lib c token secret db)"
| "client_body lib cfg c (CChange token project email grant) db = change_client_tx lib c token project email grant db"
| "client_body lib cfg c MLease db = drop_value (lease_mail_tx c db)"
| "client_body lib cfg c (MFinish r lease state next) db = finish_mail_tx r lease state next db"
| "client_body lib cfg c (MSent r lease) db = sent_mail_tx r lease db"

definition client_exec ::
  "portal_lib \<Rightarrow> store_config \<Rightarrow> call \<times> client_tx \<Rightarrow> 'x client_db_scheme \<Rightarrow> unit result \<times> 'x client_db_scheme" where
  "client_exec lib cfg i db = in_tx (cl_drv (fst i)) (client_body lib cfg (fst i) (snd i)) db"

abbreviation client_run ::
  "portal_lib \<Rightarrow> store_config \<Rightarrow> (call \<times> client_tx) list \<Rightarrow> 'x client_db_scheme \<Rightarrow> 'x client_db_scheme" where
  "client_run lib cfg is db \<equiv> run_ops (client_exec lib cfg) is db"

section \<open>The check and the delivery\<close>

text \<open>Whether the token of the message is still good for what the message is about.\<close>

definition mail_valid :: "int \<Rightarrow> mail_row \<Rightarrow> 'x client_db_scheme \<Rightarrow> bool" where
  "mail_valid now r db =
     (if ml_purpose r = ''invite'' then
        list_ex (\<lambda>i. iv_hash i = ml_hash r \<and> iv_inviter i = ml_user r \<and> iv_state i = InvitePending \<and> iv_expires i > now
          \<and> list_ex (\<lambda>u. u_id u = iv_inviter i \<and> active_user u) (users db)
          \<and> list_ex (\<lambda>m. mb_user m = iv_inviter i \<and> mb_workspace m = iv_workspace i \<and> mb_role m = ''owner'') (memberships db))
          (invitations db)
      else if ml_purpose r = ''client-invite'' then
        list_ex (\<lambda>i. live_client (ml_hash r) now db i \<and> ci_inviter i = ml_user r) (client_invitations db)
      else
        list_ex (\<lambda>t. tk_hash t = ml_hash r \<and> tk_user t = ml_user r \<and> tk_purpose t = ml_purpose r \<and> tk_expires t > now
          \<and> list_ex (\<lambda>u. u_id u = tk_user t \<and> \<not> u_disabled u) (users db)) (account_tokens db))"

text \<open>The state and the delay after a failed attempt; \<open>n\<close> are the attempts before this one.\<close>

definition retry_state :: "nat \<Rightarrow> mail_state" where
  "retry_state n = (if n \<ge> 9 then MailFailed else MailPending)"

definition retry_delay :: "nat \<Rightarrow> int" where
  "retry_delay n = 30 * 2 ^ min n 6"

text \<open>
  What a delivery decides about a leased message: discard it, fail, retry later, or hand it to the sender.
\<close>

datatype verdict =
    Discard
  | Fail mail_state int go_err
  | Deliver mail

definition mail_verdict :: "delivery \<Rightarrow> int \<Rightarrow> mail_row \<Rightarrow> 'x client_db_scheme \<Rightarrow> verdict" where
  "mail_verdict de now r db =
     (if \<not> mail_valid now r db then Discard
      else if de_short de (ml_payload r) then Fail MailFailed now (PortalErr ErrMailPayload)
      else case de_open de (ml_payload r) (ml_id r) of
        None \<Rightarrow> Fail (retry_state (ml_attempts r)) (now + 300) (PortalErr ErrMailDecrypt)
      | Some data \<Rightarrow>
          (case de_decode de data of
             None \<Rightarrow> Fail MailFailed now (PortalErr ErrMailEnvelope)
           | Some m \<Rightarrow> if mail_ID m \<noteq> ml_id r then Fail MailFailed now (PortalErr ErrMailEnvelope) else Deliver m))"

text \<open>The part of \<open>DeliverOne\<close> after the lease; the second value is the message given to the sender.\<close>

definition deliver_leased ::
  "portal_lib \<Rightarrow> store_config \<Rightarrow> delivery \<Rightarrow> int \<Rightarrow> mail_row \<Rightarrow> string \<Rightarrow> (call \<times> client_tx) list \<Rightarrow> 'x client_db_scheme
    \<Rightarrow> unit result \<times> mail option \<times> 'x client_db_scheme" where
  "deliver_leased lib cfg de now r lease others db =
     (case de_check de of
        Some e \<Rightarrow> (Inl e, None, db)
      | None \<Rightarrow>
          (case mail_verdict de now r db of
             Discard \<Rightarrow> (case in_tx (de_finish de) (finish_mail_tx r lease MailDiscarded now) (client_run lib cfg others db) of (x, db1) \<Rightarrow> (x, None, db1))
           | Fail state next e \<Rightarrow>
               (case in_tx (de_finish de) (finish_mail_tx r lease state next) (client_run lib cfg others db) of (_, db1) \<Rightarrow> (Inl e, None, db1))
           | Deliver m \<Rightarrow>
               (case de_send de m of
                  Inr _ \<Rightarrow> (case in_tx (de_finish de) (sent_mail_tx r lease) (client_run lib cfg others db) of (x, db1) \<Rightarrow> (x, Some m, db1))
                | Inl _ \<Rightarrow>
                    (case in_tx (de_finish de)
                            (finish_mail_tx r lease (retry_state (ml_attempts r)) (now + retry_delay (ml_attempts r))) (client_run lib cfg others db) of
                       (Inl e, db1) \<Rightarrow> (Inl e, Some m, db1)
                     | (Inr _, db1) \<Rightarrow> (Inl (PortalErr ErrMailSend), Some m, db1)))))"

text \<open>
  \<open>DeliverOne\<close>: \<open>mid\<close> are the transactions of others between the lease and the check, \<open>others\<close> those
  between the check and the settlement.
\<close>

definition deliverOne ::
  "portal_lib \<Rightarrow> store_config \<Rightarrow> call \<Rightarrow> delivery option \<Rightarrow> (call \<times> client_tx) list \<Rightarrow> (call \<times> client_tx) list
    \<Rightarrow> 'x client_db_scheme \<Rightarrow> bool result \<times> mail option \<times> 'x client_db_scheme" where
  "deliverOne lib cfg c sender mid others db =
     (case sender of
        None \<Rightarrow> (Inl (PortalErr ErrMail), None, db)
      | Some de \<Rightarrow>
          (case in_tx (cl_drv c) (lease_mail_tx c) db of
             (Inl e, db1) \<Rightarrow> (Inl e, None, db1)
           | (Inr None, db1) \<Rightarrow> (Inr False, None, db1)
           | (Inr (Some r), db1) \<Rightarrow>
               (case deliver_leased lib cfg de (cl_now c 0) r (cl_token c 0) others (client_run lib cfg mid db1) of
                  (Inl e, m, db2) \<Rightarrow> (Inl e, m, db2)
                | (Inr _, m, db2) \<Rightarrow> (Inr True, m, db2))))"

end
