(* ===== verification/Client_Safety.thy ===== *)
theory Client_Safety
  imports Mail_Delivery
begin

text \<open>
  Proofs about clients and mail: the consistency of the client tables, single use of an
  invitation, the end of a removed client's access, and what is sent and when.
\<close>

section \<open>What a committing transaction did\<close>

lemma client_audit:
  assumes "audit ident actor ws action now db = Inr db'"
  shows "client_invitations db' = client_invitations db \<and> project_clients db' = project_clients db \<and> projects db' = projects db
    \<and> mail_outbox db' = mail_outbox db \<and> users db' = users db \<and> memberships db' = memberships db \<and> sessions db' = sessions db"
  using auditD [OF assms] by auto

lemma enqueue_clientD:
  "enqueue_client lib origin c n user email token k db = Inr db' \<Longrightarrow>
    \<exists>row. db' = db\<lparr>mail_outbox := mail_outbox db @ [row]\<rparr> \<and> ml_state row = MailPending \<and> ml_id row \<notin> ml_id ` set (mail_outbox db)"
  by (auto simp: enqueue_client_def Let_def insert_row_Inr)

lemma revoke_clients_maps [simp]:
  "map ci_id (revoke_clients P is) = map ci_id is" "map ci_hash (revoke_clients P is) = map ci_hash is"
  "map ci_target (revoke_clients P is) = map ci_target is"
  by (auto simp: revoke_clients_def ci_target_def)

lemma revoke_clients_images [simp]:
  "ci_id ` set (revoke_clients P is) = ci_id ` set is" "ci_hash ` set (revoke_clients P is) = ci_hash ` set is"
  by (metis list.set_map revoke_clients_maps(1), metis list.set_map revoke_clients_maps(2))

lemma invite_clientD:
  assumes "invite_client_tx lib origin c signup token project email db = Inr (i, db')"
  shows "client_invitations db' = revoke_clients (\<lambda>i. ci_project i = project \<and> ci_email i = email) (client_invitations db) @ [i]
    \<and> ci_target i = (project, email) \<and> ci_pending i
    \<and> ci_id i \<notin> ci_id ` set (client_invitations db) \<and> ci_hash i \<notin> ci_hash ` set (client_invitations db)
    \<and> project_clients db' = project_clients db \<and> projects db' = projects db \<and> users db' = users db \<and> memberships db' = memberships db
    \<and> (\<exists>row. mail_outbox db' = mail_outbox db @ [row] \<and> ml_state row = MailPending \<and> ml_id row \<notin> ml_id ` set (mail_outbox db))"
  using assms
  by (auto simp: invite_client_tx_def Let_def insert_row_Inr ci_target_def ci_pending_def split: prod.splits
      dest!: client_audit enqueue_clientD)

lemma revoke_clientD:
  "revoke_client_tx lib c token project ident db = Inr (r, db') \<Longrightarrow>
    client_invitations db' = revoke_clients (\<lambda>i. ci_id i = ident \<and> ci_project i = project) (client_invitations db)
    \<and> project_clients db' = project_clients db \<and> projects db' = projects db \<and> users db' = users db \<and> memberships db' = memberships db
    \<and> mail_outbox db' = mail_outbox db"
  by (auto simp: revoke_client_tx_def Let_def split: prod.splits dest!: client_audit)

lemma accept_clientD:
  "accept_client_tx lib c token secret db = Inr (r, db') \<Longrightarrow>
    \<exists>u i p. session_user lib (cl_now c 0) token db = Some u
    \<and> i \<in> set (client_invitations db) \<and> live_client (lib_digest lib secret) (cl_now c 1) db i \<and> ci_email i = u_email u
    \<and> get_row p_id (ci_project i) (projects db) = Some p \<and> r = ci_project i
    \<and> get_member (u_id u) (p_workspace p) db = None
    \<and> length (clients_of (ci_project i) (project_clients db)) < 20
    \<and> project_clients db' = add_client (ci_project i) (u_id u) (cl_now c 2) (project_clients db)
    \<and> client_invitations db' = upd_row ci_id (ci_id i) (\<lambda>i. i\<lparr>ci_state := InviteAccepted\<rparr>) (client_invitations db)
    \<and> projects db' = projects db \<and> users db' = users db \<and> memberships db' = memberships db \<and> mail_outbox db' = mail_outbox db"
  by (fastforce simp: accept_client_tx_def dest!: client_audit find_SomeD)

lemma change_clientD:
  assumes "change_client_tx lib c token project email grant db = Inr (r, db')"
  shows "\<exists>u. u \<in> set (users db) \<and> u_email u = email
    \<and> client_invitations db' = revoke_clients (\<lambda>i. ci_project i = project \<and> ci_email i = email) (client_invitations db)
    \<and> projects db' = projects db \<and> users db' = users db \<and> memberships db' = memberships db \<and> mail_outbox db' = mail_outbox db
    \<and> (if grant then project_clients db' = project_clients db
         \<or> length (clients_of project (project_clients db)) < 20
           \<and> project_clients db' = add_client project (u_id u) (cl_now c 2) (project_clients db)
       else project_clients db' = filter (\<lambda>q. pc_key q \<noteq> (project, u_id u)) (project_clients db))"
proof -
  obtain p actor where o: "projectClientOwner lib c token project db = Inr (p, actor)"
    using assms by (auto simp: change_client_tx_def)
  obtain u where u: "List.find (\<lambda>u. u_email u = email \<and> (grant \<longrightarrow> active_user u)) (users db) = Some u"
    using assms by (auto simp: change_client_tx_def split: prod.splits)
  note found = find_SomeD [OF u]
  show ?thesis
  proof (cases grant)
    case True
    with assms found o u show ?thesis
      by (intro exI [of _ u]) (auto simp: change_client_tx_def seq_simps Let_def dest!: client_audit split: if_splits)
  next
    case False
    with assms found o u show ?thesis
      by (intro exI [of _ u]) (auto simp: change_client_tx_def seq_simps Let_def dest!: client_audit)
  qed
qed

lemma lease_mailD:
  "lease_mail_tx c db = Inr (r, db') \<Longrightarrow> accounts_db.more db' = accounts_db.more db \<and> users db' = users db \<and> memberships db' = memberships db
    \<and> mail_outbox db' = (case r of None \<Rightarrow> mail_outbox db
       | Some q \<Rightarrow> upd_row ml_id (ml_id q) (\<lambda>q. q\<lparr>ml_lease := cl_token c 0, ml_until := cl_now c 0 + 60, ml_attempts := ml_attempts q + 1\<rparr>)
                     (mail_outbox db))"
  by (auto simp: lease_mail_tx_def split: list.splits)

lemma finish_mailD:
  "finish_mail_tx r lease state next db = Inr (x, db') \<Longrightarrow> \<exists>f. mail_outbox db' = settle_mail (ml_id r) lease f (mail_outbox db)
    \<and> (\<forall>q. ml_id (f q) = ml_id q \<and> ml_state (f q) = state \<and> ml_lease (f q) = []) \<and> db' = db\<lparr>mail_outbox := mail_outbox db'\<rparr>"
  unfolding finish_mail_tx_def by (auto intro!: exI)

lemma sent_mailD:
  "sent_mail_tx r lease db = Inr (x, db') \<Longrightarrow> \<exists>f. mail_outbox db' = settle_mail (ml_id r) lease f (mail_outbox db)
    \<and> (\<forall>q. ml_id (f q) = ml_id q \<and> ml_state (f q) = MailSent \<and> ml_lease (f q) = []) \<and> db' = db\<lparr>mail_outbox := mail_outbox db'\<rparr>"
  unfolding sent_mail_tx_def by (auto intro!: exI)

lemma more_clients:
  "accounts_db.more db' = accounts_db.more db \<Longrightarrow> client_invitations db' = client_invitations db \<and> project_clients db' = project_clients db
    \<and> projects db' = projects db"
  by (cases db, cases db') simp

lemma create_projectD:
  "create_project_tx lib cfg c token workspace name kind db = Inr (p, db') \<Longrightarrow>
    projects db' = projects db @ [p] \<and> p_id p \<notin> p_id ` set (projects db)
    \<and> client_invitations db' = client_invitations db \<and> project_clients db' = project_clients db
    \<and> users db' = users db \<and> memberships db' = memberships db \<and> mail_outbox db' = mail_outbox db"
  by (cases "capacityAvailable cfg db") (auto simp: create_project_tx_def Let_def insert_row_Inr dest!: client_audit)

section \<open>Consistent tables\<close>

definition client_invitations_ok :: "client_invitation list \<Rightarrow> bool" where
  "client_invitations_ok is \<longleftrightarrow>
     distinct (map ci_id is) \<and> distinct (map ci_hash is) \<and> distinct (map ci_target (filter ci_pending is))"

definition grants_ok :: "project_client list \<Rightarrow> bool" where
  "grants_ok cs \<longleftrightarrow> distinct (map pc_key cs) \<and> (\<forall>project. length (clients_of project cs) \<le> 20)"

definition clients_ok :: "'x client_db_scheme \<Rightarrow> bool" where
  "clients_ok db \<longleftrightarrow> client_invitations_ok (client_invitations db) \<and> grants_ok (project_clients db)"

lemma pending_revoked: "filter ci_pending (revoke_clients P is) = filter (\<lambda>i. \<not> P i) (filter ci_pending is)"
  by (induction "is") (auto simp: revoke_clients_def ci_pending_def)

lemma revoke_clients_ok: "client_invitations_ok is \<Longrightarrow> client_invitations_ok (revoke_clients P is)"
  by (simp add: client_invitations_ok_def pending_revoked distinct_map_filter del: filter_filter)

lemma invite_clients_ok:
  assumes "client_invitations_ok is" and "ci_id i \<notin> ci_id ` set is" and "ci_hash i \<notin> ci_hash ` set is"
  shows "client_invitations_ok (revoke_clients (\<lambda>j. ci_target j = ci_target i) is @ [i])"
proof -
  let ?P = "\<lambda>j. ci_target j = ci_target i"
  from revoke_clients_ok [OF assms(1), of ?P] have ok: "client_invitations_ok (revoke_clients ?P is)" .
  have "ci_target i \<notin> ci_target ` set (filter ci_pending (revoke_clients ?P is))"
    by (auto simp: pending_revoked)
  moreover have "ci_id i \<notin> set (map ci_id (revoke_clients ?P is))" "ci_hash i \<notin> set (map ci_hash (revoke_clients ?P is))"
    using assms(2,3) by simp_all
  ultimately show ?thesis using ok by (simp add: client_invitations_ok_def)
qed

lemma accept_clients_ok:
  assumes "client_invitations_ok is"
  shows "client_invitations_ok (upd_row ci_id k (\<lambda>i. i\<lparr>ci_state := InviteAccepted\<rparr>) is)"
proof -
  let ?f = "\<lambda>i. if ci_id i = k then i\<lparr>ci_state := InviteAccepted\<rparr> else i"
  have m: "map ci_id (map ?f is) = map ci_id is" "map ci_hash (map ?f is) = map ci_hash is" by (auto simp: comp_def)
  have "filter ci_pending (map ?f is) = filter (\<lambda>i. ci_id i \<noteq> k) (filter ci_pending is)"
    by (induction "is") (auto simp: ci_pending_def)
  with assms m show ?thesis by (simp add: client_invitations_ok_def upd_row_def distinct_map_filter del: map_map filter_filter)
qed

lemma add_client_ok:
  assumes "grants_ok cs" and "length (clients_of project cs) < 20"
  shows "grants_ok (add_client project user now cs)"
proof (cases "list_ex (\<lambda>q. pc_key q = (project, user)) cs")
  case False
  let ?q = "\<lparr>pc_project = project, pc_user = user, pc_created = now\<rparr>"
  from False have "pc_key ?q \<notin> pc_key ` set cs" by (auto simp: list_ex_iff pc_key_def)
  moreover have "length (clients_of p (cs @ [?q])) \<le> 20" for p
    using assms by (cases "p = project") (auto simp: grants_ok_def clients_of_def)
  ultimately show ?thesis using assms False by (simp add: add_client_def grants_ok_def)
qed (use assms in \<open>simp add: add_client_def\<close>)

lemma remove_client_ok: "grants_ok cs \<Longrightarrow> grants_ok (filter P cs)"
proof -
  assume ok: "grants_ok cs"
  have "clients_of p (filter P cs) = filter P (clients_of p cs)" for p by (simp add: clients_of_def conj_commute)
  then have "length (clients_of p (filter P cs)) \<le> length (clients_of p cs)" for p by simp
  with ok show "grants_ok (filter P cs)" by (meson grants_ok_def distinct_map_filter order_trans)
qed

lemma body_clients_ok:
  assumes "client_body lib cfg c t db = Inr (r, db')" and ok: "clients_ok db"
  shows "clients_ok db'"
proof -
  have same: "clients_ok db'" if "client_invitations db' = client_invitations db" "project_clients db' = project_clients db"
    using that ok by (simp add: clients_ok_def)
  show ?thesis
  proof (cases t)
    case (CAccount a)
    with assms(1) acct_body_more have "accounts_db.more db' = accounts_db.more db" by auto
    from more_clients [OF this] show ?thesis by (intro same) auto
  next
    case (CProject token workspace name kind)
    with assms(1) show ?thesis by (auto dest!: create_projectD intro: same)
  next
    case (CInvite origin signup token project email)
    with assms(1) obtain i where i: "invite_client_tx lib origin c signup token project email db = Inr (i, db')" by auto
    note inv = invite_clientD [OF i]
    then have "(\<lambda>i. ci_project i = project \<and> ci_email i = email) = (\<lambda>j. ci_target j = ci_target i)" by (auto simp: ci_target_def)
    with inv ok have "client_invitations_ok (client_invitations db')"
      using invite_clients_ok [of "client_invitations db" i] by (simp add: clients_ok_def)
    with inv ok show ?thesis by (simp add: clients_ok_def)
  next
    case (CRevoke token project ident)
    with assms(1) ok show ?thesis by (auto simp: clients_ok_def revoke_clients_ok dest!: revoke_clientD)
  next
    case (CAccept token secret)
    with assms(1) obtain x where "accept_client_tx lib c token secret db = Inr (x, db')" by auto
    from accept_clientD [OF this] ok show ?thesis by (auto simp: clients_ok_def accept_clients_ok add_client_ok)
  next
    case (CChange token project email grant)
    with assms(1) have "change_client_tx lib c token project email grant db = Inr (r, db')" by simp
    from change_clientD [OF this] ok show ?thesis
      by (auto simp: clients_ok_def revoke_clients_ok add_client_ok remove_client_ok split: if_splits)
  next
    case MLease
    with assms(1) obtain x where "lease_mail_tx c db = Inr (x, db')" by auto
    from lease_mailD [OF this] more_clients [of db' db] show ?thesis by (intro same) auto
  next
    case (MFinish q lease state next')
    with assms(1) have "finish_mail_tx q lease state next' db = Inr (r, db')" by simp
    then show ?thesis by (intro same) (auto simp: finish_mail_tx_def)
  next
    case (MSent q lease)
    with assms(1) have "sent_mail_tx q lease db = Inr (r, db')" by simp
    then show ?thesis by (intro same) (auto simp: sent_mail_tx_def)
  qed
qed

interpretation cl: transactional "client_exec lib cfg" clients_ok for lib cfg
proof
  show "clients_ok (snd (client_exec lib cfg i db))" if "clients_ok db" for i and db :: "'x client_db_scheme"
    unfolding client_exec_def by (rule in_tx_invariant [where P = clients_ok]) (use that body_clients_ok in auto)
  show "snd (client_exec lib cfg i db) = db" if "fst (client_exec lib cfg i db) = Inl e" for i e and db :: "'x client_db_scheme"
    using that by (simp add: client_exec_def in_tx_error)
qed

end
