(* ===== verification/Client_Guarantees.thy ===== *)
theory Client_Guarantees
  imports Client_Safety
begin

text \<open>
  The guarantees on clients and mail: an invitation admits once, a removed client stays out, mail goes out only
  while its token is good, and a settled message is never sent again.
\<close>

section \<open>Spent invitations\<close>

lemma invites_grow:
  assumes "client_body lib cfg c t db = Inr (r, db')" and i: "i \<in> set (client_invitations db)"
  shows "\<exists>j \<in> set (client_invitations db'). ci_hash j = ci_hash i \<and> (ci_pending j \<longrightarrow> ci_pending i)"
proof -
  have same: ?thesis if "client_invitations db' = client_invitations db" using that i by auto
  have revoked: "\<exists>j \<in> set (revoke_clients P (client_invitations db)). ci_hash j = ci_hash i \<and> (ci_pending j \<longrightarrow> ci_pending i)" for P
    using i by (intro bexI [of _ "if P i \<and> ci_state i = InvitePending then i\<lparr>ci_state := InviteRevoked\<rparr> else i"])
      (auto simp: revoke_clients_def ci_pending_def)
  show ?thesis
  proof (cases t)
    case (CAccount a)
    with assms(1) acct_body_more have "accounts_db.more db' = accounts_db.more db" by auto
    from more_clients [OF this] show ?thesis by (intro same) auto
  next
    case (CProject token workspace name kind)
    with assms(1) show ?thesis by (auto dest!: create_projectD intro: same)
  next
    case (CInvite origin signup token project email)
    with assms(1) obtain k where "invite_client_tx lib origin c signup token project email db = Inr (k, db')" by auto
    from invite_clientD [OF this] revoked [of "\<lambda>i. ci_project i = project \<and> ci_email i = email"] show ?thesis by auto
  next
    case (CRevoke token project ident)
    with assms(1) have "revoke_client_tx lib c token project ident db = Inr (r, db')" by simp
    from revoke_clientD [OF this] revoked show ?thesis by auto
  next
    case (CAccept token secret)
    with assms(1) obtain x where "accept_client_tx lib c token secret db = Inr (x, db')" by auto
    from accept_clientD [OF this] obtain k where
      "client_invitations db' = upd_row ci_id k (\<lambda>i. i\<lparr>ci_state := InviteAccepted\<rparr>) (client_invitations db)" by blast
    with i show ?thesis
      by (intro bexI [of _ "if ci_id i = k then i\<lparr>ci_state := InviteAccepted\<rparr> else i"]) (auto simp: upd_row_def ci_pending_def)
  next
    case (CChange token project email grant)
    with assms(1) have "change_client_tx lib c token project email grant db = Inr (r, db')" by simp
    from change_clientD [OF this] revoked show ?thesis by auto
  next
    case MLease
    with assms(1) obtain x where "lease_mail_tx c db = Inr (x, db')" by auto
    from lease_mailD [OF this] more_clients [of db' db] show ?thesis by (intro same) auto
  qed (use assms(1) i in \<open>auto simp: finish_mail_tx_def sent_mail_tx_def intro!: bexI [of _ i]\<close>)
qed

definition client_spent :: "string \<Rightarrow> 'x client_db_scheme \<Rightarrow> bool" where
  "client_spent h db \<longleftrightarrow> clients_ok db \<and> (\<exists>i \<in> set (client_invitations db). ci_hash i = h \<and> \<not> ci_pending i)"

definition accepts_with :: "portal_lib \<Rightarrow> string \<Rightarrow> call \<times> client_tx \<Rightarrow> bool" where
  "accepts_with lib h i \<longleftrightarrow> (case snd i of CAccept token secret \<Rightarrow> lib_digest lib secret = h | _ \<Rightarrow> False)"

lemma same_hash: "clients_ok db \<Longrightarrow> i \<in> set (client_invitations db) \<Longrightarrow> j \<in> set (client_invitations db) \<Longrightarrow> ci_hash i = ci_hash j \<Longrightarrow> i = j"
  by (auto simp: clients_ok_def client_invitations_ok_def distinct_map dest: inj_onD)

lemma body_spent:
  assumes "client_body lib cfg c t db = Inr (r, db')" and "client_spent h db"
  shows "client_spent h db'"
proof -
  from assms(2) obtain i where "i \<in> set (client_invitations db)" "ci_hash i = h" "\<not> ci_pending i" "clients_ok db"
    by (auto simp: client_spent_def)
  with invites_grow [OF assms(1)] body_clients_ok [OF assms(1)] show ?thesis unfolding client_spent_def by metis
qed

interpretation cspent: latch "client_exec lib cfg" client_spent "accepts_with lib" for lib cfg
proof
  show "client_spent h (snd (client_exec lib cfg i db))" if "client_spent h db" for h i and db :: "'x client_db_scheme"
    unfolding client_exec_def by (rule in_tx_invariant [where P = "client_spent h"]) (use that body_spent in auto)
  show "\<exists>e. fst (client_exec lib cfg i db) = Inl e" if s: "client_spent h db" and g: "accepts_with lib h i" for h i and db :: "'x client_db_scheme"
  proof -
    from g obtain token secret where i: "snd i = CAccept token secret" "lib_digest lib secret = h"
      by (auto simp: accepts_with_def split: client_tx.splits)
    have "fst (client_exec lib cfg i db) \<noteq> Inr u" for u
    proof
      assume "fst (client_exec lib cfg i db) = Inr u"
      then obtain db' where "client_exec lib cfg i db = (Inr u, db')" by (metis prod.collapse)
      with i obtain x where "accept_client_tx lib (fst i) token secret db = Inr (x, db')"
        by (auto simp: client_exec_def in_tx_Inr_iff)
      from accept_clientD [OF this] i(2) obtain j where j: "j \<in> set (client_invitations db)" "ci_hash j = h" "ci_pending j"
        by (auto simp: live_client_def ci_pending_def)
      from s obtain k where "k \<in> set (client_invitations db)" "ci_hash k = h" "\<not> ci_pending k" "clients_ok db"
        by (auto simp: client_spent_def)
      with j same_hash show False by metis
    qed
    then show ?thesis by (cases "fst (client_exec lib cfg i db)") auto
  qed
qed

section \<open>Removed clients\<close>

text \<open>Accounts keep their address, and a new account has a new identifier.\<close>

definition address_book :: "'x accounts_db_scheme \<Rightarrow> (string \<times> string) list" where
  "address_book db = map (\<lambda>u. (u_id u, u_email u)) (users db)"

lemma acct_addresses:
  assumes "acct_body lib c t db = Inr (r, db')"
  shows "\<exists>xs. address_book db' = address_book db @ xs \<and> (\<forall>x \<in> set xs. fst x \<notin> fst ` set (address_book db))"
proof -
  have same: ?thesis if "users db' = users db" using that by (simp add: address_book_def)
  show ?thesis
  proof (cases t)
    case (TRegister live queue email salt hash workspace)
    with assms obtain x where "register_tx lib live queue c email salt hash workspace db = Inr (x, db')" by auto
    from register_txD [OF this] obtain u where u: "users db' = users db @ [u]" "u_id u \<notin> u_id ` set (users db)" by blast
    then show ?thesis by (intro exI [of _ "[(u_id u, u_email u)]"]) (auto simp: address_book_def)
  next
    case (TVerify token)
    with assms have "verify_tx lib c token db = Inr (r, db')" by simp
    from verify_txD [OF this] have "address_book db' = address_book db" by (auto simp: address_book_def)
    then show ?thesis by simp
  next
    case (TReset token user salt hash)
    with assms have "reset_tx lib c token user salt hash db = Inr (r, db')" by simp
    from reset_txD [OF this] have "address_book db' = address_book db" by (auto simp: address_book_def upd_row_def)
    then show ?thesis by simp
  next
    case (TLogout token)
    with assms have "users db' = users db" by (auto simp: logout_tx_def)
    then show ?thesis by (rule same)
  qed (use assms in \<open>auto intro!: same dest!: session_txD request_reset_txD change_member_txD invite_txD revoke_txD accept_txD\<close>)
qed

text \<open>
  \<open>barred (project, user, email)\<close>: the account has the address, no grant of the project names it, and no pending
  invitation of the project names the address.
\<close>

definition barred :: "string \<times> string \<times> string \<Rightarrow> 'x client_db_scheme \<Rightarrow> bool" where
  "barred k db \<longleftrightarrow> (case k of (project, user, email) \<Rightarrow>
     (user, email) \<in> set (address_book db) \<and> (\<forall>e. (user, e) \<in> set (address_book db) \<longrightarrow> e = email)
     \<and> (\<forall>q \<in> set (project_clients db). pc_key q \<noteq> (project, user))
     \<and> (\<forall>i \<in> set (client_invitations db). ci_target i = (project, email) \<longrightarrow> \<not> ci_pending i))"

definition readmits :: "string \<Rightarrow> string \<Rightarrow> client_tx \<Rightarrow> bool" where
  "readmits project email t \<longleftrightarrow>
     (case t of CInvite _ _ _ p e \<Rightarrow> p = project \<and> e = email | CChange _ p e grant \<Rightarrow> p = project \<and> e = email \<and> grant | _ \<Rightarrow> False)"

lemma barred_same:
  "barred k db \<Longrightarrow> address_book db' = address_book db \<Longrightarrow> project_clients db' = project_clients db
    \<Longrightarrow> client_invitations db' = client_invitations db \<Longrightarrow> barred k db'"
  by (simp add: barred_def)

lemma set_add_client: "q \<in> set (add_client project user now cs) \<Longrightarrow> q \<in> set cs \<or> pc_key q = (project, user)"
  by (auto simp: add_client_def pc_key_def split: if_splits)

lemma add_client_key: "(project, user) \<in> pc_key ` set (add_client project user now cs)"
  by (cases "list_ex (\<lambda>q. pc_key q = (project, user)) cs") (force simp: add_client_def list_ex_iff pc_key_def)+

lemma pending_after_revoke:
  "i \<in> set (revoke_clients P is) \<Longrightarrow> ci_pending i \<Longrightarrow> i \<in> set is \<and> \<not> P i"
  by (auto simp: revoke_clients_def ci_pending_def split: if_splits)

lemma book_member: "u \<in> set (users db) \<Longrightarrow> (u_id u, u_email u) \<in> set (address_book db)"
  by (auto simp: address_book_def)

lemma body_barred:
  assumes "client_body lib cfg c t db = Inr (r, db')" and b: "barred (project, user, email) db" and t: "\<not> readmits project email t"
  shows "barred (project, user, email) db'"
proof (cases t)
  case (CAccount a)
  with assms(1) have tx: "acct_body lib c a db = Inr (r, db')" by simp
  from acct_addresses [OF tx] obtain xs where xs: "address_book db' = address_book db @ xs"
    "\<forall>x \<in> set xs. fst x \<notin> fst ` set (address_book db)" by blast
  from b have "(user, email) \<in> set (address_book db)" by (simp add: barred_def)
  then have "user \<in> fst ` set (address_book db)" by force
  with xs(2) have "(user, e) \<notin> set xs" for e by (metis fst_conv)
  with more_clients [OF acct_body_more [OF tx]] xs(1) b show ?thesis by (simp add: barred_def)
next
  case (CProject tk workspace name kind)
  with assms(1) obtain p where "create_project_tx lib cfg c tk workspace name kind db = Inr (p, db')" by auto
  from create_projectD [OF this] b show ?thesis by (auto intro: barred_same simp: address_book_def)
next
  case (CInvite origin signup tk p e)
  with assms(1) obtain i where "invite_client_tx lib origin c signup tk p e db = Inr (i, db')" by auto
  from invite_clientD [OF this] b t CInvite show ?thesis
    by (auto simp: barred_def readmits_def address_book_def dest: pending_after_revoke)
next
  case (CRevoke tk p ident)
  with assms(1) have "revoke_client_tx lib c tk p ident db = Inr (r, db')" by simp
  from revoke_clientD [OF this] b show ?thesis by (auto simp: barred_def address_book_def dest: pending_after_revoke)
next
  case (CAccept tk secret)
  with assms(1) obtain x where "accept_client_tx lib c tk secret db = Inr (x, db')" by auto
  from accept_clientD [OF this] obtain u i n where
    u: "session_user lib (cl_now c 0) tk db = Some u" and i: "i \<in> set (client_invitations db)" "ci_pending i" "ci_email i = u_email u"
    and eff: "project_clients db' = add_client (ci_project i) (u_id u) n (project_clients db)"
      "client_invitations db' = upd_row ci_id (ci_id i) (\<lambda>i. i\<lparr>ci_state := InviteAccepted\<rparr>) (client_invitations db)" "users db' = users db"
    by (auto simp: live_client_def ci_pending_def)
  from u have "u \<in> set (users db)" by (auto simp: session_user_def split: option.splits dest: find_SomeD)
  from book_member [OF this] i b have "(ci_project i, u_id u) \<noteq> (project, user)" by (auto simp: barred_def ci_target_def)
  moreover have "\<not> ci_pending j" if "j \<in> set (client_invitations db')" "ci_target j = (project, email)" for j
  proof -
    from that(1) have "j \<in> (\<lambda>q. if ci_id q = ci_id i then q\<lparr>ci_state := InviteAccepted\<rparr> else q) ` set (client_invitations db)"
      by (simp add: eff(2) set_upd_row)
    then obtain q where q: "q \<in> set (client_invitations db)" "j = (if ci_id q = ci_id i then q\<lparr>ci_state := InviteAccepted\<rparr> else q)" by blast
    show ?thesis
    proof (cases "ci_id q = ci_id i")
      case True
      with q(2) show ?thesis by (simp add: ci_pending_def)
    next
      case False
      with q that(2) b show ?thesis by (simp add: barred_def)
    qed
  qed
  ultimately show ?thesis using b eff by (auto simp: barred_def address_book_def dest: set_add_client)
next
  case (CChange tk p e grant)
  with assms(1) have "change_client_tx lib c tk p e grant db = Inr (r, db')" by simp
  from change_clientD [OF this] obtain u where u: "u \<in> set (users db)" "u_email u = e"
    and inv: "client_invitations db' = revoke_clients (\<lambda>i. ci_project i = p \<and> ci_email i = e) (client_invitations db)" "users db' = users db"
    and cs: "if grant then project_clients db' = project_clients db \<or> project_clients db' = add_client p (u_id u) (cl_now c 2) (project_clients db)
       else project_clients db' = filter (\<lambda>q. pc_key q \<noteq> (p, u_id u)) (project_clients db)"
    by (auto split: if_splits)
  have "pc_key q \<noteq> (project, user)" if "q \<in> set (project_clients db')" for q
  proof
    assume k: "pc_key q = (project, user)"
    with b have "q \<notin> set (project_clients db)" by (auto simp: barred_def)
    with that cs have "grant" "pc_key q = (p, u_id u)" by (auto split: if_splits dest: set_add_client)
    with k book_member [OF u(1)] b u(2) have "p = project" "e = email" by (auto simp: barred_def)
    with t CChange \<open>grant\<close> show False by (simp add: readmits_def)
  qed
  with inv b show ?thesis by (auto simp: barred_def address_book_def dest: pending_after_revoke)
next
  case MLease
  with assms(1) obtain x where "lease_mail_tx c db = Inr (x, db')" by auto
  from lease_mailD [OF this] more_clients [of db' db] b show ?thesis by (auto intro: barred_same simp: address_book_def)
next
  case (MFinish q lease state next')
  with assms(1) obtain rows where "db' = db\<lparr>mail_outbox := rows\<rparr>" by (auto simp: finish_mail_tx_def)
  with b show ?thesis by (simp add: barred_def address_book_def)
next
  case (MSent q lease)
  with assms(1) obtain rows where "db' = db\<lparr>mail_outbox := rows\<rparr>" by (auto simp: sent_mail_tx_def)
  with b show ?thesis by (simp add: barred_def address_book_def)
qed

lemma run_barred:
  assumes "barred (project, user, email) db" and "\<forall>i \<in> set is. \<not> readmits project email (snd i)"
  shows "barred (project, user, email) (client_run lib cfg is db)"
proof (rule run_ops_preserves_set)
  fix i and d :: "'a client_db_scheme"
  assume i: "i \<in> set is" "barred (project, user, email) d"
  show "barred (project, user, email) (snd (client_exec lib cfg i d))"
    unfolding client_exec_def
    by (rule in_tx_invariant [where P = "barred (project, user, email)"]) (use i assms(2) body_barred in blast)+
qed (rule assms(1))

section \<open>Settled mail\<close>

text \<open>Every row of the message is settled and no lease names it.\<close>

definition settled :: "string \<Rightarrow> 'x accounts_db_scheme \<Rightarrow> bool" where
  "settled ident db \<longleftrightarrow>
     ident \<in> ml_id ` set (mail_outbox db)
     \<and> (\<forall>r \<in> set (mail_outbox db). ml_id r = ident \<longrightarrow> ml_state r \<noteq> MailPending \<and> ml_lease r = [])"

text \<open>The tokens that serve as leases are not empty.\<close>

definition proper_lease :: "call \<times> client_tx \<Rightarrow> bool" where
  "proper_lease i \<longleftrightarrow> (case snd i of MFinish _ lease _ _ \<Rightarrow> lease \<noteq> [] | MSent _ lease \<Rightarrow> lease \<noteq> [] | _ \<Rightarrow> True)"

text \<open>How the outbox may change without touching a settled message.\<close>

lemma settled_same: "settled ident db \<Longrightarrow> mail_outbox db' = mail_outbox db \<Longrightarrow> settled ident db'"
  by (simp add: settled_def)

lemma settled_append:
  "settled ident db \<Longrightarrow> mail_outbox db' = mail_outbox db @ [row] \<Longrightarrow> ml_id row \<notin> ml_id ` set (mail_outbox db) \<Longrightarrow> settled ident db'"
  by (auto simp: settled_def)

lemma settled_map:
  assumes "settled ident db" and "mail_outbox db' = map g (mail_outbox db)"
    and "\<And>q. ml_id (g q) = ml_id q" and "\<And>q. q \<in> set (mail_outbox db) \<Longrightarrow> ml_id q = ident \<Longrightarrow> g q = q"
  shows "settled ident db'"
proof -
  have "ml_id ` set (mail_outbox db') = ml_id ` set (mail_outbox db)"
    by (simp add: assms(2,3) image_image)
  moreover have "ml_state r \<noteq> MailPending \<and> ml_lease r = []" if r: "r \<in> set (mail_outbox db')" "ml_id r = ident" for r
  proof -
    from r(1) obtain q where q: "q \<in> set (mail_outbox db)" "r = g q" by (auto simp: assms(2))
    with assms(3) [of q] r(2) have "ml_id q = ident" by simp
    with assms(4) [OF q(1)] q assms(1) show ?thesis by (simp add: settled_def)
  qed
  ultimately show ?thesis using assms(1) by (simp add: settled_def)
qed

lemma settled_settle:
  assumes "settled ident db" and "mail_outbox db' = settle_mail k lease f (mail_outbox db)" and "\<forall>q. ml_id (f q) = ml_id q" and "lease \<noteq> []"
  shows "settled ident db'"
  using assms(2) unfolding settle_mail_def
  by (rule settled_map [OF assms(1)]) (use assms in \<open>auto simp: settled_def\<close>)

lemma due_mail_first:
  assumes "due_mail now rows = r # rest"
  shows "r \<in> set rows" "ml_state r = MailPending" "ml_next r \<le> now" "ml_until r \<le> now"
proof -
  from assms have "r \<in> set (due_mail now rows)" by simp
  then show "r \<in> set rows" "ml_state r = MailPending" "ml_next r \<le> now" "ml_until r \<le> now" by (auto simp: due_mail_def)
qed

lemma lease_picks:
  assumes "lease_mail_tx c db = Inr (Some r, db')"
  shows "r \<in> set (mail_outbox db)" "ml_state r = MailPending" "ml_next r \<le> cl_now c 0" "ml_until r \<le> cl_now c 0"
  using assms due_mail_first [of "cl_now c 0" "mail_outbox db"] by (auto simp: lease_mail_tx_def split: list.splits)

lemma acct_outbox:
  assumes "acct_body lib c t db = Inr (r, db')"
  shows "mail_outbox db' = mail_outbox db \<or> (\<exists>row. mail_outbox db' = mail_outbox db @ [row] \<and> ml_id row \<notin> ml_id ` set (mail_outbox db))"
proof -
  have mail: "\<exists>row. mail_outbox d' = mail_outbox d @ [row] \<and> ml_id row \<notin> ml_id ` set (mail_outbox d)"
    if "enqueue lib origin c n user email token purpose k d = Inr d'" for origin n user email token purpose k and d d' :: "'a accounts_db_scheme"
    using that by (auto simp: enqueue_def Let_def insert_row_Inr)
  have aud: "mail_outbox d' = mail_outbox d" if "audit i a w x n d = Inr d'" for i a w x n and d d' :: "'a accounts_db_scheme"
    using auditD [OF that] by auto
  show ?thesis
  proof (cases t)
    case (TRegister live queue email salt hash workspace)
    with assms show ?thesis
      by (cases queue) (auto simp: register_tx_def Let_def dest!: aud mail)
  next
    case (TVerify token)
    with assms show ?thesis by (auto simp: verify_tx_def Let_def dest!: aud)
  next
    case (TSession ident expected)
    with assms show ?thesis by (auto simp: session_tx_def Let_def dest!: aud)
  next
    case (TLogout token)
    with assms show ?thesis by (auto simp: logout_tx_def)
  next
    case (TRequestReset queue email)
    with assms show ?thesis
      by (cases queue) (auto simp: request_reset_tx_def Let_def dest!: mail split: option.splits)
  next
    case (TReset token user salt hash)
    with assms show ?thesis by (auto simp: reset_tx_def Let_def dest!: aud)
  next
    case (TChangeMember token workspace target role)
    with assms show ?thesis by (auto simp: change_member_tx_def Let_def dest!: aud split: if_splits)
  next
    case (TInvite origin token workspace email role)
    with assms show ?thesis by (auto simp: invite_tx_def Let_def dest!: aud mail)
  next
    case (TRevoke token workspace ident)
    with assms show ?thesis by (auto simp: revoke_tx_def Let_def dest!: aud)
  next
    case (TAccept token secret)
    with assms show ?thesis by (auto simp: accept_tx_def Let_def dest!: aud)
  qed
qed

lemma body_settled:
  assumes "client_body lib cfg c t db = Inr (r, db')" and b: "settled ident db" and p: "proper_lease (c, t)"
  shows "settled ident db'"
proof (cases t)
  case (CAccount a)
  with assms(1) have "acct_body lib c a db = Inr (r, db')" by simp
  from acct_outbox [OF this] show ?thesis using settled_same [OF b] settled_append [OF b] by blast
next
  case (CProject tk workspace name kind)
  with assms(1) obtain x where "create_project_tx lib cfg c tk workspace name kind db = Inr (x, db')" by auto
  from create_projectD [OF this] show ?thesis using settled_same [OF b] by blast
next
  case (CInvite origin signup tk p e)
  with assms(1) obtain i where "invite_client_tx lib origin c signup tk p e db = Inr (i, db')" by auto
  from invite_clientD [OF this] show ?thesis using settled_append [OF b] by blast
next
  case (CRevoke tk p ident')
  with assms(1) have "revoke_client_tx lib c tk p ident' db = Inr (r, db')" by simp
  from revoke_clientD [OF this] show ?thesis using settled_same [OF b] by blast
next
  case (CAccept tk secret)
  with assms(1) obtain x where "accept_client_tx lib c tk secret db = Inr (x, db')" by auto
  from accept_clientD [OF this] show ?thesis using settled_same [OF b] by blast
next
  case (CChange tk p e grant)
  with assms(1) have "change_client_tx lib c tk p e grant db = Inr (r, db')" by simp
  from change_clientD [OF this] show ?thesis using settled_same [OF b] by blast
next
  case MLease
  with assms(1) obtain x where x: "lease_mail_tx c db = Inr (x, db')" by auto
  show ?thesis
  proof (cases x)
    case None
    with lease_mailD [OF x] have "mail_outbox db' = mail_outbox db" by simp
    with b show ?thesis by (rule settled_same)
  next
    case (Some q)
    with lease_picks x b have q: "ml_id q \<noteq> ident" by (metis settled_def)
    let ?g = "\<lambda>w. if ml_id w = ml_id q then w\<lparr>ml_lease := cl_token c 0, ml_until := cl_now c 0 + 60, ml_attempts := ml_attempts w + 1\<rparr> else w"
    from lease_mailD [OF x] Some have "mail_outbox db' = map ?g (mail_outbox db)" by (simp add: upd_row_def)
    then show ?thesis by (rule settled_map [OF b]) (use q in auto)
  qed
next
  case (MFinish q lease state next')
  with assms(1) have "finish_mail_tx q lease state next' db = Inr (r, db')" by simp
  from finish_mailD [OF this] obtain f where
    f: "mail_outbox db' = settle_mail (ml_id q) lease f (mail_outbox db)" "\<forall>w. ml_id (f w) = ml_id w" by blast
  from p MFinish have "lease \<noteq> []" by (simp add: proper_lease_def)
  with settled_settle [OF b f] show ?thesis .
next
  case (MSent q lease)
  with assms(1) have "sent_mail_tx q lease db = Inr (r, db')" by simp
  from sent_mailD [OF this] obtain f where
    f: "mail_outbox db' = settle_mail (ml_id q) lease f (mail_outbox db)" "\<forall>w. ml_id (f w) = ml_id w" by blast
  from p MSent have "lease \<noteq> []" by (simp add: proper_lease_def)
  with settled_settle [OF b f] show ?thesis .
qed

lemma run_settled:
  assumes "settled ident db" and "\<forall>i \<in> set is. proper_lease i"
  shows "settled ident (client_run lib cfg is db)"
proof (rule run_ops_preserves_set)
  fix i and d :: "'a client_db_scheme"
  assume i: "i \<in> set is" "settled ident d"
  show "settled ident (snd (client_exec lib cfg i d))"
    unfolding client_exec_def
    by (rule in_tx_invariant [where P = "settled ident"]) (use i assms(2) body_settled [of lib cfg "fst i" "snd i"] in auto)
qed (rule assms(1))

text \<open>What a delivery that used the sender had leased.\<close>

lemma deliverOne_sent:
  assumes "deliverOne lib cfg c (Some de) mid others db = (x, Some m, db')"
  shows "\<exists>r db1 data. lease_mail_tx c db = Inr (Some r, db1) \<and> mail_valid (cl_now c 0) r (client_run lib cfg mid db1)
    \<and> mail_ID m = ml_id r \<and> de_open de (ml_payload r) (ml_id r) = Some data \<and> de_decode de data = Some m"
proof -
  obtain q db1 where tx: "in_tx (cl_drv c) (lease_mail_tx c) db = (q, db1)" by fastforce
  with assms obtain r where q: "q = Inr (Some r)"
    by (cases q) (auto simp: deliverOne_def split: option.splits)
  with tx have leased: "lease_mail_tx c db = Inr (Some r, db1)" by (simp add: in_tx_Inr_iff)
  let ?db = "client_run lib cfg mid db1"
  from assms tx q have "fst (snd (deliver_leased lib cfg de (cl_now c 0) r (cl_token c 0) others ?db)) = Some m"
    by (auto simp: deliverOne_def split: prod.splits sum.splits)
  then have "mail_verdict de (cl_now c 0) r ?db = Deliver m"
    by (auto simp: deliver_leased_def split: option.splits verdict.splits prod.splits sum.splits)
  with leased show ?thesis
    by (auto simp: mail_verdict_def split: if_splits option.splits)
qed

section \<open>Properties\<close>

text \<open>
  The tables of clients stay consistent over every history of account, project, client and mail transactions:
  a project has at most twenty clients and a client at most one grant per project, invitations have
  distinct identifiers and token hashes, and at most one invitation per project and address is pending.
\<close>
theorem client_tables_consistent:
  assumes "clients_ok db"
  shows "clients_ok (run_ops (client_exec lib cfg) is db)"
  by (rule cl.run_inv [OF assms])

text \<open>
  C24: A client invitation admits its addressee once, and only to see. Whoever accepts one is signed in with the
  verified address it was sent to, the inviter still owns the workspace of the project and the project is not being deleted;
  the acceptance grants exactly that project, adds no membership, and after any further history nobody can accept
  the same token again.
\<close>
theorem client_invitation_admits_once:
  assumes "clients_ok db" and "accept_client_tx lib c token secret db = Inr (project, db')"
    and "lib_digest lib secret' = lib_digest lib secret"
  shows "(\<exists>u i. session_user lib (cl_now c 0) token db = Some u \<and> i \<in> set (client_invitations db) \<and> ci_project i = project
            \<and> ci_email i = u_email u \<and> live_client (lib_digest lib secret) (cl_now c 1) db i
            \<and> (project, u_id u) \<in> pc_key ` set (project_clients db')
            \<and> (\<forall>q \<in> set (project_clients db'). q \<in> set (project_clients db) \<or> pc_key q = (project, u_id u)))
       \<and> memberships db' = memberships db
       \<and> (\<exists>e. fst (client_exec lib cfg (c', CAccept token' secret') (run_ops (client_exec lib cfg) is db')) = Inl e)"
proof -
  from accept_clientD [OF assms(2)] obtain u i where u: "session_user lib (cl_now c 0) token db = Some u"
    and i: "i \<in> set (client_invitations db)" "live_client (lib_digest lib secret) (cl_now c 1) db i" "ci_email i = u_email u" "project = ci_project i"
    and cs: "project_clients db' = add_client (ci_project i) (u_id u) (cl_now c 2) (project_clients db)"
    and inv: "client_invitations db' = upd_row ci_id (ci_id i) (\<lambda>i. i\<lparr>ci_state := InviteAccepted\<rparr>) (client_invitations db)"
    and ms: "memberships db' = memberships db" by blast
  have "client_body lib cfg c (CAccept token secret) db = Inr ((), db')" using assms(2) by (simp add: drop_value_def seq_simps)
  from body_clients_ok [OF this assms(1)] have "clients_ok db'" .
  moreover have "i\<lparr>ci_state := InviteAccepted\<rparr> \<in> set (client_invitations db')" using i(1) by (force simp: inv set_upd_row)
  ultimately have "client_spent (lib_digest lib secret) db'"
    using i(2) unfolding client_spent_def
    by (intro conjI bexI [of _ "i\<lparr>ci_state := InviteAccepted\<rparr>"]) (simp_all add: live_client_def ci_pending_def)
  from cspent.run_blocked [OF this, of lib "(c', CAccept token' secret')"] assms(3)
  have "\<exists>e. fst (client_exec lib cfg (c', CAccept token' secret') (run_ops (client_exec lib cfg) is db')) = Inl e"
    by (simp add: accepts_with_def)
  moreover have "(project, u_id u) \<in> pc_key ` set (project_clients db')"
    using i(4) add_client_key by (simp add: cs)
  moreover have "\<forall>q \<in> set (project_clients db'). q \<in> set (project_clients db) \<or> pc_key q = (project, u_id u)"
    using i(4) cs by (auto dest: set_add_client)
  ultimately show ?thesis using u i ms by blast
qed

text \<open>
  C25: A removed client is shut out. After an owner removed the client with some address from a project, and as long as nobody
  grants or invites that address to the project again, no session of the account lists the project among
  its shared websites, whatever else happens, and pending invitations to the address cannot bring it back.
\<close>
theorem removed_client_is_shut_out:
  assumes "change_client_tx lib c token project email False db = Inr (r, db')" and "users_ok (users db)"
    and "u \<in> set (users db)" and "u_email u = email"
    and "\<forall>i \<in> set is. \<not> readmits project email (snd i)"
    and "session_user lib (cl_now c2 0) token2 (run_ops (client_exec lib cfg) is db') = Some v" and "u_id v = u_id u"
    and "sharedWebsites lib c2 published domain token2 (run_ops (client_exec lib cfg) is db') = Inr sites"
  shows "project \<notin> sw_ID ` set sites"
proof -
  let ?after = "client_run lib cfg is db'"
  from change_clientD [OF assms(1)] obtain w where w: "w \<in> set (users db)" "u_email w = email"
    and eff: "client_invitations db' = revoke_clients (\<lambda>i. ci_project i = project \<and> ci_email i = email) (client_invitations db)"
      "users db' = users db" "project_clients db' = filter (\<lambda>q. pc_key q \<noteq> (project, u_id w)) (project_clients db)" by auto
  from assms(2) have inj: "inj_on u_id (set (users db))" "inj_on u_email (set (users db))" by (simp_all add: users_ok_def distinct_map)
  from inj_onD [OF inj(2) _ w(1) assms(3)] w(2) assms(4) have "w = u" by simp
  have one: "e = email" if "(u_id u, e) \<in> set (address_book db)" for e
  proof -
    from that obtain y where "y \<in> set (users db)" "u_id y = u_id u" "u_email y = e" by (auto simp: address_book_def)
    with inj_onD [OF inj(1) _ _ assms(3)] assms(4) show ?thesis by metis
  qed
  have book: "address_book db' = address_book db" by (simp add: address_book_def eff(2))
  have "\<not> ci_pending i" if "i \<in> set (client_invitations db')" "ci_target i = (project, email)" for i
    using pending_after_revoke [OF that(1) [unfolded eff(1)]] that(2) by (auto simp: ci_target_def)
  moreover have "(u_id u, email) \<in> set (address_book db')" using book_member [OF assms(3)] assms(4) book by simp
  moreover have "\<forall>q \<in> set (project_clients db'). pc_key q \<noteq> (project, u_id u)" using eff(3) \<open>w = u\<close> by simp
  moreover have "\<forall>e. (u_id u, e) \<in> set (address_book db') \<longrightarrow> e = email" using one unfolding book by blast
  ultimately have "barred (project, u_id u, email) db'" unfolding barred_def by blast
  from run_barred [OF this assms(5)] have "\<forall>q \<in> set (project_clients ?after). pc_key q \<noteq> (project, u_id u)"
    by (simp add: barred_def)
  with assms(6-8) show ?thesis
    by (auto simp: sharedWebsites_def seq_simps pc_key_def split: option.splits)
qed

text \<open>
  C26: Mail goes out only while it is still wanted. When a delivery hands a message to the sender, the message
  is the one the oldest due pending row carries, and at the check the token was still good: an invitation whose inviter still owns
  the workspace (for a client invitation, of a project that is not being deleted), or an
  unexpired verification or reset of an account that is not disabled.
\<close>
theorem mail_is_sent_only_while_wanted:
  assumes "deliverOne lib cfg c (Some de) mid others db = (x, Some m, db')"
  shows "\<exists>r db1. r \<in> set (mail_outbox db) \<and> ml_state r = MailPending \<and> ml_next r \<le> cl_now c 0 \<and> ml_until r \<le> cl_now c 0
       \<and> lease_mail_tx c db = Inr (Some r, db1)
       \<and> mail_valid (cl_now c 0) r (run_ops (client_exec lib cfg) mid db1)
       \<and> mail_ID m = ml_id r
       \<and> (\<exists>data. de_open de (ml_payload r) (ml_id r) = Some data \<and> de_decode de data = Some m)"
  using deliverOne_sent [OF assms] lease_picks by blast

text \<open>
  C27: A settled message is never sent again. Once a message was sent, discarded or given up, then after any
  history of transactions whose leases are not empty, no delivery hands it to the sender.
\<close>
theorem settled_mail_is_final:
  assumes "settled ident db" and "\<forall>i \<in> set is. proper_lease i"
    and "deliverOne lib cfg c (Some de) mid others (run_ops (client_exec lib cfg) is db) = (x, Some m, db')"
  shows "mail_ID m \<noteq> ident"
proof -
  from deliverOne_sent [OF assms(3)] obtain r db1 where
    r: "lease_mail_tx c (client_run lib cfg is db) = Inr (Some r, db1)" "mail_ID m = ml_id r" by blast
  from lease_picks [OF r(1)] run_settled [OF assms(1,2)] r(2) show ?thesis by (metis settled_def)
qed

section \<open>Concrete clients\<close>

text \<open>The paid workspace of \<open>Portal_Hosting\<close>'s example: alice owns it and has invited carol; dave's message is settled.\<close>

definition cx_invitation :: client_invitation where
  "cx_invitation = \<lparr>ci_id = ''c1'', ci_hash = ''#s'', ci_project = ''p1'', ci_email = ''carol@x.eu'', ci_inviter = ''alice'',
     ci_expires = 1000, ci_state = InvitePending, ci_created = 1\<rparr>"

definition cx_mail :: "string \<Rightarrow> mail_state \<Rightarrow> mail_row" where
  "cx_mail ident state = \<lparr>ml_id = ident, ml_user = ''alice'', ml_hash = ''#s'', ml_purpose = ''client-invite'', ml_payload = ident, ml_state = state,
     ml_attempts = 0, ml_next = 1, ml_lease = [], ml_until = 0, ml_created = 1\<rparr>"

definition cx_db :: "project_client list \<Rightarrow> client_db" where
  "cx_db grants = hosting_db.extend (kx_db\<lparr>mail_outbox := [cx_mail ''m1'' MailPending, cx_mail ''m2'' MailSent]\<rparr>)
     (client_db.fields [cx_invitation] grants)"

definition cx_grant :: project_client where
  "cx_grant = \<lparr>pc_project = ''p1'', pc_user = ''carol'', pc_created = 2\<rparr>"

definition cx_delivery :: delivery where
  "cx_delivery = \<lparr>de_short = (\<lambda>_. False), de_open = (\<lambda>payload _. Some payload),
     de_decode = (\<lambda>d. Some \<lparr>mail_ID = d, mail_To = ''carol@x.eu'', mail_Subject = [], mail_Text = []\<rparr>),
     de_send = (\<lambda>_. Inr ()), de_check = None, de_finish = None\<rparr>"

lemmas cx_defs = cx_invitation_def cx_mail_def cx_db_def cx_grant_def cx_delivery_def client_db.defs hosting_db.defs kx_defs ax_defs

lemma cx_ok: "clients_ok (cx_db [cx_grant])" "clients_ok (cx_db [])"
  by (simp_all add: clients_ok_def client_invitations_ok_def grants_ok_def clients_of_def cx_defs)

theorem client_tables_consistent_witness:
  "clients_ok (run_ops (client_exec ax_lib kx_config) [(ax_call CHR ''x'', CAccept ''C'' ''s''), (ax_call CHR ''y'', MLease)] (cx_db []))"
  by (rule client_tables_consistent [OF cx_ok(2)])

lemma cx_accept: "\<exists>db'. accept_client_tx ax_lib (ax_call CHR ''x'') ''C'' ''s'' (cx_db []) = Inr (''p1'', db')"
  by (simp add: accept_client_tx_def session_user_def live_client_def get_member_def active_user_def clients_of_def audit_def insert_row_def
      seq_simps cx_defs)

theorem client_invitation_admits_once_witness:
  "\<exists>db'. accept_client_tx ax_lib (ax_call CHR ''x'') ''C'' ''s'' (cx_db []) = Inr (''p1'', db') \<and> memberships db' = memberships (cx_db [])
     \<and> (\<exists>e. fst (client_exec ax_lib kx_config (ax_call CHR ''y'', CAccept ''C'' ''s'')
              (run_ops (client_exec ax_lib kx_config) [(ax_call CHR ''z'', MLease)] db')) = Inl e)"
proof -
  obtain db' where a: "accept_client_tx ax_lib (ax_call CHR ''x'') ''C'' ''s'' (cx_db []) = Inr (''p1'', db')" using cx_accept by blast
  from client_invitation_admits_once [OF cx_ok(2) a refl] a show ?thesis by blast
qed

lemma cx_remove: "\<exists>db'. change_client_tx ax_lib (ax_call CHR ''x'') ''A'' ''p1'' ''carol@x.eu'' False (cx_db [cx_grant]) = Inr ((), db')
    \<and> users db' = users (cx_db []) \<and> sessions db' = sessions (cx_db []) \<and> project_clients db' = []"
  by (simp add: change_client_tx_def projectClientOwner_def uploadProject_def authorizeOwner_def authorize_def session_user_def get_member_def
      active_user_def audit_def insert_row_def pc_key_def Let_def seq_simps cx_defs)

theorem removed_client_is_shut_out_witness:
  "\<exists>db' sites. change_client_tx ax_lib (ax_call CHR ''x'') ''A'' ''p1'' ''carol@x.eu'' False (cx_db [cx_grant]) = Inr ((), db')
     \<and> sharedWebsites ax_lib (ax_call CHR ''y'') (\<lambda>_. True) (\<lambda>_. []) ''C'' db' = Inr sites \<and> ''p1'' \<notin> sw_ID ` set sites"
proof -
  obtain db' where d: "change_client_tx ax_lib (ax_call CHR ''x'') ''A'' ''p1'' ''carol@x.eu'' False (cx_db [cx_grant]) = Inr ((), db')"
    "users db' = users (cx_db [])" "sessions db' = sessions (cx_db [])" "project_clients db' = []" using cx_remove by blast
  have u: "users_ok (users (cx_db [cx_grant]))" "ax_user ''carol'' \<in> set (users (cx_db [cx_grant]))" "u_email (ax_user ''carol'') = ''carol@x.eu''"
    by (simp_all add: users_ok_def cx_defs)
  have run: "run_ops (client_exec ax_lib kx_config) [] db' = db'" by simp
  have v: "session_user ax_lib (cl_now (ax_call CHR ''y'') 0) ''C'' (run_ops (client_exec ax_lib kx_config) [] db') = Some (ax_user ''carol'')"
    unfolding run session_user_def d(2,3) by (simp add: active_user_def cx_defs)
  have s: "sharedWebsites ax_lib (ax_call CHR ''y'') (\<lambda>_. True) (\<lambda>_. []) ''C'' (run_ops (client_exec ax_lib kx_config) [] db') = Inr []"
    using v unfolding run by (simp add: sharedWebsites_def d(4) seq_simps ax_call_def)
  from removed_client_is_shut_out [OF d(1) u _ v refl s] s d(1) show ?thesis unfolding run by auto
qed

lemma cx_deliver: "\<exists>x m db'. deliverOne ax_lib kx_config (ax_call CHR ''x'') (Some cx_delivery) [] [] (cx_db []) = (x, Some m, db')"
  by (simp add: deliverOne_def deliver_leased_def mail_verdict_def lease_mail_tx_def due_mail_def mail_valid_def live_client_def in_tx_def
      with_tx_def sent_mail_tx_def settle_mail_def active_user_def cx_defs)

theorem mail_is_sent_only_while_wanted_witness:
  "\<exists>x m db' r. deliverOne ax_lib kx_config (ax_call CHR ''x'') (Some cx_delivery) [] [] (cx_db []) = (x, Some m, db')
     \<and> r \<in> set (mail_outbox (cx_db [])) \<and> mail_ID m = ml_id r"
proof -
  obtain x m db' where d: "deliverOne ax_lib kx_config (ax_call CHR ''x'') (Some cx_delivery) [] [] (cx_db []) = (x, Some m, db')"
    using cx_deliver by blast
  from mail_is_sent_only_while_wanted [OF d] d show ?thesis by blast
qed

lemma cx_settled: "settled ''m2'' (cx_db [])"
  by (simp add: settled_def cx_defs)

theorem settled_mail_is_final_witness:
  "\<exists>x m db'. deliverOne ax_lib kx_config (ax_call CHR ''x'') (Some cx_delivery) [] [] (cx_db []) = (x, Some m, db') \<and> mail_ID m \<noteq> ''m2''"
proof -
  obtain x m db' where d: "deliverOne ax_lib kx_config (ax_call CHR ''x'') (Some cx_delivery) [] [] (cx_db []) = (x, Some m, db')"
    using cx_deliver by blast
  then have "deliverOne ax_lib kx_config (ax_call CHR ''x'') (Some cx_delivery) [] [] (run_ops (client_exec ax_lib kx_config) [] (cx_db []))
    = (x, Some m, db')" by simp
  from settled_mail_is_final [OF cx_settled _ this] d show ?thesis by auto
qed

end
