(* ===== verification/Portal_Merchant.thy ===== *)
theory Portal_Merchant
  imports Go_Path Billing_Provider
begin

text \<open>
  \<open>internal/portal\<close>, the shop of a workspace: \<open>merchant_accounts.go\<close>, \<open>merchant_onboarding.go\<close>,
  \<open>merchant_products.go\<close>, \<open>merchant_orders.go\<close>, \<open>merchant_fulfillment.go\<close>, \<open>merchant_refunds.go\<close>,
  \<open>merchant_buyer_sessions.go\<close>, \<open>merchant_order_recovery.go\<close> and the events of \<open>merchant_events.go\<close>: the
  tables, and every transaction on them. The calls that talk to the payment provider are in \<open>Merchant_Calls\<close>.
\<close>

section \<open>Tables\<close>

text \<open>\<open>merchantbilling.Account\<close>, \<open>Checkout\<close>, \<open>Refund\<close> and \<open>CheckoutEvent\<close>: what the provider says.\<close>

record connect_account =
  ca_ID :: string
  ca_Country :: string
  ca_RequestID :: string
  ca_DetailsSubmitted :: bool
  ca_ChargesEnabled :: bool
  ca_PayoutsEnabled :: bool
  ca_CardPayments :: string
  ca_ObservedAt :: int

record checkout =
  ck_ID :: string
  ck_URL :: string
  ck_State :: string
  ck_PaymentStatus :: string
  ck_PaymentIntentID :: string
  ck_ObservedAt :: int

record refund =
  rf_ID :: string
  rf_State :: string
  rf_ObservedAt :: int

record checkout_event =
  ev_Live :: bool
  ev_ID :: string
  ev_AccountID :: string
  ev_OrderID :: string
  ev_SessionID :: string
  ev_RefundRequestID :: string
  ev_RefundID :: string
  ev_PaymentIntentID :: string
  ev_Type :: string
  ev_SHA256 :: string
  ev_Created :: int

text \<open>The rows; a nullable column is an option. The Go structs are these rows without the mode and the fences.\<close>

record merchant_account =
  ma_mode :: string
  ma_workspace :: string
  ma_request :: string
  ma_actor :: string
  ma_country :: string
  ma_state :: string
  ma_account :: "string option"
  ma_created :: int
  ma_submitted :: int
  ma_snapshot :: "connect_account option"
  ma_generation :: int

record merchant_product =
  mp_mode :: string
  mp_id :: string
  mp_workspace :: string
  mp_key :: string
  mp_name :: string
  mp_currency :: string
  mp_amount :: int
  mp_active :: bool
  mp_revision :: int
  mp_created :: int
  mp_updated :: int

record merchant_order =
  mo_mode :: string
  mo_id :: string
  mo_workspace :: string
  mo_product :: string
  mo_product_revision :: int
  mo_buyer :: string
  mo_key :: string
  mo_account :: string
  mo_name :: string
  mo_currency :: string
  mo_amount :: int
  mo_state :: string
  mo_payment :: string
  mo_session :: "string option"
  mo_url :: string
  mo_intent :: string
  mo_created :: int
  mo_submitted :: int
  mo_generation :: int
  mo_observed :: int
  mo_fulfilled_at :: int
  mo_fulfilled_by :: string

record merchant_refund =
  mr_mode :: string
  mr_id :: string
  mr_order :: string
  mr_workspace :: string
  mr_actor :: string
  mr_account :: string
  mr_intent :: string
  mr_currency :: string
  mr_amount :: int
  mr_state :: string
  mr_provider :: "string option"
  mr_created :: int
  mr_submitted :: int
  mr_observed :: int
  mr_generation :: int

record merchant_event =
  me_mode :: string
  me_id :: string
  me_account :: string
  me_order :: string
  me_session :: string
  me_type :: string
  me_hash :: string
  me_state :: string
  me_created :: int
  me_received :: int
  me_next :: int
  me_refund_request :: string
  me_refund :: string

record buyer_session =
  bu_mode :: string
  bu_hash :: string
  bu_expires :: int

record recovery_code =
  rc_mode :: string
  rc_order :: string
  rc_hash :: string
  rc_expires :: int

record recovery_grant =
  rg_mode :: string
  rg_order :: string
  rg_session :: string
  rg_created :: int

record merchant_db = accounts_db +
  merchant_accounts :: "merchant_account list"
  merchant_products :: "merchant_product list"
  merchant_orders :: "merchant_order list"
  merchant_refunds :: "merchant_refund list"
  merchant_events :: "merchant_event list"
  buyer_sessions :: "buyer_session list"
  recovery_codes :: "recovery_code list"
  recovery_grants :: "recovery_grant list"

text \<open>The keys of the schema of \<open>merchant_modes.go\<close>.\<close>

definition ma_key :: "merchant_account \<Rightarrow> string \<times> string" where
  "ma_key a = (ma_mode a, ma_workspace a)"
definition ma_req :: "merchant_account \<Rightarrow> string \<times> string" where
  "ma_req a = (ma_mode a, ma_request a)"
definition mp_ident :: "merchant_product \<Rightarrow> string \<times> string" where
  "mp_ident p = (mp_mode p, mp_id p)"
definition mp_req :: "merchant_product \<Rightarrow> string \<times> string \<times> string" where
  "mp_req p = (mp_mode p, mp_workspace p, mp_key p)"
definition mo_ident :: "merchant_order \<Rightarrow> string \<times> string" where
  "mo_ident q = (mo_mode q, mo_id q)"
definition mo_req :: "merchant_order \<Rightarrow> string \<times> string \<times> string" where
  "mo_req q = (mo_mode q, mo_buyer q, mo_key q)"
definition mr_ident :: "merchant_refund \<Rightarrow> string \<times> string" where
  "mr_ident r = (mr_mode r, mr_id r)"
definition mr_of :: "merchant_refund \<Rightarrow> string \<times> string" where
  "mr_of r = (mr_mode r, mr_order r)"
definition me_ident :: "merchant_event \<Rightarrow> string \<times> string" where
  "me_ident e = (me_mode e, me_id e)"
definition bu_ident :: "buyer_session \<Rightarrow> string \<times> string" where
  "bu_ident s = (bu_mode s, bu_hash s)"
definition rc_ident :: "recovery_code \<Rightarrow> string \<times> string" where
  "rc_ident r = (rc_mode r, rc_order r)"
definition rc_code :: "recovery_code \<Rightarrow> string \<times> string" where
  "rc_code r = (rc_mode r, rc_hash r)"
definition rg_ident :: "recovery_grant \<Rightarrow> string \<times> string \<times> string" where
  "rg_ident g = (rg_mode g, rg_order g, rg_session g)"

lemmas merchant_keys = ma_key_def ma_req_def mp_ident_def mp_req_def mo_ident_def mo_req_def mr_ident_def mr_of_def
  me_ident_def bu_ident_def rc_ident_def rc_code_def rg_ident_def

text \<open>
  The mode of the shop (\<open>s.merchantMode\<close> is the argument \<open>sm\<close>), and what comes from outside: \<open>url.Parse\<close>, and
  \<open>AddDate(1, 0, 0)\<close> in the calendar of the process.
\<close>

definition merchantModeValue :: "string \<Rightarrow> string" where
  "merchantModeValue sm = (if sm = ''live'' then ''live'' else ''test'')"

record merchant_lib =
  mk_url :: "string \<Rightarrow> parsed_url option"
  mk_fragment :: "string \<Rightarrow> bool"
  mk_year :: "int \<Rightarrow> int"

definition coalesce :: "string option \<Rightarrow> string" where
  "coalesce x = (case x of None \<Rightarrow> [] | Some s \<Rightarrow> s)"

section \<open>Identifiers\<close>

definition validMerchantCountry :: "string \<Rightarrow> bool" where
  "validMerchantCountry country \<longleftrightarrow> length country = 2 \<and> list_all (\<lambda>c. 65 \<le> byte_of c \<and> byte_of c \<le> 90) country"

definition validMerchantAccountID :: "string \<Rightarrow> bool" where
  "validMerchantAccountID ident \<longleftrightarrow>
     \<not> (length ident \<le> 5 \<or> length ident > 255 \<or> \<not> hasPrefix ident ''acct_'') \<and> list_all ident_char ident"

definition validMerchantOrderToken :: "string \<Rightarrow> bool" where
  "validMerchantOrderToken v \<longleftrightarrow> length v = 64 \<and> list_all lower_hex v"

definition validMerchantProviderID :: "string \<Rightarrow> string \<Rightarrow> bool" where
  "validMerchantProviderID v prefix \<longleftrightarrow>
     \<not> (\<not> hasPrefix v prefix \<or> length v \<le> length prefix \<or> length v > 255) \<and> list_all ident_char (drop (length prefix) v)"

definition session_prefix :: "string \<Rightarrow> string" where
  "session_prefix mode = (if mode = ''live'' then ''cs_live_'' else ''cs_test_'')"

section \<open>Accounts\<close>

text \<open>The count of the join of \<open>users\<close> and \<open>memberships\<close> that every dispatch compares with one.\<close>

definition one_owner :: "string \<Rightarrow> string \<Rightarrow> 'x accounts_db_scheme \<Rightarrow> bool" where
  "one_owner user ws db \<longleftrightarrow>
     length (concat (map (\<lambda>u. filter (\<lambda>m. mb_user m = u_id u \<and> mb_workspace m = ws \<and> mb_role m = ''owner'') (memberships db))
       (filter (\<lambda>u. u_id u = user \<and> active_user u) (users db)))) = 1"

definition request_account_tx ::
  "portal_lib \<Rightarrow> string \<Rightarrow> call \<Rightarrow> string \<Rightarrow> string \<Rightarrow> string \<Rightarrow> 'x merchant_db_scheme \<Rightarrow> (merchant_account \<times> 'x merchant_db_scheme) result" where
  "request_account_tx lib sm c token ws country db =
     (let mode = merchantModeValue sm in
      andThen (authorizeOwner lib (cl_now c 0) token ws db) (\<lambda>actor.
      case get_row ma_key (mode, ws) (merchant_accounts db) of
        Some a \<Rightarrow> andThen (guard ErrBillingConflict (ma_country a = country)) (\<lambda>_. Inr (a, db))
      | None \<Rightarrow>
          let a = \<lparr>ma_mode = mode, ma_workspace = ws, ma_request = cl_token c 0, ma_actor = actor, ma_country = country,
                   ma_state = ''requested'', ma_account = None, ma_created = cl_now c 1, ma_submitted = 0, ma_snapshot = None,
                   ma_generation = 0\<rparr>
          in andThen (insert_row ma_req a (merchant_accounts db)) (\<lambda>rows.
             andThen (audit (cl_token c 1) actor ws (''merchant_account.requested:'' @ ma_request a) (cl_now c 1)
                        (db\<lparr>merchant_accounts := rows\<rparr>)) (\<lambda>db1.
             Inr (a, db1)))))"

definition requestMerchantAccount ::
  "portal_lib \<Rightarrow> string \<Rightarrow> call \<Rightarrow> string \<Rightarrow> string \<Rightarrow> string \<Rightarrow> 'x merchant_db_scheme \<Rightarrow> merchant_account result \<times> 'x merchant_db_scheme" where
  "requestMerchantAccount lib sm c token ws country db =
     (if \<not> validMerchantCountry country then (Inl Portal_ErrInvalid, db)
      else in_tx (cl_drv c) (request_account_tx lib sm c token ws country) db)"

definition merchantAccount ::
  "portal_lib \<Rightarrow> string \<Rightarrow> call \<Rightarrow> string \<Rightarrow> string \<Rightarrow> 'x merchant_db_scheme \<Rightarrow> merchant_account result" where
  "merchantAccount lib sm c token ws db =
     (case cl_drv c of
        Some e \<Rightarrow> Inl e
      | None \<Rightarrow>
          andThen (authorizeOwner lib (cl_now c 0) token ws db) (\<lambda>_.
          some_or ErrDenied (get_row ma_key (merchantModeValue sm, ws) (merchant_accounts db))))"

text \<open>
  The transaction of \<open>DispatchMerchantAccount\<close>: either the account is bound already, or the
  request is marked submitted (\<open>Some\<close> of the time) and the provider is called next.
\<close>

definition submit_account_tx ::
  "string \<Rightarrow> call \<Rightarrow> string \<Rightarrow> 'x merchant_db_scheme \<Rightarrow> ((merchant_account \<times> int option) \<times> 'x merchant_db_scheme) result" where
  "submit_account_tx sm c request db =
     (let mode = merchantModeValue sm in
      andThen (some_or ErrDenied (get_row ma_req (mode, request) (merchant_accounts db))) (\<lambda>a.
      if ma_state a = ''bound'' then Inr ((a, None), db)
      else
        andThen (guard ErrBillingConflict (ma_state a = ''requested'')) (\<lambda>_.
        andThen (guard ErrDenied (one_owner (ma_actor a) (ma_workspace a) db)) (\<lambda>_.
        andThen (audit (cl_token c 0) (ma_actor a) (ma_workspace a) (''merchant_account.submitted:'' @ request) (cl_now c 0)
                   (db\<lparr>merchant_accounts := map (\<lambda>q. if ma_req q = (mode, request) \<and> ma_state q = ''requested''
                         then q\<lparr>ma_state := ''submitted'', ma_submitted := cl_now c 0\<rparr> else q) (merchant_accounts db)\<rparr>)) (\<lambda>db1.
        Inr ((a, Some (cl_now c 0)), db1))))))"

definition bind_account_tx ::
  "string \<Rightarrow> call \<Rightarrow> string \<Rightarrow> connect_account \<Rightarrow> 'x merchant_db_scheme \<Rightarrow> (merchant_account \<times> 'x merchant_db_scheme) result" where
  "bind_account_tx sm c request pa db =
     (let mode = merchantModeValue sm;
          hit = (\<lambda>q. ma_req q = (mode, request) \<and> ma_state q = ''submitted'' \<and> ma_account q = None);
          bind = (\<lambda>q. q\<lparr>ma_account := Some (ca_ID pa), ma_state := ''bound'', ma_snapshot := Some pa\<rparr>)
      in
      andThen (some_or ErrDenied (get_row ma_req (mode, request) (merchant_accounts db))) (\<lambda>a.
      if ma_state a = ''bound'' then
        andThen (guard ErrBillingConflict (coalesce (ma_account a) = ca_ID pa)) (\<lambda>_. Inr (a, db))
      else
        andThen (guard ErrBillingConflict (\<not> (ma_state a \<noteq> ''submitted'' \<or> ca_Country pa \<noteq> ma_country a
                   \<or> ca_ObservedAt pa < ma_submitted a \<or> ca_ObservedAt pa > cl_now c 0))) (\<lambda>_.
        andThen (guard ErrBillingConflict (filter (\<lambda>q. ma_mode q = mode \<and> ma_account q = Some (ca_ID pa) \<and> ma_request q \<noteq> request)
                   (merchant_accounts db) = [])) (\<lambda>_.
        andThen (guard ErrBillingConflict (length (filter hit (merchant_accounts db)) = 1)) (\<lambda>_.
        andThen (audit (cl_token c 0) (ma_actor a) (ma_workspace a) (''merchant_account.bound:'' @ request) (ca_ObservedAt pa)
                   (db\<lparr>merchant_accounts := map (\<lambda>q. if hit q then bind q else q) (merchant_accounts db)\<rparr>)) (\<lambda>db1.
        Inr (bind a, db1)))))))"

definition bindMerchantAccount ::
  "string \<Rightarrow> call \<Rightarrow> string \<Rightarrow> connect_account \<Rightarrow> 'x merchant_db_scheme \<Rightarrow> merchant_account result \<times> 'x merchant_db_scheme" where
  "bindMerchantAccount sm c request pa db =
     (if \<not> validMerchantAccountID (ca_ID pa) \<or> ca_Country pa = [] \<or> ca_RequestID pa \<noteq> request \<or> ca_ObservedAt pa \<le> 0
      then (Inl ErrBillingConflict, db)
      else in_tx (cl_drv c) (bind_account_tx sm c request pa) db)"

section \<open>Onboarding\<close>

record merchant_view =
  vw_State :: string
  vw_Country :: string
  vw_DetailsSubmitted :: bool
  vw_ChargesEnabled :: bool
  vw_PayoutsEnabled :: bool
  vw_CardPayments :: string
  vw_ObservedAt :: int
  vw_Stale :: bool

definition merchantStatus ::
  "portal_lib \<Rightarrow> string \<Rightarrow> call \<Rightarrow> string \<Rightarrow> string \<Rightarrow> 'x merchant_db_scheme \<Rightarrow> merchant_view result" where
  "merchantStatus lib sm c token ws db =
     (case cl_drv c of
        Some e \<Rightarrow> Inl e
      | None \<Rightarrow>
          andThen (authorizeOwner lib (cl_now c 0) token ws db) (\<lambda>_.
          let view = (\<lambda>state country. \<lparr>vw_State = state, vw_Country = country, vw_DetailsSubmitted = False, vw_ChargesEnabled = False,
                        vw_PayoutsEnabled = False, vw_CardPayments = [], vw_ObservedAt = 0, vw_Stale = True\<rparr>)
          in case get_row ma_key (merchantModeValue sm, ws) (merchant_accounts db) of
               None \<Rightarrow> Inr (view ''not_started'' [])
             | Some a \<Rightarrow>
                 (case ma_snapshot a of
                    None \<Rightarrow> Inr (view (ma_state a) (ma_country a))
                  | Some pa \<Rightarrow>
                      andThen (guard ErrBillingConflict (\<not> (ca_ID pa \<noteq> coalesce (ma_account a) \<or> ca_Country pa \<noteq> ma_country a
                                 \<or> ca_RequestID pa \<noteq> ma_request a))) (\<lambda>_.
                      Inr \<lparr>vw_State = ma_state a, vw_Country = ma_country a, vw_DetailsSubmitted = ca_DetailsSubmitted pa,
                           vw_ChargesEnabled = ca_ChargesEnabled pa, vw_PayoutsEnabled = ca_PayoutsEnabled pa,
                           vw_CardPayments = ca_CardPayments pa, vw_ObservedAt = ca_ObservedAt pa,
                           vw_Stale = (ca_ObservedAt pa \<le> 0 \<or> ca_ObservedAt pa > cl_now c 1 \<or> cl_now c 1 - ca_ObservedAt pa \<ge> 300)\<rparr>))))"

text \<open>\<open>merchantActionIntent\<close>: at most five requests to the provider a minute per owner, read off the audit log.\<close>

definition merchantActionIntent ::
  "call \<Rightarrow> string \<Rightarrow> string \<Rightarrow> string \<Rightarrow> 'x accounts_db_scheme \<Rightarrow> (string \<times> 'x accounts_db_scheme) result" where
  "merchantActionIntent c actor ws action db =
     (let now = cl_now c 1 in
      andThen (guard (PortalErr ErrMerchantRateLimited)
                 (length (filter (\<lambda>a. au_actor a = actor \<and> hasPrefix (au_action a) ''merchant.provider.'' \<and> au_at a \<ge> now - 60)
                    (audit_events db)) < 5)) (\<lambda>_.
      andThen (audit (cl_token c 1) actor ws (''merchant.provider.'' @ action @ '':'' @ cl_token c 0) now db) (\<lambda>db1.
      Inr (cl_token c 0, db1))))"

definition onboarding_tx ::
  "portal_lib \<Rightarrow> string \<Rightarrow> call \<Rightarrow> string \<Rightarrow> string \<Rightarrow> 'x merchant_db_scheme
    \<Rightarrow> ((string \<times> merchant_account \<times> string) \<times> 'x merchant_db_scheme) result" where
  "onboarding_tx lib sm c token ws db =
     andThen (authorizeOwner lib (cl_now c 0) token ws db) (\<lambda>actor.
     andThen (some_or ErrDenied (get_row ma_key (merchantModeValue sm, ws) (merchant_accounts db))) (\<lambda>a.
     andThen (guard ErrBillingConflict (ma_state a = ''bound'')) (\<lambda>_.
     andThen (merchantActionIntent c actor ws ''onboarding'' db) (\<lambda>(request, db1).
     Inr ((actor, a, request), db1)))))"

definition onboarded_tx ::
  "portal_lib \<Rightarrow> string \<Rightarrow> call \<Rightarrow> string \<Rightarrow> string \<Rightarrow> string \<Rightarrow> merchant_account \<Rightarrow> string \<Rightarrow> int \<Rightarrow> 'x merchant_db_scheme
    \<Rightarrow> (unit \<times> 'x merchant_db_scheme) result" where
  "onboarded_tx lib sm c token ws actor a request now db =
     andThen (authorizeOwner lib (cl_now c 0) token ws db) (\<lambda>_.
     andThen (guard ErrBillingConflict (case get_row ma_key (merchantModeValue sm, ws) (merchant_accounts db) of
                None \<Rightarrow> False
              | Some q \<Rightarrow> ma_state q = ''bound'' \<and> ma_account q \<noteq> None \<and> coalesce (ma_account q) = coalesce (ma_account a))) (\<lambda>_.
     andThen (audit (cl_token c 0) actor ws (''merchant.onboarding_issued:'' @ request) now db) (\<lambda>db1.
     Inr ((), db1))))"

definition start_refresh_tx ::
  "portal_lib \<Rightarrow> string \<Rightarrow> call \<Rightarrow> string \<Rightarrow> string \<Rightarrow> 'x merchant_db_scheme
    \<Rightarrow> ((merchant_account \<times> int) \<times> 'x merchant_db_scheme) result" where
  "start_refresh_tx lib sm c token ws db =
     (let key = (merchantModeValue sm, ws) in
      andThen (authorizeOwner lib (cl_now c 0) token ws db) (\<lambda>actor.
      andThen (some_or ErrDenied (get_row ma_key key (merchant_accounts db))) (\<lambda>a.
      andThen (guard ErrBillingConflict (ma_state a = ''bound'')) (\<lambda>_.
      andThen (merchantActionIntent c actor ws ''refresh'' db) (\<lambda>(_, db1).
      Inr ((a, ma_generation a + 1),
           db1\<lparr>merchant_accounts := upd_row ma_key key (\<lambda>q. q\<lparr>ma_generation := ma_generation q + 1\<rparr>) (merchant_accounts db1)\<rparr>))))))"

text \<open>The fenced update of \<open>RefreshMerchantAccount\<close> and \<open>refreshMappedMerchantAccount\<close>: \<open>account_id=?\<close> and \<open>observation_generation=?\<close>.\<close>

definition fenced_account :: "string \<Rightarrow> string \<Rightarrow> string \<Rightarrow> int \<Rightarrow> merchant_account \<Rightarrow> bool" where
  "fenced_account mode ws account gen q \<longleftrightarrow>
     ma_key q = (mode, ws) \<and> ma_account q = Some account \<and> ma_generation q = gen \<and> ma_state q = ''bound''"

definition finish_refresh_tx ::
  "portal_lib \<Rightarrow> string \<Rightarrow> call \<Rightarrow> string \<Rightarrow> string \<Rightarrow> string \<Rightarrow> int \<Rightarrow> connect_account \<Rightarrow> 'x merchant_db_scheme
    \<Rightarrow> (unit \<times> 'x merchant_db_scheme) result" where
  "finish_refresh_tx lib sm c token ws account gen snapshot db =
     (let hit = fenced_account (merchantModeValue sm) ws account gen in
      andThen (authorizeOwner lib (cl_now c 0) token ws db) (\<lambda>_.
      andThen (guard ErrBillingConflict (length (filter hit (merchant_accounts db)) = 1)) (\<lambda>_.
      Inr ((), db\<lparr>merchant_accounts := map (\<lambda>q. if hit q then q\<lparr>ma_snapshot := Some snapshot\<rparr> else q) (merchant_accounts db)\<rparr>))))"

text \<open>The two transactions of \<open>refreshMappedMerchantAccount\<close> (\<open>merchant_maintenance.go\<close>).\<close>

definition start_maintenance_tx ::
  "string \<Rightarrow> merchant_account \<Rightarrow> 'x merchant_db_scheme \<Rightarrow> (unit \<times> 'x merchant_db_scheme) result" where
  "start_maintenance_tx sm a db =
     (let hit = fenced_account (merchantModeValue sm) (ma_workspace a) (coalesce (ma_account a)) (ma_generation a) in
      andThen (guard ErrBillingConflict (length (filter hit (merchant_accounts db)) = 1)) (\<lambda>_.
      Inr ((), db\<lparr>merchant_accounts := map (\<lambda>q. if hit q then q\<lparr>ma_generation := ma_generation q + 1\<rparr> else q) (merchant_accounts db)\<rparr>)))"

definition capabilities :: "connect_account \<Rightarrow> bool \<times> bool \<times> bool \<times> string" where
  "capabilities pa = (ca_DetailsSubmitted pa, ca_ChargesEnabled pa, ca_PayoutsEnabled pa, ca_CardPayments pa)"

definition finish_maintenance_tx ::
  "string \<Rightarrow> call \<Rightarrow> merchant_account \<Rightarrow> connect_account \<Rightarrow> 'x merchant_db_scheme \<Rightarrow> (unit \<times> 'x merchant_db_scheme) result" where
  "finish_maintenance_tx sm c a observed db =
     (let hit = fenced_account (merchantModeValue sm) (ma_workspace a) (coalesce (ma_account a)) (ma_generation a + 1);
          db1 = db\<lparr>merchant_accounts := map (\<lambda>q. if hit q then q\<lparr>ma_snapshot := Some observed\<rparr> else q) (merchant_accounts db)\<rparr>
      in
      andThen (guard ErrBillingConflict (length (filter hit (merchant_accounts db)) = 1)) (\<lambda>_.
      if map_option capabilities (ma_snapshot a) \<noteq> Some (capabilities observed) then
        andThen (audit (cl_token c 0) (ma_actor a) (ma_workspace a) ''merchant.capabilities_updated'' (ca_ObservedAt observed) db1) (\<lambda>db2.
        Inr ((), db2))
      else Inr ((), db1)))"

section \<open>Products\<close>

record product_input =
  pi_Workspace :: string
  pi_ID :: string
  pi_Key :: string
  pi_Name :: string
  pi_Currency :: string
  pi_AmountMinor :: int
  pi_Active :: "bool option"
  pi_Revision :: int

definition merchantProducts ::
  "portal_lib \<Rightarrow> string \<Rightarrow> call \<Rightarrow> string \<Rightarrow> string \<Rightarrow> 'x merchant_db_scheme \<Rightarrow> merchant_product list result" where
  "merchantProducts lib sm c token ws db =
     (case cl_drv c of
        Some e \<Rightarrow> Inl e
      | None \<Rightarrow>
          andThen (authorizeOwner lib (cl_now c 0) token ws db) (\<lambda>_.
          Inr (take 100 (sort_key mp_created (sort_key mp_id
                 (filter (\<lambda>p. mp_mode p = merchantModeValue sm \<and> mp_workspace p = ws) (merchant_products db)))))))"

definition key_char :: "char \<Rightarrow> bool" where
  "key_char ch \<longleftrightarrow> ident_char ch \<or> ch = CHR ''-''"

definition product_input_ok :: "product_input \<Rightarrow> bool" where
  "product_input_ok i \<longleftrightarrow>
     \<not> (pi_Active i = None \<or> pi_Name i \<noteq> trimSpace (pi_Name i) \<or> \<not> validString (pi_Name i) \<or> length (pi_Name i) < 1
        \<or> length (pi_Name i) > 120 \<or> containsControl (pi_Name i) \<or> pi_Currency i \<notin> {''eur'', ''usd'', ''gbp''}
        \<or> pi_AmountMinor i < 50 \<or> pi_AmountMinor i > 99999999)
     \<and> (if pi_ID i = [] then
          \<not> (pi_Revision i \<noteq> 0 \<or> length (pi_Key i) < 16 \<or> length (pi_Key i) > 128 \<or> \<not> list_all key_char (pi_Key i))
        else \<not> (pi_Key i \<noteq> [] \<or> pi_Revision i < 1))"

definition create_product_tx ::
  "string \<Rightarrow> call \<Rightarrow> string \<Rightarrow> product_input \<Rightarrow> bool \<Rightarrow> 'x merchant_db_scheme \<Rightarrow> (merchant_product \<times> 'x merchant_db_scheme) result" where
  "create_product_tx sm c actor i active db =
     (let mode = merchantModeValue sm; ws = pi_Workspace i in
      case get_row mp_req (mode, ws, pi_Key i) (merchant_products db) of
        Some p \<Rightarrow>
          andThen (guard (PortalErr ErrMerchantProductConflict)
                     (\<not> (mp_name p \<noteq> pi_Name i \<or> mp_currency p \<noteq> pi_Currency i \<or> mp_amount p \<noteq> pi_AmountMinor i \<or> mp_active p \<noteq> active))) (\<lambda>_.
          Inr (p, db))
      | None \<Rightarrow>
          andThen (guard (PortalErr ErrMerchantProductConflict)
                     (length (filter (\<lambda>p. mp_mode p = mode \<and> mp_workspace p = ws) (merchant_products db)) < 100)) (\<lambda>_.
          let now = cl_now c 1;
              p = \<lparr>mp_mode = mode, mp_id = cl_token c 0, mp_workspace = ws, mp_key = pi_Key i, mp_name = pi_Name i,
                   mp_currency = pi_Currency i, mp_amount = pi_AmountMinor i, mp_active = active, mp_revision = 1,
                   mp_created = now, mp_updated = now\<rparr>
          in andThen (insert_row mp_ident p (merchant_products db)) (\<lambda>rows.
             andThen (audit (cl_token c 1) actor ws (''merchant.product_created:'' @ mp_id p) now (db\<lparr>merchant_products := rows\<rparr>)) (\<lambda>db1.
             Inr (p, db1)))))"

definition edit_product :: "product_input \<Rightarrow> bool \<Rightarrow> int \<Rightarrow> merchant_product \<Rightarrow> merchant_product" where
  "edit_product i active now p =
     p\<lparr>mp_name := pi_Name i, mp_currency := pi_Currency i, mp_amount := pi_AmountMinor i, mp_active := active,
       mp_revision := mp_revision p + 1, mp_updated := now\<rparr>"

definition update_product_tx ::
  "string \<Rightarrow> call \<Rightarrow> string \<Rightarrow> product_input \<Rightarrow> bool \<Rightarrow> 'x merchant_db_scheme \<Rightarrow> (merchant_product \<times> 'x merchant_db_scheme) result" where
  "update_product_tx sm c actor i active db =
     (let mode = merchantModeValue sm; ws = pi_Workspace i; now = cl_now c 1;
          hit = (\<lambda>p. mp_ident p = (mode, pi_ID i) \<and> mp_workspace p = ws)
      in
      andThen (some_or ErrDenied (List.find hit (merchant_products db))) (\<lambda>p.
      andThen (guard (PortalErr ErrMerchantProductConflict) (mp_revision p = pi_Revision i)) (\<lambda>_.
      andThen (guard (PortalErr ErrMerchantProductConflict)
                 (length (filter (\<lambda>p. hit p \<and> mp_revision p = pi_Revision i) (merchant_products db)) = 1)) (\<lambda>_.
      andThen (audit (cl_token c 0) actor ws (''merchant.product_updated:'' @ mp_id p) now
                 (db\<lparr>merchant_products := map (\<lambda>p. if hit p \<and> mp_revision p = pi_Revision i then edit_product i active now p else p)
                       (merchant_products db)\<rparr>)) (\<lambda>db1.
      Inr (edit_product i active now p, db1))))))"

definition save_product_tx ::
  "portal_lib \<Rightarrow> string \<Rightarrow> call \<Rightarrow> string \<Rightarrow> product_input \<Rightarrow> 'x merchant_db_scheme \<Rightarrow> (merchant_product \<times> 'x merchant_db_scheme) result" where
  "save_product_tx lib sm c token i db =
     andThen (some_or Portal_ErrInvalid (pi_Active i)) (\<lambda>active.
     andThen (authorizeOwner lib (cl_now c 0) token (pi_Workspace i) db) (\<lambda>actor.
     if pi_ID i = [] then create_product_tx sm c actor i active db else update_product_tx sm c actor i active db))"

definition saveMerchantProduct ::
  "portal_lib \<Rightarrow> string \<Rightarrow> call \<Rightarrow> string \<Rightarrow> product_input \<Rightarrow> 'x merchant_db_scheme \<Rightarrow> merchant_product result \<times> 'x merchant_db_scheme" where
  "saveMerchantProduct lib sm c token i db =
     (if \<not> product_input_ok i then (Inl Portal_ErrInvalid, db)
      else in_tx (cl_drv c) (save_product_tx lib sm c token i) db)"

section \<open>Orders\<close>

definition freshMerchantAccount :: "merchant_account \<Rightarrow> int \<Rightarrow> bool" where
  "freshMerchantAccount a now \<longleftrightarrow>
     (case ma_snapshot a of
        None \<Rightarrow> False
      | Some pa \<Rightarrow>
          ma_state a = ''bound'' \<and> ca_ID pa = coalesce (ma_account a) \<and> ca_Country pa = ma_country a \<and> ca_RequestID pa = ma_request a
          \<and> ca_DetailsSubmitted pa \<and> ca_ChargesEnabled pa \<and> ca_PayoutsEnabled pa \<and> ca_CardPayments pa = ''active''
          \<and> ca_ObservedAt pa > 0 \<and> now - ca_ObservedAt pa \<ge> 0 \<and> now - ca_ObservedAt pa < 300)"

definition loadFreshMerchantAccount ::
  "string \<Rightarrow> string \<Rightarrow> int \<Rightarrow> 'x merchant_db_scheme \<Rightarrow> merchant_account result" where
  "loadFreshMerchantAccount sm ws now db =
     andThen (some_or ErrBillingConflict (get_row ma_key (merchantModeValue sm, ws) (merchant_accounts db))) (\<lambda>a.
     andThen (guard ErrBillingConflict (freshMerchantAccount a now)) (\<lambda>_.
     andThen (guard ErrDenied (one_owner (ma_actor a) ws db)) (\<lambda>_. Inr a)))"

definition request_order_tx ::
  "portal_lib \<Rightarrow> string \<Rightarrow> call \<Rightarrow> string \<Rightarrow> string \<Rightarrow> int \<Rightarrow> string \<Rightarrow> 'x merchant_db_scheme
    \<Rightarrow> (merchant_order \<times> 'x merchant_db_scheme) result" where
  "request_order_tx lib sm c buyer product revision key db =
     (let mode = merchantModeValue sm; hash = lib_digest lib buyer; now = cl_now c 0 in
      case get_row mo_req (mode, hash, key) (merchant_orders db) of
        Some q \<Rightarrow>
          andThen (guard ErrBillingConflict (\<not> (mo_product q \<noteq> product \<or> mo_product_revision q \<noteq> revision))) (\<lambda>_. Inr (q, db))
      | None \<Rightarrow>
          andThen (some_or ErrDenied (get_row mp_ident (mode, product) (merchant_products db))) (\<lambda>p.
          andThen (guard ErrBillingConflict (mp_active p \<and> mp_revision p = revision)) (\<lambda>_.
          andThen (loadFreshMerchantAccount sm (mp_workspace p) now db) (\<lambda>a.
          andThen (guard ErrBillingConflict
                     (length (filter (\<lambda>q. mo_mode q = mode \<and> mo_workspace q = mp_workspace p) (merchant_orders db)) < 10000)) (\<lambda>_.
          andThen (guard ErrBillingConflict
                     (length (filter (\<lambda>q. mo_mode q = mode \<and> mo_buyer q = hash \<and> mo_created q > now - 60) (merchant_orders db)) < 20)) (\<lambda>_.
          let q = \<lparr>mo_mode = mode, mo_id = cl_token c 0, mo_workspace = mp_workspace p, mo_product = mp_id p,
                   mo_product_revision = mp_revision p, mo_buyer = hash, mo_key = key, mo_account = coalesce (ma_account a),
                   mo_name = mp_name p, mo_currency = mp_currency p, mo_amount = mp_amount p, mo_state = ''requested'',
                   mo_payment = ''unpaid'', mo_session = None, mo_url = [], mo_intent = [], mo_created = now, mo_submitted = 0,
                   mo_generation = 0, mo_observed = 0, mo_fulfilled_at = 0, mo_fulfilled_by = []\<rparr>
          in andThen (insert_row mo_ident q (merchant_orders db)) (\<lambda>rows.
             andThen (audit (cl_token c 1) (ma_actor a) (mo_workspace q) (''merchant.order_requested:'' @ mo_id q) now
                        (db\<lparr>merchant_orders := rows\<rparr>)) (\<lambda>db1.
             Inr (q, db1)))))))))"

definition requestMerchantOrder ::
  "portal_lib \<Rightarrow> string \<Rightarrow> call \<Rightarrow> string \<Rightarrow> string \<Rightarrow> int \<Rightarrow> string \<Rightarrow> 'x merchant_db_scheme
    \<Rightarrow> merchant_order result \<times> 'x merchant_db_scheme" where
  "requestMerchantOrder lib sm c buyer product revision key db =
     (if \<not> validMerchantOrderToken buyer \<or> \<not> validMerchantOrderToken key \<or> product = [] \<or> revision < 1
      then (Inl Portal_ErrInvalid, db)
      else in_tx (cl_drv c) (request_order_tx lib sm c buyer product revision key) db)"

text \<open>
  Who may see an order: its buyer, or a session that redeemed its recovery code and has not expired.
\<close>

definition granted :: "string \<Rightarrow> string \<Rightarrow> string \<Rightarrow> int \<Rightarrow> 'x merchant_db_scheme \<Rightarrow> bool" where
  "granted mode ident hash now db \<longleftrightarrow>
     list_ex (\<lambda>g. rg_ident g = (mode, ident, hash)
       \<and> list_ex (\<lambda>s. bu_mode s = rg_mode g \<and> bu_hash s = rg_session g \<and> bu_expires s > now) (buyer_sessions db)) (recovery_grants db)"

definition buyerMerchantOrder ::
  "portal_lib \<Rightarrow> string \<Rightarrow> call \<Rightarrow> string \<Rightarrow> string \<Rightarrow> 'x merchant_db_scheme \<Rightarrow> merchant_order result" where
  "buyerMerchantOrder lib sm c buyer ident db =
     (if \<not> validMerchantOrderToken buyer \<or> ident = [] then Inl Portal_ErrInvalid
      else case cl_drv c of
        Some e \<Rightarrow> Inl e
      | None \<Rightarrow>
          some_or ErrDenied (List.find (\<lambda>q. mo_ident q = (merchantModeValue sm, ident)
            \<and> (mo_buyer q = lib_digest lib buyer \<or> granted (merchantModeValue sm) ident (lib_digest lib buyer) (cl_now c 0) db))
            (merchant_orders db)))"

definition merchantOrders ::
  "portal_lib \<Rightarrow> string \<Rightarrow> call \<Rightarrow> string \<Rightarrow> string \<Rightarrow> 'x merchant_db_scheme \<Rightarrow> merchant_order list result" where
  "merchantOrders lib sm c token ws db =
     (case cl_drv c of
        Some e \<Rightarrow> Inl e
      | None \<Rightarrow>
          andThen (authorizeOwner lib (cl_now c 0) token ws db) (\<lambda>_.
          Inr (take 100 (rev (sort_key mo_created (sort_key mo_id
                 (filter (\<lambda>q. mo_mode q = merchantModeValue sm \<and> mo_workspace q = ws) (merchant_orders db))))))))"

definition validMerchantCheckoutResultForMode ::
  "merchant_lib \<Rightarrow> checkout \<Rightarrow> string \<Rightarrow> int \<Rightarrow> int \<Rightarrow> bool" where
  "validMerchantCheckoutResultForMode ml r mode now since \<longleftrightarrow>
     \<not> (\<not> validMerchantProviderID (ck_ID r) (session_prefix mode)
        \<or> (ck_State r \<noteq> ''open'' \<and> ck_State r \<noteq> ''complete'' \<and> ck_State r \<noteq> ''expired'')
        \<or> (ck_PaymentStatus r \<noteq> ''unpaid'' \<and> ck_PaymentStatus r \<noteq> ''paid'')
        \<or> ck_ObservedAt r < since \<or> ck_ObservedAt r > now)
     \<and> \<not> (ck_PaymentStatus r = ''paid'' \<and> (ck_State r \<noteq> ''complete'' \<or> \<not> validMerchantProviderID (ck_PaymentIntentID r) ''pi_''))
     \<and> \<not> (ck_State r = ''open'' \<and> ck_URL r = [])
     \<and> (ck_URL r \<noteq> [] \<longrightarrow> https_link (mk_url ml) ''checkout.stripe.com'' (ck_URL r))
     \<and> \<not> (ck_PaymentIntentID r \<noteq> [] \<and> \<not> validMerchantProviderID (ck_PaymentIntentID r) ''pi_'')"

text \<open>The transaction of \<open>DispatchMerchantOrder\<close>; \<open>Some\<close> of the time when the order is now submitted.\<close>

definition submit_order_tx ::
  "string \<Rightarrow> call \<Rightarrow> string \<Rightarrow> 'x merchant_db_scheme \<Rightarrow> ((merchant_order \<times> int option) \<times> 'x merchant_db_scheme) result" where
  "submit_order_tx sm c ident db =
     (let key = (merchantModeValue sm, ident) in
      andThen (some_or ErrDenied (get_row mo_ident key (merchant_orders db))) (\<lambda>q.
      if mo_state q \<noteq> ''requested'' then andThen (guard ErrBillingConflict (mo_state q \<noteq> ''submitted'')) (\<lambda>_. Inr ((q, None), db))
      else
        andThen (some_or ErrBillingConflict (List.find (\<lambda>p. mp_ident p = (merchantModeValue sm, mo_product q) \<and> mp_workspace p = mo_workspace q)
                   (merchant_products db))) (\<lambda>p.
        andThen (guard ErrBillingConflict (mp_active p)) (\<lambda>_.
        andThen (loadFreshMerchantAccount sm (mo_workspace q) (cl_now c 0) db) (\<lambda>a.
        andThen (guard ErrBillingConflict (coalesce (ma_account a) = mo_account q)) (\<lambda>_.
        andThen (audit (cl_token c 0) (ma_actor a) (mo_workspace q) (''merchant.order_submitted:'' @ ident) (cl_now c 1)
                   (db\<lparr>merchant_orders := map (\<lambda>q. if mo_ident q = key \<and> mo_state q = ''requested''
                         then q\<lparr>mo_state := ''submitted'', mo_submitted := cl_now c 1\<rparr> else q) (merchant_orders db)\<rparr>)) (\<lambda>db1.
        Inr ((q, Some (cl_now c 1)), db1))))))))"

text \<open>The first transaction of \<open>ReconcileMerchantOrder\<close>.\<close>

definition start_order_tx ::
  "string \<Rightarrow> string \<Rightarrow> string \<Rightarrow> 'x merchant_db_scheme \<Rightarrow> (merchant_order \<times> 'x merchant_db_scheme) result" where
  "start_order_tx sm ident session db =
     (let key = (merchantModeValue sm, ident) in
      andThen (some_or ErrNoRows (get_row mo_ident key (merchant_orders db))) (\<lambda>q.
      andThen (guard ErrBillingConflict (\<not> (mo_state q = ''requested'' \<or> (coalesce (mo_session q) \<noteq> [] \<and> coalesce (mo_session q) \<noteq> session)))) (\<lambda>_.
      Inr (q, db\<lparr>merchant_orders := upd_row mo_ident key (\<lambda>q. q\<lparr>mo_generation := mo_generation q + 1\<rparr>) (merchant_orders db)\<rparr>))))"

definition observe_order :: "checkout \<Rightarrow> merchant_order \<Rightarrow> merchant_order" where
  "observe_order r q =
     q\<lparr>mo_state := ck_State r, mo_payment := ck_PaymentStatus r, mo_session := Some (ck_ID r), mo_url := ck_URL r,
       mo_intent := ck_PaymentIntentID r, mo_generation := mo_generation q + 1, mo_observed := ck_ObservedAt r\<rparr>"

definition bind_checkout_tx ::
  "merchant_lib \<Rightarrow> string \<Rightarrow> call \<Rightarrow> string \<Rightarrow> checkout \<Rightarrow> int \<Rightarrow> int \<Rightarrow> 'x merchant_db_scheme
    \<Rightarrow> (merchant_order \<times> 'x merchant_db_scheme) result" where
  "bind_checkout_tx ml sm c ident r since gen db =
     (let mode = merchantModeValue sm; key = (mode, ident) in
      andThen (some_or ErrNoRows (get_row mo_ident key (merchant_orders db))) (\<lambda>q.
      andThen (guard ErrBillingConflict (mo_generation q = gen)) (\<lambda>_.
      andThen (guard ErrBillingConflict
                 (validMerchantCheckoutResultForMode ml r mode (cl_now c 0) (if since < mo_submitted q then mo_submitted q else since))) (\<lambda>_.
      andThen (guard ErrBillingConflict (\<not> (coalesce (mo_session q) \<noteq> [] \<and> coalesce (mo_session q) \<noteq> ck_ID r))) (\<lambda>_.
      andThen (guard ErrBillingConflict (\<not> (mo_payment q = ''paid'' \<and> ck_PaymentStatus r \<noteq> ''paid''))) (\<lambda>_.
      andThen (guard ErrBillingConflict (\<not> ((mo_state q = ''complete'' \<or> mo_state q = ''expired'') \<and> mo_state q \<noteq> ck_State r))) (\<lambda>_.
      andThen (guard ErrBillingConflict (\<not> (mo_intent q \<noteq> [] \<and> mo_intent q \<noteq> ck_PaymentIntentID r))) (\<lambda>_.
      andThen (guard ErrBillingConflict (filter (\<lambda>p. mo_mode p = mode \<and> mo_account p = mo_account q \<and> mo_session p = Some (ck_ID r) \<and> mo_id p \<noteq> ident)
                 (merchant_orders db) = [])) (\<lambda>_.
      andThen (some_or ErrNoRows (get_row ma_key (mode, mo_workspace q) (merchant_accounts db))) (\<lambda>a.
      andThen (audit (cl_token c 0) (ma_actor a) (mo_workspace q) (''merchant.order_provider_update:'' @ ident) (ck_ObservedAt r)
                 (db\<lparr>merchant_orders := map (\<lambda>p. if mo_ident p = key \<and> mo_generation p = gen then observe_order r p else p)
                       (merchant_orders db)\<rparr>)) (\<lambda>db1.
      Inr (observe_order r q, db1))))))))))))"

definition fulfill_tx ::
  "portal_lib \<Rightarrow> string \<Rightarrow> call \<Rightarrow> string \<Rightarrow> string \<Rightarrow> string \<Rightarrow> 'x merchant_db_scheme \<Rightarrow> (merchant_order \<times> 'x merchant_db_scheme) result" where
  "fulfill_tx lib sm c token ws ident db =
     (let mode = merchantModeValue sm; key = (mode, ident); now = cl_now c 1 in
      andThen (authorizeOwner lib (cl_now c 0) token ws db) (\<lambda>actor.
      andThen (some_or ErrDenied (List.find (\<lambda>q. mo_ident q = key \<and> mo_workspace q = ws) (merchant_orders db))) (\<lambda>q.
      if mo_fulfilled_at q \<noteq> 0 then Inr (q, db)
      else
        andThen (guard ErrBillingConflict (mo_state q = ''complete'' \<and> mo_payment q = ''paid'')) (\<lambda>_.
        andThen (guard ErrBillingConflict (filter (\<lambda>r. mr_of r = key \<and> mr_state r \<notin> {''failed'', ''canceled''}) (merchant_refunds db) = [])) (\<lambda>_.
        andThen (guard Portal_ErrInvalid (now > 0)) (\<lambda>_.
        andThen (audit (cl_token c 0) actor ws (''merchant.order_fulfilled:'' @ ident) now
                   (db\<lparr>merchant_orders := upd_row mo_ident key (\<lambda>q. q\<lparr>mo_fulfilled_at := now, mo_fulfilled_by := actor\<rparr>)
                         (merchant_orders db)\<rparr>)) (\<lambda>db1.
        Inr (q\<lparr>mo_fulfilled_at := now, mo_fulfilled_by := actor\<rparr>, db1))))))))"

definition fulfillMerchantOrder ::
  "portal_lib \<Rightarrow> string \<Rightarrow> call \<Rightarrow> string \<Rightarrow> string \<Rightarrow> string \<Rightarrow> 'x merchant_db_scheme \<Rightarrow> merchant_order result \<times> 'x merchant_db_scheme" where
  "fulfillMerchantOrder lib sm c token ws ident db =
     (if \<not> validMerchantOrderToken ident then (Inl Portal_ErrInvalid, db)
      else in_tx (cl_drv c) (fulfill_tx lib sm c token ws ident) db)"

section \<open>Refunds\<close>

definition request_refund_tx ::
  "portal_lib \<Rightarrow> string \<Rightarrow> call \<Rightarrow> string \<Rightarrow> string \<Rightarrow> string \<Rightarrow> 'x merchant_db_scheme \<Rightarrow> (merchant_refund \<times> 'x merchant_db_scheme) result" where
  "request_refund_tx lib sm c token ws ident db =
     (let mode = merchantModeValue sm; key = (mode, ident) in
      andThen (authorizeOwner lib (cl_now c 0) token ws db) (\<lambda>actor.
      case List.find (\<lambda>r. mr_of r = key \<and> mr_workspace r = ws) (merchant_refunds db) of
        Some r \<Rightarrow> Inr (r, db)
      | None \<Rightarrow>
          andThen (some_or ErrDenied (List.find (\<lambda>q. mo_ident q = key \<and> mo_workspace q = ws) (merchant_orders db))) (\<lambda>q.
          andThen (guard ErrBillingConflict (\<not> (mo_state q \<noteq> ''complete'' \<or> mo_payment q \<noteq> ''paid'' \<or> \<not> validMerchantProviderID (mo_intent q) ''pi_''))) (\<lambda>_.
          let r = \<lparr>mr_mode = mode, mr_id = cl_token c 0, mr_order = mo_id q, mr_workspace = ws, mr_actor = actor,
                   mr_account = mo_account q, mr_intent = mo_intent q, mr_currency = mo_currency q, mr_amount = mo_amount q,
                   mr_state = ''requested'', mr_provider = None, mr_created = cl_now c 1, mr_submitted = 0, mr_observed = 0,
                   mr_generation = 0\<rparr>
          in andThen (insert_row mr_ident r (merchant_refunds db)) (\<lambda>_.
             andThen (insert_row mr_of r (merchant_refunds db)) (\<lambda>rows.
             andThen (audit (cl_token c 1) actor ws (''merchant.refund_requested:'' @ mr_id r) (mr_created r)
                        (db\<lparr>merchant_refunds := rows\<rparr>)) (\<lambda>db1.
             Inr (r, db1))))))))"

definition merchantRefunds ::
  "portal_lib \<Rightarrow> string \<Rightarrow> call \<Rightarrow> string \<Rightarrow> string \<Rightarrow> 'x merchant_db_scheme \<Rightarrow> merchant_refund list result" where
  "merchantRefunds lib sm c token ws db =
     (case cl_drv c of
        Some e \<Rightarrow> Inl e
      | None \<Rightarrow>
          andThen (authorizeOwner lib (cl_now c 0) token ws db) (\<lambda>_.
          Inr (take 100 (rev (sort_key mr_created (sort_key mr_id
                 (filter (\<lambda>r. mr_mode r = merchantModeValue sm \<and> mr_workspace r = ws) (merchant_refunds db))))))))"

definition ownerMerchantRefund ::
  "portal_lib \<Rightarrow> string \<Rightarrow> call \<Rightarrow> string \<Rightarrow> string \<Rightarrow> string \<Rightarrow> 'x merchant_db_scheme \<Rightarrow> merchant_refund result" where
  "ownerMerchantRefund lib sm c token ws ident db =
     (case cl_drv c of
        Some e \<Rightarrow> Inl e
      | None \<Rightarrow>
          andThen (authorizeOwner lib (cl_now c 0) token ws db) (\<lambda>_.
          some_or ErrDenied (List.find (\<lambda>r. mr_ident r = (merchantModeValue sm, ident) \<and> mr_workspace r = ws) (merchant_refunds db))))"

text \<open>The transaction of \<open>DispatchMerchantRefund\<close>; \<open>Some\<close> of the time when the refund is now submitted.\<close>

definition submit_refund_tx ::
  "string \<Rightarrow> call \<Rightarrow> string \<Rightarrow> 'x merchant_db_scheme \<Rightarrow> ((merchant_refund \<times> int option) \<times> 'x merchant_db_scheme) result" where
  "submit_refund_tx sm c ident db =
     (let key = (merchantModeValue sm, ident) in
      andThen (some_or ErrNoRows (get_row mr_ident key (merchant_refunds db))) (\<lambda>r.
      if mr_state r \<noteq> ''requested'' then andThen (guard ErrBillingConflict (mr_state r \<noteq> ''submitted'')) (\<lambda>_. Inr ((r, None), db))
      else
        andThen (guard ErrDenied (one_owner (mr_actor r) (mr_workspace r) db)) (\<lambda>_.
        andThen (audit (cl_token c 0) (mr_actor r) (mr_workspace r) (''merchant.refund_submitted:'' @ mr_id r) (cl_now c 0)
                   (db\<lparr>merchant_refunds := upd_row mr_ident key (\<lambda>r. r\<lparr>mr_state := ''submitted'', mr_submitted := cl_now c 0\<rparr>)
                         (merchant_refunds db)\<rparr>)) (\<lambda>db1.
        Inr ((r, Some (cl_now c 0)), db1)))))"

definition start_refund_tx ::
  "string \<Rightarrow> string \<Rightarrow> string \<Rightarrow> 'x merchant_db_scheme \<Rightarrow> (merchant_refund \<times> 'x merchant_db_scheme) result" where
  "start_refund_tx sm ident provider db =
     (let key = (merchantModeValue sm, ident) in
      andThen (some_or ErrNoRows (get_row mr_ident key (merchant_refunds db))) (\<lambda>r.
      andThen (guard ErrBillingConflict (\<not> (mr_state r = ''requested'' \<or> (coalesce (mr_provider r) \<noteq> [] \<and> coalesce (mr_provider r) \<noteq> provider)))) (\<lambda>_.
      Inr (r, db\<lparr>merchant_refunds := upd_row mr_ident key (\<lambda>r. r\<lparr>mr_generation := mr_generation r + 1\<rparr>) (merchant_refunds db)\<rparr>))))"

definition observe_refund :: "refund \<Rightarrow> merchant_refund \<Rightarrow> merchant_refund" where
  "observe_refund f r =
     r\<lparr>mr_state := rf_State f, mr_provider := Some (rf_ID f), mr_observed := rf_ObservedAt f, mr_generation := mr_generation r + 1\<rparr>"

text \<open>A provider id that another refund of the account already has violates a unique index: an error of the driver.\<close>

definition bind_refund_tx ::
  "string \<Rightarrow> call \<Rightarrow> string \<Rightarrow> refund \<Rightarrow> int \<Rightarrow> int \<Rightarrow> 'x merchant_db_scheme \<Rightarrow> (merchant_refund \<times> 'x merchant_db_scheme) result" where
  "bind_refund_tx sm c ident f since gen db =
     (let key = (merchantModeValue sm, ident) in
      andThen (some_or ErrNoRows (get_row mr_ident key (merchant_refunds db))) (\<lambda>r.
      andThen (guard ErrBillingConflict
                 (\<not> (mr_generation r \<noteq> gen \<or> \<not> validMerchantProviderID (rf_ID f) ''re_'' \<or> rf_ObservedAt f < since
                     \<or> rf_ObservedAt f < mr_submitted r \<or> rf_ObservedAt f > cl_now c 0 \<or> mr_state r = ''requested''))) (\<lambda>_.
      andThen (guard ErrBillingConflict (rf_State f \<in> {''pending'', ''requires_action'', ''succeeded'', ''failed'', ''canceled''})) (\<lambda>_.
      andThen (guard ErrBillingConflict (\<not> (coalesce (mr_provider r) \<noteq> [] \<and> coalesce (mr_provider r) \<noteq> rf_ID f))) (\<lambda>_.
      andThen (guard ErrDriver (\<not> list_ex (\<lambda>p. mr_mode p = mr_mode r \<and> mr_account p = mr_account r \<and> mr_provider p = Some (rf_ID f)
                                    \<and> mr_id p \<noteq> ident) (merchant_refunds db))) (\<lambda>_.
      let db1 = db\<lparr>merchant_refunds := upd_row mr_ident key (observe_refund f) (merchant_refunds db)\<rparr>
      in if mr_state r \<noteq> rf_State f then
           andThen (audit (cl_token c 0) (mr_actor r) (mr_workspace r) (''merchant.refund_updated:'' @ mr_id r) (rf_ObservedAt f) db1) (\<lambda>db2.
           Inr (observe_refund f r, db2))
         else Inr (observe_refund f r, db1)))))))"

section \<open>Events\<close>

definition accept_event_tx ::
  "string \<Rightarrow> call \<Rightarrow> checkout_event \<Rightarrow> 'x merchant_db_scheme \<Rightarrow> (unit \<times> 'x merchant_db_scheme) result" where
  "accept_event_tx sm c e db =
     (let mode = merchantModeValue sm in
      case get_row me_ident (mode, ev_ID e) (merchant_events db) of
        Some q \<Rightarrow> andThen (guard ErrBillingConflict (me_hash q = ev_SHA256 e)) (\<lambda>_. Inr ((), db))
      | None \<Rightarrow>
          andThen (guard ErrDenied
             ((if ev_RefundRequestID e \<noteq> [] then
                 length (filter (\<lambda>r. mr_ident r = (mode, ev_RefundRequestID e) \<and> mr_order r = ev_OrderID e \<and> mr_account r = ev_AccountID e
                    \<and> mr_intent r = ev_PaymentIntentID e \<and> mr_state r \<noteq> ''requested''
                    \<and> (mr_provider r = None \<or> mr_provider r = Some (ev_RefundID e))) (merchant_refunds db))
               else
                 length (filter (\<lambda>q. mo_ident q = (mode, ev_OrderID e) \<and> mo_account q = ev_AccountID e \<and> mo_state q \<noteq> ''requested''
                    \<and> (mo_session q = None \<or> mo_session q = Some (ev_SessionID e))) (merchant_orders db))) = 1)) (\<lambda>_.
          andThen (guard ErrBillingConflict (length (filter (\<lambda>q. me_mode q = mode) (merchant_events db)) < 100000)) (\<lambda>_.
          Inr ((), db\<lparr>merchant_events := merchant_events db @
            [\<lparr>me_mode = mode, me_id = ev_ID e, me_account = ev_AccountID e, me_order = ev_OrderID e, me_session = ev_SessionID e,
              me_type = ev_Type e, me_hash = ev_SHA256 e, me_state = ''pending'', me_created = ev_Created e, me_received = cl_now c 0,
              me_next = 0, me_refund_request = ev_RefundRequestID e, me_refund = ev_RefundID e\<rparr>]\<rparr>))))"

definition acceptMerchantEvent ::
  "string \<Rightarrow> call \<Rightarrow> checkout_event \<Rightarrow> 'x merchant_db_scheme \<Rightarrow> unit result \<times> 'x merchant_db_scheme" where
  "acceptMerchantEvent sm c e db =
     (if (if ev_Live e then ''live'' else ''test'') \<noteq> merchantModeValue sm then (Inl (PortalErr ErrMerchantProviderMode), db)
      else in_tx (cl_drv c) (accept_event_tx sm c e) db)"

definition due_events :: "string \<Rightarrow> int \<Rightarrow> nat \<Rightarrow> merchant_event list \<Rightarrow> merchant_event list" where
  "due_events mode now limit es =
     take limit (sort_key me_next (sort_key me_id (filter (\<lambda>e. me_mode e = mode \<and> me_state e = ''pending'' \<and> me_next e \<le> now) es)))"

text \<open>The two statements of \<open>ProcessMerchantEvents\<close> on one event; the first gives whether it took the event.\<close>

definition claim_event_tx ::
  "string \<Rightarrow> call \<Rightarrow> string \<Rightarrow> 'x merchant_db_scheme \<Rightarrow> (bool \<times> 'x merchant_db_scheme) result" where
  "claim_event_tx sm c ident db =
     (let hit = (\<lambda>e. me_ident e = (merchantModeValue sm, ident) \<and> me_state e = ''pending'' \<and> me_next e \<le> cl_now c 1) in
      Inr (length (filter hit (merchant_events db)) = 1,
           db\<lparr>merchant_events := map (\<lambda>e. if hit e then e\<lparr>me_next := cl_now c 0 + 60\<rparr> else e) (merchant_events db)\<rparr>))"

definition done_event_tx :: "string \<Rightarrow> string \<Rightarrow> 'x merchant_db_scheme \<Rightarrow> (unit \<times> 'x merchant_db_scheme) result" where
  "done_event_tx sm ident db =
     Inr ((), db\<lparr>merchant_events := upd_row me_ident (merchantModeValue sm, ident) (\<lambda>e. e\<lparr>me_state := ''done''\<rparr>) (merchant_events db)\<rparr>)"

section \<open>Buyers\<close>

text \<open>Deleting a buyer session deletes its grants (\<open>ON DELETE CASCADE\<close>).\<close>

definition drop_sessions :: "(buyer_session \<Rightarrow> bool) \<Rightarrow> 'x merchant_db_scheme \<Rightarrow> 'x merchant_db_scheme" where
  "drop_sessions P db =
     db\<lparr>buyer_sessions := filter (\<lambda>s. \<not> P s) (buyer_sessions db),
        recovery_grants := filter (\<lambda>g. \<not> list_ex (\<lambda>s. P s \<and> bu_ident s = (rg_mode g, rg_session g)) (buyer_sessions db)) (recovery_grants db)\<rparr>"

definition drop_expired :: "string \<Rightarrow> int \<Rightarrow> 'x merchant_db_scheme \<Rightarrow> 'x merchant_db_scheme" where
  "drop_expired sm now = drop_sessions (\<lambda>s. bu_mode s = merchantModeValue sm \<and> bu_expires s \<le> now)"

definition buyer_session_tx ::
  "portal_lib \<Rightarrow> string \<Rightarrow> call \<Rightarrow> 'x merchant_db_scheme \<Rightarrow> ((string \<times> int) \<times> 'x merchant_db_scheme) result" where
  "buyer_session_tx lib sm c db =
     (let mode = merchantModeValue sm; now = cl_now c 0; db1 = drop_expired sm now db in
      andThen (guard ErrDenied (length (filter (\<lambda>s. bu_mode s = mode) (buyer_sessions db1)) < 100000)) (\<lambda>_.
      andThen (insert_row bu_ident \<lparr>bu_mode = mode, bu_hash = lib_digest lib (cl_token c 0), bu_expires = now + 2592000\<rparr>
                 (buyer_sessions db1)) (\<lambda>rows.
      Inr ((cl_token c 0, now + 2592000), db1\<lparr>buyer_sessions := rows\<rparr>))))"

text \<open>\<open>merchantBuyerSessionActive\<close>, which \<open>AuthenticateMerchantBuyer\<close> repeats.\<close>

definition merchantBuyerSessionActive ::
  "portal_lib \<Rightarrow> string \<Rightarrow> string \<Rightarrow> int \<Rightarrow> 'x merchant_db_scheme \<Rightarrow> unit result" where
  "merchantBuyerSessionActive lib mode token now db =
     andThen (guard ErrDenied (validMerchantOrderToken token)) (\<lambda>_.
     andThen (some_or ErrDenied (get_row bu_ident (mode, lib_digest lib token) (buyer_sessions db))) (\<lambda>s.
     guard ErrDenied (bu_expires s > now)))"

definition authenticateMerchantBuyer ::
  "portal_lib \<Rightarrow> string \<Rightarrow> call \<Rightarrow> string \<Rightarrow> 'x merchant_db_scheme \<Rightarrow> unit result" where
  "authenticateMerchantBuyer lib sm c token db =
     (if \<not> validMerchantOrderToken token then Inl ErrDenied
      else case cl_drv c of
        Some e \<Rightarrow> Inl e
      | None \<Rightarrow> merchantBuyerSessionActive lib (merchantModeValue sm) token (cl_now c 0) db)"

definition revoke_buyer_tx ::
  "portal_lib \<Rightarrow> string \<Rightarrow> string \<Rightarrow> 'x merchant_db_scheme \<Rightarrow> (unit \<times> 'x merchant_db_scheme) result" where
  "revoke_buyer_tx lib sm token db =
     andThen (guard ErrDenied (validMerchantOrderToken token)) (\<lambda>_.
     Inr ((), drop_sessions (\<lambda>s. bu_ident s = (merchantModeValue sm, lib_digest lib token)) db))"

definition merchantBuyerOrderAccess ::
  "string \<Rightarrow> string \<Rightarrow> string \<Rightarrow> int \<Rightarrow> 'x merchant_db_scheme \<Rightarrow> unit result" where
  "merchantBuyerOrderAccess mode hash ident now db =
     guard ErrDenied (list_ex (\<lambda>q. mo_ident q = (mode, ident) \<and> (mo_buyer q = hash \<or> granted mode ident hash now db)) (merchant_orders db))"

definition issue_code_tx ::
  "portal_lib \<Rightarrow> merchant_lib \<Rightarrow> string \<Rightarrow> call \<Rightarrow> string \<Rightarrow> string \<Rightarrow> 'x merchant_db_scheme
    \<Rightarrow> ((string \<times> int) \<times> 'x merchant_db_scheme) result" where
  "issue_code_tx lib ml sm c token ident db =
     (let mode = merchantModeValue sm; now = cl_now c 0; db1 = drop_expired sm now db;
          code = cl_token c 0; expires = mk_year ml now;
          row = \<lparr>rc_mode = mode, rc_order = ident, rc_hash = lib_digest lib code, rc_expires = expires\<rparr>;
          others = filter (\<lambda>r. rc_ident r \<noteq> (mode, ident)) (recovery_codes db1)
      in
      andThen (merchantBuyerSessionActive lib mode token now db1) (\<lambda>_.
      andThen (merchantBuyerOrderAccess mode (lib_digest lib token) ident now db1) (\<lambda>_.
      andThen (insert_row rc_code row others) (\<lambda>_.
      Inr ((code, expires),
           db1\<lparr>recovery_codes := (if list_ex (\<lambda>r. rc_ident r = (mode, ident)) (recovery_codes db1)
                 then upd_row rc_ident (mode, ident) (\<lambda>r. r\<lparr>rc_hash := rc_hash row, rc_expires := expires\<rparr>) (recovery_codes db1)
                 else recovery_codes db1 @ [row])\<rparr>)))))"

definition issueMerchantOrderRecoveryCode ::
  "portal_lib \<Rightarrow> merchant_lib \<Rightarrow> string \<Rightarrow> call \<Rightarrow> string \<Rightarrow> string \<Rightarrow> 'x merchant_db_scheme
    \<Rightarrow> (string \<times> int) result \<times> 'x merchant_db_scheme" where
  "issueMerchantOrderRecoveryCode lib ml sm c token ident db =
     (if \<not> validMerchantOrderToken token \<or> \<not> validMerchantOrderToken ident then (Inl Portal_ErrInvalid, db)
      else in_tx (cl_drv c) (issue_code_tx lib ml sm c token ident) db)"

definition merchantOrderRecoveryGrantLimit :: nat where
  "merchantOrderRecoveryGrantLimit = 100"

text \<open>\<open>INSERT OR IGNORE\<close>.\<close>

definition add_grant :: "string \<Rightarrow> string \<Rightarrow> string \<Rightarrow> int \<Rightarrow> recovery_grant list \<Rightarrow> recovery_grant list" where
  "add_grant mode ident hash now gs =
     (if list_ex (\<lambda>g. rg_ident g = (mode, ident, hash)) gs then gs
      else gs @ [\<lparr>rg_mode = mode, rg_order = ident, rg_session = hash, rg_created = now\<rparr>])"

definition redeem_code_tx ::
  "portal_lib \<Rightarrow> string \<Rightarrow> call \<Rightarrow> string \<Rightarrow> string \<Rightarrow> 'x merchant_db_scheme \<Rightarrow> (merchant_order \<times> 'x merchant_db_scheme) result" where
  "redeem_code_tx lib sm c token code db =
     (let mode = merchantModeValue sm; now = cl_now c 0; db1 = drop_expired sm now db; hash = lib_digest lib token in
      andThen (merchantBuyerSessionActive lib mode token now db1) (\<lambda>_.
      andThen (some_or ErrDenied (List.find (\<lambda>r. rc_code r = (mode, lib_digest lib code) \<and> rc_expires r > now) (recovery_codes db1))) (\<lambda>r.
      andThen (guard ErrDenied (\<not> (length (filter (\<lambda>g. rg_mode g = mode \<and> rg_order g = rc_order r) (recovery_grants db1)) \<ge> merchantOrderRecoveryGrantLimit
                 \<and> \<not> list_ex (\<lambda>g. rg_ident g = (mode, rc_order r, hash)) (recovery_grants db1)))) (\<lambda>_.
      andThen (some_or ErrDenied (get_row mo_ident (mode, rc_order r) (merchant_orders db1))) (\<lambda>q.
      Inr (q, db1\<lparr>recovery_grants := add_grant mode (rc_order r) hash now (recovery_grants db1)\<rparr>))))))"

definition redeemMerchantOrderRecoveryCode ::
  "portal_lib \<Rightarrow> string \<Rightarrow> call \<Rightarrow> string \<Rightarrow> string \<Rightarrow> 'x merchant_db_scheme \<Rightarrow> merchant_order result \<times> 'x merchant_db_scheme" where
  "redeemMerchantOrderRecoveryCode lib sm c token code db =
     (if \<not> validMerchantOrderToken token \<or> \<not> validMerchantOrderToken code then (Inl Portal_ErrInvalid, db)
      else in_tx (cl_drv c) (redeem_code_tx lib sm c token code) db)"

end
