(* ===== verification/Merchant_Calls.thy ===== *)
theory Merchant_Calls
  imports Portal_Merchant
begin

text \<open>
  The shop's calls that talk to the payment provider: \<open>merchant_provider_mode.go\<close>, the dispatch and reconciliation
  of accounts, orders and refunds, onboarding, \<open>ProcessMerchantEvents\<close>, \<open>merchant_maintenance.go\<close> and
  \<open>merchant_refund_maintenance.go\<close>. Each takes several transactions, between which others may commit
  (\<open>mid\<close>). The requests a dispatch sends to the provider are part of its value.
\<close>

section \<open>The family of transactions\<close>

datatype merchant_tx =
    MAccount acct_tx
  | MRequestAccount string string string
  | MSubmitAccount string
  | MBindAccount string connect_account
  | MOnboarding string string
  | MOnboarded string string string merchant_account string int
  | MStartRefresh string string
  | MFinishRefresh string string string int connect_account
  | MStartMaintenance merchant_account
  | MFinishMaintenance merchant_account connect_account
  | MSaveProduct string product_input
  | MRequestOrder string string int string
  | MSubmitOrder string
  | MStartOrder string string
  | MBindCheckout string checkout int int
  | MFulfill string string string
  | MRequestRefund string string string
  | MSubmitRefund string
  | MStartRefund string string
  | MBindRefund string refund int int
  | MAcceptEvent checkout_event
  | MClaimEvent string
  | MDoneEvent string
  | MBuyerSession
  | MRevokeBuyer string
  | MIssueCode string string
  | MRedeemCode string string

fun merchant_body ::
  "portal_lib \<Rightarrow> merchant_lib \<Rightarrow> string \<Rightarrow> call \<Rightarrow> merchant_tx \<Rightarrow> 'x merchant_db_scheme \<Rightarrow> (unit \<times> 'x merchant_db_scheme) result" where
  "merchant_body lib ml sm c (MAccount t) db = acct_body lib c t db"
| "merchant_body lib ml sm c (MRequestAccount token ws country) db = drop_value (request_account_tx lib sm c token ws country db)"
| "merchant_body lib ml sm c (MSubmitAccount request) db = drop_value (submit_account_tx sm c request db)"
| "merchant_body lib ml sm c (MBindAccount request pa) db = drop_value (bind_account_tx sm c request pa db)"
| "merchant_body lib ml sm c (MOnboarding token ws) db = drop_value (onboarding_tx lib sm c token ws db)"
| "merchant_body lib ml sm c (MOnboarded token ws actor a request now) db = onboarded_tx lib sm c token ws actor a request now db"
| "merchant_body lib ml sm c (MStartRefresh token ws) db = drop_value (start_refresh_tx lib sm c token ws db)"
| "merchant_body lib ml sm c (MFinishRefresh token ws account gen pa) db = finish_refresh_tx lib sm c token ws account gen pa db"
| "merchant_body lib ml sm c (MStartMaintenance a) db = start_maintenance_tx sm a db"
| "merchant_body lib ml sm c (MFinishMaintenance a pa) db = finish_maintenance_tx sm c a pa db"
| "merchant_body lib ml sm c (MSaveProduct token i) db =
     andThen (guard Portal_ErrInvalid (product_input_ok i)) (\<lambda>_. drop_value (save_product_tx lib sm c token i db))"
| "merchant_body lib ml sm c (MRequestOrder buyer product revision key) db = drop_value (request_order_tx lib sm c buyer product revision key db)"
| "merchant_body lib ml sm c (MSubmitOrder ident) db = drop_value (submit_order_tx sm c ident db)"
| "merchant_body lib ml sm c (MStartOrder ident session) db = drop_value (start_order_tx sm ident session db)"
| "merchant_body lib ml sm c (MBindCheckout ident r since gen) db = drop_value (bind_checkout_tx ml sm c ident r since gen db)"
| "merchant_body lib ml sm c (MFulfill token ws ident) db = drop_value (fulfill_tx lib sm c token ws ident db)"
| "merchant_body lib ml sm c (MRequestRefund token ws ident) db = drop_value (request_refund_tx lib sm c token ws ident db)"
| "merchant_body lib ml sm c (MSubmitRefund ident) db = drop_value (submit_refund_tx sm c ident db)"
| "merchant_body lib ml sm c (MStartRefund ident provider) db = drop_value (start_refund_tx sm ident provider db)"
| "merchant_body lib ml sm c (MBindRefund ident f since gen) db = drop_value (bind_refund_tx sm c ident f since gen db)"
| "merchant_body lib ml sm c (MAcceptEvent e) db = accept_event_tx sm c e db"
| "merchant_body lib ml sm c (MClaimEvent ident) db = drop_value (claim_event_tx sm c ident db)"
| "merchant_body lib ml sm c (MDoneEvent ident) db = done_event_tx sm ident db"
| "merchant_body lib ml sm c MBuyerSession db = drop_value (buyer_session_tx lib sm c db)"
| "merchant_body lib ml sm c (MRevokeBuyer token) db = revoke_buyer_tx lib sm token db"
| "merchant_body lib ml sm c (MIssueCode token ident) db = drop_value (issue_code_tx lib ml sm c token ident db)"
| "merchant_body lib ml sm c (MRedeemCode token code) db = drop_value (redeem_code_tx lib sm c token code db)"

definition merchant_exec ::
  "portal_lib \<Rightarrow> merchant_lib \<Rightarrow> string \<Rightarrow> call \<times> merchant_tx \<Rightarrow> 'x merchant_db_scheme \<Rightarrow> unit result \<times> 'x merchant_db_scheme" where
  "merchant_exec lib ml sm i db = in_tx (cl_drv (fst i)) (merchant_body lib ml sm (fst i) (snd i)) db"

type_synonym history = "(call \<times> merchant_tx) list"

abbreviation merchant_run ::
  "portal_lib \<Rightarrow> merchant_lib \<Rightarrow> string \<Rightarrow> history \<Rightarrow> 'x merchant_db_scheme \<Rightarrow> 'x merchant_db_scheme" where
  "merchant_run lib ml sm is db \<equiv> run_ops (merchant_exec lib ml sm) is db"

section \<open>The provider\<close>

record checkout_order =
  od_RequestID :: string
  od_Name :: string
  od_Currency :: string
  od_AmountMinor :: int

record refund_request =
  rq_RequestID :: string
  rq_OrderID :: string
  rq_PaymentIntentID :: string
  rq_Currency :: string
  rq_AmountMinor :: int

text \<open>The interfaces of the portal to the provider; \<open>mv_refunds\<close> says whether it is a \<open>MerchantRefundProvider\<close>.\<close>

record merchant_provider =
  mv_mode :: "string option"
  mv_create_account :: "string \<Rightarrow> string \<Rightarrow> connect_account result"
  mv_account :: "string \<Rightarrow> string \<Rightarrow> string \<Rightarrow> connect_account result"
  mv_link :: "string \<Rightarrow> string \<Rightarrow> (string \<times> int) result"
  mv_create_checkout :: "string \<Rightarrow> checkout_order \<Rightarrow> checkout result"
  mv_checkout :: "string \<Rightarrow> string \<Rightarrow> checkout_order \<Rightarrow> checkout result"
  mv_refunds :: bool
  mv_create_refund :: "string \<Rightarrow> refund_request \<Rightarrow> refund result"
  mv_refund :: "string \<Rightarrow> string \<Rightarrow> refund_request \<Rightarrow> refund result"

text \<open>The provider, when it is one and of the selected mode.\<close>

definition validateMerchantProviderMode :: "string \<Rightarrow> merchant_provider option \<Rightarrow> merchant_provider result" where
  "validateMerchantProviderMode sm p =
     andThen (some_or Portal_ErrInvalid p) (\<lambda>pv.
     andThen (guard (PortalErr ErrMerchantProviderMode)
                (case mv_mode pv of None \<Rightarrow> merchantModeValue sm = ''test'' | Some m \<Rightarrow> m = merchantModeValue sm)) (\<lambda>_. Inr pv))"

definition checkoutForOrder :: "merchant_order \<Rightarrow> checkout_order" where
  "checkoutForOrder q = \<lparr>od_RequestID = mo_id q, od_Name = mo_name q, od_Currency = mo_currency q, od_AmountMinor = mo_amount q\<rparr>"

definition refundRequest :: "merchant_refund \<Rightarrow> refund_request" where
  "refundRequest r = \<lparr>rq_RequestID = mr_id r, rq_OrderID = mr_order r, rq_PaymentIntentID = mr_intent r, rq_Currency = mr_currency r,
     rq_AmountMinor = mr_amount r\<rparr>"

section \<open>Accounts\<close>

definition dispatchMerchantAccount ::
  "portal_lib \<Rightarrow> merchant_lib \<Rightarrow> string \<Rightarrow> (nat \<Rightarrow> call) \<Rightarrow> merchant_provider option \<Rightarrow> history \<Rightarrow> string \<Rightarrow> 'x merchant_db_scheme
    \<Rightarrow> merchant_account result \<times> (string \<times> string) option \<times> 'x merchant_db_scheme" where
  "dispatchMerchantAccount lib ml sm c p mid request db =
     (case validateMerchantProviderMode sm p of
        Inl e \<Rightarrow> (Inl e, None, db)
      | Inr pv \<Rightarrow>
          (case in_tx (cl_drv (c 0)) (submit_account_tx sm (c 0) request) db of
             (Inl e, db1) \<Rightarrow> (Inl e, None, db1)
           | (Inr (a, None), db1) \<Rightarrow> (Inr a, None, db1)
           | (Inr (a, Some _), db1) \<Rightarrow>
               (let db2 = merchant_run lib ml sm mid db1; sent = Some (ma_country a, ma_request a) in
                case mv_create_account pv (ma_country a) (ma_request a) of
                  Inl e \<Rightarrow> (Inl e, sent, db2)
                | Inr pa \<Rightarrow> (case bindMerchantAccount sm (c 1) (ma_request a) pa db2 of (x, db3) \<Rightarrow> (x, sent, db3)))))"

definition reconcileMerchantAccount ::
  "portal_lib \<Rightarrow> merchant_lib \<Rightarrow> string \<Rightarrow> (nat \<Rightarrow> call) \<Rightarrow> merchant_provider option \<Rightarrow> history \<Rightarrow> string \<Rightarrow> string \<Rightarrow> 'x merchant_db_scheme
    \<Rightarrow> merchant_account result \<times> 'x merchant_db_scheme" where
  "reconcileMerchantAccount lib ml sm c p mid request account db =
     (case andThen (validateMerchantProviderMode sm p) (\<lambda>pv.
           andThen (guard Portal_ErrInvalid (validMerchantAccountID account)) (\<lambda>_.
           case cl_drv (c 0) of
             Some e \<Rightarrow> Inl e
           | None \<Rightarrow> andThen (some_or ErrDenied (get_row ma_req (merchantModeValue sm, request) (merchant_accounts db))) (\<lambda>a. Inr (pv, a)))) of
        Inl e \<Rightarrow> (Inl e, db)
      | Inr (pv, a) \<Rightarrow>
          if ma_state a = ''bound'' then
            (if coalesce (ma_account a) \<noteq> account then (Inl ErrBillingConflict, db) else (Inr a, db))
          else if ma_state a \<noteq> ''submitted'' then (Inl ErrBillingConflict, db)
          else (let db1 = merchant_run lib ml sm mid db in
                case mv_account pv account (ma_country a) (ma_request a) of
                  Inl e \<Rightarrow> (Inl e, db1)
                | Inr pa \<Rightarrow>
                    if ca_ID pa \<noteq> account \<or> ca_ObservedAt pa < cl_now (c 0) 0 then (Inl ErrBillingConflict, db1)
                    else bindMerchantAccount sm (c 1) request pa db1))"

definition merchantOnboardingLink ::
  "portal_lib \<Rightarrow> merchant_lib \<Rightarrow> string \<Rightarrow> (nat \<Rightarrow> call) \<Rightarrow> merchant_provider option \<Rightarrow> history \<Rightarrow> string \<Rightarrow> string \<Rightarrow> 'x merchant_db_scheme
    \<Rightarrow> (string \<times> int) result \<times> 'x merchant_db_scheme" where
  "merchantOnboardingLink lib ml sm c p mid token ws db =
     (case validateMerchantProviderMode sm p of
        Inl e \<Rightarrow> (Inl e, db)
      | Inr pv \<Rightarrow>
          (case in_tx (cl_drv (c 0)) (onboarding_tx lib sm (c 0) token ws) db of
             (Inl e, db1) \<Rightarrow> (Inl e, db1)
           | (Inr (actor, a, request), db1) \<Rightarrow>
               (let db2 = merchant_run lib ml sm mid db1; now = cl_now (c 1) 0 in
                case mv_link pv (coalesce (ma_account a)) request of
                  Inl e \<Rightarrow> (Inl (PortalErr ErrMerchantUnavailable), db2)
                | Inr (link, expires) \<Rightarrow>
                    if \<not> https_link (mk_url ml) ''connect.stripe.com'' link \<or> mk_fragment ml link \<or> expires \<le> now \<or> expires > now + 3600
                    then (Inl ErrBillingConflict, db2)
                    else (case in_tx (cl_drv (c 2)) (onboarded_tx lib sm (c 2) token ws actor a request now) db2 of
                            (Inl e, db3) \<Rightarrow> (Inl e, db3)
                          | (Inr _, db3) \<Rightarrow> (Inr (link, expires), db3)))))"

text \<open>What a fresh observation of a bound account has to match.\<close>

definition account_observed :: "merchant_account \<Rightarrow> int \<Rightarrow> int \<Rightarrow> connect_account \<Rightarrow> bool" where
  "account_observed a started now pa \<longleftrightarrow>
     \<not> (ca_ID pa \<noteq> coalesce (ma_account a) \<or> ca_Country pa \<noteq> ma_country a \<or> ca_RequestID pa \<noteq> ma_request a
        \<or> ca_ObservedAt pa < started \<or> ca_ObservedAt pa > now)"

definition refreshMerchantAccount ::
  "portal_lib \<Rightarrow> merchant_lib \<Rightarrow> string \<Rightarrow> (nat \<Rightarrow> call) \<Rightarrow> merchant_provider option \<Rightarrow> history \<Rightarrow> string \<Rightarrow> string \<Rightarrow> 'x merchant_db_scheme
    \<Rightarrow> unit result \<times> 'x merchant_db_scheme" where
  "refreshMerchantAccount lib ml sm c p mid token ws db =
     (case validateMerchantProviderMode sm p of
        Inl e \<Rightarrow> (Inl e, db)
      | Inr pv \<Rightarrow>
          (case in_tx (cl_drv (c 0)) (start_refresh_tx lib sm (c 0) token ws) db of
             (Inl e, db1) \<Rightarrow> (Inl e, db1)
           | (Inr (a, gen), db1) \<Rightarrow>
               (let db2 = merchant_run lib ml sm mid db1 in
                case mv_account pv (coalesce (ma_account a)) (ma_country a) (ma_request a) of
                  Inl e \<Rightarrow> (Inl (PortalErr ErrMerchantUnavailable), db2)
                | Inr pa \<Rightarrow>
                    if \<not> account_observed a (cl_now (c 1) 0) (cl_now (c 1) 1) pa then (Inl ErrBillingConflict, db2)
                    else in_tx (cl_drv (c 2)) (finish_refresh_tx lib sm (c 2) token ws (coalesce (ma_account a)) gen pa) db2)))"

definition refreshMappedMerchantAccount ::
  "portal_lib \<Rightarrow> merchant_lib \<Rightarrow> string \<Rightarrow> (nat \<Rightarrow> call) \<Rightarrow> merchant_provider \<Rightarrow> history \<Rightarrow> merchant_account \<Rightarrow> 'x merchant_db_scheme
    \<Rightarrow> unit result \<times> 'x merchant_db_scheme" where
  "refreshMappedMerchantAccount lib ml sm c pv mid a db =
     (case in_tx (cl_drv (c 0)) (start_maintenance_tx sm a) db of
        (Inl e, db1) \<Rightarrow> (Inl e, db1)
      | (Inr _, db1) \<Rightarrow>
          (let db2 = merchant_run lib ml sm mid db1 in
           case mv_account pv (coalesce (ma_account a)) (ma_country a) (ma_request a) of
             Inl e \<Rightarrow> (Inl e, db2)
           | Inr pa \<Rightarrow>
               if \<not> account_observed a (cl_now (c 1) 0) (cl_now (c 1) 1) pa then (Inl ErrBillingConflict, db2)
               else in_tx (cl_drv (c 2)) (finish_maintenance_tx sm (c 2) a pa) db2))"

section \<open>Orders and refunds\<close>

definition dispatchMerchantOrder ::
  "portal_lib \<Rightarrow> merchant_lib \<Rightarrow> string \<Rightarrow> (nat \<Rightarrow> call) \<Rightarrow> merchant_provider option \<Rightarrow> history \<Rightarrow> string \<Rightarrow> 'x merchant_db_scheme
    \<Rightarrow> merchant_order result \<times> (string \<times> checkout_order) option \<times> 'x merchant_db_scheme" where
  "dispatchMerchantOrder lib ml sm c p mid ident db =
     (case validateMerchantProviderMode sm p of
        Inl e \<Rightarrow> (Inl e, None, db)
      | Inr pv \<Rightarrow>
          if ident = [] then (Inl Portal_ErrInvalid, None, db)
          else (case in_tx (cl_drv (c 0)) (submit_order_tx sm (c 0) ident) db of
             (Inl e, db1) \<Rightarrow> (Inl e, None, db1)
           | (Inr (q, None), db1) \<Rightarrow> (Inr q, None, db1)
           | (Inr (q, Some submitted), db1) \<Rightarrow>
               (let db2 = merchant_run lib ml sm mid db1; sent = Some (mo_account q, checkoutForOrder q) in
                case mv_create_checkout pv (mo_account q) (checkoutForOrder q) of
                  Inl e \<Rightarrow> (Inl e, sent, db2)
                | Inr r \<Rightarrow>
                    (case in_tx (cl_drv (c 1)) (bind_checkout_tx ml sm (c 1) ident r submitted 0) db2 of (x, db3) \<Rightarrow> (x, sent, db3)))))"

definition reconcileMerchantOrder ::
  "portal_lib \<Rightarrow> merchant_lib \<Rightarrow> string \<Rightarrow> (nat \<Rightarrow> call) \<Rightarrow> merchant_provider option \<Rightarrow> history \<Rightarrow> string \<Rightarrow> string \<Rightarrow> 'x merchant_db_scheme
    \<Rightarrow> merchant_order result \<times> 'x merchant_db_scheme" where
  "reconcileMerchantOrder lib ml sm c p mid ident session db =
     (case validateMerchantProviderMode sm p of
        Inl e \<Rightarrow> (Inl e, db)
      | Inr pv \<Rightarrow>
          if ident = [] \<or> \<not> validMerchantProviderID session (session_prefix (merchantModeValue sm)) then (Inl Portal_ErrInvalid, db)
          else (case in_tx (cl_drv (c 0)) (start_order_tx sm ident session) db of
             (Inl e, db1) \<Rightarrow> (Inl e, db1)
           | (Inr q, db1) \<Rightarrow>
               (let db2 = merchant_run lib ml sm mid db1; started = cl_now (c 0) 0 in
                case mv_checkout pv (mo_account q) session (checkoutForOrder q) of
                  Inl e \<Rightarrow> (Inl e, db2)
                | Inr r \<Rightarrow>
                    if ck_ID r \<noteq> session \<or> ck_ObservedAt r < started then (Inl ErrBillingConflict, db2)
                    else in_tx (cl_drv (c 1)) (bind_checkout_tx ml sm (c 1) ident r started (mo_generation q + 1)) db2)))"

definition dispatchMerchantRefund ::
  "portal_lib \<Rightarrow> merchant_lib \<Rightarrow> string \<Rightarrow> (nat \<Rightarrow> call) \<Rightarrow> merchant_provider option \<Rightarrow> history \<Rightarrow> string \<Rightarrow> 'x merchant_db_scheme
    \<Rightarrow> merchant_refund result \<times> (string \<times> refund_request) option \<times> 'x merchant_db_scheme" where
  "dispatchMerchantRefund lib ml sm c p mid ident db =
     (case validateMerchantProviderMode sm p of
        Inl e \<Rightarrow> (Inl e, None, db)
      | Inr pv \<Rightarrow>
          (case in_tx (cl_drv (c 0)) (submit_refund_tx sm (c 0) ident) db of
             (Inl e, db1) \<Rightarrow> (Inl e, None, db1)
           | (Inr (r, None), db1) \<Rightarrow> (Inr r, None, db1)
           | (Inr (r, Some submitted), db1) \<Rightarrow>
               (let db2 = merchant_run lib ml sm mid db1; sent = Some (mr_account r, refundRequest r) in
                case mv_create_refund pv (mr_account r) (refundRequest r) of
                  Inl e \<Rightarrow> (Inl (PortalErr ErrMerchantUnavailable), sent, db2)
                | Inr f \<Rightarrow>
                    (case in_tx (cl_drv (c 1)) (bind_refund_tx sm (c 1) ident f submitted (mr_generation r)) db2 of (x, db3) \<Rightarrow> (x, sent, db3)))))"

definition reconcileMerchantRefund ::
  "portal_lib \<Rightarrow> merchant_lib \<Rightarrow> string \<Rightarrow> (nat \<Rightarrow> call) \<Rightarrow> merchant_provider option \<Rightarrow> history \<Rightarrow> string \<Rightarrow> string \<Rightarrow> 'x merchant_db_scheme
    \<Rightarrow> merchant_refund result \<times> 'x merchant_db_scheme" where
  "reconcileMerchantRefund lib ml sm c p mid ident provider db =
     (case validateMerchantProviderMode sm p of
        Inl e \<Rightarrow> (Inl e, db)
      | Inr pv \<Rightarrow>
          if \<not> validMerchantProviderID provider ''re_'' then (Inl Portal_ErrInvalid, db)
          else (case in_tx (cl_drv (c 0)) (start_refund_tx sm ident provider) db of
             (Inl e, db1) \<Rightarrow> (Inl e, db1)
           | (Inr r, db1) \<Rightarrow>
               (let db2 = merchant_run lib ml sm mid db1 in
                case mv_refund pv (mr_account r) provider (refundRequest r) of
                  Inl e \<Rightarrow> (Inl (PortalErr ErrMerchantUnavailable), db2)
                | Inr f \<Rightarrow>
                    if rf_ID f \<noteq> provider then (Inl ErrBillingConflict, db2)
                    else in_tx (cl_drv (c 1)) (bind_refund_tx sm (c 1) ident f (cl_now (c 0) 0) (mr_generation r + 1)) db2)))"

section \<open>Events and maintenance\<close>

text \<open>
  What one step of a loop gets from outside; \<open>ve_ended\<close> says whether the context is over when the step failed,
  \<open>ve_cancelled\<close> whether it is over before the step.
\<close>

record step_env =
  ve_calls :: "nat \<Rightarrow> call"
  ve_mid :: "nat \<Rightarrow> history"
  ve_ended :: bool
  ve_cancelled :: bool

datatype event_outcome = EventSkipped | EventFailed | EventDone

definition reconcile_event ::
  "portal_lib \<Rightarrow> merchant_lib \<Rightarrow> string \<Rightarrow> merchant_provider \<Rightarrow> step_env \<Rightarrow> merchant_event \<Rightarrow> 'x merchant_db_scheme
    \<Rightarrow> unit result \<times> 'x merchant_db_scheme" where
  "reconcile_event lib ml sm pv env e db =
     (if me_refund_request e \<noteq> [] then
        (if \<not> mv_refunds pv then (Inl Portal_ErrInvalid, db)
         else case reconcileMerchantRefund lib ml sm (\<lambda>n. ve_calls env (n + 2)) (Some pv) (ve_mid env 1) (me_refund_request e) (me_refund e) db of
                (x, db1) \<Rightarrow> (andThen x (\<lambda>_. Inr ()), db1))
      else case reconcileMerchantOrder lib ml sm (\<lambda>n. ve_calls env (n + 2)) (Some pv) (ve_mid env 1) (me_order e) (me_session e) db of
             (x, db1) \<Rightarrow> (andThen x (\<lambda>_. Inr ()), db1))"

definition process_event ::
  "portal_lib \<Rightarrow> merchant_lib \<Rightarrow> string \<Rightarrow> merchant_provider \<Rightarrow> step_env \<Rightarrow> merchant_event \<Rightarrow> 'x merchant_db_scheme
    \<Rightarrow> event_outcome result \<times> 'x merchant_db_scheme" where
  "process_event lib ml sm pv env e db =
     (case in_tx (cl_drv (ve_calls env 0)) (claim_event_tx sm (ve_calls env 0) (me_id e)) db of
        (Inl x, db1) \<Rightarrow> (Inl x, db1)
      | (Inr False, db1) \<Rightarrow> (Inr EventSkipped, db1)
      | (Inr True, db1) \<Rightarrow>
          (case reconcile_event lib ml sm pv env e (merchant_run lib ml sm (ve_mid env 0) db1) of
             (Inl x, db2) \<Rightarrow> (if ve_ended env then Inl ErrContext else Inr EventFailed, db2)
           | (Inr _, db2) \<Rightarrow>
               (case in_tx (cl_drv (ve_calls env 1)) (done_event_tx sm (me_id e)) (merchant_run lib ml sm (ve_mid env 2) db2) of
                  (Inl x, db3) \<Rightarrow> (Inl x, db3)
                | (Inr _, db3) \<Rightarrow> (Inr EventDone, db3))))"

fun process_events ::
  "portal_lib \<Rightarrow> merchant_lib \<Rightarrow> string \<Rightarrow> merchant_provider \<Rightarrow> (nat \<Rightarrow> step_env) \<Rightarrow> merchant_event list \<Rightarrow> nat \<Rightarrow> nat \<Rightarrow> 'x merchant_db_scheme
    \<Rightarrow> (nat \<times> nat) result \<times> 'x merchant_db_scheme" where
  "process_events lib ml sm pv envs [] finished failed db = (Inr (finished, failed), db)"
| "process_events lib ml sm pv envs (e # es) finished failed db =
     (case process_event lib ml sm pv (envs (length es)) e db of
        (Inl x, db1) \<Rightarrow> (Inl x, db1)
      | (Inr o', db1) \<Rightarrow>
          process_events lib ml sm pv envs es (if o' = EventDone then finished + 1 else finished)
            (if o' = EventFailed then failed + 1 else failed) db1)"

definition processMerchantEvents ::
  "portal_lib \<Rightarrow> merchant_lib \<Rightarrow> string \<Rightarrow> call \<Rightarrow> merchant_provider option \<Rightarrow> (nat \<Rightarrow> step_env) \<Rightarrow> int \<Rightarrow> 'x merchant_db_scheme
    \<Rightarrow> (nat \<times> nat) result \<times> 'x merchant_db_scheme" where
  "processMerchantEvents lib ml sm c p envs limit db =
     (case validateMerchantProviderMode sm p of
        Inl e \<Rightarrow> (Inl e, db)
      | Inr pv \<Rightarrow>
          if limit < 1 \<or> limit > 100 then (Inl Portal_ErrInvalid, db)
          else case cl_drv c of
            Some e \<Rightarrow> (Inl e, db)
          | None \<Rightarrow> process_events lib ml sm pv envs (due_events (merchantModeValue sm) (cl_now c 0) (nat limit) (merchant_events db)) 0 0 db)"

text \<open>One step of a loop over rows: the count of failures goes up, or the loop ends with the context's error.\<close>

fun maintain ::
  "(step_env \<Rightarrow> 'r \<Rightarrow> 'db \<Rightarrow> unit result \<times> 'db) \<Rightarrow> (nat \<Rightarrow> step_env) \<Rightarrow> 'r list \<Rightarrow> nat \<Rightarrow> 'db \<Rightarrow> nat result \<times> 'db" where
  "maintain step envs [] failures db = (Inr failures, db)"
| "maintain step envs (r # rs) failures db =
     (if ve_cancelled (envs (length rs)) then (Inl ErrContext, db)
      else case step (envs (length rs)) r db of
        (Inl e, db1) \<Rightarrow> if ve_ended (envs (length rs)) then (Inl ErrContext, db1) else maintain step envs rs (failures + 1) db1
      | (Inr _, db1) \<Rightarrow> maintain step envs rs failures db1)"

definition maintenance_accounts :: "string \<Rightarrow> string \<Rightarrow> nat \<Rightarrow> merchant_account list \<Rightarrow> merchant_account list" where
  "maintenance_accounts mode cursor limit as =
     take limit (sort_key ma_workspace (filter (\<lambda>a. ma_mode a = mode \<and> ma_state a = ''bound'' \<and> ma_workspace a > cursor) as))"

definition maintenance_orders :: "string \<Rightarrow> string \<Rightarrow> nat \<Rightarrow> merchant_order list \<Rightarrow> merchant_order list" where
  "maintenance_orders mode cursor limit qs =
     take limit (sort_key mo_id (filter (\<lambda>q. mo_mode q = mode \<and> coalesce (mo_session q) \<noteq> [] \<and> (mo_state q = ''open'' \<or> mo_state q = ''complete'')
       \<and> mo_payment q \<noteq> ''paid'' \<and> mo_id q > cursor) qs))"

definition maintenance_refunds :: "string \<Rightarrow> string \<Rightarrow> nat \<Rightarrow> merchant_refund list \<Rightarrow> merchant_refund list" where
  "maintenance_refunds mode cursor limit rs =
     take limit (sort_key mr_id (filter (\<lambda>r. mr_mode r = mode \<and> coalesce (mr_provider r) \<noteq> [] \<and> mr_id r > cursor) rs))"

definition next_cursor :: "('r \<Rightarrow> string) \<Rightarrow> nat \<Rightarrow> 'r list \<Rightarrow> string" where
  "next_cursor key limit rs = (if length rs = limit \<and> rs \<noteq> [] then key (last rs) else [])"

record maintenance_result =
  mx_AccountsChecked :: nat
  mx_OrdersChecked :: nat
  mx_Failures :: nat
  mx_AccountCursor :: string
  mx_OrderCursor :: string

text \<open>\<open>MaintainMerchants\<close>; the loop looks at the context only after a failure.\<close>

definition maintain_account ::
  "portal_lib \<Rightarrow> merchant_lib \<Rightarrow> string \<Rightarrow> merchant_provider \<Rightarrow> step_env \<Rightarrow> merchant_account \<Rightarrow> 'x merchant_db_scheme
    \<Rightarrow> unit result \<times> 'x merchant_db_scheme" where
  "maintain_account lib ml sm pv env a db =
     refreshMappedMerchantAccount lib ml sm (ve_calls env) pv (ve_mid env 1) a (merchant_run lib ml sm (ve_mid env 0) db)"

definition maintain_order ::
  "portal_lib \<Rightarrow> merchant_lib \<Rightarrow> string \<Rightarrow> merchant_provider \<Rightarrow> step_env \<Rightarrow> merchant_order \<Rightarrow> 'x merchant_db_scheme
    \<Rightarrow> unit result \<times> 'x merchant_db_scheme" where
  "maintain_order lib ml sm pv env q db =
     (case reconcileMerchantOrder lib ml sm (ve_calls env) (Some pv) (ve_mid env 1) (mo_id q) (coalesce (mo_session q))
             (merchant_run lib ml sm (ve_mid env 0) db) of
        (x, db1) \<Rightarrow> (andThen x (\<lambda>_. Inr ()), db1))"

definition maintain_refund ::
  "portal_lib \<Rightarrow> merchant_lib \<Rightarrow> string \<Rightarrow> merchant_provider \<Rightarrow> step_env \<Rightarrow> merchant_refund \<Rightarrow> 'x merchant_db_scheme
    \<Rightarrow> unit result \<times> 'x merchant_db_scheme" where
  "maintain_refund lib ml sm pv env r db =
     (case reconcileMerchantRefund lib ml sm (ve_calls env) (Some pv) (ve_mid env 1) (mr_id r) (coalesce (mr_provider r))
             (merchant_run lib ml sm (ve_mid env 0) db) of
        (x, db1) \<Rightarrow> (andThen x (\<lambda>_. Inr ()), db1))"

definition unhurried :: "step_env \<Rightarrow> step_env" where
  "unhurried env = env\<lparr>ve_cancelled := False\<rparr>"

definition maintainMerchants ::
  "portal_lib \<Rightarrow> merchant_lib \<Rightarrow> string \<Rightarrow> (nat \<Rightarrow> call) \<Rightarrow> merchant_provider option \<Rightarrow> (nat \<Rightarrow> step_env) \<Rightarrow> (nat \<Rightarrow> step_env) \<Rightarrow> history
    \<Rightarrow> string \<Rightarrow> string \<Rightarrow> int \<Rightarrow> 'x merchant_db_scheme \<Rightarrow> maintenance_result result \<times> 'x merchant_db_scheme" where
  "maintainMerchants lib ml sm c p envs envs' mid account order limit db =
     (case validateMerchantProviderMode sm p of
        Inl e \<Rightarrow> (Inl e, db)
      | Inr pv \<Rightarrow>
          if limit < 1 \<or> limit > 100 then (Inl Portal_ErrInvalid, db)
          else case cl_drv (c 0) of
            Some e \<Rightarrow> (Inl e, db)
          | None \<Rightarrow>
              (let as = maintenance_accounts (merchantModeValue sm) account (nat limit) (merchant_accounts db) in
               case maintain (maintain_account lib ml sm pv) (\<lambda>n. unhurried (envs n)) as 0 db of
                 (Inl e, db1) \<Rightarrow> (Inl e, db1)
               | (Inr failures, db1) \<Rightarrow>
                   (let db2 = merchant_run lib ml sm mid db1 in
                    case cl_drv (c 1) of
                      Some e \<Rightarrow> (Inl e, db2)
                    | None \<Rightarrow>
                        (let qs = maintenance_orders (merchantModeValue sm) order (nat limit) (merchant_orders db2) in
                         case maintain (maintain_order lib ml sm pv) (\<lambda>n. unhurried (envs' n)) qs failures db2 of
                           (Inl e, db3) \<Rightarrow> (Inl e, db3)
                         | (Inr failures', db3) \<Rightarrow>
                             (Inr \<lparr>mx_AccountsChecked = length as, mx_OrdersChecked = length qs, mx_Failures = failures',
                                   mx_AccountCursor = next_cursor ma_workspace (nat limit) as,
                                   mx_OrderCursor = next_cursor mo_id (nat limit) qs\<rparr>, db3)))))"

text \<open>\<open>MaintainMerchantRefunds\<close>: the checked, the failures and the next cursor.\<close>

definition maintainMerchantRefunds ::
  "portal_lib \<Rightarrow> merchant_lib \<Rightarrow> string \<Rightarrow> call \<Rightarrow> merchant_provider option \<Rightarrow> (nat \<Rightarrow> step_env) \<Rightarrow> string \<Rightarrow> int \<Rightarrow> 'x merchant_db_scheme
    \<Rightarrow> (nat \<times> nat \<times> string) result \<times> 'x merchant_db_scheme" where
  "maintainMerchantRefunds lib ml sm c p envs cursor limit db =
     (case validateMerchantProviderMode sm p of
        Inl e \<Rightarrow> (Inl e, db)
      | Inr pv \<Rightarrow>
          if limit < 1 \<or> limit > 100 then (Inl Portal_ErrInvalid, db)
          else case cl_drv c of
            Some e \<Rightarrow> (Inl e, db)
          | None \<Rightarrow>
              (let rs = maintenance_refunds (merchantModeValue sm) cursor (nat limit) (merchant_refunds db) in
               case maintain (maintain_refund lib ml sm pv) envs rs 0 db of
                 (Inl e, db1) \<Rightarrow> (Inl e, db1)
               | (Inr failures, db1) \<Rightarrow> (Inr (length rs - failures, failures, next_cursor mr_id (nat limit) rs), db1)))"

end
