(* ===== verification/Merchant_Safety.thy ===== *)
theory Merchant_Safety
  imports Merchant_Calls
begin

text \<open>
  The shop as an abstract machine: the tables of accounts, products, orders and refunds, and the steps \<open>shop_step\<close>
  that may change them. Every transaction of the store that commits is one such step (\<open>body_step\<close>), so the invariant
  \<open>shop_ok\<close> and the order \<open>order_le\<close> in which an order progresses are proved on the steps alone.
\<close>

section \<open>The abstract shop\<close>

record shop =
  sh_accounts :: "merchant_account list"
  sh_products :: "merchant_product list"
  sh_orders :: "merchant_order list"
  sh_refunds :: "merchant_refund list"

definition shop_of :: "'x merchant_db_scheme \<Rightarrow> shop" where
  "shop_of db = \<lparr>sh_accounts = merchant_accounts db, sh_products = merchant_products db, sh_orders = merchant_orders db,
     sh_refunds = merchant_refunds db\<rparr>"

lemma shop_of_simps [simp]:
  "sh_accounts (shop_of db) = merchant_accounts db" "sh_products (shop_of db) = merchant_products db"
  "sh_orders (shop_of db) = merchant_orders db" "sh_refunds (shop_of db) = merchant_refunds db"
  by (simp_all add: shop_of_def)

subsection \<open>How a row may change\<close>

definition account_le :: "merchant_account \<Rightarrow> merchant_account \<Rightarrow> bool" where
  "account_le a b \<longleftrightarrow>
     ma_key b = ma_key a \<and> ma_req b = ma_req a \<and> ma_actor b = ma_actor a \<and> ma_country b = ma_country a
     \<and> (ma_state a \<noteq> ''requested'' \<longrightarrow> ma_state b \<noteq> ''requested'')
     \<and> (ma_state a = ''bound'' \<longrightarrow> ma_state b = ''bound'' \<and> ma_account b = ma_account a)
     \<and> ma_generation a \<le> ma_generation b"

definition product_le :: "merchant_product \<Rightarrow> merchant_product \<Rightarrow> bool" where
  "product_le p q \<longleftrightarrow>
     mp_ident q = mp_ident p \<and> mp_req q = mp_req p
     \<and> (mp_revision p < mp_revision q \<or> mp_revision p = mp_revision q \<and> mp_name q = mp_name p \<and> mp_currency q = mp_currency p \<and> mp_amount q = mp_amount p)"

definition order_rank :: "merchant_order \<Rightarrow> nat" where
  "order_rank q = (if mo_state q = ''requested'' then 0 else if mo_state q = ''submitted'' then 1 else if mo_state q = ''open'' then 2 else 3)"

definition order_terms :: "merchant_order \<Rightarrow> (string \<times> string) \<times> (string \<times> string \<times> string) \<times> string list \<times> int list" where
  "order_terms q = (mo_ident q, mo_req q, [mo_workspace q, mo_product q, mo_account q, mo_name q, mo_currency q],
     [mo_product_revision q, mo_amount q, mo_created q])"

definition order_le :: "merchant_order \<Rightarrow> merchant_order \<Rightarrow> bool" where
  "order_le q p \<longleftrightarrow>
     order_terms p = order_terms q
     \<and> order_rank q \<le> order_rank p \<and> (order_rank q = 3 \<longrightarrow> mo_state p = mo_state q)
     \<and> (mo_payment q = ''paid'' \<longrightarrow> mo_payment p = ''paid'')
     \<and> (coalesce (mo_session q) \<noteq> [] \<longrightarrow> mo_session p = mo_session q)
     \<and> (mo_intent q \<noteq> [] \<longrightarrow> mo_intent p = mo_intent q)
     \<and> (mo_fulfilled_at q \<noteq> 0 \<longrightarrow> mo_fulfilled_at p = mo_fulfilled_at q \<and> mo_fulfilled_by p = mo_fulfilled_by q)
     \<and> mo_generation q \<le> mo_generation p"

definition refund_terms :: "merchant_refund \<Rightarrow> (string \<times> string) \<times> (string \<times> string) \<times> string list \<times> int" where
  "refund_terms r = (mr_ident r, mr_of r, [mr_workspace r, mr_actor r, mr_account r, mr_intent r, mr_currency r], mr_amount r)"

definition refund_le :: "merchant_refund \<Rightarrow> merchant_refund \<Rightarrow> bool" where
  "refund_le r s \<longleftrightarrow>
     refund_terms s = refund_terms r
     \<and> (mr_state r \<noteq> ''requested'' \<longrightarrow> mr_state s \<noteq> ''requested'')
     \<and> (coalesce (mr_provider r) \<noteq> [] \<longrightarrow> mr_provider s = mr_provider r)
     \<and> mr_generation r \<le> mr_generation s"

lemma le_refl [simp]: "account_le a a" "product_le p p" "order_le q q" "refund_le r r"
  by (simp_all add: account_le_def product_le_def order_le_def refund_le_def)

lemma order_le_trans:
  assumes qp: "order_le q p" and ps: "order_le p s"
  shows "order_le q s"
  unfolding order_le_def
proof (intro conjI impI)
  note qp [unfolded order_le_def] and ps [unfolded order_le_def]
  note le = this
  have "order_rank p = 3" if "order_rank q = 3" using qp that by (simp add: order_le_def order_rank_def split: if_splits)
  then show "mo_state s = mo_state q" if "order_rank q = 3" using le that by simp
qed (use qp ps in \<open>simp_all add: order_le_def\<close>)

lemma refund_le_trans: "refund_le r s \<Longrightarrow> refund_le s t \<Longrightarrow> refund_le r t"
  by (auto simp: refund_le_def)

lemma account_le_trans: "account_le a b \<Longrightarrow> account_le b c \<Longrightarrow> account_le a c"
  by (auto simp: account_le_def)

subsection \<open>Well-formed rows\<close>

definition paid_up :: "merchant_order \<Rightarrow> bool" where
  "paid_up q \<longleftrightarrow> mo_state q = ''complete'' \<and> mo_payment q = ''paid'' \<and> validMerchantProviderID (mo_intent q) ''pi_''"

definition order_ok :: "merchant_order \<Rightarrow> bool" where
  "order_ok q \<longleftrightarrow>
     mo_state q \<in> {''requested'', ''submitted'', ''open'', ''complete'', ''expired''}
     \<and> (mo_payment q = ''paid'' \<longrightarrow> paid_up q) \<and> (mo_fulfilled_at q \<noteq> 0 \<longrightarrow> paid_up q)
     \<and> 50 \<le> mo_amount q \<and> mo_amount q \<le> 99999999"

definition product_ok :: "merchant_product \<Rightarrow> bool" where
  "product_ok p \<longleftrightarrow> 50 \<le> mp_amount p \<and> mp_amount p \<le> 99999999"

text \<open>The unique index over the rows whose nullable column is set.\<close>

definition uniq :: "('r \<Rightarrow> 'k) \<Rightarrow> ('r \<Rightarrow> 'v option) \<Rightarrow> 'r list \<Rightarrow> bool" where
  "uniq key f rows \<longleftrightarrow> (\<forall>x \<in> set rows. \<forall>y \<in> set rows. f x \<noteq> None \<and> f x = f y \<longrightarrow> key x = key y)"

definition account_index :: "merchant_account \<Rightarrow> (string \<times> string) option" where
  "account_index a = map_option (Pair (ma_mode a)) (ma_account a)"

definition session_index :: "merchant_order \<Rightarrow> (string \<times> string \<times> string) option" where
  "session_index q = map_option (\<lambda>s. (mo_mode q, mo_account q, s)) (mo_session q)"

definition provider_index :: "merchant_refund \<Rightarrow> (string \<times> string \<times> string) option" where
  "provider_index r = map_option (\<lambda>s. (mr_mode r, mr_account r, s)) (mr_provider r)"

lemma uniq_append:
  assumes "uniq key f rows" and "f x = None"
  shows "uniq key f (rows @ [x])"
  unfolding uniq_def
proof (intro ballI impI)
  fix a b
  assume "a \<in> set (rows @ [x])" "b \<in> set (rows @ [x])" and f: "f a \<noteq> None \<and> f a = f b"
  with assms(2) have "a \<in> set rows" "b \<in> set rows" by auto
  with assms(1) f show "key a = key b" unfolding uniq_def by blast
qed

text \<open>
  What an order sells. When it is placed, the product is active, at the revision the order names, and has its name and
  price (\<open>offers\<close>). Later the product may be revised; as long as it is at that revision the order still has its name and
  price, and it never falls behind (\<open>sells\<close>). The order pays the bound account of the workspace (\<open>earns\<close>).
\<close>

definition offers :: "merchant_product list \<Rightarrow> merchant_order \<Rightarrow> bool" where
  "offers ps q \<longleftrightarrow> (\<exists>p \<in> set ps. mp_ident p = (mo_mode q, mo_product q) \<and> mp_workspace p = mo_workspace q \<and> mp_active p
     \<and> mp_revision p = mo_product_revision q \<and> mp_name p = mo_name q \<and> mp_currency p = mo_currency q \<and> mp_amount p = mo_amount q)"

definition sells :: "merchant_product list \<Rightarrow> merchant_order \<Rightarrow> bool" where
  "sells ps q \<longleftrightarrow> (\<exists>p \<in> set ps. mp_ident p = (mo_mode q, mo_product q) \<and> mp_workspace p = mo_workspace q
     \<and> (mo_product_revision q < mp_revision p
        \<or> mo_product_revision q = mp_revision p \<and> mo_name q = mp_name p \<and> mo_currency q = mp_currency p \<and> mo_amount q = mp_amount p))"

definition earns :: "merchant_account list \<Rightarrow> merchant_order \<Rightarrow> bool" where
  "earns as q \<longleftrightarrow> (\<exists>a \<in> set as. ma_key a = (mo_mode q, mo_workspace q) \<and> ma_state a = ''bound'' \<and> coalesce (ma_account a) = mo_account q)"

text \<open>A refund repays a paid order: its account, payment, currency and whole amount.\<close>

definition repays :: "merchant_order \<Rightarrow> merchant_refund \<Rightarrow> bool" where
  "repays q r \<longleftrightarrow> mr_of r = mo_ident q \<and> paid_up q \<and> mr_workspace r = mo_workspace q \<and> mr_account r = mo_account q
     \<and> mr_intent r = mo_intent q \<and> mr_currency r = mo_currency q \<and> mr_amount r = mo_amount q"

subsection \<open>The steps\<close>

inductive shop_step :: "shop \<Rightarrow> shop \<Rightarrow> bool" where
  stay: "shop_step s s"
| accounts: "list_all2 account_le (sh_accounts s) as \<Longrightarrow> uniq ma_req account_index as \<Longrightarrow> shop_step s (s\<lparr>sh_accounts := as\<rparr>)"
| new_account: "ma_key a \<notin> ma_key ` set (sh_accounts s) \<Longrightarrow> ma_req a \<notin> ma_req ` set (sh_accounts s) \<Longrightarrow> ma_account a = None
    \<Longrightarrow> shop_step s (s\<lparr>sh_accounts := sh_accounts s @ [a]\<rparr>)"
| products: "list_all2 product_le (sh_products s) ps \<Longrightarrow> list_all product_ok ps \<Longrightarrow> shop_step s (s\<lparr>sh_products := ps\<rparr>)"
| new_product: "mp_ident p \<notin> mp_ident ` set (sh_products s) \<Longrightarrow> mp_req p \<notin> mp_req ` set (sh_products s) \<Longrightarrow> product_ok p
    \<Longrightarrow> shop_step s (s\<lparr>sh_products := sh_products s @ [p]\<rparr>)"
| orders: "list_all2 order_le (sh_orders s) qs \<Longrightarrow> list_all order_ok qs \<Longrightarrow> uniq mo_ident session_index qs
    \<Longrightarrow> shop_step s (s\<lparr>sh_orders := qs\<rparr>)"
| new_order: "mo_ident q \<notin> mo_ident ` set (sh_orders s) \<Longrightarrow> mo_req q \<notin> mo_req ` set (sh_orders s) \<Longrightarrow> order_ok q
    \<Longrightarrow> mo_session q = None \<Longrightarrow> offers (sh_products s) q \<Longrightarrow> earns (sh_accounts s) q \<Longrightarrow> shop_step s (s\<lparr>sh_orders := sh_orders s @ [q]\<rparr>)"
| refunds: "list_all2 refund_le (sh_refunds s) rs \<Longrightarrow> uniq mr_ident provider_index rs \<Longrightarrow> shop_step s (s\<lparr>sh_refunds := rs\<rparr>)"
| new_refund: "mr_ident r \<notin> mr_ident ` set (sh_refunds s) \<Longrightarrow> mr_of r \<notin> mr_of ` set (sh_refunds s) \<Longrightarrow> mr_provider r = None
    \<Longrightarrow> q \<in> set (sh_orders s) \<Longrightarrow> repays q r \<Longrightarrow> shop_step s (s\<lparr>sh_refunds := sh_refunds s @ [r]\<rparr>)"

inductive_cases shop_stepE: "shop_step s s'"

lemmas shop_step_cases = shop_stepE [consumes 1, case_names stay accounts new_account products new_product orders new_order refunds new_refund]

definition shop_ok :: "shop \<Rightarrow> bool" where
  "shop_ok s \<longleftrightarrow>
     distinct (map ma_key (sh_accounts s)) \<and> distinct (map ma_req (sh_accounts s)) \<and> uniq ma_req account_index (sh_accounts s)
     \<and> distinct (map mp_ident (sh_products s)) \<and> distinct (map mp_req (sh_products s)) \<and> list_all product_ok (sh_products s)
     \<and> distinct (map mo_ident (sh_orders s)) \<and> distinct (map mo_req (sh_orders s)) \<and> uniq mo_ident session_index (sh_orders s)
     \<and> list_all order_ok (sh_orders s) \<and> list_all (sells (sh_products s)) (sh_orders s) \<and> list_all (earns (sh_accounts s)) (sh_orders s)
     \<and> distinct (map mr_ident (sh_refunds s)) \<and> distinct (map mr_of (sh_refunds s)) \<and> uniq mr_ident provider_index (sh_refunds s)
     \<and> list_all (\<lambda>r. \<exists>q \<in> set (sh_orders s). repays q r) (sh_refunds s)"

lemma shop_okD:
  assumes "shop_ok s"
  shows "distinct (map ma_key (sh_accounts s))" "distinct (map ma_req (sh_accounts s))" "uniq ma_req account_index (sh_accounts s)"
    "distinct (map mp_ident (sh_products s))" "distinct (map mp_req (sh_products s))" "list_all product_ok (sh_products s)"
    "distinct (map mo_ident (sh_orders s))" "distinct (map mo_req (sh_orders s))" "uniq mo_ident session_index (sh_orders s)"
    "list_all order_ok (sh_orders s)" "list_all (sells (sh_products s)) (sh_orders s)" "list_all (earns (sh_accounts s)) (sh_orders s)"
    "distinct (map mr_ident (sh_refunds s))" "distinct (map mr_of (sh_refunds s))" "uniq mr_ident provider_index (sh_refunds s)"
    "list_all (\<lambda>r. \<exists>q \<in> set (sh_orders s). repays q r) (sh_refunds s)"
  using assms by (simp_all add: shop_ok_def)

subsection \<open>Rows that change in place\<close>

lemma list_all2_keys: "list_all2 R xs ys \<Longrightarrow> (\<And>x y. R x y \<Longrightarrow> k y = k x) \<Longrightarrow> map k ys = map k xs"
  by (induction rule: list_all2_induct) auto

lemma list_all2_from: "list_all2 R xs ys \<Longrightarrow> y \<in> set ys \<Longrightarrow> \<exists>x \<in> set xs. R x y"
  by (induction rule: list_all2_induct) auto

lemma list_all2_to: "list_all2 R xs ys \<Longrightarrow> x \<in> set xs \<Longrightarrow> \<exists>y \<in> set ys. R x y"
  by (induction rule: list_all2_induct) auto

lemma list_all2_map_same: "list_all2 R xs (map f xs) \<longleftrightarrow> (\<forall>x \<in> set xs. R x (f x))"
  by (induction xs) auto

lemma sells_le: "sells ps q \<Longrightarrow> list_all2 product_le ps ps' \<Longrightarrow> sells ps' q"
proof -
  assume "sells ps q" and le: "list_all2 product_le ps ps'"
  then obtain p where p: "p \<in> set ps" "mp_ident p = (mo_mode q, mo_product q)" "mp_workspace p = mo_workspace q"
    "mo_product_revision q < mp_revision p \<or> mo_product_revision q = mp_revision p \<and> mo_name q = mp_name p \<and> mo_currency q = mp_currency p \<and> mo_amount q = mp_amount p"
    by (auto simp: sells_def)
  from list_all2_to [OF le p(1)] obtain p' where p': "p' \<in> set ps'" "product_le p p'" by blast
  from p'(2) have "mp_ident p' = mp_ident p" "mp_workspace p' = mp_workspace p" by (simp_all add: product_le_def mp_req_def)
  with p p' show ?thesis unfolding sells_def product_le_def by (intro bexI [of _ p']) auto
qed

lemma offers_sells: "offers ps q \<Longrightarrow> sells ps q"
  unfolding offers_def sells_def by (elim bexE, rule bexI) auto

lemma earns_le: "earns as q \<Longrightarrow> list_all2 account_le as as' \<Longrightarrow> earns as' q"
  unfolding earns_def by (metis account_le_def list_all2_to)

lemma terms_fields:
  assumes "order_terms p = order_terms q"
  shows "mo_ident p = mo_ident q" "mo_req p = mo_req q" "mo_mode p = mo_mode q" "mo_id p = mo_id q" "mo_workspace p = mo_workspace q"
    "mo_product p = mo_product q" "mo_product_revision p = mo_product_revision q" "mo_account p = mo_account q"
    "mo_name p = mo_name q" "mo_currency p = mo_currency q" "mo_amount p = mo_amount q"
  using assms by (simp_all add: order_terms_def mo_ident_def)

lemma sells_terms: "order_terms p = order_terms q \<Longrightarrow> sells ps p = sells ps q"
  by (simp add: sells_def terms_fields [of p q])

lemma offers_terms: "order_terms p = order_terms q \<Longrightarrow> offers ps p = offers ps q"
  by (simp add: offers_def terms_fields [of p q])

lemma earns_terms: "order_terms p = order_terms q \<Longrightarrow> earns as p = earns as q"
  by (simp add: earns_def terms_fields [of p q])

lemma paid_up_le:
  assumes le: "order_le q p" and paid: "paid_up q"
  shows "paid_up p" "mo_intent p = mo_intent q"
proof -
  from paid have "mo_intent q \<noteq> []" by (auto simp: paid_up_def validMerchantProviderID_def)
  with le show "mo_intent p = mo_intent q" by (simp add: order_le_def)
  moreover from paid have "order_rank q = 3" by (simp add: paid_up_def order_rank_def)
  with le paid have "mo_state p = ''complete''" "mo_payment p = ''paid''" by (simp_all add: order_le_def paid_up_def)
  ultimately show "paid_up p" using paid by (simp add: paid_up_def)
qed

lemma repays_le:
  assumes le: "order_le q p" and r: "repays q r"
  shows "repays p r"
proof -
  from le have "order_terms p = order_terms q" by (simp add: order_le_def)
  note terms_fields [OF this]
  moreover from r have "paid_up q" by (simp add: repays_def)
  note paid_up_le [OF le this]
  ultimately show ?thesis using r by (simp add: repays_def)
qed

lemma repays_refund_le: "refund_le r s \<Longrightarrow> repays q s = repays q r"
  by (auto simp: repays_def refund_le_def refund_terms_def)

subsection \<open>The invariant\<close>

lemma shop_ok_step:
  assumes step: "shop_step s s'" and ok: "shop_ok s"
  shows "shop_ok s'"
  using step
proof (cases rule: shop_step_cases)
  case stay
  with ok show ?thesis by simp
next
  case (accounts as)
  from accounts(2) have "map ma_key as = map ma_key (sh_accounts s)" "map ma_req as = map ma_req (sh_accounts s)"
    by (rule list_all2_keys; simp add: account_le_def)+
  moreover have "list_all (earns as) (sh_orders s)"
    using shop_okD(12) [OF ok] earns_le [OF _ accounts(2)] by (auto simp: list_all_iff)
  ultimately show ?thesis using ok accounts by (simp add: shop_ok_def)
next
  case (new_account a)
  have "list_all (earns (sh_accounts s @ [a])) (sh_orders s)"
    using shop_okD(12) [OF ok] by (auto simp: list_all_iff earns_def)
  moreover have "uniq ma_req account_index (sh_accounts s @ [a])"
    using shop_okD(3) [OF ok] new_account by (intro uniq_append) (simp_all add: account_index_def)
  ultimately show ?thesis using ok new_account by (simp add: shop_ok_def)
next
  case (products ps)
  from products(2) have "map mp_ident ps = map mp_ident (sh_products s)" "map mp_req ps = map mp_req (sh_products s)"
    by (rule list_all2_keys; simp add: product_le_def)+
  moreover have "list_all (sells ps) (sh_orders s)"
    using shop_okD(11) [OF ok] sells_le [OF _ products(2)] by (auto simp: list_all_iff)
  ultimately show ?thesis using ok products by (simp add: shop_ok_def)
next
  case (new_product p)
  have "list_all (sells (sh_products s @ [p])) (sh_orders s)"
    using shop_okD(11) [OF ok] by (fastforce simp: list_all_iff sells_def)
  with ok new_product show ?thesis by (simp add: shop_ok_def)
next
  case (orders qs)
  from orders(2) have keys: "map mo_ident qs = map mo_ident (sh_orders s)" "map mo_req qs = map mo_req (sh_orders s)"
    by (rule list_all2_keys; simp add: order_le_def order_terms_def)+
  have old: "\<exists>q \<in> set (sh_orders s). order_terms p = order_terms q" if "p \<in> set qs" for p
    using list_all2_from [OF orders(2) that] by (auto simp: order_le_def)
  have "list_all (sells (sh_products s)) qs" "list_all (earns (sh_accounts s)) qs"
    unfolding list_all_iff using shop_okD(11,12) [OF ok, unfolded list_all_iff] old by (meson sells_terms earns_terms)+
  moreover have "list_all (\<lambda>r. \<exists>q \<in> set qs. repays q r) (sh_refunds s)"
    using shop_okD(16) [OF ok] list_all2_to [OF orders(2)] unfolding list_all_iff by (meson repays_le)
  ultimately show ?thesis using ok orders keys by (simp add: shop_ok_def)
next
  case (new_order q)
  have "uniq mo_ident session_index (sh_orders s @ [q])"
    using shop_okD(9) [OF ok] new_order by (intro uniq_append) (simp_all add: session_index_def)
  moreover have "list_all (\<lambda>r. \<exists>q \<in> set (sh_orders s @ [q]). repays q r) (sh_refunds s)"
    using shop_okD(16) [OF ok] by (auto simp: list_all_iff)
  ultimately show ?thesis using ok new_order offers_sells by (simp add: shop_ok_def)
next
  case (refunds rs)
  from refunds(2) have "map mr_ident rs = map mr_ident (sh_refunds s)" "map mr_of rs = map mr_of (sh_refunds s)"
    by (rule list_all2_keys; simp add: refund_le_def refund_terms_def)+
  moreover have "list_all (\<lambda>r. \<exists>q \<in> set (sh_orders s). repays q r) rs"
    using shop_okD(16) [OF ok] list_all2_from [OF refunds(2)] unfolding list_all_iff by (meson repays_refund_le)
  ultimately show ?thesis using ok refunds by (simp add: shop_ok_def)
next
  case (new_refund r q)
  have "uniq mr_ident provider_index (sh_refunds s @ [r])"
    using shop_okD(15) [OF ok] new_refund by (intro uniq_append) (simp_all add: provider_index_def)
  with ok new_refund show ?thesis by (auto simp: shop_ok_def)
qed

text \<open>Rows are never lost, and only move forward.\<close>

lemma order_kept:
  assumes "shop_step s s'" and "q \<in> set (sh_orders s)"
  shows "\<exists>p \<in> set (sh_orders s'). order_le q p"
  using assms by (cases rule: shop_step_cases) (auto dest: list_all2_to intro: le_refl)

text \<open>An order of the later state was there before with the same terms, or is placed by the step.\<close>

lemma order_origin:
  assumes "shop_step s s'" and "p \<in> set (sh_orders s')"
  shows "(\<exists>q \<in> set (sh_orders s). order_terms p = order_terms q) \<or> offers (sh_products s) p"
  using assms by (cases rule: shop_step_cases) (auto dest!: list_all2_from simp: order_le_def)

lemma refund_kept:
  assumes "shop_step s s'" and "r \<in> set (sh_refunds s)"
  shows "\<exists>t \<in> set (sh_refunds s'). refund_le r t"
  using assms by (cases rule: shop_step_cases) (auto dest: list_all2_to intro: le_refl)

lemma account_kept:
  assumes "shop_step s s'" and "a \<in> set (sh_accounts s)"
  shows "\<exists>b \<in> set (sh_accounts s'). account_le a b"
  using assms by (cases rule: shop_step_cases) (auto dest: list_all2_to intro: le_refl)

section \<open>Every transaction is a step\<close>

lemma audit_shop: "audit ident actor ws action now db = Inr db' \<Longrightarrow> shop_of db' = shop_of db"
  by (auto simp: shop_of_def dest!: auditD)

lemma more_shop: "accounts_db.more db' = accounts_db.more db \<Longrightarrow> shop_of db' = shop_of db"
  by (cases db, cases db') (simp add: shop_of_def)

lemma intent_shop: "merchantActionIntent c actor ws action db = Inr (request, db') \<Longrightarrow> shop_of db' = shop_of db"
  by (auto simp: merchantActionIntent_def Let_def dest: audit_shop)

lemma row_is: "distinct (map key rows) \<Longrightarrow> get_row key k rows = Some r \<Longrightarrow> q \<in> set rows \<Longrightarrow> key q = k \<Longrightarrow> q = r"
  using get_row_unique [of key rows q] by simp

lemma uniq_map:
  assumes "uniq key f rows" and "\<forall>x \<in> set rows. key (g x) = key x"
    and "\<forall>x \<in> set rows. f (g x) = f x \<or> f (g x) = Some v \<and> key x = k" and "\<forall>x \<in> set rows. f x = Some v \<longrightarrow> key x = k"
  shows "uniq key f (map g rows)"
  unfolding uniq_def
proof (intro ballI impI)
  fix a b
  assume "a \<in> set (map g rows)" "b \<in> set (map g rows)" and f: "f a \<noteq> None \<and> f a = f b"
  then obtain x y where xy: "x \<in> set rows" "y \<in> set rows" "a = g x" "b = g y" by auto
  show "key a = key b"
  proof (cases "f (g x) = f x \<and> f (g y) = f y")
    case True
    with xy(3,4) f have "f x \<noteq> None \<and> f x = f y" by metis
    with assms(1) xy(1,2) have "key x = key y" unfolding uniq_def by blast
    with xy assms(2) show ?thesis by simp
  next
    case False
    with xy f assms(3) have "f a = Some v" by metis
    with xy f assms(3,4) have "key x = k" "key y = k" by metis+
    with xy assms(2) show ?thesis by simp
  qed
qed

lemma uniq_same:
  assumes "uniq key f rows" and "\<forall>x \<in> set rows. key (g x) = key x \<and> f (g x) = f x"
  shows "uniq key f (map g rows)"
  unfolding uniq_def
proof (intro ballI impI)
  fix a b
  assume "a \<in> set (map g rows)" "b \<in> set (map g rows)" and f: "f a \<noteq> None \<and> f a = f b"
  then obtain x y where xy: "x \<in> set rows" "y \<in> set rows" "a = g x" "b = g y" by auto
  with f assms(2) have "f x \<noteq> None \<and> f x = f y" by metis
  with assms(1) xy(1,2) have "key x = key y" unfolding uniq_def by blast
  with xy assms(2) show "key a = key b" by simp
qed

subsection \<open>Accounts and products\<close>

text \<open>An update of the accounts in place that leaves their identifiers alone.\<close>

lemma account_update:
  assumes "shop_ok s" and "\<forall>a \<in> set (sh_accounts s). account_le a (f a) \<and> ma_account (f a) = ma_account a"
  shows "shop_step s (s\<lparr>sh_accounts := map f (sh_accounts s)\<rparr>)"
proof (rule shop_step.accounts)
  show "list_all2 account_le (sh_accounts s) (map f (sh_accounts s))" using assms(2) by (simp add: list_all2_map_same)
  show "uniq ma_req account_index (map f (sh_accounts s))"
    using shop_okD(3) [OF assms(1)] by (rule uniq_same) (use assms(2) in \<open>auto simp: account_le_def account_index_def ma_key_def\<close>)
qed

lemma request_account_step:
  assumes "request_account_tx lib sm c token ws country db = Inr (a, db')"
  shows "shop_step (shop_of db) (shop_of db')"
proof (cases "get_row ma_key (merchantModeValue sm, ws) (merchant_accounts db)")
  case (Some b)
  with assms show ?thesis by (auto simp: request_account_tx_def Let_def intro: shop_step.stay)
next
  case None
  with assms have new: "shop_of db' = (shop_of db)\<lparr>sh_accounts := sh_accounts (shop_of db) @ [a]\<rparr>" "ma_account a = None"
    "ma_key a = (merchantModeValue sm, ws)" "ma_req a \<notin> ma_req ` set (merchant_accounts db)"
    by (auto simp: request_account_tx_def Let_def insert_row_Inr ma_key_def shop_of_def dest!: auditD)
  show ?thesis unfolding new(1) by (rule shop_step.new_account) (use new None in \<open>simp_all add: get_row_None\<close>)
qed

lemma submit_account_step:
  assumes ok: "shop_ok (shop_of db)" and tx: "submit_account_tx sm c request db = Inr (r, db')"
  shows "shop_step (shop_of db) (shop_of db')"
proof -
  let ?f = "\<lambda>q. if ma_req q = (merchantModeValue sm, request) \<and> ma_state q = ''requested''
    then q\<lparr>ma_state := ''submitted'', ma_submitted := cl_now c 0\<rparr> else q"
  from tx consider "db' = db" | "shop_of db' = (shop_of db)\<lparr>sh_accounts := map ?f (sh_accounts (shop_of db))\<rparr>"
    by (auto simp: submit_account_tx_def Let_def shop_of_def dest!: auditD split: if_splits)
  then show ?thesis
  proof cases
    case 2
    show ?thesis unfolding 2 by (rule account_update [OF ok]) (auto simp: account_le_def ma_key_def ma_req_def)
  qed (simp add: shop_step.stay)
qed

lemma bind_account_step:
  assumes ok: "shop_ok (shop_of db)" and tx: "bind_account_tx sm c request pa db = Inr (r, db')"
  shows "shop_step (shop_of db) (shop_of db')"
proof -
  let ?m = "merchantModeValue sm"
  let ?f = "\<lambda>q. if ma_req q = (?m, request) \<and> ma_state q = ''submitted'' \<and> ma_account q = None
    then q\<lparr>ma_account := Some (ca_ID pa), ma_state := ''bound'', ma_snapshot := Some pa\<rparr> else q"
  from tx consider "db' = db" | "shop_of db' = (shop_of db)\<lparr>sh_accounts := map ?f (sh_accounts (shop_of db))\<rparr>"
      "filter (\<lambda>q. ma_mode q = ?m \<and> ma_account q = Some (ca_ID pa) \<and> ma_request q \<noteq> request) (merchant_accounts db) = []"
    by (auto simp: bind_account_tx_def Let_def shop_of_def dest!: auditD split: if_splits)
  then show ?thesis
  proof cases
    case 2
    have used: "ma_req q = (?m, request)" if "q \<in> set (merchant_accounts db)" "account_index q = Some (?m, ca_ID pa)" for q
      using 2(2) that by (auto simp: filter_empty_conv account_index_def ma_req_def)
    show ?thesis unfolding 2(1)
    proof (rule shop_step.accounts)
      show "list_all2 account_le (sh_accounts (shop_of db)) (map ?f (sh_accounts (shop_of db)))"
        by (auto simp: list_all2_map_same account_le_def ma_key_def ma_req_def)
      show "uniq ma_req account_index (map ?f (sh_accounts (shop_of db)))"
        by (rule uniq_map [OF shop_okD(3) [OF ok], where v = "(?m, ca_ID pa)" and k = "(?m, request)"])
          (use used in \<open>auto simp: ma_req_def account_index_def\<close>)
    qed
  qed (simp add: shop_step.stay)
qed

lemma onboarding_step:
  "onboarding_tx lib sm c token ws db = Inr (r, db') \<Longrightarrow> shop_of db' = shop_of db"
  by (auto simp: onboarding_tx_def split: prod.splits dest: intent_shop)

lemma onboarded_step:
  "onboarded_tx lib sm c token ws actor a request now db = Inr (r, db') \<Longrightarrow> shop_of db' = shop_of db"
  by (auto simp: onboarded_tx_def dest: audit_shop)

lemma start_refresh_step:
  assumes ok: "shop_ok (shop_of db)" and tx: "start_refresh_tx lib sm c token ws db = Inr (r, db')"
  shows "shop_step (shop_of db) (shop_of db')"
proof -
  let ?f = "\<lambda>q. if ma_key q = (merchantModeValue sm, ws) then q\<lparr>ma_generation := ma_generation q + 1\<rparr> else q"
  obtain db1 actor request where i: "merchantActionIntent c actor ws ''refresh'' db = Inr (request, db1)"
    and db': "db' = db1\<lparr>merchant_accounts := map ?f (merchant_accounts db1)\<rparr>"
    using tx by (auto simp: start_refresh_tx_def Let_def upd_row_def split: prod.splits)
  from intent_shop [OF i] have "merchant_accounts db1 = merchant_accounts db" by (metis shop_of_simps(1))
  with intent_shop [OF i] have "shop_of db' = (shop_of db)\<lparr>sh_accounts := map ?f (sh_accounts (shop_of db))\<rparr>"
    unfolding db' by (simp add: shop_of_def)
  then show ?thesis by (simp only:) (rule account_update [OF ok], auto simp: account_le_def ma_key_def ma_req_def)
qed

lemma finish_refresh_step:
  assumes ok: "shop_ok (shop_of db)" and tx: "finish_refresh_tx lib sm c token ws account gen pa db = Inr (r, db')"
  shows "shop_step (shop_of db) (shop_of db')"
proof -
  let ?f = "\<lambda>q. if fenced_account (merchantModeValue sm) ws account gen q then q\<lparr>ma_snapshot := Some pa\<rparr> else q"
  from tx have eq: "shop_of db' = (shop_of db)\<lparr>sh_accounts := map ?f (sh_accounts (shop_of db))\<rparr>"
    by (auto simp: finish_refresh_tx_def Let_def shop_of_def)
  show ?thesis unfolding eq by (rule account_update [OF ok]) (auto simp: account_le_def ma_key_def ma_req_def)
qed

lemma start_maintenance_step:
  assumes ok: "shop_ok (shop_of db)" and tx: "start_maintenance_tx sm a db = Inr (r, db')"
  shows "shop_step (shop_of db) (shop_of db')"
proof -
  let ?f = "\<lambda>q. if fenced_account (merchantModeValue sm) (ma_workspace a) (coalesce (ma_account a)) (ma_generation a) q
    then q\<lparr>ma_generation := ma_generation q + 1\<rparr> else q"
  from tx have eq: "shop_of db' = (shop_of db)\<lparr>sh_accounts := map ?f (sh_accounts (shop_of db))\<rparr>"
    by (auto simp: start_maintenance_tx_def Let_def shop_of_def)
  show ?thesis unfolding eq by (rule account_update [OF ok]) (auto simp: account_le_def ma_key_def ma_req_def)
qed

lemma finish_maintenance_step:
  assumes ok: "shop_ok (shop_of db)" and tx: "finish_maintenance_tx sm c a pa db = Inr (r, db')"
  shows "shop_step (shop_of db) (shop_of db')"
proof -
  let ?f = "\<lambda>q. if fenced_account (merchantModeValue sm) (ma_workspace a) (coalesce (ma_account a)) (ma_generation a + 1) q
    then q\<lparr>ma_snapshot := Some pa\<rparr> else q"
  from tx have eq: "shop_of db' = (shop_of db)\<lparr>sh_accounts := map ?f (sh_accounts (shop_of db))\<rparr>"
    by (auto simp: finish_maintenance_tx_def Let_def shop_of_def dest!: auditD split: if_splits)
  show ?thesis unfolding eq by (rule account_update [OF ok]) (auto simp: account_le_def ma_key_def ma_req_def)
qed

lemma create_product_step:
  assumes i: "product_input_ok i" and tx: "create_product_tx sm c actor i active db = Inr (p, db')"
  shows "shop_step (shop_of db) (shop_of db')"
proof (cases "get_row mp_req (merchantModeValue sm, pi_Workspace i, pi_Key i) (merchant_products db)")
  case (Some q)
  with tx show ?thesis by (auto simp: create_product_tx_def Let_def intro: shop_step.stay)
next
  case None
  with tx have new: "shop_of db' = (shop_of db)\<lparr>sh_products := sh_products (shop_of db) @ [p]\<rparr>" "mp_amount p = pi_AmountMinor i"
    "mp_req p = (merchantModeValue sm, pi_Workspace i, pi_Key i)" "mp_ident p \<notin> mp_ident ` set (merchant_products db)"
    by (auto simp: create_product_tx_def Let_def insert_row_Inr mp_req_def shop_of_def dest!: auditD)
  show ?thesis unfolding new(1)
    by (rule shop_step.new_product) (use new None i in \<open>simp_all add: get_row_None product_ok_def product_input_ok_def\<close>)
qed

lemma update_product_step:
  assumes ok: "shop_ok (shop_of db)" and i: "product_input_ok i" and tx: "update_product_tx sm c actor i active db = Inr (p, db')"
  shows "shop_step (shop_of db) (shop_of db')"
proof -
  let ?f = "\<lambda>p. if (mp_ident p = (merchantModeValue sm, pi_ID i) \<and> mp_workspace p = pi_Workspace i) \<and> mp_revision p = pi_Revision i
    then edit_product i active (cl_now c 1) p else p"
  from tx have eq: "shop_of db' = (shop_of db)\<lparr>sh_products := map ?f (sh_products (shop_of db))\<rparr>"
    by (auto simp: update_product_tx_def Let_def shop_of_def dest!: auditD)
  show ?thesis unfolding eq
  proof (rule shop_step.products)
    show "list_all2 product_le (sh_products (shop_of db)) (map ?f (sh_products (shop_of db)))"
      by (auto simp: list_all2_map_same product_le_def edit_product_def mp_ident_def mp_req_def)
    show "list_all product_ok (map ?f (sh_products (shop_of db)))"
      using shop_okD(6) [OF ok] i by (auto simp: list_all_iff product_ok_def edit_product_def product_input_ok_def)
  qed
qed

lemma save_product_step:
  "shop_ok (shop_of db) \<Longrightarrow> product_input_ok i \<Longrightarrow> save_product_tx lib sm c token i db = Inr (p, db') \<Longrightarrow> shop_step (shop_of db) (shop_of db')"
  by (auto simp: save_product_tx_def dest: create_product_step update_product_step split: if_splits)

end
