(* ===== verification/Merchant_Steps.thy ===== *)
theory Merchant_Steps
  imports Merchant_Safety
begin

text \<open>
  The transactions on orders, refunds, events and buyers are steps of the abstract shop too; with those of
  \<open>Merchant_Safety\<close> this gives the simulation \<open>body_step\<close>, and the locales it discharges.
\<close>

section \<open>Orders\<close>

text \<open>An update of the orders in place that binds no session.\<close>

lemma order_update:
  assumes "shop_ok s" and "\<forall>q \<in> set (sh_orders s). order_ok q \<longrightarrow> order_le q (f q) \<and> order_ok (f q) \<and> mo_session (f q) = mo_session q"
  shows "shop_step s (s\<lparr>sh_orders := map f (sh_orders s)\<rparr>)"
proof -
  have f: "\<forall>q \<in> set (sh_orders s). order_le q (f q) \<and> order_ok (f q) \<and> mo_session (f q) = mo_session q"
    using assms(2) shop_okD(10) [OF assms(1)] by (simp add: list_all_iff)
  show ?thesis
  proof (rule shop_step.orders)
    show "list_all2 order_le (sh_orders s) (map f (sh_orders s))" using f by (simp add: list_all2_map_same)
    show "list_all order_ok (map f (sh_orders s))" using f by (simp add: list_all_iff)
    show "uniq mo_ident session_index (map f (sh_orders s))"
      using shop_okD(9) [OF assms(1)] by (rule uniq_same) (use f in \<open>simp add: order_le_def order_terms_def session_index_def mo_ident_def\<close>)
  qed
qed

lemma load_freshD:
  "loadFreshMerchantAccount sm ws now db = Inr a \<Longrightarrow> a \<in> set (merchant_accounts db) \<and> ma_key a = (merchantModeValue sm, ws)
    \<and> ma_state a = ''bound'' \<and> freshMerchantAccount a now"
  by (auto simp: loadFreshMerchantAccount_def freshMerchantAccount_def dest: get_row_SomeD split: option.splits)

lemma request_orderD:
  assumes "request_order_tx lib sm c buyer product revision key db = Inr (q, db')"
  shows "db' = db \<and> q \<in> set (merchant_orders db) \<and> mo_req q = (merchantModeValue sm, lib_digest lib buyer, key)
      \<and> mo_product q = product \<and> mo_product_revision q = revision
    \<or> (\<exists>p a. p \<in> set (merchant_products db) \<and> mp_ident p = (merchantModeValue sm, product) \<and> mp_active p \<and> mp_revision p = revision
        \<and> loadFreshMerchantAccount sm (mp_workspace p) (cl_now c 0) db = Inr a
        \<and> mo_req q \<notin> mo_req ` set (merchant_orders db) \<and> mo_ident q \<notin> mo_ident ` set (merchant_orders db)
        \<and> mo_mode q = merchantModeValue sm \<and> mo_product q = product \<and> mo_product_revision q = revision \<and> mo_workspace q = mp_workspace p
        \<and> mo_name q = mp_name p \<and> mo_currency q = mp_currency p \<and> mo_amount q = mp_amount p \<and> mo_account q = coalesce (ma_account a)
        \<and> mo_state q = ''requested'' \<and> mo_payment q = ''unpaid'' \<and> mo_session q = None \<and> mo_fulfilled_at q = 0
        \<and> shop_of db' = (shop_of db)\<lparr>sh_orders := merchant_orders db @ [q]\<rparr>)"
proof (cases "get_row mo_req (merchantModeValue sm, lib_digest lib buyer, key) (merchant_orders db)")
  case (Some r)
  with assms get_row_SomeD [OF Some] show ?thesis by (auto simp: request_order_tx_def Let_def)
next
  case None
  then have fresh: "(merchantModeValue sm, lib_digest lib buyer, key) \<notin> mo_req ` set (merchant_orders db)" by (simp add: get_row_None)
  obtain p a where p: "get_row mp_ident (merchantModeValue sm, product) (merchant_products db) = Some p" "mp_active p" "mp_revision p = revision"
    and a: "loadFreshMerchantAccount sm (mp_workspace p) (cl_now c 0) db = Inr a"
    using assms None by (auto simp: request_order_tx_def Let_def)
  note pd = get_row_SomeD [OF p(1)]
  show ?thesis
    using assms None fresh p a pd
    by (intro disjI2 exI [of _ p] exI [of _ a])
      (auto simp: request_order_tx_def seq_simps Let_def insert_row_Inr mo_req_def mp_ident_def shop_of_def dest!: auditD)
qed

lemma request_order_step:
  assumes ok: "shop_ok (shop_of db)" and tx: "request_order_tx lib sm c buyer product revision key db = Inr (q, db')"
  shows "shop_step (shop_of db) (shop_of db')"
  using request_orderD [OF tx]
proof (elim disjE exE conjE)
  assume "db' = db"
  then show ?thesis by (simp add: shop_step.stay)
next
  fix p a
  assume p: "p \<in> set (merchant_products db)" "mp_ident p = (merchantModeValue sm, product)" "mp_active p" "mp_revision p = revision"
    and a: "loadFreshMerchantAccount sm (mp_workspace p) (cl_now c 0) db = Inr a"
    and fresh: "mo_req q \<notin> mo_req ` set (merchant_orders db)" "mo_ident q \<notin> mo_ident ` set (merchant_orders db)"
    and q: "mo_mode q = merchantModeValue sm" "mo_product q = product" "mo_product_revision q = revision" "mo_workspace q = mp_workspace p"
      "mo_name q = mp_name p" "mo_currency q = mp_currency p" "mo_amount q = mp_amount p" "mo_account q = coalesce (ma_account a)"
      "mo_state q = ''requested''" "mo_payment q = ''unpaid''" "mo_session q = None" "mo_fulfilled_at q = 0"
    and eq: "shop_of db' = (shop_of db)\<lparr>sh_orders := merchant_orders db @ [q]\<rparr>"
  from shop_okD(6) [OF ok] p(1) have "product_ok p" by (simp add: list_all_iff)
  with q have "order_ok q" by (simp add: order_ok_def product_ok_def)
  moreover have "offers (merchant_products db) q" unfolding offers_def using p q by (intro bexI [of _ p]) simp_all
  moreover have "earns (merchant_accounts db) q" unfolding earns_def using load_freshD [OF a] q by (intro bexI [of _ a]) simp_all
  ultimately show ?thesis using fresh q(11) shop_step.new_order [of q "shop_of db"] by (simp add: eq)
qed

lemma submit_orderD:
  assumes "submit_order_tx sm c ident db = Inr ((q, sent), db')"
  shows "get_row mo_ident (merchantModeValue sm, ident) (merchant_orders db) = Some q
    \<and> (case sent of None \<Rightarrow> db' = db \<and> mo_state q \<noteq> ''requested''
       | Some t \<Rightarrow> mo_state q = ''requested''
          \<and> shop_of db' = (shop_of db)\<lparr>sh_orders := map (\<lambda>p. if mo_ident p = (merchantModeValue sm, ident) \<and> mo_state p = ''requested''
               then p\<lparr>mo_state := ''submitted'', mo_submitted := cl_now c 1\<rparr> else p) (merchant_orders db)\<rparr>)"
  using assms by (auto simp: submit_order_tx_def Let_def shop_of_def dest!: auditD split: if_splits)

lemma submit_order_step:
  assumes ok: "shop_ok (shop_of db)" and tx: "submit_order_tx sm c ident db = Inr (r, db')"
  shows "shop_step (shop_of db) (shop_of db')"
proof -
  obtain q sent where r: "r = (q, sent)" by (cases r)
  note d = submit_orderD [OF tx [unfolded r]]
  show ?thesis
  proof (cases sent)
    case None
    with d show ?thesis by (simp add: shop_step.stay)
  next
    case (Some t)
    with d have eq: "shop_of db' = (shop_of db)\<lparr>sh_orders := map (\<lambda>p. if mo_ident p = (merchantModeValue sm, ident) \<and> mo_state p = ''requested''
               then p\<lparr>mo_state := ''submitted'', mo_submitted := cl_now c 1\<rparr> else p) (sh_orders (shop_of db))\<rparr>" by simp
    show ?thesis unfolding eq
      by (rule order_update [OF ok])
        (auto simp: order_le_def order_terms_def order_rank_def order_ok_def paid_up_def mo_ident_def mo_req_def)
  qed
qed

lemma start_order_step:
  assumes ok: "shop_ok (shop_of db)" and tx: "start_order_tx sm ident session db = Inr (q, db')"
  shows "shop_step (shop_of db) (shop_of db')"
proof -
  let ?f = "\<lambda>q. if mo_ident q = (merchantModeValue sm, ident) then q\<lparr>mo_generation := mo_generation q + 1\<rparr> else q"
  from tx have eq: "shop_of db' = (shop_of db)\<lparr>sh_orders := map ?f (sh_orders (shop_of db))\<rparr>"
    by (auto simp: start_order_tx_def Let_def upd_row_def shop_of_def)
  show ?thesis unfolding eq
    by (rule order_update [OF ok]) (auto simp: order_le_def order_terms_def order_rank_def order_ok_def paid_up_def mo_ident_def mo_req_def)
qed

lemma bind_checkoutD:
  assumes "bind_checkout_tx ml sm c ident r since gen db = Inr (q', db')"
  shows "\<exists>q now since'. get_row mo_ident (merchantModeValue sm, ident) (merchant_orders db) = Some q \<and> mo_generation q = gen
    \<and> q' = observe_order r q
    \<and> validMerchantCheckoutResultForMode ml r (merchantModeValue sm) now since'
    \<and> (coalesce (mo_session q) \<noteq> [] \<longrightarrow> coalesce (mo_session q) = ck_ID r)
    \<and> (mo_payment q = ''paid'' \<longrightarrow> ck_PaymentStatus r = ''paid'')
    \<and> (mo_state q = ''complete'' \<or> mo_state q = ''expired'' \<longrightarrow> mo_state q = ck_State r)
    \<and> (mo_intent q \<noteq> [] \<longrightarrow> mo_intent q = ck_PaymentIntentID r)
    \<and> filter (\<lambda>p. mo_mode p = merchantModeValue sm \<and> mo_account p = mo_account q \<and> mo_session p = Some (ck_ID r) \<and> mo_id p \<noteq> ident)
        (merchant_orders db) = []
    \<and> shop_of db' = (shop_of db)\<lparr>sh_orders := map (\<lambda>p. if mo_ident p = (merchantModeValue sm, ident) \<and> mo_generation p = gen
         then observe_order r p else p) (merchant_orders db)\<rparr>"
  using assms unfolding bind_checkout_tx_def Let_def
  by (clarsimp simp: shop_of_def dest!: auditD) (intro exI conjI; (assumption | blast | force))

lemma observe_order_le:
  assumes ok: "order_ok q" and r: "validMerchantCheckoutResultForMode ml r mode now since"
    and "coalesce (mo_session q) \<noteq> [] \<longrightarrow> coalesce (mo_session q) = ck_ID r"
    and paid: "mo_payment q = ''paid'' \<longrightarrow> ck_PaymentStatus r = ''paid''"
    and final: "mo_state q = ''complete'' \<or> mo_state q = ''expired'' \<longrightarrow> mo_state q = ck_State r"
    and "mo_intent q \<noteq> [] \<longrightarrow> mo_intent q = ck_PaymentIntentID r"
  shows "order_le q (observe_order r q)" "order_ok (observe_order r q)"
proof -
  from r have state: "ck_State r = ''open'' \<or> ck_State r = ''complete'' \<or> ck_State r = ''expired''"
    and up: "ck_PaymentStatus r = ''paid'' \<longrightarrow> ck_State r = ''complete'' \<and> validMerchantProviderID (ck_PaymentIntentID r) ''pi_''"
    unfolding validMerchantCheckoutResultForMode_def by blast+
  have st: "mo_state q = ''requested'' \<or> mo_state q = ''submitted'' \<or> mo_state q = ''open'' \<or> mo_state q = ''complete'' \<or> mo_state q = ''expired''"
    using ok by (simp add: order_ok_def)
  have rank: "order_rank q \<le> order_rank (observe_order r q)" "order_rank q = 3 \<longrightarrow> mo_state (observe_order r q) = mo_state q"
    using state final st by (elim disjE; simp add: order_rank_def observe_order_def)+
  have "coalesce (mo_session q) \<noteq> [] \<longrightarrow> mo_session q = Some (ck_ID r)"
    using assms(3) by (auto simp: coalesce_def split: option.splits)
  with rank paid assms(6) show "order_le q (observe_order r q)"
    by (simp add: order_le_def) (simp add: observe_order_def order_terms_def mo_ident_def mo_req_def)
  have "mo_fulfilled_at q \<noteq> 0 \<longrightarrow> mo_payment q = ''paid''" using ok by (simp add: order_ok_def paid_up_def)
  with paid up state ok show "order_ok (observe_order r q)" by (auto simp: order_ok_def paid_up_def observe_order_def)
qed

lemma bind_checkout_step:
  assumes ok: "shop_ok (shop_of db)" and tx: "bind_checkout_tx ml sm c ident r since gen db = Inr (q', db')"
  shows "shop_step (shop_of db) (shop_of db')"
proof -
  let ?k = "(merchantModeValue sm, ident)"
  let ?f = "\<lambda>p. if mo_ident p = ?k \<and> mo_generation p = gen then observe_order r p else p"
  from bind_checkoutD [OF tx] obtain q now since' where
    q: "get_row mo_ident ?k (merchant_orders db) = Some q" and
    r: "validMerchantCheckoutResultForMode ml r (merchantModeValue sm) now since'"
      "coalesce (mo_session q) \<noteq> [] \<longrightarrow> coalesce (mo_session q) = ck_ID r"
      "mo_payment q = ''paid'' \<longrightarrow> ck_PaymentStatus r = ''paid''"
      "mo_state q = ''complete'' \<or> mo_state q = ''expired'' \<longrightarrow> mo_state q = ck_State r"
      "mo_intent q \<noteq> [] \<longrightarrow> mo_intent q = ck_PaymentIntentID r" and
    used: "filter (\<lambda>p. mo_mode p = merchantModeValue sm \<and> mo_account p = mo_account q \<and> mo_session p = Some (ck_ID r) \<and> mo_id p \<noteq> ident)
        (merchant_orders db) = []" and
    eq: "shop_of db' = (shop_of db)\<lparr>sh_orders := map ?f (sh_orders (shop_of db))\<rparr>" by auto
  note row = row_is [OF _ q] and okD = shop_okD [OF ok, simplified]
  have qs: "order_ok p" if "p \<in> set (merchant_orders db)" for p using okD(10) that by (simp add: list_all_iff)
  have le: "order_le p (?f p) \<and> order_ok (?f p)" if "p \<in> set (merchant_orders db)" for p
  proof (cases "mo_ident p = ?k \<and> mo_generation p = gen")
    case True
    with row [OF okD(7) that] have "p = q" by simp
    with True observe_order_le [OF qs r] that show ?thesis by auto
  next
    case False
    with qs [OF that] show ?thesis by auto
  qed
  have other: "mo_ident p = ?k" if "p \<in> set (merchant_orders db)" "session_index p = Some (merchantModeValue sm, mo_account q, ck_ID r)" for p
    using used that by (auto simp: filter_empty_conv session_index_def mo_ident_def)
  show ?thesis unfolding eq
  proof (rule shop_step.orders)
    show "list_all2 order_le (sh_orders (shop_of db)) (map ?f (sh_orders (shop_of db)))" using le by (simp add: list_all2_map_same)
    show "list_all order_ok (map ?f (sh_orders (shop_of db)))"
      unfolding list_all_iff set_map shop_of_simps using le by blast
    show "uniq mo_ident session_index (map ?f (sh_orders (shop_of db)))"
    proof (rule uniq_map [OF shop_okD(9) [OF ok], where v = "(merchantModeValue sm, mo_account q, ck_ID r)" and k = ?k])
      show "\<forall>p \<in> set (sh_orders (shop_of db)). mo_ident (?f p) = mo_ident p" by (simp add: observe_order_def mo_ident_def)
      show "\<forall>p \<in> set (sh_orders (shop_of db)). session_index p = Some (merchantModeValue sm, mo_account q, ck_ID r) \<longrightarrow> mo_ident p = ?k"
        using other by simp
      show "\<forall>p \<in> set (sh_orders (shop_of db)). session_index (?f p) = session_index p
          \<or> session_index (?f p) = Some (merchantModeValue sm, mo_account q, ck_ID r) \<and> mo_ident p = ?k"
      proof
        fix p assume p: "p \<in> set (sh_orders (shop_of db))"
        show "session_index (?f p) = session_index p \<or> session_index (?f p) = Some (merchantModeValue sm, mo_account q, ck_ID r) \<and> mo_ident p = ?k"
        proof (cases "mo_ident p = ?k \<and> mo_generation p = gen")
          case True
          with row [OF okD(7)] p have "p = q" by simp
          with True show ?thesis by (auto simp: session_index_def observe_order_def mo_ident_def)
        qed auto
      qed
    qed
  qed
qed

lemma find_order:
  "List.find (\<lambda>q. mo_ident q = k \<and> mo_workspace q = ws) qs = Some q \<Longrightarrow> q \<in> set qs \<and> mo_ident q = k \<and> mo_workspace q = ws"
  by (drule find_SomeD) simp

lemma fulfillD:
  assumes "fulfill_tx lib sm c token ws ident db = Inr (q', db')"
  shows "\<exists>q. q \<in> set (merchant_orders db) \<and> mo_ident q = (merchantModeValue sm, ident) \<and> mo_workspace q = ws
    \<and> (db' = db \<and> mo_fulfilled_at q \<noteq> 0 \<or>
       mo_fulfilled_at q = 0 \<and> mo_state q = ''complete'' \<and> mo_payment q = ''paid''
       \<and> (\<forall>r \<in> set (merchant_refunds db). mr_of r = mo_ident q \<longrightarrow> mr_state r = ''failed'' \<or> mr_state r = ''canceled'')
       \<and> (\<exists>actor. shop_of db' = (shop_of db)\<lparr>sh_orders := map (\<lambda>q. if mo_ident q = (merchantModeValue sm, ident)
            then q\<lparr>mo_fulfilled_at := cl_now c 1, mo_fulfilled_by := actor\<rparr> else q) (merchant_orders db)\<rparr>))"
proof -
  obtain actor q where actor: "authorizeOwner lib (cl_now c 0) token ws db = Inr actor"
    and q: "List.find (\<lambda>q. mo_ident q = (merchantModeValue sm, ident) \<and> mo_workspace q = ws) (merchant_orders db) = Some q"
    using assms by (auto simp: fulfill_tx_def Let_def)
  note f = find_order [OF q]
  have "db' = db \<and> mo_fulfilled_at q \<noteq> 0 \<or>
       mo_fulfilled_at q = 0 \<and> mo_state q = ''complete'' \<and> mo_payment q = ''paid''
       \<and> (\<forall>r \<in> set (merchant_refunds db). mr_of r = mo_ident q \<longrightarrow> mr_state r = ''failed'' \<or> mr_state r = ''canceled'')
       \<and> shop_of db' = (shop_of db)\<lparr>sh_orders := map (\<lambda>q. if mo_ident q = (merchantModeValue sm, ident)
            then q\<lparr>mo_fulfilled_at := cl_now c 1, mo_fulfilled_by := actor\<rparr> else q) (merchant_orders db)\<rparr>"
    using assms actor q f
    by (auto simp: fulfill_tx_def Let_def seq_simps upd_row_def shop_of_def filter_empty_conv dest!: auditD split: if_splits)
  with f show ?thesis by blast
qed

lemma fulfill_step:
  assumes ok: "shop_ok (shop_of db)" and tx: "fulfill_tx lib sm c token ws ident db = Inr (q', db')"
  shows "shop_step (shop_of db) (shop_of db')"
proof -
  from fulfillD [OF tx] obtain q where q: "q \<in> set (merchant_orders db)" "mo_ident q = (merchantModeValue sm, ident)"
    and d: "db' = db \<or> mo_fulfilled_at q = 0 \<and> mo_state q = ''complete'' \<and> mo_payment q = ''paid''
       \<and> (\<exists>actor. shop_of db' = (shop_of db)\<lparr>sh_orders := map (\<lambda>q. if mo_ident q = (merchantModeValue sm, ident)
            then q\<lparr>mo_fulfilled_at := cl_now c 1, mo_fulfilled_by := actor\<rparr> else q) (merchant_orders db)\<rparr>)" by blast
  show ?thesis
  proof (cases "db' = db")
    case True
    then show ?thesis by (simp add: shop_step.stay)
  next
    case False
    with d obtain actor where st: "mo_fulfilled_at q = 0" "mo_state q = ''complete''" "mo_payment q = ''paid''"
      and eq: "shop_of db' = (shop_of db)\<lparr>sh_orders := map (\<lambda>q. if mo_ident q = (merchantModeValue sm, ident)
            then q\<lparr>mo_fulfilled_at := cl_now c 1, mo_fulfilled_by := actor\<rparr> else q) (sh_orders (shop_of db))\<rparr>" by auto
    have same: "p = q" if "p \<in> set (merchant_orders db)" "mo_ident p = (merchantModeValue sm, ident)" for p
    proof -
      from shop_okD(7) [OF ok] have "inj_on mo_ident (set (merchant_orders db))" by (simp add: distinct_map)
      from inj_onD [OF this _ that(1) q(1)] that(2) q(2) show ?thesis by simp
    qed
    show ?thesis unfolding eq
    proof (rule order_update [OF ok], intro ballI impI)
      fix p assume p: "p \<in> set (sh_orders (shop_of db))" "order_ok p"
      show "order_le p (if mo_ident p = (merchantModeValue sm, ident) then p\<lparr>mo_fulfilled_at := cl_now c 1, mo_fulfilled_by := actor\<rparr> else p)
        \<and> order_ok (if mo_ident p = (merchantModeValue sm, ident) then p\<lparr>mo_fulfilled_at := cl_now c 1, mo_fulfilled_by := actor\<rparr> else p)
        \<and> mo_session (if mo_ident p = (merchantModeValue sm, ident) then p\<lparr>mo_fulfilled_at := cl_now c 1, mo_fulfilled_by := actor\<rparr> else p) = mo_session p"
        using same [of p] p st
        by (cases "mo_ident p = (merchantModeValue sm, ident)")
          (auto simp: order_le_def order_terms_def order_rank_def order_ok_def paid_up_def mo_ident_def mo_req_def)
    qed
  qed
qed

section \<open>Refunds\<close>

lemma refund_update:
  assumes "shop_ok s" and "\<forall>r \<in> set (sh_refunds s). refund_le r (f r) \<and> mr_provider (f r) = mr_provider r"
  shows "shop_step s (s\<lparr>sh_refunds := map f (sh_refunds s)\<rparr>)"
proof (rule shop_step.refunds)
  show "list_all2 refund_le (sh_refunds s) (map f (sh_refunds s))" using assms(2) by (simp add: list_all2_map_same)
  show "uniq mr_ident provider_index (map f (sh_refunds s))"
    using shop_okD(15) [OF assms(1)]
    by (rule uniq_same) (use assms(2) in \<open>simp add: refund_le_def refund_terms_def provider_index_def mr_ident_def\<close>)
qed

lemma request_refundD:
  assumes "request_refund_tx lib sm c token ws ident db = Inr (r, db')"
  shows "db' = db \<and> r \<in> set (merchant_refunds db) \<or>
    (\<exists>q \<in> set (merchant_orders db). repays q r \<and> mo_ident q = (merchantModeValue sm, ident) \<and> mo_workspace q = ws
      \<and> mr_ident r \<notin> mr_ident ` set (merchant_refunds db) \<and> mr_of r \<notin> mr_of ` set (merchant_refunds db)
      \<and> mr_provider r = None \<and> mr_state r = ''requested''
      \<and> shop_of db' = (shop_of db)\<lparr>sh_refunds := merchant_refunds db @ [r]\<rparr>)"
proof (cases "List.find (\<lambda>r. mr_of r = (merchantModeValue sm, ident) \<and> mr_workspace r = ws) (merchant_refunds db)")
  case (Some p)
  with assms find_SomeD [OF Some] show ?thesis by (auto simp: request_refund_tx_def Let_def)
next
  case None
  obtain q where q: "List.find (\<lambda>q. mo_ident q = (merchantModeValue sm, ident) \<and> mo_workspace q = ws) (merchant_orders db) = Some q"
    using assms None by (auto simp: request_refund_tx_def Let_def)
  note f = find_order [OF q]
  show ?thesis
    using assms None q f
    by (intro disjI2 bexI [of _ q])
      (auto simp: request_refund_tx_def Let_def seq_simps insert_row_Inr repays_def paid_up_def mr_of_def mo_ident_def shop_of_def dest!: auditD)
qed

lemma request_refund_step:
  assumes tx: "request_refund_tx lib sm c token ws ident db = Inr (r, db')"
  shows "shop_step (shop_of db) (shop_of db')"
  using request_refundD [OF tx]
proof (elim disjE bexE conjE)
  assume "db' = db"
  then show ?thesis by (simp add: shop_step.stay)
next
  fix q
  assume q: "q \<in> set (merchant_orders db)" "repays q r" and fresh: "mr_ident r \<notin> mr_ident ` set (merchant_refunds db)"
      "mr_of r \<notin> mr_of ` set (merchant_refunds db)" "mr_provider r = None"
    and eq: "shop_of db' = (shop_of db)\<lparr>sh_refunds := merchant_refunds db @ [r]\<rparr>"
  then show ?thesis using shop_step.new_refund [of r "shop_of db" q] by simp
qed

lemma submit_refundD:
  assumes "submit_refund_tx sm c ident db = Inr ((r, sent), db')"
  shows "get_row mr_ident (merchantModeValue sm, ident) (merchant_refunds db) = Some r
    \<and> (case sent of None \<Rightarrow> db' = db \<and> mr_state r \<noteq> ''requested''
       | Some t \<Rightarrow> mr_state r = ''requested''
          \<and> shop_of db' = (shop_of db)\<lparr>sh_refunds := map (\<lambda>r. if mr_ident r = (merchantModeValue sm, ident)
               then r\<lparr>mr_state := ''submitted'', mr_submitted := cl_now c 0\<rparr> else r) (merchant_refunds db)\<rparr>)"
  using assms by (auto simp: submit_refund_tx_def Let_def upd_row_def shop_of_def dest!: auditD split: if_splits)

lemma submit_refund_step:
  assumes ok: "shop_ok (shop_of db)" and tx: "submit_refund_tx sm c ident db = Inr (x, db')"
  shows "shop_step (shop_of db) (shop_of db')"
proof -
  obtain r sent where x: "x = (r, sent)" by (cases x)
  note d = submit_refundD [OF tx [unfolded x]]
  show ?thesis
  proof (cases sent)
    case None
    with d show ?thesis by (simp add: shop_step.stay)
  next
    case (Some t)
    with d have eq: "shop_of db' = (shop_of db)\<lparr>sh_refunds := map (\<lambda>r. if mr_ident r = (merchantModeValue sm, ident)
               then r\<lparr>mr_state := ''submitted'', mr_submitted := cl_now c 0\<rparr> else r) (sh_refunds (shop_of db))\<rparr>" by simp
    show ?thesis unfolding eq by (rule refund_update [OF ok]) (auto simp: refund_le_def refund_terms_def mr_ident_def mr_of_def)
  qed
qed

lemma start_refund_step:
  assumes ok: "shop_ok (shop_of db)" and tx: "start_refund_tx sm ident provider db = Inr (r, db')"
  shows "shop_step (shop_of db) (shop_of db')"
proof -
  let ?f = "\<lambda>r. if mr_ident r = (merchantModeValue sm, ident) then r\<lparr>mr_generation := mr_generation r + 1\<rparr> else r"
  from tx have eq: "shop_of db' = (shop_of db)\<lparr>sh_refunds := map ?f (sh_refunds (shop_of db))\<rparr>"
    by (auto simp: start_refund_tx_def Let_def upd_row_def shop_of_def)
  show ?thesis unfolding eq by (rule refund_update [OF ok]) (auto simp: refund_le_def refund_terms_def mr_ident_def mr_of_def)
qed

lemma bind_refundD:
  assumes "bind_refund_tx sm c ident f since gen db = Inr (r', db')"
  shows "\<exists>r. get_row mr_ident (merchantModeValue sm, ident) (merchant_refunds db) = Some r \<and> mr_generation r = gen \<and> r' = observe_refund f r
    \<and> mr_state r \<noteq> ''requested'' \<and> rf_State f \<noteq> ''requested''
    \<and> (coalesce (mr_provider r) \<noteq> [] \<longrightarrow> coalesce (mr_provider r) = rf_ID f)
    \<and> (\<forall>p \<in> set (merchant_refunds db). mr_mode p = mr_mode r \<and> mr_account p = mr_account r \<and> mr_provider p = Some (rf_ID f) \<longrightarrow> mr_id p = ident)
    \<and> shop_of db' = (shop_of db)\<lparr>sh_refunds := map (\<lambda>r. if mr_ident r = (merchantModeValue sm, ident) then observe_refund f r else r)
         (merchant_refunds db)\<rparr>"
proof -
  obtain r where r: "get_row mr_ident (merchantModeValue sm, ident) (merchant_refunds db) = Some r"
    using assms by (auto simp: bind_refund_tx_def Let_def)
  show ?thesis
    using assms r by (intro exI [of _ r]) (auto simp: bind_refund_tx_def Let_def seq_simps list_ex_iff upd_row_def shop_of_def dest!: auditD split: if_splits)
qed

lemma bind_refund_step:
  assumes ok: "shop_ok (shop_of db)" and tx: "bind_refund_tx sm c ident f since gen db = Inr (r', db')"
  shows "shop_step (shop_of db) (shop_of db')"
proof -
  let ?k = "(merchantModeValue sm, ident)"
  let ?f = "\<lambda>r. if mr_ident r = ?k then observe_refund f r else r"
  from bind_refundD [OF tx] obtain r where
    r: "get_row mr_ident ?k (merchant_refunds db) = Some r" "rf_State f \<noteq> ''requested''"
      "coalesce (mr_provider r) \<noteq> [] \<longrightarrow> coalesce (mr_provider r) = rf_ID f" and
    used: "\<forall>p \<in> set (merchant_refunds db). mr_mode p = mr_mode r \<and> mr_account p = mr_account r \<and> mr_provider p = Some (rf_ID f) \<longrightarrow> mr_id p = ident" and
    eq: "shop_of db' = (shop_of db)\<lparr>sh_refunds := map ?f (sh_refunds (shop_of db))\<rparr>" by auto
  have key: "mr_ident r = ?k" using get_row_SomeD [OF r(1)] by simp
  have same: "p = r" if "p \<in> set (merchant_refunds db)" "mr_ident p = ?k" for p
    using row_is [OF _ r(1) that] shop_okD(13) [OF ok] by simp
  have provider: "coalesce (mr_provider r) \<noteq> [] \<longrightarrow> mr_provider r = Some (rf_ID f)"
    using r(3) by (auto simp: coalesce_def split: option.splits)
  show ?thesis unfolding eq
  proof (rule shop_step.refunds)
    show "list_all2 refund_le (sh_refunds (shop_of db)) (map ?f (sh_refunds (shop_of db)))"
      unfolding list_all2_map_same
    proof
      fix p assume "p \<in> set (sh_refunds (shop_of db))"
      with same [of p] provider r(2) show "refund_le p (?f p)"
        by (cases "mr_ident p = ?k") (auto simp: refund_le_def refund_terms_def observe_refund_def mr_ident_def mr_of_def)
    qed
    show "uniq mr_ident provider_index (map ?f (sh_refunds (shop_of db)))"
    proof (rule uniq_map [OF shop_okD(15) [OF ok], where v = "(mr_mode r, mr_account r, rf_ID f)" and k = ?k])
      show "\<forall>p \<in> set (sh_refunds (shop_of db)). mr_ident (?f p) = mr_ident p" by (simp add: observe_refund_def mr_ident_def)
      show "\<forall>p \<in> set (sh_refunds (shop_of db)). provider_index (?f p) = provider_index p
          \<or> provider_index (?f p) = Some (mr_mode r, mr_account r, rf_ID f) \<and> mr_ident p = ?k"
        using same by (auto simp: provider_index_def observe_refund_def)
      show "\<forall>p \<in> set (sh_refunds (shop_of db)). provider_index p = Some (mr_mode r, mr_account r, rf_ID f) \<longrightarrow> mr_ident p = ?k"
        using used key by (auto simp: provider_index_def mr_ident_def)
    qed
  qed
qed

section \<open>The simulation\<close>

lemma shop_frames:
  "accept_event_tx sm c e db = Inr (u, db') \<Longrightarrow> shop_of db' = shop_of db"
  "claim_event_tx sm c ident db = Inr (b, db') \<Longrightarrow> shop_of db' = shop_of db"
  "done_event_tx sm ident db = Inr (u, db') \<Longrightarrow> shop_of db' = shop_of db"
  "buyer_session_tx lib sm c db = Inr (x, db') \<Longrightarrow> shop_of db' = shop_of db"
  "revoke_buyer_tx lib sm token db = Inr (u, db') \<Longrightarrow> shop_of db' = shop_of db"
  "issue_code_tx lib ml sm c token ident db = Inr (x, db') \<Longrightarrow> shop_of db' = shop_of db"
  "redeem_code_tx lib sm c token code db = Inr (q, db') \<Longrightarrow> shop_of db' = shop_of db"
  by (auto simp: accept_event_tx_def claim_event_tx_def done_event_tx_def buyer_session_tx_def revoke_buyer_tx_def issue_code_tx_def
      redeem_code_tx_def drop_expired_def drop_sessions_def Let_def shop_of_def split: option.splits)

lemma stay_eq: "shop_of db' = shop_of db \<Longrightarrow> shop_step (shop_of db) (shop_of db')"
  by (simp add: shop_step.stay)

lemmas body_steps = request_account_step submit_account_step bind_account_step onboarding_step [THEN stay_eq] onboarded_step [THEN stay_eq]
  start_refresh_step finish_refresh_step start_maintenance_step finish_maintenance_step save_product_step request_order_step
  submit_order_step start_order_step bind_checkout_step fulfill_step request_refund_step submit_refund_step start_refund_step
  bind_refund_step shop_frames [THEN stay_eq]

text \<open>Refinement: what a committing transaction does to the shop is one abstract step.\<close>

lemma body_step:
  assumes "merchant_body lib ml sm c t db = Inr (u, db')" and ok: "shop_ok (shop_of db)"
  shows "shop_step (shop_of db) (shop_of db')"
proof (cases t)
  case (MAccount a)
  with assms(1) acct_body_more have "accounts_db.more db' = accounts_db.more db" by auto
  then show ?thesis by (intro stay_eq more_shop)
qed (insert assms, (clarsimp, rule body_steps, assumption+)+)

lemma exec_step:
  assumes ok: "shop_ok (shop_of db)"
  shows "shop_step (shop_of db) (shop_of (snd (merchant_exec lib ml sm i db)))"
proof (cases "snd (merchant_exec lib ml sm i db) = db")
  case True
  then show ?thesis by (simp add: shop_step.stay)
next
  case False
  with in_tx_cases [of "cl_drv (fst i)" "merchant_body lib ml sm (fst i) (snd i)" db]
  obtain u where "merchant_body lib ml sm (fst i) (snd i) db = Inr (u, snd (merchant_exec lib ml sm i db))"
    unfolding merchant_exec_def by metis
  from body_step [OF this ok] show ?thesis .
qed

interpretation mc: transactional "merchant_exec lib ml sm" "\<lambda>db. shop_ok (shop_of db)" for lib ml sm
proof
  show "shop_ok (shop_of (snd (merchant_exec lib ml sm i db)))" if "shop_ok (shop_of db)" for i and db :: "'x merchant_db_scheme"
    using exec_step [OF that] that by (rule shop_ok_step)
  show "snd (merchant_exec lib ml sm i db) = db" if "fst (merchant_exec lib ml sm i db) = Inl e" for i e and db :: "'x merchant_db_scheme"
    using that by (simp add: merchant_exec_def in_tx_error)
qed

end
