(* ===== verification/Merchant_Guarantees.thy ===== *)
theory Merchant_Guarantees
  imports Merchant_Steps
begin

text \<open>
  The guarantees of the shop: every call is a history of transactions, rows only move forward, nothing is sent to the
  payment provider twice, a refund repays its order, stale provider reads are fenced, and a revoked buyer keeps only
  its own orders.
\<close>

section \<open>Every call is a history\<close>

definition merchant_path ::
  "portal_lib \<Rightarrow> merchant_lib \<Rightarrow> string \<Rightarrow> 'x merchant_db_scheme \<Rightarrow> 'x merchant_db_scheme \<Rightarrow> bool" where
  "merchant_path lib ml sm db db' \<longleftrightarrow> (\<exists>is. db' = merchant_run lib ml sm is db)"

lemma mpath_refl [simp, intro]: "merchant_path lib ml sm db db"
  unfolding merchant_path_def by (metis run_ops.simps(1))

lemma mpath_trans [trans]: "merchant_path lib ml sm db db1 \<Longrightarrow> merchant_path lib ml sm db1 db2 \<Longrightarrow> merchant_path lib ml sm db db2"
  unfolding merchant_path_def by (metis run_ops_append)

lemma mpath_run [simp, intro]: "merchant_path lib ml sm db (merchant_run lib ml sm mid db)"
  unfolding merchant_path_def by blast

lemma mpath_mid: "merchant_path lib ml sm db db1 \<Longrightarrow> merchant_path lib ml sm db (merchant_run lib ml sm mid db1)"
  by (rule mpath_trans) auto

lemma mpath_tx:
  assumes "\<And>a db'. body db = Inr (a, db') \<Longrightarrow> merchant_body lib ml sm c t db = Inr ((), db')"
  shows "merchant_path lib ml sm db (snd (in_tx (cl_drv c) body db))"
proof (cases "fst (in_tx (cl_drv c) body db)")
  case (Inl e)
  then show ?thesis by (simp add: in_tx_error)
next
  case (Inr a)
  then have "in_tx (cl_drv c) body db = (Inr a, snd (in_tx (cl_drv c) body db))" by (simp add: prod_eq_iff)
  then have tx: "cl_drv c = None" "body db = Inr (a, snd (in_tx (cl_drv c) body db))" by (simp_all add: in_tx_Inr_iff)
  from assms [OF tx(2)] tx(1) have "merchant_exec lib ml sm (c, t) db = (Inr (), snd (in_tx (cl_drv c) body db))"
    by (simp add: merchant_exec_def in_tx_Inr_iff)
  then have "snd (in_tx (cl_drv c) body db) = merchant_run lib ml sm [(c, t)] db" by simp
  then show ?thesis unfolding merchant_path_def by blast
qed

lemma drop_value_was: "r = Inr (a, db) \<Longrightarrow> drop_value r = Inr ((), db)"
  by (simp add: drop_value_def seq_simps)

text \<open>What the calls make of the pair of a value and a state.\<close>

lemma snd_case_pair [simp]: "snd (case x of (a, d) \<Rightarrow> (f a, d)) = snd x" "snd (snd (case x of (a, d) \<Rightarrow> (f a, g a, d))) = snd x"
  by (simp_all split: prod.splits)

lemma path_submit_account: "merchant_path lib ml sm db (snd (in_tx (cl_drv c) (submit_account_tx sm c request) db))"
  by (rule mpath_tx [where t = "MSubmitAccount request"]) (simp add: drop_value_was)

lemma path_bind_account: "merchant_path lib ml sm db (snd (bindMerchantAccount sm c request pa db))"
proof -
  have "merchant_path lib ml sm db (snd (in_tx (cl_drv c) (bind_account_tx sm c request pa) db))"
    by (rule mpath_tx [where t = "MBindAccount request pa"]) (simp add: drop_value_was)
  then show ?thesis by (simp add: bindMerchantAccount_def)
qed

lemma path_onboarding: "merchant_path lib ml sm db (snd (in_tx (cl_drv c) (onboarding_tx lib sm c token ws) db))"
  by (rule mpath_tx [where t = "MOnboarding token ws"]) (simp add: drop_value_was)

lemma path_onboarded: "merchant_path lib ml sm db (snd (in_tx (cl_drv c) (onboarded_tx lib sm c token ws actor a request now) db))"
  by (rule mpath_tx [where t = "MOnboarded token ws actor a request now"]) simp

lemma path_start_refresh: "merchant_path lib ml sm db (snd (in_tx (cl_drv c) (start_refresh_tx lib sm c token ws) db))"
  by (rule mpath_tx [where t = "MStartRefresh token ws"]) (simp add: drop_value_was)

lemma path_finish_refresh: "merchant_path lib ml sm db (snd (in_tx (cl_drv c) (finish_refresh_tx lib sm c token ws account gen pa) db))"
  by (rule mpath_tx [where t = "MFinishRefresh token ws account gen pa"]) simp

lemma path_start_maintenance: "merchant_path lib ml sm db (snd (in_tx (cl_drv (c :: call)) (start_maintenance_tx sm a) db))"
  by (rule mpath_tx [where t = "MStartMaintenance a"]) simp

lemma path_finish_maintenance: "merchant_path lib ml sm db (snd (in_tx (cl_drv c) (finish_maintenance_tx sm c a pa) db))"
  by (rule mpath_tx [where t = "MFinishMaintenance a pa"]) simp

lemma path_submit_order: "merchant_path lib ml sm db (snd (in_tx (cl_drv c) (submit_order_tx sm c ident) db))"
  by (rule mpath_tx [where t = "MSubmitOrder ident"]) (simp add: drop_value_was)

lemma path_start_order: "merchant_path lib ml sm db (snd (in_tx (cl_drv (c :: call)) (start_order_tx sm ident session) db))"
  by (rule mpath_tx [where t = "MStartOrder ident session"]) (simp add: drop_value_was)

lemma path_bind_order: "merchant_path lib ml sm db (snd (in_tx (cl_drv c) (bind_checkout_tx ml sm c ident r since gen) db))"
  by (rule mpath_tx [where t = "MBindCheckout ident r since gen"]) (simp add: drop_value_was)

lemma path_submit_refund: "merchant_path lib ml sm db (snd (in_tx (cl_drv c) (submit_refund_tx sm c ident) db))"
  by (rule mpath_tx [where t = "MSubmitRefund ident"]) (simp add: drop_value_was)

lemma path_start_refund: "merchant_path lib ml sm db (snd (in_tx (cl_drv (c :: call)) (start_refund_tx sm ident provider) db))"
  by (rule mpath_tx [where t = "MStartRefund ident provider"]) (simp add: drop_value_was)

lemma path_bind_refund: "merchant_path lib ml sm db (snd (in_tx (cl_drv c) (bind_refund_tx sm c ident f since gen) db))"
  by (rule mpath_tx [where t = "MBindRefund ident f since gen"]) (simp add: drop_value_was)

lemma path_claim_event: "merchant_path lib ml sm db (snd (in_tx (cl_drv c) (claim_event_tx sm c ident) db))"
  by (rule mpath_tx [where t = "MClaimEvent ident"]) (simp add: drop_value_was)

lemma path_done_event: "merchant_path lib ml sm db (snd (in_tx (cl_drv (c :: call)) (done_event_tx sm ident) db))"
  by (rule mpath_tx [where t = "MDoneEvent ident"]) simp

lemma path_reconcile_order: "merchant_path lib ml sm db (snd (reconcileMerchantOrder lib ml sm c p mid ident session db))"
proof -
  obtain r db1 where tx: "in_tx (cl_drv (c 0)) (start_order_tx sm ident session) db = (r, db1)" by fastforce
  with path_start_order [of lib ml sm db "c 0" ident session] have p1: "merchant_path lib ml sm db db1" by simp
  show ?thesis
    by (auto simp: reconcileMerchantOrder_def tx Let_def p1 mpath_mid [OF p1]
        intro!: mpath_trans [OF mpath_mid [OF p1] path_bind_order] split: sum.splits)
qed

lemma path_reconcile_refund: "merchant_path lib ml sm db (snd (reconcileMerchantRefund lib ml sm c p mid ident provider db))"
proof -
  obtain r db1 where tx: "in_tx (cl_drv (c 0)) (start_refund_tx sm ident provider) db = (r, db1)" by fastforce
  with path_start_refund [of lib ml sm db "c 0" ident provider] have p1: "merchant_path lib ml sm db db1" by simp
  show ?thesis
    by (auto simp: reconcileMerchantRefund_def tx Let_def p1 mpath_mid [OF p1]
        intro!: mpath_trans [OF mpath_mid [OF p1] path_bind_refund] split: sum.splits)
qed

lemma path_refresh_mapped: "merchant_path lib ml sm db (snd (refreshMappedMerchantAccount lib ml sm c pv mid a db))"
proof -
  obtain r db1 where tx: "in_tx (cl_drv (c 0)) (start_maintenance_tx sm a) db = (r, db1)" by fastforce
  with path_start_maintenance [of lib ml sm db "c 0" a] have p1: "merchant_path lib ml sm db db1" by simp
  show ?thesis
    by (auto simp: refreshMappedMerchantAccount_def tx Let_def p1 mpath_mid [OF p1]
        intro!: mpath_trans [OF mpath_mid [OF p1] path_finish_maintenance] split: sum.splits)
qed

lemma path_dispatch_order: "merchant_path lib ml sm db (snd (snd (dispatchMerchantOrder lib ml sm c p mid ident db)))"
proof -
  obtain r db1 where tx: "in_tx (cl_drv (c 0)) (submit_order_tx sm (c 0) ident) db = (r, db1)" by fastforce
  with path_submit_order [of lib ml sm db "c 0" ident] have p1: "merchant_path lib ml sm db db1" by simp
  show ?thesis
    by (auto simp: dispatchMerchantOrder_def tx Let_def p1 mpath_mid [OF p1]
        intro!: mpath_trans [OF mpath_mid [OF p1] path_bind_order] split: sum.splits option.splits)
qed

lemma path_dispatch_refund: "merchant_path lib ml sm db (snd (snd (dispatchMerchantRefund lib ml sm c p mid ident db)))"
proof -
  obtain r db1 where tx: "in_tx (cl_drv (c 0)) (submit_refund_tx sm (c 0) ident) db = (r, db1)" by fastforce
  with path_submit_refund [of lib ml sm db "c 0" ident] have p1: "merchant_path lib ml sm db db1" by simp
  show ?thesis
    by (auto simp: dispatchMerchantRefund_def tx Let_def p1 mpath_mid [OF p1]
        intro!: mpath_trans [OF mpath_mid [OF p1] path_bind_refund] split: sum.splits option.splits)
qed

lemma path_one_event: "merchant_path lib ml sm db (snd (process_event lib ml sm pv env e db))"
proof -
  obtain r db1 where tx: "in_tx (cl_drv (ve_calls env 0)) (claim_event_tx sm (ve_calls env 0) (me_id e)) db = (r, db1)" by fastforce
  with path_claim_event [of lib ml sm db "ve_calls env 0" "me_id e"] have p1: "merchant_path lib ml sm db db1" by simp
  let ?db = "merchant_run lib ml sm (ve_mid env 0) db1"
  obtain x db2 where rc: "reconcile_event lib ml sm pv env e ?db = (x, db2)" by fastforce
  have "merchant_path lib ml sm ?db (snd (reconcile_event lib ml sm pv env e ?db))"
    by (auto simp: reconcile_event_def intro: path_reconcile_order path_reconcile_refund)
  with rc mpath_mid [OF p1] have p2: "merchant_path lib ml sm db db2" using mpath_trans by (metis snd_conv)
  obtain y db3 where fin: "in_tx (cl_drv (ve_calls env (Suc 0))) (done_event_tx sm (me_id e)) (merchant_run lib ml sm (ve_mid env 2) db2) = (y, db3)"
    by fastforce
  have "merchant_path lib ml sm db db3"
    using mpath_trans [OF mpath_mid [OF p2] path_done_event [of lib ml sm _ "ve_calls env (Suc 0)" "me_id e"]] fin by (metis snd_conv)
  with tx rc fin p1 p2 show ?thesis by (simp add: process_event_def split: sum.splits bool.splits)
qed

lemma path_process_events: "merchant_path lib ml sm db (snd (process_events lib ml sm pv envs es finished failed db))"
proof (induction es arbitrary: finished failed db)
  case Nil
  then show ?case by simp
next
  case (Cons e es)
  obtain x db1 where pe: "process_event lib ml sm pv (envs (length es)) e db = (x, db1)" by fastforce
  with path_one_event [of lib ml sm db pv "envs (length es)" e] have "merchant_path lib ml sm db db1" by simp
  from mpath_trans [OF this Cons.IH] this show ?case by (simp add: pe split: sum.splits)
qed

lemma path_maintain:
  assumes "\<And>env r db. merchant_path lib ml sm db (snd (step env r db))"
  shows "merchant_path lib ml sm db (snd (maintain step envs rs failures db))"
proof (induction rs arbitrary: failures db)
  case Nil
  then show ?case by simp
next
  case (Cons r rs)
  obtain x db1 where st: "step (envs (length rs)) r db = (x, db1)" by fastforce
  with assms [of db "envs (length rs)" r] have "merchant_path lib ml sm db db1" by simp
  from mpath_trans [OF this Cons.IH] this show ?case by (simp add: st split: sum.splits)
qed

lemma path_maintain_steps:
  "merchant_path lib ml sm db (snd (maintain_account lib ml sm pv env a db))"
  "merchant_path lib ml sm db (snd (maintain_order lib ml sm pv env q db))"
  "merchant_path lib ml sm db (snd (maintain_refund lib ml sm pv env r db))"
  unfolding maintain_account_def maintain_order_def maintain_refund_def snd_case_pair
  by (rule mpath_trans [OF mpath_run path_refresh_mapped], rule mpath_trans [OF mpath_run path_reconcile_order],
      rule mpath_trans [OF mpath_run path_reconcile_refund])

lemma path_maintain_merchants:
  "merchant_path lib ml sm db (snd (maintainMerchants lib ml sm c p envs envs' mid account order limit db))"
proof (cases "validateMerchantProviderMode sm p")
  case (Inr pv)
  let ?as = "maintenance_accounts (merchantModeValue sm) account (nat limit) (merchant_accounts db)"
  obtain x db1 where m1: "maintain (maintain_account lib ml sm pv) (\<lambda>n. unhurried (envs n)) ?as 0 db = (x, db1)" by fastforce
  have "merchant_path lib ml sm db (snd (maintain (maintain_account lib ml sm pv) (\<lambda>n. unhurried (envs n)) ?as 0 db))"
    by (rule path_maintain) (rule path_maintain_steps)
  with m1 have p1: "merchant_path lib ml sm db db1" by simp
  show ?thesis
  proof (cases x)
    case (Inl e)
    with Inr m1 p1 show ?thesis by (simp add: maintainMerchants_def split: option.splits)
  next
    case (Inr n)
    let ?db = "merchant_run lib ml sm mid db1"
    let ?qs = "maintenance_orders (merchantModeValue sm) order (nat limit) (merchant_orders ?db)"
    obtain y db2 where m2: "maintain (maintain_order lib ml sm pv) (\<lambda>n. unhurried (envs' n)) ?qs n ?db = (y, db2)" by fastforce
    have "merchant_path lib ml sm ?db (snd (maintain (maintain_order lib ml sm pv) (\<lambda>n. unhurried (envs' n)) ?qs n ?db))"
      by (rule path_maintain) (rule path_maintain_steps)
    with m2 have "merchant_path lib ml sm ?db db2" by simp
    from mpath_trans [OF mpath_mid [OF p1] this] have "merchant_path lib ml sm db db2" .
    with \<open>validateMerchantProviderMode sm p = Inr pv\<close> Inr m1 m2 mpath_mid [OF p1] show ?thesis
      by (simp add: maintainMerchants_def Let_def split: option.splits sum.splits)
  qed
qed (simp add: maintainMerchants_def)

lemma path_maintain_refunds: "merchant_path lib ml sm db (snd (maintainMerchantRefunds lib ml sm c p envs cursor limit db))"
proof (cases "validateMerchantProviderMode sm p")
  case (Inr pv)
  let ?rs = "maintenance_refunds (merchantModeValue sm) cursor (nat limit) (merchant_refunds db)"
  obtain x db1 where m: "maintain (maintain_refund lib ml sm pv) envs ?rs 0 db = (x, db1)" by fastforce
  have "merchant_path lib ml sm db (snd (maintain (maintain_refund lib ml sm pv) envs ?rs 0 db))"
    by (rule path_maintain) (rule path_maintain_steps)
  with m have "merchant_path lib ml sm db db1" by simp
  with Inr m show ?thesis by (simp add: maintainMerchantRefunds_def Let_def split: option.splits sum.splits)
qed (simp add: maintainMerchantRefunds_def)

lemma path_process_merchant_events: "merchant_path lib ml sm db (snd (processMerchantEvents lib ml sm c p envs limit db))"
  using path_process_events by (auto simp: processMerchantEvents_def split: sum.splits option.splits)

section \<open>Rows over a history\<close>

lemma run_order_kept:
  assumes "shop_ok (shop_of db)" and "q \<in> set (merchant_orders db)"
  shows "\<exists>p \<in> set (merchant_orders (merchant_run lib ml sm is db)). order_le q p"
proof -
  have "shop_ok (shop_of (merchant_run lib ml sm is db)) \<and> (\<exists>p \<in> set (merchant_orders (merchant_run lib ml sm is db)). order_le q p)"
  proof (rule run_ops_preserves [where P = "\<lambda>d. shop_ok (shop_of d) \<and> (\<exists>p \<in> set (merchant_orders d). order_le q p)"])
    show "shop_ok (shop_of db) \<and> (\<exists>p \<in> set (merchant_orders db). order_le q p)" using assms le_refl(3) by blast
    fix i and d :: "'a merchant_db_scheme"
    assume d: "shop_ok (shop_of d) \<and> (\<exists>p \<in> set (merchant_orders d). order_le q p)"
    then obtain p where p: "p \<in> set (sh_orders (shop_of d))" "order_le q p" by auto
    note step = exec_step [OF conjunct1 [OF d], of lib ml sm i]
    from order_kept [OF step p(1)] order_le_trans [OF p(2)] shop_ok_step [OF step conjunct1 [OF d]]
    show "shop_ok (shop_of (snd (merchant_exec lib ml sm i d))) \<and> (\<exists>p \<in> set (merchant_orders (snd (merchant_exec lib ml sm i d))). order_le q p)"
      by auto
  qed
  then show ?thesis by blast
qed

text \<open>Where an order comes from: it was there at the start, or a transaction of the history placed it.\<close>

lemma run_order_origin:
  assumes "shop_ok (shop_of db)" and "q \<in> set (merchant_orders (merchant_run lib ml sm is db))"
  shows "(\<exists>p \<in> set (merchant_orders db). order_terms q = order_terms p)
     \<or> (\<exists>is1 is2. is = is1 @ is2 \<and> offers (merchant_products (merchant_run lib ml sm is1 db)) q)"
  using assms(2)
proof (induction "is" arbitrary: q rule: rev_induct)
  case (snoc i "is")
  let ?d = "merchant_run lib ml sm is db"
  have "shop_ok (shop_of ?d)" by (rule mc.run_inv [OF assms(1)])
  from exec_step [OF this, of lib ml sm i] snoc.prems
  consider p where "p \<in> set (merchant_orders ?d)" "order_terms q = order_terms p" | "offers (merchant_products ?d) q"
    using order_origin [of "shop_of ?d" "shop_of (snd (merchant_exec lib ml sm i ?d))" q] by (auto simp: run_ops_append)
  then show ?case
  proof cases
    case 1
    from snoc.IH [OF 1(1)] show ?thesis
    proof (elim disjE exE conjE)
      fix is1 is2
      assume "is = is1 @ is2" "offers (merchant_products (merchant_run lib ml sm is1 db)) p"
      then have "is @ [i] = is1 @ is2 @ [i]" "offers (merchant_products (merchant_run lib ml sm is1 db)) q"
        unfolding offers_terms [OF 1(2)] by simp_all
      then show ?thesis by blast
    qed (use 1(2) in auto)
  qed blast
next
  case Nil
  then have "q \<in> set (merchant_orders db)" by simp
  then show ?case by (intro disjI1 bexI) (rule refl)
qed

lemma run_refund_kept:
  assumes "shop_ok (shop_of db)" and "r \<in> set (merchant_refunds db)"
  shows "\<exists>t \<in> set (merchant_refunds (merchant_run lib ml sm is db)). refund_le r t"
proof -
  have "shop_ok (shop_of (merchant_run lib ml sm is db)) \<and> (\<exists>p \<in> set (merchant_refunds (merchant_run lib ml sm is db)). refund_le r p)"
  proof (rule run_ops_preserves [where P = "\<lambda>d. shop_ok (shop_of d) \<and> (\<exists>p \<in> set (merchant_refunds d). refund_le r p)"])
    show "shop_ok (shop_of db) \<and> (\<exists>p \<in> set (merchant_refunds db). refund_le r p)" using assms le_refl(4) by blast
    fix i and d :: "'a merchant_db_scheme"
    assume d: "shop_ok (shop_of d) \<and> (\<exists>p \<in> set (merchant_refunds d). refund_le r p)"
    then obtain p where p: "p \<in> set (sh_refunds (shop_of d))" "refund_le r p" by auto
    note step = exec_step [OF conjunct1 [OF d], of lib ml sm i]
    from refund_kept [OF step p(1)] refund_le_trans [OF p(2)] shop_ok_step [OF step conjunct1 [OF d]]
    show "shop_ok (shop_of (snd (merchant_exec lib ml sm i d))) \<and> (\<exists>p \<in> set (merchant_refunds (snd (merchant_exec lib ml sm i d))). refund_le r p)"
      by auto
  qed
  then show ?thesis by blast
qed

text \<open>An order or a refund that was submitted stays so; two facts every history keeps.\<close>

definition order_sent :: "string \<times> string \<Rightarrow> 'x merchant_db_scheme \<Rightarrow> bool" where
  "order_sent k db \<longleftrightarrow> shop_ok (shop_of db) \<and> (\<exists>q \<in> set (merchant_orders db). mo_ident q = k \<and> mo_state q \<noteq> ''requested'')"

definition refund_sent :: "string \<times> string \<Rightarrow> 'x merchant_db_scheme \<Rightarrow> bool" where
  "refund_sent k db \<longleftrightarrow> shop_ok (shop_of db) \<and> (\<exists>r \<in> set (merchant_refunds db). mr_of r = k \<and> mr_state r \<noteq> ''requested'')"

interpretation msent: stable "merchant_exec lib ml sm" order_sent for lib ml sm
proof
  fix k and db :: "'x merchant_db_scheme" and i
  assume s: "order_sent k db"
  then obtain q where q: "q \<in> set (sh_orders (shop_of db))" "mo_ident q = k" "mo_state q \<noteq> ''requested''" and ok: "shop_ok (shop_of db)"
    by (auto simp: order_sent_def)
  note step = exec_step [OF ok, of lib ml sm i]
  from order_kept [OF step q(1)] obtain p where p: "p \<in> set (merchant_orders (snd (merchant_exec lib ml sm i db)))" "order_le q p" by auto
  from q(3) p(2) have "mo_state p \<noteq> ''requested''" by (auto simp: order_le_def order_rank_def split: if_splits)
  moreover from p(2) q(2) have "mo_ident p = k" by (simp add: order_le_def order_terms_def)
  ultimately show "order_sent k (snd (merchant_exec lib ml sm i db))"
    unfolding order_sent_def using p(1) shop_ok_step [OF step ok] by blast
qed

interpretation mrefund: stable "merchant_exec lib ml sm" refund_sent for lib ml sm
proof
  fix k and db :: "'x merchant_db_scheme" and i
  assume s: "refund_sent k db"
  then obtain r where r: "r \<in> set (sh_refunds (shop_of db))" "mr_of r = k" "mr_state r \<noteq> ''requested''" and ok: "shop_ok (shop_of db)"
    by (auto simp: refund_sent_def)
  note step = exec_step [OF ok, of lib ml sm i]
  from refund_kept [OF step r(1)] obtain t where t: "t \<in> set (merchant_refunds (snd (merchant_exec lib ml sm i db)))" "refund_le r t" by auto
  then have "mr_state t \<noteq> ''requested''" "mr_of t = k" using r(2,3) by (simp_all add: refund_le_def refund_terms_def)
  then show "refund_sent k (snd (merchant_exec lib ml sm i db))"
    unfolding refund_sent_def using t(1) shop_ok_step [OF step ok] by blast
qed

section \<open>What a dispatch sends\<close>

lemma dispatch_order_sent:
  assumes "dispatchMerchantOrder lib ml sm c p mid ident db = (x, Some (account, co), db')"
  shows "\<exists>q t db1. submit_order_tx sm (c 0) ident db = Inr ((q, Some t), db1) \<and> account = mo_account q \<and> co = checkoutForOrder q
    \<and> in_tx (cl_drv (c 0)) (submit_order_tx sm (c 0) ident) db = (Inr (q, Some t), db1)"
proof -
  obtain r db1 where tx: "in_tx (cl_drv (c 0)) (submit_order_tx sm (c 0) ident) db = (r, db1)" by fastforce
  from assms tx obtain q t where "r = Inr (q, Some t)" "account = mo_account q" "co = checkoutForOrder q"
    by (auto simp: dispatchMerchantOrder_def Let_def split: sum.splits option.splits prod.splits if_splits)
  with tx show ?thesis by (auto simp: in_tx_Inr_iff)
qed

lemma dispatch_refund_sent:
  assumes "dispatchMerchantRefund lib ml sm c p mid ident db = (x, Some (account, rq), db')"
  shows "\<exists>r t db1. submit_refund_tx sm (c 0) ident db = Inr ((r, Some t), db1) \<and> account = mr_account r \<and> rq = refundRequest r
    \<and> in_tx (cl_drv (c 0)) (submit_refund_tx sm (c 0) ident) db = (Inr (r, Some t), db1)"
proof -
  obtain y db1 where tx: "in_tx (cl_drv (c 0)) (submit_refund_tx sm (c 0) ident) db = (y, db1)" by fastforce
  from assms tx obtain r t where "y = Inr (r, Some t)" "account = mr_account r" "rq = refundRequest r"
    by (auto simp: dispatchMerchantRefund_def Let_def split: sum.splits option.splits prod.splits if_splits)
  with tx show ?thesis by (auto simp: in_tx_Inr_iff)
qed

lemma submit_order_sends:
  assumes ok: "shop_ok (shop_of db)" and tx: "submit_order_tx sm c ident db = Inr ((q, Some t), db1)"
  shows "order_sent (merchantModeValue sm, ident) db1"
proof -
  note d = submit_orderD [OF tx]
  then have "q \<in> set (merchant_orders db)" "mo_ident q = (merchantModeValue sm, ident)" "mo_state q = ''requested''"
    by (auto dest: get_row_SomeD)
  moreover from d have "merchant_orders db1 = map (\<lambda>p. if mo_ident p = (merchantModeValue sm, ident) \<and> mo_state p = ''requested''
               then p\<lparr>mo_state := ''submitted'', mo_submitted := cl_now c 1\<rparr> else p) (merchant_orders db)"
    by (simp add: shop_of_def)
  ultimately have "q\<lparr>mo_state := ''submitted'', mo_submitted := cl_now c 1\<rparr> \<in> set (merchant_orders db1)" by force
  moreover have "mo_ident (q\<lparr>mo_state := ''submitted'', mo_submitted := cl_now c 1\<rparr>) = (merchantModeValue sm, ident)"
    using \<open>mo_ident q = _\<close> by (simp add: mo_ident_def)
  moreover have "shop_ok (shop_of db1)" using submit_order_step [OF ok tx] ok by (rule shop_ok_step)
  ultimately show ?thesis unfolding order_sent_def
    by (intro conjI bexI [of _ "q\<lparr>mo_state := ''submitted'', mo_submitted := cl_now c 1\<rparr>"]) simp_all
qed

lemma submit_refund_sends:
  assumes ok: "shop_ok (shop_of db)" and tx: "submit_refund_tx sm c ident db = Inr ((r, Some t), db1)"
  shows "refund_sent (mr_of r) db1"
proof -
  note d = submit_refundD [OF tx]
  then have "r \<in> set (merchant_refunds db)" "mr_ident r = (merchantModeValue sm, ident)" by (auto dest: get_row_SomeD)
  moreover from d have "merchant_refunds db1 = map (\<lambda>r. if mr_ident r = (merchantModeValue sm, ident)
               then r\<lparr>mr_state := ''submitted'', mr_submitted := cl_now c 0\<rparr> else r) (merchant_refunds db)"
    by (simp add: shop_of_def)
  ultimately have "r\<lparr>mr_state := ''submitted'', mr_submitted := cl_now c 0\<rparr> \<in> set (merchant_refunds db1)" by force
  moreover have "shop_ok (shop_of db1)" using submit_refund_step [OF ok tx] ok by (rule shop_ok_step)
  ultimately show ?thesis unfolding refund_sent_def
    by (intro conjI bexI [of _ "r\<lparr>mr_state := ''submitted'', mr_submitted := cl_now c 0\<rparr>"]) (simp_all add: mr_of_def)
qed

lemma order_sent_blocks:
  assumes s: "order_sent (merchantModeValue sm, ident) db" and tx: "submit_order_tx sm c ident db = Inr ((q, t), db1)"
  shows "t = None"
proof (rule ccontr)
  assume "t \<noteq> None"
  with submit_orderD [OF tx] have q: "get_row mo_ident (merchantModeValue sm, ident) (merchant_orders db) = Some q" "mo_state q = ''requested''"
    by (auto split: option.splits)
  from s obtain p where p: "p \<in> set (merchant_orders db)" "mo_ident p = (merchantModeValue sm, ident)" "mo_state p \<noteq> ''requested''"
    and ok: "shop_ok (shop_of db)" by (auto simp: order_sent_def)
  from row_is [OF _ q(1) p(1,2)] shop_okD(7) [OF ok] have "p = q" by simp
  with p(3) q(2) show False by simp
qed

lemma refund_sent_blocks:
  assumes s: "refund_sent k db" and tx: "submit_refund_tx sm c ident db = Inr ((r, Some t), db1)"
  shows "mr_of r \<noteq> k"
proof
  assume k: "mr_of r = k"
  from submit_refundD [OF tx] have r: "r \<in> set (merchant_refunds db)" "mr_state r = ''requested''" by (auto dest: get_row_SomeD)
  from s obtain p where p: "p \<in> set (merchant_refunds db)" "mr_of p = k" "mr_state p \<noteq> ''requested''" and ok: "shop_ok (shop_of db)"
    by (auto simp: refund_sent_def)
  from shop_okD(14) [OF ok] have "inj_on mr_of (set (merchant_refunds db))" by (simp add: distinct_map)
  from inj_onD [OF this _ r(1) p(1)] k p(2) have "p = r" by simp
  with p(3) r(2) show False by simp
qed

section \<open>Buyers\<close>

text \<open>No session and no grant of a buyer is left.\<close>

definition shut_out :: "string \<times> string \<Rightarrow> 'x merchant_db_scheme \<Rightarrow> bool" where
  "shut_out k db \<longleftrightarrow> k \<notin> bu_ident ` set (buyer_sessions db) \<and> (\<forall>g \<in> set (recovery_grants db). (rg_mode g, rg_session g) \<noteq> k)"

definition buyers_of :: "'x merchant_db_scheme \<Rightarrow> buyer_session list \<times> recovery_grant list" where
  "buyers_of db = (buyer_sessions db, recovery_grants db)"

lemma shut_out_buyers: "buyers_of db' = buyers_of db \<Longrightarrow> shut_out k db' = shut_out k db"
  by (simp add: shut_out_def buyers_of_def)

lemma more_buyers: "accounts_db.more db' = accounts_db.more db \<Longrightarrow> buyers_of db' = buyers_of db"
  by (cases db, cases db') (simp add: buyers_of_def)

lemma drop_shut_out: "shut_out k db \<Longrightarrow> shut_out k (drop_sessions P db)"
  by (auto simp: shut_out_def drop_sessions_def)

lemma drop_shuts_out:
  assumes "\<forall>g \<in> set (recovery_grants db). (rg_mode g, rg_session g) \<in> bu_ident ` set (buyer_sessions db)"
  shows "shut_out k (drop_sessions (\<lambda>s. bu_ident s = k) db)"
  using assms by (fastforce simp: shut_out_def drop_sessions_def list_ex_iff)

text \<open>\<open>quiet db m\<close>: if \<open>m\<close> commits, it left the buyers of \<open>db\<close> alone. Its rules follow the shape of a transaction.\<close>

definition quiet :: "'x merchant_db_scheme \<Rightarrow> ('a \<times> 'x merchant_db_scheme) result \<Rightarrow> bool" where
  "quiet db m \<longleftrightarrow> (\<forall>x db'. m = Inr (x, db') \<longrightarrow> buyers_of db' = buyers_of db)"

lemma quietD: "quiet db m \<Longrightarrow> m = Inr (x, db') \<Longrightarrow> buyers_of db' = buyers_of db"
  by (simp add: quiet_def)

lemma quiet_audit:
  assumes "buyers_of db1 = buyers_of db" and "\<And>db2. buyers_of db2 = buyers_of db \<Longrightarrow> quiet db (k db2)"
  shows "quiet db (andThen (audit ident actor ws action now db1) k)"
proof (cases "audit ident actor ws action now db1")
  case (Inr db2)
  from auditD [OF this] assms(1) have "buyers_of db2 = buyers_of db" by (auto simp: buyers_of_def)
  from assms(2) [OF this] Inr show ?thesis by (simp add: andThen_simps)
qed (simp add: quiet_def andThen_simps)

lemma quiet_seq: "(\<And>a. m = Inr a \<Longrightarrow> quiet db (k a)) \<Longrightarrow> quiet db (andThen m k)"
  by (cases m) (simp_all add: quiet_def andThen_simps)

lemma quiet_intent:
  assumes "\<And>request db2. buyers_of db2 = buyers_of db \<Longrightarrow> quiet db (k (request, db2))"
  shows "quiet db (andThen (merchantActionIntent c actor ws action db) k)"
proof (rule quiet_seq)
  fix x
  assume m: "merchantActionIntent c actor ws action db = Inr x"
  obtain request db2 where x: "x = (request, db2)" by (cases x)
  from m have "buyers_of db2 = buyers_of db" unfolding x by (auto simp: merchantActionIntent_def Let_def buyers_of_def dest!: auditD)
  from assms [OF this] show "quiet db (k x)" by (simp add: x)
qed

lemma quiet_if: "(P \<Longrightarrow> quiet db m) \<Longrightarrow> (\<not> P \<Longrightarrow> quiet db m') \<Longrightarrow> quiet db (if P then m else m')"
  by simp

lemma quiet_option: "quiet db m \<Longrightarrow> (\<And>a. quiet db (f a)) \<Longrightarrow> quiet db (case x of None \<Rightarrow> m | Some a \<Rightarrow> f a)"
  by (simp split: option.splits)

lemma quiet_pair: "(\<And>a b. x = (a, b) \<Longrightarrow> quiet db (f a b)) \<Longrightarrow> quiet db (case x of (a, b) \<Rightarrow> f a b)"
  by (simp split: prod.splits)

lemma quiet_ret: "buyers_of db' = buyers_of db \<Longrightarrow> quiet db (Inr (x, db'))"
  by (simp add: quiet_def)

lemmas quiet_rules = quiet_audit quiet_intent quiet_seq quiet_if quiet_option quiet_ret

lemma quiet_accounts:
  "quiet db (request_account_tx lib sm c token ws country db)" "quiet db (submit_account_tx sm c request db)"
  "quiet db (bind_account_tx sm c request pa db)" "quiet db (onboarding_tx lib sm c token ws db)"
  "quiet db (onboarded_tx lib sm c token ws actor a request now db)" "quiet db (start_refresh_tx lib sm c token ws db)"
  "quiet db (finish_refresh_tx lib sm c token ws account gen pa db)" "quiet db (start_maintenance_tx sm a db)"
  "quiet db (finish_maintenance_tx sm c a pa db)"
  unfolding request_account_tx_def submit_account_tx_def bind_account_tx_def onboarding_tx_def onboarded_tx_def start_refresh_tx_def
    finish_refresh_tx_def start_maintenance_tx_def finish_maintenance_tx_def Let_def prod.case
  by ((rule quiet_rules | (simp add: buyers_of_def; fail) | (unfold prod.case))+)

lemma quiet_orders:
  "quiet db (save_product_tx lib sm c token i db)" "quiet db (request_order_tx lib sm c buyer product revision key db)"
  "quiet db (submit_order_tx sm c ident db)" "quiet db (start_order_tx sm ident session db)"
  "quiet db (bind_checkout_tx ml sm c ident r since gen db)" "quiet db (fulfill_tx lib sm c token ws ident db)"
  unfolding save_product_tx_def create_product_tx_def update_product_tx_def request_order_tx_def submit_order_tx_def start_order_tx_def
    bind_checkout_tx_def fulfill_tx_def Let_def
  by ((rule quiet_rules | (simp add: buyers_of_def; fail))+)

lemma quiet_refunds:
  "quiet db (request_refund_tx lib sm c token ws ident db)" "quiet db (submit_refund_tx sm c ident db)"
  "quiet db (start_refund_tx sm ident provider db)" "quiet db (bind_refund_tx sm c ident f since gen db)"
  "quiet db (accept_event_tx sm c e db)" "quiet db (claim_event_tx sm c ident db)" "quiet db (done_event_tx sm ident db)"
  unfolding request_refund_tx_def submit_refund_tx_def start_refund_tx_def bind_refund_tx_def accept_event_tx_def claim_event_tx_def
    done_event_tx_def Let_def
  by ((rule quiet_rules | (simp add: buyers_of_def; fail))+)

lemmas buyers_same = quiet_accounts [THEN quietD] quiet_orders [THEN quietD] quiet_refunds [THEN quietD]

text \<open>The session that a transaction opens, if it opens one.\<close>

fun opens :: "portal_lib \<Rightarrow> string \<Rightarrow> call \<times> merchant_tx \<Rightarrow> (string \<times> string) option" where
  "opens lib sm (c, MBuyerSession) = Some (merchantModeValue sm, lib_digest lib (cl_token c 0))"
| "opens lib sm i = None"

lemma redeemD:
  assumes "redeem_code_tx lib sm c token code db = Inr (q, db')"
  shows "\<exists>r :: recovery_code. merchantBuyerSessionActive lib (merchantModeValue sm) token (cl_now c 0) (drop_expired sm (cl_now c 0) db) = Inr ()
    \<and> db' = (drop_expired sm (cl_now c 0) db)\<lparr>recovery_grants :=
        add_grant (merchantModeValue sm) (rc_order r) (lib_digest lib token) (cl_now c 0) (recovery_grants (drop_expired sm (cl_now c 0) db))\<rparr>"
proof -
  obtain r where "List.find (\<lambda>r. rc_code r = (merchantModeValue sm, lib_digest lib code) \<and> rc_expires r > cl_now c 0)
      (recovery_codes (drop_expired sm (cl_now c 0) db)) = Some r"
    using assms by (auto simp: redeem_code_tx_def Let_def)
  with assms show ?thesis by - (rule exI [of _ r], auto simp: redeem_code_tx_def Let_def)
qed

lemma buyer_sessionD:
  assumes "buyer_session_tx lib sm c db = Inr (x, db')"
  shows "db' = (drop_expired sm (cl_now c 0) db)\<lparr>buyer_sessions := buyer_sessions (drop_expired sm (cl_now c 0) db)
    @ [\<lparr>bu_mode = merchantModeValue sm, bu_hash = lib_digest lib (cl_token c 0), bu_expires = cl_now c 0 + 2592000\<rparr>]\<rparr>"
  using assms by (auto simp: buyer_session_tx_def Let_def insert_row_Inr)

lemma body_shut_out:
  assumes "merchant_body lib ml sm c t db = Inr (u, db')" and out: "shut_out k db" and new: "opens lib sm (c, t) \<noteq> Some k"
  shows "shut_out k db'"
proof -
  have same: "shut_out k db'" if "buyers_of db' = buyers_of db" using out shut_out_buyers [OF that] by blast
  have dropped: "shut_out k (drop_expired sm now db)" for now
    unfolding drop_expired_def by (rule drop_shut_out [OF out])
  show ?thesis
  proof (cases t)
    case (MAccount a)
    with assms(1) acct_body_more have "accounts_db.more db' = accounts_db.more db" by auto
    then show ?thesis by (intro same more_buyers)
  next
    case MBuyerSession
    with assms(1) obtain x where "buyer_session_tx lib sm c db = Inr (x, db')" by auto
    from buyer_sessionD [OF this] MBuyerSession new dropped [of "cl_now c 0"] show ?thesis by (simp add: shut_out_def bu_ident_def)
  next
    case (MRevokeBuyer token)
    with assms(1) have "db' = drop_sessions (\<lambda>s. bu_ident s = (merchantModeValue sm, lib_digest lib token)) db"
      by (simp add: revoke_buyer_tx_def)
    with drop_shut_out [OF out] show ?thesis by (simp only:)
  next
    case (MIssueCode token ident)
    with assms(1) dropped [of "cl_now c 0"] show ?thesis by (auto simp: issue_code_tx_def Let_def shut_out_def)
  next
    case (MRedeemCode token code)
    with assms(1) obtain q where "redeem_code_tx lib sm c token code db = Inr (q, db')" by auto
    from redeemD [OF this] obtain r :: recovery_code where
      active: "merchantBuyerSessionActive lib (merchantModeValue sm) token (cl_now c 0) (drop_expired sm (cl_now c 0) db) = Inr ()"
      and db': "db' = (drop_expired sm (cl_now c 0) db)\<lparr>recovery_grants :=
        add_grant (merchantModeValue sm) (rc_order r) (lib_digest lib token) (cl_now c 0) (recovery_grants (drop_expired sm (cl_now c 0) db))\<rparr>"
      by blast
    from active have "(merchantModeValue sm, lib_digest lib token) \<in> bu_ident ` set (buyer_sessions (drop_expired sm (cl_now c 0) db))"
      by (auto simp: merchantBuyerSessionActive_def) (metis get_row_SomeD imageI)
    with dropped [of "cl_now c 0"] have "(merchantModeValue sm, lib_digest lib token) \<noteq> k" by (auto simp: shut_out_def)
    with dropped [of "cl_now c 0"] show ?thesis by (auto simp: db' shut_out_def add_grant_def)
  qed (insert assms(1), (clarsimp, intro same, rule buyers_same, assumption)+)
qed

lemma run_shut_out:
  assumes "shut_out k db" and "\<forall>i \<in> set is. opens lib sm i \<noteq> Some k"
  shows "shut_out k (merchant_run lib ml sm is db)"
proof (rule run_ops_preserves_set [where P = "shut_out k"])
  fix i and d :: "'a merchant_db_scheme"
  assume i: "i \<in> set is" and d: "shut_out k d"
  from in_tx_cases [of "cl_drv (fst i)" "merchant_body lib ml sm (fst i) (snd i)" d]
  show "shut_out k (snd (merchant_exec lib ml sm i d))"
  proof
    assume "snd (in_tx (cl_drv (fst i)) (merchant_body lib ml sm (fst i) (snd i)) d) = d"
    with d show ?thesis by (simp add: merchant_exec_def)
  next
    assume "\<exists>a. merchant_body lib ml sm (fst i) (snd i) d = Inr (a, snd (in_tx (cl_drv (fst i)) (merchant_body lib ml sm (fst i) (snd i)) d))"
    then obtain u where "merchant_body lib ml sm (fst i) (snd i) d = Inr (u, snd (merchant_exec lib ml sm i d))"
      unfolding merchant_exec_def by blast
    from body_shut_out [OF this d] assms(2) i show ?thesis by simp
  qed
qed (rule assms(1))

section \<open>Properties\<close>

text \<open>
  C18: The tables of the shop stay consistent over every history from consistent tables: the unique keys hold, every order names a product of its
  workspace at a revision the product has reached, with the product's name and price while it is still at that revision, and
  pays the bound account of the workspace; only a complete order is paid or fulfilled, amounts stay between 50 and 99999999
  minor units, and every refund repays a paid order in full. Every order placed during the history has the name and the
  price that its product, then active, had at the revision it names when the order was placed.
\<close>
theorem shop_tables_consistent:
  assumes "shop_ok (shop_of db)"
  shows "shop_ok (shop_of (run_ops (merchant_exec lib ml sm) is db))
     \<and> (\<forall>q \<in> set (merchant_orders (run_ops (merchant_exec lib ml sm) is db)).
          (\<exists>p \<in> set (merchant_orders db). order_terms q = order_terms p)
          \<or> (\<exists>is1 is2. is = is1 @ is2 \<and> offers (merchant_products (run_ops (merchant_exec lib ml sm) is1 db)) q))"
  by (intro conjI ballI mc.run_inv [OF assms] run_order_origin [OF assms])

text \<open>
  The workers of the shop only run transactions of the store: whatever the provider answers and whatever others commit meanwhile,
  processing the events, the maintenance of accounts and orders, and the maintenance of refunds
  lead from a database to one that a history of transactions leads to.
\<close>
theorem merchant_workers_run_transactions:
  "\<exists>is1 is2 is3. snd (processMerchantEvents lib ml sm c p envs limit db) = run_ops (merchant_exec lib ml sm) is1 db
     \<and> snd (maintainMerchants lib ml sm cs p envs envs' mid account order limit db) = run_ops (merchant_exec lib ml sm) is2 db
     \<and> snd (maintainMerchantRefunds lib ml sm c p envs cursor limit db) = run_ops (merchant_exec lib ml sm) is3 db"
  using path_process_merchant_events [of lib ml sm db c p envs limit]
    path_maintain_merchants [of lib ml sm db cs p envs envs' mid account order limit]
    path_maintain_refunds [of lib ml sm db c p envs cursor limit]
  unfolding merchant_path_def by blast

text \<open>
  C22: An order only moves forward. Over every history of a consistent shop its buyer, workspace, product and revision, account, name and price
  stay, its state never goes back and is final once complete or expired, a paid order stays paid, and the checkout session,
  the payment of the provider and the record of its fulfilment stay once they are set.
\<close>
theorem orders_only_move_forward:
  assumes "shop_ok (shop_of db)" and "q \<in> set (merchant_orders db)"
  shows "\<exists>p \<in> set (merchant_orders (run_ops (merchant_exec lib ml sm) is db)).
      mo_ident p = mo_ident q \<and> mo_buyer p = mo_buyer q \<and> mo_workspace p = mo_workspace q
      \<and> mo_product p = mo_product q \<and> mo_product_revision p = mo_product_revision q
      \<and> mo_account p = mo_account q \<and> mo_name p = mo_name q \<and> mo_currency p = mo_currency q \<and> mo_amount p = mo_amount q
      \<and> order_rank q \<le> order_rank p
      \<and> (mo_state q \<in> {''complete'', ''expired''} \<longrightarrow> mo_state p = mo_state q)
      \<and> (mo_payment q = ''paid'' \<longrightarrow> mo_payment p = ''paid'')
      \<and> (mo_intent q \<noteq> [] \<longrightarrow> mo_intent p = mo_intent q)
      \<and> (coalesce (mo_session q) \<noteq> [] \<longrightarrow> mo_session p = mo_session q)
      \<and> (mo_fulfilled_at q \<noteq> 0 \<longrightarrow> mo_fulfilled_at p = mo_fulfilled_at q \<and> mo_fulfilled_by p = mo_fulfilled_by q)"
proof -
  from run_order_kept [OF assms] obtain p where p: "p \<in> set (merchant_orders (merchant_run lib ml sm is db))" "order_le q p" by blast
  from p(2) have terms: "order_terms p = order_terms q" by (simp add: order_le_def)
  have final: "mo_state q \<in> {''complete'', ''expired''} \<longrightarrow> mo_state p = mo_state q"
    using p(2) by (auto simp: order_le_def order_rank_def)
  have buyer: "mo_buyer p = mo_buyer q" using terms_fields(2) [OF terms] by (simp add: mo_req_def)
  show ?thesis
    by (rule bexI [OF _ p(1)])
      (use p(2) final buyer terms_fields [OF terms] in \<open>simp add: order_le_def\<close>)
qed

text \<open>
  C20: A checkout is created once. From the moment a dispatch marks an order as submitted and sends it to the
  payment provider, no dispatch of the order, at any later point of any history and whatever the first attempt came to,
  sends it again.
\<close>
theorem checkout_is_created_once:
  assumes "shop_ok (shop_of db)" and "dispatchMerchantOrder lib ml sm c p mid ident db = (x, Some sent, db')"
  shows "fst (snd (dispatchMerchantOrder lib ml sm c2 p2 mid2 ident
      (run_ops (merchant_exec lib ml sm) is (snd (in_tx (cl_drv (c 0)) (submit_order_tx sm (c 0) ident) db))))) = None"
proof -
  obtain account co where sent: "sent = (account, co)" by (cases sent)
  from dispatch_order_sent [OF assms(2) [unfolded sent]] obtain q t db1 where
    tx: "submit_order_tx sm (c 0) ident db = Inr ((q, Some t), db1)"
    and db1: "snd (in_tx (cl_drv (c 0)) (submit_order_tx sm (c 0) ident) db) = db1" by auto
  let ?db = "merchant_run lib ml sm is db1"
  from msent.run_latched [OF submit_order_sends [OF assms(1) tx]] have s: "order_sent (merchantModeValue sm, ident) ?db" .
  show ?thesis unfolding db1
  proof (rule ccontr)
    assume "fst (snd (dispatchMerchantOrder lib ml sm c2 p2 mid2 ident ?db)) \<noteq> None"
    then obtain y a o' d where "dispatchMerchantOrder lib ml sm c2 p2 mid2 ident ?db = (y, Some (a, o'), d)"
      by (metis option.exhaust prod.collapse)
    from dispatch_order_sent [OF this] obtain q2 t2 db2 where "submit_order_tx sm (c2 0) ident ?db = Inr ((q2, Some t2), db2)" by blast
    from order_sent_blocks [OF s this] show False by simp
  qed
qed

text \<open>
  C19: A buyer is charged the listed price. When an order is placed and, after any history, sent to the payment provider, the
  checkout asks for the name, currency and amount the product had at the revision the buyer saw, which was active, and pays
  the account of the workspace that sells it, which at the order was bound and freshly seen able to take payments.
\<close>
theorem buyer_is_charged_the_listed_price:
  assumes "shop_ok (shop_of db)"
    and "request_order_tx lib sm c buyer product revision key db = Inr (q, db1)" and "q \<notin> set (merchant_orders db)"
    and "dispatchMerchantOrder lib ml sm c2 p2 mid2 (mo_id q) (run_ops (merchant_exec lib ml sm) is db1) = (x, Some (account, co), db2)"
  shows "\<exists>p a. p \<in> set (merchant_products db) \<and> mp_ident p = (merchantModeValue sm, product) \<and> mp_active p \<and> mp_revision p = revision
      \<and> a \<in> set (merchant_accounts db) \<and> ma_key a = (merchantModeValue sm, mp_workspace p) \<and> freshMerchantAccount a (cl_now c 0)
      \<and> account = coalesce (ma_account a)
      \<and> co = \<lparr>od_RequestID = mo_id q, od_Name = mp_name p, od_Currency = mp_currency p, od_AmountMinor = mp_amount p\<rparr>"
proof -
  let ?db = "merchant_run lib ml sm is db1"
  from request_orderD [OF assms(2)] assms(3) obtain p a where
    p: "p \<in> set (merchant_products db)" "mp_ident p = (merchantModeValue sm, product)" "mp_active p" "mp_revision p = revision"
    and a: "loadFreshMerchantAccount sm (mp_workspace p) (cl_now c 0) db = Inr a"
    and q: "mo_mode q = merchantModeValue sm" "mo_name q = mp_name p" "mo_currency q = mp_currency p" "mo_amount q = mp_amount p"
      "mo_account q = coalesce (ma_account a)"
    and db1: "shop_of db1 = (shop_of db)\<lparr>sh_orders := merchant_orders db @ [q]\<rparr>" by blast
  from request_order_step [OF assms(1,2)] assms(1) have ok1: "shop_ok (shop_of db1)" by (rule shop_ok_step)
  from db1 have "merchant_orders db1 = merchant_orders db @ [q]" by (metis shop.simps(3) shop_of_simps(3) shop.select_convs(3) shop.surjective shop.update_convs(3))
  then have "q \<in> set (merchant_orders db1)" by simp
  from run_order_kept [OF ok1 this] obtain q' where q': "q' \<in> set (merchant_orders ?db)" "order_le q q'" by blast
  from q'(2) have "order_terms q' = order_terms q" by (simp add: order_le_def)
  note same = terms_fields [OF this]
  have ok: "shop_ok (shop_of ?db)" by (rule mc.run_inv [OF ok1])
  from dispatch_order_sent [OF assms(4)] obtain r t d where
    r: "submit_order_tx sm (c2 0) (mo_id q) ?db = Inr ((r, Some t), d)" "account = mo_account r" "co = checkoutForOrder r" by blast
  from submit_orderD [OF r(1)] have "get_row mo_ident (merchantModeValue sm, mo_id q) (merchant_orders ?db) = Some r" by simp
  from row_is [OF _ this q'(1)] shop_okD(7) [OF ok] same(1) q(1) have "q' = r" by (simp add: mo_ident_def)
  with r same q have "account = coalesce (ma_account a)"
    "co = \<lparr>od_RequestID = mo_id q, od_Name = mp_name p, od_Currency = mp_currency p, od_AmountMinor = mp_amount p\<rparr>"
    by (simp_all add: checkoutForOrder_def)
  with p load_freshD [OF a] show ?thesis by blast
qed

text \<open>
  C21: A refund repays its order, once. In a consistent shop, whatever refund is sent to the payment provider repays a complete and paid order: the
  payment, the account, the currency and the whole amount are the order's. Whatever refund is sent after that, at any later
  point of any history and under this or any other request, is for another order.
\<close>
theorem refund_repays_the_order_once:
  assumes "shop_ok (shop_of db)" and "dispatchMerchantRefund lib ml sm c p mid ident db = (x, Some (account, rq), db')"
  shows "(\<exists>q \<in> set (merchant_orders db). mo_ident q = (merchantModeValue sm, rq_OrderID rq) \<and> mo_state q = ''complete'' \<and> mo_payment q = ''paid''
            \<and> account = mo_account q \<and> rq_PaymentIntentID rq = mo_intent q \<and> rq_Currency rq = mo_currency q \<and> rq_AmountMinor rq = mo_amount q)
       \<and> (dispatchMerchantRefund lib ml sm c2 p2 mid2 ident2
             (run_ops (merchant_exec lib ml sm) is (snd (in_tx (cl_drv (c 0)) (submit_refund_tx sm (c 0) ident) db))) = (x2, Some (account2, rq2), db2)
           \<longrightarrow> rq_OrderID rq2 \<noteq> rq_OrderID rq)"
proof -
  from dispatch_refund_sent [OF assms(2)] obtain r t db1 where
    tx: "submit_refund_tx sm (c 0) ident db = Inr ((r, Some t), db1)" "account = mr_account r" "rq = refundRequest r"
    and db1: "snd (in_tx (cl_drv (c 0)) (submit_refund_tx sm (c 0) ident) db) = db1" by auto
  let ?db = "merchant_run lib ml sm is db1"
  from submit_refundD [OF tx(1)] have r: "r \<in> set (merchant_refunds db)" "mr_mode r = merchantModeValue sm"
    by (auto dest!: get_row_SomeD simp: mr_ident_def)
  from shop_okD(16) [OF assms(1)] r(1) obtain q where q: "q \<in> set (merchant_orders db)" "repays q r" by (auto simp: list_all_iff)
  from mrefund.run_latched [OF submit_refund_sends [OF assms(1) tx(1)]] have s: "refund_sent (mr_of r) ?db" .
  have "rq_OrderID rq2 \<noteq> rq_OrderID rq" if d2: "dispatchMerchantRefund lib ml sm c2 p2 mid2 ident2 ?db = (x2, Some (account2, rq2), db2)"
  proof -
    from dispatch_refund_sent [OF d2] obtain r2 t2 d where
      tx2: "submit_refund_tx sm (c2 0) ident2 ?db = Inr ((r2, Some t2), d)" "rq2 = refundRequest r2" by blast
    from submit_refundD [OF tx2(1)] have "mr_mode r2 = merchantModeValue sm" by (auto dest!: get_row_SomeD simp: mr_ident_def)
    with refund_sent_blocks [OF s tx2(1)] r(2) have "mr_order r2 \<noteq> mr_order r" by (simp add: mr_of_def)
    with tx(3) tx2(2) show ?thesis by (simp add: refundRequest_def)
  qed
  with q r(2) tx show ?thesis unfolding db1
    by (intro conjI bexI [of _ q]) (simp_all add: refundRequest_def repays_def paid_up_def mr_of_def)
qed

text \<open>
  A stale reading of an order cannot be recorded. Once a second reconciliation of an order has begun, the
  answer of an earlier one is refused, after any history and whatever the provider said.
\<close>
theorem stale_order_reading_is_refused:
  assumes "shop_ok (shop_of db)"
    and "start_order_tx sm ident session1 db = Inr (q1, db1)"
    and "start_order_tx sm ident session2 (run_ops (merchant_exec lib ml sm) is1 db1) = Inr (q2, db2)"
  shows "\<exists>e. bind_checkout_tx ml sm c ident r since (mo_generation q1 + 1) (run_ops (merchant_exec lib ml sm) is2 db2) = Inl e"
proof -
  let ?k = "(merchantModeValue sm, ident)"
  let ?d1 = "merchant_run lib ml sm is1 db1"
  let ?d2 = "merchant_run lib ml sm is2 db2"
  have started: "\<exists>q' \<in> set (merchant_orders d'). mo_ident q' = ?k \<and> mo_generation q' = mo_generation q + 1"
    if "start_order_tx sm ident session d = Inr (q, d')" for session q and d d' :: "'a merchant_db_scheme"
  proof -
    from that have q: "get_row mo_ident ?k (merchant_orders d) = Some q"
      "merchant_orders d' = upd_row mo_ident ?k (\<lambda>q. q\<lparr>mo_generation := mo_generation q + 1\<rparr>) (merchant_orders d)"
      by (auto simp: start_order_tx_def Let_def)
    from get_row_SomeD [OF q(1)] show ?thesis
      by (intro bexI [of _ "q\<lparr>mo_generation := mo_generation q + 1\<rparr>"]) (auto simp: q(2) set_upd_row mo_ident_def)
  qed
  have "start_order_tx sm ident session1 db = Inr (q1, db1)" by (rule assms(2))
  from start_order_step [OF assms(1) this] assms(1) have ok1: "shop_ok (shop_of db1)" by (rule shop_ok_step)
  have okd1: "shop_ok (shop_of ?d1)" by (rule mc.run_inv [OF ok1])
  from start_order_step [OF okd1 assms(3)] okd1 have ok2: "shop_ok (shop_of db2)" by (rule shop_ok_step)
  have okd2: "shop_ok (shop_of ?d2)" by (rule mc.run_inv [OF ok2])
  have later: "\<exists>p \<in> set (merchant_orders (merchant_run lib ml sm is d)). mo_ident p = ?k \<and> mo_generation q \<le> mo_generation p"
    if "shop_ok (shop_of d)" "q \<in> set (merchant_orders d)" "mo_ident q = ?k" for "is" q and d :: "'a merchant_db_scheme"
    using run_order_kept [OF that(1,2)] that(3) by (fastforce simp: order_le_def order_terms_def)
  from started [OF assms(2)] obtain p1 where "p1 \<in> set (merchant_orders db1)" "mo_ident p1 = ?k" "mo_generation p1 = mo_generation q1 + 1" by blast
  with later [OF ok1] obtain p2 where p2: "p2 \<in> set (merchant_orders ?d1)" "mo_ident p2 = ?k" "mo_generation q1 + 1 \<le> mo_generation p2" by metis
  from assms(3) have "get_row mo_ident ?k (merchant_orders ?d1) = Some q2" by (auto simp: start_order_tx_def Let_def)
  from row_is [OF _ this p2(1,2)] shop_okD(7) [OF okd1] have "p2 = q2" by simp
  from started [OF assms(3)] obtain p3 where "p3 \<in> set (merchant_orders db2)" "mo_ident p3 = ?k" "mo_generation p3 = mo_generation q2 + 1" by blast
  with later [OF ok2] obtain p4 where p4: "p4 \<in> set (merchant_orders ?d2)" "mo_ident p4 = ?k" "mo_generation q2 + 1 \<le> mo_generation p4" by metis
  show ?thesis
  proof (rule ccontr)
    assume "\<not> ?thesis"
    then obtain x where "bind_checkout_tx ml sm c ident r since (mo_generation q1 + 1) ?d2 = Inr x" by (metis sum.exhaust)
    then obtain q' d where "bind_checkout_tx ml sm c ident r since (mo_generation q1 + 1) ?d2 = Inr (q', d)" by (cases x) auto
    from bind_checkoutD [OF this] obtain q where
      q: "get_row mo_ident ?k (merchant_orders ?d2) = Some q" "mo_generation q = mo_generation q1 + 1" by blast
    from row_is [OF _ q(1) p4(1,2)] shop_okD(7) [OF okd2] have "p4 = q" by simp
    with q(2) p4(3) p2(3) \<open>p2 = q2\<close> show False by simp
  qed
qed

text \<open>
  C23: A buyer session that was revoked opens nothing but its own orders. When the session of a buyer is revoked, the orders it
  had recovered are closed to it: after any history that does not draw the same token for a new session, the orders
  its token still finds are those it placed itself.
\<close>
theorem revoked_buyer_keeps_only_own_orders:
  assumes "revoke_buyer_tx lib sm token db = Inr (u, db')"
    and "\<forall>g \<in> set (recovery_grants db). (rg_mode g, rg_session g) \<in> bu_ident ` set (buyer_sessions db)"
    and "\<forall>i \<in> set is. opens lib sm i \<noteq> Some (merchantModeValue sm, lib_digest lib token)"
    and "buyerMerchantOrder lib sm c token ident (run_ops (merchant_exec lib ml sm) is db') = Inr q"
  shows "mo_buyer q = lib_digest lib token"
proof -
  let ?k = "(merchantModeValue sm, lib_digest lib token)"
  from assms(1) have "db' = drop_sessions (\<lambda>s. bu_ident s = ?k) db" by (simp add: revoke_buyer_tx_def)
  with drop_shuts_out [OF assms(2)] have "shut_out ?k db'" by simp
  from run_shut_out [OF this assms(3)] have out: "shut_out ?k (merchant_run lib ml sm is db')" .
  then have "\<not> granted (merchantModeValue sm) i (lib_digest lib token) now (merchant_run lib ml sm is db')" for i now
    by (auto simp: granted_def list_ex_iff shut_out_def rg_ident_def)
  with assms(4) show ?thesis
    by (auto simp: buyerMerchantOrder_def split: if_splits option.splits dest!: find_SomeD)
qed

section \<open>A concrete shop\<close>

text \<open>The workspace of alice sells one product; one order is new, two are paid and to be refunded. A buyer recovered the new order.\<close>

definition sx_token :: string where
  "sx_token = replicate 64 CHR ''a''"

definition sx_account :: merchant_account where
  "sx_account = \<lparr>ma_mode = ''test'', ma_workspace = ''w'', ma_request = ''r'', ma_actor = ''alice'', ma_country = ''DE'', ma_state = ''bound'',
     ma_account = Some ''acct_1'', ma_created = 1, ma_submitted = 1,
     ma_snapshot = Some \<lparr>ca_ID = ''acct_1'', ca_Country = ''DE'', ca_RequestID = ''r'', ca_DetailsSubmitted = True, ca_ChargesEnabled = True,
       ca_PayoutsEnabled = True, ca_CardPayments = ''active'', ca_ObservedAt = 99\<rparr>, ma_generation = 0\<rparr>"

definition sx_product :: merchant_product where
  "sx_product = \<lparr>mp_mode = ''test'', mp_id = ''p'', mp_workspace = ''w'', mp_key = ''k'', mp_name = ''Mug'', mp_currency = ''eur'',
     mp_amount = 500, mp_active = True, mp_revision = 1, mp_created = 1, mp_updated = 1\<rparr>"

definition sx_order :: "string \<Rightarrow> string \<Rightarrow> string option \<Rightarrow> string \<Rightarrow> string \<Rightarrow> string \<Rightarrow> merchant_order" where
  "sx_order ident buyer session state payment intent =
     \<lparr>mo_mode = ''test'', mo_id = ident, mo_workspace = ''w'', mo_product = ''p'', mo_product_revision = 1, mo_buyer = buyer, mo_key = ident,
      mo_account = ''acct_1'', mo_name = ''Mug'', mo_currency = ''eur'', mo_amount = 500, mo_state = state, mo_payment = payment,
      mo_session = session, mo_url = [], mo_intent = intent, mo_created = 1, mo_submitted = 1, mo_generation = 0, mo_observed = 0,
      mo_fulfilled_at = 0, mo_fulfilled_by = []\<rparr>"

definition sx_refund :: "string \<Rightarrow> string \<Rightarrow> string \<Rightarrow> merchant_refund" where
  "sx_refund ident order intent =
     \<lparr>mr_mode = ''test'', mr_id = ident, mr_order = order, mr_workspace = ''w'', mr_actor = ''alice'', mr_account = ''acct_1'',
      mr_intent = intent, mr_currency = ''eur'', mr_amount = 500, mr_state = ''requested'', mr_provider = None, mr_created = 1,
      mr_submitted = 0, mr_observed = 0, mr_generation = 0\<rparr>"

definition sx_db :: merchant_db where
  "sx_db = accounts_db.extend ax_db (merchant_db.fields [sx_account] [sx_product]
     [sx_order ''o1'' ''#b'' None ''requested'' ''unpaid'' [],
      sx_order ''o2'' (CHR ''#'' # sx_token) (Some ''cs_test_2'') ''complete'' ''paid'' ''pi_2'',
      sx_order ''o3'' ''#b'' (Some ''cs_test_3'') ''complete'' ''paid'' ''pi_3'']
     [sx_refund ''f2'' ''o2'' ''pi_2'', sx_refund ''f3'' ''o3'' ''pi_3''] []
     [\<lparr>bu_mode = ''test'', bu_hash = CHR ''#'' # sx_token, bu_expires = 500\<rparr>] []
     [\<lparr>rg_mode = ''test'', rg_order = ''o1'', rg_session = CHR ''#'' # sx_token, rg_created = 1\<rparr>])"

definition sx_lib :: merchant_lib where
  "sx_lib = \<lparr>mk_url = (\<lambda>_. Some \<lparr>ur_Scheme = ''https'', ur_Host = ''checkout.stripe.com'', ur_User = False\<rparr>),
     mk_fragment = (\<lambda>_. False), mk_year = (\<lambda>t. t + 31536000)\<rparr>"

text \<open>A provider that never answers.\<close>

definition sx_provider :: merchant_provider where
  "sx_provider = \<lparr>mv_mode = None, mv_create_account = (\<lambda>_ _. Inl ErrContext), mv_account = (\<lambda>_ _ _. Inl ErrContext),
     mv_link = (\<lambda>_ _. Inl ErrContext), mv_create_checkout = (\<lambda>_ _. Inl ErrContext), mv_checkout = (\<lambda>_ _ _. Inl ErrContext),
     mv_refunds = True, mv_create_refund = (\<lambda>_ _. Inl ErrContext), mv_refund = (\<lambda>_ _ _. Inl ErrContext)\<rparr>"

lemmas sx_rows = sx_account_def sx_product_def sx_order_def sx_refund_def
lemmas sx_defs = sx_rows sx_db_def sx_lib_def sx_provider_def merchant_db.defs accounts_db.defs ax_defs

lemma sx_ok: "shop_ok (shop_of sx_db)"
  by (simp add: shop_ok_def merchant_keys uniq_def account_index_def session_index_def provider_index_def product_ok_def order_ok_def paid_up_def
      validMerchantProviderID_def hasPrefix_def ident_char_def byte_of_def sells_def earns_def repays_def coalesce_def sx_defs)

theorem orders_only_move_forward_witness:
  "\<exists>p \<in> set (merchant_orders (run_ops (merchant_exec ax_lib sx_lib ''test'') [(ax_call CHR ''x'', MSubmitOrder ''o1''), (ax_call CHR ''y'', MSubmitRefund ''f2'')] sx_db)).
     mo_ident p = (''test'', ''o2'') \<and> mo_payment p = ''paid'' \<and> mo_intent p = ''pi_2'' \<and> mo_session p = Some ''cs_test_2''"
proof -
  let ?q = "sx_order ''o2'' (CHR ''#'' # sx_token) (Some ''cs_test_2'') ''complete'' ''paid'' ''pi_2''"
  have "?q \<in> set (merchant_orders sx_db)" by (simp add: sx_db_def merchant_db.defs accounts_db.defs)
  from orders_only_move_forward [OF sx_ok this] obtain p where
    "p \<in> set (merchant_orders (run_ops (merchant_exec ax_lib sx_lib ''test'') [(ax_call CHR ''x'', MSubmitOrder ''o1''), (ax_call CHR ''y'', MSubmitRefund ''f2'')] sx_db))"
    "mo_ident p = mo_ident ?q" "mo_payment ?q = ''paid'' \<longrightarrow> mo_payment p = ''paid''" "mo_intent ?q \<noteq> [] \<longrightarrow> mo_intent p = mo_intent ?q"
    "coalesce (mo_session ?q) \<noteq> [] \<longrightarrow> mo_session p = mo_session ?q" by blast
  then show ?thesis by (intro bexI [of _ p]) (simp_all add: sx_order_def mo_ident_def coalesce_def)
qed

lemma sx_dispatch: "\<exists>x db'. dispatchMerchantOrder ax_lib sx_lib ''test'' (\<lambda>_. ax_call CHR ''x'') (Some sx_provider) [] ''o1'' sx_db
    = (x, Some (''acct_1'', \<lparr>od_RequestID = ''o1'', od_Name = ''Mug'', od_Currency = ''eur'', od_AmountMinor = 500\<rparr>), db')"
  by (simp add: dispatchMerchantOrder_def validateMerchantProviderMode_def merchantModeValue_def in_tx_def with_tx_def submit_order_tx_def Let_def
      loadFreshMerchantAccount_def freshMerchantAccount_def one_owner_def active_user_def audit_def insert_row_def checkoutForOrder_def merchant_keys
      coalesce_def seq_simps sx_defs)

theorem checkout_is_created_once_witness:
  "\<exists>x sent db'. dispatchMerchantOrder ax_lib sx_lib ''test'' (\<lambda>_. ax_call CHR ''x'') (Some sx_provider) [] ''o1'' sx_db = (x, Some sent, db')
     \<and> fst (snd (dispatchMerchantOrder ax_lib sx_lib ''test'' (\<lambda>_. ax_call CHR ''y'') (Some sx_provider) [] ''o1''
          (run_ops (merchant_exec ax_lib sx_lib ''test'') [(ax_call CHR ''z'', MBuyerSession)]
            (snd (in_tx (cl_drv (ax_call CHR ''x'')) (submit_order_tx ''test'' (ax_call CHR ''x'') ''o1'') sx_db))))) = None"
proof -
  obtain x sent db' where d: "dispatchMerchantOrder ax_lib sx_lib ''test'' (\<lambda>_. ax_call CHR ''x'') (Some sx_provider) [] ''o1'' sx_db = (x, Some sent, db')"
    using sx_dispatch by blast
  from checkout_is_created_once [OF sx_ok d] d show ?thesis by blast
qed

lemma sx_request: "\<exists>q db1. request_order_tx ax_lib ''test'' (ax_call CHR ''x'') ''b'' ''p'' 1 ''new'' sx_db = Inr (q, db1)
    \<and> mo_id q = ''x'' \<and> q \<notin> set (merchant_orders sx_db)
    \<and> (\<exists>y account co db2. dispatchMerchantOrder ax_lib sx_lib ''test'' (\<lambda>_. ax_call CHR ''y'') (Some sx_provider) [] ''x'' db1 = (y, Some (account, co), db2))"
  by (simp add: request_order_tx_def dispatchMerchantOrder_def validateMerchantProviderMode_def merchantModeValue_def in_tx_def with_tx_def
      submit_order_tx_def Let_def loadFreshMerchantAccount_def freshMerchantAccount_def one_owner_def active_user_def audit_def insert_row_def
      checkoutForOrder_def merchant_keys coalesce_def seq_simps sx_defs)

theorem shop_tables_consistent_witness:
  "\<exists>q \<in> set (merchant_orders (run_ops (merchant_exec ax_lib sx_lib ''test'') [(ax_call CHR ''x'', MRequestOrder ''b'' ''p'' 1 ''new'')] sx_db)).
     mo_id q = ''x''
     \<and> (\<exists>is1 is2. [(ax_call CHR ''x'', MRequestOrder ''b'' ''p'' 1 ''new'')] = is1 @ is2
          \<and> offers (merchant_products (run_ops (merchant_exec ax_lib sx_lib ''test'') is1 sx_db)) q)"
proof -
  let ?is = "[(ax_call CHR ''x'', MRequestOrder ''b'' ''p'' 1 ''new'')]"
  obtain q db1 where r: "request_order_tx ax_lib ''test'' (ax_call CHR ''x'') ''b'' ''p'' 1 ''new'' sx_db = Inr (q, db1)"
    "q \<notin> set (merchant_orders sx_db)" "mo_id q = ''x''" using sx_request by blast
  have "cl_drv (ax_call CHR ''x'') = None" by (simp add: ax_call_def)
  with r(1) have run: "run_ops (merchant_exec ax_lib sx_lib ''test'') ?is sx_db = db1"
    by (simp add: merchant_exec_def in_tx_def with_tx_def drop_value_def seq_simps)
  from request_orderD [OF r(1)] r(2) have "shop_of db1 = (shop_of sx_db)\<lparr>sh_orders := merchant_orders sx_db @ [q]\<rparr>" by blast
  then have "sh_orders (shop_of db1) = merchant_orders sx_db @ [q]" by simp
  then have q: "q \<in> set (merchant_orders (run_ops (merchant_exec ax_lib sx_lib ''test'') ?is sx_db))" unfolding run by simp
  have "\<not> (\<exists>p \<in> set (merchant_orders sx_db). order_terms q = order_terms p)"
    using r(3) by (auto simp: sx_db_def sx_order_def merchant_db.defs accounts_db.defs dest!: terms_fields(4))
  with shop_tables_consistent [OF sx_ok, of ax_lib sx_lib "''test''" ?is] q r(3) show ?thesis by blast
qed

theorem buyer_is_charged_the_listed_price_witness:
  "\<exists>q db1 y account co db2. request_order_tx ax_lib ''test'' (ax_call CHR ''x'') ''b'' ''p'' 1 ''new'' sx_db = Inr (q, db1)
     \<and> dispatchMerchantOrder ax_lib sx_lib ''test'' (\<lambda>_. ax_call CHR ''y'') (Some sx_provider) [] (mo_id q) db1 = (y, Some (account, co), db2)
     \<and> (\<exists>p \<in> set (merchant_products sx_db). mp_revision p = 1 \<and> od_AmountMinor co = mp_amount p)"
proof -
  obtain q db1 y account co db2 where r: "request_order_tx ax_lib ''test'' (ax_call CHR ''x'') ''b'' ''p'' 1 ''new'' sx_db = Inr (q, db1)"
      "q \<notin> set (merchant_orders sx_db)" "mo_id q = ''x''"
    and d: "dispatchMerchantOrder ax_lib sx_lib ''test'' (\<lambda>_. ax_call CHR ''y'') (Some sx_provider) [] ''x'' db1 = (y, Some (account, co), db2)"
    using sx_request by blast
  from d have d': "dispatchMerchantOrder ax_lib sx_lib ''test'' (\<lambda>_. ax_call CHR ''y'') (Some sx_provider) [] (mo_id q)
      (run_ops (merchant_exec ax_lib sx_lib ''test'') [] db1) = (y, Some (account, co), db2)" by (simp add: r(3))
  from buyer_is_charged_the_listed_price [OF sx_ok r(1,2) d'] have "\<exists>p \<in> set (merchant_products sx_db). mp_revision p = 1 \<and> od_AmountMinor co = mp_amount p"
    by auto
  with r(1) d' show ?thesis by (metis run_ops.simps(1))
qed

lemma sx_refunds:
  "\<exists>x rq db'. dispatchMerchantRefund ax_lib sx_lib ''test'' (\<lambda>_. ax_call CHR ''x'') (Some sx_provider) [] ''f2'' sx_db = (x, Some (''acct_1'', rq), db')"
  "\<exists>y rq' db2. dispatchMerchantRefund ax_lib sx_lib ''test'' (\<lambda>_. ax_call CHR ''y'') (Some sx_provider) [] ''f3''
      (snd (in_tx (cl_drv (ax_call CHR ''x'')) (submit_refund_tx ''test'' (ax_call CHR ''x'') ''f2'') sx_db)) = (y, Some (''acct_1'', rq'), db2)"
  by (simp_all add: dispatchMerchantRefund_def validateMerchantProviderMode_def merchantModeValue_def in_tx_def with_tx_def submit_refund_tx_def Let_def
      one_owner_def active_user_def audit_def insert_row_def refundRequest_def merchant_keys seq_simps sx_defs)

theorem refund_repays_the_order_once_witness:
  "\<exists>x rq db' y rq' db2. dispatchMerchantRefund ax_lib sx_lib ''test'' (\<lambda>_. ax_call CHR ''x'') (Some sx_provider) [] ''f2'' sx_db = (x, Some (''acct_1'', rq), db')
     \<and> dispatchMerchantRefund ax_lib sx_lib ''test'' (\<lambda>_. ax_call CHR ''y'') (Some sx_provider) [] ''f3''
         (snd (in_tx (cl_drv (ax_call CHR ''x'')) (submit_refund_tx ''test'' (ax_call CHR ''x'') ''f2'') sx_db)) = (y, Some (''acct_1'', rq'), db2)
     \<and> rq_OrderID rq' \<noteq> rq_OrderID rq
     \<and> (\<exists>q \<in> set (merchant_orders sx_db). mo_payment q = ''paid'' \<and> rq_AmountMinor rq = mo_amount q)"
proof -
  obtain x rq db' where d: "dispatchMerchantRefund ax_lib sx_lib ''test'' (\<lambda>_. ax_call CHR ''x'') (Some sx_provider) [] ''f2'' sx_db
      = (x, Some (''acct_1'', rq), db')" using sx_refunds(1) by blast
  obtain y rq' db2 where d2: "dispatchMerchantRefund ax_lib sx_lib ''test'' (\<lambda>_. ax_call CHR ''y'') (Some sx_provider) [] ''f3''
      (snd (in_tx (cl_drv (ax_call CHR ''x'')) (submit_refund_tx ''test'' (ax_call CHR ''x'') ''f2'') sx_db)) = (y, Some (''acct_1'', rq'), db2)"
    using sx_refunds(2) by blast
  from d2 have "dispatchMerchantRefund ax_lib sx_lib ''test'' (\<lambda>_. ax_call CHR ''y'') (Some sx_provider) [] ''f3''
      (run_ops (merchant_exec ax_lib sx_lib ''test'') [] (snd (in_tx (cl_drv (ax_call CHR ''x'')) (submit_refund_tx ''test'' (ax_call CHR ''x'') ''f2'') sx_db)))
      = (y, Some (''acct_1'', rq'), db2)" by simp
  with refund_repays_the_order_once [OF sx_ok d] have "rq_OrderID rq' \<noteq> rq_OrderID rq" by blast
  moreover from refund_repays_the_order_once [OF sx_ok d] have "\<exists>q \<in> set (merchant_orders sx_db). mo_payment q = ''paid'' \<and> rq_AmountMinor rq = mo_amount q"
    by blast
  ultimately show ?thesis using d d2 by blast
qed

lemma sx_start:
  "\<exists>q1 db1 q2 db2. start_order_tx ''test'' ''o2'' ''cs_test_2'' sx_db = Inr (q1, db1) \<and> start_order_tx ''test'' ''o2'' ''cs_test_2'' db1 = Inr (q2, db2)"
  by (simp add: start_order_tx_def merchantModeValue_def merchant_keys coalesce_def Let_def seq_simps sx_defs)

theorem stale_order_reading_is_refused_witness:
  "\<exists>q1 db1 q2 db2. start_order_tx ''test'' ''o2'' ''cs_test_2'' sx_db = Inr (q1, db1) \<and> start_order_tx ''test'' ''o2'' ''cs_test_2'' db1 = Inr (q2, db2)
     \<and> (\<forall>r. \<exists>e. bind_checkout_tx sx_lib ''test'' (ax_call CHR ''x'') ''o2'' r 0 (mo_generation q1 + 1) db2 = Inl e)"
proof -
  obtain q1 db1 q2 db2 where s: "start_order_tx ''test'' ''o2'' ''cs_test_2'' sx_db = Inr (q1, db1)"
    "start_order_tx ''test'' ''o2'' ''cs_test_2'' db1 = Inr (q2, db2)" using sx_start by blast
  from s(2) have "start_order_tx ''test'' ''o2'' ''cs_test_2'' (run_ops (merchant_exec ax_lib sx_lib ''test'') [] db1) = Inr (q2, db2)" by simp
  then have "\<exists>e. bind_checkout_tx sx_lib ''test'' (ax_call CHR ''x'') ''o2'' r 0 (mo_generation q1 + 1)
      (run_ops (merchant_exec ax_lib sx_lib ''test'') [] db2) = Inl e" for r
    by (rule stale_order_reading_is_refused [OF sx_ok s(1)])
  with s show ?thesis by auto
qed

lemma sx_token_valid: "validMerchantOrderToken sx_token"
  by (simp add: validMerchantOrderToken_def sx_token_def list_all_iff lower_hex_def byte_of_def)

lemma sx_revoke: "\<exists>db'. revoke_buyer_tx ax_lib ''test'' sx_token sx_db = Inr ((), db')
    \<and> (\<exists>q. buyerMerchantOrder ax_lib ''test'' (ax_call CHR ''y'') sx_token ''o2'' db' = Inr q)"
  using sx_token_valid
  by (simp add: revoke_buyer_tx_def drop_sessions_def buyerMerchantOrder_def merchantModeValue_def merchant_keys seq_simps sx_defs)

theorem revoked_buyer_keeps_only_own_orders_witness:
  "\<exists>db' q. revoke_buyer_tx ax_lib ''test'' sx_token sx_db = Inr ((), db')
     \<and> buyerMerchantOrder ax_lib ''test'' (ax_call CHR ''y'') sx_token ''o2'' db' = Inr q \<and> mo_buyer q = CHR ''#'' # sx_token"
proof -
  obtain db' q where r: "revoke_buyer_tx ax_lib ''test'' sx_token sx_db = Inr ((), db')"
    and b: "buyerMerchantOrder ax_lib ''test'' (ax_call CHR ''y'') sx_token ''o2'' db' = Inr q" using sx_revoke by blast
  have g: "\<forall>g \<in> set (recovery_grants sx_db). (rg_mode g, rg_session g) \<in> bu_ident ` set (buyer_sessions sx_db)"
    by (simp add: merchant_keys sx_defs)
  have o: "\<forall>i \<in> set []. opens ax_lib ''test'' i \<noteq> Some (merchantModeValue ''test'', lib_digest ax_lib sx_token)" by simp
  from b have "buyerMerchantOrder ax_lib ''test'' (ax_call CHR ''y'') sx_token ''o2'' (run_ops (merchant_exec ax_lib sx_lib ''test'') [] db') = Inr q" by simp
  from revoked_buyer_keeps_only_own_orders [OF r g o this] r b show ?thesis by (simp add: ax_lib_def)
qed

end
