(* ===== verification/Spec2Isabelle.thy ===== *)
theory Spec2Isabelle
  imports Node_Router_Conc Node_Gate Node_Inbox Portal_Guarantees Archive_Guarantees Billing_Worker Billing_Views Client_Guarantees Merchant_Guarantees
begin

text \<open>
  A verification development of the self-hosted deployer.

  \<^bold>\<open>The program.\<close> A customer portal (\<open>internal/portal\<close>) keeps accounts, workspaces, projects,
  uploads, website clients, billing evidence and the shop of each workspace in one SQL database and queues the
  work that publishes, bills and mails them. Uploads and built releases are archives that it validates
  (\<open>internal/projectarchive\<close>, \<open>internal/nodeartifact\<close>); its client of the payment provider
  (\<open>internal/hostingbilling\<close>) decides which answers of the provider count as evidence. A
  deployment inbox on a node (\<open>internal/noderuntime\<close>) accepts runtime requests. A launcher
  (\<open>internal/nodelaunch\<close>) reserves a user id and a port for an operation, installs the release,
  starts and stops its service through a durable gate, and observes the host. A router
  (\<open>internal/noderouter\<close>) moves the traffic of a site between the backends of such operations.

  \<^bold>\<open>Theories.\<close>
  \<^item> \<open>Prelude\<close>: errors, results, transactions, tables, histories and the locales of the
    contracts that the components share.
  \<^item> \<open>Go_Lib\<close>: the parts of Go's library that the sources call (hex, splitting, trimming,
    integers) and the check of a private file.
  \<^item> \<open>Node_Router\<close>, \<open>Node_Router_Conc\<close>: \<open>noderouter/\<close> router, retirement, ownership, readiness
    and drain; first the transactions and calls, then the goroutines of one router and the
    handles on one database as step relations.
  \<^item> \<open>Node_Pool\<close>: \<open>nodelaunch/\<close> unit, reservations and installation.
  \<^item> \<open>Node_Host\<close>: \<open>nodelaunch/\<close> usage, usage\_linux, systemd\_status, systemd\_status\_linux.
  \<^item> \<open>Node_Gate\<close>: \<open>nodelaunch/\<close> control\_linux, systemd\_start\_linux, systemd\_stop\_linux and
    retire\_linux, which composes the router, the pool, the gate and the host observation.
  \<^item> \<open>Node_Inbox\<close>: \<open>noderuntime/inbox.go\<close>.
  \<^item> \<open>Portal_Accounts\<close>: the accounts of \<open>portal/store.go\<close>, \<open>members.go\<close>, \<open>invitations.go\<close> and the
    rows that \<open>mail.go\<close> enqueues.
  \<^item> \<open>Portal_Hosting\<close>: \<open>hosting_access.go\<close>, \<open>hosting_limits.go\<close>, \<open>project_capacity.go\<close>, the
    projects of \<open>store.go\<close> and the admission of \<open>uploads.go\<close>.
  \<^item> \<open>Portal_Publish\<close>: \<open>publications.go\<close>, \<open>project_settings.go\<close>, the retention and listing of
    uploads, and the authorization of jobs in \<open>github_pipeline.go\<close>.
  \<^item> \<open>Portal_Builds\<close>: \<open>node_builds.go\<close>, \<open>node_build_claims.go\<close>, \<open>node_build_dependencies.go\<close>,
    the transactions of \<open>node_build_dispatch.go\<close>, \<open>node_build_recovery.go\<close>, \<open>node_build_worker.go\<close>
    and \<open>node_releases.go\<close>, and the build plan of \<open>nodebuild/plan.go\<close>.
  \<^item> \<open>Portal_Deployments\<close>: \<open>node_deployments.go\<close>, \<open>deployment_progress.go\<close>, the transactions of
    \<open>node_deployment_dispatch.go\<close> and \<open>node_deployment_recovery.go\<close>, and \<open>node_runtime_prior.go\<close>.
  \<^item> \<open>Job_Queue\<close>: the contract of a table of jobs, as locales.
  \<^item> \<open>Publish_Safety\<close>, \<open>Node_Safety\<close>, \<open>Deploy_Safety\<close>: the invariants of the three queues
    (publications, builds with their releases, deployments with what is active), each proved
    about a step relation that abstracts the committed transactions.
  \<^item> \<open>Portal_System\<close>: the modelled transactions on accounts, projects, uploads, publications, builds,
    releases and deployments as one family, what each is to the three queues, and the latches over its histories. Of the
    transactions on the same tables it leaves out the deletion of projects, \<open>CompleteGitHubImport\<close> (which inserts an upload)
    and the jobs that the push pipeline creates, so the properties over its histories do not speak about those.
  \<^item> \<open>Portal_Calls\<close>: the calls that take several transactions, among them the workers of builds
    and deployments (\<open>node_build_worker.go\<close>, \<open>node_deployment_worker.go\<close>), and that each of them
    is a history.
  \<^item> \<open>Release_Evidence\<close>, \<open>Portal_Guarantees\<close>: what the store promises over every history.
  \<^item> \<open>Go_Path\<close>, \<open>Project_Archive\<close>, \<open>Node_Artifact\<close>, \<open>Node_Extract\<close>: Go's \<open>path\<close> and \<open>utf8\<close>;
    \<open>projectarchive/validate.go\<close>; \<open>nodeartifact/\<close> artifact (with the resolution of links) and extract.
    \<open>Archive_Guarantees\<close> ties them to the store: a stored upload passed validation, a
    retained release can be installed.
  \<^item> \<open>Billing_Provider\<close>: \<open>hostingbilling/\<close> subscription, invoice\_charge, charge, price, checkout and
    webhook. \<open>Portal_Billing\<close>: the transactions of \<open>billing_*.go\<close>. \<open>Billing_Ledger\<close>,
    \<open>Billing_Safety\<close>: the ledger that they implement, and the refinement. \<open>Billing_Evidence\<close>: what the
    hosting decision means on the ledger's tables. \<open>Billing_Calls\<close>, \<open>Billing_Worker\<close>: the
    reconciliations and \<open>billing_worker.go\<close>. \<open>Billing_Views\<close>: \<open>billing_status.go\<close> and \<open>billing_history.go\<close>.
  \<^item> \<open>Portal_Clients\<close>: \<open>client_invitations.go\<close>, \<open>project_clients.go\<close>, \<open>client_access_history.go\<close>;
    \<open>Mail_Delivery\<close>: \<open>DeliverOne\<close> of \<open>mail.go\<close>; \<open>Client_Safety\<close>, \<open>Client_Guarantees\<close>: what they promise.
  \<^item> \<open>Portal_Merchant\<close>: the tables and transactions of \<open>merchant_*.go\<close>; \<open>Merchant_Calls\<close>: the calls
    that talk to the provider, and the workers; \<open>Merchant_Safety\<close>, \<open>Merchant_Steps\<close>: the
    abstract shop and the simulation; \<open>Merchant_Guarantees\<close>: what the shop promises over every history.

  \<^bold>\<open>How code is modelled.\<close> A function that returns a value and an error is a function into
  \<open>go_err + 'a\<close>; every early return is a branch. A database is a record of tables, a table a
  list of rows in insertion order, with the unique keys and indexes of the schema checked by
  the insert. A transaction is a function on the database that runs through \<open>with_tx\<close> or
  \<open>in_tx\<close>: an error rolls back, and the argument of type \<open>driver\<close> is a failure of the database
  driver (begin, query or commit) that rolls back too. Columns that hold JSON are values of the
  decoded type, with malformed content as an extra case where the code tells it apart. What the
  code reads from its surroundings is an explicit argument: clock readings and random tokens of
  a call (\<open>call\<close>), answers of probes, of the service manager, of \<open>/proc\<close> and of the file system
  (\<open>*_env\<close> and \<open>*_view\<close> records), and the transactions that other processes commit between two
  transactions of one call (\<open>mid\<close>). A polling loop recurs over the list of views that it reads,
  so it ends with the list. The transactions of a component form a datatype, and a history is a
  list of them run by \<open>run_ops\<close>; the safety properties speak about every history.

  \<^bold>\<open>What the lemmas show.\<close> For the router: activation serves what it reports, a failure keeps
  the old route, superseded and retired operations never serve, draining excludes traffic, and
  one handle owns the upstream side. For the pool and the gate: slots are exclusive, installer
  and start are dispatched at most once, retirement is permanent and rests on evidence that was
  observed. For the inbox: order, exclusiveness, idempotence and progress. For the portal: the
  tables stay consistent, a workspace keeps an active owner, changed roles and passwords revoke
  sessions, invitations admit once, and hosting rests on current payment. For the store as a
  whole: its tables stay consistent and within the quotas over every history of the modelled transactions; a publication goes live only when its lease holder reports the hash of its upload,
  is finished once, and publications are claimed in the order of their revisions; builds and
  deployments are dispatched at most once; a release rests on validated evidence and stays as
  long as a deployment needs it; the active deployment of a project is one whose route was
  observed, and reconciliation records what was observed, whatever commits meanwhile. For archives: the
  validator decides its specification and returns, links of an accepted artifact resolve inside it, and
  extraction writes exactly the listed tree. For billing: the tables implement a ledger, snapshots are
  fenced by a generation, a dispute withdraws the evidence at once, hosting is granted exactly on current
  payment, and following the cursors of the payment history lists every payment once. For clients and mail: an invitation admits once, a removed client is shut out, and a message is sent
  only while it is wanted. For the shop: its tables stay consistent, an order has the price of the revision it
  names, orders only move forward, a checkout is created once for the listed
  price, a refund repays a paid order once, and a revoked buyer keeps only its own orders.

  \<^bold>\<open>Locales.\<close> \<open>transactional\<close>, \<open>stable\<close>, \<open>latch\<close> and \<open>monotone_counter\<close> in \<open>Prelude\<close> state the
  contracts of a set of transactions over a history; each is interpreted on the transactions of
  the components, and the properties over histories rest on the interpreted facts. \<open>job_queue\<close>
  and \<open>revision_queue\<close> in \<open>Job_Queue\<close> state what the keys and the partial index of a table of
  jobs give; they are interpreted on publications, builds and deployments.

  \<^bold>\<open>Bounds and termination.\<close> No definition that translates code uses fuel. A loop of the source is structural
  recursion on what it reads (rows, entries of an archive, views of the host, answers of the provider), a
  \<open>function\<close> with a measure where it scans a string or walks a path, or a \<open>partial_function (option)\<close> where it may not end
  (\<open>for_parents\<close>), with the proof that it does for the names the validator accepts; the number of turns that a worker may
  take is the \<open>limit\<close> that the source passes. The file system's resolution of links, \<open>resolve\<close>, is a specification and not
  code: its number is the bound on links that a kernel has. Integers of the database are \<open>int\<close>; the sources keep
  them inside 64 bits by the bounds they check, which are guards of the model.

  \<^bold>\<open>Not modelled.\<close> The HTTP handlers (with the pages of \<open>merchant_shop.go\<close>) and command-line
  programs (decoding and wiring); the shop's client of the payment provider (\<open>internal/merchantbilling\<close>), of which only
  the types are modelled and whose answers are arbitrary; schema migrations; the clients of external services (registrar, source hosting, fleet
  API, container tools, SMTP; of the payment SDK only its answers are arguments); the
  installation of a node release (\<open>install_linux.go\<close>), whose result is the installer parameter of the gate;
  the export of artifacts and the verification of sealed trees; the server of static sites; the deadline of a
  call's context other than as a failure of the driver; \<open>PrepareNodeBuild\<close>, which downloads dependencies
  while a goroutine renews the lease (the renewal is modelled). The deletion of projects, container
  deployments, domains and the push pipeline are further components, not modelled.
\<close>

end
